(* ===== verification/Prelude.thy ===== *)
theory Prelude
  imports Main "HOL-Library.Word"
begin

text \<open>
  Shared vocabulary of the development: the collections of rewrite rules the component
  theories extend, the width synonyms of the machine integers that are kept at their width,
  the few string routines of Go's standard library that the daemon uses
  (\<open>strings.Replace\<close> with a count of one, \<open>strconv.Itoa\<close> and the
  \<open>%d\<close> and \<open>%x\<close> verbs of \<open>fmt\<close>, \<open>strings.Join\<close>),
  and list lemmas used by more than one component.
\<close>

named_theorems go_simps \<open>rewrite rules for the standard-library routines\<close>
named_theorems clock_simps \<open>rewrite rules shared by the clock state machines\<close>

section \<open>Machine integers kept at their width\<close>

type_synonym u8 = "8 word"
type_synonym u16 = "16 word"
type_synonym u32 = "32 word"
type_synonym i32 = "32 word"
type_synonym u64 = "64 word"

section \<open>Strings\<close>

text \<open>\<open>strings.HasPrefix\<close>.\<close>

definition has_prefix :: "string \<Rightarrow> string \<Rightarrow> bool" where
  "has_prefix s p \<longleftrightarrow> take (length p) s = p"

text \<open>\<open>strings.HasSuffix\<close>.\<close>

definition has_suffix :: "string \<Rightarrow> string \<Rightarrow> bool" where
  "has_suffix s p \<longleftrightarrow> has_prefix (rev s) (rev p)"

text \<open>\<open>strings.Replace(s, old, new, 1)\<close> for a non-empty \<open>old\<close>.\<close>

fun replace_first :: "string \<Rightarrow> string \<Rightarrow> string \<Rightarrow> string" where
  "replace_first [] old new = []"
| "replace_first (c # cs) old new =
     (if has_prefix (c # cs) old then new @ drop (length old) (c # cs)
      else c # replace_first cs old new)"

text \<open>The arithmetic of Go's \<open>int64\<close>, as integers that wrap around.\<close>

definition wrap64 :: "int \<Rightarrow> int" where
  "wrap64 x = (x + 2 ^ 63) mod 2 ^ 64 - 2 ^ 63"

lemma wrap64_id: "- (2 ^ 63) \<le> x \<Longrightarrow> x < 2 ^ 63 \<Longrightarrow> wrap64 x = x"
  by (simp add: wrap64_def)

text \<open>Decimal and lower-case hexadecimal output, as \<open>%d\<close> and \<open>%x\<close>.\<close>

definition digit_char :: "nat \<Rightarrow> char" where
  "digit_char d = (if d < 10 then char_of (48 + d) else char_of (87 + d))"

fun show_base :: "nat \<Rightarrow> nat \<Rightarrow> string" where
  "show_base b n =
     (if b < 2 \<or> n < b then [digit_char n] else show_base b (n div b) @ [digit_char (n mod b)])"

declare show_base.simps [simp del]

definition show_nat :: "nat \<Rightarrow> string" where
  "show_nat n = show_base 10 n"

definition show_hex :: "nat \<Rightarrow> string" where
  "show_hex n = show_base 16 n"

definition show_int :: "int \<Rightarrow> string" where
  "show_int i = (if i < 0 then CHR ''-'' # show_nat (nat (- i)) else show_nat (nat i))"

definition show_bool :: "bool \<Rightarrow> string" where
  "show_bool b = (if b then ''true'' else ''false'')"

text \<open>\<open>strings.Join\<close>.\<close>

fun join :: "string \<Rightarrow> string list \<Rightarrow> string" where
  "join sep [] = []"
| "join sep [x] = x"
| "join sep (x # y # xs) = x @ sep @ join sep (y # xs)"

lemma replace_first_no_match [go_simps]:
  "(\<And>k. k < length s \<Longrightarrow> \<not> has_prefix (drop k s) old) \<Longrightarrow> replace_first s old new = s"
proof (induction s)
  case Nil
  then show ?case by simp
next
  case (Cons c cs)
  have "\<not> has_prefix (c # cs) old"
    using Cons.prems [of 0] by simp
  moreover have "\<not> has_prefix (drop k cs) old" if "k < length cs" for k
    using Cons.prems [of "Suc k"] that by simp
  ultimately show ?case
    using Cons.IH by simp
qed

section \<open>Lists\<close>

text \<open>The first element that satisfies a predicate is updated, or a fresh one appended.\<close>

fun upsert :: "('a \<Rightarrow> bool) \<Rightarrow> 'a \<Rightarrow> ('a \<Rightarrow> 'a) \<Rightarrow> 'a list \<Rightarrow> 'a list" where
  "upsert p fresh f [] = [f fresh]"
| "upsert p fresh f (x # xs) = (if p x then f x # xs else x # upsert p fresh f xs)"

fun update_first :: "('a \<Rightarrow> bool) \<Rightarrow> ('a \<Rightarrow> 'a) \<Rightarrow> 'a list \<Rightarrow> 'a list" where
  "update_first p f [] = []"
| "update_first p f (x # xs) = (if p x then f x # xs else x # update_first p f xs)"

lemma update_first_map [simp]:
  "(\<And>x. g (f x) = g x) \<Longrightarrow> map g (update_first p f xs) = map g xs"
  by (induction xs) auto

lemma length_update_first [simp]: "length (update_first p f xs) = length xs"
  by (induction xs) auto

lemma set_update_first: "set (update_first p f xs) \<subseteq> set xs \<union> f ` {x \<in> set xs. p x}"
  by (induction xs) auto

lemma find_update_first:
  "find p xs = Some x \<Longrightarrow> p (f x) \<Longrightarrow> find p (update_first p f xs) = Some (f x)"
  by (induction xs) auto

lemma find_update_first_other:
  "(\<And>x. p x \<Longrightarrow> \<not> q x \<and> \<not> q (f x)) \<Longrightarrow> find q (update_first p f xs) = find q xs"
  by (induction xs) auto

lemma find_append: "find p (xs @ ys) = (case find p xs of Some x \<Rightarrow> Some x | None \<Rightarrow> find p ys)"
  by (induction xs) auto

lemma set_upsert:
  "set (upsert p fresh f xs) \<subseteq> insert (f fresh) (set xs \<union> f ` {x \<in> set xs. p x})"
  by (induction xs) auto

lemma upsert_nonempty [simp]: "upsert p fresh f xs \<noteq> []"
  by (cases xs) auto

lemma list_all_upsert:
  assumes "list_all P xs" and "P (f fresh)" and "\<And>x. P x \<Longrightarrow> p x \<Longrightarrow> P (f x)"
  shows "list_all P (upsert p fresh f xs)"
  using assms by (induction xs) auto

lemma map_upsert_key:
  assumes "\<And>x. p x \<longleftrightarrow> key x = k" and "key fresh = k" and "\<And>x. key (f x) = key x"
  shows "map key (upsert p fresh f xs) =
    (if k \<in> set (map key xs) then map key xs else map key xs @ [k])"
  using assms by (induction xs) auto

lemma distinct_upsert_key:
  assumes "\<And>x. p x \<longleftrightarrow> key x = k" and "key fresh = k" and "\<And>x. key (f x) = key x"
    and "distinct (map key xs)"
  shows "distinct (map key (upsert p fresh f xs))"
  using map_upsert_key [of p key k fresh f xs, OF assms(1-3)] assms(4) by auto

section \<open>Runs\<close>

text \<open>
  The interface of a component that is a list of steps, each enabled or not: what every enabled and
  permitted step preserves holds after every run of permitted steps.
\<close>

locale stepper =
  fixes step :: "'e \<Rightarrow> 's \<Rightarrow> 's option"
    and run :: "'e list \<Rightarrow> 's \<Rightarrow> 's option"
    and permitted :: "'e \<Rightarrow> bool"
    and inv :: "'s \<Rightarrow> bool"
  assumes run_Nil: "run [] s = Some s"
    and run_Cons: "run (e # es) s = (case step e s of None \<Rightarrow> None | Some s' \<Rightarrow> run es s')"
    and step_inv: "inv s \<Longrightarrow> permitted e \<Longrightarrow> step e s = Some s' \<Longrightarrow> inv s'"
begin

lemma run_inv: "inv s \<Longrightarrow> list_all permitted es \<Longrightarrow> run es s = Some s' \<Longrightarrow> inv s'"
proof (induction es arbitrary: s)
  case (Cons e es)
  from Cons.prems(3) obtain t where "step e s = Some t" "run es t = Some s'"
    by (auto simp: run_Cons split: option.splits)
  with Cons.prems(1,2) Cons.IH [of t] step_inv [of s e t] show ?case by simp
qed (simp add: run_Nil)

lemma run_append: "run (es @ fs) s = (case run es s of None \<Rightarrow> None | Some t \<Rightarrow> run fs t)"
  by (induction es arbitrary: s) (auto simp: run_Nil run_Cons split: option.splits)

end

end
