(* ===== verification/Ipc.thy ===== *)
theory Ipc
  imports Prelude "HOL-Library.AList"
begin

text \<open>
  \<open>pkg/ipc\<close>: the messages the daemon publishes to cloud-event-proxy (\<open>ipc.go\<close>) and the cache
  that keeps the latest message per (type, profile, interface) and suppresses duplicates
  (\<open>cache.go\<close>). Unmarshalling JSON text into a value is a parameter; choosing the value type
  from the message type is modelled.
\<close>

section \<open>Messages\<close>

abbreviation Version :: int where "Version \<equiv> 1"

abbreviation TypePTPState :: string where "TypePTPState \<equiv> ''ptp_state''"
abbreviation TypeOSClockState :: string where "TypeOSClockState \<equiv> ''os_clock_state''"
abbreviation TypeClockClass :: string where "TypeClockClass \<equiv> ''clock_class''"
abbreviation TypeGNSSState :: string where "TypeGNSSState \<equiv> ''gnss_state''"
abbreviation TypeSyncEState :: string where "TypeSyncEState \<equiv> ''synce_state''"
abbreviation TypeSyncEClockQuality :: string where "TypeSyncEClockQuality \<equiv> ''synce_clock_quality''"
abbreviation TypeSyncState :: string where "TypeSyncState \<equiv> ''sync_state''"
abbreviation TypeCacheClear :: string where "TypeCacheClear \<equiv> ''cache_clear''"
abbreviation TypeStatusRequest :: string where "TypeStatusRequest \<equiv> ''status_request''"

abbreviation StateLocked :: string where "StateLocked \<equiv> ''LOCKED''"
abbreviation StateHoldover :: string where "StateHoldover \<equiv> ''HOLDOVER''"
abbreviation StateFreerun :: string where "StateFreerun \<equiv> ''FREERUN''"

datatype ipc_value =
    StateValue (sv_State: string) (sv_Offset: int)
  | GNSSStateValue string
  | SyncStateValue string
  | SyncEStateValue string
  | ClockClassValue u8
  | SyncEClockQualityValue (qv_QL: int) (qv_ExtendedQL: int)

record message =
  m_Version :: int
  m_Type :: string
  m_Timestamp :: string
  m_Profile :: string
  m_IFace :: string
  m_Values :: "ipc_value option"

text \<open>A message literal that leaves the version and the timestamp to the cache.\<close>

definition new_message :: "string \<Rightarrow> string \<Rightarrow> string \<Rightarrow> ipc_value \<Rightarrow> message" where
  "new_message ty profile iface v =
     \<lparr>m_Version = 0, m_Type = ty, m_Timestamp = '''', m_Profile = profile, m_IFace = iface,
      m_Values = Some v\<rparr>"

lemma new_message_simps [simp]:
  "m_Version (new_message ty p i v) = 0" "m_Type (new_message ty p i v) = ty"
  "m_Timestamp (new_message ty p i v) = ''''" "m_Profile (new_message ty p i v) = p"
  "m_IFace (new_message ty p i v) = i" "m_Values (new_message ty p i v) = Some v"
  by (simp_all add: new_message_def)

text \<open>\<open>Message.ValuesEqual\<close>, one case per type of the switch.\<close>

fun ValuesEqual :: "message \<Rightarrow> message \<Rightarrow> bool" where
  "ValuesEqual m other =
     (case m_Values m of
        Some (StateValue s n) \<Rightarrow> (case m_Values other of Some (StateValue s' n') \<Rightarrow> s = s' \<and> n = n' | _ \<Rightarrow> False)
      | Some (GNSSStateValue s) \<Rightarrow> (case m_Values other of Some (GNSSStateValue s') \<Rightarrow> s = s' | _ \<Rightarrow> False)
      | Some (SyncStateValue s) \<Rightarrow> (case m_Values other of Some (SyncStateValue s') \<Rightarrow> s = s' | _ \<Rightarrow> False)
      | Some (SyncEStateValue s) \<Rightarrow> (case m_Values other of Some (SyncEStateValue s') \<Rightarrow> s = s' | _ \<Rightarrow> False)
      | Some (ClockClassValue c) \<Rightarrow> (case m_Values other of Some (ClockClassValue c') \<Rightarrow> c = c' | _ \<Rightarrow> False)
      | Some (SyncEClockQualityValue q e) \<Rightarrow>
          (case m_Values other of Some (SyncEClockQualityValue q' e') \<Rightarrow> q = q' \<and> e = e' | _ \<Rightarrow> False)
      | None \<Rightarrow> False)"

declare ValuesEqual.simps [simp del]

lemma ValuesEqual_iff: "ValuesEqual m n \<longleftrightarrow> m_Values m \<noteq> None \<and> m_Values n = m_Values m"
proof (cases "m_Values m")
  case None
  then show ?thesis by (simp add: ValuesEqual.simps)
next
  case (Some v)
  then show ?thesis
    by (cases "m_Values n"; cases v; cases "the (m_Values n)") (auto simp: ValuesEqual.simps)
qed

text \<open>
  \<open>Message.UnmarshalJSON\<close>: \<open>raw\<close> is the outer object with the values left as text, \<open>decode\<close>
  stands for \<open>json.Unmarshal\<close> into one of the value structs, \<open>Inl\<close> its error.
\<close>

datatype value_struct = VState | VGNSSState | VSyncState | VSyncEState | VClockClass | VSyncEClockQuality

record raw_message =
  r_Version :: int
  r_Type :: string
  r_Timestamp :: string
  r_Profile :: string
  r_IFace :: string
  r_Values :: string

definition unmarshal_struct :: "string \<Rightarrow> value_struct option" where
  "unmarshal_struct ty =
     (if ty = TypePTPState \<or> ty = TypeOSClockState then Some VState
      else if ty = TypeGNSSState then Some VGNSSState
      else if ty = TypeSyncState then Some VSyncState
      else if ty = TypeSyncEState then Some VSyncEState
      else if ty = TypeClockClass then Some VClockClass
      else if ty = TypeSyncEClockQuality then Some VSyncEClockQuality
      else None)"

definition UnmarshalJSON ::
  "(value_struct \<Rightarrow> string \<Rightarrow> string + ipc_value) \<Rightarrow> string + raw_message \<Rightarrow> message \<Rightarrow> string + message" where
  "UnmarshalJSON decode data m =
     (case data of Inl err \<Rightarrow> Inl err
      | Inr r \<Rightarrow>
        (let m1 = m\<lparr>m_Version := r_Version r, m_Type := r_Type r, m_Timestamp := r_Timestamp r,
                    m_Profile := r_Profile r, m_IFace := r_IFace r\<rparr>
         in if r_Values r = [] then Inr m1
            else (case unmarshal_struct (r_Type r) of None \<Rightarrow> Inr m1
                  | Some k \<Rightarrow> (case decode k (r_Values r) of Inl err \<Rightarrow> Inl err
                              | Inr v \<Rightarrow> Inr (m1\<lparr>m_Values := Some v\<rparr>)))))"

text \<open>\<open>Transmit\<close>: messages are written in order until the encoder reports an error.\<close>

fun Transmit :: "(message \<Rightarrow> string + string) \<Rightarrow> string list \<Rightarrow> message list \<Rightarrow> string list \<times> string option" where
  "Transmit encode w [] = (w, None)"
| "Transmit encode w (m # ms) =
     (case encode m of Inl err \<Rightarrow> (w, Some err) | Inr line \<Rightarrow> Transmit encode (w @ [line]) ms)"

section \<open>The cache\<close>

type_synonym cache_key = "string \<times> string \<times> string"

record cache =
  c_store :: "(cache_key \<times> message) list"
  c_out :: "message list"
  c_buf :: nat

definition NewCache :: "nat \<Rightarrow> cache" where
  "NewCache bufSize = \<lparr>c_store = [], c_out = [], c_buf = bufSize\<rparr>"

definition msg_key :: "message \<Rightarrow> cache_key" where
  "msg_key m = (m_Type m, m_Profile m, m_IFace m)"

text \<open>A send on the buffered channel with a \<open>default\<close> branch: dropped when the buffer is full.\<close>

definition offer :: "nat \<Rightarrow> message \<Rightarrow> message list \<Rightarrow> message list" where
  "offer n m out = (if length out < n then out @ [m] else out)"

definition stamp :: "string \<Rightarrow> message \<Rightarrow> message" where
  "stamp now m =
     (let m1 = (if m_Version m = 0 then m\<lparr>m_Version := Version\<rparr> else m)
      in if m_Timestamp m1 = '''' then m1\<lparr>m_Timestamp := now\<rparr> else m1)"

definition cache_Send :: "string \<Rightarrow> message \<Rightarrow> cache \<Rightarrow> cache \<times> bool" where
  "cache_Send now m0 c =
     (let m = stamp now m0; key = msg_key m in
      if (case map_of (c_store c) key of Some prev \<Rightarrow> ValuesEqual prev m | None \<Rightarrow> False)
      then (c, False)
      else (c\<lparr>c_store := AList.update key m (c_store c), c_out := offer (c_buf c) m (c_out c)\<rparr>, True))"

text \<open>The order of the list stands for the arbitrary iteration order of the Go map.\<close>

definition cache_Snapshot :: "cache \<Rightarrow> message list" where
  "cache_Snapshot c = map snd (c_store c)"

definition cache_Clear :: "cache \<Rightarrow> cache" where
  "cache_Clear c =
     c\<lparr>c_store := [],
       c_out := offer (c_buf c)
         \<lparr>m_Version = Version, m_Type = TypeCacheClear, m_Timestamp = '''', m_Profile = '''',
          m_IFace = '''', m_Values = None\<rparr> (c_out c)\<rparr>"

text \<open>\<open>Out\<close> hands the channel to the link, which drains it: one receive.\<close>

definition cache_Receive :: "cache \<Rightarrow> cache" where
  "cache_Receive c = c\<lparr>c_out := tl (c_out c)\<rparr>"

section \<open>The cache refines a map from keys to values\<close>

definition cache_abs :: "cache \<Rightarrow> cache_key \<Rightarrow> ipc_value option option" where
  "cache_abs c k = map_option m_Values (map_of (c_store c) k)"

definition cache_inv :: "cache \<Rightarrow> bool" where
  "cache_inv c \<longleftrightarrow> distinct (map fst (c_store c)) \<and> length (c_out c) \<le> c_buf c \<and>
     (\<forall>(k, m) \<in> set (c_store c). msg_key m = k)"

lemma msg_key_stamp [simp]: "msg_key (stamp now m) = msg_key m"
  and m_Values_stamp [simp]: "m_Values (stamp now m) = m_Values m"
  and m_Type_stamp [simp]: "m_Type (stamp now m) = m_Type m"
  by (simp_all add: stamp_def msg_key_def Let_def)

lemma length_offer: "length out \<le> n \<Longrightarrow> length (offer n m out) \<le> n"
  by (simp add: offer_def)

lemma set_update_AList:
  "set (AList.update k v al) \<subseteq> insert (k, v) (set al)"
  by (induction al) auto

lemma cache_inv_New: "cache_inv (NewCache n)"
  by (simp add: cache_inv_def NewCache_def)

lemma cache_inv_Send:
  assumes "cache_inv c"
  shows "cache_inv (fst (cache_Send now m c))"
proof -
  have "set (AList.update (msg_key m) (stamp now m) (c_store c)) \<subseteq>
      insert (msg_key m, stamp now m) (set (c_store c))"
    by (rule set_update_AList)
  then show ?thesis
    using assms
    by (auto simp: cache_inv_def cache_Send_def Let_def length_offer distinct_update)
qed

lemma cache_inv_Clear: "cache_inv c \<Longrightarrow> cache_inv (cache_Clear c)"
  by (simp add: cache_inv_def cache_Clear_def length_offer)

lemma cache_inv_Receive: "cache_inv c \<Longrightarrow> cache_inv (cache_Receive c)"
  by (auto simp: cache_inv_def cache_Receive_def)

lemma cache_abs_Send:
  "cache_abs (fst (cache_Send now m c)) = (cache_abs c)(msg_key m \<mapsto> m_Values m)"
proof
  fix k
  show "cache_abs (fst (cache_Send now m c)) k = ((cache_abs c)(msg_key m \<mapsto> m_Values m)) k"
    by (auto simp: cache_abs_def cache_Send_def Let_def update_conv' ValuesEqual_iff
        split: option.splits)
qed

lemma cache_abs_Clear: "cache_abs (cache_Clear c) = Map.empty"
  by (simp add: cache_abs_def cache_Clear_def fun_eq_iff)

text \<open>
  The interface the clock manager relies on: a keyed store whose lookup is a map update, and
  what any sequence of sends leaves behind.
\<close>

locale keyed_store =
  fixes send :: "'m \<Rightarrow> 's \<Rightarrow> 's"
    and clear :: "'s \<Rightarrow> 's"
    and look :: "'s \<Rightarrow> 'k \<Rightarrow> 'v option"
    and key :: "'m \<Rightarrow> 'k"
    and val :: "'m \<Rightarrow> 'v"
  assumes look_send: "look (send m s) = (look s)(key m \<mapsto> val m)"
    and look_clear: "look (clear s) = Map.empty"
begin

lemma look_fold_None:
  "k \<notin> key ` set ms \<Longrightarrow> look (fold send ms s) k = look s k"
  by (induction ms arbitrary: s) (auto simp: look_send)

lemma look_fold_last:
  assumes "k \<notin> key ` set later" and "key m = k"
  shows "look (fold send (earlier @ m # later) s) k = Some (val m)"
  using assms look_fold_None [of k later "send m (fold send earlier s)"] by (simp add: look_send)

end

interpretation ipc_cache: keyed_store "\<lambda>m c. fst (cache_Send now m c)" cache_Clear cache_abs msg_key m_Values
  by unfold_locales (simp_all add: cache_abs_Send cache_abs_Clear)

text \<open>Any sequence of calls on the cache.\<close>

datatype cache_op = CacheSend string message | CacheClear | CacheReceive

fun cache_op_run :: "cache_op \<Rightarrow> cache \<Rightarrow> cache" where
  "cache_op_run (CacheSend now m) c = fst (cache_Send now m c)"
| "cache_op_run CacheClear c = cache_Clear c"
| "cache_op_run CacheReceive c = cache_Receive c"

lemma cache_inv_ops: "cache_inv c \<Longrightarrow> cache_inv (fold cache_op_run ops c)"
proof (induction ops arbitrary: c)
  case Nil
  then show ?case by simp
next
  case (Cons x xs)
  then show ?case by (cases x) (simp_all add: cache_inv_Send cache_inv_Clear cache_inv_Receive)
qed

lemma c_buf_ops: "c_buf (fold cache_op_run ops c) = c_buf c"
proof (induction ops arbitrary: c)
  case Nil
  then show ?case by simp
next
  case (Cons x xs)
  then show ?case by (cases x) (simp_all add: cache_Send_def cache_Clear_def cache_Receive_def Let_def)
qed

section \<open>Properties\<close>

text \<open>
  C36. The cache refines a map from (type, profile, interface) to values: sending is a map update,
  whatever was cached, stamped or suppressed before, and clearing empties the map.
\<close>

theorem cache_refines_map:
  "cache_abs (fst (cache_Send now m c)) = (cache_abs c)(msg_key m \<mapsto> m_Values m) \<and>
   cache_abs (cache_Clear c) = Map.empty"
  by (simp add: cache_abs_Send cache_abs_Clear)

text \<open>
  After any sequence of sends the value found under a key is that of the last message sent
  with it.
\<close>

lemma cache_holds_last:
  assumes "msg_key m \<notin> msg_key ` set later"
  shows "cache_abs (fold (\<lambda>m c. fst (cache_Send now m c)) (earlier @ m # later) c) (msg_key m) =
    Some (m_Values m)"
  by (rule ipc_cache.look_fold_last [OF assms refl])

text \<open>
  A send is suppressed exactly when the cache already holds an equal, non-nil value under the
  message's key, and a suppressed send changes nothing.
\<close>

lemma cache_suppression:
  "snd (cache_Send now m c) =
     (\<not> (m_Values m \<noteq> None \<and> cache_abs c (msg_key m) = Some (m_Values m))) \<and>
   (snd (cache_Send now m c) \<or> fst (cache_Send now m c) = c)"
  by (auto simp: cache_Send_def cache_abs_def Let_def ValuesEqual_iff split: option.splits)

text \<open>
  Starting from a new cache, any sends, clears and receives leave one entry per key, each under its own
  key, and never more messages in the output channel than its buffer holds.
\<close>

lemma cache_ops_invariant:
  "map fst (c_store (fold cache_op_run ops (NewCache n))) =
     map msg_key (cache_Snapshot (fold cache_op_run ops (NewCache n))) \<and>
   distinct (map msg_key (cache_Snapshot (fold cache_op_run ops (NewCache n)))) \<and>
   length (c_out (fold cache_op_run ops (NewCache n))) \<le> n"
proof -
  let ?c = "fold cache_op_run ops (NewCache n)"
  have inv: "cache_inv ?c" by (rule cache_inv_ops [OF cache_inv_New])
  then have "map fst (c_store ?c) = map msg_key (cache_Snapshot ?c)"
    by (auto simp: cache_inv_def cache_Snapshot_def)
  moreover have "c_buf ?c = n" by (simp add: c_buf_ops NewCache_def)
  ultimately show ?thesis using inv by (auto simp: cache_inv_def)
qed

end
