(* ===== verification/Float64.thy ===== *)
theory Float64
  imports Prelude Complex_Main
begin

text \<open>
  Go's \<open>float64\<close>: a finite value is the rational it denotes, kept to 53 significant bits by
  rounding to nearest, ties to even, after every operation. Infinities and NaN are values of
  their own. Two features of IEEE 754 are left out because nothing in the daemon can observe
  them: the sign of zero and the loss of precision below \<open>2^-1022\<close>.
\<close>

datatype f64 = Fin rat | Inf bool | NaN

section \<open>Rounding\<close>

definition round_half_even :: "rat \<Rightarrow> int" where
  "round_half_even q =
     (let f = \<lfloor>q\<rfloor>; d = q - of_int f in
      if d < 1 / 2 then f else if 1 / 2 < d then f + 1 else if even f then f else f + 1)"

fun bit_length :: "nat \<Rightarrow> nat" where
  "bit_length n = (if n = 0 then 0 else Suc (bit_length (n div 2)))"

declare bit_length.simps [simp del]

definition scale2 :: "int \<Rightarrow> rat" where
  "scale2 e = (if 0 \<le> e then 2 ^ nat e else 1 / 2 ^ nat (- e))"

text \<open>The exponent that brings the significand of \<open>q\<close> into \<open>[2^52, 2^53)\<close>.\<close>

definition f64_exponent :: "rat \<Rightarrow> int" where
  "f64_exponent q =
     (let (n, d) = quotient_of \<bar>q\<bar>;
          e = int (bit_length (nat n)) - int (bit_length (nat d)) - 53
      in if \<bar>q\<bar> / scale2 e < 2 ^ 53 then e else e + 1)"

definition round53 :: "rat \<Rightarrow> rat" where
  "round53 q =
     (if q = 0 then 0
      else let s = scale2 (f64_exponent q) in of_int (round_half_even (q / s)) * s)"

definition f64_norm :: "rat \<Rightarrow> f64" where
  "f64_norm q = (let r = round53 q in if 2 ^ 1024 \<le> \<bar>r\<bar> then Inf (r < 0) else Fin r)"

text \<open>The conversion \<open>float64(n)\<close> of an integer; an \<open>int64\<close> or \<open>uint64\<close> never overflows.\<close>

definition f64_of_int :: "int \<Rightarrow> f64" where
  "f64_of_int n = Fin (round53 (of_int n))"

section \<open>Operations\<close>

fun f64_abs :: "f64 \<Rightarrow> f64" where
  "f64_abs (Fin q) = Fin \<bar>q\<bar>"
| "f64_abs (Inf _) = Inf False"
| "f64_abs NaN = NaN"

fun f64_lt :: "f64 \<Rightarrow> f64 \<Rightarrow> bool" where
  "f64_lt (Fin a) (Fin b) = (a < b)"
| "f64_lt (Fin a) (Inf n) = (\<not> n)"
| "f64_lt (Inf m) (Fin b) = m"
| "f64_lt (Inf m) (Inf n) = (m \<and> \<not> n)"
| "f64_lt _ _ = False"

fun f64_le :: "f64 \<Rightarrow> f64 \<Rightarrow> bool" where
  "f64_le (Fin a) (Fin b) = (a \<le> b)"
| "f64_le (Fin a) (Inf n) = (\<not> n)"
| "f64_le (Inf m) (Fin b) = m"
| "f64_le (Inf m) (Inf n) = (m \<or> \<not> n)"
| "f64_le _ _ = False"

text \<open>\<open>math.Max\<close> and \<open>math.Min\<close>.\<close>

definition f64_max :: "f64 \<Rightarrow> f64 \<Rightarrow> f64" where
  "f64_max x y =
     (if x = Inf False \<or> y = Inf False then Inf False
      else if x = NaN \<or> y = NaN then NaN
      else if f64_lt y x then x else y)"

definition f64_min :: "f64 \<Rightarrow> f64 \<Rightarrow> f64" where
  "f64_min x y =
     (if x = Inf True \<or> y = Inf True then Inf True
      else if x = NaN \<or> y = NaN then NaN
      else if f64_lt x y then x else y)"

fun f64_add :: "f64 \<Rightarrow> f64 \<Rightarrow> f64" where
  "f64_add (Fin a) (Fin b) = f64_norm (a + b)"
| "f64_add (Inf m) (Inf n) = (if m = n then Inf m else NaN)"
| "f64_add (Inf m) (Fin _) = Inf m"
| "f64_add (Fin _) (Inf n) = Inf n"
| "f64_add _ _ = NaN"

fun f64_mul :: "f64 \<Rightarrow> f64 \<Rightarrow> f64" where
  "f64_mul (Fin a) (Fin b) = f64_norm (a * b)"
| "f64_mul (Inf m) (Inf n) = Inf (m \<noteq> n)"
| "f64_mul (Inf m) (Fin b) = (if b = 0 then NaN else Inf (m \<noteq> (b < 0)))"
| "f64_mul (Fin a) (Inf n) = (if a = 0 then NaN else Inf (n \<noteq> (a < 0)))"
| "f64_mul _ _ = NaN"

fun f64_div :: "f64 \<Rightarrow> f64 \<Rightarrow> f64" where
  "f64_div (Fin a) (Fin b) =
     (if b = 0 then (if a = 0 then NaN else Inf (a < 0)) else f64_norm (a / b))"
| "f64_div (Inf m) (Fin b) = Inf (m \<noteq> (b < 0))"
| "f64_div (Fin _) (Inf _) = Fin 0"
| "f64_div _ _ = NaN"

text \<open>
  The conversion \<open>int64(x)\<close>: truncation towards zero. For NaN and for values outside the
  range the language leaves the result to the implementation; amd64 yields the least
  \<open>int64\<close>.
\<close>

definition truncate_rat :: "rat \<Rightarrow> int" where
  "truncate_rat q = (if q < 0 then - \<lfloor>- q\<rfloor> else \<lfloor>q\<rfloor>)"

fun f64_to_int64 :: "f64 \<Rightarrow> int" where
  "f64_to_int64 (Fin q) =
     (let n = truncate_rat q in if - (2 ^ 63) \<le> n \<and> n < 2 ^ 63 then n else - (2 ^ 63))"
| "f64_to_int64 _ = - (2 ^ 63)"

text \<open>\<open>math.Round\<close>: nearest integer, halves away from zero.\<close>

fun f64_round :: "f64 \<Rightarrow> f64" where
  "f64_round (Fin q) =
     Fin (of_int (if q < 0 then - \<lfloor>- q + 1 / 2\<rfloor> else \<lfloor>q + 1 / 2\<rfloor>))"
| "f64_round x = x"

section \<open>Integers below two to the 53 are exact\<close>

lemma bit_length_le: "n < 2 ^ k \<Longrightarrow> bit_length n \<le> k"
proof (induction k arbitrary: n)
  case 0
  then show ?case by (simp add: bit_length.simps)
next
  case (Suc k)
  then have "n div 2 < 2 ^ k" by auto
  with Suc.IH have "bit_length (n div 2) \<le> k" by blast
  then show ?case by (subst bit_length.simps) simp
qed

lemma bit_length_1 [simp]: "bit_length (Suc 0) = 1"
  by (simp add: bit_length.simps)

lemma round_half_even_int [simp]: "round_half_even (of_int n) = n"
  by (simp add: round_half_even_def)

lemma f64_exponent_int_le:
  assumes "\<bar>n\<bar> < 2 ^ 53"
  shows "f64_exponent (of_int n) \<le> 0"
proof -
  have "nat \<bar>n\<bar> < 2 ^ 53" using assms by (simp add: nat_less_iff)
  then have "bit_length (nat \<bar>n\<bar>) \<le> 53" by (rule bit_length_le)
  moreover have "quotient_of \<bar>of_int n\<bar> = (\<bar>n\<bar>, 1)"
    by (simp flip: of_int_abs add: quotient_of_int)
  ultimately show ?thesis by (simp add: f64_exponent_def Let_def)
qed

lemma round53_int:
  assumes "\<bar>n\<bar> < 2 ^ 53"
  shows "round53 (of_int n) = of_int n"
proof (cases "n = 0")
  case True
  then show ?thesis by (simp add: round53_def)
next
  case False
  define k where "k = nat (- f64_exponent (of_int n))"
  have "scale2 (f64_exponent (of_int n)) = 1 / 2 ^ k"
    using f64_exponent_int_le [OF assms] by (auto simp: scale2_def k_def)
  moreover have "(of_int n :: rat) * 2 ^ k = of_int (n * 2 ^ k)"
    by simp
  then have "round_half_even (of_int n * 2 ^ k) = n * 2 ^ k"
    by (metis round_half_even_int)
  ultimately show ?thesis using False by (simp add: round53_def Let_def)
qed

lemma f64_of_int_exact [simp]: "\<bar>n\<bar> < 2 ^ 53 \<Longrightarrow> f64_of_int n = Fin (of_int n)"
  by (simp add: f64_of_int_def round53_int)

lemma f64_of_int_cases:
  obtains q where "f64_of_int n = Fin q"
  by (simp add: f64_of_int_def)

lemma f64_of_int_0: "f64_of_int 0 = Fin 0"
  by simp

lemma f64_norm_int:
  assumes "\<bar>n\<bar> < 2 ^ 53"
  shows "f64_norm (of_int n) = Fin (of_int n)"
proof -
  have "\<bar>rat_of_int n\<bar> < 2 ^ 53"
    using assms by (metis of_int_abs of_int_less_iff of_int_numeral of_int_power)
  then have "\<not> 2 ^ 1024 \<le> \<bar>rat_of_int n\<bar>"
    by (simp add: not_le)
  with round53_int [OF assms] show ?thesis by (simp add: f64_norm_def)
qed

lemma truncate_rat_int [simp]: "truncate_rat (of_int n) = n"
  by (simp add: truncate_rat_def)

lemma f64_to_int64_of_int:
  assumes "\<bar>n\<bar> < 2 ^ 53"
  shows "f64_to_int64 (f64_of_int n) = n"
  using assms by (auto simp: Let_def abs_less_iff)

text \<open>\<open>math.Abs(float64(a)) > float64(b)\<close> and its kin decide the integer comparison.\<close>

lemma f64_abs_gt_int:
  assumes "\<bar>a\<bar> < 2 ^ 53" and "\<bar>b\<bar> < 2 ^ 53"
  shows "f64_lt (f64_of_int b) (f64_abs (f64_of_int a)) \<longleftrightarrow> b < \<bar>a\<bar>"
  using assms by (simp flip: of_int_abs)

lemma f64_abs_le_int:
  assumes "\<bar>a\<bar> < 2 ^ 53" and "\<bar>b\<bar> < 2 ^ 53"
  shows "f64_le (f64_abs (f64_of_int a)) (f64_of_int b) \<longleftrightarrow> \<bar>a\<bar> \<le> b"
  using assms by (simp flip: of_int_abs)

lemma f64_not_le_lt: "f64_le x y \<Longrightarrow> \<not> f64_lt y x"
  by (cases x; cases y) auto

end
