(* ===== verification/Protocol.thy ===== *)
theory Protocol
  imports Float64
begin

text \<open>
  \<open>pkg/protocol/type.go\<close>: the PTP data sets exchanged with ptp4l through pmc, their
  field-by-field update from pmc output, and the text forms the daemon prints.
\<close>

section \<open>Data sets\<close>

text \<open>The ITU-T G.8275.1 clock classes and the values of the vendored PTP package.\<close>

type_synonym clock_class = u8
type_synonym clock_accuracy = u8
type_synonym time_source = u8

abbreviation ClockClassFreerun :: clock_class where "ClockClassFreerun \<equiv> 248"
abbreviation ClockClassUninitialized :: clock_class where "ClockClassUninitialized \<equiv> 0"
abbreviation ClockClassOutOfSpec :: clock_class where "ClockClassOutOfSpec \<equiv> 140"
abbreviation ClockClass6 :: clock_class where "ClockClass6 \<equiv> 6"
abbreviation ClockClass7 :: clock_class where "ClockClass7 \<equiv> 7"
abbreviation ClockClassSlaveOnly :: clock_class where "ClockClassSlaveOnly \<equiv> 255"
abbreviation ClockAccuracyUnknown :: clock_accuracy where "ClockAccuracyUnknown \<equiv> 0xFE"
abbreviation ClockAccuracyNanosecond100 :: clock_accuracy where "ClockAccuracyNanosecond100 \<equiv> 0x21"
abbreviation TimeSourceGNSS :: time_source where "TimeSourceGNSS \<equiv> 0x20"
abbreviation TimeSourceInternalOscillator :: time_source where "TimeSourceInternalOscillator \<equiv> 0xA0"

record clock_quality =
  cq_ClockClass :: clock_class
  cq_ClockAccuracy :: clock_accuracy
  cq_OffsetScaledLogVariance :: u16

record time_properties_ds =
  tp_CurrentUtcOffset :: i32
  tp_CurrentUtcOffsetValid :: bool
  tp_Leap59 :: bool
  tp_Leap61 :: bool
  tp_TimeTraceable :: bool
  tp_FrequencyTraceable :: bool
  tp_PtpTimescale :: bool
  tp_TimeSource :: time_source

record grandmaster_settings =
  gs_ClockQuality :: clock_quality
  gs_TimePropertiesDS :: time_properties_ds

record parent_data_set =
  pds_ParentPortIdentity :: string
  pds_ParentStats :: u8
  pds_ObservedParentOffsetScaledLogVariance :: u16
  pds_ObservedParentClockPhaseChangeRate :: u32
  pds_GrandmasterPriority1 :: u8
  pds_GrandmasterClockClass :: u8
  pds_GrandmasterClockAccuracy :: u8
  pds_GrandmasterOffsetScaledLogVariance :: u16
  pds_GrandmasterPriority2 :: u8
  pds_GrandmasterIdentity :: string

record external_gm_properties =
  eg_GrandmasterIdentity :: string
  eg_StepsRemoved :: u16

record current_ds =
  cds_StepsRemoved :: u16
  cds_offsetFromMaster :: f64
  cds_meanPathDelay :: f64

record subscribed_events =
  se_Duration :: i32
  se_NotifyPortState :: bool
  se_NotifyTimeSync :: bool
  se_NotifyParentDataSet :: bool
  se_NotifyCmlds :: bool

text \<open>Zero values.\<close>

definition zero_time_properties :: time_properties_ds where
  "zero_time_properties = \<lparr>tp_CurrentUtcOffset = 0, tp_CurrentUtcOffsetValid = False,
     tp_Leap59 = False, tp_Leap61 = False, tp_TimeTraceable = False,
     tp_FrequencyTraceable = False, tp_PtpTimescale = False, tp_TimeSource = 0\<rparr>"

definition zero_parent_data_set :: parent_data_set where
  "zero_parent_data_set = \<lparr>pds_ParentPortIdentity = '''', pds_ParentStats = 0,
     pds_ObservedParentOffsetScaledLogVariance = 0, pds_ObservedParentClockPhaseChangeRate = 0,
     pds_GrandmasterPriority1 = 0, pds_GrandmasterClockClass = 0, pds_GrandmasterClockAccuracy = 0,
     pds_GrandmasterOffsetScaledLogVariance = 0, pds_GrandmasterPriority2 = 0,
     pds_GrandmasterIdentity = ''''\<rparr>"

text \<open>\<open>ParentDataSet.Equal\<close>; a nil pointer is \<open>None\<close>.\<close>

definition pds_Equal :: "parent_data_set option \<Rightarrow> parent_data_set option \<Rightarrow> bool" where
  "pds_Equal p q =
     (case (p, q) of
        (None, None) \<Rightarrow> True
      | (Some a, Some b) \<Rightarrow>
          pds_ParentPortIdentity a = pds_ParentPortIdentity b \<and>
          pds_ParentStats a = pds_ParentStats b \<and>
          pds_ObservedParentOffsetScaledLogVariance a = pds_ObservedParentOffsetScaledLogVariance b \<and>
          pds_ObservedParentClockPhaseChangeRate a = pds_ObservedParentClockPhaseChangeRate b \<and>
          pds_GrandmasterPriority1 a = pds_GrandmasterPriority1 b \<and>
          pds_GrandmasterClockClass a = pds_GrandmasterClockClass b \<and>
          pds_GrandmasterClockAccuracy a = pds_GrandmasterClockAccuracy b \<and>
          pds_GrandmasterOffsetScaledLogVariance a = pds_GrandmasterOffsetScaledLogVariance b \<and>
          pds_GrandmasterPriority2 a = pds_GrandmasterPriority2 b \<and>
          pds_GrandmasterIdentity a = pds_GrandmasterIdentity b
      | _ \<Rightarrow> False)"

lemma pds_Equal_iff: "pds_Equal p q \<longleftrightarrow> p = q"
  by (cases p; cases q) (auto simp: pds_Equal_def)

end
