(* ===== verification/Event.thy ===== *)
theory Event
  imports Ipc Protocol
begin

text \<open>
  \<open>pkg/event/event.go\<close>: the PTP states, the typed payloads and the events that every process
  monitor sends to the clock manager, with their log forms. The zero value of a PTP state, the
  empty string, is the constructor \<open>PTP_EMPTY\<close>: it is what the statistics store for a payload
  that carries no state. A nil payload is \<open>None\<close>; typed nil pointers are not sent by the code
  and not modelled. \<open>time.Now()\<close> is an argument.
\<close>

section \<open>States, sources and clock types\<close>

datatype ptp_state = PTP_FREERUN | PTP_HOLDOVER | PTP_LOCKED | PTP_UNKNOWN | PTP_NOTSET | PTP_EMPTY

fun ptp_state_str :: "ptp_state \<Rightarrow> string" where
  "ptp_state_str PTP_FREERUN = ''s0''"
| "ptp_state_str PTP_HOLDOVER = ''s1''"
| "ptp_state_str PTP_LOCKED = ''s2''"
| "ptp_state_str PTP_UNKNOWN = ''-1''"
| "ptp_state_str PTP_NOTSET = ''-2''"
| "ptp_state_str PTP_EMPTY = ''''"

type_synonym event_source = string

abbreviation GNSS :: event_source where "GNSS \<equiv> ''gnss''"
abbreviation DPLL :: event_source where "DPLL \<equiv> ''dpll''"
abbreviation TS2PHC :: event_source where "TS2PHC \<equiv> ''ts2phc''"
abbreviation PTP4l :: event_source where "PTP4l \<equiv> ''ptp4l''"
abbreviation PHC2SYS :: event_source where "PHC2SYS \<equiv> ''phc2sys''"
abbreviation PPS :: event_source where "PPS \<equiv> ''1pps''"
abbreviation SYNCE :: event_source where "SYNCE \<equiv> ''synce4l''"
abbreviation CHRONYD :: event_source where "CHRONYD \<equiv> ''chronyd''"
abbreviation PMC :: event_source where "PMC \<equiv> ''pmc''"

abbreviation LEADING_INTERFACE_UNKNOWN :: string where "LEADING_INTERFACE_UNKNOWN \<equiv> ''unknown''"

abbreviation WindowSize :: nat where "WindowSize \<equiv> 10"

datatype clock_type = GM | BC | TBC | OC | HA | SysClock | ClockUnset

fun clock_type_str :: "clock_type \<Rightarrow> string" where
  "clock_type_str GM = ''GM''"
| "clock_type_str BC = ''BC''"
| "clock_type_str TBC = ''T-BC''"
| "clock_type_str OC = ''OC''"
| "clock_type_str HA = ''HA''"
| "clock_type_str SysClock = ''SysClock''"
| "clock_type_str ClockUnset = ''''"

section \<open>Payloads\<close>

record gnss_data =
  gd_GPSStatus :: int
  gd_Offset :: int
  gd_SourceLost :: bool

record offset_data =
  od_State :: ptp_state
  od_Offset :: int
  od_SourceLost :: bool
  od_NMEALocked :: "bool option"

record dpll_data =
  dp_State :: ptp_state
  dp_OutOfSpec :: bool
  dp_SourceLost :: bool
  dp_FrequencyTraceable :: bool
  dp_LeadingSource :: bool
  dp_Offset :: "int option"
  dp_PhaseStatus :: "int option"
  dp_FrequencyStatus :: "int option"
  dp_PPSStatus :: int
  dp_InSyncConditionThreshold :: u64
  dp_InSyncConditionTimes :: u64
  dp_ToFreeRunThreshold :: u64
  dp_MaxInSpecOffset :: u64
  dp_HoldoverDisabled :: bool

record synce_data =
  sy_State :: ptp_state
  sy_Device :: string
  sy_QL :: "u8 option"
  sy_ExtQL :: "u8 option"
  sy_ClockQuality :: string
  sy_EECState :: string
  sy_NetworkOption :: int

record state_data =
  sd_State :: ptp_state
  sd_SourceLost :: bool
  sd_ControlledPortsConfig :: string
  sd_ClockID :: string

text \<open>\<open>pmc.ParentTimeCurrentDS\<close>, the three data sets of one PMC session.\<close>

record parent_time_current_ds =
  pt_ParentDataSet :: parent_data_set
  pt_TimePropertiesDS :: time_properties_ds
  pt_CurrentDS :: current_ds

datatype event_data =
    GNSSData gnss_data
  | OffsetData offset_data
  | DPLLData dpll_data
  | SyncEData synce_data
  | StateData state_data
  | HoldoverExpired u64
  | SelectedSourceData string
  | ProcessStatusData int
  | ParentTimeCurrentDS parent_time_current_ds u64
  | ParentDSData parent_data_set
  | PluginData string

record event =
  ev_Source :: event_source
  ev_IFace :: string
  ev_CfgName :: string
  ev_ClockType :: clock_type
  ev_Time :: int
  ev_WriteToLog :: bool
  ev_Reset :: bool
  ev_Data :: "event_data option"

record ptp_clock_threshold =
  th_MaxOffsetThreshold :: int
  th_MinOffsetThreshold :: int
  th_HoldOverTimeout :: int

section \<open>Log forms\<close>

definition GNSSData_String :: "gnss_data \<Rightarrow> string" where
  "GNSSData_String d =
     (let state = (if 3 \<le> gd_GPSStatus d \<and> \<not> gd_SourceLost d then PTP_LOCKED else PTP_FREERUN)
      in join '' '' [''gnss_status'', show_int (gd_GPSStatus d), ''offset'', show_int (gd_Offset d),
           ptp_state_str state])"

definition OffsetData_String :: "offset_data \<Rightarrow> string" where
  "OffsetData_String d =
     join '' ''
       ((case od_NMEALocked d of Some b \<Rightarrow> [''nmea_status '' @ show_bool b] | None \<Rightarrow> []) @
        [''offset '' @ show_int (od_Offset d), ptp_state_str (od_State d)])"

definition DPLLData_String :: "dpll_data \<Rightarrow> string" where
  "DPLLData_String d =
     join '' ''
       ((case dp_FrequencyStatus d of Some n \<Rightarrow> [''frequency_status '' @ show_int n] | None \<Rightarrow> []) @
        (case dp_Offset d of Some n \<Rightarrow> [''offset '' @ show_int n] | None \<Rightarrow> []) @
        (case dp_PhaseStatus d of Some n \<Rightarrow> [''phase_status '' @ show_int n] | None \<Rightarrow> []) @
        [''pps_status '' @ show_int (dp_PPSStatus d), ptp_state_str (dp_State d)])"

definition SyncEData_String :: "synce_data \<Rightarrow> string" where
  "SyncEData_String d =
     join '' ''
       ((if sy_ClockQuality d \<noteq> '''' then [''clock_quality '' @ sy_ClockQuality d] else []) @
        (if sy_Device d \<noteq> '''' then [''device '' @ sy_Device d] else []) @
        (if sy_EECState d \<noteq> '''' then [''eec_state '' @ sy_EECState d] else []) @
        (case sy_ExtQL d of Some q \<Rightarrow> [''ext_ql 0x'' @ show_hex (unat q)] | None \<Rightarrow> []) @
        (if sy_NetworkOption d \<noteq> 0 then [''network_option '' @ show_int (sy_NetworkOption d)] else []) @
        (case sy_QL d of Some q \<Rightarrow> [''ql 0x'' @ show_hex (unat q)] | None \<Rightarrow> []) @
        (if sy_State d \<noteq> PTP_EMPTY \<and> sy_State d \<noteq> PTP_UNKNOWN then [ptp_state_str (sy_State d)] else []))"

definition StateData_String :: "state_data \<Rightarrow> string" where
  "StateData_String d =
     join '' ''
       ((if sd_ClockID d \<noteq> '''' then [''clock-id '' @ sd_ClockID d] else []) @
        (if sd_ControlledPortsConfig d \<noteq> ''''
           then [''controlled-ports-config '' @ sd_ControlledPortsConfig d] else []) @
        [ptp_state_str (sd_State d)])"

fun event_data_String :: "event_data \<Rightarrow> string" where
  "event_data_String (GNSSData d) = GNSSData_String d"
| "event_data_String (OffsetData d) = OffsetData_String d"
| "event_data_String (DPLLData d) = DPLLData_String d"
| "event_data_String (SyncEData d) = SyncEData_String d"
| "event_data_String (StateData d) = StateData_String d"
| "event_data_String (HoldoverExpired g) = ''Holover Expired: generation='' @ show_nat (unat g)"
| "event_data_String (SelectedSourceData i) = ''selected source '' @ i"
| "event_data_String (ProcessStatusData s) = ''PTP_PROCESS_STATUS:'' @ show_int s"
| "event_data_String (ParentTimeCurrentDS _ _) = ''''"
| "event_data_String (ParentDSData _) = ''''"
| "event_data_String (PluginData n) = n"

text \<open>\<open>Event.GetLogData\<close>; \<open>now_s\<close> is \<open>time.Now().Unix()\<close>.\<close>

definition GetLogData :: "int \<Rightarrow> event \<Rightarrow> string" where
  "GetLogData now_s e =
     (let prefix = ev_Source e @ ''['' @ show_int now_s @ '']:['' @ ev_CfgName e @ '']'';
          iface = (if ev_IFace e \<noteq> '''' then [ev_IFace e] else []);
          payload = (case ev_Data e of
              Some d \<Rightarrow> (let s = event_data_String d in if s \<noteq> '''' then [s] else [])
            | None \<Rightarrow> [])
      in join '' '' ([prefix] @ iface @ payload) @ [CHR 0x0A])"

section \<open>Constructors and conversions\<close>

text \<open>\<open>now_ms\<close> is \<open>time.Now().UnixMilli()\<close>.\<close>

definition ProcessStatusEvent ::
  "int \<Rightarrow> event_source \<Rightarrow> string \<Rightarrow> clock_type \<Rightarrow> string \<Rightarrow> int \<Rightarrow> event" where
  "ProcessStatusEvent now_ms src cfgName clockType iface status =
     \<lparr>ev_Source = src, ev_IFace = iface, ev_CfgName = cfgName, ev_ClockType = clockType,
      ev_Time = now_ms, ev_WriteToLog = True, ev_Reset = False,
      ev_Data = Some (ProcessStatusData status)\<rparr>"

definition PluginEvent :: "int \<Rightarrow> event_source \<Rightarrow> string \<Rightarrow> event" where
  "PluginEvent now_ms src eventName =
     \<lparr>ev_Source = src, ev_IFace = '''', ev_CfgName = '''', ev_ClockType = ClockUnset,
      ev_Time = now_ms, ev_WriteToLog = False, ev_Reset = False,
      ev_Data = Some (PluginData eventName)\<rparr>"

fun PtpStateToIPCState :: "ptp_state \<Rightarrow> string" where
  "PtpStateToIPCState PTP_LOCKED = StateLocked"
| "PtpStateToIPCState PTP_HOLDOVER = StateHoldover"
| "PtpStateToIPCState _ = StateFreerun"

lemma PtpStateToIPCState_locked [simp]: "PtpStateToIPCState s = ''LOCKED'' \<longleftrightarrow> s = PTP_LOCKED"
  and PtpStateToIPCState_holdover [simp]: "PtpStateToIPCState s = ''HOLDOVER'' \<longleftrightarrow> s = PTP_HOLDOVER"
  by (cases s; simp)+

end
