(* ===== verification/Window.thy ===== *)
theory Window
  imports Float64
begin

text \<open>
  \<open>pkg/utils/window.go\<close>: the ring buffer of offset samples behind each clock source, with the
  statistics the daemon reads from it. The two gonum routines the window calls are written out
  from the vendored source. The theory proves the buffer to be a list of the most recent
  samples bounded by its size, through the interface \<open>offset_history\<close>.
\<close>

section \<open>gonum statistics\<close>

text \<open>
  \<open>stat.Mean\<close> with non-nil weights: \<open>None\<close> is the panic on slices of different length.
\<close>

definition stat_Mean :: "f64 list \<Rightarrow> f64 list \<Rightarrow> f64 option" where
  "stat_Mean x weights =
     (if length x \<noteq> length weights then None
      else let (sumValues, sumWeights) =
             fold (\<lambda>(w, v) (sv, sw). (f64_add sv (f64_mul w v), f64_add sw w))
               (zip weights x) (Fin 0, Fin 0)
           in Some (f64_div sumValues sumWeights))"

text \<open>
  \<open>sort.Float64sAreSorted\<close> on a list without NaN, and \<open>stat.Quantile\<close> with the empirical
  cumulant; \<open>None\<close> is a panic (different lengths, no data, unsorted data).
\<close>

fun f64s_sorted :: "f64 list \<Rightarrow> bool" where
  "f64s_sorted (x # y # xs) = (\<not> f64_lt y x \<and> f64s_sorted (y # xs))"
| "f64s_sorted _ = True"

fun empiricalQuantile :: "f64 \<Rightarrow> f64 \<Rightarrow> (f64 \<times> f64) list \<Rightarrow> f64 option" where
  "empiricalQuantile fidx cumsum [] = None"
| "empiricalQuantile fidx cumsum ((w, v) # rest) =
     (let c = f64_add cumsum w in if f64_le fidx c then Some v else empiricalQuantile fidx c rest)"

definition stat_Quantile :: "f64 \<Rightarrow> f64 list \<Rightarrow> f64 list \<Rightarrow> f64 option" where
  "stat_Quantile p x weights =
     (if length x \<noteq> length weights \<or> x = [] then None
      else if NaN \<in> set x then Some NaN
      else if \<not> f64s_sorted x then None
      else empiricalQuantile (f64_mul p (fold (\<lambda>w s. f64_add s w) weights (Fin 0))) (Fin 0)
             (zip weights x))"

section \<open>The window\<close>

record window =
  w_data :: "f64 list"
  w_weights :: "f64 list"
  w_size :: nat
  w_nextIndex :: nat
  w_full :: bool

definition NewWindow :: "nat \<Rightarrow> window" where
  "NewWindow n = \<lparr>w_data = replicate n (Fin 0), w_weights = replicate n (Fin 1),
     w_size = n, w_nextIndex = 0, w_full = False\<rparr>"

definition w_getData :: "window \<Rightarrow> f64 list" where
  "w_getData w = (if w_full w then w_data w else take (w_nextIndex w) (w_data w))"

definition w_getWeights :: "window \<Rightarrow> f64 list" where
  "w_getWeights w = (if w_full w then w_weights w else take (w_nextIndex w) (w_weights w))"

definition w_Snapshot :: "window \<Rightarrow> window" where
  "w_Snapshot w = \<lparr>w_data = w_data w, w_weights = w_weights w, w_size = w_size w,
     w_nextIndex = w_nextIndex w, w_full = w_full w\<rparr>"

definition w_AbsMax :: "window \<Rightarrow> f64" where
  "w_AbsMax w = fold (\<lambda>f m. f64_max m (f64_abs f)) (w_getData w) (Fin 0)"

definition w_Max :: "window \<Rightarrow> f64" where
  "w_Max w = fold (\<lambda>f m. f64_max m f) (w_getData w) (Fin 0)"

definition w_AbsMin :: "window \<Rightarrow> f64" where
  "w_AbsMin w = fold (\<lambda>f m. f64_min m (f64_abs f)) (w_getData w) (Fin 0)"

definition w_Min :: "window \<Rightarrow> f64" where
  "w_Min w = fold (\<lambda>f m. f64_min m f) (w_getData w) (Fin 0)"

definition w_AbsMean :: "window \<Rightarrow> f64 option" where
  "w_AbsMean w = stat_Mean (map f64_abs (w_getData w)) (w_getWeights w)"

definition w_Mean_checked :: "window \<Rightarrow> f64 option" where
  "w_Mean_checked w = stat_Mean (w_getData w) (w_getWeights w)"

definition w_Median :: "window \<Rightarrow> f64 option" where
  "w_Median w = stat_Quantile (Fin (1 / 2)) (w_getData w) (w_getWeights w)"

text \<open>
  \<open>Insert\<close> panics (index out of range, modulus zero) on a window of size zero; \<open>None\<close> is that
  panic. \<open>w_Insert\<close> is the same step where no panic can happen, which \<open>w_Insert_checked_inv\<close>
  shows for every window the program builds; likewise \<open>w_Mean\<close> for the mean.
\<close>

definition w_Insert :: "f64 \<Rightarrow> window \<Rightarrow> window" where
  "w_Insert v w =
     (let w1 = w\<lparr>w_data := (w_data w)[w_nextIndex w := v],
                 w_nextIndex := (w_nextIndex w + 1) mod w_size w\<rparr>
      in if \<not> w_full w1 \<and> w_nextIndex w1 = 0 then w1\<lparr>w_full := True\<rparr> else w1)"

definition w_Insert_checked :: "f64 \<Rightarrow> window \<Rightarrow> window option" where
  "w_Insert_checked v w =
     (if w_nextIndex w < length (w_data w) \<and> w_size w \<noteq> 0 then Some (w_Insert v w) else None)"

definition w_Mean :: "window \<Rightarrow> f64" where
  "w_Mean w = (case w_Mean_checked w of Some m \<Rightarrow> m | None \<Rightarrow> NaN)"

definition w_lastInsertedIndex :: "window \<Rightarrow> nat" where
  "w_lastInsertedIndex w = (if w_nextIndex w = 0 then w_size w - 1 else w_nextIndex w - 1)"

definition w_LastInserted :: "window \<Rightarrow> f64" where
  "w_LastInserted w = w_data w ! w_lastInsertedIndex w"

text \<open>The samples in the order \<open>backwardIter\<close> yields them: newest first.\<close>

definition w_backward :: "window \<Rightarrow> f64 list" where
  "w_backward w =
     rev (take (w_nextIndex w) (w_data w)) @
     (if w_full w then rev (drop (w_nextIndex w) (take (w_size w) (w_data w))) else [])"

fun count_until :: "(f64 \<Rightarrow> bool) \<Rightarrow> f64 list \<Rightarrow> nat" where
  "count_until cond [] = 0"
| "count_until cond (v # vs) = (if \<not> cond v then 0 else Suc (count_until cond vs))"

definition w_CountSamples :: "(f64 \<Rightarrow> bool) \<Rightarrow> window \<Rightarrow> nat" where
  "w_CountSamples cond w = count_until cond (w_backward w)"

definition w_IsFull :: "window \<Rightarrow> bool" where
  "w_IsFull w = w_full w"

definition w_IsEmpty :: "window \<Rightarrow> bool" where
  "w_IsEmpty w \<longleftrightarrow> w_nextIndex w = 0 \<and> \<not> w_full w"

text \<open>\<open>SetWeights\<close>: \<open>None\<close> is the error for a slice longer than the window.\<close>

definition w_SetWeights :: "f64 list \<Rightarrow> window \<Rightarrow> window option" where
  "w_SetWeights weights w =
     (if w_size w < length weights then None else Some (w\<lparr>w_weights := weights\<rparr>))"

section \<open>Representation invariant\<close>

definition w_inv :: "window \<Rightarrow> bool" where
  "w_inv w \<longleftrightarrow> 0 < w_size w \<and> length (w_data w) = w_size w \<and> length (w_weights w) = w_size w \<and>
     w_nextIndex w < w_size w"

lemma w_inv_New: "0 < n \<Longrightarrow> w_inv (NewWindow n)"
  by (simp add: w_inv_def NewWindow_def)

lemma w_inv_Insert: "w_inv w \<Longrightarrow> w_inv (w_Insert v w)"
  by (simp add: w_inv_def w_Insert_def Let_def)

lemma w_Insert_checked_inv: "w_inv w \<Longrightarrow> w_Insert_checked v w = Some (w_Insert v w)"
  by (simp add: w_inv_def w_Insert_checked_def)

lemma w_Mean_checked_inv: "w_inv w \<Longrightarrow> w_Mean_checked w = Some (w_Mean w)"
  by (simp add: w_inv_def w_Mean_def w_Mean_checked_def stat_Mean_def w_getData_def w_getWeights_def
      split: prod.split)

section \<open>The history the buffer stores\<close>

text \<open>
  A bounded history: inserting keeps the newest \<open>cap\<close> samples. Lemmas of the interface speak
  of the list of samples only.
\<close>

locale offset_history =
  fixes ins :: "f64 \<Rightarrow> 'w \<Rightarrow> 'w"
    and hist :: "'w \<Rightarrow> f64 list"
    and cap :: "'w \<Rightarrow> nat"
    and inv :: "'w \<Rightarrow> bool"
  assumes inv_ins: "inv w \<Longrightarrow> inv (ins v w)"
    and cap_ins: "cap (ins v w) = cap w"
    and hist_ins: "inv w \<Longrightarrow> hist (ins v w) = take (cap w) (v # hist w)"
    and hist_bound: "inv w \<Longrightarrow> length (hist w) \<le> cap w"
begin

lemma hist_fold:
  "inv w \<Longrightarrow> hist (fold ins vs w) = take (cap w) (rev vs @ hist w)"
proof (induction vs arbitrary: w)
  case Nil
  then show ?case using hist_bound by simp
next
  case (Cons v vs)
  then have "hist (fold ins (v # vs) w) = take (cap w) (rev vs @ hist (ins v w))"
    by (simp add: inv_ins cap_ins)
  also have "\<dots> = take (cap w) (rev vs @ take (cap w) (v # hist w))"
    using Cons.prems by (simp add: hist_ins)
  also have "\<dots> = take (cap w) (rev (v # vs) @ hist w)"
    by (simp add: min_def)
  finally show ?case .
qed

lemma inv_fold: "inv w \<Longrightarrow> inv (fold ins vs w)"
  by (induction vs arbitrary: w) (auto intro: inv_ins)

end

lemma w_backward_Insert:
  assumes "w_inv w"
  shows "w_backward (w_Insert v w) = take (w_size w) (v # w_backward w)"
proof (cases "w_nextIndex w + 1 = w_size w")
  case True
  then have sz: "w_size w = Suc (w_nextIndex w)" by simp
  from True have "w_backward (w_Insert v w) = rev ((w_data w)[w_nextIndex w := v])"
    using assms by (simp add: w_backward_def w_Insert_def w_inv_def Let_def)
  also have "\<dots> = v # rev (take (w_nextIndex w) (w_data w))"
    using assms True by (simp add: w_inv_def upd_conv_take_nth_drop)
  finally show ?thesis
    using assms by (simp add: w_backward_def w_inv_def sz)
next
  case False
  then have lt: "w_nextIndex w + 1 < w_size w" using assms by (simp add: w_inv_def)
  let ?d = "w_data w" and ?n = "w_nextIndex w"
  have "w_backward (w_Insert v w) =
      v # rev (take ?n ?d) @ (if w_full w then rev (drop (?n + 1) ?d) else [])"
    using assms lt
    by (simp add: w_backward_def w_Insert_def w_inv_def Let_def take_Suc_conv_app_nth)
  moreover obtain m where m: "w_size w = Suc m" using lt by (cases "w_size w") auto
  moreover have "rev (drop (?n + 1) ?d) = take (m - ?n) (rev (drop ?n ?d))"
    using assms lt m by (simp add: w_inv_def take_rev)
  moreover have "w_backward w = rev (take ?n ?d) @ (if w_full w then rev (drop ?n ?d) else [])"
    using assms by (simp add: w_backward_def w_inv_def)
  ultimately show ?thesis
    using assms lt by (simp add: w_inv_def)
qed

lemma w_backward_bound: "w_inv w \<Longrightarrow> length (w_backward w) \<le> w_size w"
  by (auto simp: w_backward_def w_inv_def)

lemma w_size_Insert [simp]: "w_size (w_Insert v w) = w_size w"
  by (simp add: w_Insert_def Let_def)

interpretation ring: offset_history w_Insert w_backward w_size w_inv
  by unfold_locales (simp_all add: w_inv_Insert w_backward_Insert w_backward_bound)

lemma w_backward_New [simp]: "w_backward (NewWindow n) = []"
  by (simp add: w_backward_def NewWindow_def)

lemma w_size_New [simp]: "w_size (NewWindow n) = n"
  by (simp add: NewWindow_def)

lemma w_LastInserted_hd:
  assumes "w_inv w" and "\<not> w_IsEmpty w"
  shows "w_backward w \<noteq> [] \<and> w_LastInserted w = hd (w_backward w)"
proof (cases "w_nextIndex w = 0")
  case True
  with assms have "w_backward w = rev (w_data w)" and "w_data w \<noteq> []"
    by (auto simp: w_backward_def w_IsEmpty_def w_inv_def)
  with True assms show ?thesis
    by (simp add: w_LastInserted_def w_lastInsertedIndex_def w_inv_def hd_rev last_conv_nth)
next
  case False
  then obtain n where n: "w_nextIndex w = Suc n" by (cases "w_nextIndex w") auto
  with assms have "take (Suc n) (w_data w) = take n (w_data w) @ [w_data w ! n]"
    by (simp add: w_inv_def take_Suc_conv_app_nth)
  with n show ?thesis
    by (simp add: w_backward_def w_LastInserted_def w_lastInsertedIndex_def)
qed

lemma w_IsEmpty_iff: "w_inv w \<Longrightarrow> w_IsEmpty w \<longleftrightarrow> w_backward w = []"
  by (auto simp: w_IsEmpty_def w_backward_def w_inv_def)

lemma w_IsFull_iff: "w_inv w \<Longrightarrow> w_IsFull w \<longleftrightarrow> length (w_backward w) = w_size w"
  by (auto simp: w_IsFull_def w_backward_def w_inv_def)

lemma count_until_takeWhile: "count_until P xs = length (takeWhile P xs)"
  by (induction xs) auto

section \<open>Properties\<close>

text \<open>
  C12. The circular buffer is a bounded history: after any insertions into a new window of positive
  size, the values read backwards are the newest ones, newest first, at most as many as the window
  holds.
\<close>

theorem w_history:
  "w_backward (fold w_Insert vs (NewWindow (Suc n))) = take (Suc n) (rev vs)"
  using ring.hist_fold [of "NewWindow (Suc n)" vs] by (simp add: w_inv_New)

text \<open>
  \<open>CountSamples\<close> counts the newest consecutive samples that satisfy the condition, and nothing
  older than the window.
\<close>

lemma w_CountSamples_recent:
  "w_CountSamples cond (fold w_Insert vs (NewWindow (Suc n))) =
   length (takeWhile cond (take (Suc n) (rev vs)))"
  using ring.hist_fold [of "NewWindow (Suc n)" vs]
  by (simp add: w_CountSamples_def count_until_takeWhile w_inv_New)

text \<open>
  The window reports itself empty exactly before the first insertion and full exactly from the
  insertion that fills it, and \<open>LastInserted\<close> of a window that was written to is the last value.
\<close>

lemma w_fill_state:
  "w_IsEmpty (fold w_Insert vs (NewWindow (Suc n))) = (vs = []) \<and>
   w_IsFull (fold w_Insert vs (NewWindow (Suc n))) = (Suc n \<le> length vs) \<and>
   w_LastInserted (fold w_Insert (vs @ [v]) (NewWindow (Suc n))) = v"
proof (intro conjI)
  have inv: "w_inv (fold w_Insert us (NewWindow (Suc n)))" for us
    by (rule ring.inv_fold) (simp add: w_inv_New)
  have hist: "w_backward (fold w_Insert us (NewWindow (Suc n))) = take (Suc n) (rev us)" for us
    using ring.hist_fold [of "NewWindow (Suc n)" us] by (simp add: w_inv_New)
  have size: "w_size (fold w_Insert us w) = w_size w" for us w
    by (induction us arbitrary: w) simp_all
  show "w_IsEmpty (fold w_Insert vs (NewWindow (Suc n))) = (vs = [])"
    using w_IsEmpty_iff [OF inv [of vs]] hist [of vs] by simp
  show "w_IsFull (fold w_Insert vs (NewWindow (Suc n))) = (Suc n \<le> length vs)"
    using w_IsFull_iff [OF inv [of vs]] hist [of vs] by (auto simp: size)
  have "\<not> w_IsEmpty (fold w_Insert (vs @ [v]) (NewWindow (Suc n)))"
    using w_IsEmpty_iff [OF inv [of "vs @ [v]"]] hist [of "vs @ [v]"] by simp
  then show "w_LastInserted (fold w_Insert (vs @ [v]) (NewWindow (Suc n))) = v"
    using w_LastInserted_hd [OF inv [of "vs @ [v]"]] hist [of "vs @ [v]"] by simp
qed

end
