(* ===== verification/Stats.thy ===== *)
theory Stats
  imports Event Window
begin

text \<open>
  \<open>pkg/event/stats.go\<close>: the per-source record a clock keeps (one detail per interface, an
  optional offset window) and how an event updates it. The metrics map of a detail, which the
  code never fills, is left out; log lines are not modelled except where they are stored.
\<close>

section \<open>State\<close>

record data_details =
  dt_IFace :: string
  dt_State :: ptp_state
  dt_ClockType :: clock_type
  dt_Time :: int
  dt_LogData :: string
  dt_SignalSource :: event_source
  dt_SourceLost :: bool
  dt_Offset :: int
  dt_HasOffset :: bool
  dt_ProcessStatus :: int
  dt_HasProcessStatus :: bool
  dt_OutOfSpec :: bool
  dt_FrequencyTraceable :: bool

record data =
  d_ProcessName :: event_source
  d_Details :: "data_details list"
  d_State :: ptp_state
  d_LogData :: string
  d_Window :: "window option"

section \<open>Operations\<close>

text \<open>One iteration of the loop of \<open>Data.UpdateState\<close>.\<close>

fun worse_detail :: "ptp_state \<Rightarrow> ptp_state \<Rightarrow> ptp_state" where
  "worse_detail PTP_FREERUN state = PTP_FREERUN"
| "worse_detail PTP_HOLDOVER state = (if state \<noteq> PTP_FREERUN then PTP_HOLDOVER else state)"
| "worse_detail PTP_LOCKED state =
     (if state \<noteq> PTP_FREERUN \<and> state \<noteq> PTP_HOLDOVER then PTP_LOCKED else state)"
| "worse_detail _ state = state"

definition data_UpdateState :: "data \<Rightarrow> data" where
  "data_UpdateState d =
     d\<lparr>d_State := fold (\<lambda>dt s. worse_detail (dt_State dt) s) (d_Details d) PTP_UNKNOWN\<rparr>"

definition GetDataDetails :: "string \<Rightarrow> data \<Rightarrow> data_details option" where
  "GetDataDetails iface d = find (\<lambda>dt. dt_IFace dt = iface) (d_Details d)"

definition latest_detail :: "data_details list \<Rightarrow> data_details option" where
  "latest_detail dts =
     fold (\<lambda>dt latest.
         if dt_HasOffset dt \<and> (case latest of None \<Rightarrow> True | Some l \<Rightarrow> dt_Time l \<le> dt_Time dt)
         then Some dt else latest)
       dts None"

text \<open>\<open>Data.LatestOffset\<close>; \<open>None\<close> is the false flag.\<close>

definition LatestOffset :: "data option \<Rightarrow> f64 option" where
  "LatestOffset od =
     (case od of None \<Rightarrow> None
      | Some d \<Rightarrow>
        (case d_Window d of
           Some w \<Rightarrow> if w_IsEmpty w then None else Some (w_LastInserted w)
         | None \<Rightarrow> map_option (\<lambda>dt. f64_of_int (dt_Offset dt)) (latest_detail (d_Details d))))"

text \<open>The local variables \<open>Data.addEvent\<close> extracts from the payload.\<close>

record event_fields =
  ef_state :: ptp_state
  ef_sourceLost :: bool
  ef_offset :: "int option"
  ef_outOfSpec :: bool
  ef_frequencyTraceable :: bool
  ef_leading :: bool

definition no_fields :: event_fields where
  "no_fields = \<lparr>ef_state = PTP_EMPTY, ef_sourceLost = False, ef_offset = None, ef_outOfSpec = False,
     ef_frequencyTraceable = False, ef_leading = False\<rparr>"

fun payload_fields :: "event_data option \<Rightarrow> event_fields" where
  "payload_fields (Some (GNSSData g)) =
     no_fields\<lparr>ef_sourceLost := gd_SourceLost g, ef_offset := Some (gd_Offset g),
       ef_state := (if 3 \<le> gd_GPSStatus g \<and> \<not> gd_SourceLost g then PTP_LOCKED else PTP_FREERUN)\<rparr>"
| "payload_fields (Some (OffsetData p)) =
     no_fields\<lparr>ef_state := od_State p, ef_sourceLost := od_SourceLost p,
       ef_offset := Some (od_Offset p)\<rparr>"
| "payload_fields (Some (DPLLData p)) =
     no_fields\<lparr>ef_state := dp_State p, ef_sourceLost := dp_SourceLost p,
       ef_outOfSpec := dp_OutOfSpec p, ef_frequencyTraceable := dp_FrequencyTraceable p,
       ef_offset := dp_Offset p, ef_leading := dp_LeadingSource p\<rparr>"
| "payload_fields (Some (StateData p)) =
     no_fields\<lparr>ef_state := sd_State p, ef_sourceLost := sd_SourceLost p\<rparr>"
| "payload_fields (Some (SyncEData p)) = no_fields\<lparr>ef_state := sy_State p\<rparr>"
| "payload_fields _ = no_fields"

definition refresh_detail :: "int \<Rightarrow> event \<Rightarrow> event_fields \<Rightarrow> data_details \<Rightarrow> data_details" where
  "refresh_detail now_s ev F dt =
     (let dt1 = dt\<lparr>dt_State := ef_state F, dt_SourceLost := ef_sourceLost F,
                   dt_OutOfSpec := ef_outOfSpec F,
                   dt_FrequencyTraceable := ef_frequencyTraceable F,
                   dt_ClockType := ev_ClockType ev, dt_Time := ev_Time ev,
                   dt_LogData := GetLogData now_s ev\<rparr>
      in (case ef_offset F of
            Some n \<Rightarrow> dt1\<lparr>dt_Offset := n, dt_HasOffset := True\<rparr>
          | None \<Rightarrow> dt1))"

definition fresh_detail :: "int \<Rightarrow> event \<Rightarrow> event_fields \<Rightarrow> bool \<Rightarrow> data_details" where
  "fresh_detail now_s ev F hasWindow =
     (let dt = \<lparr>dt_IFace = ev_IFace ev, dt_State = ef_state F, dt_ClockType = ev_ClockType ev,
                dt_Time = ev_Time ev, dt_LogData = GetLogData now_s ev, dt_SignalSource = '''',
                dt_SourceLost = ef_sourceLost F, dt_Offset = 0, dt_HasOffset = False,
                dt_ProcessStatus = 0, dt_HasProcessStatus = False,
                dt_OutOfSpec = ef_outOfSpec F,
                dt_FrequencyTraceable = ef_frequencyTraceable F\<rparr>;
          dt1 = (case ef_offset F of
              Some n \<Rightarrow> if \<not> hasWindow then dt\<lparr>dt_Offset := n, dt_HasOffset := True\<rparr> else dt
            | None \<Rightarrow> dt)
      in if ef_leading F then dt1\<lparr>dt_SignalSource := PTP4l\<rparr> else dt1)"

definition data_AddEvent :: "int \<Rightarrow> event \<Rightarrow> data \<Rightarrow> data" where
  "data_AddEvent now_s ev d =
     (let F = payload_fields (ev_Data ev) in
      case GetDataDetails (ev_IFace ev) d of
        Some dt \<Rightarrow>
          if dt_Time dt \<le> ev_Time ev
          then d\<lparr>d_Details := update_first (\<lambda>x. dt_IFace x = ev_IFace ev)
                   (refresh_detail now_s ev F) (d_Details d),
                 d_Window := (case ef_offset F of
                     Some n \<Rightarrow> map_option (w_Insert (f64_of_int n)) (d_Window d)
                   | None \<Rightarrow> d_Window d)\<rparr>
          else d
      | None \<Rightarrow>
          (let dt = fresh_detail now_s ev F (d_Window d \<noteq> None)
           in d\<lparr>d_LogData := dt_LogData dt, d_Details := d_Details d @ [dt]\<rparr>))"

definition ptpStatePopulated :: "ptp_state \<Rightarrow> bool" where
  "ptpStatePopulated s \<longleftrightarrow> s = PTP_FREERUN \<or> s = PTP_HOLDOVER \<or> s = PTP_LOCKED"

definition details_String :: "data_details \<Rightarrow> string" where
  "details_String dt =
     join '' ''
       ((if dt_IFace dt \<noteq> '''' then [''iface='' @ dt_IFace dt] else []) @
        (if ptpStatePopulated (dt_State dt) then [''state='' @ ptp_state_str (dt_State dt)] else []) @
        (if dt_HasOffset dt then [''offset='' @ show_int (dt_Offset dt)] else []) @
        (if dt_SourceLost dt then [''sourceLost=true''] else []) @
        (if dt_HasProcessStatus dt then [''process_status='' @ show_int (dt_ProcessStatus dt)] else []))"

definition data_String :: "data \<Rightarrow> string" where
  "data_String d =
     d_ProcessName d @ concat (map (\<lambda>dt. '' {'' @ details_String dt @ ''}'') (d_Details d))"

text \<open>\<open>Data.Summary\<close>: per field, the value of the newest detail that has it (ties to the later).\<close>

definition newest :: "(data_details \<Rightarrow> bool) \<Rightarrow> data_details list \<Rightarrow> data_details option" where
  "newest has dts =
     fold (\<lambda>dt best.
         if has dt \<and> (case best of None \<Rightarrow> True | Some b \<Rightarrow> dt_Time b \<le> dt_Time dt)
         then Some dt else best)
       dts None"

definition data_Summary :: "data option \<Rightarrow> string" where
  "data_Summary od =
     (case od of None \<Rightarrow> ''''
      | Some d \<Rightarrow>
        (let dts = d_Details d in
         join '' ''
           ([d_ProcessName d, ''n='' @ show_nat (length dts)] @
            (case newest (\<lambda>dt. dt_IFace dt \<noteq> '''') dts of
               Some dt \<Rightarrow> [''iface='' @ dt_IFace dt] | None \<Rightarrow> []) @
            (case newest (\<lambda>dt. ptpStatePopulated (dt_State dt)) dts of
               Some dt \<Rightarrow> [''state='' @ ptp_state_str (dt_State dt)] | None \<Rightarrow> []) @
            (case newest dt_HasOffset dts of
               Some dt \<Rightarrow> [''offset='' @ show_int (dt_Offset dt)] | None \<Rightarrow> []) @
            (case newest (\<lambda>dt. ptpStatePopulated (dt_State dt) \<or> dt_HasOffset dt) dts of
               Some dt \<Rightarrow> if dt_SourceLost dt then [''sourceLost=true''] else [] | None \<Rightarrow> []) @
            (case newest dt_HasProcessStatus dts of
               Some dt \<Rightarrow> [''process_status='' @ show_int (dt_ProcessStatus dt)] | None \<Rightarrow> []))))"

section \<open>Lemmas\<close>

text \<open>The composite state of a source is the worst of its interfaces.\<close>

lemma fold_worse_detail:
  "fold (\<lambda>dt s. worse_detail (dt_State dt) s) dts s0 =
   (if s0 = PTP_FREERUN \<or> (\<exists>dt \<in> set dts. dt_State dt = PTP_FREERUN) then PTP_FREERUN
    else if s0 = PTP_HOLDOVER \<or> (\<exists>dt \<in> set dts. dt_State dt = PTP_HOLDOVER) then PTP_HOLDOVER
    else if (\<exists>dt \<in> set dts. dt_State dt = PTP_LOCKED) then PTP_LOCKED
    else s0)"
proof (induction dts arbitrary: s0)
  case Nil
  then show ?case by simp
next
  case (Cons dt dts)
  then show ?case by (cases "dt_State dt"; cases s0) simp_all
qed

lemma data_UpdateState_simps [simp]:
  "d_ProcessName (data_UpdateState d) = d_ProcessName d"
  "d_Details (data_UpdateState d) = d_Details d"
  "d_Window (data_UpdateState d) = d_Window d"
  by (simp_all add: data_UpdateState_def)

lemma data_UpdateState_locked:
  "d_State (data_UpdateState d) = PTP_LOCKED \<longleftrightarrow>
   (\<exists>dt \<in> set (d_Details d). dt_State dt = PTP_LOCKED) \<and>
   (\<forall>dt \<in> set (d_Details d). dt_State dt \<noteq> PTP_FREERUN \<and> dt_State dt \<noteq> PTP_HOLDOVER)"
  by (auto simp: data_UpdateState_def fold_worse_detail)

lemma refresh_detail_simps [simp]:
  "dt_IFace (refresh_detail now ev F dt) = dt_IFace dt"
  "dt_Time (refresh_detail now ev F dt) = ev_Time ev"
  "dt_State (refresh_detail now ev F dt) = ef_state F"
  "dt_SourceLost (refresh_detail now ev F dt) = ef_sourceLost F"
  by (simp_all add: refresh_detail_def Let_def split: option.split)

lemma fresh_detail_simps [simp]:
  "dt_IFace (fresh_detail now ev F b) = ev_IFace ev"
  "dt_Time (fresh_detail now ev F b) = ev_Time ev"
  "dt_State (fresh_detail now ev F b) = ef_state F"
  "dt_SourceLost (fresh_detail now ev F b) = ef_sourceLost F"
  by (simp_all add: fresh_detail_def Let_def split: option.split)

lemma data_AddEvent_name [simp]: "d_ProcessName (data_AddEvent now ev d) = d_ProcessName d"
  by (simp add: data_AddEvent_def Let_def split: option.split)

lemma data_AddEvent_nonempty [simp]: "d_Details (data_AddEvent now ev d) \<noteq> []"
proof (cases "GetDataDetails (ev_IFace ev) d")
  case None
  then show ?thesis by (simp add: data_AddEvent_def Let_def)
next
  case (Some dt)
  then have "d_Details d \<noteq> []" by (auto simp: GetDataDetails_def find_Some_iff)
  then have "update_first p f (d_Details d) \<noteq> []" for p f
    by (metis length_0_conv length_update_first)
  with Some \<open>d_Details d \<noteq> []\<close> show ?thesis by (simp add: data_AddEvent_def Let_def)
qed

text \<open>Interfaces stay distinct: at most one detail per interface.\<close>

definition data_wf :: "data \<Rightarrow> bool" where
  "data_wf d \<longleftrightarrow> distinct (map dt_IFace (d_Details d)) \<and>
     (case d_Window d of Some w \<Rightarrow> w_inv w | None \<Rightarrow> True)"

lemma data_wf_AddEvent:
  assumes "data_wf d"
  shows "data_wf (data_AddEvent now ev d)"
proof (cases "GetDataDetails (ev_IFace ev) d")
  case None
  then have "ev_IFace ev \<notin> dt_IFace ` set (d_Details d)"
    by (auto simp: GetDataDetails_def find_None_iff)
  with None assms show ?thesis
    by (simp add: data_AddEvent_def data_wf_def Let_def)
next
  case (Some dt)
  with assms show ?thesis
    by (auto simp: data_AddEvent_def data_wf_def Let_def w_inv_Insert split: option.splits)
qed

lemma data_wf_UpdateState [simp]: "data_wf (data_UpdateState d) = data_wf d"
  by (simp add: data_wf_def)

text \<open>After an event its interface's detail carries the event's state, unless it was stale.\<close>

lemma GetDataDetails_AddEvent:
  "GetDataDetails (ev_IFace ev) (data_AddEvent now ev d) =
   Some (case GetDataDetails (ev_IFace ev) d of
       None \<Rightarrow> fresh_detail now ev (payload_fields (ev_Data ev)) (d_Window d \<noteq> None)
     | Some dt \<Rightarrow> if dt_Time dt \<le> ev_Time ev
         then refresh_detail now ev (payload_fields (ev_Data ev)) dt else dt)"
proof (cases "GetDataDetails (ev_IFace ev) d")
  case None
  then show ?thesis
    by (simp add: data_AddEvent_def GetDataDetails_def Let_def find_append)
next
  case (Some dt)
  then have "dt_IFace dt = ev_IFace ev" by (auto simp: GetDataDetails_def find_Some_iff)
  with Some show ?thesis
    by (auto simp: data_AddEvent_def GetDataDetails_def Let_def
        intro!: find_update_first)
qed

lemma GetDataDetails_AddEvent_other:
  assumes "iface \<noteq> ev_IFace ev"
  shows "GetDataDetails iface (data_AddEvent now ev d) = GetDataDetails iface d"
proof -
  have "find (\<lambda>dt. dt_IFace dt = iface)
      (update_first (\<lambda>x. dt_IFace x = ev_IFace ev) (refresh_detail now ev F) dts) =
    find (\<lambda>dt. dt_IFace dt = iface) dts" for F dts
    by (rule find_update_first_other) (use assms in auto)
  with assms show ?thesis
    by (auto simp: data_AddEvent_def GetDataDetails_def Let_def find_append split: option.split)
qed

section \<open>Properties\<close>

text \<open>
  The state of a source is the worst over its interfaces: FREERUN if one is in FREERUN,
  otherwise HOLDOVER if one is, otherwise LOCKED if one is, otherwise UNKNOWN - whatever the order
  of the interfaces.
\<close>

lemma source_state_is_worst:
  "d_State (data_UpdateState d) =
   (if PTP_FREERUN \<in> dt_State ` set (d_Details d) then PTP_FREERUN
    else if PTP_HOLDOVER \<in> dt_State ` set (d_Details d) then PTP_HOLDOVER
    else if PTP_LOCKED \<in> dt_State ` set (d_Details d) then PTP_LOCKED
    else PTP_UNKNOWN)"
  by (simp add: data_UpdateState_def fold_worse_detail image_iff eq_commute [of "PTP_FREERUN"]
      eq_commute [of "PTP_HOLDOVER"] eq_commute [of "PTP_LOCKED"])

text \<open>
  Events are applied per interface and in time order: an event replaces the state and the time
  of its interface's detail unless it is older than the detail, and every other interface keeps
  its detail.
\<close>

lemma event_updates_its_interface:
  "map_option (\<lambda>dt. (dt_State dt, dt_Time dt)) (GetDataDetails iface (data_AddEvent now ev d)) =
   (if iface \<noteq> ev_IFace ev then map_option (\<lambda>dt. (dt_State dt, dt_Time dt)) (GetDataDetails iface d)
    else Some (case GetDataDetails iface d of
        None \<Rightarrow> (ef_state (payload_fields (ev_Data ev)), ev_Time ev)
      | Some dt \<Rightarrow> if dt_Time dt \<le> ev_Time ev
          then (ef_state (payload_fields (ev_Data ev)), ev_Time ev) else (dt_State dt, dt_Time dt)))"
  using GetDataDetails_AddEvent [of ev now d] GetDataDetails_AddEvent_other [of iface ev now d]
  by (auto split: option.split)

end
