(* ===== verification/Hysteresis.thy ===== *)
theory Hysteresis
  imports Float64
begin

text \<open>
  \<open>pkg/utils/hysteresis.go\<close>: the filter that turns deviation samples into a Low/High state,
  flipping only after the required number of consecutive samples on one side. The theory holds
  the filter, a reference description of its state over the whole sample history, and the
  interface \<open>deviation_filter\<close> under which the OS clock and the T-BC use it.
\<close>

section \<open>The filter\<close>

datatype hysteresis_state = HysteresisUnknown | HysteresisLow | HysteresisHigh

record hysteresis_filter =
  hf_inSyncThreshold :: f64
  hf_outOfSyncThreshold :: f64
  hf_inSyncSamplesRequired :: int
  hf_outOfSyncSamplesRequired :: int
  hf_lastState :: hysteresis_state
  hf_inSyncCount :: int
  hf_outOfSyncCount :: int

text \<open>The zero value, as in a struct that embeds an unconfigured filter.\<close>

definition hf_zero :: hysteresis_filter where
  "hf_zero = \<lparr>hf_inSyncThreshold = Fin 0, hf_outOfSyncThreshold = Fin 0,
     hf_inSyncSamplesRequired = 0, hf_outOfSyncSamplesRequired = 0,
     hf_lastState = HysteresisUnknown, hf_inSyncCount = 0, hf_outOfSyncCount = 0\<rparr>"

definition hf_Config :: "f64 \<Rightarrow> f64 \<Rightarrow> int \<Rightarrow> int \<Rightarrow> hysteresis_filter \<Rightarrow> hysteresis_filter" where
  "hf_Config inTh outTh inSamples outSamples f =
     f\<lparr>hf_inSyncThreshold := inTh, hf_outOfSyncThreshold := outTh,
       hf_inSyncSamplesRequired := max inSamples 1,
       hf_outOfSyncSamplesRequired := max outSamples 1,
       hf_inSyncCount := 0, hf_outOfSyncCount := 0\<rparr>"

definition NewHysteresisFilter :: "f64 \<Rightarrow> f64 \<Rightarrow> int \<Rightarrow> int \<Rightarrow> hysteresis_filter" where
  "NewHysteresisFilter inTh outTh inSamples outSamples =
     hf_Config inTh outTh inSamples outSamples hf_zero"

definition hf_Reset :: "hysteresis_filter \<Rightarrow> hysteresis_filter" where
  "hf_Reset f = f\<lparr>hf_inSyncCount := 0, hf_outOfSyncCount := 0,
     hf_lastState := HysteresisUnknown\<rparr>"

definition hf_count :: "f64 \<Rightarrow> hysteresis_filter \<Rightarrow> hysteresis_filter" where
  "hf_count rawDeviation f =
     (let absValue = f64_abs rawDeviation in
      if f64_le absValue (hf_inSyncThreshold f) then
        f\<lparr>hf_outOfSyncCount := 0, hf_inSyncCount := hf_inSyncCount f + 1\<rparr>
      else if f64_lt (hf_outOfSyncThreshold f) absValue then
        f\<lparr>hf_inSyncCount := 0, hf_outOfSyncCount := hf_outOfSyncCount f + 1\<rparr>
      else f\<lparr>hf_inSyncCount := 0, hf_outOfSyncCount := 0\<rparr>)"

definition hf_next :: "hysteresis_filter \<Rightarrow> hysteresis_state" where
  "hf_next f =
     (if hf_inSyncSamplesRequired f \<le> hf_inSyncCount f then HysteresisLow
      else if hf_outOfSyncSamplesRequired f \<le> hf_outOfSyncCount f then HysteresisHigh
      else hf_lastState f)"

definition hf_Update :: "f64 \<Rightarrow> hysteresis_filter \<Rightarrow> hysteresis_filter \<times> hysteresis_state \<times> bool" where
  "hf_Update rawDeviation f =
     (let f1 = hf_count rawDeviation f; next = hf_next f1
      in (f1\<lparr>hf_lastState := next\<rparr>, next, next \<noteq> hf_lastState f))"

definition hf_State :: "hysteresis_filter \<Rightarrow> hysteresis_state" where
  "hf_State f = hf_lastState f"

text \<open>Feeding a list of samples, oldest first.\<close>

definition hf_feed :: "hysteresis_filter \<Rightarrow> f64 list \<Rightarrow> hysteresis_filter" where
  "hf_feed f xs = fold (\<lambda>x g. fst (hf_Update x g)) xs f"

section \<open>The state as a function of the sample history\<close>

text \<open>
  The reference: newest sample first, the state is Low when the trailing run of in-sync samples
  is long enough, High when the trailing run of out-of-sync samples is, and otherwise what it
  was one sample earlier.
\<close>

definition hf_in :: "hysteresis_filter \<Rightarrow> f64 \<Rightarrow> bool" where
  "hf_in f x \<longleftrightarrow> f64_le (f64_abs x) (hf_inSyncThreshold f)"

definition hf_out :: "hysteresis_filter \<Rightarrow> f64 \<Rightarrow> bool" where
  "hf_out f x \<longleftrightarrow> \<not> hf_in f x \<and> f64_lt (hf_outOfSyncThreshold f) (f64_abs x)"

fun hf_reference :: "hysteresis_filter \<Rightarrow> f64 list \<Rightarrow> hysteresis_state" where
  "hf_reference f [] = HysteresisUnknown"
| "hf_reference f (x # xs) =
     (if hf_inSyncSamplesRequired f \<le> int (length (takeWhile (hf_in f) (x # xs)))
        then HysteresisLow
      else if hf_outOfSyncSamplesRequired f \<le> int (length (takeWhile (hf_out f) (x # xs)))
        then HysteresisHigh
      else hf_reference f xs)"

definition hf_same_config :: "hysteresis_filter \<Rightarrow> hysteresis_filter \<Rightarrow> bool" where
  "hf_same_config f g \<longleftrightarrow>
     hf_inSyncThreshold f = hf_inSyncThreshold g \<and> hf_outOfSyncThreshold f = hf_outOfSyncThreshold g \<and>
     hf_inSyncSamplesRequired f = hf_inSyncSamplesRequired g \<and>
     hf_outOfSyncSamplesRequired f = hf_outOfSyncSamplesRequired g"

lemma hf_Update_config: "hf_same_config (fst (hf_Update x f)) f"
  by (simp add: hf_Update_def hf_count_def hf_same_config_def Let_def)

lemma hf_same_config_in: "hf_same_config g f \<Longrightarrow> hf_in g = hf_in f \<and> hf_out g = hf_out f"
  by (auto simp: hf_same_config_def hf_in_def hf_out_def fun_eq_iff)

lemma hf_feed_Nil [simp]: "hf_feed f [] = f"
  by (simp add: hf_feed_def)

lemma hf_feed_snoc: "hf_feed f (xs @ [x]) = fst (hf_Update x (hf_feed f xs))"
  by (simp add: hf_feed_def)

lemma hf_feed_config: "hf_same_config (hf_feed f xs) f"
proof (induction xs rule: rev_induct)
  case Nil
  then show ?case by (simp add: hf_same_config_def)
next
  case (snoc x xs)
  with hf_Update_config [of x "hf_feed f xs"] show ?case
    by (simp add: hf_feed_snoc hf_same_config_def)
qed

lemma hf_count_in: "hf_in f x \<Longrightarrow>
    hf_count x f = f\<lparr>hf_outOfSyncCount := 0, hf_inSyncCount := hf_inSyncCount f + 1\<rparr>"
  and hf_count_out: "hf_out f x \<Longrightarrow>
    hf_count x f = f\<lparr>hf_inSyncCount := 0, hf_outOfSyncCount := hf_outOfSyncCount f + 1\<rparr>"
  and hf_count_band: "\<not> hf_in f x \<Longrightarrow> \<not> hf_out f x \<Longrightarrow>
    hf_count x f = f\<lparr>hf_inSyncCount := 0, hf_outOfSyncCount := 0\<rparr>"
  by (auto simp: hf_count_def hf_in_def hf_out_def Let_def)

lemma hf_in_not_out: "hf_in f x \<Longrightarrow> \<not> hf_out f x"
  by (simp add: hf_out_def)

lemma hf_feed_counts:
  "hf_inSyncCount (hf_feed (hf_Reset f) xs) = int (length (takeWhile (hf_in f) (rev xs))) \<and>
   hf_outOfSyncCount (hf_feed (hf_Reset f) xs) = int (length (takeWhile (hf_out f) (rev xs)))"
proof (induction xs rule: rev_induct)
  case Nil
  then show ?case by (simp add: hf_Reset_def)
next
  case (snoc x xs)
  let ?g = "hf_feed (hf_Reset f) xs"
  have "hf_same_config ?g f"
    using hf_feed_config [of "hf_Reset f" xs] by (simp add: hf_same_config_def hf_Reset_def)
  then have g: "hf_in ?g = hf_in f" "hf_out ?g = hf_out f"
    using hf_same_config_in by blast+
  consider "hf_in f x" | "hf_out f x" | "\<not> hf_in f x \<and> \<not> hf_out f x" by blast
  then show ?case
    by cases
      (use snoc hf_in_not_out hf_count_in [of ?g x] hf_count_out [of ?g x] hf_count_band [of ?g x] g
        in \<open>auto simp: hf_feed_snoc hf_Update_def Let_def hf_out_def\<close>)
qed

lemma hf_feed_reference:
  "hf_lastState (hf_feed (hf_Reset f) xs) = hf_reference f (rev xs)"
proof (induction xs rule: rev_induct)
  case Nil
  then show ?case by (simp add: hf_Reset_def)
next
  case (snoc x xs)
  have c: "hf_same_config (hf_count x (hf_feed (hf_Reset f) xs)) f"
    using hf_feed_config [of "hf_Reset f" xs]
    by (simp add: hf_same_config_def hf_Reset_def hf_count_def Let_def)
  have last: "hf_lastState (hf_count x (hf_feed (hf_Reset f) xs)) = hf_reference f (rev xs)"
    using snoc by (simp add: hf_count_def Let_def)
  have cnt: "hf_inSyncCount (hf_count x (hf_feed (hf_Reset f) xs)) =
      int (length (takeWhile (hf_in f) (rev (xs @ [x]))))"
    "hf_outOfSyncCount (hf_count x (hf_feed (hf_Reset f) xs)) =
      int (length (takeWhile (hf_out f) (rev (xs @ [x]))))"
    using hf_feed_counts [of f "xs @ [x]"] by (simp_all add: hf_feed_snoc hf_Update_def Let_def)
  show ?case
    using c last cnt by (simp add: hf_feed_snoc hf_Update_def Let_def hf_next_def hf_same_config_def)
qed

section \<open>The interface the clocks rely on\<close>

text \<open>
  What a user of the filter needs: the returned state is the stored one and the flag reports a
  change; a move to Low is caused by a sample inside the in-sync threshold and a move to High by
  one beyond the out-of-sync threshold; samples do not change the thresholds.
\<close>

locale deviation_filter =
  fixes upd :: "f64 \<Rightarrow> 'f \<Rightarrow> 'f \<times> hysteresis_state \<times> bool"
    and state :: "'f \<Rightarrow> hysteresis_state"
    and in_sync :: "'f \<Rightarrow> f64 \<Rightarrow> bool"
    and out_of_sync :: "'f \<Rightarrow> f64 \<Rightarrow> bool"
    and ok :: "'f \<Rightarrow> bool"
  assumes upd_state: "upd x f = (f', s, ch) \<Longrightarrow> state f' = s \<and> (ch \<longleftrightarrow> s \<noteq> state f)"
    and upd_low: "ok f \<Longrightarrow> upd x f = (f', HysteresisLow, True) \<Longrightarrow> in_sync f x"
    and upd_high: "ok f \<Longrightarrow> upd x f = (f', HysteresisHigh, True) \<Longrightarrow> out_of_sync f x"
    and upd_known: "ok f \<Longrightarrow> upd x f = (f', HysteresisUnknown, ch) \<Longrightarrow> state f = HysteresisUnknown"
    and upd_bands: "upd x f = (f', s, ch) \<Longrightarrow>
      in_sync f' = in_sync f \<and> out_of_sync f' = out_of_sync f"
    and upd_ok: "ok f \<Longrightarrow> upd x f = (f', s, ch) \<Longrightarrow> ok f'"
begin

definition feed :: "'f \<Rightarrow> f64 list \<Rightarrow> 'f" where
  "feed f xs = fold (\<lambda>x g. fst (upd x g)) xs f"

lemma low_step:
  assumes "ok f" and "state f = HysteresisLow" and "\<not> out_of_sync f x"
  shows "state (fst (upd x f)) = HysteresisLow"
proof -
  obtain f' s ch where u: "upd x f = (f', s, ch)" by (cases "upd x f") auto
  with upd_state [OF u] assms upd_high [of f x f'] upd_known [of f x f' ch] show ?thesis
    by (cases s; cases ch) auto
qed

text \<open>Jitter below the out-of-sync threshold never revokes Low.\<close>

lemma low_kept:
  "ok f \<Longrightarrow> state f = HysteresisLow \<Longrightarrow> \<forall>x \<in> set xs. \<not> out_of_sync f x \<Longrightarrow>
   state (feed f xs) = HysteresisLow"
proof (induction xs arbitrary: f)
  case Nil
  then show ?case by (simp add: feed_def)
next
  case (Cons x xs)
  obtain f' s ch where u: "upd x f = (f', s, ch)" by (cases "upd x f") auto
  have "state f' = HysteresisLow"
    using low_step [of f x] Cons.prems u by simp
  moreover have "ok f'" "out_of_sync f' = out_of_sync f"
    using upd_ok [OF _ u] upd_bands [OF u] Cons.prems by auto
  ultimately have "state (feed f' xs) = HysteresisLow"
    using Cons.IH [of f'] Cons.prems by simp
  then show ?case by (simp add: feed_def u)
qed

end

definition hf_ok :: "hysteresis_filter \<Rightarrow> bool" where
  "hf_ok f \<longleftrightarrow> 1 \<le> hf_inSyncSamplesRequired f \<and> 1 \<le> hf_outOfSyncSamplesRequired f \<and>
     (hf_inSyncSamplesRequired f \<le> hf_inSyncCount f \<longrightarrow> hf_lastState f = HysteresisLow) \<and>
     (hf_outOfSyncSamplesRequired f \<le> hf_outOfSyncCount f \<longrightarrow> hf_lastState f = HysteresisHigh)"

lemma hf_ok_Config: "hf_ok (hf_Config a b m n f)"
  by (auto simp: hf_ok_def hf_Config_def)

lemma hf_ok_Reset: "1 \<le> hf_inSyncSamplesRequired f \<Longrightarrow> 1 \<le> hf_outOfSyncSamplesRequired f \<Longrightarrow>
    hf_ok (hf_Reset f)"
  by (auto simp: hf_ok_def hf_Reset_def)

lemma hf_ok_Update:
  assumes "hf_ok f"
  shows "hf_ok (fst (hf_Update x f))"
proof -
  consider "hf_in f x" | "hf_out f x" | "\<not> hf_in f x \<and> \<not> hf_out f x" by blast
  then show ?thesis
    by cases
      (use assms hf_count_in [of f x] hf_count_out [of f x] hf_count_band [of f x]
        in \<open>auto simp: hf_ok_def hf_Update_def hf_next_def Let_def\<close>)
qed

interpretation hyst: deviation_filter hf_Update hf_State hf_in hf_out hf_ok
proof (unfold_locales, goal_cases)
  case (1 x f f' s ch)
  then show ?case by (auto simp: hf_Update_def hf_State_def Let_def)
next
  case (2 f x f')
  then show ?case
    by (cases "hf_in f x"; cases "hf_out f x")
      (auto simp: hf_Update_def hf_next_def hf_ok_def hf_count_out hf_count_band Let_def split: if_splits)
next
  case (3 f x f')
  then show ?case
    by (cases "hf_in f x"; cases "hf_out f x")
      (auto simp: hf_Update_def hf_next_def hf_ok_def hf_count_in hf_count_band Let_def split: if_splits)
next
  case (4 f x f' ch)
  then show ?case by (auto simp: hf_Update_def hf_next_def hf_State_def hf_count_def Let_def split: if_splits)
next
  case (5 x f f' s ch)
  then show ?case using hf_same_config_in [OF hf_Update_config [of x f]] by simp
next
  case (6 f x f' s ch)
  then show ?case using hf_ok_Update [of f x] by simp
qed

section \<open>Properties\<close>

lemma NewHysteresisFilter_reset: "hf_Reset (NewHysteresisFilter a b m n) = NewHysteresisFilter a b m n"
  by (simp add: NewHysteresisFilter_def hf_Reset_def hf_Config_def hf_zero_def)

text \<open>
  C13. The counters of the filter are an optimisation of a definition over the whole history: after
  any samples fed to a new filter, its state is Low when the trailing run of in-sync samples is
  long enough, otherwise High when the trailing run of out-of-sync samples is, and otherwise what
  it was before the newest sample.
\<close>

theorem hf_feed_is_reference:
  "hf_State (hf_feed (NewHysteresisFilter a b m n) xs) =
   hf_reference (NewHysteresisFilter a b m n) (rev xs)"
  using hf_feed_reference [of "NewHysteresisFilter a b m n" xs]
  by (simp add: NewHysteresisFilter_reset hf_State_def)

text \<open>
  Jitter does not flap the state: once Low, a configured filter stays Low through any samples
  that do not exceed the out-of-sync threshold (or are within the in-sync threshold).
\<close>

lemma hf_low_survives_jitter:
  assumes "hf_ok f" "hf_State f = HysteresisLow" "\<forall>x \<in> set xs. \<not> hf_out f x"
  shows "hf_State (hf_feed f xs) = HysteresisLow"
  using hyst.low_kept [OF assms] by (simp add: hyst.feed_def hf_feed_def)

end
