(* ===== verification/ClockBase.thy ===== *)
theory ClockBase
  imports Stats Hysteresis
begin

text \<open>
  What all clocks share: \<open>pkg/clock/clock.go\<close> (the composite state and the overall-state
  message), \<open>baseclock.go\<close> (the data holder and the base clock) and \<open>osclock.go\<close> (the OS clock
  and its phc2sys filter). A clock reads the state of the shared OS clock and the time through
  \<open>env\<close>; what it sends out (IPC messages, PMC requests, goroutines it starts) is a list of
  \<open>effect\<close>s in program order. One reading of the wall clock serves one handler call.

  \<open>e_utc_offset\<close> is the result of the function \<open>leap.GetUtcOffset\<close> that \<open>NewGM\<close> and \<open>NewTBC\<close> are given.
  That function ends the process with \<open>glog.Fatal\<close> when there is no leap manager or no leap event to
  fall back on (\<open>leap-file.go:104-114\<close>); it is modelled with that exit as \<open>LeapFile.GetUtcOffset\<close>, while
  the clocks here stand for a run in which the offset is known.
\<close>

section \<open>Environment and effects\<close>

record env =
  e_now_ms :: int
  e_now_s :: int
  e_os_state :: ptp_state
  e_utc_offset :: int
  e_no_source_ts :: int
  e_pmc_get :: "string \<Rightarrow> string + grandmaster_settings"
  e_pmc_set :: "string \<Rightarrow> grandmaster_settings \<Rightarrow> string option"

datatype effect =
    SendIPC message
  | StartTimer u64 int string
  | StopTimer u64
  | PmcSetGM string grandmaster_settings
  | PmcSetExternalGM string external_gm_properties
  | FetchUpstream string u64

fun ipc_sent :: "effect list \<Rightarrow> message list" where
  "ipc_sent [] = []"
| "ipc_sent (SendIPC m # es) = m # ipc_sent es"
| "ipc_sent (_ # es) = ipc_sent es"

lemma ipc_sent_append [simp]: "ipc_sent (xs @ ys) = ipc_sent xs @ ipc_sent ys"
  by (induction xs rule: ipc_sent.induct) auto

lemma ipc_sent_map_SendIPC [simp]: "ipc_sent (map SendIPC ms) = ms"
  by (induction ms) auto

record sync_state =
  ss_State :: ptp_state
  ss_ClockClass :: clock_class
  ss_SourceLost :: bool
  ss_LastLoggedTime :: int
  ss_LeadingIFace :: string
  ss_ClockAccuracy :: clock_accuracy
  ss_ClockOffset :: int
  ss_HAProfileStatus :: "(string \<times> bool) list option"

definition zero_sync_state :: sync_state where
  "zero_sync_state = \<lparr>ss_State = PTP_EMPTY, ss_ClockClass = 0, ss_SourceLost = False,
     ss_LastLoggedTime = 0, ss_LeadingIFace = '''', ss_ClockAccuracy = 0, ss_ClockOffset = 0,
     ss_HAProfileStatus = None\<rparr>"

section \<open>The composite state\<close>

definition WorstOfState :: "ptp_state \<Rightarrow> ptp_state \<Rightarrow> ptp_state" where
  "WorstOfState a b =
     (if a = PTP_NOTSET \<or> b = PTP_NOTSET then PTP_NOTSET
      else if a = PTP_FREERUN \<or> b = PTP_FREERUN then PTP_FREERUN
      else if a = PTP_HOLDOVER \<or> b = PTP_HOLDOVER then PTP_HOLDOVER
      else PTP_LOCKED)"

fun worst_loop :: "ptp_state \<Rightarrow> ptp_state list \<Rightarrow> ptp_state" where
  "worst_loop worst [] = worst"
| "worst_loop worst (s # ss) =
     (if s = PTP_NOTSET \<or> s = PTP_UNKNOWN then worst_loop worst ss
      else if worst = PTP_NOTSET then worst_loop s ss
      else worst_loop (WorstOfState worst s) ss)"

definition WorstOfPtpStates :: "ptp_state list \<Rightarrow> ptp_state" where
  "WorstOfPtpStates states = worst_loop PTP_NOTSET states"

definition emitOverallSyncStateIfChanged ::
  "ptp_state \<Rightarrow> ptp_state \<Rightarrow> ptp_state \<Rightarrow> string \<Rightarrow> ptp_state \<times> effect list" where
  "emitOverallSyncStateIfChanged overallSyncState clockState osClockState profile =
     (let next = WorstOfState clockState osClockState in
      if next \<noteq> overallSyncState
      then (next, [SendIPC (new_message TypeSyncState profile '''' (SyncStateValue (PtpStateToIPCState next)))])
      else (overallSyncState, []))"

text \<open>
  What a consumer of the IPC stream believes the node's sync state to be after some messages.
\<close>

fun sync_view :: "string \<Rightarrow> message list \<Rightarrow> string" where
  "sync_view v [] = v"
| "sync_view v (m # ms) =
     sync_view (case m_Values m of
         Some (SyncStateValue s) \<Rightarrow> if m_Type m = TypeSyncState then s else v
       | _ \<Rightarrow> v) ms"

lemma sync_view_append [simp]: "sync_view v (xs @ ys) = sync_view (sync_view v xs) ys"
  by (induction xs arbitrary: v) (auto split: option.split ipc_value.split)

lemma sync_view_other [simp]:
  "\<forall>m \<in> set ms. m_Type m \<noteq> TypeSyncState \<Longrightarrow> sync_view v ms = v"
  by (induction ms arbitrary: v) (auto split: option.split ipc_value.split)

lemma emitOverall_result:
  assumes "emitOverallSyncStateIfChanged o1 c os p = (o2, es)"
  shows "o2 = WorstOfState c os"
    and "sync_view (PtpStateToIPCState o1) (ipc_sent es) = PtpStateToIPCState o2"
    and "es = [] \<longleftrightarrow> o2 = o1"
  using assms by (auto simp: emitOverallSyncStateIfChanged_def Let_def split: if_splits)

text \<open>The order in which \<open>WorstOfState\<close> degrades: NOTSET absorbs, then FREERUN, then HOLDOVER.\<close>

lemma WorstOfState_commute: "WorstOfState a b = WorstOfState b a"
  by (auto simp: WorstOfState_def)

lemma WorstOfState_assoc: "WorstOfState (WorstOfState a b) c = WorstOfState a (WorstOfState b c)"
  by (auto simp: WorstOfState_def)

lemma WorstOfState_locked:
  "WorstOfState a b = PTP_LOCKED \<longleftrightarrow>
   a \<notin> {PTP_NOTSET, PTP_FREERUN, PTP_HOLDOVER} \<and> b \<notin> {PTP_NOTSET, PTP_FREERUN, PTP_HOLDOVER}"
  by (auto simp: WorstOfState_def)

lemma worst_loop_eq:
  "w \<noteq> PTP_UNKNOWN \<Longrightarrow> w \<noteq> PTP_EMPTY \<Longrightarrow> PTP_EMPTY \<notin> set ss \<Longrightarrow>
   worst_loop w ss =
   (if w = PTP_FREERUN \<or> PTP_FREERUN \<in> set ss then PTP_FREERUN
    else if w = PTP_HOLDOVER \<or> PTP_HOLDOVER \<in> set ss then PTP_HOLDOVER
    else if w = PTP_LOCKED \<or> PTP_LOCKED \<in> set ss then PTP_LOCKED
    else PTP_NOTSET)"
proof (induction ss arbitrary: w)
  case Nil
  then show ?case by (cases w) auto
next
  case (Cons s ss)
  show ?case
    using Cons.prems by (cases s; cases w; simp add: Cons.IH WorstOfState_def)
qed

section \<open>The data holder\<close>

definition new_data :: "event_source \<Rightarrow> bool \<Rightarrow> data" where
  "new_data processName withWindow =
     \<lparr>d_ProcessName = processName, d_Details = [], d_State = PTP_UNKNOWN, d_LogData = '''',
      d_Window = (if withWindow then Some (NewWindow WindowSize) else None)\<rparr>"

text \<open>\<open>DataHolder.getData\<close>: the holder after the call and the entry it returns.\<close>

definition dh_getData :: "event_source \<Rightarrow> bool \<Rightarrow> data list \<Rightarrow> data list \<times> data" where
  "dh_getData processName withWindow ds =
     (case find (\<lambda>d. d_ProcessName d = processName) ds of
        Some d \<Rightarrow> (ds, d)
      | None \<Rightarrow> (let d = new_data processName withWindow in (ds @ [d], d)))"

text \<open>
  The entry is a pointer into the holder: a caller that fetches it and mutates it changes the
  holder. \<open>dh_modify\<close> is that pattern, \<open>f\<close> the mutation.
\<close>

definition dh_modify :: "event_source \<Rightarrow> bool \<Rightarrow> (data \<Rightarrow> data) \<Rightarrow> data list \<Rightarrow> data list" where
  "dh_modify processName withWindow f ds =
     upsert (\<lambda>d. d_ProcessName d = processName) (new_data processName withWindow) f ds"

lemma dh_modify_getData:
  "dh_modify src ww f ds =
   update_first (\<lambda>d. d_ProcessName d = src) f (fst (dh_getData src ww ds))"
proof (induction ds)
  case Nil
  then show ?case by (simp add: dh_modify_def dh_getData_def new_data_def Let_def)
next
  case (Cons d ds)
  then show ?case
    by (auto simp: dh_modify_def dh_getData_def new_data_def Let_def split: option.splits)
qed

text \<open>\<open>d := c.GetData(ev.Source); d.AddEvent(ev); d.UpdateState()\<close>.\<close>

definition record_event :: "int \<Rightarrow> event \<Rightarrow> data list \<Rightarrow> data list" where
  "record_event now_s ev ds =
     dh_modify (ev_Source ev) True (\<lambda>d. data_UpdateState (data_AddEvent now_s ev d)) ds"

definition holder_wf :: "data list \<Rightarrow> bool" where
  "holder_wf ds \<longleftrightarrow> distinct (map d_ProcessName ds) \<and> list_all data_wf ds"

lemma data_wf_new [simp]: "data_wf (new_data src ww)"
  by (simp add: data_wf_def new_data_def w_inv_New)

lemma d_ProcessName_new [simp]: "d_ProcessName (new_data src ww) = src"
  by (simp add: new_data_def)

lemma holder_wf_modify:
  assumes "holder_wf ds" and "\<And>d. data_wf d \<Longrightarrow> data_wf (f d)"
    and "\<And>d. d_ProcessName (f d) = d_ProcessName d"
  shows "holder_wf (dh_modify src ww f ds)"
  unfolding holder_wf_def dh_modify_def
proof (intro conjI)
  show "distinct (map d_ProcessName
      (upsert (\<lambda>d. d_ProcessName d = src) (new_data src ww) f ds))"
    by (rule distinct_upsert_key [where k = src])
      (use assms in \<open>auto simp: holder_wf_def\<close>)
  show "list_all data_wf (upsert (\<lambda>d. d_ProcessName d = src) (new_data src ww) f ds)"
    by (rule list_all_upsert) (use assms in \<open>auto simp: holder_wf_def\<close>)
qed

lemma holder_wf_record: "holder_wf ds \<Longrightarrow> holder_wf (record_event now ev ds)"
  unfolding record_event_def by (rule holder_wf_modify) (simp_all add: data_wf_AddEvent)

lemma record_event_nonempty [simp]: "record_event now ev ds \<noteq> []"
  by (simp add: record_event_def dh_modify_def)

section \<open>The base clock\<close>

record base_clock =
  c_data :: "data list"
  c_cfgName :: string
  c_overall :: ptp_state
  c_threshold :: ptp_clock_threshold

definition newBaseClock :: "string \<Rightarrow> ptp_clock_threshold \<Rightarrow> base_clock" where
  "newBaseClock cfgName threshold =
     \<lparr>c_data = [], c_cfgName = cfgName, c_overall = PTP_NOTSET, c_threshold = threshold\<rparr>"

definition base_ConfigNames :: "'a base_clock_scheme \<Rightarrow> string list" where
  "base_ConfigNames c =
     (let ts2phc = replace_first (c_cfgName c) ''ptp4l.'' ''ts2phc.''
      in if ts2phc \<noteq> c_cfgName c then [c_cfgName c, ts2phc] else [c_cfgName c])"

section \<open>The OS clock\<close>

record os_clock =
  oc_data :: "data list"
  oc_State :: ptp_state
  oc_E3State :: ptp_state
  oc_IFace :: string
  oc_Offset :: int
  oc_filter :: hysteresis_filter
  oc_filteredState :: ptp_state
  oc_filterConfigured :: bool

record os_filter_config =
  fc_InSyncThreshold :: f64
  fc_OutOfSyncThreshold :: f64
  fc_Samples :: int

definition os_ConfigureFilter :: "os_filter_config \<Rightarrow> os_clock \<Rightarrow> os_clock" where
  "os_ConfigureFilter cfg oc =
     oc\<lparr>oc_filter := hf_Reset (hf_Config (fc_InSyncThreshold cfg) (fc_OutOfSyncThreshold cfg)
          (fc_Samples cfg) (fc_Samples cfg) (oc_filter oc)),
        oc_filteredState := PTP_NOTSET, oc_filterConfigured := True\<rparr>"

definition os_Reset :: "os_clock \<Rightarrow> os_clock" where
  "os_Reset oc =
     oc\<lparr>oc_State := PTP_FREERUN, oc_E3State := PTP_NOTSET, oc_IFace := ''CLOCK_REALTIME'',
        oc_Offset := 0, oc_filteredState := PTP_NOTSET, oc_filter := hf_Reset (oc_filter oc),
        oc_data := []\<rparr>"

definition os_updateState :: "f64 \<Rightarrow> ptp_state \<Rightarrow> os_clock \<Rightarrow> os_clock \<times> ptp_state" where
  "os_updateState offset rawState oc =
     (if rawState = PTP_HOLDOVER then
        (let oc1 = (if oc_filteredState oc \<noteq> PTP_HOLDOVER
                    then oc\<lparr>oc_filter := hf_Reset (oc_filter oc)\<rparr> else oc)
         in (oc1\<lparr>oc_filteredState := PTP_HOLDOVER\<rparr>, PTP_HOLDOVER))
      else
        (let (f, st, _) = hf_Update offset (oc_filter oc);
             fs = (case st of HysteresisLow \<Rightarrow> PTP_LOCKED | HysteresisHigh \<Rightarrow> PTP_FREERUN
                   | HysteresisUnknown \<Rightarrow> PTP_NOTSET)
         in (oc\<lparr>oc_filter := f, oc_filteredState := fs\<rparr>, fs)))"

definition os_insert_first :: "f64 \<Rightarrow> data \<Rightarrow> data" where
  "os_insert_first v d = d\<lparr>d_Window := map_option (w_Insert v) (d_Window d)\<rparr>"

text \<open>\<open>OsClock.AddEvent\<close>; the flag says whether the event was accepted.\<close>

definition os_AddEvent :: "int \<Rightarrow> event \<Rightarrow> os_clock \<Rightarrow> os_clock \<times> bool" where
  "os_AddEvent now_s ev oc =
     (case ev_Data ev of
        Some (OffsetData ptp) \<Rightarrow>
          if ev_Source ev \<noteq> CHRONYD \<and> ev_Source ev \<noteq> PHC2SYS then (oc, False)
          else
            (let oc1 = oc\<lparr>oc_IFace := ev_IFace ev, oc_Offset := od_Offset ptp\<rparr>;
                 (oc2, state) =
                   (if ev_Source ev = PHC2SYS \<and> oc_filterConfigured oc
                    then os_updateState (f64_of_int (od_Offset ptp)) (od_State ptp) oc1
                    else (oc1, od_State ptp));
                 ev1 = ev\<lparr>ev_Data := Some (OffsetData (ptp\<lparr>od_State := state\<rparr>))\<rparr>;
                 mutate = (\<lambda>d.
                   (let first = (d_Details d = []);
                        d1 = data_AddEvent now_s ev1 d;
                        d2 = (if ev_Source ev = CHRONYD \<and> first
                              then os_insert_first (f64_of_int (od_Offset ptp)) d1 else d1);
                        d3 = data_UpdateState d2
                    in if state = PTP_NOTSET then d3\<lparr>d_State := PTP_NOTSET\<rparr> else d3));
                 oc3 = oc2\<lparr>oc_data := dh_modify (ev_Source ev) (ev_Source ev \<noteq> PHC2SYS) mutate (oc_data oc2)\<rparr>
             in if state = PTP_NOTSET then (oc3, True) else (oc3\<lparr>oc_State := state\<rparr>, True))
      | _ \<Rightarrow> (oc, False))"

definition DeriveOSClockState :: "ptp_state \<Rightarrow> ptp_state \<Rightarrow> ptp_state" where
  "DeriveOSClockState e1 phc2sys = WorstOfState e1 phc2sys"

text \<open>\<open>BaseClock.Reset\<close> and \<open>ProcessData\<close>, which reach the shared OS clock.\<close>

definition base_Reset :: "'a base_clock_scheme \<Rightarrow> os_clock \<Rightarrow> 'a base_clock_scheme \<times> os_clock" where
  "base_Reset c oc = (c\<lparr>c_data := [], c_overall := PTP_FREERUN\<rparr>, os_Reset oc)"

definition base_ProcessData :: "'a base_clock_scheme \<Rightarrow> os_clock \<Rightarrow> data list" where
  "base_ProcessData c oc = c_data c @ oc_data oc"

section \<open>The contract of a state reporter\<close>

text \<open>
  A clock publishes its states as messages. The contract a subscriber needs: \<open>view\<close> replays
  messages on what the subscriber believes, and after a step replaying the messages of the step on
  the old state shown gives the new one.
\<close>

text \<open>What a consumer believes the clock's own PTP state to be after some messages.\<close>

fun ptp_view :: "string \<Rightarrow> message list \<Rightarrow> string" where
  "ptp_view v [] = v"
| "ptp_view v (m # ms) =
     ptp_view (case m_Values m of
         Some (StateValue s n) \<Rightarrow> if m_Type m = TypePTPState then s else v
       | _ \<Rightarrow> v) ms"

lemma ptp_view_append [simp]: "ptp_view v (xs @ ys) = ptp_view (ptp_view v xs) ys"
  by (induction xs arbitrary: v) (auto split: option.split ipc_value.split)

lemma ptp_view_overall [simp]:
  "ptp_view v (ipc_sent (snd (emitOverallSyncStateIfChanged ov c os p))) = v"
  by (simp add: emitOverallSyncStateIfChanged_def Let_def)

locale state_reporter =
  fixes step :: "'op \<Rightarrow> 's \<Rightarrow> ('s \<times> effect list) option"
    and shown :: "'s \<Rightarrow> string"
    and view :: "string \<Rightarrow> message list \<Rightarrow> string"
  assumes view_Nil: "view v [] = v"
    and view_append: "view v (xs @ ys) = view (view v xs) ys"
    and step_view: "step x s = Some (s', es) \<Longrightarrow> view (shown s) (ipc_sent es) = shown s'"
begin

fun run :: "'op list \<Rightarrow> 's \<Rightarrow> ('s \<times> effect list) option" where
  "run [] s = Some (s, [])"
| "run (x # xs) s =
     (case step x s of None \<Rightarrow> None
      | Some (s1, es1) \<Rightarrow> (case run xs s1 of None \<Rightarrow> None | Some (s2, es2) \<Rightarrow> Some (s2, es1 @ es2)))"

lemma run_view:
  "run xs s = Some (s', es) \<Longrightarrow> view (shown s) (ipc_sent es) = shown s'"
proof (induction xs arbitrary: s s' es)
  case Nil
  then show ?case by (simp add: view_Nil)
next
  case (Cons x xs)
  then show ?case
    by (auto simp: view_append step_view split: option.splits)
qed

text \<open>The same over all outcomes of a run, panics included.\<close>

lemma run_shown:
  "map_option (\<lambda>r. view (shown s) (ipc_sent (snd r))) (run xs s) = map_option (\<lambda>r. shown (fst r)) (run xs s)"
  by (cases "run xs s") (auto simp: run_view)

end

section \<open>Lemmas on the OS clock\<close>

lemma os_AddEvent_accepts:
  "snd (os_AddEvent now ev oc) \<longleftrightarrow>
   (\<exists>p. ev_Data ev = Some (OffsetData p)) \<and> (ev_Source ev = CHRONYD \<or> ev_Source ev = PHC2SYS)"
  by (auto simp: os_AddEvent_def Let_def split: option.split event_data.split prod.split)

lemma os_AddEvent_reject: "\<not> snd (os_AddEvent now ev oc) \<Longrightarrow> fst (os_AddEvent now ev oc) = oc"
  by (auto simp: os_AddEvent_def Let_def split: option.split event_data.split prod.split if_splits)

lemma os_insert_first_simps [simp]:
  "d_ProcessName (os_insert_first v d) = d_ProcessName d"
  "d_Details (os_insert_first v d) = d_Details d"
  by (simp_all add: os_insert_first_def)

lemma data_wf_insert_first: "data_wf d \<Longrightarrow> data_wf (os_insert_first v d)"
  by (auto simp: data_wf_def os_insert_first_def w_inv_Insert split: option.splits)

text \<open>What an accepted phc2sys sample does when the filter is configured.\<close>

lemma os_AddEvent_phc2sys:
  assumes "ev_Source ev = PHC2SYS" "ev_Data ev = Some (OffsetData p)" "od_State p \<noteq> PTP_HOLDOVER"
    and "oc_filterConfigured oc"
  shows "oc_filter (fst (os_AddEvent now ev oc)) = fst (hf_Update (f64_of_int (od_Offset p)) (oc_filter oc))"
    and "oc_filterConfigured (fst (os_AddEvent now ev oc))"
    and "oc_State (fst (os_AddEvent now ev oc)) =
      (case fst (snd (hf_Update (f64_of_int (od_Offset p)) (oc_filter oc))) of
         HysteresisLow \<Rightarrow> PTP_LOCKED | HysteresisHigh \<Rightarrow> PTP_FREERUN
       | HysteresisUnknown \<Rightarrow> oc_State oc)"
  using assms
  by (cases "hf_Update (f64_of_int (od_Offset p)) (oc_filter oc)",
      simp_all add: os_AddEvent_def os_updateState_def Let_def split: hysteresis_state.split)+

definition os_feed :: "(int \<times> event) list \<Rightarrow> os_clock \<Rightarrow> os_clock" where
  "os_feed evs oc = fold (\<lambda>(now, ev) c. fst (os_AddEvent now ev c)) evs oc"

text \<open>Samples of phc2sys that report no holdover and satisfy a predicate on the offset.\<close>

definition phc2sys_samples :: "(f64 \<Rightarrow> bool) \<Rightarrow> (int \<times> event) list \<Rightarrow> bool" where
  "phc2sys_samples P evs \<longleftrightarrow>
     list_all (\<lambda>(now, ev). ev_Source ev = PHC2SYS \<and>
       (case ev_Data ev of Some (OffsetData p) \<Rightarrow> od_State p \<noteq> PTP_HOLDOVER \<and> P (f64_of_int (od_Offset p))
        | _ \<Rightarrow> False)) evs"

lemma phc2sys_samples_Cons:
  "phc2sys_samples P ((now, ev) # evs) \<longleftrightarrow>
   (\<exists>p. ev_Source ev = PHC2SYS \<and> ev_Data ev = Some (OffsetData p) \<and> od_State p \<noteq> PTP_HOLDOVER \<and>
     P (f64_of_int (od_Offset p))) \<and> phc2sys_samples P evs"
  by (auto simp: phc2sys_samples_def split: option.split event_data.split)

lemma os_feed_jitter:
  assumes "oc_filterConfigured oc" "hf_ok (oc_filter oc)" "hf_State (oc_filter oc) = HysteresisLow"
    and "phc2sys_samples (\<lambda>x. \<not> hf_out (oc_filter oc) x) evs" "oc_State oc = PTP_LOCKED"
  shows "oc_State (os_feed evs oc) = PTP_LOCKED"
  using assms
proof (induction evs arbitrary: oc)
  case Nil
  then show ?case by (simp add: os_feed_def)
next
  case (Cons x evs)
  obtain now ev where x: "x = (now, ev)" by (cases x)
  from Cons.prems(4) obtain p where p: "ev_Source ev = PHC2SYS" "ev_Data ev = Some (OffsetData p)"
    "od_State p \<noteq> PTP_HOLDOVER" "\<not> hf_out (oc_filter oc) (f64_of_int (od_Offset p))"
    and rest: "phc2sys_samples (\<lambda>x. \<not> hf_out (oc_filter oc) x) evs"
    by (auto simp: x phc2sys_samples_Cons)
  obtain f s ch where u: "hf_Update (f64_of_int (od_Offset p)) (oc_filter oc) = (f, s, ch)"
    by (cases "hf_Update (f64_of_int (od_Offset p)) (oc_filter oc)") auto
  note step = os_AddEvent_phc2sys [OF p(1-3) Cons.prems(1), of now, unfolded u, simplified]
  have low: "hf_State f = HysteresisLow"
    using hyst.low_step [OF Cons.prems(2,3) p(4)] u by simp
  with hyst.upd_state [OF u] have s: "s = HysteresisLow" by simp
  have "hf_out f = hf_out (oc_filter oc)" "hf_ok f"
    using hyst.upd_bands [OF u] hyst.upd_ok [OF Cons.prems(2) u] by auto
  with Cons.IH [of "fst (os_AddEvent now ev oc)"] step rest low s
  show ?case by (simp add: os_feed_def x)
qed

section \<open>Properties\<close>

text \<open>
  The overall state is the worst of its two inputs: combining is commutative and associative,
  NOTSET absorbs, FREERUN beats HOLDOVER, and the result is LOCKED only when neither input is one
  of NOTSET, FREERUN and HOLDOVER.
\<close>

lemma worst_of_is_a_meet:
  "WorstOfState a b = WorstOfState b a \<and>
   WorstOfState (WorstOfState a b) c = WorstOfState a (WorstOfState b c) \<and>
   WorstOfState PTP_NOTSET a = PTP_NOTSET \<and>
   (WorstOfState a b = PTP_LOCKED) =
     (a \<notin> {PTP_NOTSET, PTP_FREERUN, PTP_HOLDOVER} \<and> b \<notin> {PTP_NOTSET, PTP_FREERUN, PTP_HOLDOVER})"
  using WorstOfState_commute WorstOfState_assoc WorstOfState_locked
  by (auto simp: WorstOfState_def)

text \<open>
  The OS clock does not flap: once the phc2sys filter is Low and the OS clock LOCKED, any
  number of phc2sys samples that do not exceed the out-of-sync threshold leaves it LOCKED, whatever
  state phc2sys itself reports with them (HOLDOVER excepted, which is taken over at once).
\<close>

lemma os_clock_survives_jitter:
  assumes "oc_filterConfigured oc" "hf_ok (oc_filter oc)" "hf_State (oc_filter oc) = HysteresisLow"
    and "phc2sys_samples (\<lambda>x. \<not> hf_out (oc_filter oc) x) evs" "oc_State oc = PTP_LOCKED"
  shows "oc_State (os_feed evs oc) = PTP_LOCKED"
  using assms by (rule os_feed_jitter)

definition phc2sys_event :: "ptp_state \<Rightarrow> int \<Rightarrow> event" where
  "phc2sys_event st n =
     \<lparr>ev_Source = PHC2SYS, ev_IFace = ''CLOCK_REALTIME'', ev_CfgName = ''phc2sys.0.config'',
      ev_ClockType = BC, ev_Time = 0, ev_WriteToLog = False, ev_Reset = False,
      ev_Data = Some (OffsetData \<lparr>od_State = st, od_Offset = n, od_SourceLost = False,
        od_NMEALocked = None\<rparr>)\<rparr>"

definition sample_os_clock :: os_clock where
  "sample_os_clock =
     \<lparr>oc_data = [], oc_State = PTP_LOCKED, oc_E3State = PTP_LOCKED, oc_IFace = ''CLOCK_REALTIME'',
      oc_Offset = 0, oc_filter = fst (hf_Update (Fin 5) (NewHysteresisFilter (Fin 10) (Fin 20) 1 1)),
      oc_filteredState = PTP_LOCKED, oc_filterConfigured = True\<rparr>"

lemma sample_os_filter:
  "hf_ok (oc_filter sample_os_clock)" "hf_State (oc_filter sample_os_clock) = HysteresisLow"
  "oc_filterConfigured sample_os_clock" "oc_State sample_os_clock = PTP_LOCKED"
  "hf_inSyncThreshold (oc_filter sample_os_clock) = Fin 10"
  "hf_outOfSyncThreshold (oc_filter sample_os_clock) = Fin 20"
  by (simp_all add: sample_os_clock_def hf_ok_Update hf_ok_Config NewHysteresisFilter_def)
    (simp_all add: hf_Update_def hf_count_def hf_next_def hf_Config_def hf_State_def hf_zero_def)

text \<open>
  With the filter configured, a phc2sys sample makes the OS clock LOCKED only if it lies within
  the in-sync threshold: the LOCKED that phc2sys reports is never taken over unfiltered.
\<close>

lemma os_clock_locks_in_sync:
  assumes "ev_Source ev = PHC2SYS" "ev_Data ev = Some (OffsetData p)" "od_State p \<noteq> PTP_HOLDOVER"
    and "oc_filterConfigured oc" "hf_ok (oc_filter oc)" "hf_State (oc_filter oc) \<noteq> HysteresisLow"
    and "oc_State oc \<noteq> PTP_LOCKED" "oc_State (fst (os_AddEvent now ev oc)) = PTP_LOCKED"
  shows "hf_in (oc_filter oc) (f64_of_int (od_Offset p))"
proof -
  obtain f s ch where u: "hf_Update (f64_of_int (od_Offset p)) (oc_filter oc) = (f, s, ch)"
    by (cases "hf_Update (f64_of_int (od_Offset p)) (oc_filter oc)") auto
  have "s = HysteresisLow"
    using os_AddEvent_phc2sys(3) [OF assms(1-4), of now] assms(7,8)
    by (simp add: u split: hysteresis_state.splits)
  with u hyst.upd_state [OF u] assms(6) hyst.upd_low [OF assms(5)] show ?thesis by auto
qed

end
