(* ===== verification/BcClock.thy ===== *)
theory BcClock
  imports ClockBase
begin

text \<open>
  \<open>pkg/clock/bc.go\<close>: the boundary (or ordinary) clock with its holdover timer. The timer is a
  goroutine: arming it is the effect \<open>StartTimer\<close>, closing its cancel channel \<open>StopTimer\<close>, both
  named by the generation of the timer. \<open>AddEvent\<close> returns \<open>None\<close> where the code panics. The second
  half of the theory runs the clock together with its timers and the event queue.
\<close>

section \<open>State\<close>

record bc_clock = base_clock +
  b_clockType :: clock_type
  b_sendEvent :: bool
  b_iface :: string
  b_syncState :: ptp_state
  b_clockClass :: clock_class
  b_holdoverCancel :: "u64 option"
  b_holdoverGen :: u64

definition NewBC :: "string \<Rightarrow> bool \<Rightarrow> ptp_clock_threshold \<Rightarrow> bc_clock" where
  "NewBC cfgName isOC threshold =
     base_clock.extend (newBaseClock cfgName threshold)
       \<lparr>b_clockType = (if isOC then OC else BC), b_sendEvent = False, b_iface = '''',
        b_syncState = PTP_NOTSET, b_clockClass = 0, b_holdoverCancel = None, b_holdoverGen = 0\<rparr>"

definition bc_SetEventLoopbackFunc :: "bc_clock \<Rightarrow> bc_clock" where
  "bc_SetEventLoopbackFunc c = c\<lparr>b_sendEvent := True\<rparr>"

definition bc_ClockType :: "bc_clock \<Rightarrow> clock_type" where
  "bc_ClockType c = (if b_clockType c = ClockUnset then BC else b_clockType c)"

section \<open>Operations\<close>

definition bc_currentSyncState :: "bc_clock \<Rightarrow> sync_state" where
  "bc_currentSyncState c =
     zero_sync_state\<lparr>ss_State := b_syncState c, ss_ClockClass := b_clockClass c,
       ss_LeadingIFace := (if b_iface c \<noteq> '''' then b_iface c else LEADING_INTERFACE_UNKNOWN)\<rparr>"

definition bc_emitClockClass :: "clock_class \<Rightarrow> bc_clock \<Rightarrow> effect list" where
  "bc_emitClockClass cls c =
     [SendIPC (new_message TypeClockClass (c_cfgName c) (b_iface c) (ClockClassValue cls))]"

definition bc_updateClockClass :: "clock_class \<Rightarrow> bc_clock \<Rightarrow> bc_clock \<times> effect list" where
  "bc_updateClockClass cls c =
     (if cls = b_clockClass c then (c, [])
      else (let c1 = c\<lparr>b_clockClass := cls\<rparr> in
            if b_iface c1 = '''' then (c1, []) else (c1, bc_emitClockClass cls c1)))"

text \<open>\<open>SystemClockUpdate\<close>: the overall state against the OS clock.\<close>

definition bc_SystemClockUpdate :: "env \<Rightarrow> bc_clock \<Rightarrow> bc_clock \<times> effect list" where
  "bc_SystemClockUpdate e c =
     (let (o', es) = emitOverallSyncStateIfChanged (c_overall c) (b_syncState c) (e_os_state e) (c_cfgName c)
      in (c\<lparr>c_overall := o'\<rparr>, es))"

definition bc_onStateChanged ::
  "env \<Rightarrow> ptp_state \<Rightarrow> string \<Rightarrow> bc_clock \<Rightarrow> bc_clock \<times> effect list" where
  "bc_onStateChanged e prev iface c =
     (let es1 = (if b_syncState c \<noteq> prev
          then [SendIPC (new_message TypePTPState (c_cfgName c) iface
                  (StateValue (PtpStateToIPCState (b_syncState c)) 0))]
          else []);
          (c1, es2) = bc_SystemClockUpdate e c
      in (c1, es1 @ es2))"

definition bc_cancelHoldoverTimer :: "bc_clock \<Rightarrow> bc_clock \<times> effect list" where
  "bc_cancelHoldoverTimer c =
     (case b_holdoverCancel c of
        Some g \<Rightarrow> (c\<lparr>b_holdoverCancel := None, b_holdoverGen := b_holdoverGen c + 1\<rparr>, [StopTimer g])
      | None \<Rightarrow> (c, []))"

definition bc_armHoldoverTimer :: "bc_clock \<Rightarrow> bc_clock \<times> effect list" where
  "bc_armHoldoverTimer c =
     (let (c1, es) = bc_cancelHoldoverTimer c;
          gen = b_holdoverGen c1 + 1;
          c2 = c1\<lparr>b_holdoverGen := gen, b_holdoverCancel := Some gen\<rparr>
      in (c2, es @ [StartTimer gen (th_HoldOverTimeout (c_threshold c2)) (b_iface c2)]))"

definition bc_handleHoldoverExpired :: "env \<Rightarrow> u64 \<Rightarrow> bc_clock \<Rightarrow> bc_clock \<times> effect list" where
  "bc_handleHoldoverExpired e gen c =
     (if b_syncState c \<noteq> PTP_HOLDOVER \<or> gen \<noteq> b_holdoverGen c then (c, [])
      else bc_onStateChanged e (b_syncState c) (b_iface c)
             (c\<lparr>b_syncState := PTP_FREERUN, b_holdoverCancel := None\<rparr>))"

definition isOffsetInRange :: "int \<Rightarrow> int \<Rightarrow> int \<Rightarrow> bool" where
  "isOffsetInRange offset maxOffset minOffset \<longleftrightarrow> offset < maxOffset \<and> minOffset < offset"

text \<open>\<open>ptpOffset\<close>: a panic (nil offset of a DPLL payload), no offset, or the offset.\<close>

datatype offset_result = NilDeref | NoOffset | Offset int

definition ptpOffset :: "event \<Rightarrow> offset_result" where
  "ptpOffset ev =
     (case ev_Data ev of
        Some (OffsetData d) \<Rightarrow> Offset (od_Offset d)
      | Some (DPLLData d) \<Rightarrow> (case dp_Offset d of Some n \<Rightarrow> Offset n | None \<Rightarrow> NilDeref)
      | _ \<Rightarrow> NoOffset)"

text \<open>The type switch of \<open>AddEvent\<close>: \<open>None\<close> is its default case.\<close>

definition bc_sourceLost :: "event \<Rightarrow> bool option" where
  "bc_sourceLost ev =
     (case ev_Data ev of
        Some (OffsetData d) \<Rightarrow> Some (od_SourceLost d)
      | Some (StateData d) \<Rightarrow> Some (sd_SourceLost d)
      | Some (DPLLData d) \<Rightarrow> Some (dp_SourceLost d)
      | Some (SyncEData d) \<Rightarrow> Some False
      | _ \<Rightarrow> None)"

definition bc_recordIface :: "bool \<Rightarrow> event \<Rightarrow> bc_clock \<Rightarrow> bc_clock \<times> effect list" where
  "bc_recordIface sourceLost ev c =
     (if \<not> sourceLost \<and> ev_IFace ev \<noteq> '''' then
        (let firstInterface = (b_iface c = ''''); c1 = c\<lparr>b_iface := ev_IFace ev\<rparr> in
         (c1, if firstInterface \<and> b_clockClass c1 \<noteq> 0
              then bc_emitClockClass (b_clockClass c1) c1 else []))
      else (c, []))"

text \<open>The slave port is faulty.\<close>

definition bc_onSourceLost :: "env \<Rightarrow> event \<Rightarrow> bc_clock \<Rightarrow> bc_clock \<times> effect list" where
  "bc_onSourceLost e ev c =
     (let prev = b_syncState c;
          (c1, es1) = (if b_syncState c = PTP_LOCKED
             then bc_armHoldoverTimer (c\<lparr>b_syncState := PTP_HOLDOVER\<rparr>) else (c, []));
          (c2, es2) = bc_onStateChanged e prev (ev_IFace ev) c1
      in (c2, es1 @ es2))"

text \<open>An offset sample: the timer is cancelled and the range decides.\<close>

definition bc_onOffset :: "env \<Rightarrow> event \<Rightarrow> int \<Rightarrow> bc_clock \<Rightarrow> bc_clock \<times> effect list" where
  "bc_onOffset e ev offset c =
     (let prev = b_syncState c;
          (c1, es1) = bc_cancelHoldoverTimer c;
          th = c_threshold c1;
          c2 = c1\<lparr>b_syncState :=
            (if isOffsetInRange offset (th_MaxOffsetThreshold th) (th_MinOffsetThreshold th)
             then PTP_LOCKED else PTP_FREERUN)\<rparr>;
          (c3, es2) = bc_onStateChanged e prev (ev_IFace ev) c2
      in (c3, es1 @ es2))"

definition bc_onSample ::
  "env \<Rightarrow> event \<Rightarrow> bool \<Rightarrow> bc_clock \<Rightarrow> (bc_clock \<times> effect list) option" where
  "bc_onSample e ev sourceLost c =
     (if sourceLost then Some (bc_onSourceLost e ev c)
      else (case ptpOffset ev of
              NilDeref \<Rightarrow> None
            | NoOffset \<Rightarrow> Some (c, [])
            | Offset n \<Rightarrow> Some (bc_onOffset e ev n c)))"

definition bc_onPMC :: "event \<Rightarrow> bc_clock \<Rightarrow> bc_clock \<times> effect list" where
  "bc_onPMC ev c =
     (case ev_Data ev of
        Some (ParentDSData ds) \<Rightarrow>
          bc_updateClockClass
            (if b_clockType c = OC then ClockClassSlaveOnly else pds_GrandmasterClockClass ds) c
      | _ \<Rightarrow> (c, []))"

definition bc_onProcessEvent :: "env \<Rightarrow> event \<Rightarrow> bc_clock \<Rightarrow> (bc_clock \<times> effect list) option" where
  "bc_onProcessEvent e ev c =
     (let c1 = c\<lparr>c_data := record_event (e_now_s e) ev (c_data c)\<rparr> in
      case bc_sourceLost ev of
        None \<Rightarrow> Some (c1, [])
      | Some lost \<Rightarrow>
          (let (c2, es1) = bc_recordIface lost ev c1 in
           case bc_onSample e ev lost c2 of
             None \<Rightarrow> None
           | Some (c3, es2) \<Rightarrow> Some (c3, es1 @ es2)))"

definition bc_AddEvent :: "env \<Rightarrow> event \<Rightarrow> bc_clock \<Rightarrow> (bc_clock \<times> effect list) option" where
  "bc_AddEvent e ev c =
     (if ev_Source ev = PMC then Some (bc_onPMC ev c)
      else (case ev_Data ev of
              Some (HoldoverExpired g) \<Rightarrow> Some (bc_handleHoldoverExpired e g c)
            | _ \<Rightarrow> bc_onProcessEvent e ev c))"

text \<open>\<open>AddEvent\<close> returns \<open>currentSyncState\<close> on every path.\<close>

definition bc_AddEvent_result :: "env \<Rightarrow> event \<Rightarrow> bc_clock \<Rightarrow> (bc_clock \<times> effect list \<times> sync_state) option" where
  "bc_AddEvent_result e ev c =
     map_option (\<lambda>(c', es). (c', es, bc_currentSyncState c')) (bc_AddEvent e ev c)"

definition bc_Reset :: "bc_clock \<Rightarrow> os_clock \<Rightarrow> bc_clock \<times> os_clock \<times> effect list" where
  "bc_Reset c oc =
     (let (c1, es) = bc_cancelHoldoverTimer c;
          (c2, oc') = base_Reset c1 oc
      in (c2\<lparr>b_syncState := PTP_FREERUN, c_overall := PTP_FREERUN, b_clockClass := 0, b_iface := ''''\<rparr>,
          oc', es))"

text \<open>The event an expired timer posts.\<close>

definition bc_expiry_event :: "int \<Rightarrow> bc_clock \<Rightarrow> string \<Rightarrow> u64 \<Rightarrow> event" where
  "bc_expiry_event now_ms c iface gen =
     \<lparr>ev_Source = PTP4l, ev_IFace = iface, ev_CfgName = c_cfgName c, ev_ClockType = bc_ClockType c,
      ev_Time = now_ms, ev_WriteToLog = False, ev_Reset = False,
      ev_Data = Some (HoldoverExpired gen)\<rparr>"

section \<open>Field lemmas\<close>

lemma bc_SystemClockUpdate_fields [simp]:
  "b_syncState (fst (bc_SystemClockUpdate e c)) = b_syncState c"
  "b_holdoverCancel (fst (bc_SystemClockUpdate e c)) = b_holdoverCancel c"
  "b_holdoverGen (fst (bc_SystemClockUpdate e c)) = b_holdoverGen c"
  "b_iface (fst (bc_SystemClockUpdate e c)) = b_iface c"
  "b_clockClass (fst (bc_SystemClockUpdate e c)) = b_clockClass c"
  "c_cfgName (fst (bc_SystemClockUpdate e c)) = c_cfgName c"
  "c_threshold (fst (bc_SystemClockUpdate e c)) = c_threshold c"
  "c_data (fst (bc_SystemClockUpdate e c)) = c_data c"
  "c_overall (fst (bc_SystemClockUpdate e c)) = WorstOfState (b_syncState c) (e_os_state e)"
  by (simp_all add: bc_SystemClockUpdate_def emitOverallSyncStateIfChanged_def Let_def)

lemma bc_onStateChanged_fst [simp]:
  "fst (bc_onStateChanged e prev iface c) = fst (bc_SystemClockUpdate e c)"
  by (simp add: bc_onStateChanged_def Let_def split_beta)

lemma bc_cancel_fields [simp]:
  "b_holdoverCancel (fst (bc_cancelHoldoverTimer c)) = None"
  "b_syncState (fst (bc_cancelHoldoverTimer c)) = b_syncState c"
  "b_iface (fst (bc_cancelHoldoverTimer c)) = b_iface c"
  "b_clockClass (fst (bc_cancelHoldoverTimer c)) = b_clockClass c"
  "c_overall (fst (bc_cancelHoldoverTimer c)) = c_overall c"
  "c_cfgName (fst (bc_cancelHoldoverTimer c)) = c_cfgName c"
  "c_threshold (fst (bc_cancelHoldoverTimer c)) = c_threshold c"
  "c_data (fst (bc_cancelHoldoverTimer c)) = c_data c"
  "ipc_sent (snd (bc_cancelHoldoverTimer c)) = []"
  by (simp_all add: bc_cancelHoldoverTimer_def split: option.split)

lemma bc_arm_fields [simp]:
  "b_holdoverCancel (fst (bc_armHoldoverTimer c)) = Some (b_holdoverGen (fst (bc_armHoldoverTimer c)))"
  "b_syncState (fst (bc_armHoldoverTimer c)) = b_syncState c"
  "b_iface (fst (bc_armHoldoverTimer c)) = b_iface c"
  "b_clockClass (fst (bc_armHoldoverTimer c)) = b_clockClass c"
  "c_overall (fst (bc_armHoldoverTimer c)) = c_overall c"
  "c_cfgName (fst (bc_armHoldoverTimer c)) = c_cfgName c"
  "c_threshold (fst (bc_armHoldoverTimer c)) = c_threshold c"
  "c_data (fst (bc_armHoldoverTimer c)) = c_data c"
  "ipc_sent (snd (bc_armHoldoverTimer c)) = []"
  by (simp_all add: bc_armHoldoverTimer_def Let_def split_beta)

lemma bc_recordIface_fields [simp]:
  "b_syncState (fst (bc_recordIface lost ev c)) = b_syncState c"
  "b_holdoverCancel (fst (bc_recordIface lost ev c)) = b_holdoverCancel c"
  "b_holdoverGen (fst (bc_recordIface lost ev c)) = b_holdoverGen c"
  "b_clockClass (fst (bc_recordIface lost ev c)) = b_clockClass c"
  "c_overall (fst (bc_recordIface lost ev c)) = c_overall c"
  "c_cfgName (fst (bc_recordIface lost ev c)) = c_cfgName c"
  "c_threshold (fst (bc_recordIface lost ev c)) = c_threshold c"
  "c_data (fst (bc_recordIface lost ev c)) = c_data c"
  by (simp_all add: bc_recordIface_def Let_def)

lemma bc_onPMC_fields [simp]:
  "b_syncState (fst (bc_onPMC ev c)) = b_syncState c"
  "b_holdoverCancel (fst (bc_onPMC ev c)) = b_holdoverCancel c"
  "b_holdoverGen (fst (bc_onPMC ev c)) = b_holdoverGen c"
  "c_overall (fst (bc_onPMC ev c)) = c_overall c"
  "c_threshold (fst (bc_onPMC ev c)) = c_threshold c"
  "c_data (fst (bc_onPMC ev c)) = c_data c"
  by (simp_all add: bc_onPMC_def bc_updateClockClass_def Let_def split: option.split event_data.split)

text \<open>What the timers see of the effects.\<close>

fun timer_effects :: "effect list \<Rightarrow> effect list" where
  "timer_effects [] = []"
| "timer_effects (StartTimer g t i # es) = StartTimer g t i # timer_effects es"
| "timer_effects (StopTimer g # es) = StopTimer g # timer_effects es"
| "timer_effects (_ # es) = timer_effects es"

lemma timer_effects_append [simp]: "timer_effects (xs @ ys) = timer_effects xs @ timer_effects ys"
  by (induction xs rule: timer_effects.induct) auto

lemma timer_effects_overall [simp]:
  "timer_effects (snd (emitOverallSyncStateIfChanged ov c os p)) = []"
  by (simp add: emitOverallSyncStateIfChanged_def Let_def)

lemma timer_effects_bc [simp]:
  "timer_effects (snd (bc_SystemClockUpdate e c)) = []"
  "timer_effects (snd (bc_onStateChanged e prev iface c)) = []"
  "timer_effects (snd (bc_recordIface lost ev c)) = []"
  "timer_effects (snd (bc_onPMC ev c)) = []"
  "timer_effects (snd (bc_cancelHoldoverTimer c)) = snd (bc_cancelHoldoverTimer c)"
  "timer_effects (snd (bc_armHoldoverTimer c)) = snd (bc_armHoldoverTimer c)"
  by (simp_all add: bc_SystemClockUpdate_def bc_onStateChanged_def bc_recordIface_def
      bc_emitClockClass_def bc_onPMC_def bc_updateClockClass_def bc_cancelHoldoverTimer_def
      bc_armHoldoverTimer_def Let_def split_beta split: option.split event_data.split)

section \<open>The published overall state\<close>

lemma emitOverall_view [simp]:
  "sync_view (PtpStateToIPCState ov) (ipc_sent (snd (emitOverallSyncStateIfChanged ov c os p))) =
   PtpStateToIPCState (WorstOfState c os)"
  "fst (emitOverallSyncStateIfChanged ov c os p) = WorstOfState c os"
  by (simp_all add: emitOverallSyncStateIfChanged_def Let_def)

lemma bc_view_simps [simp]:
  "sync_view (PtpStateToIPCState (c_overall c)) (ipc_sent (snd (bc_SystemClockUpdate e c))) =
   PtpStateToIPCState (WorstOfState (b_syncState c) (e_os_state e))"
  "sync_view (PtpStateToIPCState (c_overall c)) (ipc_sent (snd (bc_onStateChanged e prev iface c))) =
   PtpStateToIPCState (WorstOfState (b_syncState c) (e_os_state e))"
  "sync_view v (ipc_sent (snd (bc_recordIface lost ev c))) = v"
  "sync_view v (ipc_sent (snd (bc_onPMC ev c))) = v"
  by (simp_all add: bc_SystemClockUpdate_def bc_onStateChanged_def bc_recordIface_def
      bc_emitClockClass_def bc_onPMC_def bc_updateClockClass_def Let_def split_beta
      split: option.split event_data.split)

lemma bc_onSourceLost_fields [simp]:
  "b_syncState (fst (bc_onSourceLost e ev c)) =
     (if b_syncState c = PTP_LOCKED then PTP_HOLDOVER else b_syncState c)"
  "c_overall (fst (bc_onSourceLost e ev c)) =
     WorstOfState (b_syncState (fst (bc_onSourceLost e ev c))) (e_os_state e)"
  "c_data (fst (bc_onSourceLost e ev c)) = c_data c"
  "c_threshold (fst (bc_onSourceLost e ev c)) = c_threshold c"
  by (simp_all add: bc_onSourceLost_def Let_def split_beta)

lemma bc_onOffset_fields [simp]:
  "b_syncState (fst (bc_onOffset e ev n c)) =
     (if isOffsetInRange n (th_MaxOffsetThreshold (c_threshold c)) (th_MinOffsetThreshold (c_threshold c))
      then PTP_LOCKED else PTP_FREERUN)"
  "c_overall (fst (bc_onOffset e ev n c)) =
     WorstOfState (b_syncState (fst (bc_onOffset e ev n c))) (e_os_state e)"
  "b_holdoverCancel (fst (bc_onOffset e ev n c)) = None"
  "c_data (fst (bc_onOffset e ev n c)) = c_data c"
  "c_threshold (fst (bc_onOffset e ev n c)) = c_threshold c"
  by (simp_all add: bc_onOffset_def Let_def split_beta)

lemma bc_view_at:
  "c_overall c = ov \<Longrightarrow>
   sync_view (PtpStateToIPCState ov) (ipc_sent (snd (bc_onStateChanged e prev iface c))) =
   PtpStateToIPCState (WorstOfState (b_syncState c) (e_os_state e))"
  by (metis bc_view_simps(2))

lemma bc_view_onSourceLost [simp]:
  "sync_view (PtpStateToIPCState (c_overall c)) (ipc_sent (snd (bc_onSourceLost e ev c))) =
   PtpStateToIPCState (c_overall (fst (bc_onSourceLost e ev c)))"
  by (simp add: bc_onSourceLost_def Let_def split_beta bc_view_at)

lemma bc_view_onOffset [simp]:
  "sync_view (PtpStateToIPCState (c_overall c)) (ipc_sent (snd (bc_onOffset e ev n c))) =
   PtpStateToIPCState (c_overall (fst (bc_onOffset e ev n c)))"
  by (simp add: bc_onOffset_def Let_def split_beta bc_view_at)

lemma bc_view_expired [simp]:
  "sync_view (PtpStateToIPCState (c_overall c)) (ipc_sent (snd (bc_handleHoldoverExpired e g c))) =
   PtpStateToIPCState (c_overall (fst (bc_handleHoldoverExpired e g c)))"
  by (simp add: bc_handleHoldoverExpired_def bc_view_at)

lemma bc_view_onSample:
  "bc_onSample e ev lost c = Some r \<Longrightarrow>
   sync_view (PtpStateToIPCState (c_overall c)) (ipc_sent (snd r)) = PtpStateToIPCState (c_overall (fst r))"
  by (auto simp: bc_onSample_def split: if_splits offset_result.splits)

text \<open>The four ways through \<open>AddEvent\<close>.\<close>

lemma bc_AddEvent_cases:
  assumes "bc_AddEvent e ev c = Some (c', es)"
  obtains (pmc) "ev_Source ev = PMC" "c' = fst (bc_onPMC ev c)" "es = snd (bc_onPMC ev c)"
  | (expired) g where "ev_Source ev \<noteq> PMC" "ev_Data ev = Some (HoldoverExpired g)"
      "c' = fst (bc_handleHoldoverExpired e g c)" "es = snd (bc_handleHoldoverExpired e g c)"
  | (stored) "ev_Source ev \<noteq> PMC" "c' = c\<lparr>c_data := record_event (e_now_s e) ev (c_data c)\<rparr>" "es = []"
  | (sample) lost c1 r where "ev_Source ev \<noteq> PMC" "bc_sourceLost ev = Some lost"
      "c1 = c\<lparr>c_data := record_event (e_now_s e) ev (c_data c)\<rparr>"
      "bc_onSample e ev lost (fst (bc_recordIface lost ev c1)) = Some r"
      "c' = fst r" "es = snd (bc_recordIface lost ev c1) @ snd r"
proof (cases "ev_Source ev = PMC")
  case True
  with assms have "(c', es) = bc_onPMC ev c" by (simp add: bc_AddEvent_def)
  then show ?thesis by (intro pmc [OF True]) (metis fst_conv, metis snd_conv)
next
  case other: False
  let ?c1 = "c\<lparr>c_data := record_event (e_now_s e) ev (c_data c)\<rparr>"
  show ?thesis
  proof (cases "\<exists>g. ev_Data ev = Some (HoldoverExpired g)")
    case True
    then obtain g where g: "ev_Data ev = Some (HoldoverExpired g)" ..
    with other assms have "(c', es) = bc_handleHoldoverExpired e g c" by (simp add: bc_AddEvent_def)
    then show ?thesis by (intro expired [OF other g]) (metis fst_conv, metis snd_conv)
  next
    case False
    with other assms have p: "bc_onProcessEvent e ev c = Some (c', es)"
      by (auto simp: bc_AddEvent_def split: option.splits event_data.splits)
    show ?thesis
    proof (cases "bc_sourceLost ev")
      case None
      with p have "c' = ?c1" "es = []" by (auto simp: bc_onProcessEvent_def Let_def)
      with other show ?thesis by (rule stored)
    next
      case (Some lost)
      with p obtain r where "bc_onSample e ev lost (fst (bc_recordIface lost ev ?c1)) = Some r"
        "c' = fst r" "es = snd (bc_recordIface lost ev ?c1) @ snd r"
        by (auto simp: bc_onProcessEvent_def Let_def split_beta split: option.splits)
      with other Some show ?thesis by (intro sample [OF _ _ refl])
    qed
  qed
qed

lemma bc_AddEvent_view:
  assumes "bc_AddEvent e ev c = Some (c', es)"
  shows "sync_view (PtpStateToIPCState (c_overall c)) (ipc_sent es) = PtpStateToIPCState (c_overall c')"
  using assms
proof (cases rule: bc_AddEvent_cases)
  case (sample lost c1 r)
  have "c_overall c = c_overall (fst (bc_recordIface lost ev c1))" by (simp add: sample(3))
  then show ?thesis
    unfolding sample(5,6) ipc_sent_append sync_view_append bc_view_simps(3)
    by (metis bc_view_onSample [OF sample(4)])
qed simp_all

text \<open>The calls that publish: events and OS clock updates.\<close>

datatype clock_op = ClockEvent env event | ClockOsUpdate env

fun bc_op :: "clock_op \<Rightarrow> bc_clock \<Rightarrow> (bc_clock \<times> effect list) option" where
  "bc_op (ClockEvent e ev) c = bc_AddEvent e ev c"
| "bc_op (ClockOsUpdate e) c = Some (bc_SystemClockUpdate e c)"

interpretation bc_rep: state_reporter bc_op "\<lambda>s. PtpStateToIPCState (c_overall s)" sync_view
proof (unfold_locales, goal_cases)
  case (1 v)
  show ?case by simp
next
  case (2 v xs ys)
  show ?case by simp
next
  case (3 x s s' es)
  note * = 3
  show "sync_view (PtpStateToIPCState (c_overall s)) (ipc_sent es) = PtpStateToIPCState (c_overall s')"
  proof (cases x)
    case (ClockEvent e ev)
    with * show ?thesis by (auto intro: bc_AddEvent_view)
  next
    case (ClockOsUpdate e)
    with * have "s' = fst (bc_SystemClockUpdate e s)" "es = snd (bc_SystemClockUpdate e s)" by auto
    then show ?thesis by simp
  qed
qed

section \<open>Behaviour of a single event\<close>

text \<open>An offset sample decides the state alone, whatever the state was.\<close>

lemma bc_AddEvent_offset:
  assumes "ev_Source ev \<noteq> PMC" "ev_Data ev = Some (OffsetData d)" "\<not> od_SourceLost d"
  shows "\<exists>c' es. bc_AddEvent e ev c = Some (c', es) \<and>
    b_syncState c' = (if th_MinOffsetThreshold (c_threshold c) < od_Offset d \<and>
                         od_Offset d < th_MaxOffsetThreshold (c_threshold c)
                      then PTP_LOCKED else PTP_FREERUN) \<and>
    b_holdoverCancel c' = None \<and>
    c_overall c' = WorstOfState (b_syncState c') (e_os_state e)"
  using assms
  by (auto simp: bc_AddEvent_def bc_onProcessEvent_def bc_sourceLost_def bc_onSample_def
      ptpOffset_def Let_def split_beta isOffsetInRange_def)

lemma bc_AddEvent_lost:
  assumes "ev_Source ev \<noteq> PMC" "bc_sourceLost ev = Some True"
  shows "\<exists>c' es. bc_AddEvent e ev c = Some (c', es) \<and>
    b_syncState c' = (if b_syncState c = PTP_LOCKED then PTP_HOLDOVER else b_syncState c) \<and>
    c_overall c' = WorstOfState (b_syncState c') (e_os_state e)"
  using assms
  by (auto simp: bc_AddEvent_def bc_onProcessEvent_def bc_onSample_def Let_def split_beta
      bc_sourceLost_def split: option.splits event_data.splits)

lemma bc_AddEvent_panics_iff:
  "bc_AddEvent e ev c = None \<longleftrightarrow>
   ev_Source ev \<noteq> PMC \<and>
   (\<exists>d. ev_Data ev = Some (DPLLData d) \<and> \<not> dp_SourceLost d \<and> dp_Offset d = None)"
  by (auto simp: bc_AddEvent_def bc_onProcessEvent_def bc_onSample_def ptpOffset_def
      bc_sourceLost_def Let_def split_beta split: option.splits event_data.splits if_splits)

section \<open>The published state of the clock\<close>

lemma bc_ptp_simps [simp]:
  "ptp_view v (ipc_sent (snd (bc_SystemClockUpdate e c))) = v"
  "ptp_view v (ipc_sent (snd (bc_recordIface lost ev c))) = v"
  "ptp_view v (ipc_sent (snd (bc_onPMC ev c))) = v"
  "v = PtpStateToIPCState prev \<Longrightarrow>
   ptp_view v (ipc_sent (snd (bc_onStateChanged e prev iface c))) = PtpStateToIPCState (b_syncState c)"
  by (simp_all add: bc_SystemClockUpdate_def bc_onStateChanged_def bc_recordIface_def
      bc_emitClockClass_def bc_onPMC_def bc_updateClockClass_def Let_def split_beta
      split: option.split event_data.split)

lemma bc_ptp_sample [simp]:
  "ptp_view (PtpStateToIPCState (b_syncState c)) (ipc_sent (snd (bc_onSourceLost e ev c))) =
   PtpStateToIPCState (b_syncState (fst (bc_onSourceLost e ev c)))"
  "ptp_view (PtpStateToIPCState (b_syncState c)) (ipc_sent (snd (bc_onOffset e ev n c))) =
   PtpStateToIPCState (b_syncState (fst (bc_onOffset e ev n c)))"
  "ptp_view (PtpStateToIPCState (b_syncState c)) (ipc_sent (snd (bc_handleHoldoverExpired e g c))) =
   PtpStateToIPCState (b_syncState (fst (bc_handleHoldoverExpired e g c)))"
  by (simp_all add: bc_onSourceLost_def bc_onOffset_def bc_handleHoldoverExpired_def Let_def split_beta)

lemma bc_ptp_onSample:
  "bc_onSample e ev lost c = Some r \<Longrightarrow> b_syncState c = st \<Longrightarrow>
   ptp_view (PtpStateToIPCState st) (ipc_sent (snd r)) = PtpStateToIPCState (b_syncState (fst r))"
  by (auto simp: bc_onSample_def simp del: bc_onSourceLost_fields bc_onOffset_fields
      split: if_splits offset_result.splits)

interpretation bc_ptp: state_reporter bc_op "\<lambda>s. PtpStateToIPCState (b_syncState s)" ptp_view
proof (unfold_locales, goal_cases)
  case (3 x s s' es)
  show ?case
  proof (cases x)
    case (ClockEvent e ev)
    with 3 have "bc_AddEvent e ev s = Some (s', es)" by simp
    then show ?thesis
    proof (cases rule: bc_AddEvent_cases)
      case (sample lost c1 r)
      have "b_syncState (fst (bc_recordIface lost ev c1)) = b_syncState s" by (simp add: sample(3))
      from bc_ptp_onSample [OF sample(4) this] show ?thesis by (simp add: sample(5,6))
    qed simp_all
  next
    case (ClockOsUpdate e)
    with 3 have "s' = fst (bc_SystemClockUpdate e s)" "es = snd (bc_SystemClockUpdate e s)" by auto
    then show ?thesis by simp
  qed
qed simp_all

end
