(* ===== verification/BcTimers.thy ===== *)
theory BcTimers
  imports BcClock
begin

text \<open>
  The boundary clock together with its holdover timers and the event loop (\<open>bc.go\<close>, the goroutine
  of \<open>armHoldoverTimer\<close>). A timer goroutine waits in a \<open>select\<close> on its cancel channel and the
  timeout: a cancelled timer may still win the race and post its expiry, so cancelling only moves
  it to \<open>sys_cancelled\<close>. Expiries wait in the queue of the event loop, and other events may be
  handled before them.
\<close>

section \<open>The system\<close>

type_synonym timer = "u64 \<times> string"

record bc_sys =
  sys_clock :: bc_clock
  sys_armed :: "timer list"
  sys_cancelled :: "timer list"
  sys_queue :: "event list"

fun apply_timers :: "effect list \<Rightarrow> timer list \<times> timer list \<Rightarrow> timer list \<times> timer list" where
  "apply_timers [] T = T"
| "apply_timers (StartTimer g t i # es) (A, C) = apply_timers es (A @ [(g, i)], C)"
| "apply_timers (StopTimer g # es) (A, C) =
     apply_timers es (filter (\<lambda>x. fst x \<noteq> g) A, C @ filter (\<lambda>x. fst x = g) A)"
| "apply_timers (_ # es) T = apply_timers es T"

definition sys_after :: "bc_clock \<Rightarrow> effect list \<Rightarrow> bc_sys \<Rightarrow> bc_sys" where
  "sys_after c es s =
     (let (A, C) = apply_timers es (sys_armed s, sys_cancelled s)
      in s\<lparr>sys_clock := c, sys_armed := A, sys_cancelled := C\<rparr>)"

definition sys_init :: "bc_clock \<Rightarrow> bc_sys" where
  "sys_init c = \<lparr>sys_clock = c, sys_armed = [], sys_cancelled = [], sys_queue = []\<rparr>"

definition is_expiry :: "event \<Rightarrow> bool" where
  "is_expiry ev \<longleftrightarrow> (case ev_Data ev of Some (HoldoverExpired g) \<Rightarrow> True | _ \<Rightarrow> False)"

text \<open>Steps of the goroutines and of the loop on its own events, and steps from outside.\<close>

inductive bc_internal :: "bc_sys \<Rightarrow> bc_sys \<Rightarrow> bool" where
  fire: "(g, i) \<in> set (sys_armed s) \<Longrightarrow> b_sendEvent (sys_clock s) \<Longrightarrow>
    bc_internal s (s\<lparr>sys_armed := remove1 (g, i) (sys_armed s),
      sys_queue := sys_queue s @ [bc_expiry_event now (sys_clock s) i g]\<rparr>)"
| late_fire: "(g, i) \<in> set (sys_cancelled s) \<Longrightarrow> b_sendEvent (sys_clock s) \<Longrightarrow>
    bc_internal s (s\<lparr>sys_cancelled := remove1 (g, i) (sys_cancelled s),
      sys_queue := sys_queue s @ [bc_expiry_event now (sys_clock s) i g]\<rparr>)"
| lapse: "(g, i) \<in> set (sys_cancelled s) \<Longrightarrow>
    bc_internal s (s\<lparr>sys_cancelled := remove1 (g, i) (sys_cancelled s)\<rparr>)"
| no_loopback: "(g, i) \<in> set (sys_armed s) \<Longrightarrow> \<not> b_sendEvent (sys_clock s) \<Longrightarrow>
    bc_internal s (s\<lparr>sys_armed := remove1 (g, i) (sys_armed s)\<rparr>)"
| deliver: "sys_queue s = ev # q \<Longrightarrow> bc_AddEvent e ev (sys_clock s) = Some (c, es) \<Longrightarrow>
    bc_internal s (sys_after c es (s\<lparr>sys_queue := q\<rparr>))"

inductive bc_external :: "bc_sys \<Rightarrow> bc_sys \<Rightarrow> bool" where
  handle: "\<not> is_expiry ev \<Longrightarrow> bc_AddEvent e ev (sys_clock s) = Some (c, es) \<Longrightarrow>
    bc_external s (sys_after c es s)"
| os_update: "bc_SystemClockUpdate e (sys_clock s) = (c, es) \<Longrightarrow> bc_external s (sys_after c es s)"
| reset: "bc_Reset (sys_clock s) oc = (c, oc', es) \<Longrightarrow> bc_external s (sys_after c es s)"

definition bc_step :: "bc_sys \<Rightarrow> bc_sys \<Rightarrow> bool" where
  "bc_step s s' \<longleftrightarrow> bc_internal s s' \<or> bc_external s s'"

inductive bc_reach :: "bc_sys \<Rightarrow> bc_sys \<Rightarrow> bool" for s0 where
  start: "bc_reach s0 s0"
| step: "bc_reach s0 s \<Longrightarrow> bc_step s s' \<Longrightarrow> bc_reach s0 s'"

inductive_cases bc_internalE: "bc_internal s s'"
inductive_cases bc_externalE: "bc_external s s'"

text \<open>The machine as booted: a new clock whose loopback is connected.\<close>

definition bc_boot :: "string \<Rightarrow> bool \<Rightarrow> ptp_clock_threshold \<Rightarrow> bc_sys" where
  "bc_boot cfgName isOC th = sys_init (bc_SetEventLoopbackFunc (NewBC cfgName isOC th))"

section \<open>How an operation changes the timer\<close>

text \<open>
  The four things an operation does with the timer: nothing, cancelling, arming (after
  cancelling), or accepting its expiry.
\<close>

definition timer_change :: "bc_clock \<Rightarrow> bc_clock \<Rightarrow> effect list \<Rightarrow> bool" where
  "timer_change c c' es \<longleftrightarrow>
     (timer_effects es = [] \<and> b_syncState c' = b_syncState c \<and>
        b_holdoverCancel c' = b_holdoverCancel c \<and> b_holdoverGen c' = b_holdoverGen c) \<or>
     (timer_effects es = snd (bc_cancelHoldoverTimer c) \<and> b_syncState c' \<noteq> PTP_HOLDOVER \<and>
        b_holdoverCancel c' = None \<and>
        b_holdoverGen c' = b_holdoverGen (fst (bc_cancelHoldoverTimer c))) \<or>
     (b_syncState c = PTP_LOCKED \<and> b_syncState c' = PTP_HOLDOVER \<and>
        (\<exists>t i. timer_effects es =
           snd (bc_cancelHoldoverTimer c) @ [StartTimer (b_holdoverGen c') t i]) \<and>
        b_holdoverCancel c' = Some (b_holdoverGen c') \<and>
        b_holdoverGen c' = b_holdoverGen (fst (bc_cancelHoldoverTimer c)) + 1) \<or>
     (timer_effects es = [] \<and> b_syncState c = PTP_HOLDOVER \<and> b_syncState c' = PTP_FREERUN \<and>
        b_holdoverCancel c' = None \<and> b_holdoverGen c' = b_holdoverGen c)"

lemma apply_timers_effects: "apply_timers (timer_effects es) T = apply_timers es T"
proof (induction es arbitrary: T)
  case Nil
  then show ?case by simp
next
  case (Cons x es)
  then show ?case by (cases x; cases T) simp_all
qed

lemma cancel_gen:
  "b_holdoverGen (fst (bc_cancelHoldoverTimer c)) =
     (if b_holdoverCancel c = None then b_holdoverGen c else b_holdoverGen c + 1)"
  by (simp add: bc_cancelHoldoverTimer_def split: option.split)

lemma cancel_update [simp]:
  "snd (bc_cancelHoldoverTimer (c\<lparr>b_syncState := x\<rparr>)) = snd (bc_cancelHoldoverTimer c)"
  "b_holdoverGen (fst (bc_cancelHoldoverTimer (c\<lparr>b_syncState := x\<rparr>))) =
   b_holdoverGen (fst (bc_cancelHoldoverTimer c))"
  "snd (bc_cancelHoldoverTimer (c\<lparr>c_data := y\<rparr>)) = snd (bc_cancelHoldoverTimer c)"
  "b_holdoverGen (fst (bc_cancelHoldoverTimer (c\<lparr>c_data := y\<rparr>))) =
   b_holdoverGen (fst (bc_cancelHoldoverTimer c))"
  by (simp_all add: bc_cancelHoldoverTimer_def split: option.split)

lemma cancel_recordIface [simp]:
  "snd (bc_cancelHoldoverTimer (fst (bc_recordIface lost ev c))) = snd (bc_cancelHoldoverTimer c)"
  "b_holdoverGen (fst (bc_cancelHoldoverTimer (fst (bc_recordIface lost ev c)))) =
   b_holdoverGen (fst (bc_cancelHoldoverTimer c))"
  by (simp_all add: bc_cancelHoldoverTimer_def bc_recordIface_def Let_def split: option.split)

lemma timer_change_onOffset: "timer_change c (fst (bc_onOffset e ev n c)) (snd (bc_onOffset e ev n c))"
  by (simp add: timer_change_def bc_onOffset_def Let_def split_beta)

lemma timer_change_onSourceLost:
  "timer_change c (fst (bc_onSourceLost e ev c)) (snd (bc_onSourceLost e ev c))"
  by (simp add: timer_change_def bc_onSourceLost_def bc_armHoldoverTimer_def Let_def split_beta)

lemma timer_change_expired:
  "timer_change c (fst (bc_handleHoldoverExpired e g c)) (snd (bc_handleHoldoverExpired e g c))"
  by (simp add: timer_change_def bc_handleHoldoverExpired_def)

lemma timer_change_PMC: "timer_change c (fst (bc_onPMC ev c)) (snd (bc_onPMC ev c))"
  by (simp add: timer_change_def)

lemma timer_change_cong:
  assumes "timer_change c1 c' es2" "timer_effects es1 = []"
    and "b_syncState c1 = b_syncState c" "b_holdoverCancel c1 = b_holdoverCancel c"
    "b_holdoverGen c1 = b_holdoverGen c"
  shows "timer_change c c' (es1 @ es2)"
proof -
  have "snd (bc_cancelHoldoverTimer c1) = snd (bc_cancelHoldoverTimer c)"
    "b_holdoverGen (fst (bc_cancelHoldoverTimer c1)) = b_holdoverGen (fst (bc_cancelHoldoverTimer c))"
    using assms(3-5) by (simp_all add: bc_cancelHoldoverTimer_def split: option.split)
  with assms show ?thesis by (simp add: timer_change_def)
qed

lemma timer_change_id [simp]: "timer_change c c []"
  by (simp add: timer_change_def)

lemma timer_change_onSample:
  "bc_onSample e ev lost c = Some r \<Longrightarrow> timer_change c (fst r) (snd r)"
  by (auto simp: bc_onSample_def timer_change_onOffset timer_change_onSourceLost
      split: if_splits offset_result.splits)

lemma timer_change_AddEvent:
  assumes "bc_AddEvent e ev c = Some (c', es)"
  shows "timer_change c c' es"
  using assms
proof (cases rule: bc_AddEvent_cases)
  case pmc
  then show ?thesis by (simp add: timer_change_PMC)
next
  case (expired g)
  then show ?thesis by (simp add: timer_change_expired)
next
  case stored
  then show ?thesis by (simp add: timer_change_def)
next
  case (sample lost c1 r)
  from timer_change_onSample [OF sample(4)] show ?thesis
    unfolding sample(5,6) by (rule timer_change_cong) (simp_all add: sample(3))
qed

lemma sendEvent_simps [simp]:
  "b_sendEvent (fst (bc_SystemClockUpdate e c)) = b_sendEvent c"
  "b_sendEvent (fst (bc_recordIface lost ev c)) = b_sendEvent c"
  "b_sendEvent (fst (bc_cancelHoldoverTimer c)) = b_sendEvent c"
  "b_sendEvent (fst (bc_armHoldoverTimer c)) = b_sendEvent c"
  "b_sendEvent (fst (bc_onPMC ev c)) = b_sendEvent c"
  by (simp_all add: bc_SystemClockUpdate_def bc_recordIface_def bc_cancelHoldoverTimer_def
      bc_armHoldoverTimer_def bc_onPMC_def bc_updateClockClass_def Let_def split_beta
      split: option.split event_data.split)

lemma sendEvent_onSample:
  "bc_onSample e ev lost c = Some r \<Longrightarrow> b_sendEvent (fst r) = b_sendEvent c"
  by (auto simp: bc_onSample_def bc_onOffset_def bc_onSourceLost_def Let_def split_beta
      split: if_splits offset_result.splits)

lemma sendEvent_AddEvent:
  assumes "bc_AddEvent e ev c = Some (c', es)"
  shows "b_sendEvent c' = b_sendEvent c"
  using assms
proof (cases rule: bc_AddEvent_cases)
  case (expired g)
  then show ?thesis by (simp add: bc_handleHoldoverExpired_def)
next
  case (sample lost c1 r)
  from sendEvent_onSample [OF sample(4)] show ?thesis by (simp add: sample(3,5))
qed simp_all

section \<open>The holdover invariant\<close>

definition queue_gens :: "event list \<Rightarrow> u64 set" where
  "queue_gens q = {g. \<exists>ev \<in> set q. ev_Data ev = Some (HoldoverExpired g)}"

definition own_events :: "event list \<Rightarrow> bool" where
  "own_events q \<longleftrightarrow> list_all (\<lambda>ev. is_expiry ev \<and> ev_Source ev \<noteq> PMC) q"

definition timer_ok :: "bc_clock \<Rightarrow> u64 set \<Rightarrow> bool" where
  "timer_ok c pending \<longleftrightarrow>
     (if b_syncState c = PTP_HOLDOVER
      then b_holdoverCancel c = Some (b_holdoverGen c) \<and> b_holdoverGen c \<in> pending
      else b_holdoverCancel c = None)"

definition sys_inv :: "bc_sys \<Rightarrow> bool" where
  "sys_inv s \<longleftrightarrow> b_sendEvent (sys_clock s) \<and> own_events (sys_queue s) \<and>
     timer_ok (sys_clock s) (fst ` set (sys_armed s) \<union> queue_gens (sys_queue s))"

lemma queue_gens_simps [simp]:
  "queue_gens [] = {}"
  "queue_gens (ev # q) =
     (case ev_Data ev of Some (HoldoverExpired g) \<Rightarrow> insert g (queue_gens q) | _ \<Rightarrow> queue_gens q)"
  "queue_gens (q @ q') = queue_gens q \<union> queue_gens q'"
  by (auto simp: queue_gens_def split: option.split event_data.split)

lemma sys_inv_boot: "sys_inv (bc_boot n o' th)"
  by (simp add: sys_inv_def bc_boot_def sys_init_def bc_SetEventLoopbackFunc_def NewBC_def
      own_events_def timer_ok_def base_clock.extend_def)

lemma apply_cancel:
  "set (fst (apply_timers (snd (bc_cancelHoldoverTimer c)) (A, C))) =
     {x \<in> set A. b_holdoverCancel c \<noteq> Some (fst x)}"
  by (auto simp: bc_cancelHoldoverTimer_def split: option.split)

lemma apply_timers_append: "apply_timers (xs @ ys) T = apply_timers ys (apply_timers xs T)"
proof (induction xs arbitrary: T)
  case Nil
  then show ?case by simp
next
  case (Cons x xs)
  then show ?case by (cases x; cases T) simp_all
qed

text \<open>Preservation through the timer effects of an operation.\<close>

lemma timer_ok_change:
  assumes "timer_change c c' es"
    and "timer_ok c (fst ` set A \<union> Q)"
  shows "timer_ok c' (fst ` set (fst (apply_timers es (A, C))) \<union> Q)"
proof -
  let ?E = "snd (bc_cancelHoldoverTimer c)"
  consider (same) "timer_effects es = []" "b_syncState c' = b_syncState c"
      "b_holdoverCancel c' = b_holdoverCancel c" "b_holdoverGen c' = b_holdoverGen c"
    | (cancel) "b_syncState c' \<noteq> PTP_HOLDOVER" "b_holdoverCancel c' = None"
    | (arm) t i where "timer_effects es = ?E @ [StartTimer (b_holdoverGen c') t i]"
      "b_syncState c' = PTP_HOLDOVER" "b_holdoverCancel c' = Some (b_holdoverGen c')"
    | (expiry) "b_syncState c' = PTP_FREERUN" "b_holdoverCancel c' = None"
    using assms(1) by (auto simp: timer_change_def)
  then show ?thesis
  proof cases
    case same
    then have "apply_timers es (A, C) = (A, C)"
      by (metis apply_timers.simps(1) apply_timers_effects)
    with same assms(2) show ?thesis by (auto simp: timer_ok_def split: if_splits)
  next
    case cancel
    then show ?thesis by (simp add: timer_ok_def)
  next
    case arm
    then have "apply_timers es (A, C) = apply_timers [StartTimer (b_holdoverGen c') t i]
        (apply_timers ?E (A, C))"
      by (metis apply_timers_effects apply_timers_append)
    then have "b_holdoverGen c' \<in> fst ` set (fst (apply_timers es (A, C)))"
      by (cases "apply_timers ?E (A, C)") simp
    with arm show ?thesis by (simp add: timer_ok_def)
  next
    case expiry
    then show ?thesis by (simp add: timer_ok_def)
  qed
qed

lemma sys_after_simps [simp]:
  "sys_clock (sys_after c es s) = c" "sys_queue (sys_after c es s) = sys_queue s"
  "sys_armed (sys_after c es s) = fst (apply_timers es (sys_armed s, sys_cancelled s))"
  "sys_cancelled (sys_after c es s) = snd (apply_timers es (sys_armed s, sys_cancelled s))"
  by (simp_all add: sys_after_def split_beta)

lemma sys_inv_after:
  assumes "sys_inv s" "timer_change (sys_clock s) c es" "b_sendEvent c = b_sendEvent (sys_clock s)"
  shows "sys_inv (sys_after c es s)"
  using assms timer_ok_change [OF assms(2)] by (simp add: sys_inv_def)

text \<open>Delivering the head of the queue: its own expiry ends the holdover, others change nothing.\<close>

lemma deliver_expiry:
  assumes "is_expiry ev" "ev_Source ev \<noteq> PMC" "bc_AddEvent e ev c = Some (c', es)"
    and "timer_ok c (P \<union> queue_gens [ev])"
  shows "timer_ok c' P \<and> timer_effects es = [] \<and> b_holdoverGen c' = b_holdoverGen c"
proof -
  from assms(1) obtain g where g: "ev_Data ev = Some (HoldoverExpired g)"
    by (auto simp: is_expiry_def split: option.splits event_data.splits)
  with assms(2,3) have c': "c' = fst (bc_handleHoldoverExpired e g c)"
    "es = snd (bc_handleHoldoverExpired e g c)"
    by (auto simp: bc_AddEvent_def)
  show ?thesis
    using assms(4) g by (auto simp: c' bc_handleHoldoverExpired_def timer_ok_def split: if_splits)
qed

lemma timer_ok_mono: "timer_ok c P \<Longrightarrow> P \<subseteq> P' \<Longrightarrow> timer_ok c P'"
  by (auto simp: timer_ok_def split: if_splits)

lemma own_events_expiry [simp]:
  "own_events (q @ [bc_expiry_event now c i g]) = own_events q"
  "ev_Data (bc_expiry_event now c i g) = Some (HoldoverExpired g)"
  by (simp_all add: own_events_def bc_expiry_event_def is_expiry_def)

lemma image_remove1: "x \<in> set xs \<Longrightarrow> f ` set xs \<subseteq> insert (f x) (f ` set (remove1 x xs))"
  by (induction xs) auto

lemma sys_inv_internal:
  assumes "bc_internal s s'" "sys_inv s"
  shows "sys_inv s'"
  using assms
proof (cases rule: bc_internal.cases)
  case (fire g i now)
  have "fst ` set (sys_armed s) \<union> queue_gens (sys_queue s) \<subseteq>
      fst ` set (remove1 (g, i) (sys_armed s)) \<union> insert g (queue_gens (sys_queue s))"
    using image_remove1 [OF fire(2), of fst] by auto
  with assms(2) show ?thesis
    unfolding fire(1) sys_inv_def by (auto intro: timer_ok_mono)
next
  case (late_fire g i now)
  with assms(2) show ?thesis
    by (auto simp: sys_inv_def elim: timer_ok_mono)
next
  case (deliver ev q e c es)
  let ?P = "fst ` set (sys_armed s) \<union> queue_gens q"
  have q: "is_expiry ev" "ev_Source ev \<noteq> PMC" "own_events q"
    using deliver assms(2) by (auto simp: sys_inv_def own_events_def)
  have "queue_gens (ev # q) = queue_gens q \<union> queue_gens [ev]"
    using queue_gens_simps(3) [of "[ev]" q] by auto
  then have "timer_ok (sys_clock s) (?P \<union> queue_gens [ev])"
    using deliver(2) assms(2) by (simp add: sys_inv_def Un_assoc)
  then have ok: "timer_ok c ?P" "timer_effects es = []"
    using deliver_expiry [OF q(1,2) deliver(3)] by blast+
  then have "apply_timers es T = T" for T
    by (metis apply_timers.simps(1) apply_timers_effects)
  with ok(1) q(3) assms(2) sendEvent_AddEvent [OF deliver(3)] show ?thesis
    by (simp add: deliver(1) sys_inv_def)
qed (simp_all add: sys_inv_def)

lemma timer_change_Reset:
  "bc_Reset c oc = (c', oc', es) \<Longrightarrow> timer_change c c' es \<and> b_sendEvent c' = b_sendEvent c"
  by (auto simp: bc_Reset_def base_Reset_def timer_change_def Let_def split_beta)

lemma timer_change_os_update:
  assumes "bc_SystemClockUpdate e c = (c', es)"
  shows "timer_change c c' es \<and> b_sendEvent c' = b_sendEvent c"
proof -
  have "c' = fst (bc_SystemClockUpdate e c)" "es = snd (bc_SystemClockUpdate e c)"
    using assms by simp_all
  then show ?thesis by (simp add: timer_change_def)
qed

lemma sys_inv_external:
  assumes "bc_external s s'" "sys_inv s"
  shows "sys_inv s'"
  using assms
proof (cases rule: bc_external.cases)
  case (handle ev e c es)
  with assms(2) show ?thesis
    by (simp add: sys_inv_after timer_change_AddEvent sendEvent_AddEvent)
next
  case (os_update e c es)
  with assms(2) timer_change_os_update show ?thesis by (simp add: sys_inv_after)
next
  case (reset oc c oc' es)
  with assms(2) timer_change_Reset show ?thesis by (simp add: sys_inv_after)
qed

lemma sys_inv_reach: "bc_reach s0 s \<Longrightarrow> sys_inv s0 \<Longrightarrow> sys_inv s"
  by (induction rule: bc_reach.induct) (auto simp: bc_step_def sys_inv_internal sys_inv_external)

text \<open>With no timer armed and nothing queued the clock is not in HOLDOVER.\<close>

lemma quiescent_not_holdover:
  "sys_inv s \<Longrightarrow> sys_armed s = [] \<Longrightarrow> sys_queue s = [] \<Longrightarrow> b_syncState (sys_clock s) \<noteq> PTP_HOLDOVER"
  by (auto simp: sys_inv_def timer_ok_def)

text \<open>The internal steps run out: a timer weighs two, a queued expiry one.\<close>

definition sys_weight :: "bc_sys \<Rightarrow> nat" where
  "sys_weight s = 2 * (length (sys_armed s) + length (sys_cancelled s)) + length (sys_queue s)"

lemma length_apply_timers:
  "\<forall>e \<in> set es. case e of StartTimer g t i \<Rightarrow> False | _ \<Rightarrow> True \<Longrightarrow>
   length (fst (apply_timers es T)) + length (snd (apply_timers es T)) = length (fst T) + length (snd T)"
proof (induction es arbitrary: T)
  case Nil
  then show ?case by simp
next
  case (Cons x es)
  obtain A C where T: "T = (A, C)" by (cases T)
  have "length (filter (\<lambda>x. fst x \<noteq> g) A) + length (filter (\<lambda>x. fst x = g) A) = length A" for g :: u64
    using sum_length_filter_compl [of "\<lambda>x. fst x = g" A] by simp
  with Cons show ?case by (cases x) (auto simp: T)
qed

lemma internal_weight:
  assumes "bc_internal s s'" "sys_inv s"
  shows "sys_weight s' < sys_weight s"
  using assms
proof (cases rule: bc_internal.cases)
  case (fire g i now)
  then obtain n where "length (sys_armed s) = Suc n"
    by (cases "sys_armed s") auto
  with fire show ?thesis by (simp add: sys_weight_def length_remove1)
next
  case (late_fire g i now)
  then obtain n where "length (sys_cancelled s) = Suc n"
    by (cases "sys_cancelled s") auto
  with late_fire show ?thesis by (simp add: sys_weight_def length_remove1)
next
  case (lapse g i)
  then obtain n where "length (sys_cancelled s) = Suc n"
    by (cases "sys_cancelled s") auto
  with lapse show ?thesis by (simp add: sys_weight_def length_remove1)
next
  case (no_loopback g i)
  with assms(2) show ?thesis by (simp add: sys_inv_def)
next
  case (deliver ev q e c es)
  then have "is_expiry ev" "ev_Source ev \<noteq> PMC"
    using assms(2) by (auto simp: sys_inv_def own_events_def)
  moreover from this(1) obtain g where "ev_Data ev = Some (HoldoverExpired g)"
    by (auto simp: is_expiry_def split: option.splits event_data.splits)
  ultimately have "(c, es) = bc_handleHoldoverExpired e g (sys_clock s)"
    using deliver(3) by (simp add: bc_AddEvent_def)
  then have "es = snd (bc_handleHoldoverExpired e g (sys_clock s))" by (metis snd_conv)
  then have "timer_effects es = []" by (simp add: bc_handleHoldoverExpired_def)
  then have "apply_timers es T = T" for T
    by (metis apply_timers.simps(1) apply_timers_effects)
  with deliver show ?thesis by (simp add: sys_weight_def)
qed

text \<open>And they are enabled until nothing is left: no expiry handler panics.\<close>

lemma internal_enabled:
  assumes "sys_inv s" "sys_armed s \<noteq> [] \<or> sys_queue s \<noteq> []"
  shows "\<exists>s'. bc_internal s s'"
proof (cases "sys_armed s")
  case (Cons t ts)
  obtain g i where "t = (g, i)" by (cases t)
  with Cons have "(g, i) \<in> set (sys_armed s)" by simp
  with assms(1) bc_internal.fire show ?thesis unfolding sys_inv_def by blast
next
  case Nil
  with assms(2) obtain ev q where q: "sys_queue s = ev # q" by (cases "sys_queue s") auto
  with assms(1) have "is_expiry ev" by (simp add: sys_inv_def own_events_def)
  then have "bc_AddEvent e ev (sys_clock s) \<noteq> None" for e
    by (auto simp: bc_AddEvent_panics_iff is_expiry_def)
  then show ?thesis using bc_internal.deliver [OF q] by fast
qed

section \<open>Stale expiries\<close>

text \<open>
  Every pending generation is at most the current one, as long as the counter has not wrapped
  around: \<open>bc_steps\<close> takes each step from a state with room for two more increments.
\<close>

definition sys_gens :: "bc_sys \<Rightarrow> u64 set" where
  "sys_gens s = fst ` set (sys_armed s) \<union> fst ` set (sys_cancelled s) \<union> queue_gens (sys_queue s)"

definition gen_room :: "bc_sys \<Rightarrow> bool" where
  "gen_room s \<longleftrightarrow> unat (b_holdoverGen (sys_clock s)) + 2 < 2 ^ 64"

inductive bc_steps :: "bc_sys \<Rightarrow> bc_sys \<Rightarrow> bool" for s0 where
  start: "bc_steps s0 s0"
| step: "bc_steps s0 s \<Longrightarrow> gen_room s \<Longrightarrow> bc_step s s' \<Longrightarrow> bc_steps s0 s'"

definition gens_below :: "bc_sys \<Rightarrow> bool" where
  "gens_below s \<longleftrightarrow> (\<forall>g \<in> sys_gens s. g \<le> b_holdoverGen (sys_clock s))"

lemma apply_timers_gens:
  "fst ` set (fst (apply_timers es T)) \<union> fst ` set (snd (apply_timers es T)) \<subseteq>
   fst ` set (fst T) \<union> fst ` set (snd T) \<union> {g. \<exists>t i. StartTimer g t i \<in> set (timer_effects es)}"
proof (induction es arbitrary: T)
  case Nil
  then show ?case by simp
next
  case (Cons x es)
  obtain A C where T: "T = (A, C)" by (cases T)
  show ?case
  proof (cases x)
    case (StartTimer g t i)
    then have "{h. \<exists>t i. StartTimer h t i \<in> set (timer_effects (x # es))} =
        insert g {h. \<exists>t i. StartTimer h t i \<in> set (timer_effects es)}"
      by auto
    with StartTimer show ?thesis using Cons [of "(A @ [(g, i)], C)"] by (simp add: T)
  next
    case (StopTimer g)
    then show ?thesis
      using Cons [of "(filter (\<lambda>x. fst x \<noteq> g) A, C @ filter (\<lambda>x. fst x = g) A)"]
      by (auto simp: T)
  qed (use Cons [of T] in \<open>auto simp: T\<close>)
qed

lemma word_room:
  fixes w :: u64
  assumes "unat w + 2 < 2 ^ 64"
  shows "w < w + 1" "w + 1 < w + 2" "w < w + 2" "w \<le> w + 1" "w \<le> w + 2"
proof -
  have "unat (w + 1) = unat w + 1" "unat (w + 2) = unat w + 2"
    using assms by (simp_all add: unat_word_ariths)
  then show "w < w + 1" "w + 1 < w + 2" "w < w + 2" "w \<le> w + 1" "w \<le> w + 2"
    by (simp_all add: word_less_nat_alt word_le_nat_alt)
qed

lemma timer_change_gen:
  assumes "timer_change c c' es" "unat (b_holdoverGen c) + 2 < 2 ^ 64"
  shows "b_holdoverGen c \<le> b_holdoverGen c'"
    and "StartTimer g t i \<in> set (timer_effects es) \<Longrightarrow> g \<le> b_holdoverGen c'"
proof -
  note room = word_room [OF assms(2)]
  show "b_holdoverGen c \<le> b_holdoverGen c'"
    using assms(1) room by (auto simp: timer_change_def cancel_gen add.assoc)
  have "StartTimer g t i \<notin> set (snd (bc_cancelHoldoverTimer c))"
    by (simp add: bc_cancelHoldoverTimer_def split: option.split)
  then show "StartTimer g t i \<in> set (timer_effects es) \<Longrightarrow> g \<le> b_holdoverGen c'"
    using assms(1) by (auto simp: timer_change_def)
qed

lemma gens_after:
  assumes "timer_change (sys_clock s) c es" "gen_room s"
  shows "b_holdoverGen (sys_clock s) \<le> b_holdoverGen c"
    and "gens_below s \<Longrightarrow> gens_below (sys_after c es s)"
proof -
  note tc = timer_change_gen [OF assms(1)] assms(2) [unfolded gen_room_def]
  show le: "b_holdoverGen (sys_clock s) \<le> b_holdoverGen c" using tc by blast
  assume below: "gens_below s"
  have "sys_gens (sys_after c es s) \<subseteq> sys_gens s \<union> {g. \<exists>t i. StartTimer g t i \<in> set (timer_effects es)}"
    using apply_timers_gens [of es "(sys_armed s, sys_cancelled s)"] by (auto simp: sys_gens_def)
  with below le tc(2,3) show "gens_below (sys_after c es s)"
    unfolding gens_below_def by (auto dest!: subsetD intro: order_trans)
qed

lemma queue_gens_sub: "queue_gens q \<subseteq> queue_gens (ev # q)"
  by (auto simp: queue_gens_def)

lemma fst_remove1: "fst ` set (remove1 x xs) \<subseteq> fst ` set xs"
  by (rule image_mono) (rule set_remove1_subset)

lemma gens_internal:
  assumes "bc_internal s s'" "sys_clock s' = sys_clock s" "sys_gens s' \<subseteq> sys_gens s"
  shows "b_holdoverGen (sys_clock s) \<le> b_holdoverGen (sys_clock s') \<and> (gens_below s \<longrightarrow> gens_below s')"
  using assms(2,3) by (auto simp: gens_below_def)

lemma sys_gens_timers:
  "(g, i) \<in> set (sys_armed s) \<Longrightarrow>
   sys_gens (s\<lparr>sys_armed := remove1 (g, i) (sys_armed s),
     sys_queue := sys_queue s @ [bc_expiry_event now c i g]\<rparr>) \<subseteq> sys_gens s"
  "(g, i) \<in> set (sys_cancelled s) \<Longrightarrow>
   sys_gens (s\<lparr>sys_cancelled := remove1 (g, i) (sys_cancelled s),
     sys_queue := sys_queue s @ [bc_expiry_event now c i g]\<rparr>) \<subseteq> sys_gens s"
  "sys_gens (s\<lparr>sys_cancelled := remove1 (g, i) (sys_cancelled s)\<rparr>) \<subseteq> sys_gens s"
  "sys_gens (s\<lparr>sys_armed := remove1 (g, i) (sys_armed s)\<rparr>) \<subseteq> sys_gens s"
  using fst_remove1 [of "(g, i)" "sys_armed s"] fst_remove1 [of "(g, i)" "sys_cancelled s"]
    image_eqI [of g fst "(g, i)"]
  by (auto simp: sys_gens_def)

lemma gens_step:
  assumes "bc_step s s'" "gen_room s"
  shows "b_holdoverGen (sys_clock s) \<le> b_holdoverGen (sys_clock s')"
    and "gens_below s \<Longrightarrow> gens_below s'"
proof -
  have "b_holdoverGen (sys_clock s) \<le> b_holdoverGen (sys_clock s') \<and> (gens_below s \<longrightarrow> gens_below s')"
    using assms(1) unfolding bc_step_def
  proof
    assume "bc_internal s s'"
    then show ?thesis
    proof (cases rule: bc_internal.cases)
      case (deliver ev q e c es)
      let ?s = "s\<lparr>sys_queue := q\<rparr>"
      have "gens_below s \<longrightarrow> gens_below ?s"
        using queue_gens_sub [of q ev] deliver(2) by (auto simp: gens_below_def sys_gens_def)
      moreover have "gen_room ?s" using assms(2) by (simp add: gen_room_def)
      ultimately show ?thesis
        using gens_after [of ?s c es] timer_change_AddEvent [OF deliver(3)]
        by (simp add: deliver(1))
    qed (rule gens_internal [OF \<open>bc_internal s s'\<close>]; simp add: sys_gens_timers)+
  next
    assume "bc_external s s'"
    then show ?thesis
    proof (cases rule: bc_external.cases)
      case (handle ev e c es)
      from gens_after [OF timer_change_AddEvent [OF handle(3)] assms(2)]
      show ?thesis by (simp add: handle(1))
    next
      case (os_update e c es)
      from gens_after [OF conjunct1 [OF timer_change_os_update [OF os_update(2)]] assms(2)]
      show ?thesis by (simp add: os_update(1))
    next
      case (reset oc c oc' es)
      from gens_after [OF conjunct1 [OF timer_change_Reset [OF reset(2)]] assms(2)]
      show ?thesis by (simp add: reset(1))
    qed
  qed
  then show "b_holdoverGen (sys_clock s) \<le> b_holdoverGen (sys_clock s')"
    and "gens_below s \<Longrightarrow> gens_below s'" by blast+
qed

lemma gens_steps:
  "bc_steps s0 s \<Longrightarrow> gens_below s0 \<Longrightarrow>
   gens_below s \<and> b_holdoverGen (sys_clock s0) \<le> b_holdoverGen (sys_clock s)"
  by (induction rule: bc_steps.induct) (auto dest: gens_step)

lemma gens_below_boot: "gens_below (bc_boot n o' th)"
  by (simp add: gens_below_def sys_gens_def bc_boot_def sys_init_def)

lemma bc_steps_reach: "bc_steps s0 s \<Longrightarrow> bc_reach s0 s"
  by (induction rule: bc_steps.induct) (auto intro: bc_reach.intros)

text \<open>An offset sample in HOLDOVER cancels the timer and moves to a new generation.\<close>

lemma offset_in_holdover:
  assumes "ev_Source ev \<noteq> PMC" "ev_Data ev = Some (OffsetData d)" "\<not> od_SourceLost d"
    and "bc_AddEvent e ev c = Some (c', es)" "b_holdoverCancel c = Some g"
  shows "b_holdoverGen c' = b_holdoverGen c + 1" "timer_effects es = [StopTimer g]"
proof -
  let ?c1 = "c\<lparr>c_data := record_event (e_now_s e) ev (c_data c)\<rparr>"
  let ?R = "bc_recordIface False ev ?c1"
  let ?O = "bc_onOffset e ev (od_Offset d) (fst ?R)"
  have "c' = fst ?O" "es = snd ?R @ snd ?O"
    using assms(1-4) by (auto simp: bc_AddEvent_def bc_onProcessEvent_def bc_sourceLost_def
        bc_onSample_def ptpOffset_def Let_def split_beta)
  moreover have "b_holdoverGen (fst ?O) = b_holdoverGen c + 1 \<and> timer_effects (snd ?O) = [StopTimer g]"
    using assms(5)
    by (simp add: bc_onOffset_def Let_def split_beta cancel_gen) (simp add: bc_cancelHoldoverTimer_def)
  ultimately show "b_holdoverGen c' = b_holdoverGen c + 1" "timer_effects es = [StopTimer g]"
    by simp_all
qed

section \<open>Properties\<close>

text \<open>
  C1. The boundary clock cannot be stuck in HOLDOVER: in every reachable state of the clock, its
  timers and the event queue, HOLDOVER means that an expiry of the current generation is armed or
  queued; internal steps are then enabled and each brings the system strictly closer to having
  nothing armed and nothing queued, where the state is not HOLDOVER.
\<close>

theorem bc_holdover_ends:
  assumes "bc_reach (bc_boot cfg isOC th) s"
  shows "(b_syncState (sys_clock s) = PTP_HOLDOVER \<longrightarrow>
      b_holdoverGen (sys_clock s) \<in> fst ` set (sys_armed s) \<union> queue_gens (sys_queue s) \<and>
      (\<exists>s'. bc_internal s s')) \<and>
    (\<forall>s'. bc_internal s s' \<longrightarrow> sys_weight s' < sys_weight s) \<and>
    (sys_armed s = [] \<and> sys_queue s = [] \<longrightarrow> b_syncState (sys_clock s) \<noteq> PTP_HOLDOVER)"
proof -
  have inv: "sys_inv s" using assms sys_inv_boot by (rule sys_inv_reach)
  have "b_holdoverGen (sys_clock s) \<in> fst ` set (sys_armed s) \<union> queue_gens (sys_queue s)"
    and "sys_armed s \<noteq> [] \<or> sys_queue s \<noteq> []" if "b_syncState (sys_clock s) = PTP_HOLDOVER"
    using inv that by (auto simp: sys_inv_def timer_ok_def)
  with inv internal_weight internal_enabled quiescent_not_holdover show ?thesis by blast
qed

text \<open>A sample of the slave port, used in the examples.\<close>

definition sample_event :: "int \<Rightarrow> bool \<Rightarrow> event" where
  "sample_event n lost =
     \<lparr>ev_Source = PTP4l, ev_IFace = ''ens1f0'', ev_CfgName = ''ptp4l.0.config'', ev_ClockType = BC,
      ev_Time = 0, ev_WriteToLog = False, ev_Reset = False,
      ev_Data = Some (OffsetData \<lparr>od_State = PTP_LOCKED, od_Offset = n, od_SourceLost = lost,
        od_NMEALocked = None\<rparr>)\<rparr>"

abbreviation sample_boot :: bc_sys where
  "sample_boot \<equiv> bc_boot ''ptp4l.0.config'' False
     \<lparr>th_MaxOffsetThreshold = 100, th_MinOffsetThreshold = -100, th_HoldOverTimeout = 5\<rparr>"

lemma sample_threshold:
  "th_MinOffsetThreshold (c_threshold (sys_clock sample_boot)) = -100"
  "th_MaxOffsetThreshold (c_threshold (sys_clock sample_boot)) = 100"
  "b_holdoverGen (sys_clock sample_boot) = 0" "b_syncState (sys_clock sample_boot) = PTP_NOTSET"
  "b_holdoverCancel (sys_clock sample_boot) = None"
  by (simp_all add: bc_boot_def sys_init_def bc_SetEventLoopbackFunc_def NewBC_def
      newBaseClock_def base_clock.extend_def)

text \<open>A good sample and then a lost source lead to HOLDOVER with generation one.\<close>

lemma sample_holdover:
  "\<exists>s. bc_steps sample_boot s \<and> b_syncState (sys_clock s) = PTP_HOLDOVER \<and>
     b_holdoverGen (sys_clock s) = 1"
proof -
  fix e :: env
  let ?good = "sample_event 7 False" and ?lost = "sample_event 7 True"
  have good: "ev_Source ?good \<noteq> PMC" "\<not> is_expiry ?good"
    and lost: "ev_Source ?lost \<noteq> PMC" "\<not> is_expiry ?lost" "bc_sourceLost ?lost = Some True"
    by (simp_all add: sample_event_def is_expiry_def bc_sourceLost_def)
  obtain c1 es1 where 1: "bc_AddEvent e ?good (sys_clock sample_boot) = Some (c1, es1)"
    "b_syncState c1 = PTP_LOCKED" "b_holdoverCancel c1 = None"
    using bc_AddEvent_offset [OF good(1), of "\<lparr>od_State = PTP_LOCKED, od_Offset = 7,
        od_SourceLost = False, od_NMEALocked = None\<rparr>" e "sys_clock sample_boot"]
    by (auto simp: sample_event_def sample_threshold)
  let ?s1 = "sys_after c1 es1 sample_boot"
  have g1: "b_holdoverGen c1 = 0"
    using timer_change_AddEvent [OF 1(1)] 1(2) by (auto simp: timer_change_def cancel_gen sample_threshold)
  obtain c2 es2 where 2: "bc_AddEvent e ?lost c1 = Some (c2, es2)" "b_syncState c2 = PTP_HOLDOVER"
    using bc_AddEvent_lost [OF lost(1,3), of e c1] 1(2) by auto
  have g2: "b_holdoverGen c2 = 1"
    using timer_change_AddEvent [OF 2(1)] 1(2,3) 2(2) g1 by (auto simp: timer_change_def cancel_gen)
  have "bc_steps sample_boot ?s1"
    using bc_steps.step [OF bc_steps.start, of sample_boot ?s1] handle [OF good(2) 1(1)]
    by (simp add: gen_room_def sample_threshold bc_step_def)
  moreover have "bc_step ?s1 (sys_after c2 es2 ?s1)"
    using handle [OF lost(2), of e ?s1] 2(1) by (simp add: bc_step_def)
  moreover have "gen_room ?s1" by (simp add: gen_room_def g1)
  ultimately have "bc_steps sample_boot (sys_after c2 es2 ?s1)" using bc_steps.step by blast
  with 2(2) g2 show ?thesis by auto
qed

theorem bc_holdover_ends_witness:
  "\<exists>s s'. bc_reach sample_boot s \<and> b_syncState (sys_clock s) = PTP_HOLDOVER \<and> bc_internal s s'"
proof -
  obtain s where s: "bc_reach sample_boot s" "b_syncState (sys_clock s) = PTP_HOLDOVER"
    using sample_holdover bc_steps_reach by blast
  from bc_holdover_ends [OF s(1)] s(2) obtain s' where "bc_internal s s'" by blast
  with s show ?thesis by blast
qed

text \<open>
  C11. A superseded holdover timer can never cut a later holdover short: when an offset sample
  arrives in HOLDOVER, every timer that is armed, cancelled or already queued at that point is
  ignored by the expiry handler for ever after (as long as the 64-bit generation counter has not
  wrapped around), whatever the clock does next.
\<close>

theorem bc_stale_expiry_ignored:
  assumes "bc_steps (bc_boot cfg isOC th) s" "gen_room s"
    and "b_syncState (sys_clock s) = PTP_HOLDOVER"
    and "ev_Source ev \<noteq> PMC" "ev_Data ev = Some (OffsetData d)" "\<not> od_SourceLost d"
    and "bc_AddEvent e ev (sys_clock s) = Some (c, es)"
    and "bc_steps (sys_after c es s) s2" and "g \<in> sys_gens (sys_after c es s)"
  shows "bc_handleHoldoverExpired e2 g (sys_clock s2) = (sys_clock s2, [])"
proof -
  have "sys_inv s" using assms(1) bc_steps_reach sys_inv_boot sys_inv_reach by blast
  with assms(3) have cancel: "b_holdoverCancel (sys_clock s) = Some (b_holdoverGen (sys_clock s))"
    by (simp add: sys_inv_def timer_ok_def)
  note c = offset_in_holdover [OF assms(4-7) cancel]
  have below: "gens_below s" using gens_steps [OF assms(1) gens_below_boot] by blast
  have "sys_gens (sys_after c es s) \<subseteq> sys_gens s"
    using apply_timers_gens [of es "(sys_armed s, sys_cancelled s)"] c(2)
    by (auto simp: sys_gens_def)
  with below assms(9) have "g \<le> b_holdoverGen (sys_clock s)" by (auto simp: gens_below_def)
  also have "\<dots> < b_holdoverGen c"
    using word_room(1) assms(2) by (simp add: gen_room_def c(1))
  also have "\<dots> \<le> b_holdoverGen (sys_clock s2)"
    using gens_steps [OF assms(8)] gens_after(2) [OF timer_change_AddEvent [OF assms(7)] assms(2) below]
    by simp
  finally have "g < b_holdoverGen (sys_clock s2)" .
  then show ?thesis by (auto simp: bc_handleHoldoverExpired_def)
qed

lemma stop_keeps_gens:
  assumes "timer_effects es = [StopTimer g]"
  shows "sys_gens (sys_after c es s) = sys_gens s"
proof -
  have "apply_timers es T = apply_timers [StopTimer g] T" for T
    by (metis assms apply_timers_effects)
  then show ?thesis by (auto simp: sys_gens_def)
qed

theorem bc_stale_expiry_ignored_witness:
  "\<exists>s e c es. bc_steps sample_boot s \<and> b_syncState (sys_clock s) = PTP_HOLDOVER \<and>
     bc_AddEvent e (sample_event 7 False) (sys_clock s) = Some (c, es) \<and>
     1 \<in> sys_gens (sys_after c es s) \<and> bc_handleHoldoverExpired e 1 c = (c, [])"
proof -
  obtain s where s: "bc_steps sample_boot s" "b_syncState (sys_clock s) = PTP_HOLDOVER"
    and g: "b_holdoverGen (sys_clock s) = 1"
    using sample_holdover by blast
  have room: "gen_room s" by (simp add: gen_room_def g)
  have "sys_inv s" using s(1) bc_steps_reach sys_inv_boot sys_inv_reach by blast
  with s(2) g have cancel: "b_holdoverCancel (sys_clock s) = Some 1" and "1 \<in> sys_gens s"
    by (auto simp: sys_inv_def timer_ok_def sys_gens_def)
  let ?ev = "sample_event 7 False"
  have ev: "ev_Source ?ev \<noteq> PMC" "ev_Data ?ev = Some (OffsetData \<lparr>od_State = PTP_LOCKED,
      od_Offset = 7, od_SourceLost = False, od_NMEALocked = None\<rparr>)"
    by (simp_all add: sample_event_def)
  fix e :: env
  obtain c es where c: "bc_AddEvent e ?ev (sys_clock s) = Some (c, es)"
    using bc_AddEvent_offset [OF ev, of e "sys_clock s"] by auto
  have "1 \<in> sys_gens (sys_after c es s)"
    using offset_in_holdover(2) [OF ev _ c cancel] \<open>1 \<in> sys_gens s\<close> by (simp add: stop_keeps_gens)
  moreover from bc_stale_expiry_ignored [OF s(1) room s(2) ev _ c bc_steps.start this]
  have "bc_handleHoldoverExpired e 1 c = (c, [])" by simp
  ultimately show ?thesis using s c by blast
qed

text \<open>
  An offset sample decides the state alone, whatever the clock was doing: inside the configured
  range the clock is LOCKED, outside it is FREERUN; the holdover timer is off afterwards and the
  overall state is recomputed against the OS clock.
\<close>

lemma bc_sample_decides:
  assumes "ev_Source ev \<noteq> PMC" "ev_Data ev = Some (OffsetData d)" "\<not> od_SourceLost d"
  shows "\<exists>c' es. bc_AddEvent e ev c = Some (c', es) \<and>
    b_syncState c' = (if th_MinOffsetThreshold (c_threshold c) < od_Offset d \<and>
                         od_Offset d < th_MaxOffsetThreshold (c_threshold c)
                      then PTP_LOCKED else PTP_FREERUN) \<and>
    b_holdoverCancel c' = None \<and>
    c_overall c' = WorstOfState (b_syncState c') (e_os_state e)"
  by (rule bc_AddEvent_offset [OF assms])

text \<open>
  A lost source takes a LOCKED clock to HOLDOVER and arms the holdover timer with the configured
  timeout under the clock's new generation; in any other state nothing but the published overall
  state changes, and no timer is touched.
\<close>

lemma bc_source_lost:
  assumes "ev_Source ev \<noteq> PMC" "bc_sourceLost ev = Some True"
  shows "\<exists>c' es. bc_AddEvent e ev c = Some (c', es) \<and>
    (if b_syncState c = PTP_LOCKED
     then b_syncState c' = PTP_HOLDOVER \<and> b_holdoverCancel c' = Some (b_holdoverGen c') \<and>
       last (timer_effects es) =
         StartTimer (b_holdoverGen c') (th_HoldOverTimeout (c_threshold c)) (b_iface c)
     else b_syncState c' = b_syncState c \<and> b_holdoverCancel c' = b_holdoverCancel c \<and>
       b_holdoverGen c' = b_holdoverGen c \<and> timer_effects es = [])"
proof -
  have "bc_AddEvent e ev c = bc_onProcessEvent e ev c"
    using assms by (auto simp: bc_AddEvent_def bc_sourceLost_def split: option.split event_data.split)
  then show ?thesis
    using assms
    by (auto simp: bc_onProcessEvent_def bc_onSample_def bc_onSourceLost_def bc_recordIface_def
        bc_armHoldoverTimer_def Let_def split_beta)
qed

text \<open>
  Handling an event panics in exactly one case: a DPLL payload that says its source is not lost
  but carries no phase offset (as a DPLL configured without phase offset sends it). Every other
  event of every other source is handled.
\<close>

lemma bc_panics_iff:
  "bc_AddEvent e ev c = None \<longleftrightarrow>
   ev_Source ev \<noteq> PMC \<and>
   (\<exists>d. ev_Data ev = Some (DPLLData d) \<and> \<not> dp_SourceLost d \<and> dp_Offset d = None)"
  by (rule bc_AddEvent_panics_iff)

end
