(* ===== verification/HaClock.thy ===== *)
theory HaClock
  imports BcClock
begin

text \<open>
  \<open>pkg/clock/ha.go\<close>: the high-availability clock, a composite of boundary clocks keyed by their
  config names. The Go map of members is an association list whose order stands for the arbitrary
  iteration order of the map; what must not depend on the order is proved not to. Members publish
  through \<open>interceptMemberIPC\<close>.
\<close>

section \<open>State\<close>

record ha_clock = base_clock +
  h_members :: "(string \<times> bc_clock) list"
  h_memberProfiles :: "(string \<times> string) list"
  h_syncState :: ptp_state
  h_activeCfg :: string

definition NewHA :: "string \<Rightarrow> (string \<times> bc_clock) list \<Rightarrow> ha_clock" where
  "NewHA cfgName members =
     base_clock.extend (newBaseClock cfgName
         \<lparr>th_MaxOffsetThreshold = 0, th_MinOffsetThreshold = 0, th_HoldOverTimeout = 0\<rparr>)
       \<lparr>h_members = fold (\<lambda>(p, c). AList.update (c_cfgName c) c) members [],
        h_memberProfiles = fold (\<lambda>(p, c). AList.update (c_cfgName c) p) members [],
        h_syncState = PTP_NOTSET, h_activeCfg = ''''\<rparr>"

definition ha_SetEventLoopbackFunc :: "ha_clock \<Rightarrow> ha_clock" where
  "ha_SetEventLoopbackFunc c =
     c\<lparr>h_members := map (\<lambda>(cfg, m). (cfg, bc_SetEventLoopbackFunc m)) (h_members c)\<rparr>"

section \<open>Operations\<close>

definition interceptMemberIPC :: "effect \<Rightarrow> effect list" where
  "interceptMemberIPC x =
     (case x of SendIPC m \<Rightarrow> if m_Type m = TypeSyncState then [] else [x] | _ \<Rightarrow> [x])"

definition ha_intercept :: "effect list \<Rightarrow> effect list" where
  "ha_intercept es = concat (map interceptMemberIPC es)"

definition ha_ConfigNames :: "ha_clock \<Rightarrow> string list" where
  "ha_ConfigNames c = base_ConfigNames c @ map fst (h_members c)"

definition bestOfState :: "ptp_state \<Rightarrow> ptp_state \<Rightarrow> ptp_state" where
  "bestOfState a b =
     (if a = PTP_LOCKED \<or> b = PTP_LOCKED then PTP_LOCKED
      else if a = PTP_HOLDOVER \<or> b = PTP_HOLDOVER then PTP_HOLDOVER
      else if a = PTP_FREERUN \<or> b = PTP_FREERUN then PTP_FREERUN
      else a)"

definition ha_bestMemberState :: "ha_clock \<Rightarrow> ptp_state" where
  "ha_bestMemberState c = fold (\<lambda>(cfg, m) s. bestOfState s (b_syncState m)) (h_members c) PTP_NOTSET"

definition ha_setActiveByIface :: "string \<Rightarrow> ha_clock \<Rightarrow> ha_clock" where
  "ha_setActiveByIface iface c =
     (case find (\<lambda>(cfg, m). b_iface m = iface) (h_members c) of
        Some (cfg, m) \<Rightarrow> if h_activeCfg c \<noteq> cfg then c\<lparr>h_activeCfg := cfg\<rparr> else c
      | None \<Rightarrow> c)"

definition ha_activeMember :: "ha_clock \<Rightarrow> bc_clock option" where
  "ha_activeMember c =
     (if h_activeCfg c = '''' then None else map_of (h_members c) (h_activeCfg c))"

definition ha_ClockClass :: "ha_clock \<Rightarrow> clock_class" where
  "ha_ClockClass c = (case ha_activeMember c of Some m \<Rightarrow> b_clockClass m | None \<Rightarrow> 0)"

text \<open>Members are distinct objects, one per key: \<open>m == active\<close> compares keys.\<close>

definition ha_profileStatus :: "ha_clock \<Rightarrow> (string \<times> bool) list option" where
  "ha_profileStatus c =
     (if h_members c = [] then None
      else Some (fold (\<lambda>(cfg, m). AList.update
               (case map_of (h_memberProfiles c) cfg of Some p \<Rightarrow> p | None \<Rightarrow> '''')
               (ha_activeMember c \<noteq> None \<and> h_activeCfg c = cfg))
             (h_members c) []))"

definition ha_currentSyncState :: "ha_clock \<Rightarrow> sync_state" where
  "ha_currentSyncState c =
     zero_sync_state\<lparr>ss_State := h_syncState c, ss_ClockClass := ha_ClockClass c,
       ss_LeadingIFace := (case ha_activeMember c of
           Some m \<Rightarrow> ss_LeadingIFace (bc_currentSyncState m)
         | None \<Rightarrow> LEADING_INTERFACE_UNKNOWN),
       ss_HAProfileStatus := ha_profileStatus c\<rparr>"

definition ha_ProcessDataForConfig :: "ha_clock \<Rightarrow> os_clock \<Rightarrow> string \<Rightarrow> data list" where
  "ha_ProcessDataForConfig c oc cfgName =
     (case find (\<lambda>(cfg, m). cfgName \<in> set (base_ConfigNames m)) (h_members c) of
        Some (cfg, m) \<Rightarrow> base_ProcessData m oc
      | None \<Rightarrow> base_ProcessData c oc)"

definition ha_emitOverall :: "env \<Rightarrow> ha_clock \<Rightarrow> ha_clock \<times> effect list" where
  "ha_emitOverall e c =
     (let (o', es) = emitOverallSyncStateIfChanged (c_overall c) (h_syncState c) (e_os_state e) (c_cfgName c)
      in (c\<lparr>c_overall := o'\<rparr>, es))"

text \<open>The result of the paths that leave the members alone.\<close>

definition ha_status :: "ha_clock \<Rightarrow> sync_state" where
  "ha_status c = zero_sync_state\<lparr>ss_State := h_syncState c, ss_HAProfileStatus := ha_profileStatus c\<rparr>"

definition ha_storeMember :: "string \<Rightarrow> bc_clock \<Rightarrow> ha_clock \<Rightarrow> ha_clock" where
  "ha_storeMember cfg m c =
     (let c1 = c\<lparr>h_members := AList.update cfg m (h_members c)\<rparr>
      in c1\<lparr>h_syncState := ha_bestMemberState c1\<rparr>)"

text \<open>Forwarding to the member; \<open>None\<close> when the member panics.\<close>

definition ha_forward :: "env \<Rightarrow> event \<Rightarrow> ha_clock \<Rightarrow> (ha_clock \<times> effect list \<times> sync_state) option" where
  "ha_forward e ev c =
     (case map_of (h_members c) (ev_CfgName ev) of
        None \<Rightarrow> Some (c, [], ha_status c)
      | Some m \<Rightarrow>
          (case bc_AddEvent e ev m of
             None \<Rightarrow> None
           | Some (m', es1) \<Rightarrow>
               (let (c1, es2) = ha_emitOverall e (ha_storeMember (ev_CfgName ev) m' c)
                in Some (c1, ha_intercept es1 @ es2,
                     (bc_currentSyncState m')\<lparr>ss_HAProfileStatus := ha_profileStatus c1\<rparr>))))"

definition ha_AddEvent :: "env \<Rightarrow> event \<Rightarrow> ha_clock \<Rightarrow> (ha_clock \<times> effect list \<times> sync_state) option" where
  "ha_AddEvent e ev c =
     (case ev_Data ev of
        Some (SelectedSourceData iface) \<Rightarrow>
          (let c1 = ha_setActiveByIface iface c in Some (c1, [], ha_status c1))
      | _ \<Rightarrow> ha_forward e ev c)"

definition ha_SystemClockUpdate :: "env \<Rightarrow> ha_clock \<Rightarrow> ha_clock \<times> effect list" where
  "ha_SystemClockUpdate e c =
     (let (c1, es) = ha_emitOverall e c in
      (c1\<lparr>h_members := map (\<lambda>(cfg, m). (cfg, fst (bc_SystemClockUpdate e m))) (h_members c1)\<rparr>,
       es @ concat (map (\<lambda>(cfg, m). ha_intercept (snd (bc_SystemClockUpdate e m))) (h_members c1))))"

fun ha_reset_members ::
  "(string \<times> bc_clock) list \<Rightarrow> os_clock \<Rightarrow> (string \<times> bc_clock) list \<times> os_clock \<times> effect list" where
  "ha_reset_members [] oc = ([], oc, [])"
| "ha_reset_members ((cfg, m) # ms) oc =
     (let (m', oc1, es1) = bc_Reset m oc; (ms', oc2, es2) = ha_reset_members ms oc1
      in ((cfg, m') # ms', oc2, es1 @ es2))"

definition ha_Reset :: "ha_clock \<Rightarrow> os_clock \<Rightarrow> ha_clock \<times> os_clock \<times> effect list" where
  "ha_Reset c oc =
     (let (ms, oc1, es) = ha_reset_members (h_members c) oc;
          (c1, oc2) = base_Reset (c\<lparr>h_members := ms\<rparr>) oc1
      in (c1\<lparr>h_syncState := PTP_FREERUN, c_overall := PTP_FREERUN, h_activeCfg := ''''\<rparr>, oc2,
          ha_intercept es))"

section \<open>Lemmas\<close>

lemma fold_bestOf:
  "fold (\<lambda>(cfg, m) s. bestOfState s (b_syncState m)) ms s0 =
   (if s0 = PTP_LOCKED \<or> (\<exists>(cfg, m) \<in> set ms. b_syncState m = PTP_LOCKED) then PTP_LOCKED
    else if s0 = PTP_HOLDOVER \<or> (\<exists>(cfg, m) \<in> set ms. b_syncState m = PTP_HOLDOVER) then PTP_HOLDOVER
    else if s0 = PTP_FREERUN \<or> (\<exists>(cfg, m) \<in> set ms. b_syncState m = PTP_FREERUN) then PTP_FREERUN
    else s0)"
proof (induction ms arbitrary: s0)
  case Nil
  then show ?case by simp
next
  case (Cons x ms)
  obtain cfg m where "x = (cfg, m)" by (cases x)
  then show ?case
    by (cases "b_syncState m"; cases s0) (simp_all add: Cons.IH, simp_all add: bestOfState_def)
qed

lemma ha_intercept_simps [simp]:
  "ha_intercept [] = []"
  "ha_intercept (x # es) = interceptMemberIPC x @ ha_intercept es"
  "ha_intercept (es @ es') = ha_intercept es @ ha_intercept es'"
  by (simp_all add: ha_intercept_def)

text \<open>Nothing a member publishes is a sync-state message.\<close>

lemma ha_intercept_types: "m \<in> set (ipc_sent (ha_intercept es)) \<Longrightarrow> m_Type m \<noteq> TypeSyncState"
proof (induction es)
  case Nil
  then show ?case by simp
next
  case (Cons x es)
  then show ?case by (cases x) (auto simp: interceptMemberIPC_def split: if_splits)
qed

lemma ha_intercept_view [simp]: "sync_view v (ipc_sent (ha_intercept es)) = v"
  using ha_intercept_types by (intro sync_view_other) blast

lemma ha_intercept_keeps:
  "m_Type m \<noteq> TypeSyncState \<Longrightarrow> m \<in> set (ipc_sent (ha_intercept es)) \<longleftrightarrow> m \<in> set (ipc_sent es)"
proof (induction es)
  case Nil
  then show ?case by simp
next
  case (Cons x es)
  then show ?case by (cases x) (auto simp: interceptMemberIPC_def)
qed

lemma ha_emitOverall_simps [simp]:
  "h_members (fst (ha_emitOverall e c)) = h_members c"
  "h_syncState (fst (ha_emitOverall e c)) = h_syncState c"
  "h_activeCfg (fst (ha_emitOverall e c)) = h_activeCfg c"
  "h_memberProfiles (fst (ha_emitOverall e c)) = h_memberProfiles c"
  "c_cfgName (fst (ha_emitOverall e c)) = c_cfgName c"
  "c_overall (fst (ha_emitOverall e c)) = WorstOfState (h_syncState c) (e_os_state e)"
  by (simp_all add: ha_emitOverall_def split_beta)

lemma ha_emitOverall_view:
  "c_overall c = ov \<Longrightarrow> sync_view (PtpStateToIPCState ov) (ipc_sent (snd (ha_emitOverall e c))) =
   PtpStateToIPCState (WorstOfState (h_syncState c) (e_os_state e))"
  by (simp add: ha_emitOverall_def split_beta)

fun ha_op :: "clock_op \<Rightarrow> ha_clock \<Rightarrow> (ha_clock \<times> effect list) option" where
  "ha_op (ClockEvent e ev) c = map_option (\<lambda>(c', es, ss). (c', es)) (ha_AddEvent e ev c)"
| "ha_op (ClockOsUpdate e) c = Some (ha_SystemClockUpdate e c)"

lemma ha_AddEvent_cases:
  assumes "ha_AddEvent e ev c = Some (c', es, ss)"
  obtains (selected) iface where "ev_Data ev = Some (SelectedSourceData iface)"
      "c' = ha_setActiveByIface iface c" "es = []"
  | (no_member) "map_of (h_members c) (ev_CfgName ev) = None" "c' = c" "es = []"
  | (member) m m' es1 c2 where "map_of (h_members c) (ev_CfgName ev) = Some m"
      "bc_AddEvent e ev m = Some (m', es1)" "c2 = ha_storeMember (ev_CfgName ev) m' c"
      "c' = fst (ha_emitOverall e c2)" "es = ha_intercept es1 @ snd (ha_emitOverall e c2)"
proof (cases "\<exists>i. ev_Data ev = Some (SelectedSourceData i)")
  case True
  then obtain i where i: "ev_Data ev = Some (SelectedSourceData i)" ..
  with assms have "c' = ha_setActiveByIface i c" "es = []" by (auto simp: ha_AddEvent_def Let_def)
  then show ?thesis by (rule selected [OF i])
next
  case False
  then have rest: "ha_forward e ev c = Some (c', es, ss)"
    using assms by (auto simp: ha_AddEvent_def Let_def split: option.splits event_data.splits)
  show ?thesis
  proof (cases "map_of (h_members c) (ev_CfgName ev)")
    case None
    with rest have "c' = c" "es = []" by (auto simp: ha_forward_def)
    with None show ?thesis by (rule no_member)
  next
    case (Some m)
    with rest obtain m' es1 where "bc_AddEvent e ev m = Some (m', es1)"
      and "c' = fst (ha_emitOverall e (ha_storeMember (ev_CfgName ev) m' c))"
      "es = ha_intercept es1 @ snd (ha_emitOverall e (ha_storeMember (ev_CfgName ev) m' c))"
      by (auto simp: ha_forward_def split_beta split: option.splits)
    with Some show ?thesis by (intro member [OF _ _ refl])
  qed
qed

lemma ha_storeMember_simps [simp]:
  "c_overall (ha_storeMember cfg m c) = c_overall c"
  "c_cfgName (ha_storeMember cfg m c) = c_cfgName c"
  "h_members (ha_storeMember cfg m c) = AList.update cfg m (h_members c)"
  "h_activeCfg (ha_storeMember cfg m c) = h_activeCfg c"
  by (simp_all add: ha_storeMember_def Let_def)

lemma ha_setActiveByIface_simps [simp]:
  "c_overall (ha_setActiveByIface i c) = c_overall c"
  "h_syncState (ha_setActiveByIface i c) = h_syncState c"
  "h_members (ha_setActiveByIface i c) = h_members c"
  "c_cfgName (ha_setActiveByIface i c) = c_cfgName c"
  by (simp_all add: ha_setActiveByIface_def split: option.split prod.split)

lemma ha_view_AddEvent:
  assumes "ha_AddEvent e ev c = Some (c', es, ss)"
  shows "sync_view (PtpStateToIPCState (c_overall c)) (ipc_sent es) = PtpStateToIPCState (c_overall c')"
  using assms
proof (cases rule: ha_AddEvent_cases)
  case (member m m' es1 c2)
  have "c_overall c2 = c_overall c" by (simp add: member(3))
  from ha_emitOverall_view [OF this] show ?thesis by (simp add: member(4,5))
qed simp_all

lemma ha_view_members:
  "sync_view v (ipc_sent (concat (map (\<lambda>(cfg, m). ha_intercept (F m)) ms))) = v"
  by (induction ms) auto

interpretation ha_rep: state_reporter ha_op "\<lambda>s. PtpStateToIPCState (c_overall s)" sync_view
proof (unfold_locales, goal_cases)
  case (1 v)
  show ?case by simp
next
  case (2 v xs ys)
  show ?case by simp
next
  case (3 x s s' es)
  note * = 3
  show "sync_view (PtpStateToIPCState (c_overall s)) (ipc_sent es) = PtpStateToIPCState (c_overall s')"
  proof (cases x)
    case (ClockEvent e ev)
    with * show ?thesis by (auto intro: ha_view_AddEvent)
  next
    case (ClockOsUpdate e)
    with * show ?thesis
      by (auto simp: ha_SystemClockUpdate_def split_beta ha_view_members ha_emitOverall_view)
  qed
qed

section \<open>At most one active profile\<close>

lemma update_keeps_one_true:
  assumes "distinct (map fst al)" "\<forall>(k, v) \<in> set al. v \<longrightarrow> k = p" "b \<longrightarrow> q = p"
  shows "distinct (map fst (AList.update q b al)) \<and> (\<forall>(k, v) \<in> set (AList.update q b al). v \<longrightarrow> k = p)"
proof -
  have "set (AList.update q b al) \<subseteq> insert (q, b) (set al)" by (rule set_update_AList)
  with assms show ?thesis by (auto simp: distinct_update)
qed

lemma fold_status:
  assumes "distinct (map fst al)" "\<forall>(k, v) \<in> set al. v \<longrightarrow> k = P a"
  shows "distinct (map fst (fold (\<lambda>(cfg, m). AList.update (P cfg) (act \<and> a = cfg)) ms al)) \<and>
    (\<forall>(k, v) \<in> set (fold (\<lambda>(cfg, m). AList.update (P cfg) (act \<and> a = cfg)) ms al). v \<longrightarrow> k = P a)"
  using assms
proof (induction ms arbitrary: al)
  case Nil
  then show ?case by simp
next
  case (Cons x ms)
  obtain cfg m where x: "x = (cfg, m)" by (cases x)
  have "act \<and> a = cfg \<longrightarrow> P cfg = P a" by simp
  note u = update_keeps_one_true [OF Cons.prems this]
  show ?case using Cons.IH [OF conjunct1 [OF u] conjunct2 [OF u]] by (simp add: x)
qed

lemma one_true:
  assumes "distinct (map fst al)" "\<forall>(k, v) \<in> set al. v \<longrightarrow> k = p"
  shows "length (filter snd al) \<le> 1"
proof -
  have "distinct (map fst (filter snd al))"
    using assms(1) by (induction al) auto
  moreover have "set (map fst (filter snd al)) \<subseteq> {p}" using assms(2) by auto
  ultimately have "length (map fst (filter snd al)) \<le> card {p}"
    by (metis card_mono distinct_card finite.emptyI finite.insertI)
  then show ?thesis by simp
qed

section \<open>Properties\<close>

text \<open>
  The HA clock reports the best state of its members, in whatever order the map of members is
  iterated: LOCKED if a member is LOCKED, otherwise HOLDOVER if one is, otherwise FREERUN if one
  is, otherwise NOTSET.
\<close>

lemma ha_state_is_best:
  "ha_bestMemberState c =
   (if PTP_LOCKED \<in> (b_syncState \<circ> snd) ` set (h_members c) then PTP_LOCKED
    else if PTP_HOLDOVER \<in> (b_syncState \<circ> snd) ` set (h_members c) then PTP_HOLDOVER
    else if PTP_FREERUN \<in> (b_syncState \<circ> snd) ` set (h_members c) then PTP_FREERUN
    else PTP_NOTSET)"
  by (simp add: ha_bestMemberState_def fold_bestOf image_iff split_beta eq_commute [of "PTP_FREERUN"]
      eq_commute [of "PTP_HOLDOVER"] eq_commute [of "PTP_LOCKED"])

text \<open>
  Members never speak for the node: an event publishes a sync-state message only under the HA
  clock's own config name, while every other message of the member is passed on.
\<close>

lemma ha_single_voice:
  "map_option (\<lambda>(c', es, ss). filter (\<lambda>m. m_Type m = TypeSyncState \<and> m_Profile m \<noteq> c_cfgName c) (ipc_sent es))
     (ha_AddEvent e ev c) =
   map_option (\<lambda>r. []) (ha_AddEvent e ev c)"
proof (cases "ha_AddEvent e ev c")
  case None
  then show ?thesis by simp
next
  case (Some r)
  obtain c' es ss where r: "r = (c', es, ss)" by (cases r)
  have overall: "\<forall>m \<in> set (ipc_sent (snd (ha_emitOverall e c2))). m_Profile m = c_cfgName c2" for c2
    by (simp add: ha_emitOverall_def emitOverallSyncStateIfChanged_def Let_def split_beta)
  from Some have "ha_AddEvent e ev c = Some (c', es, ss)" by (simp add: r)
  then have "filter (\<lambda>m. m_Type m = TypeSyncState \<and> m_Profile m \<noteq> c_cfgName c) (ipc_sent es) = []"
  proof (cases rule: ha_AddEvent_cases)
    case (member m m' es1 c2)
    have "c_cfgName c2 = c_cfgName c" by (simp add: member(3))
    with overall [of c2] show ?thesis
      using ha_intercept_types [of _ es1] by (auto simp: member(5) filter_empty_conv)
  qed simp_all
  then show ?thesis by (simp add: Some r)
qed

text \<open>
  At most one profile is reported active, also when several members share a profile name or the
  selected interface belongs to none of them.
\<close>

lemma ha_one_active_profile:
  "length (filter snd (case ha_profileStatus c of Some ps \<Rightarrow> ps | None \<Rightarrow> [])) \<le> 1"
proof (cases "h_members c = []")
  case True
  then show ?thesis by (simp add: ha_profileStatus_def)
next
  case False
  define P where "P = (\<lambda>cfg. case map_of (h_memberProfiles c) cfg of Some p \<Rightarrow> p | None \<Rightarrow> '''')"
  from fold_status [of "[]" P "h_activeCfg c" "ha_activeMember c \<noteq> None" "h_members c"]
  show ?thesis using False one_true by (auto simp: ha_profileStatus_def P_def)
qed

end
