(* ===== verification/GmClock.thy ===== *)
theory GmClock
  imports BcClock
begin

text \<open>
  \<open>pkg/clock/gm.go\<close>: the grandmaster clock, whose state is decided by the DPLL, the GNSS receiver
  and ts2phc, and whose clock class is announced through the pmc client. \<open>ClockAccuracyFromOffset\<close>
  of the vendored PTP package is translated with it. The client's replies are part of \<open>env\<close>; the
  settings it is asked to write are effects. Log lines and the debug tree are not modelled.
\<close>

section \<open>State\<close>

record gm_clock = base_clock +
  g_syncState :: sync_state
  g_gnssState :: ptp_state
  g_announcedClockClass :: clock_class
  g_announcedClockAccuracy :: clock_accuracy
  g_lastLoggedState :: ptp_state

text \<open>\<open>NewGM\<close>; \<open>None\<close> is the error for a missing pmc client.\<close>

definition NewGM :: "string \<Rightarrow> bool \<Rightarrow> gm_clock option" where
  "NewGM cfgName hasClient =
     (if \<not> hasClient then None
      else Some (base_clock.extend (newBaseClock cfgName
           \<lparr>th_MaxOffsetThreshold = 0, th_MinOffsetThreshold = 0, th_HoldOverTimeout = 0\<rparr>)
         \<lparr>g_syncState = zero_sync_state\<lparr>ss_State := PTP_NOTSET,
            ss_ClockClass := ClockClassUninitialized, ss_ClockAccuracy := ClockAccuracyUnknown\<rparr>,
          g_gnssState = PTP_NOTSET, g_announcedClockClass = ClockClassUninitialized,
          g_announcedClockAccuracy = ClockAccuracyUnknown, g_lastLoggedState = PTP_EMPTY\<rparr>))"

definition gm_Reset :: "gm_clock \<Rightarrow> os_clock \<Rightarrow> gm_clock \<times> os_clock" where
  "gm_Reset c oc =
     (let (c1, oc') = base_Reset c oc
      in (c1\<lparr>g_syncState := zero_sync_state, c_overall := PTP_FREERUN, g_gnssState := PTP_NOTSET,
             g_announcedClockClass := 0, g_announcedClockAccuracy := 0,
             g_lastLoggedState := PTP_EMPTY, c_data := []\<rparr>, oc'))"

section \<open>Reading the sources\<close>

definition gm_isSourceLost :: "data list \<Rightarrow> bool" where
  "gm_isSourceLost ds =
     (case find (\<lambda>d. d_ProcessName d = GNSS \<and> d_Details d \<noteq> []) ds of
        Some d \<Rightarrow> dt_SourceLost (hd (d_Details d))
      | None \<Rightarrow> False)"

fun gm_getLeadingInterface :: "data list \<Rightarrow> string" where
  "gm_getLeadingInterface [] = LEADING_INTERFACE_UNKNOWN"
| "gm_getLeadingInterface (d # ds) =
     (if d_ProcessName d = GNSS \<and> d_Details d \<noteq> [] then dt_IFace (hd (d_Details d))
      else if d_ProcessName d = TS2PHC \<and> d_Details d \<noteq> [] then
        (case find (\<lambda>dd. dt_SignalSource dd = GNSS) (d_Details d) of
           Some dd \<Rightarrow> dt_IFace dd
         | None \<Rightarrow> gm_getLeadingInterface ds)
      else gm_getLeadingInterface ds)"

text \<open>The loop of \<open>hasNonLeadingDPLLFault\<close>, the same in \<open>gm.go\<close> and \<open>tbc.go\<close>.\<close>

fun nonLeadingFault :: "string \<Rightarrow> data list \<Rightarrow> bool" where
  "nonLeadingFault lead [] = False"
| "nonLeadingFault lead (d # ds) =
     (if d_ProcessName d \<noteq> DPLL then nonLeadingFault lead ds
      else (case GetDataDetails lead d of
              None \<Rightarrow> False
            | Some l \<Rightarrow>
                if dt_State l \<noteq> PTP_LOCKED then False
                else if list_ex (\<lambda>dd. dt_IFace dd \<noteq> lead \<and> dt_State dd \<noteq> PTP_LOCKED) (d_Details d)
                     then True
                else nonLeadingFault lead ds))"

definition hasNonLeadingDPLLFault :: "string \<Rightarrow> data list \<Rightarrow> bool" where
  "hasNonLeadingDPLLFault lead ds =
     (if lead = LEADING_INTERFACE_UNKNOWN then False else nonLeadingFault lead ds)"

record gm_inputs =
  gi_dpll :: ptp_state
  gi_gnss :: ptp_state
  gi_ts2phc :: ptp_state
  gi_outOfSpec :: bool
  gi_frequencyTraceable :: bool

text \<open>One iteration of the loop of \<open>updateState\<close> over the data; \<open>all\<close> is the whole list.\<close>

definition gm_input_of :: "int \<Rightarrow> string \<Rightarrow> data list \<Rightarrow> data \<Rightarrow> gm_inputs \<Rightarrow> gm_inputs" where
  "gm_input_of noSourceTS lead all d i =
     (if d_ProcessName d = DPLL then
        (let i1 = i\<lparr>gi_dpll := (if hasNonLeadingDPLLFault lead all then PTP_FREERUN else d_State d)\<rparr>
         in (case GetDataDetails lead d of
               Some dd \<Rightarrow> i1\<lparr>gi_outOfSpec := dt_OutOfSpec dd,
                             gi_frequencyTraceable := dt_FrequencyTraceable dd\<rparr>
             | None \<Rightarrow> i1))
      else if d_ProcessName d = GNSS then i\<lparr>gi_gnss := d_State d\<rparr>
      else if d_ProcessName d = TS2PHC then
        i\<lparr>gi_ts2phc := (if noSourceTS = 2 then PTP_FREERUN else d_State d)\<rparr>
      else i)"

definition gm_inputs_of :: "int \<Rightarrow> string \<Rightarrow> data list \<Rightarrow> gm_inputs" where
  "gm_inputs_of noSourceTS lead ds =
     fold (gm_input_of noSourceTS lead ds) ds
       \<lparr>gi_dpll = PTP_NOTSET, gi_gnss = PTP_FREERUN, gi_ts2phc = PTP_FREERUN,
        gi_outOfSpec = False, gi_frequencyTraceable = False\<rparr>"

section \<open>The decision\<close>

abbreviation ss_freerun :: "sync_state \<Rightarrow> sync_state" where
  "ss_freerun s \<equiv> s\<lparr>ss_State := PTP_FREERUN, ss_ClockClass := ClockClassFreerun,
     ss_ClockAccuracy := ClockAccuracyUnknown\<rparr>"

abbreviation ss_locked :: "sync_state \<Rightarrow> sync_state" where
  "ss_locked s \<equiv> s\<lparr>ss_State := PTP_LOCKED, ss_ClockClass := ClockClass6,
     ss_ClockAccuracy := ClockAccuracyNanosecond100\<rparr>"

abbreviation ss_holdover :: "sync_state \<Rightarrow> sync_state" where
  "ss_holdover s \<equiv> s\<lparr>ss_State := PTP_HOLDOVER, ss_ClockClass := ClockClass7\<rparr>"

text \<open>The case \<open>dpllState\<close> LOCKED or NOTSET.\<close>

definition gm_decide_good :: "bool \<Rightarrow> gm_inputs \<Rightarrow> sync_state \<Rightarrow> sync_state" where
  "gm_decide_good srcLost i s =
     (case gi_gnss i of
        PTP_LOCKED \<Rightarrow>
          (case gi_ts2phc i of PTP_FREERUN \<Rightarrow> ss_freerun s | PTP_LOCKED \<Rightarrow> ss_locked s
           | PTP_HOLDOVER \<Rightarrow> ss_holdover s | _ \<Rightarrow> s)
      | PTP_FREERUN \<Rightarrow>
          if srcLost then
            (case gi_ts2phc i of PTP_LOCKED \<Rightarrow> s | PTP_FREERUN \<Rightarrow> s\<lparr>ss_State := PTP_FREERUN\<rparr>
             | PTP_HOLDOVER \<Rightarrow> ss_holdover s | _ \<Rightarrow> s)
          else
            (case gi_ts2phc i of PTP_FREERUN \<Rightarrow> ss_freerun s | PTP_LOCKED \<Rightarrow> ss_freerun s
             | PTP_UNKNOWN \<Rightarrow> ss_freerun s | PTP_NOTSET \<Rightarrow> ss_freerun s | _ \<Rightarrow> s)
      | _ \<Rightarrow> s)"

text \<open>The default case: the DPLL reports no usable state.\<close>

definition gm_decide_no_dpll :: "gm_inputs \<Rightarrow> sync_state \<Rightarrow> sync_state" where
  "gm_decide_no_dpll i s =
     (case gi_gnss i of
        PTP_LOCKED \<Rightarrow>
          (case gi_ts2phc i of PTP_FREERUN \<Rightarrow> ss_freerun s | PTP_UNKNOWN \<Rightarrow> ss_freerun s
           | PTP_NOTSET \<Rightarrow> ss_freerun s | PTP_LOCKED \<Rightarrow> ss_locked s
           | PTP_HOLDOVER \<Rightarrow> ss_holdover s | _ \<Rightarrow> s)
      | PTP_FREERUN \<Rightarrow>
          (case gi_ts2phc i of PTP_FREERUN \<Rightarrow> ss_freerun s | PTP_LOCKED \<Rightarrow> ss_freerun s
           | PTP_UNKNOWN \<Rightarrow> ss_freerun s | PTP_NOTSET \<Rightarrow> ss_freerun s
           | PTP_HOLDOVER \<Rightarrow> ss_holdover s | _ \<Rightarrow> s)
      | _ \<Rightarrow>
          (let s1 = s\<lparr>ss_State := gi_ts2phc i\<rparr> in
           case gi_ts2phc i of
             PTP_FREERUN \<Rightarrow> s1\<lparr>ss_ClockClass := ClockClassFreerun, ss_ClockAccuracy := ClockAccuracyUnknown\<rparr>
           | PTP_LOCKED \<Rightarrow> s1\<lparr>ss_ClockClass := ClockClass7, ss_ClockAccuracy := ClockAccuracyNanosecond100\<rparr>
           | _ \<Rightarrow> s1))"

definition gm_decide :: "bool \<Rightarrow> gm_inputs \<Rightarrow> sync_state \<Rightarrow> sync_state" where
  "gm_decide srcLost i s =
     (case gi_dpll i of
        PTP_FREERUN \<Rightarrow>
          s\<lparr>ss_State := PTP_FREERUN,
            ss_ClockClass := (if gi_outOfSpec i \<and> gi_frequencyTraceable i
                              then ClockClassOutOfSpec else ClockClassFreerun),
            ss_ClockAccuracy := ClockAccuracyUnknown\<rparr>
      | PTP_HOLDOVER \<Rightarrow> ss_holdover s
      | PTP_LOCKED \<Rightarrow> gm_decide_good srcLost i s
      | PTP_NOTSET \<Rightarrow> gm_decide_good srcLost i s
      | _ \<Rightarrow> gm_decide_no_dpll i s)"

definition gm_result :: "sync_state \<Rightarrow> sync_state" where
  "gm_result s = zero_sync_state\<lparr>ss_State := ss_State s, ss_ClockClass := ss_ClockClass s,
     ss_ClockAccuracy := ss_ClockAccuracy s, ss_SourceLost := ss_SourceLost s,
     ss_LeadingIFace := ss_LeadingIFace s\<rparr>"

text \<open>\<open>updateState\<close>: the clock, the messages and the returned state.\<close>

definition gm_updateState :: "env \<Rightarrow> gm_clock \<Rightarrow> gm_clock \<times> effect list \<times> sync_state" where
  "gm_updateState e c =
     (let syncSrcLost = gm_isSourceLost (c_data c);
          lead = gm_getLeadingInterface (c_data c)
      in if lead = LEADING_INTERFACE_UNKNOWN
         then (c, [], zero_sync_state\<lparr>ss_LeadingIFace := lead\<rparr>)
         else
           (let s0 = (g_syncState c)\<lparr>ss_SourceLost := syncSrcLost, ss_LeadingIFace := lead\<rparr> in
            if c_data c = [] then
              (let s1 = (ss_freerun s0)\<lparr>ss_LastLoggedTime := e_now_s e\<rparr>
               in (c\<lparr>g_syncState := s1\<rparr>, [], s1))
            else
              (let i = gm_inputs_of (e_no_source_ts e) lead (c_data c);
                   s1 = gm_decide syncSrcLost i s0;
                   es1 = (if gi_gnss i \<noteq> g_gnssState c
                          then [SendIPC (new_message TypeGNSSState (c_cfgName c) lead
                                  (GNSSStateValue (PtpStateToIPCState (gi_gnss i))))] else []);
                   es2 = (if ss_State s1 \<noteq> ss_State s0 \<and> ss_State s0 \<noteq> PTP_NOTSET
                          then [SendIPC (new_message TypePTPState (c_cfgName c) lead
                                  (StateValue (PtpStateToIPCState (ss_State s1)) 0))] else []);
                   es3 = (if ss_ClockClass s1 \<noteq> ss_ClockClass s0 \<and>
                             ss_ClockClass s1 \<noteq> ClockClassUninitialized
                          then [SendIPC (new_message TypeClockClass (c_cfgName c) lead
                                  (ClockClassValue (ss_ClockClass s1)))] else [])
               in (c\<lparr>g_syncState := s1\<lparr>ss_LastLoggedTime := e_now_s e\<rparr>, g_gnssState := gi_gnss i\<rparr>,
                   es1 @ es2 @ es3, gm_result s1))))"

section \<open>Announcing the clock class\<close>

text \<open>\<open>ClockAccuracyFromOffset\<close>, in nanoseconds; the negation of the least int64 wraps to itself.\<close>

definition ClockAccuracyFromOffset :: "int \<Rightarrow> clock_accuracy" where
  "ClockAccuracyFromOffset off =
     (let n = (if off < 0 \<and> off \<noteq> - (2 ^ 63) then - off else off) in
      if n \<le> 25 then 0x20 else if n \<le> 100 then 0x21 else if n \<le> 250 then 0x22
      else if n \<le> 1000 then 0x23 else if n \<le> 2500 then 0x24 else if n \<le> 10000 then 0x25
      else if n \<le> 25000 then 0x26 else if n \<le> 100000 then 0x27 else if n \<le> 250000 then 0x28
      else if n \<le> 1000000 then 0x29 else if n \<le> 2500000 then 0x2A else if n \<le> 10000000 then 0x2B
      else if n \<le> 25000000 then 0x2C else if n \<le> 100000000 then 0x2D
      else if n \<le> 250000000 then 0x2E else if n \<le> 1000000000 then 0x2F
      else if n \<le> 10000000000 then 0x30 else 0x31)"

text \<open>The settings to write, per class; \<open>None\<close> when pmc already reports the class.\<close>

definition gm_quality ::
  "clock_class \<Rightarrow> clock_accuracy \<Rightarrow> u16 \<Rightarrow> bool \<Rightarrow> time_source \<Rightarrow> grandmaster_settings \<Rightarrow> grandmaster_settings" where
  "gm_quality cls acc var traceable src g =
     g\<lparr>gs_ClockQuality := \<lparr>cq_ClockClass = cls, cq_ClockAccuracy = acc, cq_OffsetScaledLogVariance = var\<rparr>,
       gs_TimePropertiesDS := (gs_TimePropertiesDS g)\<lparr>tp_TimeTraceable := traceable, tp_TimeSource := src\<rparr>\<rparr>"

datatype announce_plan = NoClass | Keep | Write grandmaster_settings

definition gm_plan :: "sync_state \<Rightarrow> grandmaster_settings \<Rightarrow> announce_plan" where
  "gm_plan s g =
     (let reported = cq_ClockClass (gs_ClockQuality g) in
      if ss_ClockClass s = ClockClass6 then
        (if reported \<noteq> ClockClass6 \<or> \<not> tp_TimeTraceable (gs_TimePropertiesDS g)
         then Write (gm_quality ClockClass6 ClockAccuracyNanosecond100 0x4e5d True TimeSourceGNSS g) else Keep)
      else if ss_ClockClass s = ClockClassOutOfSpec then
        (if reported \<noteq> ClockClassOutOfSpec
         then Write (gm_quality ClockClassOutOfSpec (ss_ClockAccuracy s) 0xffff False TimeSourceInternalOscillator g)
         else Keep)
      else if ss_ClockClass s = ClockClass7 then
        (if reported \<noteq> ClockClass7
         then Write (gm_quality ClockClass7 (ss_ClockAccuracy s) 0xffff True TimeSourceInternalOscillator g)
         else Keep)
      else if ss_ClockClass s = ClockClassFreerun then
        (if reported \<noteq> ClockClassFreerun
         then Write (gm_quality ClockClassFreerun ClockAccuracyUnknown 0xffff False TimeSourceInternalOscillator g)
         else Keep)
      else NoClass)"

definition gm_announceClockClass ::
  "env \<Rightarrow> gm_clock \<Rightarrow> gm_clock \<times> effect list \<times> (string + clock_class \<times> clock_accuracy)" where
  "gm_announceClockClass e c =
     (let pmcCfgName = replace_first (c_cfgName c) TS2PHC PTP4l in
      case e_pmc_get e pmcCfgName of
        Inl err \<Rightarrow> (c, [], Inl err)
      | Inr g0 \<Rightarrow>
          (let g = g0\<lparr>gs_TimePropertiesDS := (gs_TimePropertiesDS g0)
                 \<lparr>tp_PtpTimescale := True, tp_FrequencyTraceable := True,
                  tp_CurrentUtcOffsetValid := True, tp_CurrentUtcOffset := word_of_int (e_utc_offset e)\<rparr>\<rparr>;
               announced = (\<lambda>g. (c\<lparr>g_announcedClockClass := cq_ClockClass (gs_ClockQuality g),
                                   g_announcedClockAccuracy := cq_ClockAccuracy (gs_ClockQuality g)\<rparr>));
               ok = (\<lambda>g. Inr (cq_ClockClass (gs_ClockQuality g), cq_ClockAccuracy (gs_ClockQuality g)))
           in case gm_plan (g_syncState c) g of
                NoClass \<Rightarrow> (c, [], Inl ''no clock class identified'')
              | Keep \<Rightarrow> (announced g, [], ok g)
              | Write g' \<Rightarrow>
                  (case e_pmc_set e pmcCfgName g' of
                     Some err \<Rightarrow> (c, [PmcSetGM pmcCfgName g'], Inl err)
                   | None \<Rightarrow> (announced g', [PmcSetGM pmcCfgName g'], ok g'))))"

definition gm_announcedAccuracy :: "event \<Rightarrow> sync_state \<Rightarrow> clock_accuracy \<Rightarrow> clock_accuracy" where
  "gm_announcedAccuracy ev clockState acc =
     (case ev_Data ev of
        Some (DPLLData p) \<Rightarrow>
          if ev_Source ev = DPLL \<and>
             (ss_ClockClass clockState = ClockClass7 \<or> ss_ClockClass clockState = ClockClassOutOfSpec)
          then (case dp_Offset p of Some n \<Rightarrow> ClockAccuracyFromOffset n | None \<Rightarrow> acc)
          else acc
      | _ \<Rightarrow> acc)"

definition gm_announceIfChanged :: "env \<Rightarrow> event \<Rightarrow> sync_state \<Rightarrow> gm_clock \<Rightarrow> gm_clock \<times> effect list" where
  "gm_announceIfChanged e ev clockState c =
     (if ss_ClockClass clockState = ClockClassUninitialized then (c, [])
      else
        (let acc = gm_announcedAccuracy ev clockState (g_announcedClockAccuracy c);
             (c1, es) =
               (if ss_ClockClass clockState \<noteq> g_announcedClockClass c \<or> acc \<noteq> g_announcedClockAccuracy c
                then (let (c', es', r) = gm_announceClockClass e
                            (c\<lparr>g_syncState := (g_syncState c)\<lparr>ss_ClockAccuracy := acc\<rparr>\<rparr>)
                      in (c', es'))
                else (c, []))
         in (c1\<lparr>g_lastLoggedState := ss_State clockState\<rparr>, es)))"

section \<open>Events\<close>

definition gm_SystemClockUpdate :: "env \<Rightarrow> gm_clock \<Rightarrow> gm_clock \<times> effect list" where
  "gm_SystemClockUpdate e c =
     (let (o', es) = emitOverallSyncStateIfChanged (c_overall c) (ss_State (g_syncState c))
            (e_os_state e) (c_cfgName c)
      in (c\<lparr>c_overall := o'\<rparr>, es))"

text \<open>The NMEA status of the payload is cleared while the clock is not locked.\<close>

definition gm_clearNMEA :: "sync_state \<Rightarrow> event \<Rightarrow> event" where
  "gm_clearNMEA clockState ev =
     (if ss_State clockState \<noteq> PTP_LOCKED then
        (case ev_Data ev of
           Some (OffsetData p) \<Rightarrow>
             ev\<lparr>ev_Data := Some (OffsetData (p\<lparr>od_NMEALocked := map_option (\<lambda>_. False) (od_NMEALocked p)\<rparr>))\<rparr>
         | _ \<Rightarrow> ev)
      else ev)"

text \<open>\<open>AddEvent\<close>: the clock, the effects, the returned state and the event as it is left.\<close>

definition gm_AddEvent :: "env \<Rightarrow> event \<Rightarrow> gm_clock \<Rightarrow> gm_clock \<times> effect list \<times> sync_state \<times> event" where
  "gm_AddEvent e ev c =
     (if ev_Source ev = PMC then (c, [], g_syncState c, ev)
      else
        (let c1 = c\<lparr>c_data := record_event (e_now_s e) ev (c_data c)\<rparr>;
             (c2, es1, clockState) = gm_updateState e c1;
             (c3, es2) = gm_SystemClockUpdate e c2;
             (c4, es3) = gm_announceIfChanged e ev clockState c3
         in (c4, es1 @ es2 @ es3, clockState, gm_clearNMEA clockState ev)))"

definition gm_updateClockClass :: "clock_class \<Rightarrow> gm_clock \<Rightarrow> gm_clock \<times> effect list" where
  "gm_updateClockClass cls c =
     (if cls = ss_ClockClass (g_syncState c) then (c, [])
      else (c\<lparr>g_syncState := (g_syncState c)\<lparr>ss_ClockClass := cls\<rparr>\<rparr>,
            [SendIPC (new_message TypeClockClass (c_cfgName c) (ss_LeadingIFace (g_syncState c))
               (ClockClassValue cls))]))"

section \<open>The decision as a table\<close>

text \<open>
  The two tables in the comment of \<open>updateState\<close>, row by row: with a DPLL, and without one (no DPLL
  entry, NOTSET). \<open>Wait\<close> is "wait for DPLL to move to HOLDOVER", \<open>NoRow\<close> a combination of states that
  has no row. \<open>specLost\<close> tells FREERUN OUT OF SPEC from FREERUN, \<open>srcLost\<close> the rows marked SL.
\<close>

datatype gm_outcome = Outcome ptp_state clock_class | StateOnly ptp_state | Wait | NoRow

fun gm_table :: "bool \<Rightarrow> bool \<Rightarrow> ptp_state \<Rightarrow> ptp_state \<Rightarrow> ptp_state \<Rightarrow> gm_outcome" where
  "gm_table specLost srcLost PTP_FREERUN gnss ts =
     Outcome PTP_FREERUN (if specLost then ClockClassOutOfSpec else ClockClassFreerun)"
| "gm_table specLost srcLost PTP_HOLDOVER gnss ts = Outcome PTP_HOLDOVER ClockClass7"
| "gm_table specLost srcLost PTP_LOCKED PTP_LOCKED PTP_LOCKED = Outcome PTP_LOCKED ClockClass6"
| "gm_table specLost srcLost PTP_LOCKED PTP_LOCKED PTP_FREERUN = Outcome PTP_FREERUN ClockClassFreerun"
| "gm_table specLost srcLost PTP_LOCKED PTP_FREERUN PTP_LOCKED =
     (if srcLost then Wait else Outcome PTP_FREERUN ClockClassFreerun)"
| "gm_table specLost srcLost PTP_LOCKED PTP_FREERUN PTP_FREERUN =
     (if srcLost then Wait else Outcome PTP_FREERUN ClockClassFreerun)"
| "gm_table specLost srcLost PTP_NOTSET PTP_FREERUN PTP_LOCKED = Outcome PTP_FREERUN ClockClassFreerun"
| "gm_table specLost srcLost PTP_NOTSET PTP_FREERUN PTP_FREERUN = Outcome PTP_FREERUN ClockClassFreerun"
| "gm_table specLost srcLost PTP_NOTSET PTP_LOCKED PTP_FREERUN = Outcome PTP_FREERUN ClockClassFreerun"
| "gm_table specLost srcLost PTP_NOTSET PTP_LOCKED PTP_LOCKED = Outcome PTP_LOCKED ClockClass6"
| "gm_table specLost srcLost dpll gnss ts = NoRow"

text \<open>
  Where the code departs from the tables, all with the source lost and GNSS in FREERUN: with ts2phc in
  FREERUN only the state is set, and without a DPLL, where there is nothing to wait for, a locked
  ts2phc leaves state and class as they were.
\<close>

definition gm_departure :: "bool \<Rightarrow> ptp_state \<Rightarrow> ptp_state \<Rightarrow> ptp_state \<Rightarrow> gm_outcome option" where
  "gm_departure srcLost dpll gnss ts =
     (if \<not> srcLost \<or> gnss \<noteq> PTP_FREERUN then None
      else if (dpll = PTP_LOCKED \<or> dpll = PTP_NOTSET) \<and> ts = PTP_FREERUN then Some (StateOnly PTP_FREERUN)
      else if dpll = PTP_NOTSET \<and> ts = PTP_LOCKED then Some Wait
      else None)"

definition gm_meets :: "gm_outcome \<Rightarrow> sync_state \<Rightarrow> sync_state \<Rightarrow> bool" where
  "gm_meets out s s' =
     (case out of
        Outcome st cls \<Rightarrow> ss_State s' = st \<and> ss_ClockClass s' = cls
      | StateOnly st \<Rightarrow> ss_State s' = st \<and> ss_ClockClass s' = ss_ClockClass s
      | Wait \<Rightarrow> ss_State s' = ss_State s \<and> ss_ClockClass s' = ss_ClockClass s
      | NoRow \<Rightarrow> False)"

definition gm_expected :: "bool \<Rightarrow> bool \<Rightarrow> ptp_state \<Rightarrow> ptp_state \<Rightarrow> ptp_state \<Rightarrow> gm_outcome" where
  "gm_expected specLost srcLost dpll gnss ts =
     (case gm_departure srcLost dpll gnss ts of Some out \<Rightarrow> out | None \<Rightarrow> gm_table specLost srcLost dpll gnss ts)"

lemma gm_decide_table:
  assumes "gi_dpll i \<in> {PTP_FREERUN, PTP_HOLDOVER, PTP_LOCKED, PTP_NOTSET}"
    and "gi_gnss i \<in> {PTP_FREERUN, PTP_LOCKED}" and "gi_ts2phc i \<in> {PTP_FREERUN, PTP_LOCKED}"
  shows "gm_meets (gm_expected (gi_outOfSpec i \<and> gi_frequencyTraceable i) srcLost
      (gi_dpll i) (gi_gnss i) (gi_ts2phc i)) s (gm_decide srcLost i s)"
  using assms
  by (auto simp: gm_meets_def gm_decide_def gm_decide_good_def gm_expected_def gm_departure_def)

text \<open>The departures are real: the outcome of the code is not that of the row.\<close>

lemma gm_departures_differ:
  assumes "gm_departure srcLost dpll gnss ts = Some out"
  shows "\<exists>i s. gi_dpll i = dpll \<and> gi_gnss i = gnss \<and> gi_ts2phc i = ts \<and> gm_meets out s (gm_decide srcLost i s) \<and>
    \<not> gm_meets (gm_table (gi_outOfSpec i \<and> gi_frequencyTraceable i) srcLost dpll gnss ts) s (gm_decide srcLost i s)"
proof -
  let ?i = "\<lparr>gi_dpll = dpll, gi_gnss = gnss, gi_ts2phc = ts, gi_outOfSpec = False, gi_frequencyTraceable = False\<rparr>"
  let ?s = "zero_sync_state\<lparr>ss_State := PTP_LOCKED, ss_ClockClass := ClockClass6\<rparr>"
  have "gm_meets out ?s (gm_decide srcLost ?i ?s) \<and>
      \<not> gm_meets (gm_table False srcLost dpll gnss ts) ?s (gm_decide srcLost ?i ?s)"
    using assms by (auto simp: gm_departure_def gm_meets_def gm_decide_def gm_decide_good_def split: if_splits)
  then show ?thesis by (intro exI [of _ ?i] exI [of _ ?s]) simp
qed

text \<open>Without a DPLL a grandmaster that has lost its source stays LOCKED with class 6 while ts2phc is locked.\<close>

lemma gm_without_dpll_keeps_locked:
  assumes "gi_dpll i = PTP_NOTSET" "gi_gnss i = PTP_FREERUN" "gi_ts2phc i = PTP_LOCKED"
  shows "gm_decide True i s = s \<and> gm_table specLost True PTP_NOTSET PTP_FREERUN PTP_LOCKED = Outcome PTP_FREERUN ClockClassFreerun"
  using assms by (simp add: gm_decide_def gm_decide_good_def)

text \<open>LOCKED is only ever entered with class 6 on locked GNSS and ts2phc, or ts2phc alone.\<close>

lemma gm_decide_locked:
  assumes "ss_State (gm_decide srcLost i s) = PTP_LOCKED" "ss_State s \<noteq> PTP_LOCKED"
  shows "gi_ts2phc i = PTP_LOCKED \<and> gi_dpll i \<noteq> PTP_FREERUN \<and> gi_dpll i \<noteq> PTP_HOLDOVER \<and>
    gi_gnss i \<noteq> PTP_FREERUN"
  using assms
  by (auto simp: gm_decide_def gm_decide_good_def gm_decide_no_dpll_def Let_def
      split: ptp_state.splits if_splits)

section \<open>Messages\<close>

lemma gm_updateState_simps [simp]:
  "c_overall (fst (gm_updateState e c)) = c_overall c"
  "c_cfgName (fst (gm_updateState e c)) = c_cfgName c"
  "c_data (fst (gm_updateState e c)) = c_data c"
  "g_announcedClockClass (fst (gm_updateState e c)) = g_announcedClockClass c"
  "g_announcedClockAccuracy (fst (gm_updateState e c)) = g_announcedClockAccuracy c"
  by (simp_all add: gm_updateState_def Let_def)

lemma gm_updateState_view [simp]:
  "sync_view v (ipc_sent (fst (snd (gm_updateState e c)))) = v"
  by (simp add: gm_updateState_def Let_def)

lemma gm_announceClockClass_ipc [simp]:
  "ipc_sent (fst (snd (gm_announceClockClass e c))) = []"
  "c_overall (fst (gm_announceClockClass e c)) = c_overall c"
  "c_data (fst (gm_announceClockClass e c)) = c_data c"
  "g_syncState (fst (gm_announceClockClass e c)) = g_syncState c"
  by (simp_all add: gm_announceClockClass_def Let_def split: sum.split announce_plan.split option.split)

lemma gm_announceIfChanged_simps [simp]:
  "ipc_sent (snd (gm_announceIfChanged e ev s c)) = []"
  "c_overall (fst (gm_announceIfChanged e ev s c)) = c_overall c"
  "c_data (fst (gm_announceIfChanged e ev s c)) = c_data c"
  "ss_State (g_syncState (fst (gm_announceIfChanged e ev s c))) = ss_State (g_syncState c)"
  "ss_ClockClass (g_syncState (fst (gm_announceIfChanged e ev s c))) = ss_ClockClass (g_syncState c)"
  by (simp_all add: gm_announceIfChanged_def Let_def split_beta)

lemma gm_SystemClockUpdate_simps [simp]:
  "c_overall (fst (gm_SystemClockUpdate e c)) =
   WorstOfState (ss_State (g_syncState c)) (e_os_state e)"
  "g_syncState (fst (gm_SystemClockUpdate e c)) = g_syncState c"
  "c_data (fst (gm_SystemClockUpdate e c)) = c_data c"
  "c_cfgName (fst (gm_SystemClockUpdate e c)) = c_cfgName c"
  by (simp_all add: gm_SystemClockUpdate_def split_beta)

lemma gm_SystemClockUpdate_view:
  "c_overall c = ov \<Longrightarrow> sync_view (PtpStateToIPCState ov) (ipc_sent (snd (gm_SystemClockUpdate e c))) =
   PtpStateToIPCState (WorstOfState (ss_State (g_syncState c)) (e_os_state e))"
  by (simp add: gm_SystemClockUpdate_def split_beta)

fun gm_op :: "clock_op \<Rightarrow> gm_clock \<Rightarrow> (gm_clock \<times> effect list) option" where
  "gm_op (ClockEvent e ev) c = Some (case gm_AddEvent e ev c of (c', es, _) \<Rightarrow> (c', es))"
| "gm_op (ClockOsUpdate e) c = Some (gm_SystemClockUpdate e c)"

lemma gm_AddEvent_view:
  assumes "gm_AddEvent e ev c = (c', es, r)"
  shows "sync_view (PtpStateToIPCState (c_overall c)) (ipc_sent es) = PtpStateToIPCState (c_overall c')"
proof (cases "ev_Source ev = PMC")
  case True
  with assms show ?thesis by (simp add: gm_AddEvent_def)
next
  case False
  with assms show ?thesis
    by (auto simp: gm_AddEvent_def Let_def split_beta gm_SystemClockUpdate_view)
qed

interpretation gm_rep: state_reporter gm_op "\<lambda>s. PtpStateToIPCState (c_overall s)" sync_view
proof (unfold_locales, goal_cases)
  case (1 v)
  show ?case by simp
next
  case (2 v xs ys)
  show ?case by simp
next
  case (3 x s s' es)
  note * = 3
  show "sync_view (PtpStateToIPCState (c_overall s)) (ipc_sent es) = PtpStateToIPCState (c_overall s')"
  proof (cases x)
    case (ClockEvent e ev)
    with * show ?thesis by (auto intro: gm_AddEvent_view split: prod.splits)
  next
    case (ClockOsUpdate e)
    with * have "s' = fst (gm_SystemClockUpdate e s)" "es = snd (gm_SystemClockUpdate e s)" by auto
    then show ?thesis by (simp add: gm_SystemClockUpdate_view)
  qed
qed

section \<open>What is written to ptp4l\<close>

text \<open>The settings a plan writes carry the class of the state, and class 6 or 7 means traceable time.\<close>

lemma gm_plan_write:
  assumes "gm_plan s g = Write g'"
  shows "cq_ClockClass (gs_ClockQuality g') = ss_ClockClass s"
    and "tp_TimeTraceable (gs_TimePropertiesDS g') \<longleftrightarrow>
         ss_ClockClass s = ClockClass6 \<or> ss_ClockClass s = ClockClass7"
    and "tp_PtpTimescale (gs_TimePropertiesDS g') = tp_PtpTimescale (gs_TimePropertiesDS g)"
    and "tp_CurrentUtcOffset (gs_TimePropertiesDS g') = tp_CurrentUtcOffset (gs_TimePropertiesDS g)"
    and "(tp_TimeSource (gs_TimePropertiesDS g') = TimeSourceGNSS) = (ss_ClockClass s = ClockClass6)"
  using assms by (auto simp: gm_plan_def gm_quality_def Let_def split: if_splits)

lemma gm_plan_keep:
  "gm_plan s g = Keep \<Longrightarrow> cq_ClockClass (gs_ClockQuality g) = ss_ClockClass s"
  by (auto simp: gm_plan_def Let_def split: if_splits)

lemma gm_announceClockClass_result:
  assumes "gm_announceClockClass e c = (c', es, r)"
  shows "(case r of Inl err \<Rightarrow> c' = c
          | Inr (cls, acc) \<Rightarrow> cls = ss_ClockClass (g_syncState c) \<and>
              g_announcedClockClass c' = cls \<and> g_announcedClockAccuracy c' = acc) \<and>
    (\<forall>cfg g. PmcSetGM cfg g \<in> set es \<longrightarrow>
       cq_ClockClass (gs_ClockQuality g) = ss_ClockClass (g_syncState c) \<and>
       tp_CurrentUtcOffset (gs_TimePropertiesDS g) = word_of_int (e_utc_offset e) \<and>
       (tp_TimeTraceable (gs_TimePropertiesDS g) \<longleftrightarrow>
          ss_ClockClass (g_syncState c) = ClockClass6 \<or> ss_ClockClass (g_syncState c) = ClockClass7))"
  using assms
  by (auto simp: gm_announceClockClass_def Let_def gm_plan_write dest!: gm_plan_keep
      split: sum.splits announce_plan.splits option.splits)

section \<open>Examples\<close>

definition detail_of :: "string \<Rightarrow> ptp_state \<Rightarrow> data_details" where
  "detail_of iface st =
     \<lparr>dt_IFace = iface, dt_State = st, dt_ClockType = GM, dt_Time = 0, dt_LogData = '''',
      dt_SignalSource = '''', dt_SourceLost = False, dt_Offset = 0, dt_HasOffset = False,
      dt_ProcessStatus = 0, dt_HasProcessStatus = False, dt_OutOfSpec = False,
      dt_FrequencyTraceable = False\<rparr>"

definition source_of :: "event_source \<Rightarrow> ptp_state \<Rightarrow> data" where
  "source_of src st = \<lparr>d_ProcessName = src, d_Details = [detail_of ''eth0'' st], d_State = st,
     d_LogData = '''', d_Window = None\<rparr>"

definition sample_env :: env where
  "sample_env = \<lparr>e_now_ms = 5000, e_now_s = 5, e_os_state = PTP_LOCKED, e_utc_offset = 37,
     e_no_source_ts = 0,
     e_pmc_get = (\<lambda>cfg. Inr \<lparr>gs_ClockQuality = \<lparr>cq_ClockClass = 248, cq_ClockAccuracy = 0xFE,
         cq_OffsetScaledLogVariance = 0xffff\<rparr>, gs_TimePropertiesDS = zero_time_properties\<rparr>),
     e_pmc_set = (\<lambda>cfg g. None)\<rparr>"

definition sample_gm :: gm_clock where
  "sample_gm = (the (NewGM ''ts2phc.0.config'' True))
     \<lparr>c_data := [source_of GNSS PTP_LOCKED, source_of DPLL PTP_LOCKED, source_of TS2PHC PTP_LOCKED]\<rparr>"

lemmas sample_gm_simps = sample_gm_def source_of_def detail_of_def NewGM_def newBaseClock_def
  base_clock.defs gm_isSourceLost_def gm_inputs_of_def gm_input_of_def GetDataDetails_def
  hasNonLeadingDPLLFault_def sample_env_def

section \<open>Properties\<close>

text \<open>
  C14. The grandmaster follows its decision table: when the three sources report FREERUN, HOLDOVER or
  LOCKED (no DPLL entry counting as NOTSET), the state and clock class after an evaluation are those
  of the two tables in the comment of \<open>updateState\<close>, where "wait for DPLL" leaves both as they were. There
  are three exceptions (\<open>gm_departure\<close>), all with the source lost and GNSS in FREERUN: with ts2phc in
  FREERUN and a locked DPLL the code does not wait but sets the state to FREERUN and keeps the class;
  the same without a DPLL, where the table says FREERUN with 248; and with ts2phc LOCKED and no DPLL
  it keeps state and class, where the table says FREERUN with 248.
\<close>

theorem gm_follows_table:
  assumes "gm_getLeadingInterface (c_data c) \<noteq> LEADING_INTERFACE_UNKNOWN" "c_data c \<noteq> []"
    and "i = gm_inputs_of (e_no_source_ts e) (gm_getLeadingInterface (c_data c)) (c_data c)"
    and "gi_dpll i \<in> {PTP_FREERUN, PTP_HOLDOVER, PTP_LOCKED, PTP_NOTSET}"
    and "gi_gnss i \<in> {PTP_FREERUN, PTP_LOCKED}" "gi_ts2phc i \<in> {PTP_FREERUN, PTP_LOCKED}"
  shows "gm_meets (gm_expected (gi_outOfSpec i \<and> gi_frequencyTraceable i) (gm_isSourceLost (c_data c))
      (gi_dpll i) (gi_gnss i) (gi_ts2phc i)) (g_syncState c) (g_syncState (fst (gm_updateState e c)))"
proof -
  let ?s0 = "(g_syncState c)\<lparr>ss_SourceLost := gm_isSourceLost (c_data c),
    ss_LeadingIFace := gm_getLeadingInterface (c_data c)\<rparr>"
  let ?s1 = "gm_decide (gm_isSourceLost (c_data c)) i ?s0"
  have "gm_meets (gm_expected (gi_outOfSpec i \<and> gi_frequencyTraceable i) (gm_isSourceLost (c_data c))
      (gi_dpll i) (gi_gnss i) (gi_ts2phc i)) ?s0 ?s1"
    by (rule gm_decide_table [OF assms(4-6)])
  moreover have "g_syncState (fst (gm_updateState e c)) = ?s1\<lparr>ss_LastLoggedTime := e_now_s e\<rparr>"
    using assms(1-3) by (simp add: gm_updateState_def Let_def)
  ultimately show ?thesis by (simp add: gm_meets_def split: gm_outcome.splits)
qed

theorem gm_follows_table_witness:
  "gm_meets (Outcome PTP_LOCKED ClockClass6) (g_syncState sample_gm)
     (g_syncState (fst (gm_updateState sample_env sample_gm)))"
  using gm_follows_table [OF _ _ refl, of sample_gm sample_env]
  by (simp add: sample_gm_simps gm_expected_def gm_departure_def)

text \<open>
  The grandmaster becomes LOCKED only on good sources: when an evaluation enters LOCKED, ts2phc
  is LOCKED, GNSS is not in FREERUN, and the DPLL is neither in FREERUN nor in HOLDOVER (which
  includes a fault of a non-leading DPLL).
\<close>

lemma gm_locks_on_good_sources:
  assumes "ss_State (g_syncState (fst (gm_updateState e c))) = PTP_LOCKED"
    and "ss_State (g_syncState c) \<noteq> PTP_LOCKED"
    and "i = gm_inputs_of (e_no_source_ts e) (gm_getLeadingInterface (c_data c)) (c_data c)"
  shows "gi_ts2phc i = PTP_LOCKED \<and> gi_gnss i \<noteq> PTP_FREERUN \<and>
    gi_dpll i \<notin> {PTP_FREERUN, PTP_HOLDOVER}"
proof -
  let ?s0 = "(g_syncState c)\<lparr>ss_SourceLost := gm_isSourceLost (c_data c),
    ss_LeadingIFace := gm_getLeadingInterface (c_data c)\<rparr>"
  have "ss_State (gm_decide (gm_isSourceLost (c_data c)) i ?s0) = PTP_LOCKED"
    using assms by (auto simp: gm_updateState_def Let_def split: if_splits)
  with assms(2) gm_decide_locked [of "gm_isSourceLost (c_data c)" i ?s0] show ?thesis by simp
qed

text \<open>
  What the grandmaster has pmc write always carries the class of its state and the UTC offset of
  the leap-second file, and declares the time traceable exactly for the classes 6 and 7.
\<close>

lemma gm_announces_its_class:
  assumes "PmcSetGM cfg g \<in> set (fst (snd (gm_announceClockClass e c)))"
  shows "cq_ClockClass (gs_ClockQuality g) = ss_ClockClass (g_syncState c) \<and>
    tp_CurrentUtcOffset (gs_TimePropertiesDS g) = word_of_int (e_utc_offset e) \<and>
    (tp_TimeTraceable (gs_TimePropertiesDS g) \<longleftrightarrow>
       ss_ClockClass (g_syncState c) = ClockClass6 \<or> ss_ClockClass (g_syncState c) = ClockClass7)"
proof -
  obtain c' es r where r: "gm_announceClockClass e c = (c', es, r)"
    by (cases "gm_announceClockClass e c") auto
  from gm_announceClockClass_result [OF r] assms r show ?thesis by auto
qed

text \<open>
  What the grandmaster remembers as announced is true: after an announcement the remembered
  class and accuracy are those returned by it, and a failed one changes nothing.
\<close>

lemma gm_remembers_announcement:
  "(case snd (snd (gm_announceClockClass e c)) of
      Inl err \<Rightarrow> fst (gm_announceClockClass e c) = c
    | Inr (cls, acc) \<Rightarrow> cls = ss_ClockClass (g_syncState c) \<and>
        fst (gm_announceClockClass e c) = c\<lparr>g_announcedClockClass := cls, g_announcedClockAccuracy := acc\<rparr>)"
  by (auto simp: gm_announceClockClass_def Let_def gm_plan_write dest!: gm_plan_keep
      split: sum.splits announce_plan.splits option.splits)

text \<open>
  An evaluation publishes the grandmaster's own state exactly when it changes, with one
  exception: the first change, out of NOTSET, is never published.
\<close>

lemma gm_publishes_state_changes:
  "filter (\<lambda>m. m_Type m = TypePTPState) (ipc_sent (fst (snd (gm_updateState e c)))) =
   (if ss_State (g_syncState (fst (gm_updateState e c))) = ss_State (g_syncState c) \<or>
       ss_State (g_syncState c) = PTP_NOTSET \<or> c_data c = []
    then []
    else [new_message TypePTPState (c_cfgName c) (gm_getLeadingInterface (c_data c))
        (StateValue (PtpStateToIPCState (ss_State (g_syncState (fst (gm_updateState e c))))) 0)])"
  by (simp add: gm_updateState_def Let_def)

text \<open>
  After a reset the grandmaster reports LOCKED before it has looked at a single source: its
  state is the empty string, which \<open>WorstOfState\<close> does not recognise, so the next LOCKED OS clock
  makes the overall state LOCKED and publishes it.
\<close>

lemma gm_reset_reports_locked:
  "let c1 = fst (gm_Reset c oc); (c2, es) = gm_SystemClockUpdate (e\<lparr>e_os_state := PTP_LOCKED\<rparr>) c1 in
   c_data c1 = [] \<and> c_overall c2 = PTP_LOCKED \<and>
   es = [SendIPC (new_message TypeSyncState (c_cfgName c) '''' (SyncStateValue StateLocked))]"
  by (simp add: gm_Reset_def base_Reset_def gm_SystemClockUpdate_def emitOverallSyncStateIfChanged_def
      WorstOfState_def zero_sync_state_def Let_def)

end
