(* ===== verification/TbcClock.thy ===== *)
theory TbcClock
  imports GmClock
begin

text \<open>
  \<open>pkg/clock/tbc.go\<close>: the telecom boundary clock. Its state machine reads the statistics of the
  DPLLs, ptp4l and ts2phc, and it announces its data downstream through pmc. \<open>announceSeq\<close>, the
  process-wide token counter, is passed in and out as a 64-bit word. A fetch of upstream data runs
  in a goroutine (\<open>FetchUpstream\<close>) and comes back as an event; the goroutines that only write
  through pmc are the effects \<open>PmcSetGM\<close> and \<open>PmcSetExternalGM\<close>. The pointers to the data sets are
  never nil and never mutated through, so they are plain values.
\<close>

section \<open>State\<close>

abbreviation FaultyPhaseOffset :: int where "FaultyPhaseOffset \<equiv> 99999999999"
abbreviation StaleEventAfter :: int where "StaleEventAfter \<equiv> 2000"

record leading_params =
  lp_upstreamTimeProperties :: time_properties_ds
  lp_upstreamParentDataSet :: parent_data_set
  lp_upstreamStepsRemoved :: u16
  lp_downstreamTimeProperties :: time_properties_ds
  lp_downstreamParentDataSet :: parent_data_set
  lp_leadingInterface :: string
  lp_controlledPortsConfig :: string
  lp_inSyncConditionThreshold :: int
  lp_inSyncConditionTimes :: int
  lp_toFreeRunThreshold :: int
  lp_MaxInSpecOffset :: u64
  lp_holdoverDisabled :: bool
  lp_lastInSpec :: bool
  lp_inSyncFilter :: hysteresis_filter
  lp_clockID :: string

definition newLeadingClockParams :: leading_params where
  "newLeadingClockParams =
     \<lparr>lp_upstreamTimeProperties = zero_time_properties, lp_upstreamParentDataSet = zero_parent_data_set,
      lp_upstreamStepsRemoved = 0, lp_downstreamTimeProperties = zero_time_properties,
      lp_downstreamParentDataSet = zero_parent_data_set, lp_leadingInterface = '''',
      lp_controlledPortsConfig = '''', lp_inSyncConditionThreshold = 0, lp_inSyncConditionTimes = 0,
      lp_toFreeRunThreshold = 0, lp_MaxInSpecOffset = 0, lp_holdoverDisabled = False,
      lp_lastInSpec = False, lp_inSyncFilter = hf_zero, lp_clockID = ''''\<rparr>"

record tbc_clock = base_clock +
  t_syncState :: sync_state
  t_leading :: leading_params
  t_configuredLeadingInterface :: string
  t_announceToken :: u64

definition nextAnnounceToken :: "u64 \<Rightarrow> u64" where
  "nextAnnounceToken seq = seq + 1"

definition tbc_start_state :: sync_state where
  "tbc_start_state = zero_sync_state\<lparr>ss_State := PTP_NOTSET,
     ss_ClockClass := ClockClassUninitialized, ss_ClockAccuracy := ClockAccuracyUnknown\<rparr>"

text \<open>\<open>NewTBC\<close>, with the counter; \<open>None\<close> is the error for a missing pmc client.\<close>

definition NewTBC :: "string \<Rightarrow> bool \<Rightarrow> u64 \<Rightarrow> (tbc_clock \<times> u64) option" where
  "NewTBC cfgName hasClient seq =
     (if \<not> hasClient then None
      else (let token = nextAnnounceToken seq in
        Some (base_clock.extend (newBaseClock cfgName
             \<lparr>th_MaxOffsetThreshold = 0, th_MinOffsetThreshold = 0, th_HoldOverTimeout = 0\<rparr>)
           \<lparr>t_syncState = tbc_start_state, t_leading = newLeadingClockParams,
            t_configuredLeadingInterface = '''', t_announceToken = token\<rparr>, token)))"

definition tbc_Reset :: "tbc_clock \<Rightarrow> os_clock \<Rightarrow> u64 \<Rightarrow> tbc_clock \<times> os_clock \<times> u64" where
  "tbc_Reset c oc seq =
     (let (c1, oc') = base_Reset c oc; token = nextAnnounceToken seq
      in (c1\<lparr>t_leading := newLeadingClockParams, t_syncState := tbc_start_state,
             c_overall := PTP_FREERUN, c_data := [], t_announceToken := token\<rparr>, oc', token))"

definition SetConfiguredLeadingInterface :: "string \<Rightarrow> tbc_clock \<Rightarrow> tbc_clock" where
  "SetConfiguredLeadingInterface iface c = c\<lparr>t_configuredLeadingInterface := iface\<rparr>"

definition tbc_getLeadingInterface :: "tbc_clock \<Rightarrow> string" where
  "tbc_getLeadingInterface c =
     (if lp_leadingInterface (t_leading c) \<noteq> '''' then lp_leadingInterface (t_leading c)
      else if t_configuredLeadingInterface c \<noteq> '''' then t_configuredLeadingInterface c
      else LEADING_INTERFACE_UNKNOWN)"

section \<open>Conditions over the statistics\<close>

text \<open>\<open>math.Abs(float64(n)) > x\<close>.\<close>

definition abs_exceeds :: "int \<Rightarrow> f64 \<Rightarrow> bool" where
  "abs_exceeds n x \<longleftrightarrow> f64_lt x (f64_abs (f64_of_int n))"

definition initInSyncFilter :: "leading_params \<Rightarrow> leading_params" where
  "initInSyncFilter l =
     (if hf_inSyncSamplesRequired (lp_inSyncFilter l) \<noteq> 0 then l
      else l\<lparr>lp_inSyncFilter := hf_Config
             (f64_of_int (lp_inSyncConditionThreshold l)) (f64_of_int (lp_inSyncConditionThreshold l))
             (max (lp_inSyncConditionTimes l) 1) 1 (lp_inSyncFilter l)\<rparr>)"

text \<open>\<open>getLargestOffset\<close>: \<open>worst\<close> is the variable of the loops.\<close>

definition worst_ts2phc :: "int \<Rightarrow> data_details \<Rightarrow> int \<Rightarrow> int" where
  "worst_ts2phc staleTime dd worst =
     (if dt_Time dd < staleTime then worst
      else if worst = FaultyPhaseOffset \<or> abs_exceeds (dt_Offset dd) (f64_abs (f64_of_int worst))
      then dt_Offset dd else worst)"

definition worst_windowed :: "string \<Rightarrow> int \<Rightarrow> window \<Rightarrow> data_details \<Rightarrow> int \<Rightarrow> int" where
  "worst_windowed lead staleTime w dd worst =
     (if dt_Time dd < staleTime then worst
      else if worst = FaultyPhaseOffset then
        (if dt_IFace dd = lead then f64_to_int64 (w_Mean w) else dt_Offset dd)
      else if abs_exceeds (dt_Offset dd) (f64_abs (f64_of_int worst)) then dt_Offset dd else worst)"

fun largest_offset :: "string \<Rightarrow> int \<Rightarrow> data list \<Rightarrow> int \<Rightarrow> int" where
  "largest_offset lead staleTime [] worst = worst"
| "largest_offset lead staleTime (d # ds) worst =
     (if d_ProcessName d = TS2PHC
      then largest_offset lead staleTime ds (fold (worst_ts2phc staleTime) (d_Details d) worst)
      else (case d_Window d of
              None \<Rightarrow> largest_offset lead staleTime ds worst
            | Some w \<Rightarrow>
                if w_IsEmpty w then largest_offset lead staleTime ds worst
                else if \<not> w_IsFull w then FaultyPhaseOffset
                else largest_offset lead staleTime ds
                       (fold (worst_windowed lead staleTime w) (d_Details d) worst)))"

definition tbc_getLargestOffset :: "env \<Rightarrow> tbc_clock \<Rightarrow> int" where
  "tbc_getLargestOffset e c =
     largest_offset (ss_LeadingIFace (t_syncState c)) (e_now_ms e - StaleEventAfter) (c_data c)
       FaultyPhaseOffset"

text \<open>\<open>inSyncCondition\<close> feeds the filter.\<close>

definition tbc_inSyncCondition :: "env \<Rightarrow> tbc_clock \<Rightarrow> tbc_clock \<times> bool" where
  "tbc_inSyncCondition e c =
     (if lp_inSyncConditionThreshold (t_leading c) = 0 then (c, False)
      else (let (f, st, _) = hf_Update (f64_of_int (tbc_getLargestOffset e c)) (lp_inSyncFilter (t_leading c))
            in (c\<lparr>t_leading := (t_leading c)\<lparr>lp_inSyncFilter := f\<rparr>\<rparr>, st = HysteresisLow)))"

definition tbc_isSourceLost :: "data list \<Rightarrow> bool" where
  "tbc_isSourceLost ds =
     (let ptpLost = \<not> list_ex (\<lambda>d. d_ProcessName d = PTP4l \<and>
              list_ex (\<lambda>dd. dt_State dd = PTP_LOCKED) (d_Details d)) ds;
          dpllLost = list_ex (\<lambda>d. d_ProcessName d = DPLL \<and>
              list_ex (\<lambda>dd. dt_State dd \<noteq> PTP_LOCKED) (d_Details d)) ds
      in ptpLost \<or> dpllLost)"

definition tbc_holdoverOffset :: "data list \<Rightarrow> int" where
  "tbc_holdoverOffset ds =
     (case find (\<lambda>d. d_ProcessName d = DPLL \<and> d_Window d \<noteq> None) ds of
        Some d \<Rightarrow> (case d_Window d of Some w \<Rightarrow> f64_to_int64 (w_LastInserted w) | None \<Rightarrow> FaultyPhaseOffset)
      | None \<Rightarrow> FaultyPhaseOffset)"

definition freeRun_entry :: "string \<Rightarrow> f64 \<Rightarrow> data \<Rightarrow> bool" where
  "freeRun_entry lead th d =
     (if d_ProcessName d = DPLL then
        list_ex (\<lambda>dd. dt_IFace dd = lead \<and> abs_exceeds (dt_Offset dd) th) (d_Details d)
      else if d_ProcessName d = PTP4l then
        (case d_Window d of None \<Rightarrow> False
         | Some w \<Rightarrow> \<not> w_IsEmpty w \<and> abs_exceeds (f64_to_int64 (w_Mean w)) th)
      else if d_ProcessName d = TS2PHC then
        list_ex (\<lambda>dd. dt_State dd = PTP_FREERUN) (d_Details d)
      else False)"

definition tbc_freeRunCondition :: "tbc_clock \<Rightarrow> bool" where
  "tbc_freeRunCondition c =
     (if lp_toFreeRunThreshold (t_leading c) = 0 then True
      else list_ex (freeRun_entry (ss_LeadingIFace (t_syncState c))
             (f64_of_int (lp_toFreeRunThreshold (t_leading c)))) (c_data c))"

definition tbc_inSpecCondition :: "tbc_clock \<Rightarrow> bool" where
  "tbc_inSpecCondition c =
     (if lp_MaxInSpecOffset (t_leading c) = 0 then False
      else \<not> list_ex (\<lambda>d. d_ProcessName d = DPLL \<and>
             list_ex (\<lambda>dd. dt_IFace dd = ss_LeadingIFace (t_syncState c) \<and>
                 abs_exceeds (dt_Offset dd) (f64_of_int (uint (lp_MaxInSpecOffset (t_leading c)))))
               (d_Details d)) (c_data c))"

section \<open>The state machine\<close>

abbreviation t_set :: "(sync_state \<Rightarrow> sync_state) \<Rightarrow> tbc_clock \<Rightarrow> tbc_clock" where
  "t_set f c \<equiv> c\<lparr>t_syncState := f (t_syncState c)\<rparr>"

abbreviation l_set :: "(leading_params \<Rightarrow> leading_params) \<Rightarrow> tbc_clock \<Rightarrow> tbc_clock" where
  "l_set f c \<equiv> c\<lparr>t_leading := f (t_leading c)\<rparr>"

definition tbc_isTTSC :: "tbc_clock \<Rightarrow> bool" where
  "tbc_isTTSC c \<longleftrightarrow>
     lp_clockID (t_leading c) \<noteq> '''' \<and> lp_controlledPortsConfig (t_leading c) = ''''"

text \<open>Each case returns the clock and \<open>updateDownstreamData\<close>.\<close>

definition tbc_from_freerun :: "env \<Rightarrow> tbc_clock \<Rightarrow> tbc_clock \<times> bool" where
  "tbc_from_freerun e c =
     (if tbc_freeRunCondition c \<or> tbc_isSourceLost (c_data c) then (c, False)
      else (let (c1, inSync) = tbc_inSyncCondition e c in
            if inSync
            then (l_set (\<lambda>l. l\<lparr>lp_lastInSpec := True\<rparr>) (t_set (\<lambda>s. s\<lparr>ss_State := PTP_LOCKED\<rparr>) c1), True)
            else (c1, False)))"

text \<open>LOCKED with a healthy source: propagate upstream changes.\<close>

definition tbc_stay_locked :: "bool \<Rightarrow> tbc_clock \<Rightarrow> tbc_clock \<times> bool" where
  "tbc_stay_locked isTTSC c =
     (let l = t_leading c;
          tpDiff = (lp_upstreamTimeProperties l \<noteq> lp_downstreamTimeProperties l);
          l1 = (if tpDiff then l\<lparr>lp_downstreamTimeProperties := lp_upstreamTimeProperties l\<rparr> else l);
          pdsDiff = (lp_upstreamParentDataSet l1 \<noteq> lp_downstreamParentDataSet l1);
          l2 = (if pdsDiff then l1\<lparr>lp_downstreamParentDataSet := lp_upstreamParentDataSet l1\<rparr> else l1);
          c1 = c\<lparr>t_leading := l2\<rparr>;
          upClass = pds_GrandmasterClockClass (lp_upstreamParentDataSet l2);
          upAcc = pds_GrandmasterClockAccuracy (lp_upstreamParentDataSet l2)
      in if upClass = ClockClassFreerun then (c1, False)
         else if \<not> isTTSC then
           (t_set (\<lambda>s. s\<lparr>ss_ClockClass := upClass, ss_ClockAccuracy := upAcc\<rparr>) c1, tpDiff \<or> pdsDiff)
         else (c1, tpDiff \<or> pdsDiff))"

definition tbc_from_locked :: "bool \<Rightarrow> tbc_clock \<Rightarrow> tbc_clock \<times> bool" where
  "tbc_from_locked isTTSC c =
     (let freerun = t_set (\<lambda>s. s\<lparr>ss_State := PTP_FREERUN, ss_ClockClass := ClockClassFreerun\<rparr>) in
      if tbc_freeRunCondition c \<or> hasNonLeadingDPLLFault (ss_LeadingIFace (t_syncState c)) (c_data c)
      then (freerun c, True)
      else if tbc_isSourceLost (c_data c) then
        (if lp_holdoverDisabled (t_leading c) then (freerun c, True)
         else (l_set (\<lambda>l. l\<lparr>lp_lastInSpec := True\<rparr>)
                 (t_set (\<lambda>s. s\<lparr>ss_State := PTP_HOLDOVER, ss_ClockClass := 135\<rparr>) c), True))
      else tbc_stay_locked isTTSC c)"

definition tbc_stay_holdover :: "tbc_clock \<Rightarrow> tbc_clock \<times> bool" where
  "tbc_stay_holdover c =
     (let inSpec = (if lp_lastInSpec (t_leading c) then tbc_inSpecCondition c else False) in
      if lp_lastInSpec (t_leading c) \<noteq> inSpec then
        (let c1 = l_set (\<lambda>l. l\<lparr>lp_lastInSpec := inSpec\<rparr>) c;
             cls = (if inSpec then 135 else 165)
         in if ss_ClockClass (t_syncState c1) \<noteq> cls
            then (t_set (\<lambda>s. s\<lparr>ss_ClockClass := cls\<rparr>) c1, True) else (c1, False))
      else (c, False))"

definition tbc_from_holdover :: "env \<Rightarrow> tbc_clock \<Rightarrow> tbc_clock \<times> bool" where
  "tbc_from_holdover e c =
     (if hasNonLeadingDPLLFault (ss_LeadingIFace (t_syncState c)) (c_data c) \<or> tbc_freeRunCondition c
      then (t_set (\<lambda>s. s\<lparr>ss_State := PTP_FREERUN, ss_ClockClass := ClockClassFreerun\<rparr>) c, True)
      else (let (c1, inSync) = tbc_inSyncCondition e c in
            if inSync \<and> \<not> tbc_isSourceLost (c_data c1)
            then (t_set (\<lambda>s. s\<lparr>ss_State := PTP_LOCKED\<rparr>) c1, True)
            else tbc_stay_holdover c1))"

definition tbc_switch :: "env \<Rightarrow> bool \<Rightarrow> tbc_clock \<Rightarrow> tbc_clock \<times> bool" where
  "tbc_switch e isTTSC c =
     (case ss_State (t_syncState c) of
        PTP_NOTSET \<Rightarrow> tbc_from_freerun e c
      | PTP_FREERUN \<Rightarrow> tbc_from_freerun e c
      | PTP_LOCKED \<Rightarrow> tbc_from_locked isTTSC c
      | PTP_HOLDOVER \<Rightarrow> tbc_from_holdover e c
      | _ \<Rightarrow> (c, False))"

text \<open>After the switch: accuracy, offset, and the class of a T-TSC.\<close>

definition tbc_finish :: "env \<Rightarrow> bool \<Rightarrow> tbc_clock \<Rightarrow> tbc_clock" where
  "tbc_finish e isTTSC c =
     (let st = ss_State (t_syncState c);
          c1 = (if st \<noteq> PTP_LOCKED then t_set (\<lambda>s. s\<lparr>ss_ClockAccuracy := ClockAccuracyUnknown\<rparr>) c else c);
          off = (case st of PTP_FREERUN \<Rightarrow> FaultyPhaseOffset
                 | PTP_HOLDOVER \<Rightarrow> tbc_holdoverOffset (c_data c1)
                 | _ \<Rightarrow> tbc_getLargestOffset e c1);
          c2 = t_set (\<lambda>s. s\<lparr>ss_ClockOffset := off\<rparr>) c1;
          c3 = (if isTTSC then t_set (\<lambda>s. s\<lparr>ss_ClockClass := ClockClassSlaveOnly\<rparr>) c2 else c2)
      in t_set (\<lambda>s. s\<lparr>ss_LastLoggedTime := e_now_s e\<rparr>) c3)"

text \<open>\<open>updateState\<close>: the clock and whether downstream needs an update.\<close>

definition tbc_updateState :: "env \<Rightarrow> tbc_clock \<Rightarrow> tbc_clock \<times> bool" where
  "tbc_updateState e c =
     (let lead = tbc_getLeadingInterface c in
      if lead = LEADING_INTERFACE_UNKNOWN then (t_set (\<lambda>s. s\<lparr>ss_LeadingIFace := lead\<rparr>) c, False)
      else
        (let c1 = t_set (\<lambda>s. s\<lparr>ss_SourceLost := False, ss_LeadingIFace := lead\<rparr>) c in
         if c_data c1 = [] then
           (t_set (\<lambda>s. (ss_freerun s)\<lparr>ss_LastLoggedTime := e_now_s e\<rparr>) c1, False)
         else
           (let isTTSC = tbc_isTTSC c1;
                (c2, upd) = tbc_switch e isTTSC c1;
                c3 = tbc_finish e isTTSC c2
            in (c3, upd \<and> ss_ClockClass (t_syncState c3) \<noteq> ClockClassUninitialized \<and> \<not> isTTSC))))"

section \<open>Announcing downstream\<close>

definition tbc_local_settings :: "env \<Rightarrow> clock_class \<Rightarrow> time_properties_ds \<Rightarrow> grandmaster_settings" where
  "tbc_local_settings e cls down =
     (let tp0 = zero_time_properties\<lparr>tp_TimeSource := TimeSourceInternalOscillator\<rparr>;
          tp = (if cls = ClockClassFreerun then
                  tp0\<lparr>tp_CurrentUtcOffsetValid := False, tp_Leap59 := False, tp_Leap61 := False,
                      tp_PtpTimescale := True, tp_TimeTraceable := False,
                      tp_FrequencyTraceable := False, tp_CurrentUtcOffset := word_of_int (e_utc_offset e)\<rparr>
                else if cls = 165 \<or> cls = 135 then
                  tp0\<lparr>tp_CurrentUtcOffsetValid := tp_CurrentUtcOffsetValid down,
                      tp_Leap59 := tp_Leap59 down, tp_Leap61 := tp_Leap61 down,
                      tp_PtpTimescale := True, tp_TimeTraceable := (cls = 135),
                      tp_FrequencyTraceable := False, tp_CurrentUtcOffset := tp_CurrentUtcOffset down\<rparr>
                else tp0)
      in \<lparr>gs_ClockQuality = \<lparr>cq_ClockClass = cls, cq_ClockAccuracy = ClockAccuracyUnknown,
            cq_OffsetScaledLogVariance = 0xffff\<rparr>,
          gs_TimePropertiesDS = tp\<rparr>)"

definition tbc_announceLocalData :: "env \<Rightarrow> string \<Rightarrow> tbc_clock \<Rightarrow> effect list" where
  "tbc_announceLocalData e cfgName c =
     (let l = t_leading c;
          egp = \<lparr>eg_GrandmasterIdentity = lp_clockID l, eg_StepsRemoved = 0\<rparr>;
          gs = tbc_local_settings e (ss_ClockClass (t_syncState c)) (lp_downstreamTimeProperties l)
      in [PmcSetExternalGM (lp_controlledPortsConfig l) egp,
          PmcSetGM (lp_controlledPortsConfig l) gs, PmcSetGM cfgName gs])"

definition tbc_updateDownstreamData ::
  "env \<Rightarrow> string \<Rightarrow> u64 \<Rightarrow> tbc_clock \<Rightarrow> tbc_clock \<times> u64 \<times> effect list" where
  "tbc_updateDownstreamData e cfgName seq c =
     (if ss_State (t_syncState c) \<noteq> PTP_LOCKED then (c, seq, tbc_announceLocalData e cfgName c)
      else (let token = nextAnnounceToken seq
            in (c\<lparr>t_announceToken := token\<rparr>, token, [FetchUpstream cfgName token])))"

text \<open>The goroutine \<open>downstreamAnnounceIWF\<close>: \<open>Inl\<close> is a failed fetch, which posts nothing.\<close>

definition downstreamAnnounceIWF ::
  "int \<Rightarrow> string \<Rightarrow> u64 \<Rightarrow> string + parent_time_current_ds \<Rightarrow> event option" where
  "downstreamAnnounceIWF now_ms cfgName generation fetched =
     (case fetched of Inl err \<Rightarrow> None
      | Inr ds \<Rightarrow> Some \<lparr>ev_Source = PMC, ev_IFace = '''', ev_CfgName = cfgName,
           ev_ClockType = ClockUnset, ev_Time = now_ms, ev_WriteToLog = False, ev_Reset = False,
           ev_Data = Some (ParentTimeCurrentDS ds generation)\<rparr>)"

definition tbc_handleDownstreamAnnounceIWF ::
  "parent_time_current_ds \<Rightarrow> u64 \<Rightarrow> tbc_clock \<Rightarrow> tbc_clock \<times> effect list" where
  "tbc_handleDownstreamAnnounceIWF up generation c =
     (if generation \<noteq> t_announceToken c then (c, [])
      else if ss_State (t_syncState c) \<noteq> PTP_LOCKED then (c, [])
      else
        (let pds = pt_ParentDataSet up; tp = pt_TimePropertiesDS up;
             steps = cds_StepsRemoved (pt_CurrentDS up);
             gs = \<lparr>gs_ClockQuality = \<lparr>cq_ClockClass = pds_GrandmasterClockClass pds,
                     cq_ClockAccuracy = pds_GrandmasterClockAccuracy pds,
                     cq_OffsetScaledLogVariance = pds_GrandmasterOffsetScaledLogVariance pds\<rparr>,
                   gs_TimePropertiesDS = tp\<rparr>;
             es = \<lparr>eg_GrandmasterIdentity = pds_GrandmasterIdentity pds, eg_StepsRemoved = steps\<rparr>;
             ports = lp_controlledPortsConfig (t_leading c)
         in (l_set (\<lambda>l. l\<lparr>lp_upstreamParentDataSet := pds, lp_upstreamTimeProperties := tp,
               lp_upstreamStepsRemoved := steps, lp_downstreamParentDataSet := pds,
               lp_downstreamTimeProperties := tp\<rparr>) c,
             [PmcSetExternalGM ports es, PmcSetGM ports gs])))"

section \<open>Events\<close>

definition tbc_profile :: "tbc_clock \<Rightarrow> string" where
  "tbc_profile c = replace_first (c_cfgName c) ''ts2phc'' ''ptp4l''"

definition tbc_SystemClockUpdate :: "env \<Rightarrow> tbc_clock \<Rightarrow> tbc_clock \<times> effect list" where
  "tbc_SystemClockUpdate e c =
     (let (o', es) = emitOverallSyncStateIfChanged (c_overall c) (ss_State (t_syncState c))
            (e_os_state e) (tbc_profile c)
      in (c\<lparr>c_overall := o'\<rparr>, es))"

definition tbc_evaluateState :: "env \<Rightarrow> u64 \<Rightarrow> tbc_clock \<Rightarrow> tbc_clock \<times> u64 \<times> effect list" where
  "tbc_evaluateState e seq c =
     (let prev = t_syncState c;
          (c1, needsDownstream) = tbc_updateState e c;
          s = t_syncState c1;
          es1 = (if ss_State s \<noteq> ss_State prev
                 then [SendIPC (new_message TypePTPState (tbc_profile c1) (ss_LeadingIFace s)
                         (StateValue (PtpStateToIPCState (ss_State s)) 0))] else []);
          es2 = (if ss_ClockClass s \<noteq> ss_ClockClass prev
                 then [SendIPC (new_message TypeClockClass (tbc_profile c1) (ss_LeadingIFace s)
                         (ClockClassValue (ss_ClockClass s)))] else []);
          (c2, es3) = tbc_SystemClockUpdate e c1;
          (c3, seq', es4) = (if needsDownstream then tbc_updateDownstreamData e (c_cfgName c2) seq c2
                             else (c2, seq, []))
      in (c3, seq', es1 @ es2 @ es3 @ es4))"

definition tbc_processSyncE :: "event \<Rightarrow> tbc_clock \<Rightarrow> effect list" where
  "tbc_processSyncE ev c =
     (case ev_Data ev of
        Some (SyncEData d) \<Rightarrow>
          (if sy_EECState d \<noteq> '''' then
             [SendIPC (new_message TypeSyncEState (tbc_profile c) (ev_IFace ev)
                (SyncEStateValue (sy_EECState d)))] else []) @
          (if sy_QL d \<noteq> None \<or> sy_ExtQL d \<noteq> None then
             [SendIPC (new_message TypeSyncEClockQuality (tbc_profile c) (ev_IFace ev)
                (SyncEClockQualityValue
                   (case sy_QL d of Some q \<Rightarrow> uint q | None \<Rightarrow> 0)
                   (case sy_ExtQL d of Some q \<Rightarrow> uint q | None \<Rightarrow> 0)))] else [])
      | _ \<Rightarrow> [])"

definition tbc_updateUpstreamParentDataSet :: "parent_data_set \<Rightarrow> tbc_clock \<Rightarrow> tbc_clock" where
  "tbc_updateUpstreamParentDataSet pds c =
     (if \<not> pds_Equal (Some pds) (Some (lp_upstreamParentDataSet (t_leading c)))
      then l_set (\<lambda>l. l\<lparr>lp_upstreamParentDataSet := pds\<rparr>) c else c)"

text \<open>\<open>int(x)\<close> of a \<open>uint64\<close> reads the word as signed.\<close>

definition tbc_updateFromDPLL :: "event \<Rightarrow> dpll_data \<Rightarrow> tbc_clock \<Rightarrow> tbc_clock" where
  "tbc_updateFromDPLL ev d c =
     (let c1 = (if dp_LeadingSource d then l_set (\<lambda>l. l\<lparr>lp_leadingInterface := ev_IFace ev\<rparr>) c else c);
          c2 = (if ev_IFace ev = tbc_getLeadingInterface c1
                then l_set (\<lambda>l. l\<lparr>lp_holdoverDisabled := dp_HoldoverDisabled d\<rparr>) c1 else c1)
      in l_set (\<lambda>l.
           (let l1 = (if dp_InSyncConditionThreshold d \<noteq> 0
                then l\<lparr>lp_inSyncConditionThreshold := sint (dp_InSyncConditionThreshold d)\<rparr> else l);
                l2 = (if dp_InSyncConditionTimes d \<noteq> 0
                then l1\<lparr>lp_inSyncConditionTimes := sint (dp_InSyncConditionTimes d)\<rparr> else l1);
                l3 = (if dp_ToFreeRunThreshold d \<noteq> 0
                then l2\<lparr>lp_toFreeRunThreshold := sint (dp_ToFreeRunThreshold d)\<rparr> else l2);
                l4 = (if dp_MaxInSpecOffset d \<noteq> 0
                then l3\<lparr>lp_MaxInSpecOffset := dp_MaxInSpecOffset d\<rparr> else l3)
            in initInSyncFilter l4)) c2)"

definition tbc_updateLeadingClockData :: "event \<Rightarrow> tbc_clock \<Rightarrow> tbc_clock" where
  "tbc_updateLeadingClockData ev c =
     (case ev_Data ev of
        Some (StateData d) \<Rightarrow>
          if ev_Source ev \<noteq> PTP4l then c
          else
            (let c1 = (if sd_ControlledPortsConfig d \<noteq> ''''
                   then l_set (\<lambda>l. l\<lparr>lp_controlledPortsConfig := sd_ControlledPortsConfig d\<rparr>) c else c)
             in if sd_ClockID d \<noteq> '''' then l_set (\<lambda>l. l\<lparr>lp_clockID := sd_ClockID d\<rparr>) c1 else c1)
      | Some (DPLLData d) \<Rightarrow> if ev_Source ev \<noteq> DPLL then c else tbc_updateFromDPLL ev d c
      | _ \<Rightarrow> c)"

text \<open>\<open>AddEvent\<close>: the clock, the counter and the effects; the result is the clock's sync state.\<close>

definition tbc_AddEvent :: "env \<Rightarrow> event \<Rightarrow> u64 \<Rightarrow> tbc_clock \<Rightarrow> tbc_clock \<times> u64 \<times> effect list" where
  "tbc_AddEvent e ev seq c =
     (if ev_Source ev = SYNCE then (c, seq, tbc_processSyncE ev c)
      else if ev_Source ev = PMC then
        (case ev_Data ev of
           Some (ParentDSData pds) \<Rightarrow>
             tbc_evaluateState e seq (tbc_updateUpstreamParentDataSet pds c)
         | Some (ParentTimeCurrentDS up generation) \<Rightarrow>
             (let (c1, es) = tbc_handleDownstreamAnnounceIWF up generation c in (c1, seq, es))
         | _ \<Rightarrow> (c, seq, []))
      else
        tbc_evaluateState e seq
          (tbc_updateLeadingClockData ev (c\<lparr>c_data := record_event (e_now_s e) ev (c_data c)\<rparr>)))"

section \<open>What the state machine leaves alone\<close>

lemma tbc_inSync_simps [simp]:
  "t_syncState (fst (tbc_inSyncCondition e c)) = t_syncState c"
  "c_data (fst (tbc_inSyncCondition e c)) = c_data c"
  "c_overall (fst (tbc_inSyncCondition e c)) = c_overall c"
  "c_cfgName (fst (tbc_inSyncCondition e c)) = c_cfgName c"
  "t_announceToken (fst (tbc_inSyncCondition e c)) = t_announceToken c"
  "lp_lastInSpec (t_leading (fst (tbc_inSyncCondition e c))) = lp_lastInSpec (t_leading c)"
  "lp_MaxInSpecOffset (t_leading (fst (tbc_inSyncCondition e c))) = lp_MaxInSpecOffset (t_leading c)"
  by (simp_all add: tbc_inSyncCondition_def split_beta)

lemmas tbc_switch_defs = tbc_switch_def tbc_from_freerun_def tbc_from_locked_def
  tbc_from_holdover_def tbc_stay_locked_def tbc_stay_holdover_def

lemma tbc_switch_simps [simp]:
  "c_overall (fst (tbc_switch e b c)) = c_overall c"
  "c_cfgName (fst (tbc_switch e b c)) = c_cfgName c"
  "c_data (fst (tbc_switch e b c)) = c_data c"
  "t_announceToken (fst (tbc_switch e b c)) = t_announceToken c"
  by (simp_all add: tbc_switch_defs Let_def split_beta split: ptp_state.split)

lemma tbc_finish_simps [simp]:
  "c_overall (tbc_finish e b c) = c_overall c"
  "c_cfgName (tbc_finish e b c) = c_cfgName c"
  "c_data (tbc_finish e b c) = c_data c"
  "t_announceToken (tbc_finish e b c) = t_announceToken c"
  "t_leading (tbc_finish e b c) = t_leading c"
  "ss_State (t_syncState (tbc_finish e b c)) = ss_State (t_syncState c)"
  "ss_ClockClass (t_syncState (tbc_finish e b c)) =
     (if b then ClockClassSlaveOnly else ss_ClockClass (t_syncState c))"
  by (simp_all add: tbc_finish_def Let_def)

lemma tbc_updateState_simps [simp]:
  "c_overall (fst (tbc_updateState e c)) = c_overall c"
  "c_cfgName (fst (tbc_updateState e c)) = c_cfgName c"
  "c_data (fst (tbc_updateState e c)) = c_data c"
  "t_announceToken (fst (tbc_updateState e c)) = t_announceToken c"
  by (simp_all add: tbc_updateState_def Let_def split_beta)

section \<open>Transitions\<close>

text \<open>When LOCKED is entered, nothing argues against it.\<close>

lemma tbc_switch_locks:
  assumes "ss_State (t_syncState (fst (tbc_switch e b c))) = PTP_LOCKED"
    and "ss_State (t_syncState c) \<noteq> PTP_LOCKED"
  shows "\<not> tbc_freeRunCondition c \<and> \<not> tbc_isSourceLost (c_data c) \<and> snd (tbc_inSyncCondition e c)"
  using assms
  by (cases "ss_State (t_syncState c)")
    (auto simp: tbc_switch_defs Let_def split_beta split: if_splits)

text \<open>When LOCKED is kept, nothing argues against it either.\<close>

lemma tbc_switch_stays_locked:
  assumes "ss_State (t_syncState c) = PTP_LOCKED"
  shows "ss_State (t_syncState (fst (tbc_switch e b c))) = PTP_LOCKED \<longleftrightarrow>
    \<not> tbc_freeRunCondition c \<and> \<not> tbc_isSourceLost (c_data c) \<and>
    \<not> hasNonLeadingDPLLFault (ss_LeadingIFace (t_syncState c)) (c_data c)"
  using assms
  by (auto simp: tbc_switch_defs Let_def split_beta)

text \<open>Within one holdover the in-spec flag only falls, and the class 135 never comes back.\<close>

lemma tbc_switch_in_spec:
  assumes "ss_State (t_syncState c) = PTP_HOLDOVER"
    and "ss_State (t_syncState (fst (tbc_switch e b c))) = PTP_HOLDOVER"
  shows "lp_lastInSpec (t_leading (fst (tbc_switch e b c))) \<longrightarrow>
      lp_lastInSpec (t_leading c) \<and> tbc_inSpecCondition (fst (tbc_inSyncCondition e c))"
    and "ss_ClockClass (t_syncState (fst (tbc_switch e b c))) \<in> {ss_ClockClass (t_syncState c), 165}"
  using assms
  by (auto simp: tbc_switch_defs Let_def split_beta split: if_splits)

lemma tbc_inSpec_inSync [simp]:
  "tbc_inSpecCondition (fst (tbc_inSyncCondition e c)) = tbc_inSpecCondition c"
  by (simp add: tbc_inSpecCondition_def)

section \<open>Messages and effects of an evaluation\<close>

lemma tbc_SystemClockUpdate_simps [simp]:
  "c_overall (fst (tbc_SystemClockUpdate e c)) = WorstOfState (ss_State (t_syncState c)) (e_os_state e)"
  "t_syncState (fst (tbc_SystemClockUpdate e c)) = t_syncState c"
  "t_leading (fst (tbc_SystemClockUpdate e c)) = t_leading c"
  "c_data (fst (tbc_SystemClockUpdate e c)) = c_data c"
  "c_cfgName (fst (tbc_SystemClockUpdate e c)) = c_cfgName c"
  "t_announceToken (fst (tbc_SystemClockUpdate e c)) = t_announceToken c"
  by (simp_all add: tbc_SystemClockUpdate_def split_beta)

lemma tbc_SystemClockUpdate_view:
  "c_overall c = ov \<Longrightarrow> sync_view (PtpStateToIPCState ov) (ipc_sent (snd (tbc_SystemClockUpdate e c))) =
   PtpStateToIPCState (WorstOfState (ss_State (t_syncState c)) (e_os_state e))"
  by (simp add: tbc_SystemClockUpdate_def split_beta)

lemma tbc_updateDownstream_simps [simp]:
  "ipc_sent (snd (snd (tbc_updateDownstreamData e n seq c))) = []"
  "c_overall (fst (tbc_updateDownstreamData e n seq c)) = c_overall c"
  "t_syncState (fst (tbc_updateDownstreamData e n seq c)) = t_syncState c"
  "t_leading (fst (tbc_updateDownstreamData e n seq c)) = t_leading c"
  by (simp_all add: tbc_updateDownstreamData_def tbc_announceLocalData_def Let_def)

lemma tbc_evaluateState_view:
  assumes "c_overall c = ov"
  shows "sync_view (PtpStateToIPCState ov) (ipc_sent (snd (snd (tbc_evaluateState e seq c)))) =
    PtpStateToIPCState (c_overall (fst (tbc_evaluateState e seq c)))"
  using assms by (simp add: tbc_evaluateState_def Let_def split_beta tbc_SystemClockUpdate_view)

lemma tbc_handleDownstream_simps [simp]:
  "ipc_sent (snd (tbc_handleDownstreamAnnounceIWF up g c)) = []"
  "c_overall (fst (tbc_handleDownstreamAnnounceIWF up g c)) = c_overall c"
  "t_announceToken (fst (tbc_handleDownstreamAnnounceIWF up g c)) = t_announceToken c"
  "t_syncState (fst (tbc_handleDownstreamAnnounceIWF up g c)) = t_syncState c"
  by (simp_all add: tbc_handleDownstreamAnnounceIWF_def Let_def)

lemma tbc_updateLeading_simps [simp]:
  "c_overall (tbc_updateLeadingClockData ev c) = c_overall c"
  "t_announceToken (tbc_updateLeadingClockData ev c) = t_announceToken c"
  "t_syncState (tbc_updateLeadingClockData ev c) = t_syncState c"
  "c_overall (tbc_updateUpstreamParentDataSet pds c) = c_overall c"
  "t_announceToken (tbc_updateUpstreamParentDataSet pds c) = t_announceToken c"
  by (simp_all add: tbc_updateLeadingClockData_def tbc_updateFromDPLL_def
      tbc_updateUpstreamParentDataSet_def Let_def split: option.split event_data.split)

lemma tbc_processSyncE_view [simp]: "sync_view v (ipc_sent (tbc_processSyncE ev c)) = v"
  by (simp add: tbc_processSyncE_def split: option.split event_data.split)

fun tbc_op :: "clock_op \<Rightarrow> tbc_clock \<times> u64 \<Rightarrow> ((tbc_clock \<times> u64) \<times> effect list) option" where
  "tbc_op (ClockEvent e ev) (c, seq) =
     (case tbc_AddEvent e ev seq c of (c', seq', es) \<Rightarrow> Some ((c', seq'), es))"
| "tbc_op (ClockOsUpdate e) (c, seq) =
     (case tbc_SystemClockUpdate e c of (c', es) \<Rightarrow> Some ((c', seq), es))"

lemma tbc_AddEvent_view:
  "sync_view (PtpStateToIPCState (c_overall c)) (ipc_sent (snd (snd (tbc_AddEvent e ev seq c)))) =
   PtpStateToIPCState (c_overall (fst (tbc_AddEvent e ev seq c)))"
  by (simp add: tbc_AddEvent_def split_beta tbc_evaluateState_view Let_def
      split: option.split event_data.split)

interpretation tbc_rep: state_reporter tbc_op "\<lambda>s. PtpStateToIPCState (c_overall (fst s))" sync_view
proof (unfold_locales, goal_cases)
  case (1 v)
  show ?case by simp
next
  case (2 v xs ys)
  show ?case by simp
next
  case (3 x s s' es)
  note * = 3
  obtain c seq where s: "s = (c, seq)" by (cases s)
  show "sync_view (PtpStateToIPCState (c_overall (fst s))) (ipc_sent es) =
      PtpStateToIPCState (c_overall (fst s'))"
  proof (cases x)
    case (ClockEvent e ev)
    with * s tbc_AddEvent_view [of c e ev seq] show ?thesis by (auto split: prod.splits)
  next
    case (ClockOsUpdate e)
    with * s have "fst s' = fst (tbc_SystemClockUpdate e c)" "es = snd (tbc_SystemClockUpdate e c)"
      by (auto split: prod.splits)
    then show ?thesis by (simp add: s tbc_SystemClockUpdate_view)
  qed
qed

section \<open>Announce tokens\<close>

definition fetches :: "effect list \<Rightarrow> u64 set" where
  "fetches es = {t. \<exists>n. FetchUpstream n t \<in> set es}"

lemma fetches_simps [simp]:
  "fetches [] = {}" "fetches (xs @ ys) = fetches xs \<union> fetches ys"
  "fetches (FetchUpstream n t # es) = insert t (fetches es)"
  "fetches (SendIPC m # es) = fetches es"
  "fetches (PmcSetGM n g # es) = fetches es"
  "fetches (PmcSetExternalGM n p # es) = fetches es"
  by (auto simp: fetches_def)

lemma fetches_overall [simp]: "fetches (snd (emitOverallSyncStateIfChanged ov c os p)) = {}"
  by (simp add: emitOverallSyncStateIfChanged_def Let_def)

definition token_step :: "tbc_clock \<Rightarrow> u64 \<Rightarrow> tbc_clock \<Rightarrow> u64 \<Rightarrow> effect list \<Rightarrow> bool" where
  "token_step c seq c' seq' es \<longleftrightarrow>
     (fetches es = {} \<and> t_announceToken c' = t_announceToken c \<and> seq' = seq) \<or>
     (fetches es = {seq'} \<and> t_announceToken c' = seq' \<and> seq' = seq + 1)"

lemma token_step_evaluate:
  assumes "t_announceToken c0 = t_announceToken c"
  shows "token_step c0 seq (fst (tbc_evaluateState e seq c))
    (fst (snd (tbc_evaluateState e seq c))) (snd (snd (tbc_evaluateState e seq c)))"
proof -
  have "fetches (snd (tbc_SystemClockUpdate e c1)) = {}" for c1
    by (simp add: tbc_SystemClockUpdate_def split_beta)
  with assms show ?thesis
    by (simp add: token_step_def tbc_evaluateState_def tbc_updateDownstreamData_def
        tbc_announceLocalData_def nextAnnounceToken_def Let_def split_beta)
qed

lemma token_step_AddEvent:
  "token_step c seq (fst (tbc_AddEvent e ev seq c)) (fst (snd (tbc_AddEvent e ev seq c)))
     (snd (snd (tbc_AddEvent e ev seq c)))"
proof -
  have "fetches (tbc_processSyncE ev c) = {}"
    by (simp add: tbc_processSyncE_def split: option.split event_data.split)
  moreover have "fetches (snd (tbc_handleDownstreamAnnounceIWF up g c)) = {}" for up g
    by (simp add: tbc_handleDownstreamAnnounceIWF_def Let_def)
  ultimately show ?thesis
    by (auto simp: tbc_AddEvent_def Let_def split_beta token_step_evaluate token_step_def [of c seq c seq]
        token_step_def [of c seq "fst (tbc_handleDownstreamAnnounceIWF _ _ c)"]
        split: option.split event_data.split)
qed

lemma token_step_op:
  assumes "tbc_op x (c, seq) = Some ((c', seq'), es)"
  shows "token_step c seq c' seq' es"
proof (cases x)
  case (ClockEvent e ev)
  with assms token_step_AddEvent [of c seq e ev] show ?thesis by (auto split: prod.splits)
next
  case (ClockOsUpdate e)
  have "fetches (snd (tbc_SystemClockUpdate e c)) = {}"
    by (simp add: tbc_SystemClockUpdate_def split_beta)
  moreover have "c' = fst (tbc_SystemClockUpdate e c)" "es = snd (tbc_SystemClockUpdate e c)" "seq' = seq"
    using assms ClockOsUpdate by (simp_all split: prod.splits)
  ultimately show ?thesis by (simp add: token_step_def)
qed

text \<open>Over a run the counter grows, and what is fetched lies between its ends.\<close>

lemma run_tokens:
  assumes "tbc_rep.run xs (c, seq) = Some ((c', seq'), es)" "unat seq + length xs < 2 ^ 64"
  shows "unat seq \<le> unat seq' \<and> unat seq' \<le> unat seq + length xs \<and>
    (\<forall>t \<in> fetches es. unat seq < unat t \<and> unat t \<le> unat seq') \<and>
    (if fetches es = {} then t_announceToken c' = t_announceToken c
     else unat seq < unat (t_announceToken c'))"
  using assms
proof (induction xs arbitrary: c seq es)
  case Nil
  then show ?case by simp
next
  case (Cons x xs)
  from Cons.prems(1) obtain c1 seq1 es1 es2
    where 1: "tbc_op x (c, seq) = Some ((c1, seq1), es1)"
      and 2: "tbc_rep.run xs (c1, seq1) = Some ((c', seq'), es2)" and es: "es = es1 @ es2"
    by (auto split: option.splits)
  have inc: "unat (seq + 1) = unat seq + 1"
    using Cons.prems(2) by (simp add: unat_word_ariths)
  consider "fetches es1 = {}" "t_announceToken c1 = t_announceToken c" "seq1 = seq"
    | "fetches es1 = {seq + 1}" "t_announceToken c1 = seq + 1" "seq1 = seq + 1"
    using token_step_op [OF 1] by (auto simp: token_step_def)
  then show ?case
  proof cases
    case 1
    with Cons.IH [OF 2] Cons.prems(2) es show ?thesis by (auto split: if_splits)
  next
    case step: 2
    have "unat seq1 + length xs < 2 ^ 64" using step(3) inc Cons.prems(2) by simp
    from Cons.IH [OF 2 this] show ?thesis
      using step inc by (auto simp: es split: if_splits)
  qed
qed

lemma tbc_stale_token:
  "t_announceToken c \<noteq> g \<Longrightarrow> tbc_handleDownstreamAnnounceIWF up g c = (c, [])"
  by (simp add: tbc_handleDownstreamAnnounceIWF_def)

section \<open>What is announced\<close>

lemma tbc_announceLocalData_settings:
  "PmcSetGM cfg g \<in> set (tbc_announceLocalData e n c) \<Longrightarrow>
   cq_ClockClass (gs_ClockQuality g) = ss_ClockClass (t_syncState c) \<and>
   cq_ClockAccuracy (gs_ClockQuality g) = ClockAccuracyUnknown \<and>
   \<not> tp_FrequencyTraceable (gs_TimePropertiesDS g) \<and>
   (tp_TimeTraceable (gs_TimePropertiesDS g) \<longleftrightarrow> ss_ClockClass (t_syncState c) = 135)"
proof -
  assume "PmcSetGM cfg g \<in> set (tbc_announceLocalData e n c)"
  then have "g = tbc_local_settings e (ss_ClockClass (t_syncState c)) (lp_downstreamTimeProperties (t_leading c))"
    by (auto simp: tbc_announceLocalData_def Let_def)
  then show ?thesis by (simp add: tbc_local_settings_def zero_time_properties_def Let_def)
qed

lemma tbc_handleDownstream_sets:
  "PmcSetGM cfg g \<in> set (snd (tbc_handleDownstreamAnnounceIWF up gen c)) \<Longrightarrow>
   gen = t_announceToken c \<and> ss_State (t_syncState c) = PTP_LOCKED \<and>
   cfg = lp_controlledPortsConfig (t_leading c) \<and>
   cq_ClockClass (gs_ClockQuality g) = pds_GrandmasterClockClass (pt_ParentDataSet up) \<and>
   gs_TimePropertiesDS g = pt_TimePropertiesDS up"
  by (auto simp: tbc_handleDownstreamAnnounceIWF_def Let_def split: if_splits)

section \<open>The published state of the clock\<close>

lemma tbc_ptp_simps [simp]:
  "ptp_view v (ipc_sent (snd (tbc_SystemClockUpdate e c))) = v"
  "ptp_view v (ipc_sent (tbc_processSyncE ev c)) = v"
  by (simp_all add: tbc_SystemClockUpdate_def tbc_processSyncE_def split_beta
      split: option.split event_data.split)

lemma tbc_ptp_evaluate:
  "ss_State (t_syncState c) = st \<Longrightarrow>
   ptp_view (PtpStateToIPCState st) (ipc_sent (snd (snd (tbc_evaluateState e seq c)))) =
   PtpStateToIPCState (ss_State (t_syncState (fst (tbc_evaluateState e seq c))))"
  by (simp add: tbc_evaluateState_def Let_def split_beta)

lemma tbc_ptp_AddEvent:
  "ptp_view (PtpStateToIPCState (ss_State (t_syncState c))) (ipc_sent (snd (snd (tbc_AddEvent e ev seq c)))) =
   PtpStateToIPCState (ss_State (t_syncState (fst (tbc_AddEvent e ev seq c))))"
proof -
  have "t_syncState (tbc_updateUpstreamParentDataSet pds c) = t_syncState c" for pds
    by (simp add: tbc_updateUpstreamParentDataSet_def)
  then show ?thesis
    by (simp add: tbc_AddEvent_def split_beta tbc_ptp_evaluate Let_def
        split: option.split event_data.split)
qed

interpretation tbc_ptp: state_reporter tbc_op
  "\<lambda>s. PtpStateToIPCState (ss_State (t_syncState (fst s)))" ptp_view
proof (unfold_locales, goal_cases)
  case (3 x s s' es)
  obtain c seq where s: "s = (c, seq)" by (cases s)
  show ?case
  proof (cases x)
    case (ClockEvent e ev)
    with 3 s tbc_ptp_AddEvent [of c e ev seq] show ?thesis by (auto split: prod.splits)
  next
    case (ClockOsUpdate e)
    with 3 s have "fst s' = fst (tbc_SystemClockUpdate e c)" "es = snd (tbc_SystemClockUpdate e c)"
      by (auto split: prod.splits)
    then show ?thesis by (simp add: s)
  qed
qed simp_all

section \<open>Examples\<close>

definition parent_of_class :: "clock_class \<Rightarrow> parent_data_set" where
  "parent_of_class cls = zero_parent_data_set\<lparr>pds_GrandmasterClockClass := cls\<rparr>"

definition pmc_parent_event :: "clock_class \<Rightarrow> event" where
  "pmc_parent_event cls =
     \<lparr>ev_Source = PMC, ev_IFace = '''', ev_CfgName = ''ts2phc.0.config'', ev_ClockType = TBC,
      ev_Time = 0, ev_WriteToLog = False, ev_Reset = False, ev_Data = Some (ParentDSData (parent_of_class cls))\<rparr>"

definition sample_tbc :: tbc_clock where
  "sample_tbc = (fst (the (NewTBC ''ts2phc.0.config'' True 0)))
     \<lparr>c_data := [source_of PTP4l PTP_LOCKED], t_configuredLeadingInterface := ''eth0'',
      t_syncState := tbc_start_state\<lparr>ss_State := PTP_LOCKED, ss_ClockClass := 6\<rparr>,
      t_leading := newLeadingClockParams\<lparr>lp_toFreeRunThreshold := 1500,
        lp_controlledPortsConfig := ''ptp4l.1.config''\<rparr>\<rparr>"

lemmas sample_tbc_simps = sample_tbc_def source_of_def detail_of_def NewTBC_def newBaseClock_def
  base_clock.defs tbc_start_state_def newLeadingClockParams_def tbc_getLeadingInterface_def
  tbc_freeRunCondition_def freeRun_entry_def tbc_isSourceLost_def hasNonLeadingDPLLFault_def
  tbc_isTTSC_def nextAnnounceToken_def

lemma parent_of_class_simps [simp]:
  "pds_GrandmasterClockClass (parent_of_class cls) = cls"
  "parent_of_class cls = parent_of_class cls' \<longleftrightarrow> cls = cls'"
proof -
  show *: "pds_GrandmasterClockClass (parent_of_class cls) = cls" for cls
    by (simp add: parent_of_class_def)
  show "parent_of_class cls = parent_of_class cls' \<longleftrightarrow> cls = cls'"
    by (metis *)
qed

section \<open>Properties\<close>

text \<open>
  C23. LOCKED is entered only when nothing argues against it: the free-run condition does not hold,
  ptp4l and the DPLLs have not lost their source, and the in-sync filter is Low on the sample of
  this evaluation.
\<close>

theorem tbc_locks_when_in_sync:
  assumes "ss_State (t_syncState (fst (tbc_updateState e c))) = PTP_LOCKED"
    and "ss_State (t_syncState c) \<noteq> PTP_LOCKED"
    and "c1 = c\<lparr>t_syncState := (t_syncState c)\<lparr>ss_SourceLost := False,
      ss_LeadingIFace := tbc_getLeadingInterface c\<rparr>\<rparr>"
  shows "\<not> tbc_freeRunCondition c1 \<and> \<not> tbc_isSourceLost (c_data c1) \<and> snd (tbc_inSyncCondition e c1)"
proof -
  have "ss_State (t_syncState (fst (tbc_switch e (tbc_isTTSC c1) c1))) = PTP_LOCKED"
    using assms by (auto simp: tbc_updateState_def Let_def split_beta split: if_splits)
  moreover have "ss_State (t_syncState c1) \<noteq> PTP_LOCKED" using assms(2,3) by simp
  ultimately show ?thesis by (rule tbc_switch_locks)
qed

text \<open>
  A LOCKED T-BC with known leading interface and data stays LOCKED exactly as long as the
  free-run condition does not hold, no source is lost and no non-leading DPLL is faulty.
\<close>

lemma tbc_stays_locked_iff:
  assumes "ss_State (t_syncState c) = PTP_LOCKED" "c_data c \<noteq> []"
    and "tbc_getLeadingInterface c \<noteq> LEADING_INTERFACE_UNKNOWN"
    and "c1 = c\<lparr>t_syncState := (t_syncState c)\<lparr>ss_SourceLost := False,
      ss_LeadingIFace := tbc_getLeadingInterface c\<rparr>\<rparr>"
  shows "ss_State (t_syncState (fst (tbc_updateState e c))) = PTP_LOCKED \<longleftrightarrow>
    \<not> tbc_freeRunCondition c1 \<and> \<not> tbc_isSourceLost (c_data c1) \<and>
    \<not> hasNonLeadingDPLLFault (tbc_getLeadingInterface c) (c_data c1)"
proof -
  have "ss_State (t_syncState (fst (tbc_updateState e c))) =
      ss_State (t_syncState (fst (tbc_switch e (tbc_isTTSC c1) c1)))"
    using assms(2-4) by (simp add: tbc_updateState_def Let_def split_beta)
  with tbc_switch_stays_locked [of c1 e "tbc_isTTSC c1"] assms(1,4) show ?thesis by simp
qed

text \<open>
  Within one holdover the in-spec flag only falls and the clock class 135 never comes back: an
  evaluation that stays in HOLDOVER keeps the class or sets 165 (or the slave-only class of a
  T-TSC), and stays in spec only if it was and the DPLL offset still is.
\<close>

lemma tbc_holdover_degrades_only:
  assumes "ss_State (t_syncState c) = PTP_HOLDOVER"
    and "ss_State (t_syncState (fst (tbc_updateState e c))) = PTP_HOLDOVER"
  shows "ss_ClockClass (t_syncState (fst (tbc_updateState e c))) \<in>
      {ss_ClockClass (t_syncState c), 165, ClockClassSlaveOnly} \<and>
    (lp_lastInSpec (t_leading (fst (tbc_updateState e c))) \<longrightarrow> lp_lastInSpec (t_leading c))"
proof -
  let ?c1 = "t_set (\<lambda>s. s\<lparr>ss_SourceLost := False, ss_LeadingIFace := tbc_getLeadingInterface c\<rparr>) c"
  show ?thesis
  proof (cases "tbc_getLeadingInterface c = LEADING_INTERFACE_UNKNOWN \<or> c_data c = []")
    case True
    with assms show ?thesis by (auto simp: tbc_updateState_def Let_def)
  next
    case False
    let ?c2 = "fst (tbc_switch e (tbc_isTTSC ?c1) ?c1)"
    have 2: "fst (tbc_updateState e c) = tbc_finish e (tbc_isTTSC ?c1) ?c2"
      using False by (simp add: tbc_updateState_def Let_def split_beta)
    have "ss_State (t_syncState ?c1) = PTP_HOLDOVER" using assms(1) by simp
    moreover have "ss_State (t_syncState ?c2) = PTP_HOLDOVER" using assms(2) by (simp add: 2)
    ultimately show ?thesis
      using tbc_switch_in_spec [of ?c1 e "tbc_isTTSC ?c1"] unfolding 2 by auto
  qed
qed

text \<open>
  C2. A late reply to an old fetch is dropped: once a newer fetch of upstream data has been started,
  the event that brings the data of any earlier fetch changes nothing and writes nothing, whatever
  happened in between (as long as the 64-bit token has not wrapped around).
\<close>

theorem tbc_stale_fetch_dropped:
  assumes "tbc_rep.run xs (c, seq) = Some ((c1, seq1), es1)"
    and "tbc_rep.run ys (c1, seq1) = Some ((c2, seq2), es2)"
    and "unat seq + length xs + length ys < 2 ^ 64"
    and "t \<in> fetches es1" "fetches es2 \<noteq> {}"
    and "ev_Source ev = PMC" "ev_Data ev = Some (ParentTimeCurrentDS up t)"
  shows "tbc_AddEvent e ev seq2 c2 = (c2, seq2, [])"
proof -
  have 1: "unat seq1 \<le> unat seq + length xs" "unat t \<le> unat seq1"
    using run_tokens [OF assms(1)] assms(3,4) by auto
  have "unat seq1 + length ys < 2 ^ 64" using 1(1) assms(3) by simp
  from run_tokens [OF assms(2) this] assms(5) have "unat seq1 < unat (t_announceToken c2)" by auto
  with 1(2) have "t_announceToken c2 \<noteq> t" by auto
  with assms(6,7) show ?thesis by (simp add: tbc_AddEvent_def tbc_stale_token)
qed

text \<open>A LOCKED clock that is told of a new parent class starts a fetch, and stays as it was.\<close>

definition fetching :: "tbc_clock \<Rightarrow> bool" where
  "fetching c \<longleftrightarrow> c_data c = [source_of PTP4l PTP_LOCKED] \<and> ss_State (t_syncState c) = PTP_LOCKED \<and>
     t_configuredLeadingInterface c = ''eth0'' \<and> lp_leadingInterface (t_leading c) = '''' \<and>
     lp_toFreeRunThreshold (t_leading c) = 1500 \<and> lp_clockID (t_leading c) = '''' \<and>
     lp_downstreamParentDataSet (t_leading c) = lp_upstreamParentDataSet (t_leading c)"

lemma stay_locked_parent:
  assumes "lp_upstreamParentDataSet (t_leading c) = parent_of_class cls"
    and "lp_downstreamParentDataSet (t_leading c) \<noteq> parent_of_class cls" "cls \<noteq> 248"
  shows "snd (tbc_stay_locked False c)"
    and "t_syncState (fst (tbc_stay_locked False c)) = (t_syncState c)\<lparr>ss_ClockClass := cls,
      ss_ClockAccuracy := pds_GrandmasterClockAccuracy (parent_of_class cls)\<rparr>"
    and "lp_upstreamParentDataSet (t_leading (fst (tbc_stay_locked False c))) = parent_of_class cls"
    and "lp_downstreamParentDataSet (t_leading (fst (tbc_stay_locked False c))) = parent_of_class cls"
    and "lp_leadingInterface (t_leading (fst (tbc_stay_locked False c))) = lp_leadingInterface (t_leading c)"
    and "lp_toFreeRunThreshold (t_leading (fst (tbc_stay_locked False c))) = lp_toFreeRunThreshold (t_leading c)"
    and "lp_clockID (t_leading (fst (tbc_stay_locked False c))) = lp_clockID (t_leading c)"
    and "c_data (fst (tbc_stay_locked False c)) = c_data c"
    and "t_configuredLeadingInterface (fst (tbc_stay_locked False c)) = t_configuredLeadingInterface c"
  using assms by (simp_all add: tbc_stay_locked_def Let_def)

lemma fetching_update:
  assumes "fetching (l_set (\<lambda>l. l\<lparr>lp_upstreamParentDataSet := lp_downstreamParentDataSet l\<rparr>) c)"
    and "lp_upstreamParentDataSet (t_leading c) = parent_of_class cls"
    and "lp_downstreamParentDataSet (t_leading c) \<noteq> parent_of_class cls" "cls \<noteq> 248" "cls \<noteq> 0"
  shows "snd (tbc_updateState e c)"
    and "fetching (fst (tbc_updateState e c))"
    and "lp_upstreamParentDataSet (t_leading (fst (tbc_updateState e c))) = parent_of_class cls"
proof -
  let ?c1 = "t_set (\<lambda>s. s\<lparr>ss_SourceLost := False, ss_LeadingIFace := ''eth0''\<rparr>) c"
  have c: "c_data c = [source_of PTP4l PTP_LOCKED]" "ss_State (t_syncState c) = PTP_LOCKED"
    "t_configuredLeadingInterface c = ''eth0''" "lp_leadingInterface (t_leading c) = ''''"
    "lp_toFreeRunThreshold (t_leading c) = 1500" "lp_clockID (t_leading c) = ''''"
    using assms(1) by (simp_all add: fetching_def)
  have "tbc_switch e False ?c1 = tbc_stay_locked False ?c1"
    by (simp add: c tbc_switch_def tbc_from_locked_def Let_def tbc_freeRunCondition_def freeRun_entry_def
        hasNonLeadingDPLLFault_def tbc_isSourceLost_def source_of_def detail_of_def)
  moreover have "tbc_getLeadingInterface c = ''eth0''" "\<not> tbc_isTTSC ?c1"
    by (simp_all add: c tbc_getLeadingInterface_def tbc_isTTSC_def)
  ultimately have u: "fst (tbc_updateState e c) = tbc_finish e False (fst (tbc_stay_locked False ?c1))"
    "snd (tbc_updateState e c) \<longleftrightarrow> snd (tbc_stay_locked False ?c1) \<and>
       ss_ClockClass (t_syncState (fst (tbc_stay_locked False ?c1))) \<noteq> 0"
    using c(1) by (simp_all add: tbc_updateState_def Let_def split_beta)
  have "lp_upstreamParentDataSet (t_leading ?c1) = parent_of_class cls"
    "lp_downstreamParentDataSet (t_leading ?c1) \<noteq> parent_of_class cls"
    using assms(2,3) by simp_all
  note st = stay_locked_parent [OF this assms(4)]
  have conf: "t_configuredLeadingInterface (tbc_finish e b c') = t_configuredLeadingInterface c'" for b c'
    by (simp add: tbc_finish_def Let_def)
  show "snd (tbc_updateState e c)" unfolding u using st(1,2) assms(5) by simp
  show "lp_upstreamParentDataSet (t_leading (fst (tbc_updateState e c))) = parent_of_class cls"
    unfolding u tbc_finish_simps by (rule st(3))
  show "fetching (fst (tbc_updateState e c))"
    unfolding u fetching_def tbc_finish_simps conf st by (simp add: c)
qed

lemma fetching_evaluate:
  assumes "fetching (l_set (\<lambda>l. l\<lparr>lp_upstreamParentDataSet := lp_downstreamParentDataSet l\<rparr>) c)"
    and "lp_upstreamParentDataSet (t_leading c) = parent_of_class cls"
    and "lp_downstreamParentDataSet (t_leading c) \<noteq> parent_of_class cls" "cls \<noteq> 248" "cls \<noteq> 0"
  shows "fetching (fst (tbc_evaluateState e seq c)) \<and>
    lp_upstreamParentDataSet (t_leading (fst (tbc_evaluateState e seq c))) = parent_of_class cls \<and>
    fst (snd (tbc_evaluateState e seq c)) = seq + 1 \<and>
    fetches (snd (snd (tbc_evaluateState e seq c))) = {seq + 1}"
proof -
  let ?u = "fst (tbc_updateState e c)" let ?v = "fst (tbc_SystemClockUpdate e ?u)"
  note u = fetching_update [OF assms, of e]
  have s: "ss_State (t_syncState ?u) = PTP_LOCKED" using u(2) by (simp add: fetching_def)
  have "fst (tbc_evaluateState e seq c) = ?v\<lparr>t_announceToken := seq + 1\<rparr>"
    "fst (snd (tbc_evaluateState e seq c)) = seq + 1"
    using u(1) s by (simp_all add: tbc_evaluateState_def tbc_updateDownstreamData_def
        nextAnnounceToken_def Let_def split_beta)
  moreover have "fetches (snd (tbc_SystemClockUpdate e ?u)) = {}"
    by (simp add: tbc_SystemClockUpdate_def split_beta)
  then have "fetches (snd (snd (tbc_evaluateState e seq c))) = {seq + 1}"
    using u(1) s by (simp add: tbc_evaluateState_def tbc_updateDownstreamData_def
        nextAnnounceToken_def Let_def split_beta)
  moreover have "fetching (?v\<lparr>t_announceToken := seq + 1\<rparr>)"
    using u(2) by (simp add: fetching_def tbc_SystemClockUpdate_def split_beta)
  ultimately show ?thesis using u(3) by simp
qed

lemma fetching_event:
  assumes "fetching c" "lp_upstreamParentDataSet (t_leading c) \<noteq> parent_of_class cls" "cls \<noteq> 248" "cls \<noteq> 0"
    and "tbc_rep.run [ClockEvent e (pmc_parent_event cls)] (c, seq) = Some ((c1, seq1), es)"
  shows "fetching c1 \<and> lp_upstreamParentDataSet (t_leading c1) = parent_of_class cls \<and>
    seq1 = seq + 1 \<and> fetches es = {seq + 1}"
proof -
  let ?c = "l_set (\<lambda>l. l\<lparr>lp_upstreamParentDataSet := parent_of_class cls\<rparr>) c"
  have "tbc_AddEvent e (pmc_parent_event cls) seq c = tbc_evaluateState e seq ?c"
    using assms(2) by (simp add: tbc_AddEvent_def pmc_parent_event_def
        tbc_updateUpstreamParentDataSet_def pds_Equal_iff eq_commute [of "parent_of_class cls"])
  with assms(5) have "c1 = fst (tbc_evaluateState e seq ?c)" "seq1 = fst (snd (tbc_evaluateState e seq ?c))"
    "es = snd (snd (tbc_evaluateState e seq ?c))"
    by (auto split: prod.splits)
  with fetching_evaluate [of ?c cls e seq] assms(1-4) show ?thesis
    by (simp add: fetching_def)
qed

lemma fetching_sample: "fetching sample_tbc" "lp_upstreamParentDataSet (t_leading sample_tbc) \<noteq> parent_of_class 7"
proof -
  show "fetching sample_tbc" by (simp add: fetching_def sample_tbc_simps)
  have "lp_upstreamParentDataSet (t_leading sample_tbc) = parent_of_class 0"
    by (simp add: sample_tbc_simps parent_of_class_def zero_parent_data_set_def)
  then show "lp_upstreamParentDataSet (t_leading sample_tbc) \<noteq> parent_of_class 7" by simp
qed

theorem tbc_stale_fetch_dropped_witness:
  "\<forall>up. \<exists>c1 seq1 es1 c2 seq2 es2.
     tbc_rep.run [ClockEvent sample_env (pmc_parent_event 7)] (sample_tbc, 1) = Some ((c1, seq1), es1) \<and>
     tbc_rep.run [ClockEvent sample_env (pmc_parent_event 6)] (c1, seq1) = Some ((c2, seq2), es2) \<and>
     2 \<in> fetches es1 \<and>
     tbc_AddEvent sample_env ((pmc_parent_event 6)\<lparr>ev_Data := Some (ParentTimeCurrentDS up 2)\<rparr>) seq2 c2 =
       (c2, seq2, [])"
proof
  fix up
  obtain c1 seq1 es1 where 1: "tbc_rep.run [ClockEvent sample_env (pmc_parent_event 7)] (sample_tbc, 1) =
      Some ((c1, seq1), es1)"
    by (cases "tbc_AddEvent sample_env (pmc_parent_event 7) 1 sample_tbc") simp
  obtain c2 seq2 es2 where 2: "tbc_rep.run [ClockEvent sample_env (pmc_parent_event 6)] (c1, seq1) =
      Some ((c2, seq2), es2)"
    by (cases "tbc_AddEvent sample_env (pmc_parent_event 6) seq1 c1") simp
  note f1 = fetching_event [OF fetching_sample _ _ 1, simplified]
  have f2: "fetches es2 \<noteq> {}"
    using f1 fetching_event [OF _ _ _ _ 2] by simp
  show "\<exists>c1 seq1 es1 c2 seq2 es2.
     tbc_rep.run [ClockEvent sample_env (pmc_parent_event 7)] (sample_tbc, 1) = Some ((c1, seq1), es1) \<and>
     tbc_rep.run [ClockEvent sample_env (pmc_parent_event 6)] (c1, seq1) = Some ((c2, seq2), es2) \<and>
     2 \<in> fetches es1 \<and>
     tbc_AddEvent sample_env ((pmc_parent_event 6)\<lparr>ev_Data := Some (ParentTimeCurrentDS up 2)\<rparr>) seq2 c2 =
       (c2, seq2, [])"
    using 1 2 f1 tbc_stale_fetch_dropped [OF 1 2 _ _ f2, of 2
        "(pmc_parent_event 6)\<lparr>ev_Data := Some (ParentTimeCurrentDS up 2)\<rparr>" up sample_env]
    by (auto simp: pmc_parent_event_def)
qed

theorem tbc_locks_when_in_sync_witness:
  "snd (tbc_inSyncCondition (sample_env\<lparr>e_now_ms := 1000\<rparr>)
     (sample_tbc\<lparr>c_data := [source_of PTP4l PTP_LOCKED, source_of TS2PHC PTP_LOCKED],
       t_syncState := tbc_start_state\<lparr>ss_LeadingIFace := ''eth0''\<rparr>,
       t_leading := (t_leading sample_tbc)\<lparr>lp_inSyncConditionThreshold := 100,
         lp_inSyncFilter := NewHysteresisFilter (Fin 100) (Fin 100) 1 1\<rparr>\<rparr>))"
proof -
  let ?c = "sample_tbc\<lparr>c_data := [source_of PTP4l PTP_LOCKED, source_of TS2PHC PTP_LOCKED],
       t_syncState := tbc_start_state\<lparr>ss_LeadingIFace := ''eth0''\<rparr>,
       t_leading := (t_leading sample_tbc)\<lparr>lp_inSyncConditionThreshold := 100,
         lp_inSyncFilter := NewHysteresisFilter (Fin 100) (Fin 100) 1 1\<rparr>\<rparr>"
  have "ss_State (t_syncState (fst (tbc_updateState (sample_env\<lparr>e_now_ms := 1000\<rparr>) ?c))) = PTP_LOCKED"
    by (simp add: tbc_updateState_def tbc_switch_def tbc_from_freerun_def tbc_inSyncCondition_def
        tbc_getLargestOffset_def sample_tbc_simps worst_ts2phc_def sample_env_def zero_sync_state_def
        NewHysteresisFilter_def hf_Config_def hf_zero_def hf_Update_def hf_count_def hf_next_def
        abs_exceeds_def Let_def)
  from tbc_locks_when_in_sync [OF this _ refl] show ?thesis
    by (simp add: sample_tbc_simps zero_sync_state_def)
qed

text \<open>
  Upstream data reaches the downstream ports only while LOCKED and for the current fetch: when a
  reply makes the T-BC write settings, the clock is LOCKED, the reply carries the current token, and
  the settings written to the controlled ports are the ones that were fetched.
\<close>

lemma tbc_forwards_only_locked:
  assumes "ev_Source ev = PMC" "ev_Data ev = Some (ParentTimeCurrentDS up t)"
    and "PmcSetGM cfg g \<in> set (snd (snd (tbc_AddEvent e ev seq c)))"
  shows "t = t_announceToken c \<and> ss_State (t_syncState c) = PTP_LOCKED \<and>
    cfg = lp_controlledPortsConfig (t_leading c) \<and>
    cq_ClockClass (gs_ClockQuality g) = pds_GrandmasterClockClass (pt_ParentDataSet up) \<and>
    gs_TimePropertiesDS g = pt_TimePropertiesDS up"
  using assms tbc_handleDownstream_sets [of cfg g up t c] by (simp add: tbc_AddEvent_def split_beta)

definition zero_upstream :: parent_time_current_ds where
  "zero_upstream = \<lparr>pt_ParentDataSet = parent_of_class 6, pt_TimePropertiesDS = zero_time_properties,
     pt_CurrentDS = \<lparr>cds_StepsRemoved = 1, cds_offsetFromMaster = Fin 0, cds_meanPathDelay = Fin 0\<rparr>\<rparr>"

text \<open>
  What a T-BC that is not LOCKED announces for itself carries its own class with unknown accuracy
  and no frequency traceability, and claims traceable time exactly in specified holdover (class 135).
\<close>

lemma tbc_announces_local_class:
  assumes "PmcSetGM cfg g \<in> set (tbc_announceLocalData e n c)"
  shows "cq_ClockClass (gs_ClockQuality g) = ss_ClockClass (t_syncState c) \<and>
    cq_ClockAccuracy (gs_ClockQuality g) = ClockAccuracyUnknown \<and>
    \<not> tp_FrequencyTraceable (gs_TimePropertiesDS g) \<and>
    (tp_TimeTraceable (gs_TimePropertiesDS g) \<longleftrightarrow> ss_ClockClass (t_syncState c) = 135)"
  by (rule tbc_announceLocalData_settings [OF assms])

end
