(* ===== verification/Conditions.thy ===== *)
theory Conditions
  imports Stats
begin

text \<open>
  \<open>pkg/process\<close>: the actions and states of a managed process and the conditions on which the
  process manager acts (\<open>conditions.go\<close>). Evaluating a condition returns its value and the
  condition afterwards, because \<open>All\<close> remembers which of its children have been seen true. A
  nil child is \<open>None\<close>; the children of a condition are not shared.
\<close>

section \<open>Snapshots and requests\<close>

text \<open>The two-level maps of the snapshot are keyed by (clock id, source).\<close>

record event_stats =
  es_Windows :: "((string \<times> event_source) \<times> window) list"
  es_States :: "((string \<times> event_source) \<times> ptp_state) list"
  es_ClockStates :: "(string \<times> ptp_state) list"
  es_OSClockState :: ptp_state
  es_OSClockE3State :: ptp_state

record stats_request =
  sr_ClockID :: string
  sr_Source :: event_source

datatype action = ActionStart | ActionStop | ActionRestart | ActionEnable | ActionDisable

datatype process_state = Created | Starting | Running | Stopping | Stopped | Dead

fun process_state_String :: "process_state \<Rightarrow> string" where
  "process_state_String Created = ''Created''"
| "process_state_String Starting = ''Starting''"
| "process_state_String Running = ''Running''"
| "process_state_String Stopping = ''Stopping''"
| "process_state_String Stopped = ''Stopped''"
| "process_state_String Dead = ''Dead''"

section \<open>Conditions\<close>

record offset_for_count =
  oc_ClockID :: string
  oc_ConfigName :: string
  oc_Source :: event_source
  oc_StateWanted :: ptp_state
  oc_MaxOffset :: f64
  oc_Count :: int

datatype condition =
    Never
  | Immediate string
  | OnStateAndOffsetForCount offset_for_count
  | OnProcessState (ps_cfg: string) (ps_source: string) (ps_state: ptp_state)
  | OnProcessUp (pu_cfg: string) (pu_source: event_source)
  | All "condition option list" "bool list option"
  | Any "condition option list"
  | OnPluginEvent string
  | OnProcessDown (pd_cfg: string) (pd_source: event_source)

text \<open>\<open>GetCondition\<close>: a nil process or a nil map of conditions is \<open>None\<close>.\<close>

definition GetCondition ::
  "(action \<Rightarrow> condition option) option \<Rightarrow> action \<Rightarrow> condition \<Rightarrow> condition" where
  "GetCondition conds a fallback =
     (case conds of None \<Rightarrow> fallback
      | Some m \<Rightarrow>
          (case m a of Some c \<Rightarrow> c
           | None \<Rightarrow> if a = ActionRestart
                     then (case m ActionStart of Some c \<Rightarrow> c | None \<Rightarrow> fallback) else fallback))"

definition eventEmpty :: "event \<Rightarrow> bool" where
  "eventEmpty ev \<longleftrightarrow> ev_Source ev = '''' \<and> ev_CfgName ev = '''' \<and> ev_Data ev = None \<and> \<not> ev_Reset ev"

definition eventHasPTPState :: "event_data option \<Rightarrow> bool" where
  "eventHasPTPState d =
     (case d of Some (OffsetData _) \<Rightarrow> True | Some (DPLLData _) \<Rightarrow> True
      | Some (StateData _) \<Rightarrow> True | Some (SyncEData _) \<Rightarrow> True | _ \<Rightarrow> False)"

definition offset_current :: "offset_for_count \<Rightarrow> event_stats \<Rightarrow> bool" where
  "offset_current c stats =
     (if oc_ConfigName c = '''' \<or> oc_ClockID c = '''' then False
      else (case map_of (es_States stats) (oc_ClockID c, oc_Source c) of
              None \<Rightarrow> False
            | Some st \<Rightarrow>
                if oc_StateWanted c \<noteq> st then False
                else (case map_of (es_Windows stats) (oc_ClockID c, oc_Source c) of
                        None \<Rightarrow> False
                      | Some w \<Rightarrow>
                          oc_Count c < int (w_CountSamples (\<lambda>x. f64_lt (f64_abs x) (oc_MaxOffset c)) w))))"

definition offset_met :: "offset_for_count \<Rightarrow> event \<Rightarrow> event_stats \<Rightarrow> bool" where
  "offset_met c ev stats =
     (if \<not> eventHasPTPState (ev_Data ev) \<or> ev_Reset ev then False
      else if oc_ConfigName c = '''' \<or> oc_ConfigName c \<noteq> ev_CfgName ev then False
      else if oc_Source c \<noteq> '''' \<and> oc_Source c \<noteq> ev_Source ev then False
      else offset_current c stats)"

definition process_state_current :: "string \<Rightarrow> string \<Rightarrow> ptp_state \<Rightarrow> event_stats \<Rightarrow> bool" where
  "process_state_current cfg src st stats =
     (if cfg = '''' then False
      else list_ex (\<lambda>((c, s), v). c = cfg \<and> (src = '''' \<or> src = s) \<and> v = st) (es_States stats))"

definition process_state_met :: "string \<Rightarrow> string \<Rightarrow> ptp_state \<Rightarrow> event \<Rightarrow> event_stats \<Rightarrow> bool" where
  "process_state_met cfg src st ev stats =
     (if \<not> eventHasPTPState (ev_Data ev) \<or> ev_Reset ev then False
      else if cfg \<noteq> ev_CfgName ev then False
      else if src \<noteq> '''' \<and> src \<noteq> ev_Source ev then False
      else process_state_current cfg (if src = '''' then ev_Source ev else src) st stats)"

text \<open>\<open>OnProcessUp.Met\<close> and \<open>OnProcessDown.Met\<close> differ in the wanted status.\<close>

definition process_status_met :: "int \<Rightarrow> string \<Rightarrow> event_source \<Rightarrow> event \<Rightarrow> bool" where
  "process_status_met want cfg src ev =
     (if eventEmpty ev then False
      else if src \<noteq> '''' \<and> ev_Source ev \<noteq> src then False
      else if cfg \<noteq> '''' \<and> ev_CfgName ev \<noteq> cfg then False
      else (case ev_Data ev of Some (ProcessStatusData s) \<Rightarrow> s = want | _ \<Rightarrow> False))"

definition plugin_met :: "string \<Rightarrow> event \<Rightarrow> bool" where
  "plugin_met name ev =
     (if eventEmpty ev then False
      else (case ev_Data ev of Some (PluginData n) \<Rightarrow> n = name | _ \<Rightarrow> False))"

definition all_false :: "'a list \<Rightarrow> bool list" where
  "all_false xs = map (\<lambda>_. False) xs"

text \<open>\<open>Met\<close> of a condition; \<open>met_all\<close> evaluates every child, \<open>met_any\<close> stops at the first true one.\<close>

fun Met :: "event \<Rightarrow> event_stats \<Rightarrow> condition \<Rightarrow> condition \<times> bool"
  and met_all :: "event \<Rightarrow> event_stats \<Rightarrow> condition option list \<Rightarrow> condition option list \<times> bool list"
  and met_any :: "event \<Rightarrow> event_stats \<Rightarrow> condition option list \<Rightarrow> condition option list \<times> bool" where
  "Met ev stats Never = (Never, False)"
| "Met ev stats (Immediate n) = (Immediate n, True)"
| "Met ev stats (OnStateAndOffsetForCount c) = (OnStateAndOffsetForCount c, offset_met c ev stats)"
| "Met ev stats (OnProcessState cfg src st) =
     (OnProcessState cfg src st, process_state_met cfg src st ev stats)"
| "Met ev stats (OnProcessUp cfg src) = (OnProcessUp cfg src, process_status_met 1 cfg src ev)"
| "Met ev stats (OnProcessDown cfg src) = (OnProcessDown cfg src, process_status_met 0 cfg src ev)"
| "Met ev stats (OnPluginEvent n) = (OnPluginEvent n, plugin_met n ev)"
| "Met ev stats (Any cs) = (let (cs', b) = met_any ev stats cs in (Any cs', b))"
| "Met ev stats (All cs met) =
     (if ev_Reset ev then (All cs (Some (all_false cs)), False)
      else
        (let met0 = (case met of None \<Rightarrow> all_false cs | Some m \<Rightarrow> m);
             (cs', now) = met_all ev stats cs;
             met1 = map2 (\<or>) met0 now
         in if cs = [] then (All cs' (Some met1), True)
            else if list_all id met1 then (All cs' (Some (all_false cs)), True)
            else (All cs' (Some met1), False)))"
| "met_all ev stats [] = ([], [])"
| "met_all ev stats (None # cs) = (let (cs', bs) = met_all ev stats cs in (None # cs', False # bs))"
| "met_all ev stats (Some c # cs) =
     (let (c', b) = Met ev stats c; (cs', bs) = met_all ev stats cs in (Some c' # cs', b # bs))"
| "met_any ev stats [] = ([], False)"
| "met_any ev stats (None # cs) = (let (cs', b) = met_any ev stats cs in (None # cs', b))"
| "met_any ev stats (Some c # cs) =
     (let (c', b) = Met ev stats c in
      if b then (Some c' # cs, True)
      else (let (cs', b') = met_any ev stats cs in (Some c' # cs', b')))"

text \<open>The types that implement \<open>StateAwareCondition\<close>.\<close>

fun state_aware :: "condition \<Rightarrow> bool" where
  "state_aware (OnPluginEvent _) = False"
| "state_aware (OnProcessDown _ _) = False"
| "state_aware _ = True"

type_synonym source_query = "string \<Rightarrow> string \<Rightarrow> bool"

text \<open>
  \<open>MetByCurrentState\<close>. \<open>all_current\<close> is the loop of \<open>All\<close>, which stops at the first child that is
  not met; \<open>ms\<close> are the remembered observations of the remaining children. A condition that is
  not state-aware has no such method; its equations are never used.
\<close>

fun MetByCurrentState :: "source_query option \<Rightarrow> event_stats \<Rightarrow> condition \<Rightarrow> condition \<times> bool"
  and all_current :: "source_query option \<Rightarrow> event_stats \<Rightarrow> bool list \<Rightarrow> condition option list \<Rightarrow>
    condition option list \<times> bool"
  and any_current :: "source_query option \<Rightarrow> event_stats \<Rightarrow> condition option list \<Rightarrow>
    condition option list \<times> bool" where
  "MetByCurrentState q stats Never = (Never, False)"
| "MetByCurrentState q stats (Immediate n) = (Immediate n, True)"
| "MetByCurrentState q stats (OnStateAndOffsetForCount c) =
     (OnStateAndOffsetForCount c, offset_current c stats)"
| "MetByCurrentState q stats (OnProcessState cfg src st) =
     (OnProcessState cfg src st, process_state_current cfg src st stats)"
| "MetByCurrentState q stats (OnProcessUp cfg src) =
     (OnProcessUp cfg src, (case q of None \<Rightarrow> False | Some up \<Rightarrow> up src cfg))"
| "MetByCurrentState q stats (OnProcessDown cfg src) = (OnProcessDown cfg src, False)"
| "MetByCurrentState q stats (OnPluginEvent n) = (OnPluginEvent n, False)"
| "MetByCurrentState q stats (Any cs) = (let (cs', b) = any_current q stats cs in (Any cs', b))"
| "MetByCurrentState q stats (All cs met) =
     (let (cs', b) = all_current q stats (case met of None \<Rightarrow> all_false cs | Some m \<Rightarrow> m) cs
      in (All cs' (if b then None else met), b))"
| "all_current q stats ms [] = ([], True)"
| "all_current q stats ms (None # cs) =
     (if ms \<noteq> [] \<and> hd ms
      then (let (cs', b) = all_current q stats (tl ms) cs in (None # cs', b)) else (None # cs, False))"
| "all_current q stats ms (Some c # cs) =
     (if state_aware c then
        (let (c', b) = MetByCurrentState q stats c in
         if \<not> b then (Some c' # cs, False)
         else (let (cs', b') = all_current q stats (tl ms) cs in (Some c' # cs', b')))
      else if ms \<noteq> [] \<and> hd ms
      then (let (cs', b) = all_current q stats (tl ms) cs in (Some c # cs', b))
      else (Some c # cs, False))"
| "any_current q stats [] = ([], False)"
| "any_current q stats (None # cs) = (let (cs', b) = any_current q stats cs in (None # cs', b))"
| "any_current q stats (Some c # cs) =
     (if state_aware c then
        (let (c', b) = MetByCurrentState q stats c in
         if b then (Some c' # cs, True)
         else (let (cs', b') = any_current q stats cs in (Some c' # cs', b')))
      else (let (cs', b) = any_current q stats cs in (Some c # cs', b)))"

fun GetStatsRequests :: "condition \<Rightarrow> stats_request list"
  and requests_of :: "condition option list \<Rightarrow> stats_request list" where
  "GetStatsRequests (OnStateAndOffsetForCount c) =
     [\<lparr>sr_ClockID = oc_ClockID c, sr_Source = oc_Source c\<rparr>]"
| "GetStatsRequests (OnProcessState cfg src st) = [\<lparr>sr_ClockID = cfg, sr_Source = src\<rparr>]"
| "GetStatsRequests (All cs met) =
     fold (\<lambda>r seen. if r \<in> set seen then seen else seen @ [r]) (requests_of cs) []"
| "GetStatsRequests (Any cs) =
     fold (\<lambda>r seen. if r \<in> set seen then seen else seen @ [r]) (requests_of cs) []"
| "GetStatsRequests _ = []"
| "requests_of [] = []"
| "requests_of (None # cs) = requests_of cs"
| "requests_of (Some c # cs) = GetStatsRequests c @ requests_of cs"

section \<open>Lemmas\<close>

text \<open>The requests of the leaves, as a set.\<close>

fun leaf_requests :: "condition \<Rightarrow> stats_request set" where
  "leaf_requests (OnStateAndOffsetForCount c) = {\<lparr>sr_ClockID = oc_ClockID c, sr_Source = oc_Source c\<rparr>}"
| "leaf_requests (OnProcessState cfg src st) = {\<lparr>sr_ClockID = cfg, sr_Source = src\<rparr>}"
| "leaf_requests (All cs met) = (\<Union>oc \<in> set cs. case oc of None \<Rightarrow> {} | Some c \<Rightarrow> leaf_requests c)"
| "leaf_requests (Any cs) = (\<Union>oc \<in> set cs. case oc of None \<Rightarrow> {} | Some c \<Rightarrow> leaf_requests c)"
| "leaf_requests _ = {}"

lemma fold_unseen:
  "set (fold (\<lambda>r seen. if r \<in> set seen then seen else seen @ [r]) rs seen) = set seen \<union> set rs"
  "distinct seen \<Longrightarrow> distinct (fold (\<lambda>r seen. if r \<in> set seen then seen else seen @ [r]) rs seen)"
  by (induction rs arbitrary: seen) auto

lemma requests_of_set:
  "set (GetStatsRequests c) = leaf_requests c"
  "set (requests_of cs) = (\<Union>oc \<in> set cs. case oc of None \<Rightarrow> {} | Some c \<Rightarrow> leaf_requests c)"
  by (induction c and cs rule: GetStatsRequests_requests_of.induct) (auto simp: fold_unseen)

text \<open>Two snapshots agree on a request when they hold the same entries for it.\<close>

definition asked :: "stats_request \<Rightarrow> (string \<times> event_source) \<times> 'v \<Rightarrow> bool" where
  "asked r kv \<longleftrightarrow> fst (fst kv) = sr_ClockID r \<and> (sr_Source r = '''' \<or> snd (fst kv) = sr_Source r)"

definition agree_on :: "event_stats \<Rightarrow> event_stats \<Rightarrow> stats_request \<Rightarrow> bool" where
  "agree_on a b r \<longleftrightarrow>
     filter (asked r) (es_States a) = filter (asked r) (es_States b) \<and>
     filter (asked r) (es_Windows a) = filter (asked r) (es_Windows b)"

lemma map_of_asked:
  "asked r (k, undefined) \<Longrightarrow> map_of (filter (asked r) xs) k = map_of xs k"
  by (induction xs) (auto simp: asked_def)

lemma list_ex_asked:
  "(\<And>x. x \<in> set xs \<Longrightarrow> P x \<Longrightarrow> asked r x) \<Longrightarrow> list_ex P (filter (asked r) xs) = list_ex P xs"
  by (induction xs) auto

lemma offset_current_agree:
  assumes "agree_on a b \<lparr>sr_ClockID = oc_ClockID c, sr_Source = oc_Source c\<rparr>"
  shows "offset_current c a = offset_current c b"
proof -
  let ?r = "\<lparr>sr_ClockID = oc_ClockID c, sr_Source = oc_Source c\<rparr>"
  let ?k = "(oc_ClockID c, oc_Source c)"
  have "map_of (es_States a) ?k = map_of (es_States b) ?k"
    "map_of (es_Windows a) ?k = map_of (es_Windows b) ?k"
    using assms map_of_asked [of ?r ?k "es_States a"] map_of_asked [of ?r ?k "es_States b"]
      map_of_asked [of ?r ?k "es_Windows a"] map_of_asked [of ?r ?k "es_Windows b"]
    by (simp_all add: agree_on_def asked_def)
  then show ?thesis unfolding offset_current_def by (simp only:)
qed

lemma process_state_current_agree:
  assumes "agree_on a b \<lparr>sr_ClockID = cfg, sr_Source = src\<rparr>" and "src = '''' \<or> src' = src"
  shows "process_state_current cfg src' st a = process_state_current cfg src' st b"
proof -
  let ?r = "\<lparr>sr_ClockID = cfg, sr_Source = src\<rparr>"
  let ?P = "\<lambda>((c, s), v). c = cfg \<and> (src' = '''' \<or> src' = s) \<and> v = st"
  have "list_ex ?P (filter (asked ?r) (es_States x)) = list_ex ?P (es_States x)" for x
    by (rule list_ex_asked) (use assms(2) in \<open>auto simp: asked_def\<close>)
  from this [of a] this [of b] assms(1) show ?thesis
    by (simp add: process_state_current_def agree_on_def)
qed

lemma Met_agree:
  "\<forall>r \<in> leaf_requests c. agree_on a b r \<Longrightarrow> Met ev a c = Met ev b c"
  "\<forall>oc \<in> set cs. \<forall>c. oc = Some c \<longrightarrow> (\<forall>r \<in> leaf_requests c. agree_on a b r) \<Longrightarrow>
   met_all ev a cs = met_all ev b cs"
  "\<forall>oc \<in> set cs. \<forall>c. oc = Some c \<longrightarrow> (\<forall>r \<in> leaf_requests c. agree_on a b r) \<Longrightarrow>
   met_any ev a cs = met_any ev b cs"
proof (induction ev a c and ev a cs and ev a cs rule: Met_met_all_met_any.induct)
  case (3 ev stats c)
  then have "offset_current c stats = offset_current c b" by (intro offset_current_agree) simp
  then show ?case by (simp add: offset_met_def)
next
  case (4 ev stats cfg src st)
  then have "process_state_current cfg src' st stats = process_state_current cfg src' st b"
    if "src = '''' \<or> src' = src" for src'
    using that by (intro process_state_current_agree [where src = src]) simp_all
  then show ?case by (auto simp: process_state_met_def)
next
  case (8 ev stats cs)
  then have "met_any ev stats cs = met_any ev b cs" by force
  then show ?case by simp
next
  case (9 ev stats cs met)
  then have "met_all ev stats cs = met_all ev b cs" if "\<not> ev_Reset ev" using that by force
  then show ?case by simp
next
  case (12 ev stats c cs)
  then show ?case by (cases "Met ev stats c") simp
next
  case (15 ev stats c cs)
  then have 1: "Met ev stats c = Met ev b c" by simp
  obtain c' t where 2: "Met ev stats c = (c', t)" by fastforce
  have "\<not> t \<Longrightarrow> met_any ev stats cs = met_any ev b cs"
    using 15(2) [of "(c', t)" c' t] 15(3) 2 by force
  moreover have "Met ev b c = (c', t)" using 1 2 by metis
  ultimately show ?case by (simp add: 2)
qed simp_all

lemma MetByCurrentState_agree:
  "\<forall>r \<in> leaf_requests c. agree_on a b r \<Longrightarrow> MetByCurrentState q a c = MetByCurrentState q b c"
  "\<forall>oc \<in> set cs. \<forall>c. oc = Some c \<longrightarrow> (\<forall>r \<in> leaf_requests c. agree_on a b r) \<Longrightarrow>
   all_current q a ms cs = all_current q b ms cs"
  "\<forall>oc \<in> set cs. \<forall>c. oc = Some c \<longrightarrow> (\<forall>r \<in> leaf_requests c. agree_on a b r) \<Longrightarrow>
   any_current q a cs = any_current q b cs"
proof (induction q a c and q a ms cs and q a cs
    rule: MetByCurrentState_all_current_any_current.induct)
  case (3 q stats c)
  then have "offset_current c stats = offset_current c b" by (intro offset_current_agree) simp
  then show ?case by simp
next
  case (4 q stats cfg src st)
  then have "process_state_current cfg src st stats = process_state_current cfg src st b"
    by (intro process_state_current_agree [where src = src]) simp_all
  then show ?case by simp
next
  case (8 q stats cs)
  then have "any_current q stats cs = any_current q b cs" by force
  then show ?case by simp
next
  case (9 q stats cs met)
  then have "all_current q stats (case met of None \<Rightarrow> all_false cs | Some m \<Rightarrow> m) cs =
      all_current q b (case met of None \<Rightarrow> all_false cs | Some m \<Rightarrow> m) cs" by force
  then show ?case by simp
next
  case (12 q stats ms c cs)
  then show ?case by (cases "MetByCurrentState q b c") auto
next
  case (15 q stats c cs)
  then show ?case by (cases "MetByCurrentState q b c") auto
qed simp_all

text \<open>What a child contributes to a composite.\<close>

definition observed :: "event \<Rightarrow> event_stats \<Rightarrow> condition option \<Rightarrow> bool" where
  "observed ev stats oc = (case oc of None \<Rightarrow> False | Some c \<Rightarrow> snd (Met ev stats c))"

lemma met_all_snd: "snd (met_all ev stats cs) = map (observed ev stats) cs"
proof (induction cs)
  case (Cons oc cs)
  then show ?case by (cases oc) (simp_all add: observed_def split_beta)
qed simp

lemma met_any_snd: "snd (met_any ev stats cs) = list_ex (observed ev stats) cs"
proof (induction cs)
  case (Cons oc cs)
  then show ?case by (cases oc) (simp_all add: observed_def split_beta)
qed simp

text \<open>A condition without an \<open>All\<close> inside remembers nothing.\<close>

fun flat :: "condition \<Rightarrow> bool" where
  "flat (All cs met) = False"
| "flat (Any cs) = list_all (\<lambda>oc. case oc of None \<Rightarrow> True | Some c \<Rightarrow> flat c) cs"
| "flat _ = True"

abbreviation flat_children :: "condition option list \<Rightarrow> bool" where
  "flat_children \<equiv> list_all (\<lambda>oc. case oc of None \<Rightarrow> True | Some c \<Rightarrow> flat c)"

lemma Met_flat:
  "flat c \<Longrightarrow> fst (Met ev stats c) = c"
  "flat_children cs \<Longrightarrow> fst (met_all ev stats cs) = cs"
  "flat_children cs \<Longrightarrow> fst (met_any ev stats cs) = cs"
proof (induction ev stats c and ev stats cs and ev stats cs rule: Met_met_all_met_any.induct)
  case (12 ev stats c cs)
  then show ?case by (cases "Met ev stats c") (simp add: split_beta)
next
  case (15 ev stats c cs)
  then show ?case by (cases "Met ev stats c") (simp add: split_beta)
qed (simp_all add: split_beta Let_def)

text \<open>Evaluating a condition on a sequence of events, each with the snapshot of its time.\<close>

fun run_met :: "(event \<times> event_stats) list \<Rightarrow> condition \<Rightarrow> condition \<times> bool list" where
  "run_met [] c = (c, [])"
| "run_met (x # xs) c =
     (let (c1, b) = Met (fst x) (snd x) c; (c2, bs) = run_met xs c1 in (c2, b # bs))"

lemma run_met_append:
  "run_met (xs @ ys) c =
   (let (c1, bs) = run_met xs c; (c2, bs') = run_met ys c1 in (c2, bs @ bs'))"
  by (induction xs arbitrary: c) (simp_all add: split_beta Let_def)

lemma map2_or: "map2 (\<or>) (map f cs) (map g cs) = map (\<lambda>c. f c \<or> g c) cs"
  by (induction cs) auto

lemma list_all_map_or: "list_all id (map (\<lambda>c. f c \<or> g c) cs) \<longleftrightarrow> (\<forall>c \<in> set cs. f c \<or> g c)"
  by (auto simp: list_all_iff)

text \<open>One event on an \<open>All\<close> whose observations are \<open>f\<close>.\<close>

lemma Met_All_step:
  assumes "\<not> ev_Reset ev" "cs \<noteq> []" "flat_children cs"
    and "(case met of None \<Rightarrow> all_false cs | Some m \<Rightarrow> m) = map f cs"
  shows "Met ev stats (All cs met) =
    (if \<forall>oc \<in> set cs. f oc \<or> observed ev stats oc then (All cs (Some (all_false cs)), True)
     else (All cs (Some (map (\<lambda>oc. f oc \<or> observed ev stats oc) cs)), False))"
proof -
  have "met_all ev stats cs = (cs, map (observed ev stats) cs)"
    using Met_flat(2) [OF assms(3), of ev stats] met_all_snd [of ev stats cs]
    by (simp add: prod_eq_iff)
  with assms(1,2,4) show ?thesis by (simp add: Let_def map2_or list_all_map_or)
qed

lemma All_unfired:
  assumes "cs \<noteq> []" "flat_children cs" "met \<in> {None, Some (all_false cs)}"
    and "\<forall>x \<in> set xs. \<not> ev_Reset (fst x)" "\<forall>b \<in> set (snd (run_met xs (All cs met))). \<not> b"
  shows "\<exists>met'. fst (run_met xs (All cs met)) = All cs met' \<and>
    (case met' of None \<Rightarrow> all_false cs | Some m \<Rightarrow> m) =
      map (\<lambda>oc. \<exists>x \<in> set xs. observed (fst x) (snd x) oc) cs"
  using assms(4,5)
proof (induction xs rule: rev_induct)
  case Nil
  then show ?case using assms(3) by (auto simp: all_false_def)
next
  case (snoc x xs)
  have "\<forall>b \<in> set (snd (run_met xs (All cs met))). \<not> b"
    using snoc.prems(2) by (auto simp: run_met_append split_beta Let_def)
  with snoc obtain met1 where 1: "fst (run_met xs (All cs met)) = All cs met1"
    "(case met1 of None \<Rightarrow> all_false cs | Some m \<Rightarrow> m) =
      map (\<lambda>oc. \<exists>x \<in> set xs. observed (fst x) (snd x) oc) cs"
    by auto
  have "\<not> ev_Reset (fst x)" using snoc.prems(1) by simp
  note step = Met_All_step [OF this assms(1,2) 1(2), of "snd x"]
  have "\<not> snd (Met (fst x) (snd x) (All cs met1))"
    using snoc.prems(2) by (simp add: run_met_append split_beta Let_def 1(1))
  with step have "fst (Met (fst x) (snd x) (All cs met1)) =
      All cs (Some (map (\<lambda>oc. (\<exists>x \<in> set xs. observed (fst x) (snd x) oc) \<or>
        observed (fst x) (snd x) oc) cs))"
    by (auto split: if_splits)
  then show ?case
    by (auto simp: run_met_append split_beta Let_def 1(1))
qed

section \<open>Properties\<close>

text \<open>
  \<open>All\<close> fires exactly when every child has been seen true: fed with events (each with its own
  snapshot) from a fresh or just-fired state, without resets and without having fired yet, the next
  event fires it if and only if each child was met by that event or by an earlier one - not
  necessarily all by the same event. A nil child is never seen.
\<close>

lemma all_fires_when_all_seen:
  assumes "cs \<noteq> []" "flat_children cs" "met \<in> {None, Some (all_false cs)}"
    and "\<forall>x \<in> set (xs @ [y]). \<not> ev_Reset (fst x)" "\<forall>b \<in> set (snd (run_met xs (All cs met))). \<not> b"
  shows "last (snd (run_met (xs @ [y]) (All cs met))) \<longleftrightarrow>
    (\<forall>oc \<in> set cs. \<exists>x \<in> set (xs @ [y]). observed (fst x) (snd x) oc)"
proof -
  obtain met1 where 1: "fst (run_met xs (All cs met)) = All cs met1"
    "(case met1 of None \<Rightarrow> all_false cs | Some m \<Rightarrow> m) =
      map (\<lambda>oc. \<exists>x \<in> set xs. observed (fst x) (snd x) oc) cs"
    using All_unfired [OF assms(1-3) _ assms(5)] assms(4) by auto
  have "\<not> ev_Reset (fst y)" using assms(4) by simp
  from Met_All_step [OF this assms(1,2) 1(2), of "snd y"] show ?thesis
    by (auto simp: run_met_append split_beta Let_def 1(1))
qed

definition up_event :: "event_source \<Rightarrow> event" where
  "up_event src = ProcessStatusEvent 0 src ''ptp4l.0.config'' BC '''' 1"

definition no_stats :: event_stats where
  "no_stats = \<lparr>es_Windows = [], es_States = [], es_ClockStates = [], es_OSClockState = PTP_FREERUN,
     es_OSClockE3State = PTP_NOTSET\<rparr>"

text \<open>
  The statistics a condition asks for are enough: two snapshots with the same entries for the
  requests of a condition give it the same value and the same memory, for every event and when it
  is evaluated on the current state.
\<close>

lemma requests_suffice:
  assumes "\<forall>r \<in> set (GetStatsRequests c). agree_on a b r"
  shows "Met ev a c = Met ev b c \<and> MetByCurrentState q a c = MetByCurrentState q b c"
  using assms Met_agree(1) [of c a b ev] MetByCurrentState_agree(1) [of c a b q]
  by (simp add: requests_of_set)

text \<open>
  The requests of a condition are those of its leaves, at any depth, and a composite asks for
  each only once.
\<close>

lemma requests_of_leaves:
  "set (GetStatsRequests c) = leaf_requests c \<and> distinct (GetStatsRequests c)"
  by (cases c) (simp_all add: requests_of_set(1) [symmetric] requests_of_set(2) fold_unseen)

end
