(* ===== verification/ClockMgr.thy ===== *)
theory ClockMgr
  imports BcTimers HaClock TbcClock Conditions
begin

text \<open>
  \<open>pkg/clockmgr/clockmgr.go\<close>: the clock manager owns the clocks, the shared OS clock, the IPC
  cache and the metrics, and evaluates one event at a time under its lock. A clock registered
  under several config names is one object: names map to addresses in \<open>cm_store\<close>. Gauges are a
  store from metric name and label values to the value set; the node label is constant and left
  out. The alias function of \<open>pkg/alias\<close> is an argument, as is the time stamp \<open>ts\<close> of messages.
\<close>

section \<open>Any clock\<close>

datatype any_clock = BCc bc_clock | HAc ha_clock | GMc gm_clock | TBCc tbc_clock

fun clk_GetState :: "any_clock \<Rightarrow> ptp_state" where
  "clk_GetState (BCc c) = b_syncState c"
| "clk_GetState (HAc c) = h_syncState c"
| "clk_GetState (GMc c) = ss_State (g_syncState c)"
| "clk_GetState (TBCc c) = ss_State (t_syncState c)"

fun clk_ClockType :: "any_clock \<Rightarrow> clock_type" where
  "clk_ClockType (BCc c) = bc_ClockType c"
| "clk_ClockType (HAc c) = HA"
| "clk_ClockType (GMc c) = GM"
| "clk_ClockType (TBCc c) = TBC"

fun clk_ConfigNames :: "any_clock \<Rightarrow> string list" where
  "clk_ConfigNames (BCc c) = base_ConfigNames c"
| "clk_ConfigNames (HAc c) = ha_ConfigNames c"
| "clk_ConfigNames (GMc c) = base_ConfigNames c"
| "clk_ConfigNames (TBCc c) = base_ConfigNames c"

fun clk_overall :: "any_clock \<Rightarrow> ptp_state" where
  "clk_overall (BCc c) = c_overall c"
| "clk_overall (HAc c) = c_overall c"
| "clk_overall (GMc c) = c_overall c"
| "clk_overall (TBCc c) = c_overall c"

fun clk_ProcessDataForConfig :: "any_clock \<Rightarrow> os_clock \<Rightarrow> string \<Rightarrow> data list" where
  "clk_ProcessDataForConfig (BCc c) oc cfg = base_ProcessData c oc"
| "clk_ProcessDataForConfig (HAc c) oc cfg = ha_ProcessDataForConfig c oc cfg"
| "clk_ProcessDataForConfig (GMc c) oc cfg = base_ProcessData c oc"
| "clk_ProcessDataForConfig (TBCc c) oc cfg = base_ProcessData c oc"

fun clk_SetEventLoopbackFunc :: "any_clock \<Rightarrow> any_clock" where
  "clk_SetEventLoopbackFunc (BCc c) = BCc (bc_SetEventLoopbackFunc c)"
| "clk_SetEventLoopbackFunc (HAc c) = HAc (ha_SetEventLoopbackFunc c)"
| "clk_SetEventLoopbackFunc c = c"

text \<open>\<open>AddEvent\<close>: clock, token counter, effects, returned state, and the event as it is left.\<close>

record add_result =
  ar_clock :: any_clock
  ar_seq :: u64
  ar_effects :: "effect list"
  ar_state :: sync_state
  ar_event :: event

fun clk_AddEvent :: "env \<Rightarrow> event \<Rightarrow> u64 \<Rightarrow> any_clock \<Rightarrow> add_result option" where
  "clk_AddEvent e ev seq (BCc c) =
     (case bc_AddEvent_result e ev c of None \<Rightarrow> None
      | Some (c', es, ss) \<Rightarrow> Some \<lparr>ar_clock = BCc c', ar_seq = seq, ar_effects = es, ar_state = ss, ar_event = ev\<rparr>)"
| "clk_AddEvent e ev seq (HAc c) =
     (case ha_AddEvent e ev c of None \<Rightarrow> None
      | Some (c', es, ss) \<Rightarrow> Some \<lparr>ar_clock = HAc c', ar_seq = seq, ar_effects = es, ar_state = ss, ar_event = ev\<rparr>)"
| "clk_AddEvent e ev seq (GMc c) =
     (case gm_AddEvent e ev c of
        (c', es, ss, ev') \<Rightarrow> Some \<lparr>ar_clock = GMc c', ar_seq = seq, ar_effects = es, ar_state = ss, ar_event = ev'\<rparr>)"
| "clk_AddEvent e ev seq (TBCc c) =
     (case tbc_AddEvent e ev seq c of
        (c', seq', es) \<Rightarrow> Some \<lparr>ar_clock = TBCc c', ar_seq = seq', ar_effects = es,
           ar_state = t_syncState c', ar_event = ev\<rparr>)"

fun clk_SystemClockUpdate :: "env \<Rightarrow> any_clock \<Rightarrow> any_clock \<times> effect list" where
  "clk_SystemClockUpdate e (BCc c) = (case bc_SystemClockUpdate e c of (c', es) \<Rightarrow> (BCc c', es))"
| "clk_SystemClockUpdate e (HAc c) = (case ha_SystemClockUpdate e c of (c', es) \<Rightarrow> (HAc c', es))"
| "clk_SystemClockUpdate e (GMc c) = (case gm_SystemClockUpdate e c of (c', es) \<Rightarrow> (GMc c', es))"
| "clk_SystemClockUpdate e (TBCc c) = (case tbc_SystemClockUpdate e c of (c', es) \<Rightarrow> (TBCc c', es))"

fun clk_Reset :: "any_clock \<Rightarrow> os_clock \<Rightarrow> u64 \<Rightarrow> any_clock \<times> os_clock \<times> u64 \<times> effect list" where
  "clk_Reset (BCc c) oc seq = (case bc_Reset c oc of (c', oc', es) \<Rightarrow> (BCc c', oc', seq, es))"
| "clk_Reset (HAc c) oc seq = (case ha_Reset c oc of (c', oc', es) \<Rightarrow> (HAc c', oc', seq, es))"
| "clk_Reset (GMc c) oc seq = (case gm_Reset c oc of (c', oc') \<Rightarrow> (GMc c', oc', seq, []))"
| "clk_Reset (TBCc c) oc seq = (case tbc_Reset c oc seq of (c', oc', seq') \<Rightarrow> (TBCc c', oc', seq', []))"

section \<open>State of the manager\<close>

record metric_key =
  mk_cfgName :: string
  mk_process :: string
  mk_iface :: string
  mk_dataType :: string

type_synonym gauge = "string \<times> string list"

record clock_mgr =
  cm_metricCache :: "(metric_key \<times> gauge) list"
  cm_registeredGauges :: "string list"
  cm_offsetMetric :: bool
  cm_clockMetric :: bool
  cm_clockClassMetric :: bool
  cm_haMetric :: bool
  cm_gauges :: "(gauge \<times> f64) list"
  cm_clocks :: "(string \<times> nat) list"
  cm_store :: "any_clock list"
  cm_osClock :: os_clock
  cm_ipcCache :: "cache option"
  cm_applyingProfiles :: bool
  cm_syncStatus :: bool
  cm_statsUpdates :: "event_stats option"
  cm_osClockConfigs :: "string list"
  cm_announceSeq :: u64
  cm_started :: "effect list"
  cm_stdout :: "string list"

definition GetClock :: "string \<Rightarrow> clock_mgr \<Rightarrow> any_clock option" where
  "GetClock cfg m = (case map_of (cm_clocks m) cfg of Some a \<Rightarrow> Some (cm_store m ! a) | None \<Rightarrow> None)"

definition put_clock :: "string \<Rightarrow> any_clock \<Rightarrow> clock_mgr \<Rightarrow> clock_mgr" where
  "put_clock cfg c m =
     (case map_of (cm_clocks m) cfg of
        Some a \<Rightarrow> m\<lparr>cm_store := (cm_store m)[a := c]\<rparr> | None \<Rightarrow> m)"

definition signalSyncStatus :: "clock_mgr \<Rightarrow> clock_mgr" where
  "signalSyncStatus m = m\<lparr>cm_syncStatus := True\<rparr>"

definition cm_sendIPC :: "string \<Rightarrow> message \<Rightarrow> clock_mgr \<Rightarrow> clock_mgr" where
  "cm_sendIPC ts msg m =
     m\<lparr>cm_ipcCache := map_option (\<lambda>c. fst (cache_Send ts msg c)) (cm_ipcCache m)\<rparr>"

text \<open>The effects of a clock: messages go to the cache, the rest are goroutines and pmc calls.\<close>

fun perform :: "string \<Rightarrow> effect list \<Rightarrow> clock_mgr \<Rightarrow> clock_mgr" where
  "perform ts [] m = m"
| "perform ts (SendIPC msg # es) m = perform ts es (cm_sendIPC ts msg m)"
| "perform ts (x # es) m = perform ts es (m\<lparr>cm_started := cm_started m @ [x]\<rparr>)"

section \<open>Statistics for the process manager\<close>

definition add_stats :: "stats_request \<Rightarrow> data \<Rightarrow> event_stats \<Rightarrow> event_stats" where
  "add_stats req d s =
     (if sr_Source req \<noteq> '''' \<and> d_ProcessName d \<noteq> sr_Source req then s
      else
        (let key = (sr_ClockID req, d_ProcessName d);
             s1 = s\<lparr>es_States := AList.update key (d_State d) (es_States s)\<rparr>
         in (case d_Window d of
               Some w \<Rightarrow> s1\<lparr>es_Windows := AList.update key (w_Snapshot w) (es_Windows s1)\<rparr>
             | None \<Rightarrow> s1)))"

definition snapshot_request :: "clock_mgr \<Rightarrow> stats_request \<Rightarrow> event_stats \<Rightarrow> event_stats" where
  "snapshot_request m req s =
     (case GetClock (sr_ClockID req) m of
        Some clk \<Rightarrow>
          fold (add_stats req) (clk_ProcessDataForConfig clk (cm_osClock m) (sr_ClockID req))
            (s\<lparr>es_ClockStates := AList.update (sr_ClockID req) (clk_GetState clk) (es_ClockStates s)\<rparr>)
      | None \<Rightarrow> fold (add_stats req) (oc_data (cm_osClock m)) s)"

definition snapshotStats :: "stats_request list \<Rightarrow> clock_mgr \<Rightarrow> event_stats" where
  "snapshotStats requests m =
     fold (snapshot_request m) requests
       \<lparr>es_Windows = [], es_States = [], es_ClockStates = [],
        es_OSClockState = oc_State (cm_osClock m), es_OSClockE3State = oc_E3State (cm_osClock m)\<rparr>"

text \<open>The channel of capacity one keeps the latest snapshot.\<close>

definition publishStats :: "clock_mgr \<Rightarrow> clock_mgr" where
  "publishStats m =
     (let all = (\<lambda>cfg. \<lparr>sr_ClockID = cfg, sr_Source = ''''\<rparr>);
          requests = map all (map fst (cm_clocks m)) @
            map all (filter (\<lambda>cfg. map_of (cm_clocks m) cfg = None) (cm_osClockConfigs m))
      in m\<lparr>cm_statsUpdates := Some (snapshotStats requests m)\<rparr>)"

section \<open>The OS clock\<close>

definition os_zero :: os_clock where
  "os_zero = \<lparr>oc_data = [], oc_State = PTP_FREERUN, oc_E3State = PTP_NOTSET,
     oc_IFace = ''CLOCK_REALTIME'', oc_Offset = 0, oc_filter = hf_zero,
     oc_filteredState = PTP_EMPTY, oc_filterConfigured = False\<rparr>"

definition Init :: "bool \<Rightarrow> bool \<Rightarrow> bool \<Rightarrow> cache option \<Rightarrow> u64 \<Rightarrow> clock_mgr" where
  "Init offsetM clockM classM ipc seq =
     publishStats \<lparr>cm_metricCache = [], cm_registeredGauges = [], cm_offsetMetric = offsetM,
       cm_clockMetric = clockM, cm_clockClassMetric = classM, cm_haMetric = False, cm_gauges = [],
       cm_clocks = [], cm_store = [], cm_osClock = os_zero, cm_ipcCache = ipc,
       cm_applyingProfiles = False, cm_syncStatus = False, cm_statsUpdates = None,
       cm_osClockConfigs = [], cm_announceSeq = seq, cm_started = [], cm_stdout = []\<rparr>"

definition worstClockState :: "clock_mgr \<Rightarrow> ptp_state" where
  "worstClockState m = WorstOfPtpStates (map (\<lambda>(cfg, a). clk_GetState (cm_store m ! a)) (cm_clocks m))"

definition derivedE3 :: "clock_mgr \<Rightarrow> ptp_state" where
  "derivedE3 m =
     (if cm_clocks m = [] then oc_State (cm_osClock m)
      else DeriveOSClockState (worstClockState m) (oc_State (cm_osClock m)))"

definition emitOSClockState :: "string \<Rightarrow> clock_mgr \<Rightarrow> clock_mgr" where
  "emitOSClockState ts m =
     (let derived = derivedE3 m in
      if derived = PTP_NOTSET \<or> derived = oc_E3State (cm_osClock m) then m
      else
        (let m1 = m\<lparr>cm_osClock := (cm_osClock m)\<lparr>oc_E3State := derived\<rparr>\<rparr>
         in cm_sendIPC ts (new_message TypeOSClockState '''' (oc_IFace (cm_osClock m1))
              (StateValue (PtpStateToIPCState derived) (oc_Offset (cm_osClock m1)))) m1))"

definition notify_clock :: "env \<Rightarrow> string \<Rightarrow> string \<times> nat \<Rightarrow> clock_mgr \<Rightarrow> clock_mgr" where
  "notify_clock e ts entry m =
     (let (c, es) = clk_SystemClockUpdate (e\<lparr>e_os_state := oc_State (cm_osClock m)\<rparr>)
            (cm_store m ! snd entry)
      in perform ts es (m\<lparr>cm_store := (cm_store m)[snd entry := c]\<rparr>))"

text \<open>\<open>handleOSClockEvent\<close>: \<open>None\<close> when the OS clock does not accept the event.\<close>

definition handleOSClockEvent :: "env \<Rightarrow> string \<Rightarrow> event \<Rightarrow> clock_mgr \<Rightarrow> clock_mgr option" where
  "handleOSClockEvent e ts ev m =
     (let previous = oc_State (cm_osClock m);
          (oc, accepted) = os_AddEvent (e_now_s e) ev (cm_osClock m)
      in if \<not> accepted then None
         else
           (let m1 = m\<lparr>cm_osClock := oc, cm_osClockConfigs := List.insert (ev_CfgName ev) (cm_osClockConfigs m)\<rparr>;
                m2 = emitOSClockState ts m1
            in if oc_State (cm_osClock m2) = previous then Some m2
               else Some (fold (notify_clock e ts) (cm_clocks m2) (signalSyncStatus m2))))"

section \<open>Metrics\<close>

definition set_gauge :: "gauge \<Rightarrow> f64 \<Rightarrow> clock_mgr \<Rightarrow> clock_mgr" where
  "set_gauge g v m = m\<lparr>cm_gauges := AList.update g v (cm_gauges m)\<rparr>"

definition updateClockStateMetrics :: "ptp_state \<Rightarrow> string \<Rightarrow> string \<Rightarrow> clock_mgr \<Rightarrow> clock_mgr" where
  "updateClockStateMetrics state process iface m =
     (if \<not> cm_clockMetric m then m
      else if process = '''' \<or> iface = '''' then m
      else set_gauge (''clock_state'', [process, iface])
             (Fin (case state of PTP_LOCKED \<Rightarrow> 1 | PTP_HOLDOVER \<Rightarrow> 2 | _ \<Rightarrow> 0)) m)"

definition updateHAProfileMetrics :: "(string \<times> bool) list option \<Rightarrow> clock_mgr \<Rightarrow> clock_mgr" where
  "updateHAProfileMetrics status m =
     (case status of None \<Rightarrow> m
      | Some ps \<Rightarrow>
          if \<not> cm_haMetric m then m
          else fold (\<lambda>(profile, active). set_gauge (''ha_profile_status'', [PHC2SYS, profile])
                  (Fin (if active then 1 else 0))) ps m)"

definition updateClockClassMetrics :: "string \<Rightarrow> clock_class \<Rightarrow> clock_mgr \<Rightarrow> clock_mgr" where
  "updateClockClassMetrics cfgName cls m =
     (if \<not> cm_clockClassMetric m then m
      else if cls = ClockClassUninitialized then m
      else set_gauge (''clock_class'', [PTP4l, replace_first cfgName ''ts2phc'' ''ptp4l''])
             (f64_of_int (uint cls)) m)"

definition getMetricName :: "string \<Rightarrow> string" where
  "getMetricName valueType =
     (if has_suffix valueType ''offset'' then valueType @ ''_ns'' else valueType)"

definition metric_values :: "event_data option \<Rightarrow> (string \<times> f64) list" where
  "metric_values d =
     (case d of
        Some (GNSSData g) \<Rightarrow>
          [(''gnss_status'', f64_of_int (gd_GPSStatus g)), (''offset'', f64_of_int (gd_Offset g))]
      | Some (OffsetData p) \<Rightarrow>
          (''offset'', f64_of_int (od_Offset p)) #
          (case od_NMEALocked p of Some b \<Rightarrow> [(''nmea_status'', Fin (if b then 1 else 0))] | None \<Rightarrow> [])
      | Some (DPLLData p) \<Rightarrow>
          (case dp_Offset p of Some n \<Rightarrow> [(''offset'', f64_of_int n)] | None \<Rightarrow> []) @
          (case dp_PhaseStatus p of Some n \<Rightarrow> [(''phase_status'', f64_of_int n)] | None \<Rightarrow> []) @
          (case dp_FrequencyStatus p of Some n \<Rightarrow> [(''frequency_status'', f64_of_int n)] | None \<Rightarrow> [])
      | _ \<Rightarrow> [])"

definition update_metric :: "event \<Rightarrow> string \<Rightarrow> string \<times> f64 \<Rightarrow> clock_mgr \<Rightarrow> clock_mgr" where
  "update_metric ev iface tv m =
     (let (dataType, v) = tv;
          pName = (if dataType = ''offset'' \<and> ev_Source ev = TS2PHC then ''master'' else ev_Source ev);
          key = \<lparr>mk_cfgName = ev_CfgName ev, mk_process = ev_Source ev, mk_iface = iface,
                 mk_dataType = dataType\<rparr>;
          labels = [pName, ev_Source ev, iface];
          name = getMetricName dataType
      in case map_of (cm_metricCache m) key of
           Some g \<Rightarrow>
             set_gauge (fst g, labels) v
               (m\<lparr>cm_metricCache := AList.update key (fst g, labels) (cm_metricCache m)\<rparr>)
         | None \<Rightarrow>
             (let m1 = (if dataType = ''offset'' \<or> name \<in> set (cm_registeredGauges m) then m
                        else m\<lparr>cm_registeredGauges := cm_registeredGauges m @ [name]\<rparr>);
                  m2 = set_gauge (name, labels) v m1
              in m2\<lparr>cm_metricCache := AList.update key (name, labels) (cm_metricCache m2)\<rparr>))"

definition updateMetrics :: "(string \<Rightarrow> string) \<Rightarrow> event \<Rightarrow> clock_mgr \<Rightarrow> clock_mgr" where
  "updateMetrics nick ev m =
     (if \<not> cm_offsetMetric m then m
      else fold (update_metric ev (nick (ev_IFace ev))) (metric_values (ev_Data ev)) m)"

definition unregisterMetrics :: "string \<Rightarrow> string \<Rightarrow> clock_mgr \<Rightarrow> clock_mgr" where
  "unregisterMetrics cfgName processName m =
     (let drop = (\<lambda>k. mk_cfgName k = cfgName \<and> (processName = '''' \<or> mk_process k = processName));
          gone = map snd (filter (\<lambda>(k, g). drop k) (cm_metricCache m))
      in m\<lparr>cm_gauges := filter (\<lambda>(g, v). g \<notin> set gone) (cm_gauges m),
           cm_metricCache := filter (\<lambda>(k, g). \<not> drop k) (cm_metricCache m)\<rparr>)"

section \<open>Operations\<close>

definition AddClock :: "any_clock \<Rightarrow> clock_mgr \<Rightarrow> clock_mgr" where
  "AddClock clk m =
     (let a = length (cm_store m); c = clk_SetEventLoopbackFunc clk
      in publishStats (m\<lparr>cm_store := cm_store m @ [c],
           cm_clocks := fold (\<lambda>cfg. AList.update cfg a) (clk_ConfigNames c) (cm_clocks m)\<rparr>))"

definition ConfigureOSClockFilter :: "os_filter_config \<Rightarrow> clock_mgr \<Rightarrow> clock_mgr" where
  "ConfigureOSClockFilter cfg m = m\<lparr>cm_osClock := os_ConfigureFilter cfg (cm_osClock m)\<rparr>"

definition RemoveAllClocks :: "clock_mgr \<Rightarrow> clock_mgr" where
  "RemoveAllClocks m =
     (let m1 = m\<lparr>cm_osClock := os_Reset (cm_osClock m)\<rparr>;
          m2 = fold (\<lambda>(cfg, a). unregisterMetrics cfg '''') (cm_clocks m1) m1
      in publishStats (m2\<lparr>cm_clocks := [], cm_osClockConfigs := []\<rparr>))"

definition cm_reset :: "string \<Rightarrow> event \<Rightarrow> clock_mgr \<Rightarrow> clock_mgr" where
  "cm_reset ts ev m =
     (let m1 = m\<lparr>cm_ipcCache := map_option cache_Clear (cm_ipcCache m)\<rparr>;
          m2 = (case GetClock (ev_CfgName ev) m1 of None \<Rightarrow> m1
                | Some clk \<Rightarrow>
                    (let (c, oc, seq, es) = clk_Reset clk (cm_osClock m1) (cm_announceSeq m1)
                     in perform ts es (put_clock (ev_CfgName ev) c
                          (m1\<lparr>cm_osClock := oc, cm_announceSeq := seq\<rparr>))));
          m3 = m2\<lparr>cm_osClock := (cm_osClock m2)\<lparr>oc_E3State := PTP_NOTSET\<rparr>\<rparr>
      in unregisterMetrics (ev_CfgName ev) (if ev_Source ev = TS2PHC then '''' else ev_Source ev) m3)"

definition metric_process :: "event \<Rightarrow> any_clock \<Rightarrow> string" where
  "metric_process ev clk =
     (if clk_ClockType clk = BC \<or> clk_ClockType clk = OC \<or> ev_ClockType ev = BC \<or> ev_ClockType ev = OC
      then PTP4l else clock_type_str (ev_ClockType ev))"

text \<open>What \<open>ProcessEvent\<close> does with the result of the clock.\<close>

definition after_event ::
  "(string \<Rightarrow> string) \<Rightarrow> string \<Rightarrow> string \<Rightarrow> ptp_state \<Rightarrow> add_result \<Rightarrow> clock_mgr \<Rightarrow> clock_mgr" where
  "after_event nick ts lookupName prevState r m =
     (let st = ar_state r; ev = ar_event r;
          m1 = (if prevState \<noteq> PTP_NOTSET \<and> prevState \<noteq> ss_State st then signalSyncStatus m else m);
          m2 = (if ss_LeadingIFace st \<noteq> '''' \<and> ss_LeadingIFace st \<noteq> LEADING_INTERFACE_UNKNOWN
                then updateClockStateMetrics (ss_State st) (metric_process ev (ar_clock r))
                       (nick (ss_LeadingIFace st)) m1
                else m1);
          m3 = updateClockClassMetrics lookupName (ss_ClockClass st) m2;
          m4 = updateHAProfileMetrics (ss_HAProfileStatus st) m3;
          m5 = updateMetrics nick ev m4
      in publishStats (emitOSClockState ts m5))"

text \<open>\<open>ProcessEvent\<close>; \<open>None\<close> when the clock panics.\<close>

definition ProcessEvent ::
  "(string \<Rightarrow> string) \<Rightarrow> env \<Rightarrow> string \<Rightarrow> event \<Rightarrow> clock_mgr \<Rightarrow> clock_mgr option" where
  "ProcessEvent nick e ts ev m =
     (if ev_Reset ev then Some (publishStats (cm_reset ts ev m))
      else
        (case handleOSClockEvent e ts ev m of
           Some m' \<Rightarrow> Some (publishStats m')
         | None \<Rightarrow>
             (let lookupName = (if ev_Source ev = SYNCE
                    then replace_first (ev_CfgName ev) ''synce4l'' ''ptp4l'' else ev_CfgName ev)
              in case GetClock lookupName m of
                   None \<Rightarrow> Some m
                 | Some clk \<Rightarrow>
                     if clk_ClockType clk = TBC \<and> cm_applyingProfiles m then Some m
                     else
                       (let m1 = (if ev_WriteToLog ev \<and> GetLogData (e_now_s e) ev \<noteq> ''''
                              then m\<lparr>cm_stdout := cm_stdout m @ [GetLogData (e_now_s e) ev]\<rparr> else m);
                            e1 = e\<lparr>e_os_state := oc_State (cm_osClock m1)\<rparr>
                        in case clk_AddEvent e1 ev (cm_announceSeq m1) clk of
                             None \<Rightarrow> None
                           | Some r \<Rightarrow>
                               (let m2 = perform ts (ar_effects r)
                                      (put_clock lookupName (ar_clock r) (m1\<lparr>cm_announceSeq := ar_seq r\<rparr>))
                                in Some (after_event nick ts lookupName (clk_GetState clk) r m2))))))"

section \<open>What the bookkeeping leaves alone\<close>

lemma perform_simps [simp]:
  "cm_clocks (perform ts es m) = cm_clocks m"
  "cm_store (perform ts es m) = cm_store m"
  "cm_osClock (perform ts es m) = cm_osClock m"
  by (induction ts es m rule: perform.induct) (simp_all add: cm_sendIPC_def)

lemma set_gauge_simps [simp]:
  "cm_clocks (set_gauge g v m) = cm_clocks m"
  "cm_store (set_gauge g v m) = cm_store m"
  "cm_osClock (set_gauge g v m) = cm_osClock m"
  by (simp_all add: set_gauge_def)

lemma fold_keeps:
  "(\<And>x m. g (f x m) = g m) \<Longrightarrow> g (fold f xs m) = g m"
  by (induction xs arbitrary: m) simp_all

lemma update_metric_simps [simp]:
  "cm_clocks (update_metric ev i tv m) = cm_clocks m"
  "cm_store (update_metric ev i tv m) = cm_store m"
  "cm_osClock (update_metric ev i tv m) = cm_osClock m"
  by (simp_all add: update_metric_def Let_def split_beta split: option.split)

lemma metrics_simps [simp]:
  "cm_clocks (updateClockStateMetrics st p i m) = cm_clocks m"
  "cm_store (updateClockStateMetrics st p i m) = cm_store m"
  "cm_osClock (updateClockStateMetrics st p i m) = cm_osClock m"
  "cm_clocks (updateClockClassMetrics n cls m) = cm_clocks m"
  "cm_store (updateClockClassMetrics n cls m) = cm_store m"
  "cm_osClock (updateClockClassMetrics n cls m) = cm_osClock m"
  "cm_clocks (updateHAProfileMetrics ps m) = cm_clocks m"
  "cm_store (updateHAProfileMetrics ps m) = cm_store m"
  "cm_osClock (updateHAProfileMetrics ps m) = cm_osClock m"
  "cm_clocks (updateMetrics nick ev m) = cm_clocks m"
  "cm_store (updateMetrics nick ev m) = cm_store m"
  "cm_osClock (updateMetrics nick ev m) = cm_osClock m"
  "cm_clocks (unregisterMetrics n p m) = cm_clocks m"
  "cm_store (unregisterMetrics n p m) = cm_store m"
  "cm_osClock (unregisterMetrics n p m) = cm_osClock m"
  by (simp_all add: updateClockStateMetrics_def updateClockClassMetrics_def updateHAProfileMetrics_def
      updateMetrics_def unregisterMetrics_def Let_def fold_keeps split_beta split: option.split)

lemma publish_simps [simp]:
  "cm_clocks (publishStats m) = cm_clocks m"
  "cm_store (publishStats m) = cm_store m"
  "cm_osClock (publishStats m) = cm_osClock m"
  "cm_clocks (signalSyncStatus m) = cm_clocks m"
  "cm_store (signalSyncStatus m) = cm_store m"
  "cm_osClock (signalSyncStatus m) = cm_osClock m"
  "cm_clocks (cm_sendIPC ts msg m) = cm_clocks m"
  "cm_store (cm_sendIPC ts msg m) = cm_store m"
  "cm_osClock (cm_sendIPC ts msg m) = cm_osClock m"
  by (simp_all add: publishStats_def signalSyncStatus_def cm_sendIPC_def Let_def)

lemma emitOS_simps [simp]:
  "cm_clocks (emitOSClockState ts m) = cm_clocks m"
  "cm_store (emitOSClockState ts m) = cm_store m"
  "oc_State (cm_osClock (emitOSClockState ts m)) = oc_State (cm_osClock m)"
  by (simp_all add: emitOSClockState_def Let_def)

section \<open>The published OS clock state\<close>

definition e3_ok :: "clock_mgr \<Rightarrow> bool" where
  "e3_ok m \<longleftrightarrow> derivedE3 m = PTP_NOTSET \<or> oc_E3State (cm_osClock m) = derivedE3 m \<or>
     oc_E3State (cm_osClock m) = PTP_NOTSET"

text \<open>Every registered name has a clock.\<close>

definition cm_wf :: "clock_mgr \<Rightarrow> bool" where
  "cm_wf m \<longleftrightarrow> (\<forall>(cfg, a) \<in> set (cm_clocks m). a < length (cm_store m))"

lemma derivedE3_cong:
  assumes "cm_clocks m' = cm_clocks m" "oc_State (cm_osClock m') = oc_State (cm_osClock m)"
    and "\<And>a. clk_GetState (cm_store m' ! a) = clk_GetState (cm_store m ! a)"
  shows "derivedE3 m' = derivedE3 m"
  using assms by (simp add: derivedE3_def worstClockState_def)

lemma e3_ok_emit: "e3_ok (emitOSClockState ts m)"
proof -
  have "derivedE3 (emitOSClockState ts m) = derivedE3 m" by (rule derivedE3_cong) simp_all
  then show ?thesis by (auto simp: e3_ok_def) (simp add: emitOSClockState_def Let_def split: if_splits)
qed

lemma e3_ok_cong:
  assumes "cm_clocks m' = cm_clocks m" "cm_osClock m' = cm_osClock m"
    and "\<And>a. clk_GetState (cm_store m' ! a) = clk_GetState (cm_store m ! a)"
  shows "e3_ok m' \<longleftrightarrow> e3_ok m"
  using derivedE3_cong [of m' m] assms by (simp add: e3_ok_def)

lemma SystemClockUpdate_state [simp]:
  "clk_GetState (fst (clk_SystemClockUpdate e c)) = clk_GetState c"
  by (cases c) (simp_all add: split_beta bc_SystemClockUpdate_def ha_SystemClockUpdate_def)

lemma notify_simps [simp]:
  "cm_clocks (notify_clock e ts x m) = cm_clocks m"
  "cm_osClock (notify_clock e ts x m) = cm_osClock m"
  "length (cm_store (notify_clock e ts x m)) = length (cm_store m)"
  by (simp_all add: notify_clock_def split_beta)

lemma notify_state [simp]:
  "clk_GetState (cm_store (notify_clock e ts x m) ! a) = clk_GetState (cm_store m ! a)"
  by (cases "snd x < length (cm_store m)")
    (auto simp: notify_clock_def split_beta nth_list_update not_less list_update_beyond)

lemma fold_notify:
  "cm_clocks (fold (notify_clock e ts) xs m) = cm_clocks m"
  "cm_osClock (fold (notify_clock e ts) xs m) = cm_osClock m"
  "length (cm_store (fold (notify_clock e ts) xs m)) = length (cm_store m)"
  "clk_GetState (cm_store (fold (notify_clock e ts) xs m) ! a) = clk_GetState (cm_store m ! a)"
  by (induction xs arbitrary: m) simp_all

text \<open>Two ways through an accepted OS clock event.\<close>

lemma handleOS_cases:
  assumes "handleOSClockEvent e ts ev m = Some m'"
  obtains m1 where "cm_clocks m1 = cm_clocks m" "cm_store m1 = cm_store m" "e3_ok m1"
    "m' = (if oc_State (cm_osClock m1) = oc_State (cm_osClock m) then m1
           else fold (notify_clock e ts) (cm_clocks m1) (signalSyncStatus m1))"
proof -
  obtain oc b where oc: "os_AddEvent (e_now_s e) ev (cm_osClock m) = (oc, b)" by fastforce
  let ?m1 = "emitOSClockState ts (m\<lparr>cm_osClock := oc,
    cm_osClockConfigs := List.insert (ev_CfgName ev) (cm_osClockConfigs m)\<rparr>)"
  have "m' = (if oc_State (cm_osClock ?m1) = oc_State (cm_osClock m) then ?m1
      else fold (notify_clock e ts) (cm_clocks ?m1) (signalSyncStatus ?m1))"
    using assms by (simp add: handleOSClockEvent_def oc Let_def split: if_splits)
  then show ?thesis by (intro that [of ?m1]) (simp_all add: e3_ok_emit)
qed

lemma handleOS_accepts:
  assumes "snd (os_AddEvent (e_now_s e) ev (cm_osClock m))"
  shows "\<exists>m'. handleOSClockEvent e ts ev m = Some m' \<and>
    oc_State (cm_osClock m') = oc_State (fst (os_AddEvent (e_now_s e) ev (cm_osClock m)))"
  using assms by (simp add: handleOSClockEvent_def split_beta Let_def fold_notify)

lemma handleOS_inv:
  assumes "handleOSClockEvent e ts ev m = Some m'"
  shows "e3_ok m'" and "cm_wf m \<Longrightarrow> cm_wf m'"
  using assms
proof (atomize(full), cases rule: handleOS_cases)
  case (1 m1)
  have "e3_ok (fold (notify_clock e ts) xs (signalSyncStatus m1)) \<longleftrightarrow> e3_ok m1" for xs
    by (rule e3_ok_cong) (simp_all add: fold_notify)
  with 1 show "e3_ok m' \<and> (cm_wf m \<longrightarrow> cm_wf m')" by (simp add: cm_wf_def fold_notify)
qed

text \<open>The ways through \<open>ProcessEvent\<close>.\<close>

lemma after_event_inv:
  "e3_ok (after_event nick ts n prev r m)"
  "cm_clocks (after_event nick ts n prev r m) = cm_clocks m"
  "cm_store (after_event nick ts n prev r m) = cm_store m"
proof -
  have "e3_ok (publishStats (emitOSClockState ts m1))" for m1
    using e3_ok_emit [of ts m1] e3_ok_cong [of "publishStats (emitOSClockState ts m1)" "emitOSClockState ts m1"]
    by simp
  then show "e3_ok (after_event nick ts n prev r m)" by (simp add: after_event_def Let_def)
qed (simp_all add: after_event_def Let_def)

lemma put_clock_simps [simp]:
  "cm_clocks (put_clock n c m) = cm_clocks m"
  "length (cm_store (put_clock n c m)) = length (cm_store m)"
  by (simp_all add: put_clock_def split: option.split)

lemma cm_reset_inv:
  "oc_E3State (cm_osClock (cm_reset ts ev m)) = PTP_NOTSET"
  "cm_clocks (cm_reset ts ev m) = cm_clocks m"
  "length (cm_store (cm_reset ts ev m)) = length (cm_store m)"
  by (simp_all add: cm_reset_def Let_def split_beta split: option.split)

lemma ProcessEvent_cases:
  assumes "ProcessEvent nick e ts ev m = Some m'"
  obtains (reset) "m' = publishStats (cm_reset ts ev m)"
  | (os) m1 where "handleOSClockEvent e ts ev m = Some m1" "m' = publishStats m1"
  | (dropped) "m' = m"
  | (clock) n prev r m1 where "m' = after_event nick ts n prev r m1"
      "cm_clocks m1 = cm_clocks m" "length (cm_store m1) = length (cm_store m)"
proof (cases "ev_Reset ev")
  case True
  with assms show ?thesis by (intro reset) (simp add: ProcessEvent_def)
next
  case no_reset: False
  show ?thesis
  proof (cases "handleOSClockEvent e ts ev m")
    case (Some m1)
    with assms no_reset show ?thesis by (intro os [OF Some]) (simp add: ProcessEvent_def)
  next
    case None
      let ?n = "if ev_Source ev = SYNCE then replace_first (ev_CfgName ev) ''synce4l'' ''ptp4l''
      else ev_CfgName ev"
    show ?thesis
    proof (cases "GetClock ?n m")
      case none: None
      with assms no_reset None have "m' = m" by (simp add: ProcessEvent_def Let_def)
      then show ?thesis by (rule dropped)
    next
      case (Some clk)
      show ?thesis
      proof (cases "clk_ClockType clk = TBC \<and> cm_applyingProfiles m")
        case True
        with assms no_reset None Some have "m' = m" by (simp add: ProcessEvent_def Let_def)
        then show ?thesis by (rule dropped)
      next
        case False
        with assms no_reset None Some show ?thesis
          by (auto simp: ProcessEvent_def Let_def split: option.splits intro!: clock [OF sym])
      qed
    qed
  qed
qed

lemma ProcessEvent_inv:
  assumes "ProcessEvent nick e ts ev m = Some m'" "e3_ok m" "cm_wf m"
  shows "e3_ok m' \<and> cm_wf m'"
  using assms(1)
proof (cases rule: ProcessEvent_cases)
  case reset
  with assms(3) show ?thesis by (simp add: e3_ok_def cm_wf_def cm_reset_inv)
next
  case (os m1)
  have "e3_ok (publishStats m1) \<longleftrightarrow> e3_ok m1" by (rule e3_ok_cong) simp_all
  with os handleOS_inv [OF os(1)] assms(3) show ?thesis by (simp add: cm_wf_def)
next
  case (clock n prev r m1)
  with assms(3) after_event_inv [of nick ts n prev r m1] show ?thesis by (simp add: cm_wf_def)
qed (use assms in simp)

text \<open>
  The manager as the daemon drives it: events, and profile changes, which register new clocks (under
  names not in use, in the state NOTSET of a new clock) and remove all.
\<close>

inductive cm_step :: "(string \<Rightarrow> string) \<Rightarrow> clock_mgr \<Rightarrow> clock_mgr \<Rightarrow> bool" for nick where
  event: "ProcessEvent nick e ts ev m = Some m' \<Longrightarrow> cm_step nick m m'"
| register: "clk_GetState clk = PTP_NOTSET \<Longrightarrow>
    set (clk_ConfigNames clk) \<inter> fst ` set (cm_clocks m) = {} \<Longrightarrow> cm_step nick m (AddClock clk m)"
| remove: "cm_step nick m (RemoveAllClocks m)"
| configure: "cm_step nick m (ConfigureOSClockFilter cfg m)"
| applying: "cm_step nick m (m\<lparr>cm_applyingProfiles := b\<rparr>)"

inductive cm_reach :: "(string \<Rightarrow> string) \<Rightarrow> clock_mgr \<Rightarrow> clock_mgr \<Rightarrow> bool" for nick m0 where
  start: "cm_reach nick m0 m0"
| step: "cm_reach nick m0 m \<Longrightarrow> cm_step nick m m' \<Longrightarrow> cm_reach nick m0 m'"

lemma worst_loop_NOTSET: "\<forall>s \<in> set ss. s = PTP_NOTSET \<Longrightarrow> worst_loop w ss = w"
  by (induction ss) auto

lemma worst_loop_append: "worst_loop w (xs @ ys) = worst_loop (worst_loop w xs) ys"
  by (induction xs arbitrary: w) auto

lemma register_clocks:
  "set (fold (\<lambda>cfg. AList.update cfg a) names al) \<subseteq> set al \<union> (\<lambda>n. (n, a)) ` set names"
proof (induction names arbitrary: al)
  case (Cons n names)
  have "set (AList.update n a al) \<subseteq> insert (n, a) (set al)" by (rule set_update_AList)
  with Cons [of "AList.update n a al"] show ?case by auto
qed simp

lemma update_new: "n \<notin> fst ` set al \<Longrightarrow> AList.update n a al = al @ [(n, a)]"
  by (induction al) auto

lemma register_new:
  assumes "set names \<inter> fst ` set al = {}"
  shows "\<exists>new. fold (\<lambda>cfg. AList.update cfg a) names al = al @ new \<and> (\<forall>(n, b) \<in> set new. b = a) \<and>
     (names \<noteq> [] \<longrightarrow> new \<noteq> [])"
proof -
  have "\<exists>new. fold (\<lambda>cfg. AList.update cfg a) names (al @ old) = al @ new \<and>
      (\<forall>(n, b) \<in> set new. b = a) \<and> (names \<noteq> [] \<or> old \<noteq> [] \<longrightarrow> new \<noteq> [])"
    if "set names \<inter> fst ` set al = {}" "\<forall>(n, b) \<in> set old. b = a" for old
    using that
  proof (induction names arbitrary: old)
    case Nil
    then show ?case by auto
  next
    case (Cons n names)
    have app: "AList.update n a (al @ old) = al @ AList.update n a old"
      using Cons.prems(1) by (induction al) auto
    have "\<forall>(k, b) \<in> set (AList.update n a old). b = a"
      using set_update_AList [of n a old] Cons.prems(2) by auto
    moreover have "AList.update n a old \<noteq> []" by (cases old) auto
    ultimately show ?case using Cons.IH [of "AList.update n a old"] Cons.prems(1) by (auto simp: app)
  qed
  from this [OF assms, of "[]"] show ?thesis by auto
qed

lemma worst_states_append_NOTSET:
  "\<forall>s \<in> set ys. s = PTP_NOTSET \<Longrightarrow> WorstOfPtpStates (xs @ ys) = WorstOfPtpStates xs"
  by (simp add: WorstOfPtpStates_def worst_loop_append worst_loop_NOTSET)

lemma clk_loopback_simps [simp]:
  "clk_GetState (clk_SetEventLoopbackFunc clk) = clk_GetState clk"
  by (cases clk) (simp_all add: bc_SetEventLoopbackFunc_def ha_SetEventLoopbackFunc_def)

lemma clk_loopback_names [simp]:
  "clk_ConfigNames (clk_SetEventLoopbackFunc clk) = clk_ConfigNames clk"
proof -
  have "map fst (map (\<lambda>(cfg, m). (cfg, bc_SetEventLoopbackFunc m)) ms) = map fst ms" for ms
    by (induction ms) auto
  then show ?thesis
    by (cases clk) (auto simp: bc_SetEventLoopbackFunc_def ha_SetEventLoopbackFunc_def
        ha_ConfigNames_def base_ConfigNames_def Let_def)
qed

lemma clk_ConfigNames_nonempty [simp]: "clk_ConfigNames clk \<noteq> []"
  by (cases clk) (simp_all add: base_ConfigNames_def ha_ConfigNames_def Let_def)

lemma AddClock_inv:
  assumes "clk_GetState clk = PTP_NOTSET" "set (clk_ConfigNames clk) \<inter> fst ` set (cm_clocks m) = {}"
    and "e3_ok m" "cm_wf m"
  shows "e3_ok (AddClock clk m) \<and> cm_wf (AddClock clk m)"
proof -
  let ?a = "length (cm_store m)" let ?m = "AddClock clk m"
  obtain new where new: "cm_clocks ?m = cm_clocks m @ new" "\<forall>(n, b) \<in> set new. b = ?a" "new \<noteq> []"
    using register_new [OF assms(2), of ?a] by (auto simp: AddClock_def Let_def)
  have store: "cm_store ?m = cm_store m @ [clk_SetEventLoopbackFunc clk]"
    and os: "cm_osClock ?m = cm_osClock m"
    by (simp_all add: AddClock_def Let_def)
  have wf: "cm_wf ?m" using assms(4) new(1,2) store by (auto simp: cm_wf_def less_Suc_eq)
  have same: "map (\<lambda>(cfg, a). clk_GetState (cm_store ?m ! a)) (cm_clocks m) =
      map (\<lambda>(cfg, a). clk_GetState (cm_store m ! a)) (cm_clocks m)"
    using assms(4) by (auto simp: cm_wf_def store nth_append)
  have unset: "\<forall>s \<in> set (map (\<lambda>(cfg, a). clk_GetState (cm_store ?m ! a)) new). s = PTP_NOTSET"
    using new(2) assms(1) by (auto simp: store nth_append)
  have worst: "worstClockState ?m =
      WorstOfPtpStates (map (\<lambda>(cfg, a). clk_GetState (cm_store m ! a)) (cm_clocks m))"
    by (simp only: worstClockState_def new(1) map_append worst_states_append_NOTSET [OF unset] same)
  have "e3_ok ?m"
  proof (cases "cm_clocks m = []")
    case True
    then have "worstClockState ?m = PTP_NOTSET" by (simp add: worst WorstOfPtpStates_def)
    then show ?thesis
      by (simp add: e3_ok_def derivedE3_def new(1,3) DeriveOSClockState_def WorstOfState_def)
  next
    case False
    then have "derivedE3 ?m = derivedE3 m"
      unfolding derivedE3_def worst by (simp add: new(1) os worstClockState_def)
    with assms(3) show ?thesis by (simp add: e3_ok_def os)
  qed
  with wf show ?thesis by simp
qed

lemma RemoveAll_inv: "e3_ok (RemoveAllClocks m) \<and> cm_wf (RemoveAllClocks m)"
proof -
  have "cm_osClock (fold (\<lambda>(cfg, a). unregisterMetrics cfg '''') xs m') = cm_osClock m'"
    for xs :: "(string \<times> nat) list" and m'
    by (rule fold_keeps) (simp add: split_beta)
  then have "cm_osClock (RemoveAllClocks m) = os_Reset (cm_osClock m)"
    by (simp add: RemoveAllClocks_def Let_def)
  then show ?thesis
    by (simp add: e3_ok_def cm_wf_def os_Reset_def) (simp add: RemoveAllClocks_def Let_def)
qed

lemma cm_step_inv: "cm_step nick m m' \<Longrightarrow> e3_ok m \<Longrightarrow> cm_wf m \<Longrightarrow> e3_ok m' \<and> cm_wf m'"
proof (induction rule: cm_step.induct)
  case (event e ts ev m m')
  then show ?case by (rule ProcessEvent_inv)
next
  case (register clk m)
  then show ?case by (rule AddClock_inv)
next
  case (remove m)
  show ?case by (rule RemoveAll_inv)
next
  case (configure m cfg)
  have "derivedE3 (ConfigureOSClockFilter cfg m) = derivedE3 m"
    by (rule derivedE3_cong) (simp_all add: ConfigureOSClockFilter_def os_ConfigureFilter_def)
  with configure show ?case
    by (simp add: e3_ok_def cm_wf_def ConfigureOSClockFilter_def os_ConfigureFilter_def)
next
  case (applying m b)
  have "e3_ok (m\<lparr>cm_applyingProfiles := b\<rparr>) \<longleftrightarrow> e3_ok m" by (rule e3_ok_cong) simp_all
  with applying show ?case by (simp add: cm_wf_def)
qed

lemma Init_inv: "e3_ok (Init offsetM clockM classM ipc seq) \<and> cm_wf (Init offsetM clockM classM ipc seq)"
  by (simp add: Init_def e3_ok_def cm_wf_def os_zero_def)

lemma cm_reach_inv: "cm_reach nick m0 m \<Longrightarrow> e3_ok m0 \<Longrightarrow> cm_wf m0 \<Longrightarrow> e3_ok m \<and> cm_wf m"
  by (induction rule: cm_reach.induct) (auto dest: cm_step_inv)

section \<open>An OS clock change reaches every clock\<close>

lemma SystemClockUpdate_overall:
  "clk_overall (fst (clk_SystemClockUpdate e c)) = WorstOfState (clk_GetState c) (e_os_state e)"
  by (cases c) (simp_all add: split_beta ha_SystemClockUpdate_def)

lemma notify_overall:
  "snd x < length (cm_store m) \<Longrightarrow> clk_overall (cm_store (notify_clock e ts x m) ! a) =
   (if a = snd x then WorstOfState (clk_GetState (cm_store m ! a)) (oc_State (cm_osClock m))
    else clk_overall (cm_store m ! a))"
  by (simp add: notify_clock_def split_beta SystemClockUpdate_overall)

lemma notified:
  assumes "\<forall>(n, a) \<in> set xs. a < length (cm_store m)" "(cfg, a) \<in> set xs"
  shows "clk_overall (cm_store (fold (notify_clock e ts) xs m) ! a) =
    WorstOfState (clk_GetState (cm_store m ! a)) (oc_State (cm_osClock m))"
  using assms
proof (induction xs rule: rev_induct)
  case Nil
  then show ?case by simp
next
  case (snoc x xs)
  let ?m = "fold (notify_clock e ts) xs m"
  have x: "snd x < length (cm_store ?m)" using snoc.prems(1) by (cases x) (auto simp: fold_notify)
  have "a \<noteq> snd x \<Longrightarrow> clk_overall (cm_store ?m ! a) =
      WorstOfState (clk_GetState (cm_store m ! a)) (oc_State (cm_osClock m))"
    using snoc by auto
  with x show ?case by (simp add: notify_overall fold_notify)
qed

section \<open>Properties\<close>

text \<open>
  C5. The OS clock state last published as the node's (the E3 state) is never out of date: in every
  reachable state of the manager it is the state derived from the worst clock and the OS clock, or
  nothing has been published since the last reset, or no state can be derived.
\<close>

theorem e3_never_stale:
  assumes "cm_reach nick (Init offsetM clockM classM ipc seq) m"
  shows "derivedE3 m = PTP_NOTSET \<or> oc_E3State (cm_osClock m) = derivedE3 m \<or>
    oc_E3State (cm_osClock m) = PTP_NOTSET"
  using cm_reach_inv [OF assms] Init_inv by (simp add: e3_ok_def)

definition chronyd_event :: event where
  "chronyd_event = (phc2sys_event PTP_LOCKED 3)\<lparr>ev_Source := CHRONYD\<rparr>"

theorem e3_never_stale_witness:
  "\<exists>m. cm_reach id (Init False False False None 0) m \<and> oc_State (cm_osClock m) = PTP_LOCKED \<and>
     (derivedE3 m = PTP_NOTSET \<or> oc_E3State (cm_osClock m) = derivedE3 m \<or>
      oc_E3State (cm_osClock m) = PTP_NOTSET)"
proof -
  let ?m0 = "Init False False False None 0"
  have "snd (os_AddEvent 5 chronyd_event (cm_osClock ?m0))"
    "oc_State (fst (os_AddEvent 5 chronyd_event (cm_osClock ?m0))) = PTP_LOCKED"
    by (simp_all add: chronyd_event_def phc2sys_event_def os_AddEvent_def Let_def)
  then obtain m1 where m1: "handleOSClockEvent sample_env ''t'' chronyd_event ?m0 = Some m1"
    and l: "oc_State (cm_osClock m1) = PTP_LOCKED"
    using handleOS_accepts [of sample_env chronyd_event ?m0 "''t''"] by (auto simp: sample_env_def)
  have "ProcessEvent id sample_env ''t'' chronyd_event ?m0 = Some (publishStats m1)"
    using m1 by (simp add: ProcessEvent_def chronyd_event_def phc2sys_event_def)
  then have r: "cm_reach id ?m0 (publishStats m1)"
    by (intro cm_reach.step [OF cm_reach.start] cm_step.event)
  with e3_never_stale [OF r] l show ?thesis by auto
qed

text \<open>
  A change of the OS clock reaches every registered clock at once: after an accepted OS event
  that changes the OS clock's state, the overall state of each clock is the worst of its own state
  and the new state of the OS clock, under whatever names it is registered.
\<close>

lemma os_change_reaches_clocks:
  assumes "cm_reach nick (Init offsetM clockM classM ipc seq) m"
    and "handleOSClockEvent e ts ev m = Some m'"
    and "oc_State (cm_osClock m') \<noteq> oc_State (cm_osClock m)" "(cfg, a) \<in> set (cm_clocks m')"
  shows "clk_overall (cm_store m' ! a) =
    WorstOfState (clk_GetState (cm_store m' ! a)) (oc_State (cm_osClock m'))"
  using assms(2)
proof (cases rule: handleOS_cases)
  case (1 m1)
  then have m': "m' = fold (notify_clock e ts) (cm_clocks m1) (signalSyncStatus m1)"
    using assms(3) by (auto split: if_splits)
  have "cm_wf m" using cm_reach_inv [OF assms(1)] Init_inv by blast
  with 1 have "\<forall>(n, a) \<in> set (cm_clocks m1). a < length (cm_store (signalSyncStatus m1))"
    by (simp add: cm_wf_def)
  from notified [OF this, of cfg a e ts] assms(4) show ?thesis by (simp add: m' fold_notify)
qed

definition sample_mgr :: clock_mgr where
  "sample_mgr = AddClock (BCc (NewBC ''ptp4l.0.config'' False
     \<lparr>th_MaxOffsetThreshold = 100, th_MinOffsetThreshold = -100, th_HoldOverTimeout = 5\<rparr>))
     (Init False False False None 0)"

lemma sample_mgr_facts:
  "cm_reach nick (Init False False False None 0) sample_mgr"
  "oc_State (cm_osClock sample_mgr) = PTP_FREERUN"
  "(''ptp4l.0.config'', 0) \<in> set (cm_clocks sample_mgr)"
  "GetClock ''ptp4l.0.config'' sample_mgr = Some (clk_SetEventLoopbackFunc (BCc (NewBC ''ptp4l.0.config'' False
     \<lparr>th_MaxOffsetThreshold = 100, th_MinOffsetThreshold = -100, th_HoldOverTimeout = 5\<rparr>)))"
proof -
  show "cm_reach nick (Init False False False None 0) sample_mgr"
    unfolding sample_mgr_def
    by (rule cm_reach.step [OF cm_reach.start cm_step.register])
      (simp_all add: NewBC_def newBaseClock_def base_clock.defs Init_def)
qed (simp_all add: sample_mgr_def AddClock_def Init_def os_zero_def GetClock_def NewBC_def newBaseClock_def
    base_clock.defs base_ConfigNames_def bc_SetEventLoopbackFunc_def has_prefix_def publishStats_def Let_def)

text \<open>
  The nil dereference of \<open>ptpOffset\<close> is the one panic of this model: only a DPLL payload whose source
  is not lost and which has no phase offset reaches it. (The \<open>glog.Fatal\<close> of \<open>leap.GetUtcOffset\<close>, which an
  announcement can reach, is not in the clocks: they are given the offset, see \<open>ClockBase\<close>.)
\<close>

lemma only_dpll_without_offset_panics:
  assumes "ProcessEvent nick e ts ev m = None"
  shows "\<exists>d. ev_Data ev = Some (DPLLData d) \<and> \<not> dp_SourceLost d \<and> dp_Offset d = None"
proof -
  have bc: "\<exists>d. ev_Data ev = Some (DPLLData d) \<and> \<not> dp_SourceLost d \<and> dp_Offset d = None"
    if "bc_AddEvent e' ev c = None" for e' c
    using that bc_AddEvent_panics_iff by blast
  have ha: "\<exists>c'. bc_AddEvent e' ev c' = None" if "ha_AddEvent e' ev c = None" for e' c
    using that by (auto simp: ha_AddEvent_def ha_forward_def Let_def split_beta
        split: option.splits event_data.splits)
  have clk: "\<exists>d. ev_Data ev = Some (DPLLData d) \<and> \<not> dp_SourceLost d \<and> dp_Offset d = None"
    if "clk_AddEvent e' ev s c = None" for e' s c
  proof (cases c)
    case (HAc h)
    with that have "ha_AddEvent e' ev h = None" by (simp split: option.splits prod.splits)
    with ha bc show ?thesis by metis
  qed (use that bc in \<open>auto simp: bc_AddEvent_result_def split: option.splits prod.splits\<close>)
  from assms show ?thesis
    by (auto simp: ProcessEvent_def Let_def split: if_splits option.splits intro: clk)
qed

text \<open>
  While profiles are applied, events of a T-BC are dropped without a trace, so that the ports
  being configured do not disturb it; a reset and an OS clock event still go through.
\<close>

lemma tbc_events_dropped_while_applying:
  assumes "cm_applyingProfiles m" "GetClock (ev_CfgName ev) m = Some (TBCc c)" "ev_Source ev \<noteq> SYNCE"
    and "\<not> ev_Reset ev" "ev_Source ev \<notin> {CHRONYD, PHC2SYS}"
  shows "ProcessEvent nick e ts ev m = Some m"
proof -
  have "\<not> snd (os_AddEvent (e_now_s e) ev (cm_osClock m))"
    using assms(5) by (simp add: os_AddEvent_accepts)
  then have "handleOSClockEvent e ts ev m = None"
    by (simp add: handleOSClockEvent_def Let_def split_beta)
  with assms show ?thesis by (simp add: ProcessEvent_def Let_def)
qed

end
