(* ===== verification/Dpll.thy ===== *)
theory Dpll
  imports Stats Conditions
begin

text \<open>
  \<open>pkg/dpll/dpll.go\<close>: the DPLL monitor of one interface. Device and pin notifications update the
  status under the lock and decide the state (\<open>stateDecision\<close>); entering holdover starts a
  goroutine that models the drift, and an unbuffered channel with a non-blocking send closes it.
  Netlink (see \<open>DpllNetlink\<close>), the pin tables in the log and the redial loop are not modelled here; of a
  device reply and a pin the fields the monitor reads are kept. The flag \<open>ready\<close> says whether a
  goroutine is waiting on the current channel in its \<open>select\<close>, so that a non-blocking send succeeds; a
  send on the closed channel panics, which is \<open>None\<close>. The system at the end of the theory keeps all
  goroutines that were started, so that there being one at a time is a theorem and not an assumption.
\<close>

section \<open>Netlink data\<close>

record nl_device =
  nd_ID :: u32
  nd_ClockID :: u64
  nd_Type :: u32
  nd_LockStatus :: u32

record nl_parent =
  np_ParentID :: u32
  np_Direction :: u32
  np_State :: u32
  np_PhaseOffset :: int
  np_Operstate :: u32

record nl_pin =
  pn_ClockID :: u64
  pn_ParentDevice :: "nl_parent list"

definition GetDpllType :: "u32 \<Rightarrow> string" where
  "GetDpllType tp = (if tp = 1 then ''pps'' else if tp = 2 then ''eec'' else ''unknown'')"

section \<open>State\<close>

abbreviation DPLL_UNKNOWN :: int where "DPLL_UNKNOWN \<equiv> -1"
abbreviation DPLL_INVALID :: int where "DPLL_INVALID \<equiv> 0"
abbreviation DPLL_FREERUN :: int where "DPLL_FREERUN \<equiv> 1"
abbreviation DPLL_LOCKED :: int where "DPLL_LOCKED \<equiv> 2"
abbreviation DPLL_LOCKED_HO_ACQ :: int where "DPLL_LOCKED_HO_ACQ \<equiv> 3"
abbreviation DPLL_HOLDOVER :: int where "DPLL_HOLDOVER \<equiv> 4"

abbreviation FlagNoPhaseOffset :: u64 where "FlagNoPhaseOffset \<equiv> 1"
abbreviation FlagNoPhaseStatus :: u64 where "FlagNoPhaseStatus \<equiv> 2"
abbreviation FlagNoFreqencyStatus :: u64 where "FlagNoFreqencyStatus \<equiv> 4"

abbreviation FaultyOffset :: int where "FaultyOffset \<equiv> 99999999999"

definition stateName :: "int \<Rightarrow> string" where
  "stateName st =
     (if st = DPLL_INVALID then ''INVALID'' else if st = DPLL_FREERUN then ''FREERUN''
      else if st = DPLL_LOCKED then ''LOCKED'' else if st = DPLL_LOCKED_HO_ACQ then ''LOCKED_HO_ACQ''
      else if st = DPLL_HOLDOVER then ''HOLDOVER'' else ''UNKNOWN'')"

datatype chan_state = ChanNil | ChanOpen | ChanClosed

record dpll =
  dl_LocalMaxHoldoverOffSet :: u64
  dl_LocalHoldoverTimeout :: u64
  dl_MaxInSpecOffset :: u64
  dl_iface :: string
  dl_slope :: f64
  dl_timer :: int
  dl_inSpec :: bool
  dl_frequencyTraceable :: bool
  dl_state :: ptp_state
  dl_processState :: process_state
  dl_onHoldover :: bool
  dl_closing :: bool
  dl_sourceLost :: bool
  dl_hasChannel :: bool
  dl_configName :: string
  dl_clockType :: clock_type
  dl_dependsOn :: "event_source list"
  dl_phaseStatus :: int
  dl_frequencyStatus :: int
  dl_phaseOffset :: int
  dl_clockId :: u64
  dl_inSyncConditionThreshold :: u64
  dl_inSyncConditionTimes :: u64
  dl_flags :: u64
  dl_devices :: "nl_device list"
  dl_holdoverCloseCh :: chan_state

record dpll_params =
  dpa_clockId :: u64
  dpa_localMaxHoldoverOffSet :: u64
  dpa_localHoldoverTimeout :: u64
  dpa_maxInSpecOffset :: u64
  dpa_iface :: string
  dpa_dependsOn :: "event_source list"
  dpa_inSyncConditionTh :: u64
  dpa_inSyncConditionTimes :: u64
  dpa_flags :: u64
  dpa_hasChannel :: bool
  dpa_configName :: string
  dpa_clockType :: clock_type

text \<open>\<open>float64(x)\<close> of a \<open>uint64\<close>, and \<open>int64(x)\<close>.\<close>

definition f64_of_u64 :: "u64 \<Rightarrow> f64" where
  "f64_of_u64 w = f64_of_int (uint w)"

definition NewDpll :: "dpll_params \<Rightarrow> dpll" where
  "NewDpll p =
     (let slope = f64_div (f64_of_u64 (dpa_localMaxHoldoverOffSet p)) (f64_of_u64 (dpa_localHoldoverTimeout p))
      in \<lparr>dl_LocalMaxHoldoverOffSet = dpa_localMaxHoldoverOffSet p,
          dl_LocalHoldoverTimeout = dpa_localHoldoverTimeout p,
          dl_MaxInSpecOffset = dpa_maxInSpecOffset p, dl_iface = dpa_iface p, dl_slope = slope,
          dl_timer = f64_to_int64 (f64_round (f64_div (f64_of_u64 (dpa_maxInSpecOffset p)) slope)),
          dl_inSpec = False, dl_frequencyTraceable = False, dl_state = PTP_FREERUN,
          dl_processState = Created, dl_onHoldover = False, dl_closing = False,
          dl_sourceLost = False, dl_hasChannel = dpa_hasChannel p,
          dl_configName = dpa_configName p, dl_clockType = dpa_clockType p,
          dl_dependsOn = dpa_dependsOn p, dl_phaseStatus = 0, dl_frequencyStatus = 0,
          dl_phaseOffset = FaultyOffset, dl_clockId = dpa_clockId p,
          dl_inSyncConditionThreshold = dpa_inSyncConditionTh p,
          dl_inSyncConditionTimes = dpa_inSyncConditionTimes p, dl_flags = dpa_flags p,
          dl_devices = [], dl_holdoverCloseCh = ChanNil\<rparr>)"

definition hasFlag :: "u64 \<Rightarrow> dpll \<Rightarrow> bool" where
  "hasFlag flag d \<longleftrightarrow> and (dl_flags d) flag = flag"

definition hasGNSSAsSource :: "dpll \<Rightarrow> bool" where
  "hasGNSSAsSource d \<longleftrightarrow> hd (dl_dependsOn d) = GNSS"

definition hasPPSAsSource :: "dpll \<Rightarrow> bool" where
  "hasPPSAsSource d \<longleftrightarrow> hd (dl_dependsOn d) = PPS"

definition hasPTPAsSource :: "dpll \<Rightarrow> bool" where
  "hasPTPAsSource d \<longleftrightarrow> hd (dl_dependsOn d) = PTP4l"

definition hasLeadingSource :: "dpll \<Rightarrow> bool" where
  "hasLeadingSource d \<longleftrightarrow> hasPTPAsSource d \<or> hasGNSSAsSource d"

section \<open>Status and range\<close>

definition getStateQuality :: "int \<Rightarrow> int" where
  "getStateQuality st =
     (if st = DPLL_UNKNOWN then -1 else if st = DPLL_INVALID then 0 else if st = DPLL_FREERUN then 1
      else if st = DPLL_HOLDOVER then 2 else if st = DPLL_LOCKED then 3
      else if st = DPLL_LOCKED_HO_ACQ then 4 else 0)"

definition getWorseState :: "int \<Rightarrow> int \<Rightarrow> int" where
  "getWorseState pstate fstate = (if getStateQuality pstate < getStateQuality fstate then pstate else fstate)"

definition getDpllState :: "dpll \<Rightarrow> int" where
  "getDpllState d =
     (if hasPTPAsSource d \<or> hasPPSAsSource d then dl_phaseStatus d
      else if hasFlag FlagNoPhaseStatus d then dl_frequencyStatus d
      else if hasFlag FlagNoFreqencyStatus d then dl_phaseStatus d
      else getWorseState (dl_phaseStatus d) (dl_frequencyStatus d))"

definition isMaxHoldoverOffsetInRange :: "dpll \<Rightarrow> bool" where
  "isMaxHoldoverOffsetInRange d \<longleftrightarrow>
     hasFlag FlagNoPhaseOffset d \<or> dl_phaseOffset d \<le> sint (dl_LocalMaxHoldoverOffSet d)"

definition isInSpecOffsetInRange :: "dpll \<Rightarrow> bool" where
  "isInSpecOffsetInRange d \<longleftrightarrow>
     hasFlag FlagNoPhaseOffset d \<or> dl_phaseOffset d \<le> sint (dl_MaxInSpecOffset d)"

definition isOffsetInRange :: "dpll \<Rightarrow> bool" where
  "isOffsetInRange d \<longleftrightarrow>
     hasFlag FlagNoPhaseOffset d \<or>
     f64_le (f64_abs (f64_of_int (dl_phaseOffset d))) (f64_of_u64 (dl_LocalMaxHoldoverOffSet d))"

text \<open>Go's division truncates towards zero.\<close>

definition go_div :: "int \<Rightarrow> int \<Rightarrow> int" where
  "go_div a b = sgn a * sgn b * (\<bar>a\<bar> div \<bar>b\<bar>)"

definition SetPhaseOffset :: "int \<Rightarrow> dpll \<Rightarrow> dpll" where
  "SetPhaseOffset phaseOffset d =
     d\<lparr>dl_phaseOffset := f64_to_int64 (f64_round (f64_of_int (go_div (go_div phaseOffset 1000) 1000)))\<rparr>"

fun active_parent :: "nl_device list \<Rightarrow> u64 \<Rightarrow> nl_parent list \<Rightarrow> nl_parent option" where
  "active_parent devices cid [] = None"
| "active_parent devices cid (p # ps) =
     (if (np_State p \<noteq> 1 \<and> np_Operstate p \<noteq> 1) \<or> np_Direction p \<noteq> 1 then active_parent devices cid ps
      else if list_ex (\<lambda>dev. nd_ID dev = np_ParentID p \<and> nd_ClockID dev = cid \<and>
                 GetDpllType (nd_Type dev) = ''pps'') devices
           then Some p
      else active_parent devices cid ps)"

text \<open>\<open>ActivePhaseOffsetPin\<close>: the parent device at the index it returns.\<close>

definition ActivePhaseOffsetPin :: "nl_pin \<Rightarrow> dpll \<Rightarrow> nl_parent option" where
  "ActivePhaseOffsetPin pin d =
     (if pn_ClockID pin \<noteq> dl_clockId d then None
      else active_parent (dl_devices d) (dl_clockId d) (pn_ParentDevice pin))"

definition nl_device_update :: "nl_device \<Rightarrow> dpll \<times> bool \<Rightarrow> dpll \<times> bool" where
  "nl_device_update reply dv =
     (let (d, valid) = dv in
      if nd_ClockID reply \<noteq> dl_clockId d \<or> nd_LockStatus reply = 0 then (d, valid)
      else if GetDpllType (nd_Type reply) = ''eec''
           then (d\<lparr>dl_frequencyStatus := uint (nd_LockStatus reply)\<rparr>, True)
      else if GetDpllType (nd_Type reply) = ''pps''
           then (d\<lparr>dl_phaseStatus := uint (nd_LockStatus reply)\<rparr>, True)
      else (d, valid))"

definition nl_pin_update :: "nl_pin \<Rightarrow> dpll \<times> bool \<Rightarrow> dpll \<times> bool" where
  "nl_pin_update pin dv =
     (let (d, valid) = dv in
      case ActivePhaseOffsetPin pin d of
        Some p \<Rightarrow> (SetPhaseOffset (np_PhaseOffset p) d, True)
      | None \<Rightarrow> (d, valid))"

definition nlUpdateState :: "nl_device list \<Rightarrow> nl_pin list \<Rightarrow> dpll \<Rightarrow> dpll \<times> bool" where
  "nlUpdateState devices pins d = fold nl_pin_update pins (fold nl_device_update devices (d, False))"

section \<open>Events and decisions\<close>

datatype dpll_effect = Offer event | CloseHoldover | StartHoldover

definition dpll_payload :: "dpll \<Rightarrow> dpll_data" where
  "dpll_payload d =
     \<lparr>dp_State = dl_state d, dp_OutOfSpec = (\<not> dl_inSpec d), dp_SourceLost = dl_sourceLost d,
      dp_FrequencyTraceable = dl_frequencyTraceable d, dp_LeadingSource = hasLeadingSource d,
      dp_Offset = (if hasFlag FlagNoPhaseOffset d then None else Some (dl_phaseOffset d)),
      dp_PhaseStatus = (if hasFlag FlagNoPhaseStatus d then None else Some (dl_phaseStatus d)),
      dp_FrequencyStatus = (if hasFlag FlagNoFreqencyStatus d then None else Some (dl_frequencyStatus d)),
      dp_PPSStatus = (if dl_sourceLost d then 0 else 1),
      dp_InSyncConditionThreshold = dl_inSyncConditionThreshold d,
      dp_InSyncConditionTimes = dl_inSyncConditionTimes d,
      dp_ToFreeRunThreshold = dl_LocalMaxHoldoverOffSet d,
      dp_MaxInSpecOffset = dl_MaxInSpecOffset d,
      dp_HoldoverDisabled = (dl_LocalHoldoverTimeout d = 0)\<rparr>"

text \<open>\<open>sendDpllEvent\<close> offers the event to the channel, which drops it when it is full.\<close>

definition sendDpllEvent :: "int \<Rightarrow> dpll \<Rightarrow> dpll_effect list" where
  "sendDpllEvent now_ms d =
     (if \<not> dl_hasChannel d then []
      else [Offer \<lparr>ev_Source = DPLL, ev_IFace = dl_iface d, ev_CfgName = dl_configName d,
             ev_ClockType = dl_clockType d, ev_Time = now_ms, ev_WriteToLog = True,
             ev_Reset = False, ev_Data = Some (DPLLData (dpll_payload d))\<rparr>])"

text \<open>\<open>select { case holdoverCloseCh <- true: default: }\<close>.\<close>

definition try_close :: "bool \<Rightarrow> dpll \<Rightarrow> dpll_effect list option" where
  "try_close ready d =
     (case dl_holdoverCloseCh d of
        ChanClosed \<Rightarrow> None
      | ChanOpen \<Rightarrow> Some (if ready then [CloseHoldover] else [])
      | ChanNil \<Rightarrow> Some [])"

definition decide_freerun :: "bool \<Rightarrow> dpll \<Rightarrow> (dpll \<times> dpll_effect list) option" where
  "decide_freerun ready d =
     (let d1 = d\<lparr>dl_inSpec := False, dl_sourceLost := True\<rparr>
      in map_option (\<lambda>es. (d1\<lparr>dl_state := PTP_FREERUN, dl_phaseOffset := FaultyOffset\<rparr>, es))
           (if hasLeadingSource d1 \<and> dl_onHoldover d1 then try_close ready d1 else Some []))"

definition decide_holdover :: "bool \<Rightarrow> dpll \<Rightarrow> (dpll \<times> dpll_effect list) option" where
  "decide_holdover ready d =
     (if \<not> hasLeadingSource d
      then Some (d\<lparr>dl_state := PTP_FREERUN, dl_phaseOffset := FaultyOffset\<rparr>, [])
      else if \<not> dl_inSpec d \<or> (hasPTPAsSource d \<and>
              f64_lt (f64_of_u64 (dl_LocalMaxHoldoverOffSet d)) (f64_abs (f64_of_int (dl_phaseOffset d))))
      then map_option (\<lambda>es. (d\<lparr>dl_state := PTP_FREERUN, dl_phaseOffset := FaultyOffset,
               dl_sourceLost := True\<rparr>, es)) (try_close ready d)
      else if \<not> dl_onHoldover d \<and> \<not> dl_closing d
      then Some (d\<lparr>dl_holdoverCloseCh := ChanOpen, dl_onHoldover := True, dl_state := PTP_HOLDOVER\<rparr>,
             [StartHoldover])
      else Some (d, []))"

definition decide_locked :: "bool \<Rightarrow> dpll \<Rightarrow> (dpll \<times> dpll_effect list) option" where
  "decide_locked ready d =
     (if isOffsetInRange d
      then map_option (\<lambda>es. (d\<lparr>dl_inSpec := True, dl_sourceLost := False, dl_state := PTP_LOCKED\<rparr>, es))
             (if hasLeadingSource d \<and> dl_onHoldover d then try_close ready d else Some [])
      else map_option (\<lambda>es. (d\<lparr>dl_state := PTP_FREERUN, dl_inSpec := False,
               dl_phaseOffset := FaultyOffset\<rparr>, es)) (try_close ready d))"

text \<open>
  \<open>stateDecision\<close>; \<open>None\<close> is the index panic of an empty \<open>dependsOn\<close> or a send on a closed
  channel.
\<close>

definition stateDecision :: "int \<Rightarrow> bool \<Rightarrow> dpll \<Rightarrow> (dpll \<times> dpll_effect list) option" where
  "stateDecision now_ms ready d =
     (if dl_dependsOn d = [] then None
      else
        (let st = getDpllState d in
         map_option (\<lambda>(d1, es). (d1, es @ sendDpllEvent now_ms d1))
           (if st = DPLL_FREERUN \<or> st = DPLL_INVALID \<or> st = DPLL_UNKNOWN then decide_freerun ready d
            else if st = DPLL_HOLDOVER then decide_holdover ready d
            else if st = DPLL_LOCKED_HO_ACQ \<or> st = DPLL_LOCKED then decide_locked ready d
            else Some (d, []))))"

definition applyStateUpdate ::
  "int \<Rightarrow> bool \<Rightarrow> nl_device list \<Rightarrow> nl_pin list \<Rightarrow> dpll \<Rightarrow> (dpll \<times> dpll_effect list) option" where
  "applyStateUpdate now_ms ready devices pins d =
     (let (d1, valid) = nlUpdateState devices pins d in
      if valid then stateDecision now_ms ready d1 else Some (d1, []))"

text \<open>A (re)dial of \<open>MonitorDpllNetlink\<close>: the device dump is kept and applied.\<close>

definition dpll_dial :: "int \<Rightarrow> bool \<Rightarrow> nl_device list \<Rightarrow> dpll \<Rightarrow> (dpll \<times> dpll_effect list) option" where
  "dpll_dial now_ms ready replies d = applyStateUpdate now_ms ready replies [] (d\<lparr>dl_devices := replies\<rparr>)"

text \<open>The stop branch of \<open>MonitorDpllNetlink\<close>.\<close>

definition dpll_stop :: "int \<Rightarrow> dpll \<Rightarrow> dpll \<times> dpll_effect list" where
  "dpll_stop now_ms d =
     ((if dl_onHoldover d
       then d\<lparr>dl_holdoverCloseCh := ChanClosed, dl_onHoldover := False, dl_closing := True\<rparr> else d),
      (if dl_hasChannel d
       then [Offer \<lparr>ev_Source = DPLL, ev_IFace = dl_iface d, ev_CfgName = dl_configName d,
               ev_ClockType = dl_clockType d, ev_Time = now_ms, ev_WriteToLog = False,
               ev_Reset = True, ev_Data = None\<rparr>] else []))"

section \<open>The holdover goroutine\<close>

text \<open>
  One wake-up of the ticker, \<open>elapsed\<close> seconds after the start; the flag says whether the
  goroutine goes on. \<open>frequencyTraceable\<close> is never set by the code.
\<close>

definition holdover_tick :: "int \<Rightarrow> f64 \<Rightarrow> dpll \<Rightarrow> dpll \<times> dpll_effect list \<times> bool" where
  "holdover_tick now_ms elapsed d =
     (let d1 = d\<lparr>dl_phaseOffset := f64_to_int64 (f64_round (f64_mul (dl_slope d) elapsed))\<rparr> in
      if hasGNSSAsSource d1 then
        (if \<not> dl_frequencyTraceable d1 \<and> \<not> isInSpecOffsetInRange d1
         then (let d2 = d1\<lparr>dl_inSpec := False, dl_state := PTP_FREERUN, dl_phaseOffset := FaultyOffset\<rparr>
               in (d2, sendDpllEvent now_ms d2, False))
         else (d1, sendDpllEvent now_ms d1, True))
      else
        (let d2 = (if \<not> isInSpecOffsetInRange d1 then d1\<lparr>dl_inSpec := False\<rparr> else d1);
             d3 = d2\<lparr>dl_state := PTP_HOLDOVER\<rparr>
         in (d3, sendDpllEvent now_ms d3, True)))"

definition holdover_timeout :: "int \<Rightarrow> dpll \<Rightarrow> dpll \<times> dpll_effect list" where
  "holdover_timeout now_ms d =
     (let d1 = d\<lparr>dl_inSpec := False, dl_state := PTP_FREERUN, dl_phaseOffset := FaultyOffset\<rparr>
      in (d1, sendDpllEvent now_ms d1))"

definition holdover_closed :: "dpll \<Rightarrow> dpll" where
  "holdover_closed d = d\<lparr>dl_inSpec := True\<rparr>"

definition holdover_leave :: "int \<Rightarrow> dpll \<Rightarrow> dpll \<times> dpll_effect list" where
  "holdover_leave now_ms d = (let d1 = d\<lparr>dl_onHoldover := False\<rparr> in (d1, sendDpllEvent now_ms d1))"

section \<open>Profile settings\<close>

text \<open>\<open>strconv.ParseUint(s, 10, 64)\<close>; \<open>None\<close> is its error.\<close>

definition digit_value :: "char \<Rightarrow> nat option" where
  "digit_value c = (let n = (of_char c :: nat) in if 48 \<le> n \<and> n \<le> 57 then Some (n - 48) else None)"

fun parse_digits :: "nat \<Rightarrow> string \<Rightarrow> nat option" where
  "parse_digits acc [] = Some acc"
| "parse_digits acc (c # cs) =
     (case digit_value c of None \<Rightarrow> None | Some d \<Rightarrow> parse_digits (10 * acc + d) cs)"

definition ParseUint64 :: "string \<Rightarrow> u64 option" where
  "ParseUint64 s =
     (if s = [] then None
      else (case parse_digits 0 s of Some n \<Rightarrow> if n < 2 ^ 64 then Some (of_nat n) else None | None \<Rightarrow> None))"

definition setting :: "string \<Rightarrow> u64 \<Rightarrow> (string \<times> string) list \<Rightarrow> u64" where
  "setting k dflt settings =
     (case map_of settings k of
        Some v \<Rightarrow> (case ParseUint64 v of Some n \<Rightarrow> n | None \<Rightarrow> dflt) | None \<Rightarrow> dflt)"

definition CalculateTimer :: "(string \<times> string) list \<Rightarrow> int \<times> int \<times> int \<times> int \<times> bool" where
  "CalculateTimer settings =
     (let maxOff = setting ''LocalMaxHoldoverOffSet'' 1500 settings;
          timeout = setting ''LocalHoldoverTimeout'' 14400 settings;
          inSpecOff = setting ''MaxInSpecOffset'' 1500 settings;
          slope = f64_div (f64_of_u64 maxOff) (f64_of_u64 timeout)
      in (sint inSpecOff, sint maxOff, sint timeout,
          f64_to_int64 (f64_round (f64_div (f64_of_u64 inSpecOff) slope)), False))"

definition PtpSettingsDpllIgnoreKey :: "string \<Rightarrow> string" where
  "PtpSettingsDpllIgnoreKey iface = ''dpll.'' @ iface @ ''.ignore''"

definition PtpSettingsDpllFlagsKey :: "string \<Rightarrow> string" where
  "PtpSettingsDpllFlagsKey iface = ''dpll.'' @ iface @ ''.flags''"

section \<open>The monitor with its goroutines\<close>

text \<open>
  The monitor and the holdover goroutines interleave. Every \<open>go d.holdover()\<close> adds a goroutine to the
  pool, whatever is in it already, and every start makes a channel of its own (\<open>ds_chan\<close> numbers
  them). A goroutine reads the field \<open>holdoverCloseCh\<close> when it enters its \<open>select\<close>, so \<open>Waiting c\<close> keeps
  the channel it waits on; one step of it is one turn of its loop. The close rendezvous is possible
  only with a goroutine that waits on the current channel; otherwise the non-blocking send of
  \<open>stateDecision\<close> is lost.
\<close>

datatype routine = Begun | Waiting nat | Busy | Closing | Leaving

record dpll_sys =
  ds_dpll :: dpll
  ds_chan :: nat
  ds_routines :: "routine list"
  ds_offered :: "event list"

definition ds_ready :: "dpll_sys \<Rightarrow> bool" where
  "ds_ready s \<longleftrightarrow> Waiting (ds_chan s) \<in> set (ds_routines s)"

fun offers :: "dpll_effect list \<Rightarrow> event list" where
  "offers [] = []"
| "offers (Offer ev # es) = ev # offers es"
| "offers (_ # es) = offers es"

text \<open>What a decision does to the current channel and to the goroutines.\<close>

inductive after_decision ::
  "dpll_effect list \<Rightarrow> nat \<Rightarrow> routine list \<Rightarrow> nat \<Rightarrow> routine list \<Rightarrow> bool" for es c where
  started: "StartHoldover \<in> set es \<Longrightarrow> after_decision es c rs (Suc c) (rs @ [Begun])"
| handed: "StartHoldover \<notin> set es \<Longrightarrow> CloseHoldover \<in> set es \<Longrightarrow>
    after_decision es c (xs @ Waiting c # ys) c (xs @ Closing # ys)"
| unchanged: "StartHoldover \<notin> set es \<Longrightarrow> CloseHoldover \<notin> set es \<Longrightarrow> after_decision es c rs c rs"

inductive dpll_step :: "dpll_sys \<Rightarrow> dpll_sys \<Rightarrow> bool" where
  update: "applyStateUpdate now (ds_ready s) devices pins (ds_dpll s) = Some (d, es) \<Longrightarrow>
    after_decision es (ds_chan s) (ds_routines s) c rs \<Longrightarrow>
    dpll_step s (s\<lparr>ds_dpll := d, ds_chan := c, ds_routines := rs, ds_offered := ds_offered s @ offers es\<rparr>)"
| dial: "dpll_dial now (ds_ready s) replies (ds_dpll s) = Some (d, es) \<Longrightarrow>
    after_decision es (ds_chan s) (ds_routines s) c rs \<Longrightarrow>
    dpll_step s (s\<lparr>ds_dpll := d, ds_chan := c, ds_routines := rs, ds_offered := ds_offered s @ offers es\<rparr>)"
| stop: "dpll_stop now (ds_dpll s) = (d, es) \<Longrightarrow>
    dpll_step s (s\<lparr>ds_dpll := d, ds_offered := ds_offered s @ offers es\<rparr>)"
| begin_holdover: "ds_routines s = xs @ Begun # ys \<Longrightarrow>
    dpll_step s (s\<lparr>ds_routines := xs @ Waiting (ds_chan s) # ys,
      ds_offered := ds_offered s @ offers (sendDpllEvent now (ds_dpll s))\<rparr>)"
| wake: "ds_routines s = xs @ Waiting c # ys \<Longrightarrow> dpll_step s (s\<lparr>ds_routines := xs @ Busy # ys\<rparr>)"
| tick: "ds_routines s = xs @ Busy # ys \<Longrightarrow>
    holdover_tick now elapsed (ds_dpll s) = (d, es, continues) \<Longrightarrow>
    dpll_step s (s\<lparr>ds_dpll := d,
      ds_routines := xs @ (if continues then Waiting (ds_chan s) else Leaving) # ys,
      ds_offered := ds_offered s @ offers es\<rparr>)"
| timeout: "ds_routines s = xs @ Waiting c # ys \<Longrightarrow> holdover_timeout now (ds_dpll s) = (d, es) \<Longrightarrow>
    dpll_step s (s\<lparr>ds_dpll := d, ds_routines := xs @ Leaving # ys, ds_offered := ds_offered s @ offers es\<rparr>)"
| closed: "ds_routines s = xs @ Closing # ys \<Longrightarrow>
    dpll_step s (s\<lparr>ds_dpll := holdover_closed (ds_dpll s), ds_routines := xs @ Leaving # ys\<rparr>)"
| closed_channel: "ds_routines s = xs @ Waiting (ds_chan s) # ys \<Longrightarrow>
    dl_holdoverCloseCh (ds_dpll s) = ChanClosed \<Longrightarrow>
    dpll_step s (s\<lparr>ds_dpll := holdover_closed (ds_dpll s), ds_routines := xs @ Leaving # ys\<rparr>)"
| leave: "ds_routines s = xs @ Leaving # ys \<Longrightarrow> holdover_leave now (ds_dpll s) = (d, es) \<Longrightarrow>
    dpll_step s (s\<lparr>ds_dpll := d, ds_routines := xs @ ys, ds_offered := ds_offered s @ offers es\<rparr>)"

inductive dpll_reach :: "dpll_sys \<Rightarrow> dpll_sys \<Rightarrow> bool" for s0 where
  start: "dpll_reach s0 s0"
| step: "dpll_reach s0 s \<Longrightarrow> dpll_step s s' \<Longrightarrow> dpll_reach s0 s'"

definition dpll_boot :: "dpll_params \<Rightarrow> dpll_sys" where
  "dpll_boot p = \<lparr>ds_dpll = NewDpll p, ds_chan = 0, ds_routines = [], ds_offered = []\<rparr>"

text \<open>The goroutine goes on: neither its close nor its end is decided.\<close>

abbreviation going_on :: "dpll_sys \<Rightarrow> routine set" where
  "going_on s \<equiv> {Begun, Waiting (ds_chan s), Busy}"

section \<open>Invariants\<close>

definition dl_control :: "dpll \<Rightarrow> bool \<times> ptp_state \<times> bool \<times> event_source list \<times> chan_state \<times> nl_device list \<times> bool" where
  "dl_control d = (dl_onHoldover d, dl_state d, dl_closing d, dl_dependsOn d, dl_holdoverCloseCh d,
     dl_devices d, dl_inSpec d)"

lemma nl_updates_keep: "dl_control (fst (nlUpdateState devices pins d)) = dl_control d"
proof -
  have dev: "dl_control (fst (fold nl_device_update devices dv)) = dl_control (fst dv)" for dv
  proof (induction devices arbitrary: dv)
    case (Cons x xs)
    have "dl_control (fst (nl_device_update x dv)) = dl_control (fst dv)"
      by (simp add: nl_device_update_def split_beta dl_control_def)
    with Cons [of "nl_device_update x dv"] show ?case by simp
  qed simp
  have pin: "dl_control (fst (fold nl_pin_update pins dv)) = dl_control (fst dv)" for dv
  proof (induction pins arbitrary: dv)
    case (Cons x xs)
    have "dl_control (fst (nl_pin_update x dv)) = dl_control (fst dv)"
      by (simp add: nl_pin_update_def SetPhaseOffset_def split_beta dl_control_def split: option.split)
    with Cons [of "nl_pin_update x dv"] show ?case by simp
  qed simp
  from pin [of "fold nl_device_update devices (d, False)"] dev [of "(d, False)"]
  show ?thesis by (simp add: nlUpdateState_def)
qed

text \<open>
  HOLDOVER is only reported while a goroutine is there to end it (until the monitor is stopped), there
  is one goroutine at most, and it waits on the current channel.
\<close>

definition dpll_inv :: "dpll_sys \<Rightarrow> bool" where
  "dpll_inv s \<longleftrightarrow>
     (ds_routines s = [] \<or> (\<exists>r. ds_routines s = [r] \<and> r \<in> going_on s \<union> {Closing, Leaving})) \<and>
     (dl_onHoldover (ds_dpll s) \<longrightarrow> ds_routines s \<noteq> [] \<and> \<not> dl_closing (ds_dpll s)) \<and>
     (ds_routines s \<noteq> [] \<longrightarrow> dl_onHoldover (ds_dpll s) \<or> dl_closing (ds_dpll s)) \<and>
     (dl_state (ds_dpll s) = PTP_HOLDOVER \<longrightarrow>
        (\<exists>r \<in> going_on s. ds_routines s = [r]) \<or> dl_closing (ds_dpll s)) \<and>
     (dl_closing (ds_dpll s) \<longleftrightarrow> dl_holdoverCloseCh (ds_dpll s) = ChanClosed)"

definition decided :: "bool \<Rightarrow> dpll \<Rightarrow> dpll \<Rightarrow> dpll_effect list \<Rightarrow> bool" where
  "decided ready d d' es \<longleftrightarrow>
     (StartHoldover \<in> set es \<longrightarrow> \<not> dl_onHoldover d \<and> \<not> dl_closing d \<and> dl_onHoldover d' \<and>
        CloseHoldover \<notin> set es \<and> dl_state d' = PTP_HOLDOVER \<and> dl_holdoverCloseCh d' = ChanOpen) \<and>
     (StartHoldover \<notin> set es \<longrightarrow> dl_onHoldover d' = dl_onHoldover d \<and>
        dl_holdoverCloseCh d' = dl_holdoverCloseCh d) \<and>
     (CloseHoldover \<in> set es \<longrightarrow> ready \<and> dl_state d' \<in> {PTP_FREERUN, PTP_LOCKED}) \<and>
     (dl_state d' = PTP_HOLDOVER \<longrightarrow> StartHoldover \<in> set es \<or> dl_state d = PTP_HOLDOVER) \<and>
     dl_closing d' = dl_closing d"

lemma try_close_Some: "try_close ready d = Some es \<Longrightarrow> es = [] \<or> (es = [CloseHoldover] \<and> ready)"
  by (auto simp: try_close_def split: chan_state.splits if_splits)

lemma decided_parts:
  "decide_freerun ready d = Some (d', es) \<Longrightarrow> decided ready d d' es"
  "decide_holdover ready d = Some (d', es) \<Longrightarrow> decided ready d d' es"
  "decide_locked ready d = Some (d', es) \<Longrightarrow> decided ready d d' es"
proof -
  assume "decide_freerun ready d = Some (d', es)"
  then show "decided ready d d' es"
    by (auto simp: decide_freerun_def decided_def Let_def dest!: try_close_Some split: if_splits)
next
  assume "decide_holdover ready d = Some (d', es)"
  then show "decided ready d d' es"
    by (auto simp: decide_holdover_def decided_def dest!: try_close_Some split: if_splits)
next
  assume "decide_locked ready d = Some (d', es)"
  then show "decided ready d d' es"
    by (auto simp: decide_locked_def decided_def dest!: try_close_Some split: if_splits)
qed

definition chosen_decision :: "bool \<Rightarrow> dpll \<Rightarrow> (dpll \<times> dpll_effect list) option" where
  "chosen_decision ready d =
     (let st = getDpllState d in
      if st = DPLL_FREERUN \<or> st = DPLL_INVALID \<or> st = DPLL_UNKNOWN then decide_freerun ready d
      else if st = DPLL_HOLDOVER then decide_holdover ready d
      else if st = DPLL_LOCKED_HO_ACQ \<or> st = DPLL_LOCKED then decide_locked ready d
      else Some (d, []))"

lemma stateDecision_chosen:
  "stateDecision now ready d =
   (if dl_dependsOn d = [] then None
    else map_option (\<lambda>(d1, es). (d1, es @ sendDpllEvent now d1)) (chosen_decision ready d))"
  by (simp add: stateDecision_def chosen_decision_def Let_def)

lemma decided_chosen: "chosen_decision ready d = Some (d', es) \<Longrightarrow> decided ready d d' es"
  unfolding chosen_decision_def Let_def
  by (split if_splits, simp add: decided_parts)+ (simp add: decided_def)

lemma decide_cases:
  assumes "stateDecision now ready d = Some (d', es)"
  shows "decided ready d d' es"
proof -
  obtain es1 where "chosen_decision ready d = Some (d', es1)" "es = es1 @ sendDpllEvent now d'"
    using assms by (auto simp: stateDecision_chosen split: if_splits)
  moreover have "set (sendDpllEvent now d') \<inter> {StartHoldover, CloseHoldover} = {}"
    by (simp add: sendDpllEvent_def)
  ultimately show ?thesis using decided_chosen [of ready d d' es1] by (auto simp: decided_def)
qed

lemma dpll_inv_boot: "dpll_inv (dpll_boot p)"
  by (simp add: dpll_inv_def dpll_boot_def NewDpll_def Let_def)

lemma dpll_inv_decided:
  assumes "decided (ds_ready s) d0 d es" "dl_control d0 = dl_control (ds_dpll s)" "dpll_inv s"
    "after_decision es (ds_chan s) (ds_routines s) c rs"
  shows "dpll_inv (s\<lparr>ds_dpll := d, ds_chan := c, ds_routines := rs, ds_offered := evs\<rparr>)"
  using assms(4)
proof (cases rule: after_decision.cases)
  case started
  with assms(1-3) show ?thesis by (auto simp: dpll_inv_def decided_def dl_control_def)
next
  case (handed xs ys)
  with assms(3) have "xs = []" "ys = []" by (auto simp: dpll_inv_def append_eq_Cons_conv)
  with handed assms(1-3) show ?thesis by (auto simp: dpll_inv_def decided_def dl_control_def)
next
  case unchanged
  with assms(1-3) show ?thesis by (auto simp: dpll_inv_def decided_def dl_control_def)
qed

lemma dpll_inv_decision:
  assumes "applyStateUpdate now (ds_ready s) devices pins (ds_dpll s) = Some (d, es)" "dpll_inv s"
    "after_decision es (ds_chan s) (ds_routines s) c rs"
  shows "dpll_inv (s\<lparr>ds_dpll := d, ds_chan := c, ds_routines := rs, ds_offered := evs\<rparr>)"
proof -
  let ?n = "nlUpdateState devices pins (ds_dpll s)"
  note keep = nl_updates_keep [of devices pins "ds_dpll s"]
  show ?thesis
  proof (cases "snd ?n")
    case False
    with assms(1) have "d = fst ?n" "es = []" by (auto simp: applyStateUpdate_def split_beta)
    then have "decided (ds_ready s) (fst ?n) d es" by (simp add: decided_def)
    from dpll_inv_decided [OF this keep assms(2,3)] show ?thesis .
  next
    case True
    with assms(1) have dec: "stateDecision now (ds_ready s) (fst ?n) = Some (d, es)"
      by (simp add: applyStateUpdate_def split_beta)
    from dpll_inv_decided [OF decide_cases [OF dec] keep assms(2,3)] show ?thesis .
  qed
qed

lemma one_routine: "dpll_inv s \<Longrightarrow> ds_routines s = xs @ r # ys \<Longrightarrow> xs = [] \<and> ys = []"
  by (auto simp: dpll_inv_def append_eq_Cons_conv)

lemma dpll_inv_step:
  assumes "dpll_step s s'" "dpll_inv s"
  shows "dpll_inv s'"
  using assms
proof (cases rule: dpll_step.cases)
  case (update now devices pins d es c rs)
  with dpll_inv_decision [OF update(2) assms(2) update(3)] show ?thesis by simp
next
  case (dial now replies d es c rs)
  let ?s = "s\<lparr>ds_dpll := (ds_dpll s)\<lparr>dl_devices := replies\<rparr>\<rparr>"
  have "dpll_inv ?s" using assms(2) by (auto simp: dpll_inv_def)
  from dpll_inv_decision [OF _ this, of now replies "[]" d es c rs] dial show ?thesis
    by (simp add: dpll_dial_def ds_ready_def)
next
  case (stop now d es)
  with assms(2) show ?thesis by (auto simp: dpll_inv_def dpll_stop_def)
next
  case (begin_holdover xs ys now)
  with one_routine [OF assms(2) begin_holdover(2)] assms(2) show ?thesis by (auto simp: dpll_inv_def)
next
  case (wake xs c ys)
  with one_routine [OF assms(2) wake(2)] assms(2) show ?thesis by (auto simp: dpll_inv_def)
next
  case (tick xs ys now elapsed d es continues)
  have "(continues \<or> dl_state d \<noteq> PTP_HOLDOVER) \<and> dl_onHoldover d = dl_onHoldover (ds_dpll s) \<and>
      dl_closing d = dl_closing (ds_dpll s) \<and> dl_holdoverCloseCh d = dl_holdoverCloseCh (ds_dpll s)"
    using tick(3) by (auto simp: holdover_tick_def Let_def split: if_splits)
  with tick one_routine [OF assms(2) tick(2)] assms(2) show ?thesis by (auto simp: dpll_inv_def)
next
  case (timeout xs c ys now d es)
  with one_routine [OF assms(2) timeout(2)] assms(2) show ?thesis
    by (auto simp: dpll_inv_def holdover_timeout_def Let_def)
next
  case (closed xs ys)
  with one_routine [OF assms(2) closed(2)] assms(2) show ?thesis
    by (auto simp: dpll_inv_def holdover_closed_def)
next
  case (closed_channel xs ys)
  with one_routine [OF assms(2) closed_channel(2)] assms(2) show ?thesis
    by (auto simp: dpll_inv_def holdover_closed_def)
next
  case (leave xs ys now d es)
  with one_routine [OF assms(2) leave(2)] assms(2) show ?thesis
    by (auto simp: dpll_inv_def holdover_leave_def Let_def)
qed

lemma dpll_inv_reach: "dpll_reach s0 s \<Longrightarrow> dpll_inv s0 \<Longrightarrow> dpll_inv s"
  by (induction rule: dpll_reach.induct) (auto intro: dpll_inv_step)

section \<open>A T-BC run\<close>

text \<open>A leading DPLL fed by ptp4l, with a PPS device and a connected pin.\<close>

definition sample_params :: dpll_params where
  "sample_params = \<lparr>dpa_clockId = 1, dpa_localMaxHoldoverOffSet = 1500, dpa_localHoldoverTimeout = 10,
     dpa_maxInSpecOffset = 100, dpa_iface = ''eth0'', dpa_dependsOn = [PTP4l],
     dpa_inSyncConditionTh = 10, dpa_inSyncConditionTimes = 1, dpa_flags = 0,
     dpa_hasChannel = False, dpa_configName = ''ts2phc.0.config'', dpa_clockType = TBC\<rparr>"

definition sample_device :: "u32 \<Rightarrow> nl_device" where
  "sample_device st = \<lparr>nd_ID = 1, nd_ClockID = 1, nd_Type = 1, nd_LockStatus = st\<rparr>"

definition sample_pin :: nl_pin where
  "sample_pin = \<lparr>pn_ClockID = 1, pn_ParentDevice = [\<lparr>np_ParentID = 1, np_Direction = 1, np_State = 1,
     np_PhaseOffset = 0, np_Operstate = 1\<rparr>]\<rparr>"

abbreviation sample_dpll :: dpll where
  "sample_dpll \<equiv> NewDpll sample_params"

lemma sample_dpll_simps [simp]:
  "dl_clockId sample_dpll = 1" "dl_dependsOn sample_dpll = [PTP4l]" "dl_flags sample_dpll = 0"
  "dl_hasChannel sample_dpll = False" "dl_phaseOffset sample_dpll = FaultyOffset"
  "dl_holdoverCloseCh sample_dpll = ChanNil" "dl_onHoldover sample_dpll = False"
  "dl_closing sample_dpll = False" "dl_state sample_dpll = PTP_FREERUN"
  "dl_LocalMaxHoldoverOffSet sample_dpll = 1500" "dl_devices sample_dpll = []"
  by (simp_all add: NewDpll_def sample_params_def Let_def)

lemma floor_half [simp]: "\<lfloor>1 / 2 :: rat\<rfloor> = 0"
  by (simp add: floor_eq_iff)

lemma truncate_zero [simp]: "truncate_rat 0 = 0"
  by (simp add: truncate_rat_def)

lemmas dpll_eval = applyStateUpdate_def nlUpdateState_def nl_device_update_def nl_pin_update_def
  ActivePhaseOffsetPin_def SetPhaseOffset_def go_div_def stateDecision_def getDpllState_def
  hasPTPAsSource_def hasPPSAsSource_def hasGNSSAsSource_def hasLeadingSource_def hasFlag_def
  decide_locked_def decide_holdover_def decide_freerun_def isOffsetInRange_def try_close_def
  sendDpllEvent_def GetDpllType_def sample_device_def sample_pin_def f64_of_u64_def Let_def

abbreviation dpll_dialled :: dpll where
  "dpll_dialled \<equiv> sample_dpll\<lparr>dl_devices := [sample_device 3], dl_phaseStatus := 3, dl_inSpec := False\<rparr>"

abbreviation dpll_locked :: dpll where
  "dpll_locked \<equiv> dpll_dialled\<lparr>dl_phaseOffset := 0, dl_inSpec := True, dl_sourceLost := False,
     dl_state := PTP_LOCKED\<rparr>"

abbreviation dpll_coasting :: dpll where
  "dpll_coasting \<equiv> dpll_locked\<lparr>dl_phaseStatus := 4, dl_holdoverCloseCh := ChanOpen, dl_onHoldover := True,
     dl_state := PTP_HOLDOVER\<rparr>"

lemma sample_run:
  "dpll_dial 0 False [sample_device 3] sample_dpll = Some (dpll_dialled, [])"
  "applyStateUpdate 0 False [] [sample_pin] dpll_dialled = Some (dpll_locked, [])"
  "applyStateUpdate 0 False [sample_device 4] [] dpll_locked = Some (dpll_coasting, [StartHoldover])"
  "applyStateUpdate 0 False [sample_device 3] [] dpll_coasting =
     Some (dpll_coasting\<lparr>dl_phaseStatus := 3, dl_state := PTP_LOCKED\<rparr>, [])"
  "applyStateUpdate 0 True [sample_device 1] [] dpll_coasting =
     Some (dpll_coasting\<lparr>dl_phaseStatus := 1, dl_inSpec := False, dl_sourceLost := True,
       dl_state := PTP_FREERUN, dl_phaseOffset := FaultyOffset\<rparr>, [CloseHoldover])"
  by (simp_all add: dpll_dial_def dpll_eval)

text \<open>The run as states of the system: before the holdover, and with the goroutine waiting.\<close>

abbreviation sample_sys :: "dpll \<Rightarrow> nat \<Rightarrow> routine list \<Rightarrow> dpll_sys" where
  "sample_sys d c rs \<equiv> \<lparr>ds_dpll = d, ds_chan = c, ds_routines = rs, ds_offered = []\<rparr>"

lemmas quiet_step = after_decision.unchanged [of "[]", simplified]

lemma dpll_sample_holdover:
  "dpll_reach (dpll_boot sample_params) (sample_sys dpll_locked 0 [])"
  "dpll_reach (dpll_boot sample_params) (sample_sys dpll_coasting 1 [Waiting 1])"
proof -
  let ?l = "sample_sys dpll_locked 0 []"
  have "dpll_step (dpll_boot sample_params) (sample_sys dpll_dialled 0 [])"
    using dpll_step.dial [of 0 "dpll_boot sample_params" "[sample_device 3]" dpll_dialled "[]" 0 "[]"]
      sample_run(1) quiet_step [of 0 "[]"]
    by (simp add: dpll_boot_def ds_ready_def)
  moreover have "dpll_step (sample_sys dpll_dialled 0 []) ?l"
    using dpll_step.update [of 0 "sample_sys dpll_dialled 0 []" "[]" "[sample_pin]" dpll_locked "[]" 0 "[]"]
      sample_run(2) quiet_step [of 0 "[]"]
    by (simp add: ds_ready_def)
  ultimately show 1: "dpll_reach (dpll_boot sample_params) ?l"
    by (blast intro: dpll_reach.intros)
  have "after_decision [StartHoldover] 0 [] 1 [Begun]"
    using after_decision.started [of "[StartHoldover]" 0 "[]"] by simp
  then have "dpll_step ?l (sample_sys dpll_coasting 1 [Begun])"
    using dpll_step.update [of 0 ?l "[sample_device 4]" "[]" dpll_coasting "[StartHoldover]" 1 "[Begun]"]
      sample_run(3)
    by (simp add: ds_ready_def)
  moreover have "dpll_step (sample_sys dpll_coasting 1 [Begun]) (sample_sys dpll_coasting 1 [Waiting 1])"
    using dpll_step.begin_holdover [of "sample_sys dpll_coasting 1 [Begun]" "[]" "[]" 0]
    by (simp add: sendDpllEvent_def)
  ultimately show "dpll_reach (dpll_boot sample_params) (sample_sys dpll_coasting 1 [Waiting 1])"
    using 1 by (blast intro: dpll_reach.intros)
qed

section \<open>Properties\<close>

text \<open>
  C20. HOLDOVER is supervised: in every reachable state in which the monitor reports HOLDOVER and has
  not been stopped, the pool holds exactly one holdover goroutine; it has not decided to leave, and
  when it waits it waits on the current channel, so that the drift model, the timeout and a close of
  the monitor can still end the holdover.
\<close>

theorem dpll_holdover_supervised:
  assumes "dpll_reach (dpll_boot p) s" "dl_state (ds_dpll s) = PTP_HOLDOVER" "\<not> dl_closing (ds_dpll s)"
  shows "dl_onHoldover (ds_dpll s) \<and> (\<exists>r \<in> {Begun, Waiting (ds_chan s), Busy}. ds_routines s = [r])"
  using dpll_inv_reach [OF assms(1) dpll_inv_boot] assms(2,3) by (auto simp: dpll_inv_def)

theorem dpll_holdover_supervised_witness:
  "\<exists>s. dpll_reach (dpll_boot sample_params) s \<and> dl_state (ds_dpll s) = PTP_HOLDOVER \<and>
     dl_onHoldover (ds_dpll s) \<and> (\<exists>r \<in> {Begun, Waiting (ds_chan s), Busy}. ds_routines s = [r])"
proof -
  let ?s = "sample_sys dpll_coasting 1 [Waiting 1]"
  have "dl_onHoldover (ds_dpll ?s) \<and> (\<exists>r \<in> {Begun, Waiting (ds_chan ?s), Busy}. ds_routines ?s = [r])"
    by (rule dpll_holdover_supervised [OF dpll_sample_holdover(2)]) simp_all
  with dpll_sample_holdover(2) show ?thesis by (intro exI [of _ ?s]) simp
qed

text \<open>
  From every reachable HOLDOVER the steps of the goroutine alone, with its timeout, lead to
  FREERUN with the goroutine gone and the holdover flag down.
\<close>

abbreviation run_out :: "dpll_sys \<Rightarrow> dpll_sys \<Rightarrow> bool" where
  "run_out s s' \<equiv> dpll_reach s s' \<and> dl_state (ds_dpll s') = PTP_FREERUN \<and> ds_routines s' = [] \<and>
     \<not> dl_onHoldover (ds_dpll s')"

lemma dpll_reach_first: "dpll_step s1 s2 \<Longrightarrow> dpll_reach s2 s3 \<Longrightarrow> dpll_reach s1 s3"
  by (rotate_tac 1, induction rule: dpll_reach.induct) (auto intro: dpll_reach.intros)

lemma run_out_first: "dpll_step s1 s2 \<Longrightarrow> \<exists>s'. run_out s2 s' \<Longrightarrow> \<exists>s'. run_out s1 s'"
  by (blast intro: dpll_reach_first)

lemma leaving_runs_out:
  assumes "ds_routines s = [Leaving]" "dl_state (ds_dpll s) = PTP_FREERUN"
  shows "\<exists>s'. run_out s s'"
proof -
  obtain d es where l: "holdover_leave 0 (ds_dpll s) = (d, es)" by fastforce
  let ?s = "s\<lparr>ds_dpll := d, ds_routines := [], ds_offered := ds_offered s @ offers es\<rparr>"
  have "dpll_step s ?s" using dpll_step.leave [of s "[]" "[]", OF _ l] assms(1) by simp
  moreover have "dl_state d = PTP_FREERUN" "\<not> dl_onHoldover d"
    using l assms(2) by (auto simp: holdover_leave_def Let_def)
  ultimately show ?thesis by (intro exI [of _ ?s]) (auto intro: dpll_reach.intros)
qed

lemma waiting_runs_out:
  assumes "ds_routines s = [Waiting c]"
  shows "\<exists>s'. run_out s s'"
proof -
  obtain d es where t: "holdover_timeout 0 (ds_dpll s) = (d, es)" by fastforce
  let ?s = "s\<lparr>ds_dpll := d, ds_routines := [Leaving], ds_offered := ds_offered s @ offers es\<rparr>"
  have "dpll_step s ?s" using dpll_step.timeout [of s "[]" c "[]", OF _ t] assms by simp
  moreover have "dl_state d = PTP_FREERUN" using t by (auto simp: holdover_timeout_def Let_def)
  then have "\<exists>s'. run_out ?s s'" by (intro leaving_runs_out) simp_all
  ultimately show ?thesis by (rule run_out_first)
qed

lemma dpll_holdover_can_time_out:
  assumes "dpll_reach (dpll_boot p) s" "dl_state (ds_dpll s) = PTP_HOLDOVER" "\<not> dl_closing (ds_dpll s)"
  shows "\<exists>s'. run_out s s'"
proof -
  from dpll_inv_reach [OF assms(1) dpll_inv_boot] assms(2,3)
  consider "ds_routines s = [Begun]" | "ds_routines s = [Waiting (ds_chan s)]" | "ds_routines s = [Busy]"
    by (auto simp: dpll_inv_def)
  then show ?thesis
  proof cases
    case 1
    then show ?thesis
      using run_out_first [OF dpll_step.begin_holdover [of s "[]" "[]" 0] waiting_runs_out] by simp
  next
    case 2
    then show ?thesis by (rule waiting_runs_out)
  next
    case 3
    obtain d es c where t: "holdover_tick 0 (Fin 1) (ds_dpll s) = (d, es, c)"
      by (cases "holdover_tick 0 (Fin 1) (ds_dpll s)")
    let ?s = "s\<lparr>ds_dpll := d, ds_routines := [if c then Waiting (ds_chan s) else Leaving],
      ds_offered := ds_offered s @ offers es\<rparr>"
    have step: "dpll_step s ?s" using dpll_step.tick [of s "[]" "[]", OF _ t] 3 by simp
    have "\<not> c \<Longrightarrow> dl_state d = PTP_FREERUN"
      using t by (auto simp: holdover_tick_def Let_def split: if_splits)
    then have "\<exists>s'. run_out ?s s'"
      using waiting_runs_out [of ?s] leaving_runs_out [of ?s] by (cases c) simp_all
    with step show ?thesis by (rule run_out_first)
  qed
qed

text \<open>
  The monitor enters LOCKED only when the device says so and the phase offset is within the
  configured range (or is not monitored).
\<close>

lemma dpll_locks_in_range:
  assumes "stateDecision now ready d = Some (d', es)" "dl_state d' = PTP_LOCKED" "dl_state d \<noteq> PTP_LOCKED"
  shows "getDpllState d \<in> {DPLL_LOCKED, DPLL_LOCKED_HO_ACQ} \<and> isOffsetInRange d \<and>
    dl_inSpec d' \<and> \<not> dl_sourceLost d'"
proof -
  obtain es1 where c: "chosen_decision ready d = Some (d', es1)"
    using assms(1) by (auto simp: stateDecision_chosen split: if_splits)
  have f: "decide_freerun ready d \<noteq> Some (d', es1)" "decide_holdover ready d \<noteq> Some (d', es1)"
    using assms(2,3) by (auto simp: decide_freerun_def decide_holdover_def Let_def split: if_splits)
  from c f assms(2,3) have l: "decide_locked ready d = Some (d', es1)"
    "getDpllState d \<in> {DPLL_LOCKED, DPLL_LOCKED_HO_ACQ}"
    by (auto simp: chosen_decision_def Let_def split: if_splits)
  with assms(2) show ?thesis by (auto simp: decide_locked_def split: if_splits)
qed

text \<open>
  Until the monitor is stopped no decision panics: in every reachable state that is not closing,
  with a configured source, any update of devices and pins is decided. (The channel that a stop
  closes is never reopened, and a send on it would panic.)
\<close>

lemma dpll_decides_until_stopped:
  assumes "dpll_reach (dpll_boot p) s" "\<not> dl_closing (ds_dpll s)" "dl_dependsOn (ds_dpll s) \<noteq> []"
  shows "applyStateUpdate now ready devices pins (ds_dpll s) \<noteq> None"
proof -
  let ?n = "nlUpdateState devices pins (ds_dpll s)"
  have "dl_holdoverCloseCh (ds_dpll s) \<noteq> ChanClosed"
    using dpll_inv_reach [OF assms(1) dpll_inv_boot] assms(2) by (simp add: dpll_inv_def)
  then have n: "dl_holdoverCloseCh (fst ?n) \<noteq> ChanClosed" "dl_dependsOn (fst ?n) \<noteq> []"
    using nl_updates_keep [of devices pins "ds_dpll s"] assms(3) by (auto simp: dl_control_def)
  have close: "\<exists>es. try_close ready d = Some es" if "dl_holdoverCloseCh d \<noteq> ChanClosed" for d
    using that by (simp add: try_close_def split: chan_state.split)
  have "decide_freerun ready (fst ?n) \<noteq> None" "decide_holdover ready (fst ?n) \<noteq> None"
    "decide_locked ready (fst ?n) \<noteq> None"
    using n(1) by (simp_all add: decide_freerun_def decide_holdover_def decide_locked_def close Let_def)
  then have "chosen_decision ready (fst ?n) \<noteq> None" by (simp add: chosen_decision_def Let_def)
  then show ?thesis using n(2) by (simp add: applyStateUpdate_def stateDecision_chosen split_beta)
qed

text \<open>
  A close can be lost: a reachable monitor whose device is locked with the offset in range, and
  which reports LOCKED, reports HOLDOVER in its next step - the goroutine was busy with a tick when
  the non-blocking close was sent, and goes on.
\<close>

lemma dpll_close_can_be_lost:
  "\<exists>s s'. dpll_reach (dpll_boot sample_params) s \<and> getDpllState (ds_dpll s) = DPLL_LOCKED_HO_ACQ \<and>
     isOffsetInRange (ds_dpll s) \<and> dl_state (ds_dpll s) = PTP_LOCKED \<and>
     dpll_step s s' \<and> dl_state (ds_dpll s') = PTP_HOLDOVER"
proof -
  let ?d = "dpll_coasting\<lparr>dl_phaseStatus := 3, dl_state := PTP_LOCKED\<rparr>"
  let ?s = "sample_sys ?d 1 [Busy]"
  have "dpll_step (sample_sys dpll_coasting 1 [Waiting 1]) (sample_sys dpll_coasting 1 [Busy])"
    using dpll_step.wake [of "sample_sys dpll_coasting 1 [Waiting 1]" "[]" 1 "[]"] by simp
  moreover have "dpll_step (sample_sys dpll_coasting 1 [Busy]) ?s"
    using dpll_step.update [of 0 "sample_sys dpll_coasting 1 [Busy]" "[sample_device 3]" "[]" ?d "[]" 1 "[Busy]"]
      sample_run(4) quiet_step [of 1 "[Busy]"] by (simp add: ds_ready_def)
  ultimately have r: "dpll_reach (dpll_boot sample_params) ?s"
    using dpll_sample_holdover(2) by (blast intro: dpll_reach.intros)
  obtain d es c where t: "holdover_tick 0 (Fin 1) ?d = (d, es, c)" by (cases "holdover_tick 0 (Fin 1) ?d")
  have "dl_state d = PTP_HOLDOVER"
    using t by (auto simp: holdover_tick_def hasGNSSAsSource_def Let_def)
  moreover have "dpll_step ?s (?s\<lparr>ds_dpll := d,
      ds_routines := [if c then Waiting 1 else Leaving], ds_offered := [] @ offers es\<rparr>)"
    using dpll_step.tick [of ?s "[]" "[]" 0 "Fin 1" d es c] t by (simp cong: if_cong)
  ultimately obtain s' where "dpll_step ?s s'" "dl_state (ds_dpll s') = PTP_HOLDOVER" by fastforce
  moreover have "getDpllState ?d = DPLL_LOCKED_HO_ACQ" "isOffsetInRange ?d" by (simp_all add: dpll_eval)
  ultimately show ?thesis using r by (intro exI [of _ ?s] exI [of _ s']) simp
qed

text \<open>
  Losing the lock in holdover leaves the monitor "in spec": the decision for FREERUN clears the
  flag, but the goroutine it closes sets it again, so that a later holdover of the device would be
  accepted from FREERUN.
\<close>

lemma dpll_unlock_leaves_in_spec:
  "\<exists>s. dpll_reach (dpll_boot sample_params) s \<and> getDpllState (ds_dpll s) = DPLL_FREERUN \<and>
     dl_state (ds_dpll s) = PTP_FREERUN \<and> ds_routines s = [] \<and> dl_inSpec (ds_dpll s)"
proof -
  let ?d = "dpll_coasting\<lparr>dl_phaseStatus := 1, dl_inSpec := False, dl_sourceLost := True,
    dl_state := PTP_FREERUN, dl_phaseOffset := FaultyOffset\<rparr>"
  let ?e = "?d\<lparr>dl_inSpec := True\<rparr>" let ?f = "?e\<lparr>dl_onHoldover := False\<rparr>"
  have "after_decision [CloseHoldover] 1 [Waiting 1] 1 [Closing]"
    using after_decision.handed [of "[CloseHoldover]" 1 "[]" "[]"] by simp
  then have "dpll_step (sample_sys dpll_coasting 1 [Waiting 1]) (sample_sys ?d 1 [Closing])"
    using dpll_step.update [of 0 "sample_sys dpll_coasting 1 [Waiting 1]" "[sample_device 1]" "[]" ?d
      "[CloseHoldover]" 1 "[Closing]"] sample_run(5) by (simp add: ds_ready_def)
  moreover have "dpll_step (sample_sys ?d 1 [Closing]) (sample_sys ?e 1 [Leaving])"
    using dpll_step.closed [of "sample_sys ?d 1 [Closing]" "[]" "[]"] by (simp add: holdover_closed_def)
  moreover have "dpll_step (sample_sys ?e 1 [Leaving]) (sample_sys ?f 1 [])"
    using dpll_step.leave [of "sample_sys ?e 1 [Leaving]" "[]" "[]" 0 ?f "[]"]
    by (simp add: holdover_leave_def sendDpllEvent_def Let_def)
  ultimately have "dpll_reach (dpll_boot sample_params) (sample_sys ?f 1 [])"
    using dpll_sample_holdover(2) by (blast intro: dpll_reach.intros)
  then show ?thesis by (intro exI [of _ "sample_sys ?f 1 []"]) (simp add: dpll_eval)
qed

end
