(* ===== verification/GoText.thy ===== *)
theory GoText
  imports Float64
begin

text \<open>
  The two parts of Go's standard library through which the daemon reads text:
  \<open>strconv\<close> (\<open>ParseUint\<close>, \<open>ParseInt\<close>, \<open>Atoi\<close>, \<open>ParseFloat\<close>)
  and \<open>regexp\<close> with its leftmost-first matching. A regular expression is an abstract
  syntax tree over character classes; the matcher tries the alternatives in the order of
  preference and passes the rest of the input to a continuation, so that the first success is
  the match Go reports. Repetition is over single characters, as in every expression of the
  repository. Text is a sequence of bytes.
\<close>

named_theorems text_simps \<open>rewrite rules for reading text\<close>

section \<open>Numbers\<close>

datatype num_error = ErrSyntax | ErrRange

definition digit_val :: "char \<Rightarrow> nat option" where
  "digit_val c =
     (let n = of_char c :: nat in
      if 48 \<le> n \<and> n \<le> 57 then Some (n - 48)
      else if 97 \<le> n \<and> n \<le> 122 then Some (n - 87)
      else if 65 \<le> n \<and> n \<le> 90 then Some (n - 55) else None)"

text \<open>\<open>ParseUint\<close>: the loop stops at the first bad character and at the first overflow.\<close>

fun uint_loop :: "nat \<Rightarrow> nat \<Rightarrow> nat \<Rightarrow> string \<Rightarrow> nat \<times> num_error option" where
  "uint_loop b maxv n [] = (n, None)"
| "uint_loop b maxv n (c # cs) =
     (case digit_val c of
        None \<Rightarrow> (0, Some ErrSyntax)
      | Some d \<Rightarrow>
          if b \<le> d then (0, Some ErrSyntax)
          else if maxv < n * b + d then (maxv, Some ErrRange)
          else uint_loop b maxv (n * b + d) cs)"

definition ParseUint :: "string \<Rightarrow> nat \<Rightarrow> nat \<Rightarrow> nat \<times> num_error option" where
  "ParseUint s b bits = (if s = '''' then (0, Some ErrSyntax) else uint_loop b (2 ^ bits - 1) 0 s)"

definition ParseInt :: "string \<Rightarrow> nat \<Rightarrow> nat \<Rightarrow> int \<times> num_error option" where
  "ParseInt s b bits =
     (if s = '''' then (0, Some ErrSyntax)
      else let neg = (hd s = CHR ''-'');
               digits = (if hd s = CHR ''-'' \<or> hd s = CHR ''+'' then tl s else s);
               (un, err) = ParseUint digits b bits;
               cutoff = (2 ^ (bits - 1) :: int)
           in if err = Some ErrSyntax then (0, err)
              else if \<not> neg \<and> cutoff \<le> int un then (cutoff - 1, Some ErrRange)
              else if neg \<and> cutoff < int un then (- cutoff, Some ErrRange)
              else (if neg then - int un else int un, None))"

definition Atoi :: "string \<Rightarrow> int \<times> num_error option" where
  "Atoi s = ParseInt s 10 64"

lemma uint_loop_append:
  "uint_loop b maxv n (xs @ ys) =
     (case uint_loop b maxv n xs of (m, None) \<Rightarrow> uint_loop b maxv m ys | r \<Rightarrow> r)"
  by (induction xs arbitrary: n) (auto split: option.splits)

lemma of_char_char_of: "n < 256 \<Longrightarrow> of_char (char_of n :: char) = (n :: nat)"
  by simp

lemma digit_val_digit_char: "d < 36 \<Longrightarrow> digit_val (digit_char d) = Some d"
  unfolding digit_val_def digit_char_def Let_def
  by (cases "d < 10") (simp_all only: if_True if_False of_char_char_of, simp_all)

lemma uint_loop_show_base:
  assumes "2 \<le> b" "b \<le> 36" "n \<le> maxv"
  shows "uint_loop b maxv 0 (show_base b n) = (n, None)"
  using assms
proof (induction b n rule: show_base.induct)
  case (1 b n)
  show ?case
  proof (cases "n < b")
    case True
    with 1 show ?thesis by (simp add: show_base.simps [of b n] digit_val_digit_char)
  next
    case False
    have "n div b * b + n mod b = n" by simp
    moreover have "n div b \<le> maxv" using 1(4) le_trans [OF div_le_dividend] by blast
    moreover have "n mod b < b" using 1(2) by simp
    moreover have "\<not> (b < 2 \<or> n < b)" using False 1(2) by simp
    moreover have "digit_val (digit_char (n mod b)) = Some (n mod b)"
      using \<open>n mod b < b\<close> 1(3) by (intro digit_val_digit_char) simp
    ultimately show ?thesis
      using 1 False
      by (subst show_base.simps) (simp add: uint_loop_append linorder_not_le)
  qed
qed

lemma show_base_nonempty [simp]: "show_base b n \<noteq> []"
  by (subst show_base.simps) simp

lemma ParseUint_show_base [text_simps]:
  "2 \<le> b \<Longrightarrow> b \<le> 36 \<Longrightarrow> n < 2 ^ bits \<Longrightarrow> ParseUint (show_base b n) b bits = (n, None)"
  by (simp add: ParseUint_def uint_loop_show_base)

text \<open>What a successful or clamped read returns always fits the width.\<close>

lemma uint_loop_bound: "n \<le> maxv \<Longrightarrow> fst (uint_loop b maxv n s) \<le> maxv"
  by (induction s arbitrary: n) (auto split: option.splits)

lemma ParseUint_bound: "fst (ParseUint s b bits) < 2 ^ bits"
proof -
  have "fst (uint_loop b (2 ^ bits - 1) 0 s) \<le> 2 ^ bits - 1" by (rule uint_loop_bound) simp
  then have "fst (uint_loop b (2 ^ bits - 1) 0 s) < 2 ^ bits"
    by (metis le_imp_less_Suc Suc_diff_1 zero_less_power zero_less_numeral)
  then show ?thesis by (simp add: ParseUint_def)
qed

lemma ParseInt_bound:
  assumes "0 < bits"
  shows "- (2 ^ (bits - 1)) \<le> fst (ParseInt s b bits)" "fst (ParseInt s b bits) < 2 ^ (bits - 1)"
proof -
  have p: "0 < (2 ^ (bits - 1) :: int)" by simp
  show "- (2 ^ (bits - 1)) \<le> fst (ParseInt s b bits)"
    using p by (auto simp: ParseInt_def Let_def split_beta intro: order_trans [of _ 0])
  show "fst (ParseInt s b bits) < 2 ^ (bits - 1)"
    using p by (auto simp: ParseInt_def Let_def split_beta intro: order_le_less_trans [of _ 0])
qed

lemma ParseInt_show_nat [text_simps]:
  assumes "0 < bits" "int n < 2 ^ (bits - 1)"
  shows "ParseInt (show_nat n) 10 bits = (int n, None)"
proof -
  have h: "hd (show_base 10 n) \<in> digit_char ` {0..<10}" for n
    by (induction "10 :: nat" n rule: show_base.induct) (subst show_base.simps, auto)
  have "hd (show_nat n) \<noteq> CHR ''-''" "hd (show_nat n) \<noteq> CHR ''+''"
  proof -
    obtain d where "d < 10" "hd (show_nat n) = digit_char d" using h [of n] by (auto simp: show_nat_def)
    moreover have "digit_val CHR ''-'' = None" "digit_val CHR ''+'' = None" by (simp_all add: digit_val_def)
    ultimately show "hd (show_nat n) \<noteq> CHR ''-''" "hd (show_nat n) \<noteq> CHR ''+''"
      using digit_val_digit_char [of d] by auto
  qed
  moreover have "ParseUint (show_nat n) 10 bits = (n, None)"
  proof -
    have "int n < 2 ^ bits"
      using assms(2) power_increasing [of "bits - 1" bits "2 :: int"] by linarith
    then have "n < 2 ^ bits" by (metis of_nat_less_iff of_nat_numeral of_nat_power)
    then show ?thesis unfolding show_nat_def by (intro ParseUint_show_base) simp_all
  qed
  moreover have "show_nat n \<noteq> []" by (simp add: show_nat_def)
  ultimately show ?thesis using assms by (simp add: ParseInt_def)
qed

section \<open>Character classes\<close>

text \<open>\<open>\\s\<close> of the regular expressions, \<open>[[:space:]]\<close> (which has the vertical tab as well),
  \<open>\\d\<close>, \<open>\\w\<close>, \<open>.\<close> and the hexadecimal classes.\<close>

definition ch_s :: "char \<Rightarrow> bool" where
  "ch_s c \<longleftrightarrow> c \<in> {CHR 0x09, CHR 0x0A, CHR 0x0C, CHR 0x0D, CHR '' ''}"

definition ch_space :: "char \<Rightarrow> bool" where
  "ch_space c \<longleftrightarrow> c \<in> {CHR 0x09, CHR 0x0A, CHR 0x0B, CHR 0x0C, CHR 0x0D, CHR '' ''}"

definition ch_digit :: "char \<Rightarrow> bool" where
  "ch_digit c \<longleftrightarrow> 48 \<le> (of_char c :: nat) \<and> (of_char c :: nat) \<le> 57"

definition ch_lower :: "char \<Rightarrow> bool" where
  "ch_lower c \<longleftrightarrow> 97 \<le> (of_char c :: nat) \<and> (of_char c :: nat) \<le> 122"

definition ch_upper :: "char \<Rightarrow> bool" where
  "ch_upper c \<longleftrightarrow> 65 \<le> (of_char c :: nat) \<and> (of_char c :: nat) \<le> 90"

definition ch_word :: "char \<Rightarrow> bool" where
  "ch_word c \<longleftrightarrow> ch_digit c \<or> ch_lower c \<or> ch_upper c \<or> c = CHR ''_''"

definition ch_any :: "char \<Rightarrow> bool" where
  "ch_any c \<longleftrightarrow> c \<noteq> CHR 0x0A"

definition ch_hex_lower :: "char \<Rightarrow> bool" where
  "ch_hex_lower c \<longleftrightarrow> ch_digit c \<or> (97 \<le> (of_char c :: nat) \<and> (of_char c :: nat) \<le> 102)"

definition ch_hex :: "char \<Rightarrow> bool" where
  "ch_hex c \<longleftrightarrow> ch_hex_lower c \<or> (65 \<le> (of_char c :: nat) \<and> (of_char c :: nat) \<le> 70)"

definition ch_is :: "string \<Rightarrow> char \<Rightarrow> bool" where
  "ch_is cs c \<longleftrightarrow> c \<in> set cs"

lemmas ch_defs = ch_s_def ch_space_def ch_digit_def ch_lower_def ch_upper_def ch_word_def ch_any_def
  ch_hex_lower_def ch_hex_def ch_is_def

text \<open>\<open>ParseFloat(s, 64)\<close> on decimal input, infinities and NaN; hexadecimal floats are left out.\<close>

definition digits_val :: "string \<Rightarrow> nat" where
  "digits_val s = foldl (\<lambda>n c. 10 * n + (of_char c - 48)) 0 s"

definition lower :: "string \<Rightarrow> string" where
  "lower s = map (\<lambda>c. if ch_upper c then char_of ((of_char c :: nat) + 32) else c) s"

text \<open>The exponent at the end of a decimal number; \<open>None\<close> when it is malformed.\<close>

definition read_exponent :: "string \<Rightarrow> int option" where
  "read_exponent s =
     (if s = '''' then Some 0
      else if hd s \<noteq> CHR ''e'' \<and> hd s \<noteq> CHR ''E'' then None
      else let t = tl s;
               ds = (if t \<noteq> '''' \<and> (hd t = CHR ''-'' \<or> hd t = CHR ''+'') then tl t else t)
           in if ds = '''' \<or> \<not> list_all ch_digit ds then None
              else Some (if hd t = CHR ''-'' then - int (digits_val ds) else int (digits_val ds)))"

definition pow10 :: "int \<Rightarrow> rat" where
  "pow10 e = (if 0 \<le> e then 10 ^ nat e else 1 / 10 ^ nat (- e))"

definition ParseFloat :: "string \<Rightarrow> f64 \<times> num_error option" where
  "ParseFloat s =
     (let signed = s \<noteq> '''' \<and> (hd s = CHR ''-'' \<or> hd s = CHR ''+'');
          neg = s \<noteq> '''' \<and> hd s = CHR ''-'';
          t = (if signed then tl s else s);
          ip = takeWhile ch_digit t; r1 = dropWhile ch_digit t;
          dot = r1 \<noteq> '''' \<and> hd r1 = CHR ''.'';
          fp = (if dot then takeWhile ch_digit (tl r1) else '''');
          r2 = (if dot then dropWhile ch_digit (tl r1) else r1)
      in if lower t = ''inf'' \<or> lower t = ''infinity'' then (Inf neg, None)
         else if lower s = ''nan'' then (NaN, None)
         else if ip @ fp = '''' then (Fin 0, Some ErrSyntax)
         else (case read_exponent r2 of
                 None \<Rightarrow> (Fin 0, Some ErrSyntax)
               | Some e \<Rightarrow>
                   let m = of_nat (digits_val (ip @ fp)) * pow10 (e - int (length fp));
                       v = f64_norm (if neg then - m else m)
                   in (v, case v of Fin _ \<Rightarrow> None | _ \<Rightarrow> Some ErrRange)))"

section \<open>Regular expressions\<close>

text \<open>
  \<open>RMany g p\<close> is the repetition of one character, greedy when \<open>g\<close>, \<open>RCap i r\<close> a capturing group.
\<close>

datatype rx =
    REps
  | REnd
  | RLit string
  | RCls "char \<Rightarrow> bool"
  | RMany bool "char \<Rightarrow> bool"
  | RSeq rx rx
  | RAlt rx rx
  | RCap nat rx

abbreviation RPlus :: "(char \<Rightarrow> bool) \<Rightarrow> rx" where "RPlus p \<equiv> RSeq (RCls p) (RMany True p)"
abbreviation ROpt :: "rx \<Rightarrow> rx" where "ROpt r \<equiv> RAlt r REps"

fun rseq :: "rx list \<Rightarrow> rx" where
  "rseq [] = REps"
| "rseq (r # rs) = RSeq r (rseq rs)"

type_synonym captures = "(nat \<times> string) list"

fun many :: "bool \<Rightarrow> (char \<Rightarrow> bool) \<Rightarrow> string \<Rightarrow> (string \<Rightarrow> 'r option) \<Rightarrow> 'r option" where
  "many g p [] k = k []"
| "many g p (c # s) k =
     (if \<not> p c then k (c # s)
      else if g then (case many g p s k of Some r \<Rightarrow> Some r | None \<Rightarrow> k (c # s))
      else (case k (c # s) of Some r \<Rightarrow> Some r | None \<Rightarrow> many g p s k))"

fun mt :: "rx \<Rightarrow> captures \<Rightarrow> string \<Rightarrow> (captures \<Rightarrow> string \<Rightarrow> 'r option) \<Rightarrow> 'r option" where
  "mt REps m s k = k m s"
| "mt REnd m s k = (if s = [] then k m s else None)"
| "mt (RLit l) m s k = (if has_prefix s l then k m (drop (length l) s) else None)"
| "mt (RCls p) m s k = (case s of [] \<Rightarrow> None | c # t \<Rightarrow> if p c then k m t else None)"
| "mt (RMany g p) m s k = many g p s (k m)"
| "mt (RSeq a b) m s k = mt a m s (\<lambda>m' s'. mt b m' s' k)"
| "mt (RAlt a b) m s k = (case mt a m s k of Some r \<Rightarrow> Some r | None \<Rightarrow> mt b m s k)"
| "mt (RCap i r) m s k = mt r m s (\<lambda>m' s'. k ((i, take (length s - length s') s) # m') s')"

text \<open>A match at the head of the input, and the leftmost match.\<close>

definition match_here :: "rx \<Rightarrow> string \<Rightarrow> (captures \<times> string) option" where
  "match_here r s = mt r [] s (\<lambda>m s'. Some (m, take (length s - length s') s))"

fun match_leftmost :: "rx \<Rightarrow> string \<Rightarrow> (captures \<times> string) option" where
  "match_leftmost r [] = match_here r []"
| "match_leftmost r (c # s) =
     (case match_here r (c # s) of Some x \<Rightarrow> Some x | None \<Rightarrow> match_leftmost r s)"

definition capture :: "captures \<Rightarrow> nat \<Rightarrow> string" where
  "capture m i = (case map_of m i of Some v \<Rightarrow> v | None \<Rightarrow> '''')"

text \<open>\<open>FindStringSubmatch\<close> of an expression with \<open>n\<close> groups; \<open>anchored\<close> when it begins with \<open>^\<close>.\<close>

definition FindStringSubmatch :: "bool \<Rightarrow> nat \<Rightarrow> rx \<Rightarrow> string \<Rightarrow> string list option" where
  "FindStringSubmatch anchored n r s =
     map_option (\<lambda>(m, w). w # map (capture m) [1..<Suc n])
       (if anchored then match_here r s else match_leftmost r s)"

section \<open>Facts about matching\<close>

text \<open>A successful match has called its continuation on a suffix of the input.\<close>

lemma many_suffix: "many g p s k = Some x \<Longrightarrow> \<exists>u t. s = u @ t \<and> k t = Some x \<and> list_all p u"
proof (induction s)
  case Nil
  then show ?case by simp
next
  case (Cons c s)
  show ?case
  proof (cases "k (c # s) = Some x")
    case True
    then show ?thesis by (intro exI [of _ "[]"] exI [of _ "c # s"]) simp
  next
    case False
    with Cons.prems have "p c" "many g p s k = Some x"
      by (auto split: if_splits option.splits)
    with Cons.IH obtain u t where "s = u @ t" "k t = Some x" "list_all p u" by blast
    with \<open>p c\<close> show ?thesis by (intro exI [of _ "c # u"] exI [of _ t]) simp
  qed
qed

text \<open>The words an expression stands for (the end-of-text test matches no character).\<close>

fun lang :: "rx \<Rightarrow> string \<Rightarrow> bool" where
  "lang REps u = (u = '''')"
| "lang REnd u = (u = '''')"
| "lang (RLit l) u = (u = l)"
| "lang (RCls p) u = (\<exists>c. u = [c] \<and> p c)"
| "lang (RMany g p) u = list_all p u"
| "lang (RSeq a b) u = (\<exists>v w. u = v @ w \<and> lang a v \<and> lang b w)"
| "lang (RAlt a b) u = (lang a u \<or> lang b u)"
| "lang (RCap i r) u = lang r u"

lemma lang_plus: "lang (RSeq (RCls p) (RMany g p)) u \<longleftrightarrow> u \<noteq> '''' \<and> list_all p u"
proof
  assume "u \<noteq> '''' \<and> list_all p u"
  then obtain c v where "u = [c] @ v" "p c" "list_all p v" by (cases u) auto
  then show "lang (RSeq (RCls p) (RMany g p)) u" by (simp only: lang.simps) blast
qed auto

fun nocap :: "rx \<Rightarrow> bool" where
  "nocap (RCap i r) = False"
| "nocap (RSeq a b) = (nocap a \<and> nocap b)"
| "nocap (RAlt a b) = (nocap a \<and> nocap b)"
| "nocap _ = True"

fun noend :: "rx \<Rightarrow> bool" where
  "noend REnd = False"
| "noend (RSeq a b) = (noend a \<and> noend b)"
| "noend (RAlt a b) = (noend a \<and> noend b)"
| "noend (RCap i r) = noend r"
| "noend _ = True"

text \<open>Soundness: what is matched is a word of the expression, and the rest went to the continuation.\<close>

lemma mt_sound:
  "mt r m s k = Some x \<Longrightarrow>
   \<exists>m' u t. s = u @ t \<and> lang r u \<and> k m' t = Some x \<and> (nocap r \<longrightarrow> m' = m)"
proof (induction r arbitrary: m s k)
  case (RLit l)
  then have "s = l @ drop (length l) s" "k m (drop (length l) s) = Some x"
    by (auto simp: has_prefix_def split: if_splits) (metis append_take_drop_id)
  then show ?case by auto
next
  case (RCls p)
  then obtain c t where "s = [c] @ t" "lang (RCls p) [c]" "k m t = Some x"
    by (auto split: list.splits if_splits)
  then show ?case by blast
next
  case (RMany g p)
  then show ?case using many_suffix [of g p s "k m" x] by auto
next
  case (RSeq a b)
  from RSeq.prems have "mt a m s (\<lambda>m' s'. mt b m' s' k) = Some x" by simp
  from RSeq.IH(1) [OF this] obtain m' u t
    where 1: "s = u @ t" "lang a u" "mt b m' t k = Some x" "nocap a \<longrightarrow> m' = m" by blast
  from RSeq.IH(2) [OF 1(3)] obtain m'' v w
    where 2: "t = v @ w" "lang b v" "k m'' w = Some x" "nocap b \<longrightarrow> m'' = m'" by blast
  have "s = (u @ v) @ w" "lang (RSeq a b) (u @ v)" using 1 2 by auto
  with 1(4) 2(3,4) show ?case by (metis nocap.simps(2))
next
  case (RAlt a b)
  show ?case
  proof (cases "mt a m s k")
    case None
    with RAlt.prems have "mt b m s k = Some x" by simp
    from RAlt.IH(2) [OF this] show ?thesis by auto
  next
    case (Some y)
    with RAlt.prems have "mt a m s k = Some x" by simp
    from RAlt.IH(1) [OF this] show ?thesis by auto
  qed
next
  case (RCap i r)
  from RCap.prems have "mt r m s (\<lambda>m' s'. k ((i, take (length s - length s') s) # m') s') = Some x"
    by simp
  from RCap.IH [OF this] show ?case by auto
next
  case REps
  then show ?case by auto
next
  case REnd
  then show ?case by (auto split: if_splits)
qed

text \<open>Inversion of a capturing group: the group has the matched word.\<close>

lemma mt_cap_sound:
  assumes "mt (RCap i r) m s k = Some x" "nocap r"
  shows "\<exists>u t. s = u @ t \<and> lang r u \<and> k ((i, u) # m) t = Some x"
proof -
  from assms(1) have "mt r m s (\<lambda>m' s'. k ((i, take (length s - length s') s) # m') s') = Some x"
    by simp
  from mt_sound [OF this] obtain m' u t where "s = u @ t" "lang r u" "m' = m"
    "k ((i, take (length s - length t) s) # m') t = Some x" using assms(2) by blast
  then have "s = u @ t \<and> lang r u \<and> k ((i, u) # m) t = Some x" by simp
  then show ?thesis by blast
qed

text \<open>Completeness: when some word leads to a success, the matcher finds one.\<close>

lemma many_complete: "list_all p u \<Longrightarrow> k t \<noteq> None \<Longrightarrow> many g p (u @ t) k \<noteq> None"
proof (induction u)
  case Nil
  then show ?case by (cases t) (auto split: option.splits)
qed (auto split: option.splits)

lemma mt_complete:
  "noend r \<Longrightarrow> lang r u \<Longrightarrow> (\<And>m'. k m' t \<noteq> None) \<Longrightarrow> mt r m (u @ t) k \<noteq> None"
proof (induction r arbitrary: m u k t)
  case (RMany g p)
  then show ?case using many_complete [of p u "k m" t g] by simp
next
  case (RSeq a b)
  then obtain v w where u: "u = v @ w" "lang a v" "lang b w" by auto
  have "mt a m (v @ w @ t) (\<lambda>m' s'. mt b m' s' k) \<noteq> None"
  proof (rule RSeq.IH(1))
    show "mt b m' (w @ t) k \<noteq> None" for m' using RSeq u by (intro RSeq.IH(2)) auto
  qed (use RSeq u in auto)
  with u show ?case by simp
next
  case (RAlt a b)
  from RAlt.prems(2) consider "lang a u" | "lang b u" by auto
  then show ?case
  proof cases
    case 1
    with RAlt.prems have "mt a m (u @ t) k \<noteq> None" by (intro RAlt.IH(1)) auto
    then show ?thesis by (auto split: option.splits)
  next
    case 2
    with RAlt.prems have "mt b m (u @ t) k \<noteq> None" by (intro RAlt.IH(2)) auto
    then show ?thesis by (auto split: option.splits)
  qed
next
  case (RCap i r)
  have "mt r m (u @ t) (\<lambda>m' s'. k ((i, take (length (u @ t) - length s') (u @ t)) # m') s') \<noteq> None"
    using RCap.prems by (intro RCap.IH) auto
  then show ?case by simp
qed (auto simp: has_prefix_def)

lemma match_here_prefix: "match_here r s = Some (m, w) \<Longrightarrow> \<exists>t. s = w @ t"
  unfolding match_here_def by (drule mt_sound) auto

lemma match_leftmost_infix: "match_leftmost r s = Some (m, w) \<Longrightarrow> \<exists>u t. s = u @ w @ t"
proof (induction s)
  case Nil
  then show ?case using match_here_prefix by fastforce
next
  case (Cons c s)
  show ?case
  proof (cases "match_here r (c # s)")
    case None
    with Cons obtain u t where "s = u @ w @ t" by auto
    then show ?thesis by (intro exI [of _ "c # u"] exI [of _ t]) simp
  next
    case (Some y)
    with Cons.prems match_here_prefix [of r "c # s" m w] show ?thesis
      by (auto intro: exI [of _ "[]"])
  qed
qed

lemma has_prefix_append [simp]: "has_prefix (l @ s) l"
  by (simp add: has_prefix_def)

lemma mt_lit [text_simps]: "mt (RLit l) m (l @ s) k = k m s"
  by simp

text \<open>Greedy repetition takes the whole run when that lets the rest succeed.\<close>

lemma many_run:
  "list_all p xs \<Longrightarrow> rest = [] \<or> \<not> p (hd rest) \<Longrightarrow> k rest = Some x \<Longrightarrow>
   many True p (xs @ rest) k = Some x"
proof (induction xs)
  case Nil
  then show ?case by (cases rest) auto
qed auto

lemma mt_plus:
  assumes "list_all p xs" "xs \<noteq> []" "rest = [] \<or> \<not> p (hd rest)" "k m rest = Some x"
  shows "mt (RPlus p) m (xs @ rest) k = Some x"
  using assms many_run [of p "tl xs" rest "k m" x] by (cases xs) auto

lemma mt_cap:
  assumes "mt r m (v @ rest) (\<lambda>m' s'. k ((i, take (length (v @ rest) - length s') (v @ rest)) # m') s') = Some x"
  shows "mt (RCap i r) m (v @ rest) k = Some x"
  using assms by simp

text \<open>
  An expression reads a word when, in front of white space or the end of the input, it takes
  exactly this word, provided that lets the rest succeed.
\<close>

definition reads :: "rx \<Rightarrow> string \<Rightarrow> bool" where
  "reads r v \<longleftrightarrow>
     (\<forall>m rest k (x :: captures \<times> string). (rest = [] \<or> ch_space (hd rest)) \<longrightarrow> k m rest = Some x \<longrightarrow>
        mt r m (v @ rest) k = Some x)"

lemma readsD:
  fixes x :: "captures \<times> string"
  shows "reads r v \<Longrightarrow> rest = [] \<or> ch_space (hd rest) \<Longrightarrow> k m rest = Some x \<Longrightarrow>
    mt r m (v @ rest) k = Some x"
  unfolding reads_def by blast

lemma readsI:
  "(\<And>m rest k (x :: captures \<times> string). rest = [] \<or> ch_space (hd rest) \<Longrightarrow> k m rest = Some x \<Longrightarrow>
      mt r m (v @ rest) k = Some x) \<Longrightarrow> reads r v"
  unfolding reads_def by blast

lemma reads_plus:
  assumes "list_all p v" "v \<noteq> []" "\<And>c. ch_space c \<Longrightarrow> \<not> p c"
  shows "reads (RPlus p) v"
  by (rule readsI, rule mt_plus) (use assms in auto)

lemma reads_lit: "reads (RLit v) v"
  by (rule readsI) (simp only: mt_lit)

lemma reads_cls: "p c \<Longrightarrow> reads (RCls p) [c]"
  by (rule readsI) simp

text \<open>After a fixed prefix, or in front of a separator that ends the run.\<close>

lemma reads_lit_seq: "reads r v \<Longrightarrow> reads (RSeq (RLit l) r) (l @ v)"
  by (rule readsI) (simp, erule (2) readsD)

lemma reads_plus_seq:
  assumes "list_all p v" "v \<noteq> []" "w \<noteq> []" "\<not> p (hd w)" "reads r w"
  shows "reads (RSeq (RPlus p) r) (v @ w)"
proof (rule readsI)
  fix m rest and k :: "captures \<Rightarrow> string \<Rightarrow> (captures \<times> string) option" and x
  assume rest: "rest = [] \<or> ch_space (hd rest)" and k: "k m rest = Some x"
  have "mt (RPlus p) m (v @ w @ rest) (\<lambda>m' s'. mt r m' s' k) = Some x"
  proof (rule mt_plus)
    show "mt r m (w @ rest) k = Some x" using assms(5) rest k by (rule readsD)
  qed (use assms in auto)
  then show "mt (RSeq (RPlus p) r) m ((v @ w) @ rest) k = Some x" by simp
qed

lemma reads_alt: "reads a v \<Longrightarrow> reads (RAlt a b) v"
  by (simp add: reads_def)

end
