(* ===== verification/ProtocolText.thy ===== *)
theory ProtocolText
  imports Protocol GoText
begin

text \<open>
  \<open>pkg/protocol/type.go\<close>, the text side: how each PTP data set is printed for the
  \<open>SET\<close> commands of pmc, the regular expression that finds it in the output of pmc, and
  the update of a data set from the captured fields. The non-capturing \<open>MonitorRegEx\<close>,
  which nothing calls, and the printing of \<open>CurrentDS\<close>, which only goes to the log, are left
  out.
\<close>

section \<open>Field conversions\<close>

definition btoi :: "bool \<Rightarrow> nat" where
  "btoi b = (if b then 1 else 0)"

definition stob :: "string \<Rightarrow> bool" where
  "stob s \<longleftrightarrow> s = ''1''"

definition ootob :: "string \<Rightarrow> bool" where
  "ootob s \<longleftrightarrow> s = ''on''"

definition btooo :: "bool \<Rightarrow> string" where
  "btooo b = (if b then ''on'' else ''off'')"

definition stou8 :: "string \<Rightarrow> u8" where
  "stou8 s = of_nat (fst (ParseUint s 10 8))"

definition stou8h :: "string \<Rightarrow> u8" where
  "stou8h s = of_nat (fst (ParseUint (replace_first s ''0x'' '''') 16 8))"

definition stou16h :: "string \<Rightarrow> u16" where
  "stou16h s = of_nat (fst (ParseUint (replace_first s ''0x'' '''') 16 16))"

definition stou16 :: "string \<Rightarrow> u16" where
  "stou16 s = of_nat (fst (ParseUint s 10 16))"

definition stoi32 :: "string \<Rightarrow> i32" where
  "stoi32 s = of_int (fst (ParseInt s 10 32))"

definition stof64 :: "string \<Rightarrow> f64" where
  "stof64 s = fst (ParseFloat s)"

definition stou32h :: "string \<Rightarrow> u32" where
  "stou32h s = of_nat (fst (ParseUint (replace_first s ''0x'' '''') 16 32))"

section \<open>The regular expression of a data set\<close>

text \<open>The value patterns.\<close>

definition rx_dec :: rx where "rx_dec = RPlus ch_digit"
definition rx_hex :: rx where "rx_hex = RSeq (RLit ''0x'') (RPlus ch_hex_lower)"
definition rx_bit :: rx where "rx_bit = RCls (ch_is ''01'')"
definition rx_onoff :: rx where "rx_onoff = RAlt (RLit ''on'') (RLit ''off'')"
definition rx_signed :: rx where "rx_signed = RSeq (ROpt (RLit ''-'')) (RPlus ch_digit)"

definition rx_fixed :: rx where
  "rx_fixed = rseq [RPlus ch_digit, RLit ''.'', RPlus ch_digit]"

definition rx_signed_fixed :: rx where
  "rx_signed_fixed = RSeq (ROpt (RLit ''-'')) rx_fixed"

definition clockIdentityPattern :: rx where
  "clockIdentityPattern =
     RSeq (RPlus ch_hex) (RSeq (RLit ''.'') (RSeq (RPlus ch_hex) (RSeq (RLit ''.'') (RPlus ch_hex))))"

definition portIdentityPattern :: rx where
  "portIdentityPattern =
     RSeq (RPlus ch_hex) (RSeq (RLit ''.'') (RSeq (RPlus ch_hex) (RSeq (RLit ''.'')
       (RSeq (RPlus ch_hex) (RSeq (RLit ''-'') (RPlus ch_digit))))))"

text \<open>A key is put into the expression as it is: its dots match any character.\<close>

definition key_rx :: "string \<Rightarrow> rx" where
  "key_rx k = rseq (map (\<lambda>c. if c = CHR ''.'' then RCls ch_any else RLit [c]) k)"

definition key_part :: "nat \<Rightarrow> (string \<Rightarrow> rx) \<Rightarrow> string list \<Rightarrow> string \<Rightarrow> rx" where
  "key_part i vals optionalKeys k =
     (let r = RSeq (RPlus ch_space) (RSeq (key_rx k) (RSeq (RPlus ch_space) (RCap i (vals k)))) in
      if k \<in> set optionalKeys then ROpt r else r)"

text \<open>\<open>buildDataSetRegex\<close> with capturing groups, numbered from \<open>i\<close>.\<close>

fun buildDataSetRegex :: "nat \<Rightarrow> (string \<Rightarrow> rx) \<Rightarrow> string list \<Rightarrow> string list \<Rightarrow> rx" where
  "buildDataSetRegex i vals optionalKeys [] = REps"
| "buildDataSetRegex i vals optionalKeys (k # ks) =
     RSeq (key_part i vals optionalKeys k) (buildDataSetRegex (Suc i) vals optionalKeys ks)"

text \<open>\<open>ProcessMessage\<close>, for any data set given by its zero value, keys and update.\<close>

definition ProcessMessage ::
  "'a \<Rightarrow> string list \<Rightarrow> (string \<Rightarrow> string \<Rightarrow> 'a \<Rightarrow> 'a) \<Rightarrow> string list \<Rightarrow> 'a \<times> string option" where
  "ProcessMessage zero keys update matches =
     (if int (length matches) - 1 < int (length keys)
      then (zero, Some (''short match expected='' @ show_int (int (length keys)) @ '' found='' @
                        show_int (int (length matches) - 1)))
      else (foldl (\<lambda>d (k, v). update k v d) zero (zip keys (tl matches)), None))"

section \<open>Grandmaster settings\<close>

definition gs_Keys :: "string list" where
  "gs_Keys =
     [''clockClass'',
      ''clockAccuracy'',
      ''offsetScaledLogVariance'',
      ''currentUtcOffset'',
      ''leap61'',
      ''leap59'',
      ''currentUtcOffsetValid'',
      ''ptpTimescale'',
      ''timeTraceable'',
      ''frequencyTraceable'',
      ''timeSource'']"

definition gs_ValueRegEx :: "string \<Rightarrow> rx" where
  "gs_ValueRegEx k =
     (if k = ''clockClass'' then rx_dec
      else if k = ''clockAccuracy'' then rx_hex
      else if k = ''offsetScaledLogVariance'' then rx_hex
      else if k = ''currentUtcOffset'' then rx_dec
      else if k = ''leap61'' then rx_bit
      else if k = ''leap59'' then rx_bit
      else if k = ''currentUtcOffsetValid'' then rx_bit
      else if k = ''ptpTimescale'' then rx_bit
      else if k = ''timeTraceable'' then rx_bit
      else if k = ''frequencyTraceable'' then rx_bit
      else if k = ''timeSource'' then rx_hex
      else REps)"

definition gs_RegEx :: rx where
  "gs_RegEx = buildDataSetRegex 1 gs_ValueRegEx [] gs_Keys"

definition gs_Update :: "string \<Rightarrow> string \<Rightarrow> grandmaster_settings \<Rightarrow> grandmaster_settings" where
  "gs_Update key v g =
     (if key = ''clockClass'' then g\<lparr>gs_ClockQuality := (gs_ClockQuality g)\<lparr>cq_ClockClass := stou8 v\<rparr>\<rparr>
      else if key = ''clockAccuracy'' then g\<lparr>gs_ClockQuality := (gs_ClockQuality g)\<lparr>cq_ClockAccuracy := stou8h v\<rparr>\<rparr>
      else if key = ''offsetScaledLogVariance'' then g\<lparr>gs_ClockQuality := (gs_ClockQuality g)\<lparr>cq_OffsetScaledLogVariance := stou16h v\<rparr>\<rparr>
      else if key = ''currentUtcOffset'' then g\<lparr>gs_TimePropertiesDS := (gs_TimePropertiesDS g)\<lparr>tp_CurrentUtcOffset := stoi32 v\<rparr>\<rparr>
      else if key = ''currentUtcOffsetValid'' then g\<lparr>gs_TimePropertiesDS := (gs_TimePropertiesDS g)\<lparr>tp_CurrentUtcOffsetValid := stob v\<rparr>\<rparr>
      else if key = ''leap59'' then g\<lparr>gs_TimePropertiesDS := (gs_TimePropertiesDS g)\<lparr>tp_Leap59 := stob v\<rparr>\<rparr>
      else if key = ''leap61'' then g\<lparr>gs_TimePropertiesDS := (gs_TimePropertiesDS g)\<lparr>tp_Leap61 := stob v\<rparr>\<rparr>
      else if key = ''timeTraceable'' then g\<lparr>gs_TimePropertiesDS := (gs_TimePropertiesDS g)\<lparr>tp_TimeTraceable := stob v\<rparr>\<rparr>
      else if key = ''frequencyTraceable'' then g\<lparr>gs_TimePropertiesDS := (gs_TimePropertiesDS g)\<lparr>tp_FrequencyTraceable := stob v\<rparr>\<rparr>
      else if key = ''ptpTimescale'' then g\<lparr>gs_TimePropertiesDS := (gs_TimePropertiesDS g)\<lparr>tp_PtpTimescale := stob v\<rparr>\<rparr>
      else if key = ''timeSource'' then g\<lparr>gs_TimePropertiesDS := (gs_TimePropertiesDS g)\<lparr>tp_TimeSource := stou8h v\<rparr>\<rparr>
      else g)"

definition gs_String :: "grandmaster_settings \<Rightarrow> string" where
  "gs_String g =
     '' clockClass              '' @ show_nat (unat (cq_ClockClass (gs_ClockQuality g))) @ [CHR 0x0A] @
     '' clockAccuracy           0x'' @ show_hex (unat (cq_ClockAccuracy (gs_ClockQuality g))) @ [CHR 0x0A] @
     '' offsetScaledLogVariance 0x'' @ show_hex (unat (cq_OffsetScaledLogVariance (gs_ClockQuality g))) @ [CHR 0x0A] @
     '' currentUtcOffset        '' @ show_int (sint (tp_CurrentUtcOffset (gs_TimePropertiesDS g))) @ [CHR 0x0A] @
     '' leap61                  '' @ show_nat (btoi (tp_Leap61 (gs_TimePropertiesDS g))) @ [CHR 0x0A] @
     '' leap59                  '' @ show_nat (btoi (tp_Leap59 (gs_TimePropertiesDS g))) @ [CHR 0x0A] @
     '' currentUtcOffsetValid   '' @ show_nat (btoi (tp_CurrentUtcOffsetValid (gs_TimePropertiesDS g))) @ [CHR 0x0A] @
     '' ptpTimescale            '' @ show_nat (btoi (tp_PtpTimescale (gs_TimePropertiesDS g))) @ [CHR 0x0A] @
     '' timeTraceable           '' @ show_nat (btoi (tp_TimeTraceable (gs_TimePropertiesDS g))) @ [CHR 0x0A] @
     '' frequencyTraceable      '' @ show_nat (btoi (tp_FrequencyTraceable (gs_TimePropertiesDS g))) @ [CHR 0x0A] @
     '' timeSource              0x'' @ show_hex (unat (tp_TimeSource (gs_TimePropertiesDS g))) @ [CHR 0x0A]"

section \<open>Parent data set\<close>

definition pds_Keys :: "string list" where
  "pds_Keys =
     [''parentPortIdentity'',
      ''parentStats'',
      ''observedParentOffsetScaledLogVariance'',
      ''observedParentClockPhaseChangeRate'',
      ''grandmasterPriority1'',
      ''gm.ClockClass'',
      ''gm.ClockAccuracy'',
      ''gm.OffsetScaledLogVariance'',
      ''grandmasterPriority2'',
      ''grandmasterIdentity'']"

definition pds_ValueRegEx :: "string \<Rightarrow> rx" where
  "pds_ValueRegEx k =
     (if k = ''parentPortIdentity'' then portIdentityPattern
      else if k = ''parentStats'' then rx_dec
      else if k = ''observedParentOffsetScaledLogVariance'' then rx_hex
      else if k = ''observedParentClockPhaseChangeRate'' then rx_hex
      else if k = ''grandmasterPriority1'' then rx_dec
      else if k = ''gm.ClockClass'' then rx_dec
      else if k = ''gm.ClockAccuracy'' then rx_hex
      else if k = ''gm.OffsetScaledLogVariance'' then rx_hex
      else if k = ''grandmasterPriority2'' then rx_dec
      else if k = ''grandmasterIdentity'' then clockIdentityPattern
      else REps)"

definition pds_RegEx :: rx where
  "pds_RegEx = buildDataSetRegex 1 pds_ValueRegEx [] pds_Keys"

definition pds_Update :: "string \<Rightarrow> string \<Rightarrow> parent_data_set \<Rightarrow> parent_data_set" where
  "pds_Update key v g =
     (if key = ''parentPortIdentity'' then g\<lparr>pds_ParentPortIdentity := v\<rparr>
      else if key = ''parentStats'' then g\<lparr>pds_ParentStats := stou8 v\<rparr>
      else if key = ''observedParentOffsetScaledLogVariance'' then g\<lparr>pds_ObservedParentOffsetScaledLogVariance := stou16h v\<rparr>
      else if key = ''observedParentClockPhaseChangeRate'' then g\<lparr>pds_ObservedParentClockPhaseChangeRate := stou32h v\<rparr>
      else if key = ''grandmasterPriority1'' then g\<lparr>pds_GrandmasterPriority1 := stou8 v\<rparr>
      else if key = ''gm.ClockClass'' then g\<lparr>pds_GrandmasterClockClass := stou8 v\<rparr>
      else if key = ''gm.ClockAccuracy'' then g\<lparr>pds_GrandmasterClockAccuracy := stou8h v\<rparr>
      else if key = ''gm.OffsetScaledLogVariance'' then g\<lparr>pds_GrandmasterOffsetScaledLogVariance := stou16h v\<rparr>
      else if key = ''grandmasterPriority2'' then g\<lparr>pds_GrandmasterPriority2 := stou8 v\<rparr>
      else if key = ''grandmasterIdentity'' then g\<lparr>pds_GrandmasterIdentity := v\<rparr>
      else g)"

definition pds_String :: "parent_data_set \<Rightarrow> string" where
  "pds_String p =
     ''parentPortIdentity                    '' @ pds_ParentPortIdentity p @ [CHR 0x0A] @
     ''parentStats                           '' @ show_nat (unat (pds_ParentStats p)) @ [CHR 0x0A] @
     ''observedParentOffsetScaledLogVariance 0x'' @ show_hex (unat (pds_ObservedParentOffsetScaledLogVariance p)) @ [CHR 0x0A] @
     ''observedParentClockPhaseChangeRate    0x'' @ show_hex (unat (pds_ObservedParentClockPhaseChangeRate p)) @ [CHR 0x0A] @
     ''grandmasterPriority1                  '' @ show_nat (unat (pds_GrandmasterPriority1 p)) @ [CHR 0x0A] @
     ''gm.ClockClass                         '' @ show_nat (unat (pds_GrandmasterClockClass p)) @ [CHR 0x0A] @
     ''gm.ClockAccuracy                      0x'' @ show_hex (unat (pds_GrandmasterClockAccuracy p)) @ [CHR 0x0A] @
     ''gm.OffsetScaledLogVariance            0x'' @ show_hex (unat (pds_GrandmasterOffsetScaledLogVariance p)) @ [CHR 0x0A] @
     ''grandmasterPriority2                  '' @ show_nat (unat (pds_GrandmasterPriority2 p)) @ [CHR 0x0A] @
     ''grandmasterIdentity                   '' @ pds_GrandmasterIdentity p @ [CHR 0x0A]"

section \<open>External grandmaster properties\<close>

definition eg_Keys :: "string list" where
  "eg_Keys =
     [''gmIdentity'',
      ''stepsRemoved'']"

definition eg_ValueRegEx :: "string \<Rightarrow> rx" where
  "eg_ValueRegEx k =
     (if k = ''gmIdentity'' then clockIdentityPattern
      else if k = ''stepsRemoved'' then rx_dec
      else REps)"

definition eg_RegEx :: rx where
  "eg_RegEx = buildDataSetRegex 1 eg_ValueRegEx [] eg_Keys"

definition eg_Update :: "string \<Rightarrow> string \<Rightarrow> external_gm_properties \<Rightarrow> external_gm_properties" where
  "eg_Update key v g =
     (if key = ''gmIdentity'' then g\<lparr>eg_GrandmasterIdentity := v\<rparr>
      else if key = ''stepsRemoved'' then g\<lparr>eg_StepsRemoved := stou16 v\<rparr>
      else g)"

definition eg_String :: "external_gm_properties \<Rightarrow> string" where
  "eg_String e =
     '' gmIdentity '' @ eg_GrandmasterIdentity e @ [CHR 0x0A] @
     '' stepsRemoved        '' @ show_nat (unat (eg_StepsRemoved e)) @ [CHR 0x0A]"

section \<open>Current data set\<close>

definition cds_Keys :: "string list" where
  "cds_Keys =
     [''stepsRemoved'',
      ''offsetFromMaster'',
      ''meanPathDelay'']"

definition cds_ValueRegEx :: "string \<Rightarrow> rx" where
  "cds_ValueRegEx k =
     (if k = ''stepsRemoved'' then rx_dec
      else if k = ''offsetFromMaster'' then rx_signed_fixed
      else if k = ''meanPathDelay'' then rx_fixed
      else REps)"

definition cds_RegEx :: rx where
  "cds_RegEx = buildDataSetRegex 1 cds_ValueRegEx [] cds_Keys"

definition cds_Update :: "string \<Rightarrow> string \<Rightarrow> current_ds \<Rightarrow> current_ds" where
  "cds_Update key v g =
     (if key = ''stepsRemoved'' then g\<lparr>cds_StepsRemoved := stou16 v\<rparr>
      else if key = ''offsetFromMaster'' then g\<lparr>cds_offsetFromMaster := stof64 v\<rparr>
      else if key = ''meanPathDelay'' then g\<lparr>cds_meanPathDelay := stof64 v\<rparr>
      else g)"

section \<open>Time properties\<close>

definition tp_Keys :: "string list" where
  "tp_Keys =
     [''currentUtcOffset'',
      ''leap61'',
      ''leap59'',
      ''currentUtcOffsetValid'',
      ''ptpTimescale'',
      ''timeTraceable'',
      ''frequencyTraceable'',
      ''timeSource'']"

definition tp_ValueRegEx :: "string \<Rightarrow> rx" where
  "tp_ValueRegEx k =
     (if k = ''currentUtcOffset'' then rx_dec
      else if k = ''currentUtcOffsetValid'' then rx_bit
      else if k = ''leap59'' then rx_bit
      else if k = ''leap61'' then rx_bit
      else if k = ''timeTraceable'' then rx_bit
      else if k = ''frequencyTraceable'' then rx_bit
      else if k = ''ptpTimescale'' then rx_bit
      else if k = ''timeSource'' then rx_hex
      else REps)"

definition tp_RegEx :: rx where
  "tp_RegEx = buildDataSetRegex 1 tp_ValueRegEx [] tp_Keys"

definition tp_Update :: "string \<Rightarrow> string \<Rightarrow> time_properties_ds \<Rightarrow> time_properties_ds" where
  "tp_Update key v g =
     (if key = ''currentUtcOffset'' then g\<lparr>tp_CurrentUtcOffset := stoi32 v\<rparr>
      else if key = ''currentUtcOffsetValid'' then g\<lparr>tp_CurrentUtcOffsetValid := stob v\<rparr>
      else if key = ''leap59'' then g\<lparr>tp_Leap59 := stob v\<rparr>
      else if key = ''leap61'' then g\<lparr>tp_Leap61 := stob v\<rparr>
      else if key = ''timeTraceable'' then g\<lparr>tp_TimeTraceable := stob v\<rparr>
      else if key = ''frequencyTraceable'' then g\<lparr>tp_FrequencyTraceable := stob v\<rparr>
      else if key = ''ptpTimescale'' then g\<lparr>tp_PtpTimescale := stob v\<rparr>
      else if key = ''timeSource'' then g\<lparr>tp_TimeSource := stou8h v\<rparr>
      else g)"

definition tp_String :: "time_properties_ds \<Rightarrow> string" where
  "tp_String t =
     '' currentUtcOffset        '' @ show_int (sint (tp_CurrentUtcOffset t)) @ [CHR 0x0A] @
     '' currentUtcOffsetValid   '' @ show_nat (btoi (tp_CurrentUtcOffsetValid t)) @ [CHR 0x0A] @
     '' leap59                  '' @ show_nat (btoi (tp_Leap59 t)) @ [CHR 0x0A] @
     '' leap61                  '' @ show_nat (btoi (tp_Leap61 t)) @ [CHR 0x0A] @
     '' timeTraceable           '' @ show_nat (btoi (tp_TimeTraceable t)) @ [CHR 0x0A] @
     '' frequencyTraceable      '' @ show_nat (btoi (tp_FrequencyTraceable t)) @ [CHR 0x0A] @
     '' ptpTimescale            '' @ show_nat (btoi (tp_PtpTimescale t)) @ [CHR 0x0A] @
     '' timeSource              0x'' @ show_hex (unat (tp_TimeSource t)) @ [CHR 0x0A]"

section \<open>Subscribed events\<close>

definition se_Keys :: "string list" where
  "se_Keys =
     [''duration'',
      ''NOTIFY_PORT_STATE'',
      ''NOTIFY_TIME_SYNC'',
      ''NOTIFY_PARENT_DATA_SET'',
      ''NOTIFY_CMLDS'']"

definition se_ValueRegEx :: "string \<Rightarrow> rx" where
  "se_ValueRegEx k =
     (if k = ''duration'' then rx_signed
      else if k = ''NOTIFY_PORT_STATE'' then rx_onoff
      else if k = ''NOTIFY_TIME_SYNC'' then rx_onoff
      else if k = ''NOTIFY_PARENT_DATA_SET'' then rx_onoff
      else if k = ''NOTIFY_CMLDS'' then rx_onoff
      else REps)"

definition se_RegEx :: rx where
  "se_RegEx = buildDataSetRegex 1 se_ValueRegEx [''NOTIFY_CMLDS''] se_Keys"

definition se_Update :: "string \<Rightarrow> string \<Rightarrow> subscribed_events \<Rightarrow> subscribed_events" where
  "se_Update key v g =
     (if key = ''duration'' then g\<lparr>se_Duration := stoi32 v\<rparr>
      else if key = ''NOTIFY_PORT_STATE'' then g\<lparr>se_NotifyPortState := ootob v\<rparr>
      else if key = ''NOTIFY_TIME_SYNC'' then g\<lparr>se_NotifyTimeSync := ootob v\<rparr>
      else if key = ''NOTIFY_PARENT_DATA_SET'' then g\<lparr>se_NotifyParentDataSet := ootob v\<rparr>
      else if key = ''NOTIFY_CMLDS'' then g\<lparr>se_NotifyCmlds := ootob v\<rparr>
      else g)"

definition se_String :: "subscribed_events \<Rightarrow> string" where
  "se_String s =
     '' duration               '' @ show_int (sint (se_Duration s)) @ [CHR 0x0A] @
     '' NOTIFY_PORT_STATE      '' @ btooo (se_NotifyPortState s) @ [CHR 0x0A] @
     '' NOTIFY_TIME_SYNC       '' @ btooo (se_NotifyTimeSync s) @ [CHR 0x0A] @
     '' NOTIFY_PARENT_DATA_SET '' @ btooo (se_NotifyParentDataSet s) @ [CHR 0x0A] @
     '' NOTIFY_CMLDS           '' @ btooo (se_NotifyCmlds s) @ [CHR 0x0A]"

section \<open>Reading a data set back\<close>

text \<open>
  The output of pmc for a data set: each key and value, separated by white space of any kind and
  length. \<open>gaps\<close> has the white space before the key and before the value of each line.
\<close>

fun render :: "(string \<times> string) list \<Rightarrow> (string \<times> string) list \<Rightarrow> string" where
  "render ((a, b) # gaps) ((k, v) # kvs) = a @ k @ b @ v @ render gaps kvs"
| "render _ _ = ''''"

definition blank :: "string \<Rightarrow> bool" where
  "blank s \<longleftrightarrow> s \<noteq> '''' \<and> list_all ch_space s"

definition blanks :: "(string \<times> string) list \<Rightarrow> bool" where
  "blanks gaps \<longleftrightarrow> list_all (\<lambda>(a, b). blank a \<and> blank b) gaps"

definition word_text :: "string \<Rightarrow> bool" where
  "word_text s \<longleftrightarrow> s \<noteq> '''' \<and> list_all (\<lambda>c. \<not> ch_space c) s"

lemma blank_hd: "blank a \<Longrightarrow> ch_space (hd (a @ s))"
  by (cases a) (auto simp: blank_def)

lemma word_hd: "word_text v \<Longrightarrow> \<not> ch_space (hd (v @ s))"
  by (cases v) (auto simp: word_text_def)

lemma space_newline: "ch_space (CHR 0x0A)"
  by (simp add: ch_space_def)

lemma key_rx_reads: "word_text k \<Longrightarrow> mt (key_rx k) m (k @ s) c = c m s"
proof -
  assume "word_text k"
  then have "list_all (\<lambda>c. c \<noteq> CHR 0x0A) k"
    by (auto simp: word_text_def list_all_iff space_newline)
  then show ?thesis
    unfolding key_rx_def by (induction k) (auto simp: ch_any_def has_prefix_def)
qed

lemma key_part_reads:
  fixes x :: "captures \<times> string"
  assumes "blank a" "blank b" "word_text k" "word_text v" "reads (vals k) v"
    and "rest = [] \<or> ch_space (hd rest)" "c ((i, v) # m) rest = Some x"
  shows "mt (key_part i vals opt k) m (a @ k @ b @ v @ rest) c = Some x"
proof -
  let ?r = "RSeq (RPlus ch_space) (RSeq (key_rx k) (RSeq (RPlus ch_space) (RCap i (vals k))))"
  have "mt (RCap i (vals k)) m (v @ rest) c = Some x"
    by (rule mt_cap, rule readsD [OF assms(5,6)]) (simp add: assms(7))
  then have "mt (RPlus ch_space) m (b @ v @ rest) (\<lambda>m' s'. mt (RCap i (vals k)) m' s' c) = Some x"
    using assms(2) word_hd [OF assms(4)] by (intro mt_plus) (auto simp: blank_def)
  then have "mt (key_rx k) m (k @ b @ v @ rest)
      (\<lambda>m' s'. mt (RPlus ch_space) m' s' (\<lambda>m' s'. mt (RCap i (vals k)) m' s' c)) = Some x"
    by (simp only: key_rx_reads [OF assms(3)])
  then have "mt (RPlus ch_space) m (a @ k @ b @ v @ rest)
      (\<lambda>m' s'. mt (key_rx k) m' s'
        (\<lambda>m' s'. mt (RPlus ch_space) m' s' (\<lambda>m' s'. mt (RCap i (vals k)) m' s' c))) = Some x"
    using assms(1) word_hd [OF assms(3)] by (intro mt_plus) (auto simp: blank_def)
  then have "mt ?r m (a @ k @ b @ v @ rest) c = Some x" by simp
  then show ?thesis by (simp only: key_part_def Let_def mt.simps split: if_splits option.split) simp
qed

lemma build_reads:
  fixes x :: "captures \<times> string"
  assumes "length gaps = length kvs" "blanks gaps"
    and "list_all (\<lambda>(k, v). word_text k \<and> word_text v \<and> reads (vals k) v) kvs"
    and "rest = [] \<or> ch_space (hd rest)" "c (rev (enumerate i (map snd kvs)) @ m) rest = Some x"
  shows "mt (buildDataSetRegex i vals opt (map fst kvs)) m (render gaps kvs @ rest) c = Some x"
  using assms
proof (induction gaps kvs arbitrary: i m rule: list_induct2)
  case Nil
  then show ?case by simp
next
  case (Cons g gaps kv kvs)
  obtain a b where g: "g = (a, b)" by force
  obtain k v where kv: "kv = (k, v)" by force
  let ?rest = "render gaps kvs @ rest"
  from Cons.prems g kv have hyps: "blank a" "blank b" "word_text k" "word_text v" "reads (vals k) v"
    by (simp_all add: blanks_def)
  have "?rest = [] \<or> ch_space (hd ?rest)"
  proof (cases gaps)
    case Nil
    with Cons.prems(3) show ?thesis by simp
  next
    case (Cons g2 gaps2)
    then obtain a2 b2 k2 v2 kvs2 where "g2 = (a2, b2)" "kvs = (k2, v2) # kvs2"
      using \<open>length gaps = length kvs\<close> by (cases kvs; cases g2; cases "hd kvs") auto
    with Cons Cons.prems(1) have "ch_space (hd (a2 @ k2 @ b2 @ v2 @ render gaps2 kvs2 @ rest))"
      by (intro blank_hd) (simp add: blanks_def)
    with Cons \<open>g2 = (a2, b2)\<close> \<open>kvs = (k2, v2) # kvs2\<close> show ?thesis by simp
  qed
  moreover have "mt (buildDataSetRegex (Suc i) vals opt (map fst kvs)) ((i, v) # m) ?rest c = Some x"
    using Cons.prems g kv by (intro Cons.IH) (auto simp: blanks_def)
  ultimately have "mt (key_part i vals opt k) m (a @ k @ b @ v @ ?rest)
      (\<lambda>m' s'. mt (buildDataSetRegex (Suc i) vals opt (map fst kvs)) m' s' c) = Some x"
    using hyps by (intro key_part_reads) auto
  then show ?case using g kv by simp
qed

lemma captures_enumerate:
  "map (capture (rev (enumerate 1 vs))) [1..<Suc (length vs)] = vs"
proof (rule nth_equalityI)
  fix j assume "j < length (map (capture (rev (enumerate 1 vs))) [1..<Suc (length vs)])"
  then have j: "j < length vs" by (simp del: upt_Suc)
  have "distinct (map fst (enumerate 1 vs))" by (simp add: enumerate_eq_zip)
  moreover have "(Suc j, vs ! j) \<in> set (enumerate 1 vs)"
    using j by (auto simp: in_set_enumerate_eq)
  ultimately have "map_of (rev (enumerate 1 vs)) (Suc j) = Some (vs ! j)"
    by (simp add: map_of_eq_Some_iff rev_map [symmetric])
  with j show "map (capture (rev (enumerate 1 vs))) [1..<Suc (length vs)] ! j = vs ! j"
    by (simp add: capture_def del: upt_Suc)
qed (simp del: upt_Suc)

lemma dataset_read:
  assumes "length gaps = length kvs" "kvs \<noteq> []" "blanks gaps"
    and "list_all (\<lambda>(k, v). word_text k \<and> word_text v \<and> reads (vals k) v) kvs"
    and "rest = [] \<or> ch_space (hd rest)"
  shows "FindStringSubmatch False (length kvs) (buildDataSetRegex 1 vals opt (map fst kvs))
    (render gaps kvs @ rest) = Some (render gaps kvs # map snd kvs)"
proof -
  let ?r = "buildDataSetRegex 1 vals opt (map fst kvs)" and ?s = "render gaps kvs @ rest"
  let ?m = "rev (enumerate 1 (map snd kvs))"
  have "match_here ?r ?s = Some (?m, render gaps kvs)"
    unfolding match_here_def by (rule build_reads [OF assms(1,3,4,5)]) simp
  moreover have "?s \<noteq> []"
  proof -
    obtain a b gs where "gaps = (a, b) # gs" using assms(1,2) by (cases gaps) auto
    moreover obtain k v ks where "kvs = (k, v) # ks" using assms(2) by (cases kvs) auto
    ultimately show ?thesis using assms(3) by (auto simp: blanks_def blank_def)
  qed
  ultimately have "match_leftmost ?r ?s = Some (?m, render gaps kvs)" by (cases ?s) simp_all
  then show ?thesis
    using captures_enumerate [of "map snd kvs"] by (simp add: FindStringSubmatch_def del: upt_Suc)
qed

text \<open>Each pattern reads what the code prints for it.\<close>

lemma show_base_chars:
  assumes "2 \<le> b" "b \<le> 16"
  shows "list_all ch_hex_lower (show_base b n)" "b \<le> 10 \<Longrightarrow> list_all ch_digit (show_base b n)"
proof -
  have h: "ch_hex_lower (digit_char d)" if "d < 16" for d
    using that unfolding digit_char_def ch_hex_lower_def ch_digit_def
    by (cases "d < 10") (simp_all only: if_True if_False of_char_char_of, simp_all)
  have d: "ch_digit (digit_char d)" if "d < 10" for d
    using that unfolding digit_char_def ch_digit_def by (simp only: if_True of_char_char_of) simp
  show "list_all ch_hex_lower (show_base b n)"
    using assms
  proof (induction b n rule: show_base.induct)
    case (1 b n)
    then show ?case
      by (subst show_base.simps) (auto intro!: h order_less_le_trans [OF mod_less_divisor])
  qed
  show "list_all ch_digit (show_base b n)" if "b \<le> 10"
    using assms(1) that
  proof (induction b n rule: show_base.induct)
    case (1 b n)
    then show ?case
      by (subst show_base.simps) (auto intro!: d order_less_le_trans [OF mod_less_divisor])
  qed
qed

lemma space_classes:
  "ch_space c \<Longrightarrow> \<not> ch_digit c" "ch_space c \<Longrightarrow> \<not> ch_hex_lower c" "ch_space c \<Longrightarrow> \<not> ch_hex c"
  by (auto simp: ch_defs)

lemma word_of_class:
  "v \<noteq> [] \<Longrightarrow> list_all p v \<Longrightarrow> (\<And>c. ch_space c \<Longrightarrow> \<not> p c) \<Longrightarrow> word_text v"
  by (auto simp: word_text_def list_all_iff)

lemma word_append: "word_text (v @ w) \<longleftrightarrow>
    v @ w \<noteq> '''' \<and> list_all (\<lambda>c. \<not> ch_space c) v \<and> list_all (\<lambda>c. \<not> ch_space c) w"
  by (auto simp: word_text_def)

lemma reads_nat [text_simps]: "reads rx_dec (show_nat n)" "word_text (show_nat n)"
proof -
  have "list_all ch_digit (show_nat n)" "show_nat n \<noteq> []"
    using show_base_chars(2) [of 10 n] by (simp_all add: show_nat_def)
  then show "reads rx_dec (show_nat n)" "word_text (show_nat n)"
    unfolding rx_dec_def using reads_plus word_of_class space_classes(1) by blast+
qed

lemma reads_int [text_simps]:
  "0 \<le> i \<Longrightarrow> reads rx_dec (show_int i)" "0 \<le> i \<Longrightarrow> word_text (show_int i)"
  by (simp_all add: show_int_def reads_nat)

lemma reads_hex [text_simps]:
  "reads rx_hex (''0x'' @ show_hex n)" "word_text (''0x'' @ show_hex n)"
proof -
  have h: "list_all ch_hex_lower (show_hex n)" "show_hex n \<noteq> []"
    using show_base_chars(1) [of 16 n] by (simp_all add: show_hex_def)
  then show "reads rx_hex (''0x'' @ show_hex n)"
    unfolding rx_hex_def using space_classes(2) by (intro reads_lit_seq reads_plus) auto
  have "word_text (show_hex n)" by (rule word_of_class [OF h(2,1) space_classes(2)])
  then show "word_text (''0x'' @ show_hex n)" by (simp add: word_text_def ch_space_def)
qed

lemma digit_chars: "digit_char 0 = CHR ''0''" "digit_char (Suc 0) = CHR ''1''"
  by (simp_all add: digit_char_def char_of_def bit_iff_odd)

lemma show_nat_digit: "d < 10 \<Longrightarrow> show_nat d = [digit_char d]"
  by (simp add: show_nat_def show_base.simps)

lemma reads_bit [text_simps]: "reads rx_bit (show_nat (btoi b))"
  unfolding rx_bit_def
  by (cases b) (simp_all add: show_nat_digit btoi_def digit_chars reads_cls ch_is_def)

lemma reads_onoff [text_simps]: "reads rx_onoff (btooo b)" "word_text (btooo b)"
proof -
  show "reads rx_onoff (btooo b)"
    by (rule readsI) (auto simp: rx_onoff_def btooo_def has_prefix_def)
  show "word_text (btooo b)" by (simp add: btooo_def word_text_def ch_space_def)
qed

lemma reads_signed [text_simps]: "reads rx_signed (show_int i)" "word_text (show_int i)"
proof -
  show "reads rx_signed (show_int i)"
  proof (cases "i < 0")
    case True
    have "reads (RSeq (RLit ''-'') (RPlus ch_digit)) (''-'' @ show_nat (nat (- i)))"
      using reads_lit_seq reads_nat(1) unfolding rx_dec_def by blast
    with True show ?thesis by (auto simp: rx_signed_def show_int_def reads_def)
  next
    case False
    have "hd (show_nat n) \<noteq> CHR ''-''" for n
    proof -
      have "list_all ch_digit (show_nat n)" "show_nat n \<noteq> []"
        using show_base_chars(2) [of 10 n] by (simp_all add: show_nat_def)
      then have "ch_digit (hd (show_nat n))" by (cases "show_nat n") auto
      then show ?thesis by (auto simp: ch_digit_def)
    qed
    then have np: "\<not> has_prefix (show_nat n @ s) ''-''" for n s
    proof -
      obtain c cs where "show_nat n = c # cs" using reads_nat(2) [of n] by (cases "show_nat n") (auto simp: word_text_def)
      moreover from this have "c \<noteq> CHR ''-''"
        using \<open>\<And>n. hd (show_nat n) \<noteq> CHR ''-''\<close> [of n] by simp
      ultimately show ?thesis by (simp add: has_prefix_def)
    qed
    show ?thesis
    proof (rule readsI)
      fix m rest and k :: "captures \<Rightarrow> string \<Rightarrow> (captures \<times> string) option" and x
      assume "rest = [] \<or> ch_space (hd rest)" "k m rest = Some x"
      then have "mt rx_dec m (show_nat (nat i) @ rest) k = Some x" by (rule readsD [OF reads_nat(1)])
      with False np show "mt rx_signed m (show_int i @ rest) k = Some x"
        by (simp add: rx_signed_def rx_dec_def show_int_def)
    qed
  qed
  show "word_text (show_int i)"
    using reads_nat(2) by (auto simp: show_int_def word_text_def ch_space_def)
qed

text \<open>Reading the printed number gives the field.\<close>

lemma stou_show [text_simps]:
  fixes a :: u8 and b :: u16 and c :: u32
  shows "stou8 (show_nat (unat a)) = a" "stou8h (''0x'' @ show_hex (unat a)) = a"
    "stou16 (show_nat (unat b)) = b" "stou16h (''0x'' @ show_hex (unat b)) = b"
    "stou32h (''0x'' @ show_hex (unat c)) = c"
proof -
  have r: "replace_first (''0x'' @ s) ''0x'' '''' = s" for s
    by (simp add: has_prefix_def)
  have a: "unat a < 2 ^ 8" and b: "unat b < 2 ^ 16" and c: "unat c < 2 ^ 32"
    using unsigned_less [of a] unsigned_less [of b] unsigned_less [of c] by simp_all
  show "stou8 (show_nat (unat a)) = a"
    using ParseUint_show_base [of 10, OF _ _ a] by (simp add: stou8_def show_nat_def)
  show "stou8h (''0x'' @ show_hex (unat a)) = a"
    using ParseUint_show_base [of 16, OF _ _ a] unfolding stou8h_def r by (simp add: show_hex_def)
  show "stou16 (show_nat (unat b)) = b"
    using ParseUint_show_base [of 10, OF _ _ b] by (simp add: stou16_def show_nat_def)
  show "stou16h (''0x'' @ show_hex (unat b)) = b"
    using ParseUint_show_base [of 16, OF _ _ b] unfolding stou16h_def r by (simp add: show_hex_def)
  show "stou32h (''0x'' @ show_hex (unat c)) = c"
    using ParseUint_show_base [of 16, OF _ _ c] unfolding stou32h_def r by (simp add: show_hex_def)
qed

lemma stob_show [text_simps]: "stob (show_nat (btoi b)) = b"
  by (cases b) (simp_all add: stob_def show_nat_digit btoi_def digit_chars)

lemma ootob_show [text_simps]: "ootob (btooo b) = b"
  by (simp add: ootob_def btooo_def)

lemma stoi32_show [text_simps]:
  fixes x :: i32
  assumes "0 \<le> sint x"
  shows "stoi32 (show_int (sint x)) = x"
proof -
  have "sint x < 2 ^ (32 - 1)" using sint_lt [of x] by simp
  then have "ParseInt (show_nat (nat (sint x))) 10 32 = (sint x, None)"
    using ParseInt_show_nat [of 32 "nat (sint x)"] assms by simp
  with assms show ?thesis by (simp add: stoi32_def show_int_def)
qed

section \<open>Round trips\<close>

definition zero_grandmaster_settings :: grandmaster_settings where
  "zero_grandmaster_settings = \<lparr>gs_ClockQuality = \<lparr>cq_ClockClass = 0, cq_ClockAccuracy = 0,
     cq_OffsetScaledLogVariance = 0\<rparr>, gs_TimePropertiesDS = zero_time_properties\<rparr>"

text \<open>The fields of a data set as pmc prints them.\<close>

definition gs_fields :: "grandmaster_settings \<Rightarrow> (string \<times> string) list" where
  "gs_fields g =
     (let q = gs_ClockQuality g; t = gs_TimePropertiesDS g in
      zip gs_Keys [show_nat (unat (cq_ClockClass q)), ''0x'' @ show_hex (unat (cq_ClockAccuracy q)),
        ''0x'' @ show_hex (unat (cq_OffsetScaledLogVariance q)), show_int (sint (tp_CurrentUtcOffset t)),
        show_nat (btoi (tp_Leap61 t)), show_nat (btoi (tp_Leap59 t)),
        show_nat (btoi (tp_CurrentUtcOffsetValid t)), show_nat (btoi (tp_PtpTimescale t)),
        show_nat (btoi (tp_TimeTraceable t)), show_nat (btoi (tp_FrequencyTraceable t)),
        ''0x'' @ show_hex (unat (tp_TimeSource t))])"

definition pds_fields :: "parent_data_set \<Rightarrow> (string \<times> string) list" where
  "pds_fields p =
     zip pds_Keys [pds_ParentPortIdentity p, show_nat (unat (pds_ParentStats p)),
       ''0x'' @ show_hex (unat (pds_ObservedParentOffsetScaledLogVariance p)),
       ''0x'' @ show_hex (unat (pds_ObservedParentClockPhaseChangeRate p)),
       show_nat (unat (pds_GrandmasterPriority1 p)), show_nat (unat (pds_GrandmasterClockClass p)),
       ''0x'' @ show_hex (unat (pds_GrandmasterClockAccuracy p)),
       ''0x'' @ show_hex (unat (pds_GrandmasterOffsetScaledLogVariance p)),
       show_nat (unat (pds_GrandmasterPriority2 p)), pds_GrandmasterIdentity p]"

lemma keys_are_words:
  "list_all word_text gs_Keys" "list_all word_text pds_Keys" "list_all word_text tp_Keys"
  "list_all word_text eg_Keys" "list_all word_text se_Keys"
  by (simp_all add: gs_Keys_def pds_Keys_def tp_Keys_def eg_Keys_def se_Keys_def word_text_def ch_space_def)

lemma gs_fields_readable:
  assumes "0 \<le> sint (tp_CurrentUtcOffset (gs_TimePropertiesDS g))"
  shows "list_all (\<lambda>(k, v). word_text k \<and> word_text v \<and> reads (gs_ValueRegEx k) v) (gs_fields g)"
  using assms keys_are_words(1)
  by (simp add: gs_fields_def gs_Keys_def Let_def gs_ValueRegEx_def reads_nat reads_int reads_bit
      reads_hex [simplified])

lemma gs_update_fields:
  assumes "0 \<le> sint (tp_CurrentUtcOffset (gs_TimePropertiesDS g))"
  shows "ProcessMessage zero_grandmaster_settings gs_Keys gs_Update (w # map snd (gs_fields g)) = (g, None)"
  using assms
  by (simp add: ProcessMessage_def gs_fields_def gs_Keys_def Let_def gs_Update_def stob_show stoi32_show
      stou_show [simplified] zero_grandmaster_settings_def)

text \<open>What the code prints is such a report, so a \<open>SET\<close> command is readable as well.\<close>

definition line_gaps :: "nat \<Rightarrow> string list \<Rightarrow> (string \<times> string) list" where
  "line_gaps w keys =
     map (\<lambda>k. (if k = hd keys then '' '' else [CHR 0x0A, CHR '' ''], replicate (w - length k) (CHR '' ''))) keys"

lemma blanks_replicate: "blank a \<Longrightarrow> blank b \<Longrightarrow> blanks (replicate n (a, b))"
  by (simp add: blanks_def list_all_iff)

lemma gs_String_report: "gs_String g = render (line_gaps 24 gs_Keys) (gs_fields g) @ [CHR 0x0A]"
  by (simp add: gs_String_def gs_fields_def gs_Keys_def line_gaps_def Let_def numeral_eq_Suc)

lemma gs_gaps: "length (line_gaps 24 gs_Keys) = 11" "blanks (line_gaps 24 gs_Keys)"
  by (simp_all add: line_gaps_def gs_Keys_def blanks_def blank_def ch_space_def numeral_eq_Suc)

text \<open>
  C15. What ptp4l reports of the grandmaster settings is read back exactly: whatever white space pmc
  puts around the keys and values, the regular expression of the data set finds the report and
  the update of its fields yields the settings; the text the daemon sends to set them is such a
  report. (The UTC offset must not be negative: the expression accepts digits only.)
\<close>

theorem gm_settings_read_back:
  assumes "0 \<le> sint (tp_CurrentUtcOffset (gs_TimePropertiesDS g))"
    and "length gaps = 11" "blanks gaps" "rest = [] \<or> ch_space (hd rest)"
  shows "(\<exists>m. FindStringSubmatch False 11 gs_RegEx (render gaps (gs_fields g) @ rest) = Some m \<and>
      ProcessMessage zero_grandmaster_settings gs_Keys gs_Update m = (g, None)) \<and>
    (\<exists>m. FindStringSubmatch False 11 gs_RegEx (gs_String g) = Some m \<and>
      ProcessMessage zero_grandmaster_settings gs_Keys gs_Update m = (g, None))"
proof -
  have l: "length (gs_fields g) = 11" "map fst (gs_fields g) = gs_Keys"
    by (simp_all add: gs_fields_def gs_Keys_def Let_def)
  have "\<exists>m. FindStringSubmatch False 11 gs_RegEx (render gaps (gs_fields g) @ rest) = Some m \<and>
      ProcessMessage zero_grandmaster_settings gs_Keys gs_Update m = (g, None)"
    if "length gaps = 11" "blanks gaps" "rest = [] \<or> ch_space (hd rest)" for gaps rest
  proof -
    have "gs_fields g \<noteq> []" "length gaps = length (gs_fields g)" using that(1) l by auto
    from dataset_read [OF this(2,1) that(2) gs_fields_readable [OF assms(1)] that(3), of "[]"] l
    show ?thesis using gs_update_fields [OF assms(1)] by (simp add: gs_RegEx_def)
  qed
  from this [OF assms(2-4)] this [OF gs_gaps, of "[CHR 0x0A]"] show ?thesis
    by (simp add: gs_String_report ch_space_def)
qed

definition sample_settings :: "i32 \<Rightarrow> grandmaster_settings" where
  "sample_settings off = \<lparr>gs_ClockQuality = \<lparr>cq_ClockClass = 6, cq_ClockAccuracy = 0x21,
     cq_OffsetScaledLogVariance = 0x4e5d\<rparr>, gs_TimePropertiesDS = zero_time_properties
       \<lparr>tp_CurrentUtcOffset := off, tp_PtpTimescale := True, tp_TimeSource := 0x20\<rparr>\<rparr>"

theorem gm_settings_read_back_witness:
  "\<exists>m. FindStringSubmatch False 11 gs_RegEx
      (render (replicate 11 ([CHR 0x0A, CHR 0x09, CHR 0x09], '' '')) (gs_fields (sample_settings 37))) = Some m \<and>
    ProcessMessage zero_grandmaster_settings gs_Keys gs_Update m = (sample_settings 37, None)"
proof -
  have "blanks (replicate 11 ([CHR 0x0A, CHR 0x09, CHR 0x09], '' ''))"
    by (rule blanks_replicate) (simp_all add: blank_def ch_space_def)
  moreover have "0 \<le> sint (tp_CurrentUtcOffset (gs_TimePropertiesDS (sample_settings 37)))"
    by (simp add: sample_settings_def)
  ultimately show ?thesis
    using gm_settings_read_back [of "sample_settings 37" _ "[]"] by (metis append_Nil2 length_replicate)
qed

text \<open>The pattern of the UTC offset rejects the text of a negative offset.\<close>

lemma negative_utc_offset_unreadable: "i < 0 \<Longrightarrow> mt rx_dec m (show_int i @ rest) k = None"
  by (simp add: rx_dec_def show_int_def ch_digit_def)

text \<open>A clock identity as pmc prints it, and a port identity.\<close>

definition clock_identity :: "string \<Rightarrow> string \<Rightarrow> string \<Rightarrow> string" where
  "clock_identity a b c = a @ ''.'' @ b @ ''.'' @ c"

definition hex_word :: "string \<Rightarrow> bool" where
  "hex_word s \<longleftrightarrow> s \<noteq> '''' \<and> list_all ch_hex s"

lemma reads_identity:
  assumes "hex_word a" "hex_word b" "hex_word c"
  shows "reads clockIdentityPattern (clock_identity a b c)" "word_text (clock_identity a b c)"
    "reads portIdentityPattern (clock_identity a b c @ ''-'' @ show_nat n)"
    "word_text (clock_identity a b c @ ''-'' @ show_nat n)"
proof -
  have sep: "\<not> ch_hex CHR ''.''" "\<not> ch_hex CHR ''-''" by (simp_all add: ch_defs)
  note h = assms [unfolded hex_word_def]
  have c: "reads (RPlus ch_hex) c" using h space_classes(3) by (intro reads_plus) auto
  have "reads (RSeq (RPlus ch_hex) (RSeq (RLit ''.'') (RPlus ch_hex))) (b @ ''.'' @ c)"
    using h sep c by (intro reads_plus_seq reads_lit_seq) auto
  then show "reads clockIdentityPattern (clock_identity a b c)"
    unfolding clockIdentityPattern_def clock_identity_def
    using h sep by (intro reads_plus_seq [of _ a] reads_lit_seq) auto
  have d: "reads (RSeq (RPlus ch_hex) (RSeq (RLit ''-'') (RPlus ch_digit))) (c @ ''-'' @ show_nat n)"
    using h sep reads_nat(1) [unfolded rx_dec_def] by (intro reads_plus_seq reads_lit_seq) auto
  have "reads (RSeq (RPlus ch_hex) (RSeq (RLit ''.'') (RSeq (RPlus ch_hex) (RSeq (RLit ''-'') (RPlus ch_digit)))))
      (b @ ''.'' @ c @ ''-'' @ show_nat n)"
    using h sep d by (intro reads_plus_seq [of _ b] reads_lit_seq) auto
  then have "reads portIdentityPattern (a @ ''.'' @ b @ ''.'' @ c @ ''-'' @ show_nat n)"
    unfolding portIdentityPattern_def using h sep by (intro reads_plus_seq [of _ a] reads_lit_seq) auto
  then show "reads portIdentityPattern (clock_identity a b c @ ''-'' @ show_nat n)"
    by (simp add: clock_identity_def)
  have w: "list_all (\<lambda>c. \<not> ch_space c) s" if "hex_word s" for s
    using that space_classes(3) by (auto simp: hex_word_def list_all_iff)
  show "word_text (clock_identity a b c)" "word_text (clock_identity a b c @ ''-'' @ show_nat n)"
    using assms [THEN w] reads_nat(2) [of n]
    by (simp_all add: clock_identity_def word_text_def ch_space_def)
qed

text \<open>
  A parent data set is read back exactly from any report of pmc, when its identities have the
  form of a PTP clock identity (three groups of hexadecimal digits) and of a port identity.
\<close>

lemma parent_data_set_read_back:
  assumes "hex_word a" "hex_word b" "hex_word c" "hex_word a'" "hex_word b'" "hex_word c'"
    and "pds_ParentPortIdentity p = clock_identity a b c @ ''-'' @ show_nat n"
    and "pds_GrandmasterIdentity p = clock_identity a' b' c'"
    and "length gaps = 10" "blanks gaps" "rest = [] \<or> ch_space (hd rest)"
  shows "\<exists>m. FindStringSubmatch False 10 pds_RegEx (render gaps (pds_fields p) @ rest) = Some m \<and>
    ProcessMessage zero_parent_data_set pds_Keys pds_Update m = (p, None)"
proof -
  have l: "length (pds_fields p) = 10" "map fst (pds_fields p) = pds_Keys"
    by (simp_all add: pds_fields_def pds_Keys_def)
  then have ne: "pds_fields p \<noteq> []" "length gaps = length (pds_fields p)" using assms(9) by auto
  have "list_all (\<lambda>(k, v). word_text k \<and> word_text v \<and> reads (pds_ValueRegEx k) v) (pds_fields p)"
    using keys_are_words(2) reads_identity(3,4) [OF assms(1-3), of n] reads_identity(1,2) [OF assms(4-6)] assms(7,8)
    by (simp add: pds_fields_def pds_Keys_def pds_ValueRegEx_def reads_nat reads_hex [simplified])
  from dataset_read [OF ne(2,1) assms(10) this assms(11), of "[]"] l
  have "FindStringSubmatch False 10 pds_RegEx (render gaps (pds_fields p) @ rest) =
      Some (render gaps (pds_fields p) # map snd (pds_fields p))" by (simp add: pds_RegEx_def)
  moreover have "ProcessMessage zero_parent_data_set pds_Keys pds_Update (w # map snd (pds_fields p)) = (p, None)"
    for w
    by (simp add: ProcessMessage_def pds_fields_def pds_Keys_def pds_Update_def stou_show [simplified]
        zero_parent_data_set_def)
  ultimately show ?thesis by blast
qed

end
