(* ===== verification/Aliases.thy ===== *)
theory Aliases
  imports GoText "HOL-Library.Multiset"
begin

text \<open>
  Interface aliases (\<open>pkg/alias/manager.go\<close>, \<open>pkg/utils/utils.go\<close>): the interfaces of one
  PTP hardware clock (PHC) share an alias made from their names, and fall back to their own names
  when the group has no common alias or two groups have the same one. The Go maps are lists of
  pairs whose order stands for the order of iteration; the log texts are left out.
\<close>

section \<open>The alias of a name\<close>

text \<open>\<open>^(.+?)x(\\..+)?$\<close> and \<open>^(.+?)(\\d+)(?:np\\d+)?(\\..+)?$\<close>.\<close>

abbreviation RPlusLazy :: "(char \<Rightarrow> bool) \<Rightarrow> rx" where "RPlusLazy p \<equiv> RSeq (RCls p) (RMany False p)"

definition rx_vlan :: rx where "rx_vlan = RSeq (RLit ''.'') (RPlus ch_any)"

definition alreadyAliasedPattern :: rx where
  "alreadyAliasedPattern =
     RSeq (RCap 1 (RPlusLazy ch_any)) (RSeq (RLit ''x'') (RSeq (ROpt (RCap 2 rx_vlan)) REnd))"

definition aliasPattern :: rx where
  "aliasPattern =
     RSeq (RCap 1 (RPlusLazy ch_any)) (RSeq (RCap 2 (RPlus ch_digit))
       (RSeq (ROpt (RSeq (RLit ''np'') (RPlus ch_digit))) (RSeq (ROpt (RCap 3 rx_vlan)) REnd)))"

definition GetAliasValue :: "string \<Rightarrow> string" where
  "GetAliasValue ifname =
     (if ifname = '''' then ''''
      else if FindStringSubmatch True 2 alreadyAliasedPattern ifname \<noteq> None then ifname
      else (case FindStringSubmatch True 3 aliasPattern ifname of
              Some ms \<Rightarrow> ms ! 1 @ ''x'' @ ms ! 3
            | None \<Rightarrow> ifname))"

section \<open>The alias store\<close>

record alias_store =
  as_interfacesByPhc :: "(string \<times> string list) list"
  as_phcByIface :: "string \<rightharpoonup> string"
  as_aliases :: "string \<rightharpoonup> string"

definition as_empty :: alias_store where
  "as_empty = \<lparr>as_interfacesByPhc = [], as_phcByIface = Map.empty, as_aliases = Map.empty\<rparr>"

definition addInterface :: "string \<Rightarrow> string \<Rightarrow> alias_store \<Rightarrow> alias_store" where
  "addInterface phc ifName m =
     m\<lparr>as_interfacesByPhc :=
         upsert (\<lambda>(k, _). k = phc) (phc, []) (\<lambda>(k, is). (k, is @ [ifName])) (as_interfacesByPhc m),
       as_phcByIface := (as_phcByIface m)(ifName \<mapsto> phc)\<rparr>"

definition getPhcGroup :: "string \<Rightarrow> alias_store \<Rightarrow> string" where
  "getPhcGroup ifName m = (case as_phcByIface m ifName of Some p \<Rightarrow> p | None \<Rightarrow> '''')"

definition getAlias :: "string \<Rightarrow> alias_store \<Rightarrow> string" where
  "getAlias ifName m = (case as_aliases m ifName of Some v \<Rightarrow> v | None \<Rightarrow> ifName)"

definition setAlias :: "string \<Rightarrow> string \<Rightarrow> alias_store \<Rightarrow> alias_store" where
  "setAlias ifName v m = m\<lparr>as_aliases := (as_aliases m)(ifName \<mapsto> v)\<rparr>"

definition alias_clear :: "alias_store \<Rightarrow> alias_store" where
  "alias_clear m = as_empty"

definition getAllAliases :: "alias_store \<Rightarrow> (string \<rightharpoonup> string)" where
  "getAllAliases m = as_aliases m"

text \<open>
  One group: its members are given their aliases until one differs from the first; the group is
  then reset to the names (the flag is \<open>ungroup\<close>).
\<close>

fun alias_members :: "string \<Rightarrow> string list \<Rightarrow> (string \<rightharpoonup> string) \<Rightarrow> (string \<rightharpoonup> string) \<times> bool" where
  "alias_members first [] al = (al, False)"
| "alias_members first (i # is) al =
     (let v = GetAliasValue i; al' = al(i \<mapsto> v) in
      if first \<noteq> v then (al', True) else alias_members first is al')"

definition name_all :: "string list \<Rightarrow> (string \<rightharpoonup> string) \<Rightarrow> (string \<rightharpoonup> string)" where
  "name_all is al = fold (\<lambda>i a. a(i \<mapsto> i)) is al"

type_synonym seen_aliases = "(string \<times> string list) list"

text \<open>An empty group, which the code would panic on, does not occur: groups are made by appending.\<close>

definition alias_group ::
  "string \<times> string list \<Rightarrow> (string \<rightharpoonup> string) \<times> seen_aliases \<Rightarrow> (string \<rightharpoonup> string) \<times> seen_aliases" where
  "alias_group g st =
     (let (phc, is) = g; (al, seen) = st; first = GetAliasValue (hd is);
          (al1, ungroup) = alias_members first (tl is) (al(hd is \<mapsto> first))
      in if ungroup then (name_all is al1, seen)
         else (al1, upsert (\<lambda>(k, _). k = first) (first, []) (\<lambda>(k, ps). (k, ps @ [phc])) seen))"

definition unalias_seen ::
  "(string \<times> string list) list \<Rightarrow> string \<times> string list \<Rightarrow> (string \<rightharpoonup> string) \<Rightarrow> (string \<rightharpoonup> string)" where
  "unalias_seen groups entry al =
     (if 1 < length (snd entry)
      then fold (\<lambda>pid a. case map_of groups pid of Some is \<Rightarrow> name_all is a | None \<Rightarrow> a) (snd entry) al
      else al)"

definition calculateAliases :: "alias_store \<Rightarrow> alias_store" where
  "calculateAliases m =
     (let groups = as_interfacesByPhc m;
          (al, seen) = fold alias_group groups (Map.empty, [])
      in m\<lparr>as_aliases := fold (unalias_seen groups) seen al\<rparr>)"

section \<open>The alias function is idempotent\<close>

lemma vlan_lang: "lang rx_vlan u \<longleftrightarrow> (\<exists>w. u = ''.'' @ w \<and> w \<noteq> '''' \<and> list_all ch_any w)"
  unfolding rx_vlan_def lang.simps(6) [of "RLit ''.''"] lang_plus by auto

lemma aliased_match:
  assumes "p \<noteq> ''''" "list_all ch_any p" "v = '''' \<or> lang rx_vlan v"
  shows "FindStringSubmatch True 2 alreadyAliasedPattern (p @ ''x'' @ v) \<noteq> None"
proof -
  let ?s = "p @ ''x'' @ v" and ?k = "\<lambda>m s'. Some (m, take (length (p @ ''x'' @ v) - length s') (p @ ''x'' @ v))"
  have e: "mt (RSeq (ROpt (RCap 2 rx_vlan)) REnd) m' v ?k \<noteq> None" for m'
  proof -
    have "mt (ROpt (RCap 2 rx_vlan)) m' (v @ []) (\<lambda>m s. mt REnd m s ?k) \<noteq> None"
      by (rule mt_complete) (use assms(3) in \<open>auto simp: rx_vlan_def\<close>)
    then show ?thesis by simp
  qed
  have x: "mt (RLit ''x'') m' (''x'' @ v) (\<lambda>m s. mt (RSeq (ROpt (RCap 2 rx_vlan)) REnd) m s ?k) \<noteq> None" for m'
    using e [of m'] by (simp only: mt_lit) simp
  have "mt (RCap 1 (RPlusLazy ch_any)) [] (p @ (''x'' @ v))
      (\<lambda>m s. mt (RLit ''x'') m s (\<lambda>m s. mt (RSeq (ROpt (RCap 2 rx_vlan)) REnd) m s ?k)) \<noteq> None"
    by (rule mt_complete) (use assms(1,2) x lang_plus [of ch_any False p] in auto)
  then have "match_here alreadyAliasedPattern ?s \<noteq> None"
    unfolding match_here_def alreadyAliasedPattern_def by simp
  then show ?thesis by (auto simp: FindStringSubmatch_def)
qed
lemma alias_form:
  assumes "FindStringSubmatch True 3 aliasPattern s = Some ms"
  obtains p v where "ms ! 1 = p" "ms ! 3 = v" "p \<noteq> ''''" "list_all ch_any p" "v = '''' \<or> lang rx_vlan v"
proof -
  define k where "k = (\<lambda>(m :: captures) (s' :: string). Some (m, take (length s - length s') s))"
  have nc: "nocap (RPlusLazy ch_any)" "nocap (RPlus ch_digit)" "nocap rx_vlan"
    "nocap (ROpt (RSeq (RLit ''np'') (RPlus ch_digit)))"
    by (simp_all add: rx_vlan_def)
  from assms obtain m w where mw: "match_here aliasPattern s = Some (m, w)"
    and ms: "ms = w # map (capture m) [1..<4]"
    by (auto simp: FindStringSubmatch_def)
  from mw have "mt (RCap 1 (RPlusLazy ch_any)) [] s
      (\<lambda>m s. mt (RSeq (RCap 2 (RPlus ch_digit)) (RSeq (ROpt (RSeq (RLit ''np'') (RPlus ch_digit)))
        (RSeq (ROpt (RCap 3 rx_vlan)) REnd))) m s k) = Some (m, w)"
    by (simp only: match_here_def aliasPattern_def mt.simps k_def)
  from mt_cap_sound [OF this nc(1)] obtain p s1 where p: "lang (RPlusLazy ch_any) p"
    and 1: "mt (RSeq (RCap 2 (RPlus ch_digit)) (RSeq (ROpt (RSeq (RLit ''np'') (RPlus ch_digit)))
        (RSeq (ROpt (RCap 3 rx_vlan)) REnd))) [(1, p)] s1 k = Some (m, w)"
    by blast
  from 1 have "mt (RCap 2 (RPlus ch_digit)) [(1, p)] s1
      (\<lambda>m s. mt (RSeq (ROpt (RSeq (RLit ''np'') (RPlus ch_digit))) (RSeq (ROpt (RCap 3 rx_vlan)) REnd)) m s k) =
      Some (m, w)"
    by (simp only: mt.simps)
  from mt_cap_sound [OF this nc(2)] obtain d s2
    where 2: "mt (RSeq (ROpt (RSeq (RLit ''np'') (RPlus ch_digit))) (RSeq (ROpt (RCap 3 rx_vlan)) REnd))
      [(2, d), (1, p)] s2 k = Some (m, w)"
    by blast
  from 2 have "mt (ROpt (RSeq (RLit ''np'') (RPlus ch_digit))) [(2, d), (1, p)] s2
      (\<lambda>m s. mt (RSeq (ROpt (RCap 3 rx_vlan)) REnd) m s k) = Some (m, w)"
    by (simp only: mt.simps)
  from mt_sound [OF this] nc(4) obtain s3
    where 3: "mt (RSeq (ROpt (RCap 3 rx_vlan)) REnd) [(2, d), (1, p)] s3 k = Some (m, w)"
    by blast
  have "m = [(2, d), (1, p)] \<or> (\<exists>v. lang rx_vlan v \<and> m = [(3, v), (2, d), (1, p)])"
  proof (cases "mt (RCap 3 rx_vlan) [(2, d), (1, p)] s3 (\<lambda>m s. mt REnd m s k)")
    case None
    from 3 have "mt (ROpt (RCap 3 rx_vlan)) [(2, d), (1, p)] s3 (\<lambda>m s. mt REnd m s k) = Some (m, w)"
      by (simp only: mt.simps)
    with None have "mt REnd [(2, d), (1, p)] s3 k = Some (m, w)"
      by (simp only: mt.simps(7) option.simps mt.simps(1))
    then show ?thesis by (auto simp: k_def split: if_splits)
  next
    case (Some x)
    from 3 have "mt (ROpt (RCap 3 rx_vlan)) [(2, d), (1, p)] s3 (\<lambda>m s. mt REnd m s k) = Some (m, w)"
      by (simp only: mt.simps)
    with Some have "mt (RCap 3 rx_vlan) [(2, d), (1, p)] s3 (\<lambda>m s. mt REnd m s k) = Some (m, w)"
      by (simp only: mt.simps(7) option.simps)
    from mt_cap_sound [OF this nc(3)] obtain v t where "lang rx_vlan v"
      "mt REnd ((3, v) # [(2, d), (1, p)]) t k = Some (m, w)" by blast
    then show ?thesis by (auto simp: k_def split: if_splits)
  qed
  then have "ms ! 1 = p" "ms ! 3 = '''' \<or> lang rx_vlan (ms ! 3)"
    by (auto simp: ms capture_def upt_rec)
  with p lang_plus [of ch_any False p] show thesis using that by blast
qed

text \<open>
  The alias of an alias is the alias itself: an interface name that was already replaced (in a
  log line, an event or a metric) is never changed again.
\<close>

lemma alias_idempotent: "GetAliasValue (GetAliasValue s) = GetAliasValue s"
proof -
  have fix_aliased: "GetAliasValue t = t"
    if "FindStringSubmatch True 2 alreadyAliasedPattern t \<noteq> None" for t
    using that by (auto simp: GetAliasValue_def)
  show ?thesis
  proof (cases "s = '''' \<or> FindStringSubmatch True 2 alreadyAliasedPattern s \<noteq> None")
    case True
    then show ?thesis by (auto simp: GetAliasValue_def)
  next
    case False
    show ?thesis
    proof (cases "FindStringSubmatch True 3 aliasPattern s")
      case None
      with False show ?thesis by (simp add: GetAliasValue_def)
    next
      case (Some ms)
      obtain p v where "ms ! 1 = p" "ms ! 3 = v" "p \<noteq> ''''" "list_all ch_any p" "v = '''' \<or> lang rx_vlan v"
        by (rule alias_form [OF Some])
      with False Some aliased_match [of p v] fix_aliased show ?thesis
        by (simp add: GetAliasValue_def)
    qed
  qed
qed

section \<open>What the calculation yields\<close>

text \<open>A group is uniform when its members have one alias; \<open>uniform_phcs\<close> lists the PHCs of an alias.\<close>

definition uniform :: "string list \<Rightarrow> bool" where
  "uniform is \<longleftrightarrow> (\<forall>i \<in> set is. GetAliasValue i = GetAliasValue (hd is))"

definition uniform_phcs :: "(string \<times> string list) list \<Rightarrow> string \<Rightarrow> string list" where
  "uniform_phcs groups a =
     map fst (filter (\<lambda>(p, is). uniform is \<and> GetAliasValue (hd is) = a) groups)"

lemma in_uniform_phcs:
  "q \<in> set (uniform_phcs groups a) \<longleftrightarrow>
   (\<exists>js. (q, js) \<in> set groups \<and> uniform js \<and> GetAliasValue (hd js) = a)"
  by (force simp: uniform_phcs_def)

lemma name_all_apply: "name_all is al x = (if x \<in> set is then Some x else al x)"
proof -
  have "fold (\<lambda>i a. a(i \<mapsto> i)) is al x = (if x \<in> set is then Some x else al x)"
    by (induction "is" arbitrary: al) auto
  then show ?thesis by (simp add: name_all_def)
qed

lemma alias_members_flag: "snd (alias_members first is al) \<longleftrightarrow> \<not> (\<forall>i \<in> set is. GetAliasValue i = first)"
  by (induction "is" arbitrary: al) (auto simp: Let_def)

lemma alias_members_uniform:
  "\<forall>i \<in> set is. GetAliasValue i = first \<Longrightarrow>
   fst (alias_members first is al) x = (if x \<in> set is then Some first else al x)"
  by (induction "is" arbitrary: al) (auto simp: Let_def)

lemma alias_members_outside: "x \<notin> set is \<Longrightarrow> fst (alias_members first is al) x = al x"
  by (induction "is" arbitrary: al) (auto simp: Let_def)

lemma alias_group_apply:
  assumes "is \<noteq> []" "alias_group (p, is) (al, seen) = (al', seen')"
  shows "al' x = (if x \<in> set is then Some (if uniform is then GetAliasValue (hd is) else x) else al x)"
    and "seen' = (if uniform is
      then upsert (\<lambda>(k, _). k = GetAliasValue (hd is)) (GetAliasValue (hd is), []) (\<lambda>(k, ps). (k, ps @ [p])) seen
      else seen)"
proof -
  obtain i js where is_: "is = i # js" using assms(1) by (cases "is") auto
  let ?r = "alias_members (GetAliasValue i) js (al(i \<mapsto> GetAliasValue i))"
  have u: "snd ?r \<longleftrightarrow> \<not> uniform is"
    by (auto simp: alias_members_flag uniform_def is_)
  show "al' x = (if x \<in> set is then Some (if uniform is then GetAliasValue (hd is) else x) else al x)"
  proof (cases "uniform is")
    case True
    then have "\<forall>j \<in> set js. GetAliasValue j = GetAliasValue i" by (auto simp: uniform_def is_)
    from alias_members_uniform [OF this] True assms(2) u show ?thesis
      by (auto simp: alias_group_def Let_def split_beta is_)
  next
    case False
    with assms(2) u alias_members_outside [of x js "GetAliasValue i" "al(i \<mapsto> GetAliasValue i)"]
    show ?thesis by (auto simp: alias_group_def Let_def split_beta is_ name_all_apply)
  qed
  show "seen' = (if uniform is
      then upsert (\<lambda>(k, _). k = GetAliasValue (hd is)) (GetAliasValue (hd is), []) (\<lambda>(k, ps). (k, ps @ [p])) seen
      else seen)"
    using assms(2) u by (auto simp: alias_group_def Let_def split_beta is_ split: if_splits)
qed

lemma map_of_upsert:
  "map_of (upsert (\<lambda>(k, _). k = a) (a, []) (\<lambda>(k, ps). (k, ps @ [p])) xs) b =
     (if b = a then Some ((case map_of xs a of Some ps \<Rightarrow> ps | None \<Rightarrow> []) @ [p]) else map_of xs b)"
  by (induction xs) auto

text \<open>Groups of different PHCs have no interface in common; a group may hold an interface more than once.\<close>

definition apart :: "(string \<times> string list) list \<Rightarrow> bool" where
  "apart groups \<longleftrightarrow> sorted_wrt (\<lambda>g h. set (snd g) \<inter> set (snd h) = {}) groups"

lemma apart_simps [simp]:
  "apart []" "apart (g # gs) \<longleftrightarrow> (\<forall>h \<in> set gs. set (snd g) \<inter> set (snd h) = {}) \<and> apart gs"
  by (simp_all add: apart_def)

lemma groups_fold:
  assumes "list_all (\<lambda>(p, is). is \<noteq> []) groups" "apart groups"
    and "fold alias_group groups (al0, seen0) = (al, seen)"
  shows "(p, is) \<in> set groups \<Longrightarrow> x \<in> set is \<Longrightarrow>
      al x = Some (if uniform is then GetAliasValue (hd is) else x)"
    and "x \<notin> set (concat (map snd groups)) \<Longrightarrow> al x = al0 x"
    and "map_of seen a = (if map_of seen0 a = None \<and> uniform_phcs groups a = [] then None
      else Some ((case map_of seen0 a of Some ps \<Rightarrow> ps | None \<Rightarrow> []) @ uniform_phcs groups a))"
    and "distinct (map fst seen0) \<Longrightarrow> distinct (map fst seen)"
  using assms
proof (induction groups arbitrary: al0 seen0)
  case Nil
  {
    case 1
    then show ?case by simp
  next
    case 2
    then show ?case by simp
  next
    case 3
    then show ?case by (auto simp: uniform_phcs_def split: option.splits)
  next
    case 4
    then show ?case by simp
  }
next
  case (Cons g groups)
  obtain q js where g: "g = (q, js)" by force
  {
    case 1
    obtain al1 seen1 where st: "alias_group (q, js) (al0, seen0) = (al1, seen1)" by force
    from 1(5) have f: "fold alias_group groups (al1, seen1) = (al, seen)" by (simp add: g st)
    show ?case
    proof (cases "(p, is) = g")
      case True
      with 1 g have "x \<notin> set (concat (map snd groups))" by fastforce
      with Cons.IH(2) [OF this _ _ f] 1 g have "al x = al1 x" by auto
      with True 1 g alias_group_apply(1) [OF _ st, of x] show ?thesis by auto
    next
      case False
      with 1 Cons.IH(1) [OF _ _ _ _ f] show ?thesis by auto
    qed
  next
    case 2
    obtain al1 seen1 where st: "alias_group (q, js) (al0, seen0) = (al1, seen1)" by force
    from 2(4) have f: "fold alias_group groups (al1, seen1) = (al, seen)" by (simp add: g st)
    with 2 Cons.IH(2) [OF _ _ _ f] have "al x = al1 x" by auto
    with 2 g alias_group_apply(1) [OF _ st, of x] show ?case by auto
  next
    case 3
    obtain al1 seen1 where st: "alias_group (q, js) (al0, seen0) = (al1, seen1)" by force
    from 3(3) have f: "fold alias_group groups (al1, seen1) = (al, seen)" by (simp add: g st)
    have "js \<noteq> []" using 3 g by simp
    note s1 = alias_group_apply(2) [OF this st]
    show ?case
      using 3 Cons.IH(3) [OF _ _ f] g
      by (auto simp: s1 map_of_upsert uniform_phcs_def split: option.splits)
  next
    case 4
    obtain al1 seen1 where st: "alias_group (q, js) (al0, seen0) = (al1, seen1)" by force
    from 4(4) have f: "fold alias_group groups (al1, seen1) = (al, seen)" by (simp add: g st)
    have "js \<noteq> []" using 4 g by simp
    note s1 = alias_group_apply(2) [OF this st]
    have "distinct (map fst seen1)"
      unfolding s1 using 4(1) by (auto intro!: distinct_upsert_key [where k = "GetAliasValue (hd js)"])
    with 4 Cons.IH(4) [OF _ _ _ f] show ?case by auto
  }
qed

lemma unalias_pids:
  "fold (\<lambda>pid a. case map_of groups pid of Some is \<Rightarrow> name_all is a | None \<Rightarrow> a) ps al x =
     (if \<exists>pid \<in> set ps. \<exists>is. map_of groups pid = Some is \<and> x \<in> set is then Some x else al x)"
  by (induction ps arbitrary: al) (auto simp: name_all_apply split: option.splits)

lemma unalias_fold:
  "fold (unalias_seen groups) seen al x =
     (if \<exists>e \<in> set seen. 1 < length (snd e) \<and>
           (\<exists>pid \<in> set (snd e). \<exists>is. map_of groups pid = Some is \<and> x \<in> set is)
      then Some x else al x)"
proof (induction seen arbitrary: al)
  case Nil
  then show ?case by simp
next
  case (Cons e seen)
  have "unalias_seen groups e al x =
      (if 1 < length (snd e) \<and> (\<exists>pid \<in> set (snd e). \<exists>is. map_of groups pid = Some is \<and> x \<in> set is)
       then Some x else al x)"
    by (auto simp: unalias_seen_def unalias_pids)
  then show ?case by (auto simp: Cons.IH simp del: One_nat_def)
qed

lemma distinct_two: "distinct ps \<Longrightarrow> p \<in> set ps \<Longrightarrow> 1 < length ps \<longleftrightarrow> (\<exists>q \<in> set ps. q \<noteq> p)"
proof -
  assume d: "distinct ps" and p: "p \<in> set ps"
  have "card (set ps - {p}) = length ps - 1" using d p by (simp add: distinct_card)
  then have "1 < length ps \<longleftrightarrow> 0 < card (set ps - {p})" by simp
  also have "\<dots> \<longleftrightarrow> (\<exists>q \<in> set ps. q \<noteq> p)" by (auto simp: card_gt_0_iff)
  finally show ?thesis .
qed

lemma group_of:
  assumes "apart groups" "(p, is) \<in> set groups" "i \<in> set is" "(q, js) \<in> set groups" "i \<in> set js"
  shows "q = p \<and> js = is"
  using assms by (induction groups) fastforce+

lemma aliases_of_groups:
  assumes "distinct (map fst (as_interfacesByPhc m))" "list_all (\<lambda>(p, is). is \<noteq> []) (as_interfacesByPhc m)"
    and "apart (as_interfacesByPhc m)"
    and "(phc, is) \<in> set (as_interfacesByPhc m)" "i \<in> set is"
  shows "getAlias i (calculateAliases m) =
    (if uniform is \<and> (\<nexists>q js. (q, js) \<in> set (as_interfacesByPhc m) \<and> q \<noteq> phc \<and> uniform js \<and>
          GetAliasValue (hd js) = GetAliasValue i)
     then GetAliasValue i else i)"
proof -
  let ?gs = "as_interfacesByPhc m"
  obtain al seen where f: "fold alias_group ?gs (Map.empty, []) = (al, seen)" by force
  note inv = groups_fold [OF assms(2,3) f]
  have al: "al i = Some (if uniform is then GetAliasValue (hd is) else i)" by (rule inv(1) [OF assms(4,5)])
  have seen: "map_of seen a = (if uniform_phcs ?gs a = [] then None else Some (uniform_phcs ?gs a))" for a
    using inv(3) [of a] by simp
  have ent: "e \<in> set seen \<longleftrightarrow> snd e = uniform_phcs ?gs (fst e) \<and> snd e \<noteq> []" for e
  proof -
    have "e \<in> set seen \<longleftrightarrow> map_of seen (fst e) = Some (snd e)"
      using inv(4) by (simp add: map_of_eq_Some_iff)
    then show ?thesis by (auto simp: seen)
  qed
  have dist: "distinct (uniform_phcs ?gs a)" for a
    using assms(1) by (simp add: uniform_phcs_def distinct_map_filter)
  have mem: "phc \<in> set (uniform_phcs ?gs a) \<longleftrightarrow> uniform is \<and> GetAliasValue (hd is) = a" for a
  proof -
    have "js = is" if "(phc, js) \<in> set ?gs" for js
      by (rule eq_key_imp_eq_value [OF assms(1) that assms(4)])
    then show ?thesis using assms(4) unfolding in_uniform_phcs by blast
  qed
  have val: "GetAliasValue (hd is) = GetAliasValue i" if "uniform is"
    using that assms(5) by (auto simp: uniform_def)
  let ?clash = "uniform is \<and>
    (\<exists>q js. (q, js) \<in> set ?gs \<and> q \<noteq> phc \<and> uniform js \<and> GetAliasValue (hd js) = GetAliasValue i)"
  have "(\<exists>e \<in> set seen. 1 < length (snd e) \<and> (\<exists>pid \<in> set (snd e). \<exists>js. map_of ?gs pid = Some js \<and> i \<in> set js))
      \<longleftrightarrow> (\<exists>a. phc \<in> set (uniform_phcs ?gs a) \<and> 1 < length (uniform_phcs ?gs a))" (is "?l \<longleftrightarrow> ?r")
  proof
    assume ?l
    then show ?r using group_of [OF assms(3,4,5)] by (fastforce simp: ent dest: map_of_SomeD)
  next
    assume ?r
    then obtain a where "phc \<in> set (uniform_phcs ?gs a)" "1 < length (uniform_phcs ?gs a)" by blast
    moreover from this have "(a, uniform_phcs ?gs a) \<in> set seen" by (auto simp: ent)
    moreover have "map_of ?gs phc = Some is" using assms(1,4) by simp
    ultimately show ?l using assms(5) by (intro bexI [of _ "(a, uniform_phcs ?gs a)"]) auto
  qed
  also have "\<dots> \<longleftrightarrow> uniform is \<and> (\<exists>q \<in> set (uniform_phcs ?gs (GetAliasValue i)). q \<noteq> phc)"
  proof -
    have "phc \<in> set (uniform_phcs ?gs a) \<and> 1 < length (uniform_phcs ?gs a) \<longleftrightarrow>
        uniform is \<and> GetAliasValue i = a \<and> (\<exists>q \<in> set (uniform_phcs ?gs a). q \<noteq> phc)" for a
    proof (cases "phc \<in> set (uniform_phcs ?gs a)")
      case True
      then have "uniform is" "GetAliasValue i = a" using mem [of a] val by metis+
      with True distinct_two [OF dist True] show ?thesis by (simp only:) simp
    next
      case False
      then have "\<not> (uniform is \<and> GetAliasValue i = a)" using mem [of a] val by metis
      with False show ?thesis by blast
    qed
    then show ?thesis by (simp only:) simp
  qed
  also have "\<dots> \<longleftrightarrow> ?clash" unfolding Bex_def in_uniform_phcs by auto
  finally have "fold (unalias_seen ?gs) seen al i = (if ?clash then Some i else al i)"
    unfolding unalias_fold by (simp only:)
  moreover have "getAlias i (calculateAliases m) =
      (case fold (unalias_seen ?gs) seen al i of Some v \<Rightarrow> v | None \<Rightarrow> i)"
    by (simp add: getAlias_def calculateAliases_def f)
  ultimately show ?thesis using al val by (cases "uniform is"; cases ?clash) (simp_all, blast)
qed

section \<open>Registrations\<close>

text \<open>The calls of \<open>AddInterface\<close> since the aliases were cleared, as pairs of PHC and interface.\<close>

definition registered :: "(string \<times> string) list \<Rightarrow> alias_store" where
  "registered regs = fold (\<lambda>(p, i). addInterface p i) regs as_empty"

lemma upsert_groups:
  "(q, js) \<in> set (upsert (\<lambda>(k, _). k = p) (p, []) (\<lambda>(k, is). (k, is @ [i])) gs) \<Longrightarrow> distinct (map fst gs) \<Longrightarrow>
   (if q = p then \<exists>is. js = is @ [i] \<and> ((p, is) \<in> set gs \<or> is = [] \<and> p \<notin> fst ` set gs) else (q, js) \<in> set gs)"
  by (induction gs) (force split: if_splits)+

lemma addInterface_groups:
  assumes "(q, js) \<in> set (as_interfacesByPhc (addInterface p i m))" "distinct (map fst (as_interfacesByPhc m))"
  shows "if q = p then \<exists>is. js = is @ [i] \<and> ((p, is) \<in> set (as_interfacesByPhc m) \<or> is = [] \<and> p \<notin> fst ` set (as_interfacesByPhc m))
    else (q, js) \<in> set (as_interfacesByPhc m)"
  by (rule upsert_groups [OF _ assms(2)]) (use assms(1) in \<open>simp add: addInterface_def\<close>)

lemma registered_snoc: "registered (regs @ [(p, i)]) = addInterface p i (registered regs)"
  by (simp add: registered_def)

lemma addInterface_keys:
  "fst ` set (as_interfacesByPhc (addInterface p i m)) = insert p (fst ` set (as_interfacesByPhc m))"
proof -
  have "fst ` set (upsert (\<lambda>(k, _). k = p) (p, []) (\<lambda>(k, is). (k, is @ [i])) gs) = insert p (fst ` set gs)" for gs
    by (induction gs) auto
  then show ?thesis by (simp add: addInterface_def)
qed

lemma registered_groups:
  "distinct (map fst (as_interfacesByPhc (registered regs))) \<and>
   fst ` set (as_interfacesByPhc (registered regs)) = fst ` set regs \<and>
   (\<forall>(p, is) \<in> set (as_interfacesByPhc (registered regs)). set is = {i. (p, i) \<in> set regs})"
proof (induction regs rule: rev_induct)
  case Nil
  then show ?case by (simp add: registered_def as_empty_def)
next
  case (snoc r regs)
  obtain p i where r: "r = (p, i)" by force
  let ?m = "registered regs"
  have d: "distinct (map fst (as_interfacesByPhc ?m))" using snoc by simp
  have keys: "fst ` set (as_interfacesByPhc ?m) = fst ` set regs" using snoc by simp
  have ih: "set is = {j. (q, j) \<in> set regs}" if "(q, is) \<in> set (as_interfacesByPhc ?m)" for q "is" using snoc that by blast
  have "distinct (map fst (as_interfacesByPhc (addInterface p i ?m)))"
    unfolding addInterface_def using d by (auto intro!: distinct_upsert_key [where k = p])
  moreover have "fst ` set (as_interfacesByPhc (addInterface p i ?m)) = fst ` set (regs @ [r])"
    using keys by (simp add: addInterface_keys r)
  moreover have "set js = {j. (q, j) \<in> set (regs @ [r])}" if g: "(q, js) \<in> set (as_interfacesByPhc (addInterface p i ?m))" for q js
  proof (cases "q = p")
    case True
    then obtain "is" where js: "js = is @ [i]" "(p, is) \<in> set (as_interfacesByPhc ?m) \<or> is = [] \<and> p \<notin> fst ` set (as_interfacesByPhc ?m)"
      using addInterface_groups [OF g d] by auto
    from js(2) have "set is = {j. (p, j) \<in> set regs}"
    proof
      assume "is = [] \<and> p \<notin> fst ` set (as_interfacesByPhc ?m)"
      then show ?thesis unfolding keys by force
    qed (rule ih)
    then show ?thesis using js(1) True r by auto
  next
    case False
    then have "(q, js) \<in> set (as_interfacesByPhc ?m)" using addInterface_groups [OF g d] by auto
    then have "set js = {j. (q, j) \<in> set regs}" by (rule ih)
    then show ?thesis using False r by auto
  qed
  ultimately show ?case unfolding r registered_snoc by blast
qed

lemma apart_groups:
  assumes "distinct (map fst gs)" "\<forall>(p, is) \<in> set gs. set is = {i. (p, i) \<in> R}"
    "\<forall>p q i. (p, i) \<in> R \<longrightarrow> (q, i) \<in> R \<longrightarrow> p = q"
  shows "apart gs"
  using assms(1,2)
proof (induction gs)
  case (Cons g gs)
  have "set (snd g) \<inter> set (snd h) = {}" if h: "h \<in> set gs" for h
  proof -
    have "fst g \<noteq> fst h" using Cons.prems(1) h by force
    moreover have "set (snd g) = {i. (fst g, i) \<in> R}" "set (snd h) = {i. (fst h, i) \<in> R}"
      using Cons.prems(2) h by force+
    ultimately show ?thesis using assms(3) by blast
  qed
  with Cons show ?case by simp
qed simp

text \<open>
  C24. The aliases do not depend on the order in which the maps are iterated, nor on how often an
  interface was registered. After any registrations in which an interface has always the same PHC, an
  interface gets the alias of its name exactly when all interfaces registered for its PHC have this
  alias and there is no other PHC all of whose interfaces have it; otherwise it keeps its name.
\<close>

theorem aliases_are_canonical:
  assumes "\<forall>p q i. (p, i) \<in> set regs \<longrightarrow> (q, i) \<in> set regs \<longrightarrow> p = q"
    and "mset (as_interfacesByPhc m) = mset (as_interfacesByPhc (registered regs))"
    and "(phc, i) \<in> set regs"
  shows "getAlias i (calculateAliases m) =
    (if (\<forall>j. (phc, j) \<in> set regs \<longrightarrow> GetAliasValue j = GetAliasValue i) \<and>
        (\<nexists>q. q \<noteq> phc \<and> q \<in> fst ` set regs \<and> (\<forall>j. (q, j) \<in> set regs \<longrightarrow> GetAliasValue j = GetAliasValue i))
     then GetAliasValue i else i)"
proof -
  let ?gs = "as_interfacesByPhc m"
  note r = registered_groups [of regs]
  have sets: "set ?gs = set (as_interfacesByPhc (registered regs))" using assms(2) by (rule mset_eq_setD)
  have d: "distinct (map fst ?gs)"
    using r assms(2) by (metis mset_eq_imp_distinct_iff mset_map)
  have keys: "fst ` set ?gs = fst ` set regs" using r sets by simp
  have mem: "set is = {j. (p, j) \<in> set regs}" if "(p, is) \<in> set ?gs" for p "is" using r sets that by auto
  have ap: "apart ?gs" by (rule apart_groups [OF d _ assms(1)]) (use mem in auto)
  have ne: "is \<noteq> []" if g: "(p, is) \<in> set ?gs" for p "is"
  proof -
    have "p \<in> fst ` set regs" using keys g by force
    then show ?thesis using mem [OF g] by auto
  qed
  have uni: "uniform is \<and> GetAliasValue (hd is) = a \<longleftrightarrow> (\<forall>j. (p, j) \<in> set regs \<longrightarrow> GetAliasValue j = a)"
    if g: "(p, is) \<in> set ?gs" for p "is" a
    using mem [OF g] ne [OF g] by (cases "is") (auto simp: uniform_def)
  obtain "is" where g: "(phc, is) \<in> set ?gs" using keys assms(3) by force
  have i: "i \<in> set is" using mem [OF g] assms(3) by simp
  have own: "uniform is \<longleftrightarrow> (\<forall>j. (phc, j) \<in> set regs \<longrightarrow> GetAliasValue j = GetAliasValue i)"
  proof -
    have "GetAliasValue (hd is) = GetAliasValue i" if "uniform is" using that i by (auto simp: uniform_def)
    then show ?thesis using uni [OF g, of "GetAliasValue i"] by blast
  qed
  have other: "(\<exists>q js. (q, js) \<in> set ?gs \<and> q \<noteq> phc \<and> uniform js \<and> GetAliasValue (hd js) = GetAliasValue i) \<longleftrightarrow>
      (\<exists>q. q \<noteq> phc \<and> q \<in> fst ` set regs \<and> (\<forall>j. (q, j) \<in> set regs \<longrightarrow> GetAliasValue j = GetAliasValue i))"
    (is "?l \<longleftrightarrow> ?r")
  proof
    assume ?l
    then obtain q js where q: "(q, js) \<in> set ?gs" "q \<noteq> phc" "uniform js \<and> GetAliasValue (hd js) = GetAliasValue i" by blast
    moreover have "q \<in> fst ` set regs" using keys q(1) by force
    ultimately show ?r using uni [OF q(1), of "GetAliasValue i"] by blast
  next
    assume ?r
    then obtain q where q: "q \<noteq> phc" "q \<in> fst ` set regs" "\<forall>j. (q, j) \<in> set regs \<longrightarrow> GetAliasValue j = GetAliasValue i" by blast
    moreover obtain js where js: "(q, js) \<in> set ?gs" using keys q(2) by force
    ultimately show ?l using uni [OF js, of "GetAliasValue i"] by blast
  qed
  have nonempty: "list_all (\<lambda>(p, is). is \<noteq> []) ?gs" using ne by (auto simp: list_all_iff)
  show ?thesis
    using aliases_of_groups [OF d nonempty ap g i] unfolding own other by simp
qed

lemma alias_examples:
  "GetAliasValue ''eth0'' = ''ethx''" "GetAliasValue ''eth1'' = ''ethx''" "GetAliasValue ''eno0'' = ''enox''"
  "GetAliasValue ''enP2s2f0np0.100'' = ''enP2s2fx.100''"
  by code_simp+

theorem aliases_are_canonical_witness:
  "getAlias ''eth1'' (calculateAliases (registered [(''ptp0'', ''eth0''), (''ptp1'', ''eno0''), (''ptp0'', ''eth1''), (''ptp0'', ''eth0'')])) = ''ethx''"
proof -
  let ?regs = "[(''ptp0'', ''eth0''), (''ptp1'', ''eno0''), (''ptp0'', ''eth1''), (''ptp0'', ''eth0'')]"
  have "getAlias ''eth1'' (calculateAliases (registered ?regs)) =
    (if (\<forall>j. (''ptp0'', j) \<in> set ?regs \<longrightarrow> GetAliasValue j = GetAliasValue ''eth1'') \<and>
        (\<nexists>q. q \<noteq> ''ptp0'' \<and> q \<in> fst ` set ?regs \<and> (\<forall>j. (q, j) \<in> set ?regs \<longrightarrow> GetAliasValue j = GetAliasValue ''eth1''))
     then GetAliasValue ''eth1'' else ''eth1'')"
    by (rule aliases_are_canonical) auto
  then show ?thesis by (auto simp: alias_examples)
qed

end
