(* ===== verification/IpcLink.thy ===== *)
theory IpcLink
  imports Ipc "HOL-Library.Multiset"
begin

text \<open>
  The connection to cloud-event-proxy: \<open>pkg/utils/reconnect.go\<close> (dialling with exponential
  backoff) and \<open>pkg/ipc/link.go\<close> (the loop that writes the messages of the cache's channel and
  answers status requests with a snapshot of the cache). The sockets, the clock and the select
  statements are oracles: which branch runs, whether a write succeeds and in which order Go
  iterates over the cache are given by the events of a run.
\<close>

section \<open>Reconnecting with backoff\<close>

text \<open>Durations are \<open>int64\<close> nanoseconds, \<open>wrap64\<close> is the arithmetic on them.\<close>

record reconnect_config =
  rc_MaxAttempts :: int
  rc_BackoffBase :: int
  rc_MaxBackoff :: int

definition DefaultReconnectConfig :: reconnect_config where
  "DefaultReconnectConfig = \<lparr>rc_MaxAttempts = 10, rc_BackoffBase = 100000000, rc_MaxBackoff = 5000000000\<rparr>"

text \<open>
  The world: the outcome of each dial, whether the context is done when an attempt starts, and
  whether it becomes done during the wait after an attempt.
\<close>

record 'c dial_world =
  dw_dial :: "int \<Rightarrow> string + 'c"
  dw_done :: "int \<Rightarrow> bool"
  dw_done_wait :: "int \<Rightarrow> bool"

datatype 'c reconnect_result = Connected 'c | Cancelled | Exhausted "string option"

text \<open>The loop; it also returns the durations it waited.\<close>

function reconnect_loop ::
  "reconnect_config \<Rightarrow> 'c dial_world \<Rightarrow> int \<Rightarrow> int \<Rightarrow> string option \<Rightarrow> 'c reconnect_result \<times> int list" where
  "reconnect_loop cfg w attempt backoff lastErr =
     (if rc_MaxAttempts cfg < attempt then (Exhausted lastErr, [])
      else if dw_done w attempt then (Cancelled, [])
      else case dw_dial w attempt of
        Inr c \<Rightarrow> (Connected c, [])
      | Inl err \<Rightarrow>
          if attempt < rc_MaxAttempts cfg then
            if dw_done_wait w attempt then (Cancelled, [])
            else
              let b2 = wrap64 (backoff * 2);
                  b = (if rc_MaxBackoff cfg < b2 then rc_MaxBackoff cfg else b2);
                  (r, ws) = reconnect_loop cfg w (attempt + 1) b (Some err)
              in (r, backoff # ws)
          else reconnect_loop cfg w (attempt + 1) backoff (Some err))"
  by pat_completeness auto

termination
  by (relation "measure (\<lambda>(cfg, w, attempt, _, _). nat (rc_MaxAttempts cfg + 1 - attempt))") auto

declare reconnect_loop.simps [simp del]

definition ReconnectWithBackoff :: "reconnect_config \<Rightarrow> 'c dial_world \<Rightarrow> 'c reconnect_result \<times> int list" where
  "ReconnectWithBackoff cfg w = reconnect_loop cfg w 1 (rc_BackoffBase cfg) None"

section \<open>The link\<close>

text \<open>
  What the peer has been told: the last value of each key, forgotten on \<open>cache_clear\<close>.
\<close>

type_synonym peer_view = "cache_key \<Rightarrow> ipc_value option option"

definition peer_apply :: "message \<Rightarrow> peer_view \<Rightarrow> peer_view" where
  "peer_apply m v = (if m_Type m = TypeCacheClear then Map.empty else v(msg_key m \<mapsto> m_Values m))"

record ipc_link =
  lk_cache :: cache
  lk_conn :: bool
  lk_peer :: peer_view

text \<open>\<open>Clear\<close> runs in two steps: the store is emptied under the lock, the message sent after it.\<close>

definition clear_store :: "cache \<Rightarrow> cache" where
  "clear_store c = c\<lparr>c_store := []\<rparr>"

definition clear_send :: "cache \<Rightarrow> cache" where
  "clear_send c =
     c\<lparr>c_out := offer (c_buf c)
         \<lparr>m_Version = Version, m_Type = TypeCacheClear, m_Timestamp = '''', m_Profile = '''',
          m_IFace = '''', m_Values = None\<rparr> (c_out c)\<rparr>"

lemma cache_Clear_steps: "cache_Clear c = clear_send (clear_store c)"
  by (simp add: cache_Clear_def clear_send_def clear_store_def)

text \<open>\<open>writeSnapshot\<close>: the messages written before the first failing write, and whether all were.\<close>

fun writeSnapshot :: "(message \<Rightarrow> bool) \<Rightarrow> message list \<Rightarrow> message list \<times> bool" where
  "writeSnapshot ok [] = ([], True)"
| "writeSnapshot ok (m # ms) =
     (if ok m then (let (w, b) = writeSnapshot ok ms in (m # w, b)) else ([], False))"

text \<open>
  Events: a send, a clear (whole, or its two steps) by the daemon; a connection, to the same peer or
  to one that has restarted and knows nothing; the end of the connection (the reader has closed its
  channel); an incoming message, with the order of the snapshot; a message taken from the channel.
  \<open>ok\<close> says which writes succeed.
\<close>

datatype link_event =
    LkSend string message
  | LkClear
  | LkClearStore
  | LkClearSend
  | LkConnect bool
  | LkClosed
  | LkIncoming message "message list" "message \<Rightarrow> bool"
  | LkOut bool

definition serve_incoming :: "message \<Rightarrow> message list \<Rightarrow> (message \<Rightarrow> bool) \<Rightarrow> ipc_link \<Rightarrow> ipc_link" where
  "serve_incoming msg order ok l =
     (if m_Type msg = TypeStatusRequest then
        let (w, b) = writeSnapshot ok order
        in l\<lparr>lk_peer := fold peer_apply w (lk_peer l), lk_conn := b\<rparr>
      else l)"

definition serve_out :: "bool \<Rightarrow> ipc_link \<Rightarrow> ipc_link" where
  "serve_out ok l =
     (let m = hd (c_out (lk_cache l)); l1 = l\<lparr>lk_cache := cache_Receive (lk_cache l)\<rparr>
      in if ok then l1\<lparr>lk_peer := peer_apply m (lk_peer l)\<rparr> else l1\<lparr>lk_conn := False\<rparr>)"

fun link_step :: "link_event \<Rightarrow> ipc_link \<Rightarrow> ipc_link option" where
  "link_step (LkSend now m) l = Some (l\<lparr>lk_cache := fst (cache_Send now m (lk_cache l))\<rparr>)"
| "link_step LkClear l = Some (l\<lparr>lk_cache := cache_Clear (lk_cache l)\<rparr>)"
| "link_step LkClearStore l = Some (l\<lparr>lk_cache := clear_store (lk_cache l)\<rparr>)"
| "link_step LkClearSend l = Some (l\<lparr>lk_cache := clear_send (lk_cache l)\<rparr>)"
| "link_step (LkConnect restarted) l =
     (if lk_conn l then None
      else Some (l\<lparr>lk_conn := True, lk_peer := (if restarted then Map.empty else lk_peer l)\<rparr>))"
| "link_step LkClosed l = (if lk_conn l then Some (l\<lparr>lk_conn := False\<rparr>) else None)"
| "link_step (LkIncoming msg order ok) l =
     (if lk_conn l \<and> mset order = mset (cache_Snapshot (lk_cache l)) then Some (serve_incoming msg order ok l)
      else None)"
| "link_step (LkOut ok) l =
     (if lk_conn l \<and> c_out (lk_cache l) \<noteq> [] then Some (serve_out ok l) else None)"

fun link_run :: "link_event list \<Rightarrow> ipc_link \<Rightarrow> ipc_link option" where
  "link_run [] l = Some l"
| "link_run (e # es) l = (case link_step e l of Some l' \<Rightarrow> link_run es l' | None \<Rightarrow> None)"

definition new_link :: "nat \<Rightarrow> ipc_link" where
  "new_link n = \<lparr>lk_cache = NewCache n, lk_conn = False, lk_peer = Map.empty\<rparr>"
section \<open>Backoff\<close>

lemma min_double:
  fixes b mx :: int
  assumes "0 \<le> b" "0 \<le> mx"
  shows "min (min (b * 2) mx * 2 ^ k) mx = min (b * 2 ^ Suc k) mx"
proof (cases "b * 2 \<le> mx")
  case True
  then show ?thesis by (simp add: mult.assoc)
next
  case False
  have "(1 :: int) \<le> 2 ^ k" by simp
  then have "mx \<le> mx * 2 ^ k" "mx \<le> b * 2 * 2 ^ k"
    using False assms by (auto simp: mult_le_cancel_left1 intro: order_trans [of _ "b * 2"])
  with False show ?thesis by (simp add: mult.assoc)
qed

lemma reconnect_waits:
  assumes "0 \<le> backoff" "backoff \<le> rc_MaxBackoff cfg" "rc_MaxBackoff cfg < 2 ^ 62"
  shows "length (snd (reconnect_loop cfg w attempt backoff e)) \<le> nat (rc_MaxAttempts cfg - attempt) \<and>
    (\<forall>k < length (snd (reconnect_loop cfg w attempt backoff e)).
       snd (reconnect_loop cfg w attempt backoff e) ! k = min (backoff * 2 ^ k) (rc_MaxBackoff cfg))"
  using assms
proof (induction cfg w attempt backoff e rule: reconnect_loop.induct)
  case (1 cfg w attempt backoff e)
  show ?case
  proof (cases "\<not> rc_MaxAttempts cfg < attempt \<and> \<not> dw_done w attempt \<and>
      (\<exists>err. dw_dial w attempt = Inl err) \<and> attempt < rc_MaxAttempts cfg \<and> \<not> dw_done_wait w attempt")
    case True
    then obtain err where c: "\<not> rc_MaxAttempts cfg < attempt" "\<not> dw_done w attempt"
      "dw_dial w attempt = Inl err" "attempt < rc_MaxAttempts cfg" "\<not> dw_done_wait w attempt"
      by blast
    let ?b = "min (backoff * 2) (rc_MaxBackoff cfg)"
    have wr: "wrap64 (backoff * 2) = backoff * 2" using 1(3-5) by (intro wrap64_id) auto
    have eq: "(if rc_MaxBackoff cfg < wrap64 (backoff * 2) then rc_MaxBackoff cfg else wrap64 (backoff * 2)) = ?b"
      by (simp add: wr min_def)
    let ?r = "reconnect_loop cfg w (attempt + 1) ?b (Some err)"
    have step: "snd (reconnect_loop cfg w attempt backoff e) = backoff # snd ?r"
      using c wr by (subst reconnect_loop.simps) (simp add: Let_def split_beta min_def)
    have ih: "length (snd ?r) \<le> nat (rc_MaxAttempts cfg - (attempt + 1))"
      "\<forall>k < length (snd ?r). snd ?r ! k = min (?b * 2 ^ k) (rc_MaxBackoff cfg)"
      using 1(1) [OF c(1,2,3,4,5) refl refl, unfolded eq] 1(3-5) by simp_all
    show ?thesis
    proof (intro conjI allI impI)
      show "length (snd (reconnect_loop cfg w attempt backoff e)) \<le> nat (rc_MaxAttempts cfg - attempt)"
        using ih(1) c(4) by (simp add: step)
      fix k assume "k < length (snd (reconnect_loop cfg w attempt backoff e))"
      then show "snd (reconnect_loop cfg w attempt backoff e) ! k = min (backoff * 2 ^ k) (rc_MaxBackoff cfg)"
        using ih(2) 1(3-5) min_double [of backoff "rc_MaxBackoff cfg" "k - 1"]
        by (cases k) (simp_all add: step)
    qed
  next
    case False
    show ?thesis
    proof (cases "rc_MaxAttempts cfg < attempt \<or> dw_done w attempt \<or> (\<exists>c. dw_dial w attempt = Inr c) \<or>
        dw_done_wait w attempt \<and> attempt < rc_MaxAttempts cfg")
      case True
      then show ?thesis by (subst (1 2 3) reconnect_loop.simps) (auto split: sum.splits)
    next
      case nomore: False
      then obtain err where c: "\<not> rc_MaxAttempts cfg < attempt" "\<not> dw_done w attempt"
        "dw_dial w attempt = Inl err" "\<not> attempt < rc_MaxAttempts cfg"
        using False by (cases "dw_dial w attempt") auto
      then have "snd (reconnect_loop cfg w attempt backoff e) = []"
        by (subst reconnect_loop.simps) (simp add: reconnect_loop.simps [of cfg w "attempt + 1"])
      then show ?thesis by simp
    qed
  qed
qed

text \<open>The outcome: the first success, unless the context ended before it.\<close>

lemma reconnect_outcome:
  assumes "fst (reconnect_loop cfg w attempt backoff e) = r"
  shows "case r of
      Connected c \<Rightarrow> \<exists>n \<ge> attempt. n \<le> rc_MaxAttempts cfg \<and> dw_dial w n = Inr c \<and>
        (\<forall>j. attempt \<le> j \<and> j < n \<longrightarrow> (\<exists>err. dw_dial w j = Inl err))
    | Cancelled \<Rightarrow> \<exists>n \<ge> attempt. dw_done w n \<or> dw_done_wait w n
    | Exhausted _ \<Rightarrow> \<forall>j. attempt \<le> j \<and> j \<le> rc_MaxAttempts cfg \<longrightarrow> (\<exists>err. dw_dial w j = Inl err)"
  using assms
proof (induction cfg w attempt backoff e arbitrary: r rule: reconnect_loop.induct)
  case (1 cfg w attempt backoff e)
  have next_case: ?case
    if "fst (reconnect_loop cfg w (attempt + 1) b (Some err)) = r" "dw_dial w attempt = Inl err"
      "\<And>r. fst (reconnect_loop cfg w (attempt + 1) b (Some err)) = r \<Longrightarrow> (case r of
      Connected c \<Rightarrow> \<exists>n \<ge> attempt + 1. n \<le> rc_MaxAttempts cfg \<and> dw_dial w n = Inr c \<and>
        (\<forall>j. attempt + 1 \<le> j \<and> j < n \<longrightarrow> (\<exists>err. dw_dial w j = Inl err))
    | Cancelled \<Rightarrow> \<exists>n \<ge> attempt + 1. dw_done w n \<or> dw_done_wait w n
    | Exhausted _ \<Rightarrow> \<forall>j. attempt + 1 \<le> j \<and> j \<le> rc_MaxAttempts cfg \<longrightarrow> (\<exists>err. dw_dial w j = Inl err))"
    for b err
  proof -
    have split: "attempt \<le> j \<longleftrightarrow> j = attempt \<or> attempt + 1 \<le> j" for j by auto
    show ?thesis
      using that(3) [OF that(1)] that(2) by (auto simp: split split: reconnect_result.splits)
  qed
  show ?case
  proof (cases "rc_MaxAttempts cfg < attempt \<or> dw_done w attempt")
    case True
    with 1(3) show ?thesis by (subst (asm) reconnect_loop.simps) (auto split: if_splits)
  next
    case False
    then have c: "\<not> rc_MaxAttempts cfg < attempt" "\<not> dw_done w attempt" by auto
    show ?thesis
    proof (cases "dw_dial w attempt")
      case (Inr a)
      with 1(3) c show ?thesis by (subst (asm) reconnect_loop.simps) (auto intro!: exI [of _ attempt])
    next
      case (Inl err)
      show ?thesis
      proof (cases "attempt < rc_MaxAttempts cfg")
        case True
        show ?thesis
        proof (cases "dw_done_wait w attempt")
          case True
          with 1(3) c Inl \<open>attempt < rc_MaxAttempts cfg\<close> show ?thesis
            by (subst (asm) reconnect_loop.simps) auto
        next
          case False
          with 1(3) c Inl True show ?thesis
            by (subst (asm) reconnect_loop.simps, intro next_case [OF _ Inl])
              (auto simp: Let_def split_beta intro!: 1(1) [OF c Inl True False])
        qed
      next
        case False
        from 1(3) c Inl False have "fst (reconnect_loop cfg w (attempt + 1) backoff (Some err)) = r"
          by (subst (asm) reconnect_loop.simps) simp
        from next_case [OF this Inl 1(2) [OF c Inl False]] show ?thesis by blast
      qed
    qed
  qed
qed

text \<open>
  C35. Reconnecting tries at most the configured number of times: the k-th wait is the base doubled k
  times, capped by the maximum, there are fewer waits than attempts, and a connection returned
  is that of the first dial that succeeded. (The cap must be below \<open>2^62\<close> nanoseconds, so that
  doubling a duration cannot wrap around.)
\<close>

theorem reconnect_backoff_bounded:
  assumes "0 \<le> rc_BackoffBase cfg" "rc_BackoffBase cfg \<le> rc_MaxBackoff cfg" "rc_MaxBackoff cfg < 2 ^ 62"
    and "ReconnectWithBackoff cfg w = (r, ws)"
  shows "length ws \<le> nat (rc_MaxAttempts cfg - 1) \<and>
    (\<forall>k < length ws. ws ! k = min (rc_BackoffBase cfg * 2 ^ k) (rc_MaxBackoff cfg)) \<and>
    (case r of
       Connected c \<Rightarrow> \<exists>n \<ge> 1. n \<le> rc_MaxAttempts cfg \<and> dw_dial w n = Inr c \<and>
         (\<forall>j. 1 \<le> j \<and> j < n \<longrightarrow> (\<exists>err. dw_dial w j = Inl err))
     | Cancelled \<Rightarrow> \<exists>n \<ge> 1. dw_done w n \<or> dw_done_wait w n
     | Exhausted _ \<Rightarrow> \<forall>j. 1 \<le> j \<and> j \<le> rc_MaxAttempts cfg \<longrightarrow> (\<exists>err. dw_dial w j = Inl err))"
  using reconnect_waits [OF assms(1-3), of w 1 None]
    reconnect_outcome [of cfg w 1 "rc_BackoffBase cfg" None r] assms(4)
  by (simp add: ReconnectWithBackoff_def)

theorem reconnect_backoff_bounded_witness:
  "\<exists>r ws. ReconnectWithBackoff DefaultReconnectConfig
       \<lparr>dw_dial = (\<lambda>n. if n < 3 then Inl ''refused'' else Inr ''conn''), dw_done = (\<lambda>_. False), dw_done_wait = (\<lambda>_. False)\<rparr>
     = (r, ws) \<and> length ws \<le> 9 \<and> (\<forall>k < length ws. ws ! k = min (100000000 * 2 ^ k) 5000000000)"
proof -
  define w :: "string dial_world" where
    "w = \<lparr>dw_dial = (\<lambda>n. if n < 3 then Inl ''refused'' else Inr ''conn''), dw_done = (\<lambda>_. False), dw_done_wait = (\<lambda>_. False)\<rparr>"
  obtain r ws where "ReconnectWithBackoff DefaultReconnectConfig w = (r, ws)"
    by (cases "ReconnectWithBackoff DefaultReconnectConfig w")
  with reconnect_backoff_bounded [OF _ _ _ this] show ?thesis
    unfolding w_def by (auto simp: DefaultReconnectConfig_def)
qed

section \<open>The peer's view\<close>

text \<open>
  The peer is in step when the messages still in the channel bring its view to the cache's contents.
\<close>

definition in_step :: "ipc_link \<Rightarrow> bool" where
  "in_step l \<longleftrightarrow> fold peer_apply (c_out (lk_cache l)) (lk_peer l) = cache_abs (lk_cache l)"

text \<open>What loses a message: a full channel, a failed write, a clear that is interrupted.\<close>

definition full :: "ipc_link \<Rightarrow> bool" where
  "full l \<longleftrightarrow> c_buf (lk_cache l) \<le> length (c_out (lk_cache l))"

definition loses :: "link_event \<Rightarrow> ipc_link \<Rightarrow> bool" where
  "loses e l =
     (case e of
        LkSend now m \<Rightarrow> full l \<and> snd (cache_Send now m (lk_cache l))
      | LkClear \<Rightarrow> full l
      | LkClearStore \<Rightarrow> True
      | LkClearSend \<Rightarrow> True
      | LkConnect restarted \<Rightarrow> restarted
      | LkOut ok \<Rightarrow> \<not> ok
      | _ \<Rightarrow> False)"

text \<open>Clients send data messages only; then the store holds none of the control messages.\<close>

definition data_event :: "link_event \<Rightarrow> bool" where
  "data_event e = (case e of LkSend _ m \<Rightarrow> m_Type m \<noteq> TypeCacheClear | _ \<Rightarrow> True)"

definition link_inv :: "ipc_link \<Rightarrow> bool" where
  "link_inv l \<longleftrightarrow> cache_inv (lk_cache l) \<and> (\<forall>m \<in> set (cache_Snapshot (lk_cache l)). m_Type m \<noteq> TypeCacheClear)"

lemma writeSnapshot_set: "set (fst (writeSnapshot ok ms)) \<subseteq> set ms"
  by (induction ms) (auto simp: split_beta)

lemma cache_abs_Receive [simp]: "cache_abs (cache_Receive c) = cache_abs c"
  by (simp add: cache_abs_def cache_Receive_def fun_eq_iff)

lemma peer_apply_data: "m_Type m \<noteq> TypeCacheClear \<Longrightarrow> peer_apply m v = v(msg_key m \<mapsto> m_Values m)"
  by (simp add: peer_apply_def)

text \<open>Applying pending messages after telling the peer true values: the pending ones still decide.\<close>

lemma fold_peer_upd:
  "fold peer_apply pend (v(k \<mapsto> x)) = fold peer_apply pend v \<or>
   fold peer_apply pend (v(k \<mapsto> x)) = (fold peer_apply pend v)(k \<mapsto> x)"
proof (induction pend arbitrary: v)
  case (Cons m ms)
  show ?case
  proof (cases "m_Type m = TypeCacheClear \<or> msg_key m = k")
    case True
    then have "peer_apply m (v(k \<mapsto> x)) = peer_apply m v" by (auto simp: peer_apply_def)
    then show ?thesis by (simp del: fun_upd_apply)
  next
    case False
    then have "peer_apply m (v(k \<mapsto> x)) = (peer_apply m v)(k \<mapsto> x)"
      by (simp add: peer_apply_def fun_upd_twist)
    with Cons.IH [of "peer_apply m v"] show ?thesis by (simp only: fold_simps)
  qed
qed simp

lemma fold_peer_known:
  assumes "fold peer_apply pend v = f" "f k = Some x"
  shows "fold peer_apply pend (v(k \<mapsto> x)) = f"
  using fold_peer_upd [of pend v k x] assms by (metis fun_upd_triv)

lemma fold_snapshot:
  assumes "fold peer_apply pend v = f" "\<forall>m \<in> set ms. m_Type m \<noteq> TypeCacheClear \<and> f (msg_key m) = Some (m_Values m)"
  shows "fold peer_apply pend (fold peer_apply ms v) = f"
  using assms
proof (induction ms arbitrary: v)
  case (Cons m ms)
  then have "fold peer_apply pend (v(msg_key m \<mapsto> m_Values m)) = f" by (intro fold_peer_known) auto
  moreover have "m_Type m \<noteq> TypeCacheClear" using Cons.prems by simp
  ultimately have "fold peer_apply pend (peer_apply m v) = f" by (subst peer_apply_data)
  from Cons.IH [OF this] Cons.prems show ?case by (simp only: fold_simps) auto
qed simp

lemma snapshot_abs:
  assumes "cache_inv c" "m \<in> set (cache_Snapshot c)"
  shows "cache_abs c (msg_key m) = Some (m_Values m)"
proof -
  from assms(2) obtain k where "(k, m) \<in> set (c_store c)" by (auto simp: cache_Snapshot_def)
  with assms(1) show ?thesis by (auto simp: cache_inv_def cache_abs_def)
qed

lemma in_step_Send:
  assumes "in_step l" "m_Type m \<noteq> TypeCacheClear" "\<not> loses (LkSend now m) l"
  shows "in_step (l\<lparr>lk_cache := fst (cache_Send now m (lk_cache l))\<rparr>)"
proof (cases "snd (cache_Send now m (lk_cache l))")
  case True
  let ?c = "lk_cache l"
  from True assms(3) have "c_out (fst (cache_Send now m ?c)) = c_out ?c @ [stamp now m]"
    by (auto simp: loses_def full_def cache_Send_def Let_def offer_def split: if_splits)
  moreover have "peer_apply (stamp now m) v = v(msg_key m \<mapsto> m_Values m)" for v
    using peer_apply_data [of "stamp now m" v] assms(2) by simp
  ultimately show ?thesis
    using assms(1) by (simp add: in_step_def cache_abs_Send)
next
  case False
  then have "fst (cache_Send now m (lk_cache l)) = lk_cache l"
    by (auto simp: cache_Send_def Let_def split: if_splits)
  with assms(1) show ?thesis by simp
qed

lemma in_step_Clear:
  assumes "\<not> loses LkClear l"
  shows "in_step (l\<lparr>lk_cache := cache_Clear (lk_cache l)\<rparr>)"
  using assms
  by (simp add: in_step_def cache_abs_Clear)
    (simp add: loses_def full_def cache_Clear_def offer_def peer_apply_def)

lemma in_step_Out: "in_step l \<Longrightarrow> c_out (lk_cache l) \<noteq> [] \<Longrightarrow> in_step (serve_out True l)"
  by (cases "c_out (lk_cache l)") (simp_all add: in_step_def serve_out_def Let_def, simp add: cache_Receive_def)

lemma in_step_Incoming:
  assumes "in_step l" "link_inv l" "mset order = mset (cache_Snapshot (lk_cache l))"
  shows "in_step (serve_incoming msg order ok l)"
proof -
  have "set (fst (writeSnapshot ok order)) \<subseteq> set (cache_Snapshot (lk_cache l))"
    using writeSnapshot_set [of ok order] mset_eq_setD [OF assms(3)] by simp
  then have "\<forall>m \<in> set (fst (writeSnapshot ok order)).
      m_Type m \<noteq> TypeCacheClear \<and> cache_abs (lk_cache l) (msg_key m) = Some (m_Values m)"
    using assms(2) by (auto simp: link_inv_def snapshot_abs)
  with assms(1) show ?thesis
    by (auto simp: in_step_def serve_incoming_def Let_def split_beta intro!: fold_snapshot)
qed

lemma snapshot_Send:
  "set (cache_Snapshot (fst (cache_Send now m c))) \<subseteq> insert (stamp now m) (set (cache_Snapshot c))"
  using set_update_AList [of "msg_key m" "stamp now m" "c_store c"]
  by (auto simp: cache_Snapshot_def cache_Send_def Let_def)

lemma link_inv_step:
  assumes "link_inv l" "data_event e" "link_step e l = Some l'"
  shows "link_inv l'"
proof (cases e)
  case (LkSend now m)
  with assms snapshot_Send [of now m "lk_cache l"] show ?thesis
    by (fastforce simp: link_inv_def data_event_def cache_inv_Send)
next
  case LkClear
  with assms show ?thesis
    by (auto simp: link_inv_def cache_inv_Clear) (simp add: cache_Snapshot_def cache_Clear_def)
next
  case LkClearStore
  with assms show ?thesis
    by (auto simp: link_inv_def cache_inv_def clear_store_def cache_Snapshot_def)
next
  case LkClearSend
  with assms show ?thesis
    by (auto simp: link_inv_def cache_inv_def clear_send_def cache_Snapshot_def length_offer)
next
  case (LkIncoming msg order ok)
  with assms show ?thesis
    by (auto simp: link_inv_def serve_incoming_def Let_def split_beta split: if_splits)
next
  case (LkOut ok)
  with assms show ?thesis
    by (auto simp: link_inv_def serve_out_def Let_def cache_inv_Receive split: if_splits)
      (auto simp: cache_Snapshot_def cache_Receive_def)
qed (use assms in \<open>auto simp: link_inv_def split: if_splits\<close>)

lemma in_step_step:
  assumes "in_step l" "link_inv l" "data_event e" "\<not> loses e l" "link_step e l = Some l'"
  shows "in_step l'"
proof (cases e)
  case (LkSend now m)
  with assms show ?thesis by (auto simp: data_event_def intro: in_step_Send)
next
  case (LkIncoming msg order ok)
  with assms show ?thesis by (auto simp: in_step_Incoming split: if_splits)
next
  case (LkOut ok)
  with assms show ?thesis by (auto simp: in_step_Out loses_def split: if_splits)
next
  case LkClear
  with assms show ?thesis by (auto simp: in_step_Clear)
qed (use assms in \<open>auto simp: in_step_def loses_def split: if_splits\<close>)

text \<open>A run in which nothing is lost.\<close>

fun lossless :: "link_event list \<Rightarrow> ipc_link \<Rightarrow> bool" where
  "lossless [] l = True"
| "lossless (e # es) l =
     (data_event e \<and> \<not> loses e l \<and> (case link_step e l of Some l' \<Rightarrow> lossless es l' | None \<Rightarrow> True))"

lemma in_step_run:
  assumes "in_step l" "link_inv l" "lossless es l" "link_run es l = Some l'"
  shows "in_step l' \<and> link_inv l'"
  using assms
proof (induction es arbitrary: l)
  case (Cons e es)
  then show ?case
    by (auto split: option.splits intro: Cons.IH in_step_step link_inv_step)
qed simp

lemma link_inv_new: "link_inv (new_link n)" and in_step_new: "in_step (new_link n)"
  by (simp_all add: link_inv_def new_link_def cache_inv_New in_step_def fun_eq_iff cache_abs_def)
    (simp_all add: NewCache_def cache_Snapshot_def)

text \<open>
  C8. As long as nothing is lost (the channel never overflows, no write from it fails, no clear is
  cut in two, the peer does not restart), the peer's view agrees with the cache once the channel is
  drained, whatever the order of sends, clears, reconnections to the same peer and status requests,
  also those answered by half a snapshot.
\<close>

theorem peer_in_step:
  assumes "link_run es (new_link n) = Some l" "lossless es (new_link n)" "c_out (lk_cache l) = []"
  shows "lk_peer l = cache_abs (lk_cache l)"
  using in_step_run [OF in_step_new link_inv_new assms(2,1)] assms(3) by (simp add: in_step_def)

theorem peer_in_step_witness:
  "let m = \<lparr>m_Version = 1, m_Type = TypeSyncState, m_Timestamp = ''t'', m_Profile = ''p'', m_IFace = ''i'',
            m_Values = Some (SyncStateValue StateLocked)\<rparr>;
       es = [LkSend ''t'' m, LkConnect False, LkOut True];
       l = the (link_run es (new_link 2))
   in lk_peer l = cache_abs (lk_cache l)"
proof -
  define m where "m = \<lparr>m_Version = 1, m_Type = TypeSyncState, m_Timestamp = ''t'', m_Profile = ''p'', m_IFace = ''i'',
            m_Values = Some (SyncStateValue StateLocked)\<rparr>"
  define es where "es = [LkSend ''t'' m, LkConnect False, LkOut True]"
  obtain l where l: "link_run es (new_link 2) = Some l" "lossless es (new_link 2)" "c_out (lk_cache l) = []"
    by (simp add: es_def m_def new_link_def NewCache_def cache_Send_def stamp_def Let_def offer_def serve_out_def
        cache_Receive_def data_event_def loses_def full_def)
  from peer_in_step [OF l] l(1) show ?thesis by (simp add: m_def es_def Let_def)
qed

text \<open>A peer that starts afresh is brought up to date by its status request, if the channel is empty.\<close>

lemma snapshot_restores:
  assumes "cache_inv c" "\<forall>m \<in> set (cache_Snapshot c). m_Type m \<noteq> TypeCacheClear"
    and "mset order = mset (cache_Snapshot c)"
  shows "fold peer_apply order Map.empty = cache_abs c"
proof -
  have known: "\<forall>m \<in> set order. m_Type m \<noteq> TypeCacheClear \<and> cache_abs c (msg_key m) = Some (m_Values m)"
    using assms mset_eq_setD [OF assms(3)] by (auto simp: snapshot_abs)
  have *: "\<forall>m \<in> set ms. m_Type m \<noteq> TypeCacheClear \<and> cache_abs c (msg_key m) = Some (m_Values m) \<Longrightarrow>
      fold peer_apply ms v k = (if k \<in> msg_key ` set ms then cache_abs c k else v k)" for ms v k
    by (induction ms arbitrary: v) (auto simp: peer_apply_def)
  have "cache_abs c k = None" if "k \<notin> msg_key ` set order" for k
  proof (rule ccontr)
    assume "cache_abs c k \<noteq> None"
    then obtain m where "(k, m) \<in> set (c_store c)" by (auto simp: cache_abs_def dest: map_of_SomeD)
    with assms(1) have "msg_key m = k" "m \<in> set (cache_Snapshot c)"
      by (auto simp: cache_inv_def cache_Snapshot_def intro: rev_image_eqI)
    with that mset_eq_setD [OF assms(3)] show False by auto
  qed
  with * [OF known] show ?thesis by (auto simp: fun_eq_iff)
qed

interpretation link: stepper link_step link_run data_event link_inv
  by unfold_locales (auto intro: link_inv_step split: option.splits)

text \<open>
  Recovery: whatever was lost before, a status request from a peer that knows nothing, answered
  completely when no message waits in the channel, leaves the peer with exactly the cache's contents.
\<close>

lemma status_request_recovers:
  assumes "link_run es (new_link n) = Some l" "\<forall>e \<in> set es. data_event e"
    and "c_out (lk_cache l) = []" "lk_peer l = Map.empty" "m_Type msg = TypeStatusRequest"
    and "link_step (LkIncoming msg order (\<lambda>_. True)) l = Some l'"
  shows "lk_peer l' = cache_abs (lk_cache l') \<and> lk_cache l' = lk_cache l \<and> lk_conn l'"
proof -
  have "list_all data_event es" using assms(2) by (simp add: list_all_iff)
  from link.run_inv [OF link_inv_new this assms(1)] have "link_inv l" .
  have all: "writeSnapshot (\<lambda>_. True) ms = (ms, True)" for ms by (induction ms) auto
  have inv: "cache_inv (lk_cache l)" "\<forall>m \<in> set (cache_Snapshot (lk_cache l)). m_Type m \<noteq> TypeCacheClear"
    using \<open>link_inv l\<close> by (auto simp: link_inv_def)
  from assms(6) have order: "mset order = mset (cache_Snapshot (lk_cache l))"
    and l': "l' = serve_incoming msg order (\<lambda>_. True) l" by (auto split: if_splits)
  show ?thesis
    using snapshot_restores [OF inv order] assms(4,5) by (simp add: l' serve_incoming_def all)
qed

definition state_msg :: "string \<Rightarrow> message" where
  "state_msg s = \<lparr>m_Version = 1, m_Type = TypeSyncState, m_Timestamp = ''t'', m_Profile = ''p'', m_IFace = ''i'',
     m_Values = Some (SyncStateValue s)\<rparr>"

text \<open>
  With a message waiting in the channel, the status request does not recover what a full channel
  dropped: the snapshot is written first and the stale message after it, so the peer ends with
  the old state while the cache holds the new one (and suppresses it as a duplicate from then on).
\<close>

lemma stale_message_after_snapshot:
  "\<exists>l. link_run [LkSend ''t'' (state_msg StateFreerun), LkSend ''t'' (state_msg StateLocked), LkConnect True,
         LkIncoming (state_msg StateLocked\<lparr>m_Type := TypeStatusRequest\<rparr>) [state_msg StateLocked] (\<lambda>_. True),
         LkOut True, LkSend ''t'' (state_msg StateLocked)] (new_link 1) = Some l \<and>
     c_out (lk_cache l) = [] \<and> lk_conn l \<and>
     cache_abs (lk_cache l) (TypeSyncState, ''p'', ''i'') = Some (Some (SyncStateValue StateLocked)) \<and>
     lk_peer l (TypeSyncState, ''p'', ''i'') = Some (Some (SyncStateValue StateFreerun))"
  by (simp add: state_msg_def new_link_def NewCache_def cache_Send_def stamp_def Let_def offer_def
        serve_out_def cache_Receive_def ValuesEqual_iff msg_key_def serve_incoming_def cache_Snapshot_def
        peer_apply_def cache_abs_def)

end
