(* ===== verification/Supervisor.thy ===== *)
theory Supervisor
  imports Conditions
begin

text \<open>
  The process manager (\<open>pkg/daemon/process_manager.go\<close>): starting with retries, the processes that
  wait on a condition, the actions taken on events and at reconciliation, restarting what died,
  stopping everything. A process is named by its index in a table; a parent owns the indices of its
  dependent processes. The manager runs in one goroutine; the processes' own goroutines change
  their states between its steps, which is an operation of its own here, and, where it matters,
  between two reads of the same state.
\<close>

section \<open>Starting with retries\<close>

text \<open>
  One call: at the k-th turn of the loop, how much time has passed, whether the context is done,
  whether the timer has fired, which of the two the select takes when both are, and the state
  in which \<open>Start\<close> finds the process.
\<close>

record start_world =
  sw_elapsed :: "nat \<Rightarrow> int"
  sw_ctx :: "nat \<Rightarrow> bool"
  sw_fired :: "nat \<Rightarrow> bool"
  sw_pick_ctx :: "nat \<Rightarrow> bool"
  sw_state :: "nat \<Rightarrow> process_state"

datatype start_outcome =
    StartCancelled
  | StartTimeout nat "string option"
  | StartDone process_state

abbreviation processStartTimeout :: int where "processStartTimeout \<equiv> 10000000000"
abbreviation retrySleep :: int where "retrySleep \<equiv> 500000000"

text \<open>
  \<open>Start\<close> of a process, as every kind of process begins it: refused while stopping, nothing to do
  when it is starting or running. The state afterwards, or the error.
\<close>

fun start_gate :: "string \<Rightarrow> process_state \<Rightarrow> string + process_state" where
  "start_gate name Stopping = Inl (name @ '' is stopping'')"
| "start_gate name Starting = Inr Starting"
| "start_gate name Running = Inr Running"
| "start_gate name _ = Inr Starting"

partial_function (option) startProcessWithRetry ::
  "string \<Rightarrow> start_world \<Rightarrow> nat \<Rightarrow> string option \<Rightarrow> start_outcome option" where
  "startProcessWithRetry name w retryCount lastErr =
     (if sw_ctx w retryCount \<and> (sw_pick_ctx w retryCount \<or> \<not> sw_fired w retryCount) then Some StartCancelled
      else if sw_fired w retryCount then Some (StartTimeout retryCount lastErr)
      else case start_gate name (sw_state w retryCount) of
        Inl err \<Rightarrow> startProcessWithRetry name w (retryCount + 1) (Some err)
      | Inr s \<Rightarrow> Some (StartDone s))"

text \<open>What the clock and the timer guarantee: a sleep lasts at least its length, the timer fires in time.\<close>

definition clock_ok :: "int \<Rightarrow> start_world \<Rightarrow> bool" where
  "clock_ok timeout w \<longleftrightarrow> 0 \<le> sw_elapsed w 0 \<and> (\<forall>k. sw_elapsed w k + retrySleep \<le> sw_elapsed w (k + 1)) \<and>
     (\<forall>k. timeout \<le> sw_elapsed w k \<longrightarrow> sw_fired w k)"

lemma elapsed_lower:
  assumes "clock_ok timeout w"
  shows "int k * retrySleep \<le> sw_elapsed w k"
proof (induction k)
  case (Suc k)
  with assms show ?case by (auto simp: clock_ok_def algebra_simps dest: spec [of _ k])
qed (use assms in \<open>simp add: clock_ok_def\<close>)

lemma retry_from:
  assumes "clock_ok timeout w" "timeout \<le> int (retryCount + d) * retrySleep"
  shows "\<exists>r. startProcessWithRetry name w retryCount lastErr = Some r \<and>
    (case r of
       StartTimeout n e \<Rightarrow> retryCount \<le> n \<and> n \<le> retryCount + d \<and> (\<forall>k. retryCount \<le> k \<and> k < n \<longrightarrow> sw_state w k = Stopping)
     | StartDone s \<Rightarrow> \<exists>n \<ge> retryCount. n \<le> retryCount + d \<and> start_gate name (sw_state w n) = Inr s \<and>
         (\<forall>k. retryCount \<le> k \<and> k < n \<longrightarrow> sw_state w k = Stopping)
     | StartCancelled \<Rightarrow> \<exists>n \<ge> retryCount. n \<le> retryCount + d \<and> sw_ctx w n)"
  using assms(2)
proof (induction d arbitrary: retryCount lastErr)
  case 0
  then have "sw_fired w retryCount"
    using assms(1) elapsed_lower [OF assms(1), of retryCount] by (auto simp: clock_ok_def)
  then show ?case by (subst startProcessWithRetry.simps) auto
next
  case (Suc d)
  note [simp] = startProcessWithRetry.simps [of name w retryCount lastErr]
  show ?case
  proof (cases "sw_ctx w retryCount \<and> (sw_pick_ctx w retryCount \<or> \<not> sw_fired w retryCount) \<or> sw_fired w retryCount
      \<or> sw_state w retryCount \<noteq> Stopping")
    case True
    then show ?thesis by (cases "sw_state w retryCount") (auto intro!: exI [of _ retryCount])
  next
    case False
    then have eq: "startProcessWithRetry name w retryCount lastErr =
        startProcessWithRetry name w (retryCount + 1) (Some (name @ '' is stopping''))" by auto
    have "timeout \<le> int (retryCount + 1 + d) * retrySleep" using Suc.prems by simp
    from Suc.IH [OF this] obtain r where r:
      "startProcessWithRetry name w (retryCount + 1) (Some (name @ '' is stopping'')) = Some r"
      "case r of
       StartTimeout n e \<Rightarrow> retryCount + 1 \<le> n \<and> n \<le> retryCount + 1 + d \<and>
         (\<forall>k. retryCount + 1 \<le> k \<and> k < n \<longrightarrow> sw_state w k = Stopping)
     | StartDone s \<Rightarrow> \<exists>n \<ge> retryCount + 1. n \<le> retryCount + 1 + d \<and> start_gate name (sw_state w n) = Inr s \<and>
         (\<forall>k. retryCount + 1 \<le> k \<and> k < n \<longrightarrow> sw_state w k = Stopping)
     | StartCancelled \<Rightarrow> \<exists>n \<ge> retryCount + 1. n \<le> retryCount + 1 + d \<and> sw_ctx w n"
      by blast
    have split: "retryCount \<le> k \<longleftrightarrow> k = retryCount \<or> retryCount + 1 \<le> k" for k by auto
    show ?thesis
      unfolding eq using r False by (intro exI [of _ r]) (auto simp: split split: start_outcome.splits)
  qed
qed

text \<open>
  Starting a process always returns: given a clock that does not run backwards, after at most
  twenty attempts (ten seconds, half a second apart) the call has been cancelled, has timed out having
  found the process stopping at every attempt, or has found it startable at the first attempt
  that did not find it stopping.
\<close>

lemma start_terminates:
  assumes "clock_ok processStartTimeout w"
  shows "\<exists>r. startProcessWithRetry name w 0 None = Some r \<and>
    (case r of
       StartTimeout n e \<Rightarrow> n \<le> 20 \<and> (\<forall>k < n. sw_state w k = Stopping)
     | StartDone s \<Rightarrow> \<exists>n \<le> 20. start_gate name (sw_state w n) = Inr s \<and> (\<forall>k < n. sw_state w k = Stopping)
     | StartCancelled \<Rightarrow> \<exists>n \<le> 20. sw_ctx w n)"
proof -
  have "processStartTimeout \<le> int (0 + 20) * retrySleep" by simp
  from retry_from [OF assms this, of name None] obtain r where
    "startProcessWithRetry name w 0 None = Some r" "case r of
       StartTimeout n e \<Rightarrow> 0 \<le> n \<and> n \<le> 0 + 20 \<and> (\<forall>k. 0 \<le> k \<and> k < n \<longrightarrow> sw_state w k = Stopping)
     | StartDone s \<Rightarrow> \<exists>n \<ge> 0. n \<le> 0 + 20 \<and> start_gate name (sw_state w n) = Inr s \<and>
         (\<forall>k. 0 \<le> k \<and> k < n \<longrightarrow> sw_state w k = Stopping)
     | StartCancelled \<Rightarrow> \<exists>n \<ge> 0. n \<le> 0 + 20 \<and> sw_ctx w n"
    by blast
  then show ?thesis by (cases r) auto
qed

section \<open>The manager\<close>

record managed =
  g_Name :: string
  g_ConfigName :: string
  g_conds :: "(action \<Rightarrow> condition option) option"
  g_state :: process_state
  g_has_profile :: bool
  g_is_ptp :: bool
  g_collected :: bool

datatype manager_act =
    ActPlugin nat
  | ActSync nat
  | ActStopped nat
  | ActForward event
  | ActMetric nat int
  | ActDeleteMetrics nat

text \<open>
  \<open>pm_statsIn\<close> is the channel of snapshots: nil, or what is queued in it (\<open>None\<close> when it is
  closed). \<open>pm_log\<close> collects what the manager does besides starting processes, latest first.
\<close>

record manager =
  pm_process :: "(nat \<times> nat list) list"
  pm_tab :: "nat \<Rightarrow> managed"
  pm_waiting :: "nat list"
  pm_latest :: event_stats
  pm_statsIn :: "event_stats option list option"
  pm_daemon :: bool
  pm_once :: bool
  pm_log :: "manager_act list"

definition empty_stats :: event_stats where
  "empty_stats = \<lparr>es_Windows = [], es_States = [], es_ClockStates = [], es_OSClockState = PTP_EMPTY, es_OSClockE3State = PTP_EMPTY\<rparr>"

text \<open>\<open>forEachProcess\<close>: the order in which the processes are visited.\<close>

definition visit_order :: "manager \<Rightarrow> nat list" where
  "visit_order pm = concat (map (\<lambda>(p, ds). ds @ [p]) (pm_process pm))"

definition findProcessesByName :: "string \<Rightarrow> manager \<Rightarrow> nat list" where
  "findProcessesByName name pm = filter (\<lambda>i. g_Name (pm_tab pm i) = name) (map fst (pm_process pm))"

definition upd_proc :: "nat \<Rightarrow> (managed \<Rightarrow> managed) \<Rightarrow> manager \<Rightarrow> manager" where
  "upd_proc i f pm = pm\<lparr>pm_tab := (pm_tab pm)(i := f (pm_tab pm i))\<rparr>"

definition log_act :: "manager_act \<Rightarrow> manager \<Rightarrow> manager" where
  "log_act a pm = pm\<lparr>pm_log := a # pm_log pm\<rparr>"

text \<open>\<open>GetCondition\<close> with a nil fallback.\<close>

definition has_condition :: "managed \<Rightarrow> action \<Rightarrow> bool" where
  "has_condition m a \<longleftrightarrow>
     (case g_conds m of None \<Rightarrow> False
      | Some f \<Rightarrow> f a \<noteq> None \<or> a = ActionRestart \<and> f ActionStart \<noteq> None)"

definition waitingOnCondition :: "managed \<Rightarrow> bool" where
  "waitingOnCondition m =
     (case g_state m of
        Created \<Rightarrow> has_condition m ActionStart
      | Stopping \<Rightarrow> has_condition m ActionRestart
      | Stopped \<Rightarrow> has_condition m ActionRestart
      | Dead \<Rightarrow> has_condition m ActionRestart
      | Starting \<Rightarrow> has_condition m ActionStop
      | Running \<Rightarrow> has_condition m ActionStop)"

definition getWaitingProcesses :: "manager \<Rightarrow> nat list" where
  "getWaitingProcesses pm = filter (\<lambda>i. waitingOnCondition (pm_tab pm i)) (visit_order pm)"

definition refresh_waiting :: "manager \<Rightarrow> manager" where
  "refresh_waiting pm = pm\<lparr>pm_waiting := getWaitingProcesses pm\<rparr>"

definition sourceProcessUp :: "manager \<Rightarrow> string \<Rightarrow> string \<Rightarrow> bool" where
  "sourceProcessUp pm name cfg =
     list_ex (\<lambda>i. g_Name (pm_tab pm i) = name \<and> (cfg = '''' \<or> g_ConfigName (pm_tab pm i) = cfg) \<and>
                  g_state (pm_tab pm i) \<in> {Starting, Running}) (visit_order pm)"

text \<open>\<open>stateTransitionAction\<close>; \<open>None\<close> is the panic of the default case.\<close>

fun stateTransitionAction :: "process_state \<Rightarrow> (action \<times> condition) option" where
  "stateTransitionAction Created = Some (ActionStart, Immediate '''')"
| "stateTransitionAction Dead = Some (ActionRestart, Immediate '''')"
| "stateTransitionAction Stopped = Some (ActionRestart, Never)"
| "stateTransitionAction Running = Some (ActionStop, Never)"
| "stateTransitionAction _ = None"

section \<open>Starting and stopping through the manager\<close>

text \<open>
  \<open>startProcess\<close>; \<open>o\<close> is the outcome of \<open>startProcessWithRetry\<close>. A cancelled start returns no error,
  so what follows a successful start follows it too.
\<close>

definition set_started :: "start_outcome \<Rightarrow> managed \<Rightarrow> managed" where
  "set_started out m = (case out of StartDone s \<Rightarrow> m\<lparr>g_state := s\<rparr> | _ \<Rightarrow> m)"

definition after_start :: "nat \<Rightarrow> manager \<Rightarrow> manager" where
  "after_start i pm =
     log_act (ActSync i)
       (if pm_daemon pm \<and> g_has_profile (pm_tab pm i) then log_act (ActPlugin i) pm else pm)"

definition startProcess :: "start_outcome \<Rightarrow> nat \<Rightarrow> manager \<Rightarrow> manager" where
  "startProcess out i pm =
     (case out of StartTimeout _ _ \<Rightarrow> pm
      | _ \<Rightarrow> after_start i (upd_proc i (set_started out) pm))"

text \<open>\<open>Stop\<close> of a process, as every kind of process begins it.\<close>

definition set_stopped :: "managed \<Rightarrow> managed" where
  "set_stopped m = (if g_state m \<in> {Created, Stopping, Stopped, Dead} then m else m\<lparr>g_state := Stopping\<rparr>)"

definition stopProcess :: "nat \<Rightarrow> manager \<Rightarrow> manager" where
  "stopProcess i pm = log_act (ActStopped i) (upd_proc i set_stopped pm)"

text \<open>\<open>StartProcesses\<close>; \<open>outs\<close> gives the outcome of starting each process.\<close>

definition start_immediate :: "managed \<Rightarrow> bool" where
  "start_immediate m \<longleftrightarrow> g_state m \<in> {Created, Stopped} \<and>
     (case GetCondition (g_conds m) ActionStart (Immediate '''') of Immediate _ \<Rightarrow> True | _ \<Rightarrow> False)"

definition start_one :: "(nat \<Rightarrow> start_outcome) \<Rightarrow> nat \<Rightarrow> manager \<Rightarrow> manager" where
  "start_one outs i pm = (if start_immediate (pm_tab pm i) then startProcess (outs i) i pm else pm)"

definition StartProcesses :: "(nat \<Rightarrow> start_outcome) \<Rightarrow> manager \<Rightarrow> manager" where
  "StartProcesses outs pm =
     (let pm1 = fold (start_one outs) (visit_order pm) (refresh_waiting pm)
      in (refresh_waiting pm1)\<lparr>pm_once := True\<rparr>)"

text \<open>\<open>stopAllProcesses\<close>: the dependent processes in reverse, then their parent.\<close>

definition stop_parent :: "nat \<times> nat list \<Rightarrow> manager \<Rightarrow> manager" where
  "stop_parent pd pm =
     (let (p, ds) = pd; pm1 = stopProcess p (fold stopProcess (rev ds) pm)
      in if g_is_ptp (pm_tab pm1 p)
         then log_act (ActDeleteMetrics p) (upd_proc p (\<lambda>m. m\<lparr>g_collected := False\<rparr>)
                (pm1\<lparr>pm_process := map (\<lambda>(q, es). if q = p then (q, []) else (q, es)) (pm_process pm1)\<rparr>))
         else pm1)"

definition stopAllProcesses :: "manager \<Rightarrow> manager" where
  "stopAllProcesses pm = fold stop_parent (pm_process pm) pm"

section \<open>Acting on events\<close>

text \<open>The condition of an action, evaluated; what it remembers is kept where it was found.\<close>

definition store_condition :: "action \<Rightarrow> condition \<Rightarrow> managed \<Rightarrow> managed" where
  "store_condition a c m =
     m\<lparr>g_conds := map_option (\<lambda>f. if f a \<noteq> None then f(a \<mapsto> c)
                                else if a = ActionRestart \<and> f ActionStart \<noteq> None then f(ActionStart \<mapsto> c) else f)
                  (g_conds m)\<rparr>"

text \<open>
  One turn of the loop of \<open>evalActions\<close>. \<open>seen i\<close> is the state another goroutine gives the process
  between the guard and \<open>stateTransitionAction\<close>, if it does. The second result says whether
  something was done; the whole is \<open>None\<close> for a panic.
\<close>

definition between :: "(nat \<Rightarrow> process_state option) \<Rightarrow> nat \<Rightarrow> manager \<Rightarrow> manager" where
  "between seen i pm = (case seen i of None \<Rightarrow> pm | Some s \<Rightarrow> upd_proc i (\<lambda>m. m\<lparr>g_state := s\<rparr>) pm)"

definition eval_one ::
  "(nat \<Rightarrow> start_outcome) \<Rightarrow> (nat \<Rightarrow> process_state option) \<Rightarrow> event \<Rightarrow> nat \<Rightarrow> manager \<Rightarrow> (manager \<times> bool) option" where
  "eval_one outs seen ev i pm =
     (if g_state (pm_tab pm i) \<in> {Starting, Stopping} then Some (pm, False)
      else
        (let pm1 = between seen i pm; m = pm_tab pm1 i in
         case stateTransitionAction (g_state m) of
           None \<Rightarrow> None
         | Some (a, dflt) \<Rightarrow>
             (let (c, met) = Met ev empty_stats (GetCondition (g_conds m) a dflt);
                  pm2 = upd_proc i (store_condition a c) pm1
              in if \<not> met then Some (pm2, False)
                 else if a = ActionStop then Some (stopProcess i pm2, True)
                 else Some (startProcess (outs i) i pm2, True))))"

fun eval_loop :: "(nat \<Rightarrow> manager \<Rightarrow> (manager \<times> bool) option) \<Rightarrow> nat list \<Rightarrow> manager \<Rightarrow> (manager \<times> bool) option" where
  "eval_loop f [] pm = Some (pm, False)"
| "eval_loop f (i # is) pm =
     (case f i pm of None \<Rightarrow> None
      | Some (pm1, b) \<Rightarrow> (case eval_loop f is pm1 of None \<Rightarrow> None | Some (pm2, b2) \<Rightarrow> Some (pm2, b \<or> b2)))"

definition run_loop :: "(nat \<Rightarrow> manager \<Rightarrow> (manager \<times> bool) option) \<Rightarrow> manager \<Rightarrow> manager option" where
  "run_loop f pm =
     (case eval_loop f (pm_waiting pm) pm of None \<Rightarrow> None
      | Some (pm1, b) \<Rightarrow> Some (if b then refresh_waiting pm1 else pm1))"

definition evalActions ::
  "(nat \<Rightarrow> start_outcome) \<Rightarrow> (nat \<Rightarrow> process_state option) \<Rightarrow> event \<Rightarrow> manager \<Rightarrow> manager option" where
  "evalActions outs seen ev pm = run_loop (eval_one outs seen ev) (refresh_waiting pm)"

section \<open>Reconciling with the current state\<close>

definition take_stats :: "manager \<Rightarrow> manager" where
  "take_stats pm =
     (case pm_statsIn pm of
        Some (Some st # rest) \<Rightarrow> pm\<lparr>pm_latest := st, pm_statsIn := Some rest\<rparr>
      | Some (None # _) \<Rightarrow> pm\<lparr>pm_statsIn := None, pm_latest := empty_stats\<rparr>
      | _ \<Rightarrow> pm)"

definition reconcile_one ::
  "(nat \<Rightarrow> start_outcome) \<Rightarrow> (nat \<Rightarrow> process_state option) \<Rightarrow> nat \<Rightarrow> manager \<Rightarrow> (manager \<times> bool) option" where
  "reconcile_one outs seen i pm =
     (if g_state (pm_tab pm i) \<in> {Starting, Stopping} then Some (pm, False)
      else
        (let pm1 = between seen i pm; m = pm_tab pm1 i in
         case stateTransitionAction (g_state m) of
           None \<Rightarrow> None
         | Some (a, dflt) \<Rightarrow>
             (let cond = GetCondition (g_conds m) a dflt
              in if \<not> state_aware cond then Some (pm1, False)
                 else
                   (let (c, met) = MetByCurrentState (Some (sourceProcessUp pm1)) (pm_latest pm1) cond;
                        pm2 = upd_proc i (store_condition a c) pm1
                    in if \<not> met then Some (pm2, False)
                       else if a = ActionStop then Some (stopProcess i pm2, True)
                       else Some (startProcess (outs i) i pm2, True)))))"

definition reconcileWaiting ::
  "bool \<Rightarrow> (nat \<Rightarrow> start_outcome) \<Rightarrow> (nat \<Rightarrow> process_state option) \<Rightarrow> manager \<Rightarrow> manager option" where
  "reconcileWaiting ctx_done outs seen pm =
     (if ctx_done then Some pm
      else run_loop (reconcile_one outs seen) (take_stats (refresh_waiting pm)))"

section \<open>Events of processes\<close>

definition matches_event :: "event \<Rightarrow> managed \<Rightarrow> bool" where
  "matches_event ev m \<longleftrightarrow> g_Name m = ev_Source ev \<and> g_ConfigName m = ev_CfgName ev"

definition findProcess :: "event \<Rightarrow> manager \<Rightarrow> nat option" where
  "findProcess ev pm =
     find (\<lambda>i. matches_event ev (pm_tab pm i)) (concat (map (\<lambda>(p, ds). p # ds) (pm_process pm)))"

definition handleProcessDown :: "bool \<Rightarrow> (nat \<Rightarrow> start_outcome) \<Rightarrow> event \<Rightarrow> manager \<Rightarrow> manager" where
  "handleProcessDown ctx_done outs ev pm =
     (case findProcess ev pm of None \<Rightarrow> pm
      | Some i \<Rightarrow>
          if g_state (pm_tab pm i) \<noteq> Dead then pm
          else if ctx_done then pm
          else upd_proc i (set_started (outs i)) pm)"

text \<open>
  One turn of \<open>processEvents\<close>: the event received, or the snapshot (\<open>None\<close> when its channel is closed),
  or the tick. \<open>fwd\<close> says that the forwarded event was accepted before the context ended. A turn
  with \<open>False\<close> as second result is the last one.
\<close>

datatype manager_input = InEvent event | InClosed | InStats "event_stats option" | InTick | InDone

record turn_world =
  tw_ctx_done :: bool
  tw_fwd :: bool
  tw_outs_down :: "nat \<Rightarrow> start_outcome"
  tw_outs :: "nat \<Rightarrow> start_outcome"
  tw_seen :: "nat \<Rightarrow> process_state option"

definition first_waiting :: "manager \<Rightarrow> manager" where
  "first_waiting pm = (if pm_waiting pm = [] then refresh_waiting pm else pm)"

definition on_status :: "turn_world \<Rightarrow> event \<Rightarrow> int \<Rightarrow> manager \<Rightarrow> manager" where
  "on_status w ev status pm =
     (let pm1 = (case findProcess ev pm of None \<Rightarrow> pm | Some i \<Rightarrow> log_act (ActMetric i status) pm)
      in if status = 0 then handleProcessDown (tw_ctx_done w) (tw_outs_down w) ev pm1 else pm1)"

definition processEvents_turn :: "turn_world \<Rightarrow> manager_input \<Rightarrow> manager \<Rightarrow> (manager \<times> bool) option" where
  "processEvents_turn w inp pm =
     (case inp of
        InDone \<Rightarrow> Some (pm, False)
      | InClosed \<Rightarrow> Some (pm, False)
      | InEvent ev \<Rightarrow>
          (case ev_Data ev of
             Some (ProcessStatusData status) \<Rightarrow>
               map_option (\<lambda>pm'. (pm', True)) (evalActions (tw_outs w) (tw_seen w) ev (on_status w ev status pm))
           | _ \<Rightarrow>
               if tw_fwd w
               then map_option (\<lambda>pm'. (pm', True)) (evalActions (tw_outs w) (tw_seen w) ev (log_act (ActForward ev) pm))
               else Some (pm, False))
      | InStats None \<Rightarrow> Some (pm\<lparr>pm_statsIn := None, pm_latest := empty_stats\<rparr>, True)
      | InStats (Some st) \<Rightarrow>
          map_option (\<lambda>pm'. (pm', True)) (reconcileWaiting (tw_ctx_done w) (tw_outs w) (tw_seen w) (pm\<lparr>pm_latest := st\<rparr>))
      | InTick \<Rightarrow>
          map_option (\<lambda>pm'. (pm', True)) (reconcileWaiting (tw_ctx_done w) (tw_outs w) (tw_seen w) pm))"

section \<open>Each process is decided by itself\<close>

text \<open>
  What one evaluation does to a process, as a function of that process alone: the reference the
  manager's loops are compared with.
\<close>

definition decide ::
  "(condition \<Rightarrow> condition \<times> bool) \<Rightarrow> (condition \<Rightarrow> bool) \<Rightarrow> start_outcome \<Rightarrow> managed \<Rightarrow> managed" where
  "decide eval relevant out m =
     (case stateTransitionAction (g_state m) of
        None \<Rightarrow> m
      | Some (a, dflt) \<Rightarrow>
          (let cond = GetCondition (g_conds m) a dflt in
           if \<not> waitingOnCondition m \<or> \<not> relevant cond then m
           else (let (c, met) = eval cond; m1 = store_condition a c m
                 in if \<not> met then m1
                    else if a = ActionStop then set_stopped m1
                    else set_started out m1)))"

lemma upd_proc_simps [simp]:
  "pm_tab (upd_proc i f pm) = (pm_tab pm)(i := f (pm_tab pm i))"
  "pm_process (upd_proc i f pm) = pm_process pm" "pm_waiting (upd_proc i f pm) = pm_waiting pm"
  "pm_latest (upd_proc i f pm) = pm_latest pm" "pm_statsIn (upd_proc i f pm) = pm_statsIn pm"
  by (simp_all add: upd_proc_def)

lemma log_act_simps [simp]:
  "pm_tab (log_act a pm) = pm_tab pm" "pm_process (log_act a pm) = pm_process pm"
  "pm_waiting (log_act a pm) = pm_waiting pm" "pm_latest (log_act a pm) = pm_latest pm"
  "pm_statsIn (log_act a pm) = pm_statsIn pm"
  by (simp_all add: log_act_def)

lemma refresh_simps [simp]:
  "pm_tab (refresh_waiting pm) = pm_tab pm" "pm_process (refresh_waiting pm) = pm_process pm"
  "pm_latest (refresh_waiting pm) = pm_latest pm"
  "pm_waiting (refresh_waiting pm) = getWaitingProcesses pm"
  by (simp_all add: refresh_waiting_def)

lemma startProcess_tab [simp]:
  "pm_tab (startProcess out i pm) = (pm_tab pm)(i := set_started out (pm_tab pm i))"
  "pm_latest (startProcess out i pm) = pm_latest pm" "pm_process (startProcess out i pm) = pm_process pm"
  by (auto simp: startProcess_def after_start_def set_started_def fun_eq_iff split: start_outcome.splits)

lemma stopProcess_tab [simp]:
  "pm_tab (stopProcess i pm) = (pm_tab pm)(i := set_stopped (pm_tab pm i))"
  "pm_latest (stopProcess i pm) = pm_latest pm" "pm_process (stopProcess i pm) = pm_process pm"
  by (simp_all add: stopProcess_def)

lemma stateTransitionAction_None: "stateTransitionAction s = None \<longleftrightarrow> s \<in> {Starting, Stopping}"
  by (cases s) auto

text \<open>One turn of each loop, when no other goroutine interferes.\<close>

lemma eval_one_decide:
  assumes "seen i = None" "waitingOnCondition (pm_tab pm i)"
  shows "\<exists>pm' b. eval_one outs seen ev i pm = Some (pm', b) \<and>
    pm_tab pm' = (pm_tab pm)(i := decide (Met ev empty_stats) (\<lambda>_. True) (outs i) (pm_tab pm i)) \<and>
    pm_process pm' = pm_process pm \<and> pm_latest pm' = pm_latest pm"
proof (cases "g_state (pm_tab pm i) \<in> {Starting, Stopping}")
  case True
  then show ?thesis by (cases "g_state (pm_tab pm i)") (auto simp: eval_one_def decide_def)
next
  case False
  then obtain a d where "stateTransitionAction (g_state (pm_tab pm i)) = Some (a, d)"
    using stateTransitionAction_None by fastforce
  with False assms show ?thesis
    by (auto simp: eval_one_def decide_def between_def Let_def split_beta)
qed

lemma reconcile_one_decide:
  assumes "seen i = None" "waitingOnCondition (pm_tab pm i)"
  shows "\<exists>pm' b. reconcile_one outs seen i pm = Some (pm', b) \<and>
    pm_tab pm' = (pm_tab pm)(i := decide (MetByCurrentState (Some (sourceProcessUp pm)) (pm_latest pm)) state_aware
                                   (outs i) (pm_tab pm i)) \<and>
    pm_process pm' = pm_process pm \<and> pm_latest pm' = pm_latest pm"
proof (cases "g_state (pm_tab pm i) \<in> {Starting, Stopping}")
  case True
  then show ?thesis by (cases "g_state (pm_tab pm i)") (auto simp: reconcile_one_def decide_def)
next
  case False
  then obtain a d where "stateTransitionAction (g_state (pm_tab pm i)) = Some (a, d)"
    using stateTransitionAction_None by fastforce
  with False assms show ?thesis
    by (auto simp: reconcile_one_def decide_def between_def Let_def split_beta)
qed

text \<open>A loop whose turns decide one process each decides every process once.\<close>

lemma eval_loop_decide:
  assumes "\<And>i q. i \<in> set is \<Longrightarrow> pm_tab q i = pm_tab pm i \<Longrightarrow> pm_latest q = pm_latest pm \<Longrightarrow>
      \<exists>pm' b. f i q = Some (pm', b) \<and> pm_tab pm' = (pm_tab q)(i := d i (pm_tab pm i)) \<and>
        pm_process pm' = pm_process q \<and> pm_latest pm' = pm_latest q"
    and "distinct is" "\<And>i. i \<in> set is \<Longrightarrow> pm_tab q i = pm_tab pm i" "pm_latest q = pm_latest pm"
  shows "\<exists>pm' b. eval_loop f is q = Some (pm', b) \<and>
    pm_tab pm' = (\<lambda>i. if i \<in> set is then d i (pm_tab pm i) else pm_tab q i) \<and> pm_process pm' = pm_process q"
  using assms
proof (induction "is" arbitrary: q)
  case (Cons i "is")
  have "\<exists>q1 b. f i q = Some (q1, b) \<and> pm_tab q1 = (pm_tab q)(i := d i (pm_tab pm i)) \<and>
      pm_process q1 = pm_process q \<and> pm_latest q1 = pm_latest q"
    by (rule Cons.prems(1)) (simp_all add: Cons.prems(3,4))
  then obtain q1 b where q1: "f i q = Some (q1, b)"
    "pm_tab q1 = (pm_tab q)(i := d i (pm_tab pm i))" "pm_process q1 = pm_process q" "pm_latest q1 = pm_latest q"
    by blast
  have "\<exists>pm' b. eval_loop f is q1 = Some (pm', b) \<and>
      pm_tab pm' = (\<lambda>j. if j \<in> set is then d j (pm_tab pm j) else pm_tab q1 j) \<and> pm_process pm' = pm_process q1"
    using Cons.prems q1 by (intro Cons.IH) auto
  then obtain pm' b' where r: "eval_loop f is q1 = Some (pm', b')"
    "pm_tab pm' = (\<lambda>j. if j \<in> set is then d j (pm_tab pm j) else pm_tab q1 j)" "pm_process pm' = pm_process q1"
    by blast
  have "eval_loop f (i # is) q = Some (pm', b \<or> b')" by (simp add: q1(1) r(1))
  moreover have "pm_tab pm' = (\<lambda>j. if j \<in> set (i # is) then d j (pm_tab pm j) else pm_tab q j)"
    using Cons.prems(2) by (auto simp: r(2) q1(2))
  moreover have "pm_process pm' = pm_process q" using r(3) q1(3) by simp
  ultimately show ?case by blast
qed (auto intro: exI [of _ False])

text \<open>
  C17. An event is evaluated for every waiting process by itself: if no other goroutine changes a state
  meanwhile, \<open>evalActions\<close> does not panic, and it leaves every process of the manager exactly as
  deciding that process alone would (what it starts or stops for one process cannot influence
  what it does for another), and everything else unchanged.
\<close>

theorem evalActions_pointwise:
  assumes "distinct (visit_order pm)"
  shows "\<exists>pm'. evalActions outs (\<lambda>_. None) ev pm = Some pm' \<and> pm_process pm' = pm_process pm \<and>
    (\<forall>i. pm_tab pm' i = (if i \<in> set (visit_order pm)
            then decide (Met ev empty_stats) (\<lambda>_. True) (outs i) (pm_tab pm i) else pm_tab pm i))"
proof -
  let ?w = "getWaitingProcesses pm" and ?d = "\<lambda>i. decide (Met ev empty_stats) (\<lambda>_. True) (outs i)"
  have turn: "\<exists>pm' b. eval_one outs (\<lambda>_. None) ev i q = Some (pm', b) \<and>
      pm_tab pm' = (pm_tab q)(i := ?d i (pm_tab pm i)) \<and> pm_process pm' = pm_process q \<and> pm_latest pm' = pm_latest q"
    if "i \<in> set ?w" "pm_tab q i = pm_tab pm i" for i q
    using eval_one_decide [of "\<lambda>_. None" i q outs ev] that by (simp add: getWaitingProcesses_def)
  have dist: "distinct ?w" using assms by (simp add: getWaitingProcesses_def)
  have "\<exists>pm' b. eval_loop (eval_one outs (\<lambda>_. None) ev) ?w (refresh_waiting pm) = Some (pm', b) \<and>
    pm_tab pm' = (\<lambda>i. if i \<in> set ?w then ?d i (pm_tab pm i) else pm_tab (refresh_waiting pm) i) \<and>
    pm_process pm' = pm_process (refresh_waiting pm)"
    by (rule eval_loop_decide [where d = ?d and pm = pm, OF turn dist]) simp_all
  then obtain pm' b where r: "eval_loop (eval_one outs (\<lambda>_. None) ev) ?w (refresh_waiting pm) = Some (pm', b)"
    "pm_tab pm' = (\<lambda>i. if i \<in> set ?w then ?d i (pm_tab pm i) else pm_tab pm i)" "pm_process pm' = pm_process pm"
    unfolding refresh_simps by blast
  have "pm_tab pm' i = (if i \<in> set (visit_order pm) then ?d i (pm_tab pm i) else pm_tab pm i)" for i
    by (auto simp: r(2) getWaitingProcesses_def decide_def split: option.splits prod.splits)
  with r show ?thesis by (auto simp: evalActions_def run_loop_def)
qed

text \<open>The same for reconciliation, when the context is not done.\<close>

lemma take_stats_simps [simp]:
  "pm_tab (take_stats pm) = pm_tab pm" "pm_process (take_stats pm) = pm_process pm"
  "pm_waiting (take_stats pm) = pm_waiting pm"
  by (auto simp: take_stats_def split: option.splits list.splits)

lemma reconcile_one_start:
  assumes "seen i = None" "waitingOnCondition (pm_tab pm i)" "g_state (pm_tab pm i) = Created"
    and "f ActionStart = Some (OnProcessUp cfg src)" "g_conds (pm_tab pm i) = Some f" "outs i = StartDone Starting"
    and "sourceProcessUp pm src cfg"
  shows "decide (MetByCurrentState (Some (sourceProcessUp pm)) (pm_latest pm)) state_aware (outs i) (pm_tab pm i)
    = (pm_tab pm i)\<lparr>g_state := Starting\<rparr>"
proof -
  have "f(ActionStart \<mapsto> OnProcessUp cfg src) = f" using assms(4) by (simp add: fun_upd_idem)
  then show ?thesis
    using assms by (simp add: decide_def GetCondition_def store_condition_def set_started_def)
qed

text \<open>What a source that is up stays while others are started.\<close>

lemma sourceProcessUp_mono:
  assumes "sourceProcessUp pm src cfg" "visit_order q = visit_order pm"
    and "\<And>j. g_Name (pm_tab q j) = g_Name (pm_tab pm j) \<and> g_ConfigName (pm_tab q j) = g_ConfigName (pm_tab pm j)"
    and "\<And>j. g_state (pm_tab pm j) \<in> {Starting, Running} \<Longrightarrow> g_state (pm_tab q j) \<in> {Starting, Running}"
  shows "sourceProcessUp q src cfg"
  using assms(1) unfolding sourceProcessUp_def assms(2) list_ex_iff using assms(3,4) by metis

section \<open>Panics\<close>

definition race :: "(nat \<Rightarrow> process_state option) \<Rightarrow> manager \<Rightarrow> nat \<Rightarrow> bool" where
  "race seen pm i \<longleftrightarrow> waitingOnCondition (pm_tab pm i) \<and> g_state (pm_tab pm i) \<notin> {Starting, Stopping} \<and>
     (\<exists>s. seen i = Some s \<and> s \<in> {Starting, Stopping})"

lemma eval_one_None:
  "eval_one outs seen ev i pm = None \<longleftrightarrow>
     g_state (pm_tab pm i) \<notin> {Starting, Stopping} \<and> (\<exists>s. seen i = Some s \<and> s \<in> {Starting, Stopping})"
proof (cases "g_state (pm_tab pm i) \<in> {Starting, Stopping}")
  case False
  let ?s = "g_state (pm_tab (between seen i pm) i)"
  have s: "?s = (case seen i of None \<Rightarrow> g_state (pm_tab pm i) | Some s \<Rightarrow> s)"
    by (simp add: between_def split: option.splits)
  have "eval_one outs seen ev i pm = None \<longleftrightarrow> stateTransitionAction ?s = None"
    using False by (auto simp: eval_one_def Let_def split_beta split: option.splits)
  with s False show ?thesis by (auto simp: stateTransitionAction_None split: option.splits)
qed (auto simp: eval_one_def)

lemma eval_one_other:
  "eval_one outs seen ev i pm = Some (pm', b) \<Longrightarrow> j \<noteq> i \<Longrightarrow> pm_tab pm' j = pm_tab pm j"
  by (auto simp: eval_one_def Let_def split_beta between_def split: if_splits option.splits)

lemma eval_loop_None:
  assumes "distinct is"
  shows "eval_loop (eval_one outs seen ev) is pm = None \<longleftrightarrow>
    (\<exists>i \<in> set is. g_state (pm_tab pm i) \<notin> {Starting, Stopping} \<and> (\<exists>s. seen i = Some s \<and> s \<in> {Starting, Stopping}))"
  using assms
proof (induction "is" arbitrary: pm)
  case (Cons i "is")
  show ?case
  proof (cases "eval_one outs seen ev i pm")
    case None
    then show ?thesis using eval_one_None [of outs seen ev i pm] by auto
  next
    case (Some r)
    obtain pm1 b where r: "r = (pm1, b)" by fastforce
    have no: "\<not> (g_state (pm_tab pm i) \<notin> {Starting, Stopping} \<and> (\<exists>s. seen i = Some s \<and> s \<in> {Starting, Stopping}))"
      using Some eval_one_None [of outs seen ev i pm] by auto
    have same: "pm_tab pm1 j = pm_tab pm j" if "j \<in> set is" for j
      using eval_one_other [OF Some [unfolded r], of j] Cons.prems that by auto
    have "eval_loop (eval_one outs seen ev) (i # is) pm = None \<longleftrightarrow>
        eval_loop (eval_one outs seen ev) is pm1 = None"
      by (simp add: Some r split: option.splits)
    then show ?thesis using Cons.IH [of pm1] Cons.prems no same by auto
  qed
qed simp

text \<open>
  C19. The manager reads the state of a process more than once. \<open>evalActions\<close> panics exactly when, for some
  waiting process found neither starting nor stopping, another goroutine makes it starting or
  stopping before the second read: a \<open>Stop\<close> by the daemon's goroutine is enough.
\<close>

theorem evalActions_panics_iff:
  assumes "distinct (visit_order pm)"
  shows "evalActions outs seen ev pm = None \<longleftrightarrow> (\<exists>i \<in> set (visit_order pm). race seen pm i)"
proof -
  have "distinct (getWaitingProcesses pm)" using assms by (simp add: getWaitingProcesses_def)
  from eval_loop_None [OF this, of outs seen ev "refresh_waiting pm"] show ?thesis
    by (auto simp: evalActions_def run_loop_def race_def getWaitingProcesses_def split: option.splits)
qed

text \<open>A small manager: ptp4l with pmc waiting for it, and a phc2sys with its own conditions.\<close>

definition sample_proc :: "string \<Rightarrow> process_state \<Rightarrow> (action \<Rightarrow> condition option) \<Rightarrow> managed" where
  "sample_proc name st f =
     \<lparr>g_Name = name, g_ConfigName = ''ptp4l.0.config'', g_conds = Some f, g_state = st, g_has_profile = True,
      g_is_ptp = True, g_collected = False\<rparr>"

definition sample_manager :: "process_state \<Rightarrow> process_state \<Rightarrow> manager" where
  "sample_manager st0 st1 =
     \<lparr>pm_process = [(0, [1])],
      pm_tab = (\<lambda>i. if i = 0 then sample_proc ''ptp4l'' st0 (\<lambda>_. None)
                    else sample_proc ''pmc'' st1 [ActionStart \<mapsto> OnProcessUp ''ptp4l.0.config'' ''ptp4l'',
                                                  ActionStop \<mapsto> OnPluginEvent ''off'']),
      pm_waiting = [], pm_latest = empty_stats, pm_statsIn = None, pm_daemon = True, pm_once = True, pm_log = []\<rparr>"

lemma sample_order: "visit_order (sample_manager a b) = [1, 0]"
  by (simp add: visit_order_def sample_manager_def)

lemma sample_tab:
  "pm_tab (sample_manager a b) 0 = sample_proc ''ptp4l'' a (\<lambda>_. None)"
  "pm_tab (sample_manager a b) (Suc 0) = sample_proc ''pmc'' b [ActionStart \<mapsto> OnProcessUp ''ptp4l.0.config'' ''ptp4l'',
                                                  ActionStop \<mapsto> OnPluginEvent ''off'']"
  by (simp_all add: sample_manager_def)

definition status_event :: "string \<Rightarrow> int \<Rightarrow> event" where
  "status_event src st = (up_event src)\<lparr>ev_Data := Some (ProcessStatusData st), ev_CfgName := ''ptp4l.0.config''\<rparr>"

theorem evalActions_pointwise_witness:
  "\<exists>pm'. evalActions (\<lambda>_. StartDone Starting) (\<lambda>_. None) (status_event ''ptp4l'' 1) (sample_manager Running Created)
      = Some pm' \<and> g_state (pm_tab pm' 1) = Starting \<and> g_state (pm_tab pm' 0) = Running"
proof -
  have "distinct (visit_order (sample_manager Running Created))" by (simp add: sample_order)
  from evalActions_pointwise [OF this, of "\<lambda>_. StartDone Starting" "status_event ''ptp4l'' 1"]
  obtain pm' where pm': "evalActions (\<lambda>_. StartDone Starting) (\<lambda>_. None) (status_event ''ptp4l'' 1)
        (sample_manager Running Created) = Some pm'"
    "\<And>i. pm_tab pm' i = (if i \<in> set [1, 0]
       then decide (Met (status_event ''ptp4l'' 1) empty_stats) (\<lambda>_. True) (StartDone Starting)
              (pm_tab (sample_manager Running Created) i)
       else pm_tab (sample_manager Running Created) i)"
    unfolding sample_order by blast
  have ev: "ev_Source (status_event ''ptp4l'' 1) = ''ptp4l''" "ev_CfgName (status_event ''ptp4l'' 1) = ''ptp4l.0.config''"
    "ev_Data (status_event ''ptp4l'' 1) = Some (ProcessStatusData 1)"
    by (simp_all add: status_event_def up_event_def ProcessStatusEvent_def)
  show ?thesis
    using pm'(1) by (auto simp: pm'(2) sample_manager_def sample_proc_def decide_def GetCondition_def
      waitingOnCondition_def has_condition_def process_status_met_def ev eventEmpty_def set_started_def
      store_condition_def)
qed

theorem evalActions_panics_iff_witness:
  "evalActions (\<lambda>_. StartDone Starting) [1 \<mapsto> Stopping] (status_event ''ptp4l'' 1) (sample_manager Running Running) = None"
proof -
  have "race [1 \<mapsto> Stopping] (sample_manager Running Running) 1"
    by (simp add: race_def sample_manager_def sample_proc_def waitingOnCondition_def has_condition_def)
  moreover have "distinct (visit_order (sample_manager Running Running))" by (simp add: sample_order)
  ultimately show ?thesis using evalActions_panics_iff by (auto simp: sample_order)
qed

section \<open>Starting and stopping everything\<close>

lemma fold_start_one:
  assumes "distinct is"
  shows "pm_tab (fold (start_one outs) is pm) =
      (\<lambda>i. if i \<in> set is \<and> start_immediate (pm_tab pm i) then set_started (outs i) (pm_tab pm i) else pm_tab pm i) \<and>
    pm_process (fold (start_one outs) is pm) = pm_process pm"
  using assms
proof (induction "is" arbitrary: pm)
  case (Cons i "is")
  have "pm_tab (start_one outs i pm) =
      (pm_tab pm)(i := if start_immediate (pm_tab pm i) then set_started (outs i) (pm_tab pm i) else pm_tab pm i)"
    "pm_process (start_one outs i pm) = pm_process pm"
    by (simp_all add: start_one_def)
  with Cons.IH [of "start_one outs i pm"] Cons.prems show ?case by (auto simp: fun_eq_iff)
qed simp

lemma visit_order_cong: "pm_process q = pm_process pm \<Longrightarrow> visit_order q = visit_order pm"
  by (simp add: visit_order_def)

text \<open>
  \<open>StartProcesses\<close> starts exactly the processes, dependent ones included, that were created or
  stopped and have no start condition but Immediate; it leaves every other process as it was, and
  afterwards the waiting list holds exactly the processes that wait on a condition, in the order of
  the visit.
\<close>

lemma StartProcesses_starts_immediate:
  assumes "distinct (visit_order pm)"
  shows "(\<forall>i. pm_tab (StartProcesses outs pm) i =
      (if i \<in> set (visit_order pm) \<and> start_immediate (pm_tab pm i) then set_started (outs i) (pm_tab pm i)
       else pm_tab pm i)) \<and>
    pm_waiting (StartProcesses outs pm) =
      filter (\<lambda>i. waitingOnCondition (pm_tab (StartProcesses outs pm) i)) (visit_order pm)"
proof -
  let ?pm = "fold (start_one outs) (visit_order pm) (refresh_waiting pm)"
  have "pm_tab ?pm = (\<lambda>i. if i \<in> set (visit_order pm) \<and> start_immediate (pm_tab pm i)
      then set_started (outs i) (pm_tab pm i) else pm_tab pm i)" "pm_process ?pm = pm_process pm"
    using fold_start_one [OF assms, of outs "refresh_waiting pm"] unfolding refresh_simps by blast+
  moreover from this(2) have "visit_order ?pm = visit_order pm" by (rule visit_order_cong)
  ultimately show ?thesis by (simp add: StartProcesses_def Let_def getWaitingProcesses_def)
qed

text \<open>Stopping.\<close>

lemma set_stopped_twice [simp]: "set_stopped (set_stopped m) = set_stopped m"
  by (simp add: set_stopped_def)

lemma fold_stopProcess:
  "pm_tab (fold stopProcess is pm) = (\<lambda>i. if i \<in> set is then set_stopped (pm_tab pm i) else pm_tab pm i) \<and>
   pm_process (fold stopProcess is pm) = pm_process pm \<and>
   pm_log (fold stopProcess is pm) = rev (map ActStopped is) @ pm_log pm"
proof (induction "is" arbitrary: pm)
  case (Cons i "is")
  have "pm_log (stopProcess i pm) = ActStopped i # pm_log pm"
    by (simp add: stopProcess_def log_act_def upd_proc_def)
  with Cons.IH [of "stopProcess i pm"] show ?case by (auto simp: fun_eq_iff)
qed simp

fun stops_only :: "manager_act \<Rightarrow> bool" where
  "stops_only (ActStopped _) = True"
| "stops_only _ = False"

lemma stop_parent_step:
  "g_state (pm_tab (stop_parent (p, ds) pm) i) =
     g_state (if i = p \<or> i \<in> set ds then set_stopped (pm_tab pm i) else pm_tab pm i)"
  "filter stops_only (pm_log (stop_parent (p, ds) pm)) =
     ActStopped p # map ActStopped ds @ filter stops_only (pm_log pm)"
proof -
  let ?q = "fold stopProcess (rev ds) pm"
  have q: "pm_tab ?q = (\<lambda>i. if i \<in> set ds then set_stopped (pm_tab pm i) else pm_tab pm i)"
    "pm_log ?q = map ActStopped ds @ pm_log pm"
    using fold_stopProcess [of "rev ds" pm] by (simp_all add: rev_map)
  have stop: "pm_log (stopProcess p ?q) = ActStopped p # pm_log ?q"
    by (simp add: stopProcess_def log_act_def upd_proc_def)
  show "g_state (pm_tab (stop_parent (p, ds) pm) i) =
     g_state (if i = p \<or> i \<in> set ds then set_stopped (pm_tab pm i) else pm_tab pm i)"
    by (auto simp: stop_parent_def Let_def q)
  have "filter stops_only (map ActStopped ds) = map ActStopped ds" by (simp add: filter_id_conv)
  then show "filter stops_only (pm_log (stop_parent (p, ds) pm)) =
     ActStopped p # map ActStopped ds @ filter stops_only (pm_log pm)"
    by (simp add: stop_parent_def Let_def stop q log_act_def upd_proc_def)
qed

text \<open>
  \<open>stopAllProcesses\<close> asks every process to stop, each parent after its dependent processes and
  these in the reverse of their order: afterwards none of them is starting or running, and those
  at rest have not moved.
\<close>

lemma stopAllProcesses_stops:
  "(\<forall>i. g_state (pm_tab (stopAllProcesses pm) i) =
      (if i \<in> set (visit_order pm) \<and> g_state (pm_tab pm i) \<in> {Starting, Running} then Stopping
       else g_state (pm_tab pm i))) \<and>
   rev (filter stops_only (pm_log (stopAllProcesses pm))) =
     rev (filter stops_only (pm_log pm)) @ map ActStopped (concat (map (\<lambda>(p, ds). rev ds @ [p]) (pm_process pm)))"
proof -
  have st: "g_state (set_stopped m) = (if g_state m \<in> {Starting, Running} then Stopping else g_state m)" for m
    by (cases "g_state m") (auto simp: set_stopped_def)
  have gen: "(\<forall>i. g_state (pm_tab (fold stop_parent pds q) i) =
      (if i \<in> set (concat (map (\<lambda>(p, ds). ds @ [p]) pds)) \<and> g_state (pm_tab q i) \<in> {Starting, Running} then Stopping
       else g_state (pm_tab q i))) \<and>
   rev (filter stops_only (pm_log (fold stop_parent pds q))) =
     rev (filter stops_only (pm_log q)) @ map ActStopped (concat (map (\<lambda>(p, ds). rev ds @ [p]) pds))" for pds q
  proof (induction pds arbitrary: q)
    case (Cons pd pds)
    obtain p ds where pd: "pd = (p, ds)" by fastforce
    have s: "g_state (pm_tab (stop_parent (p, ds) q) i) =
        (if (i = p \<or> i \<in> set ds) \<and> g_state (pm_tab q i) \<in> {Starting, Running} then Stopping
         else g_state (pm_tab q i))" for i
      using stop_parent_step(1) [of p ds q i] st [of "pm_tab q i"] by simp
    have "rev (filter stops_only (pm_log (stop_parent (p, ds) q))) =
        rev (filter stops_only (pm_log q)) @ map ActStopped (rev ds @ [p])"
      by (simp add: stop_parent_step(2) rev_map)
    then have log: "rev (filter stops_only (pm_log (fold stop_parent (pd # pds) q))) =
     rev (filter stops_only (pm_log q)) @ map ActStopped (concat (map (\<lambda>(p, ds). rev ds @ [p]) (pd # pds)))"
      using Cons.IH [of "stop_parent (p, ds) q"] by (simp add: pd)
    have "g_state (pm_tab (fold stop_parent (pd # pds) q) i) =
      (if i \<in> set (concat (map (\<lambda>(p, ds). ds @ [p]) (pd # pds))) \<and> g_state (pm_tab q i) \<in> {Starting, Running}
       then Stopping else g_state (pm_tab q i))" for i
    proof -
      have "g_state (pm_tab (fold stop_parent (pd # pds) q) i) =
        (if i \<in> set (concat (map (\<lambda>(p, ds). ds @ [p]) pds)) \<and> g_state (pm_tab (stop_parent (p, ds) q) i) \<in> {Starting, Running}
         then Stopping else g_state (pm_tab (stop_parent (p, ds) q) i))"
        using Cons.IH [of "stop_parent (p, ds) q"] by (simp add: pd)
      then show ?thesis unfolding s by (auto simp: pd)
    qed
    with log show ?case by blast
  qed simp
  show ?thesis using gen [of "pm_process pm" pm] by (simp add: stopAllProcesses_def visit_order_def)
qed

section \<open>Late and missed starts\<close>

text \<open>A loop whose turns succeed on waiting processes and touch one process each succeeds.\<close>

lemma eval_loop_total:
  assumes "\<And>j. j \<in> set ks \<Longrightarrow> waitingOnCondition (pm_tab q j)" "distinct ks"
    and "\<And>k q. k \<in> set ks \<Longrightarrow> waitingOnCondition (pm_tab q k) \<Longrightarrow>
      \<exists>r b. f k q = Some (r, b) \<and> (\<forall>j. j \<noteq> k \<longrightarrow> pm_tab r j = pm_tab q j) \<and> pm_process r = pm_process q"
  shows "\<exists>pm' b. eval_loop f ks q = Some (pm', b) \<and> (\<forall>j. j \<notin> set ks \<longrightarrow> pm_tab pm' j = pm_tab q j)"
  using assms
proof (induction ks arbitrary: q)
  case (Cons m ms)
  obtain r b where r: "f m q = Some (r, b)" "\<And>j. j \<noteq> m \<Longrightarrow> pm_tab r j = pm_tab q j"
    using Cons.prems(1) [of m] Cons.prems(3) [of m q] by auto
  have "waitingOnCondition (pm_tab r j)" if "j \<in> set ms" for j
  proof -
    have "j \<noteq> m" using that Cons.prems(2) by auto
    with Cons.prems(1) [of j] r(2) [of j] that show ?thesis by simp
  qed
  then have "\<exists>pm' b. eval_loop f ms r = Some (pm', b) \<and> (\<forall>j. j \<notin> set ms \<longrightarrow> pm_tab pm' j = pm_tab r j)"
    using Cons.prems(2,3) by (intro Cons.IH) auto
  then obtain pm' b' where "eval_loop f ms r = Some (pm', b')" "\<forall>j. j \<notin> set ms \<longrightarrow> pm_tab pm' j = pm_tab r j"
    by blast
  with r show ?case by (intro exI [of _ pm'] exI [of _ "b \<or> b'"]) auto
qed (auto intro: exI [of _ False])

text \<open>Running a loop: what the turn of one process finds, and what it leaves.\<close>

lemma eval_loop_at:
  assumes "distinct is" "i \<in> set is"
    and "\<And>k q. k \<in> set is \<Longrightarrow> waitingOnCondition (pm_tab q k) \<Longrightarrow>
      \<exists>r b. f k q = Some (r, b) \<and> (\<forall>j. j \<noteq> k \<longrightarrow> pm_tab r j = pm_tab q j) \<and> pm_process r = pm_process q"
    and "\<And>k. k \<in> set is \<Longrightarrow> waitingOnCondition (pm_tab q k)"
  shows "\<exists>pm' b q1 r b1. eval_loop f is q = Some (pm', b) \<and> f i q1 = Some (r, b1) \<and>
    (\<forall>j. j \<notin> set is \<or> j = i \<longrightarrow> pm_tab q1 j = pm_tab q j) \<and> pm_process q1 = pm_process q \<and>
    pm_tab pm' i = pm_tab r i"
  using assms
proof (induction "is" arbitrary: q)
  case (Cons k ks)
  obtain r b where r: "f k q = Some (r, b)" "\<And>j. j \<noteq> k \<Longrightarrow> pm_tab r j = pm_tab q j" "pm_process r = pm_process q"
    using Cons.prems(3) [of k q] Cons.prems(4) [of k] by auto
  have wait: "waitingOnCondition (pm_tab r j)" if "j \<in> set ks" for j
  proof -
    have "j \<noteq> k" using that Cons.prems(1) by auto
    with Cons.prems(4) [of j] r(2) [of j] that show ?thesis by simp
  qed
  show ?case
  proof (cases "i = k")
    case True
    have "\<exists>pm' b. eval_loop f ks r = Some (pm', b) \<and> (\<forall>j. j \<notin> set ks \<longrightarrow> pm_tab pm' j = pm_tab r j)"
      using Cons.prems(1,3) wait by (intro eval_loop_total) auto
    then obtain pm' b' where "eval_loop f ks r = Some (pm', b')" "pm_tab pm' k = pm_tab r k"
      using Cons.prems(1) by auto
    with r True show ?thesis by (intro exI [of _ pm'] exI [of _ "b \<or> b'"] exI [of _ q] exI [of _ r] exI [of _ b]) auto
  next
    case False
    then have "\<exists>pm' b q1 r1 b1. eval_loop f ks r = Some (pm', b) \<and> f i q1 = Some (r1, b1) \<and>
      (\<forall>j. j \<notin> set ks \<or> j = i \<longrightarrow> pm_tab q1 j = pm_tab r j) \<and> pm_process q1 = pm_process r \<and> pm_tab pm' i = pm_tab r1 i"
      using Cons.prems wait by (intro Cons.IH) auto
    then obtain pm' b' q1 r1 b1 where "eval_loop f ks r = Some (pm', b')" "f i q1 = Some (r1, b1)"
      "\<forall>j. j \<notin> set ks \<or> j = i \<longrightarrow> pm_tab q1 j = pm_tab r j" "pm_process q1 = pm_process r"
      "pm_tab pm' i = pm_tab r1 i" by blast
    with r False Cons.prems(1) show ?thesis
      by (intro exI [of _ pm'] exI [of _ "b \<or> b'"] exI [of _ q1] exI [of _ r1] exI [of _ b1]) auto
  qed
qed simp

lemma reconcile_one_local:
  assumes "waitingOnCondition (pm_tab q k)"
  shows "\<exists>r b. reconcile_one outs (\<lambda>_. None) k q = Some (r, b) \<and> (\<forall>j. j \<noteq> k \<longrightarrow> pm_tab r j = pm_tab q j) \<and>
    pm_process r = pm_process q"
proof -
  from reconcile_one_decide [of "\<lambda>_. None" k q outs] assms obtain r b where
    "reconcile_one outs (\<lambda>_. None) k q = Some (r, b)"
    "pm_tab r = (pm_tab q)(k := decide (MetByCurrentState (Some (sourceProcessUp q)) (pm_latest q)) state_aware
       (outs k) (pm_tab q k))"
    "pm_process r = pm_process q" by blast
  then show ?thesis by simp
qed

text \<open>
  C18. A missed or late status event does not leave a process waiting for ever: if a created process waits for
  a source to be up, and a process of that name and configuration that has no stop condition is
  starting or running, the next reconciliation starts it, whatever else the reconciliation does.
\<close>

theorem reconcile_recovers_missed_event:
  assumes "distinct (visit_order pm)" "i \<in> set (visit_order pm)" "g_state (pm_tab pm i) = Created"
    and "g_conds (pm_tab pm i) = Some f" "f ActionStart = Some (OnProcessUp cfg src)" "outs i = StartDone Starting"
    and "j \<in> set (visit_order pm)" "g_Name (pm_tab pm j) = src" "cfg = '''' \<or> g_ConfigName (pm_tab pm j) = cfg"
    and "g_state (pm_tab pm j) \<in> {Starting, Running}" "\<not> has_condition (pm_tab pm j) ActionStop"
  shows "\<exists>pm'. reconcileWaiting False outs (\<lambda>_. None) pm = Some pm' \<and> g_state (pm_tab pm' i) = Starting"
proof -
  let ?w = "getWaitingProcesses pm" and ?q = "take_stats (refresh_waiting pm)"
  let ?f = "reconcile_one outs (\<lambda>_. None)"
  have i: "i \<in> set ?w" and wi: "waitingOnCondition (pm_tab pm i)"
    using assms(2-5) by (auto simp: getWaitingProcesses_def waitingOnCondition_def has_condition_def)
  have j: "j \<notin> set ?w" using assms(10,11) by (auto simp: getWaitingProcesses_def waitingOnCondition_def)
  have dist: "distinct ?w" using assms(1) by (simp add: getWaitingProcesses_def)
  have "\<exists>pm' b q1 r b1. eval_loop ?f ?w ?q = Some (pm', b) \<and> ?f i q1 = Some (r, b1) \<and>
    (\<forall>j. j \<notin> set ?w \<or> j = i \<longrightarrow> pm_tab q1 j = pm_tab ?q j) \<and> pm_process q1 = pm_process ?q \<and>
    pm_tab pm' i = pm_tab r i"
    by (rule eval_loop_at [OF dist i], erule reconcile_one_local) (simp add: getWaitingProcesses_def)
  then obtain pm' b q1 r b1 where l: "eval_loop ?f ?w ?q = Some (pm', b)" "?f i q1 = Some (r, b1)"
    "\<forall>j. j \<notin> set ?w \<or> j = i \<longrightarrow> pm_tab q1 j = pm_tab pm j" "pm_process q1 = pm_process pm"
    "pm_tab pm' i = pm_tab r i" by auto
  have tab: "pm_tab q1 i = pm_tab pm i" "pm_tab q1 j = pm_tab pm j" using l(3) j by auto
  have up: "sourceProcessUp q1 src cfg"
    using assms(7-10) by (auto simp: sourceProcessUp_def list_ex_iff visit_order_cong [OF l(4)] tab(2)
        intro!: bexI [of _ j])
  have "decide (MetByCurrentState (Some (sourceProcessUp q1)) (pm_latest q1)) state_aware (outs i) (pm_tab q1 i) =
      (pm_tab q1 i)\<lparr>g_state := Starting\<rparr>"
    by (rule reconcile_one_start [where f = f and cfg = cfg and src = src and seen = "\<lambda>_. None"])
      (use assms(3-6) wi up in \<open>simp_all add: tab\<close>)
  moreover have "pm_tab r i = decide (MetByCurrentState (Some (sourceProcessUp q1)) (pm_latest q1)) state_aware (outs i) (pm_tab q1 i)"
    using reconcile_one_decide [of "\<lambda>_. None" i q1 outs] wi l(2) by (auto simp: tab)
  ultimately have "g_state (pm_tab pm' i) = Starting" by (simp add: l(5))
  with l(1) show ?thesis by (auto simp: reconcileWaiting_def run_loop_def)
qed

theorem reconcile_recovers_missed_event_witness:
  "\<exists>pm'. reconcileWaiting False (\<lambda>_. StartDone Starting) (\<lambda>_. None) (sample_manager Running Created) = Some pm' \<and>
     g_state (pm_tab pm' 1) = Starting"
  using reconcile_recovers_missed_event [of "sample_manager Running Created" 1 _ "''ptp4l.0.config''" "''ptp4l''"
      "\<lambda>_. StartDone Starting" 0]
  by (simp add: sample_order sample_tab sample_proc_def has_condition_def)

text \<open>
  A dead process is restarted on its down event whatever its restart condition says: here pmc, whose
  condition is that ptp4l is up, is started again by \<open>handleProcessDown\<close> while ptp4l is dead, where
  evaluating the condition, as for every other transition, would have left it waiting.
\<close>

lemma dead_restarted_against_condition:
  "g_state (pm_tab (handleProcessDown False (\<lambda>_. StartDone Starting) (status_event ''pmc'' 0) (sample_manager Dead Dead)) 1)
     = Starting \<and>
   g_state (decide (MetByCurrentState (Some (sourceProcessUp (sample_manager Dead Dead))) empty_stats) state_aware
     (StartDone Starting) (pm_tab (sample_manager Dead Dead) 1)) = Dead \<and>
   g_state (decide (Met (status_event ''pmc'' 0) empty_stats) (\<lambda>_. True)
     (StartDone Starting) (pm_tab (sample_manager Dead Dead) 1)) = Dead"
proof -
  have ev: "ev_Source (status_event ''pmc'' 0) = ''pmc''" "ev_CfgName (status_event ''pmc'' 0) = ''ptp4l.0.config''"
    by (simp_all add: status_event_def up_event_def ProcessStatusEvent_def)
  have "findProcess (status_event ''pmc'' 0) (sample_manager Dead Dead) = Some 1"
    by (simp add: findProcess_def matches_event_def ev sample_manager_def sample_proc_def)
  moreover have "\<not> sourceProcessUp (sample_manager Dead Dead) ''ptp4l'' ''ptp4l.0.config''"
    by (simp add: sourceProcessUp_def sample_order sample_tab sample_proc_def)
  ultimately show ?thesis
    by (simp add: handleProcessDown_def sample_tab sample_proc_def set_started_def decide_def GetCondition_def
        waitingOnCondition_def has_condition_def process_status_met_def ev store_condition_def)
qed

end
