(* ===== verification/PtpProcess.thy ===== *)
theory PtpProcess
  imports Conditions "HOL-Library.Multiset"
begin

text \<open>
  The life of one managed child process (\<open>ptpProcess\<close> in \<open>pkg/daemon/ptp_process.go\<close>): \<open>Start\<close>,
  the goroutine of \<open>run\<close>, the scanner goroutine and \<open>Stop\<close>, as interleaved steps. A step is a
  critical section of \<open>execMutex\<close>, one operation on the \<open>WaitGroup\<close>, on a channel or on the command;
  two goroutines at the same place are interchangeable, so a goroutine is named by where it is.
  What the operating system decides (whether a pipe or a command can be started, when a child
  exits, when its output ends) is part of the events of a run.
\<close>

section \<open>State\<close>

text \<open>Where a goroutine of \<open>run\<close> is: the next thing it will do.\<close>

datatype run_at =
    AtBegin
  | AtCritical nat
  | AtUp nat
  | AtWait nat
  | AtDone
  | AtWgWait
  | AtRead
  | AtPublish process_state
  | AtReport

text \<open>A \<open>Stop\<close> that has released the lock: it closes the channel, then signals the command.\<close>

datatype stop_at =
    StopClose "nat option" "nat option"
  | StopSignal nat

text \<open>
  Channels and commands are numbered when they are made. \<open>p_pending\<close> counts the calls of \<open>Start\<close>
  between releasing the lock and \<open>wg.Add\<close>; \<open>p_started\<close> are the commands whose \<open>Start\<close> succeeded,
  \<open>p_children\<close> those still alive; \<open>p_sent\<close> the status events, latest first; \<open>p_panic\<close> says that a
  closed channel was closed again, a command that was never started signalled, or the
  \<open>WaitGroup\<close> made negative.
\<close>

record ptp_process =
  p_state :: process_state
  p_stopCh :: "nat option"
  p_cmd :: "nat option"
  p_fresh :: nat
  p_wg :: nat
  p_pending :: nat
  p_runs :: "run_at list"
  p_scanners :: "nat list"
  p_started :: "nat list"
  p_children :: "nat list"
  p_stops :: "stop_at list"
  p_closed :: "nat list"
  p_sent :: "bool list"
  p_panic :: bool

definition new_process :: "bool \<Rightarrow> ptp_process" where
  "new_process has_cmd =
     \<lparr>p_state = Created, p_stopCh = None, p_cmd = (if has_cmd then Some 0 else None), p_fresh = 1, p_wg = 0,
      p_pending = 0, p_runs = [], p_scanners = [], p_started = [], p_children = [], p_stops = [], p_closed = [],
      p_sent = [], p_panic = False\<rparr>"

section \<open>Start and stop\<close>

text \<open>
  The critical section of \<open>Start\<close>: the new state and the error it returns. The stop channel and the
  clone of the command are fresh.
\<close>

definition Start_lock :: "string \<Rightarrow> ptp_process \<Rightarrow> ptp_process \<times> string option" where
  "Start_lock name p =
     (case p_state p of
        Starting \<Rightarrow> (p, None)
      | Running \<Rightarrow> (p, None)
      | Stopping \<Rightarrow> (p, Some (name @ '' is stopping''))
      | _ \<Rightarrow> (p\<lparr>p_stopCh := Some (p_fresh p), p_cmd := map_option (\<lambda>_. p_fresh p) (p_cmd p),
               p_fresh := p_fresh p + 1, p_state := Starting, p_pending := p_pending p + 1\<rparr>, None))"

text \<open>The critical section of \<open>Stop\<close>.\<close>

definition Stop_lock :: "ptp_process \<Rightarrow> ptp_process" where
  "Stop_lock p =
     (if p_state p \<in> {Created, Stopping, Stopped, Dead} then p
      else p\<lparr>p_state := Stopping,
             p_stops := StopClose (p_stopCh p) (if p_state p = Starting then None else p_cmd p) # p_stops p\<rparr>)"

definition close_chan :: "nat \<Rightarrow> ptp_process \<Rightarrow> ptp_process" where
  "close_chan ch p = p\<lparr>p_closed := ch # p_closed p, p_panic := (p_panic p \<or> ch \<in> set (p_closed p))\<rparr>"

definition Stop_step :: "stop_at \<Rightarrow> ptp_process \<Rightarrow> ptp_process" where
  "Stop_step s p =
     (let p1 = p\<lparr>p_stops := remove1 s (p_stops p)\<rparr> in
      case s of
        StopClose ch cmd \<Rightarrow>
          (let p2 = (case ch of None \<Rightarrow> p1 | Some n \<Rightarrow> close_chan n p1)
           in case cmd of None \<Rightarrow> p2 | Some c \<Rightarrow> p2\<lparr>p_stops := StopSignal c # p_stops p2\<rparr>)
      | StopSignal c \<Rightarrow> p1\<lparr>p_panic := (p_panic p1 \<or> c \<notin> set (p_started p1))\<rparr>)"

section \<open>The goroutines\<close>

definition wg_done :: "ptp_process \<Rightarrow> ptp_process" where
  "wg_done p = p\<lparr>p_wg := p_wg p - 1, p_panic := (p_panic p \<or> p_wg p = 0)\<rparr>"

text \<open>\<open>run\<close>: \<open>wg.Add\<close> and the start of the goroutine.\<close>

definition run_spawn :: "ptp_process \<Rightarrow> ptp_process" where
  "run_spawn p = p\<lparr>p_pending := p_pending p - 1, p_wg := p_wg p + 1, p_runs := AtBegin # p_runs p\<rparr>"

text \<open>
  One step of the goroutine that is at \<open>r\<close>: where it goes (\<open>None\<close> when it has ended) and the state.
  \<open>ok\<close> is the outcome of creating the pipe or of starting the command. \<open>cmd.Wait\<close> needs the child
  to have exited, \<open>wg.Wait\<close> the counter to be zero: \<open>run_ready\<close>.
\<close>

definition run_ready :: "run_at \<Rightarrow> ptp_process \<Rightarrow> bool" where
  "run_ready r p = (case r of AtWait c \<Rightarrow> c \<notin> set (p_children p) | AtWgWait \<Rightarrow> p_wg p = 0 | _ \<Rightarrow> True)"

definition run_next :: "run_at \<Rightarrow> bool \<Rightarrow> ptp_process \<Rightarrow> run_at option \<times> ptp_process" where
  "run_next r ok p =
     (case r of
        AtBegin \<Rightarrow> (case p_cmd p of None \<Rightarrow> (Some AtDone, p)
                   | Some c \<Rightarrow> (Some (if ok then AtCritical c else AtDone), p))
      | AtCritical c \<Rightarrow>
          (if p_state p = Stopping then (Some AtDone, p)
           else if \<not> ok then (Some AtDone, p\<lparr>p_state := Dead\<rparr>)
           else (Some (AtUp c), p\<lparr>p_state := Running, p_started := c # p_started p,
                                  p_children := c # p_children p\<rparr>))
      | AtUp c \<Rightarrow> (Some (AtWait c), p\<lparr>p_sent := True # p_sent p, p_wg := p_wg p + 1,
                                     p_scanners := c # p_scanners p\<rparr>)
      | AtWait c \<Rightarrow> (Some AtDone, p)
      | AtDone \<Rightarrow> (Some AtWgWait, wg_done p)
      | AtWgWait \<Rightarrow> (Some AtRead, p)
      | AtRead \<Rightarrow> (Some (AtPublish (if p_state p = Stopping then Stopped else Dead)), p)
      | AtPublish s \<Rightarrow> (Some AtReport, p\<lparr>p_state := s\<rparr>)
      | AtReport \<Rightarrow> (None, p\<lparr>p_sent := False # p_sent p\<rparr>))"

definition run_step :: "run_at \<Rightarrow> bool \<Rightarrow> ptp_process \<Rightarrow> ptp_process" where
  "run_step r ok p =
     (let (next, p1) = run_next r ok (p\<lparr>p_runs := remove1 r (p_runs p)\<rparr>)
      in case next of None \<Rightarrow> p1 | Some r' \<Rightarrow> p1\<lparr>p_runs := r' # p_runs p1\<rparr>)"

section \<open>Steps\<close>

datatype proc_event =
    EvStart
  | EvStop
  | EvSpawn
  | EvStopStep stop_at
  | EvRun run_at bool
  | EvExit nat
  | EvScanned nat

fun proc_step :: "proc_event \<Rightarrow> ptp_process \<Rightarrow> ptp_process option" where
  "proc_step EvStart p = Some (fst (Start_lock '''' p))"
| "proc_step EvStop p = Some (Stop_lock p)"
| "proc_step EvSpawn p = (if 0 < p_pending p then Some (run_spawn p) else None)"
| "proc_step (EvStopStep s) p = (if s \<in> set (p_stops p) then Some (Stop_step s p) else None)"
| "proc_step (EvRun r ok) p = (if r \<in> set (p_runs p) \<and> run_ready r p then Some (run_step r ok p) else None)"
| "proc_step (EvExit c) p =
     (if c \<in> set (p_children p) then Some (p\<lparr>p_children := remove1 c (p_children p)\<rparr>) else None)"
| "proc_step (EvScanned c) p =
     (if c \<in> set (p_scanners p) then Some (wg_done (p\<lparr>p_scanners := remove1 c (p_scanners p)\<rparr>)) else None)"

fun proc_run :: "proc_event list \<Rightarrow> ptp_process \<Rightarrow> ptp_process option" where
  "proc_run [] p = Some p"
| "proc_run (e # es) p = (case proc_step e p of None \<Rightarrow> None | Some p' \<Rightarrow> proc_run es p')"

section \<open>The invariant\<close>

text \<open>The goroutines that can still change the state, and those the \<open>WaitGroup\<close> counts.\<close>

definition live_runs :: "ptp_process \<Rightarrow> run_at list" where
  "live_runs p = filter (\<lambda>r. r \<noteq> AtReport) (p_runs p)"

fun counted :: "run_at \<Rightarrow> bool" where
  "counted AtBegin = True"
| "counted (AtCritical _) = True"
| "counted (AtUp _) = True"
| "counted (AtWait _) = True"
| "counted AtDone = True"
| "counted _ = False"

abbreviation at_rest :: "process_state \<Rightarrow> bool" where
  "at_rest s \<equiv> s \<in> {Created, Stopped, Dead}"

text \<open>Where the one goroutine can be, by state.\<close>

fun run_allowed :: "process_state \<Rightarrow> run_at \<Rightarrow> bool" where
  "run_allowed st (AtPublish s) = (s = Dead \<or> s = Stopped \<and> st = Stopping)"
| "run_allowed st (AtUp _) = (st \<in> {Running, Stopping})"
| "run_allowed st (AtWait _) = (st \<in> {Running, Stopping})"
| "run_allowed st AtBegin = (st \<in> {Starting, Stopping})"
| "run_allowed st (AtCritical _) = (st \<in> {Starting, Stopping})"
| "run_allowed st AtReport = False"
| "run_allowed st _ = True"

definition one_run :: "ptp_process \<Rightarrow> bool" where
  "one_run p \<longleftrightarrow>
     (if at_rest (p_state p) then p_pending p = 0 \<and> live_runs p = []
      else if p_pending p = 0 then (\<exists>r. live_runs p = [r] \<and> run_allowed (p_state p) r)
      else p_pending p = 1 \<and> live_runs p = [] \<and> p_state p \<in> {Starting, Stopping})"

definition wg_counts :: "ptp_process \<Rightarrow> bool" where
  "wg_counts p \<longleftrightarrow> p_wg p = length (filter counted (p_runs p)) + length (p_scanners p)"

definition cmds_ok :: "ptp_process \<Rightarrow> bool" where
  "cmds_ok p \<longleftrightarrow>
     (p_children p = [] \<or> (\<exists>c. p_children p = [c] \<and> live_runs p \<in> {[AtUp c], [AtWait c]})) \<and>
     (\<forall>c. AtCritical c \<in> set (p_runs p) \<longrightarrow> p_cmd p = Some c) \<and>
     (p_state p = Running \<longrightarrow> (\<exists>c. p_cmd p = Some c \<and> c \<in> set (p_started p))) \<and>
     (\<forall>c. StopSignal c \<in> set (p_stops p) \<longrightarrow> c \<in> set (p_started p)) \<and>
     (\<forall>ch c. StopClose ch (Some c) \<in> set (p_stops p) \<longrightarrow> c \<in> set (p_started p))"

fun to_close :: "stop_at \<Rightarrow> nat list" where
  "to_close (StopClose (Some n) _) = [n]"
| "to_close _ = []"

definition chs :: "ptp_process \<Rightarrow> nat list" where
  "chs p = concat (map to_close (p_stops p)) @ p_closed p"

definition chans_ok :: "ptp_process \<Rightarrow> bool" where
  "chans_ok p \<longleftrightarrow> distinct (chs p) \<and> (\<forall>n \<in> set (chs p). n < p_fresh p) \<and>
     (p_state p \<in> {Starting, Running} \<longrightarrow> (\<exists>n. p_stopCh p = Some n \<and> n < p_fresh p \<and> n \<notin> set (chs p)))"

definition proc_inv :: "ptp_process \<Rightarrow> bool" where
  "proc_inv p \<longleftrightarrow> \<not> p_panic p \<and> one_run p \<and> wg_counts p \<and> cmds_ok p \<and> chans_ok p"

text \<open>The events of runs in which every command that is tried starts.\<close>

fun start_succeeds :: "proc_event \<Rightarrow> bool" where
  "start_succeeds (EvRun (AtCritical _) ok) = ok"
| "start_succeeds _ = True"

lemma proc_inv_new: "proc_inv (new_process b)"
  by (simp add: proc_inv_def new_process_def one_run_def wg_counts_def cmds_ok_def chans_ok_def live_runs_def chs_def)

lemma proc_inv_Start: "proc_inv p \<Longrightarrow> proc_inv (fst (Start_lock name p))"
proof (cases "at_rest (p_state p)")
  case True
  assume inv: "proc_inv p"
  let ?q = "p\<lparr>p_stopCh := Some (p_fresh p), p_cmd := map_option (\<lambda>_. p_fresh p) (p_cmd p),
               p_fresh := p_fresh p + 1, p_state := Starting, p_pending := p_pending p + 1\<rparr>"
  have q: "fst (Start_lock name p) = ?q" using True by (auto simp: Start_lock_def)
  have none: "p_pending p = 0" "live_runs p = []" using inv True by (auto simp: proc_inv_def one_run_def)
  then have runs: "set (p_runs p) \<subseteq> {AtReport}" by (auto simp: live_runs_def filter_empty_conv)
  have "one_run ?q" using none by (simp add: one_run_def live_runs_def)
  moreover have "wg_counts ?q" using inv by (simp add: proc_inv_def wg_counts_def)
  moreover have "cmds_ok ?q" using inv none runs by (auto simp: proc_inv_def cmds_ok_def live_runs_def)
  moreover have chs: "chs ?q = chs p" by (simp add: chs_def)
  have "\<forall>n \<in> set (chs p). n < p_fresh p" "distinct (chs p)" using inv by (simp_all add: proc_inv_def chans_ok_def)
  then have "chans_ok ?q" unfolding chans_ok_def chs by (simp add: less_SucI) blast
  moreover have "\<not> p_panic ?q" using inv by (simp add: proc_inv_def)
  ultimately show ?thesis unfolding q proc_inv_def by blast
qed (cases "p_state p"; simp add: Start_lock_def)

lemma proc_inv_Stop: "proc_inv p \<Longrightarrow> proc_inv (Stop_lock p)"
proof (cases "p_state p \<in> {Created, Stopping, Stopped, Dead}")
  case False
  assume inv: "proc_inv p"
  let ?s = "StopClose (p_stopCh p) (if p_state p = Starting then None else p_cmd p)"
  let ?q = "p\<lparr>p_state := Stopping, p_stops := ?s # p_stops p\<rparr>"
  have q: "Stop_lock p = ?q" using False by (simp add: Stop_lock_def)
  have st: "p_state p \<in> {Starting, Running}" using False by (cases "p_state p") auto
  have "run_allowed Stopping r" if "run_allowed (p_state p) r" for r
    using that by (cases r) auto
  then have "one_run ?q" using inv st by (auto simp: proc_inv_def one_run_def live_runs_def split: if_splits)
  moreover have "wg_counts ?q" using inv by (simp add: proc_inv_def wg_counts_def)
  moreover have "cmds_ok ?q" using inv st by (auto simp: proc_inv_def cmds_ok_def live_runs_def)
  moreover have "chans_ok ?q" using inv st by (auto simp: proc_inv_def chans_ok_def chs_def)
  moreover have "\<not> p_panic ?q" using inv by (simp add: proc_inv_def)
  ultimately show ?thesis unfolding q proc_inv_def by blast
qed (simp add: Stop_lock_def)

lemma proc_inv_spawn:
  assumes "proc_inv p" "0 < p_pending p"
  shows "proc_inv (run_spawn p)"
proof -
  have st: "p_pending p = 1" "live_runs p = []" "p_state p \<in> {Starting, Stopping}"
    using assms by (auto simp: proc_inv_def one_run_def split: if_splits)
  then have "one_run (run_spawn p)" by (auto simp: one_run_def run_spawn_def live_runs_def)
  moreover have "wg_counts (run_spawn p)" using assms by (simp add: proc_inv_def wg_counts_def run_spawn_def)
  moreover have "cmds_ok (run_spawn p)"
    using assms st by (auto simp: proc_inv_def cmds_ok_def run_spawn_def live_runs_def)
  moreover have "chans_ok (run_spawn p)" using assms by (simp add: proc_inv_def chans_ok_def run_spawn_def chs_def)
  moreover have "\<not> p_panic (run_spawn p)" using assms by (simp add: proc_inv_def run_spawn_def)
  ultimately show ?thesis unfolding proc_inv_def by blast
qed

lemma live_runs_cong: "p_runs q = p_runs p \<Longrightarrow> live_runs q = live_runs p"
  by (simp add: live_runs_def)

lemma one_run_cong:
  assumes "p_state q = p_state p" "p_pending q = p_pending p" "p_runs q = p_runs p"
  shows "one_run q = one_run p"
  unfolding one_run_def live_runs_cong [OF assms(3)] assms(1,2) ..

lemma proc_inv_exit:
  assumes "proc_inv p" "c \<in> set (p_children p)"
  shows "proc_inv (p\<lparr>p_children := remove1 c (p_children p)\<rparr>)" (is "proc_inv ?q")
proof -
  have "one_run ?q" using assms(1) one_run_cong [of ?q p] by (simp add: proc_inv_def)
  moreover have "wg_counts ?q" using assms(1) by (simp add: proc_inv_def wg_counts_def)
  moreover have "cmds_ok ?q"
    using assms live_runs_cong [of ?q p] by (auto simp: proc_inv_def cmds_ok_def)
  moreover have "chans_ok ?q" using assms(1) by (simp add: proc_inv_def chans_ok_def chs_def)
  ultimately show ?thesis using assms(1) by (simp add: proc_inv_def)
qed

lemma proc_inv_scanned:
  assumes "proc_inv p" "c \<in> set (p_scanners p)"
  shows "proc_inv (wg_done (p\<lparr>p_scanners := remove1 c (p_scanners p)\<rparr>))" (is "proc_inv ?q")
proof -
  have pos: "0 < length (p_scanners p)" using assms(2) by (cases "p_scanners p") auto
  have "one_run ?q" using assms(1) one_run_cong [of ?q p] by (simp add: proc_inv_def wg_done_def)
  moreover have "wg_counts ?q"
    using assms pos Suc_leI [OF pos] by (simp add: proc_inv_def wg_counts_def wg_done_def length_remove1 del: length_greater_0_conv)
  moreover have "cmds_ok ?q"
    using assms live_runs_cong [of ?q p] by (simp add: proc_inv_def cmds_ok_def wg_done_def)
  moreover have "chans_ok ?q" using assms(1) by (simp add: proc_inv_def chans_ok_def wg_done_def chs_def)
  moreover have "\<not> p_panic ?q" using assms(1) pos by (simp add: proc_inv_def wg_done_def wg_counts_def)
  ultimately show ?thesis unfolding proc_inv_def by blast
qed

lemma chans_ok_cong:
  assumes "mset (chs q) = mset (chs p)" "p_fresh q = p_fresh p" "p_state q = p_state p" "p_stopCh q = p_stopCh p"
  shows "chans_ok q = chans_ok p"
  using mset_eq_setD [OF assms(1)] mset_eq_imp_distinct_iff [OF assms(1)] assms(2-4) by (simp add: chans_ok_def)

lemma mset_stops:
  "s \<in> set stops \<Longrightarrow> mset (concat (map to_close stops)) =
     mset (to_close s) + mset (concat (map to_close (remove1 s stops)))"
  by (induction stops) auto

lemma proc_inv_StopStep:
  assumes "proc_inv p" "s \<in> set (p_stops p)"
  shows "proc_inv (Stop_step s p)" (is "proc_inv ?q")
proof -
  have same: "p_state ?q = p_state p" "p_pending ?q = p_pending p" "p_runs ?q = p_runs p" "p_wg ?q = p_wg p"
    "p_scanners ?q = p_scanners p" "p_children ?q = p_children p" "p_cmd ?q = p_cmd p" "p_started ?q = p_started p"
    "p_fresh ?q = p_fresh p" "p_stopCh ?q = p_stopCh p"
    by (simp_all add: Stop_step_def Let_def close_chan_def split: stop_at.splits option.splits)
  have stops: "set (p_stops ?q) \<subseteq>
      set (p_stops p) \<union> (case s of StopClose _ (Some c) \<Rightarrow> {StopSignal c} | _ \<Rightarrow> {})"
    using set_remove1_subset [of s "p_stops p"]
    by (auto simp: Stop_step_def Let_def close_chan_def split: stop_at.splits option.splits)
  have started: "c \<in> set (p_started p)" if "s = StopClose ch (Some c) \<or> s = StopSignal c" for c ch
    using assms that by (auto simp: proc_inv_def cmds_ok_def)
  have "one_run ?q" using assms(1) one_run_cong [of ?q p] same by (simp add: proc_inv_def)
  moreover have "wg_counts ?q" using assms(1) by (simp add: proc_inv_def wg_counts_def same)
  moreover have "cmds_ok ?q"
  proof -
    have "c \<in> set (p_started p)" if "StopSignal c \<in> set (p_stops ?q)" for c
      using that stops started assms(1)
      by (fastforce simp: proc_inv_def cmds_ok_def split: stop_at.splits option.splits)
    moreover have "c \<in> set (p_started p)" if "StopClose ch (Some c) \<in> set (p_stops ?q)" for c ch
      using that stops assms(1)
      by (fastforce simp: proc_inv_def cmds_ok_def split: stop_at.splits option.splits)
    ultimately show ?thesis
      using assms(1) live_runs_cong [of ?q p] by (simp add: proc_inv_def cmds_ok_def same)
  qed
  moreover have "mset (chs ?q) = mset (chs p)"
    using mset_stops [OF assms(2)]
    by (auto simp: chs_def Stop_step_def Let_def close_chan_def split: stop_at.splits option.splits)
  then have "chans_ok ?q" using assms(1) chans_ok_cong [of ?q p] same by (simp add: proc_inv_def)
  moreover have "\<not> p_panic ?q"
  proof (cases s)
    case (StopClose ch cmd)
    then have "n \<notin> set (p_closed p)" if "ch = Some n" for n
    proof -
      have "distinct (chs p)" using assms(1) by (simp add: proc_inv_def chans_ok_def)
      moreover have "n \<in> set (concat (map to_close (p_stops p)))"
        using assms(2) StopClose that by (auto intro: bexI [of _ s])
      ultimately show ?thesis by (auto simp: chs_def)
    qed
    then show ?thesis using assms(1) StopClose
      by (auto simp: Stop_step_def Let_def close_chan_def proc_inv_def split: option.splits)
  next
    case (StopSignal c)
    then show ?thesis using assms(1) started by (auto simp: Stop_step_def proc_inv_def)
  qed
  ultimately show ?thesis unfolding proc_inv_def by blast
qed

lemma live_single:
  assumes "proc_inv p" "r \<in> set (p_runs p)" "r \<noteq> AtReport"
  shows "live_runs p = [r]" "p_pending p = 0" "run_allowed (p_state p) r" "\<not> at_rest (p_state p)"
proof -
  have mem: "r \<in> set (live_runs p)" using assms(2,3) by (simp add: live_runs_def)
  have o: "one_run p" using assms(1) by (simp add: proc_inv_def)
  show rest: "\<not> at_rest (p_state p)" using o mem by (auto simp: one_run_def)
  show pend: "p_pending p = 0" using o mem rest by (auto simp: one_run_def split: if_splits)
  then obtain r' where "live_runs p = [r']" "run_allowed (p_state p) r'"
    using o rest by (auto simp: one_run_def)
  with mem show "live_runs p = [r]" "run_allowed (p_state p) r" by auto
qed

lemma counted_live: "filter counted xs = filter counted (filter (\<lambda>r. r \<noteq> AtReport) xs)"
  by (induction xs) auto

lemma counted_single:
  "live_runs p = [r] \<Longrightarrow> length (filter counted (p_runs p)) = (if counted r then 1 else 0)"
  using counted_live [of "p_runs p"] by (simp add: live_runs_def)

text \<open>What a step of the goroutine leaves of the list of goroutines.\<close>

lemma runs_after:
  assumes "live_runs p = [r]" "r \<noteq> AtReport" "r' \<noteq> AtReport" "p_runs q = r' # remove1 r (p_runs p)"
  shows "live_runs q = [r']" "length (filter counted (p_runs q)) = (if counted r' then 1 else 0)"
    "AtCritical c \<in> set (p_runs q) \<Longrightarrow> r' = AtCritical c"
proof -
  show l: "live_runs q = [r']" using assms by (simp add: live_runs_def filter_remove1)
  from counted_single [OF l] show "length (filter counted (p_runs q)) = (if counted r' then 1 else 0)" .
  assume "AtCritical c \<in> set (p_runs q)"
  then have "AtCritical c \<in> set (live_runs q)" by (simp add: live_runs_def)
  with l show "r' = AtCritical c" by simp
qed

text \<open>The invariant after a step that leads to \<open>r'\<close>, from what the step does to the rest of the state.\<close>

lemma proc_inv_next:
  assumes "proc_inv p" "r \<in> set (p_runs p)" "r \<noteq> AtReport" "r' \<noteq> AtReport"
    and "p_runs q = r' # remove1 r (p_runs p)"
    and "p_pending q = 0" "\<not> at_rest (p_state q)" "run_allowed (p_state q) r'"
    and "p_wg q = (if counted r' then 1 else 0) + length (p_scanners q)"
    and "p_children q = [] \<or> (\<exists>c. p_children q = [c] \<and> r' \<in> {AtUp c, AtWait c})"
    and "\<forall>c. r' = AtCritical c \<longrightarrow> p_cmd q = Some c"
    and "p_state q = Running \<longrightarrow> (\<exists>c. p_cmd q = Some c \<and> c \<in> set (p_started q))"
    and "set (p_started p) \<subseteq> set (p_started q)" "p_stops q = p_stops p" "p_closed q = p_closed p"
    and "p_fresh q = p_fresh p" "p_stopCh q = p_stopCh p" "p_panic q = p_panic p"
    and "p_state q = p_state p \<or> p_state p = Starting"
  shows "proc_inv q"
proof -
  note live = live_single [OF assms(1-3)]
  note after = runs_after [OF live(1) assms(3-5)]
  have "one_run q" using assms(6-8) after(1) by (auto simp: one_run_def)
  moreover have "wg_counts q" using assms(9) after(2) by (simp add: wg_counts_def)
  moreover have "cmds_ok q"
    using assms(1,10-14) after by (auto simp: cmds_ok_def proc_inv_def)
  moreover have chs: "chs q = chs p" using assms(14,15) by (simp add: chs_def)
  have "chans_ok q"
    using assms(1,16,17,19) by (auto simp: chans_ok_def chs proc_inv_def)
  moreover have "\<not> p_panic q" using assms(1,18) by (simp add: proc_inv_def)
  ultimately show ?thesis unfolding proc_inv_def by blast
qed

lemma proc_inv_report:
  assumes "proc_inv p" "AtReport \<in> set (p_runs p)"
  shows "proc_inv (run_step AtReport ok p)" (is "proc_inv ?q")
proof -
  have runs: "p_runs ?q = remove1 AtReport (p_runs p)" by (simp add: run_step_def run_next_def)
  have live: "live_runs ?q = live_runs p" by (simp add: runs live_runs_def filter_remove1 remove1_idem)
  have cnt: "filter counted (p_runs ?q) = filter counted (p_runs p)"
    using live counted_live [of "p_runs ?q"] counted_live [of "p_runs p"] by (simp add: live_runs_def)
  have same: "p_state ?q = p_state p" "p_pending ?q = p_pending p" "p_stops ?q = p_stops p" "p_wg ?q = p_wg p"
    "p_scanners ?q = p_scanners p" "p_children ?q = p_children p" "p_cmd ?q = p_cmd p" "p_started ?q = p_started p"
    "p_fresh ?q = p_fresh p" "p_stopCh ?q = p_stopCh p" "p_closed ?q = p_closed p" "p_panic ?q = p_panic p"
    by (simp_all add: run_step_def run_next_def)
  have "one_run ?q" using assms(1) unfolding proc_inv_def one_run_def same live by blast
  moreover have "wg_counts ?q" using assms(1) by (simp add: proc_inv_def wg_counts_def same cnt)
  moreover have "AtCritical c \<in> set (p_runs ?q) \<Longrightarrow> AtCritical c \<in> set (p_runs p)" for c
    unfolding runs using set_remove1_subset [of AtReport "p_runs p"] by blast
  then have "cmds_ok ?q" using assms(1) unfolding proc_inv_def cmds_ok_def same live by blast
  moreover have "chs ?q = chs p" by (simp add: chs_def same)
  then have "chans_ok ?q" using assms(1) by (simp add: proc_inv_def chans_ok_def same)
  moreover have "\<not> p_panic ?q" using assms(1) by (simp add: proc_inv_def same)
  ultimately show ?thesis unfolding proc_inv_def by blast
qed

lemma proc_inv_run:
  assumes "proc_inv p" "r \<in> set (p_runs p)" "run_ready r p" "start_succeeds (EvRun r ok)"
  shows "proc_inv (run_step r ok p)"
proof (cases "r = AtReport")
  case True
  with assms(1,2) proc_inv_report show ?thesis by blast
next
  case False
  note live = live_single [OF assms(1,2) False]
  have wg: "p_wg p = (if counted r then 1 else 0) + length (p_scanners p)"
    using assms(1) counted_single [OF live(1)] by (simp add: proc_inv_def wg_counts_def)
  have kids: "p_children p = [] \<or> (\<exists>c. p_children p = [c] \<and> r \<in> {AtUp c, AtWait c})"
    and crit: "\<And>c. r = AtCritical c \<Longrightarrow> p_cmd p = Some c"
    and runs: "p_state p = Running \<longrightarrow> (\<exists>c. p_cmd p = Some c \<and> c \<in> set (p_started p))"
    using assms(1,2) live(1) by (auto simp: proc_inv_def cmds_ok_def)
  note rule = proc_inv_next [OF assms(1,2) False]
  show ?thesis
  proof (cases r)
    case AtBegin
    then show ?thesis
      using live wg kids runs
      by (intro rule [of "if p_cmd p = None \<or> \<not> ok then AtDone else AtCritical (the (p_cmd p))"])
        (auto simp: run_step_def run_next_def split: option.splits)
  next
    case (AtCritical c)
    show ?thesis
    proof (cases "p_state p = Stopping")
      case True
      then show ?thesis
        using live wg kids AtCritical by (intro rule [of AtDone]) (auto simp: run_step_def run_next_def)
    next
      case False
      then show ?thesis
        using live wg kids AtCritical assms(4) crit [OF AtCritical]
        by (intro rule [of "AtUp c"]) (auto simp: run_step_def run_next_def)
    qed
  next
    case (AtUp c)
    then show ?thesis
      using live wg kids runs by (intro rule [of "AtWait c"]) (auto simp: run_step_def run_next_def)
  next
    case (AtWait c)
    then show ?thesis
      using live wg kids runs assms(3) by (intro rule [of AtDone]) (auto simp: run_step_def run_next_def run_ready_def)
  next
    case AtDone
    then show ?thesis
      using live wg kids runs by (intro rule [of AtWgWait]) (auto simp: run_step_def run_next_def wg_done_def)
  next
    case AtWgWait
    then show ?thesis
      using live wg kids runs by (intro rule [of AtRead]) (auto simp: run_step_def run_next_def)
  next
    case AtRead
    then show ?thesis
      using live wg kids runs
      by (intro rule [of "AtPublish (if p_state p = Stopping then Stopped else Dead)"])
        (auto simp: run_step_def run_next_def)
  next
    case (AtPublish s)
    let ?q = "run_step r ok p"
    have s: "at_rest s" using live(3) AtPublish by auto
    have q: "p_state ?q = s" "p_runs ?q = AtReport # remove1 r (p_runs p)" "p_pending ?q = 0"
      "p_wg ?q = p_wg p" "p_scanners ?q = p_scanners p" "p_children ?q = []" "p_stops ?q = p_stops p"
      "p_started ?q = p_started p" "p_closed ?q = p_closed p" "p_fresh ?q = p_fresh p" "p_panic ?q = p_panic p"
      using live kids AtPublish by (auto simp: run_step_def run_next_def)
    have none: "live_runs ?q = []" using live(1) by (simp add: live_runs_def q filter_remove1)
    then have "one_run ?q" using s by (simp add: one_run_def q)
    moreover have "filter counted (p_runs ?q) = []"
      using none counted_live [of "p_runs ?q"] by (simp add: live_runs_def)
    then have "wg_counts ?q" using wg AtPublish unfolding wg_counts_def q(4,5) by simp
    moreover have "AtCritical c \<notin> set (p_runs ?q)" for c using none by (auto simp: live_runs_def filter_empty_conv)
    then have "cmds_ok ?q" using assms(1) s by (auto simp: proc_inv_def cmds_ok_def q(1,6-8))
    moreover have "chs ?q = chs p" by (simp add: chs_def q)
    then have "chans_ok ?q" using assms(1) s by (auto simp: proc_inv_def chans_ok_def q)
    moreover have "\<not> p_panic ?q" using assms(1) by (simp add: proc_inv_def q)
    ultimately show ?thesis unfolding proc_inv_def by blast
  qed (use False in simp)
qed

lemma proc_inv_step:
  assumes "proc_inv p" "start_succeeds e" "proc_step e p = Some p'"
  shows "proc_inv p'"
proof (cases e)
  case (EvRun r ok)
  with assms show ?thesis by (auto intro: proc_inv_run split: if_splits)
qed (use assms in \<open>auto intro: proc_inv_Start proc_inv_Stop proc_inv_spawn proc_inv_StopStep proc_inv_exit
    proc_inv_scanned split: if_splits\<close>)

interpretation proc: stepper proc_step proc_run start_succeeds proc_inv
  by unfold_locales (auto intro: proc_inv_step split: option.splits)

lemmas proc_inv_runs = proc.run_inv

text \<open>
  C6. Supervising one child: whatever the interleaving of starts, stops, the goroutines and the
  child, as long as every command that is tried can be started, at most one child is alive; none is
  in a state in which the manager may start another (Created, Stopped, Dead), and then no goroutine
  is left that could still change the state; and nothing panics (no stop channel is closed twice,
  no command signalled before it was started, the \<open>WaitGroup\<close> never goes negative).
\<close>

theorem one_child:
  assumes "proc_run es (new_process b) = Some p" "list_all start_succeeds es"
  shows "length (p_children p) \<le> 1 \<and> \<not> p_panic p \<and>
    (p_state p \<in> {Created, Stopped, Dead} \<longrightarrow>
       p_children p = [] \<and> p_pending p = 0 \<and> (\<forall>r \<in> set (p_runs p). r = AtReport))"
proof -
  have inv: "proc_inv p" using proc_inv_runs [OF proc_inv_new assms(2,1)] .
  then have "length (p_children p) \<le> 1" by (auto simp: proc_inv_def cmds_ok_def)
  moreover have "p_children p = [] \<and> p_pending p = 0 \<and> (\<forall>r \<in> set (p_runs p). r = AtReport)" if "at_rest (p_state p)"
    using inv that by (auto simp: proc_inv_def one_run_def cmds_ok_def live_runs_def filter_empty_conv)
  ultimately show ?thesis using inv by (simp add: proc_inv_def)
qed

text \<open>A process started, run, stopped, and done.\<close>

definition full_life :: "proc_event list" where
  "full_life =
     [EvStart, EvSpawn, EvRun AtBegin True, EvRun (AtCritical 1) True, EvRun (AtUp 1) True, EvStop,
      EvStopStep (StopClose (Some 1) (Some 1)), EvStopStep (StopSignal 1), EvExit 1, EvScanned 1,
      EvRun (AtWait 1) True, EvRun AtDone True, EvRun AtWgWait True, EvRun AtRead True,
      EvRun (AtPublish Stopped) True, EvRun AtReport True]"

lemmas proc_defs = new_process_def Start_lock_def Stop_lock_def Stop_step_def run_spawn_def run_step_def
  run_next_def run_ready_def wg_done_def close_chan_def

lemma full_life_run:
  "\<exists>p. proc_run full_life (new_process True) = Some p \<and> p_state p = Stopped \<and> p_sent p = [False, True]"
  by (simp add: full_life_def proc_defs)

theorem one_child_witness:
  "p_children (the (proc_run full_life (new_process True))) = [] \<and>
   \<not> p_panic (the (proc_run full_life (new_process True)))"
proof -
  obtain p where p: "proc_run full_life (new_process True) = Some p" "p_state p = Stopped"
    using full_life_run by blast
  have "list_all start_succeeds full_life" by (simp add: full_life_def)
  from one_child [OF p(1) this] p show ?thesis by simp
qed

section \<open>Coming to rest\<close>

text \<open>
  The number of steps that are left, when no further start or stop is asked for.
\<close>

fun run_work :: "run_at \<Rightarrow> nat" where
  "run_work AtBegin = 11"
| "run_work (AtCritical _) = 10"
| "run_work (AtUp _) = 8"
| "run_work (AtWait _) = 6"
| "run_work AtDone = 5"
| "run_work AtWgWait = 4"
| "run_work AtRead = 3"
| "run_work (AtPublish _) = 2"
| "run_work AtReport = 1"

fun stop_work :: "stop_at \<Rightarrow> nat" where
  "stop_work (StopClose _ _) = 2"
| "stop_work (StopSignal _) = 1"

definition proc_work :: "ptp_process \<Rightarrow> nat" where
  "proc_work p = 12 * p_pending p + sum_list (map run_work (p_runs p)) + sum_list (map stop_work (p_stops p)) +
     length (p_children p) + length (p_scanners p)"

fun internal :: "proc_event \<Rightarrow> bool" where
  "internal EvStart = False"
| "internal EvStop = False"
| "internal _ = True"

lemma sum_list_remove1:
  fixes f :: "'a \<Rightarrow> nat"
  shows "x \<in> set xs \<Longrightarrow> sum_list (map f xs) = f x + sum_list (map f (remove1 x xs))"
  by (induction xs) auto

lemma length_remove1_less: "x \<in> set xs \<Longrightarrow> length (remove1 x xs) < length xs"
  by (induction xs) auto

lemma work_stop: "s \<in> set (p_stops p) \<Longrightarrow> proc_work (Stop_step s p) < proc_work p"
  using sum_list_remove1 [of s "p_stops p" stop_work]
  by (cases s) (auto simp: proc_work_def Stop_step_def close_chan_def Let_def split: option.splits)

lemma work_run: "r \<in> set (p_runs p) \<Longrightarrow> proc_work (run_step r ok p) < proc_work p"
  using sum_list_remove1 [of r "p_runs p" run_work]
  by (cases r) (auto simp: proc_work_def run_step_def run_next_def wg_done_def split: option.splits)

lemma work_step: "internal e \<Longrightarrow> proc_step e p = Some p' \<Longrightarrow> proc_work p' < proc_work p"
proof (cases e)
  case EvSpawn
  then show "proc_step e p = Some p' \<Longrightarrow> proc_work p' < proc_work p"
    by (auto simp: proc_work_def run_spawn_def split: if_splits)
next
  case (EvExit c)
  then show "proc_step e p = Some p' \<Longrightarrow> proc_work p' < proc_work p"
    using length_remove1_less [of c "p_children p"] by (auto simp: proc_work_def split: if_splits)
next
  case (EvScanned c)
  then show "proc_step e p = Some p' \<Longrightarrow> proc_work p' < proc_work p"
    using length_remove1_less [of c "p_scanners p"] by (auto simp: proc_work_def wg_done_def split: if_splits)
qed (auto intro: work_stop work_run split: if_splits)

lemma work_run_bound:
  "list_all internal es \<Longrightarrow> proc_run es p = Some p' \<Longrightarrow> length es + proc_work p' \<le> proc_work p"
proof (induction es arbitrary: p)
  case (Cons e es)
  then obtain q where q: "proc_step e p = Some q" "proc_run es q = Some p'" by (auto split: option.splits)
  with Cons.prems Cons.IH [of q] work_step [OF _ q(1)] show ?case by simp
qed simp

text \<open>As long as there is work, some goroutine, the child or its output can make a step.\<close>

lemma proc_progress:
  assumes "proc_inv p" "0 < proc_work p"
  shows "\<exists>e. internal e \<and> start_succeeds e \<and> proc_step e p \<noteq> None"
proof (cases "0 < p_pending p \<or> p_children p \<noteq> [] \<or> p_scanners p \<noteq> [] \<or> p_stops p \<noteq> []")
  case True
  then show ?thesis
  proof (elim disjE)
    assume "0 < p_pending p" then show ?thesis by (intro exI [of _ EvSpawn]) simp
  next
    assume "p_children p \<noteq> []" then show ?thesis by (intro exI [of _ "EvExit (hd (p_children p))"]) simp
  next
    assume "p_scanners p \<noteq> []" then show ?thesis by (intro exI [of _ "EvScanned (hd (p_scanners p))"]) simp
  next
    assume "p_stops p \<noteq> []" then show ?thesis by (intro exI [of _ "EvStopStep (hd (p_stops p))"]) simp
  qed
next
  case False
  then obtain r rs where r: "p_runs p = r # rs" using assms(2) by (cases "p_runs p") (auto simp: proc_work_def)
  have "run_ready r p"
  proof (cases "r = AtWgWait")
    case True
    then have "live_runs p = [AtWgWait]" using live_single(1) [OF assms(1), of r] r by simp
    then have "p_wg p = 0" using False assms(1) counted_single by (auto simp: proc_inv_def wg_counts_def)
    with True show ?thesis by (simp add: run_ready_def)
  qed (use False in \<open>auto simp: run_ready_def split: run_at.splits\<close>)
  then have "proc_step (EvRun r True) p \<noteq> None" using r by simp
  moreover have "start_succeeds (EvRun r True)" by (cases r) auto
  ultimately show ?thesis by (intro exI [of _ "EvRun r True"]) simp
qed

lemma work_pos [simp]: "0 < run_work r" "0 < stop_work s"
  by (cases r; simp) (cases s; simp)

lemma proc_work_0:
  assumes "proc_work p = 0"
  shows "p_pending p = 0 \<and> p_runs p = [] \<and> p_stops p = [] \<and> p_children p = [] \<and> p_scanners p = []"
proof -
  have "run_work r \<noteq> 0" "stop_work s \<noteq> 0" for r s using work_pos(1) [of r] work_pos(2) [of s] by simp_all
  then show ?thesis
    using assms by (cases "p_runs p"; cases "p_stops p") (simp_all add: proc_work_def)
qed

text \<open>
  C10. Stopping terminates: after any history in which commands could be started, if no further start or
  stop is asked for, at most \<open>proc_work\<close> more steps happen (the exit of the child among them), and
  when none can happen any more the process is at rest: Created, Stopped or Dead, with no child, no
  goroutine and no stop in progress.
\<close>

theorem process_comes_to_rest:
  assumes "proc_run es (new_process b) = Some p" "list_all start_succeeds es"
    and "proc_run es' p = Some p'" "list_all internal es'" "list_all start_succeeds es'"
  shows "length es' \<le> proc_work p \<and>
    ((\<exists>e. internal e \<and> start_succeeds e \<and> proc_step e p' \<noteq> None) \<or>
     p_state p' \<in> {Created, Stopped, Dead} \<and> p_children p' = [] \<and> p_runs p' = [] \<and> p_stops p' = [] \<and> p_wg p' = 0)"
proof (cases "proc_work p' = 0")
  case True
  have "proc_inv p'" using proc_inv_runs [OF proc_inv_runs [OF proc_inv_new assms(2,1)] assms(5,3)] .
  then show ?thesis
    using proc_work_0 [OF True] work_run_bound [OF assms(4,3)]
    by (auto simp: proc_inv_def one_run_def live_runs_def wg_counts_def split: if_splits)
next
  case False
  have "proc_inv p'" using proc_inv_runs [OF proc_inv_runs [OF proc_inv_new assms(2,1)] assms(5,3)] .
  from proc_progress [OF this] False work_run_bound [OF assms(4,3)] show ?thesis by simp
qed

theorem process_comes_to_rest_witness:
  "\<exists>p p'. proc_run (take 6 full_life) (new_process True) = Some p \<and> proc_run (drop 6 full_life) p = Some p' \<and>
     10 \<le> proc_work p \<and> p_children p \<noteq> [] \<and> p_children p' = []"
proof -
  obtain p where p: "proc_run (take 6 full_life) (new_process True) = Some p" "p_children p \<noteq> []"
    by (simp add: full_life_def proc_defs)
  obtain p' where p': "proc_run (drop 6 full_life) p = Some p'" "\<not> 0 < length (p_children p')"
    using p(1) by (auto simp: full_life_def proc_defs)
  have "list_all start_succeeds (take 6 full_life)" "list_all internal (drop 6 full_life)"
    "list_all start_succeeds (drop 6 full_life)" "length (drop 6 full_life) = 10"
    by (simp_all add: full_life_def)
  with process_comes_to_rest [OF p(1) _ p'(1)] p p' show ?thesis by auto
qed

section \<open>What goes wrong\<close>

text \<open>
  A stop can be taken for a crash: when the child exits by itself, the goroutine reads the state, and a
  stop asked for between that read and the write is overwritten: the process ends Dead, not Stopped,
  although the stop was accepted, and the manager may start it again.
\<close>

lemma stop_overwritten_by_exit:
  "\<exists>p. proc_run ([EvStart, EvSpawn, EvRun AtBegin True, EvRun (AtCritical 1) True, EvRun (AtUp 1) True, EvExit 1,
        EvScanned 1, EvRun (AtWait 1) True, EvRun AtDone True, EvRun AtWgWait True, EvRun AtRead True, EvStop,
        EvRun (AtPublish Dead) True]) (new_process True) = Some p \<and>
     p_state p = Dead \<and> p_stops p = [StopClose (Some 1) (Some 1)]"
  by (simp add: proc_defs)

definition failed_then_started :: "proc_event list" where
  "failed_then_started =
     [EvStart, EvSpawn, EvRun AtBegin True, EvRun (AtCritical 1) False, EvRun AtDone True, EvRun AtWgWait True,
      EvStart, EvSpawn, EvRun AtBegin True, EvRun (AtCritical 2) True, EvRun AtRead True, EvRun (AtPublish Dead) True]"

text \<open>
  A command that cannot be started leaves the process Dead while its goroutine still has to publish
  a state. If the manager starts the process again in between, that goroutine marks the new run
  Dead while its child is alive: a stop is then ignored, and a further start runs a second child.
\<close>

lemma failed_start_loses_child:
  "\<exists>p. proc_run failed_then_started (new_process True) = Some p \<and> p_state p = Dead \<and> p_children p = [2] \<and>
     Stop_lock p = p \<and>
     (\<exists>q. proc_run [EvStart, EvSpawn, EvRun AtBegin True, EvRun (AtCritical 3) True] p = Some q \<and>
          p_children q = [3, 2])"
  by (simp add: failed_then_started_def proc_defs)

end
