(* ===== verification/SideProcess.thy ===== *)
theory SideProcess
  imports PtpProcess
begin

text \<open>
  The other managed processes: \<open>GPSD\<close> and \<open>GpsPipe\<close> (\<open>pkg/daemon/gpsd.go\<close>, \<open>gpspipe.go\<close>), which
  start their command outside the lock, and \<open>PMCProcess\<close> (\<open>pkg/daemon/pmc.go\<close>), which has no
  command of its own. They keep the state of \<open>PtpProcess\<close>; \<open>Start\<close> begins as \<open>Start_lock\<close> does.
  \<open>resetSerialPort\<close>, \<open>mkFifo\<close>, the monitoring of the receiver and the dialogue with pmc are steps
  whose outcome is part of the run.
\<close>

section \<open>gpsd and gpspipe\<close>

text \<open>
  Where the goroutine of \<open>run\<close> is. It starts the command at \<open>GpExec\<close>, after the serial port has been
  reset or the pipe made, and looks at the state only afterwards.
\<close>

datatype gps_at =
    GpBegin
  | GpPrepare nat
  | GpExec nat
  | GpLock nat
  | GpLateTerm nat
  | GpUp nat
  | GpWait nat
  | GpRead
  | GpPublish process_state
  | GpReport
  | GpDone

record gps_process = ptp_process +
  gp_runs :: "gps_at list"

definition new_gps :: "gps_process" where
  "new_gps =
     \<lparr>p_state = Created, p_stopCh = None, p_cmd = Some 0, p_fresh = 1, p_wg = 0,
      p_pending = 0, p_runs = [], p_scanners = [], p_started = [], p_children = [], p_stops = [], p_closed = [],
      p_sent = [], p_panic = False, gp_runs = []\<rparr>"

text \<open>The critical sections of \<open>Start\<close> and \<open>Stop\<close>; \<open>Stop\<close> takes the command in every state.\<close>

definition gps_Start_lock :: "string \<Rightarrow> gps_process \<Rightarrow> gps_process \<times> string option" where
  "gps_Start_lock name p =
     (case p_state p of
        Starting \<Rightarrow> (p, None)
      | Running \<Rightarrow> (p, None)
      | Stopping \<Rightarrow> (p, Some (name @ '' is stopping''))
      | _ \<Rightarrow> (p\<lparr>p_stopCh := Some (p_fresh p), p_cmd := map_option (\<lambda>_. p_fresh p) (p_cmd p),
               p_fresh := p_fresh p + 1, p_state := Starting, p_pending := p_pending p + 1\<rparr>, None))"

definition gps_Stop_lock :: "gps_process \<Rightarrow> gps_process" where
  "gps_Stop_lock p =
     (if p_state p \<in> {Created, Stopping, Stopped, Dead} then p
      else p\<lparr>p_state := Stopping, p_stops := StopClose (p_stopCh p) (p_cmd p) # p_stops p\<rparr>)"

definition gps_next :: "gps_at \<Rightarrow> bool \<Rightarrow> gps_process \<Rightarrow> gps_at option \<times> gps_process" where
  "gps_next r ok p =
     (case r of
        GpBegin \<Rightarrow> (case p_cmd p of None \<Rightarrow> (Some GpRead, p) | Some c \<Rightarrow> (Some (GpPrepare c), p))
      | GpPrepare c \<Rightarrow> (Some (if ok then GpExec c else GpRead), p)
      | GpExec c \<Rightarrow>
          (if ok then (Some (GpLock c), p\<lparr>p_started := c # p_started p, p_children := c # p_children p\<rparr>)
           else (Some GpRead, p))
      | GpLock c \<Rightarrow>
          (if p_state p = Stopping then (Some (GpLateTerm c), p) else (Some (GpUp c), p\<lparr>p_state := Running\<rparr>))
      | GpLateTerm c \<Rightarrow> (Some (GpWait c), p)
      | GpUp c \<Rightarrow> (Some (GpWait c), p\<lparr>p_sent := True # p_sent p\<rparr>)
      | GpWait c \<Rightarrow> (Some GpRead, p)
      | GpRead \<Rightarrow> (Some (GpPublish (if p_state p = Stopping then Stopped else Dead)), p)
      | GpPublish s \<Rightarrow> (Some GpReport, p\<lparr>p_state := s\<rparr>)
      | GpReport \<Rightarrow> (Some GpDone, p\<lparr>p_sent := False # p_sent p\<rparr>)
      | GpDone \<Rightarrow> (None, p\<lparr>p_wg := p_wg p - 1, p_panic := (p_panic p \<or> p_wg p = 0)\<rparr>))"

definition gps_run_step :: "gps_at \<Rightarrow> bool \<Rightarrow> gps_process \<Rightarrow> gps_process" where
  "gps_run_step r ok p =
     (let (next, p1) = gps_next r ok (p\<lparr>gp_runs := remove1 r (gp_runs p)\<rparr>)
      in case next of None \<Rightarrow> p1 | Some r' \<Rightarrow> p1\<lparr>gp_runs := r' # gp_runs p1\<rparr>)"

definition gps_Stop_step :: "stop_at \<Rightarrow> gps_process \<Rightarrow> gps_process" where
  "gps_Stop_step s p =
     (let p1 = p\<lparr>p_stops := remove1 s (p_stops p)\<rparr> in
      case s of
        StopClose ch cmd \<Rightarrow>
          (let p2 = (case ch of None \<Rightarrow> p1
                     | Some n \<Rightarrow> p1\<lparr>p_closed := n # p_closed p1, p_panic := (p_panic p1 \<or> n \<in> set (p_closed p1))\<rparr>)
           in case cmd of None \<Rightarrow> p2 | Some c \<Rightarrow> p2\<lparr>p_stops := StopSignal c # p_stops p2\<rparr>)
      | StopSignal c \<Rightarrow> p1\<lparr>p_panic := (p_panic p1 \<or> c \<notin> set (p_started p1))\<rparr>)"

datatype gps_event = GvStart | GvStop | GvSpawn | GvStopStep stop_at | GvRun gps_at bool | GvExit nat

fun gps_step :: "gps_event \<Rightarrow> gps_process \<Rightarrow> gps_process option" where
  "gps_step GvStart p = Some (fst (gps_Start_lock '''' p))"
| "gps_step GvStop p = Some (gps_Stop_lock p)"
| "gps_step GvSpawn p =
     (if 0 < p_pending p
      then Some (p\<lparr>p_pending := p_pending p - 1, p_wg := p_wg p + 1, gp_runs := GpBegin # gp_runs p\<rparr>) else None)"
| "gps_step (GvStopStep s) p = (if s \<in> set (p_stops p) then Some (gps_Stop_step s p) else None)"
| "gps_step (GvRun r ok) p =
     (if r \<in> set (gp_runs p) \<and> (case r of GpWait c \<Rightarrow> c \<notin> set (p_children p) | _ \<Rightarrow> True)
      then Some (gps_run_step r ok p) else None)"
| "gps_step (GvExit c) p =
     (if c \<in> set (p_children p) then Some (p\<lparr>p_children := remove1 c (p_children p)\<rparr>) else None)"

fun gps_run :: "gps_event list \<Rightarrow> gps_process \<Rightarrow> gps_process option" where
  "gps_run [] p = Some p"
| "gps_run (e # es) p = (case gps_step e p of None \<Rightarrow> None | Some p' \<Rightarrow> gps_run es p')"

section \<open>pmc\<close>

datatype pmc_at = PmRunning | PmUp | PmMonitor | PmRead | PmPublish process_state | PmReport | PmDone

record pmc_process =
  pc_state :: process_state
  pc_stopCh :: "nat option"
  pc_fresh :: nat
  pc_pending :: nat
  pc_wg :: nat
  pc_runs :: "pmc_at list"
  pc_stops :: "nat option list"
  pc_closed :: "nat list"
  pc_sent :: "bool list"
  pc_panic :: bool

definition new_pmc :: pmc_process where
  "new_pmc = \<lparr>pc_state = Created, pc_stopCh = None, pc_fresh = 0, pc_pending = 0, pc_wg = 0, pc_runs = [],
     pc_stops = [], pc_closed = [], pc_sent = [], pc_panic = False\<rparr>"

definition pmc_Start_lock :: "pmc_process \<Rightarrow> pmc_process \<times> string option" where
  "pmc_Start_lock p =
     (case pc_state p of
        Starting \<Rightarrow> (p, None)
      | Running \<Rightarrow> (p, None)
      | Stopping \<Rightarrow> (p, Some ''pmc is stopping'')
      | _ \<Rightarrow> (p\<lparr>pc_stopCh := Some (pc_fresh p), pc_fresh := pc_fresh p + 1, pc_state := Starting,
               pc_pending := pc_pending p + 1\<rparr>, None))"

definition pmc_Stop_lock :: "pmc_process \<Rightarrow> pmc_process" where
  "pmc_Stop_lock p =
     (if pc_state p \<in> {Created, Stopping, Stopped, Dead} then p
      else p\<lparr>pc_state := Stopping, pc_stops := pc_stopCh p # pc_stops p\<rparr>)"

definition pmc_close :: "nat option \<Rightarrow> pmc_process \<Rightarrow> pmc_process" where
  "pmc_close ch p =
     (let p1 = p\<lparr>pc_stops := remove1 ch (pc_stops p)\<rparr> in
      case ch of None \<Rightarrow> p1
      | Some n \<Rightarrow> p1\<lparr>pc_closed := n # pc_closed p1, pc_panic := (pc_panic p1 \<or> n \<in> set (pc_closed p1))\<rparr>)"

text \<open>\<open>Monitor\<close> ends when its pmc exits (\<open>ok\<close> false) or when the channel has been closed.\<close>

definition pmc_next :: "pmc_at \<Rightarrow> pmc_process \<Rightarrow> pmc_at option \<times> pmc_process" where
  "pmc_next r p =
     (case r of
        PmRunning \<Rightarrow> (Some PmUp, p\<lparr>pc_state := Running\<rparr>)
      | PmUp \<Rightarrow> (Some PmMonitor, p\<lparr>pc_sent := True # pc_sent p\<rparr>)
      | PmMonitor \<Rightarrow> (Some PmRead, p)
      | PmRead \<Rightarrow> (Some (PmPublish (if pc_state p = Stopping then Stopped else Dead)), p)
      | PmPublish s \<Rightarrow> (Some PmReport, p\<lparr>pc_state := s\<rparr>)
      | PmReport \<Rightarrow> (Some PmDone, p\<lparr>pc_sent := False # pc_sent p\<rparr>)
      | PmDone \<Rightarrow> (None, p\<lparr>pc_wg := pc_wg p - 1\<rparr>))"

datatype pmc_event = PvStart | PvStop | PvSpawn | PvClose "nat option" | PvRun pmc_at

fun pmc_step :: "pmc_event \<Rightarrow> pmc_process \<Rightarrow> pmc_process option" where
  "pmc_step PvStart p = Some (fst (pmc_Start_lock p))"
| "pmc_step PvStop p = Some (pmc_Stop_lock p)"
| "pmc_step PvSpawn p =
     (if 0 < pc_pending p
      then Some (p\<lparr>pc_pending := pc_pending p - 1, pc_wg := pc_wg p + 1, pc_runs := PmRunning # pc_runs p\<rparr>) else None)"
| "pmc_step (PvClose ch) p = (if ch \<in> set (pc_stops p) then Some (pmc_close ch p) else None)"
| "pmc_step (PvRun r) p =
     (if r \<in> set (pc_runs p)
      then (let (next, p1) = pmc_next r (p\<lparr>pc_runs := remove1 r (pc_runs p)\<rparr>)
            in Some (case next of None \<Rightarrow> p1 | Some r' \<Rightarrow> p1\<lparr>pc_runs := r' # pc_runs p1\<rparr>))
      else None)"

fun pmc_run :: "pmc_event list \<Rightarrow> pmc_process \<Rightarrow> pmc_process option" where
  "pmc_run [] p = Some p"
| "pmc_run (e # es) p = (case pmc_step e p of None \<Rightarrow> None | Some p' \<Rightarrow> pmc_run es p')"

section \<open>Stopping too early\<close>

text \<open>
  Stopping gpsd or gpspipe before its command has been started panics: \<open>Stop\<close> reads the pid of a
  command that is not running, because in the state Starting it does not leave the command alone as
  \<open>ptpProcess.Stop\<close> does. (With \<open>ptpProcess\<close> the same sequence ends stopped and without a panic.)
\<close>

lemma gps_stop_while_starting_panics:
  "(\<exists>p. gps_run [GvStart, GvSpawn, GvRun GpBegin True, GvStop, GvStopStep (StopClose (Some 1) (Some 1)),
           GvStopStep (StopSignal 1)] new_gps = Some p \<and> p_panic p) \<and>
   (\<exists>p. proc_run [EvStart, EvSpawn, EvRun AtBegin True, EvStop, EvStopStep (StopClose (Some 1) None),
           EvRun (AtCritical 1) True, EvRun AtDone True, EvRun AtWgWait True, EvRun AtRead True,
           EvRun (AtPublish Stopped) True] (new_process True) = Some p \<and> \<not> p_panic p \<and> p_state p = Stopped)"
  by (simp add: new_gps_def gps_Start_lock_def gps_Stop_lock_def gps_Stop_step_def gps_run_step_def gps_next_def
      proc_defs)

text \<open>
  Stopping pmc before its goroutine has run is undone: the goroutine writes Running over Stopping, so the
  process ends Dead, to be restarted; and a second stop closes the stop channel again, which panics.
\<close>

lemma pmc_stop_while_starting_undone:
  "(\<exists>p. pmc_run [PvStart, PvSpawn, PvStop, PvClose (Some 0), PvRun PmRunning, PvRun PmUp, PvRun PmMonitor,
           PvRun PmRead, PvRun (PmPublish Dead)] new_pmc = Some p \<and> pc_state p = Dead) \<and>
   (\<exists>p. pmc_run [PvStart, PvSpawn, PvStop, PvClose (Some 0), PvRun PmRunning, PvStop, PvClose (Some 0)] new_pmc
      = Some p \<and> pc_panic p)"
  by (simp add: new_pmc_def pmc_Start_lock_def pmc_Stop_lock_def pmc_close_def pmc_next_def)

end
