(* ===== verification/PubSub.thy ===== *)
theory PubSub
  imports Prelude "HOL-Library.Multiset"
begin

text \<open>
  The subscriptions of cloud-event-proxy (\<open>pkg/cep/pubsub.go\<close>, \<open>store.go\<close>): a slice with a free list
  and an index from resources to slots, persisted after every change. It refines a plain multiset
  of subscriptions. The identifiers that \<open>uuid.New\<close> makes and the outcome of saving are part of a
  run; a writer is named by the endpoint it posts to. The bytes of the files and of the ConfigMap
  are not modelled, the records in them are.
\<close>

section \<open>Data\<close>

record subscription =
  sub_ID :: string
  sub_Resource :: string
  sub_Endpoint :: string
  sub_W :: "string option"
  sub_active :: bool

definition no_subscription :: subscription where
  "no_subscription = \<lparr>sub_ID = '''', sub_Resource = '''', sub_Endpoint = '''', sub_W = None, sub_active = False\<rparr>"

type_synonym sub_record = "string \<times> string \<times> string"

record pubsub =
  ps_subs :: "subscription list"
  ps_free :: "nat list"
  ps_index :: "string \<rightharpoonup> nat list"
  ps_writers :: bool
  ps_stored :: "sub_record list"

definition NewPubSub :: "sub_record list \<Rightarrow> bool \<Rightarrow> pubsub" where
  "NewPubSub stored writers =
     \<lparr>ps_subs = [], ps_free = [], ps_index = Map.empty, ps_writers = writers, ps_stored = stored\<rparr>"

text \<open>Reading a missing key of the index gives the nil slice.\<close>

definition slots_of :: "pubsub \<Rightarrow> string \<Rightarrow> nat list" where
  "slots_of ps r = (case ps_index ps r of None \<Rightarrow> [] | Some l \<Rightarrow> l)"

section \<open>Operations\<close>

text \<open>\<open>save\<close>: the records of the active subscriptions; a store that fails keeps what it has.\<close>

definition record_of :: "subscription \<Rightarrow> sub_record" where
  "record_of s = (sub_ID s, sub_Resource s, sub_Endpoint s)"

definition ps_save :: "bool \<Rightarrow> pubsub \<Rightarrow> pubsub" where
  "ps_save ok ps = (if ok then ps\<lparr>ps_stored := map record_of (filter sub_active (ps_subs ps))\<rparr> else ps)"

definition make_sub :: "bool \<Rightarrow> sub_record \<Rightarrow> subscription" where
  "make_sub writers r =
     (case r of (uid, resource, endpoint) \<Rightarrow>
       \<lparr>sub_ID = uid, sub_Resource = resource, sub_Endpoint = endpoint,
        sub_W = (if endpoint \<noteq> '''' \<and> writers then Some endpoint else None), sub_active = True\<rparr>)"

definition index_add :: "string \<Rightarrow> nat \<Rightarrow> (string \<rightharpoonup> nat list) \<Rightarrow> (string \<rightharpoonup> nat list)" where
  "index_add r i ix = ix(r \<mapsto> (case ix r of None \<Rightarrow> [] | Some l \<Rightarrow> l) @ [i])"

definition insertLocked :: "string \<Rightarrow> bool \<Rightarrow> string \<Rightarrow> string \<Rightarrow> pubsub \<Rightarrow> pubsub" where
  "insertLocked uuid ok resource endpoint ps =
     (let sub = make_sub (ps_writers ps) (uuid, resource, endpoint);
          (idx, ps1) = (if ps_free ps \<noteq> []
            then (last (ps_free ps), ps\<lparr>ps_free := butlast (ps_free ps),
                                        ps_subs := (ps_subs ps)[last (ps_free ps) := sub]\<rparr>)
            else (length (ps_subs ps), ps\<lparr>ps_subs := ps_subs ps @ [sub]\<rparr>))
      in ps_save ok (ps1\<lparr>ps_index := index_add resource idx (ps_index ps1)\<rparr>))"

definition existing :: "string \<Rightarrow> string \<Rightarrow> pubsub \<Rightarrow> nat option" where
  "existing resource endpoint ps =
     find (\<lambda>i. sub_active (ps_subs ps ! i) \<and> sub_Endpoint (ps_subs ps ! i) = endpoint) (slots_of ps resource)"

definition Subscribe :: "string \<Rightarrow> bool \<Rightarrow> string \<Rightarrow> string \<Rightarrow> pubsub \<Rightarrow> pubsub \<times> string \<times> bool" where
  "Subscribe uuid ok resource endpoint ps =
     (case existing resource endpoint ps of
        Some i \<Rightarrow> (ps, sub_ID (ps_subs ps ! i), True)
      | None \<Rightarrow> (insertLocked uuid ok resource endpoint ps, uuid, False))"

text \<open>The slot of an identifier: the loops of \<open>Unsubscribe\<close>, \<open>Get\<close> and \<open>PublishToID\<close>.\<close>

definition slot_of_id :: "string \<Rightarrow> pubsub \<Rightarrow> nat option" where
  "slot_of_id uid ps =
     find (\<lambda>i. sub_active (ps_subs ps ! i) \<and> sub_ID (ps_subs ps ! i) = uid) [0..<length (ps_subs ps)]"

text \<open>Removing an element of a slice by swapping the last one into its place.\<close>

fun swap_remove :: "nat \<Rightarrow> nat list \<Rightarrow> nat list" where
  "swap_remove x [] = []"
| "swap_remove x (y # ys) =
     (if y = x then (if ys = [] then [] else last ys # butlast ys) else y # swap_remove x ys)"

definition Unsubscribe :: "string \<Rightarrow> bool \<Rightarrow> pubsub \<Rightarrow> pubsub \<times> bool" where
  "Unsubscribe uid ok ps =
     (case slot_of_id uid ps of
        None \<Rightarrow> (ps, False)
      | Some idx \<Rightarrow>
          (let resource = sub_Resource (ps_subs ps ! idx);
               indices = swap_remove idx (slots_of ps resource);
               ps1 = ps\<lparr>ps_subs := (ps_subs ps)[idx := no_subscription], ps_free := ps_free ps @ [idx],
                        ps_index := (if indices = [] then (ps_index ps)(resource := None)
                                     else (ps_index ps)(resource \<mapsto> indices))\<rparr>
           in (ps_save ok ps1, True)))"

definition UnsubscribeAll :: "bool \<Rightarrow> pubsub \<Rightarrow> pubsub" where
  "UnsubscribeAll ok ps = ps_save ok (ps\<lparr>ps_subs := [], ps_free := [], ps_index := Map.empty\<rparr>)"

text \<open>What is posted to: the identifier and the endpoint of each target, in the order of the index.\<close>

definition getTargets :: "string \<Rightarrow> pubsub \<Rightarrow> (string \<times> string) list" where
  "getTargets source ps =
     concat (map (\<lambda>i. case sub_W (ps_subs ps ! i) of None \<Rightarrow> [] | Some w \<Rightarrow> [(sub_ID (ps_subs ps ! i), w)])
       (slots_of ps source))"

definition target_of_id :: "string \<Rightarrow> pubsub \<Rightarrow> string option" where
  "target_of_id uid ps = (case slot_of_id uid ps of None \<Rightarrow> None | Some i \<Rightarrow> sub_W (ps_subs ps ! i))"

definition ps_Get :: "string \<Rightarrow> pubsub \<Rightarrow> subscription option" where
  "ps_Get uid ps = map_option (\<lambda>i. ps_subs ps ! i) (slot_of_id uid ps)"

definition ps_List :: "pubsub \<Rightarrow> subscription list" where
  "ps_List ps = filter sub_active (ps_subs ps)"

text \<open>\<open>LoadFromStore\<close>; \<open>Inl\<close> is an error of the store.\<close>

definition index_all :: "sub_record list \<Rightarrow> string \<rightharpoonup> nat list" where
  "index_all rs = fold (\<lambda>(i, uid, resource, endpoint). index_add resource i) (enumerate 0 rs) Map.empty"

definition LoadFromStore :: "string + sub_record list \<Rightarrow> pubsub \<Rightarrow> pubsub \<times> string option" where
  "LoadFromStore loaded ps =
     (case loaded of
        Inl err \<Rightarrow> (ps, Some (''error loading subscription records: '' @ err))
      | Inr rs \<Rightarrow> (ps\<lparr>ps_subs := map (make_sub (ps_writers ps)) rs, ps_free := [], ps_index := index_all rs\<rparr>, None))"

text \<open>
  \<open>configMapStore.Load\<close>: the records under the current key, or the records of a legacy map. \<open>decode\<close>
  and \<open>decode_legacy\<close> stand for the JSON decoder.
\<close>

record legacy_sub =
  lg_ID :: string
  lg_EndPointURI :: string
  lg_Resource :: string

definition legacy_record :: "string \<Rightarrow> (string \<Rightarrow> string) \<Rightarrow> string \<times> legacy_sub \<Rightarrow> sub_record list" where
  "legacy_record parent uuid kv =
     (let l = snd kv in
      if lg_Resource l = '''' then []
      else [(if lg_ID l = '''' then uuid (fst kv) else lg_ID l, lg_Resource l,
             if lg_EndPointURI l = '''' then parent else lg_EndPointURI l)])"

definition loadLegacyRecords ::
  "(string \<Rightarrow> (string \<times> (string \<times> legacy_sub) list option) option) \<Rightarrow> (string \<Rightarrow> string) \<Rightarrow> string \<Rightarrow>
   (string \<times> string) list \<Rightarrow> sub_record list" where
  "loadLegacyRecords decode_legacy uuid current_key data =
     concat (map (\<lambda>(key, val).
       if key = current_key \<or> val = '''' then []
       else (case decode_legacy val of
               Some (parent, Some store) \<Rightarrow> concat (map (legacy_record parent uuid) store)
             | _ \<Rightarrow> [])) data)"

definition configMap_Load ::
  "(string \<Rightarrow> string + sub_record list) \<Rightarrow>
   (string \<Rightarrow> (string \<times> (string \<times> legacy_sub) list option) option) \<Rightarrow> (string \<Rightarrow> string) \<Rightarrow> string \<Rightarrow>
   string + (string \<times> string) list \<Rightarrow> string + sub_record list" where
  "configMap_Load decode decode_legacy uuid current_key got =
     (case got of
        Inl err \<Rightarrow> Inl (''error loading records from ConfigMap: '' @ err)
      | Inr data \<Rightarrow>
          (case map_of data current_key of
             Some d \<Rightarrow>
               if d \<noteq> '''' then (case decode d of Inl err \<Rightarrow> Inl (''error unmarshalling saved records: '' @ err)
                                | Inr rs \<Rightarrow> Inr rs)
               else Inr (loadLegacyRecords decode_legacy uuid current_key data)
           | None \<Rightarrow> Inr (loadLegacyRecords decode_legacy uuid current_key data)))"

section \<open>The invariant\<close>

definition live_slots :: "pubsub \<Rightarrow> nat set" where
  "live_slots ps = {i. i < length (ps_subs ps) \<and> sub_active (ps_subs ps ! i)}"

definition ps_inv :: "pubsub \<Rightarrow> bool" where
  "ps_inv ps \<longleftrightarrow>
     distinct (ps_free ps) \<and> set (ps_free ps) = {i. i < length (ps_subs ps) \<and> \<not> sub_active (ps_subs ps ! i)} \<and>
     (\<forall>r. distinct (slots_of ps r) \<and> set (slots_of ps r) = {i \<in> live_slots ps. sub_Resource (ps_subs ps ! i) = r}) \<and>
     (\<forall>r. ps_index ps r \<noteq> Some []) \<and>
     (\<forall>i \<in> live_slots ps. \<forall>j \<in> live_slots ps. sub_ID (ps_subs ps ! i) = sub_ID (ps_subs ps ! j) \<longrightarrow> i = j) \<and>
     (\<forall>i \<in> live_slots ps. ps_subs ps ! i = make_sub (ps_writers ps) (record_of (ps_subs ps ! i)))"

lemma make_sub_simps [simp]:
  "record_of (make_sub w r) = r" "sub_active (make_sub w r)"
  "sub_ID (make_sub w (u, r', e)) = u" "sub_Resource (make_sub w (u, r', e)) = r'"
  "sub_Endpoint (make_sub w (u, r', e)) = e"
  by (cases r; simp add: make_sub_def record_of_def) (simp_all add: make_sub_def split: prod.splits)

lemma make_sub_proj: "sub_ID (make_sub w rec) = fst rec" "sub_Resource (make_sub w rec) = fst (snd rec)"
  "sub_Endpoint (make_sub w rec) = snd (snd rec)"
  "sub_W (make_sub w rec) = (if snd (snd rec) \<noteq> '''' \<and> w then Some (snd (snd rec)) else None)"
  by (cases rec; simp add: make_sub_def)+

lemma swap_remove_mset: "x \<in> set xs \<Longrightarrow> add_mset x (mset (swap_remove x xs)) = mset xs"
proof (induction x xs rule: swap_remove.induct)
  case (2 x y ys)
  then show ?case
  proof (cases "y = x \<and> ys \<noteq> []")
    case True
    then have "butlast ys @ [last ys] = ys" by simp
    then have "mset ys = mset (butlast ys) + {#last ys#}" by (metis mset.simps mset_append)
    with True show ?thesis by simp
  qed auto
qed simp

lemma swap_remove_distinct:
  assumes "distinct xs" "x \<in> set xs"
  shows "distinct (swap_remove x xs)" "set (swap_remove x xs) = set xs - {x}"
proof -
  have m: "mset xs = mset (x # swap_remove x xs)" using swap_remove_mset [OF assms(2)] by simp
  with assms(1) have d: "distinct (x # swap_remove x xs)" using mset_eq_imp_distinct_iff by blast
  then show "distinct (swap_remove x xs)" by simp
  show "set (swap_remove x xs) = set xs - {x}" using mset_eq_setD [OF m] d by auto
qed

lemma ps_save_simps [simp]:
  "ps_subs (ps_save ok ps) = ps_subs ps" "ps_free (ps_save ok ps) = ps_free ps"
  "ps_index (ps_save ok ps) = ps_index ps" "ps_writers (ps_save ok ps) = ps_writers ps"
  "slots_of (ps_save ok ps) = slots_of ps" "live_slots (ps_save ok ps) = live_slots ps"
  by (simp_all add: ps_save_def slots_of_def live_slots_def fun_eq_iff)

lemma ps_inv_save [simp]: "ps_inv (ps_save ok ps) = ps_inv ps"
  by (simp add: ps_inv_def)

lemma ps_inv_New: "ps_inv (NewPubSub st w)"
  by (simp add: ps_inv_def NewPubSub_def slots_of_def live_slots_def)

text \<open>Slots of a resource after adding to the index.\<close>

lemma slots_of_add:
  "slots_of (ps\<lparr>ps_index := index_add r i (ps_index ps)\<rparr>) r' = slots_of ps r' @ (if r' = r then [i] else [])"
  by (simp add: slots_of_def index_add_def split: option.splits)

text \<open>
  Filling an empty slot \<open>i\<close> (a free one, or the next of the slice) with a subscription whose
  identifier is new.
\<close>

lemma ps_inv_fill:
  assumes "ps_inv ps" "\<forall>j \<in> live_slots ps. sub_ID (ps_subs ps ! j) \<noteq> u"
    and "i \<notin> live_slots ps" "live_slots q = insert i (live_slots ps)"
    and "ps_subs q ! i = make_sub (ps_writers ps) (u, r, e)" "\<forall>j \<in> live_slots ps. ps_subs q ! j = ps_subs ps ! j"
    and "ps_index q = index_add r i (ps_index ps)" "ps_writers q = ps_writers ps"
    and "distinct (ps_free q)" "set (ps_free q) = {j. j < length (ps_subs q) \<and> \<not> sub_active (ps_subs q ! j)}"
  shows "ps_inv q"
proof -
  have slots: "slots_of q r' = slots_of ps r' @ (if r' = r then [i] else [])" for r'
    using slots_of_add [where ps = ps and r = r and i = i and r' = r'] assms(7) by (simp add: slots_of_def)
  have old: "distinct (slots_of ps r')" "set (slots_of ps r') = {j \<in> live_slots ps. sub_Resource (ps_subs ps ! j) = r'}" for r'
    using assms(1) by (auto simp: ps_inv_def)
  have "distinct (slots_of q r') \<and> set (slots_of q r') = {j \<in> live_slots q. sub_Resource (ps_subs q ! j) = r'}" for r'
    using old [of r'] assms(3-6) by (auto simp: slots)
  moreover have "ps_index q r' \<noteq> Some []" for r'
    using assms(1,7) by (auto simp: ps_inv_def index_add_def split: option.splits)
  moreover have "\<forall>j \<in> live_slots q. \<forall>k \<in> live_slots q. sub_ID (ps_subs q ! j) = sub_ID (ps_subs q ! k) \<longrightarrow> j = k"
    using assms(1,2,4-6) by (auto simp: ps_inv_def)
  moreover have "\<forall>j \<in> live_slots q. ps_subs q ! j = make_sub (ps_writers q) (record_of (ps_subs q ! j))"
    using assms(1,4-6,8) by (auto simp: ps_inv_def)
  ultimately show ?thesis using assms(9,10) unfolding ps_inv_def by blast
qed

lemma insertLocked_fill:
  assumes "ps_inv ps"
  shows "\<exists>i q. insertLocked u ok r e ps = ps_save ok q \<and> i \<notin> live_slots ps \<and> live_slots q = insert i (live_slots ps) \<and>
    ps_subs q ! i = make_sub (ps_writers ps) (u, r, e) \<and> (\<forall>j \<in> live_slots ps. ps_subs q ! j = ps_subs ps ! j) \<and>
    ps_index q = index_add r i (ps_index ps) \<and> ps_writers q = ps_writers ps \<and>
    distinct (ps_free q) \<and> set (ps_free q) = {j. j < length (ps_subs q) \<and> \<not> sub_active (ps_subs q ! j)}"
proof (cases "ps_free ps = []")
  case True
  let ?n = "length (ps_subs ps)"
  have all: "\<forall>j < ?n. sub_active (ps_subs ps ! j)" using assms True by (auto simp: ps_inv_def)
  show ?thesis
    by (rule exI [of _ ?n],
        rule exI [of _ "ps\<lparr>ps_subs := ps_subs ps @ [make_sub (ps_writers ps) (u, r, e)],
                         ps_index := index_add r ?n (ps_index ps)\<rparr>"])
      (use True all in \<open>auto simp: insertLocked_def live_slots_def nth_append less_Suc_eq\<close>)
next
  case False
  let ?i = "last (ps_free ps)"
  have split: "ps_free ps = butlast (ps_free ps) @ [?i]" using False by simp
  have free: "distinct (ps_free ps)" "set (ps_free ps) = {j. j < length (ps_subs ps) \<and> \<not> sub_active (ps_subs ps ! j)}"
    using assms by (auto simp: ps_inv_def)
  have i: "?i < length (ps_subs ps)" "\<not> sub_active (ps_subs ps ! ?i)"
    using free(2) False last_in_set by blast+
  have rest: "set (butlast (ps_free ps)) = {j. j < length (ps_subs ps) \<and> \<not> sub_active (ps_subs ps ! j)} - {?i}"
    "distinct (butlast (ps_free ps))"
  proof -
    have "distinct (butlast (ps_free ps) @ [?i])" using free(1) split by metis
    moreover have "set (butlast (ps_free ps) @ [?i]) = {j. j < length (ps_subs ps) \<and> \<not> sub_active (ps_subs ps ! j)}"
      using free(2) split by metis
    ultimately show "set (butlast (ps_free ps)) = {j. j < length (ps_subs ps) \<and> \<not> sub_active (ps_subs ps ! j)} - {?i}"
      "distinct (butlast (ps_free ps))" by auto
  qed
  show ?thesis
    by (rule exI [of _ ?i],
        rule exI [of _ "ps\<lparr>ps_free := butlast (ps_free ps),
                         ps_subs := (ps_subs ps)[?i := make_sub (ps_writers ps) (u, r, e)],
                         ps_index := index_add r ?i (ps_index ps)\<rparr>"])
      (use False i rest in \<open>auto simp: insertLocked_def live_slots_def nth_list_update\<close>)
qed

lemma ps_inv_insert:
  assumes "ps_inv ps" "\<forall>j \<in> live_slots ps. sub_ID (ps_subs ps ! j) \<noteq> u"
  shows "ps_inv (insertLocked u ok r e ps)"
proof -
  from insertLocked_fill [OF assms(1), of u ok r e] obtain i q where q: "insertLocked u ok r e ps = ps_save ok q"
    "i \<notin> live_slots ps" "live_slots q = insert i (live_slots ps)"
    "ps_subs q ! i = make_sub (ps_writers ps) (u, r, e)" "\<forall>j \<in> live_slots ps. ps_subs q ! j = ps_subs ps ! j"
    "ps_index q = index_add r i (ps_index ps)" "ps_writers q = ps_writers ps"
    "distinct (ps_free q)" "set (ps_free q) = {j. j < length (ps_subs q) \<and> \<not> sub_active (ps_subs q ! j)}"
    by blast
  from ps_inv_fill [OF assms q(2-9)] show ?thesis by (simp add: q(1))
qed

lemma slot_of_id_Some:
  "slot_of_id u ps = Some i \<Longrightarrow> i \<in> live_slots ps \<and> sub_ID (ps_subs ps ! i) = u"
  by (auto simp: slot_of_id_def live_slots_def find_Some_iff)

lemma slot_of_id_None: "slot_of_id u ps = None \<longleftrightarrow> (\<forall>i \<in> live_slots ps. sub_ID (ps_subs ps ! i) \<noteq> u)"
  by (auto simp: slot_of_id_def live_slots_def find_None_iff)

lemma Unsubscribe_step:
  assumes "ps_inv ps" "slot_of_id u ps = Some i"
  shows "\<exists>q. Unsubscribe u ok ps = (ps_save ok q, True) \<and> ps_inv q \<and> live_slots q = live_slots ps - {i} \<and>
    (\<forall>j \<in> live_slots q. ps_subs q ! j = ps_subs ps ! j) \<and> ps_writers q = ps_writers ps"
proof -
  define r where "r = sub_Resource (ps_subs ps ! i)"
  define ix where "ix = swap_remove i (slots_of ps r)"
  define q where "q = ps\<lparr>ps_subs := (ps_subs ps)[i := no_subscription], ps_free := ps_free ps @ [i],
      ps_index := (if ix = [] then (ps_index ps)(r := None) else (ps_index ps)(r \<mapsto> ix))\<rparr>"
  have i: "i \<in> live_slots ps" "i < length (ps_subs ps)" "sub_active (ps_subs ps ! i)"
    using slot_of_id_Some [OF assms(2)] by (auto simp: live_slots_def)
  have live: "live_slots q = live_slots ps - {i}"
    using i by (auto simp: q_def live_slots_def nth_list_update no_subscription_def)
  have subs: "ps_subs q ! j = ps_subs ps ! j" if "j \<noteq> i" for j using that by (simp add: q_def)
  have old: "distinct (slots_of ps r')" "set (slots_of ps r') = {j \<in> live_slots ps. sub_Resource (ps_subs ps ! j) = r'}" for r'
    using assms(1) unfolding ps_inv_def by blast+
  have ix: "distinct ix" "set ix = set (slots_of ps r) - {i}"
    using swap_remove_distinct [OF old(1) [of r], of i] old(2) [of r] i(1) by (auto simp: ix_def r_def)
  have slots: "slots_of q r' = (if r' = r then ix else slots_of ps r')" for r'
    by (simp add: slots_of_def q_def)
  have here: "{j \<in> live_slots q. sub_Resource (ps_subs q ! j) = r'} =
      {j \<in> live_slots ps. sub_Resource (ps_subs ps ! j) = r'} - {i}" for r'
    using subs by (auto simp: live)
  have "distinct (slots_of q r') \<and> set (slots_of q r') = {j \<in> live_slots q. sub_Resource (ps_subs q ! j) = r'}" for r'
  proof (cases "r' = r")
    case True
    then show ?thesis using ix old(2) [of r] by (simp add: slots here)
  next
    case False
    then show ?thesis using old [of r'] by (auto simp: slots here r_def)
  qed
  moreover have "ps_index q r' \<noteq> Some []" for r' using assms(1) by (auto simp: ps_inv_def q_def)
  moreover have "\<forall>j \<in> live_slots q. \<forall>k \<in> live_slots q. sub_ID (ps_subs q ! j) = sub_ID (ps_subs q ! k) \<longrightarrow> j = k"
    using assms(1) subs unfolding ps_inv_def live by auto
  moreover have "ps_writers q = ps_writers ps" by (simp add: q_def)
  then have "\<forall>j \<in> live_slots q. ps_subs q ! j = make_sub (ps_writers q) (record_of (ps_subs q ! j))"
    using assms(1) subs unfolding ps_inv_def live by auto
  moreover have free: "distinct (ps_free ps)" "set (ps_free ps) = {j. j < length (ps_subs ps) \<and> \<not> sub_active (ps_subs ps ! j)}"
    using assms(1) unfolding ps_inv_def by blast+
  have "distinct (ps_free q)" using free i by (simp add: q_def)
  moreover have "set (ps_free q) = {j. j < length (ps_subs q) \<and> \<not> sub_active (ps_subs q ! j)}"
    using i by (auto simp: q_def free(2) nth_list_update no_subscription_def)
  ultimately have inv: "ps_inv q" unfolding ps_inv_def by blast
  have "Unsubscribe u ok ps = (ps_save ok q, True)"
    by (simp add: Unsubscribe_def assms(2) Let_def q_def ix_def r_def)
  with inv live subs show ?thesis by (intro exI [of _ q]) (auto simp: q_def)
qed

lemma ps_inv_UnsubscribeAll: "ps_inv (UnsubscribeAll ok ps)"
  by (simp add: UnsubscribeAll_def ps_inv_def slots_of_def live_slots_def)

text \<open>The index built at loading: the slots of each resource, in order.\<close>

lemma index_all_slots:
  "fold (\<lambda>(i, uid, resource, endpoint). index_add resource i) (enumerate n rs) ix r =
     (let new = map (\<lambda>i. i + n) (filter (\<lambda>i. fst (snd (rs ! i)) = r) [0..<length rs])
      in if new = [] then ix r else Some ((case ix r of None \<Rightarrow> [] | Some l \<Rightarrow> l) @ new))"
proof (induction rs arbitrary: n ix)
  case (Cons rec rs)
  obtain u r' e where rec: "rec = (u, r', e)" by (cases rec)
  have "filter (\<lambda>i. fst (snd ((rec # rs) ! i)) = r) [0..<length (rec # rs)] =
      (if r' = r then [0] else []) @ map Suc (filter (\<lambda>i. fst (snd (rs ! i)) = r) [0..<length rs])"
    by (simp add: upt_conv_Cons map_Suc_upt [symmetric] filter_map comp_def rec del: upt_Suc)
  then show ?case
    using Cons.IH [of "Suc n" "index_add r' n ix"]
    by (auto simp: rec Let_def index_add_def comp_def split: option.splits if_splits)
qed simp

lemma ps_inv_Load:
  assumes "distinct (map fst rs)"
  shows "ps_inv (fst (LoadFromStore (Inr rs) ps))" (is "ps_inv ?q")
proof -
  have q: "ps_subs ?q = map (make_sub (ps_writers ps)) rs" "ps_free ?q = []" "ps_writers ?q = ps_writers ps"
    by (simp_all add: LoadFromStore_def)
  have live: "live_slots ?q = {0..<length rs}" by (auto simp: live_slots_def q)
  have slots: "slots_of ?q r = filter (\<lambda>i. fst (snd (rs ! i)) = r) [0..<length rs]"
    "ps_index ?q r \<noteq> Some []" for r
    using index_all_slots [of 0 rs Map.empty r]
    by (auto simp: slots_of_def LoadFromStore_def index_all_def Let_def split: if_splits)
  have "i = j" if "i < length rs" "j < length rs" "fst (rs ! i) = fst (rs ! j)" for i j
    using assms that nth_eq_iff_index_eq [of "map fst rs" i j] by simp
  then show ?thesis
    unfolding ps_inv_def by (auto simp: live slots q make_sub_proj)
qed

section \<open>The specification: a multiset of subscriptions\<close>

definition ps_abs :: "pubsub \<Rightarrow> sub_record multiset" where
  "ps_abs ps = mset (map record_of (ps_List ps))"

lemma ps_List_slots:
  "ps_List ps = map (nth (ps_subs ps)) (filter (\<lambda>i. sub_active (ps_subs ps ! i)) [0..<length (ps_subs ps)])"
proof -
  have "ps_List ps = filter sub_active (map (nth (ps_subs ps)) [0..<length (ps_subs ps)])"
    by (simp only: ps_List_def map_nth)
  then show ?thesis by (simp add: filter_map comp_def)
qed

lemma ps_abs_slots: "ps_abs ps = image_mset (\<lambda>i. record_of (ps_subs ps ! i)) (mset_set (live_slots ps))"
proof -
  let ?P = "\<lambda>i. sub_active (ps_subs ps ! i)"
  have "ps_abs ps = image_mset (\<lambda>i. record_of (ps_subs ps ! i)) (mset (filter ?P [0..<length (ps_subs ps)]))"
    by (simp add: ps_abs_def ps_List_slots comp_def)
  moreover have "live_slots ps = set (filter ?P [0..<length (ps_subs ps)])"
    by (auto simp: live_slots_def)
  moreover have "distinct (filter ?P [0..<length (ps_subs ps)])" by simp
  ultimately show ?thesis using mset_set_set by metis
qed

lemma finite_live [simp]: "finite (live_slots ps)"
  by (simp add: live_slots_def)

lemma abs_member: "(u, r, e) \<in># ps_abs ps \<longleftrightarrow> (\<exists>i \<in> live_slots ps. record_of (ps_subs ps ! i) = (u, r, e))"
  by (auto simp: ps_abs_slots intro: rev_image_eqI)

lemma ps_abs_save [simp]: "ps_abs (ps_save ok ps) = ps_abs ps"
  by (simp add: ps_abs_def ps_List_def)

lemma abs_insert:
  assumes "ps_inv ps"
  shows "ps_abs (insertLocked u ok r e ps) = add_mset (u, r, e) (ps_abs ps)"
proof -
  from insertLocked_fill [OF assms, of u ok r e] obtain i q where q: "insertLocked u ok r e ps = ps_save ok q"
    "i \<notin> live_slots ps" "live_slots q = insert i (live_slots ps)"
    "ps_subs q ! i = make_sub (ps_writers ps) (u, r, e)" "\<forall>j \<in> live_slots ps. ps_subs q ! j = ps_subs ps ! j"
    by blast
  have "image_mset (\<lambda>j. record_of (ps_subs q ! j)) (mset_set (live_slots ps)) = ps_abs ps"
    unfolding ps_abs_slots using q(5) by (intro image_mset_cong) simp
  then show ?thesis by (simp add: q(1) ps_abs_slots [of q] q(2-4))
qed

lemma abs_remove:
  assumes "ps_inv ps" "slot_of_id u ps = Some i"
  shows "ps_abs ps = add_mset (record_of (ps_subs ps ! i)) (ps_abs (fst (Unsubscribe u ok ps)))"
proof -
  from Unsubscribe_step [OF assms, of ok] obtain q where q: "Unsubscribe u ok ps = (ps_save ok q, True)"
    "live_slots q = live_slots ps - {i}" "\<forall>j \<in> live_slots q. ps_subs q ! j = ps_subs ps ! j" by blast
  have i: "i \<in> live_slots ps" using slot_of_id_Some [OF assms(2)] by simp
  have "ps_abs q = image_mset (\<lambda>j. record_of (ps_subs ps ! j)) (mset_set (live_slots ps - {i}))"
    unfolding ps_abs_slots q(2) using q(2,3) by (intro image_mset_cong) simp
  moreover have "mset_set (live_slots ps) = add_mset i (mset_set (live_slots ps - {i}))"
    using i by (simp add: mset_set.remove)
  ultimately show ?thesis by (simp add: q(1) ps_abs_slots [of ps])
qed

text \<open>Looking for an existing subscription.\<close>

lemma existing_Some:
  assumes "ps_inv ps" "existing r e ps = Some i"
  shows "i \<in> live_slots ps \<and> record_of (ps_subs ps ! i) = (sub_ID (ps_subs ps ! i), r, e)"
proof -
  have "i \<in> set (slots_of ps r)" "sub_Endpoint (ps_subs ps ! i) = e"
    using assms(2) by (auto simp: existing_def find_Some_iff)
  with assms(1) show ?thesis by (auto simp: ps_inv_def record_of_def)
qed

lemma existing_None:
  assumes "ps_inv ps"
  shows "existing r e ps = None \<longleftrightarrow> (\<forall>u. (u, r, e) \<notin># ps_abs ps)"
proof -
  have "set (slots_of ps r) = {i \<in> live_slots ps. sub_Resource (ps_subs ps ! i) = r}"
    using assms by (simp add: ps_inv_def)
  then show ?thesis
    by (auto simp: existing_def find_None_iff abs_member record_of_def live_slots_def)
qed

text \<open>The targets of a resource.\<close>

lemma getTargets_abs:
  assumes "ps_inv ps"
  shows "mset (getTargets r ps) =
    image_mset (\<lambda>(u, r', e). (u, e)) (filter_mset (\<lambda>(u, r', e). r' = r \<and> e \<noteq> '''' \<and> ps_writers ps) (ps_abs ps))"
proof -
  let ?t = "\<lambda>i. case sub_W (ps_subs ps ! i) of None \<Rightarrow> [] | Some w \<Rightarrow> [(sub_ID (ps_subs ps ! i), w)]"
  let ?rec = "\<lambda>i. record_of (ps_subs ps ! i)"
  let ?ok = "\<lambda>(u, r', e). r' = r \<and> e \<noteq> '''' \<and> ps_writers ps"
  have slots: "distinct (slots_of ps r)" "set (slots_of ps r) = {i \<in> live_slots ps. sub_Resource (ps_subs ps ! i) = r}"
    using assms by (simp_all add: ps_inv_def)
  have t: "mset (?t i) = (if ?ok (?rec i) then {#case ?rec i of (u, r', e) \<Rightarrow> (u, e)#} else {#})"
    if "i \<in> set (slots_of ps r)" for i
  proof -
    have i: "i \<in> live_slots ps" "sub_Resource (ps_subs ps ! i) = r" using that slots(2) by auto
    obtain u e where rec: "?rec i = (u, r, e)" using i(2) by (simp add: record_of_def)
    have "ps_subs ps ! i = make_sub (ps_writers ps) (u, r, e)" using assms i(1) rec by (auto simp: ps_inv_def)
    then have "sub_W (ps_subs ps ! i) = (if e \<noteq> '''' \<and> ps_writers ps then Some e else None)"
      "sub_ID (ps_subs ps ! i) = u" by (simp_all add: make_sub_def)
    then show ?thesis using rec by simp
  qed
  have bad: "\<not> ?ok (?rec i)" if "i \<in> live_slots ps" "i \<notin> set (slots_of ps r)" for i
    using that slots(2) by (auto simp: record_of_def)
  have conc: "mset (concat (map ?t is)) = image_mset (\<lambda>(u, r', e). (u, e)) (filter_mset ?ok (image_mset ?rec (mset is)))"
    if "set is \<subseteq> set (slots_of ps r)" for "is"
    using that t by (induction "is") auto
  have "mset (slots_of ps r) = mset_set (set (slots_of ps r))" using slots(1) by (simp add: mset_set_set)
  with conc [of "slots_of ps r"] have "mset (getTargets r ps) =
      image_mset (\<lambda>(u, r', e). (u, e)) (filter_mset ?ok (image_mset ?rec (mset_set (set (slots_of ps r)))))"
    by (simp add: getTargets_def)
  moreover have "filter_mset ?ok (image_mset ?rec (mset_set (live_slots ps))) =
      filter_mset ?ok (image_mset ?rec (mset_set (set (slots_of ps r))))"
  proof -
    have sub: "set (slots_of ps r) \<subseteq> live_slots ps" using slots(2) by auto
    then have "mset_set (live_slots ps) =
        mset_set (set (slots_of ps r)) + mset_set (live_slots ps - set (slots_of ps r))"
      by (metis Diff_disjoint Diff_partition finite_Diff finite_live finite_set mset_set_Union)
    moreover have "filter_mset ?ok (image_mset ?rec (mset_set (live_slots ps - set (slots_of ps r)))) = {#}"
    proof -
      have "\<not> ?ok y" if "y \<in># image_mset ?rec (mset_set (live_slots ps - set (slots_of ps r)))" for y
      proof -
        from that obtain i where "i \<in> live_slots ps" "i \<notin> set (slots_of ps r)" "y = ?rec i" by auto
        with bad [of i] show ?thesis by simp
      qed
      then show ?thesis unfolding filter_mset_eq_mempty_iff by blast
    qed
    ultimately show ?thesis by simp
  qed
  ultimately show ?thesis by (simp add: ps_abs_slots)
qed

section \<open>Runs\<close>

text \<open>
  What the HTTP handlers and the start of the program do to the subscriptions. \<open>uuid.New\<close> never makes an
  identifier in use, and what is loaded has no identifier twice: other steps are not enabled.
\<close>

datatype ps_op =
    OpSubscribe string bool string string
  | OpUnsubscribe string bool
  | OpUnsubscribeAll bool
  | OpLoad "string + sub_record list"

fun ps_step :: "ps_op \<Rightarrow> pubsub \<Rightarrow> pubsub option" where
  "ps_step (OpSubscribe u ok r e) ps =
     (if slot_of_id u ps = None then Some (fst (Subscribe u ok r e ps)) else None)"
| "ps_step (OpUnsubscribe u ok) ps = Some (fst (Unsubscribe u ok ps))"
| "ps_step (OpUnsubscribeAll ok) ps = Some (UnsubscribeAll ok ps)"
| "ps_step (OpLoad x) ps =
     (if (case x of Inl _ \<Rightarrow> True | Inr rs \<Rightarrow> distinct (map fst rs)) then Some (fst (LoadFromStore x ps)) else None)"

fun ps_run :: "ps_op list \<Rightarrow> pubsub \<Rightarrow> pubsub option" where
  "ps_run [] ps = Some ps"
| "ps_run (x # xs) ps = (case ps_step x ps of None \<Rightarrow> None | Some ps' \<Rightarrow> ps_run xs ps')"

text \<open>The same operations on the specification.\<close>

fun spec_step :: "ps_op \<Rightarrow> sub_record multiset \<Rightarrow> sub_record multiset" where
  "spec_step (OpSubscribe u ok r e) M = (if \<exists>x \<in># M. snd x = (r, e) then M else add_mset (u, r, e) M)"
| "spec_step (OpUnsubscribe u ok) M = filter_mset (\<lambda>x. fst x \<noteq> u) M"
| "spec_step (OpUnsubscribeAll ok) M = {#}"
| "spec_step (OpLoad x) M = (case x of Inl _ \<Rightarrow> M | Inr rs \<Rightarrow> mset rs)"

lemma abs_ids:
  assumes "ps_inv ps"
  shows "filter_mset (\<lambda>x. fst x \<noteq> u) (ps_abs ps) = ps_abs (fst (Unsubscribe u ok ps))"
proof (cases "slot_of_id u ps")
  case None
  then have "\<forall>x \<in># ps_abs ps. fst x \<noteq> u"
    unfolding slot_of_id_None by (auto simp: ps_abs_slots record_of_def)
  with None show ?thesis by (auto simp: Unsubscribe_def filter_mset_eq_conv)
next
  case (Some i)
  let ?q = "fst (Unsubscribe u ok ps)"
  from Unsubscribe_step [OF assms Some, of ok] obtain q where q: "?q = ps_save ok q" "ps_inv q"
    "live_slots q = live_slots ps - {i}" "\<forall>j \<in> live_slots q. ps_subs q ! j = ps_subs ps ! j" by auto
  have i: "i \<in> live_slots ps" "sub_ID (ps_subs ps ! i) = u" using slot_of_id_Some [OF Some] by auto
  have "fst x \<noteq> u" if x: "x \<in># ps_abs q" for x
  proof -
    from x obtain j where "j \<in> live_slots q" "x = record_of (ps_subs q ! j)" by (auto simp: ps_abs_slots)
    with q(3,4) i assms show ?thesis by (auto simp: ps_inv_def record_of_def)
  qed
  then have "filter_mset (\<lambda>x. fst x \<noteq> u) (ps_abs q) = ps_abs q" by (simp add: filter_mset_eq_conv)
  moreover have "fst (record_of (ps_subs ps ! i)) = u" using i(2) by (simp add: record_of_def)
  ultimately show ?thesis using abs_remove [OF assms Some, of ok] by (simp add: q(1))
qed

lemma ps_step_correct:
  assumes "ps_inv ps" "ps_step x ps = Some ps'"
  shows "ps_inv ps' \<and> ps_abs ps' = spec_step x (ps_abs ps)"
proof (cases x)
  case (OpSubscribe u ok r e)
  then have fresh: "\<forall>j \<in> live_slots ps. sub_ID (ps_subs ps ! j) \<noteq> u" and ps': "ps' = fst (Subscribe u ok r e ps)"
    using assms(2) by (auto simp: slot_of_id_None split: if_splits)
  have ex: "(\<exists>y \<in># ps_abs ps. snd y = (r, e)) \<longleftrightarrow> (\<exists>v. (v, r, e) \<in># ps_abs ps)" by force
  show ?thesis
  proof (cases "existing r e ps")
    case None
    then have "\<not> (\<exists>y \<in># ps_abs ps. snd y = (r, e))" using existing_None [OF assms(1)] ex by blast
    then show ?thesis
      using None ps_inv_insert [OF assms(1) fresh] abs_insert [OF assms(1)] by (simp add: OpSubscribe ps' Subscribe_def)
  next
    case (Some i)
    then have "\<exists>y \<in># ps_abs ps. snd y = (r, e)" using existing_None [OF assms(1), of r e] ex by auto
    then show ?thesis using Some assms(1) by (simp add: OpSubscribe ps' Subscribe_def)
  qed
next
  case (OpUnsubscribe u ok)
  then have ps': "ps' = fst (Unsubscribe u ok ps)" using assms(2) by simp
  have "ps_inv ps'"
  proof (cases "slot_of_id u ps")
    case None
    with assms(1) show ?thesis by (simp add: ps' Unsubscribe_def)
  next
    case (Some i)
    from Unsubscribe_step [OF assms(1) Some, of ok] show ?thesis by (auto simp: ps')
  qed
  then show ?thesis using abs_ids [OF assms(1)] by (simp add: OpUnsubscribe ps')
next
  case (OpUnsubscribeAll ok)
  with assms show ?thesis
    using ps_inv_UnsubscribeAll [of ok ps] by (auto simp: UnsubscribeAll_def ps_abs_def ps_List_def)
next
  case (OpLoad y)
  show ?thesis
  proof (cases y)
    case (Inr rs)
    then have "ps' = fst (LoadFromStore (Inr rs) ps)" "distinct (map fst rs)"
      using assms(2) OpLoad by (auto split: if_splits)
    moreover have "mset (map record_of (filter sub_active (map (make_sub w) rs))) = mset rs" for w
      by (induction rs) auto
    then have "ps_abs (fst (LoadFromStore (Inr rs) ps)) = mset rs"
      unfolding ps_abs_def ps_List_def LoadFromStore_def by simp
    ultimately show ?thesis
      using ps_inv_Load [of rs ps] OpLoad Inr by simp
  qed (use assms OpLoad in \<open>auto simp: LoadFromStore_def\<close>)
qed

interpretation ps: stepper ps_step ps_run "\<lambda>_. True" ps_inv
  by unfold_locales (auto dest: ps_step_correct split: option.splits)

lemma ps_run_inv: "ps_run xs (NewPubSub st w) = Some ps \<Longrightarrow> ps_inv ps"
  using ps.run_inv [OF ps_inv_New, of xs] by (simp add: list_all_iff)

lemma ps_run_spec:
  "ps_inv ps \<Longrightarrow> ps_run xs ps = Some ps' \<Longrightarrow> ps_abs ps' = fold spec_step xs (ps_abs ps)"
proof (induction xs arbitrary: ps)
  case (Cons x xs)
  then obtain q where q: "ps_step x ps = Some q" "ps_run xs q = Some ps'" by (auto split: option.splits)
  from ps_step_correct [OF Cons.prems(1) q(1)] Cons.IH [OF _ q(2)] show ?case by simp
qed simp

text \<open>
  C32. The slots, the free list and the index of the subscriptions stay consistent through any sequence of
  operations: every empty slot is listed as free exactly once, the index of a resource lists exactly
  its active slots, without repetition and never as an empty list, no identifier is used twice, and a
  subscription has a writer exactly if it has an endpoint.
\<close>

theorem pubsub_well_formed:
  assumes "ps_run xs (NewPubSub stored writers) = Some ps"
  shows "distinct (ps_free ps) \<and> set (ps_free ps) = {i. i < length (ps_subs ps) \<and> \<not> sub_active (ps_subs ps ! i)} \<and>
    (\<forall>r. distinct (slots_of ps r) \<and> ps_index ps r \<noteq> Some [] \<and>
      set (slots_of ps r) = {i. i < length (ps_subs ps) \<and> sub_active (ps_subs ps ! i) \<and> sub_Resource (ps_subs ps ! i) = r}) \<and>
    (\<forall>u. length (filter (\<lambda>s. sub_ID s = u) (ps_List ps)) \<le> 1)"
proof -
  have inv: "ps_inv ps" using ps_run_inv [OF assms] .
  have "length (filter (\<lambda>s. sub_ID s = u) (ps_List ps)) \<le> 1" for u
  proof (rule ccontr)
    let ?xs = "filter (\<lambda>s. sub_active s \<and> sub_ID s = u) (ps_subs ps)"
    assume "\<not> ?thesis"
    then have "1 < length ?xs" by (simp add: ps_List_def conj_commute)
    moreover have "length ?xs = card {i. i < length (ps_subs ps) \<and> sub_active (ps_subs ps ! i) \<and> sub_ID (ps_subs ps ! i) = u}"
      by (simp add: length_filter_conv_card)
    ultimately have "1 < card {i \<in> live_slots ps. sub_ID (ps_subs ps ! i) = u}"
      by (simp add: live_slots_def conj_assoc)
    then obtain i j where "i \<noteq> j" "i \<in> live_slots ps" "j \<in> live_slots ps" "sub_ID (ps_subs ps ! i) = u"
      "sub_ID (ps_subs ps ! j) = u"
      using card_le_Suc0_iff_eq [of "{i \<in> live_slots ps. sub_ID (ps_subs ps ! i) = u}"] by fastforce
    with inv show False by (auto simp: ps_inv_def)
  qed
  with inv show ?thesis by (auto simp: ps_inv_def live_slots_def)
qed

definition sample_ops :: "ps_op list" where
  "sample_ops = [OpSubscribe ''1'' True ''/a'' ''http://x'', OpSubscribe ''2'' True ''/b'' ''http://x'',
     OpSubscribe ''3'' True ''/a'' ''http://y'', OpUnsubscribe ''2'' True, OpSubscribe ''4'' True ''/a'' ''http://x'',
     OpSubscribe ''5'' True ''/b'' ''http://z'']"

lemmas ps_defs = NewPubSub_def Subscribe_def existing_def insertLocked_def make_sub_def index_add_def slots_of_def
  slot_of_id_def Unsubscribe_def no_subscription_def ps_save_def record_of_def

lemma ps_sample_run:
  "ps_run sample_ops (NewPubSub [] True) = Some
     \<lparr>ps_subs = [make_sub True (''1'', ''/a'', ''http://x''), make_sub True (''5'', ''/b'', ''http://z''),
                make_sub True (''3'', ''/a'', ''http://y'')],
      ps_free = [], ps_index = [''/a'' \<mapsto> [0, 2], ''/b'' \<mapsto> [1]], ps_writers = True,
      ps_stored = [(''1'', ''/a'', ''http://x''), (''5'', ''/b'', ''http://z''), (''3'', ''/a'', ''http://y'')]\<rparr>"
  by (simp add: sample_ops_def ps_defs upt_rec numeral_2_eq_2 fun_eq_iff)

theorem pubsub_well_formed_witness:
  "distinct (slots_of (the (ps_run sample_ops (NewPubSub [] True))) ''/a'')"
  using pubsub_well_formed [OF ps_sample_run] by (simp add: ps_sample_run)

text \<open>The writers are fixed when the store is made.\<close>

lemma writers_step: "ps_step x p = Some q \<Longrightarrow> ps_writers q = ps_writers p"
  by (cases x) (auto simp: Subscribe_def insertLocked_def Unsubscribe_def UnsubscribeAll_def
      LoadFromStore_def Let_def split: option.splits sum.splits if_splits)

lemma writers_run: "ps_run xs p = Some q \<Longrightarrow> ps_writers q = ps_writers p"
  by (induction xs arbitrary: p) (auto split: option.splits dest: writers_step)

lemma target_of_id_abs:
  assumes "ps_inv ps" "ps_writers ps"
  shows "target_of_id u ps = Some e \<longleftrightarrow> e \<noteq> '''' \<and> (\<exists>r. (u, r, e) \<in># ps_abs ps)"
proof (cases "slot_of_id u ps")
  case None
  then have "target_of_id u ps = None" by (simp add: target_of_id_def)
  moreover have "(u, r, e) \<notin># ps_abs ps" for r
    using None unfolding slot_of_id_None abs_member by (auto simp: record_of_def)
  ultimately show ?thesis by simp
next
  case (Some i)
  note i = slot_of_id_Some [OF Some]
  have same: "j = i" if "j \<in> live_slots ps" "sub_ID (ps_subs ps ! j) = u" for j
    using assms(1) i that by (auto simp: ps_inv_def)
  obtain r e' where rec: "record_of (ps_subs ps ! i) = (u, r, e')" using i by (simp add: record_of_def)
  have "ps_subs ps ! i = make_sub True (u, r, e')" using assms i rec by (auto simp: ps_inv_def)
  then have w: "sub_W (ps_subs ps ! i) = (if e' \<noteq> '''' then Some e' else None)" by (simp add: make_sub_proj)
  have "(\<exists>r. (u, r, e) \<in># ps_abs ps) \<longleftrightarrow> e = e'"
  proof
    assume "\<exists>r. (u, r, e) \<in># ps_abs ps"
    then obtain r2 j where j: "j \<in> live_slots ps" "record_of (ps_subs ps ! j) = (u, r2, e)" unfolding abs_member by blast
    then have "sub_ID (ps_subs ps ! j) = u" by (simp add: record_of_def)
    with same [OF j(1)] j(2) rec show "e = e'" by simp
  next
    assume "e = e'"
    with i rec show "\<exists>r. (u, r, e) \<in># ps_abs ps" unfolding abs_member by blast
  qed
  then show ?thesis using Some w by (auto simp: target_of_id_def)
qed

text \<open>
  C30. The subscriptions refine a plain multiset: whatever the sequence of operations, the active
  subscriptions are those the specification computes (a resource and endpoint already subscribed is
  not added again, an identifier is removed, everything is removed, what is loaded replaces what
  was there), the subscribers an event is delivered to are exactly those of its resource, and a
  single notification goes to the endpoint of its identifier.
\<close>

theorem pubsub_refines_multiset:
  assumes "ps_run xs (NewPubSub stored True) = Some ps"
  shows "mset (map record_of (ps_List ps)) = fold spec_step xs {#} \<and>
    (\<forall>r. mset (getTargets r ps) =
      image_mset (\<lambda>(u, r', e). (u, e)) (filter_mset (\<lambda>(u, r', e). r' = r \<and> e \<noteq> '''') (fold spec_step xs {#}))) \<and>
    (\<forall>u e. target_of_id u ps = Some e \<longleftrightarrow> e \<noteq> '''' \<and> (\<exists>r. (u, r, e) \<in># fold spec_step xs {#}))"
proof -
  have inv: "ps_inv ps" using ps_run_inv [OF assms] .
  have abs: "ps_abs ps = fold spec_step xs {#}"
    using ps_run_spec [OF ps_inv_New assms] by (simp add: ps_abs_def NewPubSub_def ps_List_def)
  have w: "ps_writers ps" using writers_run [OF assms] by (simp add: NewPubSub_def)
  show ?thesis
    using getTargets_abs [OF inv] target_of_id_abs [OF inv w] w by (simp add: abs [symmetric]) (simp add: ps_abs_def)
qed

theorem pubsub_refines_multiset_witness:
  "mset (getTargets ''/a'' (the (ps_run sample_ops (NewPubSub [] True)))) = {#(''1'', ''http://x''), (''3'', ''http://y'')#}"
proof -
  have "fold spec_step sample_ops {#} =
      {#(''5'', ''/b'', ''http://z''), (''3'', ''/a'', ''http://y''), (''1'', ''/a'', ''http://x'')#}"
    by (simp add: sample_ops_def)
  with pubsub_refines_multiset [OF ps_sample_run] show ?thesis by (simp add: ps_sample_run add_mset_commute)
qed

definition persists :: "ps_op \<Rightarrow> bool" where
  "persists x = (case x of OpSubscribe u ok r e \<Rightarrow> ok | OpUnsubscribe u ok \<Rightarrow> ok | OpUnsubscribeAll ok \<Rightarrow> ok | OpLoad y \<Rightarrow> False)"

lemma stored_step:
  assumes "persists x" "ps_step x ps = Some ps'" "ps_stored ps = map record_of (ps_List ps)"
  shows "ps_stored ps' = map record_of (ps_List ps')"
  using assms
  by (cases x) (auto simp: persists_def Subscribe_def insertLocked_def Unsubscribe_def UnsubscribeAll_def
      ps_save_def ps_List_def Let_def split: option.splits if_splits)

lemma stored_run:
  "list_all persists xs \<Longrightarrow> ps_run xs ps = Some ps' \<Longrightarrow> ps_stored ps = map record_of (ps_List ps) \<Longrightarrow>
   ps_stored ps' = map record_of (ps_List ps')"
  by (induction xs arbitrary: ps) (auto split: option.splits intro: stored_step)

lemma distinct_ids:
  assumes "ps_inv ps"
  shows "distinct (map fst (map record_of (ps_List ps)))"
proof -
  have "map fst (map record_of (ps_List ps)) =
      map (\<lambda>i. sub_ID (ps_subs ps ! i)) (filter (\<lambda>i. sub_active (ps_subs ps ! i)) [0..<length (ps_subs ps)])"
    by (simp add: ps_List_slots record_of_def comp_def)
  moreover have "inj_on (\<lambda>i. sub_ID (ps_subs ps ! i)) (live_slots ps)"
    using assms by (auto simp: inj_on_def ps_inv_def)
  moreover have "set (filter (\<lambda>i. sub_active (ps_subs ps ! i)) [0..<length (ps_subs ps)]) = live_slots ps"
    by (auto simp: live_slots_def)
  ultimately show ?thesis by (simp add: distinct_map)
qed

text \<open>
  A restart loses no subscription: if the store accepted every change, a new process that loads from it
  has the same subscriptions and delivers to the same endpoints.
\<close>

lemma restart_keeps_subscriptions:
  assumes "ps_run xs (NewPubSub [] True) = Some ps" "list_all persists xs"
    and "LoadFromStore (Inr (ps_stored ps)) (NewPubSub (ps_stored ps) True) = (ps', err)"
  shows "err = None \<and> map record_of (ps_List ps') = map record_of (ps_List ps) \<and>
    (\<forall>r. mset (getTargets r ps') = mset (getTargets r ps))"
proof -
  have stored: "ps_stored ps = map record_of (ps_List ps)"
    using stored_run [OF assms(2,1)] by (simp add: NewPubSub_def ps_List_def)
  have inv: "ps_inv ps" using ps_run_inv [OF assms(1)] .
  have one: "ps_step (OpLoad (Inr (ps_stored ps))) (NewPubSub (ps_stored ps) True) = Some ps'"
    using assms(3) distinct_ids [OF inv] by (simp add: stored)
  have inv': "ps_inv ps'" using ps_step_correct [OF ps_inv_New one] by simp
  have w: "ps_writers ps' = True" "ps_writers ps = True" "err = None"
    using assms(3) writers_run [OF assms(1)] by (auto simp: LoadFromStore_def NewPubSub_def)
  have "map record_of (filter sub_active (map (make_sub True) rs)) = rs" for rs by (induction rs) auto
  then have same: "map record_of (ps_List ps') = ps_stored ps"
    using assms(3) by (auto simp: LoadFromStore_def NewPubSub_def ps_List_def)
  then have "ps_abs ps' = ps_abs ps" by (simp only: ps_abs_def stored)
  then have "mset (getTargets r ps') = mset (getTargets r ps)" for r
    using getTargets_abs [OF inv', of r] getTargets_abs [OF inv, of r] w by simp
  with same stored w show ?thesis by simp
qed

end
