(* ===== verification/CloudEvents.thy ===== *)
theory CloudEvents
  imports PubSub Ipc Float64
begin

text \<open>
  cloud-event-proxy (\<open>pkg/cep/event_cache.go\<close>, \<open>cep.go\<close>): the messages of the daemon become O-RAN
  cloud events, cached per message type and published to the subscribers, and the REST interface
  over the cache and the subscriptions. \<open>uuid.New\<close>, the parsing of time stamps, JSON and URLs, and
  whether a subscriber accepts what is posted are parameters.
\<close>

section \<open>Paths\<close>

text \<open>\<open>path.Join\<close>: the elements that are not empty, joined by slashes and cleaned.\<close>

fun split_slash :: "string \<Rightarrow> string list" where
  "split_slash [] = [[]]"
| "split_slash (c # cs) =
     (if c = CHR ''/'' then [] # split_slash cs
      else (case split_slash cs of [] \<Rightarrow> [[c]] | p # ps \<Rightarrow> (c # p) # ps))"

fun clean_parts :: "bool \<Rightarrow> string list \<Rightarrow> string list \<Rightarrow> string list" where
  "clean_parts rooted acc [] = acc"
| "clean_parts rooted acc (p # ps) =
     (if p = '''' \<or> p = ''.'' then clean_parts rooted acc ps
      else if p = ''..'' then
        (if acc \<noteq> [] \<and> last acc \<noteq> ''..'' then clean_parts rooted (butlast acc) ps
         else if rooted then clean_parts rooted acc ps
         else clean_parts rooted (acc @ [p]) ps)
      else clean_parts rooted (acc @ [p]) ps)"

definition path_Clean :: "string \<Rightarrow> string" where
  "path_Clean s =
     (let rooted = (s \<noteq> '''' \<and> hd s = CHR ''/'');
          r = (if rooted then ''/'' else '''') @ join ''/'' (clean_parts rooted [] (split_slash s))
      in if r = '''' then ''.'' else r)"

definition path_Join :: "string list \<Rightarrow> string" where
  "path_Join elems =
     (let ne = filter (\<lambda>e. e \<noteq> '''') elems
      in if ne = [] then '''' else path_Clean (join ''/'' ne))"

section \<open>Events\<close>

text \<open>Event types, resources and data values of the SDK for cloud-native events.\<close>

abbreviation PtpLockState :: string where "PtpLockState \<equiv> ''/sync/ptp-status/lock-state''"
abbreviation OsClockSyncState :: string where "OsClockSyncState \<equiv> ''/sync/sync-status/os-clock-sync-state''"
abbreviation PtpClockClass :: string where "PtpClockClass \<equiv> ''/sync/ptp-status/clock-class''"
abbreviation GnssSyncStatus :: string where "GnssSyncStatus \<equiv> ''/sync/gnss-status/gnss-sync-status''"
abbreviation SynceLockState :: string where "SynceLockState \<equiv> ''/sync/synce-status/lock-state''"
abbreviation SynceClockQuality :: string where "SynceClockQuality \<equiv> ''/sync/synce-status/clock-quality''"
abbreviation SyncStatusState :: string where "SyncStatusState \<equiv> ''/sync/sync-status/sync-state''"

definition oranMapping :: "string \<Rightarrow> (string \<times> string) option" where
  "oranMapping ipcType =
     (if ipcType = TypePTPState then Some (''event.sync.ptp-status.ptp-state-change'', PtpLockState)
      else if ipcType = TypeOSClockState then Some (''event.sync.sync-status.os-clock-sync-state-change'', OsClockSyncState)
      else if ipcType = TypeClockClass then Some (''event.sync.ptp-status.ptp-clock-class-change'', PtpClockClass)
      else if ipcType = TypeGNSSState then Some (''event.sync.gnss-status.gnss-state-change'', GnssSyncStatus)
      else if ipcType = TypeSyncEState then Some (''event.sync.synce-status.synce-state-change'', SynceLockState)
      else if ipcType = TypeSyncEClockQuality
        then Some (''event.sync.synce-status.synce-clock-quality-change'', SynceClockQuality)
      else if ipcType = TypeSyncState
        then Some (''event.sync.sync-status.synchronization-state-change'', SyncStatusState)
      else None)"

datatype dv_type = NOTIFICATION | METRIC
datatype dv_value_type = ENUMERATION | DECIMAL
datatype dv_value = DvString string | DvInt int | DvFloat f64

record data_value =
  dv_Resource :: string
  dv_DataType :: dv_type
  dv_ValueType :: dv_value_type
  dv_Value :: dv_value

record cloud_event =
  ev_ID :: string
  ev_CloudType :: string
  ev_CloudSource :: string
  ev_Time :: "string option"
  ev_Values :: "data_value list"

definition metricDV :: "string \<Rightarrow> dv_value \<Rightarrow> data_value" where
  "metricDV r v = \<lparr>dv_Resource = r, dv_DataType = METRIC, dv_ValueType = DECIMAL, dv_Value = v\<rparr>"

definition stateDV :: "string \<Rightarrow> string \<Rightarrow> data_value" where
  "stateDV r s = \<lparr>dv_Resource = r, dv_DataType = NOTIFICATION, dv_ValueType = ENUMERATION, dv_Value = DvString s\<rparr>"

abbreviation placeholderOffset :: int where "placeholderOffset \<equiv> 0"

definition buildDataValues :: "string \<Rightarrow> ipc_value option \<Rightarrow> data_value list" where
  "buildDataValues addr v =
     (case v of
        None \<Rightarrow> []
      | Some (StateValue s offset) \<Rightarrow> [stateDV addr s, metricDV addr (DvInt offset)]
      | Some (GNSSStateValue s) \<Rightarrow>
          [stateDV addr s, metricDV addr (DvInt placeholderOffset),
           metricDV (path_Join [addr, ''gpsFix'']) (DvInt placeholderOffset)]
      | Some (SyncStateValue s) \<Rightarrow> [stateDV addr s]
      | Some (SyncEStateValue s) \<Rightarrow> [metricDV addr (DvString s)]
      | Some (ClockClassValue c) \<Rightarrow> [metricDV addr (DvInt (uint c))]
      | Some (SyncEClockQualityValue q e) \<Rightarrow>
          [metricDV (path_Join [addr, ''Ql'']) (DvFloat (f64_of_int q)),
           metricDV (path_Join [addr, ''extQl'']) (DvFloat (f64_of_int e))])"

text \<open>\<open>setDataValue\<close>: the values afterwards and whether they changed.\<close>

fun setDataValue :: "data_value \<Rightarrow> data_value list \<Rightarrow> data_value list \<times> bool" where
  "setDataValue dv [] = ([dv], True)"
| "setDataValue dv (x # xs) =
     (if dv_Resource x = dv_Resource dv \<and> dv_DataType x = dv_DataType dv
      then if dv_Value x = dv_Value dv then (x # xs, False) else (dv # xs, True)
      else (let (xs', b) = setDataValue dv xs in (x # xs', b)))"

text \<open>The comparison \<open>==\<close> of values in an interface: floats compare as numbers.\<close>

definition dataValuesEqual :: "data_value list \<Rightarrow> data_value list \<Rightarrow> bool" where
  "dataValuesEqual a b \<longleftrightarrow>
     list_all2 (\<lambda>x y. dv_Resource x = dv_Resource y \<and> dv_DataType x = dv_DataType y \<and> dv_Value x = dv_Value y) a b"

section \<open>The event cache\<close>

text \<open>The order of the entries stands for the iteration order of the Go map.\<close>

record event_cache =
  ec_nodeName :: string
  ec_entries :: "(string \<times> cloud_event) list"

definition NewEventCache :: "string \<Rightarrow> event_cache" where
  "NewEventCache node = \<lparr>ec_nodeName = node, ec_entries = []\<rparr>"

definition node_path :: "string \<Rightarrow> string list \<Rightarrow> string" where
  "node_path node elems = path_Join ([''/cluster/node'', node] @ elems)"

definition buildResourceAddress :: "string \<Rightarrow> string \<Rightarrow> string \<Rightarrow> string" where
  "buildResourceAddress node ipcType iface =
     (let prefix = path_Join [''/cluster/node'', node] in
      if ipcType = TypePTPState \<or> ipcType = TypeGNSSState then path_Join [prefix, iface, ''master'']
      else if ipcType = TypeClockClass then path_Join [prefix, iface, ''master'', ''clock-class'']
      else if ipcType = TypeOSClockState then path_Join [prefix, ''CLOCK_REALTIME'']
      else if ipcType = TypeSyncEState \<or> ipcType = TypeSyncEClockQuality then path_Join [prefix, iface]
      else if ipcType = TypeSyncState then path_Join [prefix, SyncStatusState]
      else prefix)"

text \<open>The loop over the data values of a message of one interface.\<close>

fun setDataValues :: "data_value list \<Rightarrow> data_value list \<Rightarrow> data_value list \<times> bool" where
  "setDataValues [] vs = (vs, False)"
| "setDataValues (dv # dvs) vs =
     (let (vs1, b) = setDataValue dv vs; (vs2, b2) = setDataValues dvs vs1 in (vs2, b \<or> b2))"

definition ec_Update ::
  "string \<Rightarrow> (string \<Rightarrow> string option) \<Rightarrow> message \<Rightarrow> event_cache \<Rightarrow> event_cache \<times> cloud_event option" where
  "ec_Update uuid parse_ts msg c =
     (case oranMapping (m_Type msg) of
        None \<Rightarrow> (c, None)
      | Some (oranType, oranSource) \<Rightarrow>
          (let addr = buildResourceAddress (ec_nodeName c) (m_Type msg) (m_IFace msg);
               dvs = buildDataValues addr (m_Values msg)
           in if dvs = [] then (c, None)
              else
                (let found = map_of (ec_entries c) (m_Type msg);
                     e = (case found of Some e \<Rightarrow> e
                          | None \<Rightarrow> \<lparr>ev_ID = '''', ev_CloudType = oranType,
                                     ev_CloudSource = path_Join [''/cluster/node'', ec_nodeName c, oranSource],
                                     ev_Time = None, ev_Values = []\<rparr>);
                     (vals, changed) =
                       (if m_IFace msg = ''''
                        then if found = None \<or> \<not> dataValuesEqual (ev_Values e) dvs then (dvs, True)
                             else (ev_Values e, False)
                        else setDataValues dvs (ev_Values e));
                     e1 = e\<lparr>ev_Values := vals\<rparr>;
                     e2 = (if changed then e1\<lparr>ev_ID := uuid, ev_Time := parse_ts (m_Timestamp msg)\<rparr> else e1)
                 in (c\<lparr>ec_entries := AList.update (m_Type msg) e2 (ec_entries c)\<rparr>,
                     if changed then Some e2 else None))))"

definition ec_Get :: "string \<Rightarrow> event_cache \<Rightarrow> cloud_event option" where
  "ec_Get ipcType c = map_of (ec_entries c) ipcType"

definition GetBySource :: "string \<Rightarrow> event_cache \<Rightarrow> cloud_event option" where
  "GetBySource source c = map_option snd (find (\<lambda>(k, e). ev_CloudSource e = source) (ec_entries c))"

definition ec_Clear :: "event_cache \<Rightarrow> event_cache" where
  "ec_Clear c = c\<lparr>ec_entries := []\<rparr>"

section \<open>The proxy\<close>

record cep =
  cep_cache :: event_cache
  cep_pubSub :: "pubsub option"
  cep_baseURL :: string
  cep_nodeName :: string

text \<open>What is posted: the endpoint, the subscription and the event.\<close>

type_synonym post = "string \<times> string \<times> cloud_event"

text \<open>\<open>marshal\<close> says whether an event can be converted; a refused post is only logged.\<close>

definition ps_Publish :: "(cloud_event \<Rightarrow> bool) \<Rightarrow> cloud_event \<Rightarrow> pubsub \<Rightarrow> post list" where
  "ps_Publish marshal e ps =
     (if marshal e then map (\<lambda>(u, w). (w, u, e)) (getTargets (ev_CloudSource e) ps) else [])"

definition PublishToID :: "(cloud_event \<Rightarrow> bool) \<Rightarrow> string \<Rightarrow> cloud_event \<Rightarrow> pubsub \<Rightarrow> post list" where
  "PublishToID marshal u e ps =
     (if marshal e then (case target_of_id u ps of None \<Rightarrow> [] | Some w \<Rightarrow> [(w, u, e)]) else [])"

record cep_env =
  ce_uuid :: "nat \<Rightarrow> string"
  ce_parse_ts :: "string \<Rightarrow> string option"
  ce_marshal :: "cloud_event \<Rightarrow> bool"
  ce_json :: "string \<Rightarrow> string + message"

text \<open>
  One line of \<open>handleIncomingEvents\<close>; the number of the line picks its identifier. The lines are given:
  the splitting by \<open>bufio.Scanner\<close>, which ends the loop at a line longer than its buffer, is not modelled.
\<close>

definition handle_line :: "cep_env \<Rightarrow> nat \<Rightarrow> string \<Rightarrow> cep \<Rightarrow> cep \<times> post list" where
  "handle_line env n line l =
     (if line = '''' then (l, [])
      else case ce_json env line of
        Inl err \<Rightarrow> (l, [])
      | Inr msg \<Rightarrow>
          if m_Version msg \<noteq> Version then (l, [])
          else if m_Type msg = TypeCacheClear then (l\<lparr>cep_cache := ec_Clear (cep_cache l)\<rparr>, [])
          else if m_Type msg = TypeStatusRequest then (l, [])
          else
            (let (c, out) = ec_Update (ce_uuid env n) (ce_parse_ts env) msg (cep_cache l); l1 = l\<lparr>cep_cache := c\<rparr>
             in case (out, cep_pubSub l) of
                  (Some e, Some ps) \<Rightarrow> (l1, ps_Publish (ce_marshal env) e ps)
                | _ \<Rightarrow> (l1, [])))"

fun handleIncomingEvents :: "cep_env \<Rightarrow> nat \<Rightarrow> string list \<Rightarrow> cep \<Rightarrow> cep \<times> post list" where
  "handleIncomingEvents env n [] l = (l, [])"
| "handleIncomingEvents env n (line # ls) l =
     (let (l1, p1) = handle_line env n line l; (l2, p2) = handleIncomingEvents env (n + 1) ls l1
      in (l2, p1 @ p2))"

section \<open>The REST interface\<close>

abbreviation apiBase :: string where "apiBase \<equiv> ''/api/ocloudNotifications/v2/''"
abbreviation subscriptionsPath :: string where "subscriptionsPath \<equiv> ''subscriptions''"
abbreviation publishersPath :: string where "publishersPath \<equiv> ''publishers''"

definition TrimPrefix :: "string \<Rightarrow> string \<Rightarrow> string" where
  "TrimPrefix s p = (if has_prefix s p then drop (length p) s else s)"

definition TrimSuffix :: "string \<Rightarrow> string \<Rightarrow> string" where
  "TrimSuffix s p = (if has_suffix s p then take (length s - length p) s else s)"

definition publishableResources :: "string \<Rightarrow> string list" where
  "publishableResources node =
     map (\<lambda>suffix. path_Join [''/cluster/node'', node, suffix])
       [PtpLockState, OsClockSyncState, PtpClockClass, GnssSyncStatus, SynceLockState, SynceClockQuality, SyncStatusState]"

definition isPublishedResource :: "cep \<Rightarrow> string \<Rightarrow> bool" where
  "isPublishedResource l r = list_ex (\<lambda>x. r = x) (publishableResources (cep_nodeName l))"

text \<open>A request; the body is what the JSON decoder makes of it: endpoint and resource.\<close>

record http_request =
  rq_Method :: string
  rq_Path :: string
  rq_Body :: "string + string \<times> string"

datatype http_body =
    BodyText string
  | BodyProblem nat string
  | BodyEvent cloud_event
  | BodyPublishers "string list"
  | BodySubscription "string \<times> string \<times> string \<times> string"
  | BodySubscriptions "(string \<times> string \<times> string \<times> string) list"

datatype http_response = Response nat http_body

definition writeProblem :: "nat \<Rightarrow> string \<Rightarrow> http_response" where
  "writeProblem status detail = Response status (BodyProblem status detail)"

text \<open>\<open>he_uri\<close> is \<open>url.JoinPath\<close> on the base URL, \<open>he_valid_uri\<close> \<open>url.ParseRequestURI\<close>.\<close>

record http_env =
  he_uuid :: string
  he_save_ok :: bool
  he_marshal :: "cloud_event \<Rightarrow> bool"
  he_uri :: "string \<Rightarrow> string list \<Rightarrow> string + string"
  he_valid_uri :: "string \<Rightarrow> bool"

definition subscriptionURILocation :: "http_env \<Rightarrow> cep \<Rightarrow> string \<Rightarrow> string + string" where
  "subscriptionURILocation env l u = he_uri env (cep_baseURL l) [apiBase, subscriptionsPath, u]"

definition currentStateHandler :: "http_env \<Rightarrow> http_request \<Rightarrow> cep \<Rightarrow> http_response" where
  "currentStateHandler env r l =
     (if rq_Method r \<noteq> ''GET'' then writeProblem 405 ''method not allowed''
      else
        (let p = TrimPrefix (rq_Path r) apiBase in
         if \<not> has_suffix p ''/CurrentState'' then writeProblem 404 ''not found''
         else case GetBySource (''/'' @ TrimSuffix p ''/CurrentState'') (cep_cache l) of
           None \<Rightarrow> writeProblem 404 ''event notification resource is not available on this node''
         | Some e \<Rightarrow> if he_marshal env e then Response 200 (BodyEvent e) else writeProblem 500 ''internal error''))"

definition publishersHandler :: "http_request \<Rightarrow> cep \<Rightarrow> http_response" where
  "publishersHandler r l =
     (if rq_Method r \<noteq> ''GET'' then writeProblem 405 ''method not allowed''
      else Response 200 (BodyPublishers (publishableResources (cep_nodeName l))))"

definition subscription_body :: "subscription \<Rightarrow> string \<Rightarrow> string \<times> string \<times> string \<times> string" where
  "subscription_body s uri = (sub_ID s, sub_Endpoint s, sub_Resource s, uri)"

definition handleCreateSubscription :: "http_env \<Rightarrow> http_request \<Rightarrow> pubsub \<Rightarrow> cep \<Rightarrow> cep \<times> http_response \<times> post list" where
  "handleCreateSubscription env r ps l =
     (case rq_Body r of
        Inl err \<Rightarrow> (l, writeProblem 400 err, [])
      | Inr (endpoint, resource) \<Rightarrow>
          if endpoint = '''' \<or> resource = '''' then (l, writeProblem 400 ''EndpointUri and ResourceAddress are required'', [])
          else if \<not> he_valid_uri env endpoint then (l, writeProblem 400 ''invalid EndpointUri'', [])
          else if \<not> isPublishedResource l resource then
            (l, writeProblem 404 ''ResourceAddress is not available on this node'', [])
          else
            (let (ps1, u, existed) = Subscribe (he_uuid env) (he_save_ok env) resource endpoint ps;
                 l1 = l\<lparr>cep_pubSub := Some ps1\<rparr>
             in if existed then (l1, writeProblem 409 ''subscription resource already exists'', [])
                else
                  (let posts = (case GetBySource resource (cep_cache l) of None \<Rightarrow> []
                                | Some e \<Rightarrow> PublishToID (he_marshal env) u e ps1)
                   in case subscriptionURILocation env l u of
                        Inl err \<Rightarrow> (l1, Response 201 (BodyProblem 500 ''error constructing subscription URI''), posts)
                      | Inr uri \<Rightarrow> (l1, Response 201 (BodySubscription (u, endpoint, resource, uri)), posts))))"

fun subscription_bodies :: "(string \<Rightarrow> string + string) \<Rightarrow> subscription list \<Rightarrow> (string \<times> string \<times> string \<times> string) list option" where
  "subscription_bodies loc [] = Some []"
| "subscription_bodies loc (s # ss) =
     (case loc (sub_ID s) of Inl _ \<Rightarrow> None
      | Inr uri \<Rightarrow> map_option (\<lambda>bs. subscription_body s uri # bs) (subscription_bodies loc ss))"

definition handleGetSubscriptions :: "http_env \<Rightarrow> pubsub \<Rightarrow> cep \<Rightarrow> http_response" where
  "handleGetSubscriptions env ps l =
     (case subscription_bodies (subscriptionURILocation env l) (ps_List ps) of
        None \<Rightarrow> writeProblem 500 ''error constructing subscription URI''
      | Some bs \<Rightarrow> Response 200 (BodySubscriptions bs))"

definition handleGetSubscriptionByID :: "http_env \<Rightarrow> string \<Rightarrow> pubsub \<Rightarrow> cep \<Rightarrow> http_response" where
  "handleGetSubscriptionByID env u ps l =
     (case ps_Get u ps of
        None \<Rightarrow> writeProblem 404 ''subscription not found''
      | Some s \<Rightarrow>
          (case subscriptionURILocation env l (sub_ID s) of
             Inl _ \<Rightarrow> writeProblem 500 ''error constructing subscription URI''
           | Inr uri \<Rightarrow> Response 200 (BodySubscription (subscription_body s uri))))"

definition handleDeleteSubscriptionByID :: "http_env \<Rightarrow> string \<Rightarrow> pubsub \<Rightarrow> cep \<Rightarrow> cep \<times> http_response" where
  "handleDeleteSubscriptionByID env u ps l =
     (let (ps1, found) = Unsubscribe u (he_save_ok env) ps in
      if \<not> found then (l, writeProblem 404 ''subscription not found'')
      else (l\<lparr>cep_pubSub := Some ps1\<rparr>, Response 204 (BodyText '''')))"

definition handleDeleteSubscriptions :: "http_env \<Rightarrow> pubsub \<Rightarrow> cep \<Rightarrow> cep \<times> http_response" where
  "handleDeleteSubscriptions env ps l =
     (l\<lparr>cep_pubSub := Some (UnsubscribeAll (he_save_ok env) ps)\<rparr>, Response 204 (BodyText ''''))"

definition subscriptionHandler :: "http_env \<Rightarrow> http_request \<Rightarrow> pubsub \<Rightarrow> cep \<Rightarrow> cep \<times> http_response \<times> post list" where
  "subscriptionHandler env r ps l =
     (let subPath = TrimPrefix (TrimPrefix (rq_Path r) (apiBase @ subscriptionsPath)) ''/'';
          pure = (\<lambda>resp. (l, resp, [])); state = (\<lambda>(l', resp). (l', resp, []))
      in if subPath = '''' then
           if rq_Method r = ''POST'' then handleCreateSubscription env r ps l
           else if rq_Method r = ''GET'' then pure (handleGetSubscriptions env ps l)
           else if rq_Method r = ''DELETE'' then state (handleDeleteSubscriptions env ps l)
           else pure (writeProblem 405 ''method not allowed'')
         else
           if rq_Method r = ''GET'' then pure (handleGetSubscriptionByID env subPath ps l)
           else if rq_Method r = ''DELETE'' then state (handleDeleteSubscriptionByID env subPath ps l)
           else pure (writeProblem 405 ''method not allowed''))"

text \<open>
  \<open>Handler\<close>: the longest pattern of the multiplexer that matches the (already clean) path; a path
  that matches none is not found.
\<close>

definition cep_Handler :: "http_env \<Rightarrow> http_request \<Rightarrow> cep \<Rightarrow> cep \<times> http_response \<times> post list" where
  "cep_Handler env r l =
     (if rq_Path r = apiBase @ ''health'' then (l, Response 200 (BodyText ''OK''), [])
      else if rq_Path r = apiBase @ publishersPath then (l, publishersHandler r l, [])
      else case cep_pubSub l of
        Some ps \<Rightarrow>
          if rq_Path r = apiBase @ subscriptionsPath \<or> has_prefix (rq_Path r) (apiBase @ subscriptionsPath @ ''/'')
          then subscriptionHandler env r ps l
          else if has_prefix (rq_Path r) apiBase then (l, currentStateHandler env r l, [])
          else (l, Response 404 (BodyText ''404 page not found''), [])
      | None \<Rightarrow>
          if has_prefix (rq_Path r) apiBase then (l, currentStateHandler env r l, [])
          else (l, Response 404 (BodyText ''404 page not found''), []))"

section \<open>Addresses\<close>

text \<open>A clean rooted path is a slash and plain parts joined by slashes.\<close>

definition plain :: "string \<Rightarrow> bool" where
  "plain p \<longleftrightarrow> p \<notin> {'''', ''.'', ''..''} \<and> CHR ''/'' \<notin> set p"

definition rooted_path :: "string list \<Rightarrow> string" where
  "rooted_path ps = CHR ''/'' # join ''/'' ps"

lemma split_slash_parts: "p \<in> set (split_slash s) \<Longrightarrow> CHR ''/'' \<notin> set p"
  by (induction s arbitrary: p) (auto split: if_splits list.splits)

lemma clean_parts_plain:
  "\<forall>p \<in> set acc. plain p \<Longrightarrow> \<forall>p \<in> set ps. CHR ''/'' \<notin> set p \<Longrightarrow> \<forall>p \<in> set (clean_parts True acc ps). plain p"
proof (induction ps arbitrary: acc)
  case (Cons p ps)
  have b: "\<forall>q \<in> set (butlast acc). plain q" using Cons.prems(1) by (meson in_set_butlastD)
  have snoc: "p \<noteq> [] \<Longrightarrow> p \<noteq> ''.'' \<Longrightarrow> p \<noteq> ''..'' \<Longrightarrow> \<forall>q \<in> set (acc @ [p]). plain q"
    using Cons.prems by (simp add: plain_def)
  have ps: "\<forall>q \<in> set ps. CHR ''/'' \<notin> set q" using Cons.prems by simp
  show ?case using Cons.IH [OF Cons.prems(1) ps] Cons.IH [OF b ps] Cons.IH [OF snoc ps] by simp
qed simp

lemma path_Clean_rooted:
  "\<exists>ps. (\<forall>p \<in> set ps. plain p) \<and> path_Clean (CHR ''/'' # s) = rooted_path ps"
proof -
  let ?ps = "clean_parts True [] (split_slash (CHR ''/'' # s))"
  have "\<forall>p \<in> set (split_slash (CHR ''/'' # s)). CHR ''/'' \<notin> set p" using split_slash_parts by blast
  then have "\<forall>p \<in> set ?ps. plain p" by (intro clean_parts_plain) simp_all
  then show ?thesis by (intro exI [of _ ?ps]) (simp add: path_Clean_def rooted_path_def Let_def)
qed

lemma split_slash_Cons: "CHR ''/'' \<notin> set p \<Longrightarrow> split_slash (p @ CHR ''/'' # s) = p # split_slash s"
  by (induction p) auto

lemma split_slash_plain: "CHR ''/'' \<notin> set p \<Longrightarrow> split_slash p = [p]"
  by (induction p) auto

lemma split_slash_join: "\<forall>p \<in> set ps. plain p \<Longrightarrow> ps \<noteq> [] \<Longrightarrow> split_slash (join ''/'' ps) = ps"
proof (induction ps)
  case (Cons p ps)
  then have p: "CHR ''/'' \<notin> set p" by (simp add: plain_def)
  show ?case
  proof (cases ps)
    case Nil
    then show ?thesis using split_slash_plain [OF p] by simp
  next
    case (Cons q qs)
    then show ?thesis using Cons.IH Cons.prems split_slash_Cons [OF p] by simp
  qed
qed simp

lemma clean_parts_id:
  "\<forall>p \<in> set ps. plain p \<Longrightarrow> clean_parts r acc ps = acc @ ps"
  by (induction ps arbitrary: acc) (auto simp: plain_def)

lemma join_snoc: "ps \<noteq> [] \<Longrightarrow> join sep (ps @ [x]) = join sep ps @ sep @ x"
  by (induction ps rule: join.induct [where ?a0.0 = sep]) auto

lemma path_Join_snoc:
  assumes "\<forall>p \<in> set ps. plain p" "plain x"
  shows "path_Join [rooted_path ps, x] = rooted_path (ps @ [x])"
proof -
  have x: "x \<noteq> ''''" "CHR ''/'' \<notin> set x" using assms(2) by (auto simp: plain_def)
  have all: "\<forall>p \<in> set (ps @ [x]). plain p" using assms by simp
  have "split_slash (rooted_path ps @ ''/'' @ x) = '''' # (if ps = [] then [''''] else []) @ ps @ [x]"
  proof (cases "ps = []")
    case True
    then show ?thesis using x by (simp add: rooted_path_def split_slash_plain)
  next
    case False
    have "rooted_path ps @ ''/'' @ x = CHR ''/'' # join ''/'' (ps @ [x])"
      using False by (simp add: rooted_path_def join_snoc)
    then show ?thesis using False split_slash_join [OF all] by simp
  qed
  then have c: "clean_parts True [] (split_slash (rooted_path ps @ ''/'' @ x)) = ps @ [x]"
    using clean_parts_id [OF all, of True "[]"] by (cases "ps = []") simp_all
  define s where "s = rooted_path ps @ ''/'' @ x"
  have "s \<noteq> []" "hd s = CHR ''/''" by (simp_all add: s_def rooted_path_def)
  moreover have "clean_parts True [] (split_slash s) = ps @ [x]" using c by (simp add: s_def)
  ultimately have "path_Clean s = rooted_path (ps @ [x])" by (simp add: path_Clean_def Let_def rooted_path_def)
  then show ?thesis using x by (simp add: path_Join_def rooted_path_def s_def)
qed

lemma length_join_snoc: "length (join ''/'' ps) < length (join ''/'' (ps @ [x]))" if "x \<noteq> ''''"
  using that by (cases "ps = []") (auto simp: join_snoc)

definition address :: "string \<Rightarrow> bool" where
  "address a \<longleftrightarrow> (\<exists>ps. (\<forall>p \<in> set ps. plain p) \<and> a = rooted_path ps)"

lemma path_Join_address:
  assumes "e = CHR ''/'' # e'"
  shows "address (path_Join (e # es))"
proof -
  have "\<exists>s. join ''/'' (filter (\<lambda>x. x \<noteq> '''') (e # es)) = CHR ''/'' # s"
    using assms by (cases "filter (\<lambda>x. x \<noteq> '''') es") auto
  then obtain s where "path_Join (e # es) = path_Clean (CHR ''/'' # s)"
    using assms by (auto simp: path_Join_def Let_def)
  with path_Clean_rooted [of s] show ?thesis by (auto simp: address_def)
qed

lemma address_hd: "address a \<Longrightarrow> \<exists>a'. a = CHR ''/'' # a'"
  by (auto simp: address_def rooted_path_def)

lemma buildResourceAddress_address: "address (buildResourceAddress node ty iface)"
proof -
  have p: "address (path_Join [''/cluster/node'', node])" by (rule path_Join_address) simp
  from address_hd [OF this] have "address (path_Join (path_Join [''/cluster/node'', node] # es))" for es
    using path_Join_address by blast
  with p show ?thesis by (auto simp: buildResourceAddress_def Let_def)
qed

abbreviation dv_key :: "data_value \<Rightarrow> string \<times> dv_type" where
  "dv_key d \<equiv> (dv_Resource d, dv_DataType d)"

lemma dvs_distinct:
  assumes "address addr"
  shows "distinct (map dv_key (buildDataValues addr v))"
proof -
  from assms obtain ps where ps: "\<forall>p \<in> set ps. plain p" "addr = rooted_path ps" by (auto simp: address_def)
  have "plain ''gpsFix''" "plain ''Ql''" "plain ''extQl''" by (simp_all add: plain_def)
  then have j: "path_Join [rooted_path ps, ''gpsFix''] = rooted_path (ps @ [''gpsFix''])"
    "path_Join [rooted_path ps, ''Ql''] = rooted_path (ps @ [''Ql''])"
    "path_Join [rooted_path ps, ''extQl''] = rooted_path (ps @ [''extQl''])"
    using path_Join_snoc [OF ps(1)] by blast+
  have "rooted_path ps \<noteq> rooted_path (ps @ [''gpsFix''])"
    using length_join_snoc [of "''gpsFix''" ps] by (auto simp: rooted_path_def)
  moreover have "rooted_path (ps @ [''Ql'']) \<noteq> rooted_path (ps @ [''extQl''])"
    by (cases "ps = []") (auto simp: rooted_path_def join_snoc)
  ultimately show ?thesis
    by (auto simp: buildDataValues_def j ps(2) stateDV_def metricDV_def split: option.splits ipc_value.splits)
qed

section \<open>The cache refines a map of values\<close>

type_synonym ec_view = "string \<Rightarrow> (string \<times> dv_type \<rightharpoonup> dv_value) option"

definition vals_map :: "data_value list \<Rightarrow> (string \<times> dv_type \<rightharpoonup> dv_value)" where
  "vals_map vs = map_of (map (\<lambda>d. (dv_key d, dv_Value d)) vs)"

definition ec_abs :: "event_cache \<Rightarrow> ec_view" where
  "ec_abs c = (\<lambda>ty. map_option (\<lambda>e. vals_map (ev_Values e)) (map_of (ec_entries c) ty))"

text \<open>
  The specification: the values of a message of no interface replace those of its type, the values
  of a message of an interface are laid over them.
\<close>

definition spec_update :: "string \<Rightarrow> message \<Rightarrow> ec_view \<Rightarrow> ec_view" where
  "spec_update node msg a =
     (let dvs = buildDataValues (buildResourceAddress node (m_Type msg) (m_IFace msg)) (m_Values msg) in
      if oranMapping (m_Type msg) = None \<or> dvs = [] then a
      else a(m_Type msg := Some (if m_IFace msg = '''' then vals_map dvs
                                 else (case a (m_Type msg) of None \<Rightarrow> Map.empty | Some m \<Rightarrow> m) ++ vals_map dvs)))"

lemma vals_map_simps [simp]: "vals_map [] = Map.empty" "vals_map (d # ds) = (vals_map ds)(dv_key d \<mapsto> dv_Value d)"
  by (simp_all add: vals_map_def)

lemma setDataValue_map:
  "vals_map (fst (setDataValue dv vs)) = (vals_map vs)(dv_key dv \<mapsto> dv_Value dv) \<and>
   (snd (setDataValue dv vs) \<longleftrightarrow> vals_map vs (dv_key dv) \<noteq> Some (dv_Value dv))"
  by (induction vs) (auto simp: Let_def fun_eq_iff split: prod.splits)

lemma map_add_upd_notin: "k \<notin> dom n \<Longrightarrow> m(k \<mapsto> v) ++ n = (m ++ n)(k \<mapsto> v)"
  by (auto simp: fun_eq_iff map_add_def dom_def split: option.splits)

lemma dom_vals_map: "dom (vals_map vs) = dv_key ` set vs"
  by (simp add: vals_map_def dom_map_of_conv_image_fst image_image)

lemma setDataValues_map:
  assumes "distinct (map dv_key dvs)"
  shows "vals_map (fst (setDataValues dvs vs)) = vals_map vs ++ vals_map dvs \<and>
    (snd (setDataValues dvs vs) \<longleftrightarrow> vals_map vs ++ vals_map dvs \<noteq> vals_map vs)"
  using assms
proof (induction dvs arbitrary: vs)
  case (Cons dv dvs)
  let ?vs = "fst (setDataValue dv vs)"
  have IH: "vals_map (fst (setDataValues dvs ?vs)) = vals_map ?vs ++ vals_map dvs"
    "snd (setDataValues dvs ?vs) \<longleftrightarrow> vals_map ?vs ++ vals_map dvs \<noteq> vals_map ?vs"
    using Cons.IH [of ?vs] Cons.prems by auto
  have notin: "dv_key dv \<notin> dom (vals_map dvs)" using Cons.prems by (auto simp: dom_vals_map)
  have m: "vals_map ?vs ++ vals_map dvs = (vals_map vs ++ vals_map dvs)(dv_key dv \<mapsto> dv_Value dv)"
    using setDataValue_map [of dv vs] map_add_upd_notin [OF notin] by simp
  have step: "setDataValues (dv # dvs) vs =
      (fst (setDataValues dvs ?vs), snd (setDataValue dv vs) \<or> snd (setDataValues dvs ?vs))"
    by (simp add: Let_def split: prod.splits)
  have "vals_map vs ++ vals_map (dv # dvs) = vals_map vs \<longleftrightarrow>
      vals_map vs (dv_key dv) = Some (dv_Value dv) \<and> vals_map ?vs ++ vals_map dvs = vals_map ?vs"
  proof
    assume l: "vals_map vs ++ vals_map (dv # dvs) = vals_map vs"
    then have "vals_map vs (dv_key dv) = (vals_map vs ++ vals_map (dv # dvs)) (dv_key dv)" by simp
    then have k: "vals_map vs (dv_key dv) = Some (dv_Value dv)" by simp
    then have "vals_map ?vs = vals_map vs" using setDataValue_map [of dv vs] by (simp add: fun_upd_idem)
    with k l m show "vals_map vs (dv_key dv) = Some (dv_Value dv) \<and> vals_map ?vs ++ vals_map dvs = vals_map ?vs"
      by (simp add: map_add_upd)
  next
    assume r: "vals_map vs (dv_key dv) = Some (dv_Value dv) \<and> vals_map ?vs ++ vals_map dvs = vals_map ?vs"
    then have "vals_map ?vs = vals_map vs" using setDataValue_map [of dv vs] by (simp add: fun_upd_idem)
    with r m show "vals_map vs ++ vals_map (dv # dvs) = vals_map vs" by (simp add: map_add_upd)
  qed
  moreover have "vals_map vs ++ vals_map (dv # dvs) = vals_map ?vs ++ vals_map dvs"
    unfolding m vals_map_simps map_add_upd ..
  ultimately show ?case unfolding step fst_conv snd_conv using IH setDataValue_map [of dv vs] by argo
qed simp

lemma ne_changed: "distinct (map dv_key dvs) \<Longrightarrow> dvs \<noteq> [] \<Longrightarrow> snd (setDataValues dvs [])"
  using setDataValues_map [of dvs "[]"] dom_vals_map [of dvs] by auto

lemma dataValuesEqual_map: "dataValuesEqual a b \<Longrightarrow> vals_map a = vals_map b"
  unfolding dataValuesEqual_def by (induction rule: list_all2_induct) auto

lemma ec_Update_spec:
  "ec_abs (fst (ec_Update u p msg c)) = spec_update (ec_nodeName c) msg (ec_abs c) \<and>
   (snd (ec_Update u p msg c) = None \<longrightarrow> ec_abs (fst (ec_Update u p msg c)) = ec_abs c) \<and>
   ec_nodeName (fst (ec_Update u p msg c)) = ec_nodeName c"
proof -
  let ?dvs = "buildDataValues (buildResourceAddress (ec_nodeName c) (m_Type msg) (m_IFace msg)) (m_Values msg)"
  have d: "distinct (map dv_key ?dvs)" by (rule dvs_distinct) (rule buildResourceAddress_address)
  show ?thesis
  proof (cases "oranMapping (m_Type msg) = None \<or> ?dvs = []")
    case True
    then show ?thesis by (auto simp: ec_Update_def spec_update_def Let_def split: option.splits)
  next
    case False
    then obtain ot os where o: "oranMapping (m_Type msg) = Some (ot, os)" by auto
    define found where "found = map_of (ec_entries c) (m_Type msg)"
    define e where "e = (case found of Some e \<Rightarrow> e
      | None \<Rightarrow> \<lparr>ev_ID = '''', ev_CloudType = ot, ev_CloudSource = path_Join [''/cluster/node'', ec_nodeName c, os],
                 ev_Time = None, ev_Values = []\<rparr>)"
    define r where "r = (if m_IFace msg = '''' then if found = None \<or> \<not> dataValuesEqual (ev_Values e) ?dvs
      then (?dvs, True) else (ev_Values e, False) else setDataValues ?dvs (ev_Values e))"
    define e2 where "e2 = (if snd r then e\<lparr>ev_Values := fst r\<rparr>\<lparr>ev_ID := u, ev_Time := p (m_Timestamp msg)\<rparr>
      else e\<lparr>ev_Values := fst r\<rparr>)"
    have upd: "ec_Update u p msg c =
        (c\<lparr>ec_entries := AList.update (m_Type msg) e2 (ec_entries c)\<rparr>, if snd r then Some e2 else None)"
      using False o unfolding ec_Update_def e2_def r_def e_def found_def
      by (cases "map_of (ec_entries c) (m_Type msg)") (simp_all add: Let_def split_beta)
    have vals: "ev_Values e2 = fst r" by (simp add: e2_def)
    have old: "(case ec_abs c (m_Type msg) of None \<Rightarrow> Map.empty | Some m \<Rightarrow> m) = vals_map (ev_Values e)"
      by (simp add: ec_abs_def e_def found_def split: option.splits)
    define new where "new = (if m_IFace msg = '''' then vals_map ?dvs else vals_map (ev_Values e) ++ vals_map ?dvs)"
    have s: "snd (setDataValues ?dvs [])" using ne_changed [OF d] False by simp
    have r: "vals_map (fst r) = new \<and> (\<not> snd r \<longrightarrow> found = Some e \<and> new = vals_map (ev_Values e))"
    proof (cases "m_IFace msg = ''''")
      case True
      then show ?thesis
        using dataValuesEqual_map [of "ev_Values e" ?dvs]
        by (cases "found = None"; cases "dataValuesEqual (ev_Values e) ?dvs") (auto simp: r_def new_def e_def)
    next
      case False
      then show ?thesis
        using setDataValues_map [OF d, of "ev_Values e"] s by (cases found) (auto simp: r_def new_def e_def)
    qed
    have abs: "ec_abs (fst (ec_Update u p msg c)) = (ec_abs c)(m_Type msg := Some new)"
      unfolding upd by (simp add: ec_abs_def update_conv' vals r fun_eq_iff)
    also have "\<dots> = spec_update (ec_nodeName c) msg (ec_abs c)"
      using False o unfolding spec_update_def Let_def old new_def by simp
    finally show ?thesis
      using r abs unfolding upd by (auto simp: ec_abs_def found_def fun_eq_iff)
  qed
qed

text \<open>The specification of a line, and what a run publishes.\<close>

definition spec_line :: "cep_env \<Rightarrow> string \<Rightarrow> string \<Rightarrow> ec_view \<Rightarrow> ec_view" where
  "spec_line env node line a =
     (if line = '''' then a
      else case ce_json env line of
        Inl _ \<Rightarrow> a
      | Inr msg \<Rightarrow>
          if m_Version msg \<noteq> Version \<or> m_Type msg = TypeStatusRequest then a
          else if m_Type msg = TypeCacheClear then Map.empty
          else spec_update node msg a)"

lemma handle_line_spec:
  "ec_abs (cep_cache (fst (handle_line env n line l))) = spec_line env (ec_nodeName (cep_cache l)) line (ec_abs (cep_cache l)) \<and>
   ec_nodeName (cep_cache (fst (handle_line env n line l))) = ec_nodeName (cep_cache l) \<and>
   cep_pubSub (fst (handle_line env n line l)) = cep_pubSub l"
proof (cases "line = ''''")
  case False
  show ?thesis
  proof (cases "ce_json env line")
    case (Inr msg)
    let ?u = "ec_Update (ce_uuid env n) (ce_parse_ts env) msg (cep_cache l)"
    have upd: "ec_abs (fst ?u) = spec_update (ec_nodeName (cep_cache l)) msg (ec_abs (cep_cache l))"
      "ec_nodeName (fst ?u) = ec_nodeName (cep_cache l)" using ec_Update_spec by blast+
    consider "m_Version msg \<noteq> Version" | "m_Version msg = Version" "m_Type msg = TypeCacheClear"
      | "m_Version msg = Version" "m_Type msg = TypeStatusRequest"
      | "m_Version msg = Version" "m_Type msg \<noteq> TypeCacheClear" "m_Type msg \<noteq> TypeStatusRequest" by blast
    then show ?thesis
      using False Inr upd
      by cases (auto simp: handle_line_def spec_line_def ec_Clear_def ec_abs_def Let_def fun_eq_iff
          split: prod.splits option.splits)
  qed (use False in \<open>simp add: handle_line_def spec_line_def\<close>)
qed (simp add: handle_line_def spec_line_def)

text \<open>
  C33. The cached state is a function of the messages alone: whatever lines arrive, the data values
  cached for each message type are those the specification computes from them, line by line (an
  unreadable line, another version or a status request change nothing, \<open>cache_clear\<close> empties it, a
  message replaces or overlays the values of its type).
\<close>

theorem proxy_state_refines_values:
  "ec_abs (cep_cache (fst (handleIncomingEvents env n ls l))) =
   fold (spec_line env (ec_nodeName (cep_cache l))) ls (ec_abs (cep_cache l))"
proof (induction ls arbitrary: n l)
  case (Cons line ls)
  let ?l1 = "fst (handle_line env n line l)"
  have "fst (handleIncomingEvents env n (line # ls) l) = fst (handleIncomingEvents env (n + 1) ls ?l1)"
    by (simp add: Let_def split: prod.splits)
  then show ?case using Cons.IH [of "n + 1" ?l1] handle_line_spec [of env n line l] by simp
qed simp

lemma published_when_changed:
  assumes "ec_abs (cep_cache (fst (handle_line env n line l))) \<noteq> ec_abs (cep_cache l)" "cep_pubSub l = Some ps"
    and "ce_json env line = Inr msg" "m_Type msg \<noteq> TypeCacheClear"
  shows "\<exists>e. map_of (ec_entries (cep_cache (fst (handle_line env n line l)))) (m_Type msg) = Some e \<and>
    snd (handle_line env n line l) = ps_Publish (ce_marshal env) e ps"
proof -
  let ?u = "ec_Update (ce_uuid env n) (ce_parse_ts env) msg (cep_cache l)"
  have line: "line \<noteq> ''''" "m_Version msg = Version" "m_Type msg \<noteq> TypeStatusRequest"
    using assms(1,3) by (auto simp: handle_line_def split: if_splits)
  have l1: "cep_cache (fst (handle_line env n line l)) = fst ?u"
    using line assms by (auto simp: handle_line_def Let_def split: prod.splits option.splits)
  with assms(1) have "snd ?u \<noteq> None" using ec_Update_spec [of "ce_uuid env n" "ce_parse_ts env" msg "cep_cache l"] by auto
  then obtain e where e: "snd ?u = Some e" by blast
  have "map_of (ec_entries (fst ?u)) (m_Type msg) = Some e"
    using e by (auto simp: ec_Update_def Let_def update_conv' split: option.splits if_splits prod.splits)
  moreover have "snd (handle_line env n line l) = ps_Publish (ce_marshal env) e ps"
    using e line assms by (auto simp: handle_line_def Let_def split: prod.splits)
  ultimately show ?thesis using l1 by auto
qed

text \<open>
  Two profiles that send a state of no interface share the entry of its type: the second message
  replaces the first, so after a reconnection the state shown depends on the order of the replay.
\<close>

lemma last_profile_wins:
  assumes "m_IFace m1 = ''''" "m_IFace m2 = ''''" "m_Type m1 = TypeSyncState" "m_Type m2 = TypeSyncState"
    and "m_Values m1 = Some (SyncStateValue s1)" "m_Values m2 = Some (SyncStateValue s2)"
  shows "spec_update node m2 (spec_update node m1 a) = spec_update node m2 a"
  using assms by (simp add: spec_update_def Let_def buildDataValues_def split: option.splits)

section \<open>The life of a subscription over REST\<close>

lemma Get_abs:
  assumes "ps_inv ps" "(u, r, e) \<in># ps_abs ps"
  shows "ps_Get u ps = Some (make_sub (ps_writers ps) (u, r, e))"
proof -
  obtain i where i: "i \<in> live_slots ps" "record_of (ps_subs ps ! i) = (u, r, e)" using assms(2) unfolding abs_member by blast
  then have "slot_of_id u ps \<noteq> None" by (auto simp: slot_of_id_None record_of_def)
  then obtain j where j: "slot_of_id u ps = Some j" by blast
  have "j = i" using slot_of_id_Some [OF j] i assms(1) unfolding ps_inv_def record_of_def by auto
  moreover have "ps_subs ps ! i = make_sub (ps_writers ps) (u, r, e)" using assms(1) i unfolding ps_inv_def by metis
  ultimately show ?thesis using j by (simp add: ps_Get_def)
qed

lemma Get_gone: "u \<notin># image_mset fst (ps_abs ps) \<Longrightarrow> ps_Get u ps = None"
proof -
  assume a: "u \<notin># image_mset fst (ps_abs ps)"
  have "sub_ID (ps_subs ps ! i) \<noteq> u" if "i \<in> live_slots ps" for i
  proof
    assume "sub_ID (ps_subs ps ! i) = u"
    then obtain r e where "record_of (ps_subs ps ! i) = (u, r, e)" by (simp add: record_of_def)
    with that have "(u, r, e) \<in># ps_abs ps" unfolding abs_member by blast
    with a show False by force
  qed
  then have "slot_of_id u ps = None" by (simp add: slot_of_id_None)
  then show ?thesis by (simp add: ps_Get_def)
qed

abbreviation sub_path :: "string \<Rightarrow> string" where
  "sub_path u \<equiv> apiBase @ subscriptionsPath @ ''/'' @ u"

lemma route_subscription:
  assumes "u \<noteq> ''''" "rq_Path r = sub_path u" "cep_pubSub l = Some ps"
  shows "cep_Handler env r l =
    (if rq_Method r = ''GET'' then (l, handleGetSubscriptionByID env u ps l, [])
     else if rq_Method r = ''DELETE''
     then (let (l', resp) = handleDeleteSubscriptionByID env u ps l in (l', resp, []))
     else (l, writeProblem 405 ''method not allowed'', []))"
  using assms by (simp add: cep_Handler_def subscriptionHandler_def TrimPrefix_def has_prefix_def)

lemma Unsubscribe_found:
  assumes "ps_inv ps" "(u, r, e) \<in># ps_abs ps"
  shows "\<exists>q. Unsubscribe u ok ps = (q, True) \<and> ps_inv q \<and> u \<notin># image_mset fst (ps_abs q)"
proof -
  obtain i where i: "i \<in> live_slots ps" "record_of (ps_subs ps ! i) = (u, r, e)" using assms(2) unfolding abs_member by blast
  then have "slot_of_id u ps \<noteq> None" by (auto simp: slot_of_id_None record_of_def)
  then obtain j where j: "slot_of_id u ps = Some j" by blast
  obtain q where q: "Unsubscribe u ok ps = (ps_save ok q, True)" "ps_inv q" using Unsubscribe_step [OF assms(1) j] by blast
  have "ps_abs (ps_save ok q) = filter_mset (\<lambda>x. fst x \<noteq> u) (ps_abs ps)"
    using abs_ids [OF assms(1), of u ok] q by simp
  then have "u \<notin># image_mset fst (ps_abs (ps_save ok q))" by auto
  with q show ?thesis by (metis ps_inv_save)
qed

lemma create_201:
  assumes "ps_inv ps" "he_uuid env \<notin># image_mset fst (ps_abs ps)"
    and "handleCreateSubscription env r ps l = (l1, Response 201 (BodySubscription (u, endpoint, resource, uri)), posts)"
  shows "\<exists>ps1. cep_pubSub l1 = Some ps1 \<and> cep_baseURL l1 = cep_baseURL l \<and> ps_inv ps1 \<and> ps_writers ps1 = ps_writers ps \<and>
    ps_abs ps1 = add_mset (u, resource, endpoint) (ps_abs ps) \<and> u = he_uuid env \<and>
    subscriptionURILocation env l u = Inr uri \<and> isPublishedResource l resource \<and> (\<forall>u. (u, resource, endpoint) \<notin># ps_abs ps)"
proof -
  have body: "rq_Body r = Inr (endpoint, resource)" "isPublishedResource l resource"
    using assms(3) by (auto simp: handleCreateSubscription_def writeProblem_def Let_def
        split: sum.splits prod.splits if_splits)
  have ne: "existing resource endpoint ps = None"
    using assms(3) body by (auto simp: handleCreateSubscription_def writeProblem_def Let_def Subscribe_def
        split: sum.splits prod.splits if_splits option.splits)
  let ?ps1 = "insertLocked (he_uuid env) (he_save_ok env) resource endpoint ps"
  have sub: "Subscribe (he_uuid env) (he_save_ok env) resource endpoint ps = (?ps1, he_uuid env, False)"
    using ne by (simp add: Subscribe_def)
  have r: "cep_pubSub l1 = Some ?ps1" "cep_baseURL l1 = cep_baseURL l" "u = he_uuid env"
    "subscriptionURILocation env l u = Inr uri"
    using assms(3) body sub by (auto simp: handleCreateSubscription_def writeProblem_def Let_def
        split: sum.splits if_splits option.splits)
  have "\<forall>j \<in> live_slots ps. sub_ID (ps_subs ps ! j) \<noteq> he_uuid env"
  proof
    fix j assume j: "j \<in> live_slots ps"
    then have "record_of (ps_subs ps ! j) \<in># ps_abs ps" unfolding ps_abs_slots by simp
    then have "fst (record_of (ps_subs ps ! j)) \<in># image_mset fst (ps_abs ps)" by simp
    then have "sub_ID (ps_subs ps ! j) \<in># image_mset fst (ps_abs ps)" by (simp add: record_of_def)
    with assms(2) show "sub_ID (ps_subs ps ! j) \<noteq> he_uuid env" by metis
  qed
  from ps_inv_insert [OF assms(1) this] have "ps_inv ?ps1" .
  moreover have "ps_writers ?ps1 = ps_writers ps" by (auto simp: insertLocked_def Let_def)
  ultimately show ?thesis
    using r body(2) abs_insert [OF assms(1)] ne existing_None [OF assms(1)] by blast
qed

text \<open>
  C34. The life of a subscription over REST: after a POST that was answered 201, a GET of its
  identifier shows the same subscription and changes nothing, a POST of the same pair under another
  identifier is refused with 409, and after a DELETE (204) the GET is answered 404.
\<close>

theorem rest_subscription_round_trip:
  assumes "ps_run xs (NewPubSub stored w) = Some ps" "cep_pubSub l = Some ps"
    and "he_uuid env \<noteq> ''''" "he_uuid env \<notin> fst ` set (map record_of (ps_List ps))"
    and "rq_Method post = ''POST''" "rq_Path post = apiBase @ subscriptionsPath"
    and "cep_Handler env post l = (l1, Response 201 (BodySubscription (u, endpoint, resource, uri)), posts)"
    and "rq_Method get = ''GET''" "rq_Path get = sub_path u"
    and "rq_Method del = ''DELETE''" "rq_Path del = sub_path u"
  shows "cep_Handler env get l1 = (l1, Response 200 (BodySubscription (u, endpoint, resource, uri)), []) \<and>
    (\<forall>env'. \<exists>d. snd (cep_Handler (env\<lparr>he_uuid := env'\<rparr>) post l1) = (writeProblem 409 d, [])) \<and>
    (\<exists>l2. cep_Handler env del l1 = (l2, Response 204 (BodyText ''''), []) \<and>
      cep_Handler env get l2 = (l2, writeProblem 404 ''subscription not found'', []))"
proof -
  have inv: "ps_inv ps" using ps_run_inv [OF assms(1)] .
  have fresh: "he_uuid env \<notin># image_mset fst (ps_abs ps)" using assms(4) by (auto simp: ps_abs_def)
  have "handleCreateSubscription env post ps l = (l1, Response 201 (BodySubscription (u, endpoint, resource, uri)), posts)"
    using assms(2,5-7) by (simp add: cep_Handler_def subscriptionHandler_def TrimPrefix_def has_prefix_def)
  note created = create_201 [OF inv fresh this]
  then obtain ps1 where p1: "cep_pubSub l1 = Some ps1" "cep_baseURL l1 = cep_baseURL l" "ps_inv ps1"
    "ps_abs ps1 = add_mset (u, resource, endpoint) (ps_abs ps)" "u = he_uuid env"
    "subscriptionURILocation env l u = Inr uri" by blast
  have mem: "(u, resource, endpoint) \<in># ps_abs ps1" using p1 by simp
  have u: "u \<noteq> ''''" using p1 assms(3) by simp
  have get: "ps_Get u ps1 = Some (make_sub (ps_writers ps1) (u, resource, endpoint))" by (rule Get_abs [OF p1(3) mem])
  have uri: "subscriptionURILocation env l1 u = Inr uri" using p1 by (simp add: subscriptionURILocation_def)
  have a: "cep_Handler env get l1 = (l1, Response 200 (BodySubscription (u, endpoint, resource, uri)), [])"
    using route_subscription [OF u assms(9) p1(1)] assms(8) get uri
    by (simp add: handleGetSubscriptionByID_def subscription_body_def)
  obtain q where q: "Unsubscribe u (he_save_ok env) ps1 = (q, True)" "u \<notin># image_mset fst (ps_abs q)"
    using Unsubscribe_found [OF p1(3) mem] by blast
  have d: "cep_Handler env del l1 = (l1\<lparr>cep_pubSub := Some q\<rparr>, Response 204 (BodyText ''''), [])"
    using route_subscription [OF u assms(11) p1(1)] assms(10) q by (simp add: handleDeleteSubscriptionByID_def)
  have g: "cep_Handler env get (l1\<lparr>cep_pubSub := Some q\<rparr>) =
      (l1\<lparr>cep_pubSub := Some q\<rparr>, writeProblem 404 ''subscription not found'', [])"
    using route_subscription [OF u assms(9), of "l1\<lparr>cep_pubSub := Some q\<rparr>" q] assms(8) Get_gone [OF q(2)]
    by (simp add: handleGetSubscriptionByID_def)
  have c: "snd (cep_Handler (env\<lparr>he_uuid := u'\<rparr>) post l1) = (writeProblem 409 ''subscription resource already exists'', [])" for u'
  proof -
    have "existing resource endpoint ps1 \<noteq> None" using existing_None [OF p1(3)] mem by blast
    then obtain i where "existing resource endpoint ps1 = Some i" by blast
    then have s: "Subscribe u' ok resource endpoint ps1 = (ps1, sub_ID (ps_subs ps1 ! i), True)" for ok
      by (simp add: Subscribe_def)
    have body: "rq_Body post = Inr (endpoint, resource)" "endpoint \<noteq> ''''" "resource \<noteq> ''''" "he_valid_uri env endpoint"
      "isPublishedResource l resource" "cep_nodeName l1 = cep_nodeName l"
      using assms(2,5-7) by (auto simp: cep_Handler_def subscriptionHandler_def TrimPrefix_def has_prefix_def
          handleCreateSubscription_def writeProblem_def Let_def split: sum.splits prod.splits if_splits)
    then have "isPublishedResource l1 resource" by (simp add: isPublishedResource_def)
    then show ?thesis
      using p1(1) assms(5,6) body s by (simp add: cep_Handler_def subscriptionHandler_def TrimPrefix_def has_prefix_def
          handleCreateSubscription_def Let_def)
  qed
  show ?thesis using a c d g by blast
qed

definition sample_env :: http_env where
  "sample_env = \<lparr>he_uuid = ''6'', he_save_ok = True, he_marshal = (\<lambda>_. True),
     he_uri = (\<lambda>base elems. Inr (base @ concat elems)), he_valid_uri = (\<lambda>_. True)\<rparr>"

definition sample_cep :: cep where
  "sample_cep = \<lparr>cep_cache = NewEventCache ''n'', cep_pubSub = ps_run sample_ops (NewPubSub [] True),
     cep_baseURL = ''http://h'', cep_nodeName = ''n''\<rparr>"

definition sample_post :: http_request where
  "sample_post = \<lparr>rq_Method = ''POST'', rq_Path = apiBase @ subscriptionsPath,
     rq_Body = Inr (''http://w'', ''/cluster/node/n/sync/ptp-status/lock-state'')\<rparr>"

lemma sample_201:
  "snd (cep_Handler sample_env sample_post sample_cep) =
   (Response 201 (BodySubscription (''6'', ''http://w'', ''/cluster/node/n/sync/ptp-status/lock-state'',
      ''http://h/api/ocloudNotifications/v2/subscriptions6'')), [])"
proof -
  have sub: "subscriptionHandler e sample_post ps l = handleCreateSubscription e sample_post ps l" for e ps l
    by (simp add: subscriptionHandler_def sample_post_def TrimPrefix_def has_prefix_def)
  have pub: "isPublishedResource sample_cep ''/cluster/node/n/sync/ptp-status/lock-state''"
    by (simp add: isPublishedResource_def publishableResources_def sample_cep_def path_Join_def path_Clean_def Let_def)
  show ?thesis
    using pub
    by (simp add: cep_Handler_def sub sample_cep_def ps_sample_run)
      (simp add: sample_post_def handleCreateSubscription_def sample_env_def Subscribe_def existing_def slots_of_def
        GetBySource_def NewEventCache_def subscriptionURILocation_def Let_def)
qed

theorem rest_subscription_round_trip_witness:
  "snd (cep_Handler sample_env \<lparr>rq_Method = ''GET'', rq_Path = sub_path ''6'', rq_Body = Inl ''''\<rparr>
     (fst (cep_Handler sample_env sample_post sample_cep))) =
   (Response 200 (BodySubscription (''6'', ''http://w'', ''/cluster/node/n/sync/ptp-status/lock-state'',
      ''http://h/api/ocloudNotifications/v2/subscriptions6'')), [])"
proof -
  have l: "cep_pubSub sample_cep = Some (the (ps_run sample_ops (NewPubSub [] True)))"
    by (simp add: sample_cep_def ps_sample_run)
  have run: "ps_run sample_ops (NewPubSub [] True) = Some (the (ps_run sample_ops (NewPubSub [] True)))"
    by (simp add: ps_sample_run)
  have ids: "he_uuid sample_env \<notin> fst ` set (map record_of (ps_List (the (ps_run sample_ops (NewPubSub [] True)))))"
    by (simp add: ps_sample_run ps_List_def sample_env_def)
  have post: "cep_Handler sample_env sample_post sample_cep =
      (fst (cep_Handler sample_env sample_post sample_cep),
       Response 201 (BodySubscription (''6'', ''http://w'', ''/cluster/node/n/sync/ptp-status/lock-state'',
         ''http://h/api/ocloudNotifications/v2/subscriptions6'')), [])"
    using sample_201 by (metis prod.collapse)
  show ?thesis
    using rest_subscription_round_trip [OF run l _ ids _ _ post,
        of "\<lparr>rq_Method = ''GET'', rq_Path = sub_path ''6'', rq_Body = Inl ''''\<rparr>"
           "\<lparr>rq_Method = ''DELETE'', rq_Path = sub_path ''6'', rq_Body = Inl ''''\<rparr>"]
    by (simp add: sample_env_def sample_post_def)
qed

end
