(* ===== verification/GoStrings.thy ===== *)
theory GoStrings
  imports GoText
begin

text \<open>
  The functions of Go's package \<open>strings\<close> on text (bytes; of the white space of Unicode only the
  ASCII characters occur in configuration and logs), with the laws the readers of configuration
  and logs rest on.
\<close>

section \<open>Splitting and trimming\<close>

text \<open>\<open>strings.Split\<close> at a separator of one character.\<close>

fun split_ch :: "char \<Rightarrow> string \<Rightarrow> string list" where
  "split_ch d [] = [[]]"
| "split_ch d (c # cs) =
     (if c = d then [] # split_ch d cs
      else (case split_ch d cs of [] \<Rightarrow> [[c]] | p # ps \<Rightarrow> (c # p) # ps))"

text \<open>\<open>strings.Fields\<close>: the maximal runs of characters that are no space.\<close>

fun fields_from :: "string \<Rightarrow> string \<Rightarrow> string list" where
  "fields_from acc [] = (if acc = [] then [] else [acc])"
| "fields_from acc (c # cs) =
     (if ch_space c then (if acc = [] then fields_from [] cs else acc # fields_from [] cs)
      else fields_from (acc @ [c]) cs)"

definition Fields :: "string \<Rightarrow> string list" where
  "Fields s = fields_from [] s"

definition trim_left :: "(char \<Rightarrow> bool) \<Rightarrow> string \<Rightarrow> string" where
  "trim_left p s = dropWhile p s"

definition trim_both :: "(char \<Rightarrow> bool) \<Rightarrow> string \<Rightarrow> string" where
  "trim_both p s = rev (dropWhile p (rev (dropWhile p s)))"

definition TrimSpace :: "string \<Rightarrow> string" where
  "TrimSpace s = trim_both ch_space s"

text \<open>\<open>strings.IndexByte\<close> and \<open>strings.Index\<close>: \<open>None\<close> is -1.\<close>

definition IndexByte :: "string \<Rightarrow> char \<Rightarrow> nat option" where
  "IndexByte s c = (if c \<in> set s then Some (length (takeWhile (\<lambda>x. x \<noteq> c) s)) else None)"

fun str_index :: "string \<Rightarrow> string \<Rightarrow> nat option" where
  "str_index [] p = (if p = [] then Some 0 else None)"
| "str_index (c # cs) p = (if has_prefix (c # cs) p then Some 0 else map_option Suc (str_index cs p))"

definition Contains :: "string \<Rightarrow> string \<Rightarrow> bool" where
  "Contains s p \<longleftrightarrow> str_index s p \<noteq> None"

text \<open>\<open>strings.LastIndex\<close>.\<close>

definition LastIndex :: "string \<Rightarrow> string \<Rightarrow> nat option" where
  "LastIndex s p =
     (case filter (\<lambda>i. has_prefix (drop i s) p) [0..<Suc (length s)] of [] \<Rightarrow> None | is \<Rightarrow> Some (last is))"

text \<open>\<open>strings.Cut\<close> at a separator of one character.\<close>

definition Cut :: "string \<Rightarrow> char \<Rightarrow> string \<times> string \<times> bool" where
  "Cut s c = (case IndexByte s c of None \<Rightarrow> (s, '''', False) | Some i \<Rightarrow> (take i s, drop (Suc i) s, True))"

text \<open>\<open>strings.ReplaceAll\<close> for a non-empty old text.\<close>

function ReplaceAll :: "string \<Rightarrow> string \<Rightarrow> string \<Rightarrow> string" where
  "ReplaceAll s old new =
     (if s = [] \<or> old = [] then s
      else if has_prefix s old then new @ ReplaceAll (drop (length old) s) old new
      else hd s # ReplaceAll (tl s) old new)"
  by pat_completeness auto
termination by (relation "measure (\<lambda>(s, _). length s)") auto

declare ReplaceAll.simps [simp del]

text \<open>\<open>strconv.ParseBool\<close>; \<open>None\<close> is an error.\<close>

definition ParseBool :: "string \<Rightarrow> bool option" where
  "ParseBool s =
     (if s \<in> {''1'', ''t'', ''T'', ''true'', ''TRUE'', ''True''} then Some True
      else if s \<in> {''0'', ''f'', ''F'', ''false'', ''FALSE'', ''False''} then Some False else None)"

section \<open>Laws\<close>

lemma split_ch_nonempty [simp]: "split_ch d s \<noteq> []"
  by (induction s) (auto split: list.splits)

lemma split_ch_parts: "p \<in> set (split_ch d s) \<Longrightarrow> d \<notin> set p"
  by (induction s arbitrary: p) (auto split: if_splits list.splits)

lemma split_ch_Cons: "d \<notin> set p \<Longrightarrow> split_ch d (p @ d # s) = p # split_ch d s"
  by (induction p) auto

lemma split_ch_plain: "d \<notin> set p \<Longrightarrow> split_ch d p = [p]"
  by (induction p) auto

lemma split_ch_join: "\<forall>p \<in> set ps. d \<notin> set p \<Longrightarrow> ps \<noteq> [] \<Longrightarrow> split_ch d (join [d] ps) = ps"
proof (induction ps)
  case (Cons p ps)
  then have p: "d \<notin> set p" by simp
  show ?case
  proof (cases ps)
    case Nil
    then show ?thesis using split_ch_plain [OF p] by simp
  next
    case (Cons q qs)
    then show ?thesis using Cons.IH Cons.prems split_ch_Cons [OF p] by simp
  qed
qed simp

lemma join_split_ch: "join [d] (split_ch d s) = s"
proof (induction s)
  case (Cons c cs)
  obtain p ps where ps: "split_ch d cs = p # ps" using split_ch_nonempty by (cases "split_ch d cs") auto
  then show ?case using Cons.IH by (cases ps) auto
qed simp

lemma trim_both_id: "s = [] \<or> \<not> p (hd s) \<and> \<not> p (last s) \<Longrightarrow> trim_both p s = s"
proof -
  assume a: "s = [] \<or> \<not> p (hd s) \<and> \<not> p (last s)"
  then have "dropWhile p s = s" by (cases s) auto
  moreover have "dropWhile p (rev s) = rev s" using a by (cases s rule: rev_cases) auto
  ultimately show ?thesis by (simp add: trim_both_def)
qed

lemma trim_both_ends: "trim_both p s = [] \<or> \<not> p (hd (trim_both p s)) \<and> \<not> p (last (trim_both p s))"
proof (cases "trim_both p s = []")
  case False
  define t where "t = dropWhile p s"
  have r: "trim_both p s = rev (dropWhile p (rev t))" by (simp add: trim_both_def t_def)
  have ne: "dropWhile p (rev t) \<noteq> []" using False by (simp add: r)
  then have l: "\<not> p (last (trim_both p s))" unfolding r by (simp add: last_rev hd_dropWhile)
  obtain u where u: "rev t = u @ dropWhile p (rev t)" by (metis takeWhile_dropWhile_id)
  have "last (rev t) = last (dropWhile p (rev t))" using u ne by (metis last_appendR)
  moreover have "t \<noteq> []" using ne by auto
  ultimately have "hd (trim_both p s) = hd t" unfolding r using ne by (simp add: hd_rev last_rev)
  moreover have "\<not> p (hd t)" using \<open>t \<noteq> []\<close> unfolding t_def by (rule hd_dropWhile)
  ultimately show ?thesis using l by simp
qed simp

lemma trim_both_idem [simp]: "trim_both p (trim_both p s) = trim_both p s"
  using trim_both_ends by (rule trim_both_id)

lemma trim_both_empty: "trim_both p s = [] \<longleftrightarrow> (\<forall>c \<in> set s. p c)"
proof
  assume "trim_both p s = []"
  then have all: "\<forall>c \<in> set (dropWhile p s). p c" by (auto simp: trim_both_def dropWhile_eq_Nil_conv)
  then have "dropWhile p s = []" using hd_dropWhile [of p s] by (metis hd_in_set)
  then show "\<forall>c \<in> set s. p c" by (simp add: dropWhile_eq_Nil_conv)
next
  assume "\<forall>c \<in> set s. p c"
  then show "trim_both p s = []" using set_dropWhileD [of _ p s]
    by (auto simp: trim_both_def dropWhile_eq_Nil_conv)
qed

lemma trim_both_set: "set (trim_both p s) \<subseteq> set s"
  unfolding trim_both_def by (auto dest!: set_dropWhileD)

lemma fields_from_plain: "\<forall>c \<in> set s. \<not> ch_space c \<Longrightarrow> fields_from acc (s @ t) = fields_from (acc @ s) t"
  by (induction s arbitrary: acc) auto

lemma Fields_one: "s \<noteq> [] \<Longrightarrow> \<forall>c \<in> set s. \<not> ch_space c \<Longrightarrow> Fields s = [s]"
  using fields_from_plain [of s "[]" "[]"] by (simp add: Fields_def)

lemma fields_from_parts:
  "\<forall>c \<in> set acc. \<not> ch_space c \<Longrightarrow> f \<in> set (fields_from acc s) \<Longrightarrow> f \<noteq> [] \<and> (\<forall>c \<in> set f. \<not> ch_space c)"
proof (induction s arbitrary: acc)
  case (Cons c s)
  show ?case
  proof (cases "ch_space c")
    case True
    then consider "f = acc" "acc \<noteq> []" | "f \<in> set (fields_from [] s)"
      using Cons.prems(2) by (auto split: if_splits)
    then show ?thesis
    proof cases
      case 1
      with Cons.prems(1) show ?thesis by blast
    next
      case 2
      then show ?thesis by (intro Cons.IH [of "[]"]) simp_all
    qed
  next
    case False
    then show ?thesis using Cons.prems by (intro Cons.IH [of "acc @ [c]"]) auto
  qed
qed (auto split: if_splits)

lemma Fields_parts: "f \<in> set (Fields s) \<Longrightarrow> f \<noteq> [] \<and> (\<forall>c \<in> set f. \<not> ch_space c)"
  unfolding Fields_def by (rule fields_from_parts [of "[]"]) simp_all

lemma Fields_Cons: "s \<noteq> [] \<Longrightarrow> \<forall>c \<in> set s. \<not> ch_space c \<Longrightarrow> Fields (s @ CHR '' '' # t) = s # Fields t"
  using fields_from_plain [of s "[]" "CHR '' '' # t"] by (simp add: Fields_def ch_space_def)

lemma Fields_join:
  "\<forall>f \<in> set fs. f \<noteq> [] \<and> (\<forall>c \<in> set f. \<not> ch_space c) \<Longrightarrow> Fields (join '' '' fs) = fs"
proof (induction fs)
  case Nil
  then show ?case by (simp add: Fields_def)
next
  case (Cons f fs)
  then show ?case by (cases fs) (simp_all add: Fields_one Fields_Cons)
qed

lemma IndexByte_append: "c \<notin> set k \<Longrightarrow> IndexByte (k @ c # v) c = Some (length k)"
  by (simp add: IndexByte_def takeWhile_append)

lemma Cut_append: "c \<notin> set k \<Longrightarrow> Cut (k @ c # v) c = (k, v, True)"
  by (simp add: Cut_def IndexByte_append)

section \<open>Expressions that must match the whole text\<close>

lemma lang_lit_seq: "lang (RSeq (RLit l) r) s \<longleftrightarrow> (\<exists>t. s = l @ t \<and> lang r t)"
  by auto

lemma match_here_end:
  assumes "noend r"
  shows "match_here (RSeq r REnd) s \<noteq> None \<longleftrightarrow> lang r s"
proof -
  define k where "k = (\<lambda>m (s' :: string). Some (m :: captures, take (length s - length s') s))"
  have mt: "mt (RSeq r REnd) [] s k = mt r [] s (\<lambda>m' s'. if s' = [] then k m' s' else None)" by simp
  show ?thesis
  proof
    assume "match_here (RSeq r REnd) s \<noteq> None"
    then obtain x where "mt r [] s (\<lambda>m' s'. if s' = [] then k m' s' else None) = Some x"
      unfolding match_here_def k_def [symmetric] mt by blast
    from mt_sound [OF this] obtain u t m' where "s = u @ t" "lang r u" "(if t = [] then k m' t else None) = Some x" by blast
    then show "lang r s" by (cases "t = []") auto
  next
    assume l: "lang r s"
    have "mt r [] (s @ []) (\<lambda>m' s'. if s' = [] then k m' s' else None) \<noteq> None"
      by (rule mt_complete [OF assms l]) (simp add: k_def)
    then show "match_here (RSeq r REnd) s \<noteq> None" unfolding match_here_def k_def [symmetric] mt by simp
  qed
qed

section \<open>All matches\<close>

text \<open>\<open>FindAllStringSubmatch(s, -1)\<close> for an expression that matches no empty text.\<close>

function find_all :: "rx \<Rightarrow> string \<Rightarrow> (captures \<times> string) list" where
  "find_all r s =
     (if s = [] then []
      else case match_here r s of
        None \<Rightarrow> find_all r (tl s)
      | Some (m, w) \<Rightarrow> (m, w) # find_all r (drop (max 1 (length w)) s))"
  by pat_completeness auto
termination by (relation "measure (\<lambda>(_, s). length s)") auto

declare find_all.simps [simp del]

section \<open>Numbers with a prefix\<close>

text \<open>\<open>strconv.ParseUint\<close> and \<open>ParseInt\<close> in base 0, where underscores may separate digits.\<close>

text \<open>\<open>seen\<close> is the kind of the character before: a digit (or the prefix), an underscore or neither.\<close>

fun underscore_loop :: "bool \<Rightarrow> char \<Rightarrow> string \<Rightarrow> bool" where
  "underscore_loop hex seen [] = (seen \<noteq> CHR ''_'')"
| "underscore_loop hex seen (c # cs) =
     (if ch_digit c \<or> hex \<and> ch_hex c then underscore_loop hex (CHR ''0'') cs
      else if c = CHR ''_'' then seen = CHR ''0'' \<and> underscore_loop hex (CHR ''_'') cs
      else seen \<noteq> CHR ''_'' \<and> underscore_loop hex (CHR ''!'') cs)"

definition underscoreOK :: "string \<Rightarrow> bool" where
  "underscoreOK s0 =
     (let s = (if s0 \<noteq> [] \<and> (hd s0 = CHR ''-'' \<or> hd s0 = CHR ''+'') then tl s0 else s0)
      in if 2 \<le> length s \<and> hd s = CHR ''0'' \<and> s ! 1 \<in> set ''bBoOxX''
         then underscore_loop (s ! 1 \<in> set ''xX'') (CHR ''0'') (drop 2 s)
         else underscore_loop False (CHR ''^'') s)"

definition ParseUint0 :: "string \<Rightarrow> nat \<Rightarrow> nat \<times> num_error option" where
  "ParseUint0 s bits =
     (if s = [] then (0, Some ErrSyntax)
      else
        (let (b, t) =
               (if hd s \<noteq> CHR ''0'' then (10, s)
                else if 3 \<le> length s \<and> s ! 1 \<in> set ''bB'' then (2, drop 2 s)
                else if 3 \<le> length s \<and> s ! 1 \<in> set ''oO'' then (8, drop 2 s)
                else if 3 \<le> length s \<and> s ! 1 \<in> set ''xX'' then (16, drop 2 s)
                else (8, tl s));
             (n, err) = uint_loop b (2 ^ bits - 1) 0 (filter (\<lambda>c. c \<noteq> CHR ''_'') t)
         in if err = None \<and> CHR ''_'' \<in> set t \<and> \<not> underscoreOK s then (0, Some ErrSyntax) else (n, err)))"

definition ParseInt0 :: "string \<Rightarrow> nat \<Rightarrow> int \<times> num_error option" where
  "ParseInt0 s bits =
     (if s = [] then (0, Some ErrSyntax)
      else let neg = (hd s = CHR ''-'');
               digits = (if hd s = CHR ''-'' \<or> hd s = CHR ''+'' then tl s else s);
               (un, err) = ParseUint0 digits bits;
               cutoff = (2 ^ (bits - 1) :: int)
           in if err = Some ErrSyntax then (0, err)
              else if \<not> neg \<and> cutoff \<le> int un then (cutoff - 1, Some ErrRange)
              else if neg \<and> cutoff < int un then (- cutoff, Some ErrRange)
              else (if neg then - int un else int un, None))"

text \<open>\<open>strings.EqualFold\<close> on ASCII text.\<close>

definition EqualFold :: "string \<Rightarrow> string \<Rightarrow> bool" where
  "EqualFold a b \<longleftrightarrow> lower a = lower b"

definition str_TrimPrefix :: "string \<Rightarrow> string \<Rightarrow> string" where
  "str_TrimPrefix s p = (if has_prefix s p then drop (length p) s else s)"

definition str_TrimSuffix :: "string \<Rightarrow> string \<Rightarrow> string" where
  "str_TrimSuffix s p = (if has_suffix s p then take (length s - length p) s else s)"

end
