(* ===== verification/Profile.thy ===== *)
theory Profile
  imports GoStrings Event "HOL-Library.AList"
begin

text \<open>
  The PTP profile of a node (\<open>PtpProfile\<close> of the operator's API) as the daemon reads it, and JSON
  values. Optional fields of the API are \<open>None\<close> when they are nil; the settings are an association
  list whose order stands for the iteration order of the map.
\<close>

datatype json =
    JNull
  | JBool bool
  | JNum f64
  | JStr string
  | JArr "json list"
  | JObj "(string \<times> json) list"

type_synonym settings = "(string \<times> string) list"

record ptp_profile =
  pf_Name :: "string option"
  pf_Interface :: "string option"
  pf_Ptp4lOpts :: "string option"
  pf_Phc2sysOpts :: "string option"
  pf_Ts2PhcOpts :: "string option"
  pf_Synce4lOpts :: "string option"
  pf_ChronydOpts :: "string option"
  pf_Ptp4lConf :: "string option"
  pf_Phc2sysConf :: "string option"
  pf_Ts2PhcConf :: "string option"
  pf_Synce4lConf :: "string option"
  pf_ChronydConf :: "string option"
  pf_PtpSchedulingPolicy :: "string option"
  pf_PtpSchedulingPriority :: "int option"
  pf_PtpClockThreshold :: "ptp_clock_threshold option"
  pf_PtpSettings :: "settings option"
  pf_Plugins :: "(string \<times> json option) list"

definition empty_profile :: ptp_profile where
  "empty_profile = \<lparr>pf_Name = None, pf_Interface = None, pf_Ptp4lOpts = None, pf_Phc2sysOpts = None,
     pf_Ts2PhcOpts = None, pf_Synce4lOpts = None, pf_ChronydOpts = None, pf_Ptp4lConf = None,
     pf_Phc2sysConf = None, pf_Ts2PhcConf = None, pf_Synce4lConf = None, pf_ChronydConf = None,
     pf_PtpSchedulingPolicy = None, pf_PtpSchedulingPriority = None, pf_PtpClockThreshold = None,
     pf_PtpSettings = None, pf_Plugins = []\<rparr>"

text \<open>Reading a key of a map that may be nil.\<close>

definition setting :: "string \<Rightarrow> ptp_profile \<Rightarrow> string option" where
  "setting key p = (case pf_PtpSettings p of None \<Rightarrow> None | Some s \<Rightarrow> map_of s key)"

end
