(* ===== verification/Synce.thy ===== *)
theory Synce
  imports Profile
begin

text \<open>
  SyncE (\<open>pkg/synce/synce.go\<close> and \<open>processSynceEvents\<close> of \<open>pkg/daemon/ptp_process.go\<close>): the
  quality levels of the two network options, the relations of devices and interfaces, the log of
  synce4l, and how its entries become events. The order of a list that stands for a Go map is the
  order of its iteration. The devices of the relations are shared by pointer: an operation changes
  the device at its index.
\<close>

section \<open>States and quality levels\<close>

abbreviation QL_DEFAULT_SSM :: u8 where "QL_DEFAULT_SSM \<equiv> 3"
abbreviation QL_DEFAULT_ENHSSM :: u8 where "QL_DEFAULT_ENHSSM \<equiv> 255"
abbreviation QL_DNU_SSM :: u8 where "QL_DNU_SSM \<equiv> 15"
abbreviation QL_DUS_SSM :: u8 where "QL_DUS_SSM \<equiv> 15"
abbreviation QL_DNU_ENHSSM :: u8 where "QL_DNU_ENHSSM \<equiv> 255"
abbreviation QL_DUS_ENHSSM :: u8 where "QL_DUS_ENHSSM \<equiv> 255"
abbreviation SYNCE_NETWORK_OPT_1 :: int where "SYNCE_NETWORK_OPT_1 \<equiv> 1"
abbreviation SYNCE_NETWORK_OPT_2 :: int where "SYNCE_NETWORK_OPT_2 \<equiv> 2"
abbreviation ExtendedTLV_ENABLED :: int where "ExtendedTLV_ENABLED \<equiv> 1"
abbreviation ExtendedTLV_DISABLED :: int where "ExtendedTLV_DISABLED \<equiv> 0"

datatype eec_state = EEC_UNKNOWN | EEC_INVALID | EEC_FREERUN | EEC_LOCKED | EEC_LOCKED_HO_ACQ | EEC_HOLDOVER

fun eec_String :: "eec_state \<Rightarrow> string" where
  "eec_String EEC_UNKNOWN = ''EEC_UNKNOWN''"
| "eec_String EEC_INVALID = ''EEC_INVALID''"
| "eec_String EEC_FREERUN = ''EEC_FREERUN''"
| "eec_String EEC_LOCKED = ''EEC_LOCKED''"
| "eec_String EEC_LOCKED_HO_ACQ = ''EEC_LOCKED_HO_ACQ''"
| "eec_String EEC_HOLDOVER = ''EEC_HOLDOVER''"

fun ToPTPState :: "eec_state \<Rightarrow> ptp_state" where
  "ToPTPState EEC_UNKNOWN = PTP_UNKNOWN"
| "ToPTPState EEC_INVALID = PTP_UNKNOWN"
| "ToPTPState EEC_FREERUN = PTP_FREERUN"
| "ToPTPState EEC_LOCKED = PTP_LOCKED"
| "ToPTPState EEC_LOCKED_HO_ACQ = PTP_LOCKED"
| "ToPTPState EEC_HOLDOVER = PTP_HOLDOVER"

definition StringToEECState :: "string \<Rightarrow> eec_state" where
  "StringToEECState s =
     (if s = ''EEC_FREERUN'' then EEC_FREERUN
      else if s = ''EEC_LOCKED'' then EEC_LOCKED
      else if s = ''EEC_INVALID'' then EEC_INVALID
      else if s = ''EEC_LOCKED_HO_ACQ'' then EEC_LOCKED_HO_ACQ
      else if s = ''EEC_HOLDOVER'' then EEC_HOLDOVER
      else EEC_UNKNOWN)"

datatype quality_level =
    EPRTC | PRTC | PRC | SSUA | SSUB | EEC1 | PRS | STU | ST2 | TNC | ST3E | EEC2 | PROV | DNU | DUS

text \<open>\<open>String\<close> has no case for \<open>TNC\<close>.\<close>

fun ql_String :: "quality_level \<Rightarrow> string" where
  "ql_String EPRTC = ''EPRTC''"
| "ql_String PRTC = ''PRTC''"
| "ql_String PRC = ''PRC''"
| "ql_String SSUA = ''SSUA''"
| "ql_String SSUB = ''SSUB''"
| "ql_String EEC1 = ''EEC1''"
| "ql_String PRS = ''PRS''"
| "ql_String STU = ''STU''"
| "ql_String ST2 = ''ST2''"
| "ql_String ST3E = ''ST3E''"
| "ql_String EEC2 = ''EEC2''"
| "ql_String PROV = ''PROV''"
| "ql_String DNU = ''DNU''"
| "ql_String DUS = ''DUS''"
| "ql_String TNC = ''UNKNOWN''"

record ql_info =
  qi_Priority :: int
  qi_SSM :: u8
  qi_ExtendedSSM :: u8

definition ql :: "int \<Rightarrow> u8 \<Rightarrow> u8 \<Rightarrow> ql_info" where
  "ql p s e = \<lparr>qi_Priority = p, qi_SSM = s, qi_ExtendedSSM = e\<rparr>"

type_synonym ql_table = "(quality_level \<times> ql_info) list"

definition qualityLevelInfoOption1 :: ql_table where
  "qualityLevelInfoOption1 =
     [(EPRTC, ql 0 0x2 0x21), (PRTC, ql 1 0x2 0x20), (PRC, ql 2 0x2 0xFF), (SSUA, ql 3 0x4 0xFF),
      (SSUB, ql 4 0x8 0xFF), (EEC1, ql 5 0xB 0xFF), (DNU, ql 6 0xF 0xFF)]"

definition qualityLevelInfoOption2 :: ql_table where
  "qualityLevelInfoOption2 =
     [(EPRTC, ql 0 0x1 0x21), (PRTC, ql 1 0x1 0x20), (PRS, ql 2 0x1 0xFF), (STU, ql 3 0x0 0xFF),
      (ST2, ql 4 0x7 0xFF), (TNC, ql 5 0x4 0xFF), (ST3E, ql 6 0xD 0xFF), (EEC2, ql 7 0xA 0xFF),
      (PROV, ql 8 0xE 0xFF), (DUS, ql 9 0xF 0xFF)]"

definition ql_Compare :: "ql_info \<Rightarrow> ql_info \<Rightarrow> bool" where
  "ql_Compare q other \<longleftrightarrow>
     qi_SSM q = qi_SSM other \<and> (qi_ExtendedSSM other = QL_DEFAULT_SSM \<or> qi_ExtendedSSM q = qi_ExtendedSSM other)"

section \<open>Devices\<close>

record synce_config =
  sc_Name :: string
  sc_Ifaces :: "string list"
  sc_ClockId :: string
  sc_NetworkOption :: int
  sc_ExtendedTlv :: int
  sc_ExternalSource :: string
  sc_LastQLState :: "string \<rightharpoonup> ql_info"
  sc_LastClockState :: ptp_state

definition zero_synce_config :: synce_config where
  "zero_synce_config = \<lparr>sc_Name = '''', sc_Ifaces = [], sc_ClockId = '''', sc_NetworkOption = 0, sc_ExtendedTlv = 0,
     sc_ExternalSource = '''', sc_LastQLState = Map.empty, sc_LastClockState = PTP_EMPTY\<rparr>"

type_synonym relations = "synce_config list"

definition AddDeviceConfig :: "synce_config \<Rightarrow> relations \<Rightarrow> relations" where
  "AddDeviceConfig c r = r @ [c]"

text \<open>The first device with an interface.\<close>

definition device_of_iface :: "string \<Rightarrow> relations \<Rightarrow> nat option" where
  "device_of_iface i r = find (\<lambda>n. i \<in> set (sc_Ifaces (r ! n))) [0..<length r]"

text \<open>\<open>AddClockIds\<close>: the function returns as soon as one clock identifier is stored.\<close>

fun AddClockIds :: "settings \<Rightarrow> relations \<Rightarrow> relations" where
  "AddClockIds [] r = r"
| "AddClockIds ((k, v) # ss) r =
     (if \<not> has_prefix k ''clockId'' then AddClockIds ss r
      else (case device_of_iface (ReplaceAll (ReplaceAll k ''clockId['' '''') '']'' '''') r of
              Some n \<Rightarrow> r[n := (r ! n)\<lparr>sc_ClockId := v\<rparr>]
            | None \<Rightarrow> AddClockIds ss r))"

definition AppendDeviceConfig :: "string list \<Rightarrow> string \<Rightarrow> int \<Rightarrow> int \<Rightarrow> relations \<Rightarrow> relations" where
  "AppendDeviceConfig ifaces devName networkOption extendedTlv r =
     (if ifaces = [] then r
      else r @ [zero_synce_config\<lparr>sc_Name := devName, sc_Ifaces := ifaces, sc_NetworkOption := networkOption,
                                  sc_ExtendedTlv := extendedTlv\<rparr>])"

text \<open>\<open>GetSyncERelation\<close>: the last device that fits.\<close>

definition GetSyncERelation :: "string \<Rightarrow> string \<Rightarrow> string \<Rightarrow> relations \<Rightarrow> int \<times> int \<times> string \<times> string \<times> string list" where
  "GetSyncERelation deviceName extSourceName iface r =
     foldl (\<lambda>acc v.
       if sc_Name v = deviceName \<or> sc_ExternalSource v = extSourceName \<or> iface \<in> set (sc_Ifaces v)
       then (sc_NetworkOption v, sc_ExtendedTlv v, sc_Name v, sc_ExternalSource v, sc_Ifaces v) else acc)
       (0, 0, '''', '''', []) r"

text \<open>\<open>ClockQuality\<close>, with the two tables in the order of their iteration.\<close>

definition ClockQuality_of :: "ql_table \<Rightarrow> ql_table \<Rightarrow> synce_config \<Rightarrow> ql_info \<Rightarrow> string \<times> ql_info" where
  "ClockQuality_of t1 t2 c q0 =
     (let q = (if sc_ExtendedTlv c = ExtendedTLV_DISABLED then q0\<lparr>qi_ExtendedSSM := QL_DEFAULT_ENHSSM\<rparr> else q0);
          look = (\<lambda>t dflt. case find (\<lambda>(l, i). ql_Compare i q) t of
                    Some (l, i) \<Rightarrow> (ql_String l, i) | None \<Rightarrow> dflt)
      in if sc_ExtendedTlv c \<noteq> ExtendedTLV_DISABLED \<and> sc_ExtendedTlv c = ExtendedTLV_ENABLED \<and>
            qi_ExtendedSSM q = QL_DEFAULT_SSM then ('''', q)
         else if sc_NetworkOption c = SYNCE_NETWORK_OPT_1 then
           look t1 (ql_String DNU, ql 0 QL_DNU_SSM QL_DNU_ENHSSM)
         else if sc_NetworkOption c = SYNCE_NETWORK_OPT_2 then
           look t2 (ql_String DUS, ql 0 QL_DUS_SSM QL_DUS_ENHSSM)
         else ('''', ql 0 0 0))"

definition ClockQuality :: "synce_config \<Rightarrow> ql_info \<Rightarrow> string \<times> ql_info" where
  "ClockQuality = ClockQuality_of qualityLevelInfoOption1 qualityLevelInfoOption2"

section \<open>The log of synce4l\<close>

datatype synce_log_type = SYNCE_STATE | QL_STATE | EXT_QL_STATE

record synce_entry =
  se_State :: "string option"
  se_QL :: u8
  se_ExtQl :: u8
  se_ExtSource :: "string option"
  se_Device :: "string option"
  se_Source :: "string option"
  se_LogType :: synce_log_type

text \<open>The composite literal \<open>LogEntry{}\<close>: fields not named are zero.\<close>

definition zero_entry :: synce_entry where
  "zero_entry = \<lparr>se_State = None, se_QL = 0, se_ExtQl = 0, se_ExtSource = None, se_Device = None,
     se_Source = None, se_LogType = SYNCE_STATE\<rparr>"

definition ch_word_slash :: "char \<Rightarrow> bool" where
  "ch_word_slash c \<longleftrightarrow> ch_word c \<or> c = CHR ''/''"

definition rx_eec :: rx where
  "rx_eec = RCap 1 (RAlt (RLit ''EEC_FREERUN'') (RAlt (RLit ''EEC_INVALID'') (RAlt (RLit ''EEC_LOCKED'')
     (RAlt (RLit ''EEC_HOLDOVER'') (RLit ''EEC_LOCKED_HO_ACQ'')))))"

definition stateRegexpOf :: rx where
  "stateRegexpOf = rseq [rx_eec, RLit '' on '', RCap 2 (RPlus ch_word_slash), RLit '' of '', RCap 3 (RPlus ch_word_slash)]"

definition stateRegexpOn :: rx where
  "stateRegexpOn = rseq [rx_eec, RLit '' on '', RCap 2 (RPlus ch_word_slash)]"

definition stateRegexpFor :: rx where
  "stateRegexpFor = rseq [rx_eec, RLit '' for '', RCap 2 (RPlus ch_word_slash)]"

definition qlRegexp :: rx where
  "qlRegexp = rseq [RLit '' QL=0x'', RCap 1 (RPlus ch_hex), RLit '' on '', RCap 2 (RPlus ch_word)]"

definition extQLRegexp :: rx where
  "extQLRegexp = rseq [RLit ''EXT_QL=0x'', RCap 1 (RPlus ch_hex), RLit '' on '', RCap 2 (RPlus ch_word)]"

text \<open>The first match whose number fits a byte.\<close>

fun first_byte :: "(captures \<times> string) list \<Rightarrow> (u8 \<times> string) option" where
  "first_byte [] = None"
| "first_byte ((m, w) # ms) =
     (case ParseUint (capture m 1) 16 8 of
        (n, None) \<Rightarrow> Some (of_nat n, capture m 2)
      | _ \<Rightarrow> first_byte ms)"

definition synce_ParseLog :: "string \<Rightarrow> synce_entry" where
  "synce_ParseLog output =
     (case find_all stateRegexpOf output of
        (m, _) # _ \<Rightarrow> zero_entry\<lparr>se_State := Some (capture m 1), se_ExtSource := Some (capture m 2),
                                 se_Device := Some (capture m 3)\<rparr>
      | [] \<Rightarrow>
     (case find_all stateRegexpOn output of
        (m, _) # _ \<Rightarrow> zero_entry\<lparr>se_State := Some (capture m 1), se_Device := Some (capture m 2)\<rparr>
      | [] \<Rightarrow>
     (case find_all stateRegexpFor output of
        (m, _) # _ \<Rightarrow> zero_entry\<lparr>se_State := Some (capture m 1), se_Source := Some (capture m 2)\<rparr>
      | [] \<Rightarrow>
     (case first_byte (find_all extQLRegexp output) of
        Some (v, src) \<Rightarrow> zero_entry\<lparr>se_ExtQl := v, se_Source := Some src, se_LogType := EXT_QL_STATE\<rparr>
      | None \<Rightarrow>
     (case first_byte (find_all qlRegexp output) of
        Some (v, src) \<Rightarrow> zero_entry\<lparr>se_ExtQl := QL_DEFAULT_SSM, se_QL := v, se_Source := Some src, se_LogType := QL_STATE\<rparr>
      | None \<Rightarrow> zero_entry\<lparr>se_QL := QL_DEFAULT_SSM, se_ExtQl := QL_DEFAULT_SSM\<rparr>)))))"

section \<open>Events\<close>

datatype synce_metric = QLMetric string string u8 | ClockQlMetric string string int

text \<open>The state of an entry \<open>... for\<close> an interface.\<close>

definition synce_state_entry :: "string \<Rightarrow> string \<Rightarrow> relations \<Rightarrow> relations \<times> synce_data option" where
  "synce_state_entry st src r =
     (case device_of_iface src r of
        None \<Rightarrow> (r, None)
      | Some n \<Rightarrow>
          (let d = r ! n;
               s = ToPTPState (StringToEECState (ReplaceAll st ''EEC_LOCKED_HO_ACQ'' ''EEC_LOCKED''))
           in (r[n := d\<lparr>sc_LastClockState := s\<rparr>],
               Some \<lparr>sy_State = s, sy_Device = sc_Name d, sy_QL = None, sy_ExtQL = None, sy_ClockQuality = '''',
                     sy_EECState = st, sy_NetworkOption = sc_NetworkOption d\<rparr>)))"

text \<open>The quality level of an interface of a device.\<close>

definition synce_ql_entry ::
  "synce_entry \<Rightarrow> string \<Rightarrow> synce_config \<Rightarrow> synce_config \<times> synce_data option \<times> synce_metric list" where
  "synce_ql_entry e src d =
     (let data = (\<lambda>q x c. \<lparr>sy_State = sc_LastClockState d, sy_Device = sc_Name d, sy_QL = q, sy_ExtQL = x,
                           sy_ClockQuality = c, sy_EECState = '''', sy_NetworkOption = sc_NetworkOption d\<rparr>)
      in if sc_ExtendedTlv d = ExtendedTLV_DISABLED \<and> se_QL e \<noteq> QL_DEFAULT_SSM then
           (d\<lparr>sc_LastQLState := (sc_LastQLState d)(src \<mapsto> ql 0 (se_QL e) QL_DEFAULT_ENHSSM)\<rparr>,
            Some (data (Some (se_QL e)) None (fst (ClockQuality d (ql 0 (se_QL e) 0)))),
            [QLMetric src ''SSM'' (se_QL e), QLMetric src ''Extended SSM'' QL_DEFAULT_ENHSSM,
             ClockQlMetric src (sc_Name d) (uint (se_QL e) + uint QL_DEFAULT_ENHSSM)])
         else if sc_ExtendedTlv d = ExtendedTLV_ENABLED then
           (let last0 = (case sc_LastQLState d src of Some l \<Rightarrow> l | None \<Rightarrow> ql 0 (se_QL e) (se_ExtQl e));
                d1 = d\<lparr>sc_LastQLState := (sc_LastQLState d)(src \<mapsto> last0)\<rparr>
            in if qi_SSM last0 \<noteq> QL_DEFAULT_SSM \<and> se_ExtQl e \<noteq> QL_DEFAULT_SSM then
                 (let last1 = last0\<lparr>qi_ExtendedSSM := se_ExtQl e\<rparr>
                  in (d\<lparr>sc_LastQLState := (sc_LastQLState d)(src \<mapsto> last1)\<rparr>,
                      Some (data (Some (qi_SSM last0)) (Some (se_ExtQl e))
                        (fst (ClockQuality d (ql 0 (qi_SSM last1) (qi_ExtendedSSM last1))))),
                      [QLMetric src ''SSM'' (qi_SSM last0), QLMetric src ''Extended SSM'' (se_ExtQl e),
                       ClockQlMetric src (sc_Name d) (uint (qi_SSM last0) + uint (se_ExtQl e))]))
               else if se_QL e \<noteq> QL_DEFAULT_SSM then
                 (d\<lparr>sc_LastQLState := (sc_LastQLState d)(src \<mapsto> last0\<lparr>qi_SSM := se_QL e\<rparr>)\<rparr>, None, [])
               else (d1, None, []))
         else (d, None, []))"

text \<open>\<open>processSynceEvents\<close>: the event to send and the metrics; an interface of no device is ignored.\<close>

definition processSynceEvents ::
  "synce_entry \<Rightarrow> relations \<Rightarrow> relations \<times> (string \<times> synce_data) option \<times> synce_metric list" where
  "processSynceEvents e r =
     (case (se_State e, se_Source e) of
        (Some st, Some src) \<Rightarrow>
          (let (r', d) = synce_state_entry st src r in (r', map_option (Pair src) d, []))
      | (None, Some src) \<Rightarrow>
          if se_QL e \<noteq> QL_DEFAULT_SSM \<or> se_ExtQl e \<noteq> QL_DEFAULT_SSM then
            (case device_of_iface src r of
               None \<Rightarrow> (r, None, [])
             | Some n \<Rightarrow> (let (d', x, ms) = synce_ql_entry e src (r ! n) in (r[n := d'], map_option (Pair src) x, ms)))
          else (r, None, [])
      | _ \<Rightarrow> (r, None, []))"

section \<open>The quality of a clock does not depend on the order of the tables\<close>

text \<open>Two entries of a table never fit the same complete quality level.\<close>

definition ql_separated :: "ql_table \<Rightarrow> bool" where
  "ql_separated t \<longleftrightarrow>
     (\<forall>x \<in> set t. \<forall>y \<in> set t. qi_SSM (snd x) = qi_SSM (snd y) \<and> qi_ExtendedSSM (snd x) = qi_ExtendedSSM (snd y) \<longrightarrow> x = y)"

lemma tables_separated: "ql_separated qualityLevelInfoOption1" "ql_separated qualityLevelInfoOption2"
  by (simp_all add: ql_separated_def qualityLevelInfoOption1_def qualityLevelInfoOption2_def ql_def)

lemma find_unique:
  assumes "set xs = set ys" "\<And>x y. x \<in> set xs \<Longrightarrow> y \<in> set xs \<Longrightarrow> P x \<Longrightarrow> P y \<Longrightarrow> x = y"
  shows "find P xs = find P ys"
proof (cases "find P xs")
  case None
  then have "\<not> (\<exists>x. x \<in> set xs \<and> P x)" by (simp only: find_None_iff not_False_eq_True)
  then have "find P ys = None" unfolding find_None_iff assms(1) .
  with None show ?thesis by simp
next
  case (Some x)
  then have x: "x \<in> set xs" "P x" by (auto simp: find_Some_iff)
  then have "find P ys \<noteq> None" unfolding find_None_iff assms(1) by blast
  then obtain y where y: "find P ys = Some y" by blast
  then have "y \<in> set ys" "P y" by (auto simp: find_Some_iff)
  with x have "x = y" using assms by blast
  with Some y show ?thesis by simp
qed

lemma find_ql:
  assumes "ql_separated t" "set t' = set t" "qi_ExtendedSSM q \<noteq> QL_DEFAULT_SSM"
  shows "find (\<lambda>(l, i). ql_Compare i q) t' = find (\<lambda>(l, i). ql_Compare i q) t"
proof (rule find_unique [OF assms(2)])
  fix x y
  assume xy: "x \<in> set t'" "y \<in> set t'" "case x of (l, i) \<Rightarrow> ql_Compare i q" "case y of (l, i) \<Rightarrow> ql_Compare i q"
  then have "qi_SSM (snd x) = qi_SSM q \<and> qi_ExtendedSSM (snd x) = qi_ExtendedSSM q"
    "qi_SSM (snd y) = qi_SSM q \<and> qi_ExtendedSSM (snd y) = qi_ExtendedSSM q"
    using assms(3) by (simp_all add: ql_Compare_def split_beta)
  then show "x = y" using xy(1,2) assms(1) unfolding ql_separated_def assms(2) by simp
qed

text \<open>
  The clock quality that is reported is well defined although the code looks it up in Go maps:
  with the extended TLV disabled or enabled, every order in which the maps may be iterated gives the
  same quality level and name.
\<close>

lemma clock_quality_well_defined:
  assumes "sc_ExtendedTlv c \<in> {ExtendedTLV_DISABLED, ExtendedTLV_ENABLED}"
    and "set t1 = set qualityLevelInfoOption1" "set t2 = set qualityLevelInfoOption2"
  shows "ClockQuality_of t1 t2 c q = ClockQuality c q"
proof -
  define q' where "q' = (if sc_ExtendedTlv c = ExtendedTLV_DISABLED then q\<lparr>qi_ExtendedSSM := QL_DEFAULT_ENHSSM\<rparr> else q)"
  show ?thesis
  proof (cases "sc_ExtendedTlv c = ExtendedTLV_ENABLED \<and> qi_ExtendedSSM q' = QL_DEFAULT_SSM")
    case True
    then have "sc_ExtendedTlv c = ExtendedTLV_ENABLED" "qi_ExtendedSSM q = QL_DEFAULT_SSM"
      by (auto simp: q'_def split: if_splits)
    then show ?thesis by (simp add: ClockQuality_def ClockQuality_of_def Let_def)
  next
    case False
    then have ne: "qi_ExtendedSSM q' \<noteq> QL_DEFAULT_SSM" using assms(1) by (auto simp: q'_def)
    note same = find_ql [OF tables_separated(1) assms(2) ne] find_ql [OF tables_separated(2) assms(3) ne]
    show ?thesis unfolding ClockQuality_def ClockQuality_of_def q'_def [symmetric] Let_def same ..
  qed
qed

text \<open>A level that is traceable to TNC is reported as unknown.\<close>

lemma tnc_is_unknown:
  "fst (ClockQuality (zero_synce_config\<lparr>sc_NetworkOption := 2\<rparr>) (ql 0 4 0)) = ''UNKNOWN''"
  by (simp add: ClockQuality_def ClockQuality_of_def qualityLevelInfoOption2_def ql_Compare_def ql_def zero_synce_config_def)

text \<open>
  An \<open>EXT_QL\<close> line before the first \<open>QL\<close> line: the entry has the quality level 0, not the default
  that means it was not read, so a quality level 0 is published.
\<close>

lemma ext_ql_first_reports_zero:
  assumes "sc_ExtendedTlv d = ExtendedTLV_ENABLED" "sc_LastQLState d src = None" "v \<noteq> QL_DEFAULT_SSM"
  shows "\<exists>x. fst (snd (synce_ql_entry (zero_entry\<lparr>se_ExtQl := v, se_Source := Some src, se_LogType := EXT_QL_STATE\<rparr>) src d)) =
    Some x \<and> sy_QL x = Some 0"
  using assms by (simp add: synce_ql_entry_def zero_entry_def ql_def Let_def)

text \<open>One clock identifier is stored at most, whatever the settings hold.\<close>

lemma one_clock_id: "\<exists>n c. AddClockIds ss r = r \<or> AddClockIds ss r = r[n := c]"
  by (induction ss r rule: AddClockIds.induct) (auto split: option.splits)

text \<open>Lines of the log.\<close>

lemma synce_log_samples:
  "synce_ParseLog ''synce4l[627685.138]: [synce4l.0.config] act on EEC_LOCKED/EEC_LOCKED_HO_ACQ for ens7f0'' =
     zero_entry\<lparr>se_State := Some ''EEC_LOCKED_HO_ACQ'', se_Source := Some ''ens7f0''\<rparr>"
  "synce_ParseLog ''tx_rebuild_tlv: attached new TLV, QL=0xf on ens7f0'' =
     zero_entry\<lparr>se_ExtQl := 3, se_QL := 15, se_Source := Some ''ens7f0'', se_LogType := QL_STATE\<rparr>"
  by code_simp+

end
