(* ===== verification/Resolver.thy ===== *)
theory Resolver
  imports Profile
begin

text \<open>
  Interface names (\<open>pkg/network/resolve.go\<close>): a configured name that does not exist is resolved to
  the interface of that name with a suffix \<open>npN\<close>. The set of known interfaces is a list whose
  order stands for the iteration order of the Go map; answers are cached. Raw plugin options are
  JSON values, read and written by functions that are parameters.
\<close>

section \<open>The resolver\<close>

record resolver =
  rs_known :: "string list"
  rs_cache :: "string \<rightharpoonup> string"

definition NewInterfaceResolverWithInterfaces :: "string list \<Rightarrow> resolver" where
  "NewInterfaceResolverWithInterfaces is = \<lparr>rs_known = is, rs_cache = Map.empty\<rparr>"

text \<open>\<open>Refresh\<close>; \<open>None\<close> when the directory cannot be read.\<close>

definition Refresh :: "string list option \<Rightarrow> resolver \<Rightarrow> resolver \<times> string option" where
  "Refresh entries r =
     (case entries of
        None \<Rightarrow> (r, Some ''failed to read /sys/class/net'')
      | Some is \<Rightarrow> (r\<lparr>rs_known := is, rs_cache := Map.empty\<rparr>, None))"

definition npSuffix :: "string \<Rightarrow> int" where
  "npSuffix iface =
     (case LastIndex iface ''np'' of
        None \<Rightarrow> -1
      | Some idx \<Rightarrow>
          if length iface \<le> idx + 2 then -1
          else (case Atoi (drop (idx + 2) iface) of (n, None) \<Rightarrow> n | _ \<Rightarrow> -1))"

text \<open>\<open>^\<close> the quoted name \<open>np\\d+$\<close>.\<close>

definition npPattern :: "string \<Rightarrow> rx" where
  "npPattern name = RSeq (RSeq (RLit name) (RSeq (RLit ''np'') (RPlus ch_digit))) REnd"

definition np_candidates :: "string \<Rightarrow> string list \<Rightarrow> string list" where
  "np_candidates name known = filter (\<lambda>i. match_here (npPattern name) i \<noteq> None) known"

text \<open>The first candidate after sorting by the suffix; equal suffixes (\<open>np1\<close>, \<open>np01\<close>) keep the map's order.\<close>

definition np_best :: "string list \<Rightarrow> string option" where
  "np_best cs = (case sort_key npSuffix cs of [] \<Rightarrow> None | c # _ \<Rightarrow> Some c)"

text \<open>
  \<open>Resolve\<close>. Its doc comment (\<open>resolve.go:84\<close>) speaks of \<open>npN\<close> with N from 0 to 7; the code, and so this
  definition, takes any number of digits after \<open>np\<close>.
\<close>

definition Resolve :: "string \<Rightarrow> resolver \<Rightarrow> resolver \<times> string \<times> bool" where
  "Resolve name r =
     (if name = '''' then (r, name, False)
      else case rs_cache r name of
        Some cached \<Rightarrow> (r, cached, cached \<noteq> name)
      | None \<Rightarrow>
          if name \<in> set (rs_known r) then (r\<lparr>rs_cache := (rs_cache r)(name \<mapsto> name)\<rparr>, name, False)
          else (case np_best (np_candidates name (rs_known r)) of
                  Some c \<Rightarrow> (r\<lparr>rs_cache := (rs_cache r)(name \<mapsto> c)\<rparr>, c, True)
                | None \<Rightarrow> (r\<lparr>rs_cache := (rs_cache r)(name \<mapsto> name)\<rparr>, name, False)))"

text \<open>The name an answer stands for: the remapped one or the old one.\<close>

definition resolve_name :: "string \<Rightarrow> resolver \<Rightarrow> resolver \<times> string" where
  "resolve_name name r = (let (r', n, remapped) = Resolve name r in (r', if remapped then n else name))"

fun resolve_all :: "string list \<Rightarrow> resolver \<Rightarrow> resolver \<times> string list" where
  "resolve_all [] r = (r, [])"
| "resolve_all (n # ns) r =
     (let (r1, m) = resolve_name n r; (r2, ms) = resolve_all ns r1 in (r2, m # ms))"

section \<open>Profiles\<close>

definition isNonInterfaceProcessArg :: "string \<Rightarrow> string \<Rightarrow> string \<Rightarrow> bool" where
  "isNonInterfaceProcessArg fieldName flag value \<longleftrightarrow>
     has_prefix value ''/'' \<or> fieldName = ''Phc2sysOpts'' \<and> has_prefix value ''CLOCK_'' \<or>
     fieldName = ''Ts2PhcOpts'' \<and> (flag = ''-s'' \<or> flag = ''--ts2phc.tod_source'') \<and>
       (value = ''generic'' \<or> value = ''nmea'')"

text \<open>
  The loop over the arguments; a flag resolves the argument after it in place, and the loop goes on
  with that argument. The flag of the result says whether something changed.
\<close>

function resolve_args ::
  "string \<Rightarrow> string list \<Rightarrow> string list \<Rightarrow> resolver \<Rightarrow> resolver \<times> string list \<times> bool" where
  "resolve_args fieldName flags [] r = (r, [], False)"
| "resolve_args fieldName flags (a # as) r =
     (let (flag, value, inline) = Cut a (CHR ''='') in
      if inline \<and> has_prefix flag ''--'' \<and> flag \<in> set flags then
        if isNonInterfaceProcessArg fieldName flag value
        then (let (r1, as', ch) = resolve_args fieldName flags as r in (r1, a # as', ch))
        else (let (r1, n, remapped) = Resolve value r;
                  (r2, as', ch) = resolve_args fieldName flags as r1
              in (r2, (if remapped then flag @ ''='' @ n else a) # as', remapped \<or> ch))
      else if as = [] \<or> a \<notin> set flags \<or> isNonInterfaceProcessArg fieldName a (hd as)
        then (let (r1, as', ch) = resolve_args fieldName flags as r in (r1, a # as', ch))
      else (let (r1, n, remapped) = Resolve (hd as) r;
                (r2, as', ch) = resolve_args fieldName flags (if remapped then n # tl as else as) r1
            in (r2, a # as', remapped \<or> ch)))"
  by pat_completeness auto
termination by (relation "measure (\<lambda>(_, _, as, _). length as)") auto

definition resolveProcessOpts ::
  "string \<Rightarrow> string list \<Rightarrow> string \<Rightarrow> resolver \<Rightarrow> resolver \<times> string" where
  "resolveProcessOpts fieldName flags opts r =
     (let (r1, args, changed) = resolve_args fieldName flags (Fields opts) r
      in (r1, if changed then join '' '' args else opts))"

text \<open>A list of ports separated by commas: only a remapped port replaces its text.\<close>

fun resolve_ports :: "string list \<Rightarrow> resolver \<Rightarrow> resolver \<times> string list \<times> bool" where
  "resolve_ports [] r = (r, [], False)"
| "resolve_ports (p # ps) r =
     (let (r1, n, remapped) = Resolve (TrimSpace p) r; (r2, ps', ch) = resolve_ports ps r1
      in (r2, (if remapped then n else p) # ps', remapped \<or> ch))"

definition resolve_port_list :: "string \<Rightarrow> resolver \<Rightarrow> resolver \<times> string" where
  "resolve_port_list val r =
     (let (r1, ports, changed) = resolve_ports (split_ch (CHR '','') val) r
      in (r1, if changed then join '','' ports else val))"

text \<open>\<open>^dpll\\.(.+)\\.(ignore|flags)$\<close> and \<open>^(clockId|clockIdFormat)\\[(.+)\\]$\<close>.\<close>

definition dpllKeyRegex :: rx where
  "dpllKeyRegex = RSeq (RLit ''dpll.'') (RSeq (RCap 1 (RPlus ch_any)) (RSeq (RLit ''.'')
     (RSeq (RCap 2 (RAlt (RLit ''ignore'') (RLit ''flags''))) REnd)))"

definition clockIDKeyRegex :: rx where
  "clockIDKeyRegex = RSeq (RCap 1 (RAlt (RLit ''clockId'') (RLit ''clockIdFormat'')))
     (RSeq (RLit ''['') (RSeq (RCap 2 (RPlus ch_any)) (RSeq (RLit '']'') REnd)))"

definition resolveDpllKey :: "string \<Rightarrow> resolver \<Rightarrow> resolver \<times> string" where
  "resolveDpllKey key r =
     (case FindStringSubmatch True 2 dpllKeyRegex key of
        None \<Rightarrow> (r, '''')
      | Some m \<Rightarrow> (let (r1, n, remapped) = Resolve (m ! 1) r
                  in (r1, if remapped then ''dpll.'' @ n @ ''.'' @ m ! 2 else '''')))"

definition resolveClockIDKey :: "string \<Rightarrow> resolver \<Rightarrow> resolver \<times> string" where
  "resolveClockIDKey key r =
     (case FindStringSubmatch True 2 clockIDKeyRegex key of
        None \<Rightarrow> (r, '''')
      | Some m \<Rightarrow> (let (r1, n, remapped) = Resolve (m ! 2) r
                  in (r1, if remapped then m ! 1 @ ''['' @ n @ '']'' else '''')))"

text \<open>The new keys, and renaming a key unless the new one exists.\<close>

fun key_renames :: "settings \<Rightarrow> resolver \<Rightarrow> resolver \<times> (string \<times> string) list" where
  "key_renames [] r = (r, [])"
| "key_renames ((key, v) # ss) r =
     (let (r1, k1) = resolveDpllKey key r;
          (r2, k2) = (if k1 = '''' then resolveClockIDKey key r1 else (r1, k1));
          (r3, rn) = key_renames ss r2
      in (r3, if k2 = '''' then rn else (key, k2) # rn))"

fun rename_keys :: "(string \<times> string) list \<Rightarrow> (string \<times> 'v) list \<Rightarrow> (string \<times> 'v) list" where
  "rename_keys [] m = m"
| "rename_keys ((old, new) # rn) m =
     (if map_of m new \<noteq> None then rename_keys rn m
      else (case map_of m old of
              None \<Rightarrow> rename_keys rn m
            | Some v \<Rightarrow> rename_keys rn (AList.delete old (AList.update new v m))))"

text \<open>A setting that holds one name.\<close>

definition resolve_setting :: "string \<Rightarrow> settings \<Rightarrow> resolver \<Rightarrow> resolver \<times> settings" where
  "resolve_setting key ss r =
     (case map_of ss key of
        None \<Rightarrow> (r, ss)
      | Some val \<Rightarrow>
          if val = '''' then (r, ss)
          else (let (r1, n, remapped) = Resolve val r in (r1, if remapped then AList.update key n ss else ss)))"

definition resolvePtpSettings :: "settings \<Rightarrow> resolver \<Rightarrow> resolver \<times> settings" where
  "resolvePtpSettings ss r =
     (let (r1, ss1) = resolve_setting ''leadingInterface'' ss r;
          (r2, ss2) = (case map_of ss1 ''upstreamPort'' of
              None \<Rightarrow> (r1, ss1)
            | Some val \<Rightarrow>
                if val = '''' then (r1, ss1)
                else (let (r', v) = resolve_port_list val r1
                      in (r', if v = val then ss1 else AList.update ''upstreamPort'' v ss1)));
          (r3, renames) = key_renames ss2 r2
      in (r3, rename_keys renames ss2))"

section \<open>Plugin options\<close>

fun resolve_devices :: "json list \<Rightarrow> resolver \<Rightarrow> resolver \<times> json list \<times> bool" where
  "resolve_devices [] r = (r, [], False)"
| "resolve_devices (JStr name # ds) r =
     (let (r1, n, remapped) = Resolve name r; (r2, ds', ch) = resolve_devices ds r1
      in (r2, JStr (if remapped then n else name) # ds', remapped \<or> ch))"
| "resolve_devices (d # ds) r = (let (r1, ds', ch) = resolve_devices ds r in (r1, d # ds', ch))"

fun map_renames :: "string list \<Rightarrow> resolver \<Rightarrow> resolver \<times> (string \<times> string) list" where
  "map_renames [] r = (r, [])"
| "map_renames (k # ks) r =
     (let (r1, n, remapped) = Resolve k r; (r2, rn) = map_renames ks r1
      in (r2, if remapped then (k, n) # rn else rn))"

fun resolve_maps :: "string list \<Rightarrow> (string \<times> json) list \<Rightarrow> resolver \<Rightarrow> resolver \<times> (string \<times> json) list \<times> bool" where
  "resolve_maps [] opts r = (r, opts, False)"
| "resolve_maps (key # keys) opts r =
     (case map_of opts key of
        Some (JObj m) \<Rightarrow>
          (let (r1, rn) = map_renames (map fst m) r;
               (r2, opts', ch) = resolve_maps keys (AList.update key (JObj (rename_keys rn m)) opts) r1
           in (r2, opts', rn \<noteq> [] \<or> ch))
      | _ \<Rightarrow> resolve_maps keys opts r)"

text \<open>An interconnection: its \<open>id\<close> and its \<open>upstreamPort\<close>.\<close>

definition resolve_elem :: "(string \<times> json) list \<Rightarrow> resolver \<Rightarrow> resolver \<times> (string \<times> json) list \<times> bool" where
  "resolve_elem e r =
     (let (r1, e1, c1) = (case map_of e ''id'' of
            Some (JStr v) \<Rightarrow>
              if v = '''' then (r, e, False)
              else (let (r', n, remapped) = Resolve v r
                    in (r', if remapped then AList.update ''id'' (JStr n) e else e, remapped))
          | _ \<Rightarrow> (r, e, False))
      in (case map_of e1 ''upstreamPort'' of
            Some (JStr v) \<Rightarrow>
              if v = '''' then (r1, e1, c1)
              else (let (r2, ports, ch) = resolve_ports (split_ch (CHR '','') v) r1
                    in (r2, if ch then AList.update ''upstreamPort'' (JStr (join '','' ports)) e1 else e1, c1 \<or> ch))
          | _ \<Rightarrow> (r1, e1, c1)))"

fun resolve_interconnections :: "json list \<Rightarrow> resolver \<Rightarrow> resolver \<times> json list \<times> bool" where
  "resolve_interconnections [] r = (r, [], False)"
| "resolve_interconnections (JObj e # es) r =
     (let (r1, e1, c) = resolve_elem e r; (r2, es', ch) = resolve_interconnections es r1
      in (r2, JObj e1 # es', c \<or> ch))"
| "resolve_interconnections (d # es) r = (let (r1, es', ch) = resolve_interconnections es r in (r1, d # es', ch))"

definition resolve_opts :: "(string \<times> json) list \<Rightarrow> resolver \<Rightarrow> resolver \<times> (string \<times> json) list \<times> bool" where
  "resolve_opts opts r =
     (let (r1, o1, c1) = (case map_of opts ''devices'' of
            Some (JArr ds) \<Rightarrow> (let (r', ds', ch) = resolve_devices ds r in (r', AList.update ''devices'' (JArr ds') opts, ch))
          | _ \<Rightarrow> (r, opts, False));
          (r2, o2, c2) = resolve_maps [''pins'', ''frequencies'', ''phaseOffsetPins''] o1 r1;
          (r3, o3, c3) = (case map_of o2 ''interconnections'' of
            Some (JArr es) \<Rightarrow>
              (let (r', es', ch) = resolve_interconnections es r2
               in (r', AList.update ''interconnections'' (JArr es') o2, ch))
          | _ \<Rightarrow> (r2, o2, False))
      in (r3, o3, c1 \<or> c2 \<or> c3))"

text \<open>Options that are nil or no object are left alone; unchanged ones are not written back.\<close>

fun resolvePluginDevices :: "(string \<times> json option) list \<Rightarrow> resolver \<Rightarrow> resolver \<times> (string \<times> json option) list" where
  "resolvePluginDevices [] r = (r, [])"
| "resolvePluginDevices ((name, Some (JObj opts)) # ps) r =
     (let (r1, opts', changed) = resolve_opts opts r; (r2, ps') = resolvePluginDevices ps r1
      in (r2, (name, Some (JObj (if changed then opts' else opts))) # ps'))"
| "resolvePluginDevices (p # ps) r = (let (r1, ps') = resolvePluginDevices ps r in (r1, p # ps'))"

section \<open>The profile\<close>

definition resolve_opt :: "string \<Rightarrow> string list \<Rightarrow> string option \<Rightarrow> resolver \<Rightarrow> resolver \<times> string option" where
  "resolve_opt fieldName flags v r =
     (case v of None \<Rightarrow> (r, None)
      | Some s \<Rightarrow> (let (r1, s1) = resolveProcessOpts fieldName flags s r in (r1, Some s1)))"

definition ResolveProfileInterfaces :: "ptp_profile \<Rightarrow> resolver \<Rightarrow> resolver \<times> ptp_profile" where
  "ResolveProfileInterfaces p r =
     (let (r1, iface) = (case pf_Interface p of None \<Rightarrow> (r, None)
            | Some i \<Rightarrow> if i = '''' then (r, Some i) else (let (r', n) = resolve_name i r in (r', Some n)));
          (r2, phc2sys) = resolve_opt ''Phc2sysOpts'' [''-s'', ''-i'', ''-c''] (pf_Phc2sysOpts p) r1;
          (r3, ptp4l) = resolve_opt ''Ptp4lOpts'' [''-i''] (pf_Ptp4lOpts p) r2;
          (r4, ts2phc) = resolve_opt ''Ts2PhcOpts'' [''-s'', ''-c'', ''--ts2phc.tod_source''] (pf_Ts2PhcOpts p) r3;
          (r5, settings) = (case pf_PtpSettings p of None \<Rightarrow> (r4, None)
            | Some ss \<Rightarrow> (let (r', ss') = resolvePtpSettings ss r4 in (r', Some ss')));
          (r6, plugins) = resolvePluginDevices (pf_Plugins p) r5
      in (r6, p\<lparr>pf_Interface := iface, pf_Phc2sysOpts := phc2sys, pf_Ptp4lOpts := ptp4l, pf_Ts2PhcOpts := ts2phc,
                pf_PtpSettings := settings, pf_Plugins := plugins\<rparr>))"

section \<open>The cache is transparent\<close>

text \<open>What a name resolves to, without a cache.\<close>

definition resolve_spec :: "string list \<Rightarrow> string \<Rightarrow> string" where
  "resolve_spec known name =
     (if name = '''' \<or> name \<in> set known then name
      else case np_best (np_candidates name known) of Some c \<Rightarrow> c | None \<Rightarrow> name)"

definition cache_ok :: "resolver \<Rightarrow> bool" where
  "cache_ok r \<longleftrightarrow> (\<forall>n v. rs_cache r n = Some v \<longrightarrow> v = resolve_spec (rs_known r) n)"

lemma np_candidate:
  "match_here (npPattern name) i \<noteq> None \<longleftrightarrow> (\<exists>ds. i = name @ ''np'' @ ds \<and> ds \<noteq> [] \<and> list_all ch_digit ds)"
proof -
  have l: "lang (RSeq (RLit name) (RSeq (RLit ''np'') (RPlus ch_digit))) i \<longleftrightarrow>
      (\<exists>ds. i = name @ ''np'' @ ds \<and> ds \<noteq> [] \<and> list_all ch_digit ds)"
    unfolding lang_lit_seq lang_plus by (intro iffI; elim exE conjE) blast+
  have "noend (RSeq (RLit name) (RSeq (RLit ''np'') (RPlus ch_digit)))" by simp
  from match_here_end [OF this] l show ?thesis unfolding npPattern_def by blast
qed

lemma Resolve_spec:
  assumes "cache_ok r"
  shows "snd (Resolve name r) = (resolve_spec (rs_known r) name, resolve_spec (rs_known r) name \<noteq> name)"
    "cache_ok (fst (Resolve name r))" "rs_known (fst (Resolve name r)) = rs_known r"
proof -
  have ne: "c \<noteq> name" if "np_best (np_candidates name (rs_known r)) = Some c" for c
  proof -
    have "c \<in> set (sort_key npSuffix (np_candidates name (rs_known r)))"
      using that by (auto simp: np_best_def simp del: set_sort split: list.splits)
    then have "match_here (npPattern name) c \<noteq> None" by (simp add: np_candidates_def)
    then show ?thesis unfolding np_candidate by auto
  qed
  have c: "rs_cache r name = Some v \<Longrightarrow> v = resolve_spec (rs_known r) name" for v
    using assms by (auto simp: cache_ok_def)
  show "snd (Resolve name r) = (resolve_spec (rs_known r) name, resolve_spec (rs_known r) name \<noteq> name)"
    using c ne by (auto simp: Resolve_def resolve_spec_def split: option.splits)
  show "rs_known (fst (Resolve name r)) = rs_known r"
    by (auto simp: Resolve_def split: option.splits)
  have "fst (Resolve name r) = r \<or>
      fst (Resolve name r) = r\<lparr>rs_cache := (rs_cache r)(name \<mapsto> resolve_spec (rs_known r) name)\<rparr>"
    by (auto simp: Resolve_def resolve_spec_def split: option.splits)
  then show "cache_ok (fst (Resolve name r))"
    using assms unfolding cache_ok_def by (elim disjE) simp_all
qed

text \<open>Runs of a resolver: names to resolve, and new scans of the interfaces.\<close>

fun resolver_run :: "(string + string list option) list \<Rightarrow> resolver \<Rightarrow> resolver" where
  "resolver_run [] r = r"
| "resolver_run (Inl name # ops) r = resolver_run ops (fst (Resolve name r))"
| "resolver_run (Inr entries # ops) r = resolver_run ops (fst (Refresh entries r))"

lemma cache_ok_run: "cache_ok r \<Longrightarrow> cache_ok (resolver_run ops r)"
proof (induction ops r rule: resolver_run.induct)
  case (2 name ops r)
  then show ?case using Resolve_spec(2) by simp
next
  case (3 entries ops r)
  then show ?case by (simp add: Refresh_def cache_ok_def split: option.splits)
qed simp

lemma resolve_spec_cases:
  "resolve_spec known name = name \<or>
   resolve_spec known name \<in> set known \<and>
     (\<exists>ds. resolve_spec known name = name @ ''np'' @ ds \<and> ds \<noteq> [] \<and> list_all ch_digit ds) \<and>
     (\<forall>i \<in> set known. \<forall>ds. i = name @ ''np'' @ ds \<and> ds \<noteq> [] \<and> list_all ch_digit ds \<longrightarrow>
        npSuffix (resolve_spec known name) \<le> npSuffix i)"
proof (cases "resolve_spec known name = name")
  case False
  then have spec: "np_best (np_candidates name known) = Some (resolve_spec known name)"
    by (auto simp: resolve_spec_def split: if_splits option.splits)
  let ?c = "resolve_spec known name" and ?cs = "sort_key npSuffix (np_candidates name known)"
  obtain rest where s: "?cs = ?c # rest" using spec by (auto simp: np_best_def split: list.splits)
  have set: "set (?c # rest) = set (np_candidates name known)" unfolding s [symmetric] by simp
  have "sorted (map npSuffix (?c # rest))" unfolding s [symmetric] by simp
  then have min: "npSuffix ?c \<le> npSuffix i" if "i \<in> set (np_candidates name known)" for i
    using that unfolding set [symmetric] by auto
  have "?c \<in> set (np_candidates name known)" unfolding set [symmetric] by simp
  then show ?thesis using min unfolding np_candidates_def set_filter np_candidate by auto
qed simp

text \<open>The code goes beyond its doc comment: an interface with the suffix \<open>np8\<close> is an answer.\<close>

lemma resolve_takes_any_number:
  "snd (Resolve ''eth0'' (NewInterfaceResolverWithInterfaces [''eth0np8''])) = (''eth0np8'', True)"
  by code_simp

text \<open>
  C37. Resolving interface names is a function of the interfaces of the last scan: whatever was
  asked and however often the interfaces were scanned before, the answer for a name is the name
  itself if it exists or nothing fits, and otherwise an existing interface of that name with a
  suffix \<open>npN\<close>, N being any string of digits (the doc comment of \<open>Resolve\<close> names 0 to 7 only, the
  code does not bound it), the one with the lowest number; the flag tells the two apart. Resolving
  the answer again gives it back.
\<close>

theorem resolve_is_a_function_of_the_scan:
  "let r = resolver_run ops (NewInterfaceResolverWithInterfaces known);
       n = resolve_spec (rs_known r) name
   in snd (Resolve name r) = (n, n \<noteq> name) \<and>
      (name \<in> set (rs_known r) \<longrightarrow> n = name) \<and>
      (n \<noteq> name \<longrightarrow> n \<in> set (rs_known r) \<and>
         (\<exists>ds. n = name @ ''np'' @ ds \<and> ds \<noteq> [] \<and> list_all ch_digit ds) \<and>
         (\<forall>i \<in> set (rs_known r). \<forall>ds. i = name @ ''np'' @ ds \<and> ds \<noteq> [] \<and> list_all ch_digit ds \<longrightarrow>
            npSuffix n \<le> npSuffix i)) \<and>
      fst (snd (Resolve n (fst (Resolve name r)))) = n"
proof -
  define r where "r = resolver_run ops (NewInterfaceResolverWithInterfaces known)"
  define n where "n = resolve_spec (rs_known r) name"
  have ok: "cache_ok r"
    unfolding r_def by (rule cache_ok_run) (simp add: NewInterfaceResolverWithInterfaces_def cache_ok_def)
  note spec = Resolve_spec [OF ok, of name]
  have "resolve_spec (rs_known r) n = n"
  proof (cases "n = name")
    case False
    then have "n \<in> set (rs_known r)" using resolve_spec_cases [of "rs_known r" name] by (simp add: n_def)
    then show ?thesis by (simp add: resolve_spec_def [of _ n])
  qed (simp add: n_def)
  then have again: "fst (snd (Resolve n (fst (Resolve name r)))) = n"
    using Resolve_spec(1) [OF spec(2), of n] spec(3) by simp
  have "name \<in> set (rs_known r) \<Longrightarrow> n = name" by (simp add: n_def resolve_spec_def)
  then show ?thesis
    using spec(1) again resolve_spec_cases [of "rs_known r" name]
    unfolding Let_def r_def [symmetric] n_def [symmetric] by blast
qed

theorem resolve_is_a_function_of_the_scan_witness:
  "snd (Resolve ''ens1f0'' (NewInterfaceResolverWithInterfaces [''ens1f0np1'', ''eth0'', ''ens1f0np0''])) = (''ens1f0np0'', True)"
  using resolve_is_a_function_of_the_scan
    [where ops = "[]" and known = "[''ens1f0np1'', ''eth0'', ''ens1f0np0'']" and name = "''ens1f0''"]
  by (simp add: Let_def NewInterfaceResolverWithInterfaces_def resolve_spec_def np_best_def np_candidates_def
      match_here_def npPattern_def has_prefix_def ch_digit_def npSuffix_def LastIndex_def upt_rec Atoi_def ParseInt_def
      ParseUint_def digit_val_def of_char_def)

end
