(* ===== verification/PtpConf.thy ===== *)
theory PtpConf
  imports Synce Resolver Aliases
begin

text \<open>
  The configuration of a linuxptp program (\<open>pkg/daemon/config.go\<close>, \<open>pkg/config/config.go\<close>): sections
  with options, parsed from the text of a profile, extended by the daemon and rendered again. The
  clock of an interface, the environment variable \<open>NODE_NAME\<close> and JSON are parameters.
\<close>

section \<open>Sections and options\<close>

abbreviation GlobalSectionName :: string where "GlobalSectionName \<equiv> ''[global]''"
abbreviation NmeaSectionName :: string where "NmeaSectionName \<equiv> ''[nmea]''"
abbreviation UnicastSectionName :: string where "UnicastSectionName \<equiv> ''[unicast_master_table]''"

record conf_option =
  co_key :: string
  co_value :: string

record conf_section =
  cs_sectionName :: string
  cs_options :: "conf_option list"

record ptp4l_conf =
  pc_sections :: "conf_section list"
  pc_profile_name :: string
  pc_clock_type :: clock_type
  pc_gnss_serial_port :: string

definition empty_conf :: ptp4l_conf where
  "empty_conf = \<lparr>pc_sections = [], pc_profile_name = '''', pc_clock_type = ClockUnset, pc_gnss_serial_port = ''''\<rparr>"

definition opt :: "string \<Rightarrow> string \<Rightarrow> conf_option" where
  "opt k v = \<lparr>co_key = k, co_value = v\<rparr>"

text \<open>The first option with the key in the first section that has one; \<open>None\<close> is not found.\<close>

definition getPtp4lConfOption :: "string \<Rightarrow> string \<Rightarrow> ptp4l_conf \<Rightarrow> string option" where
  "getPtp4lConfOption sec key conf =
     map_option co_value (find (\<lambda>o1. co_key o1 = key)
       (concat (map cs_options (filter (\<lambda>s. cs_sectionName s = sec) (pc_sections conf)))))"

text \<open>The last section with the name.\<close>

definition section_index :: "string \<Rightarrow> conf_section list \<Rightarrow> nat option" where
  "section_index sec ss =
     (case filter (\<lambda>i. cs_sectionName (ss ! i) = sec) [0..<length ss] of [] \<Rightarrow> None | is \<Rightarrow> Some (last is))"

definition set_option :: "string \<Rightarrow> string \<Rightarrow> bool \<Rightarrow> conf_option list \<Rightarrow> conf_option list" where
  "set_option key value overwrite os =
     (if overwrite \<and> (\<exists>o1 \<in> set os. co_key o1 = key)
      then map (\<lambda>o1. if co_key o1 = key then opt key value else o1) os
      else os @ [opt key value])"

definition setPtp4lConfOption :: "string \<Rightarrow> string \<Rightarrow> string \<Rightarrow> bool \<Rightarrow> ptp4l_conf \<Rightarrow> ptp4l_conf" where
  "setPtp4lConfOption sec key value overwrite conf =
     (let (idx, ss) = (case section_index sec (pc_sections conf) of
            Some i \<Rightarrow> (i, pc_sections conf)
          | None \<Rightarrow> (length (pc_sections conf), pc_sections conf @ [\<lparr>cs_sectionName = sec, cs_options = []\<rparr>]))
      in if key = '''' then conf\<lparr>pc_sections := ss\<rparr>
         else conf\<lparr>pc_sections := ss[idx := (ss ! idx)\<lparr>cs_options := set_option key value overwrite (cs_options (ss ! idx))\<rparr>]\<rparr>)"

section \<open>Parsing\<close>

text \<open>\<open>--(slaveOnly|clientOnly)(\\s+1|=1)(\\s|$)\<close>\<close>

definition cliArgsSlaveFlagsRegex :: rx where
  "cliArgsSlaveFlagsRegex = rseq [RLit ''--'', RAlt (RLit ''slaveOnly'') (RLit ''clientOnly''),
     RAlt (RSeq (RPlus ch_s) (RLit ''1'')) (RLit ''=1''), RAlt (RCls ch_s) REnd]"

definition cli_slave :: "string option \<Rightarrow> bool" where
  "cli_slave cliArgs =
     (case cliArgs of None \<Rightarrow> False
      | Some args \<Rightarrow> ''-s'' \<in> set (Fields args) \<or> match_leftmost cliArgsSlaveFlagsRegex args \<noteq> None)"

record conf_parse =
  cp_conf :: ptp4l_conf
  cp_section :: string
  cp_slave :: bool
  cp_ifaces :: nat

definition slave_option :: "string \<Rightarrow> string \<Rightarrow> string \<Rightarrow> bool" where
  "slave_option sec key value \<longleftrightarrow>
     key = ''masterOnly'' \<and> value = ''0'' \<and> sec \<noteq> GlobalSectionName \<or>
     key = ''serverOnly'' \<and> value = ''0'' \<or>
     key = ''slaveOnly'' \<and> value = ''1'' \<or>
     key = ''clientOnly'' \<and> value = ''1''"

text \<open>One line; \<open>Inl\<close> is the error that ends the loop.\<close>

definition parse_line :: "string \<Rightarrow> conf_parse \<Rightarrow> string + conf_parse" where
  "parse_line raw p =
     (let line = TrimSpace raw in
      if line = '''' \<or> has_prefix line ''#'' then Inr p
      else if has_prefix line ''['' then
        (let parts = split_ch (CHR '']'') line in
         if length parts < 2 then Inl (''Section missing closing ']': '' @ line)
         else
           (let sec = hd parts @ '']'' in
            Inr (p\<lparr>cp_section := sec,
                   cp_ifaces := (if sec \<notin> {GlobalSectionName, NmeaSectionName, UnicastSectionName}
                                 then cp_ifaces p + 1 else cp_ifaces p),
                   cp_conf := setPtp4lConfOption sec '''' '''' False (cp_conf p)\<rparr>)))
      else (case IndexByte line (CHR '' '') of
              None \<Rightarrow> Inr p
            | Some split \<Rightarrow>
                if split = 0 then Inr p
                else (let key = take split line; value = TrimSpace (drop split line) in
                      Inr (p\<lparr>cp_conf := setPtp4lConfOption (cp_section p) key value False (cp_conf p),
                             cp_slave := cp_slave p \<or> slave_option (cp_section p) key value\<rparr>))))"

fun parse_lines :: "string list \<Rightarrow> conf_parse \<Rightarrow> conf_parse \<times> string option" where
  "parse_lines [] p = (p, None)"
| "parse_lines (l # ls) p = (case parse_line l p of Inl err \<Rightarrow> (p, Some err) | Inr p' \<Rightarrow> parse_lines ls p')"

definition PopulatePtp4lConf :: "string option \<Rightarrow> string option \<Rightarrow> ptp4l_conf \<Rightarrow> ptp4l_conf \<times> string option" where
  "PopulatePtp4lConf config cliArgs conf =
     (let p0 = \<lparr>cp_conf = conf\<lparr>pc_sections := []\<rparr>, cp_section = '''', cp_slave = cli_slave cliArgs, cp_ifaces = 0\<rparr>;
          (p, err) = (case config of None \<Rightarrow> (p0, None) | Some c \<Rightarrow> parse_lines (split_ch (CHR 0x0A) c) p0)
      in case err of
           Some e \<Rightarrow> (cp_conf p, Some e)
         | None \<Rightarrow> ((cp_conf p)\<lparr>pc_clock_type := (if \<not> cp_slave p then GM else if 1 < cp_ifaces p then BC else OC)\<rparr>, None))"

section \<open>What the daemon adds\<close>

abbreviation GPSPIPE_SERIALPORT :: string where "GPSPIPE_SERIALPORT \<equiv> ''/gpsd/data''"

definition ExtendGlobalSection :: "string \<Rightarrow> string \<Rightarrow> string \<Rightarrow> string \<Rightarrow> string \<Rightarrow> ptp4l_conf \<Rightarrow> ptp4l_conf" where
  "ExtendGlobalSection nodeName profileName messageTag socketPath pProcess conf =
     (let c1 = setPtp4lConfOption GlobalSectionName ''message_tag'' messageTag True (conf\<lparr>pc_profile_name := profileName\<rparr>);
          c2 = (if socketPath \<noteq> '''' then setPtp4lConfOption GlobalSectionName ''uds_address'' socketPath True c1 else c1);
          c3 = (case getPtp4lConfOption GlobalSectionName ''ts2phc.nmea_serialport'' c2 of
                  None \<Rightarrow> c2
                | Some port \<Rightarrow> setPtp4lConfOption GlobalSectionName ''ts2phc.nmea_serialport'' GPSPIPE_SERIALPORT True
                                 (c2\<lparr>pc_gnss_serial_port := TrimSpace port\<rparr>))
      in if getPtp4lConfOption GlobalSectionName ''leapfile'' c3 \<noteq> None \<or> pProcess = ''ts2phc''
         then setPtp4lConfOption GlobalSectionName ''leapfile'' (''/etc/leap/'' @ nodeName) True c3 else c3)"

definition AddInterfaceSection :: "string \<Rightarrow> ptp4l_conf \<Rightarrow> ptp4l_conf" where
  "AddInterfaceSection iface = setPtp4lConfOption (''['' @ iface @ '']'') '''' '''' False"

definition getSectionName :: "string \<Rightarrow> string" where
  "getSectionName name = filter (\<lambda>c. c \<noteq> CHR '']'') (filter (\<lambda>c. c \<noteq> CHR ''['') name)"

fun resolve_sections :: "conf_section list \<Rightarrow> resolver \<Rightarrow> resolver \<times> conf_section list" where
  "resolve_sections [] r = (r, [])"
| "resolve_sections (s # ss) r =
     (let name = cs_sectionName s; inner = getSectionName name;
          (r1, s1) = (if name \<in> {GlobalSectionName, NmeaSectionName, UnicastSectionName} \<or>
                         has_prefix inner ''<'' \<or> has_prefix inner ''{'' then (r, s)
                      else (let (r', n, remapped) = Resolve inner r
                            in (r', if remapped then s\<lparr>cs_sectionName := ''['' @ n @ '']''\<rparr> else s)));
          (r2, ss') = resolve_sections ss r1
      in (r2, s1 # ss'))"

definition ResolveInterfaceNames :: "ptp4l_conf \<Rightarrow> resolver \<Rightarrow> resolver \<times> ptp4l_conf" where
  "ResolveInterfaceNames conf r =
     (let (r', ss) = resolve_sections (pc_sections conf) r in (r', conf\<lparr>pc_sections := ss\<rparr>))"

text \<open>The options of all sections, changed one by one.\<close>

fun resolve_options :: "(conf_option \<Rightarrow> resolver \<Rightarrow> resolver \<times> conf_option) \<Rightarrow> conf_option list \<Rightarrow> resolver \<Rightarrow> resolver \<times> conf_option list" where
  "resolve_options f [] r = (r, [])"
| "resolve_options f (o1 # os) r = (let (r1, o2) = f o1 r; (r2, os') = resolve_options f os r1 in (r2, o2 # os'))"

fun resolve_section_options ::
  "(conf_option \<Rightarrow> resolver \<Rightarrow> resolver \<times> conf_option) \<Rightarrow> conf_section list \<Rightarrow> resolver \<Rightarrow> resolver \<times> conf_section list" where
  "resolve_section_options f [] r = (r, [])"
| "resolve_section_options f (s # ss) r =
     (let (r1, os) = resolve_options f (cs_options s) r; (r2, ss') = resolve_section_options f ss r1
      in (r2, s\<lparr>cs_options := os\<rparr> # ss'))"

definition chronyd_option :: "conf_option \<Rightarrow> resolver \<Rightarrow> resolver \<times> conf_option" where
  "chronyd_option o1 r =
     (if co_key o1 = ''binddevice'' \<or> co_key o1 = ''bindacqdevice'' then
        (let (r', n, remapped) = Resolve (co_value o1) r in (r', if remapped then o1\<lparr>co_value := n\<rparr> else o1))
      else if co_key o1 = ''hwtimestamp'' then
        (let parts = Fields (co_value o1) in
         if parts \<noteq> [] \<and> hd parts \<noteq> ''*'' then
           (let (r', n, remapped) = Resolve (hd parts) r
            in (r', if remapped then o1\<lparr>co_value := join '' '' (n # tl parts)\<rparr> else o1))
         else (r, o1))
      else (r, o1))"

definition ResolveChronydInterfaceNames :: "ptp4l_conf \<Rightarrow> resolver \<Rightarrow> resolver \<times> ptp4l_conf" where
  "ResolveChronydInterfaceNames conf r =
     (let (r', ss) = resolve_section_options chronyd_option (pc_sections conf) r in (r', conf\<lparr>pc_sections := ss\<rparr>))"

definition ts2phc_option :: "conf_option \<Rightarrow> resolver \<Rightarrow> resolver \<times> conf_option" where
  "ts2phc_option o1 r =
     (if co_key o1 = ''ts2phc.tod_source'' \<and> co_value o1 \<noteq> ''generic'' \<and> co_value o1 \<noteq> ''nmea'' \<and>
         \<not> has_prefix (co_value o1) ''/'' then
        (let (r', n, remapped) = Resolve (co_value o1) r in (r', if remapped then o1\<lparr>co_value := n\<rparr> else o1))
      else (r, o1))"

definition ResolveTs2PhcInterfaceNames :: "ptp4l_conf \<Rightarrow> resolver \<Rightarrow> resolver \<times> ptp4l_conf" where
  "ResolveTs2PhcInterfaceNames conf r =
     (let (r', ss) = resolve_section_options ts2phc_option (pc_sections conf) r in (r', conf\<lparr>pc_sections := ss\<rparr>))"

section \<open>Interfaces\<close>

record iface =
  if_Name :: string
  if_IsMaster :: bool
  if_Source :: event_source
  if_PhcId :: string

definition zero_iface :: iface where
  "zero_iface = \<lparr>if_Name = '''', if_IsMaster = False, if_Source = '''', if_PhcId = ''''\<rparr>"

definition GetLeadingInterface :: "iface list \<Rightarrow> iface" where
  "GetLeadingInterface is =
     (case find (\<lambda>i. if_Source i = GNSS \<or> if_Source i = PTP4l) is of Some i \<Rightarrow> i | None \<Rightarrow> zero_iface)"

definition GetEventSource :: "string \<Rightarrow> iface list \<Rightarrow> event_source" where
  "GetEventSource name is = (case find (\<lambda>i. if_Name i = name) is of Some i \<Rightarrow> if_Source i | None \<Rightarrow> PTP4l)"

definition GetPhcID2IFace :: "string \<Rightarrow> iface list \<Rightarrow> string" where
  "GetPhcID2IFace phc is = (case find (\<lambda>i. if_PhcId i = phc) is of Some i \<Rightarrow> if_Name i | None \<Rightarrow> phc)"

definition ifaces_String :: "iface list \<Rightarrow> string" where
  "ifaces_String is = concat (map (\<lambda>i.
     ''name :'' @ if_Name i @ [CHR 0x0A] @ ''source '' @ if_Source i @ [CHR 0x0A] @
     ''IsMaster '' @ show_bool (if_IsMaster i) @ [CHR 0x0A] @ ''phcid '' @ if_PhcId i @ [CHR 0x0A]) is)"

definition GetIfNamesGroupedByPhc :: "iface list \<Rightarrow> string \<Rightarrow> string list option" where
  "GetIfNamesGroupedByPhc is =
     (\<lambda>phc. case filter (\<lambda>i. if_PhcId i = phc) is of [] \<Rightarrow> None | js \<Rightarrow> Some (map if_Name js))"

section \<open>Rendering\<close>

definition getSource :: "string \<Rightarrow> event_source" where
  "getSource isTs2phcMaster = (if ParseBool (TrimSpace isTs2phcMaster) = Some True then GNSS else PPS)"

definition render_option :: "conf_option \<Rightarrow> string" where
  "render_option o1 = [CHR 0x0A] @ co_key o1 @ '' '' @ co_value o1"

definition render_section :: "conf_section \<Rightarrow> string" where
  "render_section s = [CHR 0x0A] @ cs_sectionName s @ concat (map render_option (cs_options s))"

text \<open>The interface of a section; \<open>nmea\<close> is the source found in a section \<open>[nmea]\<close> before it.\<close>

definition section_iface :: "(string \<Rightarrow> string) \<Rightarrow> event_source \<Rightarrow> conf_section \<Rightarrow> ptp4l_conf \<Rightarrow> iface" where
  "section_iface phc nmea s conf =
     (let name = getSectionName (cs_sectionName s);
          source = (case getPtp4lConfOption (cs_sectionName s) ''ts2phc.master'' conf of
              Some v \<Rightarrow> if getSource v = PPS \<and> nmea = GNSS then GNSS else getSource v
            | None \<Rightarrow> nmea);
          master = (case getPtp4lConfOption (cs_sectionName s) ''masterOnly'' conf of
              Some v \<Rightarrow> ParseBool (TrimSpace v) = Some True | None \<Rightarrow> False)
      in \<lparr>if_Name = name, if_IsMaster = master, if_Source = source, if_PhcId = phc name\<rparr>)"

fun conf_ifaces :: "(string \<Rightarrow> string) \<Rightarrow> ptp4l_conf \<Rightarrow> event_source \<Rightarrow> conf_section list \<Rightarrow> iface list" where
  "conf_ifaces phc conf nmea [] = []"
| "conf_ifaces phc conf nmea (s # ss) =
     (let nmea1 = (if cs_sectionName s = NmeaSectionName
                   then (case getPtp4lConfOption NmeaSectionName ''ts2phc.master'' conf of
                           Some v \<Rightarrow> getSource v | None \<Rightarrow> nmea)
                   else nmea)
      in (if cs_sectionName s \<notin> {GlobalSectionName, NmeaSectionName, UnicastSectionName}
          then [section_iface phc nmea1 s conf] else []) @ conf_ifaces phc conf nmea1 ss)"

definition RenderPtp4lConf :: "(string \<Rightarrow> string) \<Rightarrow> ptp4l_conf \<Rightarrow> alias_store \<Rightarrow> string \<times> iface list \<times> alias_store" where
  "RenderPtp4lConf phc conf store =
     (let is = conf_ifaces phc conf '''' (pc_sections conf)
      in (''#profile: '' @ pc_profile_name conf @ [CHR 0x0A] @ concat (map render_section (pc_sections conf)), is,
          calculateAliases (fold (\<lambda>i. addInterface (if_PhcId i) (if_Name i)) is store)))"

section \<open>SyncE\<close>

text \<open>The replacement of \<open>[{}<>\\[\\] ]+\<close> by nothing.\<close>

definition strip_brackets :: "string \<Rightarrow> string" where
  "strip_brackets s = filter (\<lambda>c. c \<notin> set ''{}<>[] '') s"

text \<open>An option that holds a number; an error leaves what \<open>Atoi\<close> returned.\<close>

definition int_option :: "string \<Rightarrow> string \<Rightarrow> int \<Rightarrow> ptp4l_conf \<Rightarrow> int" where
  "int_option sec key dflt conf =
     (case getPtp4lConfOption sec key conf of None \<Rightarrow> dflt | Some v \<Rightarrow> fst (Atoi (TrimSpace v)))"

definition synce_device :: "string \<Rightarrow> ptp4l_conf \<Rightarrow> synce_config" where
  "synce_device sec conf =
     zero_synce_config\<lparr>sc_Name := strip_brackets sec,
       sc_NetworkOption := int_option sec ''network_option'' SYNCE_NETWORK_OPT_1 conf,
       sc_ExtendedTlv := int_option sec ''extended_tlv'' ExtendedTLV_DISABLED conf\<rparr>"

text \<open>
  The loop over the sections: the relations so far, the device being read and the interfaces seen
  (they are never cleared).
\<close>

fun synce_sections :: "ptp4l_conf \<Rightarrow> conf_section list \<Rightarrow> relations \<times> synce_config \<times> string list \<Rightarrow> relations \<times> synce_config \<times> string list" where
  "synce_sections conf [] st = st"
| "synce_sections conf (s # ss) (r, cur, ifaces) =
     (let sec = cs_sectionName s in
      synce_sections conf ss
        (if has_prefix sec ''[<'' then
           (if sc_Name cur \<noteq> ''''
            then AddDeviceConfig (if ifaces \<noteq> [] then cur\<lparr>sc_Ifaces := ifaces\<rparr> else cur) r else r,
            synce_device sec conf, ifaces)
         else if has_prefix sec ''[{'' then (r, cur\<lparr>sc_ExternalSource := strip_brackets sec\<rparr>, ifaces)
         else if has_prefix sec ''['' \<and> sec \<noteq> GlobalSectionName then (r, cur, ifaces @ [strip_brackets sec])
         else (r, cur, ifaces)))"

definition extractSynceRelations :: "ptp4l_conf \<Rightarrow> relations" where
  "extractSynceRelations conf =
     (let (r, cur, ifaces) = synce_sections conf (pc_sections conf) ([], zero_synce_config, []);
          cur' = (if ifaces \<noteq> [] then cur\<lparr>sc_Ifaces := ifaces\<rparr> else cur)
      in if sc_Name cur' \<noteq> '''' then AddDeviceConfig cur' r else r)"

text \<open>\<open>RenderSyncE4lConf\<close>; \<open>None\<close> is the panic of an index out of range.\<close>

fun render_synce :: "relations \<Rightarrow> nat list \<Rightarrow> nat \<Rightarrow> ptp4l_conf \<Rightarrow> (string \<times> ptp4l_conf) option" where
  "render_synce r [] dev conf = Some ('''', conf)"
| "render_synce r (i # is) dev conf =
     (let sec = cs_sectionName (pc_sections conf ! i);
          needs = (has_prefix sec ''[<'' \<and> getPtp4lConfOption sec ''clock_id'' conf = None)
      in if needs \<and> length r \<le> dev then None
         else (let c1 = (if needs then setPtp4lConfOption sec ''clock_id'' (sc_ClockId (r ! dev)) True conf else conf)
               in map_option (\<lambda>(out, c). (render_section (pc_sections c1 ! i) @ out, c))
                    (render_synce r is (if needs then dev + 1 else dev) c1)))"

definition RenderSyncE4lConf :: "settings \<Rightarrow> ptp4l_conf \<Rightarrow> (string \<times> relations \<times> ptp4l_conf) option" where
  "RenderSyncE4lConf ptpSettings conf =
     (let r = AddClockIds ptpSettings (extractSynceRelations conf)
      in map_option (\<lambda>(out, c). (''#profile: '' @ pc_profile_name conf @ [CHR 0x0A] @ out, r, c))
           (render_synce r [0..<length (pc_sections conf)] 0 conf))"

section \<open>Updates of the configuration\<close>

text \<open>
  \<open>LinuxPTPConfUpdate\<close>; \<open>lc_signals\<close> counts what is waiting in the channel (of ten places), an
  operation whose send would block has no result.
\<close>

record conf_update =
  lc_signals :: nat
  lc_NodeProfiles :: "ptp_profile list option"
  lc_applied :: string
  lc_default :: string

abbreviation UpdateCh_size :: nat where "UpdateCh_size \<equiv> 10"

definition NewLinuxPTPConfUpdate :: "string + string \<Rightarrow> string + conf_update" where
  "NewLinuxPTPConfUpdate file =
     (case file of Inl err \<Rightarrow> Inl err
      | Inr text \<Rightarrow> Inr \<lparr>lc_signals = 0, lc_NodeProfiles = None, lc_applied = '''', lc_default = text\<rparr>)"

text \<open>With a full channel a goroutine sends later.\<close>

definition TriggerRestartForHardwareChange :: "conf_update \<Rightarrow> conf_update \<times> bool" where
  "TriggerRestartForHardwareChange l =
     (if lc_signals l < UpdateCh_size then (l\<lparr>lc_signals := lc_signals l + 1\<rparr>, False) else (l, True))"

definition GetCurrentPTPProfiles :: "conf_update \<Rightarrow> string list" where
  "GetCurrentPTPProfiles l =
     (case lc_NodeProfiles l of None \<Rightarrow> []
      | Some ps \<Rightarrow> concat (map (\<lambda>p. case pf_Name p of None \<Rightarrow> [] | Some n \<Rightarrow> [n]) ps))"

datatype update_result = Updated conf_update | Unchanged | LoadError string | Blocked

text \<open>\<open>load\<close> and \<open>load_old\<close> are the JSON decoder for a list of profiles and for one profile.\<close>

definition UpdateConfig ::
  "(string \<Rightarrow> ptp_profile list option) \<Rightarrow> (string \<Rightarrow> ptp_profile option) \<Rightarrow> string \<Rightarrow> bool \<Rightarrow> conf_update \<Rightarrow> update_result" where
  "UpdateConfig load load_old text ptpAuthUpdated l =
     (let apply = (\<lambda>ps. if lc_signals l < UpdateCh_size
                        then Updated (l\<lparr>lc_applied := text, lc_NodeProfiles := Some ps, lc_signals := lc_signals l + 1\<rparr>)
                        else Blocked)
      in if lc_applied l = text \<and> \<not> ptpAuthUpdated then Unchanged
         else (case load text of
                 Some ps \<Rightarrow> apply ps
               | None \<Rightarrow>
                   (case load_old text of
                      None \<Rightarrow> LoadError ''unable to load profile config''
                    | Some p \<Rightarrow> if pf_Name p = None \<or> pf_Interface p = None then Unchanged else apply [p])))"

section \<open>Well-formed configurations\<close>

abbreviation nl :: char where "nl \<equiv> CHR 0x0A"

definition wf_option :: "conf_option \<Rightarrow> bool" where
  "wf_option o1 \<longleftrightarrow>
     co_key o1 \<noteq> '''' \<and> CHR '' '' \<notin> set (co_key o1) \<and> nl \<notin> set (co_key o1) \<and> \<not> ch_space (hd (co_key o1)) \<and>
     hd (co_key o1) \<noteq> CHR ''#'' \<and> hd (co_key o1) \<noteq> CHR ''['' \<and>
     co_value o1 \<noteq> '''' \<and> nl \<notin> set (co_value o1) \<and> \<not> ch_space (hd (co_value o1)) \<and> \<not> ch_space (last (co_value o1))"

definition bracketed :: "string \<Rightarrow> bool" where
  "bracketed n \<longleftrightarrow> (\<exists>t. n = ''['' @ t @ '']'' \<and> CHR '']'' \<notin> set t \<and> nl \<notin> set t)"

text \<open>Options in front of the first section go to a section without a name.\<close>

definition wf_sections :: "conf_section list \<Rightarrow> bool" where
  "wf_sections ss \<longleftrightarrow>
     distinct (map cs_sectionName ss) \<and> (\<forall>s \<in> set ss. \<forall>o1 \<in> set (cs_options s). wf_option o1) \<and>
     (\<forall>s \<in> set ss. bracketed (cs_sectionName s) \<or> cs_sectionName s = '''' \<and> cs_options s \<noteq> [] \<and> s = hd ss)"

lemma section_index_None: "section_index sec ss = None \<longleftrightarrow> sec \<notin> cs_sectionName ` set ss"
proof -
  have "filter (\<lambda>i. cs_sectionName (ss ! i) = sec) [0..<length ss] = [] \<longleftrightarrow> (\<forall>i < length ss. cs_sectionName (ss ! i) \<noteq> sec)"
    by (auto simp: filter_empty_conv)
  also have "\<dots> \<longleftrightarrow> sec \<notin> set (map cs_sectionName ss)" by (auto simp: in_set_conv_nth simp del: set_map)
  also have "\<dots> \<longleftrightarrow> sec \<notin> cs_sectionName ` set ss" by simp
  finally show ?thesis unfolding section_index_def by (auto split: list.splits)
qed

lemma section_index_Some:
  assumes "section_index sec ss = Some i"
  shows "i < length ss" "cs_sectionName (ss ! i) = sec"
proof -
  let ?l = "filter (\<lambda>i. cs_sectionName (ss ! i) = sec) [0..<length ss]"
  have "?l \<noteq> []" "i = last ?l" using assms by (auto simp: section_index_def split: list.splits)
  then have "i \<in> set ?l" using last_in_set [of ?l] by metis
  then show "i < length ss" "cs_sectionName (ss ! i) = sec" by auto
qed

lemma section_index_eq:
  assumes "distinct (map cs_sectionName ss)" "i < length ss" "cs_sectionName (ss ! i) = sec"
  shows "section_index sec ss = Some i"
proof -
  have "section_index sec ss \<noteq> None" unfolding section_index_None using assms(2,3) by force
  then obtain j where j: "section_index sec ss = Some j" by blast
  with section_index_Some [OF j] assms have "j = i" by (auto simp: distinct_conv_nth)
  with j show ?thesis by simp
qed

text \<open>Setting an option of a section that is there, or of a new one.\<close>

lemma set_new:
  assumes "sec \<notin> cs_sectionName ` set (pc_sections conf)"
  shows "setPtp4lConfOption sec key value ow conf =
    conf\<lparr>pc_sections := pc_sections conf @ [\<lparr>cs_sectionName = sec, cs_options = (if key = '''' then [] else [opt key value])\<rparr>]\<rparr>"
  using assms by (simp add: setPtp4lConfOption_def section_index_None [THEN iffD2] set_option_def)

lemma set_old:
  assumes "section_index sec (pc_sections conf) = Some i"
  shows "setPtp4lConfOption sec key value ow conf =
    (if key = '''' then conf
     else conf\<lparr>pc_sections := (pc_sections conf)
       [i := (pc_sections conf ! i)\<lparr>cs_options := set_option key value ow (cs_options (pc_sections conf ! i))\<rparr>]\<rparr>)"
  using assms by (simp add: setPtp4lConfOption_def)

lemma set_names:
  "map cs_sectionName (pc_sections (setPtp4lConfOption sec key value ow conf)) =
   (if sec \<in> cs_sectionName ` set (pc_sections conf) then map cs_sectionName (pc_sections conf)
    else map cs_sectionName (pc_sections conf) @ [sec])"
proof (cases "section_index sec (pc_sections conf)")
  case None
  then have n: "sec \<notin> cs_sectionName ` set (pc_sections conf)" by (simp add: section_index_None)
  then show ?thesis by (simp add: set_new [OF n])
next
  case (Some i)
  then have "sec \<in> cs_sectionName ` set (pc_sections conf)" using section_index_None by (metis option.distinct(1))
  moreover have "map cs_sectionName ((pc_sections conf)[i := (pc_sections conf ! i)\<lparr>cs_options := os\<rparr>]) =
      map cs_sectionName (pc_sections conf)" for os
    using section_index_Some [OF Some] by (simp add: map_update list_update_same_conv)
  ultimately show ?thesis by (simp add: set_old [OF Some])
qed

lemma hd_update_name: "i < length ss \<Longrightarrow> x = hd ss \<Longrightarrow> i \<noteq> 0 \<Longrightarrow> hd (ss[i := y]) = x"
  by (cases ss; cases i) auto

lemma set_wf:
  assumes wf: "wf_sections (pc_sections conf)"
    and key: "key \<noteq> '''' \<Longrightarrow> wf_option (opt key value)"
    and sec: "bracketed sec \<or> sec = '''' \<and> key \<noteq> '''' \<and> (pc_sections conf = [] \<or> sec \<in> cs_sectionName ` set (pc_sections conf))"
  shows "wf_sections (pc_sections (setPtp4lConfOption sec key value False conf))"
proof (cases "section_index sec (pc_sections conf)")
  case None
  then have n: "sec \<notin> cs_sectionName ` set (pc_sections conf)" by (simp add: section_index_None)
  have hd: "hd (pc_sections conf @ [x]) = hd (pc_sections conf)" if "pc_sections conf \<noteq> []" for x
    using that by simp
  show ?thesis
    using wf key sec n unfolding set_new [OF n] wf_sections_def by (cases "pc_sections conf") auto
next
  case (Some i)
  note i = section_index_Some [OF Some]
  let ?ss = "pc_sections conf" and ?os = "set_option key value False (cs_options (pc_sections conf ! i))"
  show ?thesis
  proof (cases "key = ''''")
    case True
    then show ?thesis using wf by (simp add: set_old [OF Some])
  next
    case False
    have names: "distinct (map cs_sectionName (?ss[i := (?ss ! i)\<lparr>cs_options := ?os\<rparr>]))"
      using wf i list_update_id [of "map cs_sectionName ?ss" i] by (simp add: wf_sections_def map_update)
    have os: "?os = cs_options (?ss ! i) @ [opt key value]" by (simp add: set_option_def)
    have "\<forall>o1 \<in> set ?os. wf_option o1"
      using wf i(1) key [OF False] nth_mem [OF i(1)] unfolding wf_sections_def os by auto
    then have opts: "\<forall>s \<in> set (?ss[i := (?ss ! i)\<lparr>cs_options := ?os\<rparr>]). \<forall>o1 \<in> set (cs_options s). wf_option o1"
      using wf unfolding wf_sections_def
      by (intro ballI) (drule subsetD [OF set_update_subset_insert], auto)
    have "\<forall>s \<in> set (?ss[i := (?ss ! i)\<lparr>cs_options := ?os\<rparr>]).
        bracketed (cs_sectionName s) \<or> cs_sectionName s = '''' \<and> cs_options s \<noteq> [] \<and> s = hd (?ss[i := (?ss ! i)\<lparr>cs_options := ?os\<rparr>])"
    proof
      fix s assume "s \<in> set (?ss[i := (?ss ! i)\<lparr>cs_options := ?os\<rparr>])"
      then obtain j where j: "j < length ?ss" "s = ?ss[i := (?ss ! i)\<lparr>cs_options := ?os\<rparr>] ! j" by (auto simp: in_set_conv_nth)
      have old: "bracketed (cs_sectionName (?ss ! j)) \<or> cs_sectionName (?ss ! j) = '''' \<and> cs_options (?ss ! j) \<noteq> [] \<and> ?ss ! j = hd ?ss"
        using wf j(1) by (simp add: wf_sections_def)
      have ne: "?ss \<noteq> []" using j(1) by auto
      show "bracketed (cs_sectionName s) \<or> cs_sectionName s = '''' \<and> cs_options s \<noteq> [] \<and> s = hd (?ss[i := (?ss ! i)\<lparr>cs_options := ?os\<rparr>])"
      proof (cases "bracketed (cs_sectionName (?ss ! j))")
        case True
        then show ?thesis using j i by (cases "j = i") simp_all
      next
        case False
        with old have h: "cs_sectionName (?ss ! j) = ''''" "cs_options (?ss ! j) \<noteq> []" "?ss ! j = hd ?ss" by blast+
        then have h0: "?ss ! j = ?ss ! 0" using hd_conv_nth [OF ne] by metis
        have "j = 0" using wf h0 j(1) ne unfolding wf_sections_def
          by (metis distinct_map length_greater_0_conv nth_eq_iff_index_eq)
        then show ?thesis using h j i os ne by (cases "i = 0") (simp_all add: hd_conv_nth)
      qed
    qed
    with names opts False show ?thesis by (simp add: set_old [OF Some] wf_sections_def)
  qed
qed

text \<open>Whatever is parsed is well-formed.\<close>

lemma hd_takeWhile_ne: "hd s \<noteq> c \<Longrightarrow> s \<noteq> [] \<Longrightarrow> hd (takeWhile (\<lambda>x. x \<noteq> c) s) = hd s"
  by (cases s) auto

lemma split_ch_head: "d \<in> set s \<Longrightarrow> hd (split_ch d s) = takeWhile (\<lambda>x. x \<noteq> d) s"
  by (induction s) (auto split: list.splits)

lemma split_ch_length: "2 \<le> length (split_ch d s) \<longleftrightarrow> d \<in> set s"
proof (induction s)
  case (Cons c s)
  then show ?case by (cases "split_ch d s") (auto simp: Suc_le_eq)
qed simp

definition wf_parse :: "conf_parse \<Rightarrow> bool" where
  "wf_parse p \<longleftrightarrow> wf_sections (pc_sections (cp_conf p)) \<and>
     (bracketed (cp_section p) \<or>
      cp_section p = '''' \<and> (pc_sections (cp_conf p) = [] \<or> '''' \<in> cs_sectionName ` set (pc_sections (cp_conf p))))"

lemma bracketed_nonempty: "bracketed n \<Longrightarrow> n \<noteq> ''''"
  by (auto simp: bracketed_def)

lemma parse_option_wf:
  assumes "line = TrimSpace raw" "nl \<notin> set raw" "line \<noteq> ''''" "\<not> has_prefix line ''#''" "\<not> has_prefix line ''[''"
    and "IndexByte line (CHR '' '') = Some split"
  shows "wf_option (opt (take split line) (TrimSpace (drop split line)))" "split \<noteq> 0"
proof -
  have ends: "\<not> ch_space (hd line)" "\<not> ch_space (last line)"
    using trim_both_ends [of ch_space raw] assms(1,3) by (auto simp: TrimSpace_def)
  have sp: "CHR '' '' \<in> set line" "split = length (takeWhile (\<lambda>x. x \<noteq> CHR '' '') line)"
    using assms(6) by (auto simp: IndexByte_def split: if_splits)
  have key: "take split line = takeWhile (\<lambda>x. x \<noteq> CHR '' '') line" unfolding sp(2) by (simp flip: takeWhile_eq_take)
  have val: "drop split line = dropWhile (\<lambda>x. x \<noteq> CHR '' '') line" unfolding sp(2) by (simp flip: dropWhile_eq_drop)
  have nls: "nl \<notin> set line" using assms(1,2) trim_both_set [of ch_space raw] by (auto simp: TrimSpace_def)
  have hd: "hd line \<noteq> CHR '' ''" "hd line \<noteq> CHR ''#''" "hd line \<noteq> CHR ''[''"
    using ends(1) assms(3-5) by (cases line; auto simp: ch_space_def has_prefix_def)+
  have k: "take split line \<noteq> []" "hd (take split line) = hd line" unfolding key
    using hd(1) assms(3) by (cases line; simp)+
  then show "split \<noteq> 0" by auto
  have v: "TrimSpace (drop split line) \<noteq> []"
  proof -
    obtain u where "line = u @ dropWhile (\<lambda>x. x \<noteq> CHR '' '') line" by (metis takeWhile_dropWhile_id)
    moreover have "dropWhile (\<lambda>x. x \<noteq> CHR '' '') line \<noteq> []" using sp(1) by (auto simp: dropWhile_eq_Nil_conv)
    ultimately have l: "last (drop split line) = last line" unfolding val by (metis last_appendR)
    have ne: "drop split line \<noteq> []" unfolding val using sp(1) by (auto simp: dropWhile_eq_Nil_conv)
    have "last (drop split line) \<in> set (drop split line)" by (rule last_in_set [OF ne])
    then show ?thesis using l ends(2) unfolding TrimSpace_def trim_both_empty by metis
  qed
  have "hd (TrimSpace (drop split line)) \<in> set (TrimSpace (drop split line))" using v by simp
  then show "wf_option (opt (take split line) (TrimSpace (drop split line)))"
    using k hd ends(1) nls v trim_both_ends [of ch_space "drop split line"] trim_both_set [of ch_space "drop split line"]
      set_takeWhileD [of "CHR '' ''" "\<lambda>x. x \<noteq> CHR '' ''" line]
    unfolding wf_option_def opt_def TrimSpace_def by (auto simp: key dest: in_set_takeD in_set_dropD set_takeWhileD)
qed

lemma parse_line_wf:
  assumes "wf_parse p" "nl \<notin> set raw" "parse_line raw p = Inr p'"
  shows "wf_parse p'"
proof -
  define line where "line = TrimSpace raw"
  have nls: "nl \<notin> set line" using assms(2) trim_both_set [of ch_space raw] by (auto simp: line_def TrimSpace_def)
  have wf: "wf_sections (pc_sections (cp_conf p))" using assms(1) by (simp add: wf_parse_def)
  consider "line = '''' \<or> has_prefix line ''#''" | "line \<noteq> ''''" "\<not> has_prefix line ''#''" "has_prefix line ''[''"
    | "line \<noteq> ''''" "\<not> has_prefix line ''#''" "\<not> has_prefix line ''[''" by blast
  then show ?thesis
  proof cases
    case 1
    then show ?thesis using assms by (auto simp: parse_line_def line_def Let_def)
  next
    case 2
    define sec where "sec = hd (split_ch (CHR '']'') line) @ '']''"
    have two: "CHR '']'' \<in> set line"
      using assms(3) 2 split_ch_length [of "CHR '']''" line] by (auto simp: parse_line_def line_def Let_def split: if_splits)
    have hd: "hd (split_ch (CHR '']'') line) = takeWhile (\<lambda>x. x \<noteq> CHR '']'') line" by (rule split_ch_head [OF two])
    obtain t where t: "line = CHR ''['' # t" using 2(1,3) by (cases line) (auto simp: has_prefix_def)
    have b: "bracketed sec"
      unfolding bracketed_def sec_def hd using t nls
      by (intro exI [of _ "takeWhile (\<lambda>x. x \<noteq> CHR '']'') t"]) (auto dest: set_takeWhileD)
    have p': "cp_conf p' = setPtp4lConfOption sec '''' '''' False (cp_conf p)" "cp_section p' = sec"
      using assms(3) 2 by (auto simp: parse_line_def line_def [symmetric] sec_def Let_def split: if_splits)
    have "wf_sections (pc_sections (cp_conf p'))" unfolding p' by (rule set_wf [OF wf]) (use b in auto)
    then show ?thesis using b p' by (simp add: wf_parse_def)
  next
    case 3
    show ?thesis
    proof (cases "IndexByte line (CHR '' '')")
      case None
      then show ?thesis using assms 3 by (auto simp: parse_line_def line_def Let_def)
    next
      case (Some split)
      note o1 = parse_option_wf [OF line_def assms(2) 3 Some]
      have k: "take split line \<noteq> ''''" using o1(1) by (simp add: wf_option_def opt_def)
      have p': "cp_conf p' = setPtp4lConfOption (cp_section p) (take split line) (TrimSpace (drop split line)) False (cp_conf p)"
        "cp_section p' = cp_section p"
        using assms(3) 3 Some o1(2) by (auto simp: parse_line_def line_def [symmetric] Let_def)
      have "wf_sections (pc_sections (cp_conf p'))"
        unfolding p' by (rule set_wf [OF wf]) (use o1(1) k assms(1) in \<open>auto simp: wf_parse_def\<close>)
      moreover have "cp_section p \<in> set (map cs_sectionName (pc_sections (cp_conf p')))"
        unfolding p' set_names by auto
      ultimately show ?thesis using assms(1) p' by (auto simp: wf_parse_def)
    qed
  qed
qed

section \<open>Parsing reads back what was rendered\<close>

definition opt_line :: "conf_option \<Rightarrow> string" where
  "opt_line o1 = co_key o1 @ '' '' @ co_value o1"

definition sec_lines :: "conf_section \<Rightarrow> string list" where
  "sec_lines s = cs_sectionName s # map opt_line (cs_options s)"

lemma join_Cons: "join [d] (x # xs) = x @ concat (map (\<lambda>l. d # l) xs)"
  by (induction xs arbitrary: x) auto

lemma render_lines: "concat (map render_section ss) = concat (map (\<lambda>l. nl # l) (concat (map sec_lines ss)))"
proof (induction ss)
  case (Cons s ss)
  have "concat (map render_option os) = concat (map (\<lambda>l. nl # l) (map opt_line os))" for os
    by (induction os) (simp_all add: render_option_def opt_line_def)
  with Cons show ?case by (simp add: render_section_def sec_lines_def)
qed simp

lemma rendered_text:
  "fst (RenderPtp4lConf phc conf store) =
   join [nl] ((''#profile: '' @ pc_profile_name conf) # [] # concat (map sec_lines (pc_sections conf)))"
  unfolding join_Cons by (simp add: RenderPtp4lConf_def Let_def render_lines)

lemma opt_eta: "opt (co_key o1) (co_value o1) = o1"
  by (simp add: opt_def)

lemma parse_opt_line:
  assumes "wf_option o1"
  shows "parse_line (opt_line o1) p =
    Inr (p\<lparr>cp_conf := setPtp4lConfOption (cp_section p) (co_key o1) (co_value o1) False (cp_conf p),
           cp_slave := cp_slave p \<or> slave_option (cp_section p) (co_key o1) (co_value o1)\<rparr>)"
proof -
  have w: "co_key o1 \<noteq> []" "co_value o1 \<noteq> []" "CHR '' '' \<notin> set (co_key o1)" using assms by (auto simp: wf_option_def)
  have "hd (opt_line o1) = hd (co_key o1)" "last (opt_line o1) = last (co_value o1)" using w by (simp_all add: opt_line_def)
  then have t: "TrimSpace (opt_line o1) = opt_line o1"
    unfolding TrimSpace_def using assms by (intro trim_both_id) (simp add: wf_option_def)
  have "trim_both ch_space ('' '' @ co_value o1) = trim_both ch_space (co_value o1)"
    by (simp add: trim_both_def ch_space_def)
  also have "\<dots> = co_value o1" using assms by (intro trim_both_id) (simp add: wf_option_def)
  finally have v: "TrimSpace (CHR '' '' # co_value o1) = co_value o1" by (simp add: TrimSpace_def)
  have i: "IndexByte (opt_line o1) (CHR '' '') = Some (length (co_key o1))"
    using IndexByte_append [OF w(3)] by (simp add: opt_line_def)
  have "\<not> has_prefix (opt_line o1) ''#''" "\<not> has_prefix (opt_line o1) ''[''" "opt_line o1 \<noteq> []"
    using assms w(1) by (cases "co_key o1"; auto simp: wf_option_def has_prefix_def opt_line_def)+
  then show ?thesis using w(1) by (simp add: parse_line_def t i Let_def) (simp add: opt_line_def v)
qed

lemma parse_header:
  assumes "bracketed sec"
  shows "\<exists>n. parse_line sec p = Inr (p\<lparr>cp_section := sec, cp_ifaces := n, cp_conf := setPtp4lConfOption sec '''' '''' False (cp_conf p)\<rparr>)"
proof -
  from assms obtain t where t: "sec = (''['' @ t) @ CHR '']'' # []" "CHR '']'' \<notin> set t" by (auto simp: bracketed_def)
  have "TrimSpace sec = sec" unfolding TrimSpace_def t(1) by (intro trim_both_id) (simp add: ch_space_def)
  moreover have "split_ch (CHR '']'') sec = [''['' @ t, []]"
    unfolding t(1) using split_ch_Cons [of "CHR '']''" "''['' @ t" "[]"] t(2) by simp
  moreover have "has_prefix sec ''[''" "\<not> has_prefix sec ''#''" "sec \<noteq> []" by (simp_all add: t(1) has_prefix_def)
  moreover have "hd (split_ch (CHR '']'') sec) @ '']'' = sec" using calculation t(1) by simp
  ultimately show ?thesis
    by (intro exI [of _ "if sec \<notin> {GlobalSectionName, NmeaSectionName, UnicastSectionName} then cp_ifaces p + 1 else cp_ifaces p"])
      (simp only: parse_line_def Let_def, simp)
qed

lemma sec_eta: "\<lparr>cs_sectionName = cs_sectionName s, cs_options = cs_options s\<rparr> = s"
  by simp

text \<open>One option of the section being read, there or not.\<close>

lemma parse_opt_step:
  assumes "wf_option o1" "cp_section p = sec" "sec \<notin> cs_sectionName ` set done" "distinct (map cs_sectionName done)"
    and "pc_sections (cp_conf p) = done @ (if os = [] \<and> fresh then [] else [\<lparr>cs_sectionName = sec, cs_options = os\<rparr>])"
  shows "\<exists>p'. parse_line (opt_line o1) p = Inr p' \<and> cp_section p' = sec \<and>
    pc_sections (cp_conf p') = done @ [\<lparr>cs_sectionName = sec, cs_options = os @ [o1]\<rparr>]"
proof -
  have k: "co_key o1 \<noteq> ''''" using assms(1) by (simp add: wf_option_def)
  show ?thesis
  proof (cases "os = [] \<and> fresh")
    case True
    then have "sec \<notin> cs_sectionName ` set (pc_sections (cp_conf p))" using assms(3,5) by simp
    from set_new [OF this] show ?thesis
      using True k assms(2,5) by (simp add: parse_opt_line [OF assms(1)] opt_eta)
  next
    case False
    then have s: "pc_sections (cp_conf p) = done @ [\<lparr>cs_sectionName = sec, cs_options = os\<rparr>]" using assms(5) by simp
    have "section_index sec (pc_sections (cp_conf p)) = Some (length done)"
      by (rule section_index_eq) (use s assms(3,4) in auto)
    from set_old [OF this] show ?thesis
      using k assms(2) by (simp add: parse_opt_line [OF assms(1)] opt_eta s set_option_def)
  qed
qed

lemma parse_opts:
  assumes "\<forall>o1 \<in> set os2. wf_option o1" "cp_section p = sec" "sec \<notin> cs_sectionName ` set done" "distinct (map cs_sectionName done)"
    and "pc_sections (cp_conf p) = done @ (if os = [] \<and> fresh then [] else [\<lparr>cs_sectionName = sec, cs_options = os\<rparr>])"
    and "fresh \<longrightarrow> os \<noteq> [] \<or> os2 \<noteq> []"
  shows "\<exists>p'. parse_lines (map opt_line os2 @ rest) p = parse_lines rest p' \<and>
    pc_sections (cp_conf p') = done @ [\<lparr>cs_sectionName = sec, cs_options = os @ os2\<rparr>]"
  using assms
proof (induction os2 arbitrary: p os)
  case Nil
  then show ?case by (intro exI [of _ p]) auto
next
  case (Cons o1 os2)
  from Cons.prems(1) have "wf_option o1" by simp
  from parse_opt_step [OF this Cons.prems(2-5)] obtain p1 where p1: "parse_line (opt_line o1) p = Inr p1"
    "cp_section p1 = sec" "pc_sections (cp_conf p1) = done @ [\<lparr>cs_sectionName = sec, cs_options = os @ [o1]\<rparr>]" by blast
  have "\<exists>p'. parse_lines (map opt_line os2 @ rest) p1 = parse_lines rest p' \<and>
      pc_sections (cp_conf p') = done @ [\<lparr>cs_sectionName = sec, cs_options = (os @ [o1]) @ os2\<rparr>]"
    by (rule Cons.IH) (use Cons.prems p1 in auto)
  with p1(1) show ?case by simp
qed

lemma parse_section:
  assumes "bracketed (cs_sectionName s) \<or> cs_sectionName s = '''' \<and> cs_options s \<noteq> [] \<and> cp_section p = ''''"
    and "\<forall>o1 \<in> set (cs_options s). wf_option o1" "cs_sectionName s \<notin> cs_sectionName ` set (pc_sections (cp_conf p))"
    and "distinct (map cs_sectionName (pc_sections (cp_conf p)))"
  shows "\<exists>p'. parse_lines (sec_lines s @ rest) p = parse_lines rest p' \<and>
    pc_sections (cp_conf p') = pc_sections (cp_conf p) @ [s]"
proof (cases "bracketed (cs_sectionName s)")
  case True
  from parse_header [OF this, of p] obtain n where h: "parse_line (cs_sectionName s) p =
      Inr (p\<lparr>cp_section := cs_sectionName s, cp_ifaces := n, cp_conf := setPtp4lConfOption (cs_sectionName s) '''' '''' False (cp_conf p)\<rparr>)"
    by blast
  define p1 where "p1 = p\<lparr>cp_section := cs_sectionName s, cp_ifaces := n,
      cp_conf := setPtp4lConfOption (cs_sectionName s) '''' '''' False (cp_conf p)\<rparr>"
  have s1: "pc_sections (cp_conf p1) = pc_sections (cp_conf p) @ [\<lparr>cs_sectionName = cs_sectionName s, cs_options = []\<rparr>]"
    "cp_section p1 = cs_sectionName s" unfolding p1_def by (simp_all add: set_new [OF assms(3)])
  have "\<exists>p'. parse_lines (map opt_line (cs_options s) @ rest) p1 = parse_lines rest p' \<and>
      pc_sections (cp_conf p') = pc_sections (cp_conf p) @ [\<lparr>cs_sectionName = cs_sectionName s, cs_options = [] @ cs_options s\<rparr>]"
    by (rule parse_opts [where os = "[]" and fresh = False, OF assms(2) s1(2) assms(3,4)]) (use s1(1) in simp_all)
  then show ?thesis unfolding append_Nil sec_eta by (simp add: sec_lines_def h p1_def [symmetric])
next
  case False
  then have n: "cs_sectionName s = ''''" "cs_options s \<noteq> []" "cp_section p = ''''" using assms(1) by auto
  have "parse_line '''' p = Inr p" by (simp add: parse_line_def TrimSpace_def trim_both_def)
  moreover have "\<exists>p'. parse_lines (map opt_line (cs_options s) @ rest) p = parse_lines rest p' \<and>
      pc_sections (cp_conf p') = pc_sections (cp_conf p) @ [\<lparr>cs_sectionName = cs_sectionName s, cs_options = [] @ cs_options s\<rparr>]"
    by (rule parse_opts [where os = "[]" and fresh = True, OF assms(2) _ assms(3,4)]) (use n in simp_all)
  ultimately show ?thesis using n(1) unfolding append_Nil sec_eta by (simp add: sec_lines_def)
qed

lemma parse_sections:
  assumes "\<forall>s \<in> set ss. bracketed (cs_sectionName s)" "\<forall>s \<in> set ss. \<forall>o1 \<in> set (cs_options s). wf_option o1"
    and "distinct (map cs_sectionName (pc_sections (cp_conf p) @ ss))"
  shows "\<exists>p'. parse_lines (concat (map sec_lines ss)) p = (p', None) \<and> pc_sections (cp_conf p') = pc_sections (cp_conf p) @ ss"
  using assms
proof (induction ss arbitrary: p)
  case (Cons s ss)
  have "\<exists>p'. parse_lines (sec_lines s @ concat (map sec_lines ss)) p = parse_lines (concat (map sec_lines ss)) p' \<and>
      pc_sections (cp_conf p') = pc_sections (cp_conf p) @ [s]"
    by (rule parse_section) (use Cons.prems in auto)
  then obtain p1 where p1: "parse_lines (sec_lines s @ concat (map sec_lines ss)) p = parse_lines (concat (map sec_lines ss)) p1"
    "pc_sections (cp_conf p1) = pc_sections (cp_conf p) @ [s]" by blast
  have "\<exists>p'. parse_lines (concat (map sec_lines ss)) p1 = (p', None) \<and> pc_sections (cp_conf p') = pc_sections (cp_conf p1) @ ss"
    by (rule Cons.IH) (use Cons.prems p1(2) in auto)
  with p1 show ?case by auto
qed simp

lemma parse_rendered:
  assumes "wf_sections ss" "pc_sections (cp_conf p) = []" "cp_section p = ''''"
  shows "\<exists>p'. parse_lines (concat (map sec_lines ss)) p = (p', None) \<and> pc_sections (cp_conf p') = ss"
proof (cases ss)
  case Nil
  then show ?thesis using assms(2) by simp
next
  case (Cons s rest)
  have "\<exists>p'. parse_lines (sec_lines s @ concat (map sec_lines rest)) p = parse_lines (concat (map sec_lines rest)) p' \<and>
      pc_sections (cp_conf p') = pc_sections (cp_conf p) @ [s]"
    by (rule parse_section) (use assms Cons in \<open>auto simp: wf_sections_def\<close>)
  then obtain p1 where p1: "parse_lines (sec_lines s @ concat (map sec_lines rest)) p = parse_lines (concat (map sec_lines rest)) p1"
    "pc_sections (cp_conf p1) = [s]" using assms(2) by auto
  have b: "\<forall>t \<in> set rest. bracketed (cs_sectionName t)"
    using assms(1) unfolding wf_sections_def Cons by auto
  have "\<exists>p'. parse_lines (concat (map sec_lines rest)) p1 = (p', None) \<and> pc_sections (cp_conf p') = pc_sections (cp_conf p1) @ rest"
    by (rule parse_sections [OF b]) (use assms(1) p1(2) in \<open>auto simp: wf_sections_def Cons\<close>)
  with p1 Cons show ?thesis by auto
qed

lemma Populate_rendered:
  assumes "wf_sections (pc_sections conf)" "nl \<notin> set (pc_profile_name conf)"
  shows "snd (PopulatePtp4lConf (Some (fst (RenderPtp4lConf phc conf store))) cli c0) = None \<and>
    pc_sections (fst (PopulatePtp4lConf (Some (fst (RenderPtp4lConf phc conf store))) cli c0)) = pc_sections conf"
proof -
  let ?h = "''#profile: '' @ pc_profile_name conf" and ?ls = "concat (map sec_lines (pc_sections conf))"
  let ?p0 = "\<lparr>cp_conf = c0\<lparr>pc_sections := []\<rparr>, cp_section = '''', cp_slave = cli_slave cli, cp_ifaces = 0\<rparr>"
  have "\<forall>l \<in> set (sec_lines s). nl \<notin> set l" if "s \<in> set (pc_sections conf)" for s
    using assms(1) that unfolding wf_sections_def sec_lines_def
    by (fastforce simp: opt_line_def wf_option_def bracketed_def)
  then have "\<forall>l \<in> set (?h # [] # ?ls). nl \<notin> set l" using assms(2) by auto
  then have split: "split_ch nl (fst (RenderPtp4lConf phc conf store)) = ?h # [] # ?ls"
    unfolding rendered_text by (rule split_ch_join) simp
  have "hd (TrimSpace ?h) = CHR ''#'' \<and> TrimSpace ?h \<noteq> []"
  proof -
    have d: "dropWhile ch_space ?h = ?h" by (simp add: ch_space_def)
    have ne: "TrimSpace ?h \<noteq> []" unfolding TrimSpace_def trim_both_empty by (simp add: ch_space_def)
    obtain w where w: "rev ?h = w @ dropWhile ch_space (rev ?h)" by (metis takeWhile_dropWhile_id)
    have t: "TrimSpace ?h = rev (dropWhile ch_space (rev ?h))" unfolding TrimSpace_def trim_both_def d ..
    then have "last (dropWhile ch_space (rev ?h)) = last (rev ?h)" using w ne
      by (metis last_appendR rev_is_Nil_conv)
    then show ?thesis using ne t by (simp add: hd_rev last_rev)
  qed
  then have "parse_line ?h p = Inr p" for p
    by (cases "TrimSpace ?h") (auto simp: parse_line_def has_prefix_def Let_def)
  moreover have "parse_line [] p = Inr p" for p by (simp add: parse_line_def TrimSpace_def trim_both_def)
  ultimately have "parse_lines (?h # [] # ?ls) ?p0 = parse_lines ?ls ?p0" by simp
  moreover obtain p' where "parse_lines ?ls ?p0 = (p', None)" "pc_sections (cp_conf p') = pc_sections conf"
    using parse_rendered [OF assms(1), of ?p0] by auto
  ultimately show ?thesis by (simp add: PopulatePtp4lConf_def split Let_def)
qed

lemma parse_lines_wf:
  "wf_parse p \<Longrightarrow> \<forall>l \<in> set ls. nl \<notin> set l \<Longrightarrow> wf_parse (fst (parse_lines ls p))"
  by (induction ls arbitrary: p) (auto split: sum.splits intro: parse_line_wf)

lemma Populate_wf: "wf_sections (pc_sections (fst (PopulatePtp4lConf config cliArgs c0)))"
proof -
  have p0: "wf_parse \<lparr>cp_conf = c0\<lparr>pc_sections := []\<rparr>, cp_section = '''', cp_slave = s, cp_ifaces = 0\<rparr>" for s
    by (simp add: wf_parse_def wf_sections_def)
  show ?thesis
  proof (cases config)
    case None
    then show ?thesis by (simp add: PopulatePtp4lConf_def wf_sections_def Let_def)
  next
    case (Some c)
    have "wf_parse (fst (parse_lines (split_ch nl c) \<lparr>cp_conf = c0\<lparr>pc_sections := []\<rparr>, cp_section = '''', cp_slave = s, cp_ifaces = 0\<rparr>))" for s
      by (rule parse_lines_wf [OF p0]) (use split_ch_parts in blast)
    note wf = this [of "cli_slave cliArgs"]
    obtain p err where r: "parse_lines (split_ch nl c)
        \<lparr>cp_conf = c0\<lparr>pc_sections := []\<rparr>, cp_section = [], cp_slave = cli_slave cliArgs, cp_ifaces = 0\<rparr> = (p, err)" by fastforce
    have "fst (PopulatePtp4lConf config cliArgs c0) =
        (case err of None \<Rightarrow> (cp_conf p)\<lparr>pc_clock_type := (if \<not> cp_slave p then GM else if 1 < cp_ifaces p then BC else OC)\<rparr>
         | Some _ \<Rightarrow> cp_conf p)"
      unfolding PopulatePtp4lConf_def Some Let_def option.case r by (simp split: option.splits)
    moreover have "wf_sections (pc_sections (cp_conf p))" using wf unfolding r by (simp add: wf_parse_def)
    ultimately show ?thesis by (cases err) simp_all
  qed
qed

text \<open>
  C25. The text of a profile survives the daemon: whatever text is parsed, the sections it yields have
  distinct names and clean keys and values, and the configuration file that is rendered from them
  is parsed without an error to exactly the same sections and options, in the same order.
\<close>

theorem configuration_round_trip:
  assumes "PopulatePtp4lConf config cliArgs c0 = (conf, err)" "nl \<notin> set (pc_profile_name conf)"
  shows "distinct (map cs_sectionName (pc_sections conf)) \<and>
    (\<forall>s \<in> set (pc_sections conf). \<forall>o1 \<in> set (cs_options s). co_key o1 \<noteq> '''' \<and> co_value o1 \<noteq> '''' \<and> TrimSpace (co_value o1) = co_value o1) \<and>
    snd (PopulatePtp4lConf (Some (fst (RenderPtp4lConf phc conf store))) cli c1) = None \<and>
    pc_sections (fst (PopulatePtp4lConf (Some (fst (RenderPtp4lConf phc conf store))) cli c1)) = pc_sections conf"
proof -
  have wf: "wf_sections (pc_sections conf)" using Populate_wf [of config cliArgs c0] assms(1) by simp
  have "TrimSpace (co_value o1) = co_value o1" if "wf_option o1" for o1
    unfolding TrimSpace_def using that by (intro trim_both_id) (simp add: wf_option_def)
  with wf Populate_rendered [OF wf assms(2)] show ?thesis by (auto simp: wf_sections_def wf_option_def)
qed

abbreviation sample_text :: string where
  "sample_text \<equiv> ''# a comment'' @ [nl] @ ''[global]'' @ [nl] @ ''  slaveOnly   1 '' @ [nl] @ [nl] @ ''[eth0]''"

lemma sample_parsed:
  "PopulatePtp4lConf (Some sample_text) None empty_conf =
   (empty_conf\<lparr>pc_sections := [\<lparr>cs_sectionName = ''[global]'', cs_options = [opt ''slaveOnly'' ''1'']\<rparr>,
                              \<lparr>cs_sectionName = ''[eth0]'', cs_options = []\<rparr>], pc_clock_type := OC\<rparr>, None)"
  by code_simp

theorem configuration_round_trip_witness:
  "pc_sections (fst (PopulatePtp4lConf (Some (fst (RenderPtp4lConf (\<lambda>_. '''')
     (fst (PopulatePtp4lConf (Some sample_text) None empty_conf)) as_empty))) None empty_conf)) =
   [\<lparr>cs_sectionName = ''[global]'', cs_options = [opt ''slaveOnly'' ''1'']\<rparr>, \<lparr>cs_sectionName = ''[eth0]'', cs_options = []\<rparr>]"
proof -
  have n: "nl \<notin> set (pc_profile_name (empty_conf\<lparr>pc_sections := ss, pc_clock_type := OC\<rparr>))" for ss
    by (simp add: empty_conf_def)
  show ?thesis
    using configuration_round_trip [OF sample_parsed n, of "\<lambda>_. ''''" as_empty None empty_conf]
    by (simp only: sample_parsed fst_conv) simp
qed

section \<open>Rendering the configuration of synce4l\<close>

abbreviation device_section :: "string \<Rightarrow> bool" where "device_section n \<equiv> has_prefix n ''[<''"

lemma synce_sections_length:
  assumes "\<forall>s \<in> set ss. device_section (cs_sectionName s) \<longrightarrow> strip_brackets (cs_sectionName s) \<noteq> ''''"
    and "synce_sections conf ss (r, cur, ifaces) = (r', cur', ifaces')"
  shows "length r' + (if sc_Name cur' \<noteq> '''' then 1 else 0) =
    length r + (if sc_Name cur \<noteq> '''' then 1 else 0) + length (filter (\<lambda>s. device_section (cs_sectionName s)) ss)"
  using assms
proof (induction ss arbitrary: r cur ifaces)
  case (Cons s ss)
  have dev: "sc_Name (synce_device sec conf) = strip_brackets sec" for sec
    by (simp add: synce_device_def)
  show ?case
  proof (cases "device_section (cs_sectionName s)")
    case True
    define r1 where "r1 = (if sc_Name cur \<noteq> '''' then AddDeviceConfig (if ifaces \<noteq> [] then cur\<lparr>sc_Ifaces := ifaces\<rparr> else cur) r else r)"
    have "synce_sections conf ss (r1, synce_device (cs_sectionName s) conf, ifaces) = (r', cur', ifaces')"
      using Cons.prems(2) True by (simp add: r1_def Let_def)
    from Cons.IH [OF _ this] Cons.prems(1) True show ?thesis
      by (simp add: dev) (simp add: r1_def AddDeviceConfig_def)
  next
    case False
    then obtain cur2 ifaces2 where c: "synce_sections conf ss (r, cur2, ifaces2) = (r', cur', ifaces')" "sc_Name cur2 = sc_Name cur"
      using Cons.prems(2) by (cases "has_prefix (cs_sectionName s) ''[{''") (auto simp: Let_def split: if_splits)
    from Cons.IH [OF _ c(1)] Cons.prems(1) c(2) False show ?thesis by simp
  qed
qed simp

lemma length_AddClockIds: "length (AddClockIds ss r) = length r"
  by (induction ss r rule: AddClockIds.induct) (auto split: option.splits)

lemma length_relations:
  assumes "\<forall>s \<in> set (pc_sections conf). device_section (cs_sectionName s) \<longrightarrow> strip_brackets (cs_sectionName s) \<noteq> ''''"
  shows "length (extractSynceRelations conf) = length (filter (\<lambda>s. device_section (cs_sectionName s)) (pc_sections conf))"
proof -
  obtain r cur ifaces where e: "synce_sections conf (pc_sections conf) ([], zero_synce_config, []) = (r, cur, ifaces)"
    by (metis prod_cases3)
  have z: "sc_Name zero_synce_config = ''''" by (simp add: zero_synce_config_def)
  have "extractSynceRelations conf =
      (if sc_Name cur \<noteq> '''' then AddDeviceConfig (if ifaces \<noteq> [] then cur\<lparr>sc_Ifaces := ifaces\<rparr> else cur) r else r)"
    by (simp add: extractSynceRelations_def e Let_def)
  then show ?thesis using synce_sections_length [OF assms e] z
    by (cases "sc_Name cur = ''''") (simp_all add: AddDeviceConfig_def)
qed

lemma render_synce_total:
  assumes "\<forall>i \<in> set is. i < length (pc_sections conf)"
    and "dev + length (filter (\<lambda>i. device_section (map cs_sectionName (pc_sections conf) ! i)) is) \<le> length r"
  shows "render_synce r is dev conf \<noteq> None"
  using assms
proof (induction "is" arbitrary: dev conf)
  case (Cons i "is")
  define sec where "sec = cs_sectionName (pc_sections conf ! i)"
  define needs where "needs = (device_section sec \<and> getPtp4lConfOption sec ''clock_id'' conf = None)"
  define c1 where "c1 = (if needs then setPtp4lConfOption sec ''clock_id'' (sc_ClockId (r ! dev)) True conf else conf)"
  have i: "i < length (pc_sections conf)" using Cons.prems(1) by simp
  then have "sec \<in> cs_sectionName ` set (pc_sections conf)" by (simp add: sec_def)
  then have names: "map cs_sectionName (pc_sections c1) = map cs_sectionName (pc_sections conf)"
    unfolding c1_def by (simp add: set_names)
  then have len: "length (pc_sections c1) = length (pc_sections conf)" by (metis length_map)
  have dev: "needs \<Longrightarrow> dev < length r" using Cons.prems(2) i by (simp add: needs_def sec_def)
  have "render_synce r is (if needs then dev + 1 else dev) c1 \<noteq> None"
  proof (rule Cons.IH)
    show "\<forall>j \<in> set is. j < length (pc_sections c1)" using Cons.prems(1) len by simp
    show "(if needs then dev + 1 else dev) + length (filter (\<lambda>i. device_section (map cs_sectionName (pc_sections c1) ! i)) is) \<le> length r"
      unfolding names using Cons.prems(2) i by (auto simp: needs_def sec_def split: if_splits)
  qed
  then obtain x where x: "render_synce r is (if needs then dev + 1 else dev) c1 = Some x" by blast
  have "render_synce r (i # is) dev conf = (if needs \<and> length r \<le> dev then None
      else map_option (\<lambda>(out, c). (render_section (pc_sections c1 ! i) @ out, c)) (render_synce r is (if needs then dev + 1 else dev) c1))"
    unfolding render_synce.simps Let_def sec_def [symmetric] needs_def [symmetric] c1_def [symmetric] ..
  then show ?case using dev x by auto
qed simp

text \<open>
  Rendering a synce4l configuration does not panic if every device section has a name: the
  devices are then as many as the device sections, so the index of the next device stays in range.
\<close>

lemma synce_rendering_total:
  assumes "\<forall>s \<in> set (pc_sections conf). device_section (cs_sectionName s) \<longrightarrow> strip_brackets (cs_sectionName s) \<noteq> ''''"
  shows "RenderSyncE4lConf settings conf \<noteq> None"
proof -
  let ?r = "AddClockIds settings (extractSynceRelations conf)" and ?ss = "pc_sections conf"
  have "map (\<lambda>i. ?ss ! i) [0..<length ?ss] = ?ss" by (rule map_nth)
  then have "length (filter (\<lambda>s. device_section (cs_sectionName s)) ?ss) =
      length (filter (\<lambda>i. device_section (cs_sectionName (?ss ! i))) [0..<length ?ss])"
    by (metis (no_types, lifting) filter_map length_map comp_apply filter_cong)
  also have "\<dots> = length (filter (\<lambda>i. device_section (map cs_sectionName ?ss ! i)) [0..<length ?ss])"
    by (intro arg_cong [where f = length] filter_cong) auto
  finally have "0 + length (filter (\<lambda>i. device_section (map cs_sectionName ?ss ! i)) [0..<length ?ss]) \<le> length ?r"
    using length_relations [OF assms] by (simp add: length_AddClockIds)
  from render_synce_total [OF _ this] show ?thesis by (auto simp: RenderSyncE4lConf_def Let_def)
qed

definition sample_synce :: ptp4l_conf where
  "sample_synce = empty_conf\<lparr>pc_sections :=
     [\<lparr>cs_sectionName = ''[<synce1>]'', cs_options = [opt ''clock_id'' ''7'']\<rparr>, \<lparr>cs_sectionName = ''[eth0]'', cs_options = []\<rparr>,
      \<lparr>cs_sectionName = ''[<synce2>]'', cs_options = []\<rparr>, \<lparr>cs_sectionName = ''[eth1]'', cs_options = []\<rparr>]\<rparr>"

text \<open>A device section without a name makes it panic.\<close>

lemma synce_rendering_panics:
  "RenderSyncE4lConf [] (empty_conf\<lparr>pc_sections := [\<lparr>cs_sectionName = ''[<>]'', cs_options = []\<rparr>]\<rparr>) = None"
  by code_simp

text \<open>
  The interfaces of a device are never cleared: the second device is given the interfaces of the
  first as well. And the clock identifier written for the second device is that of the first when
  the first has one of its own.
\<close>

lemma second_device_keeps_ports:
  "map (\<lambda>d. (sc_Name d, sc_Ifaces d)) (extractSynceRelations sample_synce) =
   [(''synce1'', [''eth0'']), (''synce2'', [''eth0'', ''eth1''])]"
  by code_simp

lemma second_device_gets_first_clock_id:
  "map_option (\<lambda>(out, r, c). (getPtp4lConfOption ''[<synce2>]'' ''clock_id'' c, map sc_ClockId r))
     (RenderSyncE4lConf [(''clockId[eth0]'', ''11'')] sample_synce) = Some (Some ''11'', [''11'', ''''])"
  by code_simp

end
