(* ===== verification/Ublox.thy ===== *)
theory Ublox
  imports GoStrings
begin

text \<open>
  The u-blox receiver (\<open>pkg/ublox\<close>: \<open>parser.go\<close>, \<open>messages.go\<close>, \<open>types.go\<close>, \<open>broker.go\<close>,
  \<open>init_config.go\<close>, part of \<open>ublox.go\<close>): the output of ubxtool becomes typed messages, which a broker
  queues for its subscribers. \<open>time.Now\<close> (the time of receipt) is left out.
\<close>

section \<open>Messages\<close>

type_synonym message_type = string

abbreviation NavClockType :: message_type where "NavClockType \<equiv> ''UBX-NAV-CLOCK''"
abbreviation NavStatusType :: message_type where "NavStatusType \<equiv> ''UBX-NAV-STATUS''"
abbreviation NavTimeLsType :: message_type where "NavTimeLsType \<equiv> ''UBX-NAV-TIMELS''"
abbreviation NavSvinType :: message_type where "NavSvinType \<equiv> ''UBX-TIM-SVIN''"
abbreviation AckAckType :: message_type where "AckAckType \<equiv> ''UBX-ACK-ACK''"
abbreviation AckNakType :: message_type where "AckNakType \<equiv> ''UBX-ACK-NAK''"

record nav_clock =
  nc_ITOW :: u32
  nc_ClkB :: int
  nc_ClkD :: int
  nc_TAcc :: u64
  nc_FAcc :: u64
  nc_Offset :: int

record nav_status =
  ns_ITOW :: u32
  ns_GPSFix :: int
  ns_Flags :: u8
  ns_FixStat :: u8
  ns_Flags2 :: u8
  ns_TTFF :: u32
  ns_MSSS :: u32

record time_ls =
  tl_SrcOfCurrLs :: u8
  tl_CurrLs :: int
  tl_SrcOfLsChange :: u8
  tl_LsChange :: int
  tl_TimeToLsEvent :: int
  tl_DateOfLsGpsWn :: nat
  tl_DateOfLsGpsDn :: u8
  tl_Valid :: u8

record survey_in =
  sv_Duration :: u64
  sv_MeanX :: int
  sv_MeanY :: int
  sv_MeanZ :: int
  sv_MeanV :: int
  sv_MeanAccuracy :: u64
  sv_Observations :: u64
  sv_Valid :: bool
  sv_Active :: bool

datatype payload =
    NavClock nav_clock
  | NavStatus nav_status
  | TimeLs time_ls
  | SurveyIn survey_in
  | AckAck u8 u8
  | AckNak u8 u8
  | RawMessage message_type "string list"

fun payload_type :: "payload \<Rightarrow> message_type" where
  "payload_type (NavClock _) = NavClockType"
| "payload_type (NavStatus _) = NavStatusType"
| "payload_type (TimeLs _) = NavTimeLsType"
| "payload_type (SurveyIn _) = NavSvinType"
| "payload_type (AckAck _ _) = AckAckType"
| "payload_type (AckNak _ _) = AckNakType"
| "payload_type (RawMessage t _) = t"

text \<open>A time stamp is seconds and nanoseconds; \<open>None\<close> is the zero time.\<close>

record ubx_message =
  um_Type :: message_type
  um_Timestamp :: "(int \<times> int) option"
  um_Payload :: payload
  um_Raw :: "string list"

definition SpoofingDetected :: "nav_status \<Rightarrow> bool" where
  "SpoofingDetected s =
     (let st = and (ns_Flags2 s) 0x18 in st = 0x10 \<or> st = 0x18)"

section \<open>Fields\<close>

definition cleanNumber :: "string \<Rightarrow> string" where
  "cleanNumber v = rev (dropWhile (\<lambda>c. c = CHR '','') (rev v))"

definition normalizeNumber :: "string \<Rightarrow> string" where
  "normalizeNumber v =
     (if has_prefix v ''x'' \<or> has_prefix v ''X'' then CHR ''0'' # v
      else if has_prefix v ''-x'' \<or> has_prefix v ''-X'' then ''-0'' @ tl v
      else v)"

text \<open>The base: 0 for a number with a hexadecimal prefix.\<close>

definition numberBase :: "string \<Rightarrow> nat" where
  "numberBase v =
     (let n = str_TrimPrefix (normalizeNumber v) ''-'' in
      if has_prefix n ''0x'' \<or> has_prefix n ''0X'' then 0 else 10)"

definition ubx_parseInt :: "string \<Rightarrow> nat \<Rightarrow> int \<times> num_error option" where
  "ubx_parseInt v bits =
     (let c = cleanNumber v in
      if numberBase c = 0 then ParseInt0 (normalizeNumber c) bits else ParseInt (normalizeNumber c) 10 bits)"

definition ubx_parseUint :: "string \<Rightarrow> nat \<Rightarrow> nat \<times> num_error option" where
  "ubx_parseUint v bits =
     (let c = cleanNumber v in
      if numberBase c = 0 then ParseUint0 (normalizeNumber c) bits else ParseUint (normalizeNumber c) 10 bits)"

fun field_in :: "string \<Rightarrow> string list \<Rightarrow> string option" where
  "field_in name (a # b # fs) = (if a = name then Some b else field_in name (b # fs))"
| "field_in name _ = None"

fun fieldValue :: "string list \<Rightarrow> string \<Rightarrow> string option" where
  "fieldValue [] name = None"
| "fieldValue (l # ls) name =
     (case field_in name (Fields l) of Some v \<Rightarrow> Some v | None \<Rightarrow> fieldValue ls name)"

definition fieldInt64 :: "string list \<Rightarrow> string \<Rightarrow> int \<Rightarrow> int" where
  "fieldInt64 ls name fallback =
     (case fieldValue ls name of None \<Rightarrow> fallback
      | Some v \<Rightarrow> (case ubx_parseInt v 64 of (n, None) \<Rightarrow> n | _ \<Rightarrow> fallback))"

text \<open>\<open>fieldUint8\<close>, \<open>fieldUint32\<close> and \<open>fieldUint64Value\<close>; \<open>None\<close> is unavailable.\<close>

definition fieldUint :: "nat \<Rightarrow> string list \<Rightarrow> string \<Rightarrow> nat option" where
  "fieldUint bits ls name =
     (case fieldValue ls name of None \<Rightarrow> None
      | Some v \<Rightarrow> (case ubx_parseUint v bits of (n, None) \<Rightarrow> Some n | _ \<Rightarrow> None))"

definition fieldUint8 :: "string list \<Rightarrow> string \<Rightarrow> u8" where
  "fieldUint8 ls name = (case fieldUint 8 ls name of None \<Rightarrow> 0 | Some n \<Rightarrow> of_nat n)"

definition fieldUint32 :: "string list \<Rightarrow> string \<Rightarrow> u32" where
  "fieldUint32 ls name = (case fieldUint 32 ls name of None \<Rightarrow> 0 | Some n \<Rightarrow> of_nat n)"

definition fieldUint64 :: "string list \<Rightarrow> string \<Rightarrow> u64" where
  "fieldUint64 ls name = (case fieldUint 64 ls name of None \<Rightarrow> 0 | Some n \<Rightarrow> of_nat n)"

definition fieldBool :: "string list \<Rightarrow> string \<Rightarrow> bool" where
  "fieldBool ls name =
     (case fieldValue ls name of None \<Rightarrow> False | Some v \<Rightarrow> v = ''1'' \<or> EqualFold v ''true'')"

section \<open>Leap seconds and single lines\<close>

definition zero_time_ls :: time_ls where
  "zero_time_ls = \<lparr>tl_SrcOfCurrLs = 0, tl_CurrLs = 0, tl_SrcOfLsChange = 0, tl_LsChange = 0,
     tl_TimeToLsEvent = 0, tl_DateOfLsGpsWn = 0, tl_DateOfLsGpsDn = 0, tl_Valid = 0\<rparr>"

text \<open>One field and the field after it; the errors of the readers are ignored, out of range clamps.\<close>

definition leap_field :: "string \<Rightarrow> string \<Rightarrow> time_ls \<Rightarrow> time_ls" where
  "leap_field field v d =
     (if field = ''srcOfCurrLs'' then d\<lparr>tl_SrcOfCurrLs := of_nat (fst (ParseUint v 10 8))\<rparr>
      else if field = ''currLs'' then d\<lparr>tl_CurrLs := fst (ParseInt v 10 8)\<rparr>
      else if field = ''srcOfLsChange'' then d\<lparr>tl_SrcOfLsChange := of_nat (fst (ParseUint v 10 8))\<rparr>
      else if field = ''lsChange'' then d\<lparr>tl_LsChange := fst (ParseInt v 10 8)\<rparr>
      else if field = ''timeToLsEvent'' then d\<lparr>tl_TimeToLsEvent := fst (ParseInt v 10 32)\<rparr>
      else if field = ''dateOfLsGpsWn'' then d\<lparr>tl_DateOfLsGpsWn := fst (ParseUint v 10 16)\<rparr>
      else if field = ''dateOfLsGpsDn'' then d\<lparr>tl_DateOfLsGpsDn := of_nat (fst (ParseUint v 10 16))\<rparr>
      else if field = ''valid'' then d\<lparr>tl_Valid := of_nat (fst (ParseUint0 (CHR ''0'' # v) 8))\<rparr>
      else d)"

fun leap_fields :: "string list \<Rightarrow> time_ls \<Rightarrow> time_ls" where
  "leap_fields (a # b # fs) d = leap_fields (b # fs) (leap_field a b d)"
| "leap_fields _ d = d"

definition ExtractLeapSec :: "string list \<Rightarrow> time_ls" where
  "ExtractLeapSec ls = fold (\<lambda>l. leap_fields (Fields l)) ls zero_time_ls"

text \<open>\<open>ExtractOffset\<close> and \<open>ExtractNavStatus\<close>: the number after the first field of the name, or -1.\<close>

fun field_after :: "string \<Rightarrow> string list \<Rightarrow> int" where
  "field_after name [] = -1"
| "field_after name (f # fs) =
     (if f \<noteq> name then field_after name fs
      else case fs of [] \<Rightarrow> -1 | v # _ \<Rightarrow> (case ParseInt v 10 64 of (n, None) \<Rightarrow> n | _ \<Rightarrow> -1))"

definition ExtractOffset :: "string \<Rightarrow> int" where
  "ExtractOffset l = (if Contains l ''tAcc'' then field_after ''tAcc'' (Fields l) else -1)"

definition ExtractNavStatus :: "string \<Rightarrow> int" where
  "ExtractNavStatus l = (if Contains l ''gpsFix'' then field_after ''gpsFix'' (Fields l) else -1)"

section \<open>The parser\<close>

abbreviation unknownOffset :: int where "unknownOffset \<equiv> 99999999"

definition decodePayload :: "message_type \<Rightarrow> string list \<Rightarrow> payload" where
  "decodePayload typ ls =
     (if typ = NavClockType then
        NavClock \<lparr>nc_ITOW = fieldUint32 ls ''iTOW'', nc_ClkB = fieldInt64 ls ''clkB'' 0, nc_ClkD = fieldInt64 ls ''clkD'' 0,
                  nc_TAcc = fieldUint64 ls ''tAcc'', nc_FAcc = fieldUint64 ls ''fAcc'',
                  nc_Offset = (case fieldUint 64 ls ''tAcc'' of None \<Rightarrow> unknownOffset | Some n \<Rightarrow> sint (of_nat n :: u64))\<rparr>
      else if typ = NavStatusType then
        NavStatus \<lparr>ns_ITOW = fieldUint32 ls ''iTOW'', ns_GPSFix = fieldInt64 ls ''gpsFix'' (-1), ns_Flags = fieldUint8 ls ''flags'',
                   ns_FixStat = fieldUint8 ls ''fixStat'', ns_Flags2 = fieldUint8 ls ''flags2'',
                   ns_TTFF = fieldUint32 ls ''ttff'', ns_MSSS = fieldUint32 ls ''msss''\<rparr>
      else if typ = NavTimeLsType then TimeLs (ExtractLeapSec ls)
      else if typ = NavSvinType then
        SurveyIn \<lparr>sv_Duration = fieldUint64 ls ''dur'', sv_MeanX = fieldInt64 ls ''meanX'' 0, sv_MeanY = fieldInt64 ls ''meanY'' 0,
                  sv_MeanZ = fieldInt64 ls ''meanZ'' 0, sv_MeanV = fieldInt64 ls ''meanV'' 0,
                  sv_MeanAccuracy = fieldUint64 ls ''meanAcc'', sv_Observations = fieldUint64 ls ''obs'',
                  sv_Valid = fieldBool ls ''valid'', sv_Active = fieldBool ls ''active''\<rparr>
      else if typ = AckAckType then AckAck (fieldUint8 ls ''clsID'') (fieldUint8 ls ''msgID'')
      else if typ = AckNakType then AckNak (fieldUint8 ls ''clsID'') (fieldUint8 ls ''msgID'')
      else RawMessage typ ls)"

definition messageTypeFromLine :: "string \<Rightarrow> message_type option" where
  "messageTypeFromLine line =
     map_option (\<lambda>f. str_TrimSuffix f '':'') (find (\<lambda>f. has_prefix f ''UBX-'') (Fields line))"

definition parseUnixTimestamp :: "string \<Rightarrow> (int \<times> int) option" where
  "parseUnixTimestamp v =
     (let (sec, frac, dot) = Cut v (CHR ''.''); (s, err) = ParseInt sec 10 64 in
      if err \<noteq> None \<or> s < 0 then None
      else if \<not> dot then Some (s, 0)
      else if frac = [] then None
      else (case ParseInt (take 9 frac @ replicate (9 - length frac) (CHR ''0'')) 10 64 of
              (n, None) \<Rightarrow> Some (s, n) | _ \<Rightarrow> None))"

definition timestampOnlyLine :: "string \<Rightarrow> (int \<times> int) option" where
  "timestampOnlyLine line = (case Fields line of [f] \<Rightarrow> parseUnixTimestamp f | _ \<Rightarrow> None)"

text \<open>No current message is \<open>None\<close> (the type of a message is never empty).\<close>

record ubx_parser =
  up_currentType :: "message_type option"
  up_currentHeader :: string
  up_currentTimestamp :: "(int \<times> int) option"
  up_pendingTimestamp :: "(int \<times> int) option"
  up_lines :: "string list"

definition newParser :: ubx_parser where
  "newParser = \<lparr>up_currentType = None, up_currentHeader = '''', up_currentTimestamp = None,
     up_pendingTimestamp = None, up_lines = []\<rparr>"

definition ubx_finish :: "ubx_parser \<Rightarrow> ubx_parser \<times> ubx_message list" where
  "ubx_finish p =
     (case up_currentType p of
        None \<Rightarrow> (p, [])
      | Some typ \<Rightarrow>
          (p\<lparr>up_currentType := None, up_currentHeader := '''', up_currentTimestamp := None, up_lines := []\<rparr>,
           [\<lparr>um_Type = typ, um_Timestamp = up_currentTimestamp p, um_Payload = decodePayload typ (up_lines p),
             um_Raw = up_currentHeader p # up_lines p\<rparr>]))"

definition messageComplete :: "ubx_parser \<Rightarrow> bool" where
  "messageComplete p =
     (up_currentType p \<in> {Some AckAckType, Some AckNakType} \<and>
      fieldValue (up_lines p) ''clsID'' \<noteq> None \<and> fieldValue (up_lines p) ''msgID'' \<noteq> None)"

definition ubx_feed :: "string \<Rightarrow> ubx_parser \<Rightarrow> ubx_parser \<times> ubx_message list" where
  "ubx_feed line p =
     (case messageTypeFromLine line of
        Some typ \<Rightarrow>
          (let (p1, ms) = ubx_finish p in
           (p1\<lparr>up_currentType := Some typ, up_currentHeader := TrimSpace line,
               up_currentTimestamp := up_pendingTimestamp p1, up_pendingTimestamp := None, up_lines := []\<rparr>, ms))
      | None \<Rightarrow>
          (case timestampOnlyLine line of
             Some ts \<Rightarrow> (let (p1, ms) = ubx_finish p in (p1\<lparr>up_pendingTimestamp := Some ts\<rparr>, ms))
           | None \<Rightarrow>
               if up_currentType p = None then (p, [])
               else (let p1 = p\<lparr>up_lines := up_lines p @ [line]\<rparr> in
                     if messageComplete p1 then ubx_finish p1 else (p1, []))))"

fun feed_all :: "string list \<Rightarrow> ubx_parser \<Rightarrow> ubx_parser \<times> ubx_message list" where
  "feed_all [] p = (p, [])"
| "feed_all (l # ls) p = (let (p1, ms) = ubx_feed l p; (p2, ms2) = feed_all ls p1 in (p2, ms @ ms2))"

definition ParseMessages :: "string list \<Rightarrow> ubx_message list" where
  "ParseMessages ls = (let (p, ms) = feed_all ls newParser in ms @ snd (ubx_finish p))"

section \<open>Every header becomes one message\<close>

lemma decodePayload_type: "payload_type (decodePayload typ ls) = typ"
  by (simp add: decodePayload_def)

definition message_key :: "ubx_message \<Rightarrow> message_type \<times> string" where
  "message_key m = (um_Type m, hd (um_Raw m))"

definition header_key :: "string \<Rightarrow> (message_type \<times> string) option" where
  "header_key l = map_option (\<lambda>t. (t, TrimSpace l)) (messageTypeFromLine l)"

definition open_message :: "ubx_parser \<Rightarrow> (message_type \<times> string) list" where
  "open_message p = (case up_currentType p of None \<Rightarrow> [] | Some t \<Rightarrow> [(t, up_currentHeader p)])"

definition typed_message :: "ubx_message \<Rightarrow> bool" where
  "typed_message m = (payload_type (um_Payload m) = um_Type m)"

lemma finish_keys:
  "ubx_finish p = (p', ms) \<Longrightarrow> map message_key ms = open_message p \<and> open_message p' = [] \<and> list_all typed_message ms"
  by (auto simp: ubx_finish_def open_message_def message_key_def typed_message_def decodePayload_type split: option.splits)

lemma feed_keys:
  assumes "ubx_feed l p = (p', ms)"
  shows "map message_key ms @ open_message p' =
     open_message p @ (case header_key l of None \<Rightarrow> [] | Some k \<Rightarrow> [k]) \<and> list_all typed_message ms"
proof -
  obtain p1 ms1 where f: "ubx_finish p = (p1, ms1)" by fastforce
  obtain p2 ms2 where f2: "ubx_finish (p\<lparr>up_lines := up_lines p @ [l]\<rparr>) = (p2, ms2)" by fastforce
  have o: "open_message (p\<lparr>up_lines := ls\<rparr>) = open_message p" for ls
    by (simp add: open_message_def split: option.splits)
  have o2: "open_message (p1\<lparr>up_pendingTimestamp := ts\<rparr>) = open_message p1" for ts
    by (simp add: open_message_def split: option.splits)
  show ?thesis
    using assms finish_keys[OF f] finish_keys[OF f2]
    by (auto simp: ubx_feed_def f f2 o o2 header_key_def Let_def open_message_def split: option.splits if_splits)
qed

lemma feed_all_keys:
  "feed_all ls p = (p', ms) \<Longrightarrow>
     map message_key ms @ open_message p' = open_message p @ List.map_filter header_key ls \<and> list_all typed_message ms"
proof (induction ls arbitrary: p p' ms)
  case Nil
  then show ?case by (simp add: map_filter_simps)
next
  case (Cons l ls)
  obtain p1 ms1 where a: "ubx_feed l p = (p1, ms1)" by fastforce
  obtain p2 ms2 where b: "feed_all ls p1 = (p2, ms2)" by fastforce
  have "p' = p2" "ms = ms1 @ ms2" using Cons.prems a b by auto
  have "map message_key ms @ open_message p' = (map message_key ms1 @ open_message p1) @ List.map_filter header_key ls"
    using Cons.IH[OF b] \<open>p' = p2\<close> \<open>ms = ms1 @ ms2\<close> by simp
  moreover have "list_all typed_message ms"
    using feed_keys[OF a] Cons.IH[OF b] \<open>ms = ms1 @ ms2\<close> by simp
  ultimately show ?case
    using feed_keys[OF a] by (cases "header_key l") (simp_all add: map_filter_simps)
qed

text \<open>
  C38. the messages parsed from a stream are, in order, one for each header line of the stream: none is
  lost (a message that is interrupted by the next one, by a time stamp or by the end is finished) and none
  is made up, each has the type and the trimmed text of its header, and its payload is of that type.
\<close>

theorem parse_messages_per_header:
  "map message_key (ParseMessages ls) = List.map_filter header_key ls \<and> list_all typed_message (ParseMessages ls)"
proof -
  obtain p ms where a: "feed_all ls newParser = (p, ms)" by fastforce
  obtain p' ms' where b: "ubx_finish p = (p', ms')" by fastforce
  have "open_message newParser = []" by (simp add: open_message_def newParser_def)
  then show ?thesis
    using feed_all_keys[OF a] finish_keys[OF b] by (simp add: ParseMessages_def a b)
qed

end
