(* ===== verification/UbloxBroker.thy ===== *)
theory UbloxBroker
  imports Ublox "HOL-Library.Sublist"
begin

text \<open>
  The message broker of the u-blox receiver (\<open>pkg/ublox/broker.go\<close>): every subscription has a queue of
  32 messages, and a full queue loses its oldest message. \<open>Publish\<close> takes the matching subscriptions
  first and delivers to them one by one, so that subscriptions can be cancelled in between: the
  objects live in a store, the registered ones are a subset of it. The context's cancellation is one
  more call of \<open>unsubscribe\<close>.
\<close>

section \<open>State and operations\<close>

abbreviation subscriptionBufferSize :: nat where "subscriptionBufferSize \<equiv> 32"

record subscription =
  sub_types :: "message_type set"
  sub_ch :: "ubx_message list"
  sub_closed :: bool

record broker =
  bk_nextID :: nat
  bk_store :: "nat \<rightharpoonup> subscription"
  bk_subscriptions :: "nat set"

definition newMessageBroker :: broker where
  "newMessageBroker = \<lparr>bk_nextID = 0, bk_store = Map.empty, bk_subscriptions = {}\<rparr>"

definition ubx_Subscribe :: "message_type list \<Rightarrow> broker \<Rightarrow> nat \<times> broker" where
  "ubx_Subscribe types b =
     (let i = bk_nextID b + 1 in
      (i, b\<lparr>bk_nextID := i,
            bk_store := (bk_store b)(i \<mapsto> \<lparr>sub_types = set types, sub_ch = [], sub_closed = False\<rparr>),
            bk_subscriptions := insert i (bk_subscriptions b)\<rparr>))"

definition update_sub :: "nat \<Rightarrow> (subscription \<Rightarrow> subscription) \<Rightarrow> broker \<Rightarrow> broker" where
  "update_sub i f b = b\<lparr>bk_store := (bk_store b)(i := map_option f (bk_store b i))\<rparr>"

definition ubx_unsubscribe :: "nat \<Rightarrow> broker \<Rightarrow> broker" where
  "ubx_unsubscribe i b =
     update_sub i (\<lambda>s. s\<lparr>sub_closed := True\<rparr>) (b\<lparr>bk_subscriptions := bk_subscriptions b - {i}\<rparr>)"

text \<open>The send, else the receive of the oldest and the send: without another receiver in between.\<close>

definition chan_send :: "ubx_message \<Rightarrow> ubx_message list \<Rightarrow> ubx_message list option" where
  "chan_send m q = (if length q < subscriptionBufferSize then Some (q @ [m]) else None)"

definition deliver_queue :: "ubx_message \<Rightarrow> ubx_message list \<Rightarrow> ubx_message list" where
  "deliver_queue m q =
     (case chan_send m q of Some q' \<Rightarrow> q'
      | None \<Rightarrow> (case chan_send m (tl q) of Some q' \<Rightarrow> q' | None \<Rightarrow> tl q))"

definition ubx_deliver :: "ubx_message \<Rightarrow> subscription \<Rightarrow> subscription" where
  "ubx_deliver m s = (if sub_closed s then s else s\<lparr>sub_ch := deliver_queue m (sub_ch s)\<rparr>)"

definition sub_matches :: "ubx_message \<Rightarrow> subscription \<Rightarrow> bool" where
  "sub_matches m s = (sub_types s = {} \<or> um_Type m \<in> sub_types s)"

text \<open>The matching subscriptions, in the order of the map's iteration.\<close>

definition publish_targets :: "nat list \<Rightarrow> ubx_message \<Rightarrow> broker \<Rightarrow> nat list" where
  "publish_targets ord m b =
     filter (\<lambda>i. case bk_store b i of Some s \<Rightarrow> sub_matches m s | None \<Rightarrow> False) ord"

definition ubx_Publish :: "nat list \<Rightarrow> ubx_message \<Rightarrow> broker \<Rightarrow> broker" where
  "ubx_Publish ord m b = fold (\<lambda>i. update_sub i (ubx_deliver m)) (publish_targets ord m b) b"

text \<open>A receive of the consumer: the oldest message, or nothing.\<close>

definition ubx_receive :: "nat \<Rightarrow> broker \<Rightarrow> ubx_message option \<times> broker" where
  "ubx_receive i b =
     (case bk_store b i of
        Some s \<Rightarrow> (case sub_ch s of [] \<Rightarrow> (None, b) | m # q \<Rightarrow> (Some m, update_sub i (\<lambda>s. s\<lparr>sub_ch := q\<rparr>) b))
      | None \<Rightarrow> (None, b))"

section \<open>One queue\<close>

definition last_n :: "nat \<Rightarrow> 'a list \<Rightarrow> 'a list" where
  "last_n n xs = drop (length xs - n) xs"

lemma last_n_short [simp]: "length xs \<le> n \<Longrightarrow> last_n n xs = xs"
  by (simp add: last_n_def)

lemma length_last_n: "length (last_n n xs) = min n (length xs)"
  by (simp add: last_n_def)

lemma last_n_append: "last_n n (last_n n xs @ ys) = last_n n (xs @ ys)"
  by (cases "length xs \<le> n") (simp_all add: last_n_def add.commute)

lemma deliver_queue_eq: "length q \<le> subscriptionBufferSize \<Longrightarrow> deliver_queue m q = last_n subscriptionBufferSize (q @ [m])"
  by (cases q) (auto simp: deliver_queue_def chan_send_def last_n_def)

lemma deliver_queue_bound: "length q \<le> subscriptionBufferSize \<Longrightarrow> length (deliver_queue m q) \<le> subscriptionBufferSize"
  by (simp add: deliver_queue_eq length_last_n)

lemma deliver_queue_subseq:
  "length q \<le> subscriptionBufferSize \<Longrightarrow> subseq (r @ q) h \<Longrightarrow> subseq (r @ deliver_queue m q) (h @ [m])"
proof -
  assume q: "length q \<le> subscriptionBufferSize" and s: "subseq (r @ q) h"
  have "subseq (last_n subscriptionBufferSize (q @ [m])) (q @ [m])"
    unfolding last_n_def by (rule suffix_imp_subseq[OF suffix_drop])
  then have "subseq (r @ deliver_queue m q) (r @ (q @ [m]))"
    by (simp only: deliver_queue_eq[OF q] subseq_append')
  also have "subseq (r @ (q @ [m])) (h @ [m])"
    using list_emb_append_mono[OF s subseq_order.refl[of "[m]"]] by simp
  finally show ?thesis .
qed

section \<open>Publishing\<close>

lemma update_sub_simps [simp]:
  "bk_nextID (update_sub i f b) = bk_nextID b"
  "bk_subscriptions (update_sub i f b) = bk_subscriptions b"
  "bk_store (update_sub i f b) j = (if j = i then map_option f (bk_store b i) else bk_store b j)"
  by (simp_all add: update_sub_def)

lemma fold_update_sub:
  "distinct is \<Longrightarrow> fold (\<lambda>i. update_sub i f) is b =
     b\<lparr>bk_store := (\<lambda>i. if i \<in> set is then map_option f (bk_store b i) else bk_store b i)\<rparr>"
proof (induction "is" arbitrary: b)
  case Nil
  then show ?case by simp
next
  case (Cons i "is")
  have step: "fold (\<lambda>i. update_sub i f) is (update_sub i f b) =
     (update_sub i f b)\<lparr>bk_store := (\<lambda>j. if j \<in> set is then map_option f (bk_store (update_sub i f b) j) else bk_store (update_sub i f b) j)\<rparr>"
    using Cons.prems by (intro Cons.IH) simp
  show ?case using Cons.prems
    by (simp add: step) (auto simp: update_sub_def fun_eq_iff intro!: broker.equality)
qed

text \<open>What a publication does to the subscription \<open>i\<close>, whatever the order of the iteration.\<close>

lemma Publish_store:
  assumes "distinct ord" "set ord = bk_subscriptions b"
  shows "bk_store (ubx_Publish ord m b) i =
     (case bk_store b i of
        Some s \<Rightarrow> Some (if i \<in> bk_subscriptions b \<and> sub_matches m s then ubx_deliver m s else s)
      | None \<Rightarrow> None)"
  using assms by (auto simp: ubx_Publish_def publish_targets_def fold_update_sub split: option.splits)

lemma Publish_rest [simp]:
  "bk_nextID (ubx_Publish ord m b) = bk_nextID b"
  "bk_subscriptions (ubx_Publish ord m b) = bk_subscriptions b"
proof -
  have "bk_nextID (fold (\<lambda>i. update_sub i f) is b) = bk_nextID b \<and>
        bk_subscriptions (fold (\<lambda>i. update_sub i f) is b) = bk_subscriptions b" for f "is"
    by (induction "is" arbitrary: b) auto
  then show "bk_nextID (ubx_Publish ord m b) = bk_nextID b"
    "bk_subscriptions (ubx_Publish ord m b) = bk_subscriptions b"
    by (simp_all add: ubx_Publish_def)
qed
lemma publish_queue:
  assumes "distinct ord" "set ord = bk_subscriptions b" "i \<in> bk_subscriptions b" "bk_store b i = Some s"
    "\<not> sub_closed s" "length (sub_ch s) \<le> subscriptionBufferSize"
  shows "bk_store (fold (ubx_Publish ord) ms b) i =
     Some (s\<lparr>sub_ch := last_n subscriptionBufferSize (sub_ch s @ filter (\<lambda>m. sub_matches m s) ms)\<rparr>)"
  using assms
proof (induction ms arbitrary: b s)
  case Nil
  then show ?case by simp
next
  case (Cons m ms)
  define s1 where "s1 = (if sub_matches m s then s\<lparr>sub_ch := last_n subscriptionBufferSize (sub_ch s @ [m])\<rparr> else s)"
  have s1: "bk_store (ubx_Publish ord m b) i = Some s1"
    using Cons.prems by (simp add: Publish_store s1_def ubx_deliver_def deliver_queue_eq)
  have same: "sub_matches x s1 = sub_matches x s" for x by (simp add: s1_def sub_matches_def)
  have "bk_store (fold (ubx_Publish ord) ms (ubx_Publish ord m b)) i =
     Some (s1\<lparr>sub_ch := last_n subscriptionBufferSize (sub_ch s1 @ filter (\<lambda>m. sub_matches m s1) ms)\<rparr>)"
    using Cons.prems by (intro Cons.IH s1) (simp_all add: s1_def length_last_n)
  then show ?case
    using Cons.prems by (cases "sub_matches m s") (simp_all add: same, simp_all add: s1_def last_n_append)
qed

section \<open>Interleavings\<close>

text \<open>
  The reader publishes one message at a time; while its deliveries are pending, consumers subscribe,
  cancel and receive. Each subscription's history is kept: the messages published since it exists
  and the ones it received.
\<close>

record broker_run =
  br_broker :: broker
  br_pending :: "(nat \<times> ubx_message) list"
  br_published :: "nat \<Rightarrow> ubx_message list"
  br_received :: "nat \<Rightarrow> ubx_message list"

definition broker_start :: broker_run where
  "broker_start = \<lparr>br_broker = newMessageBroker, br_pending = [], br_published = (\<lambda>_. []), br_received = (\<lambda>_. [])\<rparr>"

inductive broker_step :: "broker_run \<Rightarrow> broker_run \<Rightarrow> bool" where
  subscribe: "broker_step r (r\<lparr>br_broker := snd (ubx_Subscribe types (br_broker r))\<rparr>)"
| cancel: "broker_step r (r\<lparr>br_broker := ubx_unsubscribe i (br_broker r)\<rparr>)"
| publish: "br_pending r = [] \<Longrightarrow> distinct ord \<Longrightarrow> set ord = bk_subscriptions (br_broker r) \<Longrightarrow>
    broker_step r (r\<lparr>br_pending := map (\<lambda>i. (i, m)) (publish_targets ord m (br_broker r)),
      br_published := (\<lambda>i. if i \<in> dom (bk_store (br_broker r)) then br_published r i @ [m] else br_published r i)\<rparr>)"
| deliver: "br_pending r = (i, m) # ps \<Longrightarrow>
    broker_step r (r\<lparr>br_broker := update_sub i (ubx_deliver m) (br_broker r), br_pending := ps\<rparr>)"
| receive: "ubx_receive i (br_broker r) = (Some m, b) \<Longrightarrow>
    broker_step r (r\<lparr>br_broker := b, br_received := (br_received r)(i := br_received r i @ [m])\<rparr>)"

text \<open>
  What a subscription got is in order a selection of the matching messages published; a message
  still to be delivered is the last of its history.
\<close>

definition sub_ok :: "broker_run \<Rightarrow> nat \<Rightarrow> subscription \<Rightarrow> bool" where
  "sub_ok r i s \<longleftrightarrow>
     length (sub_ch s) \<le> subscriptionBufferSize \<and>
     (\<exists>h. br_published r i = h @ map snd (filter (\<lambda>(j, m). j = i) (br_pending r)) \<and>
          subseq (br_received r i @ sub_ch s) (filter (\<lambda>m. sub_matches m s) h))"

definition broker_inv :: "broker_run \<Rightarrow> bool" where
  "broker_inv r \<longleftrightarrow>
     bk_subscriptions (br_broker r) = {i. \<exists>s. bk_store (br_broker r) i = Some s \<and> \<not> sub_closed s} \<and>
     (\<forall>i. bk_store (br_broker r) i = None \<longrightarrow> br_published r i = [] \<and> br_received r i = []) \<and>
     (\<forall>i > bk_nextID (br_broker r). bk_store (br_broker r) i = None) \<and>
     distinct (map fst (br_pending r)) \<and>
     (\<forall>i m. (i, m) \<in> set (br_pending r) \<longrightarrow> bk_store (br_broker r) i \<noteq> None) \<and>
     (\<forall>i m s. (i, m) \<in> set (br_pending r) \<longrightarrow> bk_store (br_broker r) i = Some s \<longrightarrow> sub_matches m s) \<and>
     (\<forall>i s. bk_store (br_broker r) i = Some s \<longrightarrow> sub_ok r i s)"

lemma broker_inv_start: "broker_inv broker_start"
  by (simp add: broker_inv_def broker_start_def newMessageBroker_def)

lemma filter_one: "distinct xs \<Longrightarrow> filter (\<lambda>j. j = i) xs = (if i \<in> set xs then [i] else [])"
  by (induction xs) (auto simp: filter_empty_conv)

lemma subseq_snoc: "subseq xs ys \<Longrightarrow> subseq xs (ys @ zs)"
  by (metis append_Nil2 list_emb_Nil list_emb_append_mono)

lemma inv_subscribe:
  assumes "broker_inv r"
  shows "broker_inv (r\<lparr>br_broker := snd (ubx_Subscribe types (br_broker r))\<rparr>)"
proof -
  define i where "i = bk_nextID (br_broker r) + 1"
  have new: "bk_store (br_broker r) i = None" "br_published r i = []" "br_received r i = []"
    using assms by (auto simp: broker_inv_def i_def)
  have "(j, m) \<in> set (br_pending r) \<Longrightarrow> j \<noteq> i" for j m
    using assms new(1) by (force simp: broker_inv_def)
  then have "filter (\<lambda>(j, m). j = i) (br_pending r) = []" by (auto simp: filter_empty_conv)
  then have "sub_ok (r\<lparr>br_broker := b\<rparr>) i \<lparr>sub_types = set types, sub_ch = [], sub_closed = False\<rparr>" for b
    using new by (simp add: sub_ok_def)
  moreover have "sub_ok (r\<lparr>br_broker := b\<rparr>) j s = sub_ok r j s" for b j s
    by (simp add: sub_ok_def)
  moreover have "(i, m) \<notin> set (br_pending r)" for m
    using assms new(1) by (force simp: broker_inv_def)
  ultimately show ?thesis
    using assms new unfolding broker_inv_def ubx_Subscribe_def Let_def i_def[symmetric]
    by (auto simp: i_def)
qed

lemma inv_cancel:
  assumes "broker_inv r"
  shows "broker_inv (r\<lparr>br_broker := ubx_unsubscribe i (br_broker r)\<rparr>)"
proof -
  have "sub_ok (r\<lparr>br_broker := b\<rparr>) j (s\<lparr>sub_closed := c\<rparr>) = sub_ok r j s" for b j s c
    by (simp add: sub_ok_def sub_matches_def)
  moreover have "sub_ok (r\<lparr>br_broker := b\<rparr>) j s = sub_ok r j s" for b j s
    by (simp add: sub_ok_def)
  moreover have "sub_matches m (s\<lparr>sub_closed := c\<rparr>) = sub_matches m s" for m s c
    by (simp add: sub_matches_def)
  ultimately show ?thesis
    using assms unfolding broker_inv_def ubx_unsubscribe_def by (auto split: if_splits)
qed

lemma inv_receive:
  assumes "broker_inv r" "ubx_receive i (br_broker r) = (Some m, b)"
  shows "broker_inv (r\<lparr>br_broker := b, br_received := (br_received r)(i := br_received r i @ [m])\<rparr>)"
proof -
  obtain s q where s: "bk_store (br_broker r) i = Some s" "sub_ch s = m # q"
    and b: "b = update_sub i (\<lambda>s. s\<lparr>sub_ch := q\<rparr>) (br_broker r)"
    using assms(2) by (auto simp: ubx_receive_def split: option.splits list.splits)
  let ?r = "r\<lparr>br_broker := b, br_received := (br_received r)(i := br_received r i @ [m])\<rparr>"
  have "sub_ok r i s" using assms(1) s by (simp add: broker_inv_def)
  then have "sub_ok ?r i (s\<lparr>sub_ch := q\<rparr>)" using s by (auto simp: sub_ok_def sub_matches_def)
  moreover have "sub_ok ?r j t = sub_ok r j t" if "j \<noteq> i" for j t
    using that by (simp add: sub_ok_def)
  moreover have "sub_matches m (s\<lparr>sub_ch := c\<rparr>) = sub_matches m s" for m s c
    by (simp add: sub_matches_def)
  ultimately show ?thesis
    using assms(1) s unfolding b broker_inv_def by (auto split: if_splits)
qed

lemma inv_publish:
  assumes "broker_inv r" "br_pending r = []" "distinct ord" "set ord = bk_subscriptions (br_broker r)"
  shows "broker_inv (r\<lparr>br_pending := map (\<lambda>i. (i, m)) (publish_targets ord m (br_broker r)),
      br_published := (\<lambda>i. if i \<in> dom (bk_store (br_broker r)) then br_published r i @ [m] else br_published r i)\<rparr>)"
    (is "broker_inv ?r")
proof -
  let ?ts = "publish_targets ord m (br_broker r)"
  have ts: "distinct ?ts" "i \<in> set ?ts \<Longrightarrow> bk_store (br_broker r) i \<noteq> None"
    "i \<in> set ?ts \<Longrightarrow> bk_store (br_broker r) i = Some s \<Longrightarrow> sub_matches m s" for i s
    using assms(3) by (auto simp: publish_targets_def split: option.splits)
  have "sub_ok ?r i s" if s: "bk_store (br_broker r) i = Some s" for i s
  proof -
    have ok: "length (sub_ch s) \<le> subscriptionBufferSize"
      "subseq (br_received r i @ sub_ch s) (filter (\<lambda>m. sub_matches m s) (br_published r i))"
      using assms(1,2) s by (auto simp: broker_inv_def sub_ok_def)
    have "filter (\<lambda>j. j = i) ?ts = (if i \<in> set ?ts then [i] else [])"
      by (rule filter_one[OF ts(1)])
    then have p: "map snd (filter (\<lambda>(j, m). j = i) (br_pending ?r)) = (if i \<in> set ?ts then [m] else [])"
      by (simp add: filter_map comp_def)
    show ?thesis
    proof (cases "i \<in> set ?ts")
      case True
      then show ?thesis using ok s p by (auto simp: sub_ok_def)
    next
      case False
      have "subseq (br_received r i @ sub_ch s) (filter (\<lambda>m. sub_matches m s) (br_published r i @ [m]))"
        using subseq_snoc[OF ok(2)] by simp
      then show ?thesis using False ok s p by (auto simp: sub_ok_def)
    qed
  qed
  then show ?thesis
    using assms ts by (auto simp: broker_inv_def comp_def)
qed

lemma inv_deliver:
  assumes "broker_inv r" "br_pending r = (i, m) # ps"
  shows "broker_inv (r\<lparr>br_broker := update_sub i (ubx_deliver m) (br_broker r), br_pending := ps\<rparr>)"
    (is "broker_inv ?r")
proof -
  obtain s where s: "bk_store (br_broker r) i = Some s" "sub_matches m s" "sub_ok r i s"
  proof -
    have "(i, m) \<in> set (br_pending r)" using assms(2) by simp
    then have "bk_store (br_broker r) i \<noteq> None"
      "\<And>s. bk_store (br_broker r) i = Some s \<Longrightarrow> sub_matches m s"
      using assms(1) unfolding broker_inv_def by blast+
    then show ?thesis using assms(1) that by (auto simp: broker_inv_def)
  qed
  have d: "i \<notin> fst ` set ps" "distinct (map fst ps)" using assms by (auto simp: broker_inv_def)
  then have none: "filter (\<lambda>(j, m). j = i) ps = []" by (force simp: filter_empty_conv)
  obtain h where h: "br_published r i = h @ [m]" "length (sub_ch s) \<le> subscriptionBufferSize"
    "subseq (br_received r i @ sub_ch s) (filter (\<lambda>m. sub_matches m s) h)"
    using s(3) none assms(2) by (auto simp: sub_ok_def)
  have "sub_ok ?r i (ubx_deliver m s)"
  proof (cases "sub_closed s")
    case True
    have "subseq (br_received r i @ sub_ch s) (filter (\<lambda>m. sub_matches m s) (h @ [m]))"
      using subseq_snoc[OF h(3)] by simp
    then show ?thesis using True h none by (auto simp: sub_ok_def ubx_deliver_def)
  next
    case False
    have "subseq (br_received r i @ deliver_queue m (sub_ch s)) (filter (\<lambda>m. sub_matches m s) h @ [m])"
      by (rule deliver_queue_subseq[OF h(2,3)])
    then show ?thesis using False h none s(2) deliver_queue_bound[OF h(2)]
      by (auto simp: sub_ok_def ubx_deliver_def sub_matches_def)
  qed
  moreover have "sub_ok ?r j t = sub_ok r j t" if "j \<noteq> i" for j t
    using that assms(2) by (simp add: sub_ok_def)
  moreover have "sub_closed (ubx_deliver m s) = sub_closed s" "sub_matches x (ubx_deliver m s) = sub_matches x s" for x
    by (simp_all add: ubx_deliver_def sub_matches_def)
  ultimately show ?thesis
    using assms s d unfolding broker_inv_def by (auto split: if_splits)
qed

lemma broker_inv_step: "broker_step r r' \<Longrightarrow> broker_inv r \<Longrightarrow> broker_inv r'"
  by (induction rule: broker_step.induct)
     (simp_all add: inv_subscribe inv_cancel inv_publish inv_deliver inv_receive)

lemma broker_inv_reach: "broker_step\<^sup>*\<^sup>* r r' \<Longrightarrow> broker_inv r \<Longrightarrow> broker_inv r'"
  by (induction rule: rtranclp_induct) (auto intro: broker_inv_step)

section \<open>Properties\<close>

text \<open>
  C27. whatever the consumers do while messages are published one by one, a subscription's queue never
  holds more than 32 messages, and what the consumer received and will receive is, in order and without
  repetition, a selection of the messages of its types published since it subscribed.
\<close>

theorem broker_delivers_in_order:
  assumes "broker_step\<^sup>*\<^sup>* broker_start r" "bk_store (br_broker r) i = Some s"
  shows "length (sub_ch s) \<le> subscriptionBufferSize \<and>
     subseq (br_received r i @ sub_ch s) (filter (\<lambda>m. sub_matches m s) (br_published r i))"
proof -
  have "sub_ok r i s"
    using broker_inv_reach[OF assms(1) broker_inv_start] assms(2) by (simp add: broker_inv_def)
  then obtain h where h: "br_published r i = h @ map snd (filter (\<lambda>(j, m). j = i) (br_pending r))"
    "length (sub_ch s) \<le> subscriptionBufferSize"
    "subseq (br_received r i @ sub_ch s) (filter (\<lambda>m. sub_matches m s) h)"
    unfolding sub_ok_def by blast
  then show ?thesis using subseq_snoc[OF h(3)] by simp
qed

definition raw_message :: "string \<Rightarrow> ubx_message" where
  "raw_message t = \<lparr>um_Type = t, um_Timestamp = None, um_Payload = RawMessage t [], um_Raw = [t]\<rparr>"

definition broker_example :: broker_run where
  "broker_example =
     broker_start\<lparr>br_broker := snd (ubx_Subscribe [''UBX-MON-HW''] newMessageBroker),
       br_pending := [(1, raw_message ''UBX-MON-HW'')],
       br_published := (\<lambda>i. if i = 1 then [raw_message ''UBX-MON-HW''] else [])\<rparr>"

lemma broker_example_reached:
  "broker_step\<^sup>*\<^sup>* broker_start
     (broker_example\<lparr>br_broker := update_sub 1 (ubx_deliver (raw_message ''UBX-MON-HW'')) (br_broker broker_example), br_pending := []\<rparr>)"
proof -
  let ?b = "snd (ubx_Subscribe [''UBX-MON-HW''] newMessageBroker)"
  let ?r = "broker_start\<lparr>br_broker := ?b\<rparr>"
  have "broker_step broker_start ?r"
    using broker_step.subscribe[of broker_start "[''UBX-MON-HW'']"] by (simp add: broker_start_def)
  moreover have "broker_step ?r broker_example"
  proof -
    have s: "bk_store ?b 1 = Some \<lparr>sub_types = {''UBX-MON-HW''}, sub_ch = [], sub_closed = False\<rparr>"
      "bk_subscriptions ?b = {1}" "dom (bk_store ?b) = {1}"
      by (simp_all add: ubx_Subscribe_def newMessageBroker_def)
    have t: "publish_targets [1] (raw_message ''UBX-MON-HW'') ?b = [1]"
      by (simp add: publish_targets_def s(1) del: One_nat_def) (simp add: sub_matches_def raw_message_def)
    have "broker_step ?r (?r\<lparr>br_pending := map (\<lambda>i. (i, raw_message ''UBX-MON-HW'')) (publish_targets [1] (raw_message ''UBX-MON-HW'') (br_broker ?r)),
      br_published := (\<lambda>i. if i \<in> dom (bk_store (br_broker ?r)) then br_published ?r i @ [raw_message ''UBX-MON-HW''] else br_published ?r i)\<rparr>)"
      by (rule broker_step.publish) (use s in \<open>simp_all add: broker_start_def\<close>)
    then show ?thesis
      by (simp add: s(3) t t[unfolded One_nat_def] broker_example_def) (simp add: broker_start_def t[unfolded One_nat_def] cong: if_cong)
  qed
  moreover have "broker_step broker_example (broker_example\<lparr>br_broker := update_sub 1 (ubx_deliver (raw_message ''UBX-MON-HW'')) (br_broker broker_example), br_pending := []\<rparr>)"
    by (rule broker_step.deliver) (simp add: broker_example_def)
  ultimately show ?thesis by (meson converse_rtranclp_into_rtranclp rtranclp.rtrancl_refl)
qed

theorem broker_delivers_in_order_witness:
  "subseq [raw_message ''UBX-MON-HW''] [raw_message ''UBX-MON-HW'']"
  using broker_delivers_in_order[OF broker_example_reached, of 1
    "\<lparr>sub_types = {''UBX-MON-HW''}, sub_ch = [raw_message ''UBX-MON-HW''], sub_closed = False\<rparr>"]
  by (simp add: broker_example_def ubx_Subscribe_def newMessageBroker_def ubx_deliver_def deliver_queue_def
      chan_send_def broker_start_def sub_matches_def raw_message_def)

text \<open>
  to a consumer that does not read, publishing any messages leaves the newest 32 of what its queue
  held and the messages of its types, whatever the order in which the map is iterated.
\<close>

lemma broker_keeps_newest:
  assumes "distinct ord" "set ord = bk_subscriptions b" "i \<in> bk_subscriptions b" "bk_store b i = Some s"
    "\<not> sub_closed s" "length (sub_ch s) \<le> subscriptionBufferSize"
  shows "bk_store (fold (ubx_Publish ord) ms b) i =
     Some (s\<lparr>sub_ch := last_n subscriptionBufferSize (sub_ch s @ filter (\<lambda>m. sub_matches m s) ms)\<rparr>)"
  by (rule publish_queue[OF assms])

end
