(* ===== verification/UbloxCmd.thy ===== *)
theory UbloxCmd
  imports UbloxBroker
begin

text \<open>
  Commands to the u-blox receiver (\<open>pkg/ublox\<close>: \<open>command.go\<close>, \<open>init_config.go\<close> and the initialisation and
  poll process of \<open>ublox.go\<close>). ubxtool itself is outside: the results of its runs and what the
  receiver broadcasts are arguments. What one \<open>select\<close> loop sees is a list of events.
\<close>

section \<open>Initialisation commands\<close>

record ubx_command =
  uc_ReportOutput :: bool
  uc_Args :: "string list"

abbreviation quiet_command :: "string list \<Rightarrow> ubx_command" where
  "quiet_command args \<equiv> \<lparr>uc_ReportOutput = False, uc_Args = args\<rparr>"

abbreviation reported_command :: "string list \<Rightarrow> ubx_command" where
  "reported_command args \<equiv> \<lparr>uc_ReportOutput = True, uc_Args = args\<rparr>"

abbreviation QueryTimeout :: string where "QueryTimeout \<equiv> ''0.5''"
abbreviation DefaultWait :: string where "DefaultWait \<equiv> ''0.1''"
abbreviation pollTimeout :: string where "pollTimeout \<equiv> ''1000000000''"
abbreviation timeLSRateSeconds :: int where "timeLSRateSeconds \<equiv> 60"

definition disableBinary :: ubx_command where "disableBinary = quiet_command [''-d'', ''BINARY'']"
definition enableNMEA :: ubx_command where "enableNMEA = quiet_command [''-e'', ''NMEA'']"
definition monHW :: ubx_command where "monHW = reported_command [''-w'', QueryTimeout, ''-p'', ''MON-HW'']"
definition SaveCommand :: ubx_command where "SaveCommand = quiet_command [''-p'', ''SAVE'']"

definition navEnableMsg :: "string list" where "navEnableMsg = [''CLOCK'', ''STATUS'']"
definition navSlowEnableMsg :: "string list" where "navSlowEnableMsg = [''TIMELS'']"
definition nmeaDisableMsg :: "string list" where
  "nmeaDisableMsg = [''VTG'', ''GST'', ''ZDA'', ''GBS'', ''GSA'', ''GSV'']"
definition ublxBusTypes :: "string list" where
  "ublxBusTypes = [''I2C'', ''UART1'', ''UART2'', ''USB'', ''SPI'']"

definition batchMsgoutAllBusses :: "string \<Rightarrow> string list \<Rightarrow> int \<Rightarrow> ubx_command" where
  "batchMsgoutAllBusses pre msgs val =
     quiet_command (concat (map (\<lambda>msg. concat (map (\<lambda>bus.
       [''-z'', ''CFG-MSGOUT-'' @ pre @ ''_'' @ msg @ ''_'' @ bus @ '','' @ show_int val]) ublxBusTypes)) msgs))"

definition batchDisableNmeaMsgs :: "string list \<Rightarrow> ubx_command" where
  "batchDisableNmeaMsgs msgs = batchMsgoutAllBusses ''NMEA_ID'' msgs 0"

definition batchEnableNavMsgsAtRate :: "string list \<Rightarrow> int \<Rightarrow> ubx_command" where
  "batchEnableNavMsgsAtRate msgs rate = batchMsgoutAllBusses ''UBX_NAV'' msgs rate"

definition batchEnableNavMsgs :: "string list \<Rightarrow> ubx_command" where
  "batchEnableNavMsgs msgs = batchMsgoutAllBusses ''UBX_NAV'' msgs 1"

definition defaultUblxCmds :: "ubx_command list" where
  "defaultUblxCmds =
     [disableBinary, batchEnableNavMsgs navEnableMsg, batchEnableNavMsgsAtRate navSlowEnableMsg timeLSRateSeconds,
      enableNMEA, batchDisableNmeaMsgs nmeaDisableMsg]"

abbreviation ProtoVersion29dot25 :: string where "ProtoVersion29dot25 \<equiv> ''29.25''"
abbreviation ProtoVersion29dot20 :: string where "ProtoVersion29dot20 \<equiv> ''29.20''"

record survey_config =
  sc_ObservationTime :: int
  sc_AccuracyMeters :: int

record init_config =
  ic_AntennaVoltage :: bool
  ic_Constellations :: "string list"
  ic_SurveyIn :: "survey_config option"
  ic_ExtraCommands :: "ubx_command list"

definition defaultConstellations :: "string list" where
  "defaultConstellations = [''GPS'', ''QZSS'', ''GAL'']"

definition allowedConstellations :: "string \<Rightarrow> string list option" where
  "allowedConstellations v =
     (if v = ProtoVersion29dot20 then Some [''GPS'', ''QZSS'', ''GAL'', ''GLO'', ''BDS'', ''SBAS'', ''NAVIC'']
      else if v = ProtoVersion29dot25 then Some [''GPS'', ''QZSS'', ''GAL'', ''BDS'', ''SBAS'', ''NAVIC'']
      else None)"

definition enableConstellation :: "string \<Rightarrow> bool \<Rightarrow> string" where
  "enableConstellation c enable = ''CFG-SIGNAL-'' @ c @ ''_ENA,'' @ (if enable then ''1'' else ''0'')"

definition buildConstellationCommand :: "init_config \<Rightarrow> string \<Rightarrow> ubx_command" where
  "buildConstellationCommand config v =
     (case allowedConstellations v of
        None \<Rightarrow> quiet_command []
      | Some all \<Rightarrow>
          (let enable0 = filter (\<lambda>c. c \<in> set (ic_Constellations config)) all in
           if enable0 = [] \<and> ic_Constellations config \<noteq> [] then quiet_command []
           else (let enable = (if enable0 = [] then defaultConstellations else enable0);
                     disable = filter (\<lambda>c. c \<notin> set enable) all in
                 quiet_command (concat (map (\<lambda>c. [''-z'', enableConstellation c True]) enable) @
                                concat (map (\<lambda>c. [''-z'', enableConstellation c False]) disable)))))"

text \<open>The accuracy in tenths of a millimetre wraps as Go's \<open>int\<close> does.\<close>

definition BuildInitCommands :: "string \<Rightarrow> init_config option \<Rightarrow> ubx_command list" where
  "BuildInitCommands v config =
     (case config of
        None \<Rightarrow> []
      | Some c \<Rightarrow>
          quiet_command [''-z'', ''CFG-HW-ANT_CFG_VOLTCTRL,'' @ (if ic_AntennaVoltage c then ''1'' else ''0'')] #
          (let cmd = buildConstellationCommand c v in if uc_Args cmd \<noteq> [] then [cmd] else []) @
          (case ic_SurveyIn c of
             Some s \<Rightarrow>
               if 0 < sc_ObservationTime s
               then [quiet_command
                       [''-z'', ''CFG-TMODE-SVIN_MIN_DUR,'' @ show_int (sc_ObservationTime s),
                        ''-z'', ''CFG-TMODE-SVIN_ACC_LIMIT,'' @ show_int (sint (of_int (sc_AccuracyMeters s * 10000) :: u64)),
                        ''-z'', ''CFG-TMODE-MODE,1''],
                     reported_command [''-p'', ''TIM-SVIN'']]
               else []
           | None \<Rightarrow> []) @
          ic_ExtraCommands c)"

section \<open>Acknowledgements\<close>

definition ackResponseCount :: "string \<Rightarrow> int option" where
  "ackResponseCount = [''GPS'' \<mapsto> 2, ''GALILEO'' \<mapsto> 1, ''GLONASS'' \<mapsto> 1, ''BEIDOU'' \<mapsto> 1, ''SBAS'' \<mapsto> 1]"

abbreviation indeterminateAckCount :: int where "indeterminateAckCount \<equiv> -1"

record ack_group =
  ag_log :: string
  ag_expected :: int

definition isPollCommand :: "string list \<Rightarrow> bool" where
  "isPollCommand args = (''-p'' \<in> set args)"

fun isSaveCommand :: "string list \<Rightarrow> bool" where
  "isSaveCommand (a # b # args) = (a = ''-p'' \<and> b = ''SAVE'' \<or> isSaveCommand (b # args))"
| "isSaveCommand _ = False"

text \<open>The response type of the first \<open>-p\<close> that has an argument.\<close>

fun pollResponseType :: "string list \<Rightarrow> message_type option" where
  "pollResponseType (a # b # args) =
     (if a = ''-p'' then Some (if has_prefix b ''UBX-'' then b else ''UBX-'' @ b)
      else pollResponseType (b # args))"
| "pollResponseType _ = None"

text \<open>A contiguous sequence of \<open>-z\<close> arguments and what follows it.\<close>

fun z_run :: "string list \<Rightarrow> string list \<times> string list" where
  "z_run [] = ([], [])"
| "z_run [a] = (if a = ''-z'' then ([a], []) else ([], [a]))"
| "z_run (a # b # args) =
     (if a = ''-z'' then (let (r, rest) = z_run args in (a # b # r, rest)) else ([], a # b # args))"

lemma z_run_append: "z_run args = (r, rest) \<Longrightarrow> args = r @ rest"
  by (induction args arbitrary: r rule: z_run.induct) (auto split: if_splits prod.splits)

lemma z_run_length: "length (snd (z_run args)) \<le> length args"
  by (metis z_run_append le_add2 length_append prod.collapse)

definition flag_count :: "string list \<Rightarrow> int" where
  "flag_count names =
     (case names of [n] \<Rightarrow> (case ackResponseCount n of Some k \<Rightarrow> k | None \<Rightarrow> indeterminateAckCount)
      | _ \<Rightarrow> indeterminateAckCount)"

lemma z_run_progress: "z_run (''-z'' # args) = (r, rest) \<Longrightarrow> length rest \<le> length args"
proof (cases args)
  case (Cons b bs)
  assume "z_run (''-z'' # args) = (r, rest)"
  then have "rest = snd (z_run bs)" using Cons by (auto split: prod.splits)
  then show ?thesis using Cons z_run_length[of bs] by simp
qed simp

function ack_groups :: "string list \<Rightarrow> ack_group list" where
  "ack_groups [] = []"
| "ack_groups (a # args) =
     (if a = ''-z'' then
        (case z_run (a # args) of (r, rest) \<Rightarrow> \<lparr>ag_log = join '' '' r, ag_expected = 1\<rparr> # ack_groups rest)
      else if a = ''-e'' \<or> a = ''-d'' then
        \<lparr>ag_log = join '' '' (a # take 1 args), ag_expected = flag_count (take 1 args)\<rparr> # ack_groups (drop 1 args)
      else ack_groups args)"
  by pat_completeness auto
termination
  by (relation "measure length") (auto dest: z_run_progress[OF sym])

definition ackCommandGroups :: "string list \<Rightarrow> ack_group list" where
  "ackCommandGroups args =
     (let cs = ack_groups args in
      if cs = [] \<and> isSaveCommand args then [\<lparr>ag_log = ''-p SAVE'', ag_expected = 1\<rparr>] else cs)"

definition isAckCommand :: "string list \<Rightarrow> bool" where
  "isAckCommand args = (ackCommandGroups args \<noteq> [])"

section \<open>Errors\<close>

datatype ubx_error =
    CommandNAK nat
  | IndeterminateBatch string
  | AckClosed
  | AckTimeout nat
  | AckMissing int int string
  | CommandFailed string
  | PollNoReceiver
  | PollClosed message_type
  | PollFailed string
  | PollTimedOut message_type
  | PollNoType
  | IssueFailed string
  | DirectFailed "string list" string string
  | NoProtoVersion string

text \<open>\<open>%q\<close>: bytes above 127 stand as they are (printable text in UTF-8).\<close>

definition quote_char :: "char \<Rightarrow> string" where
  "quote_char c =
     (if c = CHR 0x22 then [CHR 0x5C, CHR 0x22] else if c = CHR 0x5C then [CHR 0x5C, CHR 0x5C]
      else if c = CHR 0x07 then [CHR 0x5C, CHR ''a''] else if c = CHR 0x08 then [CHR 0x5C, CHR ''b'']
      else if c = CHR 0x0C then [CHR 0x5C, CHR ''f''] else if c = CHR 0x0A then [CHR 0x5C, CHR ''n'']
      else if c = CHR 0x0D then [CHR 0x5C, CHR ''r''] else if c = CHR 0x09 then [CHR 0x5C, CHR ''t'']
      else if c = CHR 0x0B then [CHR 0x5C, CHR ''v'']
      else if of_char c < (32 :: nat) \<or> of_char c = (127 :: nat)
        then [CHR 0x5C, CHR ''x''] @ (if of_char c < (16 :: nat) then ''0'' else []) @ show_hex (of_char c)
      else [c])"

definition go_quote :: "string \<Rightarrow> string" where
  "go_quote s = CHR 0x22 # concat (map quote_char s) @ [CHR 0x22]"

definition regexProtoVersion_text :: string where
  "regexProtoVersion_text = ''PROTVER=('' @ [CHR 0x5C] @ ''d+'' @ [CHR 0x5C] @ ''.'' @ [CHR 0x5C] @ ''d+)''"

fun ubx_error_text :: "ubx_error \<Rightarrow> string" where
  "ubx_error_text (CommandNAK n) = ''ubxtool command received '' @ show_nat n @ '' ACK-NAK responses''"
| "ubx_error_text (IndeterminateBatch s) =
     ''cannot combine indeterminate ACK operation '' @ go_quote s @ '' with other operations''"
| "ubx_error_text AckClosed = ''ublox ACK subscription closed before receiving a response''"
| "ubx_error_text (AckTimeout n) = ''timed out waiting for ubxtool ACK responses: received '' @ show_nat n"
| "ubx_error_text (AckMissing got want s) =
     ''received '' @ show_int got @ '' of '' @ show_int want @ '' expected ACK/NAK responses for '' @ s"
| "ubx_error_text (CommandFailed e) = ''ubxtool command failed: '' @ e"
| "ubx_error_text PollNoReceiver = ''ublox poll requires a receiver''"
| "ubx_error_text (PollClosed t) = ''ublox poll subscription closed before receiving '' @ t"
| "ubx_error_text (PollFailed e) = ''ublox poll command failed: '' @ e"
| "ubx_error_text (PollTimedOut t) = ''timed out waiting for ublox poll response '' @ t"
| "ubx_error_text PollNoType = ''poll command does not specify a response type''"
| "ubx_error_text (IssueFailed e) = e"
| "ubx_error_text (DirectFailed args out e) = ''ubxtool ['' @ join '' '' args @ ''] failed: ['' @ out @ ''] '' @ e"
| "ubx_error_text (NoProtoVersion out) = ''ubxtool output did not match '' @ regexProtoVersion_text @ '': '' @ out"

section \<open>Batches\<close>

definition validateAckCommandBatch :: "string list \<Rightarrow> ack_group list \<Rightarrow> ubx_error option" where
  "validateAckCommandBatch args cs =
     (case find (\<lambda>c. ag_expected c = indeterminateAckCount) cs of
        None \<Rightarrow> None
      | Some c \<Rightarrow>
          if 1 < length cs + (if isSaveCommand args \<or> isPollCommand args then 1 else 0)
          then Some (IndeterminateBatch (ag_log c)) else None)"

fun ackBatchExpectation :: "ack_group list \<Rightarrow> int \<times> bool" where
  "ackBatchExpectation [] = (0, False)"
| "ackBatchExpectation (c # cs) =
     (let (e, ind) = ackBatchExpectation cs in
      if ag_expected c = indeterminateAckCount then (e + 1, True) else (e + ag_expected c, ind))"

text \<open>What the loop of \<open>collectAckResponses\<close> selects; the process reports its result once.\<close>

datatype ack_event = AE_Message ubx_message | AE_Closed | AE_Done "string option" | AE_Timeout

definition is_ack :: "ubx_message \<Rightarrow> bool" where
  "is_ack m = (um_Type m = AckAckType \<or> um_Type m = AckNakType)"

text \<open>\<open>None\<close>: still waiting after these events.\<close>

fun collectAckResponses ::
  "int \<Rightarrow> bool \<Rightarrow> ubx_message list \<Rightarrow> string option \<Rightarrow> bool \<Rightarrow> ack_event list \<Rightarrow>
     (ubx_message list \<times> ubx_error option) option" where
  "collectAckResponses e ind rs perr seen [] = None"
| "collectAckResponses e ind rs perr seen (AE_Closed # evs) =
     Some (if rs = [] then ([], Some AckClosed) else (rs, None))"
| "collectAckResponses e ind rs perr seen (AE_Message m # evs) =
     (let rs1 = (if is_ack m then rs @ [m] else rs); seen1 = (seen \<or> \<not> is_ack m) in
      if e \<le> int (length rs1) \<and> \<not> (ind \<and> \<not> seen1) then Some (rs1, None)
      else collectAckResponses e ind rs1 perr seen1 evs)"
| "collectAckResponses e ind rs perr seen (AE_Done None # evs) = collectAckResponses e ind rs perr seen evs"
| "collectAckResponses e ind rs perr seen (AE_Done (Some x) # evs) =
     (if rs = [] then Some ([], Some (CommandFailed x)) else collectAckResponses e ind rs (Some x) seen evs)"
| "collectAckResponses e ind rs perr seen (AE_Timeout # evs) =
     Some (if rs \<noteq> [] then (rs, map_option CommandFailed perr) else ([], Some (AckTimeout 0)))"

definition countAckResponses :: "ubx_message list \<Rightarrow> nat \<times> nat" where
  "countAckResponses rs =
     (length (filter (\<lambda>m. um_Type m \<noteq> AckNakType) rs), length (filter (\<lambda>m. um_Type m = AckNakType) rs))"

text \<open>On the responses that are left: the index of the code is their start.\<close>

fun ackBatchError :: "ack_group list \<Rightarrow> ubx_message list \<Rightarrow> ubx_error option" where
  "ackBatchError [] rs = None"
| "ackBatchError (c # cs) rs =
     (if ag_expected c = indeterminateAckCount then
        (let (a, n) = countAckResponses rs in if a = 0 \<and> 0 < n then Some (CommandNAK n) else None)
      else if int (length rs) < ag_expected c then Some (AckMissing (int (length rs)) (ag_expected c) (ag_log c))
      else (let n = snd (countAckResponses (take (nat (ag_expected c)) rs)) in
            if 0 < n then Some (CommandNAK n) else ackBatchError cs (drop (nat (ag_expected c)) rs)))"

section \<open>The command runner\<close>

definition buildArgs :: "string \<Rightarrow> string list \<Rightarrow> string list" where
  "buildArgs version args =
     (if version \<noteq> '''' \<and> ''-P'' \<notin> set args then [''-P'', version] else []) @
     (if ''-w'' \<notin> set args then [''-w'', DefaultWait] else []) @ args"

text \<open>\<open>execCommand\<close>: the output and the error of a run of ubxtool.\<close>

definition runDirect :: "(string list \<Rightarrow> string \<times> string option) \<Rightarrow> string list \<Rightarrow> string \<times> ubx_error option" where
  "runDirect exec args =
     (case exec args of (out, err) \<Rightarrow> (out, map_option (DirectFailed args out) err))"

text \<open>\<open>Run\<close>: what \<open>issue\<close> returned, and what the loop selects while the command runs.\<close>

definition ubx_Run ::
  "(string list \<Rightarrow> string \<times> string option) \<Rightarrow> string \<Rightarrow> bool \<Rightarrow> string option \<Rightarrow> ack_event list \<Rightarrow> ubx_command \<Rightarrow>
     (string \<times> ubx_error option) option" where
  "ubx_Run exec version receiver issue evs cmd =
     (let cs = ackCommandGroups (uc_Args cmd) in
      case validateAckCommandBatch (uc_Args cmd) cs of
        Some err \<Rightarrow> Some ('''', Some err)
      | None \<Rightarrow>
          if \<not> receiver \<or> cs = [] then Some (runDirect exec (buildArgs version (uc_Args cmd)))
          else (case issue of
                  Some e \<Rightarrow> Some ('''', Some (IssueFailed e))
                | None \<Rightarrow>
                    (case ackBatchExpectation cs of (e, ind) \<Rightarrow>
                     case collectAckResponses e ind [] None False evs of
                       None \<Rightarrow> None
                     | Some (rs, Some err) \<Rightarrow> Some ('''', Some err)
                     | Some (rs, None) \<Rightarrow>
                         (case ackBatchError cs rs of
                            Some err \<Rightarrow> Some ('''', Some err)
                          | None \<Rightarrow>
                              Some (if uc_ReportOutput cmd then join [CHR 0x0A] (concat (map um_Raw rs)) else '''', None)))))"

fun poll_loop :: "message_type \<Rightarrow> ack_event list \<Rightarrow> (ubx_error + ubx_message) option" where
  "poll_loop typ [] = None"
| "poll_loop typ (AE_Closed # evs) = Some (Inl (PollClosed typ))"
| "poll_loop typ (AE_Message m # evs) = Some (Inr m)"
| "poll_loop typ (AE_Done None # evs) = poll_loop typ evs"
| "poll_loop typ (AE_Done (Some x) # evs) = Some (Inl (PollFailed x))"
| "poll_loop typ (AE_Timeout # evs) = Some (Inl (PollTimedOut typ))"

definition ubx_Poll ::
  "bool \<Rightarrow> string option \<Rightarrow> ack_event list \<Rightarrow> message_type \<Rightarrow> (ubx_error + ubx_message) option" where
  "ubx_Poll receiver issue evs typ =
     (if \<not> receiver then Some (Inl PollNoReceiver)
      else case issue of Some e \<Rightarrow> Some (Inl (IssueFailed e)) | None \<Rightarrow> poll_loop typ evs)"

text \<open>\<open>RunAll\<close>: the results and the commands run, \<open>run\<close> being the outcome of each.\<close>

fun runAll_results :: "(ubx_command \<Rightarrow> string \<times> ubx_error option) \<Rightarrow> ubx_command list \<Rightarrow> string list" where
  "runAll_results run [] = []"
| "runAll_results run (c # cs) =
     (if uc_ReportOutput c
      then [case run c of (_, Some err) \<Rightarrow> ubx_error_text err | (out, None) \<Rightarrow> out] else []) @
     runAll_results run cs"

definition runner_RunAll ::
  "(ubx_command \<Rightarrow> string \<times> ubx_error option) \<Rightarrow> ubx_command list \<Rightarrow> bool \<Rightarrow> string list \<times> ubx_command list" where
  "runner_RunAll run cs withSave =
     (runAll_results run cs, cs @ (if withSave then [SaveCommand] else []))"

definition proto_version_rx :: rx where
  "proto_version_rx =
     rseq [RLit ''PROTVER='', RCap 1 (rseq [RPlus ch_digit, RLit ''.'', RPlus ch_digit])]"

definition getVersion :: "(string list \<Rightarrow> string \<times> string option) \<Rightarrow> ubx_error + string" where
  "getVersion exec =
     (case runDirect exec (buildArgs '''' [''-w'', QueryTimeout, ''-p'', ''MON-VER'']) of
        (out, Some err) \<Rightarrow> Inl err
      | (out, None) \<Rightarrow>
          (case match_leftmost proto_version_rx out of
             Some (caps, _) \<Rightarrow> Inr (capture caps 1)
           | None \<Rightarrow> Inl (NoProtoVersion out)))"

text \<open>\<open>CommandList.RunAll\<close>: without a runner the only result is the error.\<close>

definition commands_RunAll ::
  "(string list \<Rightarrow> string \<times> string option) \<Rightarrow> (string \<Rightarrow> ubx_command \<Rightarrow> string \<times> ubx_error option) \<Rightarrow>
     ubx_command list \<Rightarrow> bool \<Rightarrow> string list" where
  "commands_RunAll exec run cs withSave =
     (case getVersion exec of
        Inl err \<Rightarrow> [''command runner init failed: '' @ ubx_error_text err]
      | Inr v \<Rightarrow> fst (runner_RunAll (run v) cs withSave))"

section \<open>The receiver\<close>

datatype ubx_status = ubxtoolNew | ubxtoolActive | ubxtoolDead | ubxtoolStopped

text \<open>
  \<open>ub_reader\<close> is the parser of the reader thread, \<open>None\<close> when no thread reads or it was told to stop.
\<close>

record ublox =
  ub_status :: ubx_status
  ub_protoVersion :: string
  ub_initResults :: "string list"
  ub_proc :: bool
  ub_reader :: "ubx_parser option"
  ub_broker :: broker

definition new_ublox :: ublox where
  "new_ublox = \<lparr>ub_status = ubxtoolNew, ub_protoVersion = '''', ub_initResults = [], ub_proc = False,
     ub_reader = None, ub_broker = newMessageBroker\<rparr>"

definition startPollProcess_args :: "string \<Rightarrow> string list" where
  "startPollProcess_args version = [''-u'', ''/usr/local/bin/ubxtool'', ''-t'', ''-P'', version, ''-w'', pollTimeout]"

definition UbloxPollInit :: "bool \<Rightarrow> ublox \<Rightarrow> ublox" where
  "UbloxPollInit start_ok u =
     (if ub_status u \<noteq> ubxtoolNew \<and> ub_status u \<noteq> ubxtoolDead then u
      else if \<not> start_ok then u\<lparr>ub_status := ubxtoolStopped\<rparr>
      else u\<lparr>ub_status := ubxtoolActive, ub_proc := True, ub_reader := Some newParser\<rparr>)"

text \<open>The thread sees the stop before the message \<open>k\<close>.\<close>

definition publishMessages :: "nat list \<Rightarrow> nat \<Rightarrow> ubx_message list \<Rightarrow> broker \<Rightarrow> broker \<times> bool" where
  "publishMessages ord k ms b = (fold (ubx_Publish ord) (take k ms) b, length ms \<le> k)"

text \<open>One round of \<open>ubloxPollPushThread\<close>: what was read, with \<open>eof\<close> when reading failed.\<close>

definition ubloxPollPush :: "nat list \<Rightarrow> nat \<Rightarrow> string \<Rightarrow> bool \<Rightarrow> ublox \<Rightarrow> ublox" where
  "ubloxPollPush ord k out eof u =
     (case ub_reader u of
        None \<Rightarrow> u
      | Some p \<Rightarrow>
          (case ubx_feed out p of (p1, ms) \<Rightarrow>
           case publishMessages ord k ms (ub_broker u) of (b1, go) \<Rightarrow>
             if \<not> go then u\<lparr>ub_broker := b1, ub_reader := None\<rparr>
             else if \<not> eof then u\<lparr>ub_broker := b1, ub_reader := Some p1\<rparr>
             else (case publishMessages ord (k - length ms) (snd (ubx_finish p1)) b1 of (b2, go2) \<Rightarrow>
                     u\<lparr>ub_broker := b2, ub_reader := None,
                       ub_status := (if go2 \<and> ub_status u \<noteq> ubxtoolStopped then ubxtoolDead else ub_status u)\<rparr>)))"

definition UbloxPollReset :: "ublox \<Rightarrow> ublox" where
  "UbloxPollReset u =
     (if \<not> ub_proc u then u
      else u\<lparr>ub_reader := None, ub_status := (if ub_status u \<noteq> ubxtoolStopped then ubxtoolDead else ub_status u)\<rparr>)"

definition UbloxPollStop :: "ublox \<Rightarrow> ublox" where
  "UbloxPollStop u =
     (let u1 = u\<lparr>ub_status := ubxtoolStopped\<rparr> in if \<not> ub_proc u1 then u1 else u1\<lparr>ub_reader := None\<rparr>)"

section \<open>Initialisation\<close>

definition normalizeReportedOutput :: "string \<Rightarrow> string" where
  "normalizeReportedOutput out =
     (let o1 = ReplaceAll out [CHR 0x0D, CHR 0x0A] [CHR 0x0A]; o2 = ReplaceAll o1 [CHR 0x0D] [CHR 0x0A] in
      join [CHR 0x0A] (filter (\<lambda>l. TrimSpace l \<noteq> '''') (split_ch (CHR 0x0A) o2)))"

definition init_cmds :: "string \<Rightarrow> init_config option \<Rightarrow> ubx_command list" where
  "init_cmds version config = defaultUblxCmds @ BuildInitCommands version config @ [monHW, SaveCommand]"

text \<open>The output and the error of one command of the sequence.\<close>

definition init_outcome ::
  "(ubx_command \<Rightarrow> string \<times> ubx_error option) \<Rightarrow> (ubx_command \<Rightarrow> message_type \<Rightarrow> ubx_error + ubx_message) \<Rightarrow>
     ubx_command \<Rightarrow> string \<times> ubx_error option" where
  "init_outcome run poll cmd =
     (if isPollCommand (uc_Args cmd) \<and> \<not> isAckCommand (uc_Args cmd) then
        (case pollResponseType (uc_Args cmd) of
           None \<Rightarrow> ('''', Some PollNoType)
         | Some t \<Rightarrow> (case poll cmd t of Inl e \<Rightarrow> ('''', Some e) | Inr m \<Rightarrow> (join [CHR 0x0A] (um_Raw m), None)))
      else run cmd)"

fun is_nak :: "ubx_error \<Rightarrow> bool" where
  "is_nak (CommandNAK _) = True"
| "is_nak _ = False"

fun init_loop ::
  "(ubx_command \<Rightarrow> string \<times> ubx_error option) \<Rightarrow> ubx_command list \<Rightarrow> ubx_error list \<times> string list" where
  "init_loop outcome [] = ([], [])"
| "init_loop outcome (cmd # cmds) =
     (let (errs, res) = init_loop outcome cmds in
      case outcome cmd of
        (out, None) \<Rightarrow> (errs, if uc_ReportOutput cmd then normalizeReportedOutput out # res else res)
      | (_, Some e) \<Rightarrow>
          if is_nak e then (errs, res)
          else (e # errs, if uc_ReportOutput cmd then ubx_error_text e # res else res))"

text \<open>\<open>Init\<close> and \<open>NewUblox\<close>: the errors are empty when the receiver is ready.\<close>

definition ublox_Init ::
  "(string list \<Rightarrow> string \<times> string option) \<Rightarrow> bool \<Rightarrow> (ublox \<Rightarrow> ubx_command \<Rightarrow> string \<times> ubx_error option) \<Rightarrow>
     (ublox \<Rightarrow> ubx_command \<Rightarrow> message_type \<Rightarrow> ubx_error + ubx_message) \<Rightarrow> init_config option \<Rightarrow> ublox \<Rightarrow>
     ublox \<times> ubx_error list" where
  "ublox_Init exec start_ok run poll config u =
     (case getVersion exec of
        Inl err \<Rightarrow> (u, [err])
      | Inr v \<Rightarrow>
          (let u1 = UbloxPollInit start_ok (u\<lparr>ub_protoVersion := v\<rparr>);
               (errs, res) = init_loop (init_outcome (run u1) (poll u1)) (init_cmds v config);
               u2 = u1\<lparr>ub_initResults := ub_initResults u1 @ res\<rparr>
           in (if errs \<noteq> [] then UbloxPollStop u2 else u2, errs)))"

definition NewUblox ::
  "(string list \<Rightarrow> string \<times> string option) \<Rightarrow> bool \<Rightarrow> (ublox \<Rightarrow> ubx_command \<Rightarrow> string \<times> ubx_error option) \<Rightarrow>
     (ublox \<Rightarrow> ubx_command \<Rightarrow> message_type \<Rightarrow> ubx_error + ubx_message) \<Rightarrow> init_config option \<Rightarrow> ublox \<times> ubx_error list" where
  "NewUblox exec start_ok run poll config = ublox_Init exec start_ok run poll config new_ublox"

section \<open>Constellations\<close>

lemma enableConstellation_eq: "enableConstellation c x = enableConstellation d y \<longleftrightarrow> c = d \<and> x = y"
  by (auto simp: enableConstellation_def)

lemma enableConstellation_flag [simp]: "enableConstellation c x \<noteq> ''-z''" "''-z'' \<noteq> enableConstellation c x"
  by (simp_all add: enableConstellation_def)

lemma count_enable:
  "count_list (concat (map (\<lambda>c. [''-z'', enableConstellation c x]) cs)) (enableConstellation d y) =
     (if x = y then count_list cs d else 0)"
  by (induction cs) (auto simp: enableConstellation_eq)

lemma count_distinct: "distinct cs \<Longrightarrow> count_list cs c = (if c \<in> set cs then 1 else 0)"
  by (induction cs) auto

definition wanted_constellations :: "init_config \<Rightarrow> string set" where
  "wanted_constellations config =
     (if ic_Constellations config = [] then set defaultConstellations else set (ic_Constellations config))"

lemma allowed_facts:
  assumes "allowedConstellations v = Some all"
  shows "distinct all" "set defaultConstellations \<subseteq> set all"
  using assms by (auto simp: allowedConstellations_def defaultConstellations_def split: if_splits)

text \<open>
  for a supported protocol version, either none of the requested constellations is allowed and no
  command is built, or the command switches every allowed constellation exactly once, on when it is wanted
  (requested, or one of the defaults when none is requested) and off otherwise, and no other.
\<close>

lemma constellations_switched_once:
  assumes "allowedConstellations v = Some all"
  shows "(if wanted_constellations config \<inter> set all = {} then uc_Args (buildConstellationCommand config v) = []
     else (\<forall>c b. count_list (uc_Args (buildConstellationCommand config v)) (enableConstellation c b) =
              (if c \<in> set all \<and> b = (c \<in> wanted_constellations config) then 1 else 0)))"
proof -
  let ?en = "filter (\<lambda>c. c \<in> set (ic_Constellations config)) all"
  note f = allowed_facts[OF assms]
  have en0: "?en = [] \<longleftrightarrow> set (ic_Constellations config) \<inter> set all = {}" by (auto simp: filter_empty_conv)
  have ne: "set defaultConstellations \<inter> set all \<noteq> {}" using f(2) by (auto simp: defaultConstellations_def)
  define enable where "enable = (if ?en = [] then defaultConstellations else ?en)"
  show ?thesis
  proof (cases "?en = [] \<and> ic_Constellations config \<noteq> []")
    case True
    then show ?thesis using en0 assms
      by (simp add: wanted_constellations_def buildConstellationCommand_def)
  next
    case False
    have args: "uc_Args (buildConstellationCommand config v) =
       concat (map (\<lambda>c. [''-z'', enableConstellation c True]) enable) @
       concat (map (\<lambda>c. [''-z'', enableConstellation c False]) (filter (\<lambda>c. c \<notin> set enable) all))"
      using False assms unfolding buildConstellationCommand_def enable_def by (simp only: Let_def option.case if_False) simp
    have d: "distinct enable" "set enable = wanted_constellations config \<inter> set all"
      using f False by (auto simp: enable_def wanted_constellations_def defaultConstellations_def)
    have "wanted_constellations config \<inter> set all \<noteq> {}"
      using False ne en0 by (auto simp: wanted_constellations_def)
    moreover have "count_list (uc_Args (buildConstellationCommand config v)) (enableConstellation c b) =
              (if c \<in> set all \<and> b = (c \<in> wanted_constellations config) then 1 else 0)" for c b
      using d f(1) by (cases b) (auto simp: args count_enable count_distinct)
    ultimately show ?thesis by simp
  qed
qed

section \<open>Acknowledged batches\<close>

definition known_count :: "int \<Rightarrow> bool" where
  "known_count n = (n = -1 \<or> n = 1 \<or> n = 2)"

lemma flag_count_known: "known_count (flag_count names)"
  by (simp add: known_count_def flag_count_def ackResponseCount_def split: list.splits)

lemma ack_groups_expected: "c \<in> set (ack_groups args) \<Longrightarrow> known_count (ag_expected c)"
proof (induction args rule: ack_groups.induct)
  case (2 a args)
  have "known_count 1" by (simp add: known_count_def)
  then show ?case using 2 flag_count_known by (auto split: if_splits prod.splits)
qed simp

lemma ackCommandGroups_expected: "c \<in> set (ackCommandGroups args) \<Longrightarrow> known_count (ag_expected c)"
  using ack_groups_expected by (auto simp: ackCommandGroups_def known_count_def Let_def split: if_splits)

lemma collect_messages:
  "length rs < n \<Longrightarrow>
   collectAckResponses (int n) False rs None seen (map AE_Message ms) =
     (if n \<le> length rs + length (filter is_ack ms) then Some (rs @ take (n - length rs) (filter is_ack ms), None) else None)"
proof (induction ms arbitrary: rs seen)
  case (Cons m ms)
  show ?case
  proof (cases "is_ack m")
    case True
    show ?thesis
    proof (cases "n \<le> Suc (length rs)")
      case True
      then have "n = Suc (length rs)" using Cons.prems by simp
      then show ?thesis using \<open>is_ack m\<close> by (simp add: Let_def)
    next
      case False
      then have "n - length rs = Suc (n - Suc (length rs))" by simp
      then show ?thesis using \<open>is_ack m\<close> False Cons.IH[of "rs @ [m]"] by (simp add: Let_def)
    qed
  next
    case False
    then show ?thesis using Cons.prems Cons.IH[of rs] by (simp add: Let_def)
  qed
qed simp

lemma expectation_determinate:
  "\<forall>c \<in> set cs. ag_expected c \<noteq> indeterminateAckCount \<Longrightarrow> ackBatchExpectation cs = (sum_list (map ag_expected cs), False)"
  by (induction cs) auto

lemma batch_error_determinate:
  "\<forall>c \<in> set cs. 0 < ag_expected c \<Longrightarrow> sum_list (map ag_expected cs) = int (length rs) \<Longrightarrow>
     ackBatchError cs rs = None \<longleftrightarrow> (\<forall>m \<in> set rs. um_Type m \<noteq> AckNakType)"
proof (induction cs arbitrary: rs)
  case (Cons c cs)
  let ?k = "nat (ag_expected c)"
  have nn: "0 \<le> sum_list (map ag_expected cs)"
    using Cons.prems(1) by (intro sum_list_nonneg) (auto intro: less_imp_le)
  then have k: "?k \<le> length rs" "sum_list (map ag_expected cs) = int (length (drop ?k rs))"
    using Cons.prems by auto
  have ih: "ackBatchError cs (drop ?k rs) = None \<longleftrightarrow> (\<forall>m \<in> set (drop ?k rs). um_Type m \<noteq> AckNakType)"
    using Cons.prems(1) by (intro Cons.IH k(2)) simp
  have parts: "(\<forall>m \<in> set rs. P m) \<longleftrightarrow> (\<forall>m \<in> set (take ?k rs). P m) \<and> (\<forall>m \<in> set (drop ?k rs). P m)" for P
    using set_append[of "take ?k rs" "drop ?k rs"] by (simp only: append_take_drop_id ball_Un)
  have c: "ag_expected c \<noteq> indeterminateAckCount" "\<not> int (length rs) < ag_expected c"
    using Cons.prems(1) k(1) by auto
  show ?case
  proof (cases "filter (\<lambda>m. um_Type m = AckNakType) (take ?k rs) = []")
    case True
    then have "\<forall>m \<in> set (take ?k rs). um_Type m \<noteq> AckNakType" by (simp add: filter_empty_conv)
    then show ?thesis using c ih True parts[of "\<lambda>m. um_Type m \<noteq> AckNakType"]
      by (simp add: countAckResponses_def)
  next
    case False
    then have "\<not> (\<forall>m \<in> set (take ?k rs). um_Type m \<noteq> AckNakType)" by (auto simp: filter_empty_conv)
    then show ?thesis using c False parts[of "\<lambda>m. um_Type m \<noteq> AckNakType"]
      by (simp add: countAckResponses_def)
  qed
qed simp

lemma ack_positive:
  assumes "\<forall>c \<in> set (ackCommandGroups args). ag_expected c \<noteq> indeterminateAckCount"
  shows "\<forall>c \<in> set (ackCommandGroups args). 0 < ag_expected c"
  using assms ackCommandGroups_expected by (fastforce simp: known_count_def)

lemma validate_determinate:
  "\<forall>c \<in> set cs. ag_expected c \<noteq> indeterminateAckCount \<Longrightarrow> validateAckCommandBatch args cs = None"
proof -
  assume "\<forall>c \<in> set cs. ag_expected c \<noteq> indeterminateAckCount"
  then have "find (\<lambda>c. ag_expected c = indeterminateAckCount) cs = None" by (auto simp: find_None_iff)
  then show ?thesis by (simp add: validateAckCommandBatch_def)
qed

lemma sum_positive: "(cs :: ack_group list) \<noteq> [] \<Longrightarrow> \<forall>c \<in> set cs. 0 < ag_expected c \<Longrightarrow> 0 < sum_list (map ag_expected cs)"
proof (induction cs)
  case (Cons c cs)
  have "0 \<le> sum_list (map ag_expected cs)"
    using Cons.prems by (intro sum_list_nonneg) (auto intro: less_imp_le)
  then show ?case using Cons.prems by simp
qed simp

text \<open>
  C39. a batch of operations with known response counts succeeds exactly when, among the broadcast
  messages, the first as many acknowledgements as it expects are all positive, however many other messages
  are interleaved with them; with too few acknowledgements it is still waiting.
\<close>

theorem batch_succeeds_iff_acknowledged:
  assumes "ackCommandGroups (uc_Args cmd) \<noteq> []"
    "\<forall>c \<in> set (ackCommandGroups (uc_Args cmd)). ag_expected c \<noteq> indeterminateAckCount"
    "n = nat (sum_list (map ag_expected (ackCommandGroups (uc_Args cmd))))"
  shows "(\<exists>out. ubx_Run exec v True None (map AE_Message ms) cmd = Some (out, None)) \<longleftrightarrow>
     n \<le> length (filter is_ack ms) \<and> (\<forall>m \<in> set (take n (filter is_ack ms)). um_Type m = AckAckType)"
proof -
  let ?cs = "ackCommandGroups (uc_Args cmd)" and ?acks = "filter is_ack ms"
  have pos: "\<forall>c \<in> set ?cs. 0 < ag_expected c" by (rule ack_positive[OF assms(2)])
  have n: "0 < n" "sum_list (map ag_expected ?cs) = int n"
    using sum_positive[OF assms(1) pos] assms(3) by auto
  have col: "collectAckResponses (int n) False [] None False (map AE_Message ms) =
     (if n \<le> length ?acks then Some (take n ?acks, None) else None)"
    using collect_messages[of "[]" n False ms] n(1) by simp
  have exp: "ackBatchExpectation ?cs = (int n, False)"
    using expectation_determinate[OF assms(2)] n(2) by simp
  have run: "ubx_Run exec v True None (map AE_Message ms) cmd =
     (if n \<le> length ?acks
      then Some (case ackBatchError ?cs (take n ?acks) of
             Some err \<Rightarrow> ('''', Some err)
           | None \<Rightarrow> (if uc_ReportOutput cmd then join [CHR 0x0A] (concat (map um_Raw (take n ?acks))) else '''', None))
      else None)"
    using assms(1) validate_determinate[OF assms(2)]
    by (simp add: ubx_Run_def Let_def exp col split: option.splits)
  show ?thesis
  proof (cases "n \<le> length ?acks")
    case True
    have "ackBatchError ?cs (take n ?acks) = None \<longleftrightarrow> (\<forall>m \<in> set (take n ?acks). um_Type m \<noteq> AckNakType)"
      using True n(2) by (intro batch_error_determinate[OF pos]) simp
    moreover have "um_Type m \<noteq> AckNakType \<longleftrightarrow> um_Type m = AckAckType" if "m \<in> set (take n ?acks)" for m
    proof -
      have "is_ack m" using that by (auto dest: in_set_takeD)
      then show ?thesis unfolding is_ack_def by (elim disjE) simp_all
    qed
    then have "(\<forall>m \<in> set (take n ?acks). um_Type m \<noteq> AckNakType) \<longleftrightarrow> (\<forall>m \<in> set (take n ?acks). um_Type m = AckAckType)"
      by (intro ball_cong refl)
    ultimately show ?thesis using True
      by (cases "ackBatchError ?cs (take n ?acks)") (simp_all add: run)
  qed (simp add: run)
qed

definition ack_message :: "message_type \<Rightarrow> ubx_message" where
  "ack_message t = \<lparr>um_Type = t, um_Timestamp = None, um_Payload = decodePayload t [], um_Raw = []\<rparr>"

theorem batch_succeeds_iff_acknowledged_witness:
  "\<exists>out. ubx_Run (\<lambda>_. ('''', None)) ''29.20'' True None (map AE_Message [ack_message NavClockType, ack_message AckAckType, ack_message AckAckType])
     (quiet_command [''-e'', ''GPS'']) = Some (out, None)"
proof -
  have g: "ackCommandGroups [''-e'', ''GPS''] = [\<lparr>ag_log = ''-e GPS'', ag_expected = 2\<rparr>]"
    by code_simp
  show ?thesis
    using batch_succeeds_iff_acknowledged[of "quiet_command [''-e'', ''GPS'']" 2 "\<lambda>_. ('''', None)" "''29.20''"
      "[ack_message NavClockType, ack_message AckAckType, ack_message AckAckType]"]
    by (simp add: g is_ack_def ack_message_def)
qed

lemma collect_returns:
  "AE_Timeout \<in> set evs \<Longrightarrow> collectAckResponses e ind rs perr seen evs \<noteq> None"
  by (induction e ind rs perr seen evs rule: collectAckResponses.induct) (auto simp: Let_def)

text \<open>
  a command run over the receiver returns once its time limit is among what it sees, whatever the
  receiver broadcasts and the process reports.
\<close>

lemma run_returns:
  "AE_Timeout \<in> set evs \<Longrightarrow> \<exists>out err. ubx_Run exec v receiver issue evs cmd = Some (out, err)"
proof -
  assume t: "AE_Timeout \<in> set evs"
  have "ubx_Run exec v receiver issue evs cmd \<noteq> None"
    using collect_returns[OF t]
    by (auto simp: ubx_Run_def Let_def split: option.splits prod.splits) (metis option.distinct(1))
  then show ?thesis by auto
qed

text \<open>
  An indeterminate batch that starts while other messages are broadcast ends with its first
  acknowledgement: the second, negative one is not part of it.
\<close>

lemma indeterminate_ends_early:
  "collectAckResponses 1 True [] None False
     [AE_Message (ack_message NavClockType), AE_Message (ack_message AckAckType), AE_Message (ack_message AckNakType)] =
   Some ([ack_message AckAckType], None)"
  by (simp add: is_ack_def ack_message_def)

text \<open>
  When the time limit expires after a failure of the process and one acknowledgement, the limit and the
  closing of the subscription are both ready: one choice reports the failure, the other does not.
\<close>

lemma expired_failure_is_a_race:
  "collectAckResponses 2 False [] None False [AE_Message (ack_message AckAckType), AE_Done (Some ''exit status 1''), AE_Timeout] =
     Some ([ack_message AckAckType], Some (CommandFailed ''exit status 1''))"
  "collectAckResponses 2 False [] None False [AE_Message (ack_message AckAckType), AE_Done (Some ''exit status 1''), AE_Closed] =
     Some ([ack_message AckAckType], None)"
  by (simp_all add: is_ack_def ack_message_def)

section \<open>Initialisation\<close>

lemma init_loop_errors:
  "fst (init_loop outcome cmds) =
     List.map_filter (\<lambda>c. case snd (outcome c) of Some e \<Rightarrow> if is_nak e then None else Some e | None \<Rightarrow> None) cmds"
  by (induction cmds) (auto simp: map_filter_simps split: prod.splits option.splits)

lemma map_filter_Nil_iff: "List.map_filter f xs = [] \<longleftrightarrow> (\<forall>x \<in> set xs. f x = None)"
  by (induction xs) (auto simp: map_filter_simps split: option.splits)

lemma stop_is_final:
  "ub_status u = ubxtoolStopped \<Longrightarrow> UbloxPollInit ok u = u"
  "ub_status u = ubxtoolStopped \<Longrightarrow> ub_status (UbloxPollReset u) = ubxtoolStopped"
  "ub_status u = ubxtoolStopped \<Longrightarrow> ub_status (ubloxPollPush ord k out eof u) = ubxtoolStopped"
  by (auto simp: UbloxPollInit_def UbloxPollReset_def ubloxPollPush_def split: option.splits prod.splits)

text \<open>
  a receiver whose version was detected is initialised without an error exactly when every command
  of the sequence succeeded or was only rejected by the receiver; otherwise its poll process is stopped.
\<close>

lemma init_tolerates_rejections:
  assumes "getVersion exec = Inr v" "ublox_Init exec ok run poll config u = (u', errs)"
    "outcome = init_outcome (run (UbloxPollInit ok (u\<lparr>ub_protoVersion := v\<rparr>))) (poll (UbloxPollInit ok (u\<lparr>ub_protoVersion := v\<rparr>)))"
  shows "(errs = [] \<longleftrightarrow> (\<forall>c \<in> set (init_cmds v config). snd (outcome c) = None \<or> (\<exists>n. snd (outcome c) = Some (CommandNAK n)))) \<and>
     (errs \<noteq> [] \<longrightarrow> ub_status u' = ubxtoolStopped)"
proof -
  have nak: "is_nak e \<longleftrightarrow> (\<exists>n. e = CommandNAK n)" for e by (cases e) auto
  have e: "errs = fst (init_loop outcome (init_cmds v config))"
    using assms by (auto simp: ublox_Init_def Let_def split: prod.splits)
  have "errs = [] \<longleftrightarrow> (\<forall>c \<in> set (init_cmds v config). snd (outcome c) = None \<or> (\<exists>n. snd (outcome c) = Some (CommandNAK n)))"
    unfolding e init_loop_errors map_filter_Nil_iff by (intro ball_cong refl) (auto simp: nak split: option.splits)
  moreover have "errs \<noteq> [] \<longrightarrow> ub_status u' = ubxtoolStopped"
    using assms(1,2) by (auto simp: ublox_Init_def UbloxPollStop_def Let_def split: prod.splits if_splits)
  ultimately show ?thesis by simp
qed

end
