(* ===== verification/Gnss.thy ===== *)
theory Gnss
  imports UbloxCmd Event
begin

text \<open>
  The monitoring of the GNSS receiver by \<open>GPSD\<close> (\<open>pkg/daemon/gpsd.go\<close>): messages of one epoch are
  paired into GNSS events, leap-second messages go to the leap-second manager, a ticker restarts a
  receiver that is silent. The life cycle of gpsd itself is in \<open>SideProcess\<close>. The time of an event is
  an argument; full channels are left out, what is listed was offered.
\<close>

section \<open>State\<close>

record gnss_config =
  gc_ConfigName :: string
  gc_gmInterface :: string
  gc_ClockType :: clock_type
  gc_ThresholdMax :: int

record gnss_monitor =
  gn_status :: "nav_status option"
  gn_clock :: "nav_clock option"
  gn_offset :: int
  gn_sourceLost :: bool
  gn_ublox :: ublox
  gn_missed :: nat
  gn_seen :: bool

definition gnssClockType :: "gnss_config \<Rightarrow> clock_type" where
  "gnssClockType c = (if gc_ClockType c \<noteq> ClockUnset then gc_ClockType c else GM)"

definition isGnssOffsetInRange :: "gnss_config \<Rightarrow> int \<Rightarrow> bool" where
  "isGnssOffsetInRange c offset = f64_lt (f64_abs (f64_of_int offset)) (f64_of_int (gc_ThresholdMax c))"

definition resetiTOWMatch :: "gnss_monitor \<Rightarrow> gnss_monitor" where
  "resetiTOWMatch g = g\<lparr>gn_status := None, gn_clock := None\<rparr>"

section \<open>Messages\<close>

definition gnss_event :: "gnss_config \<Rightarrow> int \<Rightarrow> gnss_data \<Rightarrow> event" where
  "gnss_event c now d =
     \<lparr>ev_Source = GNSS, ev_IFace = gc_gmInterface c, ev_CfgName = gc_ConfigName c, ev_ClockType = gnssClockType c,
      ev_Time = now, ev_WriteToLog = True, ev_Reset = False, ev_Data = Some (GNSSData d)\<rparr>"

text \<open>The event when the monitor ends.\<close>

definition gnss_reset_event :: "gnss_config \<Rightarrow> int \<Rightarrow> event" where
  "gnss_reset_event c now =
     \<lparr>ev_Source = GNSS, ev_IFace = '''', ev_CfgName = gc_ConfigName c, ev_ClockType = gnssClockType c,
      ev_Time = now, ev_WriteToLog = False, ev_Reset = True, ev_Data = None\<rparr>"

definition gnss_lost :: "gnss_config \<Rightarrow> nav_status \<Rightarrow> int \<Rightarrow> bool" where
  "gnss_lost c s offset = (ns_GPSFix s < 3 \<or> SpoofingDetected s \<or> \<not> isGnssOffsetInRange c offset)"

definition checkForiTOWCorrelation :: "gnss_config \<Rightarrow> int \<Rightarrow> gnss_monitor \<Rightarrow> gnss_monitor \<times> event list \<times> bool" where
  "checkForiTOWCorrelation c now g =
     (case (gn_status g, gn_clock g) of
        (Some s, Some k) \<Rightarrow>
          if ns_ITOW s \<noteq> nc_ITOW k then (g, [], False)
          else (let offset = nc_Offset k; lost = gnss_lost c s offset in
                ((resetiTOWMatch g)\<lparr>gn_offset := offset, gn_sourceLost := lost\<rparr>,
                 [gnss_event c now \<lparr>gd_GPSStatus = ns_GPSFix s, gd_Offset = offset, gd_SourceLost = lost\<rparr>], True))
      | _ \<Rightarrow> (g, [], False))"

text \<open>The new state, the events, the leap-second messages passed on, and whether an event was sent.\<close>

definition processGNSSMessage ::
  "gnss_config \<Rightarrow> bool \<Rightarrow> int \<Rightarrow> payload \<Rightarrow> gnss_monitor \<Rightarrow> gnss_monitor \<times> event list \<times> time_ls list \<times> bool" where
  "processGNSSMessage c leapMgr now p g =
     (case p of
        NavStatus s \<Rightarrow> (case checkForiTOWCorrelation c now (g\<lparr>gn_status := Some s\<rparr>) of (g1, evs, sent) \<Rightarrow> (g1, evs, [], sent))
      | NavClock k \<Rightarrow> (case checkForiTOWCorrelation c now (g\<lparr>gn_clock := Some k\<rparr>) of (g1, evs, sent) \<Rightarrow> (g1, evs, [], sent))
      | TimeLs t \<Rightarrow> (g, [], if leapMgr then [t] else [], False)
      | _ \<Rightarrow> (g, [], [], False))"

section \<open>The loop\<close>

text \<open>What the loop selects: a tick (and whether ubxtool could be started), a message, the end of the
  subscription, or the request to stop.\<close>

datatype gnss_select = GnssTick bool | GnssMsg int ubx_message | GnssClosed | GnssStop

definition gnss_tick :: "bool \<Rightarrow> gnss_monitor \<Rightarrow> gnss_monitor" where
  "gnss_tick start_ok g =
     (let missed = (if gn_seen g then 0 else gn_missed g + 1);
          g1 = (if 3 < missed then (resetiTOWMatch g)\<lparr>gn_ublox := UbloxPollReset (gn_ublox g), gn_missed := 0\<rparr>
                else g\<lparr>gn_missed := missed\<rparr>)
      in g1\<lparr>gn_seen := False, gn_ublox := UbloxPollInit start_ok (gn_ublox g1)\<rparr>)"

text \<open>How the loop ended: \<open>Some True\<close> without an error, \<open>None\<close> when it still runs.\<close>

fun pollForMessages_loop ::
  "gnss_config \<Rightarrow> bool \<Rightarrow> gnss_select list \<Rightarrow> gnss_monitor \<Rightarrow> gnss_monitor \<times> event list \<times> time_ls list \<times> bool option" where
  "pollForMessages_loop c lm [] g = (g, [], [], None)"
| "pollForMessages_loop c lm (GnssTick ok # sel) g = pollForMessages_loop c lm sel (gnss_tick ok g)"
| "pollForMessages_loop c lm (GnssMsg now m # sel) g =
     (let (g1, evs, ls, sent) = processGNSSMessage c lm now (um_Payload m) g;
          (g2, evs2, ls2, r) = pollForMessages_loop c lm sel (if sent then g1\<lparr>gn_seen := True\<rparr> else g1)
      in (g2, evs @ evs2, ls @ ls2, r))"
| "pollForMessages_loop c lm (GnssClosed # sel) g = (g, [], [], Some False)"
| "pollForMessages_loop c lm (GnssStop # sel) g = (g, [], [], Some True)"

definition pollForMessages ::
  "gnss_config \<Rightarrow> bool \<Rightarrow> bool \<Rightarrow> gnss_select list \<Rightarrow> gnss_monitor \<Rightarrow> gnss_monitor \<times> event list \<times> time_ls list \<times> bool option" where
  "pollForMessages c lm start_ok sel g =
     (let g1 = resetiTOWMatch g;
          b = snd (ubx_Subscribe [NavClockType, NavStatusType, NavTimeLsType] (ub_broker (gn_ublox g1)));
          u = UbloxPollInit start_ok ((gn_ublox g1)\<lparr>ub_broker := b\<rparr>)
      in pollForMessages_loop c lm sel (g1\<lparr>gn_ublox := u, gn_missed := 0, gn_seen := False\<rparr>))"

text \<open>
  One attempt of \<open>monitorGNSSEventsWithUblox\<close>: the receiver of \<open>NewUblox\<close> with its errors, and, when
  there are none, whether ubxtool starts and what the loop sees; \<open>AttemptFailed stop\<close> says whether the
  wait after the errors ended by a stop.
\<close>

datatype gnss_attempt = AttemptFailed ublox "ubx_error list" bool | AttemptReady ublox bool "gnss_select list"

definition attempt_results :: "gnss_attempt \<Rightarrow> string list" where
  "attempt_results a = (case a of AttemptFailed u _ _ \<Rightarrow> ub_initResults u | AttemptReady u _ _ \<Rightarrow> ub_initResults u)"

text \<open>The receivers made are kept, the newest first: the state of a receiver after it is abandoned.\<close>

fun monitorGNSS ::
  "gnss_config \<Rightarrow> bool \<Rightarrow> int \<Rightarrow> gnss_attempt list \<Rightarrow> gnss_monitor \<Rightarrow> ublox list \<Rightarrow>
     gnss_monitor \<times> ublox list \<times> event list \<times> bool" where
  "monitorGNSS c lm now [] g us = (g, us, [], False)"
| "monitorGNSS c lm now (AttemptFailed u errs stop # as) g us =
     (if stop then (g, u # us, [gnss_reset_event c now], True) else monitorGNSS c lm now as g (u # us))"
| "monitorGNSS c lm now (AttemptReady u ok sel # as) g us =
     (let (g1, evs, ls, r) = pollForMessages c lm ok sel (g\<lparr>gn_ublox := u\<rparr>) in
      case r of
        None \<Rightarrow> (g1, gn_ublox g1 # us, evs, False)
      | Some True \<Rightarrow> (g1, gn_ublox g1 # us, evs @ [gnss_reset_event c now], True)
      | Some False \<Rightarrow>
          (let (g2, us2, evs2, fin) = monitorGNSS c lm now as g1 (gn_ublox g1 # us) in (g2, us2, evs @ evs2, fin)))"
section \<open>Paired events\<close>

definition select_payloads :: "gnss_select list \<Rightarrow> payload list" where
  "select_payloads sel = List.map_filter (\<lambda>x. case x of GnssMsg _ m \<Rightarrow> Some (um_Payload m) | _ \<Rightarrow> None) sel"

definition is_status :: "payload \<Rightarrow> bool" where
  "is_status p = (case p of NavStatus _ \<Rightarrow> True | _ \<Rightarrow> False)"

definition is_clock :: "payload \<Rightarrow> bool" where
  "is_clock p = (case p of NavClock _ \<Rightarrow> True | _ \<Rightarrow> False)"

definition paired :: "gnss_config \<Rightarrow> nav_status set \<Rightarrow> nav_clock set \<Rightarrow> event \<Rightarrow> bool" where
  "paired c S K e \<longleftrightarrow>
     (\<exists>s \<in> S. \<exists>k \<in> K. ns_ITOW s = nc_ITOW k \<and>
        ev_Data e = Some (GNSSData \<lparr>gd_GPSStatus = ns_GPSFix s, gd_Offset = nc_Offset k,
                                     gd_SourceLost = gnss_lost c s (nc_Offset k)\<rparr>))"

definition has :: "'a option \<Rightarrow> nat" where
  "has x = (if x = None then 0 else 1)"

lemma has_simps [simp]: "has None = 0" "has (Some x) = 1" "has y \<le> 1" by (simp_all add: has_def)

definition seen_status :: "gnss_monitor \<Rightarrow> payload list \<Rightarrow> nav_status set" where
  "seen_status g ps = {s. gn_status g = Some s \<or> NavStatus s \<in> set ps}"

definition seen_clock :: "gnss_monitor \<Rightarrow> payload list \<Rightarrow> nav_clock set" where
  "seen_clock g ps = {k. gn_clock g = Some k \<or> NavClock k \<in> set ps}"

text \<open>One message: what it consumes and what its event is made of.\<close>

lemma correlation_effect:
  assumes "checkForiTOWCorrelation c now g = (g1, evs, sent)"
  shows "length evs + has (gn_status g1) \<le> has (gn_status g)" "length evs + has (gn_clock g1) \<le> has (gn_clock g)"
    "gn_status g1 = Some s \<Longrightarrow> gn_status g = Some s" "gn_clock g1 = Some k \<Longrightarrow> gn_clock g = Some k"
    "e \<in> set evs \<Longrightarrow> paired c {s. gn_status g = Some s} {k. gn_clock g = Some k} e"
  using assms
  by (auto simp: checkForiTOWCorrelation_def resetiTOWMatch_def gnss_event_def paired_def Let_def split: option.splits if_splits)

lemma message_effect:
  assumes "processGNSSMessage c lm now p g = (g1, evs, ls, sent)"
  shows "length evs + has (gn_status g1) \<le> has (gn_status g) + (if is_status p then 1 else 0)"
    "length evs + has (gn_clock g1) \<le> has (gn_clock g) + (if is_clock p then 1 else 0)"
    "seen_status g1 ps \<subseteq> seen_status g (p # ps)" "seen_clock g1 ps \<subseteq> seen_clock g (p # ps)"
    "e \<in> set evs \<Longrightarrow> paired c (seen_status g (p # ps)) (seen_clock g (p # ps)) e"
proof -
  have mono: "paired c S K e \<Longrightarrow> S \<subseteq> S' \<Longrightarrow> K \<subseteq> K' \<Longrightarrow> paired c S' K' e" for S S' K K' e
    unfolding paired_def by blast
  have "length evs + has (gn_status g1) \<le> has (gn_status g) + (if is_status p then 1 else 0) \<and>
    length evs + has (gn_clock g1) \<le> has (gn_clock g) + (if is_clock p then 1 else 0) \<and>
    seen_status g1 ps \<subseteq> seen_status g (p # ps) \<and> seen_clock g1 ps \<subseteq> seen_clock g (p # ps) \<and>
    (\<forall>e \<in> set evs. paired c (seen_status g (p # ps)) (seen_clock g (p # ps)) e)"
  proof (cases "\<exists>g0. checkForiTOWCorrelation c now g0 = (g1, evs, sent) \<and>
     ((\<exists>s. p = NavStatus s \<and> g0 = g\<lparr>gn_status := Some s\<rparr>) \<or> (\<exists>k. p = NavClock k \<and> g0 = g\<lparr>gn_clock := Some k\<rparr>))")
    case True
    then obtain g0 where co: "checkForiTOWCorrelation c now g0 = (g1, evs, sent)"
      and g0: "(\<exists>s. p = NavStatus s \<and> g0 = g\<lparr>gn_status := Some s\<rparr>) \<or> (\<exists>k. p = NavClock k \<and> g0 = g\<lparr>gn_clock := Some k\<rparr>)"
      by blast
    note e = correlation_effect[OF co]
    have h: "has (gn_status g0) \<le> has (gn_status g) + (if is_status p then 1 else 0)"
      "has (gn_clock g0) \<le> has (gn_clock g) + (if is_clock p then 1 else 0)"
      using g0 by (auto simp: is_status_def is_clock_def)
    have sub: "{x. gn_status g0 = Some x} \<subseteq> seen_status g (p # ps)" "{x. gn_clock g0 = Some x} \<subseteq> seen_clock g (p # ps)"
      using g0 by (auto simp: seen_status_def seen_clock_def)
    have "seen_status g1 ps \<subseteq> seen_status g (p # ps)" "seen_clock g1 ps \<subseteq> seen_clock g (p # ps)"
      using e(3,4) sub by (auto simp: seen_status_def seen_clock_def)
    moreover have "\<forall>e \<in> set evs. paired c (seen_status g (p # ps)) (seen_clock g (p # ps)) e"
      using e(5) mono[OF _ sub] by blast
    ultimately show ?thesis using e(1,2) h by linarith
  next
    case False
    then have "evs = []" "g1 = g"
      using assms by (auto simp: processGNSSMessage_def split: payload.splits prod.splits)
    then show ?thesis by (auto simp: seen_status_def seen_clock_def)
  qed
  then show "length evs + has (gn_status g1) \<le> has (gn_status g) + (if is_status p then 1 else 0)"
    "length evs + has (gn_clock g1) \<le> has (gn_clock g) + (if is_clock p then 1 else 0)"
    "seen_status g1 ps \<subseteq> seen_status g (p # ps)" "seen_clock g1 ps \<subseteq> seen_clock g (p # ps)"
    "e \<in> set evs \<Longrightarrow> paired c (seen_status g (p # ps)) (seen_clock g (p # ps)) e"
    by blast+
qed

lemma tick_keeps [simp]:
  "has (gn_status (gnss_tick ok g)) \<le> has (gn_status g)" "has (gn_clock (gnss_tick ok g)) \<le> has (gn_clock g)"
  "seen_status (gnss_tick ok g) ps \<subseteq> seen_status g ps" "seen_clock (gnss_tick ok g) ps \<subseteq> seen_clock g ps"
  by (auto simp: gnss_tick_def resetiTOWMatch_def Let_def seen_status_def seen_clock_def)

lemma paired_mono: "paired c S K e \<Longrightarrow> S \<subseteq> S' \<Longrightarrow> K \<subseteq> K' \<Longrightarrow> paired c S' K' e"
  unfolding paired_def by blast

lemma loop_pairs:
  "pollForMessages_loop c lm sel g = (g', evs, ls, r) \<Longrightarrow>
     length evs \<le> has (gn_status g) + length (filter is_status (select_payloads sel)) \<and>
     length evs \<le> has (gn_clock g) + length (filter is_clock (select_payloads sel)) \<and>
     (\<forall>e \<in> set evs. paired c (seen_status g (select_payloads sel)) (seen_clock g (select_payloads sel)) e)"
proof (induction c lm sel g arbitrary: g' evs ls r rule: pollForMessages_loop.induct)
  case (2 c lm ok sel g)
  have "pollForMessages_loop c lm sel (gnss_tick ok g) = (g', evs, ls, r)" using 2(2) by simp
  note ih = 2(1)[OF this]
  have "select_payloads (GnssTick ok # sel) = select_payloads sel"
    by (simp add: select_payloads_def map_filter_simps)
  then show ?case
    using ih tick_keeps(1,2)[of ok g] paired_mono[OF _ tick_keeps(3,4)]
    by (metis (no_types, lifting) add_le_mono1 le_trans)
next
  case (3 c lm now m sel g)
  let ?p = "um_Payload m" and ?ps = "select_payloads sel"
  obtain g1 evs1 ls1 sent where m: "processGNSSMessage c lm now ?p g = (g1, evs1, ls1, sent)" by (metis prod_cases4)
  define g1' where "g1' = (if sent then g1\<lparr>gn_seen := True\<rparr> else g1)"
  obtain g2 evs2 ls2 r2 where l: "pollForMessages_loop c lm sel g1' = (g2, evs2, ls2, r2)" by (metis prod_cases4)
  have evs: "evs = evs1 @ evs2" using 3(2) by (simp add: m l flip: g1'_def)
  have same: "gn_status g1' = gn_status g1" "gn_clock g1' = gn_clock g1"
    "seen_status g1' ps = seen_status g1 ps" "seen_clock g1' ps = seen_clock g1 ps" for ps
    by (simp_all add: g1'_def seen_status_def seen_clock_def)
  have ih: "length evs2 \<le> has (gn_status g1) + length (filter is_status ?ps)"
    "length evs2 \<le> has (gn_clock g1) + length (filter is_clock ?ps)"
    "\<forall>e \<in> set evs2. paired c (seen_status g1 ?ps) (seen_clock g1 ?ps) e"
    using 3(1)[OF m[symmetric] refl refl refl l[unfolded g1'_def]] same by (simp_all flip: g1'_def)
  have ps: "select_payloads (GnssMsg now m # sel) = ?p # ?ps"
    by (simp add: select_payloads_def map_filter_simps)
  note e = message_effect[OF m]
  have "\<forall>e \<in> set evs2. paired c (seen_status g (?p # ?ps)) (seen_clock g (?p # ?ps)) e"
    using ih(3) paired_mono[OF _ e(3,4)] by blast
  then have "\<forall>e \<in> set evs. paired c (seen_status g (?p # ?ps)) (seen_clock g (?p # ?ps)) e"
    using e(5) unfolding evs by auto
  moreover have "length evs \<le> has (gn_status g) + length (filter is_status (?p # ?ps))"
    using ih(1) e(1) unfolding evs by (auto split: if_splits)
  moreover have "length evs \<le> has (gn_clock g) + length (filter is_clock (?p # ?ps))"
    using ih(2) e(2) unfolding evs by (auto split: if_splits)
  ultimately show ?case unfolding ps by blast
qed (auto simp: select_payloads_def)

text \<open>
  C28. every GNSS event comes from a navigation status and a clock message of the same epoch that were
  received since monitoring began, each message serves for at most one event, and the event reports the
  source as present only for a 3D fix without detected spoofing and an offset within the threshold.
\<close>

theorem gnss_events_pair_one_epoch:
  assumes "pollForMessages c lm ok sel g = (g', evs, ls, r)"
  shows "length evs \<le> length (filter is_status (select_payloads sel)) \<and>
     length evs \<le> length (filter is_clock (select_payloads sel)) \<and>
     (\<forall>e \<in> set evs. \<exists>s k lost. NavStatus s \<in> set (select_payloads sel) \<and> NavClock k \<in> set (select_payloads sel) \<and>
        ns_ITOW s = nc_ITOW k \<and>
        ev_Data e = Some (GNSSData \<lparr>gd_GPSStatus = ns_GPSFix s, gd_Offset = nc_Offset k, gd_SourceLost = lost\<rparr>) \<and>
        (\<not> lost \<longleftrightarrow> 3 \<le> ns_GPSFix s \<and> \<not> SpoofingDetected s \<and> isGnssOffsetInRange c (nc_Offset k)))"
proof -
  define g0 where "g0 = (let g1 = resetiTOWMatch g;
          b = snd (ubx_Subscribe [NavClockType, NavStatusType, NavTimeLsType] (ub_broker (gn_ublox g1)));
          u = UbloxPollInit ok ((gn_ublox g1)\<lparr>ub_broker := b\<rparr>)
      in g1\<lparr>gn_ublox := u, gn_missed := 0, gn_seen := False\<rparr>)"
  have l: "pollForMessages_loop c lm sel g0 = (g', evs, ls, r)"
    using assms by (simp add: pollForMessages_def g0_def Let_def)
  have none: "gn_status g0 = None" "gn_clock g0 = None" by (simp_all add: g0_def resetiTOWMatch_def Let_def)
  have p: "paired c {s. NavStatus s \<in> set (select_payloads sel)} {k. NavClock k \<in> set (select_payloads sel)} e"
    if "e \<in> set evs" for e
    using loop_pairs[OF l] that by (simp add: seen_status_def seen_clock_def none)
  have "\<exists>s k lost. NavStatus s \<in> set (select_payloads sel) \<and> NavClock k \<in> set (select_payloads sel) \<and>
        ns_ITOW s = nc_ITOW k \<and>
        ev_Data e = Some (GNSSData \<lparr>gd_GPSStatus = ns_GPSFix s, gd_Offset = nc_Offset k, gd_SourceLost = lost\<rparr>) \<and>
        (\<not> lost \<longleftrightarrow> 3 \<le> ns_GPSFix s \<and> \<not> SpoofingDetected s \<and> isGnssOffsetInRange c (nc_Offset k))"
    if e: "e \<in> set evs" for e
  proof -
    obtain s k where "NavStatus s \<in> set (select_payloads sel)" "NavClock k \<in> set (select_payloads sel)"
      "ns_ITOW s = nc_ITOW k"
      "ev_Data e = Some (GNSSData \<lparr>gd_GPSStatus = ns_GPSFix s, gd_Offset = nc_Offset k,
                                     gd_SourceLost = gnss_lost c s (nc_Offset k)\<rparr>)"
      using p[OF e] unfolding paired_def by blast
    moreover have "\<not> gnss_lost c s (nc_Offset k) \<longleftrightarrow> 3 \<le> ns_GPSFix s \<and> \<not> SpoofingDetected s \<and> isGnssOffsetInRange c (nc_Offset k)"
      by (auto simp: gnss_lost_def)
    ultimately show ?thesis by blast
  qed
  then show ?thesis using loop_pairs[OF l] by (simp add: none)
qed

definition gnss_example_config :: gnss_config where
  "gnss_example_config = \<lparr>gc_ConfigName = ''ts2phc.0.config'', gc_gmInterface = ''ens1f0'', gc_ClockType = ClockUnset, gc_ThresholdMax = 100\<rparr>"

definition payload_message :: "payload \<Rightarrow> ubx_message" where
  "payload_message p = \<lparr>um_Type = payload_type p, um_Timestamp = None, um_Payload = p, um_Raw = []\<rparr>"

definition status_example :: nav_status where
  "status_example = \<lparr>ns_ITOW = 5000, ns_GPSFix = 3, ns_Flags = 0xdd, ns_FixStat = 0, ns_Flags2 = 8, ns_TTFF = 1, ns_MSSS = 2\<rparr>"

definition clock_example :: nav_clock where
  "clock_example = \<lparr>nc_ITOW = 5000, nc_ClkB = 1, nc_ClkD = 2, nc_TAcc = 7, nc_FAcc = 8, nc_Offset = 7\<rparr>"

definition gnss_example_start :: gnss_monitor where
  "gnss_example_start =
     \<lparr>gn_status = None, gn_clock = None, gn_offset = 0, gn_sourceLost = False, gn_ublox = new_ublox, gn_missed = 0, gn_seen = False\<rparr>"

lemma gnss_example_run:
  "\<exists>g. pollForMessages gnss_example_config False True
     [GnssMsg 0 (payload_message (NavStatus status_example)), GnssTick True, GnssMsg 0 (payload_message (NavClock clock_example))]
     gnss_example_start =
       (g, [gnss_event gnss_example_config 0 \<lparr>gd_GPSStatus = 3, gd_Offset = 7, gd_SourceLost = False\<rparr>], [], None)"
  by (simp add: pollForMessages_def gnss_example_start_def payload_message_def processGNSSMessage_def
      checkForiTOWCorrelation_def status_example_def clock_example_def gnss_lost_def SpoofingDetected_def
      isGnssOffsetInRange_def gnss_example_config_def resetiTOWMatch_def gnss_tick_def Let_def)

theorem gnss_events_pair_one_epoch_witness:
  "\<exists>(s :: nav_status) (k :: nav_clock).
     ns_ITOW s = nc_ITOW k \<and> 3 \<le> ns_GPSFix s \<and> isGnssOffsetInRange gnss_example_config (nc_Offset k)"
proof -
  obtain g where r: "pollForMessages gnss_example_config False True
     [GnssMsg 0 (payload_message (NavStatus status_example)), GnssTick True, GnssMsg 0 (payload_message (NavClock clock_example))]
     gnss_example_start =
       (g, [gnss_event gnss_example_config 0 \<lparr>gd_GPSStatus = 3, gd_Offset = 7, gd_SourceLost = False\<rparr>], [], None)"
    using gnss_example_run by blast
  obtain s :: nav_status and k :: nav_clock and lost where "ns_ITOW s = nc_ITOW k"
    "ev_Data (gnss_event gnss_example_config 0 \<lparr>gd_GPSStatus = 3, gd_Offset = 7, gd_SourceLost = False\<rparr>) =
       Some (GNSSData \<lparr>gd_GPSStatus = ns_GPSFix s, gd_Offset = nc_Offset k, gd_SourceLost = lost\<rparr>)"
    "\<not> lost \<longleftrightarrow> 3 \<le> ns_GPSFix s \<and> \<not> SpoofingDetected s \<and> isGnssOffsetInRange gnss_example_config (nc_Offset k)"
    using gnss_events_pair_one_epoch[OF r] unfolding list.set ball_simps by blast
  then show ?thesis by (auto simp: gnss_event_def)
qed

text \<open>For offsets of ordinary size the test on \<open>float64\<close> values is the one on integers.\<close>

lemma isGnssOffsetInRange_int:
  "\<bar>offset\<bar> < 2 ^ 53 \<Longrightarrow> \<bar>gc_ThresholdMax c\<bar> < 2 ^ 53 \<Longrightarrow>
     isGnssOffsetInRange c offset \<longleftrightarrow> \<bar>offset\<bar> < gc_ThresholdMax c"
  by (simp add: isGnssOffsetInRange_def flip: of_int_abs)

section \<open>Leap seconds and silence\<close>

lemma loop_leap:
  "pollForMessages_loop c True sel g = (g', evs, ls, None) \<Longrightarrow>
     ls = List.map_filter (\<lambda>p. case p of TimeLs t \<Rightarrow> Some t | _ \<Rightarrow> None) (select_payloads sel)"
proof (induction c True sel g arbitrary: g' evs ls rule: pollForMessages_loop.induct)
  case (3 c now m sel g)
  obtain g1 evs1 ls1 sent where m: "processGNSSMessage c True now (um_Payload m) g = (g1, evs1, ls1, sent)" by (metis prod_cases4)
  obtain g2 evs2 ls2 r2 where l: "pollForMessages_loop c True sel (if sent then g1\<lparr>gn_seen := True\<rparr> else g1) = (g2, evs2, ls2, r2)"
    by (metis prod_cases4)
  have r: "r2 = None" "ls = ls1 @ ls2" using 3(2) by (simp_all add: m l)
  have "ls1 = (case um_Payload m of TimeLs t \<Rightarrow> [t] | _ \<Rightarrow> [])"
    using m by (auto simp: processGNSSMessage_def split: payload.splits prod.splits)
  then show ?case
    using 3(1)[OF m[symmetric] refl refl refl] l r
    by (simp add: select_payloads_def map_filter_simps split: payload.splits)
qed (auto simp: select_payloads_def map_filter_simps)

text \<open>Four ticks in a row without an event restart the receiver.\<close>

lemma silence_restarts:
  assumes "gn_missed g = 0" "\<not> gn_seen g" "ub_status (gn_ublox g) = ubxtoolActive" "ub_proc (gn_ublox g)"
  shows "gn_ublox ((gnss_tick ok ^^ 3) g) = gn_ublox g"
    "ub_status (gn_ublox (gnss_tick True ((gnss_tick ok ^^ 3) g))) = ubxtoolActive"
    "ub_reader (gn_ublox (gnss_tick True ((gnss_tick ok ^^ 3) g))) = Some newParser"
    "gn_status (gnss_tick True ((gnss_tick ok ^^ 3) g)) = None"
  using assms
  by (simp_all add: numeral_3_eq_3 gnss_tick_def UbloxPollInit_def UbloxPollReset_def resetiTOWMatch_def Let_def)

text \<open>
  A restart that fails is final: the receiver is marked stopped, so that no later tick tries again
  although ubxtool could be started.
\<close>

lemma ticks_keep_stopped:
  "ub_status (gn_ublox g) = ubxtoolStopped \<Longrightarrow> ub_status (gn_ublox (fold gnss_tick oks g)) = ubxtoolStopped"
proof (induction oks arbitrary: g)
  case (Cons ok oks)
  have "ub_status (gn_ublox (gnss_tick ok g)) = ubxtoolStopped"
    using Cons.prems by (simp add: gnss_tick_def UbloxPollInit_def UbloxPollReset_def Let_def)
  then show ?case using Cons.IH by simp
qed simp

lemma failed_restart_is_final:
  assumes "ub_status (gn_ublox g) = ubxtoolDead"
  shows "ub_status (gn_ublox (fold gnss_tick (False # oks) g)) = ubxtoolStopped"
proof -
  have "ub_status (gn_ublox (gnss_tick False g)) = ubxtoolStopped"
    using assms by (simp add: gnss_tick_def UbloxPollInit_def UbloxPollReset_def Let_def)
  then show ?thesis using ticks_keep_stopped by simp
qed

text \<open>
  The request to stop also closes the subscription; when the loop notices that first, a second receiver
  is made, and it is still active when monitoring has ended.
\<close>

lemma receiver_left_after_stop:
  assumes "ub_status u = ubxtoolActive"
  shows "let (g, us, evs, fin) = monitorGNSS c lm now [AttemptReady u1 ok [GnssClosed], AttemptReady u ok [GnssStop]] g0 [] in
     fin \<and> length us = 2 \<and> ub_status (hd us) = ubxtoolActive"
  using assms by (simp add: pollForMessages_def UbloxPollInit_def resetiTOWMatch_def Let_def)

end
