(* ===== verification/LeapFile.thy ===== *)
theory LeapFile
  imports Ublox ProtocolText Float64
begin

unbundle bit_operations_syntax

text \<open>
  The leap-second manager (\<open>pkg/leap/leap-file.go\<close>): the leap-seconds file, kept in a config map, its
  update on an indication of the GNSS receiver, and the announcement of a leap second through pmc.
  An instant is the nanoseconds since 1 January 1900; the current time, the results of the Kubernetes
  client and of pmc are arguments. A run-time panic is a value; the text of an error is only logged and
  shortened here. \<open>Run\<close> calls \<open>handleLeapIndication\<close> for an indication and \<open>leap_tick\<close> every minute.
\<close>

datatype 'a outcome = Panicked | Failed string | Done 'a

section \<open>SHA-1\<close>

text \<open>\<open>crypto/sha1\<close>, on lists of bytes.\<close>

fun words32 :: "u8 list \<Rightarrow> u32 list" where
  "words32 (a # b # c # d # bs) =
     (push_bit 24 (ucast a) OR push_bit 16 (ucast b) OR push_bit 8 (ucast c) OR ucast d) # words32 bs"
| "words32 _ = []"

definition sha1_pad :: "u8 list \<Rightarrow> u8 list" where
  "sha1_pad bs =
     (let n = length bs; k = (119 - n mod 64) mod 64; l = (of_nat (8 * n) :: u64) in
      bs @ [0x80] @ replicate k 0 @ map (\<lambda>i. ucast (drop_bit (8 * (7 - i)) l)) [0..<8])"

text \<open>The message schedule, newest word first.\<close>

fun sha1_schedule :: "nat \<Rightarrow> u32 list \<Rightarrow> u32 list" where
  "sha1_schedule 0 ws = ws"
| "sha1_schedule (Suc n) ws =
     sha1_schedule n (word_rotl 1 (ws ! 2 XOR ws ! 7 XOR ws ! 13 XOR ws ! 15) # ws)"

type_synonym sha1_state = "u32 \<times> u32 \<times> u32 \<times> u32 \<times> u32"

definition sha1_round :: "nat \<Rightarrow> u32 \<Rightarrow> sha1_state \<Rightarrow> sha1_state" where
  "sha1_round t w s =
     (case s of (a, b, c, d, e) \<Rightarrow>
      let (f, k) =
        (if t < 20 then ((b AND c) OR ((NOT b) AND d), 0x5A827999)
         else if t < 40 then (b XOR c XOR d, 0x6ED9EBA1)
         else if t < 60 then ((b AND c) OR (b AND d) OR (c AND d), 0x8F1BBCDC)
         else (b XOR c XOR d, 0xCA62C1D6))
      in (word_rotl 5 a + f + e + k + w, a, word_rotl 30 b, c, d))"

fun sha1_rounds :: "nat \<Rightarrow> u32 list \<Rightarrow> sha1_state \<Rightarrow> sha1_state" where
  "sha1_rounds t [] s = s"
| "sha1_rounds t (w # ws) s = sha1_rounds (Suc t) ws (sha1_round t w s)"

definition sha1_block :: "u8 list \<Rightarrow> sha1_state \<Rightarrow> sha1_state" where
  "sha1_block bs s =
     (case s of (a, b, c, d, e) \<Rightarrow>
      case sha1_rounds 0 (rev (sha1_schedule 64 (rev (words32 bs)))) s of (a', b', c', d', e') \<Rightarrow>
        (a + a', b + b', c + c', d + d', e + e'))"

function sha1_blocks :: "u8 list \<Rightarrow> sha1_state \<Rightarrow> sha1_state" where
  "sha1_blocks bs s = (if length bs < 64 then s else sha1_blocks (drop 64 bs) (sha1_block (take 64 bs) s))"
  by pat_completeness auto
termination by (relation "measure (\<lambda>(bs, s). length bs)") auto

definition hex8 :: "u32 \<Rightarrow> string" where
  "hex8 w = (let h = show_hex (unat w) in replicate (8 - length h) (CHR ''0'') @ h)"

definition sha1_groups :: "string \<Rightarrow> string list" where
  "sha1_groups s =
     (case sha1_blocks (sha1_pad (map of_char s)) (0x67452301, 0xEFCDAB89, 0x98BADCFE, 0x10325476, 0xC3D2E1F0)
      of (a, b, c, d, e) \<Rightarrow> [hex8 a, hex8 b, hex8 c, hex8 d, hex8 e])"

section \<open>Time\<close>

abbreviation second :: int where "second \<equiv> 1000000000"

text \<open>A product of durations wraps; \<open>Sub\<close> saturates.\<close>

definition time_Sub :: "int \<Rightarrow> int \<Rightarrow> int" where
  "time_Sub t u = max (- (2 ^ 63)) (min (2 ^ 63 - 1) (t - u))"

text \<open>\<open>int(d.Seconds())\<close>\<close>

definition int_Seconds :: "int \<Rightarrow> int" where
  "int_Seconds d =
     f64_to_int64 (f64_add (f64_of_int (sgn d * (\<bar>d\<bar> div second)))
       (f64_div (f64_of_int (sgn d * (\<bar>d\<bar> mod second))) (f64_of_int second)))"

text \<open>Year, month and day of an instant.\<close>

definition civil_date :: "int \<Rightarrow> int \<times> int \<times> int" where
  "civil_date t =
     (let z = t div (86400 * second) + 693901; era = z div 146097; doe = z mod 146097;
          yoe = (doe - doe div 1460 + doe div 36524 - doe div 146096) div 365;
          doy = doe - (365 * yoe + yoe div 4 - yoe div 100); mp = (5 * doy + 2) div 153;
          m = (if mp < 10 then mp + 3 else mp - 9)
      in (yoe + era * 400 + (if m \<le> 2 then 1 else 0), m, doy - (153 * mp + 2) div 5 + 1))"

definition month_names :: "string list" where
  "month_names = [''Jan'', ''Feb'', ''Mar'', ''Apr'', ''May'', ''Jun'', ''Jul'', ''Aug'', ''Sep'', ''Oct'', ''Nov'', ''Dec'']"

abbreviation gpsStartTime :: int where "gpsStartTime \<equiv> 2524953600 * second"
abbreviation expiration2036 :: int where "expiration2036 \<equiv> 4291747200 * second"

text \<open>\<open>time.ParseDuration\<close> of a number of hours.\<close>

definition parse_hours :: "nat \<Rightarrow> int option" where
  "parse_hours h = (if h \<le> 2562047 then Some (int h * 3600 * second) else None)"

section \<open>The file\<close>

record leap_event =
  le_LeapTime :: string
  le_LeapSec :: int
  le_Comment :: string

record leap_file =
  lf_ExpirationTime :: string
  lf_UpdateTime :: string
  lf_LeapEvents :: "leap_event list"
  lf_Hash :: string

definition empty_leap_file :: leap_file where
  "empty_leap_file = \<lparr>lf_ExpirationTime = '''', lf_UpdateTime = '''', lf_LeapEvents = [], lf_Hash = ''''\<rparr>"

text \<open>One line; a header line without a value panics.\<close>

definition parse_leap_line :: "string \<Rightarrow> leap_file \<Rightarrow> leap_file outcome" where
  "parse_leap_line line l =
     (let fields = Fields line in
      if has_prefix line ''#$'' then (case fields of _ # v # _ \<Rightarrow> Done (l\<lparr>lf_UpdateTime := v\<rparr>) | _ \<Rightarrow> Panicked)
      else if has_prefix line ''#@'' then (case fields of _ # v # _ \<Rightarrow> Done (l\<lparr>lf_ExpirationTime := v\<rparr>) | _ \<Rightarrow> Panicked)
      else if has_prefix line ''#h'' then Done (l\<lparr>lf_Hash := join '' '' (tl fields)\<rparr>)
      else if has_prefix line ''#'' then Done l
      else (case fields of
              t # s # rest \<Rightarrow>
                (case ParseInt s 10 8 of
                   (_, Some e) \<Rightarrow> Failed ''failed to parse Leap seconds''
                 | (n, None) \<Rightarrow>
                     (case snd (ParseInt t 10 64) of
                        Some e \<Rightarrow> Failed ''failed to parse Leap event time''
                      | None \<Rightarrow> Done (l\<lparr>lf_LeapEvents := lf_LeapEvents l @
                                  [\<lparr>le_LeapTime = t, le_LeapSec = n, le_Comment = join '' '' rest\<rparr>]\<rparr>)))
            | _ \<Rightarrow> Done l))"

fun parse_leap_lines :: "string list \<Rightarrow> leap_file \<Rightarrow> leap_file outcome" where
  "parse_leap_lines [] l = Done l"
| "parse_leap_lines (x # xs) l =
     (case parse_leap_line x l of Done l' \<Rightarrow> parse_leap_lines xs l' | Failed e \<Rightarrow> Failed e | Panicked \<Rightarrow> Panicked)"

definition parseLeapFile :: "string \<Rightarrow> leap_file outcome" where
  "parseLeapFile b = parse_leap_lines (split_ch (CHR 0x0A) b) empty_leap_file"

text \<open>The template is one of \<open>html/template\<close>: values are escaped as HTML text.\<close>

definition html_char :: "char \<Rightarrow> string" where
  "html_char c =
     (if c = CHR 0x00 then [CHR 0xEF, CHR 0xBF, CHR 0xBD] else if c = CHR 0x22 then ''&#34;''
      else if c = CHR ''&'' then ''&amp;'' else if c = CHR 0x27 then ''&#39;'' else if c = CHR ''+'' then ''&#43;''
      else if c = CHR ''<'' then ''&lt;'' else if c = CHR ''>'' then ''&gt;'' else [c])"

definition html_text :: "string \<Rightarrow> string" where
  "html_text s = concat (map html_char s)"

definition render_event :: "leap_event \<Rightarrow> string" where
  "render_event ev =
     html_text (le_LeapTime ev) @ ''     '' @ html_text (show_int (le_LeapSec ev)) @ ''    '' @ html_text (le_Comment ev)"

definition renderLeapData :: "leap_file \<Rightarrow> string" where
  "renderLeapData l =
     (let nl = [CHR 0x0A]; tab = [CHR 0x09] in
      ''# Do not edit'' @ nl @ ''# This file is generated automatically by linuxptp-daemon'' @ nl @
      ''#$'' @ tab @ html_text (lf_UpdateTime l) @ nl @ ''#@'' @ tab @ html_text (lf_ExpirationTime l) @ nl @
      concat (map (\<lambda>ev. render_event ev @ nl) (lf_LeapEvents l)) @ nl @ ''#h'' @ tab @ html_text (lf_Hash l))"

definition rehashLeapData :: "leap_file \<Rightarrow> leap_file" where
  "rehashLeapData l =
     l\<lparr>lf_Hash := join '' '' (sha1_groups (lf_UpdateTime l @ lf_ExpirationTime l @
        concat (map (\<lambda>ev. le_LeapTime ev @ show_int (le_LeapSec ev)) (lf_LeapEvents l))))\<rparr>"

section \<open>The manager\<close>

record leap_manager =
  lm_leapFile :: leap_file
  lm_retryUpdate :: bool
  lm_utcOffset :: int
  lm_utcOffsetTime :: int
  lm_pmcLeapSent :: bool
  lm_allowed :: "u8 \<Rightarrow> bool"

definition new_leap_manager :: leap_manager where
  "new_leap_manager = \<lparr>lm_leapFile = empty_leap_file, lm_retryUpdate = False, lm_utcOffset = 0, lm_utcOffsetTime = - (693595 * 86400 * second),
     lm_pmcLeapSent = False, lm_allowed = (\<lambda>s. s = 2)\<rparr>"

definition SetAllowedLeapSources :: "(u8 \<Rightarrow> bool) \<Rightarrow> leap_manager \<Rightarrow> leap_manager" where
  "SetAllowedLeapSources f l = l\<lparr>lm_allowed := f\<rparr>"

text \<open>The last event and its instant: no event panics, a bad time fails.\<close>

definition last_leap :: "leap_file \<Rightarrow> (leap_event \<times> int) outcome" where
  "last_leap f =
     (if lf_LeapEvents f = [] then Panicked
      else (let ev = last (lf_LeapEvents f) in
            case Atoi (le_LeapTime ev) of
              (s, None) \<Rightarrow> Done (ev, wrap64 (s * second))
            | _ \<Rightarrow> Failed ''strconv.Atoi''))"

text \<open>The error of \<open>setUtcOffset\<close> is ignored by its callers.\<close>

definition setUtcOffset :: "leap_manager \<Rightarrow> leap_manager outcome" where
  "setUtcOffset l =
     (case last_leap (lm_leapFile l) of
        Panicked \<Rightarrow> Panicked
      | Failed e \<Rightarrow> Done l
      | Done (ev, t) \<Rightarrow> Done (l\<lparr>lm_utcOffsetTime := t, lm_utcOffset := le_LeapSec ev\<rparr>))"

text \<open>\<open>GetUtcOffset\<close> of a manager; \<open>None\<close> is the fatal exit.\<close>

definition GetUtcOffset :: "int \<Rightarrow> leap_manager option \<Rightarrow> int option" where
  "GetUtcOffset now mgr =
     (case mgr of
        None \<Rightarrow> None
      | Some l \<Rightarrow>
          if lm_utcOffsetTime l < now then Some (lm_utcOffset l)
          else (let evs = lf_LeapEvents (lm_leapFile l) in
                if 1 < length evs then Some (le_LeapSec (evs ! (length evs - 2))) else None))"

definition updateLeapFile :: "int \<Rightarrow> int \<Rightarrow> int \<Rightarrow> leap_manager \<Rightarrow> leap_manager outcome" where
  "updateLeapFile leapTime leapSec currentTime l =
     (let f = lm_leapFile l;
          f1 = (if leapSec \<noteq> 0 then
                  (case civil_date leapTime of (y, m, d) \<Rightarrow>
                   f\<lparr>lf_LeapEvents := lf_LeapEvents f @
                      [\<lparr>le_LeapTime = show_int (int_Seconds (time_Sub leapTime 0)), le_LeapSec = leapSec,
                        le_Comment = ''# '' @ show_int d @ '' '' @ month_names ! nat (m - 1) @ '' '' @ show_int y\<rparr>]\<rparr>)
                else f);
          f2 = f1\<lparr>lf_UpdateTime := show_int (int_Seconds (time_Sub currentTime 0))\<rparr>
      in setUtcOffset (l\<lparr>lm_leapFile := rehashLeapData f2\<rparr>))"

text \<open>\<open>processLeapIndication\<close>: leap time, leap seconds and update time, or nothing.\<close>

definition processLeapIndication :: "int \<Rightarrow> time_ls \<Rightarrow> leap_manager \<Rightarrow> (int \<times> int \<times> int) option outcome" where
  "processLeapIndication now d l =
     (if \<not> lm_allowed l (tl_SrcOfCurrLs d) then Done None
      else case last_leap (lm_leapFile l) of
             Panicked \<Rightarrow> Panicked
           | Failed e \<Rightarrow> Failed e
           | Done (ev, fileLsDate) \<Rightarrow>
               if tl_Valid d AND 2 \<noteq> 0 \<and> tl_Valid d AND 1 \<noteq> 0 then
                 (let leapSec = tl_CurrLs d + 19 + tl_LsChange d in
                  if leapSec \<noteq> le_LeapSec ev \<and> fileLsDate < now then
                    (case parse_hours (tl_DateOfLsGpsWn d * 7 * 24 + unat (tl_DateOfLsGpsDn d) * 24) of
                       None \<Rightarrow> Failed ''failed to parse time duration''
                     | Some h \<Rightarrow>
                         Done (Some (if tl_LsChange d = 0 \<and> 0 \<le> tl_TimeToLsEvent d then now - 60 * second
                                     else gpsStartTime + h, leapSec, now)))
                  else Done None)
               else Done None)"

section \<open>The config map\<close>

text \<open>
  The data of the config map (\<open>None\<close> when it cannot be read) and whether it can be updated. \<open>upd\<close> is
  the data written, if any.
\<close>

definition updateLeapConfigmap ::
  "string \<Rightarrow> (string \<rightharpoonup> string) option \<Rightarrow> bool \<Rightarrow> leap_manager \<Rightarrow> leap_manager \<times> (string \<rightharpoonup> string) option" where
  "updateLeapConfigmap node cm update_ok l =
     (case cm of
        None \<Rightarrow> (l\<lparr>lm_retryUpdate := True\<rparr>, None)
      | Some data \<Rightarrow>
          if update_ok then (l\<lparr>lm_retryUpdate := False\<rparr>, Some (data(node \<mapsto> renderLeapData (lm_leapFile l))))
          else (l\<lparr>lm_retryUpdate := True\<rparr>, None))"

definition populateLeapData ::
  "string \<Rightarrow> (string \<rightharpoonup> string) option \<Rightarrow> string option \<Rightarrow> bool \<Rightarrow> leap_manager \<Rightarrow> (leap_manager \<times> (string \<rightharpoonup> string) option) outcome" where
  "populateLeapData node cm file update_ok l =
     (case cm of
        None \<Rightarrow> Failed ''configmap''
      | Some data \<Rightarrow>
          (case data node of
             Some lf \<Rightarrow>
               (case parseLeapFile lf of
                  Panicked \<Rightarrow> Panicked
                | Failed e \<Rightarrow> Failed e
                | Done f \<Rightarrow> (case setUtcOffset (l\<lparr>lm_leapFile := f\<rparr>) of
                              Panicked \<Rightarrow> Panicked | Failed e \<Rightarrow> Failed e | Done l' \<Rightarrow> Done (l', None)))
           | None \<Rightarrow>
               (case file of
                  None \<Rightarrow> Failed ''leap-seconds.list''
                | Some b \<Rightarrow>
                    (case parseLeapFile b of
                       Panicked \<Rightarrow> Panicked
                     | Failed e \<Rightarrow> Failed e
                     | Done f \<Rightarrow>
                         (let f1 = rehashLeapData (f\<lparr>lf_ExpirationTime := show_int (int_Seconds (time_Sub expiration2036 0))\<rparr>);
                              data1 = data(node \<mapsto> renderLeapData f1)
                          in if \<not> update_ok then Failed ''update''
                             else (case setUtcOffset (l\<lparr>lm_leapFile := f1\<rparr>) of
                                     Panicked \<Rightarrow> Panicked | Failed e \<Rightarrow> Failed e | Done l' \<Rightarrow> Done (l', Some data1)))))))"

definition handleLeapIndication ::
  "int \<Rightarrow> string \<Rightarrow> (string \<rightharpoonup> string) option \<Rightarrow> bool \<Rightarrow> time_ls \<Rightarrow> leap_manager \<Rightarrow> (leap_manager \<times> (string \<rightharpoonup> string) option) outcome" where
  "handleLeapIndication now node cm update_ok d l =
     (case processLeapIndication now d l of
        Panicked \<Rightarrow> Panicked
      | Failed e \<Rightarrow> Done (l, None)
      | Done None \<Rightarrow> Done (l, None)
      | Done (Some (leapTime, leapSec, upd)) \<Rightarrow>
          (case updateLeapFile leapTime leapSec upd l of
             Done l1 \<Rightarrow> Done (updateLeapConfigmap node cm update_ok l1)
           | Failed e \<Rightarrow> Failed e
           | Panicked \<Rightarrow> Panicked))"

section \<open>Announcing a leap second\<close>

definition IsLeapInWindow :: "int \<Rightarrow> int \<Rightarrow> int \<Rightarrow> leap_file \<Rightarrow> bool outcome" where
  "IsLeapInWindow now startOffset endOffset f =
     (case last_leap f of
        Panicked \<Rightarrow> Panicked
      | Failed e \<Rightarrow> Done False
      | Done (ev, t) \<Rightarrow> Done (t + startOffset < now \<and> now < t + endOffset))"

abbreviation in_pmc_window :: "int \<Rightarrow> leap_file \<Rightarrow> bool outcome" where
  "in_pmc_window now f \<equiv> IsLeapInWindow now (- (12 * 3600 * second)) (- (60 * second)) f"

text \<open>The settings to announce, when the leap seconds change.\<close>

definition leap_flags :: "int \<Rightarrow> grandmaster_settings \<Rightarrow> grandmaster_settings option" where
  "leap_flags leapSec g =
     (let diff = leapSec - sint (tp_CurrentUtcOffset (gs_TimePropertiesDS g)); t = gs_TimePropertiesDS g in
      if 0 < diff then Some (g\<lparr>gs_TimePropertiesDS := t\<lparr>tp_Leap59 := False, tp_Leap61 := True\<rparr>\<rparr>)
      else if diff < 0 then Some (g\<lparr>gs_TimePropertiesDS := t\<lparr>tp_Leap59 := True, tp_Leap61 := False\<rparr>\<rparr>)
      else None)"

text \<open>A tick: the settings read (\<open>None\<close> on error), whether setting them succeeds, and what was sent.\<close>

definition leap_announce ::
  "int \<Rightarrow> grandmaster_settings option \<Rightarrow> bool \<Rightarrow> leap_manager \<Rightarrow> (leap_manager \<times> grandmaster_settings list) outcome" where
  "leap_announce now got set_ok l =
     (case in_pmc_window now (lm_leapFile l) of
        Panicked \<Rightarrow> Panicked
      | Failed e \<Rightarrow> Failed e
      | Done False \<Rightarrow> Done (l\<lparr>lm_pmcLeapSent := False\<rparr>, [])
      | Done True \<Rightarrow>
          if lm_pmcLeapSent l then Done (l, [])
          else (case got of
                  None \<Rightarrow> Done (l, [])
                | Some g \<Rightarrow>
                    (case leap_flags (le_LeapSec (last (lf_LeapEvents (lm_leapFile l)))) g of
                       None \<Rightarrow> Done (l\<lparr>lm_pmcLeapSent := True\<rparr>, [])
                     | Some g1 \<Rightarrow> Done (if set_ok then l\<lparr>lm_pmcLeapSent := True\<rparr> else l, [g1]))))"

definition leap_tick ::
  "int \<Rightarrow> string \<Rightarrow> (string \<rightharpoonup> string) option \<Rightarrow> bool \<Rightarrow> grandmaster_settings option \<Rightarrow> bool \<Rightarrow> leap_manager \<Rightarrow>
     (leap_manager \<times> grandmaster_settings list \<times> (string \<rightharpoonup> string) option) outcome" where
  "leap_tick now node cm update_ok got set_ok l =
     (let (l1, upd) = (if lm_retryUpdate l then updateLeapConfigmap node cm update_ok l else (l, None)) in
      case leap_announce now got set_ok l1 of
        Done (l2, sent) \<Rightarrow> Done (l2, sent, upd) | Failed e \<Rightarrow> Failed e | Panicked \<Rightarrow> Panicked)"

section \<open>What is stored is read back\<close>

definition html_safe :: "string \<Rightarrow> bool" where
  "html_safe s \<longleftrightarrow> (\<forall>c \<in> set s. html_char c = [c])"

definition plain_text :: "string \<Rightarrow> bool" where
  "plain_text s \<longleftrightarrow> join '' '' (Fields s) = s \<and> html_safe s"

definition wf_leap_event :: "leap_event \<Rightarrow> bool" where
  "wf_leap_event ev \<longleftrightarrow>
     word_text (le_LeapTime ev) \<and> html_safe (le_LeapTime ev) \<and> hd (le_LeapTime ev) \<noteq> CHR ''#'' \<and>
     snd (ParseInt (le_LeapTime ev) 10 64) = None \<and> -128 \<le> le_LeapSec ev \<and> le_LeapSec ev < 128 \<and> plain_text (le_Comment ev)"

definition wf_leap_file :: "leap_file \<Rightarrow> bool" where
  "wf_leap_file f \<longleftrightarrow>
     word_text (lf_UpdateTime f) \<and> html_safe (lf_UpdateTime f) \<and> word_text (lf_ExpirationTime f) \<and>
     html_safe (lf_ExpirationTime f) \<and> plain_text (lf_Hash f) \<and> list_all wf_leap_event (lf_LeapEvents f)"

lemma html_text_safe: "html_safe s \<Longrightarrow> html_text s = s"
  by (induction s) (auto simp: html_safe_def html_text_def)

lemma show_int_safe: "html_safe (show_int i)"
proof -
  have d: "html_char c = [c]" if "ch_digit c" for c
  proof -
    have "\<not> ch_digit (CHR 0x00)" "\<not> ch_digit (CHR 0x22)" "\<not> ch_digit (CHR ''&'')" "\<not> ch_digit (CHR 0x27)"
      "\<not> ch_digit (CHR ''+'')" "\<not> ch_digit (CHR ''<'')" "\<not> ch_digit (CHR ''>'')"
      by (simp_all add: ch_digit_def)
    with that have "c \<noteq> CHR 0x00" "c \<noteq> CHR 0x22" "c \<noteq> CHR ''&''" "c \<noteq> CHR 0x27" "c \<noteq> CHR ''+''" "c \<noteq> CHR ''<''" "c \<noteq> CHR ''>''"
      by blast+
    then show ?thesis unfolding html_char_def by (simp only: if_False)
  qed
  have "list_all ch_digit (show_nat n)" for n
    using show_base_chars(2)[of 10 n] by (simp add: show_nat_def)
  then have "html_safe (show_nat n)" for n using d by (auto simp: html_safe_def list_all_iff)
  then show ?thesis by (auto simp: show_int_def html_safe_def html_char_def)
qed

lemma ParseInt_show_int:
  assumes "0 < bits" "- (2 ^ (bits - 1)) \<le> i" "i < 2 ^ (bits - 1)"
  shows "ParseInt (show_int i) 10 bits = (i, None)"
proof (cases "i < 0")
  case False
  then show ?thesis using assms ParseInt_show_nat[of bits "nat i"] by (simp add: show_int_def)
next
  case True
  have "nat (- i) < 2 ^ bits"
  proof -
    have "- i < 2 ^ bits" using assms power_strict_increasing[of "bits - 1" bits "2 :: int"] by linarith
    then show ?thesis by (simp add: nat_less_iff)
  qed
  then have "ParseUint (show_nat (nat (- i))) 10 bits = (nat (- i), None)"
    by (simp add: show_nat_def ParseUint_show_base)
  then show ?thesis using True assms
    by (simp add: show_int_def ParseInt_def Let_def)
qed

lemma word_text_spaces: "word_text s \<Longrightarrow> s \<noteq> [] \<and> (\<forall>c \<in> set s. \<not> ch_space c)"
  by (auto simp: word_text_def list_all_iff)

lemma Fields_word: "word_text s \<Longrightarrow> ch_space c \<Longrightarrow> Fields (s @ c # t) = s # Fields t"
  using fields_from_plain[of s "[]" "c # t"] word_text_spaces[of s] by (simp add: Fields_def)

lemma Fields_blank [simp]: "Fields (CHR '' '' # t) = Fields t" "Fields (CHR 0x09 # t) = Fields t"
  by (simp_all add: Fields_def ch_space_def)

lemma set_join: "set (join sep xs) \<subseteq> set sep \<union> (\<Union>x \<in> set xs. set x)"
  by (induction sep xs rule: join.induct) auto

lemma plain_no_newline: "plain_text s \<Longrightarrow> CHR 0x0A \<notin> set s"
proof
  assume p: "plain_text s" and c: "CHR 0x0A \<in> set s"
  have "CHR 0x0A \<in> set (join '' '' (Fields s))" using p c by (simp add: plain_text_def)
  then obtain f where "f \<in> set (Fields s)" "CHR 0x0A \<in> set f" using set_join[of "'' ''" "Fields s"] by auto
  then show False using Fields_parts[of f s] by (auto simp: ch_space_def)
qed

lemma word_no_newline: "word_text s \<Longrightarrow> CHR 0x0A \<notin> set s"
  using word_text_spaces by (force simp: ch_space_def)

lemma not_hash_prefix: "word_text t \<Longrightarrow> hd t \<noteq> CHR ''#'' \<Longrightarrow> \<not> has_prefix (t @ s) (CHR ''#'' # p)"
  by (cases t) (auto simp: word_text_def has_prefix_def)

lemma parse_event_line:
  assumes "wf_leap_event ev"
  shows "parse_leap_line (render_event ev) l = Done (l\<lparr>lf_LeapEvents := lf_LeapEvents l @ [ev]\<rparr>)"
proof -
  obtain t s c where ev: "ev = \<lparr>le_LeapTime = t, le_LeapSec = s, le_Comment = c\<rparr>" by (cases ev)
  have w: "word_text t" "html_safe t" "hd t \<noteq> CHR ''#''" "-128 \<le> s" "s < 128"
    and c: "join '' '' (Fields c) = c" "html_safe c"
    using assms by (auto simp: wf_leap_event_def ev plain_text_def)
  have perr: "snd (ParseInt t 10 64) = None" using assms by (simp add: wf_leap_event_def ev)
  have r: "render_event ev = t @ ''     '' @ show_int s @ ''    '' @ c"
    using w c by (simp add: render_event_def ev html_text_safe show_int_safe)
  have f: "Fields (render_event ev) = t # show_int s # Fields c"
    unfolding r using Fields_word[OF w(1), of "CHR '' ''"] Fields_word[OF reads_signed(2), of "CHR '' ''" s]
    by (simp add: ch_space_def)
  have np: "\<not> has_prefix (render_event ev) (CHR ''#'' # p)" for p
    unfolding r by (rule not_hash_prefix[OF w(1,3)])
  have "ParseInt (show_int s) 10 8 = (s, None)"
    using ParseInt_show_int[of 8 s] w(4,5) by simp
  then show ?thesis unfolding parse_leap_line_def Let_def f using np perr c(1) by (simp add: ev)
qed

lemma parse_event_lines:
  "list_all wf_leap_event evs \<Longrightarrow>
     parse_leap_lines (map render_event evs @ ls) l = parse_leap_lines ls (l\<lparr>lf_LeapEvents := lf_LeapEvents l @ evs\<rparr>)"
  by (induction evs arbitrary: l) (simp_all add: parse_event_line)

lemma event_no_newline: "wf_leap_event ev \<Longrightarrow> CHR 0x0A \<notin> set (render_event ev)"
proof -
  assume w: "wf_leap_event ev"
  then have "CHR 0x0A \<notin> set (le_LeapTime ev)" "CHR 0x0A \<notin> set (le_Comment ev)"
    using word_no_newline plain_no_newline by (auto simp: wf_leap_event_def)
  moreover have "CHR 0x0A \<notin> set (show_int (le_LeapSec ev))" using word_no_newline reads_signed(2) by blast
  ultimately show ?thesis using w show_int_safe
    by (auto simp: render_event_def html_text_safe wf_leap_event_def plain_text_def)
qed

lemma split_events:
  "list_all wf_leap_event evs \<Longrightarrow>
     split_ch (CHR 0x0A) (concat (map (\<lambda>ev. render_event ev @ [CHR 0x0A]) evs) @ s) = map render_event evs @ split_ch (CHR 0x0A) s"
  by (induction evs) (simp_all add: split_ch_Cons event_no_newline)

lemma leap_line_hash:
  "parse_leap_line ''# Do not edit'' l = Done l"
  "parse_leap_line ''# This file is generated automatically by linuxptp-daemon'' l = Done l"
  "parse_leap_line '''' l = Done l"
  by (simp_all add: parse_leap_line_def has_prefix_def Fields_def)

lemma leap_line_header:
  "word_text v \<Longrightarrow> parse_leap_line (''#$'' @ [CHR 0x09] @ v) l = Done (l\<lparr>lf_UpdateTime := v\<rparr>)"
  "word_text v \<Longrightarrow> parse_leap_line (''#@'' @ [CHR 0x09] @ v) l = Done (l\<lparr>lf_ExpirationTime := v\<rparr>)"
  "plain_text h \<Longrightarrow> parse_leap_line (''#h'' @ [CHR 0x09] @ h) l = Done (l\<lparr>lf_Hash := h\<rparr>)"
proof -
  have w: "word_text [CHR ''#'', c]" if "\<not> ch_space c" for c using that by (simp add: word_text_def ch_space_def)
  have f: "Fields (CHR ''#'' # c # CHR 0x09 # s) = [CHR ''#'', c] # Fields s" if "\<not> ch_space c" for c s
    using Fields_word[OF w[OF that], of "CHR 0x09" s] by (simp add: ch_space_def)
  have v: "word_text v \<Longrightarrow> Fields v = [v]" using word_text_spaces[of v] by (intro Fields_one) auto
  show "word_text v \<Longrightarrow> parse_leap_line (''#$'' @ [CHR 0x09] @ v) l = Done (l\<lparr>lf_UpdateTime := v\<rparr>)"
    using v by (simp add: parse_leap_line_def f ch_space_def has_prefix_def)
  show "word_text v \<Longrightarrow> parse_leap_line (''#@'' @ [CHR 0x09] @ v) l = Done (l\<lparr>lf_ExpirationTime := v\<rparr>)"
    using v by (simp add: parse_leap_line_def f ch_space_def has_prefix_def)
  show "plain_text h \<Longrightarrow> parse_leap_line (''#h'' @ [CHR 0x09] @ h) l = Done (l\<lparr>lf_Hash := h\<rparr>)"
    by (simp add: parse_leap_line_def f ch_space_def has_prefix_def plain_text_def)
qed

text \<open>
  C40. a leap-seconds file whose texts are words, or words separated by single blanks, without characters
  special in HTML, is read back from the config map exactly as it was rendered.
\<close>

theorem leap_file_round_trip:
  assumes "wf_leap_file f"
  shows "parseLeapFile (renderLeapData f) = Done f"
proof -
  obtain e u evs h where f: "f = \<lparr>lf_ExpirationTime = e, lf_UpdateTime = u, lf_LeapEvents = evs, lf_Hash = h\<rparr>"
    by (cases f)
  have w: "word_text u" "html_safe u" "word_text e" "html_safe e" "plain_text h" "list_all wf_leap_event evs"
    using assms by (auto simp: wf_leap_file_def f)
  have h: "html_safe h" using w(5) by (simp add: plain_text_def)
  let ?nl = "CHR 0x0A"
  have nl: "?nl \<notin> set (''#$'' @ [CHR 0x09] @ u)" "?nl \<notin> set (''#@'' @ [CHR 0x09] @ e)" "?nl \<notin> set (''#h'' @ [CHR 0x09] @ h)"
    using word_no_newline[OF w(1)] word_no_newline[OF w(3)] plain_no_newline[OF w(5)] by simp_all
  have r: "renderLeapData f =
     ''# Do not edit'' @ ?nl # (''# This file is generated automatically by linuxptp-daemon'' @ ?nl #
      ((''#$'' @ [CHR 0x09] @ u) @ ?nl # ((''#@'' @ [CHR 0x09] @ e) @ ?nl #
      (concat (map (\<lambda>ev. render_event ev @ [?nl]) evs) @ [] @ ?nl # (''#h'' @ [CHR 0x09] @ h)))))"
    using w h by (simp add: renderLeapData_def f html_text_safe)
  have n0: "?nl \<notin> set ''# Do not edit''" "?nl \<notin> set ''# This file is generated automatically by linuxptp-daemon''" "?nl \<notin> set []"
    by simp_all
  have lines: "split_ch ?nl (renderLeapData f) =
     [''# Do not edit'', ''# This file is generated automatically by linuxptp-daemon'', ''#$'' @ [CHR 0x09] @ u, ''#@'' @ [CHR 0x09] @ e] @
     map render_event evs @ ['''', ''#h'' @ [CHR 0x09] @ h]"
    unfolding r split_ch_Cons[OF n0(1)] split_ch_Cons[OF n0(2)] split_ch_Cons[OF nl(1)] split_ch_Cons[OF nl(2)]
      split_events[OF w(6)] split_ch_Cons[OF n0(3)] split_ch_plain[OF nl(3)] by simp
  show ?thesis
    unfolding parseLeapFile_def lines append.simps parse_leap_lines.simps leap_line_hash leap_line_header(1)[OF w(1), unfolded append.simps]
      leap_line_header(2)[OF w(3), unfolded append.simps] outcome.case parse_event_lines[OF w(6)] leap_line_header(3)[OF w(5), unfolded append.simps]
    by (simp add: empty_leap_file_def f)
qed

definition leap_file_example :: leap_file where
  "leap_file_example =
     \<lparr>lf_ExpirationTime = ''4291747200'', lf_UpdateTime = ''3927775672'',
      lf_LeapEvents = [\<lparr>le_LeapTime = ''3692217600'', le_LeapSec = 37, le_Comment = ''# 1 Jan 2017''\<rparr>],
      lf_Hash = ''11111111 22222222''\<rparr>"

lemma example_reads:
  "ParseInt ''3692217600'' 10 64 = (3692217600, None)" "Atoi ''3692217600'' = (3692217600, None)"
  "ParseInt ''37'' 10 8 = (37, None)"
  by (simp_all add: Atoi_def ParseInt_def ParseUint_def digit_val_def)

lemma leap_file_example_wf: "wf_leap_file leap_file_example"
proof -
  have a: "Fields ''# 1 Jan 2017'' = [''#'', ''1'', ''Jan'', ''2017'']" "Fields ''11111111 22222222'' = [''11111111'', ''22222222'']"
    by (simp_all add: Fields_def ch_space_def)
  show ?thesis
    by (simp add: wf_leap_file_def wf_leap_event_def leap_file_example_def word_text_def html_safe_def html_char_def
        plain_text_def a example_reads ch_space_def)
qed

theorem leap_file_round_trip_witness: "parseLeapFile (renderLeapData leap_file_example) = Done leap_file_example"
  by (rule leap_file_round_trip[OF leap_file_example_wf])

text \<open>A comment with an ampersand is not read back: the template escapes it as HTML.\<close>

lemma html_comment_changes:
  "parse_leap_line (render_event \<lparr>le_LeapTime = ''3692217600'', le_LeapSec = 37, le_Comment = ''# A&B''\<rparr>) l =
     Done (l\<lparr>lf_LeapEvents := lf_LeapEvents l @
       [\<lparr>le_LeapTime = ''3692217600'', le_LeapSec = 37, le_Comment = ''# A&amp;B''\<rparr>]\<rparr>)"
proof -
  have e: "render_event \<lparr>le_LeapTime = ''3692217600'', le_LeapSec = 37, le_Comment = ''# A&B''\<rparr> = ''3692217600     37    # A&amp;B''"
    by code_simp
  have f: "Fields ''3692217600     37    # A&amp;B'' = [''3692217600'', ''37'', ''#'', ''A&amp;B'']" by code_simp
  show ?thesis unfolding parse_leap_line_def e f Let_def
    by (simp add: example_reads has_prefix_def)
qed

text \<open>A header without a blank before its value panics; so does a file without events when it is loaded.\<close>

lemma parse_can_panic: "parseLeapFile ''#$3927775672'' = Panicked"
  by code_simp

lemma no_event_panics:
  assumes "cm = Some data" "data node = Some ''# Do not edit''"
  shows "populateLeapData node cm file ok l = Panicked"
proof -
  have "parseLeapFile ''# Do not edit'' = Done empty_leap_file" by code_simp
  then show ?thesis using assms by (simp add: populateLeapData_def setUtcOffset_def last_leap_def empty_leap_file_def)
qed

section \<open>Indications\<close>

lemma f64_to_int64_range: "- (2 ^ 63) \<le> f64_to_int64 x \<and> f64_to_int64 x < 2 ^ 63"
  by (cases x) (simp_all add: Let_def)

lemma Atoi_seconds: "Atoi (show_int (int_Seconds d)) = (int_Seconds d, None)"
  unfolding Atoi_def using f64_to_int64_range by (intro ParseInt_show_int) (simp_all add: int_Seconds_def)

lemma updateLeapFile_result:
  assumes "s \<noteq> 0"
  shows "\<exists>f t ev. updateLeapFile lt s now l = Done (l\<lparr>lm_leapFile := f, lm_utcOffsetTime := t, lm_utcOffset := s\<rparr>) \<and>
     last_leap f = Done (ev, t) \<and> le_LeapSec ev = s \<and>
     (\<exists>pre. lf_LeapEvents f = pre @ [ev] \<and> pre = lf_LeapEvents (lm_leapFile l))"
proof -
  obtain y m d where c: "civil_date lt = (y, m, d)" by (cases "civil_date lt")
  define ev where "ev = \<lparr>le_LeapTime = show_int (int_Seconds (time_Sub lt 0)), le_LeapSec = s,
                        le_Comment = ''# '' @ show_int d @ '' '' @ month_names ! nat (m - 1) @ '' '' @ show_int y\<rparr>"
  define f where "f = rehashLeapData ((lm_leapFile l)\<lparr>lf_LeapEvents := lf_LeapEvents (lm_leapFile l) @ [ev],
                        lf_UpdateTime := show_int (int_Seconds (time_Sub now 0))\<rparr>)"
  have evs: "lf_LeapEvents f = lf_LeapEvents (lm_leapFile l) @ [ev]" by (simp add: f_def rehashLeapData_def)
  have t: "last_leap f = Done (ev, wrap64 (int_Seconds (time_Sub lt 0) * second))"
    by (simp add: last_leap_def evs) (simp add: ev_def Atoi_seconds)
  have "updateLeapFile lt s now l = setUtcOffset (l\<lparr>lm_leapFile := f\<rparr>)"
    using assms by (simp add: updateLeapFile_def c f_def ev_def Let_def)
  also have "\<dots> = Done (l\<lparr>lm_leapFile := f, lm_utcOffsetTime := wrap64 (int_Seconds (time_Sub lt 0) * second), lm_utcOffset := s\<rparr>)"
    by (simp add: setUtcOffset_def t) (simp add: ev_def)
  finally have u: "updateLeapFile lt s now l =
     Done (l\<lparr>lm_leapFile := f, lm_utcOffsetTime := wrap64 (int_Seconds (time_Sub lt 0) * second), lm_utcOffset := s\<rparr>)" .
  have "le_LeapSec ev = s" by (simp add: ev_def)
  with u evs t show ?thesis by (intro exI conjI) (rule refl | assumption)+
qed

text \<open>
  C29. an accepted indication puts the leap seconds it announces at the end of the file and into the UTC
  offset, keeps the earlier events, is written to the config map of the node unless the API fails (then
  it will be retried), and the same indication changes nothing more, at whatever time it is repeated.
\<close>

theorem leap_indication_settles:
  assumes "processLeapIndication now d l = Done (Some (lt, s, u))" "s \<noteq> 0"
    "handleLeapIndication now node cm ok d l = Done (l1, upd)"
  shows "s = tl_CurrLs d + 19 + tl_LsChange d \<and> lm_utcOffset l1 = s \<and>
     (\<exists>ev. lf_LeapEvents (lm_leapFile l1) = lf_LeapEvents (lm_leapFile l) @ [ev] \<and> le_LeapSec ev = s) \<and>
     (if cm \<noteq> None \<and> ok then \<not> lm_retryUpdate l1 \<and> upd = Some ((the cm)(node \<mapsto> renderLeapData (lm_leapFile l1)))
      else lm_retryUpdate l1 \<and> upd = None) \<and>
     processLeapIndication now' d l1 = Done None"
proof -
  have s: "s = tl_CurrLs d + 19 + tl_LsChange d" and al: "lm_allowed l (tl_SrcOfCurrLs d)"
    using assms(1) by (auto simp: processLeapIndication_def Let_def split: if_splits outcome.splits prod.splits option.splits)
  obtain f t ev where up: "updateLeapFile lt s u l = Done (l\<lparr>lm_leapFile := f, lm_utcOffsetTime := t, lm_utcOffset := s\<rparr>)"
    and f: "last_leap f = Done (ev, t)" "le_LeapSec ev = s" "lf_LeapEvents f = lf_LeapEvents (lm_leapFile l) @ [ev]"
    using updateLeapFile_result[OF assms(2), of lt u l] by blast
  let ?l = "l\<lparr>lm_leapFile := f, lm_utcOffsetTime := t, lm_utcOffset := s\<rparr>"
  have h: "(l1, upd) = updateLeapConfigmap node cm ok ?l"
    using assms(1,3) by (simp add: handleLeapIndication_def up)
  have same: "lm_leapFile l1 = f" "lm_utcOffset l1 = s" "lm_allowed l1 = lm_allowed l"
    using h by (auto simp: updateLeapConfigmap_def split: option.splits if_splits)
  have "processLeapIndication now' d l1 = Done None"
    using al s f by (simp add: processLeapIndication_def same)
  moreover have "if cm \<noteq> None \<and> ok then \<not> lm_retryUpdate l1 \<and> upd = Some ((the cm)(node \<mapsto> renderLeapData (lm_leapFile l1)))
      else lm_retryUpdate l1 \<and> upd = None"
    using h by (auto simp: updateLeapConfigmap_def split: option.splits if_splits)
  ultimately show ?thesis using s f(2,3) same by blast
qed

definition leap_manager_example :: leap_manager where
  "leap_manager_example = new_leap_manager\<lparr>lm_leapFile := leap_file_example\<rparr>"

definition time_ls_example :: time_ls where
  "time_ls_example = \<lparr>tl_SrcOfCurrLs = 2, tl_CurrLs = 18, tl_SrcOfLsChange = 2, tl_LsChange = 1,
     tl_TimeToLsEvent = 3600, tl_DateOfLsGpsWn = 2400, tl_DateOfLsGpsDn = 7, tl_Valid = 3\<rparr>"

lemma time_ls_example_accepted:
  "processLeapIndication (4000000000 * second) time_ls_example leap_manager_example =
     Done (Some (gpsStartTime + 403368 * 3600 * second, 38, 4000000000 * second))"
proof -
  note example_reads(2)
  moreover have "wrap64 (3692217600 * second) = 3692217600 * second" by (simp add: wrap64_def)
  ultimately show ?thesis
    by (simp add: processLeapIndication_def leap_manager_example_def new_leap_manager_def time_ls_example_def last_leap_def
        leap_file_example_def parse_hours_def)
qed

theorem leap_indication_settles_witness:
  "\<exists>l1 upd. handleLeapIndication (4000000000 * second) ''node'' None True time_ls_example leap_manager_example = Done (l1, upd) \<and>
     lm_utcOffset l1 = 38 \<and> processLeapIndication 0 time_ls_example l1 = Done None"
proof -
  obtain f t ev where up: "updateLeapFile (gpsStartTime + 403368 * 3600 * second) 38 (4000000000 * second) leap_manager_example =
      Done (leap_manager_example\<lparr>lm_leapFile := f, lm_utcOffsetTime := t, lm_utcOffset := 38\<rparr>)"
    using updateLeapFile_result[of 38 "gpsStartTime + 403368 * 3600 * second" "4000000000 * second" leap_manager_example] by auto
  let ?l = "leap_manager_example\<lparr>lm_leapFile := f, lm_utcOffsetTime := t, lm_utcOffset := 38, lm_retryUpdate := True\<rparr>"
  have h: "handleLeapIndication (4000000000 * second) ''node'' None True time_ls_example leap_manager_example = Done (?l, None)"
    unfolding handleLeapIndication_def time_ls_example_accepted outcome.case option.case prod.case up
    by (simp add: updateLeapConfigmap_def)
  show ?thesis
    using leap_indication_settles[OF time_ls_example_accepted _ h, of 0] h by auto
qed

section \<open>One announcement per window\<close>

text \<open>Ticks with what they read, whether the setting succeeds, and what was sent.\<close>

fun announce_run ::
  "(int \<times> grandmaster_settings option \<times> bool) list \<Rightarrow> leap_manager \<Rightarrow> (leap_manager \<times> (grandmaster_settings \<times> bool) list) outcome" where
  "announce_run [] l = Done (l, [])"
| "announce_run ((now, got, ok) # ts) l =
     (case leap_announce now got ok l of
        Done (l1, sent) \<Rightarrow>
          (case announce_run ts l1 of
             Done (l2, sends) \<Rightarrow> Done (l2, map (\<lambda>g. (g, ok)) sent @ sends)
           | Failed e \<Rightarrow> Failed e | Panicked \<Rightarrow> Panicked)
      | Failed e \<Rightarrow> Failed e | Panicked \<Rightarrow> Panicked)"

definition flags_ok :: "int \<Rightarrow> grandmaster_settings \<Rightarrow> bool" where
  "flags_ok s g =
     (let t = gs_TimePropertiesDS g; diff = s - sint (tp_CurrentUtcOffset t) in
      diff \<noteq> 0 \<and> tp_Leap61 t = (0 < diff) \<and> tp_Leap59 t = (diff < 0))"

lemma leap_flags_ok: "leap_flags s g = Some g1 \<Longrightarrow> flags_ok s g1"
  by (auto simp: leap_flags_def flags_ok_def Let_def split: if_splits)

lemma announce_once:
  assumes "list_all (\<lambda>(now, _). in_pmc_window now f = Done True) ts" "lm_leapFile l = f" "announce_run ts l = Done (l', sends)"
  shows "length (filter snd sends) \<le> (if lm_pmcLeapSent l then 0 else 1) \<and> (lm_pmcLeapSent l \<longrightarrow> sends = []) \<and>
     (\<forall>(g, ok) \<in> set sends. flags_ok (le_LeapSec (last (lf_LeapEvents f))) g)"
  using assms
proof (induction ts arbitrary: l l' sends)
  case (Cons tick ts)
  obtain now got ok where tick: "tick = (now, got, ok)" by (cases tick)
  have win: "in_pmc_window now f = Done True" "list_all (\<lambda>(now, _). in_pmc_window now f = Done True) ts"
    using Cons.prems(1) by (simp_all add: tick)
  obtain l1 sent where a: "leap_announce now got ok l = Done (l1, sent)"
    using Cons.prems(3) by (auto simp: tick split: outcome.splits)
  obtain l2 sends2 where b: "announce_run ts l1 = Done (l2, sends2)" "sends = map (\<lambda>g. (g, ok)) sent @ sends2"
    using Cons.prems(3) a by (auto simp: tick split: outcome.splits)
  have "lm_leapFile l1 = f \<and> (lm_pmcLeapSent l \<longrightarrow> sent = [] \<and> lm_pmcLeapSent l1) \<and>
     length sent \<le> 1 \<and> (sent \<noteq> [] \<and> ok \<longrightarrow> lm_pmcLeapSent l1) \<and>
     (\<forall>g \<in> set sent. flags_ok (le_LeapSec (last (lf_LeapEvents f))) g)"
    using a win(1) Cons.prems(2) leap_flags_ok
    by (auto simp: leap_announce_def split: outcome.splits bool.splits if_splits option.splits)
  note step = this
  have "length (filter snd sends2) \<le> (if lm_pmcLeapSent l1 then 0 else 1) \<and> (lm_pmcLeapSent l1 \<longrightarrow> sends2 = []) \<and>
     (\<forall>(g, ok) \<in> set sends2. flags_ok (le_LeapSec (last (lf_LeapEvents f))) g)"
    using step by (intro Cons.IH[OF win(2) _ b(1)]) simp
  then show ?case using step by (cases ok) (auto simp: b(2) split: if_splits)
qed simp

text \<open>
  while the last leap second of the file stays in its window (from twelve hours to one minute
  before it), however often reading or setting fails, at most one announcement succeeds, and each one sent
  raises exactly the flag for the direction in which the leap seconds differ from the grandmaster's offset.
\<close>

lemma leap_announced_once_per_window:
  assumes "list_all (\<lambda>(now, _). in_pmc_window now (lm_leapFile l) = Done True) ts" "announce_run ts l = Done (l', sends)"
  shows "length (filter snd sends) \<le> 1 \<and>
     (\<forall>(g, ok) \<in> set sends. flags_ok (le_LeapSec (last (lf_LeapEvents (lm_leapFile l)))) g)"
  using announce_once[OF assms(1) refl assms(2)] by (auto split: if_splits)

end
