(* ===== verification/Pmc.thy ===== *)
theory Pmc
  imports ProtocolText Event GoStrings
begin

text \<open>
  The client of pmc (\<open>pkg/pmc/pmc.go\<close>) and its monitor (\<open>pkg/daemon/pmc.go\<close>): commands with retries
  through an interactive pmc, and the parent data sets that become events. The dialogue with pmc
  (goexpect) is outside: what each attempt yields is an argument. The life cycle of the monitor process
  is in \<open>SideProcess\<close>; messages of the log are left out.
\<close>

section \<open>Attempts\<close>

text \<open>One round: the command cannot be sent, the reply's groups, a timeout, or another error of \<open>Expect\<close>.\<close>

datatype pmc_attempt = PmcSendErr string | PmcReply "string list" | PmcTimeout | PmcErr string

abbreviation numRetry :: nat where "numRetry \<equiv> 6"

definition cmdGetParentDataSet :: string where "cmdGetParentDataSet = ''GET PARENT_DATA_SET''"
definition cmdGetGMSettings :: string where "cmdGetGMSettings = ''GET GRANDMASTER_SETTINGS_NP''"
definition cmdSetGMSettings :: string where "cmdSetGMSettings = ''SET GRANDMASTER_SETTINGS_NP''"
definition cmdSetExternalGMPropertiesNP :: string where
  "cmdSetExternalGMPropertiesNP = ''SET EXTERNAL_GRANDMASTER_PROPERTIES_NP''"

definition apply_matches :: "string list \<Rightarrow> (string \<Rightarrow> string \<Rightarrow> 'a \<Rightarrow> 'a) \<Rightarrow> string list \<Rightarrow> 'a \<Rightarrow> 'a" where
  "apply_matches keys update m d = foldl (\<lambda>d (k, v). update k v d) d (zip keys (tl m))"

text \<open>
  The loop of the \<open>GET\<close> functions: the attempts that are left, the number of the next one, and the error
  of the last one. A timeout leaves no error, because the loop declares its own.
\<close>

fun pmc_get_loop ::
  "string list \<Rightarrow> (string \<Rightarrow> string \<Rightarrow> 'a \<Rightarrow> 'a) \<Rightarrow> 'a \<Rightarrow> (nat \<Rightarrow> pmc_attempt) \<Rightarrow> nat \<Rightarrow> nat \<Rightarrow> string option \<Rightarrow> 'a \<times> string option" where
  "pmc_get_loop keys update zero att 0 i err = (zero, err)"
| "pmc_get_loop keys update zero att (Suc n) i err =
     (case att i of
        PmcSendErr e \<Rightarrow> pmc_get_loop keys update zero att n (Suc i) (Some e)
      | PmcTimeout \<Rightarrow> pmc_get_loop keys update zero att n (Suc i) None
      | PmcErr e \<Rightarrow> (zero, Some e)
      | PmcReply m \<Rightarrow> (apply_matches keys update m zero, None))"

definition pmc_get ::
  "string list \<Rightarrow> (string \<Rightarrow> string \<Rightarrow> 'a \<Rightarrow> 'a) \<Rightarrow> 'a \<Rightarrow> string option \<Rightarrow> (nat \<Rightarrow> pmc_attempt) \<Rightarrow> 'a \<times> string option" where
  "pmc_get keys update zero spawn att =
     (case spawn of Some e \<Rightarrow> (zero, Some e) | None \<Rightarrow> pmc_get_loop keys update zero att numRetry 0 None)"

definition zero_external_gm_properties :: external_gm_properties where
  "zero_external_gm_properties = \<lparr>eg_GrandmasterIdentity = '''', eg_StepsRemoved = 0\<rparr>"

definition zero_current_ds :: current_ds where
  "zero_current_ds = \<lparr>cds_StepsRemoved = 0, cds_offsetFromMaster = Fin 0, cds_meanPathDelay = Fin 0\<rparr>"

definition RunPMCExpGetGMSettings :: "string option \<Rightarrow> (nat \<Rightarrow> pmc_attempt) \<Rightarrow> grandmaster_settings \<times> string option" where
  "RunPMCExpGetGMSettings = pmc_get gs_Keys gs_Update zero_grandmaster_settings"

definition RunPMCExpGetParentDS :: "string option \<Rightarrow> (nat \<Rightarrow> pmc_attempt) \<Rightarrow> parent_data_set \<times> string option" where
  "RunPMCExpGetParentDS = pmc_get pds_Keys pds_Update zero_parent_data_set"

definition RunPMCExpGetExternalGMPropertiesNP ::
  "string option \<Rightarrow> (nat \<Rightarrow> pmc_attempt) \<Rightarrow> external_gm_properties \<times> string option" where
  "RunPMCExpGetExternalGMPropertiesNP = pmc_get eg_Keys eg_Update zero_external_gm_properties"

definition RunPMCExpGetTimePropertiesDS :: "string option \<Rightarrow> (nat \<Rightarrow> pmc_attempt) \<Rightarrow> time_properties_ds \<times> string option" where
  "RunPMCExpGetTimePropertiesDS = pmc_get tp_Keys tp_Update zero_time_properties"

definition RunPMCExpGetCurrentDS :: "string option \<Rightarrow> (nat \<Rightarrow> pmc_attempt) \<Rightarrow> current_ds \<times> string option" where
  "RunPMCExpGetCurrentDS = pmc_get cds_Keys cds_Update zero_current_ds"

section \<open>Setting\<close>

definition set_gm_command :: "grandmaster_settings \<Rightarrow> string" where
  "set_gm_command g = cmdSetGMSettings @ ReplaceAll (gs_String g) [CHR 0x0A] '' ''"

definition set_external_command :: "external_gm_properties \<Rightarrow> string" where
  "set_external_command egp = cmdSetExternalGMPropertiesNP @ ReplaceAll (eg_String egp) [CHR 0x0A] '' ''"

text \<open>Every attempt starts its own pmc: the error of starting it, or what \<open>Expect\<close> yields.\<close>

datatype pmc_set_attempt = SetSpawnErr string | SetTalk pmc_attempt

fun pmc_set_loop :: "(nat \<Rightarrow> pmc_set_attempt) \<Rightarrow> nat \<Rightarrow> nat \<Rightarrow> string option \<Rightarrow> string option" where
  "pmc_set_loop att 0 i err = err"
| "pmc_set_loop att (Suc n) i err =
     (case att i of
        SetTalk (PmcReply _) \<Rightarrow> None
      | SetSpawnErr e \<Rightarrow> pmc_set_loop att n (Suc i) (Some e)
      | SetTalk (PmcSendErr e) \<Rightarrow> pmc_set_loop att n (Suc i) (Some e)
      | SetTalk (PmcErr e) \<Rightarrow> pmc_set_loop att n (Suc i) (Some e)
      | SetTalk PmcTimeout \<Rightarrow> pmc_set_loop att n (Suc i) (Some ''timeout''))"

definition RunPMCExpSetGMSettings :: "(nat \<Rightarrow> pmc_set_attempt) \<Rightarrow> string option" where
  "RunPMCExpSetGMSettings att = pmc_set_loop att numRetry 0 None"

definition RunPMCExpSetExternalGMPropertiesNP :: "pmc_set_attempt \<Rightarrow> string option" where
  "RunPMCExpSetExternalGMPropertiesNP att =
     (case att of
        SetSpawnErr e \<Rightarrow> Some e
      | SetTalk (PmcSendErr e) \<Rightarrow> Some e
      | SetTalk (PmcErr e) \<Rightarrow> Some e
      | SetTalk PmcTimeout \<Rightarrow> Some ''timeout''
      | SetTalk (PmcReply _) \<Rightarrow> None)"

section \<open>Several data sets in one session\<close>

definition get_one :: "string \<Rightarrow> 'a \<Rightarrow> string list \<Rightarrow> (string \<Rightarrow> string \<Rightarrow> 'a \<Rightarrow> 'a) \<Rightarrow> pmc_attempt \<Rightarrow> 'a \<times> string option" where
  "get_one name zero keys update att =
     (case att of
        PmcSendErr e \<Rightarrow> (zero, Some (''failed to send '' @ name @ '' command: '' @ e))
      | PmcTimeout \<Rightarrow> (zero, Some (''failed to parse '' @ name @ '' output: timeout''))
      | PmcErr e \<Rightarrow> (zero, Some (''failed to parse '' @ name @ '' output: '' @ e))
      | PmcReply m \<Rightarrow> ProcessMessage zero keys update m)"

definition getParentDS :: "pmc_attempt \<Rightarrow> parent_data_set \<times> string option" where
  "getParentDS = get_one ''PARENT_DATA_SET'' zero_parent_data_set pds_Keys pds_Update"

definition getTimePropertiesDS :: "pmc_attempt \<Rightarrow> time_properties_ds \<times> string option" where
  "getTimePropertiesDS = get_one ''TIME_PROPERTIES_DATA_SET'' zero_time_properties tp_Keys tp_Update"

definition getCurrentDS :: "pmc_attempt \<Rightarrow> current_ds \<times> string option" where
  "getCurrentDS = get_one ''CURRENT_DATA_SET'' zero_current_ds cds_Keys cds_Update"

definition zero_parent_time_current :: parent_time_current_ds where
  "zero_parent_time_current =
     \<lparr>pt_ParentDataSet = zero_parent_data_set, pt_TimePropertiesDS = zero_time_properties, pt_CurrentDS = zero_current_ds\<rparr>"

text \<open>The remaining commands, given what is known so far.\<close>

definition time_and_current ::
  "pmc_attempt \<Rightarrow> pmc_attempt \<Rightarrow> parent_time_current_ds \<Rightarrow> parent_time_current_ds \<times> string option" where
  "time_and_current a2 a3 r =
     (case getTimePropertiesDS a2 of
        (_, Some e) \<Rightarrow> (r, Some e)
      | (tp, None) \<Rightarrow>
          (case getCurrentDS a3 of
             (_, Some e) \<Rightarrow> (r\<lparr>pt_TimePropertiesDS := tp\<rparr>, Some e)
           | (cds, None) \<Rightarrow> (r\<lparr>pt_TimePropertiesDS := tp, pt_CurrentDS := cds\<rparr>, None)))"

definition RunPMCExpGetTimeAndCurrentDataSets ::
  "string option \<Rightarrow> pmc_attempt \<Rightarrow> pmc_attempt \<Rightarrow> parent_time_current_ds \<times> string option" where
  "RunPMCExpGetTimeAndCurrentDataSets spawn a2 a3 =
     (case spawn of Some e \<Rightarrow> (zero_parent_time_current, Some e) | None \<Rightarrow> time_and_current a2 a3 zero_parent_time_current)"

definition RunPMCExpGetParentTimeAndCurrentDataSets ::
  "string option \<Rightarrow> pmc_attempt \<Rightarrow> pmc_attempt \<Rightarrow> pmc_attempt \<Rightarrow> parent_time_current_ds \<times> string option" where
  "RunPMCExpGetParentTimeAndCurrentDataSets spawn a1 a2 a3 =
     (case spawn of
        Some e \<Rightarrow> (zero_parent_time_current, Some e)
      | None \<Rightarrow>
          (case getParentDS a1 of
             (_, Some e) \<Rightarrow> (zero_parent_time_current, Some e)
           | (pds, None) \<Rightarrow> time_and_current a2 a3 (zero_parent_time_current\<lparr>pt_ParentDataSet := pds\<rparr>)))"

text \<open>\<open>RunPMCGetParentDS\<close>: pmc is run once, and its whole output searched.\<close>

definition RunPMCGetParentDS :: "string + string \<Rightarrow> parent_data_set \<times> string option" where
  "RunPMCGetParentDS out =
     (case out of
        Inl e \<Rightarrow> (zero_parent_data_set, Some e)
      | Inr result \<Rightarrow>
          (case FindStringSubmatch False (length pds_Keys) pds_RegEx result of
             None \<Rightarrow> (zero_parent_data_set, Some ''failed to parse PMC output'')
           | Some m \<Rightarrow> if length m < 2 then (zero_parent_data_set, Some ''failed to parse PMC output'')
                       else (apply_matches pds_Keys pds_Update m zero_parent_data_set, None)))"

section \<open>Starting the monitor\<close>

text \<open>
  One round of \<open>GetPMCMontior\<close>: pmc does not start; or it does, and the overall time is up, it has
  exited, it does not answer the query for its subscription, or it does.
\<close>

datatype monitor_attempt = MonSpawnErr | MonTimeUp | MonExited | MonNoAnswer | MonReady

fun GetPMCMontior :: "monitor_attempt list \<Rightarrow> string option option" where
  "GetPMCMontior [] = None"
| "GetPMCMontior (MonSpawnErr # as) = GetPMCMontior as"
| "GetPMCMontior (MonTimeUp # as) = Some (Some ''timed out waiting for pmc to start'')"
| "GetPMCMontior (MonExited # as) = Some (Some ''pmc need to be restarted'')"
| "GetPMCMontior (MonNoAnswer # as) = GetPMCMontior as"
| "GetPMCMontior (MonReady # as) = Some None"

definition btof :: "bool \<Rightarrow> string" where
  "btof b = (if b then ''on'' else ''off'')"

definition getMonitorSubcribeCommand :: "bool \<Rightarrow> bool \<Rightarrow> bool \<Rightarrow> bool \<Rightarrow> string" where
  "getMonitorSubcribeCommand portState timeSync parentData cmlds =
     ''SET SUBSCRIBE_EVENTS_NP duration -1 NOTIFY_PORT_STATE '' @ btof portState @ '' NOTIFY_TIME_SYNC '' @ btof timeSync @
     '' NOTIFY_PARENT_DATA_SET '' @ btof parentData @ '' NOTIFY_CMLDS '' @ btof cmlds"

section \<open>Parent data sets become events\<close>

record pmc_monitor =
  pm_configFileName :: string
  pm_clockType :: clock_type
  pm_parentDS :: "parent_data_set option"

definition parent_ds_event :: "int \<Rightarrow> pmc_monitor \<Rightarrow> parent_data_set \<Rightarrow> event" where
  "parent_ds_event now p ds =
     \<lparr>ev_Source = PMC, ev_IFace = '''', ev_CfgName = pm_configFileName p, ev_ClockType = pm_clockType p, ev_Time = now,
      ev_WriteToLog = False, ev_Reset = False, ev_Data = Some (ParentDSData ds)\<rparr>"

text \<open>\<open>full\<close>: the event channel has no room, and the event is dropped.\<close>

definition handleParentDS :: "int \<Rightarrow> bool \<Rightarrow> parent_data_set \<Rightarrow> pmc_monitor \<Rightarrow> pmc_monitor \<times> event list" where
  "handleParentDS now full ds p =
     (if pm_parentDS p \<noteq> None \<and> pds_Equal (pm_parentDS p) (Some ds) then (p, [])
      else (p\<lparr>pm_parentDS := Some ds\<rparr>, if full then [] else [parent_ds_event now p ds]))"

text \<open>\<open>Poll\<close> and the pushes that \<open>expectWorker\<close> reads: the data set for the channel, if any.\<close>

definition pmc_Poll :: "bool \<Rightarrow> string option \<Rightarrow> (nat \<Rightarrow> pmc_attempt) \<Rightarrow> parent_data_set option" where
  "pmc_Poll stopped spawn att =
     (if stopped then None
      else case RunPMCExpGetParentDS spawn att of (ds, None) \<Rightarrow> Some ds | (_, Some e) \<Rightarrow> None)"

definition expect_push :: "string list \<Rightarrow> parent_data_set option" where
  "expect_push matches =
     (if matches \<noteq> [] \<and> Contains (hd matches) ''PARENT_DATA_SET'' then
        (case ProcessMessage zero_parent_data_set pds_Keys pds_Update matches of (ds, None) \<Rightarrow> Some ds | (_, Some e) \<Rightarrow> None)
      else None)"

fun handle_all :: "(int \<times> bool \<times> parent_data_set) list \<Rightarrow> pmc_monitor \<Rightarrow> pmc_monitor \<times> event list" where
  "handle_all [] p = (p, [])"
| "handle_all ((now, full, ds) # xs) p =
     (let (p1, evs) = handleParentDS now full ds p; (p2, evs2) = handle_all xs p1 in (p2, evs @ evs2))"

section \<open>Retries\<close>

definition decisive :: "pmc_attempt \<Rightarrow> bool" where
  "decisive a = (case a of PmcReply _ \<Rightarrow> True | PmcErr _ \<Rightarrow> True | _ \<Rightarrow> False)"

definition attempt_result :: "string list \<Rightarrow> (string \<Rightarrow> string \<Rightarrow> 'a \<Rightarrow> 'a) \<Rightarrow> 'a \<Rightarrow> pmc_attempt \<Rightarrow> 'a \<times> string option" where
  "attempt_result keys update zero a =
     (case a of
        PmcReply m \<Rightarrow> (apply_matches keys update m zero, None)
      | PmcErr e \<Rightarrow> (zero, Some e)
      | PmcSendErr e \<Rightarrow> (zero, Some e)
      | PmcTimeout \<Rightarrow> (zero, None))"

lemma get_loop_reference:
  "pmc_get_loop keys update zero att n i err =
     (case find (\<lambda>j. decisive (att j)) [i..<i + n] of
        Some j \<Rightarrow> attempt_result keys update zero (att j)
      | None \<Rightarrow> if n = 0 then (zero, err) else attempt_result keys update zero (att (i + n - 1)))"
proof (induction n arbitrary: i err)
  case (Suc n)
  have "[i..<i + Suc n] = i # [Suc i..<Suc i + n]" by (simp add: upt_conv_Cons)
  then show ?case
    using Suc.IH[of "Suc i"]
    by (cases "att i") (simp_all add: decisive_def attempt_result_def split: option.splits)
qed simp

lemma get_reference:
  "pmc_get keys update zero spawn att =
     (case spawn of
        Some e \<Rightarrow> (zero, Some e)
      | None \<Rightarrow>
          attempt_result keys update zero
            (att (case find (\<lambda>j. decisive (att j)) [0..<numRetry] of Some j \<Rightarrow> j | None \<Rightarrow> numRetry - 1)))"
  by (simp only: pmc_get_def get_loop_reference add_0) (simp split: option.splits)

text \<open>
  C31. A failed start of pmc is the error of a \<open>GET\<close>. Otherwise its result is that of the first of six
  attempts that gets a reply or an error of \<open>Expect\<close> other than a timeout; a failed \<open>Send\<close> and a timeout
  are both tried again. When all six attempts are of those two kinds the last one decides: a failed
  \<open>Send\<close> gives the zero data set with its error, a timeout the zero data set without an error.
\<close>

theorem get_decided_by_first_answer:
  "pmc_get keys update zero spawn att =
     (case spawn of
        Some e \<Rightarrow> (zero, Some e)
      | None \<Rightarrow>
          attempt_result keys update zero
            (att (case find (\<lambda>j. decisive (att j)) [0..<numRetry] of Some j \<Rightarrow> j | None \<Rightarrow> numRetry - 1)))"
  by (rule get_reference)

text \<open>A poll of a pmc that never answers reports the zero data set, of clock class 0.\<close>

lemma silent_pmc_reports_zero:
  "pmc_Poll False None (\<lambda>_. PmcTimeout) = Some zero_parent_data_set"
  "snd (handleParentDS now False zero_parent_data_set p) = [parent_ds_event now p zero_parent_data_set] \<or>
     pm_parentDS p = Some zero_parent_data_set"
  by (auto simp: pmc_Poll_def RunPMCExpGetParentDS_def get_reference attempt_result_def handleParentDS_def
      pds_Equal_iff numeral_eq_Suc decisive_def)


lemma set_loop_none:
  "pmc_set_loop att n i err = None \<longleftrightarrow> (\<exists>j \<in> {i..<i + n}. \<exists>m. att j = SetTalk (PmcReply m)) \<or> n = 0 \<and> err = None"
proof (induction n arbitrary: i err)
  case (Suc n)
  have "{i..<i + Suc n} = insert i {Suc i..<Suc i + n}" by auto
  then show ?case
    using Suc.IH[of "Suc i"] by (auto split: pmc_set_attempt.splits pmc_attempt.splits)
qed simp

text \<open>Setting succeeds exactly when one of six attempts is answered.\<close>

lemma set_succeeds_iff:
  "RunPMCExpSetGMSettings att = None \<longleftrightarrow> (\<exists>j < numRetry. \<exists>m. att j = SetTalk (PmcReply m))"
  by (auto simp: RunPMCExpSetGMSettings_def set_loop_none)

text \<open>While pmc cannot be started the loop does not look at the time: no number of rounds ends it.\<close>

lemma monitor_start_never_times_out: "GetPMCMontior (replicate n MonSpawnErr) = None"
  by (induction n) auto

section \<open>Changes are reported once\<close>

definition event_parent_ds :: "event \<Rightarrow> parent_data_set option" where
  "event_parent_ds e = (case ev_Data e of Some (ParentDSData ds) \<Rightarrow> Some ds | _ \<Rightarrow> None)"

fun changes_after :: "'a option \<Rightarrow> 'a list \<Rightarrow> 'a list" where
  "changes_after old [] = []"
| "changes_after old (x # xs) = (if old = Some x then changes_after old xs else x # changes_after (Some x) xs)"

lemma changes_Some: "remdups_adj (x # xs) = x # changes_after (Some x) xs"
proof (induction xs arbitrary: x)
  case (Cons y ys)
  then show ?case by (cases "x = y") simp_all
qed simp

lemma changes_None: "changes_after None xs = remdups_adj xs"
  by (cases xs) (simp_all add: changes_Some)

lemma handle_all_changes:
  "list_all (\<lambda>(now, full, ds). \<not> full) xs \<Longrightarrow>
     map event_parent_ds (snd (handle_all xs p)) = map Some (changes_after (pm_parentDS p) (map (snd \<circ> snd) xs))"
proof (induction xs arbitrary: p)
  case (Cons x xs)
  obtain now ds where x: "x = (now, False, ds)" using Cons.prems by (cases x) auto
  obtain p1 evs where h: "handleParentDS now False ds p = (p1, evs)" by fastforce
  have "map event_parent_ds evs = (if pm_parentDS p = Some ds then [] else [Some ds]) \<and> pm_parentDS p1 = Some ds"
    using h by (auto simp: handleParentDS_def pds_Equal_iff parent_ds_event_def event_parent_ds_def split: if_splits)
  then show ?case
    using Cons.IH[of p1] Cons.prems by (simp add: x h split_beta)
qed simp

text \<open>
  As long as the event channel has room, the parent data sets reported by a new monitor are the
  ones it is given, in order, with repetitions removed: every change is reported, and only changes.
\<close>

lemma parent_changes_reported_once:
  assumes "list_all (\<lambda>(now, full, ds). \<not> full) xs" "pm_parentDS p = None"
  shows "map event_parent_ds (snd (handle_all xs p)) = map Some (remdups_adj (map (snd \<circ> snd) xs))"
  using handle_all_changes[OF assms(1)] assms(2) by (simp add: changes_None)

text \<open>A change whose event is dropped is not reported by the following polls either.\<close>

lemma dropped_change_is_lost:
  "pm_parentDS p \<noteq> Some ds \<Longrightarrow> snd (handle_all ((now, True, ds) # map (\<lambda>t. (t, False, ds)) ts) p) = []"
proof -
  assume "pm_parentDS p \<noteq> Some ds"
  moreover have "snd (handle_all (map (\<lambda>t. (t, False, ds)) ts) q) = []" if "pm_parentDS q = Some ds" for q
    using that by (induction ts) (simp_all add: handleParentDS_def pds_Equal_iff split_beta)
  ultimately show ?thesis by (simp add: handleParentDS_def pds_Equal_iff split_beta)
qed

end
