(* ===== verification/LogParser.thy ===== *)
theory LogParser
  imports GoStrings ProtocolText
begin

text \<open>
  The log parsers (\<open>pkg/parser\<close>): a line of ptp4l, phc2sys, ts2phc or chronyd is tried against the
  regular expressions of its program, the named groups of the first one that matches are read, and
  metrics or an event made of them. An expression is the list of its parts, its groups are numbered
  from 1, and \<open>lr_names\<close> are their names. The parsers without expressions (GM, GNSS, DPLL, SyncE) are
  empty rule lists.
\<close>

section \<open>Results\<close>

datatype port_role =
  PortRolePassive | PortRoleSlave | PortRoleMaster | PortRoleFaulty | PortRoleUnknown | PortRoleListening

fun port_role_String :: "port_role \<Rightarrow> string" where
  "port_role_String PortRoleSlave = ''SLAVE''"
| "port_role_String PortRoleMaster = ''MASTER''"
| "port_role_String PortRolePassive = ''PASSIVE''"
| "port_role_String PortRoleFaulty = ''FAULTY''"
| "port_role_String PortRoleListening = ''LISTENING''"
| "port_role_String PortRoleUnknown = ''UNKNOWN''"

datatype clock_state = ClockStateNone | ClockStateLocked | ClockStateFreeRun | ClockStateHoldover

fun clock_state_str :: "clock_state \<Rightarrow> string" where
  "clock_state_str ClockStateNone = ''''"
| "clock_state_str ClockStateLocked = ''LOCKED''"
| "clock_state_str ClockStateFreeRun = ''FREERUN''"
| "clock_state_str ClockStateHoldover = ''HOLDOVER''"

datatype phc_role = RoleNone | TS2PHCSink | TS2PHCSource | TS2PHCUnmanaged

record ts2phc_event =
  te_Timestamp :: string
  te_PHCDevice :: string
  te_PHCTstamp :: "(int \<times> int) option"
  te_PollTimeout :: bool
  te_PollSuccessful :: bool
  te_Role :: phc_role

record log_event =
  pe_PortID :: int
  pe_Iface :: string
  pe_Role :: port_role
  pe_ClockState :: clock_state
  pe_Raw :: string
  pe_Ts2Phc :: "ts2phc_event option"

definition zero_log_event :: log_event where
  "zero_log_event = \<lparr>pe_PortID = 0, pe_Iface = '''', pe_Role = PortRolePassive, pe_ClockState = ClockStateNone,
     pe_Raw = '''', pe_Ts2Phc = None\<rparr>"

record log_metrics =
  mx_From :: string
  mx_Iface :: string
  mx_Offset :: f64
  mx_MaxOffset :: f64
  mx_FreqAdj :: f64
  mx_Delay :: f64
  mx_ClockState :: clock_state
  mx_ServoState :: string
  mx_Source :: string
  mx_Status :: "(string \<times> f64) list"

definition zero_metrics :: log_metrics where
  "zero_metrics = \<lparr>mx_From = '''', mx_Iface = '''', mx_Offset = Fin 0, mx_MaxOffset = Fin 0, mx_FreqAdj = Fin 0,
     mx_Delay = Fin 0, mx_ClockState = ClockStateNone, mx_ServoState = '''', mx_Source = '''', mx_Status = []\<rparr>"

text \<open>Metrics, event and error, and the counter \<open>NoSourceTSCount\<close> of the package.\<close>

type_synonym log_result = "log_metrics option \<times> log_event option \<times> string option"

section \<open>Extracting\<close>

record 'p log_rule =
  lr_find :: "string \<Rightarrow> (captures \<times> string) option"
  lr_names :: "string list"
  lr_extract :: "'p \<Rightarrow> nat \<Rightarrow> log_result \<times> nat"

text \<open>\<open>Populate\<close>: the groups one after the other, until one cannot be read.\<close>

fun populate_all :: "(string \<Rightarrow> string \<Rightarrow> 'p \<Rightarrow> string + 'p) \<Rightarrow> (string \<times> string) list \<Rightarrow> 'p \<Rightarrow> string + 'p" where
  "populate_all f [] p = Inr p"
| "populate_all f ((k, v) # kvs) p = (case f k v p of Inl e \<Rightarrow> Inl e | Inr p' \<Rightarrow> populate_all f kvs p')"

fun extract_rules ::
  "(string \<Rightarrow> string \<Rightarrow> 'p \<Rightarrow> string + 'p) \<Rightarrow> (string \<Rightarrow> 'p) \<Rightarrow> 'p log_rule list \<Rightarrow> string \<Rightarrow> nat \<Rightarrow> log_result \<times> nat" where
  "extract_rules f new [] line n = ((None, None, None), n)"
| "extract_rules f new (r # rs) line n =
     (case lr_find r line of
        None \<Rightarrow> extract_rules f new rs line n
      | Some (caps, _) \<Rightarrow>
          (case populate_all f (zip (lr_names r) (map (capture caps) [1..<Suc (length (lr_names r))])) (new line) of
             Inl e \<Rightarrow> ((None, None, Some e), n)
           | Inr p \<Rightarrow> lr_extract r p n))"

definition Extract ::
  "(string \<Rightarrow> string \<Rightarrow> 'p \<Rightarrow> string + 'p) \<Rightarrow> (string \<Rightarrow> 'p) \<Rightarrow> 'p log_rule list \<Rightarrow> string \<Rightarrow> nat \<Rightarrow> log_result \<times> nat" where
  "Extract f new rules line n =
     (let l = TrimSpace line in if l = '''' then ((None, None, None), n) else extract_rules f new rules l n)"

text \<open>\<open>lr_find\<close> is \<open>match_here\<close> for an expression anchored with \<open>^\<close> and \<open>match_leftmost\<close> for the others.\<close>

text \<open>A number read by \<open>ParseFloat\<close> or \<open>Atoi\<close>.\<close>

definition read_float :: "string \<Rightarrow> (f64 \<Rightarrow> 'p) \<Rightarrow> string + 'p" where
  "read_float v k = (case ParseFloat v of (x, None) \<Rightarrow> Inr (k x) | (_, Some e) \<Rightarrow> Inl ''strconv.ParseFloat'')"

definition read_int :: "string \<Rightarrow> (int \<Rightarrow> 'p) \<Rightarrow> string + 'p" where
  "read_int v k = (case Atoi v of (x, None) \<Rightarrow> Inr (k x) | (_, Some e) \<Rightarrow> Inl ''strconv.Atoi'')"

definition clockStateFromServo :: "string \<Rightarrow> clock_state" where
  "clockStateFromServo s = (if s = ''s2'' \<or> s = ''s3'' then ClockStateLocked else ClockStateFreeRun)"

section \<open>Parts of the expressions\<close>

definition rx_s :: rx where "rx_s = RPlus ch_s"
definition rx_s0 :: rx where "rx_s0 = RMany True ch_s"
definition rx_int :: rx where "rx_int = RSeq (ROpt (RLit ''-'')) (RPlus ch_digit)"
definition rx_signed_int :: rx where "rx_signed_int = RSeq (ROpt (RCls (ch_is ''-+''))) (RPlus ch_digit)"
definition rx_error :: rx where "rx_error = rseq [RLit ''+/-'', rx_s, RPlus ch_digit]"

text \<open>\<open>name[timestamp]:\<close>, the timestamp being group 1.\<close>

definition rx_head :: "string \<Rightarrow> rx list" where
  "rx_head name =
     [RLit (name @ ''[''), RCap 1 (rseq [RPlus ch_digit, ROpt (RLit ''.''), RMany True ch_digit]), RLit '']:'']"

text \<open>\<open>[config:severity]\<close>, groups 2 and 3; the configuration ends in \<open>.config\<close> or, for ts2phc, in \<open>.c\<close> to \<open>g\<close>.\<close>

definition rx_config :: "rx list" where
  "rx_config =
     [RLit ''['', RCap 2 (rseq [RMany True ch_any, RLit ''.'', RPlus ch_digit, RLit ''.config'']), ROpt (RLit '':''),
      RCap 3 (RMany True ch_digit), RLit '']'']"

definition rx_config_ts2phc :: "rx list" where
  "rx_config_ts2phc =
     [RLit ''['', RCap 2 (rseq [RMany True ch_any, RLit ''.'', RPlus ch_digit, RLit ''.c'', RMany True ch_any, RLit ''g'']),
      ROpt (RLit '':''), RCap 3 (RMany True ch_digit), RLit '']'']"

section \<open>ptp4l\<close>

record ptp4l_parsed =
  p4_Raw :: string
  p4_Interface :: string
  p4_Offset :: "f64 option"
  p4_MaxOffset :: "f64 option"
  p4_FreqAdj :: "f64 option"
  p4_Delay :: "f64 option"
  p4_ServoState :: string
  p4_PortID :: "int option"
  p4_PortName :: string
  p4_Event :: string

definition new_ptp4l :: "string \<Rightarrow> ptp4l_parsed" where
  "new_ptp4l line = \<lparr>p4_Raw = line, p4_Interface = '''', p4_Offset = None, p4_MaxOffset = None, p4_FreqAdj = None,
     p4_Delay = None, p4_ServoState = '''', p4_PortID = None, p4_PortName = '''', p4_Event = ''''\<rparr>"

text \<open>The time stamp, the configuration and the severity, which nothing reads, are not kept.\<close>

definition populate_ptp4l :: "string \<Rightarrow> string \<Rightarrow> ptp4l_parsed \<Rightarrow> string + ptp4l_parsed" where
  "populate_ptp4l k v p =
     (if k = ''serverity'' then (if v = '''' then Inr p else read_int v (\<lambda>_. p))
      else if k = ''interface'' then Inr (p\<lparr>p4_Interface := v\<rparr>)
      else if k = ''offset'' then (if v = '''' then Inl ''offset cannot be empty'' else read_float v (\<lambda>x. p\<lparr>p4_Offset := Some x\<rparr>))
      else if k = ''max'' then (if v = '''' then Inl ''max cannot be empty'' else read_float v (\<lambda>x. p\<lparr>p4_MaxOffset := Some x\<rparr>))
      else if k = ''freq_adj'' then (if v = '''' then Inl ''freq_adj cannot be empty'' else read_float v (\<lambda>x. p\<lparr>p4_FreqAdj := Some x\<rparr>))
      else if k = ''delay'' then (if v = '''' then Inr p else read_float v (\<lambda>x. p\<lparr>p4_Delay := Some x\<rparr>))
      else if k = ''servo_state'' then Inr (p\<lparr>p4_ServoState := v\<rparr>)
      else if k = ''port_id'' then read_int v (\<lambda>x. p\<lparr>p4_PortID := Some x\<rparr>)
      else if k = ''port_name'' then Inr (p\<lparr>p4_PortName := v\<rparr>)
      else if k = ''event'' then Inr (p\<lparr>p4_Event := v\<rparr>)
      else Inr p)"

definition determineRole :: "string \<Rightarrow> port_role \<times> clock_state" where
  "determineRole e =
     (let has = Contains e in
      if has ''UNCALIBRATED to SLAVE'' \<or> has ''LISTENING to SLAVE'' then (PortRoleSlave, ClockStateFreeRun)
      else if has ''UNCALIBRATED to PASSIVE'' \<or> has ''MASTER to PASSIVE'' \<or> has ''SLAVE to PASSIVE'' \<or> has ''LISTENING to PASSIVE''
        then (PortRolePassive, ClockStateFreeRun)
      else if has ''UNCALIBRATED to MASTER'' \<or> has ''LISTENING to MASTER'' \<or> has ''to PRE_MASTER'' \<or> has ''PRE_MASTER to MASTER''
        then (PortRoleMaster, ClockStateFreeRun)
      else if has ''FAULT_DETECTED'' \<or> has ''SYNCHRONIZATION_FAULT'' then (PortRoleFaulty, ClockStateHoldover)
      else if has ''SLAVE to UNCALIBRATED'' \<or> has ''MASTER to UNCALIBRATED'' \<or> has ''LISTENING to UNCALIBRATED''
        then (PortRoleListening, ClockStateHoldover)
      else if has ''SLAVE to MASTER'' \<or> has ''SLAVE to GRAND_MASTER'' then (PortRoleMaster, ClockStateHoldover)
      else if has ''SLAVE to LISTENING'' then (PortRoleListening, ClockStateHoldover)
      else if has ''FAULTY to LISTENING'' \<or> has ''UNCALIBRATED to LISTENING'' \<or> has ''INITIALIZING to LISTENING''
        then (PortRoleListening, ClockStateFreeRun)
      else (PortRoleUnknown, ClockStateFreeRun))"

definition extractEventPTP4l :: "ptp4l_parsed \<Rightarrow> log_event option \<times> string option" where
  "extractEventPTP4l p =
     (case p4_PortID p of
        None \<Rightarrow> (None, Some ''port id not found'')
      | Some i \<Rightarrow>
          (case determineRole (p4_Event p) of (role, st) \<Rightarrow>
             (Some (zero_log_event\<lparr>pe_PortID := (if role = PortRoleUnknown then 0 else i), pe_Role := role,
                pe_ClockState := st, pe_Raw := p4_Raw p\<rparr>), None)))"

definition extractSummaryPTP4l :: "ptp4l_parsed \<Rightarrow> log_metrics option \<times> string option" where
  "extractSummaryPTP4l p =
     (case (p4_Offset p, p4_MaxOffset p, p4_FreqAdj p) of
        (None, _, _) \<Rightarrow> (None, Some ''failed to find offset'')
      | (_, None, _) \<Rightarrow> (None, Some ''failed to find max offset'')
      | (_, _, None) \<Rightarrow> (None, Some ''failed to find freq adj'')
      | (Some x, Some m, Some f) \<Rightarrow>
          (Some (zero_metrics\<lparr>mx_Iface := (if p4_Interface p = '''' then ''master'' else p4_Interface p), mx_Offset := x,
             mx_MaxOffset := m, mx_FreqAdj := f, mx_Delay := (case p4_Delay p of None \<Rightarrow> Fin 0 | Some d \<Rightarrow> d),
             mx_Source := ''master''\<rparr>), None))"

definition extractRegularPTP4l :: "ptp4l_parsed \<Rightarrow> log_metrics option \<times> string option" where
  "extractRegularPTP4l p =
     (case (p4_Offset p, p4_FreqAdj p) of
        (None, _) \<Rightarrow> (None, Some ''failed to find offset'')
      | (_, None) \<Rightarrow> (None, Some ''failed to find freq adj'')
      | (Some x, Some f) \<Rightarrow>
          if p4_ServoState p = '''' then (None, Some ''failed to find clock state'')
          else (Some (zero_metrics\<lparr>mx_Iface := p4_Interface p, mx_Offset := x, mx_MaxOffset := x, mx_FreqAdj := f,
             mx_Delay := (case p4_Delay p of None \<Rightarrow> Fin 0 | Some d \<Rightarrow> d),
             mx_ClockState := clockStateFromServo (p4_ServoState p), mx_ServoState := p4_ServoState p,
             mx_Source := ''master''\<rparr>), None))"

definition ptp4lEventRegex :: rx where
  "ptp4lEventRegex =
     rseq (rx_head ''ptp4l'' @ [rx_s] @ rx_config @
       [rx_s, RLit ''port'', rx_s, RCap 4 (RPlus ch_digit),
        ROpt (rseq [rx_s, RLit ''('', RCap 5 (RPlus ch_word), RLit '')'']), RLit '':'', rx_s, RCap 6 (RPlus ch_any)])"

definition summaryPTP4LRegex :: rx where
  "summaryPTP4LRegex =
     rseq (rx_head ''ptp4l'' @ [rx_s] @ rx_config @
       [rx_s0, ROpt (RCap 4 (RPlus ch_word)), rx_s, RLit ''rms'', rx_s, RCap 5 rx_int, rx_s, RLit ''max'', rx_s, RCap 6 rx_int,
        rx_s, RLit ''freq'', rx_s, RCap 7 rx_signed_int, rx_s, rx_error, rx_s0,
        ROpt (rseq [RLit ''delay'', rx_s, RCap 8 (RPlus ch_digit), rx_s, rx_error]), REnd])"

definition regularPTP4LRegex :: rx where
  "regularPTP4LRegex =
     rseq (rx_head ''ptp4l'' @ [rx_s] @ rx_config @
       [rx_s0, ROpt (RCap 4 (RPlus ch_word)), rx_s, RLit ''offset'', rx_s, RCap 5 rx_int, rx_s,
        RCap 6 (rseq [RLit ''s'', RCls ch_digit]), rx_s, RLit ''freq'', rx_s, RCap 7 rx_signed_int, rx_s0,
        ROpt (rseq [RLit ''path'', rx_s, RLit ''delay'', rx_s, RCap 8 (RPlus ch_digit)]), REnd])"

definition only_event :: "log_event option \<times> string option \<Rightarrow> nat \<Rightarrow> log_result \<times> nat" where
  "only_event r n = ((None, fst r, snd r), n)"

definition only_metrics :: "log_metrics option \<times> string option \<Rightarrow> nat \<Rightarrow> log_result \<times> nat" where
  "only_metrics r n = ((fst r, None, snd r), n)"

definition ptp4l_rules :: "ptp4l_parsed log_rule list" where
  "ptp4l_rules =
     [\<lparr>lr_find = match_here ptp4lEventRegex, lr_names = [''timestamp'', ''config_name'', ''serverity'', ''port_id'', ''port_name'', ''event''],
       lr_extract = \<lambda>p. only_event (extractEventPTP4l p)\<rparr>,
      \<lparr>lr_find = match_here summaryPTP4LRegex,
       lr_names = [''timestamp'', ''config_name'', ''serverity'', ''interface'', ''offset'', ''max'', ''freq_adj'', ''delay''],
       lr_extract = \<lambda>p. only_metrics (extractSummaryPTP4l p)\<rparr>,
      \<lparr>lr_find = match_here regularPTP4LRegex,
       lr_names = [''timestamp'', ''config_name'', ''serverity'', ''interface'', ''offset'', ''servo_state'', ''freq_adj'', ''delay''],
       lr_extract = \<lambda>p. only_metrics (extractRegularPTP4l p)\<rparr>]"

definition NewPTP4LExtractor :: "string \<Rightarrow> nat \<Rightarrow> log_result \<times> nat" where
  "NewPTP4LExtractor = Extract populate_ptp4l new_ptp4l ptp4l_rules"

definition ExtractPortName :: "string \<Rightarrow> string" where
  "ExtractPortName line = (case match_here ptp4lEventRegex line of None \<Rightarrow> '''' | Some (caps, _) \<Rightarrow> capture caps 5)"

section \<open>phc2sys\<close>

record phc2sys_parsed =
  p2_Raw :: string
  p2_Offset :: "f64 option"
  p2_MaxOffset :: "f64 option"
  p2_FreqAdj :: "f64 option"
  p2_Delay :: "f64 option"
  p2_ServoState :: string
  p2_Source :: string
  p2_SelectedIface :: string

definition new_phc2sys :: "string \<Rightarrow> phc2sys_parsed" where
  "new_phc2sys line = \<lparr>p2_Raw = line, p2_Offset = None, p2_MaxOffset = None, p2_FreqAdj = None, p2_Delay = None,
     p2_ServoState = '''', p2_Source = '''', p2_SelectedIface = ''''\<rparr>"

definition populate_phc2sys :: "string \<Rightarrow> string \<Rightarrow> phc2sys_parsed \<Rightarrow> string + phc2sys_parsed" where
  "populate_phc2sys k v p =
     (if k = ''serverity'' then (if v = '''' then Inr p else read_int v (\<lambda>_. p))
      else if k = ''offset'' then (if v = '''' then Inl ''offset cannot be empty'' else read_float v (\<lambda>x. p\<lparr>p2_Offset := Some x\<rparr>))
      else if k = ''max'' then (if v = '''' then Inl ''max cannot be empty'' else read_float v (\<lambda>x. p\<lparr>p2_MaxOffset := Some x\<rparr>))
      else if k = ''freq_adj'' then (if v = '''' then Inl ''freq_adj cannot be empty'' else read_float v (\<lambda>x. p\<lparr>p2_FreqAdj := Some x\<rparr>))
      else if k = ''delay'' then (if v = '''' then Inr p else read_float v (\<lambda>x. p\<lparr>p2_Delay := Some x\<rparr>))
      else if k = ''servo_state'' then Inr (p\<lparr>p2_ServoState := v\<rparr>)
      else if k = ''source'' then Inr (p\<lparr>p2_Source := v\<rparr>)
      else if k = ''selected_iface'' then Inr (p\<lparr>p2_SelectedIface := v\<rparr>)
      else Inr p)"

definition extractSummaryPhc2Sys :: "phc2sys_parsed \<Rightarrow> log_metrics option \<times> string option" where
  "extractSummaryPhc2Sys p =
     (case (p2_Offset p, p2_MaxOffset p, p2_FreqAdj p) of
        (None, _, _) \<Rightarrow> (None, Some ''failed to find offset'')
      | (_, None, _) \<Rightarrow> (None, Some ''failed to find max offset'')
      | (_, _, None) \<Rightarrow> (None, Some ''failed to find freq adj'')
      | (Some x, Some m, Some f) \<Rightarrow>
          (Some (zero_metrics\<lparr>mx_Iface := ''CLOCK_REALTIME'', mx_Offset := x, mx_MaxOffset := m, mx_FreqAdj := f,
             mx_Delay := (case p2_Delay p of None \<Rightarrow> Fin 0 | Some d \<Rightarrow> d), mx_Source := ''master''\<rparr>), None))"

definition extractRegularPhc2Sys :: "phc2sys_parsed \<Rightarrow> log_metrics option \<times> string option" where
  "extractRegularPhc2Sys p =
     (case (p2_Offset p, p2_FreqAdj p) of
        (None, _) \<Rightarrow> (None, Some ''failed to find offset'')
      | (_, None) \<Rightarrow> (None, Some ''failed to find freq adj'')
      | (Some x, Some f) \<Rightarrow>
          if p2_Source p = '''' then (None, Some ''failed to find source'')
          else (Some (zero_metrics\<lparr>mx_Iface := ''CLOCK_REALTIME'', mx_Offset := x, mx_MaxOffset := x, mx_FreqAdj := f,
             mx_Delay := (case p2_Delay p of None \<Rightarrow> Fin 0 | Some d \<Rightarrow> d),
             mx_ClockState := clockStateFromServo (p2_ServoState p), mx_Source := p2_Source p\<rparr>), None))"

definition extractSelectingPhc2Sys :: "phc2sys_parsed \<Rightarrow> log_event option \<times> string option" where
  "extractSelectingPhc2Sys p =
     (if p2_SelectedIface p = '''' then (None, Some ''failed to find selected source interface'')
      else (Some (zero_log_event\<lparr>pe_Iface := p2_SelectedIface p, pe_Raw := p2_Raw p\<rparr>), None))"

definition summaryPhc2SysRegex :: rx where
  "summaryPhc2SysRegex =
     rseq (rx_head ''phc2sys'' @ [rx_s] @ rx_config @
       [rx_s, RCap 4 (RLit ''CLOCK_REALTIME''), rx_s, RLit ''rms'', rx_s, RCap 5 rx_int, rx_s, RLit ''max'', rx_s, RCap 6 rx_int,
        rx_s, RLit ''freq'', rx_s, RCap 7 rx_signed_int, rx_s, rx_error, rx_s0,
        ROpt (rseq [RLit ''delay'', rx_s, RCap 8 (RPlus ch_digit), rx_s, rx_error]), REnd])"

definition regularPhc2SysRegex :: rx where
  "regularPhc2SysRegex =
     rseq (rx_head ''phc2sys'' @ [rx_s] @ rx_config @
       [rx_s, RCap 4 (RLit ''CLOCK_REALTIME''), rx_s, RCap 5 (RAlt (RLit ''phc'') (RLit ''sys'')), rx_s, RLit ''offset'',
        rx_s, RCap 6 rx_int, rx_s, RCap 7 (rseq [RLit ''s'', RCls ch_digit]), rx_s, RLit ''freq'', rx_s, RCap 8 rx_signed_int,
        rx_s0, ROpt (rseq [RLit ''delay'', rx_s, RCap 9 rx_signed_int]), REnd])"

definition selectingPhc2SysRegex :: rx where
  "selectingPhc2SysRegex =
     rseq (rx_head ''phc2sys'' @ [rx_s] @ rx_config @
       [rx_s, RLit ''selecting'', rx_s, RCap 4 (RPlus (\<lambda>c. \<not> ch_s c)), rx_s, RLit ''as'', rx_s,
        RPlus (\<lambda>c. ch_word c \<or> c = CHR ''-''), rx_s, RLit ''source'', rx_s, RLit ''clock'', REnd])"

definition phc2sys_rules :: "phc2sys_parsed log_rule list" where
  "phc2sys_rules =
     [\<lparr>lr_find = match_here summaryPhc2SysRegex,
       lr_names = [''timestamp'', ''config_name'', ''serverity'', ''clock_name'', ''offset'', ''max'', ''freq_adj'', ''delay''],
       lr_extract = \<lambda>p. only_metrics (extractSummaryPhc2Sys p)\<rparr>,
      \<lparr>lr_find = match_here regularPhc2SysRegex,
       lr_names = [''timestamp'', ''config_name'', ''serverity'', ''clock_name'', ''source'', ''offset'', ''servo_state'',
         ''freq_adj'', ''delay''],
       lr_extract = \<lambda>p. only_metrics (extractRegularPhc2Sys p)\<rparr>,
      \<lparr>lr_find = match_here selectingPhc2SysRegex, lr_names = [''timestamp'', ''config_name'', ''serverity'', ''selected_iface''],
       lr_extract = \<lambda>p. only_event (extractSelectingPhc2Sys p)\<rparr>]"

definition NewPhc2SysExtractor :: "string \<Rightarrow> nat \<Rightarrow> log_result \<times> nat" where
  "NewPhc2SysExtractor = Extract populate_phc2sys new_phc2sys phc2sys_rules"

section \<open>ts2phc\<close>

record ts2phc_parsed =
  t2_Raw :: string
  t2_Timestamp :: string
  t2_Interface :: string
  t2_Status :: "f64 option"
  t2_Offset :: "f64 option"
  t2_ServoState :: string
  t2_FreqAdj :: "f64 option"
  t2_Holdover :: string
  t2_PHCTstamp :: "(int \<times> int) option"
  t2_PHCDevice :: string
  t2_PollTimeout :: bool
  t2_Role :: phc_role

definition new_ts2phc :: "string \<Rightarrow> ts2phc_parsed" where
  "new_ts2phc line = \<lparr>t2_Raw = line, t2_Timestamp = '''', t2_Interface = '''', t2_Status = None, t2_Offset = None,
     t2_ServoState = '''', t2_FreqAdj = None, t2_Holdover = '''', t2_PHCTstamp = None, t2_PHCDevice = '''',
     t2_PollTimeout = False, t2_Role = RoleNone\<rparr>"

text \<open>Seconds and nanoseconds of a time stamp; the fraction is filled up to nine digits.\<close>

definition parsePHCTimestamp :: "string \<Rightarrow> string + int \<times> int" where
  "parsePHCTimestamp value =
     (case Cut value (CHR ''.'') of (secs, fr, found) \<Rightarrow>
        (case ParseInt secs 10 64 of
           (_, Some e) \<Rightarrow> Inl ''strconv.ParseInt''
         | (s, None) \<Rightarrow>
             if \<not> found then Inr (s, 0)
             else if fr = '''' \<or> 9 < length fr then Inl ''PHC timestamp fraction must contain 1 to 9 digits''
             else (case ParseInt (fr @ replicate (9 - length fr) (CHR ''0'')) 10 64 of
                     (_, Some e) \<Rightarrow> Inl ''strconv.ParseInt''
                   | (ns, None) \<Rightarrow> Inr (s, ns))))"

definition populate_ts2phc :: "string \<Rightarrow> string \<Rightarrow> ts2phc_parsed \<Rightarrow> string + ts2phc_parsed" where
  "populate_ts2phc k v p =
     (if k = ''timestamp'' then Inr (p\<lparr>t2_Timestamp := v\<rparr>)
      else if k = ''severity'' then (if v = '''' then Inr p else read_int v (\<lambda>_. p))
      else if k = ''interface'' then Inr (p\<lparr>t2_Interface := v\<rparr>)
      else if k = ''status'' then (if v = '''' then Inr p else read_float v (\<lambda>x. p\<lparr>t2_Status := Some x\<rparr>))
      else if k = ''offset'' then read_float v (\<lambda>x. p\<lparr>t2_Offset := Some x\<rparr>)
      else if k = ''servo_state'' then Inr (p\<lparr>t2_ServoState := v\<rparr>)
      else if k = ''freq'' then read_float v (\<lambda>x. p\<lparr>t2_FreqAdj := Some x\<rparr>)
      else if k = ''holdover'' then Inr (p\<lparr>t2_Holdover := v\<rparr>)
      else if k = ''tstamp'' then
        (case parsePHCTimestamp v of Inl e \<Rightarrow> Inl e | Inr t \<Rightarrow> Inr (p\<lparr>t2_PHCTstamp := Some t\<rparr>))
      else if k = ''phc'' then Inr (p\<lparr>t2_PHCDevice := v\<rparr>)
      else if k = ''pollTimeout'' then Inr (p\<lparr>t2_PollTimeout := True\<rparr>)
      else if k = ''selection'' then Inr (p\<lparr>t2_Role := (if v = ''selecting'' then TS2PHCSink else TS2PHCUnmanaged)\<rparr>)
      else Inr p)"

text \<open>An offset line also sets the counter of lines without a source time stamp back to 0.\<close>

definition extractTS2PHCOffset :: "ts2phc_parsed \<Rightarrow> nat \<Rightarrow> log_result \<times> nat" where
  "extractTS2PHCOffset p n =
     (if t2_Interface p = '''' then ((None, None, Some ''ts2phc interface is empty''), n)
      else (case (t2_Offset p, t2_FreqAdj p) of
              (None, _) \<Rightarrow> ((None, None, Some ''ts2phc offset is empty''), n)
            | (_, None) \<Rightarrow> ((None, None, Some ''ts2phc freq is empty''), n)
            | (Some x, Some f) \<Rightarrow>
                ((Some (zero_metrics\<lparr>mx_From := ''ts2phc'', mx_Iface := t2_Interface p, mx_Offset := x, mx_MaxOffset := x,
                    mx_ClockState := (if t2_Holdover p \<noteq> '''' then ClockStateHoldover else clockStateFromServo (t2_ServoState p)),
                    mx_FreqAdj := f, mx_Source := ''master''\<rparr>),
                  Some (zero_log_event\<lparr>pe_Iface := t2_Interface p, pe_Raw := t2_Raw p,
                    pe_Ts2Phc := Some \<lparr>te_Timestamp = t2_Timestamp p, te_PHCDevice = '''', te_PHCTstamp = None,
                      te_PollTimeout = False, te_PollSuccessful = True, te_Role = RoleNone\<rparr>\<rparr>),
                  None), 0)))"

definition extractTS2PHCnmeaStatus :: "ts2phc_parsed \<Rightarrow> nat \<Rightarrow> log_result \<times> nat" where
  "extractTS2PHCnmeaStatus p n =
     (if t2_Interface p = '''' then ((None, None, Some ''ts2phc interface is empty''), n)
      else (case t2_Offset p of
              None \<Rightarrow> ((None, None, Some ''ts2phc offset is empty''), n)
            | Some x \<Rightarrow>
                ((Some (zero_metrics\<lparr>mx_From := ''ts2phc'', mx_Iface := t2_Interface p, mx_Offset := x, mx_MaxOffset := x,
                    mx_ClockState := clockStateFromServo (t2_ServoState p), mx_Source := ''nmea_status'',
                    mx_Status := (case t2_Status p of None \<Rightarrow> [] | Some st \<Rightarrow> [(''nmea_status'', st)])\<rparr>),
                  None, None), n)))"

definition extractNoSourceTS :: "ts2phc_parsed \<Rightarrow> nat \<Rightarrow> log_result \<times> nat" where
  "extractNoSourceTS p n = ((None, None, None), if n < 2 then Suc n else n)"

definition extractTS2PHCPollEvent :: "ts2phc_parsed \<Rightarrow> nat \<Rightarrow> log_result \<times> nat" where
  "extractTS2PHCPollEvent p n =
     ((None,
       Some (zero_log_event\<lparr>pe_Raw := t2_Raw p,
         pe_Ts2Phc := Some \<lparr>te_Timestamp = t2_Timestamp p, te_PHCDevice = t2_PHCDevice p, te_PHCTstamp = t2_PHCTstamp p,
           te_PollTimeout = t2_PollTimeout p, te_PollSuccessful = False, te_Role = t2_Role p\<rparr>\<rparr>),
       None), n)"

definition extractTS2PHCReferenceEvent :: "ts2phc_parsed \<Rightarrow> nat \<Rightarrow> log_result \<times> nat" where
  "extractTS2PHCReferenceEvent p = extractTS2PHCPollEvent (p\<lparr>t2_Role := TS2PHCSource\<rparr>)"

text \<open>The class \<open>[\w|\/]\<close> also holds the bar, as does \<open>[0|1]\<close>.\<close>

definition rx_ts2phc_iface :: rx where
  "rx_ts2phc_iface = RCap 4 (RPlus (\<lambda>c. ch_word c \<or> c = CHR ''|'' \<or> c = CHR ''/''))"

definition rx_dev_ptp :: rx where "rx_dev_ptp = rseq [RLit ''/dev/ptp'', RPlus ch_digit]"

definition regularTS2PhcRegex :: rx where
  "regularTS2PhcRegex =
     rseq (rx_head ''ts2phc'' @ [rx_s] @ rx_config_ts2phc @
       [rx_s, rx_ts2phc_iface, rx_s0, ROpt (RCap 5 (RLit ''master'')), rx_s, RLit ''offset'', rx_s, RCap 6 rx_int,
        rx_s, ROpt (RCap 7 (rseq [RLit ''s'', RPlus ch_digit])), rx_s, RLit ''freq'', rx_s, RCap 8 rx_signed_int,
        ROpt (rseq [rx_s0, RCap 9 (RLit ''holdover'')]), REnd])"

definition nmeaStatusTS2PhcRegex :: rx where
  "nmeaStatusTS2PhcRegex =
     rseq (rx_head ''ts2phc'' @ [rx_s0] @ rx_config_ts2phc @
       [rx_s, rx_ts2phc_iface, rx_s, RLit ''nmea_status'', rx_s, RCap 5 (RCls (ch_is ''0|1'')), rx_s, RLit ''offset'',
        rx_s, RCap 6 rx_int, rx_s, ROpt (RCap 7 (rseq [RLit ''s'', RPlus ch_digit]))])"

definition noSourceTSRegex :: rx where
  "noSourceTSRegex =
     rseq (rx_head ''ts2phc'' @ [rx_s0] @ rx_config_ts2phc @ [rx_s0, RLit ''source ts not valid'', REnd])"

definition tstampEventTS2PHCRegex :: rx where
  "tstampEventTS2PHCRegex =
     rseq (rx_head ''ts2phc'' @ [rx_s] @ rx_config_ts2phc @
       [rx_s, RLit ''adding tstamp'', rx_s, RCap 4 (rseq [RPlus ch_digit, RLit ''.'', RPlus ch_digit]), rx_s, RLit ''to clock'',
        rx_s, RCap 5 (RPlus (\<lambda>c. \<not> ch_s c)), REnd])"

definition selectionTS2PHCRegex :: rx where
  "selectionTS2PHCRegex =
     rseq (rx_head ''ts2phc'' @ [rx_s0] @ rx_config_ts2phc @
       [rx_s, RCap 4 (RAlt (RLit ''selecting'') (RLit ''unselecting'')), rx_s, RCap 5 rx_dev_ptp, rx_s,
        RLit ''for synchronization'', REnd])"

definition referenceTS2PHCRegex :: rx where
  "referenceTS2PHCRegex =
     rseq (rx_head ''ts2phc'' @ [rx_s0] @ rx_config_ts2phc @
       [rx_s, RLit ''selecting'', rx_s, RCap 4 rx_dev_ptp, rx_s, RLit ''as the reference clock'', REnd])"

definition defaultReferenceTS2PHCRegex :: rx where
  "defaultReferenceTS2PHCRegex =
     rseq (rx_head ''ts2phc'' @ [rx_s0] @ rx_config_ts2phc @
       [rx_s, RLit ''no reference clock, selecting'', rx_s, RCap 4 rx_dev_ptp, rx_s, RLit ''by default'', REnd])"

definition tstampTimeoutTS2PHCRegex :: rx where
  "tstampTimeoutTS2PHCRegex =
     rseq (rx_head ''ts2phc'' @ [rx_s] @ rx_config_ts2phc @ [rx_s, RCap 4 (RLit ''poll returns zero, no events''), REnd])"

definition ts2phc_rules :: "ts2phc_parsed log_rule list" where
  "ts2phc_rules =
     [\<lparr>lr_find = match_here regularTS2PhcRegex,
       lr_names = [''timestamp'', ''config_name'', ''severity'', ''interface'', ''clock_name'', ''offset'', ''servo_state'', ''freq'',
         ''holdover''],
       lr_extract = extractTS2PHCOffset\<rparr>,
      \<lparr>lr_find = match_here nmeaStatusTS2PhcRegex,
       lr_names = [''timestamp'', ''config_name'', ''severity'', ''interface'', ''status'', ''offset'', ''servo_state''],
       lr_extract = extractTS2PHCnmeaStatus\<rparr>,
      \<lparr>lr_find = match_here noSourceTSRegex, lr_names = [''timestamp'', ''config_name'', ''severity''],
       lr_extract = extractNoSourceTS\<rparr>,
      \<lparr>lr_find = match_here tstampEventTS2PHCRegex, lr_names = [''timestamp'', ''config_name'', ''severity'', ''tstamp'', ''phc''],
       lr_extract = extractTS2PHCPollEvent\<rparr>,
      \<lparr>lr_find = match_here tstampTimeoutTS2PHCRegex, lr_names = [''timestamp'', ''config_name'', ''severity'', ''pollTimeout''],
       lr_extract = extractTS2PHCPollEvent\<rparr>,
      \<lparr>lr_find = match_here selectionTS2PHCRegex, lr_names = [''timestamp'', ''config_name'', ''severity'', ''selection'', ''phc''],
       lr_extract = extractTS2PHCPollEvent\<rparr>,
      \<lparr>lr_find = match_here referenceTS2PHCRegex, lr_names = [''timestamp'', ''config_name'', ''severity'', ''phc''],
       lr_extract = extractTS2PHCReferenceEvent\<rparr>,
      \<lparr>lr_find = match_here defaultReferenceTS2PHCRegex, lr_names = [''timestamp'', ''config_name'', ''severity'', ''phc''],
       lr_extract = extractTS2PHCReferenceEvent\<rparr>]"

definition NewTS2PHCExtractor :: "string \<Rightarrow> nat \<Rightarrow> log_result \<times> nat" where
  "NewTS2PHCExtractor = Extract populate_ts2phc new_ts2phc ts2phc_rules"

section \<open>chronyd\<close>

definition rx_chronyd_head :: "rx list" where
  "rx_chronyd_head =
     [RLit ''chronyd['', RPlus ch_digit, RLit '']['',
      RCap 1 (rseq [RMany True ch_any, RLit ''.'', RPlus ch_digit, RLit ''.config'']), RLit '']:'', rx_s]"

definition chronydSelectedSourceRegex :: rx where
  "chronydSelectedSourceRegex = rseq (rx_chronyd_head @ [RLit ''Selected source'', rx_s])"

definition chronydNoSelectableSourcesRegex :: rx where
  "chronydNoSelectableSourcesRegex = rseq (rx_chronyd_head @ [RMany True ch_any, RLit ''no selectable sources''])"

definition chronyd_metrics :: "clock_state \<Rightarrow> log_metrics" where
  "chronyd_metrics st =
     zero_metrics\<lparr>mx_Iface := ''CLOCK_REALTIME'', mx_ClockState := st, mx_Offset := Fin 0, mx_Source := ''chronyd''\<rparr>"

definition chronyd_rules :: "string log_rule list" where
  "chronyd_rules =
     [\<lparr>lr_find = match_leftmost chronydSelectedSourceRegex, lr_names = [''config_name''],
       lr_extract = \<lambda>_. only_metrics (Some (chronyd_metrics ClockStateLocked), None)\<rparr>,
      \<lparr>lr_find = match_leftmost chronydNoSelectableSourcesRegex, lr_names = [''config_name''],
       lr_extract = \<lambda>_. only_metrics (Some (chronyd_metrics ClockStateFreeRun), None)\<rparr>]"

definition NewChronydExtractor :: "string \<Rightarrow> nat \<Rightarrow> log_result \<times> nat" where
  "NewChronydExtractor = Extract (\<lambda>k v p. Inr (if k = ''config_name'' then v else p)) (\<lambda>_. '''') chronyd_rules"

section \<open>Facts\<close>

text \<open>What a group captures is a part of the line.\<close>

lemma many_tail: "many g p s k = Some x \<Longrightarrow> \<exists>u t. s = u @ t \<and> k t = Some x"
  by (drule many_suffix) blast

definition part_of :: "string \<Rightarrow> string \<Rightarrow> bool" where
  "part_of v s \<longleftrightarrow> (\<exists>a b. s = a @ v @ b)"

lemma part_of_suffix: "part_of v t \<Longrightarrow> part_of v (u @ t)"
  unfolding part_of_def by (metis append.assoc)

lemma part_of_prefix: "part_of u (u @ t)"
  unfolding part_of_def by (metis append_Nil)

lemma part_of_trans: "part_of u v \<Longrightarrow> part_of v w \<Longrightarrow> part_of u w"
  unfolding part_of_def by (metis append.assoc)

lemma part_of_dropWhile: "part_of (dropWhile p x) x"
  using part_of_suffix [of "dropWhile p x" "dropWhile p x" "takeWhile p x"] part_of_prefix [of "dropWhile p x" "[]"]
  by simp

lemma part_of_rev: "part_of u v \<Longrightarrow> part_of (rev u) (rev v)"
proof -
  assume "part_of u v"
  then obtain a b where "v = a @ u @ b" unfolding part_of_def by blast
  then have "rev v = rev b @ rev u @ rev a" by simp
  then show ?thesis unfolding part_of_def by blast
qed

lemma TrimSpace_part: "part_of (TrimSpace s) s"
proof -
  let ?d = "dropWhile ch_space s"
  have "part_of (rev (dropWhile ch_space (rev ?d))) (rev (rev ?d))" by (rule part_of_rev [OF part_of_dropWhile])
  then have "part_of (TrimSpace s) ?d" by (simp add: TrimSpace_def trim_both_def)
  then show ?thesis by (rule part_of_trans) (rule part_of_dropWhile)
qed

lemma mt_captures:
  "mt r m s k = Some x \<Longrightarrow>
     \<exists>m' u t. s = u @ t \<and> k m' t = Some x \<and> (\<forall>i v. (i, v) \<in> set m' \<longrightarrow> (i, v) \<in> set m \<or> part_of v s)"
proof (induction r arbitrary: m s k)
  case REps
  then show ?case by (intro exI [of _ m] exI [of _ "[]"] exI [of _ s]) simp
next
  case REnd
  then show ?case by (intro exI [of _ m] exI [of _ "[]"] exI [of _ s]) (simp split: if_splits)
next
  case (RLit l)
  from RLit have "has_prefix s l" and l2: "k m (drop (length l) s) = Some x" by (auto split: if_splits)
  then have l1: "take (length l) s = l" unfolding has_prefix_def by blast
  have "l @ drop (length l) s = s" using append_take_drop_id [of "length l" s] unfolding l1 .
  then have "s = l @ drop (length l) s" by (rule sym)
  with l2 show ?case by blast
next
  case (RCls p)
  then obtain c t where "s = c # t" "k m t = Some x" by (auto split: list.splits if_splits)
  then show ?case by (intro exI [of _ m] exI [of _ "[c]"] exI [of _ t]) simp
next
  case (RMany g p)
  then obtain u t where "s = u @ t" "k m t = Some x" using many_tail [of g p s "k m" x] by auto
  then show ?case by (intro exI [of _ m] exI [of _ u] exI [of _ t]) simp
next
  case (RSeq a b)
  from RSeq.prems have "mt a m s (\<lambda>m' s'. mt b m' s' k) = Some x" by simp
  from RSeq.IH(1) [OF this] obtain m1 u t where
    1: "s = u @ t" "mt b m1 t k = Some x" "\<forall>i v. (i, v) \<in> set m1 \<longrightarrow> (i, v) \<in> set m \<or> part_of v s"
    by blast
  from RSeq.IH(2) [OF 1(2)] obtain m2 u2 t2 where
    2: "t = u2 @ t2" "k m2 t2 = Some x" "\<forall>i v. (i, v) \<in> set m2 \<longrightarrow> (i, v) \<in> set m1 \<or> part_of v t"
    by blast
  have "\<forall>i v. (i, v) \<in> set m2 \<longrightarrow> (i, v) \<in> set m \<or> part_of v s"
    using 1(1,3) 2(3) part_of_suffix by blast
  then show ?case using 1(1) 2(1,2) by (intro exI [of _ m2] exI [of _ "u @ u2"] exI [of _ t2]) simp
next
  case (RAlt a b)
  show ?case
  proof (cases "mt a m s k")
    case None
    with RAlt.prems have "mt b m s k = Some x" by simp
    then show ?thesis by (rule RAlt.IH(2))
  next
    case (Some y)
    with RAlt.prems have "mt a m s k = Some x" by simp
    then show ?thesis by (rule RAlt.IH(1))
  qed
next
  case (RCap i r)
  from RCap.prems have "mt r m s (\<lambda>m' s'. k ((i, take (length s - length s') s) # m') s') = Some x" by simp
  from RCap.IH [OF this] obtain m' u t where
    1: "s = u @ t" "k ((i, take (length s - length t) s) # m') t = Some x"
      "\<forall>i v. (i, v) \<in> set m' \<longrightarrow> (i, v) \<in> set m \<or> part_of v s" by blast
  have "take (length s - length t) s = u" using 1(1) by simp
  then have "k ((i, u) # m') t = Some x" "\<forall>j v. (j, v) \<in> set ((i, u) # m') \<longrightarrow> (j, v) \<in> set m \<or> part_of v s"
    using 1 part_of_prefix by auto
  with 1(1) show ?case by (intro exI [of _ "(i, u) # m'"] exI [of _ u] exI [of _ t]) blast
qed

lemma match_here_captures:
  assumes "match_here r s = Some (caps, w)" "(i, v) \<in> set caps"
  shows "part_of v s"
proof -
  from mt_captures [OF assms(1) [unfolded match_here_def]] obtain m' u t where
    m: "m' = caps" "\<forall>i v. (i, v) \<in> set m' \<longrightarrow> (i, v) \<in> set [] \<or> part_of v s" by auto
  from m(2) [rule_format, of i v] assms(2) m(1) show ?thesis by simp
qed

lemma capture_part: "match_here r s = Some (caps, w) \<Longrightarrow> capture caps i = [] \<or> part_of (capture caps i) s"
  unfolding capture_def by (auto split: option.splits dest: map_of_SomeD match_here_captures)

lemma Contains_part: "Contains s v \<longleftrightarrow> part_of v s"
proof
  show "Contains s v \<Longrightarrow> part_of v s"
  proof (induction s)
    case Nil
    then show ?case by (simp add: Contains_def part_of_def split: if_splits)
  next
    case (Cons c s)
    show ?case
    proof (cases "has_prefix (c # s) v")
      case True
      then have "c # s = v @ drop (length v) (c # s)" unfolding has_prefix_def by (metis append_take_drop_id)
      then show ?thesis using part_of_prefix by metis
    next
      case False
      with Cons have "part_of v s" by (simp add: Contains_def)
      then show ?thesis using part_of_suffix [of v s "[c]"] by simp
    qed
  qed
  show "part_of v s \<Longrightarrow> Contains s v"
  proof -
    assume "part_of v s"
    then obtain a b where "s = a @ v @ b" unfolding part_of_def by blast
    then show ?thesis
    proof (induction a arbitrary: s)
      case Nil
      have "has_prefix (v @ b) v" by simp
      with Nil show ?case by (cases "v @ b") (simp_all add: Contains_def)
    next
      case (Cons c a)
      then have "Contains (a @ v @ b) v" by simp
      with Cons.prems show ?case by (simp add: Contains_def)
    qed
  qed
qed

text \<open>What a result was made of: the first rule that matches, its groups, and its extraction.\<close>

lemma extract_rules_found:
  "extract_rules f new rs line n = ((Some m, ev, err), n') \<Longrightarrow>
     \<exists>r caps w p. r \<in> set rs \<and> lr_find r line = Some (caps, w) \<and>
       populate_all f (zip (lr_names r) (map (capture caps) [1..<Suc (length (lr_names r))])) (new line) = Inr p \<and>
       lr_extract r p n = ((Some m, ev, err), n')"
proof (induction rs)
  case Nil
  then show ?case by simp
next
  case (Cons r rs)
  show ?case
  proof (cases "lr_find r line")
    case None
    with Cons obtain r' caps w p where "r' \<in> set rs" "lr_find r' line = Some (caps, w)"
      "populate_all f (zip (lr_names r') (map (capture caps) [1..<Suc (length (lr_names r'))])) (new line) = Inr p"
      "lr_extract r' p n = ((Some m, ev, err), n')" by fastforce
    then show ?thesis by (intro exI [of _ r'] exI [of _ caps] exI [of _ w] exI [of _ p]) simp
  next
    case (Some cw)
    obtain caps w where [simp]: "cw = (caps, w)" by fastforce
    obtain p where "populate_all f (zip (lr_names r) (map (capture caps) [1..<Suc (length (lr_names r))])) (new line) = Inr p"
      "lr_extract r p n = ((Some m, ev, err), n')"
      using Cons.prems Some by (auto split: sum.splits)
    then show ?thesis using Some by (intro exI [of _ r] exI [of _ caps] exI [of _ w] exI [of _ p]) simp
  qed
qed

lemma populate_all_field:
  assumes "\<And>k v p q. f k v p = Inr q \<Longrightarrow> g q = g p \<or> g q = v"
  shows "populate_all f kvs p = Inr q \<Longrightarrow> g q = g p \<or> g q \<in> snd ` set kvs"
proof (induction kvs arbitrary: p)
  case Nil
  then show ?case by simp
next
  case (Cons kv kvs)
  obtain k v where kv: "kv = (k, v)" by fastforce
  with Cons.prems obtain p' where p': "f k v p = Inr p'" "populate_all f kvs p' = Inr q" by (auto split: sum.splits)
  from Cons.IH [OF p'(2)] assms [OF p'(1)] show ?case using kv by auto
qed

text \<open>A field that only takes values of groups holds a part of the line.\<close>

lemma Extract_field:
  assumes "Extract f new rs line n = ((Some m, ev, err), n')"
    and "\<And>k v p q. f k v p = Inr q \<Longrightarrow> g q = g p \<or> g q = v" "\<And>l. g (new l) = []"
    and "\<forall>r \<in> set rs. \<exists>x. lr_find r = match_here x"
  shows "\<exists>r p. r \<in> set rs \<and> lr_extract r p n = ((Some m, ev, err), n') \<and> (g p = [] \<or> part_of (g p) line)"
proof -
  let ?l = "TrimSpace line"
  from assms(1) have "extract_rules f new rs ?l n = ((Some m, ev, err), n')"
    by (auto simp: Extract_def Let_def split: if_splits)
  from extract_rules_found [OF this] obtain r caps w p where
    r: "r \<in> set rs" "lr_find r ?l = Some (caps, w)"
      "populate_all f (zip (lr_names r) (map (capture caps) [1..<Suc (length (lr_names r))])) (new ?l) = Inr p"
      "lr_extract r p n = ((Some m, ev, err), n')" by blast
  from assms(4) r(1) obtain x where "lr_find r = match_here x" by blast
  with r(2) have here: "match_here x ?l = Some (caps, w)" by simp
  have "g p = g (new ?l) \<or> g p \<in> snd ` set (zip (lr_names r) (map (capture caps) [1..<Suc (length (lr_names r))]))"
    by (rule populate_all_field [OF assms(2) r(3)])
  then have "g p = [] \<or> (\<exists>i. g p = capture caps i)"
  proof
    assume "g p \<in> snd ` set (zip (lr_names r) (map (capture caps) [1..<Suc (length (lr_names r))]))"
    then have "g p \<in> set (map (capture caps) [1..<Suc (length (lr_names r))])" by (force dest: set_zip_rightD)
    then show ?thesis unfolding set_map by blast
  qed (simp add: assms(3))
  then have "g p = [] \<or> part_of (g p) ?l" using capture_part [OF here] by metis
  moreover have "part_of ?l line" by (rule TrimSpace_part)
  ultimately show ?thesis using r(1,4) part_of_trans by blast
qed

lemma read_float_keeps: "read_float v h = Inr q \<Longrightarrow> (\<And>x. g (h x) = g p) \<Longrightarrow> g q = g p"
  by (auto simp: read_float_def split: prod.splits option.splits)

lemma read_int_keeps: "read_int v h = Inr q \<Longrightarrow> (\<And>x. g (h x) = g p) \<Longrightarrow> g q = g p"
  by (auto simp: read_int_def split: prod.splits option.splits)

lemma servo_fields:
  "populate_ptp4l k v p = Inr q \<Longrightarrow> p4_ServoState q = p4_ServoState p \<or> p4_ServoState q = v"
  "populate_phc2sys k v p2 = Inr q2 \<Longrightarrow> p2_ServoState q2 = p2_ServoState p2 \<or> p2_ServoState q2 = v"
  "populate_ts2phc k v p3 = Inr q3 \<Longrightarrow> t2_ServoState q3 = t2_ServoState p3 \<or> t2_ServoState q3 = v"
  by (auto simp: populate_ptp4l_def populate_phc2sys_def populate_ts2phc_def read_float_def read_int_def
      split: if_splits prod.splits option.splits sum.splits)

lemma new_servo:
  "p4_ServoState (new_ptp4l l) = []" "p2_ServoState (new_phc2sys l) = []" "t2_ServoState (new_ts2phc l) = []"
  by (simp_all add: new_ptp4l_def new_phc2sys_def new_ts2phc_def)

lemma anchored:
  "\<forall>r \<in> set ptp4l_rules. \<exists>x. lr_find r = match_here x"
  "\<forall>r \<in> set phc2sys_rules. \<exists>x. lr_find r = match_here x"
  "\<forall>r \<in> set ts2phc_rules. \<exists>x. lr_find r = match_here x"
  unfolding ptp4l_rules_def phc2sys_rules_def ts2phc_rules_def by (simp; blast)+

lemma extract_locked:
  "r \<in> set ptp4l_rules \<Longrightarrow> lr_extract r p n = ((Some m, ev, err), n') \<Longrightarrow> mx_ClockState m = ClockStateLocked \<Longrightarrow>
     p4_ServoState p \<in> {''s2'', ''s3''}"
  "r2 \<in> set phc2sys_rules \<Longrightarrow> lr_extract r2 p2 n = ((Some m, ev, err), n') \<Longrightarrow> mx_ClockState m = ClockStateLocked \<Longrightarrow>
     p2_ServoState p2 \<in> {''s2'', ''s3''}"
  "r3 \<in> set ts2phc_rules \<Longrightarrow> lr_extract r3 p3 n = ((Some m, ev, err), n') \<Longrightarrow> mx_ClockState m = ClockStateLocked \<Longrightarrow>
     t2_ServoState p3 \<in> {''s2'', ''s3''}"
  by (auto simp: ptp4l_rules_def phc2sys_rules_def ts2phc_rules_def only_event_def only_metrics_def extractSummaryPTP4l_def
      extractRegularPTP4l_def extractSummaryPhc2Sys_def extractRegularPhc2Sys_def extractTS2PHCOffset_def
      extractTS2PHCnmeaStatus_def extractNoSourceTS_def extractTS2PHCPollEvent_def extractTS2PHCReferenceEvent_def
      clockStateFromServo_def zero_metrics_def split: if_splits option.splits)

lemma servo_lock_part:
  "v \<in> {''s2'', ''s3''} \<Longrightarrow> v = [] \<or> part_of v line \<Longrightarrow> Contains line ''s2'' \<or> Contains line ''s3''"
  unfolding Contains_part by auto

text \<open>
  A clock is reported LOCKED only from a line of ptp4l, phc2sys or ts2phc that shows the servo in
  state s2 or s3.
\<close>

lemma locked_needs_servo_lock:
  assumes "ext \<in> {NewPTP4LExtractor, NewPhc2SysExtractor, NewTS2PHCExtractor}"
    "ext line n = ((Some m, ev, err), n')" "mx_ClockState m = ClockStateLocked"
  shows "Contains line ''s2'' \<or> Contains line ''s3''"
proof -
  consider "ext = NewPTP4LExtractor" | "ext = NewPhc2SysExtractor" | "ext = NewTS2PHCExtractor" using assms(1) by blast
  then show ?thesis
  proof cases
    case 1
    with assms(2) have "Extract populate_ptp4l new_ptp4l ptp4l_rules line n = ((Some m, ev, err), n')"
      by (simp add: NewPTP4LExtractor_def)
    then have "\<exists>r p. r \<in> set ptp4l_rules \<and> lr_extract r p n = ((Some m, ev, err), n') \<and>
        (p4_ServoState p = [] \<or> part_of (p4_ServoState p) line)"
      by (rule Extract_field) (erule servo_fields(1), rule new_servo(1), rule anchored(1))
    then obtain r p where
      "r \<in> set ptp4l_rules" "lr_extract r p n = ((Some m, ev, err), n')" "p4_ServoState p = [] \<or> part_of (p4_ServoState p) line"
      by blast
    then show ?thesis using extract_locked(1) assms(3) servo_lock_part by blast
  next
    case 2
    with assms(2) have "Extract populate_phc2sys new_phc2sys phc2sys_rules line n = ((Some m, ev, err), n')"
      by (simp add: NewPhc2SysExtractor_def)
    then have "\<exists>r p. r \<in> set phc2sys_rules \<and> lr_extract r p n = ((Some m, ev, err), n') \<and>
        (p2_ServoState p = [] \<or> part_of (p2_ServoState p) line)"
      by (rule Extract_field) (erule servo_fields(2), rule new_servo(2), rule anchored(2))
    then obtain r p where
      "r \<in> set phc2sys_rules" "lr_extract r p n = ((Some m, ev, err), n')" "p2_ServoState p = [] \<or> part_of (p2_ServoState p) line"
      by blast
    then show ?thesis using extract_locked(2) assms(3) servo_lock_part by blast
  next
    case 3
    with assms(2) have "Extract populate_ts2phc new_ts2phc ts2phc_rules line n = ((Some m, ev, err), n')"
      by (simp add: NewTS2PHCExtractor_def)
    then have "\<exists>r p. r \<in> set ts2phc_rules \<and> lr_extract r p n = ((Some m, ev, err), n') \<and>
        (t2_ServoState p = [] \<or> part_of (t2_ServoState p) line)"
      by (rule Extract_field) (erule servo_fields(3), rule new_servo(3), rule anchored(3))
    then obtain r p where
      "r \<in> set ts2phc_rules" "lr_extract r p n = ((Some m, ev, err), n')" "t2_ServoState p = [] \<or> part_of (t2_ServoState p) line"
      by blast
    then show ?thesis using extract_locked(3) assms(3) servo_lock_part by blast
  qed
qed

section \<open>Numbers in the lines\<close>

lemma digit_char_val: "d < 10 \<Longrightarrow> (of_char (digit_char d) :: nat) = 48 + d"
  unfolding digit_char_def by (simp only: if_True) (rule of_char_char_of, simp)

lemma show_nat_digits: "list_all ch_digit (show_nat n)" "show_nat n \<noteq> []"
  unfolding show_nat_def by (rule show_base_chars) simp_all

lemma digits_val_show_nat: "digits_val (show_nat n) = n"
proof -
  have "foldl (\<lambda>n c. 10 * n + (of_char c - 48)) 0 (show_base b n) = n" if "b = 10" for b
    using that
  proof (induction b n rule: show_base.induct)
    case (1 b n)
    show ?case
    proof (cases "n < 10")
      case True
      then have "show_base b n = [digit_char n]" using 1(2) by (subst show_base.simps) simp
      then show ?thesis using True by (simp add: digit_char_val)
    next
      case False
      then have n: "\<not> (b < 2 \<or> n < b)" using 1(2) by simp
      then have s: "show_base b n = show_base b (n div b) @ [digit_char (n mod b)]" by (subst show_base.simps) simp
      have v: "(of_char (digit_char (n mod b)) :: nat) = 48 + n mod b" using 1(2) by (intro digit_char_val) simp
      show ?thesis using 1(1) [OF n 1(2)] 1(2) unfolding s by (simp add: v [unfolded 1(2)])
    qed
  qed
  then show ?thesis by (simp add: show_nat_def digits_val_def)
qed

lemma digit_not_letter: "ch_digit c \<Longrightarrow> c \<noteq> CHR ''-'' \<and> c \<noteq> CHR ''+'' \<and> c \<noteq> CHR ''i'' \<and> c \<noteq> CHR ''n'' \<and> \<not> ch_upper c"
  by (auto simp: ch_digit_def ch_upper_def)

lemma ParseFloat_digits:
  assumes "list_all ch_digit ds" "ds \<noteq> []"
  shows "ParseFloat ds = (let v = f64_norm (of_nat (digits_val ds)) in (v, case v of Fin _ \<Rightarrow> None | _ \<Rightarrow> Some ErrRange))"
    "ParseFloat (CHR ''-'' # ds) = (let v = f64_norm (- of_nat (digits_val ds)) in (v, case v of Fin _ \<Rightarrow> None | _ \<Rightarrow> Some ErrRange))"
    "ParseFloat (CHR ''+'' # ds) = (let v = f64_norm (of_nat (digits_val ds)) in (v, case v of Fin _ \<Rightarrow> None | _ \<Rightarrow> Some ErrRange))"
proof -
  obtain c t where ds: "ds = c # t" using assms(2) by (cases ds) auto
  have all: "takeWhile ch_digit ds = ds" "dropWhile ch_digit ds = []" using assms(1) by (simp_all add: list_all_iff)
  have c: "c \<noteq> CHR ''-''" "c \<noteq> CHR ''+''" "c \<noteq> CHR ''i''" "c \<noteq> CHR ''n''" "\<not> ch_upper c"
    using assms(1) digit_not_letter [of c] by (auto simp: ds)
  have low: "lower ds = c # lower t" using c(5) by (simp add: ds lower_def)
  have l: "lower ds \<noteq> ''inf''" "lower ds \<noteq> ''infinity''" "lower ds \<noteq> ''nan''" using c(3,4) unfolding low by simp_all
  have "lower (CHR ''-'' # ds) = CHR ''-'' # lower ds" by (simp add: lower_def ch_upper_def)
  then have m: "lower (CHR ''-'' # ds) \<noteq> ''nan''" by simp
  have p: "pow10 (0 - int (length [])) = 1" by (simp add: pow10_def)
  have e: "read_exponent [] = Some 0" by (simp add: read_exponent_def)
  have h: "hd ds = c" by (simp add: ds)
  show "ParseFloat ds = (let v = f64_norm (of_nat (digits_val ds)) in (v, case v of Fin _ \<Rightarrow> None | _ \<Rightarrow> Some ErrRange))"
    unfolding ParseFloat_def Let_def h using c l assms(2) by (simp only: all simp_thms if_False if_True e p option.case append_Nil2 mult_1_right)
  show "ParseFloat (CHR ''-'' # ds) = (let v = f64_norm (- of_nat (digits_val ds)) in (v, case v of Fin _ \<Rightarrow> None | _ \<Rightarrow> Some ErrRange))"
    unfolding ParseFloat_def Let_def using l m assms(2)
    by (simp only: list.sel all simp_thms list.distinct if_False if_True e p option.case append_Nil2 mult_1_right)
  have "lower (CHR ''+'' # ds) = CHR ''+'' # lower ds" by (simp add: lower_def ch_upper_def)
  then have m: "lower (CHR ''+'' # ds) \<noteq> ''nan''" by simp
  have pm: "CHR ''+'' \<noteq> CHR ''-''" by simp
  show "ParseFloat (CHR ''+'' # ds) = (let v = f64_norm (of_nat (digits_val ds)) in (v, case v of Fin _ \<Rightarrow> None | _ \<Rightarrow> Some ErrRange))"
    unfolding ParseFloat_def Let_def using l m assms(2)
    by (simp only: list.sel pm all simp_thms list.distinct if_False if_True e p option.case append_Nil2 mult_1_right)
qed

lemma ParseFloat_show_int:
  assumes "\<bar>i\<bar> < 2 ^ 53"
  shows "ParseFloat (show_int i) = (Fin (of_int i), None)"
proof (cases "i < 0")
  case True
  then have "- (of_nat (nat (- i)) :: rat) = of_int i" by simp
  then have "f64_norm (- of_nat (nat (- i))) = Fin (of_int i)" using f64_norm_int [OF assms] by (simp only:)
  with True show ?thesis
    by (simp only: show_int_def if_True ParseFloat_digits(2) [OF show_nat_digits] digits_val_show_nat Let_def f64.case)
next
  case False
  then have "(of_nat (nat i) :: rat) = of_int i" by simp
  then have "f64_norm (of_nat (nat i)) = Fin (of_int i)" using f64_norm_int [OF assms] by (simp only:)
  with False show ?thesis
    by (simp only: show_int_def if_False ParseFloat_digits(1) [OF show_nat_digits] digits_val_show_nat Let_def f64.case)
qed


section \<open>An offset line of phc2sys is read back\<close>

text \<open>An expression takes a word in front of a rest of some kind.\<close>

definition takes :: "rx \<Rightarrow> string \<Rightarrow> (string \<Rightarrow> bool) \<Rightarrow> bool" where
  "takes r v P \<longleftrightarrow>
     (\<forall>m rest k (x :: captures \<times> string). P rest \<longrightarrow> k m rest = Some x \<longrightarrow> mt r m (v @ rest) k = Some x)"

lemma takesD:
  fixes x :: "captures \<times> string"
  shows "takes r v P \<Longrightarrow> P rest \<Longrightarrow> k m rest = Some x \<Longrightarrow> mt r m (v @ rest) k = Some x"
  unfolding takes_def by blast

lemma takes_cap:
  fixes x :: "captures \<times> string"
  shows "takes r v P \<Longrightarrow> P rest \<Longrightarrow> k ((i, v) # m) rest = Some x \<Longrightarrow> mt (RCap i r) m (v @ rest) k = Some x"
  by (rule mt_cap, erule (1) takesD) simp

lemma takes_lit: "takes (RLit v) v (\<lambda>_. True)"
  unfolding takes_def by (simp only: mt_lit) simp

lemma takes_plus: "list_all p v \<Longrightarrow> v \<noteq> [] \<Longrightarrow> takes (RPlus p) v (\<lambda>rest. rest = [] \<or> \<not> p (hd rest))"
  unfolding takes_def by (intro allI impI, rule mt_plus)

lemma takes_seq:
  assumes "takes r v P" "takes r' w Q" "\<And>rest. Q rest \<Longrightarrow> P (w @ rest)"
  shows "takes (RSeq r r') (v @ w) Q"
  unfolding takes_def
proof (intro allI impI)
  fix m :: captures and rest and k :: "captures \<Rightarrow> string \<Rightarrow> (captures \<times> string) option" and x
  assume "Q rest" "k m rest = Some x"
  then have "mt r' m (w @ rest) k = Some x" using assms(2) unfolding takes_def by blast
  then have "mt r m (v @ w @ rest) (\<lambda>m s. mt r' m s k) = Some x"
    by (rule takesD [OF assms(1) assms(3) [OF \<open>Q rest\<close>]])
  then show "mt (RSeq r r') m ((v @ w) @ rest) k = Some x" by simp
qed

lemma chain:
  "mt a m (v @ rest) (\<lambda>m' s'. mt (rseq rs) m' s' k) = x \<Longrightarrow> mt (rseq (a # rs)) m (v @ rest) k = x"
  by simp

lemma chain0: "mt a m s (\<lambda>m' s'. mt (rseq rs) m' s' k) = x \<Longrightarrow> mt (rseq (a # rs)) m s k = x"
  by simp

text \<open>Greedy repetition that has to give back: the longest continuation that succeeds.\<close>

lemma many_back:
  assumes "list_all p u" "\<And>v t. w = v @ t \<Longrightarrow> v \<noteq> [] \<Longrightarrow> k t = None" "k w = Some x"
  shows "many True p (u @ w) k = Some x"
  using assms(1)
proof (induction u)
  case Nil
  have none: "many True p t k = None" if "w = v @ t" "v \<noteq> []" for v t
    using that
  proof (induction t arbitrary: v)
    case Nil
    then show ?case using assms(2) [of v "[]"] by simp
  next
    case (Cons c t)
    have "many True p t k = None" using Cons.IH [of "v @ [c]"] Cons.prems by simp
    moreover have "k (c # t) = None" using assms(2) Cons.prems by blast
    ultimately show ?case by simp
  qed
  show ?case
  proof (cases w)
    case Nil
    then show ?thesis using assms(3) by simp
  next
    case (Cons c t)
    then have "many True p t k = None" by (intro none [of "[c]"]) simp_all
    then show ?thesis using assms(3) Cons by simp
  qed
qed simp

lemma digits_no: "list_all ch_digit ds \<Longrightarrow> \<not> ch_digit c \<Longrightarrow> c \<notin> set ds"
  by (auto simp: list_all_iff)

lemma takes_config_name:
  fixes x :: "captures \<times> string"
  assumes ds: "list_all ch_digit ds" "ds \<noteq> []" and dot: "CHR ''.'' \<notin> set rest" and any: "list_all ch_any nm"
    and k: "k ((2, nm @ ''.'' @ ds @ ''.config'') # m) rest = Some x"
  shows "mt (RCap 2 (rseq [RMany True ch_any, RLit ''.'', RPlus ch_digit, RLit ''.config'']))
           m (nm @ ''.'' @ ds @ ''.config'' @ rest) k = Some x"
proof -
  let ?v = "nm @ ''.'' @ ds @ ''.config''"
  let ?k = "\<lambda>m' s'. k ((2, take (length (?v @ rest) - length s') (?v @ rest)) # m') s'"
  let ?w = "''.'' @ ds @ ''.config'' @ rest"
  let ?c = "\<lambda>s. mt (RLit ''.'') m s (\<lambda>m s. mt (RPlus ch_digit) m s (\<lambda>m s. mt (RLit ''.config'') m s ?k))"
  have "take (length (v @ r) - length r) (v @ r) = v" for v r :: string by simp
  then have tk: "take (length (?v @ rest) - length rest) (?v @ rest) = ?v" .
  have ok: "?c ?w = Some x"
  proof (subst mt_lit, rule mt_plus [OF ds])
    show "mt (RLit ''.config'') m (''.config'' @ rest) ?k = Some x"
      unfolding mt_lit tk by (rule k)
  qed (simp add: ch_digit_def)
  have no: "?c t = None" if w: "?w = v @ t" and v: "v \<noteq> []" for v t
  proof (cases t)
    case Nil
    then show ?thesis by (simp add: has_prefix_def)
  next
    case (Cons d t')
    show ?thesis
    proof (cases "d = CHR ''.''")
      case False
      then show ?thesis by (simp add: Cons has_prefix_def)
    next
      case True
      from v obtain b v' where v': "v = b # v'" by (cases v) auto
      have "ds @ CHR ''.'' # (''config'' @ rest) = v' @ CHR ''.'' # t'" using w by (auto simp: Cons True v')
      moreover have "CHR ''.'' \<notin> set ds" using ds(1) by (rule digits_no) (simp add: ch_digit_def)
      moreover have "CHR ''.'' \<notin> set (''config'' @ rest)" using dot by simp
      ultimately have "t' = ''config'' @ rest" by (metis append_Cons_eq_iff)
      then show ?thesis by (simp add: Cons True has_prefix_def ch_digit_def)
    qed
  qed
  have "many True ch_any (nm @ ?w) ?c = Some x" by (rule many_back [where k = ?c, OF any no ok])
  then have "mt (rseq [RMany True ch_any, RLit ''.'', RPlus ch_digit, RLit ''.config'']) m (?v @ rest) ?k = Some x"
    by simp
  then have "mt (RCap 2 (rseq [RMany True ch_any, RLit ''.'', RPlus ch_digit, RLit ''.config''])) m (?v @ rest) k = Some x"
    by (rule mt_cap)
  then show ?thesis by simp
qed


definition blanks_of :: "nat \<Rightarrow> string" where
  "blanks_of n = replicate (Suc n) (CHR '' '')"

text \<open>\<open>%+d\<close>: a frequency is printed with its sign.\<close>

definition show_signed :: "int \<Rightarrow> string" where
  "show_signed i = (if i < 0 then show_int i else CHR ''+'' # show_int i)"

definition phc2sys_line :: "nat \<Rightarrow> nat \<Rightarrow> nat \<Rightarrow> nat \<Rightarrow> int \<Rightarrow> nat \<Rightarrow> nat \<Rightarrow> int \<Rightarrow> nat \<Rightarrow> int \<Rightarrow> string" where
  "phc2sys_line secs ms cfg b1 off servo b2 freq b3 delay =
     ''phc2sys['' @ (show_nat secs @ ''.'' @ show_nat ms) @ '']:'' @ '' '' @ ''['' @ ''ptp4l'' @ ''.'' @ show_nat cfg @ ''.config'' @
     '']'' @ '' '' @ ''CLOCK_REALTIME'' @ '' '' @ ''phc'' @ '' '' @ ''offset'' @ blanks_of b1 @ show_int off @ '' '' @
     (''s'' @ [digit_char servo]) @ '' '' @ ''freq'' @ blanks_of b2 @ show_signed freq @ '' '' @
     ''delay'' @ blanks_of b3 @ show_signed delay"

lemma takes_blanks: "takes rx_s (blanks_of n) (\<lambda>rest. rest = [] \<or> \<not> ch_s (hd rest))"
  unfolding rx_s_def by (rule takes_plus) (simp_all add: blanks_of_def ch_s_def list_all_iff)

lemma takes_blank: "takes rx_s '' '' (\<lambda>rest. rest = [] \<or> \<not> ch_s (hd rest))"
  using takes_blanks [of 0] by (simp add: blanks_of_def)

lemma takes_nat: "takes (RPlus ch_digit) (show_nat n) (\<lambda>rest. rest = [] \<or> \<not> ch_digit (hd rest))"
  by (rule takes_plus [OF show_nat_digits])

abbreviation after_number :: "string \<Rightarrow> bool" where
  "after_number rest \<equiv> rest = [] \<or> \<not> ch_digit (hd rest)"

lemma show_nat_hd: "ch_digit (hd (show_nat n @ s))" "hd (show_nat n @ s) \<noteq> CHR ''-''" "hd (show_nat n @ s) \<noteq> CHR ''+''"
proof -
  obtain c t where "show_nat n = c # t" using show_nat_digits(2) by (cases "show_nat n") auto
  moreover with show_nat_digits(1) [of n] have "ch_digit c" by simp
  ultimately show "ch_digit (hd (show_nat n @ s))" "hd (show_nat n @ s) \<noteq> CHR ''-''" "hd (show_nat n @ s) \<noteq> CHR ''+''"
    using digit_not_letter [of c] by simp_all
qed

lemma mt_opt_skip:
  fixes x :: "captures \<times> string"
  shows "mt r m s (\<lambda>m s. mt r' m s k) = None \<Longrightarrow> mt r' m s k = Some x \<Longrightarrow> mt (RSeq (ROpt r) r') m s k = Some x"
  by simp

lemma takes_int: "takes rx_int (show_int i) after_number"
  unfolding takes_def
proof (intro allI impI)
  fix m :: captures and rest and k :: "captures \<Rightarrow> string \<Rightarrow> (captures \<times> string) option" and x
  assume rest: "after_number rest" and k: "k m rest = Some x"
  show "mt rx_int m (show_int i @ rest) k = Some x"
  proof (cases "i < 0")
    case True
    have "mt (RPlus ch_digit) m (show_nat (nat (- i)) @ rest) k = Some x" using takes_nat rest k by (rule takesD)
    then have "mt (RLit ''-'') m (''-'' @ show_nat (nat (- i)) @ rest) (\<lambda>m s. mt (RPlus ch_digit) m s k) = Some x"
      by (simp only: mt_lit)
    with True show ?thesis unfolding rx_int_def show_int_def by (simp only: if_True append_Cons append_Nil mt.simps(6,7) option.case)
  next
    case False
    have m: "mt (RPlus ch_digit) m (show_nat (nat i) @ rest) k = Some x" using takes_nat rest k by (rule takesD)
    obtain c t where c: "show_nat (nat i) @ rest = c # t" "c \<noteq> CHR ''-''"
      using show_nat_hd(2) [of "nat i" rest] show_nat_digits(2) [of "nat i"] by (cases "show_nat (nat i)") auto
    have "mt (RLit ''-'') m (show_nat (nat i) @ rest) (\<lambda>m s. mt (RPlus ch_digit) m s k) = None"
      unfolding c(1) using c(2) by (simp add: has_prefix_def)
    from mt_opt_skip [OF this m] False show ?thesis unfolding rx_int_def show_int_def by (simp only: if_False)
  qed
qed

lemma takes_signed: "takes rx_signed_int (show_signed i) after_number"
  unfolding takes_def
proof (intro allI impI)
  fix m :: captures and rest and k :: "captures \<Rightarrow> string \<Rightarrow> (captures \<times> string) option" and x
  assume rest: "after_number rest" and k: "k m rest = Some x"
  have s: "show_signed i = (if i < 0 then CHR ''-'' else CHR ''+'') # show_nat (nat \<bar>i\<bar>)"
    by (auto simp: show_signed_def show_int_def)
  have "mt (RPlus ch_digit) m (show_nat (nat \<bar>i\<bar>) @ rest) k = Some x" using takes_nat rest k by (rule takesD)
  then show "mt rx_signed_int m (show_signed i @ rest) k = Some x"
    unfolding rx_signed_int_def s by (cases "i < 0") (simp_all only: if_True if_False append_Cons mt.simps(4,6,7) list.case, simp_all add: ch_is_def)
qed

lemma ParseFloat_show_signed:
  assumes "\<bar>i\<bar> < 2 ^ 53"
  shows "ParseFloat (show_signed i) = (Fin (of_int i), None)"
proof (cases "i < 0")
  case True
  then show ?thesis using ParseFloat_show_int [OF assms] by (simp add: show_signed_def)
next
  case False
  then have "(of_nat (nat i) :: rat) = of_int i" by simp
  then have "f64_norm (of_nat (nat i)) = Fin (of_int i)" using f64_norm_int [OF assms] by (simp only:)
  with False show ?thesis
    by (simp only: show_signed_def show_int_def if_False ParseFloat_digits(3) [OF show_nat_digits] digits_val_show_nat Let_def f64.case)
qed

lemma lang_rseq_lit: "lang (rseq rs) u \<Longrightarrow> RLit l \<in> set rs \<Longrightarrow> set l \<subseteq> set u"
proof (induction rs arbitrary: u)
  case Nil
  then show ?case by simp
next
  case (Cons r rs)
  then obtain v w where "u = v @ w" "lang r v" "lang (rseq rs) w" by auto
  with Cons show ?case by (cases "r = RLit l") auto
qed

lemma match_here_lit:
  assumes "match_here (rseq rs) s = Some x" "RLit l \<in> set rs"
  shows "set l \<subseteq> set s"
proof -
  from mt_sound [OF assms(1) [unfolded match_here_def]] obtain u t where "s = u @ t" "lang (rseq rs) u" by blast
  with lang_rseq_lit [OF _ assms(2)] show ?thesis by fastforce
qed

lemma digits_set: "c \<in> set (show_nat n) \<Longrightarrow> ch_digit c"
  using show_nat_digits(1) [of n] by (simp add: list_all_iff)

lemma m_not_in_line: "servo < 10 \<Longrightarrow> CHR ''m'' \<notin> set (phc2sys_line secs ms cfg b1 off servo b2 freq b3 delay)"
proof -
  have d: "CHR ''m'' \<notin> set (show_nat n)" for n using digits_set [of "CHR ''m''" n] by (auto simp: ch_digit_def)
  then have i: "CHR ''m'' \<notin> set (show_int n)" for n by (simp add: show_int_def)
  then have s: "CHR ''m'' \<notin> set (show_signed n)" for n by (simp add: show_signed_def)
  have b: "CHR ''m'' \<notin> set (blanks_of n)" for n by (simp add: blanks_of_def)
  assume "servo < 10"
  then have "digit_char servo \<noteq> CHR ''m''" using digit_char_val [of servo] by auto
  then show ?thesis using d i s b unfolding phc2sys_line_def by auto
qed

lemma phc2sys_line_no_summary:
  "servo < 10 \<Longrightarrow> match_here summaryPhc2SysRegex (phc2sys_line secs ms cfg b1 off servo b2 freq b3 delay) = None"
proof (rule ccontr)
  assume s: "servo < 10" and "match_here summaryPhc2SysRegex (phc2sys_line secs ms cfg b1 off servo b2 freq b3 delay) \<noteq> None"
  then obtain x where "match_here summaryPhc2SysRegex (phc2sys_line secs ms cfg b1 off servo b2 freq b3 delay) = Some x" by blast
  then have "set ''rms'' \<subseteq> set (phc2sys_line secs ms cfg b1 off servo b2 freq b3 delay)"
    unfolding summaryPhc2SysRegex_def by (rule match_here_lit) simp
  then show False using m_not_in_line [OF s] by simp
qed

lemma phc2sys_line_ends:
  "TrimSpace (phc2sys_line secs ms cfg b1 off servo b2 freq b3 delay) = phc2sys_line secs ms cfg b1 off servo b2 freq b3 delay"
proof -
  let ?l = "phc2sys_line secs ms cfg b1 off servo b2 freq b3 delay"
  have "last ?l = last (show_nat (nat \<bar>delay\<bar>))"
    unfolding phc2sys_line_def show_signed_def show_int_def using show_nat_digits(2) by (auto simp: last_append)
  moreover have "ch_digit (last (show_nat (nat \<bar>delay\<bar>)))" by (rule digits_set [OF last_in_set [OF show_nat_digits(2)]])
  ultimately have "\<not> ch_space (last ?l)" using space_classes(1) by metis
  moreover have "\<not> ch_space (hd ?l)" by (simp add: phc2sys_line_def ch_space_def)
  ultimately show ?thesis unfolding TrimSpace_def by (intro trim_both_id) blast
qed

lemma opt_colon:
  fixes x :: "captures \<times> string"
  shows "k m ('']'' @ s) = Some x \<Longrightarrow> mt (ROpt (RLit '':'')) m ('']'' @ s) k = Some x"
  by (simp add: has_prefix_def)

lemma cap_nothing:
  fixes x :: "captures \<times> string"
  shows "k ((i, '''') # m) ('']'' @ s) = Some x \<Longrightarrow> mt (RCap i (RMany True ch_digit)) m ('']'' @ s) k = Some x"
  by (simp add: ch_digit_def)

lemma lit_step: "k m s = x \<Longrightarrow> mt (RLit l) m (l @ s) k = x"
  by (simp only: mt_lit)

lemma takes_stamp: "takes (rseq [RPlus ch_digit, ROpt (RLit ''.''), RMany True ch_digit]) (show_nat a @ ''.'' @ show_nat b) after_number"
  unfolding takes_def
proof (intro allI impI)
  fix m :: captures and rest and k :: "captures \<Rightarrow> string \<Rightarrow> (captures \<times> string) option" and x
  assume rest: "after_number rest" and k: "k m rest = Some x"
  have "mt (RMany True ch_digit) m (show_nat b @ rest) k = Some x"
    unfolding mt.simps using show_nat_digits(1) rest k by (rule many_run)
  then have n: "mt (rseq [RMany True ch_digit]) m (show_nat b @ rest) k = Some x" by simp
  have "mt (rseq [ROpt (RLit ''.''), RMany True ch_digit]) m (''.'' @ show_nat b @ rest) k = Some x"
    by (rule chain) (simp only: mt.simps(7) [of "RLit _"] mt_lit n option.case)
  then have "mt (RPlus ch_digit) m (show_nat a @ ''.'' @ show_nat b @ rest)
      (\<lambda>m s. mt (rseq [ROpt (RLit ''.''), RMany True ch_digit]) m s k) = Some x"
    by (intro takesD [OF takes_nat]) (simp add: ch_digit_def)
  then show "mt (rseq [RPlus ch_digit, ROpt (RLit ''.''), RMany True ch_digit]) m ((show_nat a @ ''.'' @ show_nat b) @ rest) k = Some x"
    unfolding append_assoc by (rule chain)
qed

lemma phc2sys_line_match:
  assumes "servo < 10"
  shows "match_here regularPhc2SysRegex (phc2sys_line secs ms cfg b1 off servo b2 freq b3 delay) =
    Some ([(9, show_signed delay), (8, show_signed freq), (7, ''s'' @ [digit_char servo]), (6, show_int off), (5, ''phc''),
      (4, ''CLOCK_REALTIME''), (3, ''''), (2, ''ptp4l'' @ ''.'' @ show_nat cfg @ ''.config''), (1, show_nat secs @ ''.'' @ show_nat ms)],
      phc2sys_line secs ms cfg b1 off servo b2 freq b3 delay)"
proof -
  let ?l = "phc2sys_line secs ms cfg b1 off servo b2 freq b3 delay"
  let ?tail = "'']'' @ '' '' @ ''CLOCK_REALTIME'' @ '' '' @ ''phc'' @ '' '' @ ''offset'' @ blanks_of b1 @ show_int off @ '' '' @
     (''s'' @ [digit_char servo]) @ '' '' @ ''freq'' @ blanks_of b2 @ show_signed freq @ '' '' @
     ''delay'' @ blanks_of b3 @ show_signed delay"
  have dot_nat: "CHR ''.'' \<notin> set (show_nat n)" for n using digits_set [of "CHR ''.''" n] by (auto simp: ch_digit_def)
  then have dot_int: "CHR ''.'' \<notin> set (show_int n)" "CHR ''.'' \<notin> set (show_signed n)" for n by (auto simp: show_signed_def show_int_def)
  have "digit_char servo \<noteq> CHR ''.''" using digit_char_val [OF assms] by auto
  then have dot: "CHR ''.'' \<notin> set ?tail" using dot_int by (simp add: blanks_of_def)
  have sd: "ch_digit (digit_char servo)" using digit_char_val [OF assms] assms by (simp add: ch_digit_def)
  have int_hd: "\<not> ch_s (hd (show_int n @ s))" "\<not> ch_s (hd (show_signed n @ s))" for n s
    using show_nat_hd(1) [of "nat n" s] by (auto simp: show_signed_def show_int_def ch_s_def ch_digit_def)
  have regex: "regularPhc2SysRegex = rseq
      [RLit ''phc2sys['', RCap 1 (rseq [RPlus ch_digit, ROpt (RLit ''.''), RMany True ch_digit]), RLit '']:'', rx_s, RLit ''['',
       RCap 2 (rseq [RMany True ch_any, RLit ''.'', RPlus ch_digit, RLit ''.config'']), ROpt (RLit '':''),
       RCap 3 (RMany True ch_digit), RLit '']'', rx_s, RCap 4 (RLit ''CLOCK_REALTIME''), rx_s,
       RCap 5 (RAlt (RLit ''phc'') (RLit ''sys'')), rx_s, RLit ''offset'', rx_s, RCap 6 rx_int, rx_s,
       RCap 7 (rseq [RLit ''s'', RCls ch_digit]), rx_s, RLit ''freq'', rx_s, RCap 8 rx_signed_int, rx_s0,
       ROpt (rseq [RLit ''delay'', rx_s, RCap 9 rx_signed_int]), REnd]"
    by (simp add: regularPhc2SysRegex_def rx_head_def rx_config_def)
  have phc: "takes (RAlt (RLit ''phc'') (RLit ''sys'')) ''phc'' (\<lambda>_. True)" by (simp add: takes_def has_prefix_def)
  have servo: "takes (rseq [RLit ''s'', RCls ch_digit]) (''s'' @ [digit_char servo]) (\<lambda>_. True)"
    using sd by (simp add: takes_def has_prefix_def)
  have s0: "takes rx_s0 '' '' (\<lambda>rest. \<not> ch_s (hd rest) \<and> rest \<noteq> [])"
    by (auto simp: takes_def rx_s0_def ch_s_def neq_Nil_conv)
  have delay: "mt (rseq [ROpt (rseq [RLit ''delay'', rx_s, RCap 9 rx_signed_int]), REnd]) m (''delay'' @ blanks_of b3 @ show_signed delay)
      (\<lambda>m s'. Some (m, take (length ?l - length s') ?l)) = Some ((9, show_signed delay) # m, ?l)" for m
  proof -
    have "mt (RCap 9 rx_signed_int) m (show_signed delay @ []) (\<lambda>m' s'. mt (rseq []) m' s' (\<lambda>m' s'. mt (rseq [REnd]) m' s'
        (\<lambda>m s'. Some (m, take (length ?l - length s') ?l)))) = Some ((9, show_signed delay) # m, ?l)"
      by (rule takes_cap [OF takes_signed]) simp_all
    then have "mt (rseq [rx_s, RCap 9 rx_signed_int]) m (blanks_of b3 @ show_signed delay)
        (\<lambda>m' s'. mt (rseq [REnd]) m' s' (\<lambda>m s'. Some (m, take (length ?l - length s') ?l))) = Some ((9, show_signed delay) # m, ?l)"
      by (intro chain takesD [OF takes_blanks]) (use int_hd(2) [of delay "[]"] in \<open>simp_all add: takes_blanks\<close>)
    then show ?thesis by (simp add: has_prefix_def)
  qed
  show ?thesis
    unfolding match_here_def regex
    apply (subst phc2sys_line_def)
    apply (rule chain, rule lit_step)
    apply (rule chain, rule takes_cap [OF takes_stamp], simp add: ch_digit_def)
    apply (rule chain, rule lit_step)
    apply (rule chain, rule takesD [OF takes_blank], simp add: ch_s_def)
    apply (rule chain, rule lit_step)
    apply (rule chain0, rule takes_config_name [OF show_nat_digits dot], simp add: ch_any_def)
    apply (rule chain0, rule opt_colon)
    apply (rule chain0, rule cap_nothing)
    apply (rule chain, rule lit_step)
    apply (rule chain, rule takesD [OF takes_blank], simp add: ch_s_def)
    apply (rule chain, rule takes_cap [OF takes_lit], rule TrueI)
    apply (rule chain, rule takesD [OF takes_blank], simp add: ch_s_def)
    apply (rule chain, rule takes_cap [OF phc], rule TrueI)
    apply (rule chain, rule takesD [OF takes_blank], simp add: ch_s_def)
    apply (rule chain, rule lit_step)
    apply (rule chain, rule takesD [OF takes_blanks], simp only: int_hd, simp)
    apply (rule chain, rule takes_cap [OF takes_int], simp add: ch_digit_def)
    apply (rule chain, rule takesD [OF takes_blank], simp add: ch_s_def)
    apply (rule chain, rule takes_cap [OF servo], rule TrueI)
    apply (rule chain, rule takesD [OF takes_blank], simp add: ch_s_def)
    apply (rule chain, rule lit_step)
    apply (rule chain, rule takesD [OF takes_blanks], simp only: int_hd, simp)
    apply (rule chain, rule takes_cap [OF takes_signed], simp add: ch_digit_def)
    apply (rule chain, rule takesD [OF s0], simp add: ch_s_def)
    apply (rule delay)
    done
qed

text \<open>
  C16. What phc2sys reports in an offset line is what the parser reads: the offset, the frequency, the
  delay and the source, and the clock is LOCKED exactly in the servo states 2 and 3, for any time stamp,
  configuration number, number of blanks, and numbers below 2^53.
\<close>

theorem phc2sys_line_read_back:
  assumes "\<bar>off\<bar> < 2 ^ 53" "\<bar>freq\<bar> < 2 ^ 53" "\<bar>delay\<bar> < 2 ^ 53" "servo < 10"
  shows "NewPhc2SysExtractor (phc2sys_line secs ms cfg b1 off servo b2 freq b3 delay) n =
    ((Some \<lparr>mx_From = '''', mx_Iface = ''CLOCK_REALTIME'', mx_Offset = Fin (of_int off), mx_MaxOffset = Fin (of_int off),
        mx_FreqAdj = Fin (of_int freq), mx_Delay = Fin (of_int delay),
        mx_ClockState = (if servo = 2 \<or> servo = 3 then ClockStateLocked else ClockStateFreeRun), mx_ServoState = '''',
        mx_Source = ''phc'', mx_Status = []\<rparr>, None, None), n)"
proof -
  let ?l = "phc2sys_line secs ms cfg b1 off servo b2 freq b3 delay"
  have "?l \<noteq> []" by (simp add: phc2sys_line_def)
  then have e: "NewPhc2SysExtractor ?l n = extract_rules populate_phc2sys new_phc2sys phc2sys_rules ?l n"
    by (simp add: NewPhc2SysExtractor_def Extract_def Let_def phc2sys_line_ends)
  have v: "(of_char (digit_char servo) :: nat) = 48 + servo" by (rule digit_char_val [OF assms(4)])
  have "digit_char servo = CHR ''2'' \<longleftrightarrow> (of_char (digit_char servo) :: nat) = of_char (CHR ''2'')"
    "digit_char servo = CHR ''3'' \<longleftrightarrow> (of_char (digit_char servo) :: nat) = of_char (CHR ''3'')"
    by (simp_all only: of_char_eq_iff)
  then have "digit_char servo = CHR ''2'' \<longleftrightarrow> servo = 2" "digit_char servo = CHR ''3'' \<longleftrightarrow> servo = 3"
    unfolding v by simp_all
  then have servo: "clockStateFromServo (CHR ''s'' # [digit_char servo]) =
      (if servo = 2 \<or> servo = 3 then ClockStateLocked else ClockStateFreeRun)"
    by (simp add: clockStateFromServo_def)
  have ne: "show_int off \<noteq> []" "show_signed freq \<noteq> []" "show_signed delay \<noteq> []"
    using show_nat_digits(2) by (simp_all add: show_signed_def show_int_def)
  show ?thesis
    unfolding e phc2sys_rules_def
    by (simp add: phc2sys_line_no_summary [OF assms(4)] phc2sys_line_match [OF assms(4)] upt_rec capture_def populate_phc2sys_def
      new_phc2sys_def read_float_def ParseFloat_show_int [OF assms(1)] ParseFloat_show_signed [OF assms(2)]
      ParseFloat_show_signed [OF assms(3)] ne only_metrics_def extractRegularPhc2Sys_def
      zero_metrics_def servo)
qed

theorem phc2sys_line_read_back_witness:
  "map_option mx_Offset (fst (fst (NewPhc2SysExtractor (phc2sys_line 10522413 392 0 0 8 2 1 (- 6990) 4 502) 0))) = Some (Fin 8)"
  using phc2sys_line_read_back [of 8 "- 6990" 502 2 10522413 392 0 0 1 4 0] by simp

end
