(* ===== verification/Ts2Phc.thy ===== *)
theory Ts2Phc
  imports LogParser PtpConf
begin

text \<open>
  Poll tracking of ts2phc (\<open>pkg/daemon/ts2phc.go\<close>). ts2phc prints a line for every time stamp that it
  collects, for every offset it measures and for every poll that ends without an event. The daemon
  groups the time stamps of one edge of the pulse in a \<open>poll_cycle\<close>, marks those whose offset was
  measured, and reports a FREERUN metric for the clocks that were left out. A PHC has a role (sink,
  source or unmanaged); only sinks are reported. The lock around the state is not modelled, every
  operation holds it from beginning to end.
\<close>

section \<open>State\<close>

record tstamp =
  ts_seconds :: int
  ts_nanoseconds :: int
  ts_device :: string
  ts_iface :: string
  ts_role :: phc_role
  ts_handled :: bool

record poll_cycle =
  pc_group :: int
  pc_lastSampleGroup :: int
  pc_tstamps :: "tstamp list"
  pc_counted :: bool

record poll_state =
  ps_currentPollCycle :: "poll_cycle option"
  ps_pollTimeoutCount :: nat
  ps_timeoutGroup :: int
  ps_roles :: "string \<Rightarrow> phc_role option"

definition phc_role_of :: "(string \<Rightarrow> phc_role option) \<Rightarrow> string \<Rightarrow> phc_role" where
  "phc_role_of roles d = (case roles d of None \<Rightarrow> RoleNone | Some r \<Rightarrow> r)"

section \<open>Operations\<close>

definition pollGroupFromTimestamp :: "string \<Rightarrow> int \<times> num_error option" where
  "pollGroupFromTimestamp timestamp = Atoi (fst (Cut timestamp (CHR ''.'')))"

text \<open>\<open>phcToIface\<close>; \<open>None\<close> is the error.\<close>

definition phcToIface :: "iface list \<Rightarrow> string \<Rightarrow> string option" where
  "phcToIface ifaces device =
     (let i = GetPhcID2IFace device ifaces in if i = '''' \<or> i = device then None else Some i)"

text \<open>\<open>handlePHCSelection\<close>: the role changes in the table and in the pending samples.\<close>

definition handlePHCSelection :: "string \<Rightarrow> phc_role \<Rightarrow> poll_state \<Rightarrow> poll_state" where
  "handlePHCSelection device role s =
     (if role \<notin> {TS2PHCSink, TS2PHCSource, TS2PHCUnmanaged} \<or> ps_roles s device = None then s
      else s\<lparr>ps_roles := (ps_roles s)(device := Some role),
             ps_currentPollCycle := map_option (\<lambda>c. c\<lparr>pc_tstamps := map (\<lambda>ts.
               if ts_device ts = device
               then ts\<lparr>ts_role := role, ts_handled := ts_handled ts \<or> role \<noteq> TS2PHCSink\<rparr> else ts) (pc_tstamps c)\<rparr>)
               (ps_currentPollCycle s)\<rparr>)"

definition shouldContain :: "poll_cycle \<Rightarrow> tstamp \<Rightarrow> int \<Rightarrow> bool" where
  "shouldContain c ts grp \<longleftrightarrow>
     (\<not> list_ex (\<lambda>p. ts_device p = ts_device ts \<and>
          (ts_seconds p \<noteq> ts_seconds ts \<or> ts_nanoseconds p \<noteq> ts_nanoseconds ts)) (pc_tstamps c)) \<and>
     (pc_tstamps c = [] \<or> wrap64 (grp - pc_lastSampleGroup c) \<le> 1)"

definition sourceTimestamps :: "poll_cycle \<Rightarrow> tstamp list" where
  "sourceTimestamps c = filter (\<lambda>ts. ts_role ts = TS2PHCSource) (pc_tstamps c)"

definition absInt64 :: "int \<Rightarrow> nat" where
  "absInt64 v = (if v < 0 then nat (- (v + 1)) + 1 else nat v)"

text \<open>The signed difference to another time stamp in nanoseconds, in 64 bits.\<close>

definition ts_delta :: "tstamp \<Rightarrow> tstamp \<Rightarrow> int" where
  "ts_delta ts other =
     wrap64 (wrap64 (wrap64 (ts_seconds other - ts_seconds ts) * 10 ^ 9) + wrap64 (ts_nanoseconds other - ts_nanoseconds ts))"

fun maxOffset_loop :: "tstamp \<Rightarrow> int option \<Rightarrow> tstamp list \<Rightarrow> int option" where
  "maxOffset_loop ts acc [] = acc"
| "maxOffset_loop ts acc (other # rest) =
     (if ts_device ts = ts_device other then maxOffset_loop ts acc rest
      else let delta = ts_delta ts other in
           maxOffset_loop ts
             (case acc of None \<Rightarrow> Some delta | Some off \<Rightarrow> Some (if absInt64 off < absInt64 delta then delta else off)) rest)"

definition maxOffset :: "tstamp \<Rightarrow> tstamp list \<Rightarrow> f64" where
  "maxOffset ts tslist = (case maxOffset_loop ts None tslist of None \<Rightarrow> NaN | Some off \<Rightarrow> f64_of_int off)"

definition computeTSOffset :: "tstamp \<Rightarrow> poll_cycle \<Rightarrow> f64" where
  "computeTSOffset ts c =
     (let off = maxOffset ts (sourceTimestamps c) in
      if off \<noteq> NaN then off else f64_abs (maxOffset ts (pc_tstamps c)))"

definition freerun_metric :: "string \<Rightarrow> f64 \<Rightarrow> log_metrics" where
  "freerun_metric i off =
     zero_metrics\<lparr>mx_From := ''ts2phc'', mx_Iface := i, mx_ClockState := ClockStateFreeRun, mx_Source := ''master'',
       mx_Offset := off, mx_MaxOffset := off\<rparr>"

text \<open>\<open>unhandledMetrics\<close>: the metrics, and the cycle with their samples marked.\<close>

definition ts_pending :: "tstamp \<Rightarrow> bool" where
  "ts_pending ts \<longleftrightarrow> \<not> ts_handled ts \<and> ts_role ts = TS2PHCSink"

definition unhandledMetrics :: "poll_cycle \<Rightarrow> log_metrics list \<times> poll_cycle" where
  "unhandledMetrics c =
     (map (\<lambda>ts. freerun_metric (ts_iface ts) (computeTSOffset ts c)) (filter ts_pending (pc_tstamps c)),
      c\<lparr>pc_tstamps := map (\<lambda>ts. if ts_pending ts then ts\<lparr>ts_handled := True\<rparr> else ts) (pc_tstamps c)\<rparr>)"

definition missingMetrics :: "poll_cycle \<Rightarrow> iface list \<Rightarrow> (string \<Rightarrow> phc_role option) \<Rightarrow> log_metrics list" where
  "missingMetrics c ifaces roles =
     map (\<lambda>i. freerun_metric (if_Name i) NaN)
       (filter (\<lambda>i. phc_role_of roles (if_PhcId i) = TS2PHCSink \<and>
                    \<not> list_ex (\<lambda>ts. ts_device ts = if_PhcId i) (pc_tstamps c)) ifaces)"

text \<open>The sample of a line; its role is that of the table, or unmanaged when no interface has the PHC.\<close>

definition sample_of :: "iface list \<Rightarrow> ts2phc_event \<Rightarrow> int \<times> int \<Rightarrow> poll_state \<Rightarrow> tstamp" where
  "sample_of ifaces data t s =
     (let d = te_PHCDevice data;
          r = (case phcToIface ifaces d of None \<Rightarrow> TS2PHCUnmanaged | Some _ \<Rightarrow> phc_role_of (ps_roles s) d)
      in \<lparr>ts_seconds = fst t, ts_nanoseconds = snd t, ts_device = d,
          ts_iface = (case phcToIface ifaces d of None \<Rightarrow> '''' | Some i \<Rightarrow> i), ts_role = r, ts_handled = (r \<noteq> TS2PHCSink)\<rparr>)"

definition handleAddedTstamp :: "iface list \<Rightarrow> ts2phc_event \<Rightarrow> poll_state \<Rightarrow> log_metrics list option \<times> poll_state" where
  "handleAddedTstamp ifaces data s =
     (case pollGroupFromTimestamp (te_Timestamp data) of
        (_, Some e) \<Rightarrow> (None, s)
      | (grp, None) \<Rightarrow>
          (case te_PHCTstamp data of
             None \<Rightarrow> (None, s)
           | Some t \<Rightarrow>
               if te_PHCDevice data = '''' then (None, s)
               else let ts = sample_of ifaces data t s;
                        fresh = \<lparr>pc_group = grp, pc_lastSampleGroup = grp, pc_tstamps = [ts], pc_counted = False\<rparr>
                    in (case ps_currentPollCycle s of
                          None \<Rightarrow> (Some [], s\<lparr>ps_currentPollCycle := Some fresh\<rparr>)
                        | Some c \<Rightarrow>
                            if shouldContain c ts grp
                            then (Some [], s\<lparr>ps_currentPollCycle :=
                                   Some (c\<lparr>pc_tstamps := pc_tstamps c @ [ts], pc_lastSampleGroup := grp\<rparr>)\<rparr>)
                            else (Some (fst (unhandledMetrics c) @ missingMetrics (snd (unhandledMetrics c)) ifaces (ps_roles s)),
                                  s\<lparr>ps_currentPollCycle := Some fresh\<rparr>))))"

text \<open>The first sample of the PHC is marked.\<close>

fun mark_handled :: "string \<Rightarrow> tstamp list \<Rightarrow> tstamp list" where
  "mark_handled device [] = []"
| "mark_handled device (ts # rest) =
     (if ts_device ts = device then ts\<lparr>ts_handled := True\<rparr> # rest else ts # mark_handled device rest)"

definition handleSuccessfulPollFor :: "iface list \<Rightarrow> string \<Rightarrow> poll_state \<Rightarrow> poll_state" where
  "handleSuccessfulPollFor ifaces name s =
     (let device = (case find (\<lambda>i. if_Name i = name \<and> if_PhcId i \<noteq> '''') ifaces of None \<Rightarrow> name | Some i \<Rightarrow> if_PhcId i)
      in s\<lparr>ps_pollTimeoutCount := 0,
           ps_currentPollCycle := map_option (\<lambda>c. c\<lparr>pc_tstamps := mark_handled device (pc_tstamps c)\<rparr>) (ps_currentPollCycle s)\<rparr>)"

definition allSinksHandled :: "poll_cycle \<Rightarrow> iface list \<Rightarrow> (string \<Rightarrow> phc_role option) \<Rightarrow> bool" where
  "allSinksHandled c ifaces roles \<longleftrightarrow>
     list_all (\<lambda>i. phc_role_of roles (if_PhcId i) \<noteq> TS2PHCSink \<or>
                   list_ex (\<lambda>ts. ts_device ts = if_PhcId i \<and> ts_handled ts) (pc_tstamps c)) ifaces"

fun append_once :: "string set \<Rightarrow> log_metrics list \<Rightarrow> log_metrics list" where
  "append_once seen [] = []"
| "append_once seen (m # ms) =
     (if mx_Iface m \<in> seen then append_once seen ms else m # append_once (insert (mx_Iface m) seen) ms)"

definition appendMissingMetricsOnce :: "log_metrics list \<Rightarrow> log_metrics list \<Rightarrow> log_metrics list" where
  "appendMissingMetricsOnce metrics missing = metrics @ append_once (set (map mx_Iface metrics)) missing"

text \<open>Whether a timeout closes the batch and starts one without samples.\<close>

definition timeout_closes :: "iface list \<Rightarrow> int \<Rightarrow> poll_cycle \<Rightarrow> poll_state \<Rightarrow> bool" where
  "timeout_closes ifaces grp c s \<longleftrightarrow>
     grp \<noteq> pc_group c \<and>
     (pc_tstamps c = [] \<or>
      pc_lastSampleGroup c < grp \<and> (pc_counted c \<and> ps_timeoutGroup s \<noteq> grp \<or> allSinksHandled c ifaces (ps_roles s)))"

definition count_timeout :: "int \<Rightarrow> poll_state \<Rightarrow> poll_state" where
  "count_timeout grp s =
     (case ps_currentPollCycle s of
        None \<Rightarrow> s
      | Some c \<Rightarrow>
          if \<not> pc_counted c \<or> ps_timeoutGroup s \<noteq> grp
          then s\<lparr>ps_pollTimeoutCount := Suc (ps_pollTimeoutCount s), ps_currentPollCycle := Some (c\<lparr>pc_counted := True\<rparr>),
                 ps_timeoutGroup := grp\<rparr>
          else s)"

definition handlePollTimeout :: "iface list \<Rightarrow> ts2phc_event \<Rightarrow> poll_state \<Rightarrow> log_metrics list option \<times> poll_state" where
  "handlePollTimeout ifaces data s =
     (case pollGroupFromTimestamp (te_Timestamp data) of
        (_, Some e) \<Rightarrow> (None, s)
      | (grp, None) \<Rightarrow>
          (case ps_currentPollCycle s of
             None \<Rightarrow> (Some [], s)
           | Some c0 \<Rightarrow>
               (case unhandledMetrics c0 of (ms, c) \<Rightarrow>
                  if timeout_closes ifaces grp c s
                  then let ms1 = ms @ (if pc_tstamps c \<noteq> [] then missingMetrics c ifaces (ps_roles s) else []);
                           empty = \<lparr>pc_group = grp, pc_lastSampleGroup = 0, pc_tstamps = [], pc_counted = True\<rparr>
                       in (Some (appendMissingMetricsOnce ms1 (missingMetrics empty ifaces (ps_roles s))),
                           count_timeout grp (s\<lparr>ps_currentPollCycle := Some empty\<rparr>))
                  else (Some ms, count_timeout grp (s\<lparr>ps_currentPollCycle := Some c\<rparr>)))))"

definition resetPollCycle :: "iface list \<Rightarrow> poll_state" where
  "resetPollCycle ifaces =
     \<lparr>ps_currentPollCycle = None, ps_pollTimeoutCount = 0, ps_timeoutGroup = 0,
      ps_roles = (\<lambda>d. if d \<noteq> '''' \<and> d \<in> set (map if_PhcId ifaces) then Some TS2PHCSink else None)\<rparr>"

definition TS2phcHasTimeouts :: "poll_state \<Rightarrow> bool" where
  "TS2phcHasTimeouts s \<longleftrightarrow> 0 < ps_pollTimeoutCount s"

text \<open>\<open>processTS2PhcEvent\<close>: the metrics to process, \<open>None\<close> when the line is in error, and the state.\<close>

definition processTS2PhcEvent :: "iface list \<Rightarrow> log_event \<Rightarrow> poll_state \<Rightarrow> log_metrics list option \<times> poll_state" where
  "processTS2PhcEvent ifaces e s =
     (case pe_Ts2Phc e of
        None \<Rightarrow> (Some [], s)
      | Some d \<Rightarrow>
          if te_Role d \<noteq> RoleNone then (Some [], handlePHCSelection (te_PHCDevice d) (te_Role d) s)
          else if te_PollSuccessful d then (Some [], handleSuccessfulPollFor ifaces (pe_Iface e) s)
          else if te_PollTimeout d then handlePollTimeout ifaces d s
          else handleAddedTstamp ifaces d s)"

definition poll_run :: "iface list \<Rightarrow> log_event list \<Rightarrow> poll_state \<Rightarrow> poll_state" where
  "poll_run ifaces es s = fold (\<lambda>e s. snd (processTS2PhcEvent ifaces e s)) es s"

section \<open>Only sinks are reported\<close>

text \<open>A sample that is not handled belongs to a sink of the role table, and to a configured interface.\<close>

definition sample_ok :: "iface list \<Rightarrow> (string \<Rightarrow> phc_role option) \<Rightarrow> tstamp \<Rightarrow> bool" where
  "sample_ok ifaces roles ts \<longleftrightarrow>
     ts_handled ts \<or> ts_role ts = TS2PHCSink \<and> roles (ts_device ts) = Some TS2PHCSink \<and>
       phcToIface ifaces (ts_device ts) = Some (ts_iface ts)"

definition poll_ok :: "iface list \<Rightarrow> poll_state \<Rightarrow> bool" where
  "poll_ok ifaces s \<longleftrightarrow>
     (\<forall>c. ps_currentPollCycle s = Some c \<longrightarrow> list_all (sample_ok ifaces (ps_roles s)) (pc_tstamps c))"

lemma phcToIface_configured:
  "phcToIface ifaces d = Some n \<Longrightarrow> \<exists>i \<in> set ifaces. if_PhcId i = d \<and> if_Name i = n"
  by (auto simp: phcToIface_def GetPhcID2IFace_def Let_def find_Some_iff split: if_splits option.splits)

lemma sample_of_ok: "sample_ok ifaces (ps_roles s) (sample_of ifaces d t s)"
  by (auto simp: sample_ok_def sample_of_def phc_role_of_def Let_def split: option.splits)

lemma poll_ok_reset: "poll_ok ifaces (resetPollCycle ifaces)"
  by (simp add: poll_ok_def resetPollCycle_def)

lemma poll_ok_selection: "poll_ok ifaces s \<Longrightarrow> poll_ok ifaces (handlePHCSelection d r s)"
proof -
  have "sample_ok ifaces ((ps_roles s)(d := Some r))
      (if ts_device ts = d then ts\<lparr>ts_role := r, ts_handled := ts_handled ts \<or> r \<noteq> TS2PHCSink\<rparr> else ts)"
    if "sample_ok ifaces (ps_roles s) ts" for ts
    using that by (cases "ts_handled ts"; cases "r = TS2PHCSink"; cases "ts_device ts = d") (simp_all add: sample_ok_def)
  then have "list_all (sample_ok ifaces (ps_roles s)) tss \<Longrightarrow> list_all (sample_ok ifaces ((ps_roles s)(d := Some r)))
      (map (\<lambda>ts. if ts_device ts = d then ts\<lparr>ts_role := r, ts_handled := ts_handled ts \<or> r \<noteq> TS2PHCSink\<rparr> else ts) tss)" for tss
    by (induction tss) simp_all
  then show "poll_ok ifaces s \<Longrightarrow> poll_ok ifaces (handlePHCSelection d r s)"
    by (cases "ps_currentPollCycle s") (simp_all add: poll_ok_def handlePHCSelection_def)
qed

lemma unhandled_ok:
  "list_all (sample_ok ifaces roles) (pc_tstamps c) \<Longrightarrow> list_all (sample_ok ifaces roles) (pc_tstamps (snd (unhandledMetrics c)))"
  by (auto simp: unhandledMetrics_def list_all_iff sample_ok_def)

lemma mark_handled_ok: "list_all (sample_ok ifaces roles) ts \<Longrightarrow> list_all (sample_ok ifaces roles) (mark_handled d ts)"
  by (induction ts) (auto simp: sample_ok_def)

lemma poll_ok_success: "poll_ok ifaces s \<Longrightarrow> poll_ok ifaces (handleSuccessfulPollFor ifaces n s)"
  by (auto simp: poll_ok_def handleSuccessfulPollFor_def Let_def mark_handled_ok)

lemma poll_ok_added: "poll_ok ifaces s \<Longrightarrow> poll_ok ifaces (snd (handleAddedTstamp ifaces d s))"
  by (auto simp: poll_ok_def handleAddedTstamp_def Let_def sample_of_ok split: prod.splits option.splits if_splits)

lemma count_timeout_simps [simp]:
  "ps_roles (count_timeout g s) = ps_roles s"
  "map_option pc_tstamps (ps_currentPollCycle (count_timeout g s)) = map_option pc_tstamps (ps_currentPollCycle s)"
  by (auto simp: count_timeout_def split: option.splits)

lemma poll_ok_count: "poll_ok ifaces s \<Longrightarrow> poll_ok ifaces (count_timeout g s)"
  by (auto simp: poll_ok_def count_timeout_def split: option.splits if_splits)

lemma poll_ok_timeout:
  assumes "poll_ok ifaces s"
  shows "poll_ok ifaces (snd (handlePollTimeout ifaces d s))"
proof (cases "ps_currentPollCycle s")
  case None
  with assms show ?thesis by (auto simp: handlePollTimeout_def split: prod.splits option.splits)
next
  case (Some c0)
  with assms have "list_all (sample_ok ifaces (ps_roles s)) (pc_tstamps c0)" by (simp add: poll_ok_def)
  from unhandled_ok [OF this] have c: "poll_ok ifaces (s\<lparr>ps_currentPollCycle := Some (snd (unhandledMetrics c0))\<rparr>)"
    by (simp add: poll_ok_def)
  have e: "poll_ok ifaces (s\<lparr>ps_currentPollCycle := Some \<lparr>pc_group = g, pc_lastSampleGroup = 0, pc_tstamps = [], pc_counted = True\<rparr>\<rparr>)" for g
    by (simp add: poll_ok_def)
  show ?thesis using assms poll_ok_count [OF c] poll_ok_count [OF e]
    by (auto simp: handlePollTimeout_def Some Let_def split: prod.splits option.splits if_splits)
qed

lemma poll_ok_event: "poll_ok ifaces s \<Longrightarrow> poll_ok ifaces (snd (processTS2PhcEvent ifaces e s))"
  by (auto simp: processTS2PhcEvent_def poll_ok_selection poll_ok_success poll_ok_added poll_ok_timeout split: option.splits)

lemma poll_ok_run: "poll_ok ifaces s \<Longrightarrow> poll_ok ifaces (poll_run ifaces es s)"
  unfolding poll_run_def by (induction es arbitrary: s) (simp_all add: poll_ok_event)

definition reports_sink :: "iface list \<Rightarrow> (string \<Rightarrow> phc_role option) \<Rightarrow> log_metrics \<Rightarrow> bool" where
  "reports_sink ifaces roles m \<longleftrightarrow>
     mx_ClockState m = ClockStateFreeRun \<and>
     (\<exists>i \<in> set ifaces. mx_Iface m = if_Name i \<and> phc_role_of roles (if_PhcId i) = TS2PHCSink)"

lemma freerun_fields [simp]:
  "mx_ClockState (freerun_metric n x) = ClockStateFreeRun" "mx_Iface (freerun_metric n x) = n" "mx_Offset (freerun_metric n x) = x"
  by (simp_all add: freerun_metric_def zero_metrics_def)

lemma unhandled_reports:
  assumes "list_all (sample_ok ifaces roles) (pc_tstamps c)" "m \<in> set (fst (unhandledMetrics c))"
  shows "reports_sink ifaces roles m"
proof -
  from assms(2) obtain ts where ts: "ts \<in> set (pc_tstamps c)" "ts_pending ts" "m = freerun_metric (ts_iface ts) (computeTSOffset ts c)"
    by (auto simp: unhandledMetrics_def)
  with assms(1) have "roles (ts_device ts) = Some TS2PHCSink" "phcToIface ifaces (ts_device ts) = Some (ts_iface ts)"
    by (auto simp: list_all_iff sample_ok_def ts_pending_def)
  moreover from phcToIface_configured [OF this(2)] obtain i where
    "i \<in> set ifaces" "if_PhcId i = ts_device ts" "if_Name i = ts_iface ts" by blast
  ultimately show ?thesis using ts(3) by (auto simp: reports_sink_def phc_role_of_def intro!: bexI [of _ i])
qed

lemma missing_reports: "m \<in> set (missingMetrics c ifaces roles) \<Longrightarrow> reports_sink ifaces roles m"
  by (auto simp: missingMetrics_def reports_sink_def)

lemma append_once_sub: "set (append_once seen ms) \<subseteq> set ms"
  by (induction seen ms rule: append_once.induct) auto

lemma timeout_reports:
  assumes "poll_ok ifaces s" "handlePollTimeout ifaces d s = (Some ms, s')" "m \<in> set ms"
  shows "reports_sink ifaces (ps_roles s) m"
proof (cases "ps_currentPollCycle s")
  case None
  with assms(2,3) show ?thesis by (auto simp: handlePollTimeout_def split: prod.splits option.splits)
next
  case (Some c0)
  with assms(1) have ok: "list_all (sample_ok ifaces (ps_roles s)) (pc_tstamps c0)" by (simp add: poll_ok_def)
  from assms(2,3) have "m \<in> set (fst (unhandledMetrics c0)) \<or> (\<exists>c. m \<in> set (missingMetrics c ifaces (ps_roles s)))"
    using append_once_sub
    by (auto simp: handlePollTimeout_def Some Let_def appendMissingMetricsOnce_def split: prod.splits option.splits if_splits)
      (metis subsetD fst_conv)+
  with unhandled_reports [OF ok] missing_reports show ?thesis by blast
qed

lemma added_reports:
  assumes "poll_ok ifaces s" "handleAddedTstamp ifaces d s = (Some ms, s')" "m \<in> set ms"
  shows "reports_sink ifaces (ps_roles s) m"
proof -
  from assms(2,3) obtain c where c: "ps_currentPollCycle s = Some c"
    "m \<in> set (fst (unhandledMetrics c)) \<or> m \<in> set (missingMetrics (snd (unhandledMetrics c)) ifaces (ps_roles s))"
    by (auto simp: handleAddedTstamp_def Let_def split: prod.splits option.splits if_splits)
  moreover have "list_all (sample_ok ifaces (ps_roles s)) (pc_tstamps c)" using assms(1) c(1) by (simp add: poll_ok_def)
  ultimately show ?thesis using unhandled_reports missing_reports by blast
qed

text \<open>
  C26. Whatever lines came before, a clock that the poll tracking reports is reported FREERUN, under the
  name of a configured interface, and its PHC is a sink at that moment.
\<close>

theorem poll_reports_sinks:
  assumes "s = poll_run ifaces es (resetPollCycle ifaces)"
    and "processTS2PhcEvent ifaces e s = (Some ms, s')" "m \<in> set ms"
  shows "mx_ClockState m = ClockStateFreeRun \<and>
    (\<exists>i \<in> set ifaces. mx_Iface m = if_Name i \<and> phc_role_of (ps_roles s) (if_PhcId i) = TS2PHCSink)"
proof -
  have "poll_ok ifaces s" unfolding assms(1) by (intro poll_ok_run poll_ok_reset)
  then have "reports_sink ifaces (ps_roles s) m"
    using assms(2,3) added_reports timeout_reports
    by (auto simp: processTS2PhcEvent_def split: option.splits if_splits)
  then show ?thesis by (simp add: reports_sink_def)
qed

definition example_iface :: "string \<Rightarrow> string \<Rightarrow> iface" where
  "example_iface n phc = \<lparr>if_Name = n, if_IsMaster = False, if_Source = '''', if_PhcId = phc\<rparr>"

definition added_line :: "string \<Rightarrow> string \<Rightarrow> int \<Rightarrow> log_event" where
  "added_line tm phc secs = zero_log_event\<lparr>pe_Ts2Phc := Some \<lparr>te_Timestamp = tm, te_PHCDevice = phc, te_PHCTstamp = Some (secs, 0),
     te_PollTimeout = False, te_PollSuccessful = False, te_Role = RoleNone\<rparr>\<rparr>"

lemma group_of_digit: "pollGroupFromTimestamp ''1.5'' = (1, None)" "pollGroupFromTimestamp ''2.5'' = (2, None)"
  by (simp_all add: pollGroupFromTimestamp_def Cut_def IndexByte_def Atoi_def ParseInt_def ParseUint_def digit_val_def)

lemma example_first:
  "processTS2PhcEvent [example_iface ''eth0'' ''/dev/ptp0''] (added_line ''1.5'' ''/dev/ptp0'' 7)
     (resetPollCycle [example_iface ''eth0'' ''/dev/ptp0'']) =
   (Some [], (resetPollCycle [example_iface ''eth0'' ''/dev/ptp0''])\<lparr>ps_currentPollCycle := Some \<lparr>pc_group = 1, pc_lastSampleGroup = 1,
      pc_tstamps = [\<lparr>ts_seconds = 7, ts_nanoseconds = 0, ts_device = ''/dev/ptp0'', ts_iface = ''eth0'', ts_role = TS2PHCSink,
        ts_handled = False\<rparr>], pc_counted = False\<rparr>\<rparr>)"
  by (simp add: processTS2PhcEvent_def added_line_def zero_log_event_def handleAddedTstamp_def group_of_digit Let_def sample_of_def
      phcToIface_def GetPhcID2IFace_def example_iface_def resetPollCycle_def phc_role_of_def)

lemma example_second:
  "\<exists>ms s'. processTS2PhcEvent [example_iface ''eth0'' ''/dev/ptp0''] (added_line ''2.5'' ''/dev/ptp0'' 8)
     ((resetPollCycle [example_iface ''eth0'' ''/dev/ptp0''])\<lparr>ps_currentPollCycle := Some \<lparr>pc_group = 1, pc_lastSampleGroup = 1,
      pc_tstamps = [\<lparr>ts_seconds = 7, ts_nanoseconds = 0, ts_device = ''/dev/ptp0'', ts_iface = ''eth0'', ts_role = TS2PHCSink,
        ts_handled = False\<rparr>], pc_counted = False\<rparr>\<rparr>) = (Some ms, s') \<and> freerun_metric ''eth0'' NaN \<in> set ms"
  by (simp add: processTS2PhcEvent_def added_line_def zero_log_event_def handleAddedTstamp_def group_of_digit Let_def sample_of_def
      phcToIface_def GetPhcID2IFace_def example_iface_def resetPollCycle_def phc_role_of_def shouldContain_def unhandledMetrics_def
      ts_pending_def computeTSOffset_def maxOffset_def sourceTimestamps_def)

theorem poll_reports_sinks_witness:
  "mx_ClockState (freerun_metric ''eth0'' NaN) = ClockStateFreeRun \<and>
   (\<exists>i \<in> {example_iface ''eth0'' ''/dev/ptp0''}. ''eth0'' = if_Name i)"
proof -
  let ?ifs = "[example_iface ''eth0'' ''/dev/ptp0'']"
  have run: "poll_run ?ifs [added_line ''1.5'' ''/dev/ptp0'' 7] (resetPollCycle ?ifs) =
    snd (processTS2PhcEvent ?ifs (added_line ''1.5'' ''/dev/ptp0'' 7) (resetPollCycle ?ifs))" by (simp add: poll_run_def)
  from example_second obtain ms s' where
    "processTS2PhcEvent ?ifs (added_line ''2.5'' ''/dev/ptp0'' 8) (poll_run ?ifs [added_line ''1.5'' ''/dev/ptp0'' 7] (resetPollCycle ?ifs)) = (Some ms, s')"
    "freerun_metric ''eth0'' NaN \<in> set ms" unfolding run example_first snd_conv by blast
  from poll_reports_sinks [OF refl this] show ?thesis by auto
qed

section \<open>No sink is forgotten\<close>

text \<open>A sink is accounted for when a sample of its PHC was handled or a metric names one of the PHC's interfaces.\<close>

lemma unhandled_tstamps:
  "list_all (sample_ok ifaces roles) (pc_tstamps c) \<Longrightarrow> map ts_device (pc_tstamps (snd (unhandledMetrics c))) = map ts_device (pc_tstamps c)"
  by (simp add: unhandledMetrics_def)

text \<open>
  C9. When a sample opens the next batch, every configured interface whose PHC is a sink is accounted
  for: a sample of its PHC in the batch that ends was handled, or a FREERUN metric names an interface of
  that PHC.
\<close>

theorem next_batch_accounts_for_sinks:
  assumes "s = poll_run ifaces es (resetPollCycle ifaces)" "ps_currentPollCycle s = Some c"
    and "handleAddedTstamp ifaces d s = (Some ms, s')"
    and "te_PHCTstamp d = Some t" "fst (pollGroupFromTimestamp (te_Timestamp d)) = g" "\<not> shouldContain c (sample_of ifaces d t s) g"
    and "i \<in> set ifaces" "phc_role_of (ps_roles s) (if_PhcId i) = TS2PHCSink"
  shows "(\<exists>ts \<in> set (pc_tstamps c). ts_device ts = if_PhcId i \<and> ts_handled ts) \<or>
    (\<exists>m \<in> set ms. mx_ClockState m = ClockStateFreeRun \<and> (\<exists>j \<in> set ifaces. if_PhcId j = if_PhcId i \<and> mx_Iface m = if_Name j))"
proof -
  have "poll_ok ifaces s" unfolding assms(1) by (intro poll_ok_run poll_ok_reset)
  with assms(2) have ok: "list_all (sample_ok ifaces (ps_roles s)) (pc_tstamps c)" by (simp add: poll_ok_def)
  have ms: "ms = fst (unhandledMetrics c) @ missingMetrics (snd (unhandledMetrics c)) ifaces (ps_roles s)"
    using assms(3,6) by (auto simp: handleAddedTstamp_def Let_def assms(2,4) assms(5) [symmetric] split: prod.splits option.splits if_splits)
  show ?thesis
  proof (cases "\<exists>ts \<in> set (pc_tstamps c). ts_device ts = if_PhcId i")
    case True
    then obtain ts where ts: "ts \<in> set (pc_tstamps c)" "ts_device ts = if_PhcId i" by blast
    show ?thesis
    proof (cases "ts_handled ts")
      case True
      with ts show ?thesis by blast
    next
      case False
      with ok ts have p: "ts_pending ts" "phcToIface ifaces (if_PhcId i) = Some (ts_iface ts)"
        by (auto simp: list_all_iff sample_ok_def ts_pending_def)
      then have "freerun_metric (ts_iface ts) (computeTSOffset ts c) \<in> set ms"
        using ts(1) by (auto simp: ms unhandledMetrics_def)
      moreover from phcToIface_configured [OF p(2)] obtain j where
        "j \<in> set ifaces" "if_PhcId j = if_PhcId i" "if_Name j = ts_iface ts" by blast
      ultimately show ?thesis by (intro disjI2 bexI [of _ "freerun_metric (ts_iface ts) (computeTSOffset ts c)"]) auto
    qed
  next
    case False
    then have "freerun_metric (if_Name i) NaN \<in> set ms"
      using assms(7,8) by (auto simp: ms missingMetrics_def unhandledMetrics_def list_ex_iff)
    then show ?thesis using assms(7) by (intro disjI2 bexI [of _ "freerun_metric (if_Name i) NaN"]) auto
  qed
qed

theorem next_batch_accounts_for_sinks_witness:
  "\<exists>ms s'. handleAddedTstamp [example_iface ''eth0'' ''/dev/ptp0''] (the (pe_Ts2Phc (added_line ''2.5'' ''/dev/ptp0'' 8)))
      (poll_run [example_iface ''eth0'' ''/dev/ptp0''] [added_line ''1.5'' ''/dev/ptp0'' 7] (resetPollCycle [example_iface ''eth0'' ''/dev/ptp0''])) =
        (Some ms, s') \<and> (\<exists>m \<in> set ms. mx_ClockState m = ClockStateFreeRun)"
proof -
  let ?ifs = "[example_iface ''eth0'' ''/dev/ptp0'']" and ?d = "the (pe_Ts2Phc (added_line ''2.5'' ''/dev/ptp0'' 8))"
  let ?s = "poll_run ?ifs [added_line ''1.5'' ''/dev/ptp0'' 7] (resetPollCycle ?ifs)"
  let ?t = "\<lparr>ts_seconds = 7, ts_nanoseconds = 0, ts_device = ''/dev/ptp0'', ts_iface = ''eth0'', ts_role = TS2PHCSink, ts_handled = False\<rparr>"
  let ?c = "\<lparr>pc_group = 1, pc_lastSampleGroup = 1, pc_tstamps = [?t], pc_counted = False\<rparr>"
  have s: "?s = (resetPollCycle ?ifs)\<lparr>ps_currentPollCycle := Some ?c\<rparr>"
    using example_first by (simp add: poll_run_def)
  have c: "ps_currentPollCycle ?s = Some ?c" unfolding s by simp
  have "processTS2PhcEvent ?ifs (added_line ''2.5'' ''/dev/ptp0'' 8) ?s = handleAddedTstamp ?ifs ?d ?s"
    by (simp add: processTS2PhcEvent_def added_line_def zero_log_event_def)
  with example_second s obtain ms s' where h: "handleAddedTstamp ?ifs ?d ?s = (Some ms, s')" by auto
  have t: "te_PHCTstamp ?d = Some (8, 0)" and g: "fst (pollGroupFromTimestamp (te_Timestamp ?d)) = 2"
    by (simp_all add: added_line_def zero_log_event_def group_of_digit)
  have k: "\<not> shouldContain ?c (sample_of ?ifs ?d (8, 0) ?s) 2"
    by (simp add: shouldContain_def sample_of_def Let_def added_line_def zero_log_event_def)
  have r: "phc_role_of (ps_roles ?s) (if_PhcId (example_iface ''eth0'' ''/dev/ptp0'')) = TS2PHCSink"
    unfolding s by (simp add: phc_role_of_def resetPollCycle_def example_iface_def)
  from next_batch_accounts_for_sinks [OF refl c h t g k _ r] h show ?thesis by auto
qed

section \<open>Offsets and the timeout counter\<close>

lemma absInt64_abs: "int (absInt64 v) = \<bar>v\<bar>"
  by (auto simp: absInt64_def)

text \<open>The offset is that of the peer furthest away, the first of those.\<close>

lemma maxOffset_loop_furthest:
  "maxOffset_loop ts acc tss = Some off \<Longrightarrow>
     (\<forall>p \<in> set tss. ts_device p \<noteq> ts_device ts \<longrightarrow> \<bar>ts_delta ts p\<bar> \<le> \<bar>off\<bar>) \<and>
     (\<forall>a. acc = Some a \<longrightarrow> \<bar>a\<bar> \<le> \<bar>off\<bar>) \<and>
     (acc = Some off \<or> (\<exists>p \<in> set tss. ts_device p \<noteq> ts_device ts \<and> off = ts_delta ts p))"
proof (induction ts acc tss rule: maxOffset_loop.induct)
  case (1 ts acc)
  then show ?case by simp
next
  case (2 ts acc other rest)
  have lt: "absInt64 x < absInt64 y \<longleftrightarrow> \<bar>x\<bar> < \<bar>y\<bar>" for x y using absInt64_abs [of x] absInt64_abs [of y] by linarith
  show ?case
  proof (cases "ts_device ts = ts_device other")
    case True
    with 2 show ?thesis by auto
  next
    case False
    define acc' where "acc' = (case acc of None \<Rightarrow> Some (ts_delta ts other) | Some off \<Rightarrow>
        Some (if absInt64 off < absInt64 (ts_delta ts other) then ts_delta ts other else off))"
    have "maxOffset_loop ts acc' rest = Some off" using 2(3) False by (simp add: acc'_def Let_def)
    with 2(2) [OF False refl] have IH: "\<forall>p \<in> set rest. ts_device p \<noteq> ts_device ts \<longrightarrow> \<bar>ts_delta ts p\<bar> \<le> \<bar>off\<bar>"
      "\<forall>a. acc' = Some a \<longrightarrow> \<bar>a\<bar> \<le> \<bar>off\<bar>"
      "acc' = Some off \<or> (\<exists>p \<in> set rest. ts_device p \<noteq> ts_device ts \<and> off = ts_delta ts p)" by (simp_all add: acc'_def)
    have "\<exists>b. acc' = Some b \<and> \<bar>ts_delta ts other\<bar> \<le> \<bar>b\<bar> \<and> (\<forall>a. acc = Some a \<longrightarrow> \<bar>a\<bar> \<le> \<bar>b\<bar>) \<and>
        (b = ts_delta ts other \<or> acc = Some b)"
    proof (cases acc)
      case None
      then show ?thesis by (simp add: acc'_def)
    next
      case (Some a)
      then show ?thesis by (cases "absInt64 a < absInt64 (ts_delta ts other)") (auto simp: acc'_def lt)
    qed
    then obtain b where b: "acc' = Some b" "\<bar>ts_delta ts other\<bar> \<le> \<bar>b\<bar>" "\<forall>a. acc = Some a \<longrightarrow> \<bar>a\<bar> \<le> \<bar>b\<bar>"
      "b = ts_delta ts other \<or> acc = Some b" by blast
    then have "\<bar>b\<bar> \<le> \<bar>off\<bar>" using IH(2) by blast
    with IH b False show ?thesis by fastforce
  qed
qed

text \<open>An offset line clears the timeouts; a timeout in a second that was counted already is not seen.\<close>

lemma success_clears_timeouts: "\<not> TS2phcHasTimeouts (handleSuccessfulPollFor ifaces n s)"
  by (simp add: TS2phcHasTimeouts_def handleSuccessfulPollFor_def Let_def)

lemma unhandled_fields [simp]:
  "pc_counted (snd (unhandledMetrics c)) = pc_counted c" "pc_group (snd (unhandledMetrics c)) = pc_group c"
  by (simp_all add: unhandledMetrics_def)

lemma timeout_marks_second:
  assumes "ps_currentPollCycle s = Some c" "pollGroupFromTimestamp (te_Timestamp d) = (g, None)"
  shows "\<exists>c'. ps_currentPollCycle (snd (handlePollTimeout ifaces d s)) = Some c' \<and> pc_counted c' \<and>
    (ps_timeoutGroup (snd (handlePollTimeout ifaces d s)) = g)"
  using assms by (auto simp: handlePollTimeout_def count_timeout_def Let_def split: prod.splits option.splits if_splits)

lemma counted_second_not_counted:
  assumes "ps_currentPollCycle s = Some c" "pc_counted c" "ps_timeoutGroup s = g" "pollGroupFromTimestamp (te_Timestamp d) = (g, None)"
  shows "ps_pollTimeoutCount (snd (handlePollTimeout ifaces d s)) = ps_pollTimeoutCount s"
  using assms by (auto simp: handlePollTimeout_def count_timeout_def Let_def split: prod.splits)
    (metis snd_conv unhandled_fields(1))+

lemma second_timeout_unseen:
  assumes "ps_currentPollCycle s = Some c" "pollGroupFromTimestamp (te_Timestamp d) = (g, None)"
  shows "\<not> TS2phcHasTimeouts (snd (handlePollTimeout ifaces d
            (handleSuccessfulPollFor ifaces n (snd (handlePollTimeout ifaces d s)))))"
proof -
  let ?s1 = "snd (handlePollTimeout ifaces d s)" and ?s2 = "handleSuccessfulPollFor ifaces n (snd (handlePollTimeout ifaces d s))"
  from timeout_marks_second [OF assms] obtain c' where c': "ps_currentPollCycle ?s1 = Some c'" "pc_counted c'" "ps_timeoutGroup ?s1 = g"
    by blast
  then obtain c2 where "ps_currentPollCycle ?s2 = Some c2" "pc_counted c2" "ps_timeoutGroup ?s2 = g" "ps_pollTimeoutCount ?s2 = 0"
    by (simp add: handleSuccessfulPollFor_def Let_def)
  from counted_second_not_counted [OF this(1-3) assms(2)] this(4) show ?thesis by (simp add: TS2phcHasTimeouts_def)
qed

end
