(* ===== verification/LogEvents.thy ===== *)
theory LogEvents
  imports Ts2Phc Stats
begin

text \<open>
  What a line of a program's log does in the daemon (\<open>pkg/daemon/log_parsing.go\<close>, \<open>metrics.go\<close> and the
  line handling of \<open>ptp_process.go\<close>). The effects are values: a gauge that is set or deleted, an event
  offered to the queue of the clock manager (a full queue drops it), a call of a plugin or of the
  hardware configuration. The maps from a configuration to its follower interface are shared by all
  processes. The clock, the alias store and the decisions of the hardware configuration's state
  detector are arguments. Labels of a gauge are listed without the node.
\<close>

section \<open>Effects and shared maps\<close>

datatype log_effect =
    SetGauge string "string list" f64
  | DeleteGauge string "string list"
  | IncCounter string "string list"
  | OfferEvent event
  | AfterRunPlugin string
  | ApplyHardware string

record offset_maps =
  om_offsetIface :: "(string \<times> (string \<times> string)) list"
  om_slaveIface :: "string \<Rightarrow> string option"
  om_source :: "string \<Rightarrow> string option"

definition InitializeOffsetMaps :: offset_maps where
  "InitializeOffsetMaps = \<lparr>om_offsetIface = [], om_slaveIface = Map.empty, om_source = Map.empty\<rparr>"

text \<open>\<open>masterOffsetIface\<close>: the name and the alias.\<close>

definition offsetIface_get :: "string \<Rightarrow> offset_maps \<Rightarrow> string \<times> string" where
  "offsetIface_get cfg w = (case map_of (om_offsetIface w) cfg of Some p \<Rightarrow> p | None \<Rightarrow> ('''', ''''))"

definition offsetIface_getByAlias :: "string \<Rightarrow> string \<Rightarrow> offset_maps \<Rightarrow> string \<times> string" where
  "offsetIface_getByAlias cfg al w =
     (case map_of (om_offsetIface w) cfg of
        Some p \<Rightarrow> if snd p = al then p else (al, al)
      | None \<Rightarrow> (al, al))"

definition offsetIface_set :: "alias_store \<Rightarrow> string \<Rightarrow> string \<Rightarrow> offset_maps \<Rightarrow> offset_maps" where
  "offsetIface_set st cfg v w = w\<lparr>om_offsetIface := AList.update cfg (v, getAlias v st) (om_offsetIface w)\<rparr>"

definition slaveIface_get :: "string \<Rightarrow> offset_maps \<Rightarrow> string" where
  "slaveIface_get cfg w = (case om_slaveIface w cfg of Some v \<Rightarrow> v | None \<Rightarrow> '''')"

definition slaveIface_set :: "string \<Rightarrow> string \<Rightarrow> offset_maps \<Rightarrow> offset_maps" where
  "slaveIface_set cfg v w = w\<lparr>om_slaveIface := (om_slaveIface w)(cfg := Some v)\<rparr>"

definition isFollowerIface :: "string \<Rightarrow> string \<Rightarrow> offset_maps \<Rightarrow> bool" where
  "isFollowerIface cfg i w \<longleftrightarrow> om_slaveIface w cfg = Some i"

definition offsetSource_set :: "string \<Rightarrow> string \<Rightarrow> offset_maps \<Rightarrow> offset_maps" where
  "offsetSource_set cfg v w = w\<lparr>om_source := (om_source w)(cfg := Some v)\<rparr>"

definition offsetSource_get :: "string \<Rightarrow> offset_maps \<Rightarrow> string" where
  "offsetSource_get cfg w = (case om_source w cfg of Some v \<Rightarrow> v | None \<Rightarrow> ''ptp4l'')"

section \<open>Gauges\<close>

definition CheckMetricSanity :: "string \<Rightarrow> string \<Rightarrow> bool" where
  "CheckMetricSanity proc i \<longleftrightarrow> proc \<noteq> '''' \<and> i \<noteq> ''''"

definition updatePTPMetrics :: "string \<Rightarrow> string \<Rightarrow> string \<Rightarrow> f64 \<Rightarrow> f64 \<Rightarrow> f64 \<Rightarrow> f64 \<Rightarrow> log_effect list" where
  "updatePTPMetrics fr proc i off mx freq delay =
     (if CheckMetricSanity proc i
      then [SetGauge ''offset_ns'' [fr, proc, i] off, SetGauge ''max_offset_ns'' [fr, proc, i] mx,
            SetGauge ''frequency_adjustment_ns'' [fr, proc, i] freq, SetGauge ''delay_ns'' [fr, proc, i] delay]
      else [])"

definition updateClockStateMetrics :: "string \<Rightarrow> string \<Rightarrow> string \<Rightarrow> log_effect list" where
  "updateClockStateMetrics proc i st =
     (if CheckMetricSanity proc i
      then [SetGauge ''clock_state'' [proc, i]
              (if st = ''LOCKED'' then Fin 1 else if st = ''HOLDOVER'' then Fin 2 else Fin 0)]
      else [])"

text \<open>The roles have the numbers of the metric.\<close>

fun role_number :: "port_role \<Rightarrow> f64" where
  "role_number PortRolePassive = Fin 0"
| "role_number PortRoleSlave = Fin 1"
| "role_number PortRoleMaster = Fin 2"
| "role_number PortRoleFaulty = Fin 3"
| "role_number PortRoleUnknown = Fin 4"
| "role_number PortRoleListening = Fin 5"

definition UpdateInterfaceRoleMetrics :: "string \<Rightarrow> string \<Rightarrow> port_role \<Rightarrow> log_effect list" where
  "UpdateInterfaceRoleMetrics proc i r =
     (if CheckMetricSanity proc i then [SetGauge ''interface_role'' [proc, i] (role_number r)] else [])"

definition UpdateProcessStatusMetrics :: "string \<Rightarrow> string \<Rightarrow> bool \<Rightarrow> log_effect list" where
  "UpdateProcessStatusMetrics proc cfg up =
     SetGauge ''process_status'' [proc, cfg] (if up then Fin 1 else Fin 0) #
     (if up then [IncCounter ''process_restart_count'' [proc, cfg]] else [])"

definition updatePTPThresholdMetrics :: "string \<Rightarrow> ptp_clock_threshold \<Rightarrow> log_effect list" where
  "updatePTPThresholdMetrics profile th =
     [SetGauge ''threshold'' [''MaxOffsetThreshold'', profile] (f64_of_int (th_MaxOffsetThreshold th)),
      SetGauge ''threshold'' [''MinOffsetThreshold'', profile] (f64_of_int (th_MinOffsetThreshold th)),
      SetGauge ''threshold'' [''HoldOverTimeout'', profile] (f64_of_int (th_HoldOverTimeout th))]"

definition deleteProcessStatusMetrics :: "string \<Rightarrow> string \<Rightarrow> log_effect list" where
  "deleteProcessStatusMetrics cfg proc =
     [DeleteGauge ''process_status'' [proc, cfg], DeleteGauge ''process_restart_count'' [proc, cfg]]"

definition deleteOsClockStateMetrics :: "string list \<Rightarrow> log_effect list" where
  "deleteOsClockStateMetrics profiles =
     [DeleteGauge ''clock_state'' [''phc2sys'', ''CLOCK_REALTIME''], DeleteGauge ''delay_ns'' [''phc'', ''phc2sys'', ''CLOCK_REALTIME''],
      DeleteGauge ''frequency_adjustment_ns'' [''phc'', ''phc2sys'', ''CLOCK_REALTIME''],
      DeleteGauge ''max_offset_ns'' [''phc'', ''phc2sys'', ''CLOCK_REALTIME''],
      DeleteGauge ''offset_ns'' [''phc'', ''phc2sys'', ''CLOCK_REALTIME'']] @
     map (\<lambda>p. DeleteGauge ''ha_profile_status'' [''phc2sys'', p]) profiles"

text \<open>A tag is a configuration name in brackets, with a suffix after a colon.\<close>

definition configNameFromMessageTag :: "string \<Rightarrow> string" where
  "configNameFromMessageTag tag =
     hd (split_ch (CHR '':'') (replace_first (replace_first tag '']'' '''') ''['' ''''))"

definition deleteMetrics :: "iface list \<Rightarrow> string list \<Rightarrow> string \<Rightarrow> string \<Rightarrow> string \<Rightarrow> offset_maps \<Rightarrow> log_effect list" where
  "deleteMetrics ifaces haProfiles proc config messageTag w =
     (let cfg = configNameFromMessageTag messageTag in
      (if cfg \<noteq> '''' then deleteProcessStatusMetrics cfg proc else []) @
      (if config \<noteq> '''' \<and> config \<noteq> cfg then deleteProcessStatusMetrics config proc else []) @
      (if proc = ''phc2sys'' then deleteOsClockStateMetrics haProfiles
       else map (\<lambda>i. DeleteGauge ''interface_role'' [''ptp4l'', if_Name i]) ifaces @
            concat (map (\<lambda>(_, _, al).
              [DeleteGauge ''clock_state'' [proc, al], DeleteGauge ''delay_ns'' [''master'', proc, al],
               DeleteGauge ''frequency_adjustment_ns'' [''master'', proc, al], DeleteGauge ''max_offset_ns'' [''master'', proc, al],
               DeleteGauge ''offset_ns'' [''master'', proc, al]]) (om_offsetIface w))))"

section \<open>The process\<close>

text \<open>\<open>tBCProcessAttributes\<close>, and the parts of \<open>ptpProcess\<close> that the lines use.\<close>

record tbc_attributes =
  tb_ttPortsConfigFile :: string
  tb_trPortsConfigFile :: string
  tb_trIfaceNames :: "string list"
  tb_perPortState :: "(string \<times> ptp_state) list"
  tb_activePort :: string
  tb_lastReportedState :: ptp_state
  tb_lastAppliedState :: ptp_state
  tb_offsetFilter :: "window option"
  tb_offsetThreshold :: f64
  tb_offsetEventWindow :: "window option"
  tb_lastOffsetEventSec :: int

record log_process =
  lp_name :: string
  lp_messageTag :: string
  lp_configName :: string
  lp_ifaces :: "iface list"
  lp_profile :: ptp_profile
  lp_clockType :: clock_type
  lp_threshold :: ptp_clock_threshold
  lp_offset :: f64
  lp_poll :: poll_state
  lp_tbc :: tbc_attributes
  lp_hasCollectedMetrics :: bool

definition lp_cfg :: "log_process \<Rightarrow> string" where
  "lp_cfg p = configNameFromMessageTag (lp_messageTag p)"

definition activeTRPort :: "tbc_attributes \<Rightarrow> string" where
  "activeTRPort t =
     (if tb_activePort t \<noteq> '''' then tb_activePort t
      else (case tb_trIfaceNames t of [] \<Rightarrow> '''' | n # _ \<Rightarrow> n))"

definition allPortsLost :: "tbc_attributes \<Rightarrow> bool" where
  "allPortsLost t \<longleftrightarrow> list_all (\<lambda>(_, st). st \<noteq> PTP_LOCKED) (tb_perPortState t)"

definition mk_event :: "event_source \<Rightarrow> string \<Rightarrow> string \<Rightarrow> clock_type \<Rightarrow> int \<Rightarrow> bool \<Rightarrow> event_data \<Rightarrow> log_effect" where
  "mk_event src cfg i ct now wlog d =
     OfferEvent \<lparr>ev_Source = src, ev_IFace = i, ev_CfgName = cfg, ev_ClockType = ct, ev_Time = now, ev_WriteToLog = wlog,
       ev_Reset = False, ev_Data = Some d\<rparr>"

definition offset_payload :: "ptp_state \<Rightarrow> int \<Rightarrow> event_data" where
  "offset_payload st off = OffsetData \<lparr>od_State = st, od_Offset = off, od_SourceLost = False, od_NMEALocked = None\<rparr>"

section \<open>The telecom boundary clock's upstream port\<close>

text \<open>
  \<open>getPTPClockID\<close>: \<open>None\<close> is the error. In Go \<open>&\<close> and \<open>>>\<close> have the same precedence, so both masks
  are applied before the shift.
\<close>

definition hex6 :: "nat \<Rightarrow> string" where
  "hex6 n = (let s = show_hex n in replicate (6 - length s) (CHR ''0'') @ s)"

definition getPTPClockID :: "ptp_profile \<Rightarrow> string option" where
  "getPTPClockID profile =
     (case setting ''leadingInterface'' profile of
        None \<Rightarrow> None
      | Some nic \<Rightarrow>
          (case setting (''clockId['' @ nic @ '']'') profile of
             None \<Rightarrow> None
           | Some txt \<Rightarrow>
               (case ParseUint txt 10 64 of
                  (_, Some e) \<Rightarrow> None
                | (n, None) \<Rightarrow>
                    if setting (''clockIdFormat['' @ nic @ '']'') profile = Some ''EUI-48''
                    then Some (hex6 (n div 2 ^ 24 mod 2 ^ 24) @ ''.fffe.'' @ hex6 (n mod 2 ^ 24))
                    else Some (hex6 (n div 2 ^ 40 mod 2 ^ 24) @ ''.fffe.'' @ hex6 (n mod 2 ^ 24)))))"

definition sendPtp4lStateEvent :: "int \<Rightarrow> log_process \<Rightarrow> log_effect" where
  "sendPtp4lStateEvent now p =
     (let t = lp_tbc p in
      mk_event PTP4l (lp_configName p) (activeTRPort t) (lp_clockType p) now False
        (StateData \<lparr>sd_State = tb_lastReportedState t, sd_SourceLost = (tb_lastReportedState t \<noteq> PTP_LOCKED),
           sd_ControlledPortsConfig = tb_ttPortsConfigFile t,
           sd_ClockID = (case getPTPClockID (lp_profile p) of None \<Rightarrow> '''' | Some i \<Rightarrow> i)\<rparr>))"

text \<open>\<open>act\<close> is what the transition does before the state is announced.\<close>

definition checkOffsetFilterAndTransition :: "int \<Rightarrow> log_effect \<Rightarrow> log_process \<Rightarrow> log_process \<times> log_effect list" where
  "checkOffsetFilterAndTransition now act p =
     (let t = lp_tbc p in
      case tb_offsetFilter t of
        None \<Rightarrow> (p, [])
      | Some w \<Rightarrow>
          if lp_configName p \<noteq> tb_trPortsConfigFile t then (p, [])
          else let w1 = w_Insert (f64_abs (lp_offset p)) w;
                   p1 = p\<lparr>lp_tbc := t\<lparr>tb_offsetFilter := Some w1\<rparr>\<rparr>
               in if tb_lastReportedState t = PTP_LOCKED \<and> tb_lastAppliedState t \<noteq> PTP_LOCKED \<and> w_IsFull w1 \<and>
                     f64_lt (w_Mean w1) (tb_offsetThreshold t)
                  then (p1\<lparr>lp_tbc := (lp_tbc p1)\<lparr>tb_lastAppliedState := PTP_LOCKED\<rparr>\<rparr>, [act, sendPtp4lStateEvent now p1])
                  else (p1, []))"

text \<open>Once per second the mean of the window goes to the T-BC; the time is in milliseconds.\<close>

definition sendPtp4lOffsetEvent :: "int \<Rightarrow> log_process \<Rightarrow> log_process \<times> log_effect list" where
  "sendPtp4lOffsetEvent now p =
     (let t = lp_tbc p in
      case tb_offsetEventWindow t of
        None \<Rightarrow> (p, [])
      | Some w \<Rightarrow>
          if lp_configName p \<noteq> tb_trPortsConfigFile t then (p, [])
          else let w1 = w_Insert (lp_offset p) w; t1 = t\<lparr>tb_offsetEventWindow := Some w1\<rparr>
               in if now div 1000 = tb_lastOffsetEventSec t then (p\<lparr>lp_tbc := t1\<rparr>, [])
                  else (p\<lparr>lp_tbc := t1\<lparr>tb_lastOffsetEventSec := now div 1000\<rparr>\<rparr>,
                        [mk_event PTP4l (lp_configName p) (activeTRPort t) (lp_clockType p) now False
                           (offset_payload (tb_lastReportedState t) (f64_to_int64 (w_Mean w1)))]))"

abbreviation offsetFilterSize :: nat where "offsetFilterSize \<equiv> 64"

datatype port_condition = ConditionNone | ConditionLocked | ConditionLost

text \<open>With a hardware configuration; the port and the condition are what the detector found in the line.\<close>

definition processTBCTransitionHardwareConfig ::
  "int \<Rightarrow> string \<times> port_condition \<Rightarrow> log_process \<Rightarrow> log_process \<times> log_effect list" where
  "processTBCTransitionHardwareConfig now det p =
     (let t = lp_tbc p; port = fst det;
          (p1, e1) =
            (case snd det of
               ConditionNone \<Rightarrow> (p, [])
             | ConditionLocked \<Rightarrow>
                 (p\<lparr>lp_tbc := t\<lparr>tb_perPortState := AList.update port PTP_LOCKED (tb_perPortState t), tb_activePort := port,
                    tb_lastReportedState := PTP_LOCKED, tb_offsetFilter := Some (NewWindow offsetFilterSize)\<rparr>\<rparr>, [])
             | ConditionLost \<Rightarrow>
                 (let t1 = t\<lparr>tb_perPortState := AList.update port PTP_FREERUN (tb_perPortState t)\<rparr> in
                  if allPortsLost t1
                  then let t2 = t1\<lparr>tb_lastReportedState := PTP_FREERUN, tb_activePort := '''', tb_offsetFilter := None\<rparr>;
                           p2 = p\<lparr>lp_tbc := t2\<rparr>
                       in (p2\<lparr>lp_tbc := t2\<lparr>tb_lastAppliedState := PTP_HOLDOVER\<rparr>\<rparr>,
                           [ApplyHardware ''lost'', sendPtp4lStateEvent now p2])
                  else (p\<lparr>lp_tbc := t1\<rparr>, [])));
          (p2, e2) = checkOffsetFilterAndTransition now (ApplyHardware ''locked'') p1
      in (p2, e1 @ e2))"

text \<open>Without: the line is searched for texts.\<close>

definition processTBCTransitionLegacy :: "int \<Rightarrow> string \<Rightarrow> log_process \<Rightarrow> log_process \<times> log_effect list" where
  "processTBCTransitionLegacy now output p =
     (let t = lp_tbc p;
          matched = list_ex (Contains output) (tb_trIfaceNames t);
          (p1, e1) =
            (if \<not> matched then (p, [])
             else if Contains output ''to SLAVE on MASTER_CLOCK_SELECTED''
             then let port = ExtractPortName output;
                      t1 = (if port \<noteq> '''' \<and> \<not> (1 < length (tb_trIfaceNames t) \<and> port \<notin> set (tb_trIfaceNames t))
                            then t\<lparr>tb_activePort := port\<rparr> else t)
                  in (p\<lparr>lp_tbc := t1\<lparr>tb_lastReportedState := PTP_LOCKED, tb_offsetFilter := Some (NewWindow offsetFilterSize)\<rparr>\<rparr>, [])
             else if Contains output ''to MASTER on ANNOUNCE_RECEIPT_TIMEOUT_EXPIRES'' \<or> Contains output ''SLAVE to''
             then let p2 = p\<lparr>lp_tbc := t\<lparr>tb_lastReportedState := PTP_FREERUN\<rparr>\<rparr>
                  in (p2\<lparr>lp_tbc := (lp_tbc p2)\<lparr>tb_lastAppliedState := PTP_HOLDOVER, tb_offsetFilter := None\<rparr>\<rparr>,
                      [AfterRunPlugin ''tbc-ho-entry'', sendPtp4lStateEvent now p2])
             else (p, []));
          (p2, e2) = checkOffsetFilterAndTransition now (AfterRunPlugin ''tbc-ho-exit'') p1
      in (p2, e1 @ e2))"

definition tBCTransitionCheck ::
  "int \<Rightarrow> (string \<times> port_condition) option \<Rightarrow> string \<Rightarrow> log_process \<Rightarrow> log_process \<times> log_effect list" where
  "tBCTransitionCheck now det output p =
     (case det of Some d \<Rightarrow> processTBCTransitionHardwareConfig now d p | None \<Rightarrow> processTBCTransitionLegacy now output p)"

section \<open>Metrics and events of a line\<close>

fun convertParserClockStateEventPTPState :: "clock_state \<Rightarrow> ptp_state" where
  "convertParserClockStateEventPTPState ClockStateFreeRun = PTP_FREERUN"
| "convertParserClockStateEventPTPState ClockStateLocked = PTP_LOCKED"
| "convertParserClockStateEventPTPState ClockStateHoldover = PTP_HOLDOVER"
| "convertParserClockStateEventPTPState ClockStateNone = PTP_NOTSET"

definition shouldFreeRun :: "ptp_state \<Rightarrow> f64 \<Rightarrow> ptp_clock_threshold \<Rightarrow> bool" where
  "shouldFreeRun st off th \<longleftrightarrow>
     st \<noteq> PTP_HOLDOVER \<and> st \<noteq> PTP_FREERUN \<and> f64_le (f64_of_int (th_MaxOffsetThreshold th)) (f64_abs off)"

type_synonym log_ctx = "log_process \<times> offset_maps"

text \<open>The name under which an offset is published: \<open>master\<close> stands for the follower interface.\<close>

definition resolve_follower :: "string \<Rightarrow> offset_maps \<Rightarrow> log_metrics \<Rightarrow> log_metrics" where
  "resolve_follower cfg w m =
     (if mx_Iface m = ''master'' \<and> slaveIface_get cfg w \<noteq> '''' then m\<lparr>mx_Iface := slaveIface_get cfg w\<rparr> else m)"

definition metrics_state :: "log_process \<Rightarrow> log_metrics \<Rightarrow> ptp_state" where
  "metrics_state p m =
     (let st = convertParserClockStateEventPTPState (mx_ClockState m) in
      if lp_name p \<noteq> ''phc2sys'' \<and> shouldFreeRun st (mx_Offset m) (lp_threshold p) then PTP_FREERUN else st)"

text \<open>An offset of NaN is not measured: only the state is sent.\<close>

definition ts2phc_metrics_event :: "int \<Rightarrow> string \<Rightarrow> ptp_state \<Rightarrow> log_metrics \<Rightarrow> log_process \<Rightarrow> log_effect" where
  "ts2phc_metrics_event now cfg st m p =
     (let src = GetEventSource (GetPhcID2IFace (mx_Iface m) (lp_ifaces p)) (lp_ifaces p);
          d = (if mx_Offset m = NaN
               then StateData \<lparr>sd_State = st, sd_SourceLost = False, sd_ControlledPortsConfig = '''', sd_ClockID = ''''\<rparr>
               else OffsetData \<lparr>od_State = st, od_Offset = f64_to_int64 (mx_Offset m), od_SourceLost = False,
                      od_NMEALocked = (if src = GNSS then Some True else None)\<rparr>)
      in mk_event TS2PHC cfg (mx_Iface m) (lp_clockType p) now (src = GNSS) d)"

definition processParsedMetrics ::
  "alias_store \<Rightarrow> int \<Rightarrow> log_metrics \<Rightarrow> log_ctx \<Rightarrow> log_ctx \<times> log_effect list" where
  "processParsedMetrics al now m0 ctx =
     (case ctx of (p, w) \<Rightarrow>
      let cfg = lp_cfg p;
          m = resolve_follower cfg w m0;
          i0 = GetPhcID2IFace (mx_Iface m) (lp_ifaces p);
          i = (if i0 \<noteq> ''CLOCK_REALTIME'' then getAlias i0 al else i0);
          e1 = updatePTPMetrics (mx_Source m) (lp_name p) i (mx_Offset m) (mx_MaxOffset m) (mx_FreqAdj m) (mx_Delay m);
          e2 = (if mx_ClockState m \<noteq> ClockStateNone \<and> lp_clockType p \<noteq> BC \<and> lp_clockType p \<noteq> OC
                then updateClockStateMetrics (lp_name p) i (clock_state_str (mx_ClockState m)) else []);
          w1 = (if mx_Source m = ''master'' \<and> cfg \<noteq> '''' then offsetSource_set cfg (lp_name p) w else w);
          st = metrics_state p m;
          data = offset_payload st (f64_to_int64 (mx_Offset m))
      in if lp_name p = ''ptp4l'' then
           (let w2 = (if mx_Iface m \<noteq> '''' \<and> cfg \<noteq> '''' then offsetIface_set al cfg (mx_Iface m) w1 else w1);
                (p1, e3) = sendPtp4lOffsetEvent now p;
                e4 = (if (lp_clockType p = BC \<or> lp_clockType p = OC) \<and> mx_Iface m \<noteq> ''master''
                      then [mk_event PTP4l cfg (mx_Iface m) (lp_clockType p) now False data] else [])
            in ((p1, w2), e1 @ e2 @ e3 @ e4))
         else if lp_name p = ''ts2phc'' then ((p, w1), e1 @ e2 @ [ts2phc_metrics_event now cfg st m p])
         else if lp_name p = ''phc2sys'' then
           ((p, w1), e1 @ e2 @ [mk_event PHC2SYS cfg (mx_Iface m) (lp_clockType p) now False data])
         else if lp_name p = ''chronyd'' then
           ((p, w1), e1 @ e2 @ [mk_event CHRONYD cfg (mx_Iface m) (lp_clockType p) now False data])
         else ((p, w1), e1 @ e2))"

definition faultyOffset :: f64 where "faultyOffset = Fin 999999"

text \<open>The port that the clock follows lost its source.\<close>

definition follower_lost :: "alias_store \<Rightarrow> int \<Rightarrow> string \<Rightarrow> string \<Rightarrow> log_ctx \<Rightarrow> log_ctx \<times> log_effect list" where
  "follower_lost al now cfg name ctx =
     (case ctx of (p, w) \<Rightarrow>
      if isFollowerIface cfg name w \<and> offsetSource_get cfg w = ''ptp4l'' then
        (let ali = snd (offsetIface_get cfg w) in
         ((p, slaveIface_set cfg '''' (offsetIface_set al cfg '''' w)),
          updatePTPMetrics ''master'' (lp_name p) ali faultyOffset faultyOffset (Fin 0) (Fin 0) @
          updatePTPMetrics ''phc'' ''phc2sys'' ''CLOCK_REALTIME'' faultyOffset faultyOffset (Fin 0) (Fin 0) @
          (if lp_clockType p = BC \<or> lp_clockType p = OC
           then [mk_event PTP4l cfg name (lp_clockType p) now False
                   (OffsetData \<lparr>od_State = PTP_EMPTY, od_Offset = 0, od_SourceLost = True, od_NMEALocked = None\<rparr>)]
           else updateClockStateMetrics (lp_name p) ali ''FREERUN'')))
      else (ctx, []))"

text \<open>\<open>None\<close> is the panic of an index out of range.\<close>

definition processPtp4lEvent ::
  "alias_store \<Rightarrow> int \<Rightarrow> log_event \<Rightarrow> log_ctx \<Rightarrow> (log_ctx \<times> log_effect list) option" where
  "processPtp4lEvent al now e ctx =
     (case ctx of (p, w) \<Rightarrow>
      if \<not> (0 < pe_PortID e \<and> pe_PortID e - 1 \<le> int (length (lp_ifaces p))) then Some (ctx, [])
      else if length (lp_ifaces p) \<le> nat (pe_PortID e - 1) then None
      else let cfg = lp_cfg p;
               name = if_Name (lp_ifaces p ! nat (pe_PortID e - 1));
               e1 = UpdateInterfaceRoleMetrics (lp_name p) name (pe_Role e)
           in if cfg = '''' then Some (ctx, e1)
              else (case pe_Role e of
                      PortRoleSlave \<Rightarrow> Some ((p, slaveIface_set cfg name (offsetIface_set al cfg name w)), e1)
                    | PortRoleFaulty \<Rightarrow> (case follower_lost al now cfg name ctx of (c, es) \<Rightarrow> Some (c, e1 @ es))
                    | PortRoleListening \<Rightarrow> (case follower_lost al now cfg name ctx of (c, es) \<Rightarrow> Some (c, e1 @ es))
                    | _ \<Rightarrow> Some (ctx, e1)))"

definition processPhc2sysSelectedSource :: "int \<Rightarrow> log_event \<Rightarrow> log_process \<Rightarrow> log_effect list" where
  "processPhc2sysSelectedSource now e p =
     (if pe_Iface e = '''' \<or> lp_cfg p = '''' then []
      else [mk_event PHC2SYS (lp_cfg p) (pe_Iface e) (lp_clockType p) now False (SelectedSourceData (pe_Iface e))])"

text \<open>The metrics of the poll tracking are processed one after the other.\<close>

fun process_metrics_list :: "alias_store \<Rightarrow> int \<Rightarrow> log_metrics list \<Rightarrow> log_ctx \<Rightarrow> log_ctx \<times> log_effect list" where
  "process_metrics_list al now [] ctx = (ctx, [])"
| "process_metrics_list al now (m # ms) ctx =
     (case processParsedMetrics al now m ((fst ctx)\<lparr>lp_offset := mx_Offset m\<rparr>, snd ctx) of (c1, e1) \<Rightarrow>
      case process_metrics_list al now ms c1 of (c2, e2) \<Rightarrow> (c2, e1 @ e2))"

definition ts2phc_event_step :: "alias_store \<Rightarrow> int \<Rightarrow> log_event \<Rightarrow> log_ctx \<Rightarrow> log_ctx \<times> log_effect list" where
  "ts2phc_event_step al now e ctx =
     (case processTS2PhcEvent (lp_ifaces (fst ctx)) e (lp_poll (fst ctx)) of (r, s') \<Rightarrow>
      process_metrics_list al now (case r of None \<Rightarrow> [] | Some ms \<Rightarrow> ms) ((fst ctx)\<lparr>lp_poll := s'\<rparr>, snd ctx))"

definition processParsedEvent ::
  "alias_store \<Rightarrow> int \<Rightarrow> log_event \<Rightarrow> log_ctx \<Rightarrow> (log_ctx \<times> log_effect list) option" where
  "processParsedEvent al now e ctx =
     (if lp_name (fst ctx) = ''phc2sys'' then Some (ctx, processPhc2sysSelectedSource now e (fst ctx))
      else if lp_name (fst ctx) = ''ptp4l'' then processPtp4lEvent al now e ctx
      else if lp_name (fst ctx) = ''ts2phc'' then Some (ts2phc_event_step al now e ctx)
      else Some (ctx, []))"

definition getParser :: "string \<Rightarrow> (string \<Rightarrow> nat \<Rightarrow> log_result \<times> nat) option" where
  "getParser name =
     (if name = ''ptp4l'' then Some NewPTP4LExtractor
      else if name = ''phc2sys'' then Some NewPhc2SysExtractor
      else if name = ''ts2phc'' then Some NewTS2PHCExtractor
      else if name = ''chronyd'' then Some NewChronydExtractor
      else None)"

text \<open>The counter is \<open>NoSourceTSCount\<close>.\<close>

definition processWithParser ::
  "(string \<Rightarrow> nat \<Rightarrow> log_result \<times> nat) \<Rightarrow> alias_store \<Rightarrow> int \<Rightarrow> string \<Rightarrow> log_ctx \<times> nat \<Rightarrow>
     ((log_ctx \<times> nat) \<times> log_effect list) option" where
  "processWithParser ext al now output cn =
     (case cn of (ctx, n) \<Rightarrow>
      (case ext output n of
         ((_, _, Some err), n') \<Rightarrow> Some ((ctx, n'), [])
       | ((mo, eo, None), n') \<Rightarrow>
           (let c0 = ((fst ctx)\<lparr>lp_hasCollectedMetrics := True\<rparr>, snd ctx);
                (c1, e1) = (case mo of
                   None \<Rightarrow> (c0, [])
                 | Some m \<Rightarrow> processParsedMetrics al now m ((fst c0)\<lparr>lp_offset := mx_Offset m\<rparr>, snd c0))
            in (case eo of
                  None \<Rightarrow> Some ((c1, n'), e1)
                | Some e \<Rightarrow>
                    (case processParsedEvent al now e c1 of
                       None \<Rightarrow> None
                     | Some (c2, e2) \<Rightarrow> Some ((c2, n'), e1 @ e2))))))"

text \<open>\<open>getPTPThreshold\<close>; whether the profile's plugin options ask for NTP failover is read from JSON.\<close>

definition getPTPThreshold :: "bool \<Rightarrow> ptp_profile \<Rightarrow> ptp_clock_threshold" where
  "getPTPThreshold ntpFailover p =
     (case pf_PtpClockThreshold p of
        Some th \<Rightarrow> \<lparr>th_MaxOffsetThreshold = th_MaxOffsetThreshold th, th_MinOffsetThreshold = 0,
                    th_HoldOverTimeout = th_HoldOverTimeout th\<rparr>
      | None \<Rightarrow> \<lparr>th_MaxOffsetThreshold = (if ntpFailover then 1000 else 100), th_MinOffsetThreshold = 0, th_HoldOverTimeout = 5\<rparr>)"

section \<open>Command lines\<close>

definition addScheduling :: "ptp_profile \<Rightarrow> string \<Rightarrow> string" where
  "addScheduling profile cmdLine =
     (if pf_PtpSchedulingPolicy profile = Some ''SCHED_FIFO''
      then (case pf_PtpSchedulingPriority profile of
              None \<Rightarrow> cmdLine
            | Some pr \<Rightarrow> if pr < 1 \<or> 65 < pr then cmdLine else ''/bin/chrt -f '' @ show_int pr @ '' '' @ cmdLine)
      else cmdLine)"

definition buildPtpCmdLine :: "string \<Rightarrow> string \<Rightarrow> string option \<Rightarrow> ptp_profile \<Rightarrow> string" where
  "buildPtpCmdLine name configPath opts profile =
     addScheduling profile (''/usr/sbin/'' @ name @ '' -f '' @ configPath @ '' '' @ (case opts of None \<Rightarrow> '''' | Some s \<Rightarrow> s))"

definition profileClockType :: "ptp_profile \<Rightarrow> string" where
  "profileClockType p = (case setting ''clockType'' p of None \<Rightarrow> '''' | Some v \<Rightarrow> v)"

definition optsFor :: "string \<Rightarrow> ptp_profile \<Rightarrow> string option" where
  "optsFor name profile =
     (if name = ''ptp4l'' then (case pf_Ptp4lOpts profile of None \<Rightarrow> Some '' '' | Some s \<Rightarrow> Some s)
      else if name = ''phc2sys'' then pf_Phc2sysOpts profile
      else if name = ''ts2phc'' then pf_Ts2PhcOpts profile
      else if name = ''synce4l'' then pf_Synce4lOpts profile
      else if name = ''chronyd'' then pf_ChronydOpts profile
      else None)"

definition confFor :: "string \<Rightarrow> ptp_profile \<Rightarrow> string option" where
  "confFor name profile =
     (if name = ''ptp4l'' then pf_Ptp4lConf profile
      else if name = ''phc2sys'' then pf_Phc2sysConf profile
      else if name = ''ts2phc'' then pf_Ts2PhcConf profile
      else if name = ''synce4l'' then pf_Synce4lConf profile
      else if name = ''chronyd'' then pf_ChronydConf profile
      else None)"

definition updateGMStatusOnProcessDown :: "string \<Rightarrow> log_process \<Rightarrow> log_effect list" where
  "updateGMStatusOnProcessDown name p =
     (if name = ''ts2phc''
      then [OfferEvent \<lparr>ev_Source = TS2PHC, ev_IFace = '''', ev_CfgName = lp_configName p, ev_ClockType = ClockUnset, ev_Time = 0,
              ev_WriteToLog = False, ev_Reset = True, ev_Data = None\<rparr>]
      else [])"

section \<open>Replacing in a line\<close>

text \<open>\<open>strings.NewReplacer\<close>: at each place the first of the old texts that fits; none of them is empty.\<close>

function str_replacer :: "(string \<times> string) list \<Rightarrow> string \<Rightarrow> string" where
  "str_replacer ps s =
     (if s = [] then []
      else (case find (\<lambda>(old, new). old \<noteq> [] \<and> has_prefix s old) ps of
              None \<Rightarrow> hd s # str_replacer ps (tl s)
            | Some (old, new) \<Rightarrow> new @ str_replacer ps (drop (max 1 (length old)) s)))"
  by pat_completeness auto
termination by (relation "measure (\<lambda>(_, s). length s)") auto

declare str_replacer.simps [simp del]

text \<open>\<open>ReplaceAllString\<close> for an expression that matches no empty text.\<close>

function replace_rx :: "rx \<Rightarrow> (captures \<Rightarrow> string) \<Rightarrow> string \<Rightarrow> string" where
  "replace_rx r f s =
     (if s = [] then []
      else (case match_here r s of
              None \<Rightarrow> hd s # replace_rx r f (tl s)
            | Some (m, w) \<Rightarrow> f m @ replace_rx r f (drop (max 1 (length w)) s)))"
  by pat_completeness auto
termination by (relation "measure (\<lambda>(_, _, s). length s)") auto

declare replace_rx.simps [simp del]

definition ch_alnum :: "char \<Rightarrow> bool" where
  "ch_alnum c \<longleftrightarrow> ch_lower c \<or> ch_upper c \<or> ch_digit c"

definition messageTagSuffixRegEx :: rx where
  "messageTagSuffixRegEx =
     rseq [RCap 1 (rseq [RPlus ch_alnum, RLit ''.'', RPlus ch_alnum, RLit ''.config'']), RLit '':'', RPlus ch_alnum,
       ROpt (RCap 2 (rseq [RLit '':'', RPlus ch_alnum]))]"

definition removeMessageSuffix :: "string \<Rightarrow> string" where
  "removeMessageSuffix input =
     replace_rx messageTagSuffixRegEx (\<lambda>m. capture m 1) (str_replacer [(''{'', ''''), (''}'', '''')] input)"

definition clockIDRegEx :: rx where
  "clockIDRegEx = rseq [RLit ''/dev/ptp'', RPlus ch_digit]"

text \<open>
  \<open>replaceClockID\<close>: the name of the device's interface replaces the device. \<open>discover\<close> is the interface
  found on the host for a device; it is remembered.
\<close>

definition remember_phc :: "string \<Rightarrow> string \<Rightarrow> iface list \<Rightarrow> iface list" where
  "remember_phc dev phc is =
     upsert (\<lambda>i. if_Name i = dev) (zero_iface\<lparr>if_Name := dev\<rparr>) (\<lambda>i. i\<lparr>if_PhcId := phc\<rparr>) is"

definition replaceClockID :: "(string \<Rightarrow> string option) \<Rightarrow> string \<Rightarrow> log_process \<Rightarrow> string \<times> log_process" where
  "replaceClockID discover input p =
     (if lp_name p \<noteq> ''ts2phc'' \<or> \<not> Contains input ''offset'' then (input, p)
      else (case match_leftmost clockIDRegEx input of
              None \<Rightarrow> (input, p)
            | Some (_, dev) \<Rightarrow>
                (let i0 = GetPhcID2IFace dev (lp_ifaces p);
                     found = (if i0 = dev \<or> i0 = '''' then discover dev else None);
                     i = (case found of None \<Rightarrow> i0 | Some n \<Rightarrow> n);
                     p1 = (case found of None \<Rightarrow> p | Some n \<Rightarrow> p\<lparr>lp_ifaces := remember_phc n dev (lp_ifaces p)\<rparr>)
                 in if i = '''' \<or> has_prefix i ''/dev/ptp'' then (input, p1)
                    else (replace_rx clockIDRegEx (\<lambda>_. i) input, p1))))"

section \<open>Metrics without a parser\<close>

definition replace_brackets :: "string \<Rightarrow> string" where
  "replace_brackets = str_replacer [(''['', '' ''), ('']'', '' ''), ('':'', '' '')]"

text \<open>Interface, offset, maximum, frequency and delay; \<open>None\<close> is an index out of range.\<close>

type_synonym summary_values = "string \<times> f64 \<times> f64 \<times> f64 \<times> f64"

definition no_summary :: summary_values where
  "no_summary = ('''', Fin 0, Fin 0, Fin 0, Fin 0)"

definition extractSummaryMetrics :: "string \<Rightarrow> string \<Rightarrow> offset_maps \<Rightarrow> summary_values option" where
  "extractSummaryMetrics cfg output w =
     (if \<not> Contains output ''rms'' then Some no_summary
      else (let out = replace_brackets output in
            case str_index out cfg of
              None \<Rightarrow> Some no_summary
            | Some i \<Rightarrow>
                (let fs = Fields (drop i out) in
                 if length fs < 8 then Some no_summary
                 else if fs ! 1 \<noteq> ''rms'' \<and> fs ! 1 \<noteq> ''CLOCK_REALTIME'' then Some no_summary
                 else let gs = (if fs ! 1 = ''rms'' then hd fs # snd (offsetIface_get cfg w) # tl fs else fs);
                          num = (\<lambda>k. fst (ParseFloat (gs ! k)))
                      in if length gs < 11 then Some (gs ! 1, num 3, num 5, num 7, Fin 0)
                         else if length gs < 12 then None
                         else Some (gs ! 1, num 3, num 5, num 7, num 11))))"

record regular_values =
  rv_err :: bool
  rv_iface :: string
  rv_state :: string
  rv_offset :: f64
  rv_max :: f64
  rv_freq :: f64
  rv_delay :: f64

definition no_regular :: regular_values where
  "no_regular = \<lparr>rv_err = False, rv_iface = '''', rv_state = '''', rv_offset = Fin 0, rv_max = Fin 0, rv_freq = Fin 0, rv_delay = Fin 0\<rparr>"

definition servo_state_name :: "string \<Rightarrow> string" where
  "servo_state_name s = (if s = ''s2'' \<or> s = ''s3'' then ''LOCKED'' else ''FREERUN'')"

text \<open>Fields 1 and 3 to 8, once field 2 is the word offset.\<close>

definition read_regular_fields :: "string \<Rightarrow> string \<Rightarrow> string \<Rightarrow> string list \<Rightarrow> offset_maps \<Rightarrow> regular_values" where
  "read_regular_fields proc cfg out fs w =
     (let i = fs ! 1; r0 = no_regular\<lparr>rv_iface := i\<rparr> in
      if i \<noteq> ''CLOCK_REALTIME'' \<and> i \<noteq> ''master'' then r0
      else let r1 = r0\<lparr>rv_iface := (if i = ''master'' then snd (offsetIface_get cfg w) else i),
                       rv_offset := fst (ParseFloat (fs ! 3))\<rparr>
           in if snd (ParseFloat (fs ! 3)) \<noteq> None then r1\<lparr>rv_err := True\<rparr>
              else let r2 = r1\<lparr>rv_max := fst (ParseFloat (fs ! 3)),
                               rv_state := (if proc = ''ts2phc'' \<and> Contains out ''holdover'' then ''HOLDOVER''
                                            else servo_state_name (fs ! 4)),
                               rv_freq := fst (ParseFloat (fs ! 6))\<rparr>
                   in if snd (ParseFloat (fs ! 6)) \<noteq> None then r2\<lparr>rv_err := True\<rparr>
                      else if proc = ''ts2phc'' \<or> length fs \<le> 8 then r2
                      else r2\<lparr>rv_delay := fst (ParseFloat (fs ! 8)), rv_err := (snd (ParseFloat (fs ! 8)) \<noteq> None)\<rparr>)"

definition extractRegularMetrics ::
  "alias_store \<Rightarrow> string \<Rightarrow> string \<Rightarrow> string \<Rightarrow> iface list \<Rightarrow> offset_maps \<Rightarrow> regular_values \<times> offset_maps" where
  "extractRegularMetrics al cfg proc output ifaces w =
     (if \<not> Contains output ''offset'' then (no_regular, w)
      else (let out = str_replacer [(''['', '' ''), ('']'', '' ''), ('':'', '' ''), ('' phc '', '' ''), ('' sys '', '' '')]
                        (replace_first output ''path'' '''')
            in case str_index out cfg of
                 None \<Rightarrow> (no_regular, w)
               | Some i \<Rightarrow>
                   (let rest = drop i out; fs = Fields rest in
                    if length fs < 7 then (no_regular, w)
                    else let unnamed = proc = ''ts2phc'' \<and> (fs ! 2 = ''offset'' \<or> fs ! 3 = ''offset'');
                             n = GetPhcID2IFace (fs ! 1) ifaces;
                             w1 = (if unnamed then slaveIface_set cfg n (offsetIface_set al cfg n w) else w);
                             gs = (if \<not> unnamed then fs
                                   else if fs ! 2 = ''offset'' then fs[1 := ''master'']
                                   else hd fs # drop 2 fs)
                         in if length gs < 7 \<or> gs ! 2 \<noteq> ''offset'' then (no_regular\<lparr>rv_err := True\<rparr>, w1)
                            else (read_regular_fields proc cfg rest gs w1, w1))))"

text \<open>A line about a port: its number and its role.\<close>

definition extractPTP4lEventState :: "string \<Rightarrow> int \<times> port_role" where
  "extractPTP4lEventState output0 =
     (let out = replace_brackets output0 in
      case str_index out '' port '' of
        None \<Rightarrow> (0, PortRolePassive)
      | Some i \<Rightarrow>
          (let output = drop i out; fs = Fields output; has = Contains output in
           if length fs < 2 then (0, PortRolePassive)
           else (case Atoi (fs ! 1) of
                   (_, Some e) \<Rightarrow> (0, PortRoleUnknown)
                 | (n, None) \<Rightarrow>
                     if has ''UNCALIBRATED to SLAVE'' then (n, PortRoleSlave)
                     else if has ''UNCALIBRATED to PASSIVE'' \<or> has ''MASTER to PASSIVE'' \<or> has ''SLAVE to PASSIVE'' then (n, PortRolePassive)
                     else if has ''UNCALIBRATED to MASTER'' \<or> has ''LISTENING to MASTER'' then (n, PortRoleMaster)
                     else if has ''FAULT_DETECTED'' \<or> has ''SYNCHRONIZATION_FAULT'' then (n, PortRoleFaulty)
                     else if has ''UNCALIBRATED to LISTENING'' \<or> has ''SLAVE to LISTENING'' \<or> has ''INITIALIZING to LISTENING''
                       then (n, PortRoleListening)
                     else (0, PortRoleUnknown))))"

section \<open>Lines of a program without a parser\<close>

record extracted =
  ex_configName :: string
  ex_source :: string
  ex_offset :: f64
  ex_state :: string
  ex_iface :: string

text \<open>The summary and the offset lines.\<close>

definition extract_values ::
  "alias_store \<Rightarrow> string \<Rightarrow> string \<Rightarrow> iface list \<Rightarrow> string \<Rightarrow> offset_maps \<Rightarrow> (extracted \<times> offset_maps \<times> log_effect list) option" where
  "extract_values al cfg proc ifaces output w =
     (let none = \<lparr>ex_configName = cfg, ex_source = '''', ex_offset = Fin 0, ex_state = '''', ex_iface = ''''\<rparr> in
      if Contains output '' max '' then
        (case extractSummaryMetrics cfg output w of
           None \<Rightarrow> None
         | Some (i, off, mx, freq, delay) \<Rightarrow>
             if i = '''' then Some (none, w, [])
             else if i = ''CLOCK_REALTIME'' then Some (none, w, updatePTPMetrics ''phc'' proc i off mx freq delay)
             else Some (none, offsetSource_set cfg proc w, updatePTPMetrics ''master'' proc i off mx freq delay))
      else if Contains output '' offset '' then
        (case extractRegularMetrics al cfg proc output ifaces w of (r, w1) \<Rightarrow>
           (let src = (if Contains output ''sys offset'' then ''sys'' else if Contains output ''phc offset'' then ''phc'' else ''master'');
                ok = \<not> rv_err r \<and> rv_iface r \<noteq> '''';
                w2 = (if ok \<and> src = ''master'' then offsetSource_set cfg proc w1 else w1)
            in Some (none\<lparr>ex_source := proc, ex_offset := rv_offset r, ex_state := rv_state r, ex_iface := rv_iface r\<rparr>, w2,
                 if ok then updatePTPMetrics src proc (rv_iface r) (rv_offset r) (rv_max r) (rv_freq r) (rv_delay r) @
                            updateClockStateMetrics proc (rv_iface r) (rv_state r)
                 else [])))
      else Some (none, w, []))"

definition extractMetrics ::
  "alias_store \<Rightarrow> string \<Rightarrow> string \<Rightarrow> iface list \<Rightarrow> string \<Rightarrow> offset_maps \<Rightarrow> (extracted \<times> offset_maps \<times> log_effect list) option" where
  "extractMetrics al messageTag proc ifaces output0 w =
     (let cfg = configNameFromMessageTag messageTag; output = removeMessageSuffix output0 in
      case extract_values al cfg proc ifaces output w of
        None \<Rightarrow> None
      | Some (x, w1, e1) \<Rightarrow>
          (case extractPTP4lEventState output of (n, role) \<Rightarrow>
             if proc \<noteq> ''ptp4l'' \<or> n \<le> 0 \<or> int (length ifaces) < n - 1 then Some (x, w1, e1)
             else if length ifaces \<le> nat (n - 1) then None
             else let name = if_Name (ifaces ! nat (n - 1)); e2 = UpdateInterfaceRoleMetrics proc name role in
                  if role = PortRoleSlave
                  then Some (x, slaveIface_set cfg name (offsetIface_set al cfg name w1), e1 @ e2)
                  else if role = PortRoleFaulty \<and> isFollowerIface cfg name w1 \<and> offsetSource_get cfg w1 = ''ptp4l''
                  then (let ali = snd (offsetIface_get cfg w1) in
                        Some (x\<lparr>ex_state := ''HOLDOVER''\<rparr>, slaveIface_set cfg '''' (offsetIface_set al cfg '''' w1),
                          e1 @ e2 @ updatePTPMetrics ''master'' proc ali faultyOffset faultyOffset (Fin 0) (Fin 0) @
                          updatePTPMetrics ''phc'' ''phc2sys'' ''CLOCK_REALTIME'' faultyOffset faultyOffset (Fin 0) (Fin 0) @
                          updateClockStateMetrics proc ali ''FREERUN''))
                  else Some (x, w1, e1 @ e2)))"

definition processTs2PhcEvents ::
  "alias_store \<Rightarrow> int \<Rightarrow> f64 \<Rightarrow> string \<Rightarrow> string \<Rightarrow> ptp_state \<Rightarrow> bool option \<Rightarrow> log_process \<Rightarrow> log_effect list" where
  "processTs2PhcEvents al now off src i st nmea p =
     (let ptpState = (if shouldFreeRun st off (lp_threshold p) then PTP_FREERUN else st) in
      if src = ''ts2phc'' then
        [mk_event TS2PHC (lp_configName p) i (lp_clockType p) now (nmea \<noteq> None)
           (OffsetData \<lparr>od_State = ptpState, od_Offset = f64_to_int64 off, od_SourceLost = False, od_NMEALocked = nmea\<rparr>)]
      else let n = (if i \<noteq> '''' \<and> i \<noteq> ''CLOCK_REALTIME'' then getAlias i al else i) in
           (case ptpState of
              PTP_LOCKED \<Rightarrow> updateClockStateMetrics (lp_name p) n ''LOCKED''
            | PTP_FREERUN \<Rightarrow> updateClockStateMetrics (lp_name p) n ''FREERUN''
            | PTP_HOLDOVER \<Rightarrow> updateClockStateMetrics (lp_name p) n ''HOLDOVER''
            | _ \<Rightarrow> []))"

text \<open>The last branch of \<open>processPTPMetrics\<close>.\<close>

definition process_extracted ::
  "alias_store \<Rightarrow> int \<Rightarrow> string \<Rightarrow> log_ctx \<Rightarrow> (log_ctx \<times> log_effect list) option" where
  "process_extracted al now output ctx =
     (case extractMetrics al (lp_messageTag (fst ctx)) (lp_name (fst ctx)) (lp_ifaces (fst ctx)) output (snd ctx) of
        None \<Rightarrow> None
      | Some (x, w1, e1) \<Rightarrow>
          (let p = (fst ctx)\<lparr>lp_hasCollectedMetrics := True, lp_offset := ex_offset x\<rparr> in
           if ex_iface x = '''' then Some ((p, w1), e1)
           else let name = fst (offsetIface_getByAlias (ex_configName x) (ex_iface x) w1);
                    nmea = (if ex_iface x \<noteq> ''CLOCK_REALTIME'' \<and> lp_name p = ''ts2phc'' \<and> GetEventSource name (lp_ifaces p) = GNSS
                            then Some True else None);
                    st = (if ex_state x = ''LOCKED'' then PTP_LOCKED else if ex_state x = ''HOLDOVER'' then PTP_HOLDOVER
                          else PTP_FREERUN)
                in Some ((p, w1), e1 @ processTs2PhcEvents al now (ex_offset x) (ex_source x) name st nmea p)))"

text \<open>
  \<open>processPTPMetrics\<close>. The lines of synce4l go to the events of the SyncE theory; \<open>synce\<close> is their
  effect.
\<close>

definition processPTPMetrics ::
  "alias_store \<Rightarrow> int \<Rightarrow> (string \<Rightarrow> log_effect list) \<Rightarrow> string \<Rightarrow> log_ctx \<times> nat \<Rightarrow> ((log_ctx \<times> nat) \<times> log_effect list) option" where
  "processPTPMetrics al now synce output cn =
     (case cn of (ctx, n) \<Rightarrow>
      (case getParser (lp_name (fst ctx)) of
         Some ext \<Rightarrow> processWithParser ext al now output cn
       | None \<Rightarrow>
           if lp_name (fst ctx) = ''synce4l''
           then Some (cn, if replace_first (replace_first (lp_messageTag (fst ctx)) '']'' '''') ''['' '''' = '''' then [] else synce output)
           else (case process_extracted al now output ctx of
                   None \<Rightarrow> None
                 | Some (c1, es) \<Rightarrow> Some ((c1, n), es))))"

text \<open>
  \<open>processOutput\<close>: \<open>plug\<close> is what the plugins make of a line, \<open>detect\<close> the state detector when there is
  a hardware configuration. The filtered line goes to the output only.
\<close>

definition processOutput ::
  "alias_store \<Rightarrow> int \<Rightarrow> (string \<Rightarrow> log_effect list) \<Rightarrow> (string \<Rightarrow> string) \<Rightarrow> (string \<Rightarrow> string option) \<Rightarrow>
     (string \<Rightarrow> (string \<times> port_condition) option) \<Rightarrow> nat \<Rightarrow> string \<Rightarrow> log_ctx \<times> nat \<Rightarrow>
     (string \<times> (log_ctx \<times> nat) \<times> log_effect list) option" where
  "processOutput al now synce plug discover detect pid line cn =
     (case cn of ((p, w), n) \<Rightarrow>
      let l0 = (if lp_name p = ''chronyd''
                then ''chronyd['' @ show_nat pid @ '']'' @ lp_messageTag p @ '': '' @ line else line);
          (l, p1) = replaceClockID discover (plug l0) p
      in (case processPTPMetrics al now synce l ((p1, w), n) of
            None \<Rightarrow> None
          | Some (((p2, w2), n2), e1) \<Rightarrow>
              if lp_name p = ''ptp4l'' \<and> profileClockType (lp_profile p) = ''T-BC''
              then (case tBCTransitionCheck now (detect l) l p2 of (p3, e2) \<Rightarrow> Some (l, ((p3, w2), n2), e1 @ e2))
              else Some (l, ((p2, w2), n2), e1)))"

section \<open>Facts\<close>

text \<open>What is reported LOCKED is below the threshold.\<close>

lemma f64_not_le: "f64_le a b \<Longrightarrow> \<not> f64_lt b a"
  by (rule f64_not_le_lt)

lemma locked_is_below_threshold:
  assumes "processParsedMetrics al now m (p, w) = (c, es)" "lp_name p \<noteq> ''phc2sys''" "tb_offsetEventWindow (lp_tbc p) = None"
    and "OfferEvent e \<in> set es" "ev_Data e = Some (OffsetData d)" "od_State d = PTP_LOCKED"
  shows "\<not> f64_le (f64_of_int (th_MaxOffsetThreshold (lp_threshold p))) (f64_abs (mx_Offset m)) \<and>
    mx_ClockState m = ClockStateLocked"
proof -
  have m: "mx_Offset (resolve_follower cfg w m) = mx_Offset m" "mx_ClockState (resolve_follower cfg w m) = mx_ClockState m" for cfg
    by (simp_all add: resolve_follower_def)
  have u: "OfferEvent e \<notin> set (updatePTPMetrics a b i x y z t)" "OfferEvent e \<notin> set (updateClockStateMetrics b i st)" for a b i x y z t st
    by (simp_all add: updatePTPMetrics_def updateClockStateMetrics_def)
  have st: "metrics_state p (resolve_follower (lp_cfg p) w m) = PTP_LOCKED"
    using assms(1,4-6) assms(3)
    by (auto simp: processParsedMetrics_def Let_def u sendPtp4lOffsetEvent_def mk_event_def offset_payload_def ts2phc_metrics_event_def
        split: if_splits prod.splits)
  then have "convertParserClockStateEventPTPState (mx_ClockState m) = PTP_LOCKED"
    "\<not> shouldFreeRun PTP_LOCKED (mx_Offset m) (lp_threshold p)"
    using assms(2) by (auto simp: metrics_state_def Let_def m split: if_splits)
  then show ?thesis by (cases "mx_ClockState m") (auto simp: shouldFreeRun_def)
qed

text \<open>A port event beyond the configured interfaces: the guard lets one too many through.\<close>

lemma port_event_panics_iff:
  "processPtp4lEvent al now e (p, w) = None \<longleftrightarrow> 0 < pe_PortID e \<and> pe_PortID e = int (length (lp_ifaces p)) + 1"
  by (auto simp: processPtp4lEvent_def Let_def split: port_role.splits prod.splits)

definition is_loss :: "log_effect \<Rightarrow> bool" where
  "is_loss ef \<longleftrightarrow> (\<exists>e d. ef = OfferEvent e \<and> ev_Data e = Some (OffsetData d) \<and> od_SourceLost d)"

fun port_events_run :: "alias_store \<Rightarrow> int \<Rightarrow> log_event list \<Rightarrow> log_ctx \<Rightarrow> (log_ctx \<times> log_effect list) option" where
  "port_events_run al now [] c = Some (c, [])"
| "port_events_run al now (e # es) c =
     (case processPtp4lEvent al now e c of
        None \<Rightarrow> None
      | Some (c1, f1) \<Rightarrow> (case port_events_run al now es c1 of None \<Rightarrow> None | Some (c2, f2) \<Rightarrow> Some (c2, f1 @ f2)))"

text \<open>A line that hits the follower.\<close>

definition hits_follower :: "log_event \<Rightarrow> log_process \<Rightarrow> offset_maps \<Rightarrow> bool" where
  "hits_follower e p w \<longleftrightarrow>
     pe_Role e \<in> {PortRoleFaulty, PortRoleListening} \<and> 0 < pe_PortID e \<and> pe_PortID e \<le> int (length (lp_ifaces p)) \<and>
     lp_cfg p \<noteq> '''' \<and> om_slaveIface w (lp_cfg p) = Some (if_Name (lp_ifaces p ! nat (pe_PortID e - 1))) \<and>
     offsetSource_get (lp_cfg p) w = ''ptp4l''"

lemma no_loss [simp]:
  "filter is_loss (updatePTPMetrics a b i x y z t) = []" "filter is_loss (updateClockStateMetrics b i st) = []"
  "filter is_loss (UpdateInterfaceRoleMetrics b i r) = []"
  by (simp_all add: updatePTPMetrics_def updateClockStateMetrics_def UpdateInterfaceRoleMetrics_def is_loss_def)

lemma loss_event [simp]:
  "is_loss (mk_event s c n ct now wl (OffsetData \<lparr>od_State = st, od_Offset = x, od_SourceLost = True, od_NMEALocked = q\<rparr>))"
  by (simp add: is_loss_def mk_event_def)

lemma follower_lost_loss:
  "follower_lost al now cfg n (p, w) = ((p', w'), fs) \<Longrightarrow>
     p' = p \<and>
     (if isFollowerIface cfg n w \<and> offsetSource_get cfg w = ''ptp4l''
      then om_slaveIface w' cfg = Some '''' \<and> length (filter is_loss fs) = (if lp_clockType p \<in> {BC, OC} then 1 else 0)
      else w' = w \<and> filter is_loss fs = [])"
  by (auto simp: follower_lost_def Let_def slaveIface_set_def split: if_splits)

lemma port_event_loss:
  assumes "processPtp4lEvent al now e (p, w) = Some ((p', w'), fs)" "pe_Role e \<noteq> PortRoleSlave"
  shows "p' = p \<and>
    (if hits_follower e p w
     then om_slaveIface w' (lp_cfg p) = Some '''' \<and> length (filter is_loss fs) = (if lp_clockType p \<in> {BC, OC} then 1 else 0)
     else w' = w \<and> filter is_loss fs = [])"
proof (cases "0 < pe_PortID e \<and> pe_PortID e - 1 \<le> int (length (lp_ifaces p)) \<and> lp_cfg p \<noteq> ''''")
  case False
  then have "\<not> hits_follower e p w" by (auto simp: hits_follower_def)
  then show ?thesis using False assms(1) by (auto simp: processPtp4lEvent_def Let_def split: if_splits)
next
  case True
  let ?n = "if_Name (lp_ifaces p ! nat (pe_PortID e - 1))"
  from True assms(1) have len: "\<not> length (lp_ifaces p) \<le> nat (pe_PortID e - 1)" by (auto simp: processPtp4lEvent_def)
  show ?thesis
  proof (cases "pe_Role e = PortRoleFaulty \<or> pe_Role e = PortRoleListening")
    case role: True
    obtain q v gs where f: "follower_lost al now (lp_cfg p) ?n (p, w) = ((q, v), gs)" by (metis prod.exhaust)
    with True len assms(1) role have r: "p' = q" "w' = v" "fs = UpdateInterfaceRoleMetrics (lp_name p) ?n (pe_Role e) @ gs"
      by (auto simp: processPtp4lEvent_def Let_def)
    have "hits_follower e p w \<longleftrightarrow> isFollowerIface (lp_cfg p) ?n w \<and> offsetSource_get (lp_cfg p) w = ''ptp4l''"
      using True len role by (auto simp: hits_follower_def isFollowerIface_def)
    with follower_lost_loss [OF f] show ?thesis by (simp add: r)
  next
    case False
    then have "\<not> hits_follower e p w" by (auto simp: hits_follower_def)
    then show ?thesis using False True len assms by (auto simp: processPtp4lEvent_def Let_def split: port_role.splits)
  qed
qed

text \<open>
  C7. As long as no port becomes SLAVE, the loss of the source is announced exactly once, by the first
  line that reports the followed port faulty or listening, and only for a boundary or ordinary clock.
\<close>

theorem source_loss_announced_once:
  assumes "port_events_run al now es (p, w) = Some (c, fs)" "\<forall>e \<in> set es. pe_Role e \<noteq> PortRoleSlave"
    and "\<forall>i \<in> set (lp_ifaces p). if_Name i \<noteq> ''''"
  shows "length (filter is_loss fs) = (if (\<exists>e \<in> set es. hits_follower e p w) \<and> lp_clockType p \<in> {BC, OC} then 1 else 0)"
  using assms(1,2)
proof (induction es arbitrary: w fs)
  case Nil
  then show ?case by simp
next
  case (Cons e es)
  from Cons.prems(1) obtain p1 w1 f1 f2 where
    s: "processPtp4lEvent al now e (p, w) = Some ((p1, w1), f1)" "port_events_run al now es (p1, w1) = Some (c, f2)" "fs = f1 @ f2"
    by (auto split: option.splits)
  from port_event_loss [OF s(1)] Cons.prems(2) have p1: "p1 = p" and l: "if hits_follower e p w
     then om_slaveIface w1 (lp_cfg p) = Some '''' \<and> length (filter is_loss f1) = (if lp_clockType p \<in> {BC, OC} then 1 else 0)
     else w1 = w \<and> filter is_loss f1 = []" by simp_all
  have IH: "length (filter is_loss f2) = (if (\<exists>e \<in> set es. hits_follower e p w1) \<and> lp_clockType p \<in> {BC, OC} then 1 else 0)"
    using Cons.IH [of w1 f2] s(2) Cons.prems(2) unfolding p1 by simp
  show ?case
  proof (cases "hits_follower e p w")
    case True
    with l have w1: "om_slaveIface w1 (lp_cfg p) = Some ''''" by simp
    have "\<not> hits_follower e' p w1" for e'
    proof
      assume h: "hits_follower e' p w1"
      then have "nat (pe_PortID e' - 1) < length (lp_ifaces p)" by (auto simp: hits_follower_def)
      then have "if_Name (lp_ifaces p ! nat (pe_PortID e' - 1)) \<noteq> ''''" using assms(3) by simp
      with h w1 show False by (simp add: hits_follower_def)
    qed
    with IH l True show ?thesis by (simp add: s(3))
  next
    case False
    with IH l show ?thesis by (simp add: s(3))
  qed
qed

definition example_process :: log_process where
  "example_process =
     \<lparr>lp_name = ''ptp4l'', lp_messageTag = ''[ptp4l.0.config:5]'', lp_configName = ''ptp4l.0.config'',
      lp_ifaces = [example_iface ''ens5f0'' ''/dev/ptp0''], lp_profile = empty_profile, lp_clockType = OC,
      lp_threshold = \<lparr>th_MaxOffsetThreshold = 100, th_MinOffsetThreshold = 0, th_HoldOverTimeout = 5\<rparr>, lp_offset = Fin 0,
      lp_poll = resetPollCycle [],
      lp_tbc = \<lparr>tb_ttPortsConfigFile = '''', tb_trPortsConfigFile = '''', tb_trIfaceNames = [], tb_perPortState = [], tb_activePort = '''',
        tb_lastReportedState = PTP_EMPTY, tb_lastAppliedState = PTP_EMPTY, tb_offsetFilter = None, tb_offsetThreshold = Fin 0,
        tb_offsetEventWindow = None, tb_lastOffsetEventSec = 0\<rparr>,
      lp_hasCollectedMetrics = False\<rparr>"

definition fault_line :: log_event where
  "fault_line = zero_log_event\<lparr>pe_PortID := 1, pe_Role := PortRoleFaulty\<rparr>"

lemma example_cfg: "lp_cfg example_process = ''ptp4l.0.config''"
  by code_simp

theorem source_loss_announced_once_witness:
  "\<exists>c fs. port_events_run as_empty 7 [fault_line, fault_line]
      (example_process, slaveIface_set ''ptp4l.0.config'' ''ens5f0'' InitializeOffsetMaps) = Some (c, fs) \<and> length (filter is_loss fs) = 1"
proof -
  let ?w = "slaveIface_set ''ptp4l.0.config'' ''ens5f0'' InitializeOffsetMaps"
  have "processPtp4lEvent as_empty 7 e (example_process, w) = None \<longleftrightarrow> pe_PortID e = 2" for e w
    unfolding port_event_panics_iff by (auto simp: example_process_def)
  then have ok: "processPtp4lEvent as_empty 7 fault_line (example_process, w) \<noteq> None" for w
    by (auto simp: fault_line_def zero_log_event_def)
  have role: "pe_Role fault_line = PortRoleFaulty" by (simp add: fault_line_def)
  obtain p1 w1 f1 where 1: "processPtp4lEvent as_empty 7 fault_line (example_process, ?w) = Some ((p1, w1), f1)"
    using ok [of ?w] by auto
  have p1: "p1 = example_process" using port_event_loss [OF 1] role by simp
  obtain c2 f2 where 2: "processPtp4lEvent as_empty 7 fault_line (p1, w1) = Some (c2, f2)" using ok [of w1] unfolding p1 by auto
  have run: "port_events_run as_empty 7 [fault_line, fault_line] (example_process, ?w) = Some (c2, f1 @ f2)" using 1 2 by simp
  have hit: "hits_follower fault_line example_process ?w"
    unfolding hits_follower_def example_cfg
    by (simp add: fault_line_def zero_log_event_def example_process_def example_iface_def slaveIface_set_def InitializeOffsetMaps_def
        offsetSource_get_def)
  have "\<forall>i \<in> set (lp_ifaces example_process). if_Name i \<noteq> ''''" "lp_clockType example_process = OC"
    by (simp_all add: example_process_def example_iface_def)
  with source_loss_announced_once [OF run] role hit show ?thesis unfolding run by simp
qed

section \<open>The telecom boundary clock leaves holdover\<close>

text \<open>Lines of ptp4l, each with the offset it reports and what the detector finds in it.\<close>

fun tbc_run :: "int \<Rightarrow> (f64 \<times> string \<times> port_condition) list \<Rightarrow> log_process \<Rightarrow> log_process \<times> log_effect list" where
  "tbc_run now [] p = (p, [])"
| "tbc_run now ((off, det) # ds) p =
     (case processTBCTransitionHardwareConfig now det (p\<lparr>lp_offset := off\<rparr>) of (p1, e1) \<Rightarrow>
      case tbc_run now ds p1 of (p2, e2) \<Rightarrow> (p2, e1 @ e2))"

text \<open>A process whose filter has taken the samples \<open>vs\<close> since its port was locked.\<close>

definition filtering :: "f64 list \<Rightarrow> log_process \<Rightarrow> bool" where
  "filtering vs p \<longleftrightarrow>
     lp_configName p = tb_trPortsConfigFile (lp_tbc p) \<and> tb_lastReportedState (lp_tbc p) = PTP_LOCKED \<and>
     tb_offsetFilter (lp_tbc p) = Some (fold w_Insert vs (NewWindow offsetFilterSize))"

lemma filter_full: "w_IsFull (fold w_Insert vs (NewWindow offsetFilterSize)) \<longleftrightarrow> offsetFilterSize \<le> length vs"
proof -
  have "NewWindow offsetFilterSize = NewWindow (Suc 63)" by simp
  then show ?thesis using w_fill_state [of vs 63] by (simp only:) simp
qed

lemma filtering_step:
  assumes "filtering vs p"
  shows "checkOffsetFilterAndTransition now act (p\<lparr>lp_offset := off\<rparr>) =
    (let ws = vs @ [f64_abs off];
         p1 = p\<lparr>lp_offset := off, lp_tbc := (lp_tbc p)\<lparr>tb_offsetFilter := Some (fold w_Insert ws (NewWindow offsetFilterSize))\<rparr>\<rparr>
     in if tb_lastAppliedState (lp_tbc p) \<noteq> PTP_LOCKED \<and> offsetFilterSize \<le> length ws \<and>
           f64_lt (w_Mean (fold w_Insert ws (NewWindow offsetFilterSize))) (tb_offsetThreshold (lp_tbc p))
        then (p1\<lparr>lp_tbc := (lp_tbc p1)\<lparr>tb_lastAppliedState := PTP_LOCKED\<rparr>\<rparr>, [act, sendPtp4lStateEvent now p1])
        else (p1, []))"
proof -
  have "w_IsFull (w_Insert (f64_abs off) (fold w_Insert vs (NewWindow offsetFilterSize))) \<longleftrightarrow> offsetFilterSize \<le> length (vs @ [f64_abs off])"
    using filter_full [of "vs @ [f64_abs off]"] by simp
  with assms show ?thesis
    by (simp add: filtering_def checkOffsetFilterAndTransition_def Let_def del: length_append)
qed

lemma none_step: "processTBCTransitionHardwareConfig now (port, ConditionNone) p = checkOffsetFilterAndTransition now (ApplyHardware ''locked'') p"
  by (simp add: processTBCTransitionHardwareConfig_def)

lemma tbc_run_waits:
  assumes "filtering vs p" "\<forall>d \<in> set ds. snd (snd d) = ConditionNone" "length vs + length ds < offsetFilterSize"
  shows "snd (tbc_run now ds p) = [] \<and> filtering (vs @ map (\<lambda>d. f64_abs (fst d)) ds) (fst (tbc_run now ds p)) \<and>
    tb_lastAppliedState (lp_tbc (fst (tbc_run now ds p))) = tb_lastAppliedState (lp_tbc p) \<and>
    tb_offsetThreshold (lp_tbc (fst (tbc_run now ds p))) = tb_offsetThreshold (lp_tbc p)"
  using assms
proof (induction ds arbitrary: vs p)
  case Nil
  then show ?case by simp
next
  case (Cons d ds)
  obtain off port c where d: "d = (off, port, c)" by (cases d) auto
  with Cons.prems(2) have c: "c = ConditionNone" by simp
  let ?p1 = "p\<lparr>lp_offset := off, lp_tbc := (lp_tbc p)\<lparr>tb_offsetFilter := Some (fold w_Insert (vs @ [f64_abs off]) (NewWindow offsetFilterSize))\<rparr>\<rparr>"
  have s: "processTBCTransitionHardwareConfig now (port, c) (p\<lparr>lp_offset := off\<rparr>) = (?p1, [])"
    unfolding c none_step filtering_step [OF Cons.prems(1)] using Cons.prems(3) by (simp add: Let_def)
  have f: "filtering (vs @ [f64_abs off]) ?p1" using Cons.prems(1) by (simp add: filtering_def)
  obtain p2 e2 where r: "tbc_run now ds ?p1 = (p2, e2)" by fastforce
  have "e2 = [] \<and> filtering (vs @ [f64_abs off] @ map (\<lambda>d. f64_abs (fst d)) ds) p2 \<and>
    tb_lastAppliedState (lp_tbc p2) = tb_lastAppliedState (lp_tbc p) \<and> tb_offsetThreshold (lp_tbc p2) = tb_offsetThreshold (lp_tbc p)"
    using Cons.IH [OF f] Cons.prems(2,3) unfolding r by simp
  moreover have "tbc_run now (d # ds) p = (p2, e2)" unfolding d tbc_run.simps s prod.case r by simp
  ultimately show ?case by (simp add: d)
qed

lemma tbc_run_append:
  "tbc_run now (ds @ es) p = (case tbc_run now ds p of (p1, e1) \<Rightarrow> case tbc_run now es p1 of (p2, e2) \<Rightarrow> (p2, e1 @ e2))"
  by (induction ds arbitrary: p) (auto split: prod.splits)

text \<open>
  C3. After its port became the slave, a telecom boundary clock in holdover stays there for 63 lines;
  the hardware configuration for the locked state is applied with the 64th offset, exactly when the mean
  of the 64 absolute offsets is below the threshold and the state was not applied before.
\<close>

theorem tbc_exit_needs_full_filter:
  assumes "lp_configName p = tb_trPortsConfigFile (lp_tbc p)" "\<forall>d \<in> set ds. snd (snd d) = ConditionNone"
    and "tbc_run now ((off, port, ConditionLocked) # ds) p = (p', fs)"
  shows "(length ds < 63 \<longrightarrow> fs = []) \<and>
    (length ds = 63 \<longrightarrow>
       (ApplyHardware ''locked'' \<in> set fs \<longleftrightarrow>
          tb_lastAppliedState (lp_tbc p) \<noteq> PTP_LOCKED \<and>
          f64_lt (w_Mean (fold w_Insert (map (\<lambda>d. f64_abs (fst d)) ((off, port, ConditionLocked) # ds)) (NewWindow 64)))
            (tb_offsetThreshold (lp_tbc p))))"
proof -
  let ?t0 = "(lp_tbc p)\<lparr>tb_perPortState := AList.update port PTP_LOCKED (tb_perPortState (lp_tbc p)), tb_activePort := port,
      tb_lastReportedState := PTP_LOCKED, tb_offsetFilter := Some (NewWindow offsetFilterSize)\<rparr>"
  let ?p0 = "p\<lparr>lp_tbc := ?t0\<rparr>"
  have f0: "filtering [] ?p0" using assms(1) by (simp add: filtering_def)
  have l: "processTBCTransitionHardwareConfig now (port, ConditionLocked) (p\<lparr>lp_offset := off\<rparr>) =
      checkOffsetFilterAndTransition now (ApplyHardware ''locked'') (?p0\<lparr>lp_offset := off\<rparr>)"
  proof -
    have "p\<lparr>lp_offset := off, lp_tbc := ?t0\<rparr> = ?p0\<lparr>lp_offset := off\<rparr>" by (cases p) simp
    then have "checkOffsetFilterAndTransition now (ApplyHardware ''locked'') (p\<lparr>lp_offset := off, lp_tbc := ?t0\<rparr>) =
        checkOffsetFilterAndTransition now (ApplyHardware ''locked'') (?p0\<lparr>lp_offset := off\<rparr>)" by (rule arg_cong)
    moreover have "processTBCTransitionHardwareConfig now (port, ConditionLocked) (p\<lparr>lp_offset := off\<rparr>) =
        checkOffsetFilterAndTransition now (ApplyHardware ''locked'') (p\<lparr>lp_offset := off, lp_tbc := ?t0\<rparr>)"
      by (simp add: processTBCTransitionHardwareConfig_def Let_def)
    ultimately show ?thesis by (rule trans [rotated])
  qed
  define p1 where "p1 = ?p0\<lparr>lp_offset := off, lp_tbc := ?t0\<lparr>tb_offsetFilter := Some (fold w_Insert [f64_abs off] (NewWindow offsetFilterSize))\<rparr>\<rparr>"
  have s: "processTBCTransitionHardwareConfig now (port, ConditionLocked) (p\<lparr>lp_offset := off\<rparr>) = (p1, [])"
    unfolding l filtering_step [OF f0] p1_def by (simp add: Let_def)
  have f1: "filtering [f64_abs off] p1" using assms(1) by (simp add: filtering_def p1_def)
  have same: "tb_lastAppliedState (lp_tbc p1) = tb_lastAppliedState (lp_tbc p)" "tb_offsetThreshold (lp_tbc p1) = tb_offsetThreshold (lp_tbc p)"
    by (simp_all add: p1_def)
  have run: "tbc_run now ds p1 = (p', fs)"
  proof (cases "tbc_run now ds p1")
    case (Pair p2 e2)
    then show ?thesis using assms(3) unfolding tbc_run.simps s prod.case by simp
  qed
  have early: "fs = []" if "length ds < 63"
    using tbc_run_waits [OF f1 assms(2), of now] that run by simp
  have late: "ApplyHardware ''locked'' \<in> set fs \<longleftrightarrow> tb_lastAppliedState (lp_tbc p) \<noteq> PTP_LOCKED \<and>
      f64_lt (w_Mean (fold w_Insert (map (\<lambda>d. f64_abs (fst d)) ((off, port, ConditionLocked) # ds)) (NewWindow 64))) (tb_offsetThreshold (lp_tbc p))"
    if len: "length ds = 63"
  proof -
    from len have "ds \<noteq> []" by auto
    then obtain us o2 q c where ds: "ds = us @ [(o2, q, c)]" by (metis prod_cases3 rev_exhaust)
    with assms(2) len have us: "\<forall>d \<in> set us. snd (snd d) = ConditionNone" "length us = 62" "c = ConditionNone" by auto
    obtain p2 e2 where 2: "tbc_run now us p1 = (p2, e2)" by fastforce
    from tbc_run_waits [OF f1 us(1), of now] us(2) 2 same have w: "e2 = []" "filtering (f64_abs off # map (\<lambda>d. f64_abs (fst d)) us) p2"
      "tb_lastAppliedState (lp_tbc p2) = tb_lastAppliedState (lp_tbc p)" "tb_offsetThreshold (lp_tbc p2) = tb_offsetThreshold (lp_tbc p)"
      using same by simp_all
    have "fs = snd (processTBCTransitionHardwareConfig now (q, c) (p2\<lparr>lp_offset := o2\<rparr>))"
      using run unfolding ds tbc_run_append 2 prod.case w(1) by (simp split: prod.splits)
    then have fs: "fs = snd (checkOffsetFilterAndTransition now (ApplyHardware ''locked'') (p2\<lparr>lp_offset := o2\<rparr>))"
      unfolding us(3) none_step .
    have st: "sendPtp4lStateEvent now x \<noteq> ApplyHardware ''locked''" for x by (simp add: sendPtp4lStateEvent_def mk_event_def Let_def)
    show ?thesis unfolding fs filtering_step [OF w(2)] using us(2) st w(3,4) by (simp add: Let_def ds)
  qed
  show ?thesis using early late by blast
qed

theorem tbc_exit_needs_full_filter_witness:
  "snd (tbc_run 0 ((Fin 3, ''ens5f0'', ConditionLocked) # replicate 3 (Fin 1, '''', ConditionNone)) (example_process\<lparr>lp_configName := ''''\<rparr>)) = []"
proof -
  let ?p = "example_process\<lparr>lp_configName := ''''\<rparr>" and ?ds = "replicate 3 (Fin 1, '''', ConditionNone)"
  have c: "lp_configName ?p = tb_trPortsConfigFile (lp_tbc ?p)" by (simp add: example_process_def)
  have d: "\<forall>d \<in> set ?ds. snd (snd d) = ConditionNone" by simp
  obtain p' fs where r: "tbc_run 0 ((Fin 3, ''ens5f0'', ConditionLocked) # ?ds) ?p = (p', fs)" by fastforce
  from tbc_exit_needs_full_filter [OF c d r] show ?thesis unfolding r by simp
qed

section \<open>Lines that are misread\<close>

text \<open>A summary line cut off after the word delay has eleven fields, and the twelfth is read.\<close>

lemma summary_panics_at_eleven_fields:
  "extractSummaryMetrics ''ptp4l.0.config'' ''ptp4l[1.2]: [ptp4l.0.config] rms 53 max 74 freq -1 +/- 40 delay'' InitializeOffsetMaps = None"
  by code_simp

text \<open>The offset of another port is to be ignored; the values returned name the port, with the offset 0.\<close>

lemma master_port_offset_published_as_zero:
  "map_option (\<lambda>(x, w, es). (ex_iface x, es))
     (extract_values as_empty ''ptp4l.0.config'' ''phc2sys'' [] ''phc2sys[1.2]: [ptp4l.0.config] ens5f0 offset 5 s2 freq -7''
        InitializeOffsetMaps) =
     Some (''ens5f0'', updatePTPMetrics ''master'' ''phc2sys'' ''ens5f0'' (Fin 0) (Fin 0) (Fin 0) (Fin 0) @
       updateClockStateMetrics ''phc2sys'' ''ens5f0'' ''FREERUN'')"
  by code_simp

end
