(* ===== verification/LogFilter.thy ===== *)
theory LogFilter
  imports Ts2Phc Stats
begin

text \<open>
  The log filter (\<open>pkg/logfilter\<close>): which lines of a program are passed on, which are dropped, and
  which are collected into a summary of their offsets. Compiling an expression given by the user is a
  parameter (\<open>None\<close> when it is refused), the expressions of the code itself are written out; so is the
  standard deviation. A duration is read as \<open>time.ParseDuration\<close> does.
\<close>

section \<open>Durations\<close>

definition duration_units :: "(string \<times> nat) list" where
  "duration_units =
     [(''ns'', 1), (''us'', 10 ^ 3), ([CHR 0xC2, CHR 0xB5, CHR ''s''], 10 ^ 3), ([CHR 0xCE, CHR 0xBC, CHR ''s''], 10 ^ 3),
      (''ms'', 10 ^ 6), (''s'', 10 ^ 9), (''m'', 60 * 10 ^ 9), (''h'', 3600 * 10 ^ 9)]"

definition char_digit :: "char \<Rightarrow> nat" where "char_digit c = of_char c - 48"

text \<open>\<open>leadingInt\<close> over the digits; \<open>None\<close> when it overflows.\<close>

fun leading_int :: "nat \<Rightarrow> string \<Rightarrow> nat option" where
  "leading_int x [] = Some x"
| "leading_int x (c # cs) =
     (if 2 ^ 63 div 10 < x then None
      else if 2 ^ 63 < 10 * x + char_digit c then None
      else leading_int (10 * x + char_digit c) cs)"

text \<open>\<open>leadingFraction\<close>: the digits that fit and their scale; the others are skipped.\<close>

fun leading_fraction :: "nat \<Rightarrow> nat \<Rightarrow> string \<Rightarrow> nat \<times> nat" where
  "leading_fraction x scale [] = (x, scale)"
| "leading_fraction x scale (c # cs) =
     (if (2 ^ 63 - 1) div 10 < x \<or> 2 ^ 63 < 10 * x + char_digit c then (x, scale)
      else leading_fraction (10 * x + char_digit c) (10 * scale) cs)"

text \<open>One number with its unit.\<close>

definition duration_term :: "nat \<Rightarrow> nat \<Rightarrow> nat \<Rightarrow> nat \<Rightarrow> nat option" where
  "duration_term v f scale unit_ns =
     (if 2 ^ 63 div unit_ns < v then None
      else let w = v * unit_ns +
                 (if 0 < f then nat (f64_to_int64 (f64_mul (f64_of_int (int f)) (f64_div (f64_of_int (int unit_ns)) (f64_of_int (int scale))))) else 0)
           in if 2 ^ 63 < w then None else Some w)"

function duration_loop :: "nat \<Rightarrow> string \<Rightarrow> nat option" where
  "duration_loop d s =
     (if s = [] then Some d
      else if hd s \<noteq> CHR ''.'' \<and> \<not> ch_digit (hd s) then None
      else let ip = takeWhile ch_digit s; r1 = dropWhile ch_digit s;
               dot = r1 \<noteq> [] \<and> hd r1 = CHR ''.'';
               fp = (if dot then takeWhile ch_digit (tl r1) else []);
               r2 = (if dot then dropWhile ch_digit (tl r1) else r1);
               u = takeWhile (\<lambda>c. c \<noteq> CHR ''.'' \<and> \<not> ch_digit c) r2
           in if ip = [] \<and> fp = [] \<or> u = [] then None
              else (case (leading_int 0 ip, map_of duration_units u) of
                      (Some v, Some unit_ns) \<Rightarrow>
                        (case leading_fraction 0 1 fp of (f, scale) \<Rightarrow>
                           case duration_term v f scale unit_ns of
                             None \<Rightarrow> None
                           | Some w \<Rightarrow> if 2 ^ 63 < d + w then None else duration_loop (d + w) (drop (length u) r2))
                    | _ \<Rightarrow> None))"
  by pat_completeness auto
termination
proof (relation "measure (\<lambda>(_, s). length s)")
  show "wf (measure (\<lambda>(d :: nat, s :: string). length s))" by simp
next
  fix d :: nat and s ip r1 :: string and dot fp r2 u p v un q f sc w
  assume r1: "r1 = dropWhile ch_digit s" and r2: "r2 = (if dot then dropWhile ch_digit (tl r1) else r1)"
    and u: "\<not> (ip = [] \<and> fp = [] \<or> u = [])" "u = takeWhile (\<lambda>c. c \<noteq> CHR ''.'' \<and> \<not> ch_digit c) r2" and s: "s \<noteq> []"
  have a: "length r1 \<le> length s" unfolding r1 by (rule length_dropWhile_le)
  have "length (dropWhile ch_digit (tl r1)) \<le> length r1" by (rule order_trans [OF length_dropWhile_le]) simp
  with a have "length r2 \<le> length s" unfolding r2 by auto
  moreover have "0 < length u" using u(1) by simp
  moreover have "length u \<le> length r2" unfolding u(2) by (rule length_takeWhile_le)
  moreover have "0 < length s" using s by simp
  ultimately have "length r2 - length u < length s" by linarith
  then show "((d + w, drop (length u) r2), (d, s)) \<in> measure (\<lambda>(_, s). length s)" by simp
qed

declare duration_loop.simps [simp del]

definition ParseDuration :: "string \<Rightarrow> int option" where
  "ParseDuration s0 =
     (let signed = s0 \<noteq> [] \<and> (hd s0 = CHR ''-'' \<or> hd s0 = CHR ''+'');
          neg = s0 \<noteq> [] \<and> hd s0 = CHR ''-'';
          s = (if signed then tl s0 else s0)
      in if s = ''0'' then Some 0
         else if s = [] then None
         else (case duration_loop 0 s of
                 None \<Rightarrow> None
               | Some d \<Rightarrow> if neg then Some (- int d) else if 2 ^ 63 - 1 < d then None else Some (int d)))"

section \<open>Filters\<close>

text \<open>The summary names the program, its tag and the offset it collects.\<close>

record log_filter =
  lf_regex :: "(string \<Rightarrow> bool) option"
  lf_reducers :: "rx list"
  lf_batchLength :: int
  lf_expiryTime :: int
  lf_offsets :: "f64 list"
  lf_summary :: "(string \<times> string \<times> string) option"
  lf_threshold :: int

definition logFilterFromRegex ::
  "int \<Rightarrow> (string \<Rightarrow> bool) option \<Rightarrow> rx list \<Rightarrow> string \<Rightarrow> (string \<times> string \<times> string) option \<Rightarrow> string \<Rightarrow> log_filter" where
  "logFilterFromRegex now regex reducers batch summary threshold =
     (let len = (case ParseDuration batch of Some d \<Rightarrow> d | None \<Rightarrow> if batch \<noteq> '''' then 10 ^ 9 else 0) in
      \<lparr>lf_regex = regex, lf_reducers = reducers, lf_batchLength = len, lf_expiryTime = now + len, lf_offsets = [],
       lf_summary = summary, lf_threshold = (case ParseInt threshold 10 64 of (n, None) \<Rightarrow> n | _ \<Rightarrow> 0)\<rparr>)"

definition rx_line_with :: "string list \<Rightarrow> string \<Rightarrow> bool" where
  "rx_line_with parts s = (FindStringSubmatch True 0 (rseq (concat (map (\<lambda>p. [RMany True ch_any, RLit p]) parts) @ [RMany True ch_any, REnd])) s \<noteq> None)"

definition offset_reducers :: "string \<Rightarrow> rx list" where
  "offset_reducers off =
     [rseq [RLit off, RMany True (\<lambda>c. c = CHR '' ''), RMany True (\<lambda>c. ch_digit c \<or> c = CHR ''-''), RLit '' ''],
      rseq [RMany True (\<lambda>c. c = CHR ''-''), RPlus ch_digit]]"

definition getLogFiltersEnhanced :: "int \<Rightarrow> string \<Rightarrow> string \<Rightarrow> string \<Rightarrow> string \<Rightarrow> log_filter list" where
  "getLogFiltersEnhanced now processName messageTag batch threshold =
     (let off = (if processName = ''ptp4l'' then ''master offset'' else if processName = ''phc2sys'' then ''phc offset'' else '''') in
      if off = '''' then []
      else [logFilterFromRegex now (Some (rx_line_with [processName, off])) (offset_reducers off) batch
              (Some (processName, messageTag, off)) threshold])"

definition GetLogFilters :: "(string \<Rightarrow> (string \<Rightarrow> bool) option) \<Rightarrow> int \<Rightarrow> string \<Rightarrow> string \<Rightarrow> settings \<Rightarrow> log_filter list" where
  "GetLogFilters compile now processName tag settings =
     (let messageTag = ReplaceAll tag ''{level}'' ''6'';
          f1 = (case map_of settings ''stdoutFilter'' of
                  None \<Rightarrow> []
                | Some f \<Rightarrow> [logFilterFromRegex now (compile f) [] '''' None ''0''])
      in (case map_of settings ''logReduce'' of
            None \<Rightarrow> f1
          | Some v \<Rightarrow>
              (let fs = Fields v;
                   mode = (case fs of m # _ \<Rightarrow> m | _ \<Rightarrow> ''false'');
                   batch = (case fs of _ # t # _ \<Rightarrow> t | _ \<Rightarrow> ''30s'');
                   th = (case fs of _ # _ # h # _ \<Rightarrow> h | _ \<Rightarrow> ''0'')
               in if mode = ''true'' \<or> mode = ''basic''
                  then f1 @ [logFilterFromRegex now (Some (rx_line_with [''master offset''])) [] '''' None ''0'']
                  else if mode = ''enhanced'' then getLogFiltersEnhanced now processName messageTag batch th
                  else f1)))"

section \<open>Filtering\<close>

definition FindString :: "rx \<Rightarrow> string \<Rightarrow> string" where
  "FindString r s = (case match_leftmost r s of None \<Rightarrow> '''' | Some (_, w) \<Rightarrow> w)"

text \<open>\<open>slices.Sort\<close> of floats puts NaN first; offsets are numbers here.\<close>

fun insert_f64 :: "f64 \<Rightarrow> f64 list \<Rightarrow> f64 list" where
  "insert_f64 x [] = [x]"
| "insert_f64 x (y # ys) = (if x = NaN \<or> f64_le x y then x # y # ys else y # insert_f64 x ys)"

definition sort_f64 :: "f64 list \<Rightarrow> f64 list" where
  "sort_f64 xs = foldr insert_f64 xs []"

text \<open>\<open>%0.kf\<close> of a finite number.\<close>

definition show_fixed :: "nat \<Rightarrow> f64 \<Rightarrow> string" where
  "show_fixed k x =
     (case x of
        Fin q \<Rightarrow>
          (let n = round_half_even (\<bar>q\<bar> * 10 ^ k);
               frac = show_nat (nat n mod 10 ^ k)
           in (if q < 0 then ''-'' else '''') @ show_nat (nat n div 10 ^ k) @ ''.'' @ replicate (k - length frac) (CHR ''0'') @ frac)
      | Inf True \<Rightarrow> ''-Inf''
      | Inf False \<Rightarrow> ''+Inf''
      | NaN \<Rightarrow> ''NaN'')"

text \<open>\<open>FlushOutput\<close>: the summary, and the filter that starts again. \<open>sd\<close> is the standard deviation.\<close>

definition summary_line :: "(f64 list \<Rightarrow> f64) \<Rightarrow> int \<Rightarrow> string \<times> string \<times> string \<Rightarrow> f64 list \<Rightarrow> string" where
  "summary_line sd now names xs0 =
     (case names of (processName, messageTag, off) \<Rightarrow>
      let xs = sort_f64 xs0; tsec = f64_div (f64_of_int (now div 10 ^ 6)) (Fin 1000);
          mn = (if xs = [] then 0 else f64_to_int64 (hd xs)); mx = (if xs = [] then 0 else f64_to_int64 (last xs));
          avg = (case stat_Mean xs (replicate (length xs) (Fin 1)) of Some m \<Rightarrow> m | None \<Rightarrow> NaN)
      in processName @ ''['' @ show_fixed 3 tsec @ '']: '' @ messageTag @ '' '' @ off @ '' summary: cnt='' @ show_nat (length xs) @
         '', min='' @ show_int mn @ '', max='' @ show_int mx @ '', avg='' @ show_fixed 2 avg @ '', SD='' @ show_fixed 2 (sd xs))"

definition FlushOutput :: "(f64 list \<Rightarrow> f64) \<Rightarrow> int \<Rightarrow> log_filter \<Rightarrow> string \<times> log_filter" where
  "FlushOutput sd now f =
     ((case lf_summary f of None \<Rightarrow> '''' | Some names \<Rightarrow> summary_line sd now names (lf_offsets f)),
      f\<lparr>lf_offsets := [], lf_expiryTime := now + lf_batchLength f\<rparr>)"

text \<open>The value of a line: \<open>None\<close> when the filter does not match, \<open>Some None\<close> when it is not a number.\<close>

definition filtered_value :: "log_filter \<Rightarrow> string \<Rightarrow> f64 option option" where
  "filtered_value f output =
     (case lf_regex f of
        None \<Rightarrow> None
      | Some r \<Rightarrow>
          if \<not> r output then None
          else let w = fold (\<lambda>red s. FindString red s) (lf_reducers f) output in
               if w = output then Some (Some (Fin 0))
               else (case ParseFloat w of (x, None) \<Rightarrow> Some (Some x) | _ \<Rightarrow> Some None))"

text \<open>\<open>FilterOutput\<close>: the loop over the filters carries \<open>skipOutput\<close> and \<open>ret\<close>; an early return ends it.\<close>

fun filter_loop ::
  "(f64 list \<Rightarrow> f64) \<Rightarrow> int \<Rightarrow> string \<Rightarrow> bool \<Rightarrow> string \<Rightarrow> log_filter list \<Rightarrow> string \<times> log_filter list" where
  "filter_loop sd now output skip ret [] = (if skip then '''' else ret, [])"
| "filter_loop sd now output skip ret (f # fs) =
     (case filtered_value f output of
        None \<Rightarrow> (case filter_loop sd now output skip ret fs of (r, gs) \<Rightarrow> (r, f # gs))
      | Some None \<Rightarrow> (case filter_loop sd now output skip ret fs of (r, gs) \<Rightarrow> (r, f # gs))
      | Some (Some v) \<Rightarrow>
          if 0 < lf_threshold f \<and> lf_threshold f < f64_to_int64 (f64_abs v)
          then (if lf_offsets f \<noteq> []
                then (case FlushOutput sd now f of (s, f1) \<Rightarrow> (s @ [CHR 0x0A] @ output, f1 # fs))
                else (output, f # fs))
          else if lf_summary f = None
          then (case filter_loop sd now output True ret fs of (r, gs) \<Rightarrow> (r, f # gs))
          else if lf_expiryTime f < now
          then (case FlushOutput sd now (f\<lparr>lf_offsets := lf_offsets f @ [v]\<rparr>) of (s, f1) \<Rightarrow>
                case filter_loop sd now output skip s fs of (r, gs) \<Rightarrow> (r, f1 # gs))
          else (case filter_loop sd now output True ret fs of (r, gs) \<Rightarrow> (r, f\<lparr>lf_offsets := lf_offsets f @ [v]\<rparr> # gs)))"

definition FilterOutput :: "(f64 list \<Rightarrow> f64) \<Rightarrow> int \<Rightarrow> log_filter list \<Rightarrow> string \<Rightarrow> string \<times> log_filter list" where
  "FilterOutput sd now fs output = filter_loop sd now output False output fs"

section \<open>Facts\<close>

text \<open>In the enhanced mode the list of filters is replaced, so the expression of \<open>stdoutFilter\<close> has no effect.\<close>

lemma enhanced_drops_stdout_filter:
  assumes "map_of settings ''logReduce'' = Some v" "Fields v = ''enhanced'' # rest"
  shows "GetLogFilters compile now p tag ((''stdoutFilter'', re) # settings) = GetLogFilters compile now p tag settings"
  using assms by (simp add: GetLogFilters_def Let_def)

text \<open>A sorted batch of numbers holds the same numbers and begins with the smallest.\<close>

lemma insert_f64_set [simp]: "set (insert_f64 x ys) = insert x (set ys)"
  by (induction ys) auto

lemma sort_f64_set [simp]: "set (sort_f64 xs) = set xs"
  unfolding sort_f64_def by (induction xs) auto

lemma insert_f64_length [simp]: "length (insert_f64 x ys) = Suc (length ys)"
  by (induction ys) auto

lemma sort_f64_length [simp]: "length (sort_f64 xs) = length xs"
  unfolding sort_f64_def by (induction xs) auto

lemma insert_fin_sorted:
  "sorted qs \<Longrightarrow> insert_f64 (Fin q) (map Fin qs) = map Fin (insort q qs)"
  by (induction qs) auto

lemma sort_f64_sorts: "sort_f64 (map Fin qs) = map Fin (sort qs)"
  unfolding sort_f64_def by (induction qs) (simp_all add: insert_fin_sorted)

lemma summary_min_is_least:
  assumes "qs \<noteq> []"
  shows "hd (sort_f64 (map Fin qs)) = Fin (Min (set qs))"
proof -
  obtain m ms where ms: "sort qs = m # ms" using assms set_sort [of "\<lambda>x. x" qs] by (cases "sort qs") auto
  have "sorted (m # ms)" using sorted_sort [of qs] ms by simp
  moreover have "set (m # ms) = set qs" using set_sort [of "\<lambda>x. x" qs] ms by simp
  ultimately have "Min (set qs) = m" by (intro Min_eqI) auto
  then show ?thesis by (simp add: sort_f64_sorts ms)
qed

text \<open>A line that no filter recognises is passed on as it is, and so is every line when no expression compiled.\<close>

lemma unmatched_line_passes:
  assumes "\<forall>f \<in> set fs. \<forall>r. lf_regex f = Some r \<longrightarrow> \<not> r output"
  shows "FilterOutput sd now fs output = (output, fs)"
proof -
  have "filter_loop sd now output False output fs = (output, fs)"
    using assms by (induction fs) (auto simp: filtered_value_def split: option.splits)
  then show ?thesis by (simp add: FilterOutput_def)
qed

text \<open>A filter that summarises: an offset is kept with the ones before, or ends in the line that is printed.\<close>

lemma summarising_filter_cases:
  assumes "filtered_value f output = Some (Some v)" "lf_summary f = Some names"
    "\<not> (0 < lf_threshold f \<and> lf_threshold f < f64_to_int64 (f64_abs v))"
  shows "FilterOutput sd now [f] output =
    (if lf_expiryTime f < now
     then (summary_line sd now names (lf_offsets f @ [v]), [f\<lparr>lf_offsets := [], lf_expiryTime := now + lf_batchLength f\<rparr>])
     else ('''', [f\<lparr>lf_offsets := lf_offsets f @ [v]\<rparr>]))"
  using assms by (auto simp: FilterOutput_def FlushOutput_def)


lemma default_batch_is_thirty_seconds: "ParseDuration ''30s'' = Some (30 * 10 ^ 9)"
  by (simp add: ParseDuration_def Let_def duration_loop.simps [of 0] duration_loop.simps [of _ "[]"] ch_digit_def
      char_digit_def duration_units_def duration_term_def)

end
