(* ===== verification/Netlink.thy ===== *)
theory Netlink
  imports Prelude
begin

text \<open>
  Netlink attributes on the wire (\<open>vendor/github.com/mdlayher/netlink/attribute.go\<close>), as the DPLL
  access uses them: a length and a type of two bytes each, the data, and padding to four bytes, in
  the byte order of the (little-endian) host. What is marshalled is read back.
\<close>

section \<open>Numbers as bytes\<close>

fun le_bytes :: "nat \<Rightarrow> nat \<Rightarrow> u8 list" where
  "le_bytes 0 x = []"
| "le_bytes (Suc n) x = word_of_nat (x mod 256) # le_bytes n (x div 256)"

fun le_value :: "u8 list \<Rightarrow> nat" where
  "le_value [] = 0"
| "le_value (b # bs) = unat b + 256 * le_value bs"

lemma le_bytes_length [simp]: "length (le_bytes n x) = n"
  by (induction n arbitrary: x) auto

lemma unat_byte: "unat (word_of_nat (x mod 256) :: u8) = x mod 256"
  by (simp add: unat_of_nat)

lemma le_value_bytes [simp]: "le_value (le_bytes n x) = x mod 256 ^ n"
proof (induction n arbitrary: x)
  case (Suc n)
  have "le_value (le_bytes (Suc n) x) = x mod 256 + 256 * (x div 256 mod 256 ^ n)"
    by (simp add: Suc unat_of_nat)
  also have "\<dots> = x mod (256 * 256 ^ n)" by (simp add: mod_mult2_eq)
  finally show ?case by simp
qed simp

section \<open>Attributes\<close>

record attribute =
  at_Type :: u16
  at_Data :: "u8 list"

definition nlaAlign :: "nat \<Rightarrow> nat" where
  "nlaAlign n = (n + 3) div 4 * 4"

definition attr_length :: "attribute \<Rightarrow> nat" where
  "attr_length a = (4 + length (at_Data a)) mod 2 ^ 16"

definition marshal :: "attribute \<Rightarrow> u8 list" where
  "marshal a =
     le_bytes 2 (attr_length a) @ le_bytes 2 (unat (at_Type a)) @ at_Data a @
     replicate (nlaAlign (length (at_Data a)) - length (at_Data a)) 0"

text \<open>A length that has wrapped around to less than the header is refused.\<close>

definition MarshalAttributes :: "attribute list \<Rightarrow> u8 list option" where
  "MarshalAttributes attrs =
     (if list_ex (\<lambda>a. attr_length a < 4) attrs then None else Some (concat (map marshal attrs)))"

text \<open>One \<open>Next\<close>: the attribute at the head of the buffer and what is left after it.\<close>

definition unmarshal :: "u8 list \<Rightarrow> (attribute \<times> u8 list) option" where
  "unmarshal b =
     (if length b < 4 then None
      else let len = le_value (take 2 b); typ = word_of_nat (le_value (take 2 (drop 2 b)))
           in if length b < len then None
              else if len = 0 then Some (\<lparr>at_Type = typ, at_Data = []\<rparr>, drop 4 b)
              else if len < 4 then None
              else Some (\<lparr>at_Type = typ, at_Data = drop 4 (take len b)\<rparr>, drop (nlaAlign len) b))"

lemma nlaAlign_bounds: "n \<le> nlaAlign n" "nlaAlign n < n + 4" "nlaAlign (4 + n) = 4 + nlaAlign n"
  unfolding nlaAlign_def by presburger+

lemma unmarshal_shorter: "unmarshal b = Some (a, r) \<Longrightarrow> length r < length b"
proof -
  assume u: "unmarshal b = Some (a, r)"
  have "4 \<le> length b" using u by (auto simp: unmarshal_def split: if_splits)
  moreover have "\<exists>k \<ge> 4. r = drop k b"
  proof -
    let ?l = "le_value (take 2 b)"
    consider "r = drop 4 b" | "4 \<le> ?l" "r = drop (nlaAlign ?l) b"
      using u by (auto simp: unmarshal_def Let_def not_less split: if_splits)
    then show ?thesis
    proof cases
      case 1 then show ?thesis by blast
    next
      case 2
      have "4 \<le> nlaAlign ?l" using 2(1) nlaAlign_bounds(1) [of ?l] by linarith
      with 2(2) show ?thesis by blast
    qed
  qed
  ultimately show ?thesis by (auto simp del: length_greater_0_conv)
qed

text \<open>
  A decoder run to its end. Any malformed attribute makes the whole decoding fail, here and in
  \<open>NewAttributeDecoder\<close>, which checks the headers beforehand.
\<close>

function UnmarshalAttributes :: "u8 list \<Rightarrow> attribute list option" where
  "UnmarshalAttributes b =
     (if b = [] then Some []
      else (case unmarshal b of
              None \<Rightarrow> None
            | Some (a, r) \<Rightarrow> map_option (\<lambda>as. a # as) (UnmarshalAttributes r)))"
  by pat_completeness auto
termination
  by (relation "measure length") (auto dest: unmarshal_shorter)

declare UnmarshalAttributes.simps [simp del]

text \<open>The type without the flags \<open>Nested\<close> and \<open>NetByteOrder\<close>.\<close>

definition at_type :: "attribute \<Rightarrow> nat" where
  "at_type a = unat (at_Type a) mod 2 ^ 14"

definition nested_type :: "nat \<Rightarrow> u16" where
  "nested_type t = word_of_nat (2 ^ 15 + t)"

section \<open>Writing and reading values\<close>

definition attr_u32 :: "nat \<Rightarrow> u32 \<Rightarrow> attribute" where
  "attr_u32 t v = \<lparr>at_Type = word_of_nat t, at_Data = le_bytes 4 (unat v)\<rparr>"

definition attr_u64 :: "nat \<Rightarrow> u64 \<Rightarrow> attribute" where
  "attr_u64 t v = \<lparr>at_Type = word_of_nat t, at_Data = le_bytes 8 (unat v)\<rparr>"

text \<open>\<open>Nested\<close>: the inner attributes, refused when they do not fit.\<close>

definition attr_nested :: "nat \<Rightarrow> attribute list \<Rightarrow> attribute option" where
  "attr_nested t attrs =
     (case MarshalAttributes attrs of
        None \<Rightarrow> None
      | Some b \<Rightarrow> if 2 ^ 16 - 1 - 4 < length b then None else Some \<lparr>at_Type = nested_type t, at_Data = b\<rparr>)"

definition ad_Uint32 :: "attribute \<Rightarrow> u32 option" where
  "ad_Uint32 a = (if length (at_Data a) = 4 then Some (word_of_nat (le_value (at_Data a))) else None)"

definition ad_Uint64 :: "attribute \<Rightarrow> u64 option" where
  "ad_Uint64 a = (if length (at_Data a) = 8 then Some (word_of_nat (le_value (at_Data a))) else None)"

definition ad_Int32 :: "attribute \<Rightarrow> int option" where
  "ad_Int32 a = map_option sint (ad_Uint32 a)"

definition ad_Int64 :: "attribute \<Rightarrow> int option" where
  "ad_Int64 a = map_option sint (ad_Uint64 a)"

text \<open>\<open>String\<close> drops the zero bytes at the end.\<close>

definition ad_String :: "attribute \<Rightarrow> string" where
  "ad_String a = map (\<lambda>b. char_of (unat b)) (rev (dropWhile (\<lambda>b. b = 0) (rev (at_Data a))))"

section \<open>Round trips\<close>

lemma unat_bound: "unat (w :: 'a :: len word) < 2 ^ LENGTH('a)"
  by (rule unsigned_less)

lemma ad_Uint32_attr [simp]: "ad_Uint32 (attr_u32 t v) = Some v"
proof -
  have "unat v mod 256 ^ 4 = unat v" using unat_bound [of v] by simp
  then show ?thesis by (simp add: ad_Uint32_def attr_u32_def)
qed

lemma ad_Uint64_attr [simp]: "ad_Uint64 (attr_u64 t v) = Some v"
proof -
  have "unat v mod 256 ^ 8 = unat v" using unat_bound [of v] by simp
  then show ?thesis by (simp add: ad_Uint64_def attr_u64_def)
qed

lemma at_type_attr [simp]:
  "t < 2 ^ 14 \<Longrightarrow> at_type (attr_u32 t v) = t"
  "t < 2 ^ 14 \<Longrightarrow> at_type (attr_u64 t w) = t"
  by (simp_all add: at_type_def attr_u32_def attr_u64_def unat_of_nat)

lemma at_type_nested: "t < 2 ^ 14 \<Longrightarrow> attr_nested t attrs = Some a \<Longrightarrow> at_type a = t"
proof -
  assume t: "t < 2 ^ 14" and a: "attr_nested t attrs = Some a"
  have "at_Type a = nested_type t" using a by (auto simp: attr_nested_def split: option.splits if_splits)
  moreover have "unat (nested_type t) = 2 ^ 15 + t" unfolding nested_type_def unat_of_nat using t by simp
  moreover have "(2 ^ 15 + t) mod 2 ^ 14 = t"
  proof -
    have "(2 ^ 15 + t) mod 2 ^ 14 = (t + 2 * 2 ^ 14) mod 2 ^ 14" by (simp add: add.commute)
    also have "\<dots> = t" using t by (simp only: mod_mult_self1 mod_less)
    finally show ?thesis .
  qed
  ultimately show "at_type a = t" by (simp add: at_type_def)
qed

lemma attr_small [simp]: "attr_length (attr_u32 t v) = 8" "attr_length (attr_u64 t w) = 12"
  by (simp_all add: attr_length_def attr_u32_def attr_u64_def)

definition fits :: "attribute \<Rightarrow> bool" where
  "fits a \<longleftrightarrow> length (at_Data a) < 2 ^ 16 - 4"

lemma fits_value [simp]: "fits (attr_u32 t v)" "fits (attr_u64 t w)"
  by (simp_all add: fits_def attr_u32_def attr_u64_def)

lemma fits_nested: "attr_nested t attrs = Some a \<Longrightarrow> fits a"
  by (auto simp: attr_nested_def fits_def split: option.splits if_splits)

lemma unmarshal_marshal:
  assumes "fits a"
  shows "unmarshal (marshal a @ r) = Some (a, r)"
proof -
  obtain t d where a: "a = \<lparr>at_Type = t, at_Data = d\<rparr>" by (cases a) auto
  have n: "length d < 2 ^ 16 - 4" using assms a by (simp add: fits_def)
  then have len: "attr_length a = 4 + length d" using a by (simp add: attr_length_def)
  let ?pad = "replicate (nlaAlign (length d) - length d) (0 :: u8)"
  let ?tb = "le_bytes 2 (unat t)" and ?lb = "le_bytes 2 (4 + length d)"
  have m: "marshal a @ r = ?lb @ ?tb @ d @ ?pad @ r"
    using a len by (simp add: marshal_def)
  have "take 2 (marshal a @ r) = ?lb" unfolding m by simp
  then have l: "le_value (take 2 (marshal a @ r)) = 4 + length d" using n by simp
  have "take 2 (drop 2 (marshal a @ r)) = ?tb" unfolding m by simp
  moreover have "unat t mod 65536 = unat t" using unat_bound [of t] by simp
  ultimately have ty: "word_of_nat (le_value (take 2 (drop 2 (marshal a @ r)))) = t" by simp
  have d1: "drop 4 (take (4 + length d) (marshal a @ r)) = d" unfolding m by simp
  have "length (?lb @ ?tb @ d @ ?pad) = nlaAlign (4 + length d)"
    using nlaAlign_bounds(1) [of "length d"] by (simp add: nlaAlign_bounds(3))
  then have d2: "drop (nlaAlign (4 + length d)) (marshal a @ r) = r"
    unfolding m by (metis append_assoc append_eq_conv_conj)
  have big: "4 + length d \<le> length (marshal a @ r)" unfolding m by simp
  show ?thesis unfolding unmarshal_def Let_def l ty d1 d2 using big a by simp
qed

lemma UnmarshalAttributes_Marshal:
  assumes "MarshalAttributes attrs = Some b" "list_all fits attrs"
  shows "UnmarshalAttributes b = Some attrs"
proof -
  have b: "b = concat (map marshal attrs)" using assms(1) by (simp add: MarshalAttributes_def split: if_splits)
  have "UnmarshalAttributes (concat (map marshal attrs)) = Some attrs" using assms(2)
  proof (induction attrs)
    case Nil then show ?case by (simp add: UnmarshalAttributes.simps)
  next
    case (Cons a attrs)
    have "marshal a \<noteq> []" by (simp add: marshal_def numeral_2_eq_2)
    then show ?case using Cons
      by (subst UnmarshalAttributes.simps) (simp add: unmarshal_marshal)
  qed
  with b show ?thesis by simp
qed

lemma MarshalAttributes_small: "list_all fits attrs \<Longrightarrow> MarshalAttributes attrs = Some (concat (map marshal attrs))"
  by (auto simp: MarshalAttributes_def fits_def attr_length_def list_ex_iff list_all_iff)

end
