(* ===== verification/DpllNetlink.thy ===== *)
theory DpllNetlink
  imports Netlink Dpll GoStrings
begin

text \<open>
  Access to the DPLLs over generic netlink (\<open>pkg/dpll-netlink\<close>): device and pin replies read from
  their attributes, the command that sets a pin, the names of the values, and the rows of the pin
  tables. Requests, the connection and the printing of tables are left out. A command that is sent
  is read back by the parser of pins; the row of a locked device is the pin the monitor follows.
\<close>

section \<open>Attribute numbers\<close>

abbreviation DpllID :: nat where "DpllID \<equiv> 1"
abbreviation DpllModuleName :: nat where "DpllModuleName \<equiv> 2"
abbreviation DpllClockID :: nat where "DpllClockID \<equiv> 4"
abbreviation DpllMode :: nat where "DpllMode \<equiv> 5"
abbreviation DpllModeSupported :: nat where "DpllModeSupported \<equiv> 6"
abbreviation DpllLockStatus :: nat where "DpllLockStatus \<equiv> 7"
abbreviation DpllTemp :: nat where "DpllTemp \<equiv> 8"
abbreviation DpllType :: nat where "DpllType \<equiv> 9"
abbreviation DpllLockStatusError :: nat where "DpllLockStatusError \<equiv> 10"
abbreviation DpllClockQualityLevel :: nat where "DpllClockQualityLevel \<equiv> 11"
abbreviation DpllPhaseOffsetMonitor :: nat where "DpllPhaseOffsetMonitor \<equiv> 12"
abbreviation DpllPhaseOffsetAverageFactor :: nat where "DpllPhaseOffsetAverageFactor \<equiv> 13"
abbreviation DpllFrequencyMonitor :: nat where "DpllFrequencyMonitor \<equiv> 14"

abbreviation DpllPinID :: nat where "DpllPinID \<equiv> 1"
abbreviation DpllPinParentID :: nat where "DpllPinParentID \<equiv> 2"
abbreviation DpllPinModuleName :: nat where "DpllPinModuleName \<equiv> 3"
abbreviation DpllPinClockID :: nat where "DpllPinClockID \<equiv> 5"
abbreviation DpllPinBoardLabel :: nat where "DpllPinBoardLabel \<equiv> 6"
abbreviation DpllPinPanelLabel :: nat where "DpllPinPanelLabel \<equiv> 7"
abbreviation DpllPinPackageLabel :: nat where "DpllPinPackageLabel \<equiv> 8"
abbreviation DpllPinType :: nat where "DpllPinType \<equiv> 9"
abbreviation DpllPinDirection :: nat where "DpllPinDirection \<equiv> 10"
abbreviation DpllPinFrequency :: nat where "DpllPinFrequency \<equiv> 11"
abbreviation DpllPinFrequencySupported :: nat where "DpllPinFrequencySupported \<equiv> 12"
abbreviation DpllPinFrequencyMin :: nat where "DpllPinFrequencyMin \<equiv> 13"
abbreviation DpllPinFrequencyMax :: nat where "DpllPinFrequencyMax \<equiv> 14"
abbreviation DpllPinPrio :: nat where "DpllPinPrio \<equiv> 15"
abbreviation DpllPinState :: nat where "DpllPinState \<equiv> 16"
abbreviation DpllPinCapabilities :: nat where "DpllPinCapabilities \<equiv> 17"
abbreviation DpllPinParentDevice :: nat where "DpllPinParentDevice \<equiv> 18"
abbreviation DpllPinParentPin :: nat where "DpllPinParentPin \<equiv> 19"
abbreviation DpllPinPhaseAdjustMin :: nat where "DpllPinPhaseAdjustMin \<equiv> 20"
abbreviation DpllPinPhaseAdjustMax :: nat where "DpllPinPhaseAdjustMax \<equiv> 21"
abbreviation DpllPinPhaseAdjust :: nat where "DpllPinPhaseAdjust \<equiv> 22"
abbreviation DpllPinPhaseOffset :: nat where "DpllPinPhaseOffset \<equiv> 23"
abbreviation DpllPinFractionalFrequencyOffset :: nat where "DpllPinFractionalFrequencyOffset \<equiv> 24"
abbreviation DpllPinEsyncFrequency :: nat where "DpllPinEsyncFrequency \<equiv> 25"
abbreviation DpllPinEsyncFrequencySupported :: nat where "DpllPinEsyncFrequencySupported \<equiv> 26"
abbreviation DpllPinEsyncPulse :: nat where "DpllPinEsyncPulse \<equiv> 27"
abbreviation DpllPinReferenceSync :: nat where "DpllPinReferenceSync \<equiv> 28"
abbreviation DpllPinPhaseAdjustGran :: nat where "DpllPinPhaseAdjustGran \<equiv> 29"
abbreviation DpllPinFractionalFrequencyOffsetPPT :: nat where "DpllPinFractionalFrequencyOffsetPPT \<equiv> 30"
abbreviation DpllPinMeasuredFrequency :: nat where "DpllPinMeasuredFrequency \<equiv> 31"
abbreviation DpllPinOperstate :: nat where "DpllPinOperstate \<equiv> 32"

section \<open>Replies\<close>

record device_reply =
  dr_ID :: u32
  dr_ModuleName :: string
  dr_Mode :: u32
  dr_ModeSupported :: "u32 list"
  dr_LockStatus :: u32
  dr_Temp :: int
  dr_ClockID :: u64
  dr_Type :: u32
  dr_LockStatusError :: u32
  dr_ClockQualityLevel :: "u32 list"
  dr_PhaseOffsetMonitor :: u32
  dr_PhaseOffsetAverageFactor :: u32
  dr_FrequencyMonitor :: u32

record parent_device =
  pd_ParentID :: u32
  pd_Direction :: u32
  pd_Prio :: "u32 option"
  pd_State :: u32
  pd_PhaseOffset :: int
  pd_Operstate :: u32
  pd_FFO :: int
  pd_FFOPPT :: int

record pin_info =
  pi_ID :: u32
  pi_ParentID :: u32
  pi_ModuleName :: string
  pi_ClockID :: u64
  pi_BoardLabel :: string
  pi_PanelLabel :: string
  pi_PackageLabel :: string
  pi_Type :: u32
  pi_Frequency :: u64
  pi_FrequencySupported :: "(u64 \<times> u64) list"
  pi_Capabilities :: u32
  pi_ParentDevice :: "parent_device list"
  pi_ParentPin :: "(u32 \<times> u32) list"
  pi_PhaseAdjustMin :: int
  pi_PhaseAdjustMax :: int
  pi_PhaseAdjust :: int
  pi_PhaseOffset :: int
  pi_FFO :: int
  pi_FFOPPT :: int
  pi_EsyncFrequency :: int
  pi_EsyncFrequencySupported :: "(u64 \<times> u64) list"
  pi_EsyncPulse :: u32
  pi_ReferenceSync :: "u32 list"
  pi_PhaseAdjustGran :: u32
  pi_MeasuredFrequency :: u64
  pi_Operstate :: u32

definition empty_device :: device_reply where
  "empty_device = \<lparr>dr_ID = 0, dr_ModuleName = '''', dr_Mode = 0, dr_ModeSupported = [], dr_LockStatus = 0, dr_Temp = 0,
     dr_ClockID = 0, dr_Type = 0, dr_LockStatusError = 0, dr_ClockQualityLevel = [], dr_PhaseOffsetMonitor = 0,
     dr_PhaseOffsetAverageFactor = 0, dr_FrequencyMonitor = 0\<rparr>"

text \<open>The phase offset starts at the largest value, so that it can be seen whether it was reported.\<close>

definition empty_parent :: parent_device where
  "empty_parent = \<lparr>pd_ParentID = 0, pd_Direction = 0, pd_Prio = None, pd_State = 0, pd_PhaseOffset = 2 ^ 63 - 1,
     pd_Operstate = 0, pd_FFO = 0, pd_FFOPPT = 0\<rparr>"

definition empty_pin :: pin_info where
  "empty_pin = \<lparr>pi_ID = 0, pi_ParentID = 0, pi_ModuleName = '''', pi_ClockID = 0, pi_BoardLabel = '''', pi_PanelLabel = '''',
     pi_PackageLabel = '''', pi_Type = 0, pi_Frequency = 0, pi_FrequencySupported = [], pi_Capabilities = 0,
     pi_ParentDevice = [], pi_ParentPin = [], pi_PhaseAdjustMin = 0, pi_PhaseAdjustMax = 0, pi_PhaseAdjust = 0,
     pi_PhaseOffset = 0, pi_FFO = 0, pi_FFOPPT = 0, pi_EsyncFrequency = 0, pi_EsyncFrequencySupported = [],
     pi_EsyncPulse = 0, pi_ReferenceSync = [], pi_PhaseAdjustGran = 0, pi_MeasuredFrequency = 0, pi_Operstate = 0\<rparr>"

section \<open>Reading\<close>

text \<open>\<open>decodeSint\<close>: four or eight bytes, whichever the kernel chose.\<close>

definition decodeSint :: "attribute \<Rightarrow> int option" where
  "decodeSint a =
     (if length (at_Data a) = 4 then ad_Int32 a
      else if length (at_Data a) = 8 then ad_Int64 a
      else None)"

text \<open>The loop over the attributes of one message, or of a nested one.\<close>

fun read_attrs :: "(attribute \<Rightarrow> 'a \<Rightarrow> 'a option) \<Rightarrow> attribute list \<Rightarrow> 'a \<Rightarrow> 'a option" where
  "read_attrs f [] x = Some x"
| "read_attrs f (a # as) x = (case f a x of None \<Rightarrow> None | Some y \<Rightarrow> read_attrs f as y)"

definition ad_Nested :: "(attribute \<Rightarrow> 'a \<Rightarrow> 'a option) \<Rightarrow> 'a \<Rightarrow> attribute \<Rightarrow> 'a option" where
  "ad_Nested f x a = (case UnmarshalAttributes (at_Data a) of None \<Rightarrow> None | Some as \<Rightarrow> read_attrs f as x)"

definition device_attr :: "attribute \<Rightarrow> device_reply \<Rightarrow> device_reply option" where
  "device_attr a r =
     (let t = at_type a in
      if t = DpllID then map_option (\<lambda>v. r\<lparr>dr_ID := v\<rparr>) (ad_Uint32 a)
      else if t = DpllModuleName then Some (r\<lparr>dr_ModuleName := ad_String a\<rparr>)
      else if t = DpllMode then map_option (\<lambda>v. r\<lparr>dr_Mode := v\<rparr>) (ad_Uint32 a)
      else if t = DpllModeSupported then map_option (\<lambda>v. r\<lparr>dr_ModeSupported := dr_ModeSupported r @ [v]\<rparr>) (ad_Uint32 a)
      else if t = DpllLockStatus then map_option (\<lambda>v. r\<lparr>dr_LockStatus := v\<rparr>) (ad_Uint32 a)
      else if t = DpllTemp then map_option (\<lambda>v. r\<lparr>dr_Temp := v\<rparr>) (ad_Int32 a)
      else if t = DpllClockID then map_option (\<lambda>v. r\<lparr>dr_ClockID := v\<rparr>) (ad_Uint64 a)
      else if t = DpllType then map_option (\<lambda>v. r\<lparr>dr_Type := v\<rparr>) (ad_Uint32 a)
      else if t = DpllLockStatusError then map_option (\<lambda>v. r\<lparr>dr_LockStatusError := v\<rparr>) (ad_Uint32 a)
      else if t = DpllClockQualityLevel
           then map_option (\<lambda>v. r\<lparr>dr_ClockQualityLevel := dr_ClockQualityLevel r @ [v]\<rparr>) (ad_Uint32 a)
      else if t = DpllPhaseOffsetMonitor then map_option (\<lambda>v. r\<lparr>dr_PhaseOffsetMonitor := v\<rparr>) (ad_Uint32 a)
      else if t = DpllPhaseOffsetAverageFactor then map_option (\<lambda>v. r\<lparr>dr_PhaseOffsetAverageFactor := v\<rparr>) (ad_Uint32 a)
      else if t = DpllFrequencyMonitor then map_option (\<lambda>v. r\<lparr>dr_FrequencyMonitor := v\<rparr>) (ad_Uint32 a)
      else Some r)"

text \<open>A list of messages: an error in one of them is the error of all.\<close>

fun parse_messages :: "(attribute \<Rightarrow> 'a \<Rightarrow> 'a option) \<Rightarrow> 'a \<Rightarrow> u8 list list \<Rightarrow> 'a list option" where
  "parse_messages f x [] = Some []"
| "parse_messages f x (m # ms) =
     (case UnmarshalAttributes m of
        None \<Rightarrow> None
      | Some as \<Rightarrow> (case read_attrs f as x of None \<Rightarrow> None | Some r \<Rightarrow> map_option (\<lambda>rs. r # rs) (parse_messages f x ms)))"

definition ParseDeviceReplies :: "u8 list list \<Rightarrow> device_reply list option" where
  "ParseDeviceReplies msgs = parse_messages device_attr empty_device msgs"

definition frequency_attr :: "attribute \<Rightarrow> u64 \<times> u64 \<Rightarrow> (u64 \<times> u64) option" where
  "frequency_attr a r =
     (if at_type a = DpllPinFrequencyMin then map_option (\<lambda>v. (v, snd r)) (ad_Uint64 a)
      else if at_type a = DpllPinFrequencyMax then map_option (\<lambda>v. (fst r, v)) (ad_Uint64 a)
      else Some r)"

definition parent_attr :: "attribute \<Rightarrow> parent_device \<Rightarrow> parent_device option" where
  "parent_attr a r =
     (let t = at_type a in
      if t = DpllPinParentID then map_option (\<lambda>v. r\<lparr>pd_ParentID := v\<rparr>) (ad_Uint32 a)
      else if t = DpllPinDirection then map_option (\<lambda>v. r\<lparr>pd_Direction := v\<rparr>) (ad_Uint32 a)
      else if t = DpllPinPrio then map_option (\<lambda>v. r\<lparr>pd_Prio := Some v\<rparr>) (ad_Uint32 a)
      else if t = DpllPinState then map_option (\<lambda>v. r\<lparr>pd_State := v\<rparr>) (ad_Uint32 a)
      else if t = DpllPinPhaseOffset then map_option (\<lambda>v. r\<lparr>pd_PhaseOffset := v\<rparr>) (ad_Int64 a)
      else if t = DpllPinOperstate then map_option (\<lambda>v. r\<lparr>pd_Operstate := v\<rparr>) (ad_Uint32 a)
      else if t = DpllPinFractionalFrequencyOffset then map_option (\<lambda>v. r\<lparr>pd_FFO := v\<rparr>) (decodeSint a)
      else if t = DpllPinFractionalFrequencyOffsetPPT then map_option (\<lambda>v. r\<lparr>pd_FFOPPT := v\<rparr>) (decodeSint a)
      else Some r)"

definition parent_pin_attr :: "attribute \<Rightarrow> u32 \<times> u32 \<Rightarrow> (u32 \<times> u32) option" where
  "parent_pin_attr a r =
     (if at_type a = DpllPinParentID then map_option (\<lambda>v. (v, snd r)) (ad_Uint32 a)
      else if at_type a = DpllPinState then map_option (\<lambda>v. (fst r, v)) (ad_Uint32 a)
      else Some r)"

definition reference_attr :: "attribute \<Rightarrow> u32 \<Rightarrow> u32 option" where
  "reference_attr a r = (if at_type a = DpllPinID then ad_Uint32 a else Some r)"

definition pin_attr :: "attribute \<Rightarrow> pin_info \<Rightarrow> pin_info option" where
  "pin_attr a r =
     (let t = at_type a in
      if t = DpllPinID then map_option (\<lambda>v. r\<lparr>pi_ID := v\<rparr>) (ad_Uint32 a)
      else if t = DpllPinParentID then map_option (\<lambda>v. r\<lparr>pi_ParentID := v\<rparr>) (ad_Uint32 a)
      else if t = DpllPinModuleName then Some (r\<lparr>pi_ModuleName := ad_String a\<rparr>)
      else if t = DpllPinClockID then map_option (\<lambda>v. r\<lparr>pi_ClockID := v\<rparr>) (ad_Uint64 a)
      else if t = DpllPinBoardLabel then Some (r\<lparr>pi_BoardLabel := ad_String a\<rparr>)
      else if t = DpllPinPanelLabel then Some (r\<lparr>pi_PanelLabel := ad_String a\<rparr>)
      else if t = DpllPinPackageLabel then Some (r\<lparr>pi_PackageLabel := ad_String a\<rparr>)
      else if t = DpllPinType then map_option (\<lambda>v. r\<lparr>pi_Type := v\<rparr>) (ad_Uint32 a)
      else if t = DpllPinFrequency then map_option (\<lambda>v. r\<lparr>pi_Frequency := v\<rparr>) (ad_Uint64 a)
      else if t = DpllPinFrequencySupported
           then map_option (\<lambda>v. r\<lparr>pi_FrequencySupported := pi_FrequencySupported r @ [v]\<rparr>) (ad_Nested frequency_attr (0, 0) a)
      else if t = DpllPinCapabilities then map_option (\<lambda>v. r\<lparr>pi_Capabilities := v\<rparr>) (ad_Uint32 a)
      else if t = DpllPinParentDevice
           then map_option (\<lambda>v. r\<lparr>pi_ParentDevice := pi_ParentDevice r @ [v]\<rparr>) (ad_Nested parent_attr empty_parent a)
      else if t = DpllPinParentPin
           then map_option (\<lambda>v. r\<lparr>pi_ParentPin := pi_ParentPin r @ [v]\<rparr>) (ad_Nested parent_pin_attr (0, 0) a)
      else if t = DpllPinPhaseAdjustMin then map_option (\<lambda>v. r\<lparr>pi_PhaseAdjustMin := v\<rparr>) (ad_Int32 a)
      else if t = DpllPinPhaseAdjustMax then map_option (\<lambda>v. r\<lparr>pi_PhaseAdjustMax := v\<rparr>) (ad_Int32 a)
      else if t = DpllPinPhaseAdjust then map_option (\<lambda>v. r\<lparr>pi_PhaseAdjust := v\<rparr>) (ad_Int32 a)
      else if t = DpllPinPhaseOffset then map_option (\<lambda>v. r\<lparr>pi_PhaseOffset := v\<rparr>) (ad_Int64 a)
      else if t = DpllPinFractionalFrequencyOffset then map_option (\<lambda>v. r\<lparr>pi_FFO := v\<rparr>) (decodeSint a)
      else if t = DpllPinEsyncFrequency then map_option (\<lambda>v. r\<lparr>pi_EsyncFrequency := v\<rparr>) (ad_Int64 a)
      else if t = DpllPinEsyncFrequencySupported
           then map_option (\<lambda>v. r\<lparr>pi_EsyncFrequencySupported := pi_EsyncFrequencySupported r @ [v]\<rparr>)
                  (ad_Nested frequency_attr (0, 0) a)
      else if t = DpllPinEsyncPulse then map_option (\<lambda>v. r\<lparr>pi_EsyncPulse := v\<rparr>) (ad_Uint32 a)
      else if t = DpllPinReferenceSync
           then map_option (\<lambda>v. r\<lparr>pi_ReferenceSync := pi_ReferenceSync r @ [v]\<rparr>) (ad_Nested reference_attr 0 a)
      else if t = DpllPinPhaseAdjustGran then map_option (\<lambda>v. r\<lparr>pi_PhaseAdjustGran := v\<rparr>) (ad_Uint32 a)
      else if t = DpllPinFractionalFrequencyOffsetPPT then map_option (\<lambda>v. r\<lparr>pi_FFOPPT := v\<rparr>) (decodeSint a)
      else if t = DpllPinMeasuredFrequency then map_option (\<lambda>v. r\<lparr>pi_MeasuredFrequency := v\<rparr>) (ad_Uint64 a)
      else if t = DpllPinOperstate then map_option (\<lambda>v. r\<lparr>pi_Operstate := v\<rparr>) (ad_Uint32 a)
      else Some r)"

definition ParsePinReplies :: "u8 list list \<Rightarrow> pin_info list option" where
  "ParsePinReplies msgs = parse_messages pin_attr empty_pin msgs"

text \<open>\<open>DoPinGet\<close> and \<open>DoDeviceGet\<close> take the only reply.\<close>

definition only_reply :: "'a list option \<Rightarrow> 'a option" where
  "only_reply rs = (case rs of Some [r] \<Rightarrow> Some r | _ \<Rightarrow> None)"

section \<open>Setting a pin\<close>

record pin_control =
  pn_PinParentID :: u32
  pn_Direction :: "u32 option"
  pn_Prio :: "u32 option"
  pn_State :: "u32 option"

record pin_command =
  cm_ID :: u32
  cm_Frequency :: "u64 option"
  cm_PhaseAdjust :: "u32 option"
  cm_EsyncFrequency :: "u64 option"
  cm_PinParentCtl :: "pin_control list option"

text \<open>The slice of parent controls may be nil, which is \<open>None\<close>.\<close>

definition command_controls :: "pin_command \<Rightarrow> pin_control list" where
  "command_controls c = (case cm_PinParentCtl c of None \<Rightarrow> [] | Some pcs \<Rightarrow> pcs)"

definition opt_attr :: "('v \<Rightarrow> attribute) \<Rightarrow> 'v option \<Rightarrow> attribute list" where
  "opt_attr f v = (case v of None \<Rightarrow> [] | Some x \<Rightarrow> [f x])"

definition control_attrs :: "pin_control \<Rightarrow> attribute list" where
  "control_attrs pc =
     [attr_u32 DpllPinParentID (pn_PinParentID pc)] @ opt_attr (attr_u32 DpllPinState) (pn_State pc) @
     opt_attr (attr_u32 DpllPinPrio) (pn_Prio pc) @ opt_attr (attr_u32 DpllPinDirection) (pn_Direction pc)"

fun nested_controls :: "pin_control list \<Rightarrow> attribute list option" where
  "nested_controls [] = Some []"
| "nested_controls (pc # pcs) =
     (case attr_nested DpllPinParentDevice (control_attrs pc) of
        None \<Rightarrow> None
      | Some a \<Rightarrow> map_option (\<lambda>as. a # as) (nested_controls pcs))"

text \<open>The phase adjustment is an \<open>int32\<close>, here by its bits.\<close>

definition EncodePinControl :: "pin_command \<Rightarrow> u8 list option" where
  "EncodePinControl req =
     (case nested_controls (command_controls req) of
        None \<Rightarrow> None
      | Some ns \<Rightarrow>
          MarshalAttributes
            ([attr_u32 DpllPinID (cm_ID req)] @ opt_attr (attr_u32 DpllPinPhaseAdjust) (cm_PhaseAdjust req) @
             opt_attr (attr_u64 DpllPinEsyncFrequency) (cm_EsyncFrequency req) @
             opt_attr (attr_u64 DpllPinFrequency) (cm_Frequency req) @ ns))"

text \<open>What the parser of pins makes of a command.\<close>

definition control_parent :: "pin_control \<Rightarrow> parent_device" where
  "control_parent pc =
     empty_parent\<lparr>pd_ParentID := pn_PinParentID pc, pd_State := (case pn_State pc of Some s \<Rightarrow> s | None \<Rightarrow> 0),
       pd_Prio := pn_Prio pc, pd_Direction := (case pn_Direction pc of Some d \<Rightarrow> d | None \<Rightarrow> 0)\<rparr>"

definition command_pin :: "pin_command \<Rightarrow> pin_info" where
  "command_pin c =
     empty_pin\<lparr>pi_ID := cm_ID c, pi_PhaseAdjust := (case cm_PhaseAdjust c of Some v \<Rightarrow> sint v | None \<Rightarrow> 0),
       pi_EsyncFrequency := (case cm_EsyncFrequency c of Some v \<Rightarrow> sint v | None \<Rightarrow> 0),
       pi_Frequency := (case cm_Frequency c of Some v \<Rightarrow> v | None \<Rightarrow> 0),
       pi_ParentDevice := map control_parent (command_controls c)\<rparr>"

section \<open>A command is read back\<close>

lemma read_attrs_append:
  "read_attrs f (xs @ ys) x = (case read_attrs f xs x of None \<Rightarrow> None | Some y \<Rightarrow> read_attrs f ys y)"
  by (induction xs arbitrary: x) (auto split: option.splits)

lemma control_attrs_fit: "list_all fits (control_attrs pc)"
  by (auto simp: control_attrs_def opt_attr_def split: option.splits)

lemma length_marshal_u32 [simp]: "length (marshal (attr_u32 t v)) = 8"
  by (simp add: marshal_def attr_u32_def nlaAlign_def)

lemma control_bytes_bound: "length (concat (map marshal (control_attrs pc))) \<le> 32"
  by (auto simp: control_attrs_def opt_attr_def split: option.splits)

lemma control_nested:
  obtains a where "attr_nested DpllPinParentDevice (control_attrs pc) = Some a" "at_type a = DpllPinParentDevice"
    "fits a" "ad_Nested parent_attr empty_parent a = Some (control_parent pc)"
proof -
  let ?b = "concat (map marshal (control_attrs pc))"
  have m: "MarshalAttributes (control_attrs pc) = Some ?b" by (rule MarshalAttributes_small [OF control_attrs_fit])
  let ?a = "\<lparr>at_Type = nested_type DpllPinParentDevice, at_Data = ?b\<rparr>"
  have a: "attr_nested DpllPinParentDevice (control_attrs pc) = Some ?a"
    using control_bytes_bound [of pc] by (simp add: attr_nested_def m)
  have "UnmarshalAttributes ?b = Some (control_attrs pc)"
    by (rule UnmarshalAttributes_Marshal [OF m control_attrs_fit])
  moreover have "read_attrs parent_attr (control_attrs pc) empty_parent = Some (control_parent pc)"
    by (auto simp: control_attrs_def opt_attr_def parent_attr_def control_parent_def empty_parent_def split: option.splits)
  ultimately have "ad_Nested parent_attr empty_parent ?a = Some (control_parent pc)" by (simp add: ad_Nested_def)
  with a show ?thesis using that [OF a at_type_nested [OF _ a] fits_nested [OF a]] by simp
qed

lemma nested_controls_read:
  "\<exists>ns. nested_controls pcs = Some ns \<and> list_all fits ns \<and>
     read_attrs pin_attr ns r = Some (r\<lparr>pi_ParentDevice := pi_ParentDevice r @ map control_parent pcs\<rparr>)"
proof (induction pcs arbitrary: r)
  case (Cons pc pcs)
  obtain a where a: "attr_nested DpllPinParentDevice (control_attrs pc) = Some a" "at_type a = DpllPinParentDevice"
    "fits a" "ad_Nested parent_attr empty_parent a = Some (control_parent pc)" by (rule control_nested)
  obtain ns where ns: "nested_controls pcs = Some ns" "list_all fits ns"
    "read_attrs pin_attr ns (r\<lparr>pi_ParentDevice := pi_ParentDevice r @ [control_parent pc]\<rparr>) =
       Some (r\<lparr>pi_ParentDevice := pi_ParentDevice r @ control_parent pc # map control_parent pcs\<rparr>)"
    using Cons [of "r\<lparr>pi_ParentDevice := pi_ParentDevice r @ [control_parent pc]\<rparr>"] by auto
  have "pin_attr a r = Some (r\<lparr>pi_ParentDevice := pi_ParentDevice r @ [control_parent pc]\<rparr>)"
    using a(2,4) by (simp add: pin_attr_def)
  then show ?case using a ns by simp
qed simp

text \<open>Every pin command is encoded, and the parser of pin replies reads back what was asked for.\<close>

lemma pin_command_reads_back:
  "\<exists>b. EncodePinControl c = Some b \<and> ParsePinReplies [b] = Some [command_pin c]"
proof -
  let ?hd = "[attr_u32 DpllPinID (cm_ID c)] @ opt_attr (attr_u32 DpllPinPhaseAdjust) (cm_PhaseAdjust c) @
             opt_attr (attr_u64 DpllPinEsyncFrequency) (cm_EsyncFrequency c) @
             opt_attr (attr_u64 DpllPinFrequency) (cm_Frequency c)"
  let ?r = "command_pin c\<lparr>pi_ParentDevice := []\<rparr>"
  have hd: "list_all fits ?hd" "read_attrs pin_attr ?hd empty_pin = Some ?r"
    by (auto simp: opt_attr_def pin_attr_def command_pin_def empty_pin_def ad_Int32_def ad_Int64_def split: option.splits)
  obtain ns where ns: "nested_controls (command_controls c) = Some ns" "list_all fits ns"
    "read_attrs pin_attr ns ?r = Some (command_pin c)"
    using nested_controls_read [of "command_controls c" ?r] by (auto simp: command_pin_def)
  have fit: "list_all fits (?hd @ ns)" using hd(1) ns(2) by simp
  let ?b = "concat (map marshal (?hd @ ns))"
  have m: "MarshalAttributes (?hd @ ns) = Some ?b" by (rule MarshalAttributes_small [OF fit])
  have "EncodePinControl c = Some ?b" using ns(1) m by (simp add: EncodePinControl_def)
  moreover have "UnmarshalAttributes ?b = Some (?hd @ ns)" by (rule UnmarshalAttributes_Marshal [OF m fit])
  moreover have "read_attrs pin_attr (?hd @ ns) empty_pin = Some (command_pin c)"
    by (simp only: read_attrs_append [of pin_attr ?hd ns] hd(2) option.case ns(3))
  ultimately show ?thesis by (auto simp: ParsePinReplies_def)
qed

text \<open>
  C22. Setting pins over netlink: every list of pin commands is encoded, and when the bytes are read by
  the parser of pin replies the pins it reports have, in order, the identifiers, frequencies (of the
  pin and of the embedded signal), phase adjustments and parent devices with their states, priorities
  and directions that were asked for; what was not asked for has its default.
\<close>

theorem pin_commands_read_back:
  "\<exists>bs. map EncodePinControl cs = map Some bs \<and> ParsePinReplies bs = Some (map command_pin cs)"
proof (induction cs)
  case Nil
  then show ?case by (simp add: ParsePinReplies_def)
next
  case (Cons c cs)
  then obtain bs where "map EncodePinControl cs = map Some bs" "ParsePinReplies bs = Some (map command_pin cs)"
    by blast
  moreover obtain b where "EncodePinControl c = Some b" "ParsePinReplies [b] = Some [command_pin c]"
    using pin_command_reads_back [of c] by blast
  ultimately have "map EncodePinControl (c # cs) = map Some (b # bs)"
    "ParsePinReplies (b # bs) = Some (map command_pin (c # cs))"
    by (auto simp: ParsePinReplies_def split: option.splits)
  then show ?case by blast
qed

section \<open>Names\<close>

unbundle bit_operations_syntax

definition GetLockStatusError :: "u32 \<Rightarrow> string" where
  "GetLockStatusError le =
     (if le = 1 then ''none'' else if le = 2 then ''undefined'' else if le = 3 then ''media-down''
      else if le = 4 then ''fto-too-high'' else '''')"

definition GetPhaseOffsetMonitor :: "u32 \<Rightarrow> string" where
  "GetPhaseOffsetMonitor po = (if po = 1 then ''enabled'' else if po = 2 then ''disabled'' else '''')"

definition GetFrequencyMonitor :: "u32 \<Rightarrow> string" where
  "GetFrequencyMonitor s = GetPhaseOffsetMonitor s"

definition GetPinOperstate :: "u32 \<Rightarrow> string" where
  "GetPinOperstate s =
     (if s = 1 then ''active'' else if s = 2 then ''standby'' else if s = 3 then ''no-signal''
      else if s = 4 then ''qual-failed'' else ''unknown'')"

definition GetClockQualityLevel :: "u32 \<Rightarrow> string" where
  "GetClockQualityLevel cq =
     (if cq = 0 \<or> cq = 1 then ''itu-opt1-prc'' else if cq = 2 then ''itu-opt1-ssua'' else if cq = 3 then ''itu-opt1-ssub''
      else if cq = 4 then ''itu-opt1-eec1'' else if cq = 5 then ''itu-opt1-prtc'' else if cq = 6 then ''itu-opt1-eprtc''
      else if cq = 7 then ''itu-opt1-eeec'' else if cq = 8 then ''itu-opt1-eprc'' else ''unknown'')"

definition GetClockQualityLevels :: "u32 list \<Rightarrow> string" where
  "GetClockQualityLevels cqs = join '','' (map GetClockQualityLevel cqs)"

definition GetLockStatus :: "u32 \<Rightarrow> string" where
  "GetLockStatus ls =
     (if ls = 1 then ''unlocked'' else if ls = 2 then ''locked'' else if ls = 3 then ''locked-ho-acquired''
      else if ls = 4 then ''holdover'' else ''unknown'')"

definition GetMode :: "u32 \<Rightarrow> string" where
  "GetMode md = (if md = 1 then ''manual'' else if md = 2 then ''automatic'' else ''unknown'')"

definition GetPinState :: "u32 \<Rightarrow> string" where
  "GetPinState s =
     (if s = 1 then ''connected'' else if s = 2 then ''disconnected'' else if s = 3 then ''selectable'' else ''unknown'')"

definition GetPinType :: "u32 \<Rightarrow> string" where
  "GetPinType tp =
     (if tp = 1 then ''mux'' else if tp = 2 then ''ext'' else if tp = 3 then ''synce-eth-port''
      else if tp = 4 then ''int-oscillator'' else if tp = 5 then ''gnss'' else ''unknown'')"

definition GetPinDirection :: "u32 \<Rightarrow> string" where
  "GetPinDirection d = (if d = 1 then ''input'' else if d = 2 then ''output'' else ''unknown'')"

definition GetPinCapabilities :: "u32 \<Rightarrow> string" where
  "GetPinCapabilities c =
     join '',''
       ((if c AND 4 \<noteq> 0 then [''state-can-change''] else []) @ (if c AND 1 \<noteq> 0 then [''direction-can-change''] else []) @
        (if c AND 2 \<noteq> 0 then [''priority-can-change''] else []))"

text \<open>The three parsers of names are case-insensitive and give 0 for what they do not know.\<close>

definition ParsePinType :: "string \<Rightarrow> u32" where
  "ParsePinType tp =
     (let t = lower tp in
      if t = ''mux'' then 1 else if t = ''ext'' then 2 else if t = ''synce-eth-port'' then 3
      else if t = ''int-oscillator'' then 4 else if t = ''gnss'' then 5 else 0)"

definition ParsePinDirection :: "string \<Rightarrow> u32" where
  "ParsePinDirection d = (let t = lower d in if t = ''input'' then 1 else if t = ''output'' then 2 else 0)"

definition ParsePinState :: "string \<Rightarrow> u32" where
  "ParsePinState s =
     (let t = lower s in
      if t = ''connected'' then 1 else if t = ''disconnected'' then 2 else if t = ''selectable'' then 3 else 0)"

lemma parse_names:
  "ParsePinType ''mux'' = 1" "ParsePinType ''ext'' = 2" "ParsePinType ''synce-eth-port'' = 3"
  "ParsePinType ''int-oscillator'' = 4" "ParsePinType ''gnss'' = 5" "ParsePinType ''unknown'' = 0"
  "ParsePinDirection ''input'' = 1" "ParsePinDirection ''output'' = 2" "ParsePinDirection ''unknown'' = 0"
  "ParsePinState ''connected'' = 1" "ParsePinState ''disconnected'' = 2" "ParsePinState ''selectable'' = 3"
  "ParsePinState ''unknown'' = 0"
  by code_simp+

lemma pin_names_read_back:
  "ParsePinType (GetPinType tp) = (if tp \<in> {1, 2, 3, 4, 5} then tp else 0)"
  "ParsePinDirection (GetPinDirection d) = (if d \<in> {1, 2} then d else 0)"
  "ParsePinState (GetPinState s) = (if s \<in> {1, 2, 3} then s else 0)"
  unfolding GetPinType_def GetPinDirection_def GetPinState_def by (simp_all add: parse_names)

text \<open>An unknown operational state has a name, an unknown state of a monitor has none.\<close>

lemma unknown_names: "GetPinOperstate 9 = ''unknown''" "GetFrequencyMonitor 9 = ''''" "GetLockStatusError 9 = ''''"
  by (simp_all add: GetPinOperstate_def GetFrequencyMonitor_def GetPhaseOffsetMonitor_def GetLockStatusError_def)

definition show_control :: "pin_control \<Rightarrow> string" where
  "show_control p =
     ''parentID='' @ show_nat (unat (pn_PinParentID p)) @
     (case pn_Direction p of None \<Rightarrow> '''' | Some d \<Rightarrow> '' direction='' @ GetPinDirection d) @
     (case pn_Prio p of None \<Rightarrow> '''' | Some v \<Rightarrow> '' prio='' @ show_nat (unat v)) @
     (case pn_State p of None \<Rightarrow> '''' | Some s \<Rightarrow> '' state='' @ GetPinState s)"

definition show_command :: "pin_command \<Rightarrow> string" where
  "show_command p =
     ''PinParentDeviceCtl{'' @ ''id='' @ show_nat (unat (cm_ID p)) @
     (case cm_Frequency p of None \<Rightarrow> '''' | Some v \<Rightarrow> '' frequency='' @ show_nat (unat v)) @
     (case cm_PhaseAdjust p of None \<Rightarrow> '''' | Some v \<Rightarrow> '' phaseAdjust='' @ show_int (sint v)) @
     (case cm_EsyncFrequency p of None \<Rightarrow> '''' | Some v \<Rightarrow> '' esyncFrequency='' @ show_nat (unat v)) @
     (if command_controls p = [] then '''' else '' pinParent=['' @ join '', '' (map show_control (command_controls p)) @ '']'') @ ''}''"

section \<open>Pin tables\<close>

definition isLockedState :: "u32 \<Rightarrow> bool" where
  "isLockedState lockStatus \<longleftrightarrow> lockStatus = 2 \<or> lockStatus = 3"

definition isEnabledParent :: "parent_device \<Rightarrow> bool" where
  "isEnabledParent pd \<longleftrightarrow> pd_State pd = 3 \<or> pd_State pd = 1"

definition isActiveParent :: "parent_device \<Rightarrow> bool" where
  "isActiveParent pd \<longleftrightarrow> pd_State pd = 1 \<or> pd_Operstate pd = 1"

record pin_row =
  pr_id :: u32
  pr_boardLabel :: string
  pr_packageLabel :: string
  pr_prio :: string
  pr_admin :: string
  pr_oper :: string

definition row_columns :: "pin_row \<Rightarrow> string list" where
  "row_columns r = [show_nat (unat (pr_id r)), pr_boardLabel r, pr_packageLabel r, pr_prio r, pr_admin r, pr_oper r]"

definition show_prio :: "parent_device \<Rightarrow> string" where
  "show_prio pd = (case pd_Prio pd of None \<Rightarrow> ''n/a'' | Some v \<Rightarrow> show_nat (unat v))"

definition row_parent :: "u32 \<Rightarrow> u32 \<Rightarrow> parent_device \<Rightarrow> bool" where
  "row_parent deviceID lockStatus pd \<longleftrightarrow>
     pd_ParentID pd = deviceID \<and> pd_Direction pd = 1 \<and>
     (if isLockedState lockStatus then isActiveParent pd else isEnabledParent pd)"

definition pin_row_of :: "u64 \<Rightarrow> u32 \<Rightarrow> u32 \<Rightarrow> pin_info \<Rightarrow> pin_row option" where
  "pin_row_of clockID deviceID lockStatus pin =
     (if pi_ClockID pin \<noteq> clockID then None
      else map_option
             (\<lambda>pd. \<lparr>pr_id = pi_ID pin, pr_boardLabel = pi_BoardLabel pin, pr_packageLabel = pi_PackageLabel pin,
                    pr_prio = show_prio pd, pr_admin = GetPinState (pd_State pd), pr_oper = GetPinOperstate (pd_Operstate pd)\<rparr>)
             (find (row_parent deviceID lockStatus) (pi_ParentDevice pin)))"

definition buildPinRows :: "pin_info list \<Rightarrow> u64 \<Rightarrow> u32 \<Rightarrow> u32 \<Rightarrow> pin_row list" where
  "buildPinRows pins clockID deviceID lockStatus = List.map_filter (pin_row_of clockID deviceID lockStatus) pins"

text \<open>The rows of \<open>LogPins\<close>: every parent device of every pin.\<close>

definition LogPins_rows :: "pin_info list \<Rightarrow> string list list" where
  "LogPins_rows pins =
     concat (map (\<lambda>pin. map (\<lambda>pd.
         [show_nat (unat (pi_ID pin)), pi_BoardLabel pin, pi_PackageLabel pin, GetPinDirection (pd_Direction pd),
          show_prio pd, GetPinState (pd_State pd), GetPinOperstate (pd_Operstate pd)]) (pi_ParentDevice pin)) pins)"

text \<open>What the monitor of \<open>Dpll\<close> sees of a pin and of a device.\<close>

definition nl_pin_of :: "pin_info \<Rightarrow> nl_pin" where
  "nl_pin_of pin = \<lparr>pn_ClockID = pi_ClockID pin, pn_ParentDevice =
     map (\<lambda>pd. \<lparr>np_ParentID = pd_ParentID pd, np_Direction = pd_Direction pd, np_State = pd_State pd,
                np_PhaseOffset = pd_PhaseOffset pd, np_Operstate = pd_Operstate pd\<rparr>) (pi_ParentDevice pin)\<rparr>"

definition nl_device_of :: "device_reply \<Rightarrow> nl_device" where
  "nl_device_of r = \<lparr>nd_ID = dr_ID r, nd_ClockID = dr_ClockID r, nd_Type = dr_Type r, nd_LockStatus = dr_LockStatus r\<rparr>"

text \<open>
  The table printed when the PPS device of a clock locks shows exactly the pins whose phase offset
  the monitor of that clock follows, if the clock has one PPS device.
\<close>

lemma active_parent_find:
  assumes "\<forall>i. (\<exists>dev \<in> set devices. nd_ID dev = i \<and> nd_ClockID dev = cid \<and> GetDpllType (nd_Type dev) = ''pps'') \<longleftrightarrow> i = deviceID"
    "isLockedState lockStatus"
  shows "active_parent devices cid (pn_ParentDevice (nl_pin_of pin)) =
    map_option (\<lambda>pd. \<lparr>np_ParentID = pd_ParentID pd, np_Direction = pd_Direction pd, np_State = pd_State pd,
                np_PhaseOffset = pd_PhaseOffset pd, np_Operstate = pd_Operstate pd\<rparr>)
      (find (row_parent deviceID lockStatus) (pi_ParentDevice pin))"
proof -
  have "active_parent devices cid (map (\<lambda>pd. \<lparr>np_ParentID = pd_ParentID pd, np_Direction = pd_Direction pd, np_State = pd_State pd,
                np_PhaseOffset = pd_PhaseOffset pd, np_Operstate = pd_Operstate pd\<rparr>) pds) =
      map_option (\<lambda>pd. \<lparr>np_ParentID = pd_ParentID pd, np_Direction = pd_Direction pd, np_State = pd_State pd,
                np_PhaseOffset = pd_PhaseOffset pd, np_Operstate = pd_Operstate pd\<rparr>)
        (find (row_parent deviceID lockStatus) pds)" for pds
  proof (induction pds)
    case (Cons pd pds)
    have "list_ex (\<lambda>dev. nd_ID dev = pd_ParentID pd \<and> nd_ClockID dev = cid \<and> GetDpllType (nd_Type dev) = ''pps'') devices
        \<longleftrightarrow> pd_ParentID pd = deviceID"
      using assms(1) by (simp add: list_ex_iff)
    with Cons assms(2) show ?case by (auto simp: row_parent_def isActiveParent_def)
  qed simp
  then show ?thesis by (simp add: nl_pin_of_def)
qed

lemma locked_table_shows_followed_pins:
  assumes "\<forall>i. (\<exists>dev \<in> set (dl_devices d). nd_ID dev = i \<and> nd_ClockID dev = dl_clockId d \<and> GetDpllType (nd_Type dev) = ''pps'')
      \<longleftrightarrow> i = deviceID"
    "isLockedState lockStatus"
  shows "map pr_id (buildPinRows pins (dl_clockId d) deviceID lockStatus) =
    map pi_ID (filter (\<lambda>pin. ActivePhaseOffsetPin (nl_pin_of pin) d \<noteq> None) pins)"
proof (induction pins)
  case Nil then show ?case by (simp add: buildPinRows_def List.map_filter_simps)
next
  case (Cons pin pins)
  have "active_parent (dl_devices d) (dl_clockId d) (pn_ParentDevice (nl_pin_of pin)) \<noteq> None \<longleftrightarrow>
      find (row_parent deviceID lockStatus) (pi_ParentDevice pin) \<noteq> None"
    by (simp add: active_parent_find [OF assms])
  moreover have "pn_ClockID (nl_pin_of pin) = pi_ClockID pin" by (simp add: nl_pin_of_def)
  ultimately show ?case using Cons
    by (auto simp: buildPinRows_def List.map_filter_simps pin_row_of_def ActivePhaseOffsetPin_def split: option.splits)
qed

end
