(* ===== verification/HwModel.thy ===== *)
theory HwModel
  imports DpllNetlink Profile
begin

text \<open>
  The hardware configurations of the operator's API (\<open>api/v2alpha1\<close>) with what \<open>pkg/hardwareconfig\<close>
  reads of them, the cache of DPLL pins, and the clock identifiers made from serial numbers
  (\<open>utils.go\<close>). A map is an association list; where the code iterates over one, the order of the
  list is the order of that iteration. Commands of the host (ethtool, devlink, lspci) are parameters.
\<close>

section \<open>The API\<close>

record pin_config =
  pc_Connector :: string
  pc_PhaseAdjustment :: "int option"
  pc_Frequency :: "int option"
  pc_ESyncConfigName :: string
  pc_Description :: string

type_synonym pin_configs = "(string \<times> pin_config) list"

record holdover_parameters =
  ho_MaxInSpecOffset :: u64
  ho_LocalMaxHoldoverOffset :: u64
  ho_LocalHoldoverTimeout :: u64

record subsystem =
  sb_Name :: string
  sb_HardwareSpecificDefinitions :: string
  sb_NetworkInterface :: string
  sb_HoldoverParameters :: "holdover_parameters option"
  sb_PhaseInputs :: pin_configs
  sb_PhaseOutputs :: pin_configs
  sb_FrequencyInputs :: pin_configs
  sb_FrequencyOutputs :: pin_configs
  sb_Ethernet :: "string list list"

record esync_definition =
  es_Name :: string
  es_TransferFrequency :: int
  es_EmbeddedSyncFrequency :: int
  es_DutyCyclePct :: int

record desired_pin_state =
  dps_Priority :: "int option"
  dps_State :: string

record dpll_desired_state =
  dd_Subsystem :: string
  dd_BoardLabel :: string
  dd_EEC :: "desired_pin_state option"
  dd_PPS :: "desired_pin_state option"

record ptp_pin_state =
  pt_Name :: string
  pt_Func :: int
  pt_Chan :: int
  pt_SourceName :: string
  pt_Description :: string

record ptp_period_state =
  pe_Index :: int
  pe_Start :: "(int \<times> int) option"
  pe_Period :: "(int \<times> int) option"
  pe_SourceName :: string
  pe_Description :: string

record desired_state =
  de_DPLL :: "dpll_desired_state option"
  de_PTPPin :: "ptp_pin_state option"
  de_PTPPeriod :: "ptp_period_state option"

record source_state =
  ss_SourceName :: string
  ss_ConditionType :: string

record hw_condition =
  hc_Name :: string
  hc_Triggers :: "source_state list"
  hc_DesiredStates :: "desired_state list"

record ethernet_device =
  ed_Name :: string
  ed_PCIAddress :: string
  ed_PermanentMACAddress :: string
  ed_Slot :: string
  ed_VendorID :: string
  ed_DeviceID :: string

record gnss_matcher =
  gm_TTYDevice :: string
  gm_ACPI :: "(string \<times> string) option"
  gm_EthernetDevice :: "ethernet_device option"
  gm_USBDevice :: "(string \<times> string \<times> string) option"

record gnss_init =
  gi_AntennaVoltage :: bool
  gi_Constellations :: "string list"
  gi_ObservationTime :: int
  gi_Accuracy :: int
  gi_ExtraCommands :: "(string list \<times> bool) list"

record gnss_config =
  gc_Init :: gnss_init
  gc_Match :: "gnss_matcher option"

record source_config =
  sc_Name :: string
  sc_Subsystem :: string
  sc_SourceType :: string
  sc_BoardLabel :: string
  sc_PTPTimeReceivers :: "string list"
  sc_GNSSConfig :: "gnss_config option"

record hw_behavior =
  bh_Sources :: "source_config list"
  bh_Conditions :: "hw_condition list"

record clock_chain =
  cc_ESyncDefinitions :: "esync_definition list option"
  cc_Structure :: "subsystem list"
  cc_Behavior :: "hw_behavior option"

record gnss_status =
  gs_TTYDevice :: string
  gs_MatchResult :: string

record source_status =
  st_Name :: string
  st_Gnss :: "gnss_status option"

record hardware_config =
  hw_Name :: string
  hw_ProfileName :: "string option"
  hw_ClockType :: "string option"
  hw_ClockChain :: clock_chain
  hw_RelatedPtpProfileName :: string
  hw_StatusSources :: "source_status list"

section \<open>Subsystems\<close>

text \<open>The interface of a subsystem: the one named for the DPLL, or the first port.\<close>

definition firstInterface :: "subsystem \<Rightarrow> string" where
  "firstInterface s = (case sb_Ethernet s of (p # _) # _ \<Rightarrow> p | _ \<Rightarrow> '''')"

definition subsystem_interface :: "subsystem \<Rightarrow> string" where
  "subsystem_interface s = (if sb_NetworkInterface s = '''' then firstInterface s else sb_NetworkInterface s)"

definition find_subsystem :: "string \<Rightarrow> clock_chain \<Rightarrow> subsystem option" where
  "find_subsystem name cc = find (\<lambda>s. sb_Name s = name) (cc_Structure cc)"

definition GetSubsystemNetworkInterface :: "clock_chain \<Rightarrow> string \<Rightarrow> string option" where
  "GetSubsystemNetworkInterface cc name =
     (case find_subsystem name cc of
        None \<Rightarrow> None
      | Some s \<Rightarrow> if subsystem_interface s = '''' then None else Some (subsystem_interface s))"

text \<open>The empty path stands for no definition; \<open>None\<close> is the unknown subsystem.\<close>

definition getSubsystemHardwareDefinition :: "clock_chain \<Rightarrow> string \<Rightarrow> string option" where
  "getSubsystemHardwareDefinition cc name =
     map_option (\<lambda>s. TrimSpace (sb_HardwareSpecificDefinitions s)) (find_subsystem name cc)"

text \<open>A stored profile is the requested one when what follows its first underscore is its name.\<close>

definition ProfileNamesMatch :: "string \<Rightarrow> string \<Rightarrow> bool" where
  "ProfileNamesMatch stored requested \<longleftrightarrow>
     TrimSpace requested \<noteq> '''' \<and> (case Cut stored (CHR ''_'') of (_, rest, found) \<Rightarrow> found \<and> rest = requested)"

section \<open>The cache of pins\<close>

type_synonym pin_index = "(u64 \<times> string) \<Rightarrow> pin_info option"

record pin_cache =
  ca_BoardLabelPins :: "((u64 \<times> string) \<times> pin_info) list"
  ca_PackageLabelPins :: "((u64 \<times> string) \<times> pin_info) list"
  ca_parentDeviceTypes :: "(u32 \<times> u32) list"

definition cache_pin :: "pin_info \<Rightarrow> pin_cache \<Rightarrow> pin_cache" where
  "cache_pin pin c =
     (let c1 = (if pi_BoardLabel pin = '''' then c
                else c\<lparr>ca_BoardLabelPins := AList.update (pi_ClockID pin, pi_BoardLabel pin) pin (ca_BoardLabelPins c)\<rparr>)
      in if pi_PackageLabel pin = '''' then c1
         else c1\<lparr>ca_PackageLabelPins := AList.update (pi_ClockID pin, pi_PackageLabel pin) pin (ca_PackageLabelPins c1)\<rparr>)"

definition device_types :: "device_reply list \<Rightarrow> (u32 \<times> u32) list" where
  "device_types devices = fold (\<lambda>d m. AList.update (dr_ID d) (dr_Type d) m) devices []"

definition buildPinCacheFromPins :: "pin_info list \<Rightarrow> device_reply list \<Rightarrow> pin_cache" where
  "buildPinCacheFromPins pins devices =
     fold cache_pin pins \<lparr>ca_BoardLabelPins = [], ca_PackageLabelPins = [], ca_parentDeviceTypes = device_types devices\<rparr>"

definition ParentDeviceType :: "pin_cache \<Rightarrow> u32 \<Rightarrow> u32 option" where
  "ParentDeviceType c i = map_of (ca_parentDeviceTypes c) i"

definition GetPin :: "pin_cache \<Rightarrow> u64 \<Rightarrow> string \<Rightarrow> pin_info option" where
  "GetPin c clockID label =
     (case map_of (ca_BoardLabelPins c) (clockID, label) of
        Some p \<Rightarrow> Some p
      | None \<Rightarrow> map_of (ca_PackageLabelPins c) (clockID, label))"

definition cache_Count :: "pin_cache \<Rightarrow> nat" where
  "cache_Count c = length (ca_BoardLabelPins c)"

text \<open>What the cache returns is a pin of the dump with that clock and one of its labels that name.\<close>

definition cache_of :: "pin_info list \<Rightarrow> pin_cache \<Rightarrow> bool" where
  "cache_of pins c \<longleftrightarrow>
     (\<forall>cid l p. map_of (ca_BoardLabelPins c) (cid, l) = Some p \<longrightarrow> p \<in> set pins \<and> pi_ClockID p = cid \<and> pi_BoardLabel p = l) \<and>
     (\<forall>cid l p. map_of (ca_PackageLabelPins c) (cid, l) = Some p \<longrightarrow> p \<in> set pins \<and> pi_ClockID p = cid \<and> pi_PackageLabel p = l)"

lemma cache_of_pin: "cache_of pins c \<Longrightarrow> p \<in> set pins \<Longrightarrow> cache_of pins (cache_pin p c)"
  unfolding cache_of_def cache_pin_def Let_def by (auto simp: update_conv')

lemma cache_of_fold: "set ps \<subseteq> set pins \<Longrightarrow> cache_of pins c \<Longrightarrow> cache_of pins (fold cache_pin ps c)"
  by (induction ps arbitrary: c) (auto simp: cache_of_pin)

lemma cached_pin_is_a_pin:
  assumes "GetPin (buildPinCacheFromPins pins devices) clockID label = Some p"
  shows "p \<in> set pins \<and> pi_ClockID p = clockID \<and> (pi_BoardLabel p = label \<or> pi_PackageLabel p = label)"
proof -
  have "cache_of pins (buildPinCacheFromPins pins devices)"
    unfolding buildPinCacheFromPins_def by (rule cache_of_fold) (auto simp: cache_of_def)
  then show ?thesis using assms
    by (auto simp: cache_of_def GetPin_def split: option.splits)
qed

section \<open>Clock identifiers\<close>

definition parse_clock_id :: "string \<Rightarrow> u64 option" where
  "parse_clock_id s = (case ParseUint s 16 64 of (n, None) \<Rightarrow> Some (word_of_nat n) | _ \<Rightarrow> None)"

definition parseSerialNumberToClockIDDirect :: "string \<Rightarrow> u64 option" where
  "parseSerialNumberToClockIDDirect serialNumber =
     (let parts = split_ch (CHR ''-'') serialNumber in
      if length parts \<noteq> 8 then None else parse_clock_id (join '''' parts))"

definition parseSerialNumberToClockIDEUI64 :: "string \<Rightarrow> u64 option" where
  "parseSerialNumberToClockIDEUI64 serialNumber =
     (let parts = split_ch (CHR ''-'') serialNumber in
      if length parts < 6 then None
      else parse_clock_id (join '''' (take 3 parts @ [''ff'', ''fe''] @ drop 5 parts)))"

text \<open>The bus address that ethtool prints, and the serial number that devlink does; the last bus address counts.\<close>

definition bus_address :: "string \<Rightarrow> string" where
  "bus_address output =
     fold (\<lambda>line b. if has_prefix line ''bus-info:'' then TrimSpace (str_TrimPrefix line ''bus-info:'') else b)
       (split_ch (CHR 0x0A) output) ''''"

definition serial_number :: "string \<Rightarrow> string" where
  "serial_number output =
     (case find (\<lambda>line. Contains line ''serial_number'' \<and> 2 \<le> length (Fields line)) (split_ch (CHR 0x0A) output) of
        None \<Rightarrow> '''' | Some line \<Rightarrow> last (Fields line))"

text \<open>
  \<open>None\<close> is a failed command. The pins are queried by number; \<open>netdev\<close> gives the pin of an interface.
\<close>

record hw_host =
  hh_Execute :: "string \<Rightarrow> string list \<Rightarrow> string option"
  hh_netdevDpllPin :: "string \<Rightarrow> u32 option"
  hh_queryPin :: "u32 \<Rightarrow> pin_info option"
  hh_method :: "string \<Rightarrow> string option"
  hh_GetDpllPins :: "pin_cache option"

text \<open>The method that the defaults of a hardware definition name (\<open>hh_method\<close>, \<open>None\<close> when they name none).\<close>

definition getClockIDTransformer :: "hw_host \<Rightarrow> string \<Rightarrow> string \<Rightarrow> u64 option" where
  "getClockIDTransformer h hwDefPath =
     (if hwDefPath \<noteq> '''' \<and> hh_method h hwDefPath = Some ''direct'' then parseSerialNumberToClockIDDirect
      else parseSerialNumberToClockIDEUI64)"

definition getClockIDResolutionMethod :: "hw_host \<Rightarrow> string \<Rightarrow> string \<Rightarrow> string" where
  "getClockIDResolutionMethod h hwDefPath busAddr =
     (case (if hwDefPath = '''' then None else hh_method h hwDefPath) of
        Some (c # m) \<Rightarrow> c # m
      | _ \<Rightarrow> (case hh_Execute h ''lspci'' [''-s'', busAddr] of
                Some output \<Rightarrow> if Contains output ''E825'' then ''devlinkPinChain'' else ''direct''
              | None \<Rightarrow> ''direct''))"

text \<open>The parent pins in order: the first that can be queried and belongs to another module.\<close>

fun external_parent :: "hw_host \<Rightarrow> string \<Rightarrow> (u32 \<times> u32) list \<Rightarrow> u64 option" where
  "external_parent h m [] = None"
| "external_parent h m ((i, _) # ps) =
     (case hh_queryPin h i of
        None \<Rightarrow> external_parent h m ps
      | Some p \<Rightarrow> if pi_ModuleName p \<noteq> m then Some (pi_ClockID p) else external_parent h m ps)"

definition getClockIDFromPinParentChain :: "hw_host \<Rightarrow> string \<Rightarrow> u64 option" where
  "getClockIDFromPinParentChain h ifname =
     (case hh_netdevDpllPin h ifname of
        None \<Rightarrow> None
      | Some pinID \<Rightarrow>
          (case hh_queryPin h pinID of
             None \<Rightarrow> None
           | Some nicPin \<Rightarrow> external_parent h (pi_ModuleName nicPin) (pi_ParentPin nicPin)))"

definition getPERLAClockIDFromPinCache :: "hw_host \<Rightarrow> pin_cache option \<Rightarrow> u64 option" where
  "getPERLAClockIDFromPinCache h cache =
     (case (case cache of None \<Rightarrow> hh_GetDpllPins h | Some c \<Rightarrow> Some c) of
        None \<Rightarrow> None
      | Some c \<Rightarrow> map_option (\<lambda>kp. fst (fst kp))
                   (find (\<lambda>kp. pi_ModuleName (snd kp) = ''zl3073x'') (ca_BoardLabelPins c @ ca_PackageLabelPins c)))"

definition resolveClockIDViaPinChain :: "hw_host \<Rightarrow> string \<Rightarrow> pin_cache option \<Rightarrow> u64 option" where
  "resolveClockIDViaPinChain h iface cache =
     (case getClockIDFromPinParentChain h iface of
        Some i \<Rightarrow> Some i
      | None \<Rightarrow> getPERLAClockIDFromPinCache h cache)"

definition resolveClockIDViaSerialNumber :: "hw_host \<Rightarrow> string \<Rightarrow> string \<Rightarrow> u64 option" where
  "resolveClockIDViaSerialNumber h busAddr hwDefPath =
     (case hh_Execute h ''devlink'' [''dev'', ''info'', ''pci/'' @ busAddr] of
        None \<Rightarrow> None
      | Some output \<Rightarrow>
          (let serial = serial_number output in
           if serial = '''' then None else getClockIDTransformer h hwDefPath serial))"

definition GetClockIDFromInterfaceWithCache :: "hw_host \<Rightarrow> string \<Rightarrow> string \<Rightarrow> pin_cache option \<Rightarrow> u64 option" where
  "GetClockIDFromInterfaceWithCache h iface hwDefPath cache =
     (case hh_Execute h ''ethtool'' [''-i'', iface] of
        None \<Rightarrow> None
      | Some output \<Rightarrow>
          (let busAddr = bus_address output in
           if busAddr = '''' then None
           else if getClockIDResolutionMethod h hwDefPath busAddr = ''devlinkPinChain''
                then resolveClockIDViaPinChain h iface cache
                else resolveClockIDViaSerialNumber h busAddr hwDefPath))"

end
