(* ===== verification/HwVendor.thy ===== *)
theory HwVendor
  imports HwModel
begin

text \<open>
  Vendor defaults (\<open>vendor_loader.go\<close>, \<open>label_remap.go\<close>, \<open>delay_compensation.go\<close>): the defaults of a
  hardware definition with renamed board labels, and the phase adjustments that follow from the model
  of its delays. The decoded files are parameters: \<open>None\<close> when a definition has no such file,
  \<open>Some None\<close> when it cannot be decoded.
\<close>

unbundle bit_operations_syntax

section \<open>Data\<close>

record pin_default_entry =
  pde_Priority :: "int option"
  pde_State :: string

record pin_default =
  pdf_EEC :: "pin_default_entry option"
  pdf_PPS :: "pin_default_entry option"

record connector_command =
  cn_Type :: string
  cn_Path :: string
  cn_Value :: string
  cn_Description :: string

type_synonym connector_actions = "(string \<times> connector_command list) list"

record connector_commands =
  ccs_Outputs :: connector_actions
  ccs_Inputs :: connector_actions
  ccs_Disable :: connector_actions

record esync_command =
  ec_Type :: string
  ec_Arguments :: "string list"
  ec_PinParentDevices :: "(string \<times> string) list"

record compensation_point =
  cp_Name :: string
  cp_Type :: string

record hw_component =
  co_ID :: string
  co_CompensationPoint :: "compensation_point option"

record hw_connection =
  cx_From :: string
  cx_To :: string
  cx_FSRead :: "string option"
  cx_DelayPs :: int

record hw_route =
  ro_Name :: string
  ro_Sequence :: "string list"
  ro_Compensator :: string

record delay_model =
  dm_Components :: "hw_component list"
  dm_Connections :: "hw_connection list"
  dm_Routes :: "hw_route list"

record hardware_defaults =
  hd_Method :: "string option"
  hd_PinDefaults :: "(string \<times> pin_default) list"
  hd_ConnectorCommands :: "connector_commands option"
  hd_PinEsyncCommands :: "(esync_command list \<times> esync_command list) option"
  hd_DelayCompensation :: "delay_model option"
  hd_DPLLFlags :: "string list"

definition empty_defaults :: hardware_defaults where
  "empty_defaults = \<lparr>hd_Method = None, hd_PinDefaults = [], hd_ConnectorCommands = None, hd_PinEsyncCommands = None,
     hd_DelayCompensation = None, hd_DPLLFlags = []\<rparr>"

record behavior_template =
  bt_PinRoles :: "(string \<times> string) list"
  bt_Sources :: "source_config list"
  bt_Conditions :: "hw_condition list"

section \<open>Flags\<close>

definition dpllFlagNames :: "string \<Rightarrow> u64 option" where
  "dpllFlagNames name =
     (if name = ''noPhaseOffset'' then Some 1 else if name = ''noPhaseStatus'' then Some 2
      else if name = ''noFrequencyStatus'' then Some 4 else None)"

fun parse_flags :: "u64 \<Rightarrow> string list \<Rightarrow> u64 option" where
  "parse_flags flags [] = Some flags"
| "parse_flags flags (n # ns) = (case dpllFlagNames n of None \<Rightarrow> None | Some f \<Rightarrow> parse_flags (flags OR f) ns)"

definition ParseDPLLFlags :: "hardware_defaults \<Rightarrow> u64 option" where
  "ParseDPLLFlags dfl = parse_flags 0 (hd_DPLLFlags dfl)"

section \<open>Board labels\<close>

type_synonym label_map = "(string \<times> string) list"

definition applyLabelRemap :: "label_map \<Rightarrow> string \<Rightarrow> string" where
  "applyLabelRemap labelMap s = (case map_of labelMap s of Some n \<Rightarrow> n | None \<Rightarrow> s)"

definition RemapPinDefaults :: "label_map \<Rightarrow> hardware_defaults \<Rightarrow> hardware_defaults" where
  "RemapPinDefaults labelMap dfl =
     dfl\<lparr>hd_PinDefaults := fold (\<lambda>(k, d) m. AList.update (applyLabelRemap labelMap k) d m) (hd_PinDefaults dfl) []\<rparr>"

definition RemapDelayCompensation :: "label_map \<Rightarrow> hardware_defaults \<Rightarrow> hardware_defaults" where
  "RemapDelayCompensation labelMap dfl =
     dfl\<lparr>hd_DelayCompensation := map_option (\<lambda>m. m\<lparr>dm_Components := map (\<lambda>c.
         c\<lparr>co_CompensationPoint := map_option (\<lambda>p. p\<lparr>cp_Name := applyLabelRemap labelMap (cp_Name p)\<rparr>) (co_CompensationPoint c)\<rparr>)
         (dm_Components m)\<rparr>) (hd_DelayCompensation dfl)\<rparr>"

definition RemapDefaultProfileLabels :: "label_map \<Rightarrow> hardware_defaults \<Rightarrow> hardware_defaults" where
  "RemapDefaultProfileLabels labelMap dfl =
     (if labelMap = [] then dfl else RemapDelayCompensation labelMap (RemapPinDefaults labelMap dfl))"

text \<open>Only the roles are renamed, not the sources and conditions of the template.\<close>

definition RemapBehaviorProfileLabels :: "label_map \<Rightarrow> behavior_template \<Rightarrow> behavior_template" where
  "RemapBehaviorProfileLabels labelMap t =
     (if labelMap = [] then t
      else t\<lparr>bt_PinRoles := map (\<lambda>(role, l). (role, applyLabelRemap labelMap l)) (bt_PinRoles t)\<rparr>)"

section \<open>Loading\<close>

record vendor_files =
  vf_defaults :: "string \<Rightarrow> hardware_defaults option option"
  vf_delays :: "string \<Rightarrow> delay_model option option"
  vf_profiles :: "string \<Rightarrow> (string \<times> behavior_template) list option option"
  vf_labels :: "string \<Rightarrow> label_map"

text \<open>\<open>None\<close> is an error.\<close>

definition LoadHardwareDefaults :: "vendor_files \<Rightarrow> string \<Rightarrow> label_map \<Rightarrow> hardware_defaults option" where
  "LoadHardwareDefaults F hwDefPath labelMap =
     (case (case vf_defaults F hwDefPath of None \<Rightarrow> Some empty_defaults | Some dfl \<Rightarrow> dfl) of
        None \<Rightarrow> None
      | Some dfl \<Rightarrow>
          (case vf_delays F hwDefPath of
             None \<Rightarrow> Some (RemapDefaultProfileLabels labelMap dfl)
           | Some None \<Rightarrow> None
           | Some (Some m) \<Rightarrow> Some (RemapDefaultProfileLabels labelMap (dfl\<lparr>hd_DelayCompensation := Some m\<rparr>))))"

text \<open>\<open>None\<close> is an error, \<open>Some None\<close> no template for this clock type.\<close>

definition LoadBehaviorProfile :: "vendor_files \<Rightarrow> string \<Rightarrow> string \<Rightarrow> behavior_template option option" where
  "LoadBehaviorProfile F hwDefPath clockType =
     (case vf_profiles F hwDefPath of
        None \<Rightarrow> Some None
      | Some None \<Rightarrow> None
      | Some (Some profiles) \<Rightarrow>
          Some (map_option (RemapBehaviorProfileLabels (vf_labels F hwDefPath)) (map_of profiles (lower clockType))))"

section \<open>Delays\<close>

definition findComponentByID :: "hw_component list \<Rightarrow> string \<Rightarrow> hw_component option" where
  "findComponentByID components i = find (\<lambda>c. co_ID c = i) components"

text \<open>Reading a delay from a file is not implemented: the getter always falls back.\<close>

definition readDelayFromFS :: "string \<Rightarrow> string \<Rightarrow> int option" where
  "readDelayFromFS path networkInterface = None"

definition getConnectionDelay :: "delay_model \<Rightarrow> string \<Rightarrow> string \<Rightarrow> string \<Rightarrow> int option" where
  "getConnectionDelay m src dst networkInterface =
     (case find (\<lambda>c. cx_From c = src \<and> cx_To c = dst) (dm_Connections m) of
        None \<Rightarrow> None
      | Some c \<Rightarrow>
          (case (case cx_FSRead c of None \<Rightarrow> None | Some p \<Rightarrow> readDelayFromFS p networkInterface) of
             Some d \<Rightarrow> Some d
           | None \<Rightarrow> Some (cx_DelayPs c)))"

fun route_delay :: "delay_model \<Rightarrow> string \<Rightarrow> int \<Rightarrow> string list \<Rightarrow> int option" where
  "route_delay m iface acc (a # b # cs) =
     (case getConnectionDelay m a b iface of
        None \<Rightarrow> None
      | Some d \<Rightarrow> route_delay m iface (wrap64 (acc + d)) (b # cs))"
| "route_delay m iface acc _ = Some acc"

definition calculateRouteDelay :: "delay_model \<Rightarrow> string list \<Rightarrow> string \<Rightarrow> int option" where
  "calculateRouteDelay m sequence iface = (if length sequence < 2 then None else route_delay m iface 0 sequence)"

text \<open>The pin a route compensates, and the delay found for it.\<close>

definition route_adjustment :: "delay_model \<Rightarrow> string \<Rightarrow> hw_route \<Rightarrow> (string \<times> int) option" where
  "route_adjustment m iface r =
     (case findComponentByID (dm_Components m) (ro_Compensator r) of
        None \<Rightarrow> None
      | Some c \<Rightarrow>
          (case co_CompensationPoint c of
             None \<Rightarrow> None
           | Some p \<Rightarrow>
               if cp_Type p \<noteq> ''dpll'' \<or> cp_Name p = '''' then None
               else map_option (Pair (cp_Name p)) (calculateRouteDelay m (ro_Sequence r) iface)))"

definition ResolvePhaseAdjustments :: "hardware_defaults \<Rightarrow> string \<Rightarrow> (string \<times> int) list" where
  "ResolvePhaseAdjustments dfl iface =
     (case hd_DelayCompensation dfl of
        None \<Rightarrow> []
      | Some m \<Rightarrow>
          fold (\<lambda>r adj. case route_adjustment m iface r of None \<Rightarrow> adj | Some (l, d) \<Rightarrow> AList.update l d adj) (dm_Routes m) [])"

definition adjust_pin :: "(string \<times> int) list \<Rightarrow> string \<Rightarrow> pin_config \<Rightarrow> pin_config" where
  "adjust_pin adj l pc =
     (case map_of adj l of
        None \<Rightarrow> pc
      | Some a \<Rightarrow> pc\<lparr>pc_PhaseAdjustment := Some (wrap64 (a + (case pc_PhaseAdjustment pc of None \<Rightarrow> 0 | Some u \<Rightarrow> u)))\<rparr>)"

definition adjust_pins :: "(string \<times> int) list \<Rightarrow> pin_configs \<Rightarrow> pin_configs" where
  "adjust_pins adj pins = map (\<lambda>(l, pc). (l, adjust_pin adj l pc)) pins"

text \<open>All subsystems of the chain are adjusted, whichever of them the defaults belong to.\<close>

definition PopulatePhaseAdjustmentsFromDelays :: "clock_chain \<Rightarrow> hardware_defaults \<Rightarrow> string \<Rightarrow> clock_chain" where
  "PopulatePhaseAdjustmentsFromDelays cc dfl iface =
     (let adj = ResolvePhaseAdjustments dfl iface in
      if adj = [] then cc
      else cc\<lparr>cc_Structure := map (\<lambda>s. s\<lparr>sb_PhaseInputs := adjust_pins adj (sb_PhaseInputs s),
                                           sb_PhaseOutputs := adjust_pins adj (sb_PhaseOutputs s)\<rparr>) (cc_Structure cc)\<rparr>)"

section \<open>Facts\<close>

lemma wrap64_add_right [simp]: "wrap64 (a + wrap64 b) = wrap64 (a + b)"
  by (simp add: wrap64_def mod_simps algebra_simps)

lemma wrap64_add_left [simp]: "wrap64 (wrap64 a + b) = wrap64 (a + b)"
  using wrap64_add_right [of b a] by (simp add: add.commute)

text \<open>The delay of a route is the sum of the delays of its connections.\<close>

fun route_edges :: "string list \<Rightarrow> (string \<times> string) list" where
  "route_edges (a # b # cs) = (a, b) # route_edges (b # cs)"
| "route_edges _ = []"

lemma route_delay_sum:
  assumes "list_all (\<lambda>(a, b). getConnectionDelay m a b iface = Some (w a b)) (route_edges s)"
  shows "\<exists>t. route_delay m iface acc s = Some t \<and> wrap64 t = wrap64 (acc + sum_list (map (\<lambda>(a, b). w a b) (route_edges s)))"
  using assms
proof (induction s arbitrary: acc rule: route_edges.induct)
  case (1 a b cs)
  have w: "getConnectionDelay m a b iface = Some (w a b)" using 1(2) by simp
  have "\<exists>t. route_delay m iface (wrap64 (acc + w a b)) (b # cs) = Some t \<and>
      wrap64 t = wrap64 (wrap64 (acc + w a b) + sum_list (map (\<lambda>(a, b). w a b) (route_edges (b # cs))))"
    by (rule 1(1)) (use 1(2) in simp)
  then show ?case by (simp add: w add.assoc)
qed auto

lemma route_without_connection_fails:
  "(a, b) \<in> set (route_edges s) \<Longrightarrow> getConnectionDelay m a b iface = None \<Longrightarrow> calculateRouteDelay m s iface = None"
proof -
  assume a: "(a, b) \<in> set (route_edges s)" "getConnectionDelay m a b iface = None"
  then have "route_delay m iface acc s = None" for acc
    by (induction s arbitrary: acc rule: route_edges.induct) (auto split: option.splits)
  then show ?thesis by (simp add: calculateRouteDelay_def)
qed

text \<open>Unknown flags are errors; known ones are gathered.\<close>

lemma parse_flags_known:
  "list_all (\<lambda>n. dpllFlagNames n \<noteq> None) ns \<Longrightarrow>
   \<exists>fl. parse_flags f ns = Some fl \<and> (\<forall>i. bit fl i \<longleftrightarrow> bit f i \<or> (\<exists>n \<in> set ns. \<exists>v. dpllFlagNames n = Some v \<and> bit v i))"
  by (induction ns arbitrary: f) (fastforce simp: bit_or_iff)+

end
