(* ===== verification/HwPins.thy ===== *)
theory HwPins
  imports HwVendor
begin

text \<open>
  The pin commands that a hardware configuration stands for (\<open>hardwareconfig.go\<close>): priorities and
  states of the defaults, frequencies, phase adjustments and the desired states of a condition. The two
  caches of the manager are threaded through; the pins, the files and the device directories are
  parameters. The commands of connectors, the merging of the commands of one pin and the manager that
  applies them are not modelled.
\<close>

section \<open>Environment and caches\<close>

record hw_env =
  he_host :: hw_host
  he_files :: vendor_files
  he_pins :: "pin_cache option"
  he_ptpDevice :: "string \<Rightarrow> string list option"

record hw_caches =
  hx_defaults :: "(string \<times> hardware_defaults) list"
  hx_clockIDs :: "(string \<times> u64) list"

text \<open>\<open>getHardwareDefaults\<close> for a path that is not empty; \<open>None\<close> is an error, which is not cached.\<close>

definition getHardwareDefaults :: "hw_env \<Rightarrow> string \<Rightarrow> hw_caches \<Rightarrow> hardware_defaults option \<times> hw_caches" where
  "getHardwareDefaults E path c =
     (case map_of (hx_defaults c) path of
        Some d \<Rightarrow> (Some d, c)
      | None \<Rightarrow>
          (case LoadHardwareDefaults (he_files E) path (vf_labels (he_files E) path) of
             None \<Rightarrow> (None, c)
           | Some d \<Rightarrow> (Some d, c\<lparr>hx_defaults := (path, d) # hx_defaults c\<rparr>)))"

definition clock_key :: "string \<Rightarrow> string \<Rightarrow> string" where
  "clock_key iface path = iface @ '':'' @ path"

definition getClockIDCached :: "hw_env \<Rightarrow> string \<Rightarrow> string \<Rightarrow> hw_caches \<Rightarrow> u64 option \<times> hw_caches" where
  "getClockIDCached E iface path c =
     (case map_of (hx_clockIDs c) (clock_key iface path) of
        Some i \<Rightarrow> (Some i, c)
      | None \<Rightarrow>
          (case GetClockIDFromInterfaceWithCache (he_host E) iface path (he_pins E) of
             None \<Rightarrow> (None, c)
           | Some i \<Rightarrow> if i = 0 then (None, c)
                       else (Some i, c\<lparr>hx_clockIDs := (clock_key iface path, i) # hx_clockIDs c\<rparr>)))"

text \<open>The clock identifier of a subsystem: \<open>None\<close> without an interface, \<open>Some None\<close> when it cannot be resolved.\<close>

definition subsystem_clock :: "hw_env \<Rightarrow> subsystem \<Rightarrow> string \<Rightarrow> hw_caches \<Rightarrow> u64 option option \<times> hw_caches" where
  "subsystem_clock E s path c =
     (if subsystem_interface s = '''' then (None, c)
      else (case getClockIDCached E (subsystem_interface s) path c of (i, c1) \<Rightarrow> (Some i, c1)))"

abbreviation PinDirectionInput :: u32 where "PinDirectionInput \<equiv> 1"
abbreviation PinDirectionOutput :: u32 where "PinDirectionOutput \<equiv> 2"
abbreviation DpllTypePPS :: u32 where "DpllTypePPS \<equiv> 1"
abbreviation DpllTypeEEC :: u32 where "DpllTypeEEC \<equiv> 2"

definition GetPinStateUint32 :: "string \<Rightarrow> u32 option" where
  "GetPinStateUint32 s =
     (if s = ''connected'' then Some 1 else if s = ''disconnected'' then Some 2
      else if s = ''selectable'' then Some 3 else None)"

definition no_control :: "u32 \<Rightarrow> pin_control" where
  "no_control i = \<lparr>pn_PinParentID = i, pn_Direction = None, pn_Prio = None, pn_State = None\<rparr>"

definition no_command :: "u32 \<Rightarrow> pin_command" where
  "no_command i = \<lparr>cm_ID = i, cm_Frequency = None, cm_PhaseAdjust = None, cm_EsyncFrequency = None, cm_PinParentCtl = None\<rparr>"

section \<open>Defaults of the vendor\<close>

definition default_priority :: "pin_cache \<Rightarrow> u32 option \<Rightarrow> u32 option \<Rightarrow> parent_device \<Rightarrow> pin_control" where
  "default_priority pins eecPrio ppsPrio pd =
     (let pc = no_control (pd_ParentID pd) in
      if pd_Direction pd \<noteq> PinDirectionInput then pc
      else if ParentDeviceType pins (pd_ParentID pd) = Some DpllTypeEEC \<and> eecPrio \<noteq> None then pc\<lparr>pn_Prio := eecPrio\<rparr>
      else if ParentDeviceType pins (pd_ParentID pd) = Some DpllTypePPS \<and> ppsPrio \<noteq> None then pc\<lparr>pn_Prio := ppsPrio\<rparr>
      else pc)"

definition buildPinPriorityCommand :: "pin_cache \<Rightarrow> u64 \<Rightarrow> string \<Rightarrow> u32 option \<Rightarrow> u32 option \<Rightarrow> pin_command option" where
  "buildPinPriorityCommand pins clockID label eecPrio ppsPrio =
     map_option (\<lambda>pin. (no_command (pi_ID pin))\<lparr>cm_PinParentCtl := Some (map (default_priority pins eecPrio ppsPrio) (pi_ParentDevice pin))\<rparr>)
       (GetPin pins clockID label)"

text \<open>The direction of a parent device is that of its last entry in the pin.\<close>

definition parent_direction :: "pin_info \<Rightarrow> u32 \<Rightarrow> u32" where
  "parent_direction pin i =
     (case find (\<lambda>pd. pd_ParentID pd = i) (rev (pi_ParentDevice pin)) of None \<Rightarrow> 0 | Some pd \<Rightarrow> pd_Direction pd)"

definition default_state :: "pin_cache \<Rightarrow> pin_default \<Rightarrow> pin_info \<Rightarrow> pin_control \<Rightarrow> pin_control" where
  "default_state pins d pin pc =
     (if parent_direction pin (pn_PinParentID pc) \<noteq> PinDirectionOutput then pc
      else let entry = (if ParentDeviceType pins (pn_PinParentID pc) = Some DpllTypeEEC then pdf_EEC d
                        else if ParentDeviceType pins (pn_PinParentID pc) = Some DpllTypePPS then pdf_PPS d else None)
           in (case entry of
                 None \<Rightarrow> pc
               | Some e \<Rightarrow> (case GetPinStateUint32 (pde_State e) of None \<Rightarrow> pc | Some v \<Rightarrow> pc\<lparr>pn_State := Some v\<rparr>)))"

definition entry_priority :: "pin_default_entry option \<Rightarrow> u32 option" where
  "entry_priority e = (case e of None \<Rightarrow> None | Some x \<Rightarrow> map_option word_of_int (pde_Priority x))"

definition default_command :: "pin_cache \<Rightarrow> u64 \<Rightarrow> string \<times> pin_default \<Rightarrow> pin_command option" where
  "default_command pins clockID ld =
     (case ld of (label, d) \<Rightarrow>
        (case GetPin pins clockID label of
           None \<Rightarrow> None
         | Some pin \<Rightarrow>
             map_option (\<lambda>c. c\<lparr>cm_PinParentCtl := map_option (map (default_state pins d pin)) (cm_PinParentCtl c)\<rparr>)
               (buildPinPriorityCommand pins clockID label (entry_priority (pdf_EEC d)) (entry_priority (pdf_PPS d)))))"

definition buildPinCommandFromDefaults ::
  "hw_env \<Rightarrow> subsystem \<Rightarrow> string \<Rightarrow> string \<times> pin_default \<Rightarrow> hw_caches \<Rightarrow> pin_command option \<times> hw_caches" where
  "buildPinCommandFromDefaults E s path ld c =
     (case subsystem_clock E s path c of
        (Some (Some clockID), c1) \<Rightarrow> ((case he_pins E of None \<Rightarrow> None | Some pins \<Rightarrow> default_command pins clockID ld), c1)
      | (_, c1) \<Rightarrow> (None, c1))"

section \<open>Frequencies\<close>

text \<open>\<open>resolvePinFrequency\<close>: the transfer frequency and that of the embedded signal; \<open>None\<close> is no configuration.\<close>

definition resolvePinFrequency :: "pin_config \<Rightarrow> clock_chain \<Rightarrow> (u64 \<times> u64) option" where
  "resolvePinFrequency pc cc =
     (if pc_ESyncConfigName pc \<noteq> ''''
      then (case cc_ESyncDefinitions cc of
              None \<Rightarrow> None
            | Some defs \<Rightarrow>
                map_option (\<lambda>d. (word_of_int (es_TransferFrequency d),
                     let f = word_of_int (es_EmbeddedSyncFrequency d) in if f = 0 then 1 else f))
                  (find (\<lambda>d. es_Name d = pc_ESyncConfigName pc) defs))
      else (case pc_Frequency pc of
              Some f \<Rightarrow> if 0 < f then Some (word_of_int f, 0) else None
            | None \<Rightarrow> None))"

fun set_arguments :: "u64 \<Rightarrow> u64 \<Rightarrow> string list \<Rightarrow> pin_command \<Rightarrow> pin_command" where
  "set_arguments f e [] c = c"
| "set_arguments f e (a # as) c =
     set_arguments f e as
       (if a = ''frequency'' then c\<lparr>cm_Frequency := Some f\<rparr>
        else if a = ''eSyncFrequency'' then c\<lparr>cm_EsyncFrequency := Some e\<rparr> else c)"

text \<open>The name of an output's parent device, empty for an input and for an unknown device.\<close>

definition parent_name :: "pin_cache \<Rightarrow> parent_device \<Rightarrow> string" where
  "parent_name pins pd =
     (if pd_Direction pd \<noteq> PinDirectionOutput then ''''
      else if ParentDeviceType pins (pd_ParentID pd) = Some DpllTypeEEC then ''EEC''
      else if ParentDeviceType pins (pd_ParentID pd) = Some DpllTypePPS then ''PPS'' else '''')"

definition esync_parents :: "pin_cache \<Rightarrow> pin_info \<Rightarrow> (string \<times> string) list \<Rightarrow> pin_control list" where
  "esync_parents pins pin cfgs =
     concat (map (\<lambda>(device, state).
         List.map_filter (\<lambda>pd. if EqualFold (parent_name pins pd) device
             then map_option (\<lambda>v. (no_control (pd_ParentID pd))\<lparr>pn_State := Some v\<rparr>) (GetPinStateUint32 state) else None)
           (pi_ParentDevice pin)) cfgs)"

definition esync_command_of :: "pin_cache \<Rightarrow> pin_info \<Rightarrow> u64 \<Rightarrow> u64 \<Rightarrow> esync_command \<Rightarrow> pin_command option" where
  "esync_command_of pins pin f e d =
     (if ec_Type d \<noteq> ''DPLLWrite'' then None
      else let c = set_arguments f e (ec_Arguments d) (no_command (pi_ID pin))
           in Some (if ec_PinParentDevices d = [] then c
                    else c\<lparr>cm_PinParentCtl := Some (esync_parents pins pin (ec_PinParentDevices d))\<rparr>))"

definition buildPinFrequencyCommands ::
  "pin_cache \<Rightarrow> u64 \<Rightarrow> clock_chain \<Rightarrow> hardware_defaults \<Rightarrow> bool \<Rightarrow> string \<times> pin_config \<Rightarrow> pin_command list" where
  "buildPinFrequencyCommands pins clockID cc dfl isInput lp =
     (case GetPin pins clockID (fst lp) of
        None \<Rightarrow> []
      | Some pin \<Rightarrow>
          (case resolvePinFrequency (snd lp) cc of
             None \<Rightarrow> []
           | Some (f, e) \<Rightarrow>
               if e = 0 then (if 0 < f then [(no_command (pi_ID pin))\<lparr>cm_Frequency := Some f\<rparr>] else [])
               else (let fallback = [(no_command (pi_ID pin))\<lparr>cm_Frequency := Some f, cm_EsyncFrequency := Some e\<rparr>] in
                     case hd_PinEsyncCommands dfl of
                       None \<Rightarrow> fallback
                     | Some (inputs, outputs) \<Rightarrow>
                         (let cmds = (if isInput then inputs else outputs) in
                          if cmds = [] then fallback else List.map_filter (esync_command_of pins pin f e) cmds))))"

definition buildESyncPinCommands ::
  "hw_env \<Rightarrow> subsystem \<Rightarrow> string \<Rightarrow> clock_chain \<Rightarrow> hardware_defaults \<Rightarrow> hw_caches \<Rightarrow> pin_command list option \<times> hw_caches" where
  "buildESyncPinCommands E s path cc dfl c =
     (case he_pins E of
        None \<Rightarrow> (None, c)
      | Some pins \<Rightarrow>
          (case subsystem_clock E s path c of
             (None, c1) \<Rightarrow> (None, c1)
           | (Some None, c1) \<Rightarrow> (Some [], c1)
           | (Some (Some clockID), c1) \<Rightarrow>
               (Some (concat (map (\<lambda>(ps, isInput). concat (map (buildPinFrequencyCommands pins clockID cc dfl isInput) ps))
                  [(sb_PhaseInputs s, True), (sb_PhaseOutputs s, False), (sb_FrequencyInputs s, True), (sb_FrequencyOutputs s, False)])), c1)))"

section \<open>Phase adjustments\<close>

definition wrap32 :: "int \<Rightarrow> int" where
  "wrap32 x = sint (word_of_int x :: i32)"

text \<open>\<open>roundToGranularity\<close> on \<open>int32\<close>, whose division truncates and whose sums wrap.\<close>

definition roundToGranularity :: "int \<Rightarrow> u32 \<Rightarrow> int" where
  "roundToGranularity val gran =
     (if gran \<le> 1 then val
      else let g = sint gran in
           if 0 \<le> val then wrap32 (wrap32 (go_div (wrap32 (val + go_div g 2)) g) * g)
           else wrap32 (wrap32 (go_div (wrap32 (val - go_div g 2)) g) * g))"

definition clamp_adjustment :: "pin_info \<Rightarrow> int \<Rightarrow> int" where
  "clamp_adjustment pin v =
     (let v1 = (if pi_PhaseAdjustMin pin \<noteq> 0 \<and> v < pi_PhaseAdjustMin pin then pi_PhaseAdjustMin pin else v)
      in if pi_PhaseAdjustMax pin \<noteq> 0 \<and> pi_PhaseAdjustMax pin < v1 then pi_PhaseAdjustMax pin else v1)"

definition phase_adjustment :: "pin_info \<Rightarrow> int \<Rightarrow> int" where
  "phase_adjustment pin adj = clamp_adjustment pin (roundToGranularity (wrap32 adj) (pi_PhaseAdjustGran pin))"

definition phase_command :: "pin_cache \<Rightarrow> u64 \<Rightarrow> string \<times> pin_config \<Rightarrow> pin_command option" where
  "phase_command pins clockID lp =
     (case pc_PhaseAdjustment (snd lp) of
        None \<Rightarrow> None
      | Some adj \<Rightarrow>
          map_option (\<lambda>pin. (no_command (pi_ID pin))\<lparr>cm_PhaseAdjust := Some (word_of_int (phase_adjustment pin adj))\<rparr>)
            (GetPin pins clockID (fst lp)))"

definition buildPhaseAdjustmentCommands ::
  "hw_env \<Rightarrow> subsystem \<Rightarrow> string \<Rightarrow> hw_caches \<Rightarrow> pin_command list option \<times> hw_caches" where
  "buildPhaseAdjustmentCommands E s path c =
     (case he_pins E of
        None \<Rightarrow> (None, c)
      | Some pins \<Rightarrow>
          (case subsystem_clock E s path c of
             (None, c1) \<Rightarrow> (None, c1)
           | (Some None, c1) \<Rightarrow> (Some [], c1)
           | (Some (Some clockID), c1) \<Rightarrow>
               (Some (List.map_filter (phase_command pins clockID) (sb_PhaseInputs s @ sb_PhaseOutputs s)), c1)))"

section \<open>Desired states of DPLLs\<close>

text \<open>One parent device of the pin; \<open>None\<close> is a state that does not exist.\<close>

definition set_desired :: "bool \<Rightarrow> desired_pin_state option \<Rightarrow> pin_control \<Rightarrow> pin_control option" where
  "set_desired isInput d pc =
     (case d of
        None \<Rightarrow> Some pc
      | Some x \<Rightarrow>
          (let pc1 = (if isInput then (case dps_Priority x of None \<Rightarrow> pc | Some p \<Rightarrow> pc\<lparr>pn_Prio := Some (word_of_int p)\<rparr>) else pc)
           in if dps_State x = '''' then Some pc1
              else map_option (\<lambda>v. pc1\<lparr>pn_State := Some v\<rparr>) (GetPinStateUint32 (dps_State x))))"

definition desired_control :: "pin_cache \<Rightarrow> dpll_desired_state \<Rightarrow> parent_device \<Rightarrow> pin_control option" where
  "desired_control pins d pd =
     (let isInput = (pd_Direction pd = PinDirectionInput); t = ParentDeviceType pins (pd_ParentID pd);
          pc = no_control (pd_ParentID pd)
      in if t = Some DpllTypeEEC then set_desired isInput (dd_EEC d) pc
         else if t = Some DpllTypePPS then set_desired isInput (dd_PPS d) pc
         else Some pc)"

fun map_all :: "('a \<Rightarrow> 'b option) \<Rightarrow> 'a list \<Rightarrow> 'b list option" where
  "map_all f [] = Some []"
| "map_all f (x # xs) = (case f x of None \<Rightarrow> None | Some y \<Rightarrow> map_option (\<lambda>ys. y # ys) (map_all f xs))"

definition desired_command :: "pin_cache \<Rightarrow> u64 \<Rightarrow> dpll_desired_state \<Rightarrow> pin_command option" where
  "desired_command pins clockID d =
     (case GetPin pins clockID (dd_BoardLabel d) of
        None \<Rightarrow> None
      | Some pin \<Rightarrow>
          map_option (\<lambda>pcs. (no_command (pi_ID pin))\<lparr>cm_PinParentCtl := Some pcs\<rparr>)
            (map_all (desired_control pins d) (pi_ParentDevice pin)))"

text \<open>The cache of pins is there when desired states are resolved.\<close>

definition createPinCommandForDPLLDesiredState ::
  "hw_env \<Rightarrow> clock_chain \<Rightarrow> dpll_desired_state \<Rightarrow> hw_caches \<Rightarrow> pin_command option \<times> hw_caches" where
  "createPinCommandForDPLLDesiredState E cc d c =
     (if dd_Subsystem d = '''' then (None, c)
      else (case (GetSubsystemNetworkInterface cc (dd_Subsystem d), getSubsystemHardwareDefinition cc (dd_Subsystem d)) of
              (Some iface, Some path) \<Rightarrow>
                (case getClockIDCached E iface path c of
                   (None, c1) \<Rightarrow> (None, c1)
                 | (Some clockID, c1) \<Rightarrow>
                     ((case he_pins E of None \<Rightarrow> None | Some pins \<Rightarrow> desired_command pins clockID d), c1))
            | _ \<Rightarrow> (None, c)))"

fun resolveDpllPinCommands ::
  "hw_env \<Rightarrow> clock_chain \<Rightarrow> desired_state list \<Rightarrow> hw_caches \<Rightarrow> pin_command list option \<times> hw_caches" where
  "resolveDpllPinCommands E cc [] c = (Some [], c)"
| "resolveDpllPinCommands E cc (ds # dss) c =
     (case de_DPLL ds of
        None \<Rightarrow> resolveDpllPinCommands E cc dss c
      | Some d \<Rightarrow>
          (case createPinCommandForDPLLDesiredState E cc d c of
             (None, c1) \<Rightarrow> (None, c1)
           | (Some cmd, c1) \<Rightarrow>
               (case resolveDpllPinCommands E cc dss c1 of (cmds, c2) \<Rightarrow> (map_option (\<lambda>x. cmd # x) cmds, c2))))"

section \<open>Facts\<close>

text \<open>The cache of clock identifiers answers what the host would: it only saves the commands.\<close>

definition clock_ids_ok :: "hw_env \<Rightarrow> hw_caches \<Rightarrow> bool" where
  "clock_ids_ok E c \<longleftrightarrow>
     (\<forall>k i. map_of (hx_clockIDs c) k = Some i \<longrightarrow>
        (\<exists>iface path. k = clock_key iface path \<and>
           GetClockIDFromInterfaceWithCache (he_host E) iface path (he_pins E) = Some i \<and> i \<noteq> 0))"

definition plain_name :: "string \<Rightarrow> bool" where
  "plain_name s \<longleftrightarrow> CHR '':'' \<notin> set s"

lemma takeWhile_colon: "CHR '':'' \<notin> set a \<Longrightarrow> takeWhile (\<lambda>c. c \<noteq> CHR '':'') (a @ CHR '':'' # p) = a"
  by (induction a) auto

lemma clock_key_inj:
  "plain_name a \<Longrightarrow> plain_name b \<Longrightarrow> clock_key a p = clock_key b q \<longleftrightarrow> a = b \<and> p = q"
proof
  assume p: "plain_name a" "plain_name b" "clock_key a p = clock_key b q"
  have "takeWhile (\<lambda>c. c \<noteq> CHR '':'') (clock_key a p) = a" "takeWhile (\<lambda>c. c \<noteq> CHR '':'') (clock_key b q) = b"
    using p(1,2) by (auto simp: clock_key_def plain_name_def intro!: takeWhile_colon)
  then have "a = b" using p(3) by simp
  then show "a = b \<and> p = q" using p(3) by (simp add: clock_key_def)
qed simp

lemma getClockIDCached_ok: "clock_ids_ok E c \<Longrightarrow> clock_ids_ok E (snd (getClockIDCached E iface path c))"
  unfolding clock_ids_ok_def getClockIDCached_def by (auto split: option.splits)

lemma wrap32_id: "- (2 ^ 31) \<le> x \<Longrightarrow> x < 2 ^ 31 \<Longrightarrow> wrap32 x = x"
  by (simp add: wrap32_def int_word_sint)

lemma wrap32_range: "- (2 ^ 31) \<le> wrap32 x" "wrap32 x < 2 ^ 31"
  unfolding wrap32_def using sint_range_size [of "word_of_int x :: i32"] by (auto simp: word_size)

lemma div_le_self: "0 \<le> (y :: int) \<Longrightarrow> 0 < g \<Longrightarrow> y div g \<le> y"
  using zdiv_mono2 [of y 1 g] by simp

lemma round_up: "0 \<le> (x :: int) \<Longrightarrow> 0 < g \<Longrightarrow> \<bar>(x + g div 2) div g * g - x\<bar> \<le> g div 2 \<and> (x + g div 2) div g * g \<le> x + g div 2 \<and> 0 \<le> (x + g div 2) div g * g"
proof -
  assume a: "0 \<le> x" "0 < g"
  let ?q = "(x + g div 2) div g"
  have m: "?q * g + (x + g div 2) mod g = x + g div 2" by simp
  moreover have "0 \<le> (x + g div 2) mod g" "(x + g div 2) mod g < g" using a(2) by simp_all
  moreover have "g - 1 \<le> g div 2 + g div 2" by linarith
  moreover have "0 \<le> ?q * g" using a by (simp add: pos_imp_zdiv_nonneg_iff)
  ultimately show ?thesis by linarith
qed

lemma go_div_pos: "0 < g \<Longrightarrow> 0 \<le> x \<Longrightarrow> go_div x g = x div g"
  by (cases "x = 0") (auto simp: go_div_def sgn_if)

lemma go_div_neg: "0 < g \<Longrightarrow> x \<le> 0 \<Longrightarrow> go_div x g = - ((- x) div g)"
  by (cases "x = 0") (auto simp: go_div_def sgn_if)

text \<open>
  Without overflow the result is a multiple of the granularity at most half of it away.
\<close>

lemma wrapped_rounding:
  fixes x G :: int
  assumes "0 \<le> x" "x + G div 2 < 2 ^ 31" "1 < G"
  shows "wrap32 (wrap32 (go_div (wrap32 (x + G div 2)) G) * G) = (x + G div 2) div G * G"
    "wrap32 (wrap32 (go_div (wrap32 (- x - G div 2)) G) * G) = - ((x + G div 2) div G * G)"
proof -
  let ?s = "x + G div 2" let ?q = "?s div G"
  have s: "0 \<le> ?s" "?s < 2 ^ 31" using assms by simp_all
  have q: "0 \<le> ?q" "?q \<le> ?s" using s assms(3) by (simp_all add: pos_imp_zdiv_nonneg_iff div_le_self)
  have r: "0 \<le> ?q * G" "?q * G \<le> ?s" using round_up [of x G] assms by auto
  have "wrap32 ?s = ?s" "wrap32 ?q = ?q" "wrap32 (?q * G) = ?q * G"
    using s q r by (auto intro!: wrap32_id)
  moreover have "go_div ?s G = ?q" using s assms(3) by (intro go_div_pos) linarith+
  ultimately show "wrap32 (wrap32 (go_div (wrap32 ?s) G) * G) = ?q * G" by simp
  have "wrap32 (- ?s) = - ?s" "wrap32 (- ?q) = - ?q" "wrap32 (- (?q * G)) = - (?q * G)"
    using s q r by (auto intro!: wrap32_id)
  moreover have "go_div (- ?s) G = - ?q" using s assms(3) go_div_neg [of G "- ?s"] by (simp add: add.commute)
  moreover have "- x - G div 2 = - ?s" by simp
  ultimately show "wrap32 (wrap32 (go_div (wrap32 (- x - G div 2)) G) * G) = - (?q * G)"
    by (simp only: mult_minus_left)
qed

lemma rounded_is_nearest:
  assumes g: "1 < gran" "gran < 2 ^ 31" and v: "\<bar>v\<bar> + uint gran div 2 < 2 ^ 31"
  shows "uint gran dvd roundToGranularity v gran \<and> \<bar>roundToGranularity v gran - v\<bar> \<le> uint gran div 2"
proof -
  define G where "G = uint gran"
  have "uint (1 :: u32) < uint gran" "uint gran < uint (2 ^ 31 :: u32)" using g by (simp_all only: word_less_def)
  then have G: "1 < G" "G < 2 ^ 31" by (simp_all add: G_def)
  have sg: "sint gran = G" unfolding G_def using G by (simp add: G_def sint_uint signed_take_bit_int_eq_self)
  have half: "go_div G 2 = G div 2" using G by (simp add: go_div_pos)
  have ng: "\<not> gran \<le> 1" using g(1) by simp
  define m where "m = (\<bar>v\<bar> + G div 2) div G * G"
  have m: "\<bar>m - \<bar>v\<bar>\<bar> \<le> G div 2" "G dvd m" using round_up [of "\<bar>v\<bar>" G] G by (auto simp: m_def)
  note w = wrapped_rounding [of "\<bar>v\<bar>" G, folded m_def]
  have "\<bar>v\<bar> + G div 2 < 2 ^ 31" using v by (simp add: G_def)
  then have "roundToGranularity v gran = (if 0 \<le> v then m else - m)"
    unfolding roundToGranularity_def Let_def sg half using ng w G by (cases "0 \<le> v") simp_all
  then show ?thesis using m unfolding G_def by (simp split: if_splits)
qed

text \<open>The value that is sent lies within the limits of the pin, where it has limits.\<close>

lemma adjustment_within_limits:
  assumes "pi_PhaseAdjustMin pin \<noteq> 0" "pi_PhaseAdjustMax pin \<noteq> 0" "pi_PhaseAdjustMin pin \<le> pi_PhaseAdjustMax pin"
  shows "pi_PhaseAdjustMin pin \<le> phase_adjustment pin adj \<and> phase_adjustment pin adj \<le> pi_PhaseAdjustMax pin"
  using assms by (auto simp: phase_adjustment_def clamp_adjustment_def Let_def)

text \<open>
  But it need not be a multiple of the granularity when it was clamped, an adjustment of 2^31 ps comes
  out as the smallest one, and rounding the largest value overflows.
\<close>

lemma clamping_leaves_granularity:
  "phase_adjustment (empty_pin\<lparr>pi_PhaseAdjustGran := 10, pi_PhaseAdjustMin := -15, pi_PhaseAdjustMax := 15\<rparr>) 18 = 15"
  by code_simp

lemma large_adjustment_changes_sign:
  "phase_adjustment (empty_pin\<lparr>pi_PhaseAdjustMin := -1000, pi_PhaseAdjustMax := 1000\<rparr>) (2 ^ 31) = -1000"
  by code_simp

lemma rounding_overflows: "roundToGranularity (2 ^ 31 - 1) 10 < 0"
  by code_simp

section \<open>Properties\<close>

text \<open>
  C21. The phase adjustment sent for a pin with limits and a granularity is the nearest multiple of the
  granularity (at most half of it away from the configured total, of either sign), cut to the limits of
  the pin; in particular it lies within them. This holds as long as the total and half the granularity
  fit 31 bits (beyond that the sign can change, \<open>large_adjustment_changes_sign\<close>), and a value that was
  cut need not be a multiple (\<open>clamping_leaves_granularity\<close>).
\<close>

theorem phase_adjustment_is_nearest:
  assumes "1 < pi_PhaseAdjustGran pin" "pi_PhaseAdjustGran pin < 2 ^ 31"
    "\<bar>adj\<bar> + uint (pi_PhaseAdjustGran pin) div 2 < 2 ^ 31"
    "pi_PhaseAdjustMin pin \<noteq> 0" "pi_PhaseAdjustMax pin \<noteq> 0" "pi_PhaseAdjustMin pin \<le> pi_PhaseAdjustMax pin"
  shows "\<exists>m. uint (pi_PhaseAdjustGran pin) dvd m \<and> 2 * \<bar>m - adj\<bar> \<le> uint (pi_PhaseAdjustGran pin) \<and>
    phase_adjustment pin adj = max (pi_PhaseAdjustMin pin) (min m (pi_PhaseAdjustMax pin)) \<and>
    phase_adjustment pin adj \<in> {pi_PhaseAdjustMin pin .. pi_PhaseAdjustMax pin}"
proof -
  let ?g = "pi_PhaseAdjustGran pin" let ?m = "roundToGranularity adj ?g"
  have "0 \<le> uint ?g" by simp
  then have "wrap32 adj = adj" using assms(3) by (intro wrap32_id) linarith+
  then have "phase_adjustment pin adj = max (pi_PhaseAdjustMin pin) (min ?m (pi_PhaseAdjustMax pin))"
    using assms(4-6) by (auto simp: phase_adjustment_def clamp_adjustment_def Let_def)
  moreover have "2 * \<bar>?m - adj\<bar> \<le> 2 * (uint ?g div 2)"
    using rounded_is_nearest [OF assms(1-3)] by simp
  then have "2 * \<bar>?m - adj\<bar> \<le> uint ?g" by (rule order_trans) presburger
  ultimately show ?thesis using rounded_is_nearest [OF assms(1-3)] assms(6) by (intro exI [of _ ?m]) auto
qed

definition sample_pin_limits :: pin_info where
  "sample_pin_limits = empty_pin\<lparr>pi_PhaseAdjustGran := 10, pi_PhaseAdjustMin := -100, pi_PhaseAdjustMax := 100\<rparr>"

lemma sample_pin_limits_simps [simp]:
  "pi_PhaseAdjustGran sample_pin_limits = 10" "pi_PhaseAdjustMin sample_pin_limits = -100"
  "pi_PhaseAdjustMax sample_pin_limits = 100"
  by (simp_all add: sample_pin_limits_def)

theorem phase_adjustment_is_nearest_witness:
  "\<exists>m. 10 dvd m \<and> 2 * \<bar>m - - 18\<bar> \<le> 10 \<and> phase_adjustment sample_pin_limits (- 18) = max (- 100) (min m 100) \<and>
     phase_adjustment sample_pin_limits (- 18) \<in> {- 100 .. 100}"
  using phase_adjustment_is_nearest [of sample_pin_limits "- 18"] by simp

end
