(* ===== verification/Spec2Isabelle.thy ===== *)
theory Spec2Isabelle
  imports ClockMgr Dpll ProtocolText Aliases IpcLink Supervisor SideProcess CloudEvents PtpConf Gnss LeapFile Pmc LogEvents LogFilter HwPins
begin

text \<open>
  linuxptp-daemon runs on every node of a cluster: it supervises the linuxptp programs (ptp4l,
  phc2sys, ts2phc, synce4l, pmc, gpsd), reads their logs and the DPLLs of the cards, keeps one
  software clock per PTP profile that derives a synchronisation state from these sources, and
  publishes the states to cloud-event-proxy. This development models that core in HOL: the data as
  records and datatypes, each operation as an executable function on explicit state, goroutines,
  timers and sockets as steps of a run whose events carry what the outside decides.

  \<^bold>\<open>Parts, in the order of the imports.\<close>

  \<^item> \<open>Prelude\<close>, \<open>Float64\<close>, \<open>GoText\<close>: what the code uses of Go itself. Strings and maps (association
    lists where Go's iteration order matters); binary64 arithmetic as exact rationals with one
    rounding per operation; \<open>strconv\<close> and a backtracking matcher for the regular expressions, with
    soundness and completeness against the language of an expression.
  \<^item> \<open>Window\<close>, \<open>Hysteresis\<close> (\<open>pkg/utils\<close>): the ring buffer of offsets, which refines the bounded
    history of the samples, and the counting filter, equal to a definition over all samples.
  \<^item> \<open>Ipc\<close>, \<open>IpcLink\<close> (\<open>pkg/ipc\<close>, \<open>pkg/utils/reconnect.go\<close>): messages, the deduplicating cache
    with its bounded channel (it refines a map), the dialling with backoff, and the loop that serves
    a peer. The invariant is that the messages in the channel bring the peer's view to the cache.
  \<^item> \<open>Protocol\<close>, \<open>ProtocolText\<close> (\<open>pkg/protocol\<close>): the PTP data sets, and how pmc's replies are read
    with regular expressions; what is reported is read back exactly.
  \<^item> \<open>Event\<close>, \<open>Stats\<close> (\<open>pkg/event\<close>): states, event payloads, the per-source details and windows.
  \<^item> \<open>ClockBase\<close>, \<open>BcClock\<close>, \<open>BcTimers\<close>, \<open>HaClock\<close>, \<open>GmClock\<close>, \<open>TbcClock\<close> (\<open>pkg/clock\<close>): the OS clock and
    the four kinds of PTP clock. Operations return the new state and the effects they had (messages
    sent, timers armed and stopped, commands for pmc). \<open>BcTimers\<close> adds the timers and the event
    queue as concurrent processes.
  \<^item> \<open>Conditions\<close>, \<open>PtpProcess\<close>, \<open>SideProcess\<close>, \<open>Supervisor\<close> (\<open>pkg/process\<close>, \<open>pkg/daemon/ptp_process.go\<close>,
    \<open>gpsd.go\<close>, \<open>gpspipe.go\<close>, \<open>pmc.go\<close>, \<open>process_manager.go\<close>): the conditions on which processes are
    started and stopped, the life of a child process as interleaved steps of its goroutines, and
    the manager that starts, stops, restarts and reconciles them.
  \<^item> \<open>ClockMgr\<close> (\<open>pkg/clockmgr\<close>): the event loop over all clocks and the OS clock.
  \<^item> \<open>Dpll\<close> (\<open>pkg/dpll\<close>): the DPLL monitor and its holdover goroutines, of which there is one at a time.
  \<^item> \<open>Netlink\<close>, \<open>DpllNetlink\<close> (\<open>mdlayher/netlink\<close> in \<open>vendor\<close>, \<open>pkg/dpll-netlink\<close>): attributes as bytes,
    the replies about devices and pins, the command that sets a pin, which the parser reads back, and
    the pin tables, which show the pins that the monitor follows.
  \<^item> \<open>HwModel\<close>, \<open>HwVendor\<close>, \<open>HwPins\<close> (\<open>pkg/hardwareconfig\<close>): the records of the API with the cache of pins and
    the clock identifiers; the vendor defaults and delays; the pin commands made from them. A phase
    adjustment is the nearest multiple of the granularity within the limits of the pin.
  \<^item> \<open>PubSub\<close>, \<open>CloudEvents\<close> (\<open>pkg/cep\<close>): cloud-event-proxy, the peer of the IPC link. The table of
    subscriptions with its free list and index refines a multiset of records, the event cache a map
    from message types to data values; the REST handlers and their routing are functions of both.
  \<^item> \<open>GoStrings\<close>, \<open>Profile\<close>, \<open>Resolver\<close>, \<open>PtpConf\<close> (\<open>pkg/daemon/config.go\<close>, \<open>pkg/network/resolve.go\<close>,
    \<open>pkg/config\<close>): the profiles of a node and the configuration files made from them. What is rendered
    is parsed back; interface names resolve to a function of the last scan.
  \<^item> \<open>Synce\<close> (\<open>pkg/synce\<close>): quality levels, the relations of devices and ports, the log of synce4l.
  \<^item> \<open>Ublox\<close>, \<open>UbloxBroker\<close>, \<open>UbloxCmd\<close>, \<open>Gnss\<close> (\<open>pkg/ublox\<close>, \<open>pkg/daemon/gpsd.go\<close>): the output of ubxtool
    becomes messages, the broker queues them for its subscribers while they come and go, commands
    wait for their acknowledgements among them, and status and clock of one epoch make a GNSS event.
  \<^item> \<open>LeapFile\<close> (\<open>pkg/leap\<close>): the leap-seconds file in the config map, its update on an indication of
    the receiver, and the announcement of a leap second.
  \<^item> \<open>LogParser\<close>, \<open>Ts2Phc\<close>, \<open>LogEvents\<close> (\<open>pkg/parser\<close>, \<open>pkg/daemon/ts2phc.go\<close>, \<open>log_parsing.go\<close>,
    \<open>metrics.go\<close>, the line handling of \<open>ptp_process.go\<close>): from a line of a program's log to metrics and
    events. The expressions of the parsers, of which an offset line is shown to be read back; the poll
    cycles of ts2phc, which report exactly the sinks that were left out; the followed port and its
    loss; the filter through which a telecom boundary clock leaves holdover.
  \<^item> \<open>LogFilter\<close> (\<open>pkg/logfilter\<close>): which lines are printed, and the summaries of those that are not.
  \<^item> \<open>Pmc\<close> (\<open>pkg/pmc\<close>, \<open>pkg/daemon/pmc.go\<close>): requests to pmc with their retries, and the monitor that
    reports changes of the parent data set.
  \<^item> \<open>Aliases\<close> (\<open>pkg/alias\<close>, \<open>pkg/utils/utils.go\<close>): the names under which interfaces are reported.

  \<^bold>\<open>How they interact.\<close> Parsers and the DPLL monitor send events (\<open>Event\<close>) into one channel; the
  process manager acts on them (\<open>Supervisor\<close>) and forwards them to the clock manager (\<open>ClockMgr\<close>),
  which hands each to its clock (the \<open>*_AddEvent\<close> functions), which updates its statistics
  (\<open>Stats\<close>, \<open>Window\<close>), decides its state and sends messages (\<open>Ipc\<close>); the link delivers them. The
  statistics flow back to the conditions of the process manager.

  \<^bold>\<open>Interfaces.\<close> The locales state what one part relies on in another: \<open>keyed_store\<close> (\<open>Ipc\<close>: what a
  lookup returns after sends and clears), \<open>offset_history\<close> (\<open>Window\<close>), \<open>deviation_filter\<close>
  (\<open>Hysteresis\<close>, used by the clocks that lock through a filter), \<open>state_reporter\<close> (\<open>ClockBase\<close>: clocks whose
  messages replay their state, interpreted on each of the four clocks) and \<open>stepper\<close> (\<open>Prelude\<close>:
  components that are lists of enabled steps, interpreted on the life of a process, on the link and on the subscriptions).

  \<^bold>\<open>Bounds.\<close> No definition uses fuel: recursion is structural, has a termination proof, or is a
  \<open>partial_function\<close> whose result is proved to exist (\<open>start_terminates\<close>, under the assumption
  that the clock does not run backwards). Machine words have their width; hypotheses such as
  \<open>unat seq + n < 2 ^ 64\<close> say that a generation counter does not wrap around in the run considered.
  A panic (a nil pointer, a closed channel, an unhandled case) is a value of the model: \<open>None\<close>, or a
  flag of the state.

  \<^bold>\<open>Not modelled.\<close> Kubernetes objects, files, sysfs, netlink sockets, serial devices and Prometheus (pure
  I/O); the manager of hardware configurations with its connector files and the vendor plugins (mostly
  writes to the hardware); the exits by \<open>glog.Fatal\<close> outside \<open>LeapFile\<close>: the clocks are given a UTC offset,
  as if \<open>leap.GetUtcOffset\<close> always knew one; the text of the daemon's own log and
  the debug tree. Programs that are called (pmc, ptp4l) and the operating system are parameters: the
  replies, exits and failures of a run are part of its events.
\<close>

section \<open>Properties across the clocks\<close>

text \<open>
  C4. Subscribers are never left with a stale overall state: for each of the four kinds of clock,
  over any sequence of events and OS clock updates, replaying the sync-state messages it sent, on
  the overall state it started with, gives the overall state it ends with.
\<close>

theorem clocks_publish_overall_state:
  "map_option (\<lambda>r. sync_view (PtpStateToIPCState (c_overall b)) (ipc_sent (snd r))) (bc_rep.run ops b) =
     map_option (\<lambda>r. PtpStateToIPCState (c_overall (fst r))) (bc_rep.run ops b) \<and>
   map_option (\<lambda>r. sync_view (PtpStateToIPCState (c_overall h)) (ipc_sent (snd r))) (ha_rep.run ops h) =
     map_option (\<lambda>r. PtpStateToIPCState (c_overall (fst r))) (ha_rep.run ops h) \<and>
   map_option (\<lambda>r. sync_view (PtpStateToIPCState (c_overall g)) (ipc_sent (snd r))) (gm_rep.run ops g) =
     map_option (\<lambda>r. PtpStateToIPCState (c_overall (fst r))) (gm_rep.run ops g) \<and>
   map_option (\<lambda>r. sync_view (PtpStateToIPCState (c_overall (fst t))) (ipc_sent (snd r))) (tbc_rep.run ops t) =
     map_option (\<lambda>r. PtpStateToIPCState (c_overall (fst (fst r)))) (tbc_rep.run ops t)"
  by (intro conjI bc_rep.run_shown ha_rep.run_shown gm_rep.run_shown tbc_rep.run_shown)

text \<open>
  Boundary clocks and T-BCs also publish their own state faithfully: over any sequence of events
  and OS clock updates, replaying their PTP-state messages gives the state they end with.
\<close>

lemma clocks_publish_own_state:
  "map_option (\<lambda>r. ptp_view (PtpStateToIPCState (b_syncState b)) (ipc_sent (snd r))) (bc_ptp.run ops b) =
     map_option (\<lambda>r. PtpStateToIPCState (b_syncState (fst r))) (bc_ptp.run ops b) \<and>
   map_option (\<lambda>r. ptp_view (PtpStateToIPCState (ss_State (t_syncState (fst t)))) (ipc_sent (snd r)))
       (tbc_ptp.run ops t) =
     map_option (\<lambda>r. PtpStateToIPCState (ss_State (t_syncState (fst (fst r))))) (tbc_ptp.run ops t)"
  by (intro conjI bc_ptp.run_shown tbc_ptp.run_shown)

end
